(* ===== verification/Prelude.thy ===== *)
theory Prelude
  imports Main "HOL-Library.Word" "HOL-Library.Multiset" "HOL-Library.AList"
    "HOL-Library.Signed_Division" "HOL-Library.List_Lexorder" "HOL-Library.Char_ord"
begin

text \<open>
  Shared vocabulary of the development: results of fallible Go functions as sums
  (\<open>Inl\<close> an error, \<open>Inr\<close> a value), Go's \<^verbatim>\<open>int64\<close> range and its two's complement
  wrap-around on \<^typ>\<open>int\<close>, the byte and UTF-8 functions of the standard library that the
  sources call, stable sorting by a comparison function, and the generic lemmas about
  them that every component uses.
\<close>

section \<open>Automation collections\<close>

named_theorems go_arith \<open>range and wrap-around facts for Go integers\<close>
named_theorems enum_simps \<open>validation of the closed string enumerations\<close>
named_theorems result_elims \<open>inversion of successful results\<close>

section \<open>Results\<close>

text \<open>A Go function that returns \<open>(T, error)\<close> or only \<open>error\<close>.\<close>

type_synonym ('e, 'a) result = "'e + 'a"

abbreviation ok :: "('e, unit) result" where
  "ok \<equiv> Inr ()"

text \<open>A \<^verbatim>\<open>for range\<close> loop whose body may return early with an error.\<close>

fun foldE :: "('s \<Rightarrow> 'a \<Rightarrow> ('e, 's) result) \<Rightarrow> 's \<Rightarrow> 'a list \<Rightarrow> ('e, 's) result" where
  "foldE f s [] = Inr s"
| "foldE f s (x # xs) = (case f s x of Inl e \<Rightarrow> Inl e | Inr s' \<Rightarrow> foldE f s' xs)"

text \<open>A loop that appends the result of a fallible call for every element.\<close>

fun mapE :: "('a \<Rightarrow> ('e, 'b) result) \<Rightarrow> 'a list \<Rightarrow> ('e, 'b list) result" where
  "mapE f [] = Inr []"
| "mapE f (x # xs) =
     (case f x of Inl e \<Rightarrow> Inl e
      | Inr y \<Rightarrow> (case mapE f xs of Inl e \<Rightarrow> Inl e | Inr ys \<Rightarrow> Inr (y # ys)))"

text \<open>A loop that only checks every element.\<close>

fun checkE :: "('a \<Rightarrow> ('e, unit) result) \<Rightarrow> 'a list \<Rightarrow> ('e, unit) result" where
  "checkE f [] = ok"
| "checkE f (x # xs) = (case f x of Inl e \<Rightarrow> Inl e | Inr _ \<Rightarrow> checkE f xs)"

text \<open>Inversion of a call that is checked for an error before the code goes on.\<close>

lemma case_result_ok:
  "(case r of Inl e \<Rightarrow> Inl (f e) | Inr x \<Rightarrow> k x) = Inr v \<longleftrightarrow> (\<exists>x. r = Inr x \<and> k x = Inr v)"
  by (cases r) auto

lemma foldE_append:
  "foldE f s (xs @ ys) = (case foldE f s xs of Inl e \<Rightarrow> Inl e | Inr s' \<Rightarrow> foldE f s' ys)"
  by (induction xs arbitrary: s) (auto split: sum.splits)

lemma foldE_invariant:
  assumes "foldE f s xs = Inr t" and "P s"
    and "\<And>s x s'. x \<in> set xs \<Longrightarrow> P s \<Longrightarrow> f s x = Inr s' \<Longrightarrow> P s'"
  shows "P t"
  using assms
proof (induction xs arbitrary: s)
  case (Cons x xs)
  then obtain s' where "f s x = Inr s'" and "foldE f s' xs = Inr t"
    by (auto split: sum.splits)
  with Cons show ?case by (metis list.set_intros)
qed simp

lemma mapE_Inr_iff: "mapE f xs = Inr ys \<longleftrightarrow> list_all2 (\<lambda>x y. f x = Inr y) xs ys"
proof (induction xs arbitrary: ys)
  case (Cons x xs)
  show ?case
    by (cases ys) (auto simp flip: Cons.IH split: sum.splits)
qed auto

lemma mapE_length: "mapE f xs = Inr ys \<Longrightarrow> length ys = length xs"
  by (simp add: mapE_Inr_iff list_all2_lengthD)

lemma checkE_ok_iff [simp]: "checkE f xs = Inr u \<longleftrightarrow> (\<forall>x\<in>set xs. f x = ok)"
  by (induction xs) (auto split: sum.splits)

lemma checkE_cong:
  "(\<And>x. x \<in> set xs \<Longrightarrow> f x = g x) \<Longrightarrow> checkE f xs = checkE g xs"
  by (induction xs) (simp_all split: sum.splits)

section \<open>Go integers\<close>

definition int64 :: "int \<Rightarrow> bool" where
  "int64 x \<longleftrightarrow> - (2 ^ 63) \<le> x \<and> x < 2 ^ 63"

definition maxInt64 :: int where
  "maxInt64 = 2 ^ 63 - 1"

definition minInt64 :: int where
  "minInt64 = - (2 ^ 63)"

text \<open>The value of an unchecked \<^verbatim>\<open>int64\<close> operation whose exact result is \<open>x\<close>.\<close>

definition wrap64 :: "int \<Rightarrow> int" where
  "wrap64 x = (x + 2 ^ 63) mod 2 ^ 64 - 2 ^ 63"

lemma wrap64_id [go_arith]: "int64 x \<Longrightarrow> wrap64 x = x"
  by (simp add: int64_def wrap64_def)

lemma int64_wrap64 [go_arith]: "int64 (wrap64 x)"
proof -
  have "0 \<le> (x + 2 ^ 63) mod 2 ^ 64" and "(x + 2 ^ 63) mod 2 ^ 64 < (2 ^ 64 :: int)"
    by simp_all
  then show ?thesis by (simp add: wrap64_def int64_def)
qed

lemma int64_maxInt64_iff: "int64 x \<longleftrightarrow> minInt64 \<le> x \<and> x \<le> maxInt64"
  by (auto simp: int64_def minInt64_def maxInt64_def)

text \<open>The bit pattern of an \<^verbatim>\<open>int64\<close> read as \<^verbatim>\<open>uint64\<close>.\<close>

definition uint64_of :: "int \<Rightarrow> 64 word" where
  "uint64_of x = word_of_int x"

lemma uint64_of_diff:
  assumes "int64 a" and "int64 b" and "b \<le> a"
  shows "uint (uint64_of a - uint64_of b) = a - b"
proof -
  have "uint (uint64_of a - uint64_of b) = (a - b) mod 2 ^ 64"
    by (simp add: uint64_of_def uint_word_of_int take_bit_eq_mod flip: of_int_diff)
  also have "\<dots> = a - b"
    using assms by (simp add: int64_def)
  finally show ?thesis .
qed

lemma uint_uint64_of: "0 \<le> a \<Longrightarrow> int64 a \<Longrightarrow> uint (uint64_of a) = a"
  by (simp add: uint64_of_def uint_word_of_int int64_def take_bit_eq_mod)

section \<open>Bytes and UTF-8\<close>

definition byte :: "char \<Rightarrow> nat" where
  "byte c = of_char c"

lemma byte_inject: "byte a = byte b \<longleftrightarrow> a = b"
  by (simp add: byte_def)

definition utf8_cont :: "char \<Rightarrow> bool" where
  "utf8_cont c \<longleftrightarrow> 128 \<le> byte c \<and> byte c \<le> 191"

text \<open>\<^verbatim>\<open>utf8.Valid\<close>: the table of RFC 3629 that the standard library implements.\<close>

fun utf8_valid :: "string \<Rightarrow> bool" where
  "utf8_valid [] = True"
| "utf8_valid (a # s) =
     (if byte a < 128 then utf8_valid s
      else case s of [] \<Rightarrow> False | b # s1 \<Rightarrow>
        if 194 \<le> byte a \<and> byte a \<le> 223 then utf8_cont b \<and> utf8_valid s1
        else case s1 of [] \<Rightarrow> False | c # s2 \<Rightarrow>
          if 224 \<le> byte a \<and> byte a \<le> 239
          then utf8_cont b \<and> (byte a = 224 \<longrightarrow> 160 \<le> byte b) \<and> (byte a = 237 \<longrightarrow> byte b \<le> 159)
            \<and> utf8_cont c \<and> utf8_valid s2
          else case s2 of [] \<Rightarrow> False | d # s3 \<Rightarrow>
            240 \<le> byte a \<and> byte a \<le> 244
            \<and> utf8_cont b \<and> (byte a = 240 \<longrightarrow> 144 \<le> byte b) \<and> (byte a = 244 \<longrightarrow> byte b \<le> 143)
            \<and> utf8_cont c \<and> utf8_cont d \<and> utf8_valid s3)"

lemma utf8_valid_ascii: "\<forall>c\<in>set s. byte c < 128 \<Longrightarrow> utf8_valid s"
  by (induction s) auto

section \<open>Stable sorting\<close>

text \<open>
  \<^verbatim>\<open>sort.SliceStable\<close> and \<^verbatim>\<open>slices.SortFunc\<close> as Go's insertion sort: every element moves
  left past the elements it is lt than. For a strict weak ordering this is the stable
  sort; \<^verbatim>\<open>slices.SortFunc\<close> may order equal elements differently, and
  \<open>sort_order.slice_stable_unique\<close> says when that cannot be seen.
\<close>

fun insert_back :: "('a \<Rightarrow> 'a \<Rightarrow> bool) \<Rightarrow> 'a \<Rightarrow> 'a list \<Rightarrow> 'a list" where
  "insert_back lt x [] = [x]"
| "insert_back lt x (y # ys) = (if lt x y then y # insert_back lt x ys else x # y # ys)"

definition slice_stable :: "('a \<Rightarrow> 'a \<Rightarrow> bool) \<Rightarrow> 'a list \<Rightarrow> 'a list" where
  "slice_stable lt xs = rev (foldl (\<lambda>acc x. insert_back lt x acc) [] xs)"

lemma mset_insert_back [simp]: "mset (insert_back lt x ys) = add_mset x (mset ys)"
  by (induction ys) auto

lemma mset_foldl_insert_back:
  "mset (foldl (\<lambda>acc x. insert_back lt x acc) acc xs) = mset acc + mset xs"
  by (induction xs arbitrary: acc) auto

lemma mset_slice_stable [simp]: "mset (slice_stable lt xs) = mset xs"
  by (simp add: slice_stable_def mset_foldl_insert_back)

lemma set_slice_stable [simp]: "set (slice_stable lt xs) = set xs"
  by (metis mset_slice_stable set_mset_mset)

lemma length_slice_stable [simp]: "length (slice_stable lt xs) = length xs"
  by (metis mset_slice_stable size_mset)

lemma distinct_slice_stable [simp]: "distinct (map f (slice_stable lt xs)) = distinct (map f xs)"
  by (metis mset_map mset_slice_stable mset_eq_imp_distinct_iff)

text \<open>The contract of a comparison function: a strict weak ordering.\<close>

locale sort_order =
  fixes lt :: "'a \<Rightarrow> 'a \<Rightarrow> bool"
  assumes asym: "lt x y \<Longrightarrow> \<not> lt y x"
    and negtrans: "\<not> lt x y \<Longrightarrow> \<not> lt y z \<Longrightarrow> \<not> lt x z"
begin

lemma insert_back_sorted:
  "sorted_wrt (\<lambda>a b. \<not> lt a b) acc \<Longrightarrow> sorted_wrt (\<lambda>a b. \<not> lt a b) (insert_back lt x acc)"
proof (induction acc)
  case Nil
  then show ?case by simp
next
  case (Cons y ys)
  have set_ins: "set (insert_back lt x ys) = insert x (set ys)"
    by (metis mset_insert_back set_mset_add_mset_insert set_mset_mset)
  show ?case
  proof (cases "lt x y")
    case True
    with Cons show ?thesis by (auto simp: set_ins dest: asym)
  next
    case False
    with Cons.prems show ?thesis by (auto dest: negtrans)
  qed
qed

lemma foldl_insert_back_sorted:
  "sorted_wrt (\<lambda>a b. \<not> lt a b) acc
    \<Longrightarrow> sorted_wrt (\<lambda>a b. \<not> lt a b) (foldl (\<lambda>acc x. insert_back lt x acc) acc xs)"
  by (induction xs arbitrary: acc) (simp_all add: insert_back_sorted)

lemma slice_stable_sorted: "sorted_wrt (\<lambda>a b. \<not> lt b a) (slice_stable lt xs)"
  unfolding slice_stable_def sorted_wrt_rev by (rule foldl_insert_back_sorted) simp

lemma sorted_perm_unique:
  assumes "sorted_wrt (\<lambda>a b. \<not> lt b a) xs" and "sorted_wrt (\<lambda>a b. \<not> lt b a) ys"
    and "mset xs = mset ys"
    and "\<And>a b. a \<in> set xs \<Longrightarrow> b \<in> set xs \<Longrightarrow> a \<noteq> b \<Longrightarrow> lt a b \<or> lt b a"
  shows "xs = ys"
  using assms
proof (induction xs arbitrary: ys)
  case Nil
  then show ?case by simp
next
  case (Cons x xs)
  then obtain y ys' where ys: "ys = y # ys'"
    by (cases ys) auto
  have sets: "set (x # xs) = set ys"
    using Cons.prems(3) by (rule mset_eq_setD)
  have "x = y"
  proof (rule ccontr)
    assume neq: "x \<noteq> y"
    have "x \<in> set ys" and "y \<in> set (x # xs)"
      using sets ys by auto
    then have "x \<in> set ys'" and "y \<in> set xs"
      using neq ys by auto
    then have "\<not> lt x y" and "\<not> lt y x"
      using Cons.prems(1,2) ys by auto
    moreover have "lt x y \<or> lt y x"
      using Cons.prems(4) [of x y] \<open>y \<in> set xs\<close> neq by simp
    ultimately show False by blast
  qed
  with Cons ys show ?case by simp
qed

text \<open>
  Where the order separates distinct elements, the sorted list depends on the elements
  only: any correct sorting routine returns it, whatever the order of the input.
\<close>

lemma slice_stable_unique:
  assumes "mset ys = mset xs" and "sorted_wrt (\<lambda>a b. \<not> lt b a) ys"
    and "\<And>a b. a \<in> set xs \<Longrightarrow> b \<in> set xs \<Longrightarrow> a \<noteq> b \<Longrightarrow> lt a b \<or> lt b a"
  shows "ys = slice_stable lt xs"
proof (rule sorted_perm_unique [OF assms(2) slice_stable_sorted])
  show "mset ys = mset (slice_stable lt xs)"
    using assms(1) by simp
  have "set ys = set xs"
    using assms(1) by (rule mset_eq_setD)
  then show "\<And>a b. a \<in> set ys \<Longrightarrow> b \<in> set ys \<Longrightarrow> a \<noteq> b \<Longrightarrow> lt a b \<or> lt b a"
    using assms(3) by simp
qed

end

text \<open>Ordering by a key into a linear order is such a contract, in either direction.\<close>

lemma sort_order_key: "sort_order (\<lambda>a b. (f a :: 'k::linorder) < f b)"
  by unfold_locales auto

text \<open>Lexicographic combination: compare first by one key, then by an order.\<close>

lemma sort_order_lex:
  fixes f :: "'a \<Rightarrow> 'k::linorder"
  assumes "sort_order r"
  shows "sort_order (\<lambda>a b. if f a \<noteq> f b then f a < f b else r a b)"
proof
  fix x y z
  assume "\<not> (if f x \<noteq> f y then f x < f y else r x y)" and "\<not> (if f y \<noteq> f z then f y < f z else r y z)"
  then show "\<not> (if f x \<noteq> f z then f x < f z else r x z)"
    by (auto split: if_splits dest: sort_order.negtrans [OF assms])
next
  fix x y
  assume "if f x \<noteq> f y then f x < f y else r x y"
  then show "\<not> (if f y \<noteq> f x then f y < f x else r y x)"
    by (auto split: if_splits dest: sort_order.asym [OF assms])
qed

section \<open>Lists\<close>

lemma take_le_length: "length xs > n \<Longrightarrow> length (take n xs) = n"
  by simp

lemma sum_list_nonneg_le:
  fixes xs :: "int list"
  assumes "\<forall>x\<in>set xs. 0 \<le> x" and "y \<in> set xs"
  shows "y \<le> sum_list xs"
proof -
  have "sum_list xs = y + sum_list (remove1 y xs)"
    using assms(2) by (simp add: sum_list_map_remove1 [of y xs "\<lambda>x. x", simplified])
  moreover have "0 \<le> sum_list (remove1 y xs)"
    using assms(1) by (intro sum_list_nonneg) (auto dest: notin_set_remove1)
  ultimately show ?thesis by simp
qed

end
