(* ===== verification/Go_Strings.thy ===== *)
theory Go_Strings
  imports Prelude
begin

text \<open>
  The parts of Go's standard library that the sources use on text: decimal formatting and
  parsing (\<^verbatim>\<open>strconv\<close>), decoding of one JSON string (\<^verbatim>\<open>encoding/json\<close>) and the
  white-space test of \<^verbatim>\<open>strings.TrimSpace\<close>. Strings are byte lists, as in Go.
\<close>

section \<open>Decimal digits\<close>

definition isDigit :: "char \<Rightarrow> bool" where
  "isDigit c \<longleftrightarrow> 48 \<le> byte c \<and> byte c \<le> 57"

definition digit_char :: "nat \<Rightarrow> char" where
  "digit_char d = char_of (48 + d)"

fun nat_digits :: "nat \<Rightarrow> string" where
  "nat_digits n =
     (if n < 10 then [digit_char n] else nat_digits (n div 10) @ [digit_char (n mod 10)])"

declare nat_digits.simps [simp del]

definition digits_value :: "string \<Rightarrow> nat" where
  "digits_value s = foldl (\<lambda>n c. 10 * n + (byte c - 48)) 0 s"

text \<open>\<^verbatim>\<open>strconv.FormatInt(v, 10)\<close>.\<close>

definition FormatInt :: "int \<Rightarrow> string" where
  "FormatInt v = (if v < 0 then CHR ''-'' # nat_digits (nat (- v)) else nat_digits (nat v))"

text \<open>\<^verbatim>\<open>strconv.ParseInt(s, 10, 64)\<close>; \<open>None\<close> is a syntax or range error.\<close>

definition ParseInt :: "string \<Rightarrow> int option" where
  "ParseInt s =
     (let neg = (s \<noteq> [] \<and> hd s = CHR ''-'');
          ds = (if s \<noteq> [] \<and> (hd s = CHR ''-'' \<or> hd s = CHR ''+'') then tl s else s)
      in if ds = [] \<or> \<not> list_all isDigit ds then None
         else let v = int (digits_value ds)
              in if neg then (if v > 2 ^ 63 then None else Some (- v))
                 else (if v \<ge> 2 ^ 63 then None else Some v))"

text \<open>\<^verbatim>\<open>strconv.Atoi\<close> on a 64-bit platform is the same function.\<close>

definition Atoi :: "string \<Rightarrow> int option" where
  "Atoi s = ParseInt s"

lemma byte_digit_char: "d < 10 \<Longrightarrow> byte (digit_char d) = 48 + d"
  by (simp add: byte_def digit_char_def)

lemma digit_char_byte: "isDigit c \<Longrightarrow> digit_char (byte c - 48) = c"
  by (simp add: byte_def digit_char_def isDigit_def)

lemma nat_digits_0: "nat_digits 0 = ''0''"
proof -
  have "digit_char (byte (CHR ''0'') - 48) = CHR ''0''"
    by (rule digit_char_byte) (simp add: isDigit_def byte_def)
  then show ?thesis by (subst nat_digits.simps) (simp add: byte_def)
qed

lemma isDigit_digit_char: "d < 10 \<Longrightarrow> isDigit (digit_char d)"
  by (simp add: isDigit_def byte_digit_char)

lemma digits_value_snoc: "digits_value (s @ [c]) = 10 * digits_value s + (byte c - 48)"
  by (simp add: digits_value_def)

lemma nat_digits_nonempty [simp]: "nat_digits n \<noteq> []"
  by (subst nat_digits.simps) simp

lemma nat_digits_all: "list_all isDigit (nat_digits n)"
proof (induction n rule: nat_digits.induct)
  case (1 n)
  then show ?case
    by (subst nat_digits.simps) (simp add: isDigit_digit_char)
qed

lemma digits_value_nat_digits [simp]: "digits_value (nat_digits n) = n"
proof (induction n rule: nat_digits.induct)
  case (1 n)
  show ?case
  proof (cases "n < 10")
    case True
    then show ?thesis
      by (subst nat_digits.simps) (simp add: digits_value_def byte_digit_char)
  next
    case False
    with 1 show ?thesis
      by (subst nat_digits.simps) (simp add: digits_value_snoc byte_digit_char)
  qed
qed

text \<open>Digit strings without a leading zero are exactly the printed positive numbers.\<close>

fun canonicalDigits :: "string \<Rightarrow> bool" where
  "canonicalDigits [] = False"
| "canonicalDigits (c # cs) = (49 \<le> byte c \<and> byte c \<le> 57 \<and> list_all isDigit cs)"

lemma canonicalDigits_snoc:
  "s \<noteq> [] \<Longrightarrow> canonicalDigits (s @ [c]) \<longleftrightarrow> canonicalDigits s \<and> isDigit c"
  by (cases s) auto

lemma canonicalDigits_nat_digits: "0 < n \<Longrightarrow> canonicalDigits (nat_digits n)"
proof (induction n rule: nat_digits.induct)
  case (1 n)
  show ?case
  proof (cases "n < 10")
    case True
    with 1 show ?thesis
      by (subst nat_digits.simps) (simp add: byte_digit_char)
  next
    case False
    with 1 have "canonicalDigits (nat_digits (n div 10))" by simp
    with False show ?thesis
      by (subst nat_digits.simps) (simp add: canonicalDigits_snoc isDigit_digit_char)
  qed
qed

lemma canonicalDigits_value_pos: "canonicalDigits s \<Longrightarrow> 0 < digits_value s"
proof (induction s rule: rev_induct)
  case (snoc c s)
  then show ?case
    by (cases "s = []") (auto simp: digits_value_def canonicalDigits_snoc)
qed simp

lemma nat_digits_value: "canonicalDigits s \<Longrightarrow> nat_digits (digits_value s) = s"
proof (induction s rule: rev_induct)
  case (snoc c s)
  show ?case
  proof (cases "s = []")
    case True
    with snoc.prems have "isDigit c" and "byte c - 48 < 10"
      by (auto simp: isDigit_def)
    with True show ?thesis
      by (subst nat_digits.simps) (simp add: digits_value_def digit_char_byte)
  next
    case False
    with snoc.prems have s: "canonicalDigits s" and c: "isDigit c"
      by (auto simp: canonicalDigits_snoc)
    from s have "0 < digits_value s" by (rule canonicalDigits_value_pos)
    moreover from c have "byte c - 48 < 10" by (auto simp: isDigit_def)
    ultimately show ?thesis
      using snoc.IH [OF s] c
      by (subst nat_digits.simps) (simp add: digits_value_snoc digit_char_byte)
  qed
qed simp

lemma isDigit_not_sign: "isDigit c \<Longrightarrow> c \<noteq> CHR ''-'' \<and> c \<noteq> CHR ''+''"
  by (auto simp: isDigit_def byte_def)

lemma hd_nat_digits_not_sign:
  "hd (nat_digits n) \<noteq> CHR ''-''" "hd (nat_digits n) \<noteq> CHR ''+''"
  using nat_digits_all [of n] isDigit_not_sign [of "hd (nat_digits n)"]
  by (cases "nat_digits n"; auto)+

lemma ParseInt_FormatInt: "int64 v \<Longrightarrow> ParseInt (FormatInt v) = Some v"
  by (auto simp: ParseInt_def FormatInt_def Let_def nat_digits_all hd_nat_digits_not_sign int64_def)

section \<open>One JSON string\<close>

definition hex_value :: "char \<Rightarrow> nat option" where
  "hex_value c =
     (if 48 \<le> byte c \<and> byte c \<le> 57 then Some (byte c - 48)
      else if 97 \<le> byte c \<and> byte c \<le> 102 then Some (byte c - 87)
      else if 65 \<le> byte c \<and> byte c \<le> 70 then Some (byte c - 55)
      else None)"

fun hex4 :: "string \<Rightarrow> (nat \<times> string) option" where
  "hex4 (a # b # c # d # s) =
     (case (hex_value a, hex_value b, hex_value c, hex_value d) of
        (Some w, Some x, Some y, Some z) \<Rightarrow> Some (4096 * w + 256 * x + 16 * y + z, s)
      | _ \<Rightarrow> None)"
| "hex4 _ = None"

lemma hex4_shorter: "hex4 s = Some (u, t) \<Longrightarrow> length t < length s"
  by (induction s rule: hex4.induct) (auto split: option.splits)

definition utf8_encode :: "nat \<Rightarrow> string" where
  "utf8_encode r =
     (if r < 128 then [char_of r]
      else if r < 2048 then [char_of (192 + r div 64), char_of (128 + r mod 64)]
      else if r < 65536 then
        [char_of (224 + r div 4096), char_of (128 + r div 64 mod 64), char_of (128 + r mod 64)]
      else [char_of (240 + r div 262144), char_of (128 + r div 4096 mod 64),
            char_of (128 + r div 64 mod 64), char_of (128 + r mod 64)])"

definition low_surrogate :: "nat \<Rightarrow> string \<Rightarrow> (nat \<times> string) option" where
  "low_surrogate u s =
     (if u < 56320 \<and> take 2 s = [CHR 0x5C, CHR ''u''] then
        (case hex4 (drop 2 s) of
           Some (l, t) \<Rightarrow>
             if 56320 \<le> l \<and> l \<le> 57343 then Some ((u - 55296) * 1024 + (l - 56320) + 65536, t)
             else None
         | None \<Rightarrow> None)
      else None)"

lemma low_surrogate_shorter:
  "low_surrogate u s = Some (r, t) \<Longrightarrow> length t < length s"
  using hex4_shorter [of "drop 2 s"]
  by (fastforce simp: low_surrogate_def split: if_splits option.splits)

definition simple_escape :: "char \<Rightarrow> char option" where
  "simple_escape e =
     (if e = CHR 0x22 \<or> e = CHR 0x5C \<or> e = CHR ''/'' then Some e
      else if e = CHR ''b'' then Some (CHR 0x08)
      else if e = CHR ''f'' then Some (CHR 0x0C)
      else if e = CHR ''n'' then Some (CHR 0x0A)
      else if e = CHR ''r'' then Some (CHR 0x0D)
      else if e = CHR ''t'' then Some (CHR 0x09)
      else None)"

definition prepend :: "string \<Rightarrow> (string \<times> string) option \<Rightarrow> (string \<times> string) option" where
  "prepend p r = map_option (\<lambda>(s, t). (p @ s, t)) r"

text \<open>The text after an opening quote, and what follows the closing quote.\<close>

function json_string_body :: "string \<Rightarrow> (string \<times> string) option" where
  "json_string_body [] = None"
| "json_string_body (c # s) =
     (if c = CHR 0x22 then Some ([], s)
      else if byte c < 32 then None
      else if c \<noteq> CHR 0x5C then prepend [c] (json_string_body s)
      else case s of [] \<Rightarrow> None | e # s1 \<Rightarrow>
        (case simple_escape e of
           Some d \<Rightarrow> prepend [d] (json_string_body s1)
         | None \<Rightarrow>
             if e \<noteq> CHR ''u'' then None
             else case hex4 s1 of None \<Rightarrow> None | Some (u, s2) \<Rightarrow>
               if 55296 \<le> u \<and> u \<le> 57343 then
                 (case low_surrogate u s2 of
                    Some (r, s3) \<Rightarrow> prepend (utf8_encode r) (json_string_body s3)
                  | None \<Rightarrow> prepend (utf8_encode 65533) (json_string_body s2))
               else prepend (utf8_encode u) (json_string_body s2)))"
  by pat_completeness auto
termination
  by (relation "measure length") (auto dest!: hex4_shorter low_surrogate_shorter)

definition isJSONSpace :: "char \<Rightarrow> bool" where
  "isJSONSpace c \<longleftrightarrow> c = CHR '' '' \<or> c = CHR 0x09 \<or> c = CHR 0x0A \<or> c = CHR 0x0D"

text \<open>
  \<^verbatim>\<open>json.Unmarshal\<close> of valid UTF-8 text into a string variable that holds the empty
  string: a JSON string is decoded, \<^verbatim>\<open>null\<close> leaves the variable alone, everything else is
  an error.
\<close>

definition json_unmarshal_string :: "string \<Rightarrow> string option" where
  "json_unmarshal_string input =
     (case dropWhile isJSONSpace input of
        [] \<Rightarrow> None
      | c # s \<Rightarrow>
          if c = CHR 0x22 then
            (case json_string_body s of
               Some (v, rest) \<Rightarrow> if list_all isJSONSpace rest then Some v else None
             | None \<Rightarrow> None)
          else if take 4 (c # s) = ''null'' \<and> list_all isJSONSpace (drop 4 (c # s)) then Some ''''
          else None)"

definition plain_char :: "char \<Rightarrow> bool" where
  "plain_char c \<longleftrightarrow> 32 \<le> byte c \<and> byte c < 128 \<and> c \<noteq> CHR 0x22 \<and> c \<noteq> CHR 0x5C"

lemma json_string_body_plain:
  "list_all plain_char s \<Longrightarrow> json_string_body (s @ CHR 0x22 # rest) = Some (s, rest)"
  by (induction s) (auto simp: plain_char_def prepend_def)

lemma json_unmarshal_string_quoted:
  "list_all plain_char s \<Longrightarrow> json_unmarshal_string (CHR 0x22 # s @ [CHR 0x22]) = Some s"
  by (simp add: json_unmarshal_string_def isJSONSpace_def json_string_body_plain)

lemma isDigit_plain: "isDigit c \<Longrightarrow> plain_char c"
  by (auto simp: isDigit_def plain_char_def byte_def)

lemma FormatInt_plain: "list_all plain_char (FormatInt v)"
proof -
  have "list_all plain_char (nat_digits n)" for n
    using nat_digits_all [of n] by (auto simp: list_all_iff isDigit_plain)
  moreover have "plain_char (CHR ''-'')" by (simp add: plain_char_def byte_def)
  ultimately show ?thesis by (simp add: FormatInt_def)
qed

section \<open>Surrounding white space\<close>

text \<open>The UTF-8 encodings of the runes \<^verbatim>\<open>unicode.IsSpace\<close> accepts.\<close>

definition unicode_spaces :: "string list" where
  "unicode_spaces = map utf8_encode
     ([9, 10, 11, 12, 13, 32, 133, 160, 5760] @ [8192..<8203] @ [8232, 8233, 8239, 8287, 12288])"

text \<open>\<^verbatim>\<open>strings.TrimSpace(s) != s\<close>: the first or the last rune is white space.\<close>

definition TrimSpace_differs :: "string \<Rightarrow> bool" where
  "TrimSpace_differs s \<longleftrightarrow>
     list_ex (\<lambda>p. take (length p) s = p \<or> drop (length s - length p) s = p) unicode_spaces"

text \<open>Visible ASCII text has no surrounding white space.\<close>

definition visible_char :: "char \<Rightarrow> bool" where
  "visible_char c \<longleftrightarrow> 33 \<le> byte c \<and> byte c < 128"

lemma unicode_spaces_invisible:
  "\<forall>p\<in>set unicode_spaces. p \<noteq> [] \<and> \<not> visible_char (hd p) \<and> \<not> visible_char (last p)"
  by (simp add: unicode_spaces_def utf8_encode_def visible_char_def byte_def upt_rec)

lemma visible_not_trimmed: "list_all visible_char s \<Longrightarrow> \<not> TrimSpace_differs s"
proof
  assume s: "list_all visible_char s" and "TrimSpace_differs s"
  then obtain p where p: "p \<in> set unicode_spaces"
    and "take (length p) s = p \<or> drop (length s - length p) s = p"
    by (auto simp: TrimSpace_differs_def list_ex_iff)
  then have "set p \<subseteq> set s" by (metis set_take_subset set_drop_subset)
  moreover have "p \<noteq> []" and "\<not> visible_char (hd p)"
    using p unicode_spaces_invisible by auto
  ultimately show False using s by (metis list_all_iff hd_in_set subsetD)
qed

end
