(* ===== verification/Canonical_Types.thy ===== *)
theory Canonical_Types
  imports Go_Strings
begin

text \<open>
  The logical scalar types of \<^verbatim>\<open>internal/canonical\<close> (\<^verbatim>\<open>types.go\<close>, \<^verbatim>\<open>id.go\<close>,
  \<^verbatim>\<open>errors.go\<close>) with their constructors, validators and decimal JSON codecs, the
  command scope, the commit metadata and the persisted head of \<^verbatim>\<open>writer.go\<close>. The codecs
  share one contract, the locale \<open>logical_integer\<close>, interpreted for each of the types.
\<close>

section \<open>Errors\<close>

text \<open>
  The sentinel errors of the package; the text of a wrapped message is kept as an argument
  where the sentinel alone would not tell which check failed. \<open>CanonicalError\<close> is an error
  without a sentinel.
\<close>

datatype canonical_error =
    ErrInvalidID string
  | ErrZeroID
  | ErrULIDTimeOutOfRange
  | ErrULIDEntropyOverflow
  | ErrInvalidLogicalValue string
  | ErrInvalidTimezone string
  | ErrInvalidCanonicalJSON string
  | ErrDuplicateJSONKey string
  | ErrJSONNumberForbidden string
  | ErrInvalidDigest string
  | ErrInvalidScope string
  | ErrWriterClosed
  | ErrWriterAdmissionPaused
  | ErrResidentAdmissionClosed
  | ErrResidentActivityBusy
  | ErrInvalidActivityToken
  | ErrWriterPoisoned
  | ErrNoMutation
  | ErrCommitSeqOverflow
  | ErrLedgerViolation string
  | CanonicalError string

section \<open>Identifiers\<close>

text \<open>A \<^verbatim>\<open>[16]byte\<close> array, read as one big-endian number.\<close>

type_synonym ID = "128 word"

definition ID_IsZero :: "ID \<Rightarrow> bool" where
  "ID_IsZero i \<longleftrightarrow> i = 0"

definition ID_Validate :: "ID \<Rightarrow> (canonical_error, unit) result" where
  "ID_Validate i = (if ID_IsZero i then Inl ErrZeroID else ok)"

definition IDFromBytes :: "ID \<Rightarrow> (canonical_error, ID) result" where
  "IDFromBytes value = (if ID_IsZero value then Inl ErrZeroID else Inr value)"

lemma ID_Validate_ok [simp]: "ID_Validate i = Inr u \<longleftrightarrow> i \<noteq> 0"
  by (simp add: ID_Validate_def ID_IsZero_def)

lemma ID_Validate_err [simp]: "ID_Validate i = Inl e \<longleftrightarrow> i = 0 \<and> e = ErrZeroID"
  by (auto simp: ID_Validate_def ID_IsZero_def)

section \<open>Scalars\<close>

text \<open>Every scalar is an \<^verbatim>\<open>int64\<close> with a name; its value is an \<^typ>\<open>int\<close> in that range.\<close>

type_synonym Instant = int
type_synonym Timezone = string
type_synonym Seq = int
type_synonym CommitSeq = int
type_synonym Ordinal = int
type_synonym Count = int
type_synonym ByteSize = int
type_synonym Duration = int
type_synonym TokenCount = int
type_synonym Ratio = int
type_synonym Weight = int
type_synonym Money = int

definition FixedPointScale :: int where
  "FixedPointScale = 1000000"

definition logicalRangeError :: "string \<Rightarrow> canonical_error" where
  "logicalRangeError name = ErrInvalidLogicalValue name"

definition NewSeq :: "int \<Rightarrow> (canonical_error, Seq) result" where
  "NewSeq value =
     (if value \<le> 0 then Inl (logicalRangeError ''Seq'') else Inr value)"

definition Seq_Validate :: "Seq \<Rightarrow> (canonical_error, unit) result" where
  "Seq_Validate v = (case NewSeq v of Inl e \<Rightarrow> Inl e | Inr _ \<Rightarrow> ok)"

definition NewCommitSeq :: "int \<Rightarrow> (canonical_error, CommitSeq) result" where
  "NewCommitSeq value =
     (if value \<le> 0 then Inl (logicalRangeError ''CommitSeq'') else Inr value)"

definition CommitSeq_Validate :: "CommitSeq \<Rightarrow> (canonical_error, unit) result" where
  "CommitSeq_Validate v = (case NewCommitSeq v of Inl e \<Rightarrow> Inl e | Inr _ \<Rightarrow> ok)"

definition NewOrdinal :: "int \<Rightarrow> (canonical_error, Ordinal) result" where
  "NewOrdinal value =
     (if value < 0 then Inl (logicalRangeError ''Ordinal'') else Inr value)"

definition Ordinal_Validate :: "Ordinal \<Rightarrow> (canonical_error, unit) result" where
  "Ordinal_Validate v = (case NewOrdinal v of Inl e \<Rightarrow> Inl e | Inr _ \<Rightarrow> ok)"

definition NewCount :: "int \<Rightarrow> (canonical_error, Count) result" where
  "NewCount value =
     (if value < 0 then Inl (logicalRangeError ''Count'') else Inr value)"

definition Count_Validate :: "Count \<Rightarrow> (canonical_error, unit) result" where
  "Count_Validate v = (case NewCount v of Inl e \<Rightarrow> Inl e | Inr _ \<Rightarrow> ok)"

definition NewByteSize :: "int \<Rightarrow> (canonical_error, ByteSize) result" where
  "NewByteSize value =
     (if value < 0 then Inl (logicalRangeError ''ByteSize'') else Inr value)"

definition ByteSize_Validate :: "ByteSize \<Rightarrow> (canonical_error, unit) result" where
  "ByteSize_Validate v = (case NewByteSize v of Inl e \<Rightarrow> Inl e | Inr _ \<Rightarrow> ok)"

definition NewDuration :: "int \<Rightarrow> (canonical_error, Duration) result" where
  "NewDuration value =
     (if value < 0 then Inl (logicalRangeError ''Duration'') else Inr value)"

definition Duration_Validate :: "Duration \<Rightarrow> (canonical_error, unit) result" where
  "Duration_Validate v = (case NewDuration v of Inl e \<Rightarrow> Inl e | Inr _ \<Rightarrow> ok)"

text \<open>\<^verbatim>\<open>DurationFromTime\<close>; the argument is a \<^verbatim>\<open>time.Duration\<close> in nanoseconds.\<close>

definition DurationFromTime :: "int \<Rightarrow> (canonical_error, Duration) result" where
  "DurationFromTime value =
     (if value < 0 then Inl (ErrInvalidLogicalValue ''Duration'')
      else NewDuration (value sdiv 1000))"

definition NewTokenCount :: "int \<Rightarrow> (canonical_error, TokenCount) result" where
  "NewTokenCount value =
     (if value < 0 then Inl (logicalRangeError ''TokenCount'') else Inr value)"

definition TokenCount_Validate :: "TokenCount \<Rightarrow> (canonical_error, unit) result" where
  "TokenCount_Validate v = (case NewTokenCount v of Inl e \<Rightarrow> Inl e | Inr _ \<Rightarrow> ok)"

definition NewRatio :: "int \<Rightarrow> (canonical_error, Ratio) result" where
  "NewRatio value =
     (if value < 0 \<or> value > FixedPointScale then Inl (logicalRangeError ''Ratio'') else Inr value)"

definition Ratio_Validate :: "Ratio \<Rightarrow> (canonical_error, unit) result" where
  "Ratio_Validate v = (case NewRatio v of Inl e \<Rightarrow> Inl e | Inr _ \<Rightarrow> ok)"

definition NewWeight :: "int \<Rightarrow> (canonical_error, Weight) result" where
  "NewWeight value =
     (if value < 0 then Inl (logicalRangeError ''Weight'') else Inr value)"

definition Weight_Validate :: "Weight \<Rightarrow> (canonical_error, unit) result" where
  "Weight_Validate v = (case NewWeight v of Inl e \<Rightarrow> Inl e | Inr _ \<Rightarrow> ok)"

definition NewMoney :: "int \<Rightarrow> (canonical_error, Money) result" where
  "NewMoney value =
     (if value < 0 then Inl (logicalRangeError ''Money'') else Inr value)"

definition Money_Validate :: "Money \<Rightarrow> (canonical_error, unit) result" where
  "Money_Validate v = (case NewMoney v of Inl e \<Rightarrow> Inl e | Inr _ \<Rightarrow> ok)"

lemmas scalar_defs =
  NewSeq_def Seq_Validate_def NewCommitSeq_def CommitSeq_Validate_def NewOrdinal_def
  Ordinal_Validate_def NewCount_def Count_Validate_def NewByteSize_def ByteSize_Validate_def
  NewDuration_def Duration_Validate_def NewTokenCount_def TokenCount_Validate_def NewRatio_def
  Ratio_Validate_def NewWeight_def Weight_Validate_def NewMoney_def Money_Validate_def
  logicalRangeError_def FixedPointScale_def

lemma New_Inr [simp]:
  "NewSeq v = Inr w \<longleftrightarrow> w = v \<and> 0 < v" "NewCommitSeq v = Inr w \<longleftrightarrow> w = v \<and> 0 < v"
  "NewOrdinal v = Inr w \<longleftrightarrow> w = v \<and> 0 \<le> v" "NewCount v = Inr w \<longleftrightarrow> w = v \<and> 0 \<le> v"
  "NewByteSize v = Inr w \<longleftrightarrow> w = v \<and> 0 \<le> v" "NewDuration v = Inr w \<longleftrightarrow> w = v \<and> 0 \<le> v"
  "NewTokenCount v = Inr w \<longleftrightarrow> w = v \<and> 0 \<le> v" "NewWeight v = Inr w \<longleftrightarrow> w = v \<and> 0 \<le> v"
  "NewMoney v = Inr w \<longleftrightarrow> w = v \<and> 0 \<le> v"
  "NewRatio v = Inr w \<longleftrightarrow> w = v \<and> 0 \<le> v \<and> v \<le> 1000000"
  by (auto simp: scalar_defs)

lemma Validate_Inr [simp]:
  "Seq_Validate v = Inr u \<longleftrightarrow> 0 < v" "CommitSeq_Validate v = Inr u \<longleftrightarrow> 0 < v"
  "Ordinal_Validate v = Inr u \<longleftrightarrow> 0 \<le> v" "Count_Validate v = Inr u \<longleftrightarrow> 0 \<le> v"
  "ByteSize_Validate v = Inr u \<longleftrightarrow> 0 \<le> v" "Duration_Validate v = Inr u \<longleftrightarrow> 0 \<le> v"
  "TokenCount_Validate v = Inr u \<longleftrightarrow> 0 \<le> v" "Weight_Validate v = Inr u \<longleftrightarrow> 0 \<le> v"
  "Money_Validate v = Inr u \<longleftrightarrow> 0 \<le> v"
  "Ratio_Validate v = Inr u \<longleftrightarrow> 0 \<le> v \<and> v \<le> 1000000"
  by (auto simp: scalar_defs split: sum.splits)

section \<open>Decimal JSON codecs\<close>

definition marshalLogicalInteger :: "int \<Rightarrow> bool \<Rightarrow> string" where
  "marshalLogicalInteger value quoted =
     (if \<not> quoted then FormatInt value
      else [CHR 0x22] @ FormatInt value @ [CHR 0x22])"

definition marshalPositive :: "string \<Rightarrow> int \<Rightarrow> (canonical_error, string) result" where
  "marshalPositive name value =
     (if value \<le> 0 then Inl (logicalRangeError name) else Inr (marshalLogicalInteger value True))"

definition marshalNonNegative :: "string \<Rightarrow> int \<Rightarrow> (canonical_error, string) result" where
  "marshalNonNegative name value =
     (if value < 0 then Inl (logicalRangeError name) else Inr (marshalLogicalInteger value True))"

definition isCanonicalDecimal :: "string \<Rightarrow> bool" where
  "isCanonicalDecimal value =
     (if value = ''0'' then True
      else if value = '''' then False
      else if hd value = CHR ''-'' then length value \<noteq> 1 \<and> canonicalDigits (tl value)
      else canonicalDigits value)"

definition unmarshalLogicalInteger ::
    "string \<Rightarrow> string \<Rightarrow> int \<Rightarrow> int \<Rightarrow> (canonical_error, int) result" where
  "unmarshalLogicalInteger input name minimum maximum =
     (if \<not> utf8_valid input then Inl (ErrInvalidLogicalValue name)
      else case json_unmarshal_string input of
        None \<Rightarrow> Inl (ErrInvalidLogicalValue name)
      | Some decimal \<Rightarrow>
          if \<not> isCanonicalDecimal decimal then Inl (ErrInvalidLogicalValue name)
          else case ParseInt decimal of
            None \<Rightarrow> Inl (ErrInvalidLogicalValue name)
          | Some parsed \<Rightarrow>
              if parsed < minimum \<or> parsed > maximum then Inl (logicalRangeError name)
              else Inr parsed)"

lemma isCanonicalDecimal_FormatInt: "isCanonicalDecimal (FormatInt v)"
proof -
  have "isCanonicalDecimal (nat_digits n)" for n
  proof (cases "n = 0")
    case True
    then show ?thesis by (simp add: isCanonicalDecimal_def nat_digits_0)
  next
    case False
    then have "canonicalDigits (nat_digits n)" by (simp add: canonicalDigits_nat_digits)
    then show ?thesis
      using hd_nat_digits_not_sign [of n] by (simp add: isCanonicalDecimal_def)
  qed
  moreover have "0 < n \<Longrightarrow> isCanonicalDecimal (CHR ''-'' # nat_digits n)" for n
    by (simp add: isCanonicalDecimal_def canonicalDigits_nat_digits)
  ultimately show ?thesis by (simp add: FormatInt_def)
qed

text \<open>A canonical decimal is the printed form of the number it denotes.\<close>

lemma FormatInt_ParseInt:
  assumes "isCanonicalDecimal s" and "ParseInt s = Some v"
  shows "FormatInt v = s"
proof (cases "s = ''0''")
  case True
  then have "v = 0"
    using assms(2) by (simp add: ParseInt_def Let_def isDigit_def byte_def digits_value_def)
  then show ?thesis using True by (simp add: FormatInt_def nat_digits_0)
next
  case False
  show ?thesis
  proof (cases "hd s = CHR ''-''")
    case True
    then have t: "canonicalDigits (tl s)" and ne: "s \<noteq> []"
      using assms(1) False by (auto simp: isCanonicalDecimal_def split: if_splits)
    have "v = - int (digits_value (tl s))"
      using assms(2) True ne by (auto simp: ParseInt_def Let_def split: if_splits)
    moreover have "0 < digits_value (tl s)" using t by (rule canonicalDigits_value_pos)
    moreover have "nat_digits (digits_value (tl s)) = tl s" using t by (rule nat_digits_value)
    ultimately show ?thesis using True ne by (cases s) (simp_all add: FormatInt_def)
  next
    case nsign: False
    then have t: "canonicalDigits s"
      using assms(1) False by (auto simp: isCanonicalDecimal_def split: if_splits)
    then have "hd s \<noteq> CHR ''+''" by (cases s) (auto simp: byte_def)
    then have "v = int (digits_value s)"
      using assms(2) nsign by (auto simp: ParseInt_def Let_def split: if_splits)
    then show ?thesis using nat_digits_value [OF t] by (simp add: FormatInt_def)
  qed
qed

lemma unmarshal_marshal:
  assumes "int64 v" and "lo \<le> v" and "v \<le> hi"
  shows "unmarshalLogicalInteger (marshalLogicalInteger v True) name lo hi = Inr v"
proof -
  have "list_all (\<lambda>c. byte c < 128) (marshalLogicalInteger v True)"
    using FormatInt_plain [of v]
    by (auto simp: marshalLogicalInteger_def plain_char_def list_all_iff byte_def)
  then have "utf8_valid (marshalLogicalInteger v True)"
    by (intro utf8_valid_ascii) (simp add: list_all_iff)
  moreover have "json_unmarshal_string (marshalLogicalInteger v True) = Some (FormatInt v)"
    by (simp add: marshalLogicalInteger_def json_unmarshal_string_quoted FormatInt_plain)
  ultimately show ?thesis
    using assms
    by (simp add: unmarshalLogicalInteger_def isCanonicalDecimal_FormatInt ParseInt_FormatInt)
qed

lemma unmarshal_range:
  "unmarshalLogicalInteger t name lo hi = Inr v \<Longrightarrow> lo \<le> v \<and> v \<le> hi"
  by (auto simp: unmarshalLogicalInteger_def split: if_splits option.splits)

lemma unmarshal_text:
  assumes "unmarshalLogicalInteger t name lo hi = Inr v"
  shows "json_unmarshal_string t = Some (FormatInt v)"
  using assms FormatInt_ParseInt
  by (auto simp: unmarshalLogicalInteger_def split: if_splits option.splits)

text \<open>
  The contract of a logical integer type: its constructor accepts exactly a range, and its
  JSON methods write and read the quoted decimal form of exactly that range.
\<close>

locale logical_integer =
  fixes New :: "int \<Rightarrow> (canonical_error, int) result"
    and Marshal :: "int \<Rightarrow> (canonical_error, string) result"
    and Unmarshal :: "string \<Rightarrow> (canonical_error, int) result"
    and lo hi :: int and name :: string
  assumes New_range: "int64 v \<Longrightarrow> New v = Inr w \<longleftrightarrow> w = v \<and> lo \<le> v \<and> v \<le> hi"
    and Marshal_in: "int64 v \<Longrightarrow> lo \<le> v \<Longrightarrow> v \<le> hi \<Longrightarrow> Marshal v = Inr (marshalLogicalInteger v True)"
    and Marshal_out: "int64 v \<Longrightarrow> \<not> (lo \<le> v \<and> v \<le> hi) \<Longrightarrow> \<exists>e. Marshal v = Inl e"
    and Unmarshal_eq: "Unmarshal t = unmarshalLogicalInteger t name lo hi"
    and bounds: "minInt64 \<le> lo" "hi \<le> maxInt64"
begin

lemma marshal_iff_new: "int64 v \<Longrightarrow> (\<exists>t. Marshal v = Inr t) \<longleftrightarrow> New v = Inr v"
  using Marshal_in Marshal_out New_range
  by (cases "lo \<le> v \<and> v \<le> hi") fastforce+

lemma codec_roundtrip:
  assumes "int64 v" and "Marshal v = Inr t"
  shows "Unmarshal t = Inr v"
proof -
  have "lo \<le> v \<and> v \<le> hi"
    using Marshal_out [OF assms(1)] assms(2) by (metis Inl_Inr_False)
  then show ?thesis
    using assms Marshal_in [of v] unmarshal_marshal [of v lo hi name] by (auto simp: Unmarshal_eq)
qed

lemma unmarshal_int64: "Unmarshal t = Inr v \<Longrightarrow> int64 v"
  using bounds unmarshal_range [of t name lo hi v]
  by (auto simp: Unmarshal_eq int64_maxInt64_iff)

lemma unmarshal_valid: "Unmarshal t = Inr v \<Longrightarrow> New v = Inr v"
  using unmarshal_range [of t name lo hi v] unmarshal_int64 [of t v]
  by (simp add: Unmarshal_eq New_range)

text \<open>Only one decimal text denotes a value: what is read back is what would be written.\<close>

lemma unmarshal_unique:
  assumes "Unmarshal t = Inr v"
  shows "json_unmarshal_string t = Some (FormatInt v) \<and> Marshal v = Inr (marshalLogicalInteger v True)"
proof -
  have "int64 v" and "lo \<le> v \<and> v \<le> hi"
    using assms unmarshal_int64 unmarshal_range [of t name lo hi v] by (auto simp: Unmarshal_eq)
  then show ?thesis
    using assms unmarshal_text by (auto simp: Unmarshal_eq Marshal_in)
qed

end

definition Instant_MarshalJSON :: "Instant \<Rightarrow> (canonical_error, string) result" where
  "Instant_MarshalJSON v = Inr (marshalLogicalInteger v True)"

definition Instant_UnmarshalJSON :: "string \<Rightarrow> (canonical_error, Instant) result" where
  "Instant_UnmarshalJSON input = unmarshalLogicalInteger input ''Instant'' minInt64 maxInt64"

definition Seq_MarshalJSON :: "Seq \<Rightarrow> (canonical_error, string) result" where
  "Seq_MarshalJSON v = marshalPositive ''Seq'' v"

definition Seq_UnmarshalJSON :: "string \<Rightarrow> (canonical_error, Seq) result" where
  "Seq_UnmarshalJSON input = unmarshalLogicalInteger input ''Seq'' 1 maxInt64"

definition CommitSeq_MarshalJSON :: "CommitSeq \<Rightarrow> (canonical_error, string) result" where
  "CommitSeq_MarshalJSON v = marshalPositive ''CommitSeq'' v"

definition CommitSeq_UnmarshalJSON :: "string \<Rightarrow> (canonical_error, CommitSeq) result" where
  "CommitSeq_UnmarshalJSON input = unmarshalLogicalInteger input ''CommitSeq'' 1 maxInt64"

definition Ordinal_MarshalJSON :: "Ordinal \<Rightarrow> (canonical_error, string) result" where
  "Ordinal_MarshalJSON v = marshalNonNegative ''Ordinal'' v"

definition Ordinal_UnmarshalJSON :: "string \<Rightarrow> (canonical_error, Ordinal) result" where
  "Ordinal_UnmarshalJSON input = unmarshalLogicalInteger input ''Ordinal'' 0 maxInt64"

definition Count_MarshalJSON :: "Count \<Rightarrow> (canonical_error, string) result" where
  "Count_MarshalJSON v = marshalNonNegative ''Count'' v"

definition Count_UnmarshalJSON :: "string \<Rightarrow> (canonical_error, Count) result" where
  "Count_UnmarshalJSON input = unmarshalLogicalInteger input ''Count'' 0 maxInt64"

definition ByteSize_MarshalJSON :: "ByteSize \<Rightarrow> (canonical_error, string) result" where
  "ByteSize_MarshalJSON v = marshalNonNegative ''ByteSize'' v"

definition ByteSize_UnmarshalJSON :: "string \<Rightarrow> (canonical_error, ByteSize) result" where
  "ByteSize_UnmarshalJSON input = unmarshalLogicalInteger input ''ByteSize'' 0 maxInt64"

definition Duration_MarshalJSON :: "Duration \<Rightarrow> (canonical_error, string) result" where
  "Duration_MarshalJSON v = marshalNonNegative ''Duration'' v"

definition Duration_UnmarshalJSON :: "string \<Rightarrow> (canonical_error, Duration) result" where
  "Duration_UnmarshalJSON input = unmarshalLogicalInteger input ''Duration'' 0 maxInt64"

definition TokenCount_MarshalJSON :: "TokenCount \<Rightarrow> (canonical_error, string) result" where
  "TokenCount_MarshalJSON v = marshalNonNegative ''TokenCount'' v"

definition TokenCount_UnmarshalJSON :: "string \<Rightarrow> (canonical_error, TokenCount) result" where
  "TokenCount_UnmarshalJSON input = unmarshalLogicalInteger input ''TokenCount'' 0 maxInt64"

definition Ratio_MarshalJSON :: "Ratio \<Rightarrow> (canonical_error, string) result" where
  "Ratio_MarshalJSON v = (case NewRatio v of Inl e \<Rightarrow> Inl e | Inr _ \<Rightarrow> Inr (marshalLogicalInteger v True))"

definition Ratio_UnmarshalJSON :: "string \<Rightarrow> (canonical_error, Ratio) result" where
  "Ratio_UnmarshalJSON input = unmarshalLogicalInteger input ''Ratio'' 0 FixedPointScale"

definition Weight_MarshalJSON :: "Weight \<Rightarrow> (canonical_error, string) result" where
  "Weight_MarshalJSON v = marshalNonNegative ''Weight'' v"

definition Weight_UnmarshalJSON :: "string \<Rightarrow> (canonical_error, Weight) result" where
  "Weight_UnmarshalJSON input = unmarshalLogicalInteger input ''Weight'' 0 maxInt64"

definition Money_MarshalJSON :: "Money \<Rightarrow> (canonical_error, string) result" where
  "Money_MarshalJSON v = marshalNonNegative ''Money'' v"

definition Money_UnmarshalJSON :: "string \<Rightarrow> (canonical_error, Money) result" where
  "Money_UnmarshalJSON input = unmarshalLogicalInteger input ''Money'' 0 maxInt64"

lemmas codec_defs =
  marshalPositive_def marshalNonNegative_def int64_maxInt64_iff minInt64_def maxInt64_def
  Instant_MarshalJSON_def Instant_UnmarshalJSON_def Seq_MarshalJSON_def Seq_UnmarshalJSON_def CommitSeq_MarshalJSON_def CommitSeq_UnmarshalJSON_def Ordinal_MarshalJSON_def Ordinal_UnmarshalJSON_def Count_MarshalJSON_def Count_UnmarshalJSON_def ByteSize_MarshalJSON_def ByteSize_UnmarshalJSON_def Duration_MarshalJSON_def Duration_UnmarshalJSON_def TokenCount_MarshalJSON_def TokenCount_UnmarshalJSON_def Ratio_MarshalJSON_def Ratio_UnmarshalJSON_def Weight_MarshalJSON_def Weight_UnmarshalJSON_def Money_MarshalJSON_def Money_UnmarshalJSON_def

interpretation instant_codec: logical_integer "\<lambda>v. Inr v" Instant_MarshalJSON Instant_UnmarshalJSON minInt64 maxInt64 "''Instant''"
  by unfold_locales (auto simp: codec_defs scalar_defs)

interpretation seq_codec: logical_integer NewSeq Seq_MarshalJSON Seq_UnmarshalJSON 1 maxInt64 "''Seq''"
  by unfold_locales (auto simp: codec_defs scalar_defs)

interpretation commitSeq_codec: logical_integer NewCommitSeq CommitSeq_MarshalJSON CommitSeq_UnmarshalJSON 1 maxInt64 "''CommitSeq''"
  by unfold_locales (auto simp: codec_defs scalar_defs)

interpretation ordinal_codec: logical_integer NewOrdinal Ordinal_MarshalJSON Ordinal_UnmarshalJSON 0 maxInt64 "''Ordinal''"
  by unfold_locales (auto simp: codec_defs scalar_defs)

interpretation count_codec: logical_integer NewCount Count_MarshalJSON Count_UnmarshalJSON 0 maxInt64 "''Count''"
  by unfold_locales (auto simp: codec_defs scalar_defs)

interpretation byteSize_codec: logical_integer NewByteSize ByteSize_MarshalJSON ByteSize_UnmarshalJSON 0 maxInt64 "''ByteSize''"
  by unfold_locales (auto simp: codec_defs scalar_defs)

interpretation duration_codec: logical_integer NewDuration Duration_MarshalJSON Duration_UnmarshalJSON 0 maxInt64 "''Duration''"
  by unfold_locales (auto simp: codec_defs scalar_defs)

interpretation tokenCount_codec: logical_integer NewTokenCount TokenCount_MarshalJSON TokenCount_UnmarshalJSON 0 maxInt64 "''TokenCount''"
  by unfold_locales (auto simp: codec_defs scalar_defs)

interpretation ratio_codec: logical_integer NewRatio Ratio_MarshalJSON Ratio_UnmarshalJSON 0 FixedPointScale "''Ratio''"
  by unfold_locales (auto simp: codec_defs scalar_defs)

interpretation weight_codec: logical_integer NewWeight Weight_MarshalJSON Weight_UnmarshalJSON 0 maxInt64 "''Weight''"
  by unfold_locales (auto simp: codec_defs scalar_defs)

interpretation money_codec: logical_integer NewMoney Money_MarshalJSON Money_UnmarshalJSON 0 maxInt64 "''Money''"
  by unfold_locales (auto simp: codec_defs scalar_defs)

section \<open>Timezones\<close>

text \<open>\<^verbatim>\<open>ParseTimezone\<close>; \<open>known\<close> says which names \<^verbatim>\<open>time.LoadLocation\<close> resolves.\<close>

definition ParseTimezone :: "(string \<Rightarrow> bool) \<Rightarrow> string \<Rightarrow> (canonical_error, Timezone) result" where
  "ParseTimezone known value =
     (if value = '''' \<or> value = ''Local'' \<or> TrimSpace_differs value then Inl (ErrInvalidTimezone value)
      else if \<not> known value then Inl (ErrInvalidTimezone value)
      else Inr value)"

definition Timezone_Validate :: "(string \<Rightarrow> bool) \<Rightarrow> Timezone \<Rightarrow> (canonical_error, unit) result" where
  "Timezone_Validate known v = (case ParseTimezone known v of Inl e \<Rightarrow> Inl e | Inr _ \<Rightarrow> ok)"

section \<open>Scope, commit metadata and head\<close>

type_synonym Scope = "ID option"

definition GlobalScope :: Scope where
  "GlobalScope = None"

definition ResidentScope :: "ID \<Rightarrow> (canonical_error, Scope) result" where
  "ResidentScope residentID =
     (case ID_Validate residentID of
        Inl e \<Rightarrow> Inl (ErrInvalidScope ''resident ID'')
      | Inr _ \<Rightarrow> Inr (Some residentID))"

definition Scope_Equal :: "Scope \<Rightarrow> Scope \<Rightarrow> bool" where
  "Scope_Equal s t \<longleftrightarrow>
     (let leftOK = (s \<noteq> None); rightOK = (t \<noteq> None)
      in leftOK = rightOK \<and> (\<not> leftOK \<or> the s = the t))"

definition Scope_Validate :: "Scope \<Rightarrow> (canonical_error, unit) result" where
  "Scope_Validate s =
     (case s of None \<Rightarrow> ok
      | Some r \<Rightarrow> (case ID_Validate r of Inl e \<Rightarrow> Inl (ErrInvalidScope ''resident'') | Inr _ \<Rightarrow> ok))"

lemma Scope_Equal_eq [simp]: "Scope_Equal s t \<longleftrightarrow> s = t"
  by (cases s; cases t) (auto simp: Scope_Equal_def)

lemma Scope_Validate_ok [simp]: "Scope_Validate s = Inr u \<longleftrightarrow> s \<noteq> Some 0"
  by (cases s) (auto simp: Scope_Validate_def split: sum.splits)

record CommitMetadata =
  CommitID :: ID
  MetaCommitSeq :: CommitSeq
  MetaScope :: Scope
  MetaCommittedAt :: Instant
  CommittedTZ :: Timezone

definition CommitMetadata_Validate ::
    "(string \<Rightarrow> bool) \<Rightarrow> CommitMetadata \<Rightarrow> (canonical_error, unit) result" where
  "CommitMetadata_Validate known m =
     (case ID_Validate (CommitID m) of Inl e \<Rightarrow> Inl e
      | Inr _ \<Rightarrow> (case CommitSeq_Validate (MetaCommitSeq m) of Inl e \<Rightarrow> Inl e
      | Inr _ \<Rightarrow> (case Scope_Validate (MetaScope m) of Inl e \<Rightarrow> Inl e
      | Inr _ \<Rightarrow> Timezone_Validate known (CommittedTZ m))))"

definition CommitMetadata_Equal :: "CommitMetadata \<Rightarrow> CommitMetadata \<Rightarrow> bool" where
  "CommitMetadata_Equal m n =
     (if CommitID m \<noteq> CommitID n \<or> MetaCommitSeq m \<noteq> MetaCommitSeq n \<or>
         MetaCommittedAt m \<noteq> MetaCommittedAt n \<or> CommittedTZ m \<noteq> CommittedTZ n then False
      else Scope_Equal (MetaScope m) (MetaScope n))"

lemma CommitMetadata_Equal_eq [simp]: "CommitMetadata_Equal m n \<longleftrightarrow> m = (n::CommitMetadata)"
  by (auto simp: CommitMetadata_Equal_def intro: CommitMetadata.equality)

record Head =
  Exists :: bool
  HeadCommitSeq :: CommitSeq
  HeadCommittedAt :: Instant

definition Head_Validate :: "Head \<Rightarrow> (canonical_error, unit) result" where
  "Head_Validate h =
     (if \<not> Exists h then
        (if HeadCommitSeq h \<noteq> 0 \<or> HeadCommittedAt h \<noteq> 0
         then Inl (CanonicalError ''empty head contains cursor state'') else ok)
      else CommitSeq_Validate (HeadCommitSeq h))"

end
