(* ===== verification/Canonical_Ledger.thy ===== *)
theory Canonical_Ledger
  imports Canonical_Types
begin

text \<open>
  Digests, content commitments and the ledger verifier: \<^verbatim>\<open>internal/canonical/hash.go\<close> and
  \<^verbatim>\<open>internal/canonical/ledger.go\<close>. SHA-256 is the argument \<open>sha256\<close>; no property of it is
  built in, and the theorems that need the absence of a collision say between which
  inputs.
\<close>

section \<open>Hexadecimal texts and digests\<close>

type_synonym Digest = string
type_synonym ContentSalt = string
type_synonym sha256 = "string \<Rightarrow> Digest"

definition hex_digit :: "nat \<Rightarrow> char" where
  "hex_digit n = char_of (if n < 10 then 48 + n else 87 + n)"

definition EncodeToString :: "string \<Rightarrow> string" where
  "EncodeToString bs = concat (map (\<lambda>c. [hex_digit (byte c div 16), hex_digit (byte c mod 16)]) bs)"

definition from_hex_char :: "char \<Rightarrow> nat option" where
  "from_hex_char c =
     (let n = byte c in
      if 48 \<le> n \<and> n \<le> 57 then Some (n - 48)
      else if 97 \<le> n \<and> n \<le> 102 then Some (n - 87)
      else if 65 \<le> n \<and> n \<le> 70 then Some (n - 55)
      else None)"

fun DecodeString :: "string \<Rightarrow> string option" where
  "DecodeString [] = Some []"
| "DecodeString [c] = None"
| "DecodeString (a # b # s) =
     (case from_hex_char a of None \<Rightarrow> None | Some x \<Rightarrow>
      (case from_hex_char b of None \<Rightarrow> None | Some y \<Rightarrow>
       (case DecodeString s of None \<Rightarrow> None | Some bs \<Rightarrow> Some (char_of (x * 16 + y) # bs))))"

text \<open>
  \<^verbatim>\<open>value != strings.ToLower(value)\<close>, as far as it matters before a hexadecimal decoding
  that rejects every byte outside ASCII anyway.
\<close>

definition has_upper :: "string \<Rightarrow> bool" where
  "has_upper s \<longleftrightarrow> (\<exists>c\<in>set s. 65 \<le> byte c \<and> byte c \<le> 90)"

definition ParseDigestHex :: "string \<Rightarrow> (canonical_error, Digest) result" where
  "ParseDigestHex value =
     (if length value \<noteq> 64 \<or> has_upper value then Inl (ErrInvalidDigest ''expected 64 lowercase hexadecimal characters'')
      else case DecodeString value of
        None \<Rightarrow> Inl (ErrInvalidDigest ''hexadecimal'')
      | Some decoded \<Rightarrow> Inr decoded)"

definition DigestFromBytes :: "string \<Rightarrow> (canonical_error, Digest) result" where
  "DigestFromBytes value = (if length value \<noteq> 32 then Inl (ErrInvalidDigest ''length'') else Inr value)"

definition Digest_Hex :: "Digest \<Rightarrow> string" where
  "Digest_Hex digest = EncodeToString digest"

definition ContentSaltFromBytes :: "string \<Rightarrow> (canonical_error, ContentSalt) result" where
  "ContentSaltFromBytes value =
     (if length value \<noteq> 32 then Inl (CanonicalError ''invalid commitment salt length'') else Inr value)"

definition Binary_UnmarshalJSON :: "string \<Rightarrow> (canonical_error, string) result" where
  "Binary_UnmarshalJSON input =
     (case json_unmarshal_string input of
        None \<Rightarrow> Inl (CanonicalError ''invalid binary JSON'')
      | Some s \<Rightarrow>
          if length s mod 2 \<noteq> 0 \<or> has_upper s
          then Inl (CanonicalError ''binary must be even-length lowercase hexadecimal'')
          else (case DecodeString s of
            None \<Rightarrow> Inl (CanonicalError ''invalid binary hexadecimal'')
          | Some decoded \<Rightarrow> Inr decoded))"

section \<open>Hashes\<close>

definition ContentCommitmentDomain :: string where
  "ContentCommitmentDomain = ''mahoroba:content-commitment:v1''"

definition EventHashDomain :: string where
  "EventHashDomain = ''mahoroba:event-hash:v1''"

abbreviation NUL :: char where
  "NUL \<equiv> CHR 0x00"

definition HashBlob :: "sha256 \<Rightarrow> string \<Rightarrow> Digest" where
  "HashBlob sha256 logicalContent = sha256 logicalContent"

definition content_preimage :: "string \<Rightarrow> ContentSalt \<Rightarrow> string \<Rightarrow> string" where
  "content_preimage contentClass salt logicalContent =
     ContentCommitmentDomain @ [NUL] @ contentClass @ [NUL] @ salt @ logicalContent"

definition CommitContent ::
    "sha256 \<Rightarrow> string \<Rightarrow> ContentSalt \<Rightarrow> string \<Rightarrow> (canonical_error, Digest) result" where
  "CommitContent sha256 contentClass salt logicalContent =
     (if contentClass = '''' \<or> NUL \<in> set contentClass \<or> \<not> utf8_valid contentClass
      then Inl (CanonicalError ''content class must be non-empty UTF-8 and contain no NUL'')
      else Inr (sha256 (content_preimage contentClass salt logicalContent)))"

definition VerifyContentCommitment ::
    "sha256 \<Rightarrow> string \<Rightarrow> ContentSalt \<Rightarrow> string \<Rightarrow> Digest \<Rightarrow> (canonical_error, unit) result" where
  "VerifyContentCommitment sha256 contentClass salt logicalContent expected =
     (case CommitContent sha256 contentClass salt logicalContent of
        Inl e \<Rightarrow> Inl e
      | Inr actual \<Rightarrow>
          if actual \<noteq> expected then Inl (ErrLedgerViolation ''content commitment mismatch'') else ok)"

text \<open>A \<^verbatim>\<open>CanonicalJSON\<close> value is its canonical bytes; the zero value is the empty text.\<close>

type_synonym CanonicalJSON = string

definition event_preimage :: "CanonicalJSON \<Rightarrow> string" where
  "event_preimage envelope = EventHashDomain @ [NUL] @ envelope"

definition HashEvent :: "sha256 \<Rightarrow> CanonicalJSON \<Rightarrow> (canonical_error, Digest) result" where
  "HashEvent sha256 envelope =
     (if envelope = '''' then Inl (ErrInvalidCanonicalJSON ''empty event envelope'')
      else Inr (sha256 (event_preimage envelope)))"

section \<open>Ledger material\<close>

record LedgerContent =
  lcFound :: bool
  lcID :: ID
  lcResidentID :: ID
  lcClass :: string
  lcErasureState :: string
  lcBlobFound :: bool
  lcLogicalBytes :: string
  lcBlobHash :: "Digest option"
  lcCommitment :: Digest
  lcCommitmentSalt :: "ContentSalt option"

record LedgerRecord =
  lrEventID :: ID
  lrResidentID :: ID
  lrSeq :: Seq
  lrContentID :: ID
  lrPayloadCommitment :: Digest
  lrContent :: LedgerContent
  lrPrevEventHash :: "Digest option"
  lrEventHash :: Digest
  lrEnvelope :: CanonicalJSON

text \<open>
  The two walks of a \<^verbatim>\<open>LedgerSource\<close>: the rows they visit in order, and the error the
  adapter itself reports after the last visit, if any.
\<close>

record LedgerSource =
  lsContents :: "LedgerContent list"
  lsContentsErr :: "canonical_error option"
  lsEvents :: "LedgerRecord list"
  lsEventsErr :: "canonical_error option"

record LedgerVerification =
  lvResidentID :: ID
  lvContentCount :: Count
  lvEventCount :: Count
  lvFirstSeq :: Seq
  lvLastSeq :: Seq
  lvHeadHash :: "Digest option"

definition ContentErasurePresent :: string where
  "ContentErasurePresent = ''present''"

definition ContentErasureErased :: string where
  "ContentErasureErased = ''erased''"

section \<open>Verification\<close>

definition zeroSalt :: ContentSalt where
  "zeroSalt = replicate 32 NUL"

definition verifyContentObject :: "sha256 \<Rightarrow> LedgerContent \<Rightarrow> ID \<Rightarrow> (canonical_error, unit) result" where
  "verifyContentObject sha256 content residentID =
     (if \<not> lcFound content then Inl (CanonicalError ''content object is missing'')
      else case ID_Validate (lcID content) of
        Inl e \<Rightarrow> Inl (CanonicalError ''invalid content object ID'') | Inr _ \<Rightarrow>
      (case ID_Validate (lcResidentID content) of
        Inl e \<Rightarrow> Inl (CanonicalError ''invalid content owner resident ID'') | Inr _ \<Rightarrow>
      if lcResidentID content \<noteq> residentID then Inl (CanonicalError ''content owner resident mismatch'')
      else case CommitContent sha256 (lcClass content) zeroSalt [] of
        Inl e \<Rightarrow> Inl (CanonicalError ''invalid content class'') | Inr _ \<Rightarrow>
      if lcErasureState content = ContentErasurePresent then
        (if \<not> lcBlobFound content then Inl (CanonicalError ''present content blob is missing'')
         else case lcBlobHash content of
           None \<Rightarrow> Inl (CanonicalError ''present content has no blob hash'')
         | Some blobHash \<Rightarrow>
             (case lcCommitmentSalt content of
                None \<Rightarrow> Inl (CanonicalError ''present content has no commitment salt'')
              | Some salt \<Rightarrow>
                  if HashBlob sha256 (lcLogicalBytes content) \<noteq> blobHash
                  then Inl (CanonicalError ''blob hash mismatch'')
                  else VerifyContentCommitment sha256 (lcClass content) salt (lcLogicalBytes content)
                    (lcCommitment content)))
      else if lcErasureState content = ContentErasureErased then
        (if lcBlobFound content \<or> lcBlobHash content \<noteq> None \<or> lcCommitmentSalt content \<noteq> None
            \<or> length (lcLogicalBytes content) \<noteq> 0
         then Inl (CanonicalError ''erased content retains blob or commitment salt material'')
         else ok)
      else Inl (CanonicalError ''invalid erasure state'')))"

definition verifyLedgerContent :: "sha256 \<Rightarrow> LedgerRecord \<Rightarrow> (canonical_error, unit) result" where
  "verifyLedgerContent sha256 record =
     (case ID_Validate (lrContentID record) of
        Inl e \<Rightarrow> Inl (CanonicalError ''invalid event content ID'') | Inr _ \<Rightarrow>
      let content = lrContent record in
      if \<not> lcFound content then Inl (CanonicalError ''referenced content object is missing'')
      else case ID_Validate (lcID content) of
        Inl e \<Rightarrow> Inl (CanonicalError ''invalid content object ID'') | Inr _ \<Rightarrow>
      if lcID content \<noteq> lrContentID record then Inl (CanonicalError ''content reference mismatch'')
      else if lrPayloadCommitment record \<noteq> lcCommitment content
      then Inl (CanonicalError ''payload commitment does not match content object'')
      else verifyContentObject sha256 content (lrResidentID record))"

text \<open>
  The visit functions; \<open>cancelled\<close> is \<^verbatim>\<open>ctx.Err()\<close> at the visit, \<open>validator\<close> the optional
  envelope validator of the storage adapter.
\<close>

type_synonym validator = "LedgerRecord \<Rightarrow> (canonical_error, unit) result"

definition visitContent ::
    "sha256 \<Rightarrow> (LedgerContent \<Rightarrow> canonical_error option) \<Rightarrow> ID \<Rightarrow> Count \<Rightarrow> LedgerContent
      \<Rightarrow> (canonical_error, Count) result" where
  "visitContent sha256 cancelled residentID contentCount content =
     (case cancelled content of Some e \<Rightarrow> Inl e | None \<Rightarrow>
      (case verifyContentObject sha256 content residentID of
         Inl e \<Rightarrow> Inl (ErrLedgerViolation ''content'')
       | Inr _ \<Rightarrow>
           if contentCount = maxInt64 then Inl (ErrLedgerViolation ''content count overflow'')
           else Inr (contentCount + 1)))"

text \<open>The variables of the event walk: the previous sequence and hash once one was seen, and the report.\<close>

type_synonym walkState = "(Seq \<times> Digest) option \<times> LedgerVerification"

definition visitEvent ::
    "sha256 \<Rightarrow> validator option \<Rightarrow> (LedgerRecord \<Rightarrow> canonical_error option) \<Rightarrow> ID \<Rightarrow> walkState \<Rightarrow> LedgerRecord
      \<Rightarrow> (canonical_error, walkState) result" where
  "visitEvent sha256 validator cancelled residentID st record =
     (case cancelled record of Some e \<Rightarrow> Inl e | None \<Rightarrow>
      (case ID_Validate (lrEventID record) of
         Inl e \<Rightarrow> Inl (ErrLedgerViolation ''invalid event ID'') | Inr _ \<Rightarrow>
      if lrResidentID record \<noteq> residentID then Inl (ErrLedgerViolation ''resident mismatch'')
      else case Seq_Validate (lrSeq record) of
         Inl e \<Rightarrow> Inl (ErrLedgerViolation ''invalid sequence'') | Inr _ \<Rightarrow>
      (case (case fst st of
               None \<Rightarrow>
                 if lrPrevEventHash record \<noteq> None
                 then Inl (ErrLedgerViolation ''first event has prev_event_hash'')
                 else Inr ((snd st)\<lparr>lvFirstSeq := lrSeq record\<rparr>)
             | Some (previousSeq, previousHash) \<Rightarrow>
                 if lrSeq record \<le> previousSeq
                 then Inl (ErrLedgerViolation ''sequence is not strictly increasing'')
                 else if lrPrevEventHash record \<noteq> Some previousHash
                 then Inl (ErrLedgerViolation ''previous hash does not match prior event'')
                 else Inr (snd st)) of
         Inl e \<Rightarrow> Inl e
       | Inr report \<Rightarrow>
      (case verifyLedgerContent sha256 record of
         Inl e \<Rightarrow> Inl (ErrLedgerViolation ''content validation'') | Inr _ \<Rightarrow>
      (case (case validator of None \<Rightarrow> ok | Some validate \<Rightarrow> validate record) of
         Inl e \<Rightarrow> Inl (ErrLedgerViolation ''envelope validation'') | Inr _ \<Rightarrow>
      (case HashEvent sha256 (lrEnvelope record) of
         Inl e \<Rightarrow> Inl (ErrLedgerViolation ''hash envelope'')
       | Inr actual \<Rightarrow>
           if actual \<noteq> lrEventHash record then Inl (ErrLedgerViolation ''event hash mismatch'')
           else if lvEventCount report = maxInt64 then Inl (ErrLedgerViolation ''event count overflow'')
           else Inr (Some (lrSeq record, lrEventHash record),
             report\<lparr>lvLastSeq := lrSeq record, lvEventCount := lvEventCount report + 1,
               lvHeadHash := Some (lrEventHash record)\<rparr>)))))))"

definition LedgerVerifier_Verify ::
    "sha256 \<Rightarrow> validator option \<Rightarrow> (LedgerContent \<Rightarrow> canonical_error option)
      \<Rightarrow> (LedgerRecord \<Rightarrow> canonical_error option) \<Rightarrow> LedgerSource \<Rightarrow> ID
      \<Rightarrow> (canonical_error, LedgerVerification) result" where
  "LedgerVerifier_Verify sha256 validator ctxC ctxE source residentID =
     (case ID_Validate residentID of Inl e \<Rightarrow> Inl e | Inr _ \<Rightarrow>
      (case foldE (visitContent sha256 ctxC residentID) 0 (lsContents source) of
         Inl e \<Rightarrow> Inl e
       | Inr contentCount \<Rightarrow>
      (case lsContentsErr source of Some e \<Rightarrow> Inl e | None \<Rightarrow>
      (case foldE (visitEvent sha256 validator ctxE residentID)
              (None, \<lparr>lvResidentID = residentID, lvContentCount = contentCount, lvEventCount = 0,
                 lvFirstSeq = 0, lvLastSeq = 0, lvHeadHash = None\<rparr>) (lsEvents source) of
         Inl e \<Rightarrow> Inl e
       | Inr (_, report) \<Rightarrow>
           (case lsEventsErr source of Some e \<Rightarrow> Inl e | None \<Rightarrow> Inr report)))))"

section \<open>Hexadecimal round trips\<close>

lemma byte_less: "byte c < 256"
  by (simp add: byte_def)

lemma char_of_byte: "char_of (byte c) = c"
  by (simp add: byte_def)

lemma byte_hex_digit: "n < 16 \<Longrightarrow> byte (hex_digit n) = (if n < 10 then 48 + n else 87 + n)"
  by (simp add: byte_def hex_digit_def)

lemma from_hex_char_digit: "n < 16 \<Longrightarrow> from_hex_char (hex_digit n) = Some n"
  by (auto simp: from_hex_char_def byte_hex_digit Let_def)

lemma EncodeToString_Cons:
  "EncodeToString (c # bs) = hex_digit (byte c div 16) # hex_digit (byte c mod 16) # EncodeToString bs"
  by (simp add: EncodeToString_def)

lemma EncodeToString_Nil [simp]: "EncodeToString [] = []"
  by (simp add: EncodeToString_def)

lemma DecodeString_EncodeToString: "DecodeString (EncodeToString bs) = Some bs"
proof (induction bs)
  case (Cons c bs)
  have "byte c div 16 < 16" "byte c mod 16 < 16"
    using byte_less [of c] by auto
  moreover have "byte c div 16 * 16 + byte c mod 16 = byte c"
    by simp
  ultimately show ?case
    using Cons by (simp add: EncodeToString_Cons from_hex_char_digit char_of_byte)
qed simp

lemma length_EncodeToString: "length (EncodeToString bs) = 2 * length bs"
  by (induction bs) (simp_all add: EncodeToString_Cons)

lemma EncodeToString_lower: "\<not> has_upper (EncodeToString bs)"
proof (induction bs)
  case (Cons c bs)
  have "byte c div 16 < 16" "byte c mod 16 < 16"
    using byte_less [of c] by auto
  with Cons show ?case
    by (auto simp: EncodeToString_Cons has_upper_def byte_hex_digit split: if_splits)
qed (simp add: has_upper_def)

lemma hex_digit_from_hex_char:
  assumes "from_hex_char c = Some n" and "\<not> (65 \<le> byte c \<and> byte c \<le> 90)"
  shows "n < 16" and "hex_digit n = c"
  using assms by (auto simp: from_hex_char_def hex_digit_def Let_def char_of_byte split: if_splits)

text \<open>A lowercase text decodes to bytes whose encoding is the text: the form is unique.\<close>

lemma EncodeToString_DecodeString:
  "DecodeString s = Some bs \<Longrightarrow> \<not> has_upper s \<Longrightarrow> EncodeToString bs = s"
proof (induction s arbitrary: bs rule: DecodeString.induct)
  case (3 a b s)
  then obtain x y cs where x: "from_hex_char a = Some x" and y: "from_hex_char b = Some y"
    and cs: "DecodeString s = Some cs" and bs: "bs = char_of (x * 16 + y) # cs"
    by (auto split: option.splits)
  have up: "\<not> (65 \<le> byte a \<and> byte a \<le> 90)" "\<not> (65 \<le> byte b \<and> byte b \<le> 90)" "\<not> has_upper s"
    using 3(3) by (auto simp: has_upper_def)
  have digits: "x < 16" "hex_digit x = a" "y < 16" "hex_digit y = b"
    using hex_digit_from_hex_char [OF x up(1)] hex_digit_from_hex_char [OF y up(2)] .
  then have "byte (char_of (x * 16 + y)) = x * 16 + y"
    by (simp add: byte_def)
  moreover have "EncodeToString cs = s"
    using 3(1) [OF x y cs up(3)] .
  ultimately show ?case
    using digits bs by (simp add: EncodeToString_Cons)
qed auto

section \<open>The preimages are unambiguous\<close>

lemma event_preimage_inject: "event_preimage a = event_preimage b \<longleftrightarrow> a = b"
  by (simp add: event_preimage_def)

lemma nul_split:
  assumes "c @ NUL # u = d @ NUL # v" and "NUL \<notin> set c" and "NUL \<notin> set d"
  shows "c = d \<and> u = v"
  using assms
proof (induction c arbitrary: d)
  case Nil
  then show ?case by (cases d) auto
next
  case (Cons a c)
  then show ?case by (cases d) auto
qed

lemma content_preimage_inject:
  assumes "NUL \<notin> set c" and "NUL \<notin> set c'" and "length salt = 32" and "length salt' = 32"
  shows "content_preimage c salt b = content_preimage c' salt' b' \<longleftrightarrow> c = c' \<and> salt = salt' \<and> b = b'"
proof
  assume "content_preimage c salt b = content_preimage c' salt' b'"
  then have "c @ NUL # (salt @ b) = c' @ NUL # (salt' @ b')"
    by (simp add: content_preimage_def)
  from nul_split [OF this assms(1,2)] have "c = c'" and "salt @ b = salt' @ b'"
    by simp_all
  with assms(3,4) show "c = c' \<and> salt = salt' \<and> b = b'"
    by (simp add: append_eq_append_conv)
qed simp

section \<open>What a verified ledger is\<close>

text \<open>
  A content object is found under non-zero identifiers, belongs to the resident and names a class. Present, it has
  its bytes, their hash, and a commitment to class, salt and bytes; erased, it has none of them left.
\<close>

definition content_ok :: "sha256 \<Rightarrow> ID \<Rightarrow> LedgerContent \<Rightarrow> bool" where
  "content_ok sha256 residentID content \<longleftrightarrow>
     lcFound content \<and> lcID content \<noteq> 0 \<and> lcResidentID content = residentID \<and> residentID \<noteq> 0
     \<and> lcClass content \<noteq> '''' \<and> NUL \<notin> set (lcClass content) \<and> utf8_valid (lcClass content)
     \<and> (if lcErasureState content = ''present''
        then lcBlobFound content \<and> lcBlobHash content = Some (sha256 (lcLogicalBytes content))
          \<and> (case lcCommitmentSalt content of
               None \<Rightarrow> False
             | Some salt \<Rightarrow> lcCommitment content = sha256 (content_preimage (lcClass content) salt (lcLogicalBytes content)))
        else lcErasureState content = ''erased'' \<and> \<not> lcBlobFound content \<and> lcLogicalBytes content = ''''
          \<and> lcBlobHash content = None \<and> lcCommitmentSalt content = None)"

lemma verifyContentObject_ok: "verifyContentObject sha256 content residentID = ok \<longleftrightarrow> content_ok sha256 residentID content"
proof -
  have cls: "CommitContent sha256 (lcClass content) salt b = Inr d \<longleftrightarrow>
      lcClass content \<noteq> '''' \<and> NUL \<notin> set (lcClass content) \<and> utf8_valid (lcClass content)
      \<and> d = sha256 (content_preimage (lcClass content) salt b)" for salt b d
    by (auto simp: CommitContent_def)
  have bad: "CommitContent sha256 (lcClass content) salt b = Inl e \<Longrightarrow>
      \<not> (lcClass content \<noteq> '''' \<and> NUL \<notin> set (lcClass content) \<and> utf8_valid (lcClass content))" for salt b e
    by (auto simp: CommitContent_def split: if_splits)
  have if_ok: "(if b then Inl x else y) = Inr z \<longleftrightarrow> \<not> b \<and> y = Inr z"
    for b and x :: canonical_error and y :: "(canonical_error, unit) result" and z
    by simp
  show ?thesis
    unfolding verifyContentObject_def VerifyContentCommitment_def if_ok case_result_ok
    by (auto simp: content_ok_def cls ID_Validate_def ID_IsZero_def HashBlob_def ContentErasurePresent_def ContentErasureErased_def
        split: if_splits option.splits sum.splits dest: bad)
qed

text \<open>
  The checks on one record that do not depend on its neighbours: the identifiers, the content object it refers to and
  its payload commitment, the adapter's validator if there is one, and the event hash.
\<close>

definition record_ok :: "sha256 \<Rightarrow> validator option \<Rightarrow> ID \<Rightarrow> LedgerRecord \<Rightarrow> bool" where
  "record_ok sha256 validator residentID r \<longleftrightarrow>
     lrEventID r \<noteq> 0 \<and> lrResidentID r = residentID \<and> 0 < lrSeq r
     \<and> lcID (lrContent r) = lrContentID r \<and> lcCommitment (lrContent r) = lrPayloadCommitment r
     \<and> content_ok sha256 residentID (lrContent r)
     \<and> (\<forall>validate. validator = Some validate \<longrightarrow> validate r = ok)
     \<and> lrEnvelope r \<noteq> '''' \<and> lrEventHash r = sha256 (event_preimage (lrEnvelope r))"

lemma verifyLedgerContent_ok:
  "verifyLedgerContent sha256 r = ok \<longleftrightarrow> lcID (lrContent r) = lrContentID r \<and> lcCommitment (lrContent r) = lrPayloadCommitment r
     \<and> content_ok sha256 (lrResidentID r) (lrContent r)"
  by (auto simp: verifyLedgerContent_def Let_def verifyContentObject_ok ID_Validate_def ID_IsZero_def content_ok_def split: if_splits)

text \<open>The chain from a previous sequence and hash on.\<close>

fun chained :: "(Seq \<times> Digest) option \<Rightarrow> LedgerRecord list \<Rightarrow> bool" where
  "chained prev [] \<longleftrightarrow> True"
| "chained prev (r # rs) \<longleftrightarrow>
     lrPrevEventHash r = map_option snd prev
     \<and> (\<forall>s h. prev = Some (s, h) \<longrightarrow> s < lrSeq r)
     \<and> chained (Some (lrSeq r, lrEventHash r)) rs"

definition report_add :: "LedgerVerification \<Rightarrow> bool \<Rightarrow> LedgerRecord \<Rightarrow> LedgerVerification" where
  "report_add report first r =
     report\<lparr>lvFirstSeq := (if first then lrSeq r else lvFirstSeq report), lvLastSeq := lrSeq r,
       lvEventCount := lvEventCount report + 1, lvHeadHash := Some (lrEventHash r)\<rparr>"

lemma link_Inr:
  "(case prev of
      None \<Rightarrow> if lrPrevEventHash r \<noteq> None then Inl e1 else Inr (report\<lparr>lvFirstSeq := lrSeq r\<rparr>)
    | Some (previousSeq, previousHash) \<Rightarrow>
        if lrSeq r \<le> previousSeq then Inl e2
        else if lrPrevEventHash r \<noteq> Some previousHash then Inl e3 else Inr report) = Inr report' \<longleftrightarrow>
   chained prev [r] \<and> report' = report\<lparr>lvFirstSeq := (if prev = None then lrSeq r else lvFirstSeq report)\<rparr>"
  by (cases prev) (auto simp: not_le split: if_splits)

lemma visitEvent_Inr:
  "visitEvent sha256 validator cancelled residentID (prev, report) r = Inr st \<longleftrightarrow>
     cancelled r = None \<and> record_ok sha256 validator residentID r \<and> chained prev [r]
     \<and> lvEventCount report \<noteq> maxInt64
     \<and> st = (Some (lrSeq r, lrEventHash r), report_add report (prev = None) r)"
proof (cases "cancelled r")
  case (Some e)
  then show ?thesis by (simp add: visitEvent_def)
next
  case None
  have validator: "(case validator of None \<Rightarrow> ok | Some validate \<Rightarrow> validate r) = ok \<longleftrightarrow>
      (\<forall>validate. validator = Some validate \<longrightarrow> validate r = ok)"
    by (cases validator) auto
  have if_Inr: "(if b then Inl x else y) = Inr z \<longleftrightarrow> \<not> b \<and> y = Inr z"
    for b and x :: canonical_error and y :: "(canonical_error, 'z) result" and z
    by simp
  show ?thesis
    unfolding visitEvent_def None option.case fst_conv snd_conv case_result_ok if_Inr link_Inr
    by (auto simp: record_ok_def verifyLedgerContent_ok report_add_def HashEvent_def validator)
qed

fun report_all :: "LedgerVerification \<Rightarrow> bool \<Rightarrow> LedgerRecord list \<Rightarrow> LedgerVerification" where
  "report_all report first [] = report"
| "report_all report first (r # rs) = report_all (report_add report first r) False rs"

lemma foldE_visitEvent:
  assumes "0 \<le> lvEventCount report" and "lvEventCount report + int (length rs) \<le> maxInt64"
  shows "foldE (visitEvent sha256 validator cancelled residentID) (prev, report) rs = Inr st \<longleftrightarrow>
    (\<forall>r\<in>set rs. cancelled r = None \<and> record_ok sha256 validator residentID r) \<and> chained prev rs
    \<and> st = (if rs = [] then prev else Some (lrSeq (last rs), lrEventHash (last rs)),
            report_all report (prev = None) rs)"
  using assms
proof (induction rs arbitrary: prev report)
  case Nil
  then show ?case by auto
next
  case (Cons r rs)
  let ?report = "report_add report (prev = None) r"
  have count: "lvEventCount report \<noteq> maxInt64"
    using Cons.prems by simp
  have next_count: "0 \<le> lvEventCount ?report" "lvEventCount ?report + int (length rs) \<le> maxInt64"
    using Cons.prems by (simp_all add: report_add_def)
  note IH = Cons.IH [OF next_count, of "Some (lrSeq r, lrEventHash r)"]
  note step = visitEvent_Inr [of sha256 validator cancelled residentID prev report r]
  show ?case
  proof (cases "cancelled r = None \<and> record_ok sha256 validator residentID r \<and> chained prev [r]")
    case True
    then have "visitEvent sha256 validator cancelled residentID (prev, report) r =
        Inr (Some (lrSeq r, lrEventHash r), ?report)"
      using step count by simp
    then show ?thesis
      using IH True by auto
  next
    case False
    then obtain e where "visitEvent sha256 validator cancelled residentID (prev, report) r = Inl e"
      using step by (cases "visitEvent sha256 validator cancelled residentID (prev, report) r") blast+
    with False show ?thesis by auto
  qed
qed

lemma foldE_visitContent:
  assumes "0 \<le> n" and "n + int (length cs) \<le> maxInt64"
  shows "foldE (visitContent sha256 cancelled residentID) n cs = Inr m \<longleftrightarrow>
    (\<forall>c\<in>set cs. cancelled c = None \<and> content_ok sha256 residentID c) \<and> m = n + int (length cs)"
  using assms
proof (induction cs arbitrary: n)
  case (Cons c cs)
  then have "n \<noteq> maxInt64" and "0 \<le> n + 1" and "n + 1 + int (length cs) \<le> maxInt64" by simp_all
  with Cons.IH [of "n + 1"] show ?case
    by (auto simp: visitContent_def verifyContentObject_ok [symmetric] split: option.splits sum.splits)
qed auto

lemma report_all_counts:
  "lvEventCount (report_all report first rs) = lvEventCount report + int (length rs)"
  "lvResidentID (report_all report first rs) = lvResidentID report"
  "lvContentCount (report_all report first rs) = lvContentCount report"
  "lvHeadHash (report_all report first rs) =
     (if rs = [] then lvHeadHash report else Some (lrEventHash (last rs)))"
  "lvLastSeq (report_all report first rs) = (if rs = [] then lvLastSeq report else lrSeq (last rs))"
  "lvFirstSeq (report_all report first rs) =
     (if rs = [] \<or> \<not> first then lvFirstSeq report else lrSeq (hd rs))"
  by (induction rs arbitrary: report first) (auto simp: report_add_def)

text \<open>The report of a ledger that verifies.\<close>

definition report_spec :: "ID \<Rightarrow> LedgerSource \<Rightarrow> LedgerVerification" where
  "report_spec residentID source =
     \<lparr>lvResidentID = residentID, lvContentCount = int (length (lsContents source)),
      lvEventCount = int (length (lsEvents source)),
      lvFirstSeq = (if lsEvents source = [] then 0 else lrSeq (hd (lsEvents source))),
      lvLastSeq = (if lsEvents source = [] then 0 else lrSeq (last (lsEvents source))),
      lvHeadHash = (if lsEvents source = [] then None else Some (lrEventHash (last (lsEvents source))))\<rparr>"

definition ledger_ok :: "sha256 \<Rightarrow> validator option \<Rightarrow> ID \<Rightarrow> LedgerSource \<Rightarrow> bool" where
  "ledger_ok sha256 validator residentID source \<longleftrightarrow>
     residentID \<noteq> 0 \<and> (\<forall>c\<in>set (lsContents source). content_ok sha256 residentID c)
     \<and> (\<forall>r\<in>set (lsEvents source). record_ok sha256 validator residentID r)
     \<and> chained None (lsEvents source)"

definition walk_complete ::
    "(LedgerContent \<Rightarrow> canonical_error option) \<Rightarrow> (LedgerRecord \<Rightarrow> canonical_error option) \<Rightarrow> LedgerSource \<Rightarrow> bool" where
  "walk_complete ctxC ctxE source \<longleftrightarrow>
     (\<forall>c\<in>set (lsContents source). ctxC c = None) \<and> lsContentsErr source = None
     \<and> (\<forall>r\<in>set (lsEvents source). ctxE r = None) \<and> lsEventsErr source = None"

lemma Verify_Inr:
  assumes "int (length (lsContents source)) \<le> maxInt64" and "int (length (lsEvents source)) \<le> maxInt64"
  shows "LedgerVerifier_Verify sha256 validator ctxC ctxE source residentID = Inr report \<longleftrightarrow>
    ledger_ok sha256 validator residentID source \<and> walk_complete ctxC ctxE source
    \<and> report = report_spec residentID source"
proof -
  let ?start = "\<lparr>lvResidentID = residentID, lvContentCount = int (length (lsContents source)), lvEventCount = 0,
      lvFirstSeq = 0, lvLastSeq = 0, lvHeadHash = None\<rparr>"
  have contents: "foldE (visitContent sha256 ctxC residentID) 0 (lsContents source) = Inr m \<longleftrightarrow>
      (\<forall>c\<in>set (lsContents source). ctxC c = None \<and> content_ok sha256 residentID c)
      \<and> m = int (length (lsContents source))" for m
    using foldE_visitContent [of 0 "lsContents source"] assms(1) by simp
  have events: "foldE (visitEvent sha256 validator ctxE residentID) (None, ?start) (lsEvents source) = Inr st \<longleftrightarrow>
      (\<forall>r\<in>set (lsEvents source). ctxE r = None \<and> record_ok sha256 validator residentID r)
      \<and> chained None (lsEvents source)
      \<and> st = (if lsEvents source = [] then None else Some (lrSeq (last (lsEvents source)), lrEventHash (last (lsEvents source))),
              report_all ?start True (lsEvents source))" for st
    using foldE_visitEvent [of ?start "lsEvents source" sha256 validator ctxE residentID None st] assms(2) by simp
  have spec: "report_all ?start True (lsEvents source) = report_spec residentID source"
    by (rule LedgerVerification.equality) (simp_all add: report_all_counts report_spec_def)
  show ?thesis
  proof
    assume "LedgerVerifier_Verify sha256 validator ctxC ctxE source residentID = Inr report"
    then obtain m st where m: "foldE (visitContent sha256 ctxC residentID) 0 (lsContents source) = Inr m"
      and st: "foldE (visitEvent sha256 validator ctxE residentID)
        (None, ?start\<lparr>lvContentCount := m\<rparr>) (lsEvents source) = Inr (st, report)"
      and errs: "residentID \<noteq> 0" "lsContentsErr source = None" "lsEventsErr source = None"
      by (auto simp: LedgerVerifier_Verify_def split: sum.splits option.splits)
    have "m = int (length (lsContents source))"
      using m contents by blast
    with st have "foldE (visitEvent sha256 validator ctxE residentID) (None, ?start) (lsEvents source) = Inr (st, report)"
      by simp
    with m errs show "ledger_ok sha256 validator residentID source \<and> walk_complete ctxC ctxE source
        \<and> report = report_spec residentID source"
      unfolding contents events spec by (auto simp: ledger_ok_def walk_complete_def)
  next
    assume a: "ledger_ok sha256 validator residentID source \<and> walk_complete ctxC ctxE source
        \<and> report = report_spec residentID source"
    then have "foldE (visitContent sha256 ctxC residentID) 0 (lsContents source) = Inr (int (length (lsContents source)))"
      unfolding contents by (auto simp: ledger_ok_def walk_complete_def)
    moreover from a have "\<exists>st. foldE (visitEvent sha256 validator ctxE residentID) (None, ?start) (lsEvents source) = Inr (st, report)"
      unfolding events spec by (auto simp: ledger_ok_def walk_complete_def)
    ultimately show "LedgerVerifier_Verify sha256 validator ctxC ctxE source residentID = Inr report"
      using a unfolding LedgerVerifier_Verify_def ledger_ok_def walk_complete_def case_result_ok by auto
  qed
qed

text \<open>Sequences increase strictly along a chain.\<close>

lemma chained_sorted:
  "chained prev rs \<Longrightarrow> sorted_wrt (<) (map lrSeq rs) \<and> (\<forall>s h. prev = Some (s, h) \<longrightarrow> (\<forall>r\<in>set rs. s < lrSeq r))"
proof (induction rs arbitrary: prev)
  case (Cons r rs)
  then have "sorted_wrt (<) (map lrSeq rs)" and "\<forall>q\<in>set rs. lrSeq r < lrSeq q"
    by auto
  with Cons.prems show ?case by fastforce
qed simp

end
