(* ===== verification/Ledger_Envelope.thy ===== *)
theory Ledger_Envelope
  imports Canonical_Ledger
begin

text \<open>
  The storage adapter's envelope validator, \<^verbatim>\<open>CanonicalRepository.ValidateLedgerEnvelope\<close> of
  \<^verbatim>\<open>internal/store/sqlite/ledger.go\<close>, which the ledger verifier calls on every event, and what it adds to the hash
  chain: the head hash of a verified ledger determines every event record. The JSON decoder is the argument
  \<open>decode\<close>; nothing is assumed of it.
\<close>

section \<open>The validator\<close>

record eventHashEnvelope =
  envEventID :: ID
  envResidentID :: ID
  envSeq :: Seq
  envEventType :: string
  envVisibility :: string
  envDeliveryScreen :: bool
  envDeliveryAudio :: bool
  envIngress :: string
  envTrustLevel :: string
  envActorPrincipalID :: ID
  envTargetPrincipalID :: "ID option"
  envGenerationRunID :: "ID option"
  envOccurredAt :: Instant
  envOccurredTZ :: Timezone
  envRecordedAt :: Instant
  envRecordedTZ :: Timezone
  envContentID :: ID
  envPayloadCommitment :: Digest
  envPrevEventHash :: "Digest option"
  envEventHashAlgorithm :: string
  envEventHashDomain :: string
  envCanonicalizationVersion :: string

text \<open>\<^verbatim>\<open>json.Unmarshal\<close> into an \<^verbatim>\<open>eventHashEnvelope\<close>.\<close>

type_synonym envelope_decoder = "CanonicalJSON \<Rightarrow> (canonical_error, eventHashEnvelope) result"

definition ValidateLedgerEnvelope :: "envelope_decoder \<Rightarrow> validator" where
  "ValidateLedgerEnvelope decode record =
     (case decode (lrEnvelope record) of
        Inl e \<Rightarrow> Inl e
      | Inr envelope \<Rightarrow>
          if envEventID envelope \<noteq> lrEventID record \<or> envResidentID envelope \<noteq> lrResidentID record
            \<or> envSeq envelope \<noteq> lrSeq record
          then Inl (CanonicalError ''sqlite: ledger envelope identity mismatch'')
          else if (envPrevEventHash envelope = None) \<noteq> (lrPrevEventHash record = None)
            \<or> envPrevEventHash envelope \<noteq> None \<and> the (envPrevEventHash envelope) \<noteq> the (lrPrevEventHash record)
          then Inl (CanonicalError ''sqlite: ledger envelope previous hash mismatch'')
          else if envContentID envelope \<noteq> lrContentID record
          then Inl (CanonicalError ''sqlite: ledger envelope content reference mismatch'')
          else if envPayloadCommitment envelope \<noteq> lrPayloadCommitment record
          then Inl (CanonicalError ''sqlite: ledger envelope payload commitment mismatch'')
          else ok)"

text \<open>What an accepted record takes from its envelope: all but the event hash and the content object itself.\<close>

definition envelope_of_record :: "eventHashEnvelope \<Rightarrow> LedgerRecord \<Rightarrow> bool" where
  "envelope_of_record envelope r \<longleftrightarrow>
     lrEventID r = envEventID envelope \<and> lrResidentID r = envResidentID envelope \<and> lrSeq r = envSeq envelope
     \<and> lrPrevEventHash r = envPrevEventHash envelope \<and> lrContentID r = envContentID envelope
     \<and> lrPayloadCommitment r = envPayloadCommitment envelope"

lemma ValidateLedgerEnvelope_ok:
  "ValidateLedgerEnvelope decode r = ok \<longleftrightarrow> (\<exists>envelope. decode (lrEnvelope r) = Inr envelope \<and> envelope_of_record envelope r)"
  by (cases "lrPrevEventHash r") (auto simp: ValidateLedgerEnvelope_def envelope_of_record_def split: sum.splits if_splits)

section \<open>The head hash commits to the whole ledger\<close>

definition no_collision :: "sha256 \<Rightarrow> LedgerRecord list \<Rightarrow> LedgerRecord list \<Rightarrow> bool" where
  "no_collision sha256 rs rs' \<longleftrightarrow>
     (\<forall>r\<in>set rs. \<forall>r'\<in>set rs'.
        sha256 (event_preimage (lrEnvelope r)) = sha256 (event_preimage (lrEnvelope r'))
        \<longrightarrow> lrEnvelope r = lrEnvelope r')"

text \<open>The part of a record other than the content object stored for it.\<close>

definition event_row :: "LedgerRecord \<Rightarrow> ID \<times> ID \<times> Seq \<times> ID \<times> Digest \<times> Digest option \<times> Digest \<times> CanonicalJSON" where
  "event_row r = (lrEventID r, lrResidentID r, lrSeq r, lrContentID r, lrPayloadCommitment r, lrPrevEventHash r, lrEventHash r, lrEnvelope r)"

lemma envelope_determines:
  assumes "record_ok sha256 (Some (ValidateLedgerEnvelope decode)) i r" and "record_ok sha256 (Some (ValidateLedgerEnvelope decode)) i q"
    and "lrEnvelope r = lrEnvelope q"
  shows "event_row r = event_row q"
  using assms by (auto simp: record_ok_def ValidateLedgerEnvelope_ok envelope_of_record_def event_row_def)

lemma chained_snoc:
  "chained prev (rs @ [r]) \<longleftrightarrow> chained prev rs \<and>
     (let before = (if rs = [] then prev else Some (lrSeq (last rs), lrEventHash (last rs))) in
      lrPrevEventHash r = map_option snd before \<and> (\<forall>s h. before = Some (s, h) \<longrightarrow> s < lrSeq r))"
  by (induction rs arbitrary: prev) (auto simp: Let_def)

lemma same_head_same_chain:
  assumes "no_collision sha256 rs rs'"
    and "\<forall>r\<in>set rs. record_ok sha256 (Some (ValidateLedgerEnvelope decode)) i r"
    and "\<forall>r\<in>set rs'. record_ok sha256 (Some (ValidateLedgerEnvelope decode)) i r"
    and "chained None rs" and "chained None rs'"
    and "(if rs = [] then None else Some (lrEventHash (last rs))) =
         (if rs' = [] then None else Some (lrEventHash (last rs')))"
  shows "map event_row rs = map event_row rs'"
  using assms
proof (induction rs arbitrary: rs' rule: rev_induct)
  case Nil
  then show ?case by (auto split: if_splits)
next
  case (snoc r rs)
  then obtain qs q where q: "rs' = qs @ [q]"
    by (cases rs' rule: rev_cases) auto
  have oks: "record_ok sha256 (Some (ValidateLedgerEnvelope decode)) i r" "record_ok sha256 (Some (ValidateLedgerEnvelope decode)) i q"
    using snoc.prems(2,3) q by simp_all
  have "lrEnvelope r = lrEnvelope q"
    using snoc.prems(1,6) oks by (auto simp: q no_collision_def record_ok_def)
  with oks have row: "event_row r = event_row q" by (rule envelope_determines)
  then have "(if rs = [] then None else Some (lrEventHash (last rs))) =
      (if qs = [] then None else Some (lrEventHash (last qs)))"
    using snoc.prems(4,5) by (auto simp: q chained_snoc event_row_def Let_def split: if_splits)
  moreover have "no_collision sha256 rs qs"
    using snoc.prems(1) by (simp add: q no_collision_def)
  ultimately have "map event_row rs = map event_row qs"
    using snoc.prems(2-5) by (intro snoc.IH) (auto simp: q chained_snoc)
  with row q show ?case by simp
qed

end
