(* ===== verification/Canonical_Activity.thy ===== *)
theory Canonical_Activity
  imports Canonical_Types
begin

text \<open>
  The registry of accepted, queued and running commands of \<^verbatim>\<open>internal/canonical/activity.go\<close>
  and its resident admission fence. Every method runs under the registry's mutex, so an
  execution is a sequence of operations; the lemmas hold after every sequence, with tokens
  used in any order and any number of times.
\<close>

section \<open>State\<close>

datatype activityState = activityAccepted | activityQueued | activityInFlight

record ActivitySnapshot =
  asAccepted :: int
  asQueued :: int
  asInFlight :: int

definition ActivitySnapshot_Total :: "ActivitySnapshot \<Rightarrow> int" where
  "ActivitySnapshot_Total value = asAccepted value + asQueued value + asInFlight value"

text \<open>\<open>atRegistry\<close> is the identity of the registry a token points to.\<close>

record ActivityToken =
  atRegistry :: "nat option"
  atSequence :: "64 word"
  atResidentID :: ID

definition noToken :: ActivityToken where
  "noToken = \<lparr>atRegistry = None, atSequence = 0, atResidentID = 0\<rparr>"

definition ActivityToken_Valid :: "ActivityToken \<Rightarrow> bool" where
  "ActivityToken_Valid token \<longleftrightarrow>
     atRegistry token \<noteq> None \<and> atSequence token \<noteq> 0 \<and> ID_Validate (atResidentID token) = ok"

definition ActivityToken_ResidentID :: "ActivityToken \<Rightarrow> ID \<times> bool" where
  "ActivityToken_ResidentID token =
     (if \<not> ActivityToken_Valid token then (0, False) else (atResidentID token, True))"

record activityEntry =
  aeResidentID :: ID
  aeState :: activityState
  aeFence :: bool
  aeContended :: bool

record activityRegistry =
  arSelf :: nat
  arNext :: "64 word"
  arEntries :: "(64 word \<times> activityEntry) list"
  arFences :: "ID \<rightharpoonup> 64 word"

definition newActivityRegistry :: "nat \<Rightarrow> activityRegistry" where
  "newActivityRegistry self = \<lparr>arSelf = self, arNext = 0, arEntries = [], arFences = Map.empty\<rparr>"

section \<open>Operations\<close>

definition admit ::
    "activityRegistry \<Rightarrow> Scope \<Rightarrow> bool \<Rightarrow> activityRegistry \<times> (canonical_error, ActivityToken) result" where
  "admit registry scope fence =
     (case scope of
        None \<Rightarrow> (registry, Inr noToken)
      | Some residentID \<Rightarrow>
          if arFences registry residentID \<noteq> None then (registry, Inl ErrResidentAdmissionClosed)
          else let
            next1 = arNext registry + 1;
            sequence = (if next1 = 0 then next1 + 1 else next1);
            contended = (fence \<and> (\<exists>(s, entry)\<in>set (arEntries registry). aeResidentID entry = residentID));
            entry = \<lparr>aeResidentID = residentID, aeState = activityAccepted, aeFence = fence,
              aeContended = contended\<rparr>
          in (registry\<lparr>arNext := sequence,
                arEntries := AList.update sequence entry (arEntries registry),
                arFences := (if fence then (arFences registry)(residentID \<mapsto> sequence) else arFences registry)\<rparr>,
              Inr \<lparr>atRegistry = Some (arSelf registry), atSequence = sequence, atResidentID = residentID\<rparr>))"

definition transition ::
    "activityRegistry \<Rightarrow> ActivityToken \<Rightarrow> activityState \<Rightarrow> activityRegistry \<times> (canonical_error, unit) result" where
  "transition registry token state =
     (if \<not> ActivityToken_Valid token \<or> atRegistry token \<noteq> Some (arSelf registry)
      then (registry, Inl ErrInvalidActivityToken)
      else case map_of (arEntries registry) (atSequence token) of
        None \<Rightarrow> (registry, Inl ErrInvalidActivityToken)
      | Some entry \<Rightarrow>
          if aeResidentID entry \<noteq> atResidentID token then (registry, Inl ErrInvalidActivityToken)
          else if \<not> (aeState entry = activityAccepted \<and> state = activityQueued
                  \<or> aeState entry = activityQueued \<and> state = activityInFlight)
          then (registry, Inl ErrInvalidActivityToken)
          else (registry\<lparr>arEntries := AList.update (atSequence token) (entry\<lparr>aeState := state\<rparr>)
                  (arEntries registry)\<rparr>, ok))"

definition finish :: "activityRegistry \<Rightarrow> ActivityToken \<Rightarrow> activityRegistry" where
  "finish registry token =
     (if \<not> ActivityToken_Valid token \<or> atRegistry token \<noteq> Some (arSelf registry) then registry
      else case map_of (arEntries registry) (atSequence token) of
        None \<Rightarrow> registry
      | Some entry \<Rightarrow>
          if aeResidentID entry \<noteq> atResidentID token then registry
          else registry\<lparr>arEntries := AList.delete (atSequence token) (arEntries registry),
            arFences := (if aeFence entry
                \<and> (case arFences registry (aeResidentID entry) of None \<Rightarrow> 0 | Some s \<Rightarrow> s) = atSequence token
              then (arFences registry)(aeResidentID entry := None) else arFences registry)\<rparr>)"

definition snapshot :: "activityRegistry \<Rightarrow> ID \<Rightarrow> 64 word \<Rightarrow> ActivitySnapshot" where
  "snapshot registry residentID exclude =
     foldl (\<lambda>result (sequence, entry).
         if sequence = exclude \<or> aeResidentID entry \<noteq> residentID then result
         else case aeState entry of
           activityAccepted \<Rightarrow> result\<lparr>asAccepted := asAccepted result + 1\<rparr>
         | activityQueued \<Rightarrow> result\<lparr>asQueued := asQueued result + 1\<rparr>
         | activityInFlight \<Rightarrow> result\<lparr>asInFlight := asInFlight result + 1\<rparr>)
       \<lparr>asAccepted = 0, asQueued = 0, asInFlight = 0\<rparr> (arEntries registry)"

definition requireExclusive ::
    "activityRegistry \<Rightarrow> ActivityToken \<Rightarrow> ID \<Rightarrow> (canonical_error, unit) result" where
  "requireExclusive registry token residentID =
     (if \<not> ActivityToken_Valid token \<or> atRegistry token \<noteq> Some (arSelf registry)
         \<or> atResidentID token \<noteq> residentID
      then Inl ErrInvalidActivityToken
      else case map_of (arEntries registry) (atSequence token) of
        None \<Rightarrow> Inl ErrInvalidActivityToken
      | Some entry \<Rightarrow>
          if aeResidentID entry \<noteq> residentID \<or> aeState entry \<noteq> activityInFlight \<or> \<not> aeFence entry
             \<or> (case arFences registry residentID of None \<Rightarrow> 0 | Some s \<Rightarrow> s) \<noteq> atSequence token
          then Inl ErrInvalidActivityToken
          else if aeContended entry then Inl ErrResidentActivityBusy
          else if \<exists>(sequence, other)\<in>set (arEntries registry).
              sequence \<noteq> atSequence token \<and> aeResidentID other = residentID
          then Inl ErrResidentActivityBusy
          else ok)"

section \<open>Executions\<close>

datatype activity_op =
    OpAdmit Scope bool
  | OpTransition ActivityToken activityState
  | OpFinish ActivityToken

fun apply_op :: "activityRegistry \<Rightarrow> activity_op \<Rightarrow> activityRegistry" where
  "apply_op registry (OpAdmit scope fence) = fst (admit registry scope fence)"
| "apply_op registry (OpTransition token state) = fst (transition registry token state)"
| "apply_op registry (OpFinish token) = finish registry token"

fun op_valid :: "activity_op \<Rightarrow> bool" where
  "op_valid (OpAdmit scope fence) \<longleftrightarrow> Scope_Validate scope = ok"
| "op_valid _ \<longleftrightarrow> True"

definition run_ops :: "activityRegistry \<Rightarrow> activity_op list \<Rightarrow> activityRegistry" where
  "run_ops registry ops = foldl apply_op registry ops"

text \<open>
  The invariant. \<open>n\<close> bounds the number of admissions so far: sequence numbers are 64 bits
  wide, and they are fresh as long as the counter has not gone around.
\<close>

definition registry_inv :: "nat \<Rightarrow> activityRegistry \<Rightarrow> bool" where
  "registry_inv n registry \<longleftrightarrow>
     distinct (map fst (arEntries registry))
     \<and> unat (arNext registry) \<le> n
     \<and> (\<forall>s e. map_of (arEntries registry) s = Some e \<longrightarrow>
          s \<noteq> 0 \<and> unat s \<le> unat (arNext registry) \<and> aeResidentID e \<noteq> 0)
     \<and> (\<forall>r s. arFences registry r = Some s \<longrightarrow>
          (\<exists>e. map_of (arEntries registry) s = Some e \<and> aeFence e \<and> aeResidentID e = r))
     \<and> (\<forall>s e. map_of (arEntries registry) s = Some e \<and> aeFence e \<longrightarrow>
          arFences registry (aeResidentID e) = Some s)
     \<and> (\<forall>s e s' e'. map_of (arEntries registry) s = Some e \<and> aeFence e \<and> \<not> aeContended e
          \<and> map_of (arEntries registry) s' = Some e' \<and> aeResidentID e' = aeResidentID e \<longrightarrow> s' = s)"

lemma new_inv: "registry_inv 0 (newActivityRegistry self)"
  by (simp add: registry_inv_def newActivityRegistry_def)

lemma fresh_sequence:
  assumes "unat (a :: 64 word) \<le> n" and "Suc n < 2 ^ 64"
  shows "a + 1 \<noteq> 0" and "unat (a + 1) = Suc (unat a)"
proof -
  have "unat a + 1 < 2 ^ 64"
    using assms by simp
  then show u: "unat (a + 1) = Suc (unat a)"
    using unat_add_lem [of a 1] by simp
  then show "a + 1 \<noteq> 0" by (metis unat_0 nat.distinct(1))
qed

lemma admit_Some:
  assumes "registry_inv n registry" and "Suc n < 2 ^ 64" and "arFences registry r = None"
  shows "admit registry (Some r) fence =
    (registry\<lparr>arNext := arNext registry + 1,
       arEntries := AList.update (arNext registry + 1)
         \<lparr>aeResidentID = r, aeState = activityAccepted, aeFence = fence,
          aeContended = (fence \<and> (\<exists>(s, entry)\<in>set (arEntries registry). aeResidentID entry = r))\<rparr>
         (arEntries registry),
       arFences := (if fence then (arFences registry)(r \<mapsto> arNext registry + 1) else arFences registry)\<rparr>,
     Inr \<lparr>atRegistry = Some (arSelf registry), atSequence = arNext registry + 1, atResidentID = r\<rparr>)"
proof -
  have "arNext registry + 1 \<noteq> 0"
    using assms(1,2) by (intro fresh_sequence [of _ n]) (auto simp: registry_inv_def)
  with assms(3) show ?thesis by (simp add: admit_def Let_def)
qed

lemma registry_invD:
  assumes "registry_inv n registry"
  shows "distinct (map fst (arEntries registry))" and "unat (arNext registry) \<le> n"
    and "\<And>s e. map_of (arEntries registry) s = Some e \<Longrightarrow> s \<noteq> 0"
    and "\<And>s e. map_of (arEntries registry) s = Some e \<Longrightarrow> unat s \<le> unat (arNext registry)"
    and "\<And>s e. map_of (arEntries registry) s = Some e \<Longrightarrow> aeResidentID e \<noteq> 0"
    and "\<And>r s. arFences registry r = Some s \<Longrightarrow>
      \<exists>e. map_of (arEntries registry) s = Some e \<and> aeFence e \<and> aeResidentID e = r"
    and "\<And>s e. map_of (arEntries registry) s = Some e \<Longrightarrow> aeFence e \<Longrightarrow>
      arFences registry (aeResidentID e) = Some s"
    and "\<And>s e s' e'. map_of (arEntries registry) s = Some e \<Longrightarrow> aeFence e \<Longrightarrow> \<not> aeContended e \<Longrightarrow>
      map_of (arEntries registry) s' = Some e' \<Longrightarrow> aeResidentID e' = aeResidentID e \<Longrightarrow> s' = s"
  using assms unfolding registry_inv_def by blast+

lemma admit_inv:
  assumes inv: "registry_inv n registry" and n: "Suc n < 2 ^ 64" and scope: "Scope_Validate scope = ok"
  shows "registry_inv (Suc n) (fst (admit registry scope fence))"
proof -
  note d = registry_invD [OF inv]
  have weaker: "registry_inv (Suc n) registry"
    using inv d(2) unfolding registry_inv_def by auto
  show ?thesis
  proof (cases "\<exists>r. scope = Some r \<and> arFences registry r = None")
    case False
    then have "fst (admit registry scope fence) = registry"
      by (auto simp: admit_def split: option.splits)
    with weaker show ?thesis by simp
  next
    case True
    then obtain r where r: "scope = Some r" "arFences registry r = None" by blast
    then have r0: "r \<noteq> 0" using scope by simp
    let ?q = "arNext registry + 1"
    let ?c = "fence \<and> (\<exists>(s, entry)\<in>set (arEntries registry). aeResidentID entry = r)"
    let ?e = "\<lparr>aeResidentID = r, aeState = activityAccepted, aeFence = fence, aeContended = ?c\<rparr>"
    let ?reg = "fst (admit registry scope fence)"
    have q: "?q \<noteq> 0" "unat ?q = Suc (unat (arNext registry))"
      using fresh_sequence [OF d(2) n] .
    then have new: "map_of (arEntries registry) ?q = None"
      using d(4) [of ?q] by (cases "map_of (arEntries registry) ?q") auto
    have reg: "arNext ?reg = ?q" "map_of (arEntries ?reg) = (map_of (arEntries registry))(?q \<mapsto> ?e)"
      "arFences ?reg = (if fence then (arFences registry)(r \<mapsto> ?q) else arFences registry)"
      "distinct (map fst (arEntries ?reg))"
      by (simp_all add: r(1) admit_Some [OF inv n r(2)] update_conv' distinct_update d(1))
    have old: "aeResidentID e \<noteq> r" if "map_of (arEntries registry) s = Some e" "\<not> ?c" "fence" for s e
      using that by (auto dest: map_of_SomeD)
    have nofence: "\<not> aeFence e" if "map_of (arEntries registry) s = Some e" "aeResidentID e = r" for s e
      using d(7) [OF that(1)] that(2) r(2) by auto
    show ?thesis
      unfolding registry_inv_def reg(1,2)
    proof (intro conjI allI impI)
      show "distinct (map fst (arEntries ?reg))" by (rule reg(4))
      show "unat ?q \<le> Suc n" using q d(2) by simp
    next
      fix s e
      assume "((map_of (arEntries registry))(?q \<mapsto> ?e)) s = Some e"
      then show "s \<noteq> 0" and "unat s \<le> unat ?q" and "aeResidentID e \<noteq> 0"
        using d(3,4,5) q r0 by (auto split: if_splits intro: le_SucI)
    next
      fix r' s
      assume "arFences ?reg r' = Some s"
      then show "\<exists>e. ((map_of (arEntries registry))(?q \<mapsto> ?e)) s = Some e \<and> aeFence e \<and> aeResidentID e = r'"
        using d(6) [of r' s] new by (auto simp: reg(3) split: if_splits)
    next
      fix s e
      assume "((map_of (arEntries registry))(?q \<mapsto> ?e)) s = Some e \<and> aeFence e"
      then show "arFences ?reg (aeResidentID e) = Some s"
        using d(7) [of s e] nofence [of s e] by (auto simp: reg(3) split: if_splits)
    next
      fix s e s' e'
      assume a: "((map_of (arEntries registry))(?q \<mapsto> ?e)) s = Some e \<and> aeFence e \<and> \<not> aeContended e
          \<and> ((map_of (arEntries registry))(?q \<mapsto> ?e)) s' = Some e' \<and> aeResidentID e' = aeResidentID e"
      show "s' = s"
      proof (cases "s = ?q")
        case True
        with a have "e = ?e" by simp
        with a True old [of s' e'] show ?thesis by (auto split: if_splits)
      next
        case False
        with a have e: "map_of (arEntries registry) s = Some e" "aeFence e" "\<not> aeContended e" by auto
        show ?thesis
        proof (cases "s' = ?q")
          case True
          with a nofence [OF e(1)] e(2) show ?thesis by auto
        next
          case False
          with a d(8) [OF e] show ?thesis by auto
        qed
      qed
    qed
  qed
qed

lemma transition_cases:
  "fst (transition registry token state) = registry \<or>
   (\<exists>entry. map_of (arEntries registry) (atSequence token) = Some entry
      \<and> fst (transition registry token state) = registry\<lparr>arEntries :=
          AList.update (atSequence token) (entry\<lparr>aeState := state\<rparr>) (arEntries registry)\<rparr>)"
  by (auto simp: transition_def split: option.splits)

lemma transition_inv:
  assumes inv: "registry_inv n registry"
  shows "registry_inv n (fst (transition registry token state))"
proof -
  note d = registry_invD [OF inv]
  consider "fst (transition registry token state) = registry"
    | entry where "map_of (arEntries registry) (atSequence token) = Some entry"
      "fst (transition registry token state) = registry\<lparr>arEntries :=
          AList.update (atSequence token) (entry\<lparr>aeState := state\<rparr>) (arEntries registry)\<rparr>"
    using transition_cases by blast
  then show ?thesis
  proof cases
    case 1
    with inv show ?thesis by simp
  next
    case (2 entry)
    let ?m = "map_of (arEntries registry)"
    let ?m' = "?m(atSequence token \<mapsto> entry\<lparr>aeState := state\<rparr>)"
    have same: "\<exists>e'. ?m s = Some e' \<and> aeFence e' = aeFence e \<and> aeContended e' = aeContended e
        \<and> aeResidentID e' = aeResidentID e" if "?m' s = Some e" for s e
      using that 2(1) by (auto split: if_splits)
    have keep: "\<exists>e'. ?m' s = Some e' \<and> aeFence e' = aeFence e \<and> aeResidentID e' = aeResidentID e"
      if "?m s = Some e" for s e
      using that 2(1) by auto
    let ?reg = "fst (transition registry token state)"
    have reg: "map_of (arEntries ?reg) = ?m'" "arNext ?reg = arNext registry" "arFences ?reg = arFences registry"
      "distinct (map fst (arEntries ?reg))"
      by (simp_all add: 2(2) update_conv' distinct_update d(1))
    show ?thesis
      unfolding registry_inv_def reg(1,2,3)
    proof (intro conjI allI impI)
      show "distinct (map fst (arEntries ?reg))" "unat (arNext registry) \<le> n"
        by (rule reg(4), rule d(2))
    next
      fix s e
      assume "?m' s = Some e"
      from same [OF this] obtain e' where "?m s = Some e'" "aeResidentID e' = aeResidentID e" by blast
      then show "s \<noteq> 0" and "unat s \<le> unat (arNext registry)" and "aeResidentID e \<noteq> 0"
        using d(3,4,5) [of s e'] by simp_all
    next
      fix r s
      assume "arFences registry r = Some s"
      from d(6) [OF this] obtain e where "?m s = Some e" "aeFence e" "aeResidentID e = r" by blast
      with keep [of s e] show "\<exists>e. ?m' s = Some e \<and> aeFence e \<and> aeResidentID e = r" by blast
    next
      fix s e
      assume a: "?m' s = Some e \<and> aeFence e"
      with same [of s e] obtain e' where "?m s = Some e'" "aeFence e'" "aeResidentID e' = aeResidentID e" by blast
      with d(7) [of s e'] show "arFences registry (aeResidentID e) = Some s" by simp
    next
      fix s e s' e'
      assume a: "?m' s = Some e \<and> aeFence e \<and> \<not> aeContended e \<and> ?m' s' = Some e' \<and> aeResidentID e' = aeResidentID e"
      obtain f where f: "?m s = Some f" "aeFence f" "\<not> aeContended f" "aeResidentID f = aeResidentID e"
        using same [of s e] a by blast
      obtain f' where f': "?m s' = Some f'" "aeResidentID f' = aeResidentID e'"
        using same [of s' e'] a by blast
      show "s' = s"
        by (rule d(8) [OF f(1,2,3) f'(1)]) (use f(4) f'(2) a in simp)
    qed
  qed
qed

lemma finish_cases:
  "finish registry token = registry \<or>
   (\<exists>entry. map_of (arEntries registry) (atSequence token) = Some entry \<and> aeResidentID entry = atResidentID token
      \<and> finish registry token = registry\<lparr>arEntries := AList.delete (atSequence token) (arEntries registry),
          arFences := (if aeFence entry
              \<and> (case arFences registry (aeResidentID entry) of None \<Rightarrow> 0 | Some s \<Rightarrow> s) = atSequence token
            then (arFences registry)(aeResidentID entry := None) else arFences registry)\<rparr>)"
proof (cases "map_of (arEntries registry) (atSequence token)")
  case None
  then show ?thesis by (simp add: finish_def)
next
  case (Some entry)
  show ?thesis
  proof (cases "finish registry token = registry")
    case False
    with Some show ?thesis
      unfolding finish_def Some option.case by (intro disjI2 exI [of _ entry]) (simp split: if_splits)
  qed simp
qed

lemma finish_inv:
  assumes inv: "registry_inv n registry"
  shows "registry_inv n (finish registry token)"
proof -
  note d = registry_invD [OF inv]
  let ?q = "atSequence token"
  let ?m = "map_of (arEntries registry)"
  consider "finish registry token = registry"
    | entry where "?m ?q = Some entry"
      "finish registry token = registry\<lparr>arEntries := AList.delete ?q (arEntries registry),
          arFences := (if aeFence entry
              \<and> (case arFences registry (aeResidentID entry) of None \<Rightarrow> 0 | Some s \<Rightarrow> s) = ?q
            then (arFences registry)(aeResidentID entry := None) else arFences registry)\<rparr>"
    using finish_cases by blast
  then show ?thesis
  proof cases
    case 1
    with inv show ?thesis by simp
  next
    case (2 entry)
    have fences: "arFences (finish registry token) =
        (if aeFence entry then (arFences registry)(aeResidentID entry := None) else arFences registry)"
      using d(7) [OF 2(1)] by (simp add: 2(2))
    have m: "map_of (arEntries (finish registry token)) = ?m(?q := None)"
      "arNext (finish registry token) = arNext registry" "distinct (map fst (arEntries (finish registry token)))"
      by (simp_all add: 2(2) delete_conv' distinct_delete d(1))
    show ?thesis
      unfolding registry_inv_def m(1,2)
    proof (intro conjI allI impI)
      show "distinct (map fst (arEntries (finish registry token)))" "unat (arNext registry) \<le> n"
        by (rule m(3), rule d(2))
    next
      fix s e
      assume "(?m(?q := None)) s = Some e"
      then show "s \<noteq> 0" and "unat s \<le> unat (arNext registry)" and "aeResidentID e \<noteq> 0"
        using d(3,4,5) by (auto split: if_splits)
    next
      fix r s
      assume f: "arFences (finish registry token) r = Some s"
      then have old: "arFences registry r = Some s" and r: "aeFence entry \<Longrightarrow> r \<noteq> aeResidentID entry"
        by (auto simp: fences split: if_splits)
      obtain e where e: "?m s = Some e" "aeFence e" "aeResidentID e = r"
        using d(6) [OF old] by blast
      have "s \<noteq> ?q" using e 2(1) r by auto
      with e show "\<exists>e. (?m(?q := None)) s = Some e \<and> aeFence e \<and> aeResidentID e = r" by auto
    next
      fix s e
      assume a: "(?m(?q := None)) s = Some e \<and> aeFence e"
      then have e: "?m s = Some e" "aeFence e" "s \<noteq> ?q" by (auto split: if_splits)
      then have "arFences registry (aeResidentID e) = Some s" using d(7) by blast
      moreover have "aeFence entry \<Longrightarrow> aeResidentID e \<noteq> aeResidentID entry"
        using d(7) [OF 2(1)] calculation e(3) by auto
      ultimately show "arFences (finish registry token) (aeResidentID e) = Some s"
        by (auto simp: fences)
    next
      fix s e s' e'
      assume "(?m(?q := None)) s = Some e \<and> aeFence e \<and> \<not> aeContended e
          \<and> (?m(?q := None)) s' = Some e' \<and> aeResidentID e' = aeResidentID e"
      then show "s' = s"
        using d(8) [of s e s' e'] by (auto split: if_splits)
    qed
  qed
qed

lemma apply_op_inv:
  assumes "registry_inv n registry" and "Suc n < 2 ^ 64" and "op_valid act"
  shows "registry_inv (Suc n) (apply_op registry act)"
proof (cases act)
  case (OpAdmit scope fence)
  with assms show ?thesis by (simp add: admit_inv)
next
  case (OpTransition token state)
  have "registry_inv (Suc n) registry"
    using assms(1) registry_invD(2) [OF assms(1)] unfolding registry_inv_def by auto
  with OpTransition show ?thesis by (simp add: transition_inv)
next
  case (OpFinish token)
  have "registry_inv (Suc n) registry"
    using assms(1) registry_invD(2) [OF assms(1)] unfolding registry_inv_def by auto
  with OpFinish show ?thesis by (simp add: finish_inv)
qed

lemma run_ops_inv:
  assumes "registry_inv n registry" and "n + length ops < 2 ^ 64" and "\<forall>act\<in>set ops. op_valid act"
  shows "registry_inv (n + length ops) (run_ops registry ops)"
  using assms
proof (induction ops arbitrary: n registry)
  case Nil
  then show ?case by (simp add: run_ops_def)
next
  case (Cons act ops)
  then have "registry_inv (Suc n) (apply_op registry act)"
    by (intro apply_op_inv) auto
  then have "registry_inv (Suc n + length ops) (run_ops (apply_op registry act) ops)"
    using Cons.prems by (intro Cons.IH) auto
  then show ?case by (simp add: run_ops_def)
qed

section \<open>The fence\<close>

definition holds_fence :: "activityRegistry \<Rightarrow> ActivityToken \<Rightarrow> ID \<Rightarrow> bool" where
  "holds_fence registry token r \<longleftrightarrow>
     ActivityToken_Valid token \<and> atRegistry token = Some (arSelf registry) \<and> atResidentID token = r
     \<and> (\<exists>e. map_of (arEntries registry) (atSequence token) = Some e \<and> aeResidentID e = r
          \<and> aeState e = activityInFlight \<and> aeFence e \<and> \<not> aeContended e)"

text \<open>Given the invariant, the scan over the other entries never decides.\<close>

lemma requireExclusive_iff:
  assumes "registry_inv n registry"
  shows "requireExclusive registry token r = ok \<longleftrightarrow> holds_fence registry token r"
proof
  assume "requireExclusive registry token r = ok"
  then show "holds_fence registry token r"
    unfolding requireExclusive_def holds_fence_def by (auto split: if_splits option.splits)
next
  note d = registry_invD [OF assms]
  assume h: "holds_fence registry token r"
  then obtain e where t: "ActivityToken_Valid token" "atRegistry token = Some (arSelf registry)" "atResidentID token = r"
    and e: "map_of (arEntries registry) (atSequence token) = Some e" "aeResidentID e = r"
    "aeState e = activityInFlight" "aeFence e" "\<not> aeContended e"
    unfolding holds_fence_def by blast
  have fence: "arFences registry r = Some (atSequence token)"
    using d(7) [OF e(1,4)] e(2) by simp
  have alone: "\<not> (\<exists>(sequence, other)\<in>set (arEntries registry).
      sequence \<noteq> atSequence token \<and> aeResidentID other = r)"
  proof
    assume "\<exists>(sequence, other)\<in>set (arEntries registry). sequence \<noteq> atSequence token \<and> aeResidentID other = r"
    then obtain q f where q: "(q, f) \<in> set (arEntries registry)" "q \<noteq> atSequence token" "aeResidentID f = r"
      by blast
    have "map_of (arEntries registry) q = Some f"
      using q(1) d(1) by simp
    from d(8) [OF e(1,4,5) this] q(2,3) e(2) show False by simp
  qed
  show "requireExclusive registry token r = ok"
    unfolding requireExclusive_def using t e fence alone by simp
qed

lemma holds_fence_closed:
  assumes "registry_inv n registry" and "holds_fence registry token r"
  shows "admit registry (Some r) fence = (registry, Inl ErrResidentAdmissionClosed)"
proof -
  obtain e where "map_of (arEntries registry) (atSequence token) = Some e" "aeResidentID e = r" "aeFence e"
    using assms(2) unfolding holds_fence_def by blast
  with registry_invD(7) [OF assms(1)] have "arFences registry r \<noteq> None" by auto
  then show ?thesis by (simp add: admit_def)
qed

fun ends :: "ActivityToken \<Rightarrow> activity_op \<Rightarrow> bool" where
  "ends token (OpFinish t) \<longleftrightarrow> atSequence t = atSequence token"
| "ends token _ \<longleftrightarrow> False"

lemma arSelf_apply_op [simp]: "arSelf (apply_op registry act) = arSelf registry"
  by (cases act) (auto simp: admit_def transition_def finish_def Let_def split: option.splits)

lemma admit_keeps:
  assumes "registry_inv n registry" and "Suc n < 2 ^ 64" and "map_of (arEntries registry) s = Some e"
  shows "map_of (arEntries (fst (admit registry scope fence))) s = Some e"
proof (cases "\<exists>r. scope = Some r \<and> arFences registry r = None")
  case False
  then have "fst (admit registry scope fence) = registry"
    by (auto simp: admit_def split: option.splits)
  with assms(3) show ?thesis by simp
next
  case True
  then obtain r where r: "scope = Some r" "arFences registry r = None" by blast
  have "s \<noteq> arNext registry + 1"
    using registry_invD(4) [OF assms(1,3)] fresh_sequence(2) [OF registry_invD(2) [OF assms(1)] assms(2)] by auto
  with assms(3) show ?thesis
    by (simp add: r(1) admit_Some [OF assms(1,2) r(2)] update_conv')
qed

lemma transition_keeps:
  assumes "map_of (arEntries registry) s = Some e" and "aeState e = activityInFlight"
  shows "map_of (arEntries (fst (transition registry token state))) s = Some e"
proof (cases "atSequence token = s")
  case True
  then have "fst (transition registry token state) = registry"
    using assms by (simp add: transition_def)
  with assms show ?thesis by simp
next
  case False
  with assms transition_cases [of registry token state] show ?thesis
    by (auto simp: update_conv')
qed

lemma finish_keeps:
  assumes "map_of (arEntries registry) s = Some e" and "atSequence token \<noteq> s"
  shows "map_of (arEntries (finish registry token)) s = Some e"
  using finish_cases [of registry token] assms by (elim disjE exE) (auto simp: delete_conv')

lemma holds_fence_step:
  assumes "registry_inv n registry" and "Suc n < 2 ^ 64" and "holds_fence registry token r" and "\<not> ends token act"
  shows "holds_fence (apply_op registry act) token r"
proof -
  obtain e where e: "map_of (arEntries registry) (atSequence token) = Some e" "aeResidentID e = r"
    "aeState e = activityInFlight" "aeFence e" "\<not> aeContended e"
    and t: "ActivityToken_Valid token" "atRegistry token = Some (arSelf registry)" "atResidentID token = r"
    using assms(3) unfolding holds_fence_def by blast
  have "map_of (arEntries (apply_op registry act)) (atSequence token) = Some e"
  proof (cases act)
    case (OpAdmit scope fence)
    then show ?thesis using admit_keeps [OF assms(1,2) e(1)] by simp
  next
    case (OpTransition t state)
    then show ?thesis using transition_keeps [OF e(1,3)] by simp
  next
    case (OpFinish t)
    with assms(4) show ?thesis using finish_keeps [OF e(1)] by simp
  qed
  with e t show ?thesis unfolding holds_fence_def by simp
qed

lemma holds_fence_run:
  assumes "registry_inv n registry" and "n + length ops < 2 ^ 64" and "\<forall>act\<in>set ops. op_valid act"
    and "holds_fence registry token r" and "\<forall>act\<in>set ops. \<not> ends token act"
  shows "holds_fence (run_ops registry ops) token r"
  using assms
proof (induction ops arbitrary: n registry)
  case Nil
  then show ?case by (simp add: run_ops_def)
next
  case (Cons act ops)
  have inv: "registry_inv (Suc n) (apply_op registry act)"
    using Cons.prems by (intro apply_op_inv) auto
  have "holds_fence (apply_op registry act) token r"
    using Cons.prems by (intro holds_fence_step [of n]) auto
  then have "holds_fence (run_ops (apply_op registry act) ops) token r"
    using Cons.prems by (intro Cons.IH [OF inv]) auto
  then show ?case by (simp add: run_ops_def)
qed

section \<open>Snapshots\<close>

definition counts :: "ID \<Rightarrow> 64 word \<Rightarrow> activityState \<Rightarrow> (64 word \<times> activityEntry) list \<Rightarrow> int" where
  "counts r exclude state es = int (length (filter (\<lambda>(s, e). s \<noteq> exclude \<and> aeResidentID e = r \<and> aeState e = state) es))"

lemma snapshot_eq:
  "snapshot registry r exclude =
     \<lparr>asAccepted = counts r exclude activityAccepted (arEntries registry),
      asQueued = counts r exclude activityQueued (arEntries registry),
      asInFlight = counts r exclude activityInFlight (arEntries registry)\<rparr>"
proof -
  let ?f = "\<lambda>result (sequence, entry).
         if sequence = exclude \<or> aeResidentID entry \<noteq> r then result
         else case aeState entry of
           activityAccepted \<Rightarrow> result\<lparr>asAccepted := asAccepted result + 1\<rparr>
         | activityQueued \<Rightarrow> result\<lparr>asQueued := asQueued result + 1\<rparr>
         | activityInFlight \<Rightarrow> result\<lparr>asInFlight := asInFlight result + 1\<rparr>"
  have "foldl ?f \<lparr>asAccepted = a, asQueued = b, asInFlight = c\<rparr> es =
      \<lparr>asAccepted = a + counts r exclude activityAccepted es, asQueued = b + counts r exclude activityQueued es,
       asInFlight = c + counts r exclude activityInFlight es\<rparr>" for a b c es
  proof (induction es arbitrary: a b c)
    case (Cons x es)
    obtain s e where x: "x = (s, e)" by (cases x)
    show ?case
      by (cases "aeState e") (auto simp: x Cons.IH counts_def)
  qed (simp add: counts_def)
  then show ?thesis by (simp add: snapshot_def)
qed

end
