(* ===== verification/Canonical_Writer.thy ===== *)
theory Canonical_Writer
  imports Canonical_Types
begin

text \<open>
  The single canonical writer, \<^verbatim>\<open>internal/canonical/writer.go\<close>: allocation of commit
  metadata, execution of one command inside a backend unit of work with all its error and
  panic paths, the reversible admission fence and the irreversible close protocol. The
  backend, the command, the clock and the ID source are given by what their calls return;
  the calls the writer makes on the backend are recorded as a trace.
\<close>

section \<open>Collaborators\<close>

text \<open>A call that may return or panic.\<close>

datatype 'a outcome = Returned "(canonical_error, 'a) result" | Panicked

record CanonicalUoW =
  uowMetadata :: CommitMetadata
  uowCommit :: "unit outcome"
  uowRollback :: "(canonical_error, unit) result"

text \<open>
  A command: its name, scope and validation at the second look inside the unit of work, and
  the outcome of \<^verbatim>\<open>Execute\<close>. \<open>nilUoW\<close> stands for a backend that returns no unit of work.
\<close>

record Command =
  cmdName :: string
  cmdScope :: Scope
  cmdValidate :: "(canonical_error, unit) result"
  cmdExecute :: "string outcome"
  cmdExecuteValue :: string

record ExecEnv =
  envCtxErr :: "canonical_error option"
  envNewID :: "(canonical_error, ID) result"
  envNow :: Instant
  envBegin :: "CommitMetadata \<Rightarrow> (canonical_error, CanonicalUoW option) result"

datatype BackendCall = CallBegin CommitMetadata | CallCommit | CallRollback

record CommandResult =
  crCommit :: "CommitMetadata option"
  crValue :: string

section \<open>Commit metadata\<close>

definition nextMetadata ::
    "Head \<Rightarrow> Timezone \<Rightarrow> (canonical_error, ID) result \<Rightarrow> Instant \<Rightarrow> Scope \<Rightarrow> (canonical_error, CommitMetadata) result" where
  "nextMetadata head timezone newID now scope =
     (if Exists head \<and> HeadCommitSeq head = maxInt64 then Inl ErrCommitSeqOverflow
      else case NewCommitSeq (if Exists head then wrap64 (HeadCommitSeq head + 1) else 1) of
        Inl e \<Rightarrow> Inl e
      | Inr commitSeq \<Rightarrow>
     (case newID of Inl e \<Rightarrow> Inl (CanonicalError ''allocate commit ID'') | Inr commitID \<Rightarrow>
      if Exists head \<and> now \<le> HeadCommittedAt head then
        (if HeadCommittedAt head = maxInt64 then Inl (CanonicalError ''ledger time overflow'')
         else Inr \<lparr>CommitID = commitID, MetaCommitSeq = commitSeq, MetaScope = scope,
           MetaCommittedAt = wrap64 (HeadCommittedAt head + 1), CommittedTZ = timezone\<rparr>)
      else Inr \<lparr>CommitID = commitID, MetaCommitSeq = commitSeq, MetaScope = scope,
        MetaCommittedAt = now, CommittedTZ = timezone\<rparr>))"

section \<open>Execution of one command\<close>

text \<open>The part of the writer that the run loop owns: the head and the first poisoning error.\<close>

record WriterCore =
  wcHead :: Head
  wcPoisoned :: "canonical_error option"
  wcTimezone :: Timezone

definition poison :: "WriterCore \<Rightarrow> canonical_error \<Rightarrow> WriterCore" where
  "poison w cause = (if wcPoisoned w = None then w\<lparr>wcPoisoned := Some cause\<rparr> else w)"

definition poisonError :: "WriterCore \<Rightarrow> canonical_error option" where
  "poisonError w = (if wcPoisoned w = None then None else Some ErrWriterPoisoned)"

definition validateCommandSnapshot ::
    "Command \<Rightarrow> string \<Rightarrow> Scope \<Rightarrow> (canonical_error, unit) result" where
  "validateCommandSnapshot command name scope =
     (if name = '''' then Inl (CanonicalError ''command name is empty'')
      else case Scope_Validate scope of Inl e \<Rightarrow> Inl e | Inr _ \<Rightarrow>
      if cmdName command \<noteq> name \<or> \<not> Scope_Equal (cmdScope command) scope
      then Inl (CanonicalError ''command identity or scope changed after submission'')
      else case cmdValidate command of Inl e \<Rightarrow> Inl (CanonicalError ''validate'') | Inr _ \<Rightarrow> ok)"

definition snapshotCommand :: "Command \<Rightarrow> (canonical_error, string \<times> Scope) result" where
  "snapshotCommand command =
     (case validateCommandSnapshot command (cmdName command) (cmdScope command) of
        Inl e \<Rightarrow> Inl e
      | Inr _ \<Rightarrow> Inr (cmdName command, cmdScope command))"

definition writer_rollback ::
    "WriterCore \<Rightarrow> CanonicalUoW \<Rightarrow> canonical_error \<Rightarrow> WriterCore \<times> canonical_error" where
  "writer_rollback w uow cause =
     (case uowRollback uow of
        Inl e \<Rightarrow> (poison w cause, ErrWriterPoisoned)
      | Inr _ \<Rightarrow> (w, cause))"

text \<open>The deferred recovery: roll back, poison, and report.\<close>

definition recoverPanic :: "WriterCore \<Rightarrow> BackendCall list
    \<Rightarrow> WriterCore \<times> BackendCall list \<times> (canonical_error, CommandResult) result" where
  "recoverPanic w calls =
     (poison w (CanonicalError ''command panicked''), calls @ [CallRollback], Inl ErrWriterPoisoned)"

type_synonym execution = "WriterCore \<times> BackendCall list \<times> (canonical_error, CommandResult) result"

definition commitUoW ::
    "WriterCore \<Rightarrow> CommitMetadata \<Rightarrow> CanonicalUoW \<Rightarrow> string \<Rightarrow> BackendCall list \<Rightarrow> execution" where
  "commitUoW w metadata uow value calls =
     (case uowCommit uow of
        Panicked \<Rightarrow> recoverPanic w (calls @ [CallCommit])
      | Returned (Inl e) \<Rightarrow>
          (poison w (CanonicalError ''commit''), calls @ [CallCommit], Inl ErrWriterPoisoned)
      | Returned (Inr _) \<Rightarrow>
          (w\<lparr>wcHead := \<lparr>Exists = True, HeadCommitSeq = MetaCommitSeq metadata,
               HeadCommittedAt = MetaCommittedAt metadata\<rparr>\<rparr>,
           calls @ [CallCommit], Inr \<lparr>crCommit = Some metadata, crValue = value\<rparr>))"

definition rollbackWith ::
    "WriterCore \<Rightarrow> CanonicalUoW \<Rightarrow> canonical_error \<Rightarrow> BackendCall list \<Rightarrow> execution" where
  "rollbackWith w uow cause calls =
     (let (w', e') = writer_rollback w uow cause in (w', calls @ [CallRollback], Inl e'))"

definition executeUoW ::
    "WriterCore \<Rightarrow> string \<Rightarrow> Scope \<Rightarrow> Command \<Rightarrow> CommitMetadata \<Rightarrow> CanonicalUoW \<Rightarrow> BackendCall list \<Rightarrow> execution" where
  "executeUoW w name scope command metadata uow calls =
     (if \<not> CommitMetadata_Equal (uowMetadata uow) metadata then
        (poison w (CanonicalError ''backend UoW metadata mismatch''), calls @ [CallRollback], Inl ErrWriterPoisoned)
      else (case validateCommandSnapshot command name scope of
        Inl e \<Rightarrow> rollbackWith w uow e calls
      | Inr _ \<Rightarrow>
          (case cmdExecute command of
             Panicked \<Rightarrow> recoverPanic w calls
           | Returned (Inl e) \<Rightarrow>
               (if e = ErrNoMutation then
                  (case uowRollback uow of
                     Inl _ \<Rightarrow> (poison w ErrNoMutation, calls @ [CallRollback], Inl ErrWriterPoisoned)
                   | Inr _ \<Rightarrow> (w, calls @ [CallRollback],
                       Inr \<lparr>crCommit = None, crValue = cmdExecuteValue command\<rparr>))
                else rollbackWith w uow e calls)
           | Returned (Inr value) \<Rightarrow> commitUoW w metadata uow value calls)))"

definition execute ::
    "(string \<Rightarrow> bool) \<Rightarrow> WriterCore \<Rightarrow> ExecEnv \<Rightarrow> string \<Rightarrow> Scope \<Rightarrow> Command \<Rightarrow> execution" where
  "execute known w env name scope command =
     (case poisonError w of Some e \<Rightarrow> (w, [], Inl e) | None \<Rightarrow>
     (case envCtxErr env of Some e \<Rightarrow> (w, [], Inl e) | None \<Rightarrow>
     (case nextMetadata (wcHead w) (wcTimezone w) (envNewID env) (envNow env) scope of
        Inl e \<Rightarrow> (w, [], Inl e)
      | Inr metadata \<Rightarrow>
     (case CommitMetadata_Validate known metadata of Inl e \<Rightarrow> (w, [], Inl e) | Inr _ \<Rightarrow>
     (case envBegin env metadata of
        Inl e \<Rightarrow> (w, [CallBegin metadata], Inl (CanonicalError ''begin''))
      | Inr None \<Rightarrow>
          (poison w (CanonicalError ''backend returned nil UoW''), [CallBegin metadata], Inl ErrWriterPoisoned)
      | Inr (Some uow) \<Rightarrow> executeUoW w name scope command metadata uow [CallBegin metadata])))))"

section \<open>Allocation is strictly increasing\<close>

definition head_ok :: "Head \<Rightarrow> bool" where
  "head_ok head \<longleftrightarrow> Head_Validate head = ok \<and> int64 (HeadCommitSeq head) \<and> int64 (HeadCommittedAt head)"

lemma nextMetadata_Inr:
  assumes "head_ok head" and "int64 now"
  shows "nextMetadata head timezone newID now scope = Inr m \<longleftrightarrow>
    (\<exists>i. newID = Inr i \<and> (Exists head \<longrightarrow> HeadCommitSeq head < maxInt64
        \<and> (HeadCommittedAt head < now \<or> HeadCommittedAt head < maxInt64))
     \<and> m = \<lparr>CommitID = i, MetaCommitSeq = (if Exists head then HeadCommitSeq head + 1 else 1),
         MetaScope = scope, MetaCommittedAt = (if Exists head then max now (HeadCommittedAt head + 1) else now),
         CommittedTZ = timezone\<rparr>)"
proof (cases "Exists head")
  case False
  then show ?thesis
    by (auto simp: nextMetadata_def NewCommitSeq_def split: sum.splits)
next
  case True
  then have seq: "0 < HeadCommitSeq head" "HeadCommitSeq head \<le> maxInt64" "HeadCommittedAt head \<le> maxInt64"
    "minInt64 \<le> HeadCommittedAt head"
    using assms(1) by (auto simp: head_ok_def Head_Validate_def int64_maxInt64_iff CommitSeq_Validate_def NewCommitSeq_def
        split: if_splits)
  have w1: "wrap64 (HeadCommitSeq head + 1) = HeadCommitSeq head + 1" if "HeadCommitSeq head \<noteq> maxInt64"
    using seq that by (intro wrap64_id) (auto simp: int64_maxInt64_iff minInt64_def)
  have w2: "wrap64 (HeadCommittedAt head + 1) = HeadCommittedAt head + 1" if "HeadCommittedAt head \<noteq> maxInt64"
    using seq that by (intro wrap64_id) (auto simp: int64_maxInt64_iff)
  have now: "now \<le> maxInt64"
    using assms(2) by (simp add: int64_maxInt64_iff)
  show ?thesis
  proof (cases "HeadCommitSeq head = maxInt64")
    case True
    with \<open>Exists head\<close> show ?thesis by (simp add: nextMetadata_def)
  next
    case False
    with seq have "HeadCommitSeq head < maxInt64" by simp
    with False True seq now show ?thesis
      by (cases newID; cases "now \<le> HeadCommittedAt head"; cases "HeadCommittedAt head = maxInt64")
        (auto simp: nextMetadata_def Let_def w1 w2 NewCommitSeq_def max_def)
  qed
qed

section \<open>What one execution does\<close>

definition head_of :: "CommitMetadata \<Rightarrow> Head" where
  "head_of m = \<lparr>Exists = True, HeadCommitSeq = MetaCommitSeq m, HeadCommittedAt = MetaCommittedAt m\<rparr>"

text \<open>
  Every way one execution can end. In the second to fourth case nothing can have been
  committed; in the fifth the commit is ambiguous, and then the writer is poisoned.
\<close>

definition committed :: "WriterCore \<Rightarrow> execution \<Rightarrow> CommitMetadata \<Rightarrow> bool" where
  "committed w x m \<longleftrightarrow> (\<exists>v. x = (w\<lparr>wcHead := head_of m\<rparr>, [CallBegin m, CallCommit],
     Inr \<lparr>crCommit = Some m, crValue = v\<rparr>))"

definition not_begun :: "WriterCore \<Rightarrow> execution \<Rightarrow> bool" where
  "not_begun w x \<longleftrightarrow> (\<exists>e. x = (w, [], Inl e))"

definition begin_failed :: "WriterCore \<Rightarrow> execution \<Rightarrow> CommitMetadata \<Rightarrow> bool" where
  "begin_failed w x m \<longleftrightarrow> (\<exists>w' e. x = (w', [CallBegin m], Inl e) \<and> wcHead w' = wcHead w
     \<and> wcTimezone w' = wcTimezone w)"

definition rolled_back :: "WriterCore \<Rightarrow> execution \<Rightarrow> CommitMetadata \<Rightarrow> bool" where
  "rolled_back w x m \<longleftrightarrow> (\<exists>w' r. x = (w', [CallBegin m, CallRollback], r) \<and> wcHead w' = wcHead w
     \<and> wcTimezone w' = wcTimezone w \<and> (\<forall>c. r = Inr c \<longrightarrow> crCommit c = None \<and> w' = w))"

definition commit_ambiguous :: "WriterCore \<Rightarrow> execution \<Rightarrow> CommitMetadata \<Rightarrow> bool" where
  "commit_ambiguous w x m \<longleftrightarrow> (\<exists>w' calls e. x = (w', CallBegin m # CallCommit # calls, Inl e)
     \<and> wcHead w' = wcHead w \<and> wcTimezone w' = wcTimezone w \<and> wcPoisoned w' \<noteq> None)"

lemma poison_simps [simp]:
  "wcHead (poison w e) = wcHead w" "wcTimezone (poison w e) = wcTimezone w"
  "\<exists>cause. wcPoisoned (poison w e) = Some cause"
  by (simp_all add: poison_def)

lemma commitUoW_cases:
  "committed w (commitUoW w m uow v [CallBegin m]) m \<or> commit_ambiguous w (commitUoW w m uow v [CallBegin m]) m"
  by (auto simp: commitUoW_def committed_def commit_ambiguous_def recoverPanic_def head_of_def
      split: outcome.splits sum.splits)

lemma rollbackWith_rolled_back: "rolled_back w (rollbackWith w uow e [CallBegin m]) m"
  by (auto simp: rollbackWith_def writer_rollback_def rolled_back_def split: sum.splits)

lemma executeUoW_cases:
  "committed w (executeUoW w name scope command m uow [CallBegin m]) m
   \<or> rolled_back w (executeUoW w name scope command m uow [CallBegin m]) m
   \<or> commit_ambiguous w (executeUoW w name scope command m uow [CallBegin m]) m"
proof -
  have panic: "rolled_back w (recoverPanic w [CallBegin m]) m"
    by (simp add: recoverPanic_def rolled_back_def)
  have mutation: "rolled_back w (case uowRollback uow of
        Inl _ \<Rightarrow> (poison w ErrNoMutation, [CallBegin m] @ [CallRollback], Inl ErrWriterPoisoned)
      | Inr _ \<Rightarrow> (w, [CallBegin m] @ [CallRollback],
          Inr \<lparr>crCommit = None, crValue = cmdExecuteValue command\<rparr>)) m"
    by (auto simp: rolled_back_def split: sum.splits)
  have mismatch: "rolled_back w (poison w e, [CallBegin m] @ [CallRollback], Inl ErrWriterPoisoned) m" for e
    by (simp add: rolled_back_def)
  let ?x = "executeUoW w name scope command m uow [CallBegin m]"
  show ?thesis
  proof (cases "CommitMetadata_Equal (uowMetadata uow) m")
    case False
    then have "rolled_back w ?x m"
      unfolding executeUoW_def using mismatch by simp
    then show ?thesis by simp
  next
    case True
    note equal = this
    show ?thesis
    proof (cases "validateCommandSnapshot command name scope")
      case (Inl e)
      with equal have "?x = rollbackWith w uow e [CallBegin m]" by (simp add: executeUoW_def)
      then show ?thesis using rollbackWith_rolled_back by simp
    next
      case (Inr u)
      note valid = this
      consider "cmdExecute command = Panicked" | "cmdExecute command = Returned (Inl ErrNoMutation)"
        | e where "cmdExecute command = Returned (Inl e)" "e \<noteq> ErrNoMutation"
        | v where "cmdExecute command = Returned (Inr v)"
        by (metis outcome.exhaust sum.exhaust)
      then show ?thesis
      proof cases
        case 1
        with equal valid have "?x = recoverPanic w [CallBegin m]" by (simp add: executeUoW_def)
        with panic show ?thesis by simp
      next
        case 2
        with equal valid mutation have "rolled_back w ?x m" by (simp add: executeUoW_def)
        then show ?thesis by simp
      next
        case (3 e)
        with equal valid have "?x = rollbackWith w uow e [CallBegin m]" by (simp add: executeUoW_def)
        then show ?thesis using rollbackWith_rolled_back by simp
      next
        case (4 v)
        with equal valid have "?x = commitUoW w m uow v [CallBegin m]" by (simp add: executeUoW_def)
        then show ?thesis using commitUoW_cases [of w m uow v] by auto
      qed
    qed
  qed
qed

lemma execute_cases:
  "not_begun w (execute known w env name scope command)
   \<or> (\<exists>m. wcPoisoned w = None
        \<and> nextMetadata (wcHead w) (wcTimezone w) (envNewID env) (envNow env) scope = Inr m
        \<and> CommitMetadata_Validate known m = ok
        \<and> (begin_failed w (execute known w env name scope command) m
           \<or> committed w (execute known w env name scope command) m
           \<or> rolled_back w (execute known w env name scope command) m
           \<or> commit_ambiguous w (execute known w env name scope command) m))"
proof (cases "wcPoisoned w = None \<and> envCtxErr env = None")
  case False
  then show ?thesis
    by (auto simp: execute_def poisonError_def not_begun_def split: option.splits)
next
  case True
  then have p: "poisonError w = None" "envCtxErr env = None"
    by (simp_all add: poisonError_def)
  show ?thesis
  proof (cases "nextMetadata (wcHead w) (wcTimezone w) (envNewID env) (envNow env) scope")
    case (Inl e)
    with p show ?thesis by (simp add: execute_def not_begun_def)
  next
    case (Inr m)
    note next_ok = Inr
    show ?thesis
    proof (cases "CommitMetadata_Validate known m")
      case (Inl e)
      with p next_ok show ?thesis by (simp add: execute_def not_begun_def)
    next
      case (Inr u)
      have x: "execute known w env name scope command =
          (case envBegin env m of
             Inl e \<Rightarrow> (w, [CallBegin m], Inl (CanonicalError ''begin''))
           | Inr None \<Rightarrow> (poison w (CanonicalError ''backend returned nil UoW''), [CallBegin m], Inl ErrWriterPoisoned)
           | Inr (Some uow) \<Rightarrow> executeUoW w name scope command m uow [CallBegin m])"
        using p next_ok Inr by (simp add: execute_def)
      show ?thesis
      proof (cases "\<exists>uow. envBegin env m = Inr (Some uow)")
        case True
        then obtain uow where "execute known w env name scope command = executeUoW w name scope command m uow [CallBegin m]"
          by (auto simp: x)
        with executeUoW_cases [of w name scope command m uow] show ?thesis
          using \<open>wcPoisoned w = None \<and> envCtxErr env = None\<close> next_ok Inr by auto
      next
        case False
        then have "begin_failed w (execute known w env name scope command) m"
          by (auto simp: x begin_failed_def split: sum.splits option.splits)
        then show ?thesis
          using True next_ok Inr by auto
      qed
    qed
  qed
qed

section \<open>Runs of the writer\<close>

type_synonym request = "ExecEnv \<times> string \<times> Scope \<times> Command"

text \<open>The metadata a \<^verbatim>\<open>Commit\<close> was called for, in the order of the calls.\<close>

fun commits_of :: "BackendCall list \<Rightarrow> CommitMetadata list" where
  "commits_of (CallBegin m # CallCommit # _) = [m]"
| "commits_of _ = []"

fun run_requests ::
    "(string \<Rightarrow> bool) \<Rightarrow> WriterCore \<Rightarrow> request list \<Rightarrow> WriterCore \<times> CommitMetadata list" where
  "run_requests known w [] = (w, [])"
| "run_requests known w ((env, name, scope, command) # rest) =
     (let (w1, calls, r) = execute known w env name scope command;
          (w2, ms) = run_requests known w1 rest
      in (w2, commits_of calls @ ms))"

lemma run_poisoned: "wcPoisoned w \<noteq> None \<Longrightarrow> run_requests known w rs = (w, [])"
  by (induction rs) (auto simp: execute_def poisonError_def split: option.splits)

definition head_seq :: "Head \<Rightarrow> int" where
  "head_seq head = (if Exists head then HeadCommitSeq head else 0)"

lemma nextMetadata_seq:
  assumes "head_ok head" and "int64 now" and "nextMetadata head timezone newID now scope = Inr m"
  shows "MetaCommitSeq m = head_seq head + 1" and "head_ok (head_of m)"
    and "Exists head \<Longrightarrow> HeadCommittedAt head < MetaCommittedAt m" and "now \<le> MetaCommittedAt m"
proof -
  obtain i where bounds: "Exists head \<longrightarrow> HeadCommitSeq head < maxInt64
        \<and> (HeadCommittedAt head < now \<or> HeadCommittedAt head < maxInt64)"
    and m: "m = \<lparr>CommitID = i, MetaCommitSeq = (if Exists head then HeadCommitSeq head + 1 else 1),
         MetaScope = scope, MetaCommittedAt = (if Exists head then max now (HeadCommittedAt head + 1) else now),
         CommittedTZ = timezone\<rparr>"
    using assms(3) unfolding nextMetadata_Inr [OF assms(1,2)] by blast
  show "MetaCommitSeq m = head_seq head + 1"
    by (simp add: m head_seq_def)
  show "Exists head \<Longrightarrow> HeadCommittedAt head < MetaCommittedAt m" and "now \<le> MetaCommittedAt m"
    by (auto simp: m)
  have "now \<le> maxInt64" "minInt64 \<le> now"
    using assms(2) by (auto simp: int64_maxInt64_iff)
  moreover have "0 < HeadCommitSeq head" if "Exists head"
    using assms(1) that by (auto simp: head_ok_def Head_Validate_def CommitSeq_Validate_def NewCommitSeq_def split: if_splits)
  moreover have "minInt64 \<le> HeadCommittedAt head"
    using assms(1) by (simp add: head_ok_def int64_maxInt64_iff)
  ultimately have "MetaCommitSeq m > 0" "int64 (MetaCommitSeq m)" "int64 (MetaCommittedAt m)"
    using bounds by (auto simp: m int64_maxInt64_iff minInt64_def maxInt64_def)
  then show "head_ok (head_of m)"
    by (simp add: head_ok_def head_of_def Head_Validate_def)
qed

definition after_head :: "Head \<Rightarrow> CommitMetadata list \<Rightarrow> bool" where
  "after_head head ms \<longleftrightarrow>
     map MetaCommitSeq ms = map (\<lambda>k. head_seq head + 1 + int k) [0..<length ms]
     \<and> sorted_wrt (<) (map MetaCommittedAt ms)
     \<and> (Exists head \<longrightarrow> (\<forall>m\<in>set ms. HeadCommittedAt head < MetaCommittedAt m))"

lemma after_head_Cons:
  assumes "MetaCommitSeq m = head_seq head + 1" and "Exists head \<Longrightarrow> HeadCommittedAt head < MetaCommittedAt m"
    and "after_head (head_of m) ms"
  shows "after_head head (m # ms)"
proof -
  have seqs: "map MetaCommitSeq (m # ms) = map (\<lambda>k. head_seq head + 1 + int k) [0..<length (m # ms)]"
    using assms(1,3)
    by (simp add: after_head_def head_of_def head_seq_def upt_conv_Cons map_Suc_upt [symmetric] del: upt_Suc)
  have later: "\<forall>x\<in>set ms. MetaCommittedAt m < MetaCommittedAt x"
    using assms(3) by (simp add: after_head_def head_of_def)
  have "sorted_wrt (<) (map MetaCommittedAt ms)"
    using assms(3) by (simp add: after_head_def)
  with later have "sorted_wrt (<) (map MetaCommittedAt (m # ms))" by simp
  moreover have "\<forall>x\<in>set (m # ms). HeadCommittedAt head < MetaCommittedAt x" if "Exists head"
    using assms(2) [OF that] later by auto
  ultimately show ?thesis
    using seqs by (simp add: after_head_def)
qed

lemma run_requests_after_head:
  assumes "head_ok (wcHead w)" and "\<forall>(env, name, scope, command)\<in>set rs. int64 (envNow env)"
  shows "after_head (wcHead w) (snd (run_requests known w rs))"
  using assms
proof (induction rs arbitrary: w)
  case Nil
  then show ?case by (simp add: after_head_def)
next
  case (Cons r rs)
  obtain env name scope command where r: "r = (env, name, scope, command)" by (cases r)
  obtain w1 calls res where x: "execute known w env name scope command = (w1, calls, res)"
    by (cases "execute known w env name scope command") auto
  have now: "int64 (envNow env)" and rest: "\<forall>(env, name, scope, command)\<in>set rs. int64 (envNow env)"
    using Cons.prems(2) by (auto simp: r)
  have run: "snd (run_requests known w (r # rs)) = commits_of calls @ snd (run_requests known w1 rs)"
    by (simp add: r x split: prod.split)
  consider (same) "wcHead w1 = wcHead w" "commits_of calls = []"
    | (new) m where "nextMetadata (wcHead w) (wcTimezone w) (envNewID env) (envNow env) scope = Inr m"
        "wcHead w1 = head_of m" "commits_of calls = [m]"
    | (amb) m where "nextMetadata (wcHead w) (wcTimezone w) (envNewID env) (envNow env) scope = Inr m"
        "wcPoisoned w1 \<noteq> None" "commits_of calls = [m]"
    using execute_cases [of w known env name scope command]
    unfolding x not_begun_def begin_failed_def committed_def rolled_back_def commit_ambiguous_def
    by fastforce
  then show ?case
  proof cases
    case same
    then show ?thesis using Cons.IH [OF _ rest, of w1] Cons.prems(1) by (simp add: run)
  next
    case (new m)
    note seq = nextMetadata_seq [OF Cons.prems(1) now new(1)]
    show ?thesis
      using after_head_Cons [OF seq(1,3)] Cons.IH [OF _ rest, of w1] seq(2) new by (simp add: run)
  next
    case (amb m)
    note seq = nextMetadata_seq [OF Cons.prems(1) now amb(1)]
    have "after_head (head_of m) []" by (simp add: after_head_def)
    then show ?thesis
      using after_head_Cons [OF seq(1,3)] amb run_poisoned [OF amb(2)] by (simp add: run)
  qed
qed

end
