(* ===== verification/Writer_Protocol.thy ===== *)
theory Writer_Protocol
  imports Canonical_Writer
begin

text \<open>
  The concurrent protocol around the canonical writer: the submitting goroutines
  (\<^verbatim>\<open>Writer.Submit\<close>), the run loop (\<^verbatim>\<open>run\<close>, \<^verbatim>\<open>drain\<close>, \<^verbatim>\<open>handle\<close>), the reversible admission
  fence (\<^verbatim>\<open>PauseAdmissions\<close>, \<^verbatim>\<open>ResumeAdmissions\<close>) and \<^verbatim>\<open>Close\<close>. Every critical section and
  every channel operation is one action; an execution is any interleaving. Where Go would
  panic (a negative count, a second close of a channel, a queued command without a slot)
  the model sets \<open>psPanic\<close>, and the invariant shows that it never does.
\<close>

section \<open>State\<close>

text \<open>
  \<open>psDrained\<close> is the field \<^verbatim>\<open>admissionDrained\<close>: \<open>None\<close> is \<^verbatim>\<open>nil\<close>, and a channel is its index in \<open>psChannels\<close>, which says of every
  channel that was made whether it is closed. \<open>psPausers\<close> has one entry per call of \<^verbatim>\<open>PauseAdmissions\<close>.
\<close>

text \<open>How far the goroutine of a submission has come.\<close>

datatype phase =
    PNew \<comment> \<open>before \<open>beginAdmission\<close>\<close>
  | PBegun \<comment> \<open>admitted by the fence, before the activity registry\<close>
  | PAccepted \<comment> \<open>registered, before \<open>reserveEnqueue\<close>\<close>
  | PReserved \<comment> \<open>waiting for a queue slot\<close>
  | PSlot \<comment> \<open>holds a slot, before the queue send\<close>
  | PSent \<comment> \<open>sent, before \<open>finishEnqueue\<close>\<close>
  | PFinish \<comment> \<open>failed, before \<open>finishEnqueue\<close>\<close>
  | PLeaving \<comment> \<open>failed, before \<open>endAdmission\<close>\<close>
  | POver \<comment> \<open>returned, or waiting for the response only\<close>

text \<open>The request it may have sent.\<close>

datatype req = RNone | RQueued | RHandling | ROver

text \<open>A call of \<^verbatim>\<open>PauseAdmissions\<close>: waiting on a drain channel, or returned.\<close>

datatype pauser = PauseWaits nat | PauseSucceeded | PauseCancelled

datatype loop = LRunning | LDraining | LFinal | LStopped

record ProtocolState =
  psOpen :: bool
  psActive :: int
  psDrained :: "nat option"
  psChannels :: "bool list"
  psPausers :: "pauser list"
  psAccept :: bool
  psPending :: int
  psEnqueueDone :: bool
  psStop :: bool
  psSlots :: int
  psQueue :: "nat list"
  psPhase :: "phase list"
  psReq :: "req list"
  psLoop :: loop
  psCurrent :: "nat option"
  psPanic :: bool

definition OpenWriter :: "nat \<Rightarrow> ProtocolState" where
  "OpenWriter n = \<lparr>psOpen = True, psActive = 0, psDrained = None, psChannels = [], psPausers = [], psAccept = True, psPending = 0,
     psEnqueueDone = False, psStop = False, psSlots = 0, psQueue = [], psPhase = replicate n PNew,
     psReq = replicate n RNone, psLoop = LRunning, psCurrent = None, psPanic = False\<rparr>"

section \<open>Critical sections\<close>

definition beginAdmission :: "ProtocolState \<Rightarrow> ProtocolState \<times> bool" where
  "beginAdmission s =
     (if \<not> psOpen s then (s, False) else (s\<lparr>psActive := psActive s + 1\<rparr>, True))"

text \<open>\<^verbatim>\<open>close(writer.admissionDrained)\<close>; closing a channel twice panics.\<close>

definition closeDrained :: "ProtocolState \<Rightarrow> ProtocolState" where
  "closeDrained s =
     (case psDrained s of
        None \<Rightarrow> s
      | Some channel \<Rightarrow>
          if psChannels s ! channel then s\<lparr>psPanic := True\<rparr>
          else s\<lparr>psChannels := (psChannels s)[channel := True], psDrained := None\<rparr>)"

definition endAdmission :: "ProtocolState \<Rightarrow> ProtocolState" where
  "endAdmission s =
     (let s1 = s\<lparr>psActive := psActive s - 1\<rparr> in
      if psActive s1 < 0 then s1\<lparr>psPanic := True\<rparr>
      else if psActive s1 = 0 then closeDrained s1
      else s1)"

definition reserveEnqueue :: "ProtocolState \<Rightarrow> ProtocolState \<times> bool" where
  "reserveEnqueue s =
     (if \<not> psAccept s then (s, False) else (s\<lparr>psPending := psPending s + 1\<rparr>, True))"

text \<open>Closing a channel twice panics.\<close>

definition closeEnqueueDone :: "ProtocolState \<Rightarrow> ProtocolState" where
  "closeEnqueueDone s = (if psEnqueueDone s then s\<lparr>psPanic := True\<rparr> else s\<lparr>psEnqueueDone := True\<rparr>)"

definition finishEnqueue :: "ProtocolState \<Rightarrow> ProtocolState" where
  "finishEnqueue s =
     (let s1 = s\<lparr>psPending := psPending s - 1\<rparr> in
      if \<not> psAccept s1 \<and> psPending s1 = 0 then closeEnqueueDone s1 else s1)"

definition Writer_Close :: "ProtocolState \<Rightarrow> ProtocolState" where
  "Writer_Close s =
     (if psStop s then s
      else let s1 = s\<lparr>psAccept := False\<rparr>;
               s2 = (if psPending s1 = 0 then closeEnqueueDone s1 else s1)
           in s2\<lparr>psStop := True\<rparr>)"

text \<open>
  The locked part of \<^verbatim>\<open>PauseAdmissions\<close>: \<open>None\<close> when it returns at once, otherwise the channel its \<^verbatim>\<open>select\<close> waits on.
\<close>

definition PauseAdmissions :: "ProtocolState \<Rightarrow> ProtocolState \<times> nat option" where
  "PauseAdmissions s =
     (let s1 = s\<lparr>psOpen := False\<rparr> in
      if psActive s1 = 0 then (s1, None)
      else case psDrained s1 of
        Some channel \<Rightarrow> (s1, Some channel)
      | None \<Rightarrow>
          let channel = length (psChannels s1)
          in (s1\<lparr>psDrained := Some channel, psChannels := psChannels s1 @ [False]\<rparr>, Some channel))"

text \<open>The \<^verbatim>\<open>select\<close> of a waiting call: the receive is ready once the channel is closed, the context may end at any time.\<close>

definition pauseReturns :: "nat \<Rightarrow> ProtocolState \<Rightarrow> ProtocolState option" where
  "pauseReturns k s =
     (if k < length (psPausers s)
      then case psPausers s ! k of
        PauseWaits channel \<Rightarrow> if psChannels s ! channel then Some (s\<lparr>psPausers := (psPausers s)[k := PauseSucceeded]\<rparr>) else None
      | _ \<Rightarrow> None
      else None)"

definition pauseCancels :: "nat \<Rightarrow> ProtocolState \<Rightarrow> ProtocolState option" where
  "pauseCancels k s =
     (if k < length (psPausers s)
      then case psPausers s ! k of
        PauseWaits channel \<Rightarrow> Some (s\<lparr>psPausers := (psPausers s)[k := PauseCancelled]\<rparr>)
      | _ \<Rightarrow> None
      else None)"

definition ResumeAdmissions :: "ProtocolState \<Rightarrow> ProtocolState \<times> bool" where
  "ResumeAdmissions s =
     (if psActive s \<noteq> 0 then (s, False) else (s\<lparr>psOpen := True, psDrained := None\<rparr>, True))"

definition AdmissionsPaused :: "ProtocolState \<Rightarrow> bool" where
  "AdmissionsPaused s \<longleftrightarrow> \<not> psOpen s"

section \<open>Actions\<close>

definition move :: "nat \<Rightarrow> phase \<Rightarrow> ProtocolState \<Rightarrow> ProtocolState" where
  "move i p s = s\<lparr>psPhase := (psPhase s)[i := p]\<rparr>"

definition mark :: "nat \<Rightarrow> req \<Rightarrow> ProtocolState \<Rightarrow> ProtocolState" where
  "mark i r s = s\<lparr>psReq := (psReq s)[i := r]\<rparr>"

definition at_phase :: "nat \<Rightarrow> phase \<Rightarrow> ProtocolState \<Rightarrow> bool" where
  "at_phase i p s \<longleftrightarrow> i < length (psPhase s) \<and> psPhase s ! i = p"

datatype action =
    Begin nat \<comment> \<open>\<open>Submit\<close>: \<open>beginAdmission\<close>\<close>
  | AdmitOK nat \<comment> \<open>the registry admits the command\<close>
  | AdmitFails nat
  | Reserve nat \<comment> \<open>\<open>reserveEnqueue\<close>\<close>
  | AcquireSlot nat
  | CancelWait nat \<comment> \<open>the context ends before a slot is free\<close>
  | QueueFails nat \<comment> \<open>the registry refuses the transition to queued\<close>
  | Send nat
  | FinishEnqueue nat
  | Leave nat \<comment> \<open>\<open>endAdmission\<close> of a failed submission\<close>
  | Take \<comment> \<open>the run loop receives a request\<close>
  | Handled \<comment> \<open>and is done with it\<close>
  | SeeStop
  | SeeEnqueueDone
  | Return
  | Pause \<comment> \<open>a new call of \<open>PauseAdmissions\<close>\<close>
  | PauseReturn nat \<comment> \<open>a waiting one sees its channel closed\<close>
  | PauseCancel nat \<comment> \<open>or its context end\<close>
  | Resume
  | Close

fun fire :: "nat \<Rightarrow> action \<Rightarrow> ProtocolState \<Rightarrow> ProtocolState option" where
  "fire capacity (Begin i) s =
     (if \<not> at_phase i PNew s then None
      else case beginAdmission s of (s1, admitted) \<Rightarrow> Some (move i (if admitted then PBegun else POver) s1))"
| "fire capacity (AdmitOK i) s = (if \<not> at_phase i PBegun s then None else Some (move i PAccepted s))"
| "fire capacity (AdmitFails i) s = (if \<not> at_phase i PBegun s then None else Some (move i PLeaving s))"
| "fire capacity (Reserve i) s =
     (if \<not> at_phase i PAccepted s then None
      else case reserveEnqueue s of (s1, reserved) \<Rightarrow> Some (move i (if reserved then PReserved else PLeaving) s1))"
| "fire capacity (AcquireSlot i) s =
     (if \<not> at_phase i PReserved s \<or> psSlots s \<ge> int capacity then None
      else Some (move i PSlot (s\<lparr>psSlots := psSlots s + 1\<rparr>)))"
| "fire capacity (CancelWait i) s = (if \<not> at_phase i PReserved s then None else Some (move i PFinish s))"
| "fire capacity (QueueFails i) s =
     (if \<not> at_phase i PSlot s then None else Some (move i PFinish (s\<lparr>psSlots := psSlots s - 1\<rparr>)))"
| "fire capacity (Send i) s =
     (if \<not> at_phase i PSlot s \<or> length (psQueue s) \<ge> capacity then None
      else Some (move i PSent (mark i RQueued (s\<lparr>psQueue := psQueue s @ [i]\<rparr>))))"
| "fire capacity (FinishEnqueue i) s =
     (if at_phase i PSent s then Some (move i POver (finishEnqueue s))
      else if at_phase i PFinish s then Some (move i PLeaving (finishEnqueue s))
      else None)"
| "fire capacity (Leave i) s =
     (if \<not> at_phase i PLeaving s then None else Some (move i POver (endAdmission s)))"
| "fire capacity Take s =
     (if psLoop s = LStopped \<or> psCurrent s \<noteq> None then None
      else case psQueue s of
        [] \<Rightarrow> None
      | i # q \<Rightarrow>
          Some (if psSlots s \<le> 0 then s\<lparr>psPanic := True\<rparr>
                else mark i RHandling (s\<lparr>psQueue := q, psSlots := psSlots s - 1, psCurrent := Some i\<rparr>)))"
| "fire capacity Handled s =
     (case psCurrent s of
        None \<Rightarrow> None
      | Some i \<Rightarrow> Some (endAdmission (mark i ROver (s\<lparr>psCurrent := None\<rparr>))))"
| "fire capacity SeeStop s =
     (if psLoop s \<noteq> LRunning \<or> psCurrent s \<noteq> None \<or> \<not> psStop s then None else Some (s\<lparr>psLoop := LDraining\<rparr>))"
| "fire capacity SeeEnqueueDone s =
     (if psLoop s \<noteq> LDraining \<or> psCurrent s \<noteq> None \<or> \<not> psEnqueueDone s then None
      else Some (s\<lparr>psLoop := LFinal\<rparr>))"
| "fire capacity Return s =
     (if psLoop s \<noteq> LFinal \<or> psCurrent s \<noteq> None \<or> psQueue s \<noteq> [] then None else Some (s\<lparr>psLoop := LStopped\<rparr>))"
| "fire capacity Pause s =
     (case PauseAdmissions s of (s1, waits) \<Rightarrow>
        Some (s1\<lparr>psPausers := psPausers s1 @ [case waits of None \<Rightarrow> PauseSucceeded | Some channel \<Rightarrow> PauseWaits channel]\<rparr>))"
| "fire capacity (PauseReturn k) s = pauseReturns k s"
| "fire capacity (PauseCancel k) s = pauseCancels k s"
| "fire capacity Resume s = Some (fst (ResumeAdmissions s))"
| "fire capacity Close s = Some (Writer_Close s)"

inductive reachable :: "nat \<Rightarrow> nat \<Rightarrow> ProtocolState \<Rightarrow> bool" for capacity n where
  opened: "reachable capacity n (OpenWriter n)"
| step: "reachable capacity n s \<Longrightarrow> fire capacity act s = Some s' \<Longrightarrow> reachable capacity n s'"

section \<open>Counting\<close>

definition count_in :: "'a set \<Rightarrow> 'a list \<Rightarrow> int" where
  "count_in A xs = int (length (filter (\<lambda>x. x \<in> A) xs))"

lemma count_in_nonneg [simp]: "0 \<le> count_in A xs"
  by (simp add: count_in_def)

lemma count_in_replicate [simp]: "count_in A (replicate n x) = (if x \<in> A then int n else 0)"
  by (simp add: count_in_def)

lemma count_in_update:
  assumes "i < length xs"
  shows "count_in A (xs[i := x]) = count_in A xs - (if xs ! i \<in> A then 1 else 0) + (if x \<in> A then 1 else 0)"
proof -
  have split: "xs = take i xs @ xs ! i # drop (Suc i) xs"
    using assms by (simp add: id_take_nth_drop)
  have "xs[i := x] = take i xs @ x # drop (Suc i) xs"
    using assms by (simp add: upd_conv_take_nth_drop)
  moreover have "count_in A (take i xs @ y # drop (Suc i) xs)
      = count_in A (take i xs) + (if y \<in> A then 1 else 0) + count_in A (drop (Suc i) xs)" for y
    by (simp add: count_in_def)
  moreover from this [of "xs ! i"] have "count_in A xs
      = count_in A (take i xs) + (if xs ! i \<in> A then 1 else 0) + count_in A (drop (Suc i) xs)"
    using split by simp
  ultimately show ?thesis by simp
qed

lemma count_in_pos: "i < length xs \<Longrightarrow> xs ! i \<in> A \<Longrightarrow> 0 < count_in A xs"
proof -
  assume "i < length xs" and "xs ! i \<in> A"
  then have "xs ! i \<in> set (filter (\<lambda>x. x \<in> A) xs)" by simp
  from length_pos_if_in_set [OF this] show ?thesis by (simp add: count_in_def)
qed

lemma count_in_zero: "count_in A xs = 0 \<longleftrightarrow> (\<forall>x\<in>set xs. x \<notin> A)"
  by (auto simp: count_in_def filter_empty_conv)

section \<open>The invariant\<close>

abbreviation admitted_phases :: "phase set" where
  "admitted_phases \<equiv> {PBegun, PAccepted, PReserved, PSlot, PFinish, PLeaving}"

abbreviation enqueuing_phases :: "phase set" where
  "enqueuing_phases \<equiv> {PReserved, PSlot, PSent, PFinish}"

text \<open>The counters count what they should, and the flags agree with them.\<close>

definition counters_ok :: "nat \<Rightarrow> ProtocolState \<Rightarrow> bool" where
  "counters_ok capacity s \<longleftrightarrow>
     psActive s = count_in admitted_phases (psPhase s) + count_in {RQueued, RHandling} (psReq s)
     \<and> psPending s = count_in enqueuing_phases (psPhase s)
     \<and> psSlots s = count_in {PSlot} (psPhase s) + int (length (psQueue s))
     \<and> psSlots s \<le> int capacity
     \<and> (\<forall>channel. psDrained s = Some channel \<longrightarrow> \<not> psOpen s \<and> psActive s \<noteq> 0 \<and> channel < length (psChannels s) \<and> \<not> psChannels s ! channel)
     \<and> psStop s = (\<not> psAccept s)
     \<and> psEnqueueDone s = (\<not> psAccept s \<and> psPending s = 0)
     \<and> \<not> psPanic s"

text \<open>The queue holds the queued requests once each, and the loop handles at most one.\<close>

definition queue_ok :: "ProtocolState \<Rightarrow> bool" where
  "queue_ok s \<longleftrightarrow>
     length (psReq s) = length (psPhase s)
     \<and> distinct (psQueue s)
     \<and> (\<forall>i. i \<in> set (psQueue s) \<longleftrightarrow> i < length (psReq s) \<and> psReq s ! i = RQueued)
     \<and> (\<forall>i. psCurrent s = Some i \<longleftrightarrow> i < length (psReq s) \<and> psReq s ! i = RHandling)
     \<and> (\<forall>i<length (psReq s). psPhase s ! i \<notin> {PSent, POver} \<longrightarrow> psReq s ! i = RNone)"

definition loop_ok :: "ProtocolState \<Rightarrow> bool" where
  "loop_ok s \<longleftrightarrow>
     (psLoop s \<noteq> LRunning \<longrightarrow> psStop s)
     \<and> (psLoop s \<in> {LFinal, LStopped} \<longrightarrow> psEnqueueDone s)
     \<and> (psLoop s = LStopped \<longrightarrow> psQueue s = [] \<and> psCurrent s = None)"

definition protocol_inv :: "nat \<Rightarrow> ProtocolState \<Rightarrow> bool" where
  "protocol_inv capacity s \<longleftrightarrow> counters_ok capacity s \<and> queue_ok s \<and> loop_ok s"

lemma open_inv: "protocol_inv capacity (OpenWriter n)"
  by (auto simp: protocol_inv_def counters_ok_def queue_ok_def loop_ok_def OpenWriter_def)

lemmas protocol_ops =
  beginAdmission_def endAdmission_def reserveEnqueue_def closeEnqueueDone_def finishEnqueue_def
  Writer_Close_def PauseAdmissions_def ResumeAdmissions_def pauseReturns_def pauseCancels_def closeDrained_def move_def mark_def at_phase_def Let_def

text \<open>Moving a goroutine between phases, as far as the counters see it.\<close>

lemma phase_counts:
  assumes "at_phase i p s"
  shows "count_in A ((psPhase s)[i := q]) = count_in A (psPhase s) - (if p \<in> A then 1 else 0) + (if q \<in> A then 1 else 0)"
    and "p \<in> A \<Longrightarrow> 0 < count_in A (psPhase s)"
  using assms count_in_update [of i "psPhase s" A q] count_in_pos [of i "psPhase s" A]
  by (auto simp: at_phase_def)

lemma queue_ok_move:
  assumes "queue_ok s" and "at_phase i p s"
    and "q \<in> {PSent, POver} \<or> p \<notin> {PSent, POver}"
    and "psPhase s' = (psPhase s)[i := q]" and "psReq s' = psReq s" and "psQueue s' = psQueue s" and "psCurrent s' = psCurrent s"
  shows "queue_ok s'"
  using assms unfolding queue_ok_def at_phase_def by (auto simp: nth_list_update)

lemma counters_drained:
  assumes "counters_ok capacity s" and "psActive s = 0"
  shows "psDrained s = None"
  using assms by (cases "psDrained s") (auto simp: counters_ok_def)

lemma counters_okD:
  assumes "counters_ok capacity s"
  shows "psActive s = count_in admitted_phases (psPhase s) + count_in {RQueued, RHandling} (psReq s)"
    and "psPending s = count_in enqueuing_phases (psPhase s)"
    and "psSlots s = count_in {PSlot} (psPhase s) + int (length (psQueue s))"
    and "psSlots s \<le> int capacity" 
    and "\<And>channel. psDrained s = Some channel \<Longrightarrow> \<not> psOpen s \<and> psActive s \<noteq> 0 \<and> channel < length (psChannels s) \<and> \<not> psChannels s ! channel"
    and "psStop s = (\<not> psAccept s)" and "psEnqueueDone s = (\<not> psAccept s \<and> psPending s = 0)" and "\<not> psPanic s"
  using assms unfolding counters_ok_def by blast+

lemma submit_step:
  assumes f: "fire capacity act s = Some s'"
    and act: "act \<in> {Begin i, AdmitOK i, AdmitFails i, Reserve i, AcquireSlot i, CancelWait i, QueueFails i}"
  obtains p q where "at_phase i p s" and "psPhase s' = (psPhase s)[i := q]"
    and "psReq s' = psReq s" and "psQueue s' = psQueue s" and "psCurrent s' = psCurrent s"
    and "psLoop s' = psLoop s" and "psStop s' = psStop s" and "psEnqueueDone s' = psEnqueueDone s"
    and "psOpen s' = psOpen s" and "psDrained s' = psDrained s" and "psChannels s' = psChannels s" and "psAccept s' = psAccept s"
    and "psPanic s' = psPanic s"
    and "q \<in> {PSent, POver} \<or> p \<notin> {PSent, POver}"
    and "psActive s' = psActive s - (if p \<in> admitted_phases then 1 else 0) + (if q \<in> admitted_phases then 1 else 0)"
    and "psPending s' = psPending s - (if p \<in> enqueuing_phases then 1 else 0) + (if q \<in> enqueuing_phases then 1 else 0)"
    and "psSlots s' = psSlots s - (if p \<in> {PSlot} then 1 else 0) + (if q \<in> {PSlot} then 1 else 0)"
    and "psSlots s' \<le> max (int capacity) (psSlots s)"
    and "psActive s' = psActive s \<or> psOpen s" and "psPending s' = psPending s \<or> psAccept s"
  using f act by (auto simp: protocol_ops split: if_splits)

lemma submit_inv:
  assumes inv: "protocol_inv capacity s" and f: "fire capacity act s = Some s'"
    and act: "act \<in> {Begin i, AdmitOK i, AdmitFails i, Reserve i, AcquireSlot i, CancelWait i, QueueFails i}"
  shows "protocol_inv capacity s'"
proof (rule submit_step [OF f act])
  fix p q
  assume st: "at_phase i p s" "psPhase s' = (psPhase s)[i := q]"
    "psReq s' = psReq s" "psQueue s' = psQueue s" "psCurrent s' = psCurrent s"
    "psLoop s' = psLoop s" "psStop s' = psStop s" "psEnqueueDone s' = psEnqueueDone s"
    "psOpen s' = psOpen s" "psDrained s' = psDrained s" "psChannels s' = psChannels s" "psAccept s' = psAccept s" "psPanic s' = psPanic s"
    and qp: "q \<in> {PSent, POver} \<or> p \<notin> {PSent, POver}"
    and d: "psActive s' = psActive s - (if p \<in> admitted_phases then 1 else 0) + (if q \<in> admitted_phases then 1 else 0)"
    "psPending s' = psPending s - (if p \<in> enqueuing_phases then 1 else 0) + (if q \<in> enqueuing_phases then 1 else 0)"
    "psSlots s' = psSlots s - (if p \<in> {PSlot} then 1 else 0) + (if q \<in> {PSlot} then 1 else 0)"
    and slots: "psSlots s' \<le> max (int capacity) (psSlots s)"
    and keep: "psActive s' = psActive s \<or> psOpen s" "psPending s' = psPending s \<or> psAccept s"
  have c: "counters_ok capacity s" and "queue_ok s" and "loop_ok s"
    using inv by (simp_all add: protocol_inv_def)
  then have "queue_ok s'" and "loop_ok s'"
    using queue_ok_move [OF _ st(1) qp st(2-5)] by (simp_all add: loop_ok_def st)
  moreover have "counters_ok capacity s'"
    unfolding counters_ok_def st(2-13) phase_counts(1) [OF st(1)]
  proof (intro conjI allI impI)
    note a = counters_okD [OF c]
    show "psActive s' = count_in admitted_phases (psPhase s) - (if p \<in> admitted_phases then 1 else 0)
        + (if q \<in> admitted_phases then 1 else 0) + count_in {RQueued, RHandling} (psReq s)"
      using d(1) a(1) by linarith
    show "psPending s' = count_in enqueuing_phases (psPhase s) - (if p \<in> enqueuing_phases then 1 else 0)
        + (if q \<in> enqueuing_phases then 1 else 0)"
      using d(2) a(2) by linarith
    show "psSlots s' = count_in {PSlot} (psPhase s) - (if p \<in> {PSlot} then 1 else 0)
        + (if q \<in> {PSlot} then 1 else 0) + int (length (psQueue s))"
      using d(3) a(3) by linarith
    show "psSlots s' \<le> int capacity" using slots a(4) by linarith
    show "psStop s = (\<not> psAccept s)" "\<not> psPanic s" by (rule a(6), rule a(8))
    show "psEnqueueDone s = (\<not> psAccept s \<and> psPending s' = 0)" using a(7) keep(2) by auto
    fix channel
    assume "psDrained s = Some channel"
    then show "\<not> psOpen s" "psActive s' \<noteq> 0" "channel < length (psChannels s)" "\<not> psChannels s ! channel"
      using a(5) keep(1) by auto
  qed
  ultimately show ?thesis by (simp add: protocol_inv_def)
qed

lemma finish_step:
  assumes f: "fire capacity (FinishEnqueue i) s = Some s'"
  obtains p q where "at_phase i p s" and "p \<in> {PSent, PFinish}" and "q = (if p = PSent then POver else PLeaving)"
    and "psPhase s' = (psPhase s)[i := q]"
    and "psReq s' = psReq s" and "psQueue s' = psQueue s" and "psCurrent s' = psCurrent s"
    and "psLoop s' = psLoop s" and "psStop s' = psStop s" and "psSlots s' = psSlots s" and "psActive s' = psActive s"
    and "psOpen s' = psOpen s" and "psDrained s' = psDrained s" and "psChannels s' = psChannels s" and "psAccept s' = psAccept s"
    and "psPending s' = psPending s - 1"
    and "psEnqueueDone s' = (psEnqueueDone s \<or> \<not> psAccept s \<and> psPending s = 1)"
    and "psPanic s' = (psPanic s \<or> psEnqueueDone s \<and> \<not> psAccept s \<and> psPending s = 1)"
  using f by (auto simp: protocol_ops split: if_splits)

lemma finish_enqueue_inv:
  assumes inv: "protocol_inv capacity s" and f: "fire capacity (FinishEnqueue i) s = Some s'"
  shows "protocol_inv capacity s'"
proof (rule finish_step [OF f])
  fix p q
  assume st: "at_phase i p s" "p \<in> {PSent, PFinish}" "q = (if p = PSent then POver else PLeaving)"
    "psPhase s' = (psPhase s)[i := q]" "psReq s' = psReq s" "psQueue s' = psQueue s" "psCurrent s' = psCurrent s"
    "psLoop s' = psLoop s" "psStop s' = psStop s" "psSlots s' = psSlots s" "psActive s' = psActive s"
    "psOpen s' = psOpen s" "psDrained s' = psDrained s" "psChannels s' = psChannels s" "psAccept s' = psAccept s"
    "psPending s' = psPending s - 1"
    "psEnqueueDone s' = (psEnqueueDone s \<or> \<not> psAccept s \<and> psPending s = 1)"
    "psPanic s' = (psPanic s \<or> psEnqueueDone s \<and> \<not> psAccept s \<and> psPending s = 1)"
  have c: "counters_ok capacity s" and "queue_ok s" and l: "loop_ok s"
    using inv by (simp_all add: protocol_inv_def)
  then have "queue_ok s'"
    using queue_ok_move [OF _ st(1) _ st(4-7)] st(2,3) by auto
  moreover have "loop_ok s'"
    using l by (auto simp: loop_ok_def st)
  moreover have pos: "0 < psPending s"
    using phase_counts(2) [OF st(1), of enqueuing_phases] st(2) c by (auto simp: counters_ok_def)
  have "counters_ok capacity s'"
    unfolding counters_ok_def st(4-18) phase_counts(1) [OF st(1)]
    using c pos st(2,3) by (auto simp: counters_ok_def)
  ultimately show ?thesis by (simp add: protocol_inv_def)
qed

text \<open>The last admission that ends closes the drain channel.\<close>

definition drainedChannels :: "ProtocolState \<Rightarrow> bool list" where
  "drainedChannels s = (case psDrained s of None \<Rightarrow> psChannels s
     | Some channel \<Rightarrow> if psActive s = 1 then (psChannels s)[channel := True] else psChannels s)"

lemma endAdmission_step:
  assumes "0 < psActive s" and "\<And>channel. psDrained s = Some channel \<Longrightarrow> \<not> psChannels s ! channel"
  shows "endAdmission s = s\<lparr>psActive := psActive s - 1, psDrained := (if psActive s = 1 then None else psDrained s),
    psChannels := drainedChannels s\<rparr>"
  using assms by (auto simp: endAdmission_def closeDrained_def drainedChannels_def Let_def split: option.split)

lemma leave_inv:
  assumes inv: "protocol_inv capacity s" and f: "fire capacity (Leave i) s = Some s'"
  shows "protocol_inv capacity s'"
proof -
  have c: "counters_ok capacity s" and qk: "queue_ok s" and l: "loop_ok s"
    using inv by (simp_all add: protocol_inv_def)
  have p: "at_phase i PLeaving s"
    using f by (auto split: if_splits)
  have pos: "0 < psActive s"
  proof -
    have "0 < count_in admitted_phases (psPhase s)"
      by (rule phase_counts(2) [OF p]) simp
    then show ?thesis
      using count_in_nonneg [of "{RQueued, RHandling}" "psReq s"] counters_okD(1) [OF c] by linarith
  qed
  have s': "s' = move i POver (s\<lparr>psActive := psActive s - 1, psDrained := (if psActive s = 1 then None else psDrained s),
      psChannels := drainedChannels s\<rparr>)"
    using f p counters_okD(5) [OF c] by (simp add: endAdmission_step [OF pos])
  have "queue_ok s'"
    by (rule queue_ok_move [OF qk p, of POver]) (simp_all add: s' move_def)
  moreover have "loop_ok s'"
    using l by (simp add: loop_ok_def s' move_def)
  moreover have "counters_ok capacity s'"
    using counters_okD [OF c] by (auto simp: counters_ok_def s' move_def phase_counts(1) [OF p] drainedChannels_def)
  ultimately show ?thesis by (simp add: protocol_inv_def)
qed

lemma pause_step:
  assumes "fire capacity Pause s = Some s'"
  obtains (at_once) "psActive s = 0" "s' = s\<lparr>psOpen := False, psPausers := psPausers s @ [PauseSucceeded]\<rparr>"
    | (joins) channel where "psActive s \<noteq> 0" "psDrained s = Some channel"
        "s' = s\<lparr>psOpen := False, psPausers := psPausers s @ [PauseWaits channel]\<rparr>"
    | (waits) "psActive s \<noteq> 0" "psDrained s = None"
        "s' = s\<lparr>psOpen := False, psDrained := Some (length (psChannels s)), psChannels := psChannels s @ [False],
           psPausers := psPausers s @ [PauseWaits (length (psChannels s))]\<rparr>"
  using assms by (cases "psDrained s") (auto simp: PauseAdmissions_def Let_def split: if_splits)

lemma flags_inv:
  assumes inv: "protocol_inv capacity s" and f: "fire capacity act s = Some s'"
    and act: "act \<in> {SeeStop, SeeEnqueueDone, Return, Pause, PauseReturn k, PauseCancel k, Resume, Close}"
  shows "protocol_inv capacity s'"
proof -
  have c: "counters_ok capacity s" and qk: "queue_ok s" and l: "loop_ok s"
    using inv by (simp_all add: protocol_inv_def)
  have "psPhase s' = psPhase s" "psReq s' = psReq s" "psQueue s' = psQueue s" "psCurrent s' = psCurrent s"
    using f act by (auto simp: protocol_ops split: if_splits option.splits pauser.splits)
  then have "queue_ok s'"
    using qk by (simp add: queue_ok_def)
  moreover have "loop_ok s'"
    using act
  proof (elim insertE emptyE)
    assume "act = SeeStop"
    then show ?thesis using f l by (simp add: loop_ok_def protocol_ops split: if_splits) auto
  next
    assume "act = SeeEnqueueDone"
    then show ?thesis using f l by (simp add: loop_ok_def protocol_ops split: if_splits) auto
  next
    assume "act = Return"
    then show ?thesis using f l by (simp add: loop_ok_def protocol_ops split: if_splits) auto
  next
    assume "act = Pause"
    then show ?thesis using f l by (auto simp: loop_ok_def protocol_ops split: if_splits option.splits)
  next
    assume "act = PauseReturn k"
    then show ?thesis using f l by (auto simp: loop_ok_def protocol_ops split: if_splits pauser.splits)
  next
    assume "act = PauseCancel k"
    then show ?thesis using f l by (auto simp: loop_ok_def protocol_ops split: if_splits pauser.splits)
  next
    assume "act = Resume"
    then show ?thesis using f l by (simp add: loop_ok_def protocol_ops split: if_splits) auto
  next
    assume "act = Close"
    then show ?thesis using f l by (simp add: loop_ok_def protocol_ops split: if_splits) auto
  qed
  moreover have "counters_ok capacity s'"
  proof -
    consider x where "s' = s\<lparr>psLoop := x\<rparr>" | "act = Pause" | "act = Resume" | "act = Close" | x where "s' = s\<lparr>psPausers := x\<rparr>"
    proof -
      have "\<exists>x. s' = s\<lparr>psLoop := x\<rparr>" if "act \<in> {SeeStop, SeeEnqueueDone, Return}"
        using f that by (auto split: if_splits)
      moreover have "\<exists>x. s' = s\<lparr>psPausers := x\<rparr>" if "act \<in> {PauseReturn k, PauseCancel k}"
        using f that by (auto simp: pauseReturns_def pauseCancels_def split: if_splits pauser.splits)
      ultimately show ?thesis using act that by blast
    qed
    then show ?thesis
    proof cases
      case 1
      then show ?thesis using c by (auto simp: counters_ok_def)
    next
      case 2
      note a = counters_okD [OF c]
      from f [unfolded 2] show ?thesis
        using a counters_drained [OF c] by (cases rule: pause_step) (simp_all add: counters_ok_def)
    next
      case 3
      with f have "s' = fst (ResumeAdmissions s)" by simp
      then show ?thesis using counters_okD [OF c] by (auto simp: ResumeAdmissions_def counters_ok_def)
    next
      case 4
      with f have "s' = Writer_Close s" by simp
      then show ?thesis using counters_okD [OF c] by (auto simp: Writer_Close_def closeEnqueueDone_def Let_def counters_ok_def)
    next
      case 5
      then show ?thesis using c by (auto simp: counters_ok_def)
    qed
  qed
  ultimately show ?thesis by (simp add: protocol_inv_def)
qed

lemma send_inv:
  assumes inv: "protocol_inv capacity s" and f: "fire capacity (Send i) s = Some s'"
  shows "protocol_inv capacity s'"
proof -
  have c: "counters_ok capacity s" and qk: "queue_ok s" and l: "loop_ok s"
    using inv by (simp_all add: protocol_inv_def)
  have p: "at_phase i PSlot s" and s': "s' = move i PSent (mark i RQueued (s\<lparr>psQueue := psQueue s @ [i]\<rparr>))"
    using f by (auto split: if_splits)
  have i: "i < length (psPhase s)" "psPhase s ! i = PSlot" "i < length (psReq s)" "psReq s ! i = RNone"
    using p qk by (auto simp: at_phase_def queue_ok_def)
  then have new: "i \<notin> set (psQueue s)" "psCurrent s \<noteq> Some i"
    using qk by (auto simp: queue_ok_def)
  have fields: "psPhase s' = (psPhase s)[i := PSent]" "psReq s' = (psReq s)[i := RQueued]"
    "psQueue s' = psQueue s @ [i]" "psCurrent s' = psCurrent s" "psLoop s' = psLoop s"
    by (simp_all add: s' move_def mark_def)
  have "queue_ok s'"
    using qk i new unfolding queue_ok_def fields by (auto simp: nth_list_update)
  moreover have "0 < psPending s"
    using phase_counts(2) [OF p, of enqueuing_phases] counters_okD(2) [OF c] by simp
  then have "loop_ok s'"
    using l counters_okD(7) [OF c] by (auto simp: loop_ok_def s' move_def mark_def)
  moreover have "counters_ok capacity s'"
    using counters_okD [OF c] i(4)
    by (auto simp: counters_ok_def s' move_def mark_def phase_counts(1) [OF p] count_in_update [OF i(3)])
  ultimately show ?thesis by (simp add: protocol_inv_def)
qed

lemma take_inv:
  assumes inv: "protocol_inv capacity s" and f: "fire capacity Take s = Some s'"
  shows "protocol_inv capacity s'"
proof -
  have c: "counters_ok capacity s" and qk: "queue_ok s" and l: "loop_ok s"
    using inv by (simp_all add: protocol_inv_def)
  obtain i q where q: "psQueue s = i # q" and loop: "psLoop s \<noteq> LStopped" and cur: "psCurrent s = None"
    using f by (auto split: if_splits list.splits)
  have slots: "0 < psSlots s"
  proof -
    have "psSlots s = count_in {PSlot} (psPhase s) + 1 + int (length q)"
      using counters_okD(3) [OF c] q by simp
    then show ?thesis using count_in_nonneg [of "{PSlot}" "psPhase s"] by linarith
  qed
  have s': "s' = mark i RHandling (s\<lparr>psQueue := q, psSlots := psSlots s - 1, psCurrent := Some i\<rparr>)"
    using f loop cur slots by (simp add: q)
  have "i \<in> set (psQueue s)" and "distinct (psQueue s)"
    using qk q unfolding queue_ok_def by simp_all
  then have i: "i < length (psReq s)" "psReq s ! i = RQueued" "i \<notin> set q" "distinct q"
    using qk unfolding queue_ok_def by (blast, blast, simp_all add: q)
  have fields: "psPhase s' = psPhase s" "psReq s' = (psReq s)[i := RHandling]"
    "psQueue s' = q" "psCurrent s' = Some i" "psLoop s' = psLoop s"
    by (simp_all add: s' mark_def)
  have queued: "j \<in> set q \<longleftrightarrow> j \<noteq> i \<and> j < length (psReq s) \<and> psReq s ! j = RQueued" for j
    using qk i(3) unfolding queue_ok_def q by (metis list.set_intros(2) set_ConsD)
  have "queue_ok s'"
    using qk i cur queued unfolding queue_ok_def fields by (auto simp: nth_list_update)
  moreover have "loop_ok s'"
    using l loop by (auto simp: loop_ok_def s' mark_def)
  moreover have "counters_ok capacity s'"
    using counters_okD [OF c] i(2) q
    by (auto simp: counters_ok_def s' mark_def count_in_update [OF i(1)])
  ultimately show ?thesis by (simp add: protocol_inv_def)
qed

lemma handled_inv:
  assumes inv: "protocol_inv capacity s" and f: "fire capacity Handled s = Some s'"
  shows "protocol_inv capacity s'"
proof -
  have c: "counters_ok capacity s" and qk: "queue_ok s" and l: "loop_ok s"
    using inv by (simp_all add: protocol_inv_def)
  obtain i where cur: "psCurrent s = Some i"
    using f by (auto split: option.splits)
  let ?t = "mark i ROver (s\<lparr>psCurrent := None\<rparr>)"
  have i: "i < length (psReq s)" "psReq s ! i = RHandling"
    using qk cur by (auto simp: queue_ok_def)
  have pos: "0 < psActive s"
  proof -
    have "0 < count_in {RQueued, RHandling} (psReq s)"
      by (rule count_in_pos [of i]) (simp_all add: i)
    then show ?thesis
      using counters_okD(1) [OF c] count_in_nonneg [of admitted_phases "psPhase s"] by linarith
  qed
  have s': "s' = ?t\<lparr>psActive := psActive s - 1, psDrained := (if psActive s = 1 then None else psDrained s),
      psChannels := drainedChannels s\<rparr>"
  proof -
    have "drainedChannels ?t = drainedChannels s" "psActive ?t = psActive s" "psDrained ?t = psDrained s" "psChannels ?t = psChannels s"
      by (simp_all add: drainedChannels_def mark_def split: option.split)
    with f cur endAdmission_step [of ?t] pos counters_okD(5) [OF c] show ?thesis by simp
  qed
  have fields: "psPhase s' = psPhase s" "psReq s' = (psReq s)[i := ROver]"
    "psQueue s' = psQueue s" "psCurrent s' = None" "psLoop s' = psLoop s"
    by (simp_all add: s' mark_def)
  have other: "psReq s ! j \<noteq> RHandling" if "j \<noteq> i" "j < length (psReq s)" for j
    using qk cur that unfolding queue_ok_def by (metis option.inject)
  have "queue_ok s'"
    using qk i cur other unfolding queue_ok_def fields by (auto simp: nth_list_update)
  moreover have "loop_ok s'"
    using l by (auto simp: loop_ok_def s' mark_def)
  moreover have "counters_ok capacity s'"
    using counters_okD [OF c] i(2) pos
    by (auto simp: counters_ok_def s' mark_def drainedChannels_def count_in_update [OF i(1)])
  ultimately show ?thesis by (simp add: protocol_inv_def)
qed

lemma fire_inv:
  assumes "protocol_inv capacity s" and "fire capacity act s = Some s'"
  shows "protocol_inv capacity s'"
proof (cases act)
  case (Begin i) with assms show ?thesis by (intro submit_inv [of capacity s act s' i]) auto
next
  case (AdmitOK i) with assms show ?thesis by (intro submit_inv [of capacity s act s' i]) auto
next
  case (AdmitFails i) with assms show ?thesis by (intro submit_inv [of capacity s act s' i]) auto
next
  case (Reserve i) with assms show ?thesis by (intro submit_inv [of capacity s act s' i]) auto
next
  case (AcquireSlot i) with assms show ?thesis by (intro submit_inv [of capacity s act s' i]) auto
next
  case (CancelWait i) with assms show ?thesis by (intro submit_inv [of capacity s act s' i]) auto
next
  case (QueueFails i) with assms show ?thesis by (intro submit_inv [of capacity s act s' i]) auto
next
  case (Send i) with assms show ?thesis using send_inv by blast
next
  case (FinishEnqueue i) with assms show ?thesis using finish_enqueue_inv by blast
next
  case (Leave i) with assms show ?thesis using leave_inv by blast
next
  case Take with assms show ?thesis using take_inv by blast
next
  case Handled with assms show ?thesis using handled_inv by blast
next
  case (PauseReturn k) with assms show ?thesis by (intro flags_inv [of capacity s act s' k]) auto
next
  case (PauseCancel k) with assms show ?thesis by (intro flags_inv [of capacity s act s' k]) auto
qed (use assms flags_inv [of capacity s act s' 0] in blast)+

lemma reachable_inv: "reachable capacity n s \<Longrightarrow> protocol_inv capacity s"
  by (induction rule: reachable.induct) (auto intro: open_inv fire_inv)

section \<open>Runs of the protocol\<close>

fun fire_all :: "nat \<Rightarrow> action list \<Rightarrow> ProtocolState \<Rightarrow> ProtocolState option" where
  "fire_all capacity [] s = Some s"
| "fire_all capacity (act # acts) s =
     (case fire capacity act s of None \<Rightarrow> None | Some s' \<Rightarrow> fire_all capacity acts s')"

text \<open>Where nothing is admitted, nothing is on its way in, queued or handled.\<close>

lemma quiet_idle:
  assumes "protocol_inv capacity s" and "psActive s = 0"
  shows "\<forall>p\<in>set (psPhase s). p \<notin> admitted_phases" and "\<forall>r\<in>set (psReq s). r \<notin> {RQueued, RHandling}"
proof -
  have "psActive s = count_in admitted_phases (psPhase s) + count_in {RQueued, RHandling} (psReq s)"
    using assms(1) unfolding protocol_inv_def by (blast dest: counters_okD(1))
  then have "count_in admitted_phases (psPhase s) = 0" "count_in {RQueued, RHandling} (psReq s) = 0"
    using assms(2) count_in_nonneg [of admitted_phases "psPhase s"] count_in_nonneg [of "{RQueued, RHandling}" "psReq s"]
    by linarith+
  then show "\<forall>p\<in>set (psPhase s). p \<notin> admitted_phases" "\<forall>r\<in>set (psReq s). r \<notin> {RQueued, RHandling}"
    by (simp_all only: count_in_zero)
qed

lemma quiet_queue:
  assumes "protocol_inv capacity s" and "psActive s = 0"
  shows "psQueue s = []" and "psCurrent s = None"
proof -
  have q: "queue_ok s" using assms(1) by (simp add: protocol_inv_def)
  note idle = quiet_idle(2) [OF assms]
  have "set (psQueue s) = {}"
    using q idle unfolding queue_ok_def by (metis (no_types, lifting) equals0I insertI1 nth_mem)
  then show "psQueue s = []" by simp
  show "psCurrent s = None"
    using q idle unfolding queue_ok_def by (metis (no_types, lifting) insertCI nth_mem option.exhaust)
qed

lemma fire_all_inv: "protocol_inv capacity s \<Longrightarrow> fire_all capacity acts s = Some s' \<Longrightarrow> protocol_inv capacity s'"
  by (induction acts arbitrary: s) (auto split: option.splits intro: fire_inv)

section \<open>Pauses that wait\<close>

text \<open>A channel that somebody waits on is closed, or it is the one the last admission will close.\<close>

definition pausers_ok :: "ProtocolState \<Rightarrow> bool" where
  "pausers_ok s \<longleftrightarrow> (\<forall>channel. PauseWaits channel \<in> set (psPausers s) \<longrightarrow>
     channel < length (psChannels s) \<and> (\<not> psChannels s ! channel \<longrightarrow> psDrained s = Some channel))"

lemma other_fields:
  assumes "fire capacity act s = Some s'" and "\<And>k. act \<notin> {Pause, PauseReturn k, PauseCancel k, Resume, Leave k, Handled}"
  shows "psPausers s' = psPausers s \<and> psChannels s' = psChannels s \<and> psDrained s' = psDrained s"
  using assms by (cases act) (auto simp: beginAdmission_def reserveEnqueue_def finishEnqueue_def closeEnqueueDone_def Writer_Close_def
      move_def mark_def Let_def split: if_splits list.splits)

lemma ending_fields:
  assumes inv: "protocol_inv capacity s" and f: "fire capacity act s = Some s'" and act: "act \<in> {Leave i, Handled}"
  shows "psPausers s' = psPausers s \<and> psOpen s' = psOpen s \<and> psActive s' = psActive s - 1 \<and> psChannels s' = drainedChannels s
    \<and> psDrained s' = (if psActive s = 1 then None else psDrained s)"
proof -
  have c: "counters_ok capacity s" using inv by (simp add: protocol_inv_def)
  have c': "0 \<le> psActive s'"
  proof -
    have "counters_ok capacity s'" using fire_inv [OF inv f] by (simp add: protocol_inv_def)
    from counters_okD(1) [OF this] show ?thesis by (simp add: add_nonneg_nonneg)
  qed
  have "\<exists>t. s' = move i POver (endAdmission s) \<or> (\<exists>j. s' = endAdmission (mark j ROver (s\<lparr>psCurrent := None\<rparr>)))"
    using f act by (auto split: if_splits option.splits)
  moreover have "psActive (endAdmission t) = psActive t - 1" for t
    by (simp add: endAdmission_def closeDrained_def Let_def split: option.split)
  ultimately have pos: "0 < psActive s"
    using c' by (auto simp: move_def mark_def)
  have t: "endAdmission t = t\<lparr>psActive := psActive t - 1, psDrained := (if psActive t = 1 then None else psDrained t), psChannels := drainedChannels t\<rparr>"
    if "psActive t = psActive s" "psDrained t = psDrained s" "psChannels t = psChannels s" for t
    using that pos counters_okD(5) [OF c] by (intro endAdmission_step) simp_all
  have same: "drainedChannels (mark j ROver (s\<lparr>psCurrent := None\<rparr>)) = drainedChannels s" for j
    by (simp add: drainedChannels_def mark_def split: option.split)
  from act show ?thesis
  proof (elim insertE emptyE)
    assume "act = Leave i"
    then have "s' = move i POver (endAdmission s)" using f by (auto split: if_splits)
    then show ?thesis using t [of s] by (simp add: move_def)
  next
    assume "act = Handled"
    then obtain j where s': "s' = endAdmission (mark j ROver (s\<lparr>psCurrent := None\<rparr>))" using f by (auto split: option.splits)
    show ?thesis unfolding s' by (subst (1 2 3 4 5) t) (simp_all add: same, simp_all add: mark_def)
  qed
qed

lemma pausers_step:
  assumes inv: "protocol_inv capacity s" and ok: "pausers_ok s" and f: "fire capacity act s = Some s'"
  shows "pausers_ok s'"
proof -
  have c: "counters_ok capacity s" using inv by (simp add: protocol_inv_def)
  consider (other) "\<And>k. act \<notin> {Pause, PauseReturn k, PauseCancel k, Resume, Leave k, Handled}" | (ending) i where "act \<in> {Leave i, Handled}"
    | (pause) "act = Pause" | (answer) k where "act \<in> {PauseReturn k, PauseCancel k}" | (resume) "act = Resume"
    by (cases act) auto
  then show ?thesis
  proof cases
    case other
    from other_fields [OF f this] ok show ?thesis by (simp add: pausers_ok_def)
  next
    case ending
    note e = ending_fields [OF inv f ending]
    have "channel < length (psChannels s') \<and> (\<not> psChannels s' ! channel \<longrightarrow> psDrained s' = Some channel)"
      if "PauseWaits channel \<in> set (psPausers s')" for channel
    proof -
      have ch: "channel < length (psChannels s)" "\<not> psChannels s ! channel \<Longrightarrow> psDrained s = Some channel"
        using ok that e by (simp_all add: pausers_ok_def)
      show ?thesis
      proof (cases "psChannels s ! channel \<or> psDrained s \<noteq> Some channel")
        case True
        then have "psChannels s ! channel" using ch(2) by blast
        then have "drainedChannels s ! channel"
          by (cases "psDrained s") (simp_all add: drainedChannels_def nth_list_update ch(1) list_update_beyond linorder_not_less,
            metis list_update_beyond nth_list_update_eq nth_list_update_neq linorder_not_less)
        with e ch(1) show ?thesis by (simp add: drainedChannels_def split: option.split)
      next
        case False
        with e ch(1) show ?thesis by (simp add: drainedChannels_def)
      qed
    qed
    then show ?thesis by (simp add: pausers_ok_def)
  next
    case pause
    have old: "channel < length (psChannels s)" "\<not> psChannels s ! channel \<Longrightarrow> psDrained s = Some channel"
      if "PauseWaits channel \<in> set (psPausers s)" for channel
      using ok that by (simp_all add: pausers_ok_def)
    from f [unfolded pause] show ?thesis
    proof (cases rule: pause_step)
      case at_once
      with ok show ?thesis by (simp add: pausers_ok_def)
    next
      case (joins channel)
      with ok counters_okD(5) [OF c, of channel] show ?thesis by (simp add: pausers_ok_def)
    next
      case waits
      with old show ?thesis by (fastforce simp: pausers_ok_def nth_append)
    qed
  next
    case answer
    then have "\<exists>p. p \<in> {PauseSucceeded, PauseCancelled} \<and> s' = s\<lparr>psPausers := (psPausers s)[k := p]\<rparr>"
      using f by (auto simp: pauseReturns_def pauseCancels_def split: if_splits pauser.splits)
    then show ?thesis using ok set_update_subset_insert [of "psPausers s" k] by (fastforce simp: pausers_ok_def)
  next
    case resume
    then show ?thesis using f ok counters_drained [OF c] by (auto simp: pausers_ok_def ResumeAdmissions_def split: if_splits)
  qed
qed

lemma reachable_pausers: "reachable capacity n s \<Longrightarrow> pausers_ok s"
proof (induction rule: reachable.induct)
  case opened
  show ?case by (simp add: pausers_ok_def OpenWriter_def)
next
  case (step s act s')
  then show ?case using pausers_step reachable_inv by blast
qed

text \<open>
  From the moment a pause closes the fence until somebody resumes: the fence stays closed, and once the
  channel of the pause is closed, or the pause has returned, nothing is admitted any more.
\<close>

definition pausing :: "nat \<Rightarrow> ProtocolState \<Rightarrow> bool" where
  "pausing k s \<longleftrightarrow> \<not> psOpen s \<and> k < length (psPausers s) \<and> (psPausers s ! k = PauseSucceeded \<longrightarrow> psActive s = 0)
     \<and> (\<forall>channel. psPausers s ! k = PauseWaits channel \<longrightarrow> psChannels s ! channel \<longrightarrow> psActive s = 0)"

lemma closed_fence:
  assumes "fire capacity act s = Some s'" and "\<not> psOpen s" and "\<And>k. act \<notin> {Pause, PauseReturn k, PauseCancel k, Resume, Leave k, Handled}"
  shows "\<not> psOpen s' \<and> psActive s' = psActive s"
  using assms by (cases act) (auto simp: beginAdmission_def reserveEnqueue_def finishEnqueue_def closeEnqueueDone_def Writer_Close_def
      move_def mark_def Let_def split: if_splits list.splits)

lemma pausing_starts:
  assumes inv: "protocol_inv capacity s" and f: "fire capacity Pause s = Some s'"
  shows "pausing (length (psPausers s)) s'"
proof -
  have "counters_ok capacity s" using inv by (simp add: protocol_inv_def)
  from f counters_okD(5) [OF this] show ?thesis
    by (cases rule: pause_step) (simp_all add: pausing_def)
qed

lemma pausing_step:
  assumes inv: "protocol_inv capacity s" and ok: "pausers_ok s" and p: "pausing k s" and f: "fire capacity act s = Some s'" and act: "act \<noteq> Resume"
  shows "pausing k s'"
proof -
  have c: "counters_ok capacity s" using inv by (simp add: protocol_inv_def)
  have active: "0 \<le> psActive s'"
  proof -
    have "counters_ok capacity s'" using fire_inv [OF inv f] by (simp add: protocol_inv_def)
    from counters_okD(1) [OF this] show ?thesis by (simp add: add_nonneg_nonneg)
  qed
  have waits: "PauseWaits channel \<in> set (psPausers s)" if "psPausers s ! k = PauseWaits channel" for channel
    using p that by (metis nth_mem pausing_def)
  consider (other) "\<And>k. act \<notin> {Pause, PauseReturn k, PauseCancel k, Resume, Leave k, Handled}" | (ending) i where "act \<in> {Leave i, Handled}"
    | (pause) "act = Pause" | (answer) j where "act \<in> {PauseReturn j, PauseCancel j}"
    using act by (cases act) auto
  then show ?thesis
  proof cases
    case other
    from other_fields [OF f this] closed_fence [OF f _ this] p show ?thesis by (simp add: pausing_def)
  next
    case ending
    note e = ending_fields [OF inv f ending]
    have pos: "psActive s \<noteq> 0" using e active by linarith
    have "psActive s' = 0" if "psPausers s ! k = PauseWaits channel" "drainedChannels s ! channel" for channel
    proof -
      have "\<not> psChannels s ! channel" using p pos that(1) by (auto simp: pausing_def)
      then have "psActive s = 1" using that(2) by (auto simp: drainedChannels_def split: option.splits if_splits)
      then show ?thesis using e by simp
    qed
    then show ?thesis using e p pos by (auto simp: pausing_def)
  next
    case pause
    have "channel < length (psChannels s)" if "psPausers s ! k = PauseWaits channel" for channel
      using ok waits [OF that] by (auto simp: pausers_ok_def)
    with f [unfolded pause] p show ?thesis
      by (elim pause_step) (auto simp: pausing_def nth_append)
  next
    case answer
    then have "\<exists>q. s' = s\<lparr>psPausers := (psPausers s)[j := q]\<rparr> \<and> (q = PauseCancelled
        \<or> q = PauseSucceeded \<and> (\<exists>channel. psPausers s ! j = PauseWaits channel \<and> psChannels s ! channel))"
      using f by (auto simp: pauseReturns_def pauseCancels_def split: if_splits pauser.splits)
    then obtain q where q: "s' = s\<lparr>psPausers := (psPausers s)[j := q]\<rparr>" "q = PauseCancelled
        \<or> q = PauseSucceeded \<and> (\<exists>channel. psPausers s ! j = PauseWaits channel \<and> psChannels s ! channel)"
      by blast
    show ?thesis using p q by (cases "j = k") (auto simp: pausing_def)
  qed
qed

lemma pausing_run:
  "protocol_inv capacity s \<Longrightarrow> pausers_ok s \<Longrightarrow> pausing k s \<Longrightarrow> fire_all capacity acts s = Some s' \<Longrightarrow> Resume \<notin> set acts
    \<Longrightarrow> pausing k s' \<and> pausers_ok s' \<and> protocol_inv capacity s'"
proof (induction acts arbitrary: s)
  case (Cons act acts)
  then obtain t where t: "fire capacity act s = Some t" and rest: "fire_all capacity acts t = Some s'"
    by (auto split: option.splits)
  have "act \<noteq> Resume" using Cons.prems(5) by auto
  then have "pausing k t" by (rule pausing_step [OF Cons.prems(1-3) t])
  from Cons.IH [OF fire_inv [OF Cons.prems(1) t] pausers_step [OF Cons.prems(1,2) t] this rest] Cons.prems(5) show ?case
    by simp
qed simp

text \<open>No wake-up is lost: when nothing is admitted any more, a pause that still waits can return.\<close>

lemma pause_can_return:
  assumes "counters_ok capacity s" and "pausers_ok s" and "k < length (psPausers s)" and "psPausers s ! k = PauseWaits channel" and "psActive s = 0"
  shows "\<exists>s'. fire capacity (PauseReturn k) s = Some s' \<and> psPausers s' ! k = PauseSucceeded"
proof -
  have "PauseWaits channel \<in> set (psPausers s)" using assms(3,4) by (metis nth_mem)
  then have "psChannels s ! channel"
    using assms(2) counters_drained [OF assms(1,5)] by (auto simp: pausers_ok_def)
  with assms(3,4) show ?thesis by (simp add: pauseReturns_def)
qed

section \<open>After the loop has stopped\<close>

lemma stopped_idle:
  assumes "protocol_inv capacity s" and "psLoop s = LStopped"
  shows "\<forall>p\<in>set (psPhase s). p \<notin> enqueuing_phases" and "\<forall>r\<in>set (psReq s). r \<notin> {RQueued, RHandling}"
    and "\<not> psAccept s"
proof -
  have c: "counters_ok capacity s" and q: "queue_ok s" and l: "loop_ok s"
    using assms(1) by (simp_all add: protocol_inv_def)
  have "psEnqueueDone s" "psQueue s = []" "psCurrent s = None"
    using l assms(2) by (simp_all add: loop_ok_def)
  then have pend: "psPending s = 0" and "\<not> psAccept s"
    using counters_okD(7) [OF c] by auto
  then show "\<not> psAccept s" by simp
  show "\<forall>p\<in>set (psPhase s). p \<notin> enqueuing_phases"
    using pend counters_okD(2) [OF c] by (simp only: count_in_zero)
  have "psReq s ! i \<notin> {RQueued, RHandling}" if "i < length (psReq s)" for i
    using that q \<open>psQueue s = []\<close> \<open>psCurrent s = None\<close> unfolding queue_ok_def by fastforce
  then show "\<forall>r\<in>set (psReq s). r \<notin> {RQueued, RHandling}"
    by (metis in_set_conv_nth)
qed

lemma stopped_step:
  assumes inv: "protocol_inv capacity s" and l: "psLoop s = LStopped" and f: "fire capacity act s = Some s'"
  shows "psLoop s' = LStopped \<and> psReq s' = psReq s"
proof -
  have none: "\<not> at_phase i p s" if "p \<in> enqueuing_phases" for i p
    using stopped_idle(1) [OF inv l] that unfolding at_phase_def by (metis nth_mem)
  have "\<not> at_phase i PSlot s" "\<not> at_phase i PReserved s" "\<not> at_phase i PSent s" "\<not> at_phase i PFinish s" for i
    using none by simp_all
  moreover have "psCurrent s = None"
    using inv l by (simp add: protocol_inv_def loop_ok_def)
  ultimately show ?thesis
    using f l by (cases act) (auto simp: beginAdmission_def reserveEnqueue_def move_def endAdmission_def
        closeDrained_def closeEnqueueDone_def Let_def PauseAdmissions_def pauseReturns_def pauseCancels_def ResumeAdmissions_def
        Writer_Close_def split: if_splits option.splits pauser.splits)
qed

section \<open>Closing terminates\<close>

text \<open>
  The actions the run loop and the goroutines of reserved submissions take on their own:
  no new submission, no cancellation, no failure.
\<close>

fun draining :: "action \<Rightarrow> bool" where
  "draining (AcquireSlot i) = True"
| "draining (Send i) = True"
| "draining (FinishEnqueue i) = True"
| "draining Take = True"
| "draining Handled = True"
| "draining SeeStop = True"
| "draining SeeEnqueueDone = True"
| "draining Return = True"
| "draining _ = False"

fun phase_work :: "phase \<Rightarrow> nat" where
  "phase_work PReserved = 5"
| "phase_work PSlot = 4"
| "phase_work PSent = 1"
| "phase_work PFinish = 1"
| "phase_work _ = 0"

fun loop_work :: "loop \<Rightarrow> nat" where
  "loop_work LRunning = 3"
| "loop_work LDraining = 2"
| "loop_work LFinal = 1"
| "loop_work LStopped = 0"

definition work :: "ProtocolState \<Rightarrow> nat" where
  "work s = sum_list (map phase_work (psPhase s)) + 2 * length (psQueue s)
     + (if psCurrent s = None then 0 else 1) + loop_work (psLoop s)"

lemma phase_work_move:
  assumes "at_phase i p s"
  shows "sum_list (map phase_work ((psPhase s)[i := q])) + phase_work p = sum_list (map phase_work (psPhase s)) + phase_work q"
proof -
  have i: "i < length (map phase_work (psPhase s))" "map phase_work (psPhase s) ! i = phase_work p"
    using assms by (auto simp: at_phase_def)
  then have "phase_work p \<le> sum_list (map phase_work (psPhase s))"
    using elem_le_sum_list [OF i(1)] by simp
  with i show ?thesis
    by (simp add: map_update sum_list_update)
qed

lemma work_decreases:
  assumes inv: "protocol_inv capacity s" and d: "draining act" and f: "fire capacity act s = Some s'"
  shows "work s' < work s" and "psStop s \<Longrightarrow> psStop s'"
proof -
  have slots: "psSlots s > 0" if "psQueue s \<noteq> []"
  proof -
    have "psSlots s = count_in {PSlot} (psPhase s) + int (length (psQueue s))"
      using inv unfolding protocol_inv_def by (blast dest: counters_okD(3))
    moreover have "0 < int (length (psQueue s))" using that by simp
    ultimately show ?thesis using count_in_nonneg [of "{PSlot}" "psPhase s"] by linarith
  qed
  show "work s' < work s"
  proof (cases act)
    case (AcquireSlot i)
    then have "at_phase i PReserved s" "s' = move i PSlot (s\<lparr>psSlots := psSlots s + 1\<rparr>)"
      using f by (auto split: if_splits)
    with phase_work_move [of i PReserved s PSlot] show ?thesis by (simp add: work_def move_def)
  next
    case (Send i)
    then have "at_phase i PSlot s" "s' = move i PSent (mark i RQueued (s\<lparr>psQueue := psQueue s @ [i]\<rparr>))"
      using f by (auto split: if_splits)
    with phase_work_move [of i PSlot s PSent] show ?thesis by (simp add: work_def move_def mark_def)
  next
    case (FinishEnqueue i)
    have fe: "psPhase (finishEnqueue s) = psPhase s" "psQueue (finishEnqueue s) = psQueue s"
      "psCurrent (finishEnqueue s) = psCurrent s" "psLoop (finishEnqueue s) = psLoop s"
      by (simp_all add: finishEnqueue_def closeEnqueueDone_def Let_def)
    from FinishEnqueue f consider "at_phase i PSent s" "s' = move i POver (finishEnqueue s)"
      | "at_phase i PFinish s" "s' = move i PLeaving (finishEnqueue s)"
      by (auto split: if_splits)
    then show ?thesis
      using phase_work_move [of i PSent s POver] phase_work_move [of i PFinish s PLeaving] fe
      by cases (simp_all add: work_def move_def)
  qed (use f d slots in \<open>auto simp: work_def mark_def endAdmission_def closeDrained_def Let_def split: if_splits list.splits option.splits\<close>)
  show "psStop s'" if "psStop s"
    using that f d by (cases act) (auto simp: move_def mark_def finishEnqueue_def closeEnqueueDone_def endAdmission_def
        closeDrained_def Let_def split: if_splits list.splits option.splits)
qed

lemma drain_progress:
  assumes inv: "protocol_inv capacity s" and cap: "0 < capacity" and stop: "psStop s" and l: "psLoop s \<noteq> LStopped"
  shows "\<exists>act s'. draining act \<and> fire capacity act s = Some s'"
proof -
  have c: "counters_ok capacity s" and lo: "loop_ok s" using inv by (simp_all add: protocol_inv_def)
  consider (cur) i where "psCurrent s = Some i" | (queue) "psCurrent s = None" "psQueue s \<noteq> []"
    | (run) "psCurrent s = None" "psLoop s = LRunning"
    | (closed) "psCurrent s = None" "psLoop s = LDraining" "psEnqueueDone s"
    | (final) "psCurrent s = None" "psQueue s = []" "psLoop s = LFinal"
    | (pending) "psCurrent s = None" "psQueue s = []" "\<not> psEnqueueDone s"
    using l by (cases "psLoop s"; cases "psCurrent s"; cases "psQueue s = []"; cases "psEnqueueDone s") auto
  then show ?thesis
  proof cases
    case cur
    then show ?thesis by (intro exI [of _ Handled]) simp
  next
    case queue
    with l show ?thesis by (intro exI [of _ Take]) (auto split: list.split)
  next
    case run
    with stop show ?thesis by (intro exI [of _ SeeStop]) simp
  next
    case closed
    then show ?thesis by (intro exI [of _ SeeEnqueueDone]) simp
  next
    case final
    then show ?thesis by (intro exI [of _ Return]) simp
  next
    case pending
    have "psPending s \<noteq> 0"
      using pending(3) stop counters_okD(6,7) [OF c] by auto
    then obtain p where "p \<in> set (psPhase s)" "p \<in> enqueuing_phases"
      using counters_okD(2) [OF c] count_in_zero [of enqueuing_phases "psPhase s"] by metis
    then obtain i where i: "at_phase i p s" "p \<in> enqueuing_phases"
      by (metis at_phase_def in_set_conv_nth)
    have send: "\<exists>act s'. draining act \<and> fire capacity act s = Some s'" if "at_phase j PSlot s" for j
      using that cap pending(2) by (intro exI [of _ "Send j"]) simp
    show ?thesis
    proof (cases "p = PReserved")
      case True
      show ?thesis
      proof (cases "psSlots s < int capacity")
        case True
        with i \<open>p = PReserved\<close> show ?thesis by (intro exI [of _ "AcquireSlot i"]) simp
      next
        case False
        then have "count_in {PSlot} (psPhase s) \<noteq> 0"
          using counters_okD(3) [OF c] cap pending(2) by simp
        then have "PSlot \<in> set (psPhase s)"
          using count_in_zero [of "{PSlot}" "psPhase s"] by auto
        then obtain j where "at_phase j PSlot s"
          by (metis at_phase_def in_set_conv_nth)
        then show ?thesis by (rule send)
      qed
    next
      case False
      with i consider "at_phase i PSlot s" | "at_phase i PSent s" | "at_phase i PFinish s" by auto
      then show ?thesis
      proof cases
        case 1
        then show ?thesis by (rule send)
      qed (intro exI [of _ "FinishEnqueue i"], simp add: at_phase_def)+
    qed
  qed
qed

lemma drains_to_stop:
  assumes "protocol_inv capacity s" and "0 < capacity" and "psStop s"
  shows "\<exists>acts s'. (\<forall>act\<in>set acts. draining act) \<and> fire_all capacity acts s = Some s' \<and> psLoop s' = LStopped"
  using assms
proof (induction "work s" arbitrary: s rule: less_induct)
  case less
  show ?case
  proof (cases "psLoop s = LStopped")
    case True
    then show ?thesis by (intro exI [of _ "[]"]) simp
  next
    case False
    then obtain act s1 where act: "draining act" and f: "fire capacity act s = Some s1"
      using drain_progress [OF less.prems] by blast
    note dec = work_decreases [OF less.prems(1) act f]
    obtain acts s' where "\<forall>act\<in>set acts. draining act" "fire_all capacity acts s1 = Some s'" "psLoop s' = LStopped"
      using less.hyps [OF dec(1) fire_inv [OF less.prems(1) f] less.prems(2) dec(2)] less.prems(3) by blast
    with act f show ?thesis by (intro exI [of _ "act # acts"] exI [of _ s']) simp
  qed
qed

end
