(* ===== verification/Canonical_Properties.thy ===== *)
theory Canonical_Properties
  imports Ledger_Envelope Canonical_Activity Writer_Protocol
begin

text \<open>
  The properties of the canonical package, stated over the definitions of its components,
  and a concrete instance for each property that has hypotheses.
\<close>

section \<open>Codecs\<close>

text \<open>
  A codec between the integers of a range and JSON texts: exactly the values of the range are written, what is written
  is read back as the same value, and a value is read only from a JSON string that decodes to its one decimal text.
\<close>

definition exact_codec ::
    "int \<Rightarrow> int \<Rightarrow> (int \<Rightarrow> (canonical_error, string) result) \<Rightarrow> (string \<Rightarrow> (canonical_error, int) result) \<Rightarrow> bool" where
  "exact_codec lo hi marshal unmarshal \<longleftrightarrow>
     (\<forall>v. int64 v \<longrightarrow> ((\<exists>t. marshal v = Inr t) \<longleftrightarrow> lo \<le> v \<and> v \<le> hi))
     \<and> (\<forall>v t. int64 v \<longrightarrow> marshal v = Inr t \<longrightarrow> unmarshal t = Inr v)
     \<and> (\<forall>t v. unmarshal t = Inr v \<longrightarrow> json_unmarshal_string t = Some (FormatInt v) \<and> lo \<le> v \<and> v \<le> hi)"

context logical_integer
begin

lemma codec_exact: "exact_codec lo hi Marshal Unmarshal"
  unfolding exact_codec_def
proof (intro conjI allI impI)
  show "(\<exists>t. Marshal v = Inr t) \<longleftrightarrow> lo \<le> v \<and> v \<le> hi" if "int64 v" for v
    using marshal_iff_new [OF that] New_range [OF that] by blast
  show "Unmarshal t = Inr v" if "int64 v" "Marshal v = Inr t" for v t
    using that by (rule codec_roundtrip)
  show "json_unmarshal_string t = Some (FormatInt v)" "lo \<le> v" "v \<le> hi" if "Unmarshal t = Inr v" for t v
    using unmarshal_unique [OF that] unmarshal_range [of t name lo hi v] that by (simp_all add: Unmarshal_eq)
qed

end

text \<open>
  C34: the JSON codecs of the scalar types are exact. A sequence number is written from 1 on, a ratio from 0 to one
  million parts, an instant over the whole of int64, the others from 0 on; every written text is read back as the same
  value, and a value is read only from a JSON string that decodes to its one decimal text: no plus sign, leading zero,
  number literal or value out of range is accepted.
\<close>

theorem scalar_codecs:
  "exact_codec 1 maxInt64 Seq_MarshalJSON Seq_UnmarshalJSON
   \<and> exact_codec 1 maxInt64 CommitSeq_MarshalJSON CommitSeq_UnmarshalJSON
   \<and> exact_codec 0 maxInt64 Ordinal_MarshalJSON Ordinal_UnmarshalJSON
   \<and> exact_codec 0 maxInt64 Count_MarshalJSON Count_UnmarshalJSON
   \<and> exact_codec 0 maxInt64 ByteSize_MarshalJSON ByteSize_UnmarshalJSON
   \<and> exact_codec 0 maxInt64 Duration_MarshalJSON Duration_UnmarshalJSON
   \<and> exact_codec 0 maxInt64 TokenCount_MarshalJSON TokenCount_UnmarshalJSON
   \<and> exact_codec 0 1000000 Ratio_MarshalJSON Ratio_UnmarshalJSON
   \<and> exact_codec 0 maxInt64 Weight_MarshalJSON Weight_UnmarshalJSON
   \<and> exact_codec 0 maxInt64 Money_MarshalJSON Money_UnmarshalJSON
   \<and> exact_codec minInt64 maxInt64 Instant_MarshalJSON Instant_UnmarshalJSON"
  using seq_codec.codec_exact commitSeq_codec.codec_exact ordinal_codec.codec_exact count_codec.codec_exact
    byteSize_codec.codec_exact duration_codec.codec_exact tokenCount_codec.codec_exact
    ratio_codec.codec_exact [unfolded FixedPointScale_def] weight_codec.codec_exact money_codec.codec_exact instant_codec.codec_exact
  by blast

text \<open>
  a digest has exactly one hexadecimal text, and only that text parses to it.
\<close>

theorem digest_hex:
  "ParseDigestHex s = Inr d \<longleftrightarrow> length d = 32 \<and> Digest_Hex d = s"
proof
  assume "ParseDigestHex s = Inr d"
  then have len: "length s = 64" and low: "\<not> has_upper s" and dec: "DecodeString s = Some d"
    by (auto simp: ParseDigestHex_def split: if_splits option.splits)
  have "EncodeToString d = s"
    by (rule EncodeToString_DecodeString [OF dec low])
  moreover from this have "2 * length d = 64"
    using len length_EncodeToString [of d] by simp
  ultimately show "length d = 32 \<and> Digest_Hex d = s"
    by (simp add: Digest_Hex_def)
next
  assume "length d = 32 \<and> Digest_Hex d = s"
  then show "ParseDigestHex s = Inr d"
    by (auto simp: ParseDigestHex_def Digest_Hex_def length_EncodeToString EncodeToString_lower DecodeString_EncodeToString)
qed

section \<open>Ledger\<close>

text \<open>
  C1: \<^verbatim>\<open>LedgerVerifier.Verify\<close> succeeds exactly on a ledger whose content objects and events
  all check, whose hash chain links every event to the one before, and whose walks
  completed; sequences increase strictly, and the report names its counts, ends and head.
\<close>

theorem ledger_verify_iff:
  assumes "int (length (lsContents source)) \<le> maxInt64" and "int (length (lsEvents source)) \<le> maxInt64"
  shows "(LedgerVerifier_Verify sha256 validator ctxC ctxE source residentID = Inr report \<longleftrightarrow>
      ledger_ok sha256 validator residentID source \<and> walk_complete ctxC ctxE source
      \<and> report = report_spec residentID source)
    \<and> (ledger_ok sha256 validator residentID source \<longrightarrow> sorted_wrt (<) (map lrSeq (lsEvents source)))"
  using Verify_Inr [OF assms] chained_sorted [of None "lsEvents source"] by (simp add: ledger_ok_def)

definition demo_sha :: sha256 where
  "demo_sha s = rev s"

text \<open>A ledger of two events about one content object, before and after the content is erased.\<close>

definition demo_commitment :: Digest where
  "demo_commitment = demo_sha (content_preimage ''note'' zeroSalt ''tea'')"

definition demo_content :: "bool \<Rightarrow> LedgerContent" where
  "demo_content erased = \<lparr>lcFound = True, lcID = 5, lcResidentID = 1, lcClass = ''note'',
     lcErasureState = (if erased then ''erased'' else ''present''), lcBlobFound = (\<not> erased),
     lcLogicalBytes = (if erased then '''' else ''tea''), lcBlobHash = (if erased then None else Some (demo_sha ''tea'')),
     lcCommitment = demo_commitment, lcCommitmentSalt = (if erased then None else Some zeroSalt)\<rparr>"

definition demo_event :: "bool \<Rightarrow> ID \<Rightarrow> Seq \<Rightarrow> string \<Rightarrow> Digest option \<Rightarrow> LedgerRecord" where
  "demo_event erased i q envelope prev = \<lparr>lrEventID = i, lrResidentID = 1, lrSeq = q, lrContentID = 5,
     lrPayloadCommitment = demo_commitment, lrContent = demo_content erased, lrPrevEventHash = prev,
     lrEventHash = demo_sha (event_preimage envelope), lrEnvelope = envelope\<rparr>"

definition demo_source :: "bool \<Rightarrow> LedgerSource" where
  "demo_source erased = \<lparr>lsContents = [demo_content erased], lsContentsErr = None,
     lsEvents = [demo_event erased 7 1 ''first'' None, demo_event erased 8 4 ''second'' (Some (demo_sha (event_preimage ''first'')))],
     lsEventsErr = None\<rparr>"

lemma demo_content_ok: "content_ok demo_sha 1 (demo_content erased)"
  by (simp add: content_ok_def demo_content_def demo_commitment_def byte_def)

lemma demo_event_ok:
  assumes "i \<noteq> 0" and "0 < q" and "envelope \<noteq> ''''" and "\<And>v. validator = Some v \<Longrightarrow> v (demo_event erased i q envelope prev) = ok"
  shows "record_ok demo_sha validator 1 (demo_event erased i q envelope prev)"
  using assms demo_content_ok [of erased] by (auto simp: record_ok_def demo_event_def demo_content_def)

lemma demo_verifies:
  assumes "\<And>v r. validator = Some v \<Longrightarrow> r \<in> set (lsEvents (demo_source erased)) \<Longrightarrow> v r = ok"
  shows "LedgerVerifier_Verify demo_sha validator (\<lambda>c. None) (\<lambda>r. None) (demo_source erased) 1 = Inr (report_spec 1 (demo_source erased))"
proof -
  have "ledger_ok demo_sha validator 1 (demo_source erased)"
    using assms demo_content_ok by (auto simp: ledger_ok_def demo_source_def intro!: demo_event_ok) (simp_all add: demo_event_def)
  moreover have "walk_complete (\<lambda>c. None) (\<lambda>r. None) (demo_source erased)"
    by (simp add: demo_source_def walk_complete_def)
  ultimately show ?thesis
    using Verify_Inr [of "demo_source erased"] by (simp add: demo_source_def maxInt64_def)
qed

theorem ledger_verify_iff_witness:
  "ledger_ok demo_sha None 1 (demo_source False) \<and> sorted_wrt (<) (map lrSeq (lsEvents (demo_source False)))"
  using ledger_verify_iff [of "demo_source False" demo_sha None "\<lambda>c. None" "\<lambda>r. None" 1 "report_spec 1 (demo_source False)"]
    demo_verifies [of None False]
  by (simp add: demo_source_def maxInt64_def)

text \<open>
  C2: verified with the storage adapter's envelope validator, the head hash commits to the whole ledger: two ledgers
  that verify with the same head hash hold the same events, field by field and in the same order (identifiers,
  sequences, content references, payload commitments, hashes and envelopes; only the stored content objects may differ,
  as they do after an erasure), provided SHA-256 does not collide between their envelopes. Nothing is assumed of the
  JSON decoder the validator uses.
\<close>

theorem ledger_head_commits:
  assumes "int (length (lsContents a)) \<le> maxInt64" and "int (length (lsEvents a)) \<le> maxInt64"
    and "int (length (lsContents b)) \<le> maxInt64" and "int (length (lsEvents b)) \<le> maxInt64"
    and "LedgerVerifier_Verify sha256 (Some (ValidateLedgerEnvelope decode)) ctxC ctxE a residentID = Inr report"
    and "LedgerVerifier_Verify sha256 (Some (ValidateLedgerEnvelope decode)) ctxC' ctxE' b residentID = Inr report'"
    and "lvHeadHash report = lvHeadHash report'"
    and "no_collision sha256 (lsEvents a) (lsEvents b)"
  shows "map event_row (lsEvents a) = map event_row (lsEvents b)"
proof -
  have a: "ledger_ok sha256 (Some (ValidateLedgerEnvelope decode)) residentID a" "report = report_spec residentID a"
    using Verify_Inr [OF assms(1,2)] assms(5) by auto
  have b: "ledger_ok sha256 (Some (ValidateLedgerEnvelope decode)) residentID b" "report' = report_spec residentID b"
    using Verify_Inr [OF assms(3,4)] assms(6) by auto
  show ?thesis
    using a b assms(7) by (intro same_head_same_chain [OF assms(8)]) (auto simp: ledger_ok_def report_spec_def)
qed

definition demo_envelope :: "ID \<Rightarrow> Seq \<Rightarrow> Digest option \<Rightarrow> eventHashEnvelope" where
  "demo_envelope i q prev = \<lparr>envEventID = i, envResidentID = 1, envSeq = q, envEventType = ''utterance'', envVisibility = ''private'',
     envDeliveryScreen = True, envDeliveryAudio = False, envIngress = ''screen'', envTrustLevel = ''trusted'',
     envActorPrincipalID = 2, envTargetPrincipalID = None, envGenerationRunID = None, envOccurredAt = 10, envOccurredTZ = ''UTC'',
     envRecordedAt = 10, envRecordedTZ = ''UTC'', envContentID = 5, envPayloadCommitment = demo_commitment, envPrevEventHash = prev,
     envEventHashAlgorithm = ''sha256'', envEventHashDomain = EventHashDomain, envCanonicalizationVersion = ''v1''\<rparr>"

definition demo_decode :: envelope_decoder where
  "demo_decode bytes =
     (if bytes = ''first'' then Inr (demo_envelope 7 1 None)
      else if bytes = ''second'' then Inr (demo_envelope 8 4 (Some (demo_sha (event_preimage ''first''))))
      else Inl (CanonicalError ''invalid JSON''))"

lemma demo_validated:
  "LedgerVerifier_Verify demo_sha (Some (ValidateLedgerEnvelope demo_decode)) (\<lambda>c. None) (\<lambda>r. None) (demo_source erased) 1
     = Inr (report_spec 1 (demo_source erased))"
  by (rule demo_verifies) (auto simp: ValidateLedgerEnvelope_def demo_decode_def demo_envelope_def demo_source_def demo_event_def)

text \<open>The ledger before and after the erasure of its content.\<close>

theorem ledger_head_commits_witness:
  "demo_source True \<noteq> demo_source False \<and> map event_row (lsEvents (demo_source True)) = map event_row (lsEvents (demo_source False))"
proof
  show "demo_source True \<noteq> demo_source False" by (simp add: demo_source_def demo_content_def)
  show "map event_row (lsEvents (demo_source True)) = map event_row (lsEvents (demo_source False))"
  proof (rule ledger_head_commits [OF _ _ _ _ demo_validated demo_validated])
    show "lvHeadHash (report_spec 1 (demo_source True)) = lvHeadHash (report_spec 1 (demo_source False))"
      by (simp add: report_spec_def demo_source_def demo_event_def)
    show "no_collision demo_sha (lsEvents (demo_source True)) (lsEvents (demo_source False))"
      by (simp add: no_collision_def demo_sha_def event_preimage_inject)
  qed (simp_all add: demo_source_def maxInt64_def)
qed

text \<open>
  a content commitment binds class, salt and bytes: the same digest for two contents
  means equal contents, unless SHA-256 collides on their unambiguous preimages; and the
  verifier accepts exactly the committed digest.
\<close>

theorem content_commitment_binds:
  assumes "length salt = 32" and "length salt' = 32"
    and "CommitContent sha256 cls salt content = Inr d" and "CommitContent sha256 cls' salt' content' = Inr d"
    and "sha256 (content_preimage cls salt content) = sha256 (content_preimage cls' salt' content') \<Longrightarrow>
      content_preimage cls salt content = content_preimage cls' salt' content'"
  shows "cls = cls' \<and> salt = salt' \<and> content = content'
    \<and> (VerifyContentCommitment sha256 cls salt content expected = ok \<longleftrightarrow> expected = d)"
proof -
  have nul: "NUL \<notin> set cls" "NUL \<notin> set cls'" and d: "sha256 (content_preimage cls salt content) = d"
    "sha256 (content_preimage cls' salt' content') = d"
    using assms(3,4) by (simp_all add: CommitContent_def split: if_splits)
  have "cls = cls' \<and> salt = salt' \<and> content = content'"
    using assms(5) content_preimage_inject [OF nul assms(1,2)] unfolding d by blast
  moreover have "VerifyContentCommitment sha256 cls salt content expected = ok \<longleftrightarrow> expected = d"
    unfolding VerifyContentCommitment_def assms(3) by simp
  ultimately show ?thesis by blast
qed

theorem content_commitment_binds_witness:
  "\<exists>d. CommitContent demo_sha ''note'' zeroSalt ''tea'' = Inr d
     \<and> VerifyContentCommitment demo_sha ''note'' zeroSalt ''tea'' d = ok"
proof -
  have c: "CommitContent demo_sha ''note'' zeroSalt ''tea'' = Inr (demo_sha (content_preimage ''note'' zeroSalt ''tea''))"
    by (simp add: CommitContent_def byte_def)
  have "length zeroSalt = 32" by (simp add: zeroSalt_def)
  from content_commitment_binds [OF this this c c] c show ?thesis by blast
qed

section \<open>Writer\<close>

text \<open>
  C3: over any run of requests, whatever the clock, the identifiers and the backend do, the
  metadata the writer commits carry consecutive sequence numbers after its head and
  strictly increasing instants after the head's.
\<close>

theorem writer_monotone:
  assumes "head_ok (wcHead w)" and "\<forall>(env, name, scope, command)\<in>set requests. int64 (envNow env)"
    and "snd (run_requests known w requests) = ms"
  shows "map MetaCommitSeq ms = map (\<lambda>k. head_seq (wcHead w) + 1 + int k) [0..<length ms]
    \<and> sorted_wrt (<) (map MetaCommittedAt ms)
    \<and> (Exists (wcHead w) \<longrightarrow> (\<forall>m\<in>set ms. HeadCommittedAt (wcHead w) < MetaCommittedAt m))"
  using run_requests_after_head [OF assms(1,2), of known] assms(3) by (simp add: after_head_def)

definition demo_uow :: "CommitMetadata \<Rightarrow> CanonicalUoW" where
  "demo_uow m = \<lparr>uowMetadata = m, uowCommit = Returned ok, uowRollback = ok\<rparr>"

definition demo_env :: "ID \<Rightarrow> Instant \<Rightarrow> ExecEnv" where
  "demo_env i now = \<lparr>envCtxErr = None, envNewID = Inr i, envNow = now, envBegin = (\<lambda>m. Inr (Some (demo_uow m)))\<rparr>"

definition demo_command :: Command where
  "demo_command = \<lparr>cmdName = ''note'', cmdScope = Some 1, cmdValidate = ok, cmdExecute = Returned (Inr ''done''),
     cmdExecuteValue = ''''\<rparr>"

definition demo_writer :: WriterCore where
  "demo_writer = \<lparr>wcHead = \<lparr>Exists = True, HeadCommitSeq = 4, HeadCommittedAt = 1000\<rparr>, wcPoisoned = None,
     wcTimezone = ''UTC''\<rparr>"

lemma demo_writer_ok: "head_ok (wcHead demo_writer)"
  by (simp add: head_ok_def demo_writer_def Head_Validate_def int64_def)

theorem writer_monotone_witness:
  "map MetaCommitSeq (snd (run_requests (\<lambda>tz. True) demo_writer
      [(demo_env 8 900, ''note'', Some 1, demo_command), (demo_env 9 2000, ''note'', Some 1, demo_command)]))
   = map (\<lambda>k. 5 + int k) [0..<length (snd (run_requests (\<lambda>tz. True) demo_writer
      [(demo_env 8 900, ''note'', Some 1, demo_command), (demo_env 9 2000, ''note'', Some 1, demo_command)]))]"
proof -
  let ?rs = "[(demo_env 8 900, ''note'', Some 1, demo_command), (demo_env 9 2000, ''note'', Some 1, demo_command)]"
  have "\<forall>(env, name, scope, command)\<in>set ?rs. int64 (envNow env)"
    by (simp add: demo_env_def int64_def)
  from writer_monotone [OF demo_writer_ok this refl, of "\<lambda>tz. True"] show ?thesis
    by (simp add: demo_writer_def head_seq_def)
qed

text \<open>
  C4: every execution ends in one of five ways: nothing was begun; the backend refused;
  the command committed under exactly the allocated metadata and the head moved to it; the
  unit of work was rolled back with the head unchanged; or the commit is ambiguous, and
  then the writer is poisoned. A success without commit metadata leaves the writer as it was.
\<close>

theorem execute_outcomes:
  assumes "execute known w env name scope command = (w', calls, r)"
  shows "(w' = w \<and> calls = [] \<and> (\<exists>e. r = Inl e))
    \<or> (\<exists>m. nextMetadata (wcHead w) (wcTimezone w) (envNewID env) (envNow env) scope = Inr m
        \<and> CommitMetadata_Validate known m = ok
        \<and> (calls = [CallBegin m] \<and> wcHead w' = wcHead w \<and> (\<exists>e. r = Inl e)
           \<or> calls = [CallBegin m, CallCommit] \<and> w' = w\<lparr>wcHead := head_of m\<rparr>
               \<and> (\<exists>v. r = Inr \<lparr>crCommit = Some m, crValue = v\<rparr>)
           \<or> calls = [CallBegin m, CallRollback] \<and> wcHead w' = wcHead w
               \<and> (\<forall>c. r = Inr c \<longrightarrow> crCommit c = None \<and> w' = w)
           \<or> (\<exists>later. calls = CallBegin m # CallCommit # later) \<and> wcHead w' = wcHead w \<and> wcPoisoned w' \<noteq> None
               \<and> (\<exists>e. r = Inl e)))"
  using execute_cases [of w known env name scope command] unfolding assms
  by (auto simp: not_begun_def begin_failed_def committed_def rolled_back_def commit_ambiguous_def)

theorem execute_outcomes_witness:
  "\<exists>w' calls r. execute (\<lambda>tz. True) demo_writer (demo_env 8 900) ''note'' (Some 1) demo_command = (w', calls, r)
     \<and> (wcPoisoned w' = None \<longrightarrow> length calls \<le> 2)"
proof -
  obtain w' calls r where x: "execute (\<lambda>tz. True) demo_writer (demo_env 8 900) ''note'' (Some 1) demo_command = (w', calls, r)"
    by (cases "execute (\<lambda>tz. True) demo_writer (demo_env 8 900) ''note'' (Some 1) demo_command") auto
  from execute_outcomes [OF x] x show ?thesis by fastforce
qed

text \<open>
  a poisoned writer never calls the backend again and never leaves the poisoned state.
\<close>

theorem poisoned_writer_stops:
  assumes "wcPoisoned w \<noteq> None"
  shows "run_requests known w requests = (w, [])
    \<and> execute known w env name scope command = (w, [], Inl ErrWriterPoisoned)"
  using run_poisoned [OF assms] assms by (auto simp: execute_def poisonError_def)

theorem poisoned_writer_stops_witness:
  "execute (\<lambda>tz. True) (poison demo_writer ErrNoMutation) (demo_env 8 900) ''note'' (Some 1) demo_command
     = (poison demo_writer ErrNoMutation, [], Inl ErrWriterPoisoned)"
  using poisoned_writer_stops [of "poison demo_writer ErrNoMutation"] by simp

section \<open>Activity registry\<close>

text \<open>
  C8: in every reachable registry, \<^verbatim>\<open>requireExclusive\<close> accepts a token exactly when it holds
  the uncontended fence of the resident in flight; then no other activity of that resident
  exists and every admission for it is refused.
\<close>

theorem fence_exclusive:
  assumes "length ops < 2 ^ 64" and "\<forall>act\<in>set ops. op_valid act"
    and "registry = run_ops (newActivityRegistry self) ops"
  shows "(requireExclusive registry token r = ok \<longleftrightarrow> holds_fence registry token r)
    \<and> (requireExclusive registry token r = ok \<longrightarrow>
         admit registry (Some r) fence = (registry, Inl ErrResidentAdmissionClosed)
         \<and> (\<forall>s e. map_of (arEntries registry) s = Some e \<longrightarrow> aeResidentID e = r \<longrightarrow> s = atSequence token))"
proof -
  have inv: "registry_inv (length ops) registry"
    using run_ops_inv [OF new_inv, of ops self] assms by simp
  have "s = atSequence token" if h: "holds_fence registry token r" and
    "map_of (arEntries registry) s = Some e" "aeResidentID e = r" for s e
  proof -
    obtain f where "map_of (arEntries registry) (atSequence token) = Some f" "aeResidentID f = r" "aeFence f" "\<not> aeContended f"
      using h unfolding holds_fence_def by blast
    then show ?thesis using registry_invD(8) [OF inv, of "atSequence token" f s e] that by simp
  qed
  then show ?thesis
    using requireExclusive_iff [OF inv, of token r] holds_fence_closed [OF inv] by blast
qed

text \<open>
  exclusivity lasts: once granted it holds after any further operations until the
  holder's own token is finished.
\<close>

theorem fence_stable:
  assumes "length ops + length later < 2 ^ 64" and "\<forall>act\<in>set (ops @ later). op_valid act"
    and "requireExclusive (run_ops (newActivityRegistry self) ops) token r = ok"
    and "\<forall>act\<in>set later. \<not> ends token act"
  shows "requireExclusive (run_ops (newActivityRegistry self) (ops @ later)) token r = ok"
proof -
  let ?reg = "run_ops (newActivityRegistry self) ops"
  have inv: "registry_inv (length ops) ?reg"
    using run_ops_inv [OF new_inv, of ops self] assms(1,2) by simp
  have split: "run_ops (newActivityRegistry self) (ops @ later) = run_ops ?reg later"
    by (simp add: run_ops_def)
  have inv': "registry_inv (length ops + length later) (run_ops ?reg later)"
    using run_ops_inv [OF inv, of later] assms(1,2) by simp
  have "holds_fence (run_ops ?reg later) token r"
    using holds_fence_run [OF inv, of later] assms requireExclusive_iff [OF inv] by simp
  then show ?thesis
    unfolding split using requireExclusive_iff [OF inv'] by blast
qed

definition demo_token :: ActivityToken where
  "demo_token = \<lparr>atRegistry = Some 0, atSequence = 1, atResidentID = 9\<rparr>"

definition demo_ops :: "activity_op list" where
  "demo_ops = [OpAdmit (Some 9) True, OpTransition demo_token activityQueued, OpTransition demo_token activityInFlight]"

lemma demo_ops_valid: "\<forall>act\<in>set (demo_ops @ [OpAdmit (Some 9) False]). op_valid act"
  by (simp add: demo_ops_def)

lemma demo_exclusive: "requireExclusive (run_ops (newActivityRegistry 0) demo_ops) demo_token 9 = ok"
  by (simp add: demo_ops_def run_ops_def newActivityRegistry_def admit_def transition_def requireExclusive_def demo_token_def
      ActivityToken_Valid_def ID_Validate_def ID_IsZero_def)

theorem fence_exclusive_witness:
  "admit (run_ops (newActivityRegistry 0) demo_ops) (Some 9) False =
     (run_ops (newActivityRegistry 0) demo_ops, Inl ErrResidentAdmissionClosed)"
  using fence_exclusive [of demo_ops "run_ops (newActivityRegistry 0) demo_ops" 0 demo_token 9 False] demo_exclusive demo_ops_valid
  by (simp add: demo_ops_def)

theorem fence_stable_witness:
  "requireExclusive (run_ops (newActivityRegistry 0) (demo_ops @ [OpAdmit (Some 9) False])) demo_token 9 = ok"
  by (rule fence_stable) (use demo_exclusive demo_ops_valid in \<open>simp_all add: demo_ops_def\<close>)

section \<open>Writer protocol\<close>

text \<open>
  C5: under every interleaving of submissions, run loop, pause and close, the writer never
  panics, the slots never exceed the queue's capacity, the queue holds each waiting
  request once, and the admission count is the number of submissions on their way in plus
  the requests that are queued or being handled.
\<close>

theorem protocol_safe:
  assumes "reachable capacity n s"
  shows "\<not> psPanic s \<and> psSlots s \<le> int capacity \<and> length (psQueue s) \<le> capacity \<and> distinct (psQueue s)
    \<and> (\<forall>i. i \<in> set (psQueue s) \<longleftrightarrow> i < length (psReq s) \<and> psReq s ! i = RQueued)
    \<and> psActive s = count_in admitted_phases (psPhase s) + count_in {RQueued, RHandling} (psReq s)"
proof -
  have c: "counters_ok capacity s" and q: "queue_ok s"
    using reachable_inv [OF assms] by (simp_all add: protocol_inv_def)
  have "int (length (psQueue s)) \<le> int capacity"
    using counters_okD(3,4) [OF c] count_in_nonneg [of "{PSlot}" "psPhase s"] by linarith
  with q counters_okD(1,4,8) [OF c] show ?thesis
    by (simp add: queue_ok_def)
qed

lemma run_reachable: "reachable capacity n s \<Longrightarrow> fire_all capacity acts s = Some s' \<Longrightarrow> reachable capacity n s'"
  by (induction acts arbitrary: s) (auto split: option.splits intro: reachable.step)

theorem protocol_safe_witness:
  "\<exists>s. fire_all 1 [Begin 0, AdmitOK 0, Reserve 0, AcquireSlot 0, Send 0] (OpenWriter 2) = Some s
     \<and> psQueue s = [0] \<and> \<not> psPanic s"
proof -
  obtain s where s: "fire_all 1 [Begin 0, AdmitOK 0, Reserve 0, AcquireSlot 0, Send 0] (OpenWriter 2) = Some s" "psQueue s = [0]"
    by (simp add: OpenWriter_def protocol_ops)
  with protocol_safe [OF run_reachable [OF reachable.opened s(1)]] show ?thesis by blast
qed

text \<open>
  C7: take any call of \<^verbatim>\<open>PauseAdmissions\<close>, whether it returns at once or waits for the drain, and any
  further steps among which nobody resumes. Once the call has returned successfully, the fence is closed,
  nothing is admitted, queued or handled, and this stays so. No wake-up is lost: a call that still waits
  when nothing is admitted any more can return successfully. (When somebody resumes before a waiting call
  has woken up, it still returns successfully: \<open>pause_overtaken\<close> below.)
\<close>

theorem pause_quiet:
  assumes "reachable capacity n s" and "fire capacity Pause s = Some s1"
    and "fire_all capacity acts s1 = Some s'" and "Resume \<notin> set acts"
  shows "(psPausers s' ! length (psPausers s) = PauseSucceeded \<longrightarrow>
        AdmissionsPaused s' \<and> psActive s' = 0 \<and> psQueue s' = [] \<and> psCurrent s' = None
        \<and> (\<forall>p\<in>set (psPhase s'). p \<notin> admitted_phases))
    \<and> (psActive s' = 0 \<and> psPausers s' ! length (psPausers s) \<notin> {PauseSucceeded, PauseCancelled} \<longrightarrow>
        (\<exists>s''. fire capacity (PauseReturn (length (psPausers s))) s' = Some s'' \<and> psPausers s'' ! length (psPausers s) = PauseSucceeded))"
proof -
  let ?k = "length (psPausers s)"
  note inv = reachable_inv [OF assms(1)] and ok = reachable_pausers [OF assms(1)]
  from pausing_run [OF fire_inv [OF inv assms(2)] pausers_step [OF inv ok assms(2)] pausing_starts [OF inv assms(2)] assms(3,4)]
  have p: "pausing ?k s'" and ok': "pausers_ok s'" and inv': "protocol_inv capacity s'" by blast+
  have c: "counters_ok capacity s'" using inv' by (simp add: protocol_inv_def)
  have quiet: "AdmissionsPaused s' \<and> psActive s' = 0 \<and> psQueue s' = [] \<and> psCurrent s' = None
      \<and> (\<forall>p\<in>set (psPhase s'). p \<notin> admitted_phases)" if "psPausers s' ! ?k = PauseSucceeded"
  proof -
    have "\<not> psOpen s'" and zero: "psActive s' = 0" using p that by (simp_all add: pausing_def)
    with quiet_queue [OF inv' zero] quiet_idle(1) [OF inv' zero] show ?thesis by (simp add: AdmissionsPaused_def)
  qed
  have wakes: "\<exists>s''. fire capacity (PauseReturn ?k) s' = Some s'' \<and> psPausers s'' ! ?k = PauseSucceeded"
    if zero: "psActive s' = 0" and wait: "psPausers s' ! ?k \<notin> {PauseSucceeded, PauseCancelled}"
  proof -
    obtain channel where "psPausers s' ! ?k = PauseWaits channel" using wait by (cases "psPausers s' ! ?k") auto
    with pause_can_return [OF c ok' _ _ zero] p show ?thesis by (auto simp: pausing_def)
  qed
  show ?thesis using quiet wakes by blast
qed

text \<open>A pause called while a submission is on its way in: it waits until the submission has left.\<close>

theorem pause_quiet_witness:
  "\<exists>s s1 s'. fire_all 1 [Begin 0] (OpenWriter 2) = Some s \<and> fire 1 Pause s = Some s1 \<and> psPausers s1 = [PauseWaits 0]
     \<and> fire_all 1 [AdmitFails 0, Leave 0, Begin 1, PauseReturn 0] s1 = Some s' \<and> psPausers s' = [PauseSucceeded]
     \<and> AdmissionsPaused s' \<and> psActive s' = 0 \<and> psQueue s' = []"
proof -
  obtain s where s: "fire_all 1 [Begin 0] (OpenWriter 2) = Some s" by (simp add: OpenWriter_def protocol_ops)
  obtain s1 where s1: "fire 1 Pause s = Some s1" "psPausers s1 = [PauseWaits 0]" "psPausers s = []"
    using s by (auto simp: OpenWriter_def protocol_ops)
  obtain s' where s': "fire_all 1 [AdmitFails 0, Leave 0, Begin 1, PauseReturn 0] s1 = Some s'" "psPausers s' = [PauseSucceeded]"
    using s s1(1) by (auto simp: OpenWriter_def protocol_ops)
  from pause_quiet [OF run_reachable [OF reachable.opened s] s1(1) s'(1)] s'(2) s1(3)
  have "AdmissionsPaused s' \<and> psActive s' = 0 \<and> psQueue s' = []" by simp
  with s s1 s' show ?thesis by blast
qed

text \<open>
  The condition on \<^verbatim>\<open>ResumeAdmissions\<close> is needed: the drain channel closes, another call resumes (which
  \<^verbatim>\<open>ResumeAdmissions\<close> allows, nothing being admitted) and a submission is admitted before the waiting
  call is scheduled; the call then returns successfully over an open fence with a command in flight.
\<close>

lemma pause_overtaken:
  "\<exists>s. fire_all 1 [Begin 0, Pause, AdmitFails 0, Leave 0, Resume, Begin 1, PauseReturn 0] (OpenWriter 2) = Some s
     \<and> psPausers s = [PauseSucceeded] \<and> \<not> AdmissionsPaused s \<and> psActive s = 1"
  by (simp add: OpenWriter_def protocol_ops AdmissionsPaused_def)

text \<open>
  C6: after \<^verbatim>\<open>Close\<close> the run loop always gets to its end by its own steps and those of the
  submissions that had reserved a place; there every accepted request has been handled,
  nothing can be enqueued any more, and no later step changes the fate of a request.
\<close>

theorem close_drains:
  assumes "reachable capacity n s" and "0 < capacity"
  shows "\<exists>acts s'. (\<forall>act\<in>set acts. draining act) \<and> fire_all capacity acts (Writer_Close s) = Some s'
    \<and> psLoop s' = LStopped \<and> \<not> psPanic s' \<and> \<not> psAccept s'
    \<and> (\<forall>r\<in>set (psReq s'). r \<notin> {RQueued, RHandling})
    \<and> (\<forall>act s''. fire capacity act s' = Some s'' \<longrightarrow> psLoop s'' = LStopped \<and> psReq s'' = psReq s')"
proof -
  have inv: "protocol_inv capacity (Writer_Close s)"
    using fire_inv [OF reachable_inv [OF assms(1)], of Close "Writer_Close s"] by simp
  have "psStop (Writer_Close s)"
    by (simp add: Writer_Close_def Let_def)
  from drains_to_stop [OF inv assms(2) this] obtain acts s' where
    run: "\<forall>act\<in>set acts. draining act" "fire_all capacity acts (Writer_Close s) = Some s'" "psLoop s' = LStopped"
    by blast
  note inv' = fire_all_inv [OF inv run(2)]
  have "\<not> psPanic s'"
    using inv' unfolding protocol_inv_def by (blast dest: counters_okD(8))
  with run stopped_idle(2,3) [OF inv' run(3)] stopped_step [OF inv' run(3)] show ?thesis
    by (intro exI [of _ acts] exI [of _ s']) blast
qed

theorem close_drains_witness:
  "\<exists>acts s'. fire_all 1 acts (Writer_Close (OpenWriter 2)) = Some s' \<and> psLoop s' = LStopped"
  using close_drains [OF reachable.opened [of 1 2]] by auto

end
