(* ===== verification/Memory_Types.thy ===== *)
theory Memory_Types
  imports Canonical_Types
begin

text \<open>
  The closed vocabularies of \<^verbatim>\<open>internal/memory/types.go\<close>. A Go string enumeration can hold
  any text, so each datatype has the source's constants and one constructor for every other
  text; \<^verbatim>\<open>Validate\<close> rejects exactly the latter. \<open><Type>_of\<close> is the conversion of a stored
  text, so that a validated conversion is membership in the vocabulary.
\<close>

datatype memory_error =
    ErrInvalidPolicy string
  | ErrUnsupportedPolicy string
  | ErrFeatureDisabled
  | ErrInvalidEvidence string
  | ErrInvalidMaturation string
  | ErrInvalidSalience string
  | ErrInvalidTemporal string
  | ErrInvalidRecall string
  | ErrInvalidPersona string
  | ErrInvalidExtraction string
  | ErrInvalidAlignment string
  | EnumError string string
  | MemoryError string

definition enumError :: "string \<Rightarrow> string \<Rightarrow> memory_error" where
  "enumError kind value = EnumError kind value"

definition fixedPointScale :: int where
  "fixedPointScale = FixedPointScale"

lemma fixedPointScale_val [simp]: "fixedPointScale = 1000000"
  by (simp add: fixedPointScale_def FixedPointScale_def)

section \<open>PolicyVersion\<close>

datatype PolicyVersion =
    PolicyVersionV1
  | PolicyVersionV2
  | PolicyVersionV3
  | PolicyVersionV4
  | PolicyVersionV5
  | UnknownPolicyVersion string

definition PolicyVersion_Validate :: "PolicyVersion \<Rightarrow> (memory_error, unit) result" where
  "PolicyVersion_Validate value =
     (case value of
        PolicyVersionV1 \<Rightarrow> ok
      | PolicyVersionV2 \<Rightarrow> ok
      | PolicyVersionV3 \<Rightarrow> ok
      | PolicyVersionV4 \<Rightarrow> ok
      | PolicyVersionV5 \<Rightarrow> ok
      | UnknownPolicyVersion s \<Rightarrow> Inl (enumError ''policy version'' s))"

definition PolicyVersion_of :: "string \<Rightarrow> PolicyVersion" where
  "PolicyVersion_of s =
     (if s = ''memory-policy-v1'' then PolicyVersionV1
      else if s = ''memory-policy-v2'' then PolicyVersionV2
      else if s = ''memory-policy-v3'' then PolicyVersionV3
      else if s = ''memory-policy-v4'' then PolicyVersionV4
      else if s = ''memory-policy-v5'' then PolicyVersionV5
      else UnknownPolicyVersion s)"

lemma PolicyVersion_Validate_ok [simp]: "PolicyVersion_Validate v = Inr u \<longleftrightarrow> (\<forall>s. v \<noteq> UnknownPolicyVersion s)"
  by (cases v) (auto simp: PolicyVersion_Validate_def)

section \<open>EventType\<close>

datatype EventType =
    EventUserMessage
  | EventSelfTalk
  | EventResidentMessage
  | EventOutboundInitiative
  | UnknownEventType string

definition EventType_Validate :: "EventType \<Rightarrow> (memory_error, unit) result" where
  "EventType_Validate value =
     (case value of
        EventUserMessage \<Rightarrow> ok
      | EventSelfTalk \<Rightarrow> ok
      | EventResidentMessage \<Rightarrow> ok
      | EventOutboundInitiative \<Rightarrow> ok
      | UnknownEventType s \<Rightarrow> Inl (enumError ''event type'' s))"

definition EventType_of :: "string \<Rightarrow> EventType" where
  "EventType_of s =
     (if s = ''user_message'' then EventUserMessage
      else if s = ''self_talk'' then EventSelfTalk
      else if s = ''resident_message'' then EventResidentMessage
      else if s = ''outbound_initiative'' then EventOutboundInitiative
      else UnknownEventType s)"

lemma EventType_Validate_ok [simp]: "EventType_Validate v = Inr u \<longleftrightarrow> (\<forall>s. v \<noteq> UnknownEventType s)"
  by (cases v) (auto simp: EventType_Validate_def)

section \<open>EvidenceGrade\<close>

datatype EvidenceGrade =
    GradeStated
  | GradeObserved
  | GradeInferred
  | UnknownEvidenceGrade string

definition EvidenceGrade_Validate :: "EvidenceGrade \<Rightarrow> (memory_error, unit) result" where
  "EvidenceGrade_Validate value =
     (case value of
        GradeStated \<Rightarrow> ok
      | GradeObserved \<Rightarrow> ok
      | GradeInferred \<Rightarrow> ok
      | UnknownEvidenceGrade s \<Rightarrow> Inl (enumError ''evidence grade'' s))"

definition EvidenceGrade_of :: "string \<Rightarrow> EvidenceGrade" where
  "EvidenceGrade_of s =
     (if s = ''stated'' then GradeStated
      else if s = ''observed'' then GradeObserved
      else if s = ''inferred'' then GradeInferred
      else UnknownEvidenceGrade s)"

lemma EvidenceGrade_Validate_ok [simp]: "EvidenceGrade_Validate v = Inr u \<longleftrightarrow> (\<forall>s. v \<noteq> UnknownEvidenceGrade s)"
  by (cases v) (auto simp: EvidenceGrade_Validate_def)

section \<open>EvidencePolarity\<close>

datatype EvidencePolarity =
    PolaritySupport
  | PolarityContradict
  | UnknownEvidencePolarity string

definition EvidencePolarity_Validate :: "EvidencePolarity \<Rightarrow> (memory_error, unit) result" where
  "EvidencePolarity_Validate value =
     (case value of
        PolaritySupport \<Rightarrow> ok
      | PolarityContradict \<Rightarrow> ok
      | UnknownEvidencePolarity s \<Rightarrow> Inl (enumError ''evidence polarity'' s))"

definition EvidencePolarity_of :: "string \<Rightarrow> EvidencePolarity" where
  "EvidencePolarity_of s =
     (if s = ''support'' then PolaritySupport
      else if s = ''contradict'' then PolarityContradict
      else UnknownEvidencePolarity s)"

lemma EvidencePolarity_Validate_ok [simp]: "EvidencePolarity_Validate v = Inr u \<longleftrightarrow> (\<forall>s. v \<noteq> UnknownEvidencePolarity s)"
  by (cases v) (auto simp: EvidencePolarity_Validate_def)

section \<open>TrustLevel\<close>

datatype TrustLevel =
    TrustTrusted
  | TrustUntrusted
  | UnknownTrustLevel string

definition TrustLevel_Validate :: "TrustLevel \<Rightarrow> (memory_error, unit) result" where
  "TrustLevel_Validate value =
     (case value of
        TrustTrusted \<Rightarrow> ok
      | TrustUntrusted \<Rightarrow> ok
      | UnknownTrustLevel s \<Rightarrow> Inl (enumError ''trust level'' s))"

definition TrustLevel_of :: "string \<Rightarrow> TrustLevel" where
  "TrustLevel_of s =
     (if s = ''trusted'' then TrustTrusted
      else if s = ''untrusted'' then TrustUntrusted
      else UnknownTrustLevel s)"

lemma TrustLevel_Validate_ok [simp]: "TrustLevel_Validate v = Inr u \<longleftrightarrow> (\<forall>s. v \<noteq> UnknownTrustLevel s)"
  by (cases v) (auto simp: TrustLevel_Validate_def)

section \<open>EvidenceDerivation\<close>

datatype EvidenceDerivation =
    DerivationExtracted
  | DerivationInherited
  | UnknownEvidenceDerivation string

definition EvidenceDerivation_Validate :: "EvidenceDerivation \<Rightarrow> (memory_error, unit) result" where
  "EvidenceDerivation_Validate value =
     (case value of
        DerivationExtracted \<Rightarrow> ok
      | DerivationInherited \<Rightarrow> ok
      | UnknownEvidenceDerivation s \<Rightarrow> Inl (enumError ''evidence derivation'' s))"

definition EvidenceDerivation_of :: "string \<Rightarrow> EvidenceDerivation" where
  "EvidenceDerivation_of s =
     (if s = ''extracted'' then DerivationExtracted
      else if s = ''inherited'' then DerivationInherited
      else UnknownEvidenceDerivation s)"

lemma EvidenceDerivation_Validate_ok [simp]: "EvidenceDerivation_Validate v = Inr u \<longleftrightarrow> (\<forall>s. v \<noteq> UnknownEvidenceDerivation s)"
  by (cases v) (auto simp: EvidenceDerivation_Validate_def)

section \<open>ClaimKind\<close>

datatype ClaimKind =
    ClaimKindUnclassified
  | ClaimKindDirect
  | ClaimKindOther
  | ClaimKindMeta
  | UnknownClaimKind string

definition ClaimKind_Validate :: "ClaimKind \<Rightarrow> (memory_error, unit) result" where
  "ClaimKind_Validate value =
     (case value of
        ClaimKindUnclassified \<Rightarrow> ok
      | ClaimKindDirect \<Rightarrow> ok
      | ClaimKindOther \<Rightarrow> ok
      | ClaimKindMeta \<Rightarrow> ok
      | UnknownClaimKind s \<Rightarrow> Inl (enumError ''claim kind'' s))"

definition ClaimKind_of :: "string \<Rightarrow> ClaimKind" where
  "ClaimKind_of s =
     (if s = '''' then ClaimKindUnclassified
      else if s = ''direct'' then ClaimKindDirect
      else if s = ''other'' then ClaimKindOther
      else if s = ''meta'' then ClaimKindMeta
      else UnknownClaimKind s)"

lemma ClaimKind_Validate_ok [simp]: "ClaimKind_Validate v = Inr u \<longleftrightarrow> (\<forall>s. v \<noteq> UnknownClaimKind s)"
  by (cases v) (auto simp: ClaimKind_Validate_def)

section \<open>ClaimStage\<close>

datatype ClaimStage =
    StageFloating
  | StageSediment
  | StageSettled
  | UnknownClaimStage string

definition ClaimStage_Validate :: "ClaimStage \<Rightarrow> (memory_error, unit) result" where
  "ClaimStage_Validate value =
     (case value of
        StageFloating \<Rightarrow> ok
      | StageSediment \<Rightarrow> ok
      | StageSettled \<Rightarrow> ok
      | UnknownClaimStage s \<Rightarrow> Inl (enumError ''claim stage'' s))"

definition ClaimStage_of :: "string \<Rightarrow> ClaimStage" where
  "ClaimStage_of s =
     (if s = ''floating'' then StageFloating
      else if s = ''sediment'' then StageSediment
      else if s = ''settled'' then StageSettled
      else UnknownClaimStage s)"

lemma ClaimStage_Validate_ok [simp]: "ClaimStage_Validate v = Inr u \<longleftrightarrow> (\<forall>s. v \<noteq> UnknownClaimStage s)"
  by (cases v) (auto simp: ClaimStage_Validate_def)

section \<open>ClaimStatus\<close>

datatype ClaimStatus =
    StatusActive
  | StatusInvalidated
  | StatusSuperseded
  | StatusQuarantined
  | UnknownClaimStatus string

definition ClaimStatus_Validate :: "ClaimStatus \<Rightarrow> (memory_error, unit) result" where
  "ClaimStatus_Validate value =
     (case value of
        StatusActive \<Rightarrow> ok
      | StatusInvalidated \<Rightarrow> ok
      | StatusSuperseded \<Rightarrow> ok
      | StatusQuarantined \<Rightarrow> ok
      | UnknownClaimStatus s \<Rightarrow> Inl (enumError ''claim status'' s))"

definition ClaimStatus_of :: "string \<Rightarrow> ClaimStatus" where
  "ClaimStatus_of s =
     (if s = ''active'' then StatusActive
      else if s = ''invalidated'' then StatusInvalidated
      else if s = ''superseded'' then StatusSuperseded
      else if s = ''quarantined'' then StatusQuarantined
      else UnknownClaimStatus s)"

lemma ClaimStatus_Validate_ok [simp]: "ClaimStatus_Validate v = Inr u \<longleftrightarrow> (\<forall>s. v \<noteq> UnknownClaimStatus s)"
  by (cases v) (auto simp: ClaimStatus_Validate_def)

section \<open>TemporalKind\<close>

datatype TemporalKind =
    TemporalStable
  | TemporalVolatile
  | TemporalEpisodic
  | UnknownTemporalKind string

definition TemporalKind_Validate :: "TemporalKind \<Rightarrow> (memory_error, unit) result" where
  "TemporalKind_Validate value =
     (case value of
        TemporalStable \<Rightarrow> ok
      | TemporalVolatile \<Rightarrow> ok
      | TemporalEpisodic \<Rightarrow> ok
      | UnknownTemporalKind s \<Rightarrow> Inl (enumError ''temporal kind'' s))"

definition TemporalKind_of :: "string \<Rightarrow> TemporalKind" where
  "TemporalKind_of s =
     (if s = ''stable'' then TemporalStable
      else if s = ''volatile'' then TemporalVolatile
      else if s = ''episodic'' then TemporalEpisodic
      else UnknownTemporalKind s)"

lemma TemporalKind_Validate_ok [simp]: "TemporalKind_Validate v = Inr u \<longleftrightarrow> (\<forall>s. v \<noteq> UnknownTemporalKind s)"
  by (cases v) (auto simp: TemporalKind_Validate_def)

section \<open>TemporalRelation\<close>

datatype TemporalRelation =
    RelationFuture
  | RelationCurrent
  | RelationPast
  | RelationStaleUnknown
  | UnknownTemporalRelation string

definition TemporalRelation_Validate :: "TemporalRelation \<Rightarrow> (memory_error, unit) result" where
  "TemporalRelation_Validate value =
     (case value of
        RelationFuture \<Rightarrow> ok
      | RelationCurrent \<Rightarrow> ok
      | RelationPast \<Rightarrow> ok
      | RelationStaleUnknown \<Rightarrow> ok
      | UnknownTemporalRelation s \<Rightarrow> Inl (enumError ''temporal relation'' s))"

definition TemporalRelation_of :: "string \<Rightarrow> TemporalRelation" where
  "TemporalRelation_of s =
     (if s = ''future'' then RelationFuture
      else if s = ''current'' then RelationCurrent
      else if s = ''past'' then RelationPast
      else if s = ''stale_unknown'' then RelationStaleUnknown
      else UnknownTemporalRelation s)"

lemma TemporalRelation_Validate_ok [simp]: "TemporalRelation_Validate v = Inr u \<longleftrightarrow> (\<forall>s. v \<noteq> UnknownTemporalRelation s)"
  by (cases v) (auto simp: TemporalRelation_Validate_def)

section \<open>ViewScope\<close>

datatype ViewScope =
    ScopeResidentUI
  | ScopeAdminOnly
  | UnknownViewScope string

definition ViewScope_Validate :: "ViewScope \<Rightarrow> (memory_error, unit) result" where
  "ViewScope_Validate value =
     (case value of
        ScopeResidentUI \<Rightarrow> ok
      | ScopeAdminOnly \<Rightarrow> ok
      | UnknownViewScope s \<Rightarrow> Inl (enumError ''view scope'' s))"

definition ViewScope_of :: "string \<Rightarrow> ViewScope" where
  "ViewScope_of s =
     (if s = ''resident_ui'' then ScopeResidentUI
      else if s = ''admin_only'' then ScopeAdminOnly
      else UnknownViewScope s)"

lemma ViewScope_Validate_ok [simp]: "ViewScope_Validate v = Inr u \<longleftrightarrow> (\<forall>s. v \<noteq> UnknownViewScope s)"
  by (cases v) (auto simp: ViewScope_Validate_def)

section \<open>UsageType\<close>

datatype UsageType =
    UsageCandidate
  | UsageSelected
  | UsagePromptIncluded
  | UsageExplicitlyReferenced
  | UnknownUsageType string

definition UsageType_Validate :: "UsageType \<Rightarrow> (memory_error, unit) result" where
  "UsageType_Validate value =
     (case value of
        UsageCandidate \<Rightarrow> ok
      | UsageSelected \<Rightarrow> ok
      | UsagePromptIncluded \<Rightarrow> ok
      | UsageExplicitlyReferenced \<Rightarrow> ok
      | UnknownUsageType s \<Rightarrow> Inl (enumError ''usage type'' s))"

definition UsageType_of :: "string \<Rightarrow> UsageType" where
  "UsageType_of s =
     (if s = ''candidate'' then UsageCandidate
      else if s = ''selected'' then UsageSelected
      else if s = ''prompt_included'' then UsagePromptIncluded
      else if s = ''explicitly_referenced'' then UsageExplicitlyReferenced
      else UnknownUsageType s)"

lemma UsageType_Validate_ok [simp]: "UsageType_Validate v = Inr u \<longleftrightarrow> (\<forall>s. v \<noteq> UnknownUsageType s)"
  by (cases v) (auto simp: UsageType_Validate_def)

section \<open>RelationType\<close>

datatype RelationType =
    RelationAbstracts
  | RelationSplitFrom
  | RelationSupersedes
  | RelationContradicts
  | UnknownRelationType string

definition RelationType_Validate :: "RelationType \<Rightarrow> (memory_error, unit) result" where
  "RelationType_Validate value =
     (case value of
        RelationAbstracts \<Rightarrow> ok
      | RelationSplitFrom \<Rightarrow> ok
      | RelationSupersedes \<Rightarrow> ok
      | RelationContradicts \<Rightarrow> ok
      | UnknownRelationType s \<Rightarrow> Inl (enumError ''relation type'' s))"

definition RelationType_of :: "string \<Rightarrow> RelationType" where
  "RelationType_of s =
     (if s = ''abstracts'' then RelationAbstracts
      else if s = ''split_from'' then RelationSplitFrom
      else if s = ''supersedes'' then RelationSupersedes
      else if s = ''contradicts'' then RelationContradicts
      else UnknownRelationType s)"

lemma RelationType_Validate_ok [simp]: "RelationType_Validate v = Inr u \<longleftrightarrow> (\<forall>s. v \<noteq> UnknownRelationType s)"
  by (cases v) (auto simp: RelationType_Validate_def)

section \<open>RelationReason\<close>

datatype RelationReason =
    RelationReasonReplacementIntent
  | UnknownRelationReason string

definition RelationReason_Validate :: "RelationReason \<Rightarrow> (memory_error, unit) result" where
  "RelationReason_Validate value =
     (case value of
        RelationReasonReplacementIntent \<Rightarrow> ok
      | UnknownRelationReason s \<Rightarrow> Inl (enumError ''relation reason'' s))"

definition RelationReason_of :: "string \<Rightarrow> RelationReason" where
  "RelationReason_of s =
     (if s = ''replacement_intent'' then RelationReasonReplacementIntent
      else UnknownRelationReason s)"

lemma RelationReason_Validate_ok [simp]: "RelationReason_Validate v = Inr u \<longleftrightarrow> (\<forall>s. v \<noteq> UnknownRelationReason s)"
  by (cases v) (auto simp: RelationReason_Validate_def)

section \<open>EvidenceReason\<close>

datatype EvidenceReason =
    EvidenceReasonSourceStated
  | EvidenceReasonSourceInferred
  | EvidenceReasonInheritedAbstraction
  | EvidenceReasonInheritedSplit
  | UnknownEvidenceReason string

definition EvidenceReason_Validate :: "EvidenceReason \<Rightarrow> (memory_error, unit) result" where
  "EvidenceReason_Validate value =
     (case value of
        EvidenceReasonSourceStated \<Rightarrow> ok
      | EvidenceReasonSourceInferred \<Rightarrow> ok
      | EvidenceReasonInheritedAbstraction \<Rightarrow> ok
      | EvidenceReasonInheritedSplit \<Rightarrow> ok
      | UnknownEvidenceReason s \<Rightarrow> Inl (enumError ''evidence reason'' s))"

definition EvidenceReason_of :: "string \<Rightarrow> EvidenceReason" where
  "EvidenceReason_of s =
     (if s = ''source_stated'' then EvidenceReasonSourceStated
      else if s = ''source_inferred'' then EvidenceReasonSourceInferred
      else if s = ''inherited_abstraction'' then EvidenceReasonInheritedAbstraction
      else if s = ''inherited_split'' then EvidenceReasonInheritedSplit
      else UnknownEvidenceReason s)"

lemma EvidenceReason_Validate_ok [simp]: "EvidenceReason_Validate v = Inr u \<longleftrightarrow> (\<forall>s. v \<noteq> UnknownEvidenceReason s)"
  by (cases v) (auto simp: EvidenceReason_Validate_def)

section \<open>StageReason\<close>

datatype StageReason =
    StageReasonInitialExtraction
  | StageReasonMaturationThreshold
  | StageReasonExternalAlignment
  | UnknownStageReason string

definition StageReason_Validate :: "StageReason \<Rightarrow> (memory_error, unit) result" where
  "StageReason_Validate value =
     (case value of
        StageReasonInitialExtraction \<Rightarrow> ok
      | StageReasonMaturationThreshold \<Rightarrow> ok
      | StageReasonExternalAlignment \<Rightarrow> ok
      | UnknownStageReason s \<Rightarrow> Inl (enumError ''stage reason'' s))"

definition StageReason_of :: "string \<Rightarrow> StageReason" where
  "StageReason_of s =
     (if s = ''initial_extraction'' then StageReasonInitialExtraction
      else if s = ''maturation_threshold'' then StageReasonMaturationThreshold
      else if s = ''external_alignment'' then StageReasonExternalAlignment
      else UnknownStageReason s)"

lemma StageReason_Validate_ok [simp]: "StageReason_Validate v = Inr u \<longleftrightarrow> (\<forall>s. v \<noteq> UnknownStageReason s)"
  by (cases v) (auto simp: StageReason_Validate_def)

section \<open>AutomaticDecisionReason\<close>

datatype AutomaticDecisionReason =
    AutomaticReasonExplicitCorrection
  | AutomaticReasonExplicitSupersession
  | AutomaticReasonStructuralQuarantine
  | UnknownAutomaticDecisionReason string

definition AutomaticDecisionReason_Validate :: "AutomaticDecisionReason \<Rightarrow> (memory_error, unit) result" where
  "AutomaticDecisionReason_Validate value =
     (case value of
        AutomaticReasonExplicitCorrection \<Rightarrow> ok
      | AutomaticReasonExplicitSupersession \<Rightarrow> ok
      | AutomaticReasonStructuralQuarantine \<Rightarrow> ok
      | UnknownAutomaticDecisionReason s \<Rightarrow> Inl (enumError ''automatic decision reason'' s))"

definition AutomaticDecisionReason_of :: "string \<Rightarrow> AutomaticDecisionReason" where
  "AutomaticDecisionReason_of s =
     (if s = ''explicit_correction'' then AutomaticReasonExplicitCorrection
      else if s = ''explicit_supersession'' then AutomaticReasonExplicitSupersession
      else if s = ''structural_quarantine'' then AutomaticReasonStructuralQuarantine
      else UnknownAutomaticDecisionReason s)"

lemma AutomaticDecisionReason_Validate_ok [simp]: "AutomaticDecisionReason_Validate v = Inr u \<longleftrightarrow> (\<forall>s. v \<noteq> UnknownAutomaticDecisionReason s)"
  by (cases v) (auto simp: AutomaticDecisionReason_Validate_def)

section \<open>HumanDecisionReason\<close>

datatype HumanDecisionReason =
    HumanReasonInvalidation
  | HumanReasonSupersession
  | HumanReasonQuarantine
  | HumanReasonReactivation
  | UnknownHumanDecisionReason string

definition HumanDecisionReason_Validate :: "HumanDecisionReason \<Rightarrow> (memory_error, unit) result" where
  "HumanDecisionReason_Validate value =
     (case value of
        HumanReasonInvalidation \<Rightarrow> ok
      | HumanReasonSupersession \<Rightarrow> ok
      | HumanReasonQuarantine \<Rightarrow> ok
      | HumanReasonReactivation \<Rightarrow> ok
      | UnknownHumanDecisionReason s \<Rightarrow> Inl (enumError ''human decision reason'' s))"

definition HumanDecisionReason_of :: "string \<Rightarrow> HumanDecisionReason" where
  "HumanDecisionReason_of s =
     (if s = ''human_invalidation'' then HumanReasonInvalidation
      else if s = ''human_supersession'' then HumanReasonSupersession
      else if s = ''human_quarantine'' then HumanReasonQuarantine
      else if s = ''human_reactivation'' then HumanReasonReactivation
      else UnknownHumanDecisionReason s)"

lemma HumanDecisionReason_Validate_ok [simp]: "HumanDecisionReason_Validate v = Inr u \<longleftrightarrow> (\<forall>s. v \<noteq> UnknownHumanDecisionReason s)"
  by (cases v) (auto simp: HumanDecisionReason_Validate_def)

section \<open>RecallExclusionReason\<close>

datatype RecallExclusionReason =
    ExclusionNone
  | ExclusionProvenanceDuplicateV1
  | ExclusionProvenanceDuplicateV2
  | ExclusionTokenBudget
  | ExclusionPolicyFilter
  | UnknownRecallExclusionReason string

definition RecallExclusionReason_ValidateV1 ::
    "RecallExclusionReason \<Rightarrow> (memory_error, unit) result" where
  "RecallExclusionReason_ValidateV1 value =
     (case value of
        ExclusionProvenanceDuplicateV1 \<Rightarrow> ok
      | ExclusionTokenBudget \<Rightarrow> ok
      | ExclusionPolicyFilter \<Rightarrow> ok
      | _ \<Rightarrow> Inl (enumError ''recall exclusion reason'' ''''))"

definition RecallExclusionReason_ValidateV2 ::
    "RecallExclusionReason \<Rightarrow> (memory_error, unit) result" where
  "RecallExclusionReason_ValidateV2 value =
     (case value of
        ExclusionProvenanceDuplicateV2 \<Rightarrow> ok
      | ExclusionTokenBudget \<Rightarrow> ok
      | ExclusionPolicyFilter \<Rightarrow> ok
      | _ \<Rightarrow> Inl (enumError ''recall exclusion reason'' ''''))"

text \<open>
  A text is in the vocabulary of a claim status or stage exactly when its conversion
  validates; these two are the vocabularies the replayed transitions are checked against.
\<close>

lemma ClaimStatus_of_valid:
  "ClaimStatus_Validate (ClaimStatus_of s) = ok \<longleftrightarrow>
     s \<in> {''active'', ''invalidated'', ''superseded'', ''quarantined''}"
  by (simp add: ClaimStatus_of_def)

lemma ClaimStage_of_valid:
  "ClaimStage_Validate (ClaimStage_of s) = ok \<longleftrightarrow> s \<in> {''floating'', ''sediment'', ''settled''}"
  by (simp add: ClaimStage_of_def)

end
