(* ===== verification/Memory_Policy.thy ===== *)
theory Memory_Policy
  imports Memory_Types
begin

text \<open>
  The versioned policy contract of \<^verbatim>\<open>internal/memory/policy.go\<close>: the policy record, the
  five fixed definitions, their wire forms, and the check every evaluation starts with,
  \<^verbatim>\<open>RequireEnabled\<close>. The canonical JSON text of a wire value comes from
  \<^verbatim>\<open>encoding/json\<close> followed by the third-party JCS transformation, so it is the
  parameter \<open>jcs\<close> of the definitions; what the code needs of it is \<open>jcs_faithful\<close>.
\<close>

section \<open>The policy record\<close>

datatype DerivedScopeRule = DerivedScopeNarrowestSource | UnknownDerivedScopeRule string

definition DefinitionSchemaV0 :: string where
  "DefinitionSchemaV0 = ''mahoroba-memory-policy-v0''"

definition NormalizationVersionV1 :: string where
  "NormalizationVersionV1 = ''memory-normalization-v1''"

definition RenderingVersionV1 :: string where
  "RenderingVersionV1 = ''memory-rendering-v1''"

definition RenderingVersionV2 :: string where
  "RenderingVersionV2 = ''memory-rendering-v2''"

record EvidencePolicy =
  StatedWeight :: int
  InferredWeight :: int
  UntrustedMultiplier :: int
  ObservedEnabled :: bool
  SelfTalkForcedGrade :: EvidenceGrade

record InitialScopePolicy =
  ScopeUserMessage :: ViewScope
  ScopeSelfTalk :: ViewScope
  ScopeDerived :: DerivedScopeRule

record MaturationPolicy =
  SedimentDistinctEvents :: int
  SedimentSupportWeight :: int
  SettledDistinctEvents :: int
  SettledSupportWeight :: int
  SettledConfidence :: int
  AlignmentConfidence :: int
  MetaMinimumStage :: ClaimStage

record SaliencePolicy =
  CandidateContribution :: int
  SelectedContribution :: int
  PromptIncludedContribution :: int
  ExplicitlyReferencedContribution :: int
  HalfLifeDays :: int
  SalienceCap :: int

record TemporalPolicy =
  VolatileStaleDays :: int
  EpisodicCurrentHours :: int
  FutureCurrentness :: int
  CurrentCurrentness :: int
  PastCurrentness :: int
  StaleCurrentness :: int

record RecallPolicy =
  CandidateLimit :: int
  SelectedLimit :: int
  PromptIncludedLimit :: int
  ByteBudget :: int
  WeightContext :: int
  WeightSalience :: int
  WeightConfidence :: int
  WeightState :: int
  WeightTemporal :: int

record InheritancePolicy =
  WeightMultiplier :: int
  MaxDepth :: int
  MaxPerTarget :: int
  MaxPerSourceClaim :: int
  DedupeUnderlyingEvent :: bool

record PersonaPolicy =
  MinimumClaims :: int
  MaximumClaims :: int
  MaximumChangedBytes :: int
  MaximumChangedRatio :: int
  MaximumChangedLines :: int
  MaximumTotalBytes :: int
  ActivationCooldownHours :: int

record Policy =
  pVersion :: PolicyVersion
  pDefinitionSchema :: string
  pMandatoryEventTypes :: "EventType list"
  pMemoryRecallEnabled :: bool
  pEligibleEvidenceEventTypes :: "EventType list"
  pForbiddenEvidenceEventTypes :: "EventType list"
  pEvidence :: EvidencePolicy
  pInitialScope :: InitialScopePolicy
  pMaturation :: MaturationPolicy
  pSalience :: SaliencePolicy
  pTemporal :: TemporalPolicy
  pRecall :: RecallPolicy
  pInheritance :: InheritancePolicy
  pPersona :: PersonaPolicy
  pNormalizationVersion :: string
  pRenderingVersion :: string

section \<open>Wire forms\<close>

record policyV1Wire =
  w1MandatoryEventTypes :: "EventType list"
  w1MemoryRecallEnabled :: bool
  w1Version :: PolicyVersion

record evidencePolicyWire =
  wStatedWeight :: int
  wInferredWeight :: int
  wUntrustedMultiplier :: int
  wObservedEnabled :: bool
  wSelfTalkForcedGrade :: EvidenceGrade

record initialScopePolicyWire =
  wScopeUserMessage :: ViewScope
  wScopeSelfTalk :: ViewScope
  wScopeDerived :: DerivedScopeRule

record maturationPolicyWire =
  wSedimentDistinctEvents :: int
  wSedimentSupportWeight :: int
  wSettledDistinctEvents :: int
  wSettledSupportWeight :: int
  wSettledConfidence :: int
  wAlignmentConfidence :: int
  wMetaMinimumStage :: ClaimStage

record saliencePolicyWire =
  wCandidateContribution :: int
  wSelectedContribution :: int
  wPromptIncludedContribution :: int
  wExplicitlyReferencedContribution :: int
  wHalfLifeDays :: int
  wSalienceCap :: int

record temporalPolicyWire =
  wVolatileStaleDays :: int
  wEpisodicCurrentHours :: int
  wFutureCurrentness :: int
  wCurrentCurrentness :: int
  wPastCurrentness :: int
  wStaleCurrentness :: int

record recallPolicyWire =
  wCandidateLimit :: int
  wSelectedLimit :: int
  wPromptIncludedLimit :: int
  wByteBudget :: int
  wWeightContext :: int
  wWeightSalience :: int
  wWeightConfidence :: int
  wWeightState :: int
  wWeightTemporal :: int

record inheritancePolicyWire =
  wWeightMultiplier :: int
  wMaxDepth :: int
  wMaxPerTarget :: int
  wMaxPerSourceClaim :: int
  wDedupeUnderlyingEvent :: bool

record personaPolicyWire =
  wMinimumClaims :: int
  wMaximumClaims :: int
  wMaximumChangedBytes :: int
  wMaximumChangedRatio :: int
  wMaximumChangedLines :: int
  wMaximumTotalBytes :: int
  wActivationCooldownHours :: int

record policyV2Wire =
  w2Version :: PolicyVersion
  w2DefinitionSchema :: string
  w2MandatoryEventTypes :: "EventType list"
  w2EligibleEvidenceEventTypes :: "EventType list"
  w2ForbiddenEvidenceEventTypes :: "EventType list"
  w2Evidence :: evidencePolicyWire
  w2InitialScope :: initialScopePolicyWire
  w2Maturation :: maturationPolicyWire
  w2Salience :: saliencePolicyWire
  w2Temporal :: temporalPolicyWire
  w2Recall :: recallPolicyWire
  w2Inheritance :: inheritancePolicyWire
  w2Persona :: personaPolicyWire
  w2NormalizationVersion :: string
  w2RenderingVersion :: string

text \<open>
  Everything the package hands to the JSON encoder as a value of type \<^verbatim>\<open>any\<close>: the two
  policy wires and the two forms of a rendered claim.
\<close>

datatype Wire =
    WirePolicyV1 policyV1Wire
  | WirePolicyV2 policyV2Wire
  | WireClaimV1 string TemporalRelation string
  | WireClaimV2 string Ratio "Instant option" string TemporalRelation string

type_synonym jcs = "Wire \<Rightarrow> string option"

definition policyWireUnchecked :: "Policy \<Rightarrow> (memory_error, Wire) result" where
  "policyWireUnchecked p =
     (case pVersion p of
        PolicyVersionV1 \<Rightarrow>
          Inr (WirePolicyV1 \<lparr>w1MandatoryEventTypes = pMandatoryEventTypes p,
            w1MemoryRecallEnabled = pMemoryRecallEnabled p, w1Version = pVersion p\<rparr>)
      | UnknownPolicyVersion v \<Rightarrow> Inl (ErrUnsupportedPolicy v)
      | _ \<Rightarrow>
          Inr (WirePolicyV2 \<lparr>w2Version = pVersion p, w2DefinitionSchema = pDefinitionSchema p,
            w2MandatoryEventTypes = pMandatoryEventTypes p,
            w2EligibleEvidenceEventTypes = pEligibleEvidenceEventTypes p,
            w2ForbiddenEvidenceEventTypes = pForbiddenEvidenceEventTypes p,
            w2Evidence = \<lparr>wStatedWeight = StatedWeight (pEvidence p),
              wInferredWeight = InferredWeight (pEvidence p),
              wUntrustedMultiplier = UntrustedMultiplier (pEvidence p),
              wObservedEnabled = ObservedEnabled (pEvidence p),
              wSelfTalkForcedGrade = SelfTalkForcedGrade (pEvidence p)\<rparr>,
            w2InitialScope = \<lparr>wScopeUserMessage = ScopeUserMessage (pInitialScope p),
              wScopeSelfTalk = ScopeSelfTalk (pInitialScope p),
              wScopeDerived = ScopeDerived (pInitialScope p)\<rparr>,
            w2Maturation = \<lparr>wSedimentDistinctEvents = SedimentDistinctEvents (pMaturation p),
              wSedimentSupportWeight = SedimentSupportWeight (pMaturation p),
              wSettledDistinctEvents = SettledDistinctEvents (pMaturation p),
              wSettledSupportWeight = SettledSupportWeight (pMaturation p),
              wSettledConfidence = SettledConfidence (pMaturation p),
              wAlignmentConfidence = AlignmentConfidence (pMaturation p),
              wMetaMinimumStage = MetaMinimumStage (pMaturation p)\<rparr>,
            w2Salience = \<lparr>wCandidateContribution = CandidateContribution (pSalience p),
              wSelectedContribution = SelectedContribution (pSalience p),
              wPromptIncludedContribution = PromptIncludedContribution (pSalience p),
              wExplicitlyReferencedContribution = ExplicitlyReferencedContribution (pSalience p),
              wHalfLifeDays = HalfLifeDays (pSalience p),
              wSalienceCap = SalienceCap (pSalience p)\<rparr>,
            w2Temporal = \<lparr>wVolatileStaleDays = VolatileStaleDays (pTemporal p),
              wEpisodicCurrentHours = EpisodicCurrentHours (pTemporal p),
              wFutureCurrentness = FutureCurrentness (pTemporal p),
              wCurrentCurrentness = CurrentCurrentness (pTemporal p),
              wPastCurrentness = PastCurrentness (pTemporal p),
              wStaleCurrentness = StaleCurrentness (pTemporal p)\<rparr>,
            w2Recall = \<lparr>wCandidateLimit = CandidateLimit (pRecall p),
              wSelectedLimit = SelectedLimit (pRecall p),
              wPromptIncludedLimit = PromptIncludedLimit (pRecall p),
              wByteBudget = ByteBudget (pRecall p),
              wWeightContext = WeightContext (pRecall p),
              wWeightSalience = WeightSalience (pRecall p),
              wWeightConfidence = WeightConfidence (pRecall p),
              wWeightState = WeightState (pRecall p),
              wWeightTemporal = WeightTemporal (pRecall p)\<rparr>,
            w2Inheritance = \<lparr>wWeightMultiplier = WeightMultiplier (pInheritance p),
              wMaxDepth = MaxDepth (pInheritance p),
              wMaxPerTarget = MaxPerTarget (pInheritance p),
              wMaxPerSourceClaim = MaxPerSourceClaim (pInheritance p),
              wDedupeUnderlyingEvent = DedupeUnderlyingEvent (pInheritance p)\<rparr>,
            w2Persona = \<lparr>wMinimumClaims = MinimumClaims (pPersona p),
              wMaximumClaims = MaximumClaims (pPersona p),
              wMaximumChangedBytes = MaximumChangedBytes (pPersona p),
              wMaximumChangedRatio = MaximumChangedRatio (pPersona p),
              wMaximumChangedLines = MaximumChangedLines (pPersona p),
              wMaximumTotalBytes = MaximumTotalBytes (pPersona p),
              wActivationCooldownHours = ActivationCooldownHours (pPersona p)\<rparr>,
            w2NormalizationVersion = pNormalizationVersion p,
            w2RenderingVersion = pRenderingVersion p\<rparr>))"

definition policyWire :: "Policy \<Rightarrow> (memory_error, Wire) result" where
  "policyWire p =
     (case PolicyVersion_Validate (pVersion p) of
        Inl e \<Rightarrow> Inl (ErrUnsupportedPolicy ''version'')
      | Inr _ \<Rightarrow> policyWireUnchecked p)"

definition policyFromV2Wire :: "policyV2Wire \<Rightarrow> Policy" where
  "policyFromV2Wire w =
     \<lparr>pVersion = w2Version w, pDefinitionSchema = w2DefinitionSchema w,
      pMandatoryEventTypes = w2MandatoryEventTypes w, pMemoryRecallEnabled = True,
      pEligibleEvidenceEventTypes = w2EligibleEvidenceEventTypes w,
      pForbiddenEvidenceEventTypes = w2ForbiddenEvidenceEventTypes w,
      pEvidence = \<lparr>StatedWeight = wStatedWeight (w2Evidence w),
        InferredWeight = wInferredWeight (w2Evidence w),
        UntrustedMultiplier = wUntrustedMultiplier (w2Evidence w),
        ObservedEnabled = wObservedEnabled (w2Evidence w),
        SelfTalkForcedGrade = wSelfTalkForcedGrade (w2Evidence w)\<rparr>,
      pInitialScope = \<lparr>ScopeUserMessage = wScopeUserMessage (w2InitialScope w),
        ScopeSelfTalk = wScopeSelfTalk (w2InitialScope w),
        ScopeDerived = wScopeDerived (w2InitialScope w)\<rparr>,
      pMaturation = \<lparr>SedimentDistinctEvents = wSedimentDistinctEvents (w2Maturation w),
        SedimentSupportWeight = wSedimentSupportWeight (w2Maturation w),
        SettledDistinctEvents = wSettledDistinctEvents (w2Maturation w),
        SettledSupportWeight = wSettledSupportWeight (w2Maturation w),
        SettledConfidence = wSettledConfidence (w2Maturation w),
        AlignmentConfidence = wAlignmentConfidence (w2Maturation w),
        MetaMinimumStage = wMetaMinimumStage (w2Maturation w)\<rparr>,
      pSalience = \<lparr>CandidateContribution = wCandidateContribution (w2Salience w),
        SelectedContribution = wSelectedContribution (w2Salience w),
        PromptIncludedContribution = wPromptIncludedContribution (w2Salience w),
        ExplicitlyReferencedContribution = wExplicitlyReferencedContribution (w2Salience w),
        HalfLifeDays = wHalfLifeDays (w2Salience w),
        SalienceCap = wSalienceCap (w2Salience w)\<rparr>,
      pTemporal = \<lparr>VolatileStaleDays = wVolatileStaleDays (w2Temporal w),
        EpisodicCurrentHours = wEpisodicCurrentHours (w2Temporal w),
        FutureCurrentness = wFutureCurrentness (w2Temporal w),
        CurrentCurrentness = wCurrentCurrentness (w2Temporal w),
        PastCurrentness = wPastCurrentness (w2Temporal w),
        StaleCurrentness = wStaleCurrentness (w2Temporal w)\<rparr>,
      pRecall = \<lparr>CandidateLimit = wCandidateLimit (w2Recall w),
        SelectedLimit = wSelectedLimit (w2Recall w),
        PromptIncludedLimit = wPromptIncludedLimit (w2Recall w),
        ByteBudget = wByteBudget (w2Recall w),
        WeightContext = wWeightContext (w2Recall w),
        WeightSalience = wWeightSalience (w2Recall w),
        WeightConfidence = wWeightConfidence (w2Recall w),
        WeightState = wWeightState (w2Recall w),
        WeightTemporal = wWeightTemporal (w2Recall w)\<rparr>,
      pInheritance = \<lparr>WeightMultiplier = wWeightMultiplier (w2Inheritance w),
        MaxDepth = wMaxDepth (w2Inheritance w),
        MaxPerTarget = wMaxPerTarget (w2Inheritance w),
        MaxPerSourceClaim = wMaxPerSourceClaim (w2Inheritance w),
        DedupeUnderlyingEvent = wDedupeUnderlyingEvent (w2Inheritance w)\<rparr>,
      pPersona = \<lparr>MinimumClaims = wMinimumClaims (w2Persona w),
        MaximumClaims = wMaximumClaims (w2Persona w),
        MaximumChangedBytes = wMaximumChangedBytes (w2Persona w),
        MaximumChangedRatio = wMaximumChangedRatio (w2Persona w),
        MaximumChangedLines = wMaximumChangedLines (w2Persona w),
        MaximumTotalBytes = wMaximumTotalBytes (w2Persona w),
        ActivationCooldownHours = wActivationCooldownHours (w2Persona w)\<rparr>,
      pNormalizationVersion = w2NormalizationVersion w,
      pRenderingVersion = w2RenderingVersion w\<rparr>"

section \<open>The fixed definitions\<close>

text \<open>Go's zero value of the nested structures, which V1 leaves unset.\<close>

definition DefaultPolicyV1 :: Policy where
  "DefaultPolicyV1 =
     \<lparr>pVersion = PolicyVersionV1, pDefinitionSchema = '''', pMandatoryEventTypes = [],
      pMemoryRecallEnabled = False, pEligibleEvidenceEventTypes = [],
      pForbiddenEvidenceEventTypes = [],
      pEvidence = \<lparr>StatedWeight = 0, InferredWeight = 0, UntrustedMultiplier = 0,
        ObservedEnabled = False, SelfTalkForcedGrade = UnknownEvidenceGrade ''''\<rparr>,
      pInitialScope = \<lparr>ScopeUserMessage = UnknownViewScope '''', ScopeSelfTalk = UnknownViewScope '''',
        ScopeDerived = UnknownDerivedScopeRule ''''\<rparr>,
      pMaturation = \<lparr>SedimentDistinctEvents = 0, SedimentSupportWeight = 0, SettledDistinctEvents = 0,
        SettledSupportWeight = 0, SettledConfidence = 0, AlignmentConfidence = 0,
        MetaMinimumStage = UnknownClaimStage ''''\<rparr>,
      pSalience = \<lparr>CandidateContribution = 0, SelectedContribution = 0,
        PromptIncludedContribution = 0, ExplicitlyReferencedContribution = 0, HalfLifeDays = 0,
        SalienceCap = 0\<rparr>,
      pTemporal = \<lparr>VolatileStaleDays = 0, EpisodicCurrentHours = 0, FutureCurrentness = 0,
        CurrentCurrentness = 0, PastCurrentness = 0, StaleCurrentness = 0\<rparr>,
      pRecall = \<lparr>CandidateLimit = 0, SelectedLimit = 0, PromptIncludedLimit = 0, ByteBudget = 0,
        WeightContext = 0, WeightSalience = 0, WeightConfidence = 0, WeightState = 0,
        WeightTemporal = 0\<rparr>,
      pInheritance = \<lparr>WeightMultiplier = 0, MaxDepth = 0, MaxPerTarget = 0, MaxPerSourceClaim = 0,
        DedupeUnderlyingEvent = False\<rparr>,
      pPersona = \<lparr>MinimumClaims = 0, MaximumClaims = 0, MaximumChangedBytes = 0,
        MaximumChangedRatio = 0, MaximumChangedLines = 0, MaximumTotalBytes = 0,
        ActivationCooldownHours = 0\<rparr>,
      pNormalizationVersion = '''', pRenderingVersion = ''''\<rparr>"

definition DefaultPolicyV2 :: Policy where
  "DefaultPolicyV2 =
     \<lparr>pVersion = PolicyVersionV2, pDefinitionSchema = DefinitionSchemaV0,
      pMandatoryEventTypes = [EventUserMessage],
      pMemoryRecallEnabled = True, pEligibleEvidenceEventTypes = [EventUserMessage, EventSelfTalk],
      pForbiddenEvidenceEventTypes = [EventResidentMessage, EventOutboundInitiative],
      pEvidence = \<lparr>StatedWeight = 1000000, InferredWeight = 600000, UntrustedMultiplier = 250000,
        ObservedEnabled = False, SelfTalkForcedGrade = GradeInferred\<rparr>,
      pInitialScope = \<lparr>ScopeUserMessage = ScopeResidentUI, ScopeSelfTalk = ScopeAdminOnly,
        ScopeDerived = DerivedScopeNarrowestSource\<rparr>,
      pMaturation = \<lparr>SedimentDistinctEvents = 2, SedimentSupportWeight = 1200000,
        SettledDistinctEvents = 3, SettledSupportWeight = 2000000, SettledConfidence = 750000,
        AlignmentConfidence = 800000, MetaMinimumStage = StageSediment\<rparr>,
      pSalience = \<lparr>CandidateContribution = 0, SelectedContribution = 50000,
        PromptIncludedContribution = 250000, ExplicitlyReferencedContribution = 500000,
        HalfLifeDays = 30, SalienceCap = 1000000\<rparr>,
      pTemporal = \<lparr>VolatileStaleDays = 30, EpisodicCurrentHours = 24, FutureCurrentness = 250000,
        CurrentCurrentness = 1000000, PastCurrentness = 600000, StaleCurrentness = 400000\<rparr>,
      pRecall = \<lparr>CandidateLimit = 64, SelectedLimit = 8, PromptIncludedLimit = 4,
        ByteBudget = 8192, WeightContext = 350000, WeightSalience = 200000,
        WeightConfidence = 200000, WeightState = 150000, WeightTemporal = 100000\<rparr>,
      pInheritance = \<lparr>WeightMultiplier = 500000, MaxDepth = 1, MaxPerTarget = 8,
        MaxPerSourceClaim = 2, DedupeUnderlyingEvent = True\<rparr>,
      pPersona = \<lparr>MinimumClaims = 2, MaximumClaims = 8, MaximumChangedBytes = 256,
        MaximumChangedRatio = 100000, MaximumChangedLines = 3, MaximumTotalBytes = 8192,
        ActivationCooldownHours = 24\<rparr>,
      pNormalizationVersion = NormalizationVersionV1, pRenderingVersion = RenderingVersionV1\<rparr>"

definition DefaultPolicyV3 :: Policy where
  "DefaultPolicyV3 = DefaultPolicyV2
     \<lparr>pVersion := PolicyVersionV3, pMandatoryEventTypes := [EventUserMessage, EventSelfTalk]\<rparr>"

definition DefaultPolicyV4 :: Policy where
  "DefaultPolicyV4 = DefaultPolicyV3
     \<lparr>pVersion := PolicyVersionV4, pRenderingVersion := RenderingVersionV2\<rparr>"

definition DefaultPolicyV5 :: Policy where
  "DefaultPolicyV5 = DefaultPolicyV4
     \<lparr>pVersion := PolicyVersionV5,
      pSalience := (pSalience DefaultPolicyV4)
        \<lparr>SelectedContribution := 0, PromptIncludedContribution := 0\<rparr>,
      pRecall := (pRecall DefaultPolicyV4)\<lparr>WeightContext := 550000, WeightSalience := 0\<rparr>\<rparr>"

lemmas default_policy_defs =
  DefaultPolicyV2_def DefaultPolicyV3_def DefaultPolicyV4_def DefaultPolicyV5_def

section \<open>Canonical text and the enabled check\<close>

text \<open>The fixed definition a policy of a given version is compared with.\<close>

definition expectedPolicy :: "PolicyVersion \<Rightarrow> Policy" where
  "expectedPolicy v =
     (if v = PolicyVersionV2 then DefaultPolicyV2
      else if v = PolicyVersionV3 then DefaultPolicyV3
      else if v = PolicyVersionV4 then DefaultPolicyV4
      else if v = PolicyVersionV5 then DefaultPolicyV5
      else DefaultPolicyV1)"

text \<open>
  The expected text: the errors of the three calls are discarded by the code, an error
  leaves the empty text.
\<close>

definition expectedText :: "jcs \<Rightarrow> Policy \<Rightarrow> string" where
  "expectedText jcs p =
     (case policyWireUnchecked p of Inl _ \<Rightarrow> ''''
      | Inr w \<Rightarrow> (case jcs w of None \<Rightarrow> '''' | Some t \<Rightarrow> t))"

definition Policy_CanonicalJSON :: "jcs \<Rightarrow> Policy \<Rightarrow> (memory_error, string) result" where
  "Policy_CanonicalJSON jcs p =
     (case policyWire p of
        Inl e \<Rightarrow> Inl e
      | Inr w \<Rightarrow>
          (case jcs w of
             None \<Rightarrow> Inl (ErrInvalidPolicy ''canonicalize'')
           | Some encoded \<Rightarrow>
               if encoded \<noteq> expectedText jcs (expectedPolicy (pVersion p))
               then Inl (ErrInvalidPolicy ''definition differs from its fixed contract'')
               else Inr encoded))"

definition RequireV2 :: "jcs \<Rightarrow> Policy \<Rightarrow> (memory_error, unit) result" where
  "RequireV2 jcs p =
     (if pVersion p \<noteq> PolicyVersionV2 then
        (if pVersion p = PolicyVersionV1 then Inl ErrFeatureDisabled
         else Inl (ErrUnsupportedPolicy ''version''))
      else case Policy_CanonicalJSON jcs p of Inl e \<Rightarrow> Inl e | Inr _ \<Rightarrow> ok)"

definition RequireEnabled :: "jcs \<Rightarrow> Policy \<Rightarrow> (memory_error, unit) result" where
  "RequireEnabled jcs p =
     (case pVersion p of
        PolicyVersionV1 \<Rightarrow> Inl ErrFeatureDisabled
      | UnknownPolicyVersion v \<Rightarrow> Inl (ErrUnsupportedPolicy v)
      | _ \<Rightarrow> (case Policy_CanonicalJSON jcs p of Inl e \<Rightarrow> Inl e | Inr _ \<Rightarrow> ok))"

definition requireExactPolicy :: "jcs \<Rightarrow> string \<Rightarrow> Policy \<Rightarrow> (memory_error, unit) result" where
  "requireExactPolicy jcs got expected =
     (case Policy_CanonicalJSON jcs expected of
        Inl e \<Rightarrow> Inl e
      | Inr want \<Rightarrow>
          if got \<noteq> want then Inl (ErrInvalidPolicy ''must match the fixed definition exactly'')
          else ok)"

text \<open>
  \<^verbatim>\<open>ParsePolicy\<close>. The JSON decoder is a parameter: \<open>canonical\<close> says whether
  \<^verbatim>\<open>ParseCanonicalJSON\<close> accepts the bytes, \<open>version\<close> reads the \<^verbatim>\<open>version\<close> member of the
  header (\<open>None\<close>: not an object or not a string, \<open>Some None\<close>: missing), and \<open>closed1\<close>,
  \<open>closed2\<close> are \<^verbatim>\<open>decodeClosed\<close> into the two wire types.
\<close>

record json_decoder =
  jd_canonical :: "string \<Rightarrow> bool"
  jd_version :: "string \<Rightarrow> PolicyVersion option option"
  jd_closed1 :: "string \<Rightarrow> policyV1Wire option"
  jd_closed2 :: "string \<Rightarrow> policyV2Wire option"

definition ParsePolicy ::
    "jcs \<Rightarrow> json_decoder \<Rightarrow> string \<Rightarrow> (memory_error, Policy \<times> string) result" where
  "ParsePolicy jcs jd input =
     (if \<not> jd_canonical jd input then Inl (ErrInvalidPolicy ''policy is not exact JCS'')
      else case jd_version jd input of
        None \<Rightarrow> Inl (ErrInvalidPolicy ''decode header'')
      | Some None \<Rightarrow> Inl (ErrInvalidPolicy ''missing version'')
      | Some (Some version) \<Rightarrow>
          (case version of
             PolicyVersionV1 \<Rightarrow>
               (case jd_closed1 jd input of
                  None \<Rightarrow> Inl (ErrInvalidPolicy ''decode'')
                | Some _ \<Rightarrow>
                    (case requireExactPolicy jcs input DefaultPolicyV1 of
                       Inl e \<Rightarrow> Inl e
                     | Inr _ \<Rightarrow> Inr (DefaultPolicyV1, input)))
           | UnknownPolicyVersion v \<Rightarrow> Inl (ErrUnsupportedPolicy v)
           | _ \<Rightarrow>
               (case jd_closed2 jd input of
                  None \<Rightarrow> Inl (ErrInvalidPolicy ''decode'')
                | Some wire \<Rightarrow>
                    (case requireExactPolicy jcs input (expectedPolicy version) of
                       Inl e \<Rightarrow> Inl e
                     | Inr _ \<Rightarrow> Inr (policyFromV2Wire wire, input)))))"

section \<open>What an enabled policy is\<close>

definition fixed_policies :: "Policy list" where
  "fixed_policies =
     [DefaultPolicyV1, DefaultPolicyV2, DefaultPolicyV3, DefaultPolicyV4, DefaultPolicyV5]"

definition wire_of :: "Policy \<Rightarrow> Wire" where
  "wire_of p = (case policyWireUnchecked p of Inr w \<Rightarrow> w | Inl _ \<Rightarrow> undefined)"

text \<open>
  What the code relies on of the JSON library: the fixed definitions have a text, and no
  other value has the same text.
\<close>

definition jcs_faithful :: "jcs \<Rightarrow> bool" where
  "jcs_faithful jcs \<longleftrightarrow>
     (\<forall>p\<in>set fixed_policies. jcs (wire_of p) \<noteq> None \<and>
        (\<forall>w. jcs w = jcs (wire_of p) \<longrightarrow> w = wire_of p))"

text \<open>The enabled policies, up to the one field that is not part of the wire.\<close>

definition enabled_policy :: "Policy \<Rightarrow> bool" where
  "enabled_policy p \<longleftrightarrow>
     p\<lparr>pMemoryRecallEnabled := True\<rparr> \<in>
       {DefaultPolicyV2, DefaultPolicyV3, DefaultPolicyV4, DefaultPolicyV5}"

lemma policyWireUnchecked_total:
  "(\<forall>s. pVersion p \<noteq> UnknownPolicyVersion s) \<Longrightarrow> policyWireUnchecked p = Inr (wire_of p)"
  by (cases "pVersion p") (auto simp: policyWireUnchecked_def wire_of_def)

text \<open>The fields of the later definitions, as far as they equal those of V2.\<close>

lemma default_policy_version [simp]:
  "pVersion DefaultPolicyV1 = PolicyVersionV1" "pVersion DefaultPolicyV2 = PolicyVersionV2"
  "pVersion DefaultPolicyV3 = PolicyVersionV3" "pVersion DefaultPolicyV4 = PolicyVersionV4"
  "pVersion DefaultPolicyV5 = PolicyVersionV5"
  by (simp_all add: DefaultPolicyV1_def default_policy_defs)

lemma default_policy_enabled [simp]:
  "pMemoryRecallEnabled DefaultPolicyV2" "pMemoryRecallEnabled DefaultPolicyV3"
  "pMemoryRecallEnabled DefaultPolicyV4" "pMemoryRecallEnabled DefaultPolicyV5"
  by (simp_all add: default_policy_defs)

lemma default_policy_shared_V3 [simp]:
  "pEvidence DefaultPolicyV3 = pEvidence DefaultPolicyV2"
  "pInitialScope DefaultPolicyV3 = pInitialScope DefaultPolicyV2"
  "pMaturation DefaultPolicyV3 = pMaturation DefaultPolicyV2"
  "pSalience DefaultPolicyV3 = pSalience DefaultPolicyV2"
  "pTemporal DefaultPolicyV3 = pTemporal DefaultPolicyV2"
  "pRecall DefaultPolicyV3 = pRecall DefaultPolicyV2"
  "pInheritance DefaultPolicyV3 = pInheritance DefaultPolicyV2"
  "pPersona DefaultPolicyV3 = pPersona DefaultPolicyV2"
  "pEligibleEvidenceEventTypes DefaultPolicyV3 = pEligibleEvidenceEventTypes DefaultPolicyV2"
  "pForbiddenEvidenceEventTypes DefaultPolicyV3 = pForbiddenEvidenceEventTypes DefaultPolicyV2"
  "pRenderingVersion DefaultPolicyV3 = pRenderingVersion DefaultPolicyV2"
  by (simp_all add: DefaultPolicyV3_def)

lemma default_policy_shared_V4 [simp]:
  "pEvidence DefaultPolicyV4 = pEvidence DefaultPolicyV2"
  "pInitialScope DefaultPolicyV4 = pInitialScope DefaultPolicyV2"
  "pMaturation DefaultPolicyV4 = pMaturation DefaultPolicyV2"
  "pSalience DefaultPolicyV4 = pSalience DefaultPolicyV2"
  "pTemporal DefaultPolicyV4 = pTemporal DefaultPolicyV2"
  "pRecall DefaultPolicyV4 = pRecall DefaultPolicyV2"
  "pInheritance DefaultPolicyV4 = pInheritance DefaultPolicyV2"
  "pPersona DefaultPolicyV4 = pPersona DefaultPolicyV2"
  "pEligibleEvidenceEventTypes DefaultPolicyV4 = pEligibleEvidenceEventTypes DefaultPolicyV2"
  "pForbiddenEvidenceEventTypes DefaultPolicyV4 = pForbiddenEvidenceEventTypes DefaultPolicyV2"
  by (simp_all add: DefaultPolicyV4_def)

lemma default_policy_shared_V5 [simp]:
  "pEvidence DefaultPolicyV5 = pEvidence DefaultPolicyV2"
  "pInitialScope DefaultPolicyV5 = pInitialScope DefaultPolicyV2"
  "pMaturation DefaultPolicyV5 = pMaturation DefaultPolicyV2"
  "pTemporal DefaultPolicyV5 = pTemporal DefaultPolicyV2"
  "pInheritance DefaultPolicyV5 = pInheritance DefaultPolicyV2"
  "pPersona DefaultPolicyV5 = pPersona DefaultPolicyV2"
  "pEligibleEvidenceEventTypes DefaultPolicyV5 = pEligibleEvidenceEventTypes DefaultPolicyV2"
  "pForbiddenEvidenceEventTypes DefaultPolicyV5 = pForbiddenEvidenceEventTypes DefaultPolicyV2"
  by (simp_all add: DefaultPolicyV5_def)

lemma default_policy_rendering [simp]:
  "pRenderingVersion DefaultPolicyV2 = RenderingVersionV1"
  "pRenderingVersion DefaultPolicyV4 = RenderingVersionV2"
  "pRenderingVersion DefaultPolicyV5 = RenderingVersionV2"
  by (simp_all add: default_policy_defs)

lemma default_policy_events [simp]:
  "pEligibleEvidenceEventTypes DefaultPolicyV2 = [EventUserMessage, EventSelfTalk]"
  "pForbiddenEvidenceEventTypes DefaultPolicyV2 = [EventResidentMessage, EventOutboundInitiative]"
  by (simp_all add: DefaultPolicyV2_def)

lemma enabled_policyE:
  assumes "enabled_policy p"
  obtains q where "q = DefaultPolicyV2 \<or> q = DefaultPolicyV3 \<or> q = DefaultPolicyV4 \<or> q = DefaultPolicyV5"
    and "p\<lparr>pMemoryRecallEnabled := True\<rparr> = q" and "pVersion p = pVersion q"
    and "pEvidence p = pEvidence q" and "pInitialScope p = pInitialScope q"
    and "pMaturation p = pMaturation q" and "pTemporal p = pTemporal q"
    and "pInheritance p = pInheritance q" and "pPersona p = pPersona q"
    and "pEligibleEvidenceEventTypes p = pEligibleEvidenceEventTypes q"
    and "pForbiddenEvidenceEventTypes p = pForbiddenEvidenceEventTypes q"
    and "pSalience p = pSalience q" and "pRecall p = pRecall q"
    and "pRenderingVersion p = pRenderingVersion q"
proof -
  let ?q = "p\<lparr>pMemoryRecallEnabled := True\<rparr>"
  have "?q = DefaultPolicyV2 \<or> ?q = DefaultPolicyV3 \<or> ?q = DefaultPolicyV4 \<or> ?q = DefaultPolicyV5"
    using assms unfolding enabled_policy_def by blast
  then show thesis
    by (rule that) simp_all
qed

text \<open>The second wire form loses exactly the flag \<open>MemoryRecallEnabled\<close>.\<close>

lemma policyFromV2Wire_wire:
  "policyWireUnchecked p = Inr (WirePolicyV2 w) \<Longrightarrow> policyFromV2Wire w = p\<lparr>pMemoryRecallEnabled := True\<rparr>"
  by (cases "pVersion p") (auto simp: policyWireUnchecked_def policyFromV2Wire_def)

lemma wire_of_V2_inject:
  assumes "pVersion p = pVersion q" and "pVersion q \<noteq> PolicyVersionV1"
    and "\<forall>s. pVersion q \<noteq> UnknownPolicyVersion s"
  shows "wire_of p = wire_of q \<longleftrightarrow> p\<lparr>pMemoryRecallEnabled := True\<rparr> = q\<lparr>pMemoryRecallEnabled := True\<rparr>"
proof
  obtain w where "policyWireUnchecked q = Inr (WirePolicyV2 w)"
    using assms by (cases "pVersion q") (auto simp: policyWireUnchecked_def)
  moreover obtain w' where "policyWireUnchecked p = Inr (WirePolicyV2 w')"
    using assms by (cases "pVersion q") (auto simp: policyWireUnchecked_def)
  moreover assume "wire_of p = wire_of q"
  ultimately have "policyWireUnchecked p = Inr (WirePolicyV2 w)" and "policyWireUnchecked q = Inr (WirePolicyV2 w)"
    by (auto simp: wire_of_def)
  then show "p\<lparr>pMemoryRecallEnabled := True\<rparr> = q\<lparr>pMemoryRecallEnabled := True\<rparr>"
    by (metis policyFromV2Wire_wire)
next
  assume eq: "p\<lparr>pMemoryRecallEnabled := True\<rparr> = q\<lparr>pMemoryRecallEnabled := True\<rparr>"
  have "wire_of (r\<lparr>pMemoryRecallEnabled := True\<rparr>) = wire_of r" if "pVersion r = pVersion q" for r
    using assms(2,3) that
    by (cases "pVersion q") (auto simp: wire_of_def policyWireUnchecked_def)
  then show "wire_of p = wire_of q"
    using eq assms(1) by metis
qed

lemma expectedPolicy_fixed:
  assumes "\<forall>s. v \<noteq> UnknownPolicyVersion s"
  shows "expectedPolicy v \<in> set fixed_policies" and "pVersion (expectedPolicy v) = v"
  using assms by (cases v; simp add: expectedPolicy_def fixed_policies_def)+

lemma expectedPolicy_unique:
  assumes "q = DefaultPolicyV2 \<or> q = DefaultPolicyV3 \<or> q = DefaultPolicyV4 \<or> q = DefaultPolicyV5"
  shows "expectedPolicy (pVersion q) = q" and "pMemoryRecallEnabled q"
  using assms by (elim disjE; simp add: expectedPolicy_def)+

lemma Policy_CanonicalJSON_ok:
  assumes "jcs_faithful jcs" and "\<forall>s. pVersion p \<noteq> UnknownPolicyVersion s"
  shows "(\<exists>t. Policy_CanonicalJSON jcs p = Inr t) \<longleftrightarrow> wire_of p = wire_of (expectedPolicy (pVersion p))"
proof -
  let ?q = "expectedPolicy (pVersion p)"
  obtain t where t: "jcs (wire_of ?q) = Some t"
    and inj: "\<And>w. jcs w = Some t \<Longrightarrow> w = wire_of ?q"
    using assms(1) expectedPolicy_fixed(1) [OF assms(2)] unfolding jcs_faithful_def by (metis option.exhaust)
  have wires: "policyWireUnchecked p = Inr (wire_of p)" "policyWireUnchecked ?q = Inr (wire_of ?q)"
    using assms(2) by (simp_all add: policyWireUnchecked_total expectedPolicy_fixed)
  have expected: "expectedText jcs ?q = t"
    using t wires by (simp add: expectedText_def)
  have valid: "PolicyVersion_Validate (pVersion p) = ok"
    using assms(2) by simp
  have wire: "policyWire p = Inr (wire_of p)"
    unfolding policyWire_def valid using wires by simp
  show ?thesis
  proof (cases "jcs (wire_of p)")
    case None
    with t have "wire_of p \<noteq> wire_of ?q" by (metis option.distinct(1))
    moreover have "\<not> (\<exists>t. Policy_CanonicalJSON jcs p = Inr t)"
      unfolding Policy_CanonicalJSON_def wire using None by simp
    ultimately show ?thesis by simp
  next
    case (Some u)
    have "(\<exists>t. Policy_CanonicalJSON jcs p = Inr t) \<longleftrightarrow> u = t"
      unfolding Policy_CanonicalJSON_def wire expected using Some by simp
    also have "u = t \<longleftrightarrow> wire_of p = wire_of ?q"
      using inj [of "wire_of p"] Some t by (metis option.inject)
    finally show ?thesis .
  qed
qed

text \<open>The key fact: an enabled policy is one of the four fixed definitions.\<close>

lemma enabled_policy_iff:
  assumes "pVersion p \<noteq> PolicyVersionV1" and "\<forall>s. pVersion p \<noteq> UnknownPolicyVersion s"
  shows "p\<lparr>pMemoryRecallEnabled := True\<rparr> = expectedPolicy (pVersion p) \<longleftrightarrow> enabled_policy p"
proof
  assume "p\<lparr>pMemoryRecallEnabled := True\<rparr> = expectedPolicy (pVersion p)"
  moreover have "expectedPolicy (pVersion p)
      \<in> {DefaultPolicyV2, DefaultPolicyV3, DefaultPolicyV4, DefaultPolicyV5}"
    using assms by (cases "pVersion p") (simp_all add: expectedPolicy_def)
  ultimately show "enabled_policy p"
    unfolding enabled_policy_def by metis
next
  assume "enabled_policy p"
  then show "p\<lparr>pMemoryRecallEnabled := True\<rparr> = expectedPolicy (pVersion p)"
    by (rule enabled_policyE) (metis expectedPolicy_unique(1))
qed

lemma RequireEnabled_ok_iff:
  assumes "jcs_faithful jcs"
  shows "RequireEnabled jcs p = ok \<longleftrightarrow> enabled_policy p"
proof (cases "pVersion p = PolicyVersionV1 \<or> (\<exists>s. pVersion p = UnknownPolicyVersion s)")
  case True
  then have "RequireEnabled jcs p \<noteq> ok" by (auto simp: RequireEnabled_def)
  moreover have "\<not> enabled_policy p"
    using True by (auto elim!: enabled_policyE)
  ultimately show ?thesis by simp
next
  case False
  let ?q = "expectedPolicy (pVersion p)"
  have q: "pVersion ?q = pVersion p" "pMemoryRecallEnabled ?q"
    using False by (cases "pVersion p"; simp add: expectedPolicy_def)+
  have "RequireEnabled jcs p = ok \<longleftrightarrow> (\<exists>t. Policy_CanonicalJSON jcs p = Inr t)"
    using False by (cases "pVersion p") (auto simp: RequireEnabled_def split: sum.splits)
  also have "\<dots> \<longleftrightarrow> p\<lparr>pMemoryRecallEnabled := True\<rparr> = ?q\<lparr>pMemoryRecallEnabled := True\<rparr>"
    using False q by (simp add: Policy_CanonicalJSON_ok [OF assms] wire_of_V2_inject)
  also have "?q\<lparr>pMemoryRecallEnabled := True\<rparr> = ?q"
    using q(2) by simp
  also have "p\<lparr>pMemoryRecallEnabled := True\<rparr> = ?q \<longleftrightarrow> enabled_policy p"
    using False by (simp add: enabled_policy_iff)
  finally show ?thesis .
qed

text \<open>Every rule of an enabled policy that does not depend on the version.\<close>

lemma enabled_policy_rules:
  assumes "enabled_policy p"
  shows "pEvidence p = pEvidence DefaultPolicyV2" "pInitialScope p = pInitialScope DefaultPolicyV2"
    "pMaturation p = pMaturation DefaultPolicyV2" "pTemporal p = pTemporal DefaultPolicyV2"
    "pInheritance p = pInheritance DefaultPolicyV2" "pPersona p = pPersona DefaultPolicyV2"
    "pEligibleEvidenceEventTypes p = [EventUserMessage, EventSelfTalk]"
    "pForbiddenEvidenceEventTypes p = [EventResidentMessage, EventOutboundInitiative]"
  using assms by (auto elim!: enabled_policyE)

lemma enabled_policy_versions:
  assumes "enabled_policy p"
  shows "pVersion p \<in> {PolicyVersionV2, PolicyVersionV3, PolicyVersionV4, PolicyVersionV5}"
    "pSalience p = (if pVersion p = PolicyVersionV5 then pSalience DefaultPolicyV5 else pSalience DefaultPolicyV2)"
    "pRecall p = (if pVersion p = PolicyVersionV5 then pRecall DefaultPolicyV5 else pRecall DefaultPolicyV2)"
    "pRenderingVersion p = (if pVersion p \<in> {PolicyVersionV4, PolicyVersionV5} then RenderingVersionV2 else RenderingVersionV1)"
  using assms by (auto elim!: enabled_policyE)

end
