(* ===== verification/Memory_Fixed.thy ===== *)
theory Memory_Fixed
  imports Memory_Types
begin

text \<open>
  The fixed-point arithmetic of \<^verbatim>\<open>internal/memory/fixed.go\<close>: products are computed in
  \<^verbatim>\<open>math/big\<close>, so they are exact integers, and only the result has to fit an \<^verbatim>\<open>int64\<close>.
\<close>

definition multiplyDivideFloor :: "int \<Rightarrow> int \<Rightarrow> int \<Rightarrow> (memory_error, int) result" where
  "multiplyDivideFloor left right divisor =
     (if left < 0 \<or> right < 0 \<or> divisor \<le> 0 then Inl (MemoryError ''invalid fixed-point operands'')
      else let product = (left * right) sdiv divisor in
        if \<not> int64 product then Inl (MemoryError ''fixed-point result overflows int64'')
        else Inr product)"

text \<open>The loop over the weight/value pairs of the variadic argument.\<close>

fun weightedTotal :: "int \<Rightarrow> int list \<Rightarrow> (memory_error, int) result" where
  "weightedTotal tot [] = Inr tot"
| "weightedTotal tot [weight] = Inl (MemoryError ''index out of range'')"
| "weightedTotal tot (weight # value # rest) =
     (if weight < 0 \<or> value < 0 \<or> value > fixedPointScale
      then Inl (MemoryError ''invalid weighted ratio pair'')
      else weightedTotal (tot + weight * value) rest)"

definition weightedRatioFloor :: "int list \<Rightarrow> (memory_error, Ratio) result" where
  "weightedRatioFloor weighted =
     (if length weighted mod 2 \<noteq> 0 then Inl (MemoryError ''weighted ratio requires weight/value pairs'')
      else case weightedTotal 0 weighted of
        Inl e \<Rightarrow> Inl e
      | Inr tot \<Rightarrow>
          let tot = tot sdiv fixedPointScale in
          if \<not> int64 tot \<or> tot > fixedPointScale
          then Inl (MemoryError ''weighted ratio is out of range'')
          else (case NewRatio tot of Inl e \<Rightarrow> Inl (MemoryError ''ratio'') | Inr r \<Rightarrow> Inr r))"

definition ratioOf :: "int \<Rightarrow> int \<Rightarrow> (memory_error, Ratio) result" where
  "ratioOf numerator denominator =
     (if numerator < 0 \<or> denominator < 0 \<or> numerator > denominator
      then Inl (MemoryError ''invalid ratio'')
      else if denominator = 0
      then (case NewRatio 0 of Inl e \<Rightarrow> Inl (MemoryError ''ratio'') | Inr r \<Rightarrow> Inr r)
      else case multiplyDivideFloor numerator fixedPointScale denominator of
        Inl e \<Rightarrow> Inl e
      | Inr value \<Rightarrow>
          (case NewRatio value of Inl e \<Rightarrow> Inl (MemoryError ''ratio'') | Inr r \<Rightarrow> Inr r))"

definition checkedAdd :: "int \<Rightarrow> int \<Rightarrow> (memory_error, int) result" where
  "checkedAdd left right =
     (if right > 0 \<and> left > wrap64 (maxInt64 - right) then Inl (MemoryError ''integer addition overflows'')
      else if right < 0 \<and> left < wrap64 (minInt64 - right) then Inl (MemoryError ''integer addition underflows'')
      else Inr (wrap64 (left + right)))"

section \<open>Exactness\<close>

lemma sdiv_nonneg [go_arith]:
  fixes a b :: int
  shows "0 \<le> a \<Longrightarrow> 0 < b \<Longrightarrow> a sdiv b = a div b"
  by (simp add: signed_divide_int_def sgn_if)

lemma multiplyDivideFloor_eq:
  assumes "0 \<le> left" and "0 \<le> right" and "0 < divisor"
  shows "multiplyDivideFloor left right divisor =
    (if left * right div divisor \<le> maxInt64 then Inr (left * right div divisor)
     else Inl (MemoryError ''fixed-point result overflows int64''))"
proof -
  have "0 \<le> left * right div divisor"
    using assms by (simp add: pos_imp_zdiv_nonneg_iff)
  then have "int64 (left * right div divisor) \<longleftrightarrow> left * right div divisor \<le> maxInt64"
    unfolding int64_maxInt64_iff minInt64_def by auto
  then show ?thesis
    using assms unfolding multiplyDivideFloor_def Let_def by (simp add: sdiv_nonneg)
qed

text \<open>Multiplying by a proportion never overflows.\<close>

lemma multiplyDivideFloor_shrink:
  assumes "0 \<le> left" and "int64 left" and "0 \<le> right" and "right \<le> divisor" and "0 < divisor"
  shows "multiplyDivideFloor left right divisor = Inr (left * right div divisor)"
    and "0 \<le> left * right div divisor" and "left * right div divisor \<le> left"
proof -
  have "left * right \<le> left * divisor"
    using assms(1,4) by (rule mult_left_mono [rotated])
  then have "left * right div divisor \<le> left * divisor div divisor"
    using assms(5) by (rule zdiv_mono1)
  then show le: "left * right div divisor \<le> left"
    using assms(5) by simp
  show "multiplyDivideFloor left right divisor = Inr (left * right div divisor)"
    using le assms by (simp add: multiplyDivideFloor_eq int64_maxInt64_iff)
  show "0 \<le> left * right div divisor"
    using assms by (simp add: pos_imp_zdiv_nonneg_iff)
qed

lemma ratioOf_eq:
  assumes "0 \<le> n" and "n \<le> d" and "int64 d"
  shows "ratioOf n d = Inr (n * 1000000 div d)"
    and "0 \<le> n * 1000000 div d" and "n * 1000000 div d \<le> 1000000"
proof -
  have le: "n * 1000000 div d \<le> 1000000" and ge: "0 \<le> n * 1000000 div d" if "0 < d"
  proof -
    have "n * 1000000 \<le> d * 1000000"
      using assms(2) by simp
    then have "n * 1000000 div d \<le> d * 1000000 div d"
      using that by (rule zdiv_mono1)
    then show "n * 1000000 div d \<le> 1000000" and "0 \<le> n * 1000000 div d"
      using that assms(1) by (simp_all add: pos_imp_zdiv_nonneg_iff)
  qed
  then show "0 \<le> n * 1000000 div d" and "n * 1000000 div d \<le> 1000000"
    using assms(1,2) by (cases "d = 0"; simp)+
  show "ratioOf n d = Inr (n * 1000000 div d)"
  proof (cases "d = 0")
    case True
    then show ?thesis using assms by (simp add: ratioOf_def NewRatio_def FixedPointScale_def)
  next
    case False
    then have "multiplyDivideFloor n fixedPointScale d = Inr (n * 1000000 div d)"
      using assms le by (simp add: multiplyDivideFloor_eq maxInt64_def)
    then show ?thesis
      using False assms le ge by (simp add: ratioOf_def NewRatio_def FixedPointScale_def)
  qed
qed

lemma checkedAdd_eq:
  assumes "int64 a" and "int64 b"
  shows "checkedAdd a b =
    (if int64 (a + b) then Inr (a + b)
     else Inl (MemoryError (if b > 0 then ''integer addition overflows'' else ''integer addition underflows'')))"
proof -
  have "b > 0 \<Longrightarrow> wrap64 (maxInt64 - b) = maxInt64 - b" and "b \<le> 0 \<Longrightarrow> wrap64 (minInt64 - b) = minInt64 - b"
    using assms by (auto intro!: wrap64_id simp: int64_maxInt64_iff maxInt64_def minInt64_def)
  moreover have "int64 (a + b) \<Longrightarrow> wrap64 (a + b) = a + b"
    by (rule wrap64_id)
  ultimately show ?thesis
    using assms unfolding checkedAdd_def by (auto simp: int64_maxInt64_iff)
qed

lemma checkedAdd_nonneg:
  assumes "0 \<le> a" and "0 \<le> b" and "int64 a" and "int64 b"
  shows "checkedAdd a b =
    (if a + b \<le> maxInt64 then Inr (a + b) else Inl (MemoryError ''integer addition overflows''))"
proof -
  have "int64 (a + b) \<longleftrightarrow> a + b \<le> maxInt64"
    using assms by (auto simp: int64_maxInt64_iff minInt64_def)
  moreover have "a + b > maxInt64 \<Longrightarrow> b > 0"
    using assms by (auto simp: int64_maxInt64_iff)
  ultimately show ?thesis
    using assms by (simp add: checkedAdd_eq)
qed

section \<open>Weighted ratios\<close>

fun pair_total :: "int list \<Rightarrow> int" where
  "pair_total (weight # value # rest) = weight * value + pair_total rest"
| "pair_total _ = 0"

fun weights_total :: "int list \<Rightarrow> int" where
  "weights_total (weight # value # rest) = weight + weights_total rest"
| "weights_total _ = 0"

fun pairs_valid :: "int list \<Rightarrow> bool" where
  "pairs_valid (weight # value # rest) \<longleftrightarrow>
     0 \<le> weight \<and> 0 \<le> value \<and> value \<le> 1000000 \<and> pairs_valid rest"
| "pairs_valid [] = True"
| "pairs_valid [x] = False"

lemma pairs_valid_even: "pairs_valid ps \<Longrightarrow> length ps mod 2 = 0"
  by (induction ps rule: pairs_valid.induct) (simp_all add: mod_Suc)

lemma weightedTotal_eq: "pairs_valid ps \<Longrightarrow> weightedTotal t ps = Inr (t + pair_total ps)"
  by (induction ps arbitrary: t rule: pairs_valid.induct) (simp_all add: algebra_simps)

lemma pair_total_bounds:
  "pairs_valid ps \<Longrightarrow> 0 \<le> pair_total ps \<and> pair_total ps \<le> weights_total ps * 1000000"
proof (induction ps rule: pairs_valid.induct)
  case (1 weight "value" rest)
  then have "weight * value \<le> weight * 1000000" and "0 \<le> weight * value"
    by (auto intro: mult_left_mono)
  with 1 show ?case by (simp add: algebra_simps)
qed auto

text \<open>Weights that add up to at most one give a ratio, the exact floor of the weighted sum.\<close>

lemma weightedRatioFloor_eq:
  assumes "pairs_valid ps" and "weights_total ps \<le> 1000000"
  shows "weightedRatioFloor ps = Inr (pair_total ps div 1000000)"
    and "0 \<le> pair_total ps div 1000000" and "pair_total ps div 1000000 \<le> 1000000"
proof -
  have b: "0 \<le> pair_total ps" "pair_total ps \<le> 1000000 * 1000000"
    using pair_total_bounds [OF assms(1)] assms(2) by auto
  then show r: "0 \<le> pair_total ps div 1000000" "pair_total ps div 1000000 \<le> 1000000"
    by auto
  then have "int64 (pair_total ps div 1000000)"
    by (simp add: int64_def)
  then show "weightedRatioFloor ps = Inr (pair_total ps div 1000000)"
    using r b pairs_valid_even [OF assms(1)]
    by (simp add: weightedRatioFloor_def weightedTotal_eq [OF assms(1)] sdiv_nonneg NewRatio_def
        FixedPointScale_def)
qed


end
