(* ===== verification/Memory_Evidence.thy ===== *)
theory Memory_Evidence
  imports Memory_Policy Memory_Fixed
begin

text \<open>
  Evidence of \<^verbatim>\<open>internal/memory/evidence.go\<close> and the limits on inherited evidence of
  \<^verbatim>\<open>internal/memory/inheritance.go\<close>: how one row is weighted, how the rows of a claim are
  deduplicated by source event and added up, and which batches of inherited rows are
  accepted. Go's iteration over the deduplication map has no fixed order, so the
  aggregation takes the order as the argument \<open>iter\<close>, and the lemmas show that every order
  gives the same result.
\<close>

section \<open>One row\<close>

record EvidencePoint =
  epSourceEventID :: ID
  epSourceEvidenceID :: "ID option"
  epEventType :: EventType
  epPolarity :: EvidencePolarity
  epGrade :: EvidenceGrade
  epTrust :: TrustLevel
  epDerivation :: EvidenceDerivation
  epInheritanceDepth :: int
  epReason :: EvidenceReason
  epActorIsSubject :: bool
  epActorIsPerspective :: bool

record EvaluatedEvidence = EvidencePoint +
  eeEffectiveGrade :: EvidenceGrade
  eeEffectiveWeight :: Weight

record EvidenceAggregate =
  eaSupportWeight :: Weight
  eaContradictWeight :: Weight
  eaConfidence :: Ratio
  eaDistinctSupportEvents :: Count
  eaHasTrustedSupport :: bool
  eaHasExternalSupport :: bool
  eaHasSubjectUserSupport :: bool
  eaHasPerspectiveUserSupport :: bool

fun containsEventType :: "EventType list \<Rightarrow> EventType \<Rightarrow> bool" where
  "containsEventType [] target = False"
| "containsEventType (v # vs) target =
     (if v = target then True else containsEventType vs target)"

lemma containsEventType_iff [simp]: "containsEventType vs target \<longleftrightarrow> target \<in> set vs"
  by (induction vs) auto

definition validateEvidenceProvenance ::
    "'a EvidencePoint_scheme \<Rightarrow> EvidenceGrade \<Rightarrow> Policy \<Rightarrow> (memory_error, unit) result" where
  "validateEvidenceProvenance point effectiveGrade policy =
     (case epDerivation point of
        DerivationExtracted \<Rightarrow>
          if epSourceEvidenceID point \<noteq> None \<or> epInheritanceDepth point \<noteq> 0
          then Inl (ErrInvalidEvidence ''extracted evidence cannot have inherited provenance'')
          else if effectiveGrade = GradeStated \<and> epReason point \<noteq> EvidenceReasonSourceStated
          then Inl (ErrInvalidEvidence ''stated extracted evidence requires source_stated'')
          else if effectiveGrade = GradeInferred \<and> epReason point \<noteq> EvidenceReasonSourceInferred
          then Inl (ErrInvalidEvidence ''inferred extracted evidence requires source_inferred'')
          else ok
      | DerivationInherited \<Rightarrow>
          (case epSourceEvidenceID point of
             None \<Rightarrow> Inl (ErrInvalidEvidence ''inherited evidence requires source evidence'')
           | Some source \<Rightarrow>
               (case ID_Validate source of
                  Inl e \<Rightarrow> Inl (ErrInvalidEvidence ''source evidence'')
                | Inr _ \<Rightarrow>
                    if epInheritanceDepth point < 1 \<or> epInheritanceDepth point > MaxDepth (pInheritance policy)
                    then Inl (ErrInvalidEvidence ''inheritance depth exceeds policy'')
                    else if epReason point \<noteq> EvidenceReasonInheritedAbstraction
                          \<and> epReason point \<noteq> EvidenceReasonInheritedSplit
                    then Inl (ErrInvalidEvidence ''inherited evidence requires an inherited reason'')
                    else ok))
      | UnknownEvidenceDerivation s \<Rightarrow> ok)"

text \<open>The vocabulary checks at the start of \<^verbatim>\<open>EvaluateEvidence\<close>, in their order.\<close>

definition validateEvidencePoint ::
    "Policy \<Rightarrow> EvidencePoint \<Rightarrow> (memory_error, unit) result" where
  "validateEvidencePoint policy point =
     (case ID_Validate (epSourceEventID point) of Inl e \<Rightarrow> Inl (ErrInvalidEvidence ''source event'') | Inr _ \<Rightarrow>
      (case EventType_Validate (epEventType point) of Inl e \<Rightarrow> Inl (ErrInvalidEvidence ''event type'') | Inr _ \<Rightarrow>
       if \<not> containsEventType (pEligibleEvidenceEventTypes policy) (epEventType point)
          \<or> containsEventType (pForbiddenEvidenceEventTypes policy) (epEventType point)
       then Inl (ErrInvalidEvidence ''event type is not eligible'')
       else
      (case EvidencePolarity_Validate (epPolarity point) of Inl e \<Rightarrow> Inl (ErrInvalidEvidence ''polarity'') | Inr _ \<Rightarrow>
      (case EvidenceGrade_Validate (epGrade point) of Inl e \<Rightarrow> Inl (ErrInvalidEvidence ''grade'') | Inr _ \<Rightarrow>
      (case TrustLevel_Validate (epTrust point) of Inl e \<Rightarrow> Inl (ErrInvalidEvidence ''trust'') | Inr _ \<Rightarrow>
      (case EvidenceDerivation_Validate (epDerivation point) of Inl e \<Rightarrow> Inl (ErrInvalidEvidence ''derivation'') | Inr _ \<Rightarrow>
      (case EvidenceReason_Validate (epReason point) of Inl e \<Rightarrow> Inl (ErrInvalidEvidence ''reason'') | Inr _ \<Rightarrow>
         ok)))))))"

text \<open>The weight of a row of a given grade: the base weight and the two multipliers.\<close>

definition evidenceWeight ::
    "Policy \<Rightarrow> EvidencePoint \<Rightarrow> EvidenceGrade \<Rightarrow> (memory_error, Weight) result" where
  "evidenceWeight policy point effectiveGrade =
     (case (case effectiveGrade of
              GradeStated \<Rightarrow> Inr (StatedWeight (pEvidence policy))
            | GradeInferred \<Rightarrow> Inr (InferredWeight (pEvidence policy))
            | _ \<Rightarrow> Inl (ErrInvalidEvidence ''unsupported effective grade'')) of
        Inl e \<Rightarrow> Inl e
      | Inr weight0 \<Rightarrow>
     (case (if epTrust point = TrustUntrusted
            then multiplyDivideFloor weight0 (UntrustedMultiplier (pEvidence policy)) fixedPointScale
            else Inr weight0) of
        Inl e \<Rightarrow> Inl (ErrInvalidEvidence ''untrusted multiplier'')
      | Inr weight1 \<Rightarrow>
     (case (if epDerivation point = DerivationInherited
            then multiplyDivideFloor weight1 (WeightMultiplier (pInheritance policy)) fixedPointScale
            else Inr weight1) of
        Inl e \<Rightarrow> Inl (ErrInvalidEvidence ''inheritance multiplier'')
      | Inr weight2 \<Rightarrow>
     (case NewWeight weight2 of
        Inl e \<Rightarrow> Inl (ErrInvalidEvidence ''effective weight'')
      | Inr canonicalWeight \<Rightarrow> Inr canonicalWeight))))"

definition EvaluateEvidence ::
    "jcs \<Rightarrow> Policy \<Rightarrow> EvidencePoint \<Rightarrow> (memory_error, EvaluatedEvidence) result" where
  "EvaluateEvidence jcs policy point =
     (case RequireEnabled jcs policy of Inl e \<Rightarrow> Inl e | Inr _ \<Rightarrow>
      (case validateEvidencePoint policy point of Inl e \<Rightarrow> Inl e | Inr _ \<Rightarrow>
       (let effectiveGrade = (if epEventType point = EventSelfTalk
                              then SelfTalkForcedGrade (pEvidence policy) else epGrade point)
        in if effectiveGrade = GradeObserved \<and> \<not> ObservedEnabled (pEvidence policy)
           then Inl (ErrInvalidEvidence ''observed grade is reserved'')
           else case validateEvidenceProvenance point effectiveGrade policy of
             Inl e \<Rightarrow> Inl e
           | Inr _ \<Rightarrow>
               (case evidenceWeight policy point effectiveGrade of
                  Inl e \<Rightarrow> Inl e
                | Inr canonicalWeight \<Rightarrow>
                    Inr (EvidencePoint.extend point
                      (EvaluatedEvidence.fields effectiveGrade canonicalWeight))))))"

section \<open>Aggregation\<close>

type_synonym evidenceKey = "ID \<times> EvidencePolarity"

definition evidence_key :: "EvaluatedEvidence \<Rightarrow> evidenceKey" where
  "evidence_key point = (epSourceEventID point, epPolarity point)"

definition dedupeStep ::
    "(evidenceKey \<times> EvaluatedEvidence) list \<Rightarrow> EvaluatedEvidence
      \<Rightarrow> (memory_error, (evidenceKey \<times> EvaluatedEvidence) list) result" where
  "dedupeStep deduplicated point =
     (case ID_Validate (epSourceEventID point) of Inl e \<Rightarrow> Inl (ErrInvalidEvidence ''source event'') | Inr _ \<Rightarrow>
      (case Weight_Validate (eeEffectiveWeight point) of Inl e \<Rightarrow> Inl (ErrInvalidEvidence ''weight'') | Inr _ \<Rightarrow>
       (case EvidencePolarity_Validate (epPolarity point) of Inl e \<Rightarrow> Inl (ErrInvalidEvidence ''polarity'') | Inr _ \<Rightarrow>
        (case map_of deduplicated (evidence_key point) of
           None \<Rightarrow> Inr (AList.update (evidence_key point) point deduplicated)
         | Some previous \<Rightarrow>
             if eeEffectiveWeight point > eeEffectiveWeight previous
             then Inr (AList.update (evidence_key point) point deduplicated)
             else Inr deduplicated))))"

record aggregateState =
  agSupport :: int
  agContradict :: int
  agDistinct :: "ID set"
  agTrusted :: bool
  agExternal :: bool
  agSubject :: bool
  agPerspective :: bool

definition aggregateInit :: aggregateState where
  "aggregateInit = \<lparr>agSupport = 0, agContradict = 0, agDistinct = {}, agTrusted = False,
     agExternal = False, agSubject = False, agPerspective = False\<rparr>"

definition aggregateStep ::
    "aggregateState \<Rightarrow> EvaluatedEvidence \<Rightarrow> (memory_error, aggregateState) result" where
  "aggregateStep st point =
     (case epPolarity point of
        PolaritySupport \<Rightarrow>
          (case checkedAdd (agSupport st) (eeEffectiveWeight point) of
             Inl e \<Rightarrow> Inl (ErrInvalidEvidence ''aggregate weight'')
           | Inr support \<Rightarrow>
               Inr (st\<lparr>agSupport := support,
                 agDistinct := insert (epSourceEventID point) (agDistinct st),
                 agTrusted := (agTrusted st \<or> epTrust point = TrustTrusted),
                 agExternal := (agExternal st \<or> epEventType point \<noteq> EventSelfTalk),
                 agSubject := (agSubject st \<or> epEventType point = EventUserMessage \<and> epActorIsSubject point),
                 agPerspective := (agPerspective st
                   \<or> epEventType point = EventUserMessage \<and> epActorIsPerspective point)\<rparr>))
      | PolarityContradict \<Rightarrow>
          (case checkedAdd (agContradict st) (eeEffectiveWeight point) of
             Inl e \<Rightarrow> Inl (ErrInvalidEvidence ''aggregate weight'')
           | Inr contradict \<Rightarrow> Inr (st\<lparr>agContradict := contradict\<rparr>))
      | UnknownEvidencePolarity s \<Rightarrow> Inl (ErrInvalidEvidence ''unknown polarity''))"

definition aggregateFinish :: "Policy \<Rightarrow> aggregateState \<Rightarrow> (memory_error, EvidenceAggregate) result" where
  "aggregateFinish policy st =
     (case checkedAdd (agSupport st) (agContradict st) of
        Inl e \<Rightarrow> Inl (ErrInvalidEvidence ''total weight'')
      | Inr tot0 \<Rightarrow>
     (case (if pVersion policy = PolicyVersionV5 then checkedAdd tot0 fixedPointScale else Inr tot0) of
        Inl e \<Rightarrow> Inl (ErrInvalidEvidence ''confidence prior'')
      | Inr tot \<Rightarrow>
     (case ratioOf (agSupport st) tot of
        Inl e \<Rightarrow> Inl (ErrInvalidEvidence ''confidence'')
      | Inr confidence \<Rightarrow>
     (case NewCount (int (card (agDistinct st))) of
        Inl e \<Rightarrow> Inl (ErrInvalidEvidence ''distinct events'')
      | Inr distinctEvents \<Rightarrow>
          Inr \<lparr>eaSupportWeight = (case NewWeight (agSupport st) of Inl _ \<Rightarrow> 0 | Inr w \<Rightarrow> w),
            eaContradictWeight = (case NewWeight (agContradict st) of Inl _ \<Rightarrow> 0 | Inr w \<Rightarrow> w),
            eaConfidence = confidence, eaDistinctSupportEvents = distinctEvents,
            eaHasTrustedSupport = agTrusted st, eaHasExternalSupport = agExternal st,
            eaHasSubjectUserSupport = agSubject st, eaHasPerspectiveUserSupport = agPerspective st\<rparr>))))"

text \<open>\<open>iter\<close> is the order in which Go visits the values of the map.\<close>

type_synonym iteration = "EvaluatedEvidence list \<Rightarrow> EvaluatedEvidence list"

definition AggregateEvidence ::
    "jcs \<Rightarrow> iteration \<Rightarrow> Policy \<Rightarrow> EvaluatedEvidence list \<Rightarrow> (memory_error, EvidenceAggregate) result" where
  "AggregateEvidence jcs iter policy points =
     (case RequireEnabled jcs policy of Inl e \<Rightarrow> Inl e | Inr _ \<Rightarrow>
      (case foldE dedupeStep [] points of Inl e \<Rightarrow> Inl e | Inr deduplicated \<Rightarrow>
       (case foldE aggregateStep aggregateInit (iter (map snd deduplicated)) of
          Inl e \<Rightarrow> Inl e
        | Inr st \<Rightarrow> aggregateFinish policy st)))"

definition EvaluateAndAggregateEvidence ::
    "jcs \<Rightarrow> iteration \<Rightarrow> Policy \<Rightarrow> EvidencePoint list \<Rightarrow> (memory_error, EvidenceAggregate) result" where
  "EvaluateAndAggregateEvidence jcs iter policy points =
     (case mapE (EvaluateEvidence jcs policy) points of
        Inl e \<Rightarrow> Inl e
      | Inr evaluated \<Rightarrow> AggregateEvidence jcs iter policy evaluated)"

section \<open>Initial view scopes\<close>

definition InitialScopeForEvent ::
    "jcs \<Rightarrow> Policy \<Rightarrow> EventType \<Rightarrow> (memory_error, ViewScope) result" where
  "InitialScopeForEvent jcs policy eventType =
     (case RequireEnabled jcs policy of Inl e \<Rightarrow> Inl e | Inr _ \<Rightarrow>
      (case eventType of
         EventUserMessage \<Rightarrow> Inr (ScopeUserMessage (pInitialScope policy))
       | EventSelfTalk \<Rightarrow> Inr (ScopeSelfTalk (pInitialScope policy))
       | _ \<Rightarrow> Inl (ErrInvalidEvidence ''no initial scope'')))"

definition NarrowestSourceScope ::
    "jcs \<Rightarrow> Policy \<Rightarrow> ViewScope list \<Rightarrow> (memory_error, ViewScope) result" where
  "NarrowestSourceScope jcs policy scopes =
     (case RequireEnabled jcs policy of Inl e \<Rightarrow> Inl e | Inr _ \<Rightarrow>
      if ScopeDerived (pInitialScope policy) \<noteq> DerivedScopeNarrowestSource \<or> scopes = []
      then Inl (ErrInvalidEvidence ''derived scope cannot be resolved'')
      else foldE (\<lambda>result scope. case ViewScope_Validate scope of
                     Inl e \<Rightarrow> Inl (ErrInvalidEvidence ''scope'')
                   | Inr _ \<Rightarrow> Inr (if scope = ScopeAdminOnly then ScopeAdminOnly else result))
             ScopeResidentUI scopes)"

section \<open>Batches of inherited evidence\<close>

record InheritedEvidenceCandidate =
  icTargetClaimID :: ID
  icSourceClaimID :: ID
  icSourceEvidenceID :: ID
  icSourceEventID :: ID
  icRelation :: RelationType

text \<open>The three maps of the loop; a Go map of counters reads 0 where it has no key.\<close>

record inheritanceState =
  perTarget :: "ID \<Rightarrow> int"
  perSource :: "ID \<times> ID \<Rightarrow> int"
  underlying :: "ID \<Rightarrow> ID set"

definition inheritanceInit :: inheritanceState where
  "inheritanceInit = \<lparr>perTarget = (\<lambda>_. 0), perSource = (\<lambda>_. 0), underlying = (\<lambda>_. {})\<rparr>"

definition inheritanceStep ::
    "Policy \<Rightarrow> inheritanceState \<Rightarrow> InheritedEvidenceCandidate \<Rightarrow> (memory_error, inheritanceState) result" where
  "inheritanceStep policy st candidate =
     (case checkE ID_Validate [icTargetClaimID candidate, icSourceClaimID candidate,
              icSourceEvidenceID candidate, icSourceEventID candidate] of
        Inl e \<Rightarrow> Inl (ErrInvalidEvidence ''inherited candidate identifier'')
      | Inr _ \<Rightarrow>
      if icTargetClaimID candidate = icSourceClaimID candidate
      then Inl (ErrInvalidEvidence ''inherited candidate is self-derived'')
      else (case RelationType_Validate (icRelation candidate) of
        Inl e \<Rightarrow> Inl (ErrInvalidEvidence ''inherited candidate relation'')
      | Inr _ \<Rightarrow>
      if icRelation candidate \<noteq> RelationAbstracts \<and> icRelation candidate \<noteq> RelationSplitFrom
      then Inl (ErrInvalidEvidence ''relation cannot inherit evidence'')
      else let
          target = icTargetClaimID candidate;
          targets = (perTarget st)(target := perTarget st target + 1);
          pair = (target, icSourceClaimID candidate);
          sources = (perSource st)(pair := perSource st pair + 1)
        in if targets target > MaxPerTarget (pInheritance policy)
        then Inl (ErrInvalidEvidence ''target claim exceeds inherited evidence limit'')
        else if sources pair > MaxPerSourceClaim (pInheritance policy)
        then Inl (ErrInvalidEvidence ''source claim exceeds per-target inheritance limit'')
        else if DedupeUnderlyingEvent (pInheritance policy)
        then (if icSourceEventID candidate \<in> underlying st target
              then Inl (ErrInvalidEvidence ''duplicate underlying event for target claim'')
              else Inr \<lparr>perTarget = targets, perSource = sources,
                     underlying = (underlying st)(target := insert (icSourceEventID candidate) (underlying st target))\<rparr>)
        else Inr \<lparr>perTarget = targets, perSource = sources, underlying = underlying st\<rparr>))"

definition ValidateInheritanceBatch ::
    "jcs \<Rightarrow> Policy \<Rightarrow> InheritedEvidenceCandidate list \<Rightarrow> (memory_error, unit) result" where
  "ValidateInheritanceBatch jcs policy candidates =
     (case RequireEnabled jcs policy of Inl e \<Rightarrow> Inl e | Inr _ \<Rightarrow>
      (case foldE (inheritanceStep policy) inheritanceInit candidates of
         Inl e \<Rightarrow> Inl e
       | Inr _ \<Rightarrow> ok))"

section \<open>The weight of a row\<close>

lemma default_policy_evidence [simp]:
  "pEvidence DefaultPolicyV2 = \<lparr>StatedWeight = 1000000, InferredWeight = 600000,
     UntrustedMultiplier = 250000, ObservedEnabled = False, SelfTalkForcedGrade = GradeInferred\<rparr>"
  "pInitialScope DefaultPolicyV2 = \<lparr>ScopeUserMessage = ScopeResidentUI, ScopeSelfTalk = ScopeAdminOnly,
     ScopeDerived = DerivedScopeNarrowestSource\<rparr>"
  "pInheritance DefaultPolicyV2 = \<lparr>WeightMultiplier = 500000, MaxDepth = 1, MaxPerTarget = 8,
     MaxPerSourceClaim = 2, DedupeUnderlyingEvent = True\<rparr>"
  by (simp_all add: DefaultPolicyV2_def)

definition effective_grade :: "EvidencePoint \<Rightarrow> EvidenceGrade" where
  "effective_grade point = (if epEventType point = EventSelfTalk then GradeInferred else epGrade point)"

definition weight_spec :: "EvidencePoint \<Rightarrow> int" where
  "weight_spec point =
     (if effective_grade point = GradeStated then 1000000 else 600000)
       div (if epTrust point = TrustUntrusted then 4 else 1)
       div (if epDerivation point = DerivationInherited then 2 else 1)"

text \<open>What a row must satisfy to be evidence at all.\<close>

definition provenance_ok :: "EvidencePoint \<Rightarrow> bool" where
  "provenance_ok point \<longleftrightarrow>
     (case epDerivation point of
        DerivationExtracted \<Rightarrow>
          epSourceEvidenceID point = None \<and> epInheritanceDepth point = 0
          \<and> epReason point = (if effective_grade point = GradeStated then EvidenceReasonSourceStated
                              else EvidenceReasonSourceInferred)
      | DerivationInherited \<Rightarrow>
          (\<exists>source. epSourceEvidenceID point = Some source \<and> source \<noteq> 0) \<and> epInheritanceDepth point = 1
          \<and> epReason point \<in> {EvidenceReasonInheritedAbstraction, EvidenceReasonInheritedSplit}
      | UnknownEvidenceDerivation s \<Rightarrow> False)"

definition evidence_admissible :: "EvidencePoint \<Rightarrow> bool" where
  "evidence_admissible point \<longleftrightarrow>
     epSourceEventID point \<noteq> 0 \<and> epEventType point \<in> {EventUserMessage, EventSelfTalk}
     \<and> (\<forall>s. epPolarity point \<noteq> UnknownEvidencePolarity s) \<and> (\<forall>s. epGrade point \<noteq> UnknownEvidenceGrade s)
     \<and> (\<forall>s. epTrust point \<noteq> UnknownTrustLevel s) \<and> effective_grade point \<noteq> GradeObserved
     \<and> (\<forall>s. epReason point \<noteq> UnknownEvidenceReason s) \<and> provenance_ok point"

lemma validateEvidencePoint_ok:
  assumes "enabled_policy policy"
  shows "validateEvidencePoint policy point = ok \<longleftrightarrow>
    epSourceEventID point \<noteq> 0 \<and> epEventType point \<in> {EventUserMessage, EventSelfTalk}
     \<and> (\<forall>s. epPolarity point \<noteq> UnknownEvidencePolarity s) \<and> (\<forall>s. epGrade point \<noteq> UnknownEvidenceGrade s)
     \<and> (\<forall>s. epTrust point \<noteq> UnknownTrustLevel s) \<and> (\<forall>s. epDerivation point \<noteq> UnknownEvidenceDerivation s)
     \<and> (\<forall>s. epReason point \<noteq> UnknownEvidenceReason s)"
  using enabled_policy_rules(7,8) [OF assms]
  by (auto simp: validateEvidencePoint_def case_result_ok)

lemma validateEvidenceProvenance_ok:
  assumes "enabled_policy policy" and "grade \<in> {GradeStated, GradeInferred}"
    and "grade = effective_grade point" and "\<forall>s. epDerivation point \<noteq> UnknownEvidenceDerivation s"
  shows "validateEvidenceProvenance point grade policy = ok \<longleftrightarrow> provenance_ok point"
proof -
  have "MaxDepth (pInheritance policy) = 1"
    using enabled_policy_rules(5) [OF assms(1)] by simp
  then show ?thesis
    using assms(2-4) unfolding validateEvidenceProvenance_def provenance_ok_def
    by (cases "epDerivation point") (auto split: option.splits sum.splits)
qed

lemma evidenceWeight_eq:
  assumes "enabled_policy policy" and "effective_grade point \<in> {GradeStated, GradeInferred}"
  shows "evidenceWeight policy point (effective_grade point) = Inr (weight_spec point)"
  using assms(2) enabled_policy_rules(1,5) [OF assms(1)]
  by (auto simp: evidenceWeight_def weight_spec_def multiplyDivideFloor_eq maxInt64_def NewWeight_def)

lemma EvaluateEvidence_eq:
  assumes "jcs_faithful jcs" and "enabled_policy policy" and "evidence_admissible point"
  shows "EvaluateEvidence jcs policy point =
    Inr (EvidencePoint.extend point (EvaluatedEvidence.fields (effective_grade point) (weight_spec point)))"
proof -
  have enabled: "RequireEnabled jcs policy = ok"
    using assms by (simp add: RequireEnabled_ok_iff)
  have known: "\<forall>s. epDerivation point \<noteq> UnknownEvidenceDerivation s"
    using assms(3) by (auto simp: evidence_admissible_def provenance_ok_def)
  have valid: "validateEvidencePoint policy point = ok"
    using assms(3) known by (simp add: validateEvidencePoint_ok [OF assms(2)] evidence_admissible_def)
  have forced: "SelfTalkForcedGrade (pEvidence policy) = GradeInferred"
    using enabled_policy_rules(1) [OF assms(2)] by simp
  then have grade: "(if epEventType point = EventSelfTalk then SelfTalkForcedGrade (pEvidence policy)
      else epGrade point) = effective_grade point"
    by (simp add: effective_grade_def)
  have range: "effective_grade point \<in> {GradeStated, GradeInferred}"
    using assms(3) by (cases "epGrade point") (auto simp: evidence_admissible_def effective_grade_def)
  have prov: "validateEvidenceProvenance point (effective_grade point) policy = ok"
    using assms(3) validateEvidenceProvenance_ok [OF assms(2) range refl known]
    by (simp add: evidence_admissible_def)
  show ?thesis
    unfolding EvaluateEvidence_def enabled valid grade Let_def prov evidenceWeight_eq [OF assms(2) range]
    using range by auto
qed

text \<open>And nothing else is: a row that is evaluated was admissible.\<close>

lemma EvaluateEvidence_admissible:
  assumes "jcs_faithful jcs" and "EvaluateEvidence jcs policy point = Inr evaluated"
  shows "enabled_policy policy \<and> evidence_admissible point"
proof -
  have "RequireEnabled jcs policy = ok"
    using assms(2) by (auto simp: EvaluateEvidence_def split: sum.splits)
  then have enabled: "enabled_policy policy"
    by (simp add: RequireEnabled_ok_iff [OF assms(1)])
  have forced: "SelfTalkForcedGrade (pEvidence policy) = GradeInferred" "\<not> ObservedEnabled (pEvidence policy)"
    using enabled_policy_rules(1) [OF enabled] by simp_all
  have parts: "validateEvidencePoint policy point = ok" "effective_grade point \<noteq> GradeObserved"
    "validateEvidenceProvenance point (effective_grade point) policy = ok"
    using assms(2) forced
    by (auto simp: EvaluateEvidence_def Let_def effective_grade_def split: sum.splits if_splits)
  note valid = parts(1) [unfolded validateEvidencePoint_ok [OF enabled]]
  have "effective_grade point \<in> {GradeStated, GradeInferred}"
    using valid parts(2) by (cases "epGrade point") (auto simp: effective_grade_def)
  then have "provenance_ok point"
    using parts(3) valid validateEvidenceProvenance_ok [OF enabled _ refl] by blast
  with enabled valid parts(2) show ?thesis
    by (simp add: evidence_admissible_def)
qed

section \<open>Deduplication keeps the greatest weight of every key\<close>

definition row_ok :: "EvaluatedEvidence \<Rightarrow> bool" where
  "row_ok point \<longleftrightarrow>
     epSourceEventID point \<noteq> 0 \<and> 0 \<le> eeEffectiveWeight point \<and> eeEffectiveWeight point \<le> maxInt64
     \<and> epPolarity point \<in> {PolaritySupport, PolarityContradict}"

definition keep :: "(evidenceKey \<times> EvaluatedEvidence) list \<Rightarrow> EvaluatedEvidence
    \<Rightarrow> (evidenceKey \<times> EvaluatedEvidence) list" where
  "keep m point =
     (case map_of m (evidence_key point) of
        None \<Rightarrow> AList.update (evidence_key point) point m
      | Some previous \<Rightarrow>
          if eeEffectiveWeight point > eeEffectiveWeight previous
          then AList.update (evidence_key point) point m else m)"

lemma dedupeStep_Inr:
  assumes "eeEffectiveWeight point \<le> maxInt64"
  shows "dedupeStep m point = Inr m' \<longleftrightarrow> row_ok point \<and> m' = keep m point"
proof -
  have "epPolarity point \<in> {PolaritySupport, PolarityContradict}
      \<longleftrightarrow> (\<forall>s. epPolarity point \<noteq> UnknownEvidencePolarity s)"
    by (cases "epPolarity point") auto
  then show ?thesis
    using assms unfolding dedupeStep_def case_result_ok
    by (auto simp: row_ok_def keep_def split: option.splits)
qed

lemma foldE_dedupe_Inr:
  assumes "\<forall>point\<in>set points. eeEffectiveWeight point \<le> maxInt64"
  shows "foldE dedupeStep m points = Inr m' \<longleftrightarrow>
    (\<forall>point\<in>set points. row_ok point) \<and> m' = foldl keep m points"
  using assms
proof (induction points arbitrary: m)
  case (Cons p ps)
  then have p: "eeEffectiveWeight p \<le> maxInt64"
    and IH: "\<And>m. foldE dedupeStep m ps = Inr m' \<longleftrightarrow> (\<forall>point\<in>set ps. row_ok point) \<and> m' = foldl keep m ps"
    by simp_all
  show ?case
  proof (cases "dedupeStep m p")
    case (Inl e)
    then have "\<not> row_ok p"
      using dedupeStep_Inr [OF p, of m "keep m p"] by simp
    with Inl show ?thesis by simp
  next
    case (Inr b)
    then have "row_ok p" "b = keep m p"
      using dedupeStep_Inr [OF p, of m b] by simp_all
    with Inr show ?thesis by (simp add: IH)
  qed
qed auto

definition dedupe_inv :: "EvaluatedEvidence set \<Rightarrow> (evidenceKey \<times> EvaluatedEvidence) list \<Rightarrow> bool" where
  "dedupe_inv seen m \<longleftrightarrow>
     distinct (map fst m)
     \<and> (\<forall>k q. map_of m k = Some q \<longrightarrow>
          q \<in> seen \<and> evidence_key q = k
          \<and> (\<forall>p\<in>seen. evidence_key p = k \<longrightarrow> eeEffectiveWeight p \<le> eeEffectiveWeight q))
     \<and> (\<forall>p\<in>seen. map_of m (evidence_key p) \<noteq> None)"

lemma dedupe_invD:
  assumes "dedupe_inv seen m" and "map_of m k = Some q"
  shows "q \<in> seen" and "evidence_key q = k"
    and "\<And>p. p \<in> seen \<Longrightarrow> evidence_key p = k \<Longrightarrow> eeEffectiveWeight p \<le> eeEffectiveWeight q"
  using assms unfolding dedupe_inv_def by blast+

lemma keep_inv:
  assumes "dedupe_inv seen m"
  shows "dedupe_inv (insert p seen) (keep m p)"
proof (cases "map_of m (evidence_key p)")
  case None
  then have "\<And>q. q \<in> seen \<Longrightarrow> evidence_key q \<noteq> evidence_key p"
    using assms by (auto simp: dedupe_inv_def)
  with None assms show ?thesis
    by (auto simp: dedupe_inv_def keep_def distinct_update update_conv')
next
  case (Some q)
  then have q: "q \<in> seen" "evidence_key q = evidence_key p"
    "\<And>r. r \<in> seen \<Longrightarrow> evidence_key r = evidence_key p \<Longrightarrow> eeEffectiveWeight r \<le> eeEffectiveWeight q"
    using dedupe_invD [OF assms Some] by blast+
  show ?thesis
  proof (cases "eeEffectiveWeight p > eeEffectiveWeight q")
    case True
    then have m': "keep m p = AList.update (evidence_key p) p m"
      using Some by (simp add: keep_def)
    have "eeEffectiveWeight r \<le> eeEffectiveWeight p" if "r \<in> seen" "evidence_key r = evidence_key p" for r
      using q(3) [OF that] True by linarith
    with assms show ?thesis
      unfolding m' dedupe_inv_def by (auto simp: distinct_update update_conv')
  next
    case False
    then have m': "keep m p = m"
      using Some by (simp add: keep_def)
    have "eeEffectiveWeight r \<le> eeEffectiveWeight q'"
      if "map_of m k = Some q'" "r \<in> insert p seen" "evidence_key r = k" for k q' r
      using that False Some dedupe_invD(3) [OF assms that(1)] by auto
    moreover have "distinct (map fst m)" "\<forall>r\<in>insert p seen. map_of m (evidence_key r) \<noteq> None"
      using assms Some unfolding dedupe_inv_def by blast+
    ultimately show ?thesis
      using dedupe_invD(1,2) [OF assms] unfolding m' dedupe_inv_def by blast
  qed
qed

lemma foldl_keep_inv: "dedupe_inv seen m \<Longrightarrow> dedupe_inv (seen \<union> set ps) (foldl keep m ps)"
proof (induction ps arbitrary: seen m)
  case (Cons p ps)
  then have "dedupe_inv (insert p seen \<union> set ps) (foldl keep (keep m p) ps)"
    by (blast intro: keep_inv)
  then show ?case by simp
qed simp

lemma foldl_keep_Nil_inv: "dedupe_inv (set ps) (foldl keep [] ps)"
proof -
  have "dedupe_inv {} []"
    by (simp add: dedupe_inv_def)
  then have "dedupe_inv ({} \<union> set ps) (foldl keep [] ps)"
    by (rule foldl_keep_inv)
  then show ?thesis by simp
qed

lemma dedupe_inv_row:
  assumes "dedupe_inv seen m" and "(k, q) \<in> set m"
  shows "q \<in> seen" and "evidence_key q = k"
    and "\<And>p. p \<in> seen \<Longrightarrow> evidence_key p = k \<Longrightarrow> eeEffectiveWeight p \<le> eeEffectiveWeight q"
proof -
  have "map_of m k = Some q"
    using assms by (simp add: dedupe_inv_def map_of_eq_Some_iff)
  with assms(1) show "q \<in> seen" and "evidence_key q = k"
    and "\<And>p. p \<in> seen \<Longrightarrow> evidence_key p = k \<Longrightarrow> eeEffectiveWeight p \<le> eeEffectiveWeight q"
    by (auto dest: dedupe_invD)
qed

lemma dedupe_inv_keys: "dedupe_inv seen m \<Longrightarrow> fst ` set m = evidence_key ` seen"
proof -
  assume inv: "dedupe_inv seen m"
  have "k \<in> evidence_key ` seen" if "(k, q) \<in> set m" for k q
    using dedupe_inv_row(1,2) [OF inv that] by auto
  moreover have "evidence_key p \<in> fst ` set m" if "p \<in> seen" for p
    using inv that by (auto simp: dedupe_inv_def map_of_eq_None_iff)
  ultimately show ?thesis by force
qed

section \<open>The sums of an aggregation\<close>

definition polarity_weight :: "EvidencePolarity \<Rightarrow> EvaluatedEvidence \<Rightarrow> int" where
  "polarity_weight pol point = (if epPolarity point = pol then eeEffectiveWeight point else 0)"

definition weight_sum :: "EvidencePolarity \<Rightarrow> EvaluatedEvidence list \<Rightarrow> int" where
  "weight_sum pol rows = sum_list (map (polarity_weight pol) rows)"

definition supports :: "(EvaluatedEvidence \<Rightarrow> bool) \<Rightarrow> EvaluatedEvidence list \<Rightarrow> bool" where
  "supports P rows \<longleftrightarrow> (\<exists>p\<in>set rows. epPolarity p = PolaritySupport \<and> P p)"

definition aggregated :: "aggregateState \<Rightarrow> EvaluatedEvidence list \<Rightarrow> aggregateState" where
  "aggregated st rows =
     \<lparr>agSupport = agSupport st + weight_sum PolaritySupport rows,
      agContradict = agContradict st + weight_sum PolarityContradict rows,
      agDistinct = agDistinct st \<union> set (map epSourceEventID (filter (\<lambda>p. epPolarity p = PolaritySupport) rows)),
      agTrusted = (agTrusted st \<or> supports (\<lambda>p. epTrust p = TrustTrusted) rows),
      agExternal = (agExternal st \<or> supports (\<lambda>p. epEventType p \<noteq> EventSelfTalk) rows),
      agSubject = (agSubject st
        \<or> supports (\<lambda>p. epEventType p = EventUserMessage \<and> epActorIsSubject p) rows),
      agPerspective = (agPerspective st
        \<or> supports (\<lambda>p. epEventType p = EventUserMessage \<and> epActorIsPerspective p) rows)\<rparr>"

lemma weight_sum_Cons [simp]: "weight_sum pol (p # rows) = polarity_weight pol p + weight_sum pol rows"
  and weight_sum_Nil [simp]: "weight_sum pol [] = 0"
  by (simp_all add: weight_sum_def)

lemma supports_Cons [simp]:
    "supports P (p # rows) \<longleftrightarrow> epPolarity p = PolaritySupport \<and> P p \<or> supports P rows"
  and supports_Nil [simp]: "\<not> supports P []"
  by (auto simp: supports_def)

lemma weight_sum_nonneg: "\<forall>p\<in>set rows. row_ok p \<Longrightarrow> 0 \<le> weight_sum pol rows"
  by (induction rows) (auto simp: polarity_weight_def row_ok_def)

lemma aggregated_Nil [simp]: "aggregated st [] = st"
  by (simp add: aggregated_def)

lemma aggregated_Cons: "aggregated (aggregated st [p]) rows = aggregated st (p # rows)"
  by (simp add: aggregated_def disj_assoc add.assoc)

lemma aggregateStep_eq:
  assumes "row_ok p" and "0 \<le> agSupport st" "agSupport st \<le> maxInt64"
    and "0 \<le> agContradict st" "agContradict st \<le> maxInt64"
  shows "aggregateStep st p =
    (if agSupport (aggregated st [p]) \<le> maxInt64 \<and> agContradict (aggregated st [p]) \<le> maxInt64
     then Inr (aggregated st [p]) else Inl (ErrInvalidEvidence ''aggregate weight''))"
proof -
  have range: "int64 (agSupport st)" "int64 (agContradict st)" "int64 (eeEffectiveWeight p)" "0 \<le> eeEffectiveWeight p"
    using assms by (auto simp: int64_maxInt64_iff minInt64_def row_ok_def)
  consider "epPolarity p = PolaritySupport" | "epPolarity p = PolarityContradict"
    using assms(1) by (auto simp: row_ok_def)
  then show ?thesis
  proof cases
    case 1
    have "checkedAdd (agSupport st) (eeEffectiveWeight p) =
        (if agSupport st + eeEffectiveWeight p \<le> maxInt64 then Inr (agSupport st + eeEffectiveWeight p)
         else Inl (MemoryError ''integer addition overflows''))"
      using range assms by (intro checkedAdd_nonneg) auto
    then show ?thesis
      using 1 assms by (simp add: aggregateStep_def aggregated_def polarity_weight_def)
  next
    case 2
    have "checkedAdd (agContradict st) (eeEffectiveWeight p) =
        (if agContradict st + eeEffectiveWeight p \<le> maxInt64 then Inr (agContradict st + eeEffectiveWeight p)
         else Inl (MemoryError ''integer addition overflows''))"
      using range assms by (intro checkedAdd_nonneg) auto
    then show ?thesis
      using 2 assms by (simp add: aggregateStep_def aggregated_def polarity_weight_def)
  qed
qed

lemma foldE_aggregate_eq:
  assumes "\<forall>p\<in>set rows. row_ok p" and "0 \<le> agSupport st" "agSupport st \<le> maxInt64"
    and "0 \<le> agContradict st" "agContradict st \<le> maxInt64"
  shows "foldE aggregateStep st rows =
    (if agSupport (aggregated st rows) \<le> maxInt64 \<and> agContradict (aggregated st rows) \<le> maxInt64
     then Inr (aggregated st rows) else Inl (ErrInvalidEvidence ''aggregate weight''))"
  using assms
proof (induction rows arbitrary: st)
  case Nil
  then show ?case by simp
next
  case (Cons p rows)
  let ?st = "aggregated st [p]"
  have nonneg: "0 \<le> polarity_weight pol p" for pol
    using Cons.prems(1) by (simp add: polarity_weight_def row_ok_def)
  have tail: "0 \<le> weight_sum pol rows" for pol
    using Cons.prems(1) by (intro weight_sum_nonneg) simp
  have step: "aggregateStep st p =
    (if agSupport ?st \<le> maxInt64 \<and> agContradict ?st \<le> maxInt64 then Inr ?st
     else Inl (ErrInvalidEvidence ''aggregate weight''))"
    using Cons.prems by (intro aggregateStep_eq) auto
  show ?case
  proof (cases "agSupport ?st \<le> maxInt64 \<and> agContradict ?st \<le> maxInt64")
    case True
    then have "foldE aggregateStep ?st rows =
      (if agSupport (aggregated ?st rows) \<le> maxInt64 \<and> agContradict (aggregated ?st rows) \<le> maxInt64
       then Inr (aggregated ?st rows) else Inl (ErrInvalidEvidence ''aggregate weight''))"
      using Cons.prems nonneg by (intro Cons.IH) (auto simp: aggregated_def)
    then show ?thesis
      using True step by (simp add: aggregated_Cons)
  next
    case False
    moreover have "agSupport ?st \<le> agSupport (aggregated st (p # rows))"
      "agContradict ?st \<le> agContradict (aggregated st (p # rows))"
      using tail by (simp_all add: aggregated_def)
    ultimately show ?thesis
      using step by auto
  qed
qed

lemma aggregated_perm: "mset rows = mset rows' \<Longrightarrow> aggregated st rows = aggregated st rows'"
proof -
  assume "mset rows = mset rows'"
  then have "set rows = set rows'" and "weight_sum pol rows = weight_sum pol rows'" for pol
    by (auto simp: weight_sum_def dest: mset_eq_setD) (metis mset_map sum_mset_sum_list)
  then show ?thesis by (simp add: aggregated_def supports_def)
qed

text \<open>
  The sums in terms of the rows: every source event counts once per polarity, with the
  greatest weight among its rows.
\<close>

definition events_of :: "EvidencePolarity \<Rightarrow> EvaluatedEvidence list \<Rightarrow> ID set" where
  "events_of pol points = epSourceEventID ` {p\<in>set points. epPolarity p = pol}"

definition max_weight :: "EvaluatedEvidence list \<Rightarrow> evidenceKey \<Rightarrow> int" where
  "max_weight points k = Max (eeEffectiveWeight ` {p\<in>set points. evidence_key p = k})"

definition total_weight :: "EvidencePolarity \<Rightarrow> EvaluatedEvidence list \<Rightarrow> int" where
  "total_weight pol points = (\<Sum>event\<in>events_of pol points. max_weight points (event, pol))"

lemma dedupe_inv_weight:
  assumes "dedupe_inv (set points) m" and "(k, q) \<in> set m"
  shows "eeEffectiveWeight q = max_weight points k"
  unfolding max_weight_def
  by (rule Max_eqI [symmetric]) (use dedupe_inv_row [OF assms] in auto)

lemma dedupe_weight_sum:
  assumes inv: "dedupe_inv (set points) m"
  shows "weight_sum pol (map snd m) = total_weight pol points"
proof -
  let ?h = "\<lambda>k. if snd k = pol then max_weight points k else 0"
  have dist: "distinct (map fst m)"
    using inv by (simp add: dedupe_inv_def)
  have row: "polarity_weight pol (snd x) = ?h (fst x)" if "x \<in> set m" for x
    using dedupe_inv_row(2) [OF inv, of "fst x" "snd x"] dedupe_inv_weight [OF inv, of "fst x" "snd x"] that
    by (cases x) (auto simp: polarity_weight_def evidence_key_def)
  have "weight_sum pol (map snd m) = sum_list (map (\<lambda>x. polarity_weight pol (snd x)) m)"
    by (simp add: weight_sum_def comp_def)
  also have "\<dots> = sum_list (map ?h (map fst m))"
    unfolding map_map comp_def by (rule arg_cong [where f = sum_list], rule map_cong [OF refl], rule row)
  also have "\<dots> = sum ?h (fst ` set m)"
    by (simp only: sum_list_distinct_conv_sum_set [OF dist] set_map)
  also have "\<dots> = sum ?h (evidence_key ` set points)"
    by (simp add: dedupe_inv_keys [OF inv])
  also have "\<dots> = sum (max_weight points) {k\<in>evidence_key ` set points. snd k = pol}"
    by (simp add: sum.inter_filter)
  also have "{k\<in>evidence_key ` set points. snd k = pol} = (\<lambda>event. (event, pol)) ` events_of pol points"
    by (auto simp: events_of_def evidence_key_def)
  also have "sum (max_weight points) \<dots> = total_weight pol points"
    by (simp add: total_weight_def sum.reindex inj_on_def)
  finally show ?thesis .
qed

lemma dedupe_events:
  assumes inv: "dedupe_inv (set points) m"
  shows "set (map epSourceEventID (filter (\<lambda>p. epPolarity p = pol) (map snd m))) = events_of pol points"
proof -
  have "events_of pol points = fst ` {k\<in>evidence_key ` set points. snd k = pol}"
    by (force simp: events_of_def evidence_key_def image_iff)
  also have "\<dots> = fst ` {k\<in>fst ` set m. snd k = pol}"
    by (simp add: dedupe_inv_keys [OF inv])
  also have "\<dots> = set (map epSourceEventID (filter (\<lambda>p. epPolarity p = pol) (map snd m)))"
    using dedupe_inv_row(2) [OF inv] by (force simp: evidence_key_def image_iff)
  finally show ?thesis by simp
qed

definition retained :: "EvaluatedEvidence list \<Rightarrow> EvaluatedEvidence list" where
  "retained points = map snd (foldl keep [] points)"

lemma retained_rows: "\<forall>p\<in>set points. row_ok p \<Longrightarrow> \<forall>p\<in>set (retained points). row_ok p"
  using dedupe_inv_row(1) [OF foldl_keep_Nil_inv] by (fastforce simp: retained_def)

definition permutes_rows :: "iteration \<Rightarrow> bool" where
  "permutes_rows iter \<longleftrightarrow> (\<forall>rows. mset (iter rows) = mset rows)"

lemma AggregateEvidence_unfold:
  assumes "jcs_faithful jcs" and "enabled_policy policy" and "\<forall>p\<in>set points. row_ok p"
    and "permutes_rows iter"
  shows "AggregateEvidence jcs iter policy points =
    (if total_weight PolaritySupport points \<le> maxInt64 \<and> total_weight PolarityContradict points \<le> maxInt64
     then aggregateFinish policy (aggregated aggregateInit (retained points))
     else Inl (ErrInvalidEvidence ''aggregate weight''))"
proof -
  have enabled: "RequireEnabled jcs policy = ok"
    using assms by (simp add: RequireEnabled_ok_iff)
  have dedupe: "foldE dedupeStep [] points = Inr (foldl keep [] points)"
    using assms(3) by (simp add: foldE_dedupe_Inr row_ok_def)
  have perm: "mset (iter (retained points)) = mset (retained points)"
    using assms(4) by (simp add: permutes_rows_def)
  then have rows: "\<forall>p\<in>set (iter (retained points)). row_ok p"
    using retained_rows [OF assms(3)] by (metis mset_eq_setD)
  have sums: "agSupport (aggregated aggregateInit (retained points)) = total_weight PolaritySupport points"
    "agContradict (aggregated aggregateInit (retained points)) = total_weight PolarityContradict points"
    using dedupe_weight_sum [OF foldl_keep_Nil_inv]
    by (simp_all add: aggregated_def aggregateInit_def retained_def)
  have init: "agSupport aggregateInit = 0" "agContradict aggregateInit = 0" "0 \<le> maxInt64"
    by (simp_all add: aggregateInit_def maxInt64_def)
  have "foldE aggregateStep aggregateInit (iter (retained points)) =
    (if total_weight PolaritySupport points \<le> maxInt64 \<and> total_weight PolarityContradict points \<le> maxInt64
     then Inr (aggregated aggregateInit (retained points))
     else Inl (ErrInvalidEvidence ''aggregate weight''))"
    using foldE_aggregate_eq [OF rows, of aggregateInit] init
    unfolding aggregated_perm [OF perm] sums by simp
  then show ?thesis
    unfolding AggregateEvidence_def enabled dedupe retained_def by simp
qed

lemma total_weight_nonneg:
  "\<forall>p\<in>set points. row_ok p \<Longrightarrow> 0 \<le> total_weight pol points"
  using dedupe_weight_sum [OF foldl_keep_Nil_inv, of pol points] weight_sum_nonneg [OF retained_rows]
  by (metis retained_def)

text \<open>The confidence of a claim: the share of support, with one stated event held back in V5.\<close>

definition confidence_spec :: "PolicyVersion \<Rightarrow> int \<Rightarrow> int \<Rightarrow> int" where
  "confidence_spec version support contradict =
     support * 1000000 div (support + contradict + (if version = PolicyVersionV5 then 1000000 else 0))"

lemma aggregateFinish_eq:
  assumes "0 \<le> agSupport st" and "0 \<le> agContradict st"
    and "agSupport st + agContradict st + 1000000 \<le> maxInt64"
  shows "aggregateFinish policy st =
    Inr \<lparr>eaSupportWeight = agSupport st, eaContradictWeight = agContradict st,
      eaConfidence = confidence_spec (pVersion policy) (agSupport st) (agContradict st),
      eaDistinctSupportEvents = int (card (agDistinct st)),
      eaHasTrustedSupport = agTrusted st, eaHasExternalSupport = agExternal st,
      eaHasSubjectUserSupport = agSubject st, eaHasPerspectiveUserSupport = agPerspective st\<rparr>"
proof -
  let ?t = "agSupport st + agContradict st"
  have i: "int64 (agSupport st)" "int64 (agContradict st)" "int64 ?t" "int64 (?t + 1000000)"
    using assms by (auto simp: int64_maxInt64_iff minInt64_def)
  have add: "checkedAdd (agSupport st) (agContradict st) = Inr ?t"
    "checkedAdd ?t 1000000 = Inr (?t + 1000000)"
    using i assms by (simp_all add: checkedAdd_eq int64_def)
  have ratio: "ratioOf (agSupport st) ?t = Inr (agSupport st * 1000000 div ?t)"
    "ratioOf (agSupport st) (?t + 1000000) = Inr (agSupport st * 1000000 div (?t + 1000000))"
    using assms i by (auto intro!: ratioOf_eq)
  show ?thesis
    using assms(1,2) by (simp add: aggregateFinish_def add ratio confidence_spec_def NewWeight_def NewCount_def)
qed

section \<open>What the inheritance limits admit\<close>

definition candidate_ok :: "InheritedEvidenceCandidate \<Rightarrow> bool" where
  "candidate_ok c \<longleftrightarrow>
     icTargetClaimID c \<noteq> 0 \<and> icSourceClaimID c \<noteq> 0 \<and> icSourceEvidenceID c \<noteq> 0 \<and> icSourceEventID c \<noteq> 0
     \<and> icTargetClaimID c \<noteq> icSourceClaimID c \<and> icRelation c \<in> {RelationAbstracts, RelationSplitFrom}"

definition target_count :: "InheritedEvidenceCandidate list \<Rightarrow> ID \<Rightarrow> int" where
  "target_count cs t = int (length (filter (\<lambda>c. icTargetClaimID c = t) cs))"

definition pair_count :: "InheritedEvidenceCandidate list \<Rightarrow> ID \<times> ID \<Rightarrow> int" where
  "pair_count cs p = int (length (filter (\<lambda>c. (icTargetClaimID c, icSourceClaimID c) = p) cs))"

definition batch_ok :: "InheritedEvidenceCandidate list \<Rightarrow> bool" where
  "batch_ok cs \<longleftrightarrow>
     (\<forall>c\<in>set cs. candidate_ok c)
     \<and> (\<forall>t. target_count cs t \<le> 8) \<and> (\<forall>p. pair_count cs p \<le> 2)
     \<and> distinct (map (\<lambda>c. (icTargetClaimID c, icSourceEventID c)) cs)"

definition batch_state :: "InheritedEvidenceCandidate list \<Rightarrow> inheritanceState" where
  "batch_state cs = \<lparr>perTarget = target_count cs, perSource = pair_count cs,
     underlying = (\<lambda>t. icSourceEventID ` {c\<in>set cs. icTargetClaimID c = t})\<rparr>"

lemma count_snoc:
  "target_count (cs @ [c]) = (target_count cs)(icTargetClaimID c := target_count cs (icTargetClaimID c) + 1)"
  "pair_count (cs @ [c]) = (pair_count cs)((icTargetClaimID c, icSourceClaimID c) :=
     pair_count cs (icTargetClaimID c, icSourceClaimID c) + 1)"
  by (auto simp: target_count_def pair_count_def fun_eq_iff)

lemma underlying_snoc:
  "underlying (batch_state (cs @ [c])) = (underlying (batch_state cs))
     (icTargetClaimID c := insert (icSourceEventID c) (underlying (batch_state cs) (icTargetClaimID c)))"
  by (auto simp: batch_state_def fun_eq_iff)

lemma upd_bound: "\<forall>x. f x \<le> n \<Longrightarrow> (\<forall>x. (f(a := v)) x \<le> n) \<longleftrightarrow> v \<le> (n::int)"
  by auto

lemma batch_ok_appendD: "batch_ok (xs @ ys) \<Longrightarrow> batch_ok xs"
proof -
  assume a: "batch_ok (xs @ ys)"
  have "target_count xs t \<le> target_count (xs @ ys) t" "pair_count xs p \<le> pair_count (xs @ ys) p" for t p
    by (simp_all add: target_count_def pair_count_def)
  then have "(\<forall>t. target_count xs t \<le> 8) \<and> (\<forall>p. pair_count xs p \<le> 2)"
    using a unfolding batch_ok_def by (meson order_trans)
  with a show ?thesis
    unfolding batch_ok_def by simp
qed

lemma batch_ok_snoc:
  assumes "batch_ok cs"
  shows "batch_ok (cs @ [c]) \<longleftrightarrow> candidate_ok c
    \<and> target_count cs (icTargetClaimID c) + 1 \<le> 8
    \<and> pair_count cs (icTargetClaimID c, icSourceClaimID c) + 1 \<le> 2
    \<and> icSourceEventID c \<notin> underlying (batch_state cs) (icTargetClaimID c)"
proof -
  have "(\<forall>t. target_count (cs @ [c]) t \<le> 8) \<longleftrightarrow> target_count cs (icTargetClaimID c) + 1 \<le> 8"
    using assms unfolding count_snoc batch_ok_def by (intro upd_bound) blast
  moreover have "(\<forall>p. pair_count (cs @ [c]) p \<le> 2)
      \<longleftrightarrow> pair_count cs (icTargetClaimID c, icSourceClaimID c) + 1 \<le> 2"
    using assms unfolding count_snoc batch_ok_def by (intro upd_bound) blast
  moreover have "distinct (map (\<lambda>c. (icTargetClaimID c, icSourceEventID c)) (cs @ [c]))
      \<longleftrightarrow> icSourceEventID c \<notin> underlying (batch_state cs) (icTargetClaimID c)"
    using assms by (auto simp: batch_ok_def batch_state_def image_iff)
  moreover have "(\<forall>d\<in>set (cs @ [c]). candidate_ok d) \<longleftrightarrow> candidate_ok c"
    using assms by (auto simp: batch_ok_def)
  ultimately show ?thesis
    unfolding batch_ok_def [of "cs @ [c]"] by (simp only: conj_assoc)
qed

lemma inheritanceStep_Inr:
  assumes "enabled_policy policy" and "batch_ok cs"
  shows "inheritanceStep policy (batch_state cs) c = Inr st \<longleftrightarrow>
    batch_ok (cs @ [c]) \<and> st = batch_state (cs @ [c])"
proof -
  have rules: "pInheritance policy = \<lparr>WeightMultiplier = 500000, MaxDepth = 1, MaxPerTarget = 8,
      MaxPerSourceClaim = 2, DedupeUnderlyingEvent = True\<rparr>"
    using enabled_policy_rules(5) [OF assms(1)] by simp
  let ?t = "icTargetClaimID c"
  let ?p = "(?t, icSourceClaimID c)"
  have state: "batch_state (cs @ [c]) =
      \<lparr>perTarget = (target_count cs)(?t := target_count cs ?t + 1),
       perSource = (pair_count cs)(?p := pair_count cs ?p + 1),
       underlying = (underlying (batch_state cs))
         (?t := insert (icSourceEventID c) (underlying (batch_state cs) ?t))\<rparr>"
    by (rule inheritanceState.equality) (simp_all add: batch_state_def count_snoc underlying_snoc [unfolded batch_state_def, simplified])
  have sel: "perTarget (batch_state cs) = target_count cs" "perSource (batch_state cs) = pair_count cs"
    by (simp_all add: batch_state_def)
  show ?thesis
    unfolding batch_ok_snoc [OF assms(2)] inheritanceStep_def case_result_ok rules state sel Let_def
    by (auto simp: candidate_ok_def case_result_ok)
qed

lemma foldE_inheritance_Inr:
  assumes "enabled_policy policy" and "batch_ok seen"
  shows "(\<exists>st. foldE (inheritanceStep policy) (batch_state seen) cs = Inr st) \<longleftrightarrow> batch_ok (seen @ cs)"
  using assms(2)
proof (induction cs arbitrary: seen)
  case Nil
  then show ?case by simp
next
  case (Cons c cs)
  note step = inheritanceStep_Inr [OF assms(1) Cons.prems, of c]
  show ?case
  proof (cases "batch_ok (seen @ [c])")
    case True
    then show ?thesis
      using step [of "batch_state (seen @ [c])"] Cons.IH [OF True] by simp
  next
    case False
    then have "\<not> batch_ok (seen @ c # cs)"
      using batch_ok_appendD [of "seen @ [c]" cs] by auto
    with False show ?thesis
      using step by (cases "inheritanceStep policy (batch_state seen) c") auto
  qed
qed

lemma ValidateInheritanceBatch_ok_iff:
  assumes "jcs_faithful jcs" and "enabled_policy policy"
  shows "ValidateInheritanceBatch jcs policy cs = ok \<longleftrightarrow> batch_ok cs"
proof -
  have enabled: "RequireEnabled jcs policy = ok"
    using assms by (simp add: RequireEnabled_ok_iff)
  have "inheritanceInit = batch_state []"
    by (simp add: inheritanceInit_def batch_state_def target_count_def pair_count_def fun_eq_iff)
  moreover have "batch_ok []"
    by (simp add: batch_ok_def target_count_def pair_count_def)
  ultimately have "(\<exists>st. foldE (inheritanceStep policy) inheritanceInit cs = Inr st) \<longleftrightarrow> batch_ok cs"
    using foldE_inheritance_Inr [OF assms(2), of "[]" cs] by simp
  then show ?thesis
    unfolding ValidateInheritanceBatch_def enabled by (auto split: sum.splits)
qed

section \<open>View scopes\<close>

lemma NarrowestSourceScope_eq:
  assumes "jcs_faithful jcs" and "enabled_policy policy" and "scopes \<noteq> []"
    and "\<forall>scope\<in>set scopes. \<forall>s. scope \<noteq> UnknownViewScope s"
  shows "NarrowestSourceScope jcs policy scopes =
    Inr (if ScopeAdminOnly \<in> set scopes then ScopeAdminOnly else ScopeResidentUI)"
proof -
  let ?f = "\<lambda>result scope. case ViewScope_Validate scope of
                     Inl e \<Rightarrow> Inl (ErrInvalidEvidence ''scope'')
                   | Inr _ \<Rightarrow> Inr (if scope = ScopeAdminOnly then ScopeAdminOnly else result)"
  have "foldE ?f r scopes = Inr (if ScopeAdminOnly \<in> set scopes then ScopeAdminOnly else r)" for r
    using assms(4)
  proof (induction scopes arbitrary: r)
    case (Cons scope scopes)
    then have "ViewScope_Validate scope = ok" by simp
    then have "?f r scope = Inr (if scope = ScopeAdminOnly then ScopeAdminOnly else r)"
      by (metis sum.case(2))
    with Cons show ?case by simp
  qed simp
  moreover have "RequireEnabled jcs policy = ok" "ScopeDerived (pInitialScope policy) = DerivedScopeNarrowestSource"
    using assms enabled_policy_rules(2) [OF assms(2)] by (simp_all add: RequireEnabled_ok_iff)
  ultimately show ?thesis
    using assms(3) by (simp add: NarrowestSourceScope_def)
qed

end
