(* ===== verification/Memory_Maturation.thy ===== *)
theory Memory_Maturation
  imports Memory_Evidence
begin

text \<open>
  Maturation of claims, \<^verbatim>\<open>internal/memory/maturation.go\<close>: a claim is floating, sediment or
  settled, and one evaluation moves it by at most one stage. The lemmas say when it moves,
  and that repeated evaluation over any history of aggregates can neither skip a stage nor
  go back.
\<close>

record AlignmentGate =
  alKind :: ClaimKind
  alStatus :: ClaimStatus
  alStage :: ClaimStage
  alConfidence :: Ratio
  alHasExternalSupport :: bool
  alHasPerspectiveUserSupport :: bool

record MaturationInput =
  miCurrentStage :: ClaimStage
  miKind :: ClaimKind
  miEvidence :: EvidenceAggregate
  miAlignment :: "AlignmentGate option"

record MaturationMetrics =
  mmDistinctSupportEvents :: Count
  mmSupportWeight :: Weight
  mmConfidence :: Ratio
  mmHasExternalSupport :: bool
  mmHasTrustedSupport :: bool
  mmHasSubjectUserSupport :: bool
  mmHasPerspectiveUserSupport :: bool
  mmAlignmentSatisfied :: bool

text \<open>\<open>mdReason\<close> is \<open>None\<close> where the Go field keeps its zero value.\<close>

record MaturationDecision =
  mdAdvance :: bool
  mdFrom :: "ClaimStage option"
  mdTo :: ClaimStage
  mdReason :: "StageReason option"
  mdMetrics :: MaturationMetrics
  mdBlockingReason :: string

definition emptyMetrics :: MaturationMetrics where
  "emptyMetrics = \<lparr>mmDistinctSupportEvents = 0, mmSupportWeight = 0, mmConfidence = 0,
     mmHasExternalSupport = False, mmHasTrustedSupport = False, mmHasSubjectUserSupport = False,
     mmHasPerspectiveUserSupport = False, mmAlignmentSatisfied = False\<rparr>"

definition InitialMaturationDecision :: MaturationDecision where
  "InitialMaturationDecision = \<lparr>mdAdvance = True, mdFrom = None, mdTo = StageFloating,
     mdReason = Some StageReasonInitialExtraction, mdMetrics = emptyMetrics, mdBlockingReason = ''''\<rparr>"

fun stage_order :: "ClaimStage \<Rightarrow> int" where
  "stage_order StageFloating = 0"
| "stage_order StageSediment = 1"
| "stage_order StageSettled = 2"
| "stage_order (UnknownClaimStage s) = -1"

definition stageAtLeast :: "ClaimStage \<Rightarrow> ClaimStage \<Rightarrow> bool" where
  "stageAtLeast actual minimum \<longleftrightarrow> stage_order actual \<ge> stage_order minimum"

definition settledProvenanceGate ::
    "Policy \<Rightarrow> MaturationInput \<Rightarrow> (memory_error, StageReason \<times> bool) result" where
  "settledProvenanceGate policy input =
     (case miKind input of
        ClaimKindDirect \<Rightarrow>
          (case miAlignment input of
             None \<Rightarrow> Inr (StageReasonExternalAlignment, False)
           | Some alignment \<Rightarrow>
               (case ClaimKind_Validate (alKind alignment) of
                  Inl e \<Rightarrow> Inl (ErrInvalidMaturation ''alignment kind'') | Inr _ \<Rightarrow>
               (case ClaimStatus_Validate (alStatus alignment) of
                  Inl e \<Rightarrow> Inl (ErrInvalidMaturation ''alignment status'') | Inr _ \<Rightarrow>
               (case ClaimStage_Validate (alStage alignment) of
                  Inl e \<Rightarrow> Inl (ErrInvalidMaturation ''alignment stage'') | Inr _ \<Rightarrow>
               (case Ratio_Validate (alConfidence alignment) of
                  Inl e \<Rightarrow> Inl (ErrInvalidMaturation ''alignment confidence'') | Inr _ \<Rightarrow>
                  Inr (StageReasonExternalAlignment,
                    alKind alignment = ClaimKindMeta \<and> alStatus alignment = StatusActive
                    \<and> stageAtLeast (alStage alignment) (MetaMinimumStage (pMaturation policy))
                    \<and> alConfidence alignment \<ge> AlignmentConfidence (pMaturation policy)
                    \<and> alHasExternalSupport alignment \<and> alHasPerspectiveUserSupport alignment))))))
      | ClaimKindOther \<Rightarrow> Inr (StageReasonMaturationThreshold, eaHasSubjectUserSupport (miEvidence input))
      | ClaimKindUnclassified \<Rightarrow>
          Inr (StageReasonMaturationThreshold, eaHasSubjectUserSupport (miEvidence input))
      | ClaimKindMeta \<Rightarrow> Inr (StageReasonMaturationThreshold, eaHasPerspectiveUserSupport (miEvidence input))
      | UnknownClaimKind s \<Rightarrow> Inl (ErrInvalidMaturation ''unknown claim kind''))"

definition validateMaturationInput :: "MaturationInput \<Rightarrow> (memory_error, unit) result" where
  "validateMaturationInput input =
     (case ClaimStage_Validate (miCurrentStage input) of
        Inl e \<Rightarrow> Inl (ErrInvalidMaturation ''stage'') | Inr _ \<Rightarrow>
     (case ClaimKind_Validate (miKind input) of
        Inl e \<Rightarrow> Inl (ErrInvalidMaturation ''kind'') | Inr _ \<Rightarrow>
     (case Weight_Validate (eaSupportWeight (miEvidence input)) of
        Inl e \<Rightarrow> Inl (ErrInvalidMaturation ''support weight'') | Inr _ \<Rightarrow>
     (case Weight_Validate (eaContradictWeight (miEvidence input)) of
        Inl e \<Rightarrow> Inl (ErrInvalidMaturation ''contradict weight'') | Inr _ \<Rightarrow>
     (case Ratio_Validate (eaConfidence (miEvidence input)) of
        Inl e \<Rightarrow> Inl (ErrInvalidMaturation ''confidence'') | Inr _ \<Rightarrow>
     (case Count_Validate (eaDistinctSupportEvents (miEvidence input)) of
        Inl e \<Rightarrow> Inl (ErrInvalidMaturation ''distinct support events'') | Inr _ \<Rightarrow> ok))))))"

definition maturationStart :: "MaturationInput \<Rightarrow> MaturationDecision" where
  "maturationStart input =
     \<lparr>mdAdvance = False, mdFrom = Some (miCurrentStage input), mdTo = miCurrentStage input,
      mdReason = None,
      mdMetrics = \<lparr>mmDistinctSupportEvents = eaDistinctSupportEvents (miEvidence input),
        mmSupportWeight = eaSupportWeight (miEvidence input),
        mmConfidence = eaConfidence (miEvidence input),
        mmHasExternalSupport = eaHasExternalSupport (miEvidence input),
        mmHasTrustedSupport = eaHasTrustedSupport (miEvidence input),
        mmHasSubjectUserSupport = eaHasSubjectUserSupport (miEvidence input),
        mmHasPerspectiveUserSupport = eaHasPerspectiveUserSupport (miEvidence input),
        mmAlignmentSatisfied = False\<rparr>,
      mdBlockingReason = ''''\<rparr>"

definition EvaluateMaturation ::
    "jcs \<Rightarrow> Policy \<Rightarrow> MaturationInput \<Rightarrow> (memory_error, MaturationDecision) result" where
  "EvaluateMaturation jcs policy input =
     (case RequireEnabled jcs policy of Inl e \<Rightarrow> Inl e | Inr _ \<Rightarrow>
      (case validateMaturationInput input of Inl e \<Rightarrow> Inl e | Inr _ \<Rightarrow>
       (let decision = maturationStart input;
            evidence = miEvidence input;
            limits = pMaturation policy
        in case miCurrentStage input of
             StageFloating \<Rightarrow>
               if eaDistinctSupportEvents evidence < SedimentDistinctEvents limits
               then Inr (decision\<lparr>mdBlockingReason := ''insufficient_distinct_support_events''\<rparr>)
               else if eaSupportWeight evidence < SedimentSupportWeight limits
               then Inr (decision\<lparr>mdBlockingReason := ''insufficient_support_weight''\<rparr>)
               else Inr (decision\<lparr>mdAdvance := True, mdTo := StageSediment,
                      mdReason := Some StageReasonMaturationThreshold\<rparr>)
           | StageSediment \<Rightarrow>
               if \<not> eaHasTrustedSupport evidence
               then Inr (decision\<lparr>mdBlockingReason := ''trusted_support_required''\<rparr>)
               else if eaDistinctSupportEvents evidence < SettledDistinctEvents limits
               then Inr (decision\<lparr>mdBlockingReason := ''insufficient_distinct_support_events''\<rparr>)
               else if eaSupportWeight evidence < SettledSupportWeight limits
               then Inr (decision\<lparr>mdBlockingReason := ''insufficient_support_weight''\<rparr>)
               else if eaConfidence evidence < SettledConfidence limits
               then Inr (decision\<lparr>mdBlockingReason := ''insufficient_confidence''\<rparr>)
               else (case settledProvenanceGate policy input of
                 Inl e \<Rightarrow> Inl e
               | Inr (reason, satisfied) \<Rightarrow>
                   let decision = decision\<lparr>mdMetrics := (mdMetrics decision)
                         \<lparr>mmAlignmentSatisfied := (reason = StageReasonExternalAlignment \<and> satisfied)\<rparr>\<rparr>
                   in if \<not> satisfied
                      then Inr (decision\<lparr>mdBlockingReason := ''settled_provenance_gate''\<rparr>)
                      else Inr (decision\<lparr>mdAdvance := True, mdTo := StageSettled, mdReason := Some reason\<rparr>))
           | StageSettled \<Rightarrow> Inr (decision\<lparr>mdBlockingReason := ''already_settled''\<rparr>)
           | UnknownClaimStage s \<Rightarrow> Inl (ErrInvalidMaturation ''unsupported current stage''))))"

section \<open>When a claim moves\<close>

lemma default_policy_maturation [simp]:
  "pMaturation DefaultPolicyV2 = \<lparr>SedimentDistinctEvents = 2, SedimentSupportWeight = 1200000,
     SettledDistinctEvents = 3, SettledSupportWeight = 2000000, SettledConfidence = 750000,
     AlignmentConfidence = 800000, MetaMinimumStage = StageSediment\<rparr>"
  by (simp add: DefaultPolicyV2_def)

definition input_ok :: "MaturationInput \<Rightarrow> bool" where
  "input_ok input \<longleftrightarrow>
     (\<forall>s. miCurrentStage input \<noteq> UnknownClaimStage s) \<and> (\<forall>s. miKind input \<noteq> UnknownClaimKind s)
     \<and> 0 \<le> eaSupportWeight (miEvidence input) \<and> 0 \<le> eaContradictWeight (miEvidence input)
     \<and> 0 \<le> eaConfidence (miEvidence input) \<and> eaConfidence (miEvidence input) \<le> 1000000
     \<and> 0 \<le> eaDistinctSupportEvents (miEvidence input)
     \<and> (\<forall>al. miAlignment input = Some al \<longrightarrow>
          (\<forall>s. alKind al \<noteq> UnknownClaimKind s) \<and> (\<forall>s. alStatus al \<noteq> UnknownClaimStatus s)
          \<and> (\<forall>s. alStage al \<noteq> UnknownClaimStage s) \<and> 0 \<le> alConfidence al \<and> alConfidence al \<le> 1000000)"

text \<open>Whose word settles a claim of each kind.\<close>

definition provenance_spec :: "MaturationInput \<Rightarrow> bool" where
  "provenance_spec input \<longleftrightarrow>
     (case miKind input of
        ClaimKindDirect \<Rightarrow>
          (\<exists>al. miAlignment input = Some al \<and> alKind al = ClaimKindMeta \<and> alStatus al = StatusActive
             \<and> alStage al \<in> {StageSediment, StageSettled} \<and> 800000 \<le> alConfidence al
             \<and> alHasExternalSupport al \<and> alHasPerspectiveUserSupport al)
      | ClaimKindMeta \<Rightarrow> eaHasPerspectiveUserSupport (miEvidence input)
      | UnknownClaimKind s \<Rightarrow> False
      | _ \<Rightarrow> eaHasSubjectUserSupport (miEvidence input))"

definition advances :: "MaturationInput \<Rightarrow> bool" where
  "advances input \<longleftrightarrow>
     (case miCurrentStage input of
        StageFloating \<Rightarrow>
          2 \<le> eaDistinctSupportEvents (miEvidence input) \<and> 1200000 \<le> eaSupportWeight (miEvidence input)
      | StageSediment \<Rightarrow>
          eaHasTrustedSupport (miEvidence input)
          \<and> 3 \<le> eaDistinctSupportEvents (miEvidence input) \<and> 2000000 \<le> eaSupportWeight (miEvidence input)
          \<and> 750000 \<le> eaConfidence (miEvidence input) \<and> provenance_spec input
      | _ \<Rightarrow> False)"

fun next_stage :: "ClaimStage \<Rightarrow> ClaimStage" where
  "next_stage StageFloating = StageSediment"
| "next_stage StageSediment = StageSettled"
| "next_stage s = s"

lemma validateMaturationInput_ok: "input_ok input \<Longrightarrow> validateMaturationInput input = ok"
  by (simp add: validateMaturationInput_def case_result_ok input_ok_def)

lemma settledProvenanceGate_eq:
  assumes "enabled_policy policy" and "input_ok input"
  shows "\<exists>reason. settledProvenanceGate policy input = Inr (reason, provenance_spec input)"
proof -
  have limits: "MetaMinimumStage (pMaturation policy) = StageSediment"
    "AlignmentConfidence (pMaturation policy) = 800000"
    using enabled_policy_rules(3) [OF assms(1)] by simp_all
  show ?thesis
  proof (cases "miKind input")
    case ClaimKindDirect
    show ?thesis
    proof (cases "miAlignment input")
      case None
      with ClaimKindDirect show ?thesis by (simp add: settledProvenanceGate_def provenance_spec_def)
    next
      case (Some al)
      have "stageAtLeast (alStage al) StageSediment \<longleftrightarrow> alStage al \<in> {StageSediment, StageSettled}"
        by (cases "alStage al") (simp_all add: stageAtLeast_def)
      with ClaimKindDirect Some assms(2) show ?thesis
        by (auto simp: settledProvenanceGate_def provenance_spec_def limits case_result_ok input_ok_def)
    qed
  next
    case (UnknownClaimKind s)
    with assms(2) show ?thesis by (simp add: input_ok_def)
  qed (simp_all add: settledProvenanceGate_def provenance_spec_def)
qed

text \<open>
  Every evaluation of a well-formed input succeeds and moves the claim exactly when its
  stage's conditions hold, to the next stage.
\<close>

lemma EvaluateMaturation_decides:
  assumes "jcs_faithful jcs" and "enabled_policy policy" and "input_ok input"
  shows "\<exists>decision. EvaluateMaturation jcs policy input = Inr decision
    \<and> mdFrom decision = Some (miCurrentStage input)
    \<and> mdAdvance decision = advances input
    \<and> mdTo decision = (if advances input then next_stage (miCurrentStage input) else miCurrentStage input)
    \<and> (mdBlockingReason decision = '''' \<longleftrightarrow> advances input)"
proof -
  have enabled: "RequireEnabled jcs policy = ok"
    using assms by (simp add: RequireEnabled_ok_iff)
  have limits: "pMaturation policy = pMaturation DefaultPolicyV2"
    by (rule enabled_policy_rules(3) [OF assms(2)])
  obtain reason where gate: "settledProvenanceGate policy input = Inr (reason, provenance_spec input)"
    using settledProvenanceGate_eq [OF assms(2,3)] by blast
  show ?thesis
    using assms(3)
    unfolding EvaluateMaturation_def enabled validateMaturationInput_ok [OF assms(3)] gate limits Let_def
    by (cases "miCurrentStage input") (auto simp: advances_def maturationStart_def input_ok_def)
qed

lemma EvaluateMaturation_Inr:
  assumes "jcs_faithful jcs" and "EvaluateMaturation jcs policy input = Inr decision"
  shows "mdTo decision = miCurrentStage input \<and> \<not> mdAdvance decision
    \<or> mdTo decision = next_stage (miCurrentStage input) \<and> mdAdvance decision
       \<and> miCurrentStage input \<in> {StageFloating, StageSediment}"
  using assms(2)
  by (cases "miCurrentStage input")
    (auto simp: EvaluateMaturation_def maturationStart_def Let_def split: sum.splits if_splits prod.splits)

section \<open>The life of a claim\<close>

text \<open>
  A claim starts floating, as \<^verbatim>\<open>InitialMaturationDecision\<close> records, and every later
  transition is a decision of \<^verbatim>\<open>EvaluateMaturation\<close> on the stage it is in.
\<close>

inductive matures :: "jcs \<Rightarrow> Policy \<Rightarrow> ClaimStage list \<Rightarrow> bool" for jcs policy where
  start: "matures jcs policy [mdTo InitialMaturationDecision]"
| evaluate: "matures jcs policy (history @ [stage]) \<Longrightarrow> miCurrentStage input = stage \<Longrightarrow>
    EvaluateMaturation jcs policy input = Inr decision \<Longrightarrow>
    matures jcs policy (history @ [stage, mdTo decision])"

lemma next_stage_order: "s \<in> {StageFloating, StageSediment} \<Longrightarrow> stage_order (next_stage s) = stage_order s + 1"
  by auto

definition stepwise :: "ClaimStage list \<Rightarrow> bool" where
  "stepwise history \<longleftrightarrow>
     hd history = StageFloating
     \<and> (\<forall>i. Suc i < length history \<longrightarrow>
          stage_order (history ! Suc i) - stage_order (history ! i) \<in> {0, 1})"

lemma stepwise_snoc:
  assumes "stepwise (history @ [stage])" and "stage_order next - stage_order stage \<in> {0, 1}"
  shows "stepwise (history @ [stage, next])"
  unfolding stepwise_def
proof (intro conjI allI impI)
  show "hd (history @ [stage, next]) = StageFloating"
    using assms(1) by (cases history) (auto simp: stepwise_def)
  fix i
  assume "Suc i < length (history @ [stage, next])"
  then consider "Suc i < length (history @ [stage])" | "i = length history"
    by fastforce
  then show "stage_order ((history @ [stage, next]) ! Suc i) - stage_order ((history @ [stage, next]) ! i) \<in> {0, 1}"
  proof cases
    case 1
    then have "(history @ [stage, next]) ! Suc i = (history @ [stage]) ! Suc i"
      "(history @ [stage, next]) ! i = (history @ [stage]) ! i"
      by (auto simp: nth_append)
    with 1 assms(1) show ?thesis by (simp add: stepwise_def)
  next
    case 2
    with assms(2) show ?thesis by (simp add: nth_append)
  qed
qed

lemma matures_stepwise:
  assumes "jcs_faithful jcs" and "matures jcs policy history"
  shows "stepwise history"
  using assms(2)
proof induction
  case start
  show ?case by (simp add: stepwise_def InitialMaturationDecision_def)
next
  case (evaluate history stage input decision)
  have "stage_order (mdTo decision) - stage_order stage \<in> {0, 1}"
    using EvaluateMaturation_Inr [OF assms(1) evaluate(3)] evaluate(2) next_stage_order [of stage] by auto
  with evaluate.IH show ?case by (rule stepwise_snoc)
qed

end
