(* ===== verification/Memory_Salience.thy ===== *)
theory Memory_Salience
  imports Memory_Policy Memory_Fixed
begin

text \<open>
  How a claim ages: the temporal relation of \<^verbatim>\<open>internal/memory/temporal.go\<close> and the decaying
  salience of \<^verbatim>\<open>internal/memory/salience.go\<close>. The lemmas give the closed form of both and
  their behaviour as the reference instant moves on.
\<close>

section \<open>Durations\<close>

text \<open>\<^verbatim>\<open>time.Duration\<close> constants, in nanoseconds.\<close>

definition time_Hour :: int where
  "time_Hour = 3600000000000"

definition durationMicroseconds :: "int \<Rightarrow> int \<Rightarrow> (memory_error, int) result" where
  "durationMicroseconds multiplier unit =
     (if multiplier < 0 \<or> unit < 0 then Inl (MemoryError ''negative duration'')
      else multiplyDivideFloor multiplier (unit sdiv 1000) 1)"

definition instantDifference :: "Instant \<Rightarrow> Instant \<Rightarrow> (memory_error, int) result" where
  "instantDifference newer older =
     (if newer < older then Inl (MemoryError ''newer instant precedes older instant'')
      else let difference = newer - older in
        if \<not> int64 difference then Inl (MemoryError ''instant difference overflows int64'')
        else Inr difference)"

section \<open>Temporal relation\<close>

record TemporalInput =
  tiKind :: TemporalKind
  tiAnchorAt :: Instant
  tiValidFrom :: "Instant option"
  tiValidTo :: "Instant option"
  tiAsOf :: Instant

record TemporalState =
  tsRelation :: TemporalRelation
  tsCurrentness :: Ratio

definition CurrentnessForRelation ::
    "jcs \<Rightarrow> Policy \<Rightarrow> TemporalRelation \<Rightarrow> (memory_error, Ratio) result" where
  "CurrentnessForRelation jcs policy relation =
     (case RequireEnabled jcs policy of Inl e \<Rightarrow> Inl e | Inr _ \<Rightarrow>
      (case TemporalRelation_Validate relation of Inl e \<Rightarrow> Inl (ErrInvalidTemporal ''relation'') | Inr _ \<Rightarrow>
       (let value = (case relation of
              RelationFuture \<Rightarrow> FutureCurrentness (pTemporal policy)
            | RelationCurrent \<Rightarrow> CurrentCurrentness (pTemporal policy)
            | RelationPast \<Rightarrow> PastCurrentness (pTemporal policy)
            | RelationStaleUnknown \<Rightarrow> StaleCurrentness (pTemporal policy)
            | _ \<Rightarrow> 0)
        in case NewRatio value of
             Inl e \<Rightarrow> Inl (ErrInvalidTemporal ''policy currentness'')
           | Inr ratio \<Rightarrow> Inr ratio)))"

text \<open>The relation computed by the two nested switches.\<close>

definition temporalRelation :: "Policy \<Rightarrow> TemporalInput \<Rightarrow> (memory_error, TemporalRelation) result" where
  "temporalRelation policy input =
     (if (case tiValidFrom input of None \<Rightarrow> False | Some from_at \<Rightarrow> tiAsOf input < from_at)
      then Inr RelationFuture
      else if tiAsOf input < tiAnchorAt input then Inr RelationFuture
      else if (case tiValidTo input of None \<Rightarrow> False | Some to_at \<Rightarrow> tiAsOf input \<ge> to_at)
      then Inr RelationPast
      else case instantDifference (tiAsOf input) (tiAnchorAt input) of
        Inl e \<Rightarrow> Inl (ErrInvalidTemporal ''elapsed'')
      | Inr elapsed \<Rightarrow>
          (case tiKind input of
             TemporalStable \<Rightarrow> Inr RelationCurrent
           | TemporalVolatile \<Rightarrow>
               (case durationMicroseconds (VolatileStaleDays (pTemporal policy)) (24 * time_Hour) of
                  Inl e \<Rightarrow> Inl (ErrInvalidTemporal ''invalid volatile threshold'')
                | Inr threshold \<Rightarrow>
                    if threshold \<le> 0 then Inl (ErrInvalidTemporal ''invalid volatile threshold'')
                    else if elapsed \<ge> threshold then Inr RelationStaleUnknown
                    else Inr RelationCurrent)
           | TemporalEpisodic \<Rightarrow>
               (case durationMicroseconds (EpisodicCurrentHours (pTemporal policy)) time_Hour of
                  Inl e \<Rightarrow> Inl (ErrInvalidTemporal ''invalid episodic threshold'')
                | Inr threshold \<Rightarrow>
                    if threshold \<le> 0 then Inl (ErrInvalidTemporal ''invalid episodic threshold'')
                    else if elapsed \<ge> threshold then Inr RelationPast
                    else Inr RelationCurrent)
           | UnknownTemporalKind k \<Rightarrow> Inr RelationCurrent))"

definition EvaluateTemporal ::
    "jcs \<Rightarrow> Policy \<Rightarrow> TemporalInput \<Rightarrow> (memory_error, TemporalState) result" where
  "EvaluateTemporal jcs policy input =
     (case RequireEnabled jcs policy of Inl e \<Rightarrow> Inl e | Inr _ \<Rightarrow>
      (case TemporalKind_Validate (tiKind input) of Inl e \<Rightarrow> Inl (ErrInvalidTemporal ''kind'') | Inr _ \<Rightarrow>
       if (case (tiValidFrom input, tiValidTo input) of
             (Some from_at, Some to_at) \<Rightarrow> from_at > to_at | _ \<Rightarrow> False)
       then Inl (ErrInvalidTemporal ''valid_from is after valid_to'')
       else case temporalRelation policy input of
         Inl e \<Rightarrow> Inl e
       | Inr relation \<Rightarrow>
           (case CurrentnessForRelation jcs policy relation of
              Inl e \<Rightarrow> Inl e
            | Inr currentness \<Rightarrow> Inr \<lparr>tsRelation = relation, tsCurrentness = currentness\<rparr>)))"

section \<open>Salience\<close>

record SaliencePoint =
  spContribution :: Weight
  spRecordedAt :: Instant

record UsageRecord =
  urType :: UsageType
  urRecordedAt :: Instant

definition SalienceContribution ::
    "jcs \<Rightarrow> Policy \<Rightarrow> UsageType \<Rightarrow> (memory_error, Weight) result" where
  "SalienceContribution jcs policy usage =
     (case RequireEnabled jcs policy of Inl e \<Rightarrow> Inl e | Inr _ \<Rightarrow>
      (case UsageType_Validate usage of Inl e \<Rightarrow> Inl (ErrInvalidSalience ''usage'') | Inr _ \<Rightarrow>
       (let value = (case usage of
              UsageCandidate \<Rightarrow> CandidateContribution (pSalience policy)
            | UsageSelected \<Rightarrow> SelectedContribution (pSalience policy)
            | UsagePromptIncluded \<Rightarrow> PromptIncludedContribution (pSalience policy)
            | UsageExplicitlyReferenced \<Rightarrow> ExplicitlyReferencedContribution (pSalience policy)
            | _ \<Rightarrow> 0)
        in case NewWeight value of
             Inl e \<Rightarrow> Inl (ErrInvalidSalience ''contribution'')
           | Inr weight \<Rightarrow> Inr weight)))"

text \<open>
  The decayed value of one point. The subtraction is unchecked, and the shift count is the
  \<^verbatim>\<open>uint\<close> reading of a possibly negative quotient; a count of 64 or more shifts everything out.
\<close>

definition decayedValue :: "int \<Rightarrow> Instant \<Rightarrow> SaliencePoint \<Rightarrow> int" where
  "decayedValue halfLife asOf point =
     (let elapsed = wrap64 (asOf - spRecordedAt point);
          intervals = elapsed sdiv halfLife
      in if intervals \<ge> 63 then 0
         else if uint (uint64_of intervals) \<ge> 64 then (if spContribution point < 0 then -1 else 0)
         else drop_bit (unat (uint64_of intervals)) (spContribution point))"

fun salienceLoop ::
    "int \<Rightarrow> int \<Rightarrow> Instant \<Rightarrow> int \<Rightarrow> SaliencePoint list \<Rightarrow> (memory_error, int) result" where
  "salienceLoop halfLife capValue asOf tot [] = Inr tot"
| "salienceLoop halfLife capValue asOf tot (point # points) =
     (case Weight_Validate (spContribution point) of
        Inl e \<Rightarrow> Inl (ErrInvalidSalience ''contribution'')
      | Inr _ \<Rightarrow>
          if spRecordedAt point > asOf then Inl (ErrInvalidSalience ''usage occurs after as_of'')
          else case checkedAdd tot (decayedValue halfLife asOf point) of
            Inl e \<Rightarrow> Inl (ErrInvalidSalience ''contribution sum'')
          | Inr tot' \<Rightarrow>
              if tot' \<ge> capValue then Inr capValue
              else salienceLoop halfLife capValue asOf tot' points)"

definition AggregateSalience ::
    "jcs \<Rightarrow> Policy \<Rightarrow> SaliencePoint list \<Rightarrow> Instant \<Rightarrow> (memory_error, Ratio) result" where
  "AggregateSalience jcs policy points asOf =
     (case RequireEnabled jcs policy of Inl e \<Rightarrow> Inl e | Inr _ \<Rightarrow>
      (case durationMicroseconds (HalfLifeDays (pSalience policy)) (24 * time_Hour) of
         Inl e \<Rightarrow> Inl (ErrInvalidSalience ''invalid half life'')
       | Inr halfLife \<Rightarrow>
           if halfLife \<le> 0 then Inl (ErrInvalidSalience ''invalid half life'')
           else let capValue = SalienceCap (pSalience policy) in
             if capValue < 0 \<or> capValue > fixedPointScale then Inl (ErrInvalidSalience ''invalid cap'')
             else case salienceLoop halfLife capValue asOf 0 points of
               Inl e \<Rightarrow> Inl e
             | Inr tot \<Rightarrow>
                 (case NewRatio tot of Inl e \<Rightarrow> Inl (MemoryError ''ratio'') | Inr r \<Rightarrow> Inr r)))"

definition CalculateSalience ::
    "jcs \<Rightarrow> Policy \<Rightarrow> UsageRecord list \<Rightarrow> Instant \<Rightarrow> (memory_error, Ratio) result" where
  "CalculateSalience jcs policy usages asOf =
     (case mapE (\<lambda>usage. case SalienceContribution jcs policy (urType usage) of
                   Inl e \<Rightarrow> Inl e
                 | Inr contribution \<Rightarrow>
                     Inr \<lparr>spContribution = contribution, spRecordedAt = urRecordedAt usage\<rparr>) usages of
        Inl e \<Rightarrow> Inl e
      | Inr points \<Rightarrow> AggregateSalience jcs policy points asOf)"

section \<open>Closed forms\<close>

lemma default_policy_time [simp]:
  "pTemporal DefaultPolicyV2 = \<lparr>VolatileStaleDays = 30, EpisodicCurrentHours = 24,
     FutureCurrentness = 250000, CurrentCurrentness = 1000000, PastCurrentness = 600000,
     StaleCurrentness = 400000\<rparr>"
  "HalfLifeDays (pSalience DefaultPolicyV2) = 30" "SalienceCap (pSalience DefaultPolicyV2) = 1000000"
  "HalfLifeDays (pSalience DefaultPolicyV5) = 30" "SalienceCap (pSalience DefaultPolicyV5) = 1000000"
  by (simp_all add: default_policy_defs)

definition halfLifeMicros :: int where
  "halfLifeMicros = 30 * 24 * 3600 * 1000000"

definition staleMicros :: int where
  "staleMicros = 30 * 24 * 3600 * 1000000"

definition episodeMicros :: int where
  "episodeMicros = 24 * 3600 * 1000000"

lemma durationMicroseconds_days:
  "durationMicroseconds 30 (24 * time_Hour) = Inr (30 * 24 * 3600 * 1000000)"
  "durationMicroseconds 24 time_Hour = Inr (24 * 3600 * 1000000)"
  by (simp_all add: durationMicroseconds_def time_Hour_def sdiv_nonneg multiplyDivideFloor_eq maxInt64_def)

text \<open>
  The specification of the temporal relation: a claim is in the future before both its
  bound and its anchor, over from its end on, and in between it ages by its kind.
\<close>

definition temporal_spec :: "TemporalInput \<Rightarrow> TemporalRelation" where
  "temporal_spec input =
     (if tiAsOf input < tiAnchorAt input \<or> (\<exists>f. tiValidFrom input = Some f \<and> tiAsOf input < f)
      then RelationFuture
      else if \<exists>t. tiValidTo input = Some t \<and> t \<le> tiAsOf input then RelationPast
      else if tiKind input = TemporalVolatile \<and> staleMicros \<le> tiAsOf input - tiAnchorAt input
      then RelationStaleUnknown
      else if tiKind input = TemporalEpisodic \<and> episodeMicros \<le> tiAsOf input - tiAnchorAt input
      then RelationPast
      else RelationCurrent)"

definition temporal_valid :: "TemporalInput \<Rightarrow> bool" where
  "temporal_valid input \<longleftrightarrow>
     (\<forall>k. tiKind input \<noteq> UnknownTemporalKind k)
     \<and> (\<forall>f t. tiValidFrom input = Some f \<longrightarrow> tiValidTo input = Some t \<longrightarrow> f \<le> t)
     \<and> tiAsOf input - tiAnchorAt input \<le> maxInt64"

lemma temporalRelation_eq:
  assumes "enabled_policy policy" and "temporal_valid input"
  shows "temporalRelation policy input = Inr (temporal_spec input)"
proof -
  have thresholds: "VolatileStaleDays (pTemporal policy) = 30" "EpisodicCurrentHours (pTemporal policy) = 24"
    using enabled_policy_rules(4) [OF assms(1)] by simp_all
  have diff: "instantDifference (tiAsOf input) (tiAnchorAt input) = Inr (tiAsOf input - tiAnchorAt input)"
    if "\<not> tiAsOf input < tiAnchorAt input"
    using that assms(2) by (simp add: instantDifference_def temporal_valid_def int64_maxInt64_iff minInt64_def)
  show ?thesis
    using assms(2) unfolding temporalRelation_def temporal_spec_def thresholds durationMicroseconds_days
    by (auto simp: diff temporal_valid_def staleMicros_def episodeMicros_def
        split: option.splits TemporalKind.splits)
qed

definition currentness_spec :: "TemporalRelation \<Rightarrow> Ratio" where
  "currentness_spec relation =
     (case relation of RelationFuture \<Rightarrow> 250000 | RelationCurrent \<Rightarrow> 1000000 | RelationPast \<Rightarrow> 600000
      | RelationStaleUnknown \<Rightarrow> 400000 | _ \<Rightarrow> 0)"

lemma RequireEnabled_cases:
  assumes "jcs_faithful jcs" and "enabled_policy policy"
  shows "RequireEnabled jcs policy = ok"
  using assms by (simp add: RequireEnabled_ok_iff)

lemma CurrentnessForRelation_eq:
  assumes "jcs_faithful jcs" and "enabled_policy policy" and "\<forall>s. relation \<noteq> UnknownTemporalRelation s"
  shows "CurrentnessForRelation jcs policy relation = Inr (currentness_spec relation)"
  using assms(3) enabled_policy_rules(4) [OF assms(2)] RequireEnabled_cases [OF assms(1,2)]
  by (cases relation)
    (simp_all add: CurrentnessForRelation_def currentness_spec_def TemporalRelation_Validate_def
      NewRatio_def FixedPointScale_def)

lemma temporal_spec_known: "temporal_spec input \<noteq> UnknownTemporalRelation s"
  by (simp add: temporal_spec_def)

lemma EvaluateTemporal_eq:
  assumes "jcs_faithful jcs" and "enabled_policy policy" and "temporal_valid input"
  shows "EvaluateTemporal jcs policy input =
    Inr \<lparr>tsRelation = temporal_spec input, tsCurrentness = currentness_spec (temporal_spec input)\<rparr>"
proof -
  have kind: "TemporalKind_Validate (tiKind input) = ok"
    using assms(3) unfolding temporal_valid_def by simp
  have bounds: "\<not> (case (tiValidFrom input, tiValidTo input) of
      (Some from_at, Some to_at) \<Rightarrow> from_at > to_at | _ \<Rightarrow> False)"
    using assms(3) by (auto simp: temporal_valid_def split: option.splits)
  show ?thesis
    unfolding EvaluateTemporal_def RequireEnabled_cases [OF assms(1,2)] kind
      temporalRelation_eq [OF assms(2,3)]
    using bounds CurrentnessForRelation_eq [OF assms(1,2)] temporal_spec_known by simp
qed

text \<open>Time only moves a claim forward through these phases.\<close>

fun phase :: "TemporalRelation \<Rightarrow> nat" where
  "phase RelationFuture = 0"
| "phase RelationCurrent = 1"
| "phase RelationStaleUnknown = 2"
| "phase RelationPast = 3"
| "phase (UnknownTemporalRelation s) = 4"

definition is_future :: "TemporalInput \<Rightarrow> bool" where
  "is_future input \<longleftrightarrow>
     tiAsOf input < tiAnchorAt input \<or> (\<exists>f. tiValidFrom input = Some f \<and> tiAsOf input < f)"

definition is_over :: "TemporalInput \<Rightarrow> bool" where
  "is_over input \<longleftrightarrow>
     (\<exists>t. tiValidTo input = Some t \<and> t \<le> tiAsOf input)
     \<or> tiKind input = TemporalEpisodic \<and> episodeMicros \<le> tiAsOf input - tiAnchorAt input"

definition is_stale :: "TemporalInput \<Rightarrow> bool" where
  "is_stale input \<longleftrightarrow> tiKind input = TemporalVolatile \<and> staleMicros \<le> tiAsOf input - tiAnchorAt input"

lemma phase_temporal_spec:
  "phase (temporal_spec input) =
     (if is_future input then 0 else if is_over input then 3 else if is_stale input then 2 else 1)"
  unfolding temporal_spec_def is_future_def is_over_def is_stale_def by auto

lemma temporal_spec_mono:
  assumes "tiAsOf input \<le> later"
  shows "phase (temporal_spec input) \<le> phase (temporal_spec (input\<lparr>tiAsOf := later\<rparr>))"
proof -
  let ?i = "input\<lparr>tiAsOf := later\<rparr>"
  have "is_future ?i \<Longrightarrow> is_future input" "is_over input \<Longrightarrow> is_over ?i" "is_stale input \<Longrightarrow> is_stale ?i"
    using assms by (fastforce simp: is_future_def is_over_def is_stale_def)+
  then show ?thesis
    unfolding phase_temporal_spec by simp
qed

section \<open>The decay sum\<close>

definition decayed :: "Instant \<Rightarrow> SaliencePoint \<Rightarrow> int" where
  "decayed asOf point =
     spContribution point div 2 ^ nat ((asOf - spRecordedAt point) div halfLifeMicros)"

definition point_ok :: "Instant \<Rightarrow> SaliencePoint \<Rightarrow> bool" where
  "point_ok asOf point \<longleftrightarrow>
     0 \<le> spContribution point \<and> spContribution point \<le> 2 ^ 62
     \<and> spRecordedAt point \<le> asOf \<and> asOf - spRecordedAt point \<le> maxInt64"

lemma div_power_le: "0 \<le> (v::int) \<Longrightarrow> v div 2 ^ n \<le> v"
  by (metis div_by_1 one_le_power one_le_numeral zdiv_mono2 zero_less_one)

lemma decayed_bounds:
  assumes "point_ok asOf point"
  shows "0 \<le> decayed asOf point" and "decayed asOf point \<le> 2 ^ 62"
  using assms div_power_le [of "spContribution point"]
  unfolding decayed_def point_ok_def by (auto simp: pos_imp_zdiv_nonneg_iff intro: order_trans)

text \<open>The machine's shift is that division: 63 intervals or more leave nothing.\<close>

lemma decayedValue_eq:
  assumes "point_ok asOf point"
  shows "decayedValue halfLifeMicros asOf point = decayed asOf point"
proof -
  let ?e = "asOf - spRecordedAt point"
  let ?k = "?e div halfLifeMicros"
  have e: "wrap64 ?e = ?e" "0 \<le> ?e"
    using assms by (auto intro!: wrap64_id simp: point_ok_def int64_maxInt64_iff minInt64_def)
  have k: "?e sdiv halfLifeMicros = ?k" "0 \<le> ?k"
    using e by (simp_all add: sdiv_nonneg halfLifeMicros_def pos_imp_zdiv_nonneg_iff)
  show ?thesis
  proof (cases "?k \<ge> 63")
    case True
    then have "(2::int) ^ 63 \<le> 2 ^ nat ?k"
      by (intro power_increasing) auto
    moreover have "spContribution point < 2 ^ 63"
      using assms by (auto simp: point_ok_def)
    ultimately have "spContribution point < 2 ^ nat ?k"
      by linarith
    then have "decayed asOf point = 0"
      using assms by (simp add: decayed_def point_ok_def)
    then show ?thesis
      using True by (simp add: decayedValue_def e k)
  next
    case False
    then have u: "uint (uint64_of ?k) = ?k"
      using k by (intro uint_uint64_of) (auto simp: int64_def)
    then have "unat (uint64_of ?k) = nat ?k"
      by (metis unat_eq_nat_uint)
    then show ?thesis
      using False u by (simp add: decayedValue_def e k decayed_def drop_bit_eq_div)
  qed
qed

definition salience_spec :: "Instant \<Rightarrow> SaliencePoint list \<Rightarrow> int" where
  "salience_spec asOf points = min 1000000 (sum_list (map (decayed asOf) points))"

lemma decayed_sum_nonneg:
  "\<forall>point\<in>set points. point_ok asOf point \<Longrightarrow> 0 \<le> sum_list (map (decayed asOf) points)"
  by (intro sum_list_nonneg) (auto intro: decayed_bounds)

lemma salienceLoop_eq:
  assumes "\<forall>point\<in>set points. point_ok asOf point" and "0 \<le> tot" and "tot \<le> 1000000"
  shows "salienceLoop halfLifeMicros 1000000 asOf tot points =
    Inr (min 1000000 (tot + sum_list (map (decayed asOf) points)))"
  using assms
proof (induction points arbitrary: tot)
  case Nil
  then show ?case by simp
next
  case (Cons p ps)
  then have p: "point_ok asOf p" and ps: "\<forall>point\<in>set ps. point_ok asOf point"
    by simp_all
  let ?d = "decayed asOf p"
  have d: "0 \<le> ?d" "?d \<le> 2 ^ 62"
    using decayed_bounds [OF p] .
  have valid: "Weight_Validate (spContribution p) = ok"
    using p by (simp add: point_ok_def)
  have add: "checkedAdd tot ?d = Inr (tot + ?d)"
    using d Cons.prems(2,3) by (simp add: checkedAdd_nonneg int64_def maxInt64_def)
  have rest: "0 \<le> sum_list (map (decayed asOf) ps)"
    by (rule decayed_sum_nonneg [OF ps])
  show ?case
  proof (cases "tot + ?d \<ge> 1000000")
    case True
    then show ?thesis
      unfolding salienceLoop.simps valid decayedValue_eq [OF p] add
      using p rest by (simp add: point_ok_def)
  next
    case False
    then show ?thesis
      unfolding salienceLoop.simps valid decayedValue_eq [OF p] add
      using p Cons.IH [OF ps, of "tot + ?d"] d Cons.prems(2) by (simp add: point_ok_def add.assoc)
  qed
qed

lemma AggregateSalience_eq:
  assumes "jcs_faithful jcs" and "enabled_policy policy" and "\<forall>point\<in>set points. point_ok asOf point"
  shows "AggregateSalience jcs policy points asOf = Inr (salience_spec asOf points)"
proof -
  have rules: "HalfLifeDays (pSalience policy) = 30" "SalienceCap (pSalience policy) = 1000000"
    using enabled_policy_versions(2) [OF assms(2)] by simp_all
  have half: "durationMicroseconds 30 (24 * time_Hour) = Inr halfLifeMicros"
    by (simp add: durationMicroseconds_days halfLifeMicros_def)
  have loop: "salienceLoop halfLifeMicros 1000000 asOf 0 points = Inr (salience_spec asOf points)"
    using salienceLoop_eq [OF assms(3), of 0] by (simp add: salience_spec_def)
  have "0 \<le> salience_spec asOf points" "salience_spec asOf points \<le> 1000000"
    using decayed_sum_nonneg [OF assms(3)] by (simp_all add: salience_spec_def)
  then show ?thesis
    unfolding AggregateSalience_def RequireEnabled_cases [OF assms(1,2)] rules half
    by (simp add: loop halfLifeMicros_def [symmetric] NewRatio_def FixedPointScale_def)
      (simp add: halfLifeMicros_def)
qed

section \<open>Usage records\<close>

definition contribution_spec :: "PolicyVersion \<Rightarrow> UsageType \<Rightarrow> int" where
  "contribution_spec version usage =
     (case usage of
        UsageSelected \<Rightarrow> (if version = PolicyVersionV5 then 0 else 50000)
      | UsagePromptIncluded \<Rightarrow> (if version = PolicyVersionV5 then 0 else 250000)
      | UsageExplicitlyReferenced \<Rightarrow> 500000
      | _ \<Rightarrow> 0)"

definition usage_point :: "Policy \<Rightarrow> UsageRecord \<Rightarrow> SaliencePoint" where
  "usage_point policy usage =
     \<lparr>spContribution = contribution_spec (pVersion policy) (urType usage), spRecordedAt = urRecordedAt usage\<rparr>"

definition usage_ok :: "Instant \<Rightarrow> UsageRecord \<Rightarrow> bool" where
  "usage_ok asOf usage \<longleftrightarrow>
     (\<forall>s. urType usage \<noteq> UnknownUsageType s) \<and> urRecordedAt usage \<le> asOf
     \<and> asOf - urRecordedAt usage \<le> maxInt64"

lemma default_policy_salience [simp]:
  "pSalience DefaultPolicyV2 = \<lparr>CandidateContribution = 0, SelectedContribution = 50000,
     PromptIncludedContribution = 250000, ExplicitlyReferencedContribution = 500000, HalfLifeDays = 30,
     SalienceCap = 1000000\<rparr>"
  "pSalience DefaultPolicyV5 = \<lparr>CandidateContribution = 0, SelectedContribution = 0,
     PromptIncludedContribution = 0, ExplicitlyReferencedContribution = 500000, HalfLifeDays = 30,
     SalienceCap = 1000000\<rparr>"
  by (simp_all add: default_policy_defs)

lemma SalienceContribution_eq:
  assumes "jcs_faithful jcs" and "enabled_policy policy" and "\<forall>s. usage \<noteq> UnknownUsageType s"
  shows "SalienceContribution jcs policy usage = Inr (contribution_spec (pVersion policy) usage)"
  using assms(3) enabled_policy_versions(2) [OF assms(2)] RequireEnabled_cases [OF assms(1,2)]
  by (cases usage)
    (simp_all add: SalienceContribution_def contribution_spec_def UsageType_Validate_def NewWeight_def)

lemma usage_point_ok: "usage_ok asOf usage \<Longrightarrow> point_ok asOf (usage_point policy usage)"
  by (simp add: usage_ok_def point_ok_def usage_point_def contribution_spec_def split: UsageType.split)

lemma CalculateSalience_eq:
  assumes "jcs_faithful jcs" and "enabled_policy policy" and "\<forall>usage\<in>set usages. usage_ok asOf usage"
  shows "CalculateSalience jcs policy usages asOf =
    Inr (salience_spec asOf (map (usage_point policy) usages))"
proof -
  let ?f = "\<lambda>usage. case SalienceContribution jcs policy (urType usage) of
                   Inl e \<Rightarrow> Inl e
                 | Inr contribution \<Rightarrow>
                     Inr \<lparr>spContribution = contribution, spRecordedAt = urRecordedAt usage\<rparr>"
  have "?f usage = Inr (usage_point policy usage)" if "usage \<in> set usages" for usage
    using that assms(3) SalienceContribution_eq [OF assms(1,2)] by (simp add: usage_ok_def usage_point_def)
  then have "mapE ?f usages = Inr (map (usage_point policy) usages)"
    by (simp add: mapE_Inr_iff list_all2_conv_all_nth)
  moreover have "AggregateSalience jcs policy (map (usage_point policy) usages) asOf =
      Inr (salience_spec asOf (map (usage_point policy) usages))"
    using assms(3) by (intro AggregateSalience_eq [OF assms(1,2)]) (auto intro: usage_point_ok)
  ultimately show ?thesis
    by (simp add: CalculateSalience_def)
qed

text \<open>Salience only falls as time passes.\<close>

lemma decayed_antimono:
  assumes "0 \<le> spContribution point" and "spRecordedAt point \<le> asOf" and "asOf \<le> later"
  shows "decayed later point \<le> decayed asOf point"
proof -
  have "(asOf - spRecordedAt point) div halfLifeMicros \<le> (later - spRecordedAt point) div halfLifeMicros"
    using assms(3) by (intro zdiv_mono1) (auto simp: halfLifeMicros_def)
  then have "(2::int) ^ nat ((asOf - spRecordedAt point) div halfLifeMicros)
      \<le> 2 ^ nat ((later - spRecordedAt point) div halfLifeMicros)"
    by (intro power_increasing nat_mono) simp_all
  then show ?thesis
    unfolding decayed_def using assms(1) by (intro zdiv_mono2) simp_all
qed

lemma salience_spec_antimono:
  assumes "\<forall>point\<in>set points. point_ok asOf point" and "asOf \<le> later"
  shows "salience_spec later points \<le> salience_spec asOf points"
proof -
  have "sum_list (map (decayed later) points) \<le> sum_list (map (decayed asOf) points)"
    using assms by (intro sum_list_mono decayed_antimono) (auto simp: point_ok_def)
  then show ?thesis by (simp add: salience_spec_def)
qed

lemma salience_spec_perm: "mset points = mset points' \<Longrightarrow> salience_spec asOf points = salience_spec asOf points'"
  unfolding salience_spec_def by (metis mset_map sum_mset_sum_list)

text \<open>
  Outside the range where the subtraction is exact, a point recorded at the least instant
  is not decayed at all at the greatest one.
\<close>

lemma decayedValue_wraps:
  "decayedValue halfLifeMicros maxInt64 \<lparr>spContribution = 500000, spRecordedAt = minInt64\<rparr> = 500000"
  by (simp add: decayedValue_def wrap64_def maxInt64_def minInt64_def halfLifeMicros_def
      signed_divide_int_def uint64_of_def)

end
