(* ===== verification/Memory_Recall.thy ===== *)
theory Memory_Recall
  imports Memory_Salience
begin

text \<open>
  Recall, \<^verbatim>\<open>internal/memory/recall.go\<close>: scoring of the candidate claims, selection of the
  best ones, and the two prompt planners with their provenance rules and budgets.
  \<open>idString\<close> is the text form of an identifier, which the third-party ULID package
  produces; \<open>jcs\<close> is the canonical JSON encoder.
\<close>

section \<open>Data\<close>

record RecallCandidate =
  rcClaimID :: ID
  rcStatement :: string
  rcContextCompatibility :: Ratio
  rcSalience :: Ratio
  rcConfidence :: Ratio
  rcCurrentness :: Ratio
  rcLastConfirmed :: "Instant option"
  rcStatus :: ClaimStatus
  rcStage :: ClaimStage
  rcTemporalRelation :: TemporalRelation
  rcSourceEventIDs :: "ID list"
  rcAbstract :: bool

record ScoredRecallCandidate =
  scCandidate :: RecallCandidate
  scCandidateOrdinal :: Ordinal
  scScore :: Ratio
  scStateFactor :: Ratio
  scTemporalFactor :: Ratio
  scEligible :: bool

record RecallSelection =
  rsCandidates :: "ScoredRecallCandidate list"
  rsSelected :: "ScoredRecallCandidate list"

record RecallDecision =
  rdCandidate :: ScoredRecallCandidate
  rdSelected :: bool
  rdSelectedOrdinal :: "Ordinal option"
  rdPromptIncluded :: bool
  rdPromptOrdinal :: "Ordinal option"
  rdRenderedText :: string
  rdExclusionReason :: RecallExclusionReason

record RecallPlan =
  rpDecisions :: "RecallDecision list"
  rpPrompt :: "RecallDecision list"
  rpRenderedBytes :: ByteSize

abbreviation claim_id :: "ScoredRecallCandidate \<Rightarrow> ID" where
  "claim_id c \<equiv> rcClaimID (scCandidate c)"

section \<open>Scoring\<close>

definition validateRecallCandidate :: "RecallCandidate \<Rightarrow> Ordinal \<Rightarrow> (memory_error, unit) result" where
  "validateRecallCandidate candidate ordinal =
     (case ID_Validate (rcClaimID candidate) of Inl e \<Rightarrow> Inl (ErrInvalidRecall ''claim ID'') | Inr _ \<Rightarrow>
      if \<not> utf8_valid (rcStatement candidate) \<or> rcStatement candidate = ''''
      then Inl (ErrInvalidRecall ''statement must be non-empty UTF-8'')
      else
     (case Ratio_Validate (rcContextCompatibility candidate) of
        Inl e \<Rightarrow> Inl (ErrInvalidRecall ''context compatibility'') | Inr _ \<Rightarrow>
     (case Ratio_Validate (rcSalience candidate) of Inl e \<Rightarrow> Inl (ErrInvalidRecall ''salience'') | Inr _ \<Rightarrow>
     (case Ratio_Validate (rcConfidence candidate) of Inl e \<Rightarrow> Inl (ErrInvalidRecall ''confidence'') | Inr _ \<Rightarrow>
     (case Ratio_Validate (rcCurrentness candidate) of Inl e \<Rightarrow> Inl (ErrInvalidRecall ''currentness'') | Inr _ \<Rightarrow>
     (case ClaimStatus_Validate (rcStatus candidate) of Inl e \<Rightarrow> Inl (ErrInvalidRecall ''status'') | Inr _ \<Rightarrow>
     (case ClaimStage_Validate (rcStage candidate) of Inl e \<Rightarrow> Inl (ErrInvalidRecall ''stage'') | Inr _ \<Rightarrow>
     (case TemporalRelation_Validate (rcTemporalRelation candidate) of
        Inl e \<Rightarrow> Inl (ErrInvalidRecall ''temporal relation'') | Inr _ \<Rightarrow>
     (case Ordinal_Validate ordinal of Inl e \<Rightarrow> Inl (ErrInvalidRecall ''candidate ordinal'') | Inr _ \<Rightarrow>
        ok)))))))))"

definition ScoreRecall ::
    "jcs \<Rightarrow> Policy \<Rightarrow> RecallCandidate \<Rightarrow> Ordinal \<Rightarrow> (memory_error, ScoredRecallCandidate) result" where
  "ScoreRecall jcs policy candidate ordinal =
     (case RequireEnabled jcs policy of Inl e \<Rightarrow> Inl e | Inr _ \<Rightarrow>
      (case validateRecallCandidate candidate ordinal of Inl e \<Rightarrow> Inl e | Inr _ \<Rightarrow>
       (case CurrentnessForRelation jcs policy (rcTemporalRelation candidate) of
          Inl e \<Rightarrow> Inl e
        | Inr temporalFactor \<Rightarrow>
            (let eligible = (rcStatus candidate = StatusActive
                   \<and> \<not> (pVersion policy = PolicyVersionV5 \<and> rcContextCompatibility candidate = 0));
                 result = \<lparr>scCandidate = candidate, scCandidateOrdinal = ordinal, scScore = 0,
                   scStateFactor = FixedPointScale, scTemporalFactor = temporalFactor,
                   scEligible = eligible\<rparr>
             in if \<not> eligible then Inr (result\<lparr>scStateFactor := 0, scScore := 0\<rparr>)
                else case weightedRatioFloor
                    [WeightContext (pRecall policy), rcContextCompatibility candidate,
                     WeightSalience (pRecall policy), rcSalience candidate,
                     WeightConfidence (pRecall policy), rcConfidence candidate,
                     WeightState (pRecall policy), FixedPointScale,
                     WeightTemporal (pRecall policy), temporalFactor] of
                  Inl e \<Rightarrow> Inl (ErrInvalidRecall ''score'')
                | Inr score \<Rightarrow> Inr (result\<lparr>scScore := score\<rparr>)))))"

section \<open>Selection\<close>

text \<open>The comparison function given to \<^verbatim>\<open>sort.SliceStable\<close>.\<close>

definition recallLess ::
    "(ID \<Rightarrow> string) \<Rightarrow> PolicyVersion \<Rightarrow> ScoredRecallCandidate \<Rightarrow> ScoredRecallCandidate \<Rightarrow> bool" where
  "recallLess idString version left right =
     (if scScore left \<noteq> scScore right then scScore left > scScore right
      else if version = PolicyVersionV5 then idString (claim_id left) > idString (claim_id right)
      else idString (claim_id left) < idString (claim_id right))"

type_synonym selectState = "ID set \<times> ScoredRecallCandidate list \<times> ScoredRecallCandidate list"

definition selectStep ::
    "jcs \<Rightarrow> Policy \<Rightarrow> selectState \<Rightarrow> nat \<times> RecallCandidate \<Rightarrow> (memory_error, selectState) result" where
  "selectStep jcs policy = (\<lambda>(seen, candidates, selected) (index, candidate).
     if rcClaimID candidate \<in> seen then Inl (ErrInvalidRecall ''duplicate candidate claim'')
     else case ScoreRecall jcs policy candidate (int index) of
       Inl e \<Rightarrow> Inl e
     | Inr scored \<Rightarrow>
         Inr (insert (rcClaimID candidate) seen, candidates @ [scored],
              if scEligible scored then selected @ [scored] else selected))"

definition SelectRecall ::
    "(ID \<Rightarrow> string) \<Rightarrow> jcs \<Rightarrow> Policy \<Rightarrow> RecallCandidate list \<Rightarrow> (memory_error, RecallSelection) result" where
  "SelectRecall idString jcs policy candidates =
     (case RequireEnabled jcs policy of Inl e \<Rightarrow> Inl e | Inr _ \<Rightarrow>
      if int (length candidates) > CandidateLimit (pRecall policy)
      then Inl (ErrInvalidRecall ''candidates exceed limit'')
      else case foldE (selectStep jcs policy) ({}, [], []) (List.enumerate 0 candidates) of
        Inl e \<Rightarrow> Inl e
      | Inr (seen, scored, eligible) \<Rightarrow>
          (let ordered = slice_stable (recallLess idString (pVersion policy)) eligible in
           Inr \<lparr>rsCandidates = scored,
             rsSelected = (if int (length ordered) > SelectedLimit (pRecall policy)
               then take (nat (SelectedLimit (pRecall policy))) ordered else ordered)\<rparr>))"

section \<open>Rendering\<close>

definition certaintyForConfidence :: "Ratio \<Rightarrow> string" where
  "certaintyForConfidence confidence =
     (if confidence < 500000 then ''low'' else if confidence < 750000 then ''medium'' else ''high'')"

definition RenderClaim :: "jcs \<Rightarrow> Policy \<Rightarrow> RecallCandidate \<Rightarrow> (memory_error, string) result" where
  "RenderClaim jcs policy candidate =
     (case RequireEnabled jcs policy of Inl e \<Rightarrow> Inl e | Inr _ \<Rightarrow>
      if \<not> utf8_valid (rcStatement candidate) \<or> rcStatement candidate = ''''
      then Inl (ErrInvalidRecall ''statement must be non-empty UTF-8'')
      else case TemporalRelation_Validate (rcTemporalRelation candidate) of
        Inl e \<Rightarrow> Inl (ErrInvalidRecall ''temporal relation'')
      | Inr _ \<Rightarrow>
     (case (if pRenderingVersion policy = RenderingVersionV1 then
              Inr (WireClaimV1 (rcStatement candidate) (rcTemporalRelation candidate) (pRenderingVersion policy))
            else if pRenderingVersion policy = RenderingVersionV2 then
              (case Ratio_Validate (rcConfidence candidate) of
                 Inl e \<Rightarrow> Inl (ErrInvalidRecall ''confidence'')
               | Inr _ \<Rightarrow>
                   (case Ratio_Validate (rcCurrentness candidate) of
                      Inl e \<Rightarrow> Inl (ErrInvalidRecall ''currentness'')
                    | Inr _ \<Rightarrow>
                        Inr (WireClaimV2 (certaintyForConfidence (rcConfidence candidate))
                          (rcCurrentness candidate) (rcLastConfirmed candidate) (rcStatement candidate)
                          (rcTemporalRelation candidate) (pRenderingVersion policy))))
            else Inl (ErrInvalidRecall ''unsupported rendering version'')) of
        Inl e \<Rightarrow> Inl e
      | Inr wire \<Rightarrow>
          (case jcs wire of
             None \<Rightarrow> Inl (ErrInvalidRecall ''canonical render'')
           | Some canonicalText \<Rightarrow> Inr canonicalText)))"

section \<open>Planning\<close>

text \<open>The set of the event identifiers already in the prompt.\<close>

definition includedEvents :: "ID list \<Rightarrow> (memory_error, ID set) result" where
  "includedEvents ids =
     foldE (\<lambda>included i. case ID_Validate i of
              Inl e \<Rightarrow> Inl (ErrInvalidRecall ''included event ID'')
            | Inr _ \<Rightarrow> Inr (insert i included)) {} ids"

text \<open>
  The loop over the source events of a claim, which both planners contain: it rejects a
  claim with no, invalid or repeated sources, and combines the membership of the sources.
\<close>

fun scanSources ::
    "(bool \<Rightarrow> bool \<Rightarrow> bool) \<Rightarrow> ID set \<Rightarrow> ID set \<Rightarrow> bool \<Rightarrow> ID list \<Rightarrow> (memory_error, bool) result" where
  "scanSources combine included sources acc [] = Inr acc"
| "scanSources combine included sources acc (sourceID # rest) =
     (case ID_Validate sourceID of
        Inl e \<Rightarrow> Inl (ErrInvalidRecall ''source event ID'')
      | Inr _ \<Rightarrow>
          if sourceID \<in> sources then Inl (ErrInvalidRecall ''duplicate source event'')
          else scanSources combine included (insert sourceID sources)
                 (combine acc (sourceID \<in> included)) rest)"

definition recallSourcesAllIncluded :: "RecallCandidate \<Rightarrow> ID set \<Rightarrow> (memory_error, bool) result" where
  "recallSourcesAllIncluded candidate included =
     (if rcSourceEventIDs candidate = [] then Inl (ErrInvalidRecall ''no source provenance'')
      else scanSources (\<and>) included {} True (rcSourceEventIDs candidate))"

definition sourceAlreadyIncluded :: "RecallCandidate \<Rightarrow> ID set \<Rightarrow> (memory_error, bool) result" where
  "sourceAlreadyIncluded candidate included =
     (if rcSourceEventIDs candidate = [] then Inl (ErrInvalidRecall ''no source provenance'')
      else scanSources (\<or>) included {} False (rcSourceEventIDs candidate))"

definition newDecision :: "ScoredRecallCandidate \<Rightarrow> RecallDecision" where
  "newDecision candidate = \<lparr>rdCandidate = candidate, rdSelected = False, rdSelectedOrdinal = None,
     rdPromptIncluded = False, rdPromptOrdinal = None, rdRenderedText = '''',
     rdExclusionReason = ExclusionNone\<rparr>"

text \<open>The state of the loop over the selected claims.\<close>

type_synonym planState = "ID set \<times> RecallPlan"

text \<open>The end of the loop body: prompt limit, rendering and byte budget.\<close>

definition planPrompt ::
    "jcs \<Rightarrow> Policy \<Rightarrow> RecallPlan \<Rightarrow> nat \<Rightarrow> RecallDecision \<Rightarrow> RecallCandidate \<Rightarrow> (memory_error, RecallPlan) result" where
  "planPrompt jcs policy plan index decision candidate =
     (if int (length (rpPrompt plan)) \<ge> PromptIncludedLimit (pRecall policy)
      then Inr (plan\<lparr>rpDecisions := (rpDecisions plan)
             [index := decision\<lparr>rdExclusionReason := ExclusionPolicyFilter\<rparr>]\<rparr>)
      else case RenderClaim jcs policy candidate of
        Inl e \<Rightarrow> Inl e
      | Inr rendered \<Rightarrow>
          (let prospective = wrap64 (rpRenderedBytes plan + int (length rendered)) in
           if prospective > ByteBudget (pRecall policy)
           then Inr (plan\<lparr>rpDecisions := (rpDecisions plan)
                  [index := decision\<lparr>rdExclusionReason := ExclusionTokenBudget\<rparr>]\<rparr>)
           else let decision = decision\<lparr>rdPromptIncluded := True,
                      rdPromptOrdinal := Some (int (length (rpPrompt plan))),
                      rdRenderedText := rendered\<rparr>
                in Inr (plan\<lparr>rpDecisions := (rpDecisions plan)[index := decision],
                     rpPrompt := rpPrompt plan @ [decision], rpRenderedBytes := prospective\<rparr>)))"

definition planStepV1 ::
    "jcs \<Rightarrow> Policy \<Rightarrow> ID set \<Rightarrow> (ID \<rightharpoonup> nat) \<Rightarrow> planState \<Rightarrow> nat \<times> ScoredRecallCandidate
      \<Rightarrow> (memory_error, planState) result" where
  "planStepV1 jcs policy included decisionIndex = (\<lambda>(selectedClaims, plan) (rank, candidate).
     if claim_id candidate \<in> selectedClaims then Inl (ErrInvalidRecall ''duplicate selected claim'')
     else case decisionIndex (claim_id candidate) of
       None \<Rightarrow> Inl (ErrInvalidRecall ''selected claim is absent from candidates'')
     | Some index \<Rightarrow>
         (let decision = (rpDecisions plan ! index)
                \<lparr>rdSelected := True, rdSelectedOrdinal := Some (int rank)\<rparr>
          in case sourceAlreadyIncluded (scCandidate candidate) included of
               Inl e \<Rightarrow> Inl e
             | Inr duplicate \<Rightarrow>
                 (case (if duplicate
                        then Inr (plan\<lparr>rpDecisions := (rpDecisions plan)
                               [index := decision\<lparr>rdExclusionReason := ExclusionProvenanceDuplicateV1\<rparr>]\<rparr>)
                        else planPrompt jcs policy plan index decision (scCandidate candidate)) of
                    Inl e \<Rightarrow> Inl e
                  | Inr plan' \<Rightarrow> Inr (insert (claim_id candidate) selectedClaims, plan'))))"

definition planStepV2 ::
    "jcs \<Rightarrow> Policy \<Rightarrow> (ID \<rightharpoonup> nat) \<Rightarrow> (ID \<rightharpoonup> bool) \<Rightarrow> planState \<Rightarrow> nat \<times> ScoredRecallCandidate
      \<Rightarrow> (memory_error, planState) result" where
  "planStepV2 jcs policy decisionIndex allSourcesIncluded = (\<lambda>(selectedClaims, plan) (rank, selected).
     if claim_id selected \<in> selectedClaims then Inl (ErrInvalidRecall ''duplicate selected claim'')
     else case decisionIndex (claim_id selected) of
       None \<Rightarrow> Inl (ErrInvalidRecall ''selected claim is absent from candidates'')
     | Some index \<Rightarrow>
         (let candidate = scCandidate (rdCandidate (rpDecisions plan ! index));
              decision = (rpDecisions plan ! index)
                \<lparr>rdSelected := True, rdSelectedOrdinal := Some (int rank)\<rparr>
          in case (if rcStage candidate = StageFloating \<and> \<not> rcAbstract candidate
                      \<and> allSourcesIncluded (claim_id selected) = Some True
                   then Inr (plan\<lparr>rpDecisions := (rpDecisions plan)
                          [index := decision\<lparr>rdExclusionReason := ExclusionProvenanceDuplicateV2\<rparr>]\<rparr>)
                   else planPrompt jcs policy plan index decision candidate) of
               Inl e \<Rightarrow> Inl e
             | Inr plan' \<Rightarrow> Inr (insert (claim_id selected) selectedClaims, plan')))"

definition indexStep ::
    "(ID \<rightharpoonup> nat) \<Rightarrow> nat \<times> ScoredRecallCandidate \<Rightarrow> (memory_error, ID \<rightharpoonup> nat) result" where
  "indexStep decisionIndex = (\<lambda>(index, candidate).
     if decisionIndex (claim_id candidate) \<noteq> None then Inl (ErrInvalidRecall ''duplicate audited candidate'')
     else Inr (decisionIndex(claim_id candidate \<mapsto> index)))"

definition indexStepV2 ::
    "ID set \<Rightarrow> (ID \<rightharpoonup> nat) \<times> (ID \<rightharpoonup> bool) \<Rightarrow> nat \<times> ScoredRecallCandidate
      \<Rightarrow> (memory_error, (ID \<rightharpoonup> nat) \<times> (ID \<rightharpoonup> bool)) result" where
  "indexStepV2 included = (\<lambda>(decisionIndex, allSourcesIncluded) (index, candidate).
     if decisionIndex (claim_id candidate) \<noteq> None then Inl (ErrInvalidRecall ''duplicate audited candidate'')
     else case recallSourcesAllIncluded (scCandidate candidate) included of
       Inl e \<Rightarrow> Inl e
     | Inr covered \<Rightarrow>
         Inr (decisionIndex(claim_id candidate \<mapsto> index), allSourcesIncluded(claim_id candidate \<mapsto> covered)))"

definition initialPlan :: "RecallSelection \<Rightarrow> RecallPlan" where
  "initialPlan selection = \<lparr>rpDecisions = map newDecision (rsCandidates selection), rpPrompt = [],
     rpRenderedBytes = 0\<rparr>"

definition PlanRecall ::
    "jcs \<Rightarrow> Policy \<Rightarrow> RecallSelection \<Rightarrow> ID list \<Rightarrow> (memory_error, RecallPlan) result" where
  "PlanRecall jcs policy selection includedEventIDs =
     (case RequireEnabled jcs policy of Inl e \<Rightarrow> Inl e | Inr _ \<Rightarrow>
      (case includedEvents includedEventIDs of Inl e \<Rightarrow> Inl e | Inr included \<Rightarrow>
       (case foldE indexStep Map.empty (List.enumerate 0 (rsCandidates selection)) of
          Inl e \<Rightarrow> Inl e
        | Inr decisionIndex \<Rightarrow>
            (case foldE (planStepV1 jcs policy included decisionIndex) ({}, initialPlan selection)
                    (List.enumerate 0 (rsSelected selection)) of
               Inl e \<Rightarrow> Inl e
             | Inr (selectedClaims, plan) \<Rightarrow> Inr plan))))"

definition PlanRecallV2 ::
    "jcs \<Rightarrow> Policy \<Rightarrow> RecallSelection \<Rightarrow> ID list \<Rightarrow> (memory_error, RecallPlan) result" where
  "PlanRecallV2 jcs policy selection includedEventIDs =
     (case RequireEnabled jcs policy of Inl e \<Rightarrow> Inl e | Inr _ \<Rightarrow>
      (case includedEvents includedEventIDs of Inl e \<Rightarrow> Inl e | Inr included \<Rightarrow>
       (case foldE (indexStepV2 included) (Map.empty, Map.empty)
               (List.enumerate 0 (rsCandidates selection)) of
          Inl e \<Rightarrow> Inl e
        | Inr (decisionIndex, allSourcesIncluded) \<Rightarrow>
            (case foldE (planStepV2 jcs policy decisionIndex allSourcesIncluded)
                    ({}, initialPlan selection) (List.enumerate 0 (rsSelected selection)) of
               Inl e \<Rightarrow> Inl e
             | Inr (selectedClaims, plan) \<Rightarrow> Inr plan))))"

section \<open>The recall order\<close>

interpretation recall_order: sort_order "recallLess idString version" for idString version
proof
  fix x y z
  show "recallLess idString version x y \<Longrightarrow> \<not> recallLess idString version y x"
    by (auto simp: recallLess_def split: if_splits)
  show "\<not> recallLess idString version x y \<Longrightarrow> \<not> recallLess idString version y z
      \<Longrightarrow> \<not> recallLess idString version x z"
    by (auto simp: recallLess_def split: if_splits)
qed

section \<open>Scores\<close>

lemma default_policy_recall [simp]:
  "pRecall DefaultPolicyV2 = \<lparr>CandidateLimit = 64, SelectedLimit = 8, PromptIncludedLimit = 4,
     ByteBudget = 8192, WeightContext = 350000, WeightSalience = 200000, WeightConfidence = 200000,
     WeightState = 150000, WeightTemporal = 100000\<rparr>"
  "pRecall DefaultPolicyV5 = \<lparr>CandidateLimit = 64, SelectedLimit = 8, PromptIncludedLimit = 4,
     ByteBudget = 8192, WeightContext = 550000, WeightSalience = 0, WeightConfidence = 200000,
     WeightState = 150000, WeightTemporal = 100000\<rparr>"
  by (simp_all add: default_policy_defs)

lemma recall_limits:
  assumes "enabled_policy policy"
  shows "CandidateLimit (pRecall policy) = 64" "SelectedLimit (pRecall policy) = 8"
    "PromptIncludedLimit (pRecall policy) = 4" "ByteBudget (pRecall policy) = 8192"
  using enabled_policy_versions(3) [OF assms] by simp_all

definition candidate_valid :: "RecallCandidate \<Rightarrow> bool" where
  "candidate_valid c \<longleftrightarrow>
     rcClaimID c \<noteq> 0 \<and> utf8_valid (rcStatement c) \<and> rcStatement c \<noteq> ''''
     \<and> 0 \<le> rcContextCompatibility c \<and> rcContextCompatibility c \<le> 1000000
     \<and> 0 \<le> rcSalience c \<and> rcSalience c \<le> 1000000
     \<and> 0 \<le> rcConfidence c \<and> rcConfidence c \<le> 1000000
     \<and> 0 \<le> rcCurrentness c \<and> rcCurrentness c \<le> 1000000
     \<and> (\<forall>s. rcStatus c \<noteq> UnknownClaimStatus s) \<and> (\<forall>s. rcStage c \<noteq> UnknownClaimStage s)
     \<and> (\<forall>s. rcTemporalRelation c \<noteq> UnknownTemporalRelation s)"

lemma validateRecallCandidate_ok:
  "validateRecallCandidate c n = ok \<longleftrightarrow> candidate_valid c \<and> 0 \<le> n"
  by (auto simp: validateRecallCandidate_def case_result_ok candidate_valid_def)

definition eligible_spec :: "PolicyVersion \<Rightarrow> RecallCandidate \<Rightarrow> bool" where
  "eligible_spec version c \<longleftrightarrow>
     rcStatus c = StatusActive \<and> (version = PolicyVersionV5 \<longrightarrow> rcContextCompatibility c \<noteq> 0)"

text \<open>The weighted sum; V5 gives the weight of salience to the context.\<close>

definition score_spec :: "PolicyVersion \<Rightarrow> RecallCandidate \<Rightarrow> int" where
  "score_spec version c =
     ((if version = PolicyVersionV5 then 550000 else 350000) * rcContextCompatibility c
      + (if version = PolicyVersionV5 then 0 else 200000) * rcSalience c
      + 200000 * rcConfidence c + 150000 * 1000000
      + 100000 * currentness_spec (rcTemporalRelation c)) div 1000000"

definition scored_spec :: "PolicyVersion \<Rightarrow> RecallCandidate \<Rightarrow> nat \<Rightarrow> ScoredRecallCandidate" where
  "scored_spec version c n =
     \<lparr>scCandidate = c, scCandidateOrdinal = int n,
      scScore = (if eligible_spec version c then score_spec version c else 0),
      scStateFactor = (if eligible_spec version c then 1000000 else 0),
      scTemporalFactor = currentness_spec (rcTemporalRelation c),
      scEligible = eligible_spec version c\<rparr>"

lemma currentness_spec_bounds: "0 \<le> currentness_spec r \<and> currentness_spec r \<le> 1000000"
  by (cases r) (simp_all add: currentness_spec_def)

lemma ScoreRecall_eq:
  assumes "jcs_faithful jcs" and "enabled_policy policy" and "candidate_valid c"
  shows "ScoreRecall jcs policy c (int n) = Inr (scored_spec (pVersion policy) c n)"
    and "0 \<le> scScore (scored_spec (pVersion policy) c n)"
    and "scScore (scored_spec (pVersion policy) c n) \<le> 1000000"
proof -
  let ?ps = "[WeightContext (pRecall policy), rcContextCompatibility c, WeightSalience (pRecall policy),
    rcSalience c, WeightConfidence (pRecall policy), rcConfidence c, WeightState (pRecall policy),
    FixedPointScale, WeightTemporal (pRecall policy), currentness_spec (rcTemporalRelation c)]"
  have weights: "pairs_valid ?ps" "weights_total ?ps \<le> 1000000"
    using assms(3) enabled_policy_versions(3) [OF assms(2)] currentness_spec_bounds
    by (simp_all add: candidate_valid_def FixedPointScale_def)
  have tot: "pair_total ?ps div 1000000 = score_spec (pVersion policy) c"
    using enabled_policy_versions(3) [OF assms(2)] by (simp add: score_spec_def FixedPointScale_def add.assoc)
  note score = weightedRatioFloor_eq [OF weights, unfolded tot]
  have enabled: "RequireEnabled jcs policy = ok"
    using assms by (simp add: RequireEnabled_ok_iff)
  have valid: "validateRecallCandidate c (int n) = ok"
    using assms(3) by (simp add: validateRecallCandidate_ok)
  have current: "CurrentnessForRelation jcs policy (rcTemporalRelation c) =
      Inr (currentness_spec (rcTemporalRelation c))"
    using assms by (intro CurrentnessForRelation_eq) (auto simp: candidate_valid_def)
  have eligible: "(rcStatus c = StatusActive \<and> \<not> (pVersion policy = PolicyVersionV5 \<and> rcContextCompatibility c = 0))
      = eligible_spec (pVersion policy) c"
    by (auto simp: eligible_spec_def)
  show "ScoreRecall jcs policy c (int n) = Inr (scored_spec (pVersion policy) c n)"
    unfolding ScoreRecall_def enabled valid current sum.case Let_def eligible score(1)
    by (simp add: scored_spec_def FixedPointScale_def)
  show "0 \<le> scScore (scored_spec (pVersion policy) c n)"
    and "scScore (scored_spec (pVersion policy) c n) \<le> 1000000"
    using score(2,3) by (simp_all add: scored_spec_def)
qed

lemma ScoreRecall_Inr:
  assumes "jcs_faithful jcs" and "ScoreRecall jcs policy c (int n) = Inr sc"
  shows "enabled_policy policy \<and> candidate_valid c \<and> sc = scored_spec (pVersion policy) c n"
proof -
  have "RequireEnabled jcs policy = ok" "validateRecallCandidate c (int n) = ok"
    using assms(2) by (auto simp: ScoreRecall_def split: sum.splits)
  then have "enabled_policy policy" "candidate_valid c"
    using assms(1) by (simp_all add: RequireEnabled_ok_iff validateRecallCandidate_ok)
  with assms ScoreRecall_eq(1) [OF assms(1)] show ?thesis by auto
qed

section \<open>Selection takes the best\<close>

definition all_scored :: "PolicyVersion \<Rightarrow> RecallCandidate list \<Rightarrow> ScoredRecallCandidate list" where
  "all_scored version cs = map (\<lambda>(n, c). scored_spec version c n) (List.enumerate 0 cs)"

lemma all_scored_candidates: "map scCandidate (all_scored version cs) = cs"
proof -
  have "map scCandidate (all_scored version cs) = map snd (List.enumerate 0 cs)"
    unfolding all_scored_def map_map by (rule map_cong) (auto simp: scored_spec_def)
  then show ?thesis by simp
qed

lemma all_scored_elem:
  assumes "sc \<in> set (all_scored version cs)"
  shows "\<exists>n. sc = scored_spec version (scCandidate sc) n" and "scCandidate sc \<in> set cs"
proof -
  show "\<exists>n. sc = scored_spec version (scCandidate sc) n"
    using assms by (auto simp: all_scored_def scored_spec_def)
  show "scCandidate sc \<in> set cs"
    using assms all_scored_candidates [of version cs] by (metis image_eqI set_map)
qed

lemma foldE_select:
  assumes "jcs_faithful jcs"
  shows "foldE (selectStep jcs policy) (seen, xs, ys) (List.enumerate n cs) = Inr (seen', xs', ys') \<longleftrightarrow>
    (cs \<noteq> [] \<longrightarrow> enabled_policy policy) \<and> (\<forall>c\<in>set cs. candidate_valid c) \<and> distinct (map rcClaimID cs)
    \<and> rcClaimID ` set cs \<inter> seen = {}
    \<and> seen' = seen \<union> rcClaimID ` set cs
    \<and> xs' = xs @ map (\<lambda>(n, c). scored_spec (pVersion policy) c n) (List.enumerate n cs)
    \<and> ys' = ys @ filter scEligible (map (\<lambda>(n, c). scored_spec (pVersion policy) c n) (List.enumerate n cs))"
proof (induction cs arbitrary: n seen xs ys)
  case Nil
  then show ?case by auto
next
  case (Cons c cs)
  show ?case
  proof (cases "rcClaimID c \<notin> seen \<and> enabled_policy policy \<and> candidate_valid c")
    case True
    then have "ScoreRecall jcs policy c (int n) = Inr (scored_spec (pVersion policy) c n)"
      using ScoreRecall_eq(1) [OF assms] by blast
    then have "selectStep jcs policy (seen, xs, ys) (n, c) =
        Inr (insert (rcClaimID c) seen, xs @ [scored_spec (pVersion policy) c n],
             if scEligible (scored_spec (pVersion policy) c n) then ys @ [scored_spec (pVersion policy) c n] else ys)"
      using True by (simp add: selectStep_def)
    then show ?thesis
      using True by (auto simp: Cons.IH)
  next
    case False
    then have "\<exists>e. selectStep jcs policy (seen, xs, ys) (n, c) = Inl e"
      using ScoreRecall_Inr [OF assms, of policy c n] by (auto simp: selectStep_def split: sum.splits)
    with False show ?thesis by (auto split: sum.splits)
  qed
qed

lemma SelectRecall_Inr:
  assumes "jcs_faithful jcs"
  shows "SelectRecall idString jcs policy cs = Inr sel \<longleftrightarrow>
    enabled_policy policy \<and> length cs \<le> 64 \<and> (\<forall>c\<in>set cs. candidate_valid c)
    \<and> distinct (map rcClaimID cs)
    \<and> sel = \<lparr>rsCandidates = all_scored (pVersion policy) cs,
        rsSelected = take 8 (slice_stable (recallLess idString (pVersion policy))
          (filter scEligible (all_scored (pVersion policy) cs)))\<rparr>"
proof (cases "enabled_policy policy")
  case False
  then have "RequireEnabled jcs policy \<noteq> ok"
    by (simp add: RequireEnabled_ok_iff [OF assms])
  with False show ?thesis
    by (auto simp: SelectRecall_def split: sum.splits)
next
  case True
  then have enabled: "RequireEnabled jcs policy = ok"
    by (simp add: RequireEnabled_ok_iff [OF assms])
  have trunc: "(if 8 < int (length xs) then take (nat 8) xs else xs) = take 8 xs"
    for xs :: "ScoredRecallCandidate list"
    by simp
  have "SelectRecall idString jcs policy cs = Inr sel \<longleftrightarrow> length cs \<le> 64 \<and>
    (\<exists>seen xs ys. foldE (selectStep jcs policy) ({}, [], []) (List.enumerate 0 cs) = Inr (seen, xs, ys)
      \<and> sel = \<lparr>rsCandidates = xs,
           rsSelected = take 8 (slice_stable (recallLess idString (pVersion policy)) ys)\<rparr>)"
    unfolding SelectRecall_def enabled recall_limits [OF True] Let_def trunc
    by (auto split: sum.splits)
  then show ?thesis
    unfolding foldE_select [OF assms] using True by (auto simp: all_scored_def)
qed

text \<open>The first \<open>n\<close> of a sorted list: nothing outside comes before anything inside.\<close>

lemma take_sorted_best:
  assumes "sorted_wrt r xs" and "x \<in> set (take n xs)" and "y \<in> set xs" and "y \<notin> set (take n xs)"
  shows "r x y"
proof -
  have "xs = take n xs @ drop n xs" by simp
  moreover from this have "y \<in> set (drop n xs)"
    using assms(3,4) by (metis Un_iff set_append)
  ultimately show ?thesis
    using assms(1,2) by (metis sorted_wrt_append)
qed

end
