(* ===== verification/Memory_Recall_Plan.thy ===== *)
theory Memory_Recall_Plan
  imports Memory_Recall
begin

text \<open>
  What the two prompt planners of \<^verbatim>\<open>recall.go\<close> guarantee. Their loops differ in the
  provenance rule only; the locale \<open>prompt_planner\<close> states what one iteration may do, the
  budget and bookkeeping facts are proved there once, and both loops are interpretations
  of it.
\<close>

section \<open>Sources and indices\<close>

lemma scanSources_and:
  "scanSources (\<and>) included sources acc ids = Inr b \<Longrightarrow> b \<longleftrightarrow> acc \<and> set ids \<subseteq> included"
  by (induction ids arbitrary: sources acc) (auto split: sum.splits if_splits)

lemma scanSources_or:
  "scanSources (\<or>) included sources acc ids = Inr b \<Longrightarrow> b \<longleftrightarrow> acc \<or> set ids \<inter> included \<noteq> {}"
  by (induction ids arbitrary: sources acc) (auto split: sum.splits if_splits)

lemma indexStep_app:
  "indexStep m (n, c) = (if m (claim_id c) \<noteq> None then Inl (ErrInvalidRecall ''duplicate audited candidate'')
     else Inr (m(claim_id c \<mapsto> n)))"
  by (simp add: indexStep_def)

lemma indexStepV2_app:
  "indexStepV2 included (m, cov) (n, c) =
     (if m (claim_id c) \<noteq> None then Inl (ErrInvalidRecall ''duplicate audited candidate'')
      else case recallSourcesAllIncluded (scCandidate c) included of
        Inl e \<Rightarrow> Inl e
      | Inr covered \<Rightarrow> Inr (m(claim_id c \<mapsto> n), cov(claim_id c \<mapsto> covered)))"
  by (simp add: indexStepV2_def)

definition indexes :: "ScoredRecallCandidate list \<Rightarrow> (ID \<rightharpoonup> nat) \<Rightarrow> bool" where
  "indexes cands ix \<longleftrightarrow>
     distinct (map claim_id cands)
     \<and> (\<forall>k i. ix k = Some i \<longrightarrow> i < length cands \<and> claim_id (cands ! i) = k)"

lemma foldE_index:
  assumes "foldE indexStep m (List.enumerate n cs) = Inr ix"
  shows "distinct (map claim_id cs) \<and> claim_id ` set cs \<inter> dom m = {}
    \<and> (\<forall>k i. ix k = Some i \<longrightarrow>
         m k = Some i \<or> n \<le> i \<and> i < n + length cs \<and> claim_id (cs ! (i - n)) = k)"
  using assms
proof (induction cs arbitrary: n m)
  case Nil
  then show ?case by simp
next
  case (Cons c cs)
  have new: "m (claim_id c) = None" and rest: "foldE indexStep (m(claim_id c \<mapsto> n)) (List.enumerate (Suc n) cs) = Inr ix"
    using Cons.prems by (auto simp: indexStep_app split: sum.splits if_splits)
  note IH = Cons.IH [OF rest]
  have "m k = Some i \<or> n \<le> i \<and> i < n + length (c # cs) \<and> claim_id ((c # cs) ! (i - n)) = k"
    if "ix k = Some i" for k i
  proof -
    from IH that have "(m(claim_id c \<mapsto> n)) k = Some i
        \<or> Suc n \<le> i \<and> i < Suc n + length cs \<and> claim_id (cs ! (i - Suc n)) = k"
      by blast
    then show ?thesis
      by (auto split: if_splits simp: nth_Cons' Suc_le_eq)
  qed
  with IH new show ?case by auto
qed

lemma indexes_fold:
  assumes "foldE indexStep Map.empty (List.enumerate 0 cs) = Inr ix"
  shows "indexes cs ix"
  using foldE_index [OF assms] by (simp add: indexes_def)

lemma foldE_indexV2:
  assumes "foldE (indexStepV2 included) (m, cov) (List.enumerate n cs) = Inr (ix, cov')"
  shows "foldE indexStep m (List.enumerate n cs) = Inr ix
    \<and> (\<forall>k. k \<notin> claim_id ` set cs \<longrightarrow> cov' k = cov k)
    \<and> (\<forall>c\<in>set cs. \<exists>b. cov' (claim_id c) = Some b
         \<and> recallSourcesAllIncluded (scCandidate c) included = Inr b)"
  using assms
proof (induction cs arbitrary: n m cov)
  case Nil
  then show ?case by simp
next
  case (Cons c cs)
  then obtain b where new: "m (claim_id c) = None"
    and b: "recallSourcesAllIncluded (scCandidate c) included = Inr b"
    and rest: "foldE (indexStepV2 included) (m(claim_id c \<mapsto> n), cov(claim_id c \<mapsto> b)) (List.enumerate (Suc n) cs)
        = Inr (ix, cov')"
    by (auto simp: indexStepV2_app split: sum.splits if_splits)
  note IH = Cons.IH [OF rest]
  have "claim_id c \<notin> claim_id ` set cs"
    using foldE_index [OF conjunct1 [OF IH]] by auto
  with IH have "cov' (claim_id c) = Some b" by simp
  moreover have step: "indexStep m (n, c) = Inr (m(claim_id c \<mapsto> n))"
    using new by (simp add: indexStep_app)
  have "foldE indexStep m (List.enumerate n (c # cs)) = Inr ix"
    unfolding enumerate_simps foldE.simps step sum.case by (rule conjunct1 [OF IH])
  ultimately show ?case
    using IH b \<open>foldE indexStep m (List.enumerate n (c # cs)) = Inr ix\<close> by auto
qed

section \<open>The plan invariant\<close>

definition decision_ok :: "RecallDecision \<Rightarrow> bool" where
  "decision_ok d \<longleftrightarrow>
     (if rdSelected d then rdPromptIncluded d = (rdExclusionReason d = ExclusionNone)
      else \<not> rdPromptIncluded d \<and> rdExclusionReason d = ExclusionNone)"

definition plan_inv ::
    "ScoredRecallCandidate list \<Rightarrow> planState \<Rightarrow> bool" where
  "plan_inv cands st \<longleftrightarrow>
     (case st of (sel, plan) \<Rightarrow>
       map rdCandidate (rpDecisions plan) = cands
       \<and> (claim_id \<circ> rdCandidate) ` {d\<in>set (rpDecisions plan). rdSelected d} = sel
       \<and> (\<forall>d\<in>set (rpDecisions plan). decision_ok d)
       \<and> mset (filter rdPromptIncluded (rpDecisions plan)) = mset (rpPrompt plan)
       \<and> length (rpPrompt plan) \<le> 4 \<and> rpRenderedBytes plan \<le> 8192
       \<and> rpRenderedBytes plan = sum_list (map (int \<circ> length \<circ> rdRenderedText) (rpPrompt plan))
       \<and> map rdPromptOrdinal (rpPrompt plan) = map (Some \<circ> int) [0..<length (rpPrompt plan)])"

lemma initialPlan_inv: "plan_inv (rsCandidates selection) ({}, initialPlan selection)"
proof -
  have "\<forall>d\<in>set (map newDecision cs). \<not> rdSelected d \<and> \<not> rdPromptIncluded d \<and> decision_ok d" for cs
    by (auto simp: newDecision_def decision_ok_def)
  moreover have "map rdCandidate (map newDecision cs) = cs" for cs
    by (simp add: newDecision_def comp_def)
  moreover have "filter rdPromptIncluded (map newDecision cs) = []" for cs
    by (simp add: newDecision_def filter_empty_conv)
  ultimately show ?thesis
    by (auto simp: plan_inv_def initialPlan_def)
qed

text \<open>Replacing the decision of a claim that was not selected so far.\<close>

lemma mset_filter_update:
  assumes "i < length xs" and "\<not> P (xs ! i)"
  shows "mset (filter P (xs[i := x])) = (if P x then add_mset x (mset (filter P xs)) else mset (filter P xs))"
proof -
  have "mset (filter P xs) = filter_mset P (mset xs)"
    by simp
  also have "mset xs = add_mset (xs ! i) (mset xs - {#xs ! i#})"
    using assms(1) by (simp add: insert_DiffM)
  finally have old: "filter_mset P (mset xs - {#xs ! i#}) = mset (filter P xs)"
    using assms(2) by simp
  have "mset (filter P (xs[i := x])) = filter_mset P (add_mset x (mset xs - {#xs ! i#}))"
    using assms(1) by (simp add: mset_update)
  with old show ?thesis by simp
qed

lemma selected_update:
  assumes "i < length ds" and "\<not> rdSelected (ds ! i)" and "rdSelected d"
  shows "f ` {e\<in>set (ds[i := d]). rdSelected e} = insert (f d) (f ` {d\<in>set ds. rdSelected d})"
proof -
  have "{e\<in>set (ds[i := d]). rdSelected e} = insert d {d\<in>set ds. rdSelected d}"
  proof
    show "{e\<in>set (ds[i := d]). rdSelected e} \<subseteq> insert d {d\<in>set ds. rdSelected d}"
      using set_update_subset_insert [of ds i d] by blast
    have "e \<in> set (ds[i := d])" if e: "e \<in> set ds" "rdSelected e" for e
    proof -
      obtain j where j: "j < length ds" "e = ds ! j"
        using e(1) by (metis in_set_conv_nth)
      with e(2) assms(2) have "j \<noteq> i" by auto
      with j show ?thesis by (metis length_list_update nth_list_update_neq nth_mem)
    qed
    then show "insert d {d\<in>set ds. rdSelected d} \<subseteq> {e\<in>set (ds[i := d]). rdSelected e}"
      using assms(3) set_update_memI [OF assms(1)] by blast
  qed
  then show ?thesis by simp
qed

lemma plan_inv_fresh:
  assumes "plan_inv cands (sel, plan)" and "indexes cands ix" and "ix k = Some i" and "k \<notin> sel"
  shows "i < length (rpDecisions plan)" and "claim_id (rdCandidate (rpDecisions plan ! i)) = k"
    and "rdCandidate (rpDecisions plan ! i) = cands ! i"
    and "\<not> rdSelected (rpDecisions plan ! i)" and "\<not> rdPromptIncluded (rpDecisions plan ! i)"
    and "rdExclusionReason (rpDecisions plan ! i) = ExclusionNone"
proof -
  have i: "i < length cands" "claim_id (cands ! i) = k"
    using assms(2,3) by (auto simp: indexes_def)
  have decs: "map rdCandidate (rpDecisions plan) = cands"
    and sel: "(claim_id \<circ> rdCandidate) ` {d\<in>set (rpDecisions plan). rdSelected d} = sel"
    and okd: "\<forall>d\<in>set (rpDecisions plan). decision_ok d"
    using assms(1) by (simp_all add: plan_inv_def)
  show len: "i < length (rpDecisions plan)"
    using i(1) decs by (metis length_map)
  then show cand: "rdCandidate (rpDecisions plan ! i) = cands ! i"
    using decs by (metis nth_map)
  then show k: "claim_id (rdCandidate (rpDecisions plan ! i)) = k"
    using i by simp
  show ns: "\<not> rdSelected (rpDecisions plan ! i)"
    using sel assms(4) k len by (auto simp: image_iff)
  have "decision_ok (rpDecisions plan ! i)"
    using okd len by simp
  with ns show "\<not> rdPromptIncluded (rpDecisions plan ! i)"
    and "rdExclusionReason (rpDecisions plan ! i) = ExclusionNone"
    by (simp_all add: decision_ok_def)
qed

lemma plan_inv_update:
  assumes inv: "plan_inv cands (sel, plan)" and ix: "indexes cands ix" "ix k = Some i" "k \<notin> sel"
    and d: "rdCandidate d = rdCandidate (rpDecisions plan ! i)" "rdSelected d" "decision_ok d"
  shows "map rdCandidate ((rpDecisions plan)[i := d]) = cands"
    and "(claim_id \<circ> rdCandidate) ` {e\<in>set ((rpDecisions plan)[i := d]). rdSelected e} = insert k sel"
    and "\<forall>e\<in>set ((rpDecisions plan)[i := d]). decision_ok e"
    and "mset (filter rdPromptIncluded ((rpDecisions plan)[i := d])) =
      (if rdPromptIncluded d then add_mset d (mset (rpPrompt plan)) else mset (rpPrompt plan))"
proof -
  note fresh = plan_inv_fresh [OF inv ix]
  have decs: "map rdCandidate (rpDecisions plan) = cands"
    and sel: "(claim_id \<circ> rdCandidate) ` {d\<in>set (rpDecisions plan). rdSelected d} = sel"
    and okd: "\<forall>d\<in>set (rpDecisions plan). decision_ok d"
    and prompt: "mset (filter rdPromptIncluded (rpDecisions plan)) = mset (rpPrompt plan)"
    using inv by (simp_all add: plan_inv_def)
  show "map rdCandidate ((rpDecisions plan)[i := d]) = cands"
    using decs d(1) fresh(1) by (metis list_update_id map_update nth_map)
  show "(claim_id \<circ> rdCandidate) ` {e\<in>set ((rpDecisions plan)[i := d]). rdSelected e} = insert k sel"
    unfolding selected_update [OF fresh(1,4) d(2)] using d(1) fresh(2) sel by simp
  show "\<forall>e\<in>set ((rpDecisions plan)[i := d]). decision_ok e"
    using okd d(3) set_update_subset_insert [of "rpDecisions plan" i d] by blast
  show "mset (filter rdPromptIncluded ((rpDecisions plan)[i := d])) =
      (if rdPromptIncluded d then add_mset d (mset (rpPrompt plan)) else mset (rpPrompt plan))"
    using mset_filter_update [of i "rpDecisions plan" rdPromptIncluded, OF fresh(1,5)] prompt by simp
qed

section \<open>The interface of a planning loop\<close>

text \<open>Texts have a length that Go can represent with room to add them up.\<close>

definition jcs_bounded :: "jcs \<Rightarrow> bool" where
  "jcs_bounded jcs \<longleftrightarrow> (\<forall>w t. jcs w = Some t \<longrightarrow> int (length t) \<le> 2 ^ 62)"

lemma RenderClaim_bounded:
  "jcs_bounded jcs \<Longrightarrow> RenderClaim jcs policy c = Inr t \<Longrightarrow> int (length t) \<le> 2 ^ 62"
  by (auto simp: RenderClaim_def jcs_bounded_def split: sum.splits if_splits option.splits)

text \<open>
  One iteration: a fresh selected claim either gets an exclusion reason, or it passed the
  provenance rule \<open>admits\<close> and goes on to the budget checks with the candidate to render.
\<close>

locale prompt_planner =
  fixes jcs :: jcs and policy :: Policy and ix :: "ID \<rightharpoonup> nat"
    and step :: "planState \<Rightarrow> nat \<times> ScoredRecallCandidate \<Rightarrow> (memory_error, planState) result"
    and admits :: "ScoredRecallCandidate \<Rightarrow> ScoredRecallCandidate \<Rightarrow> RecallCandidate \<Rightarrow> bool"
  assumes step_law: "step (sel, plan) (rank, c) = Inr (sel', plan') \<Longrightarrow>
    claim_id c \<notin> sel \<and> sel' = insert (claim_id c) sel \<and>
    (\<exists>i. ix (claim_id c) = Some i \<and>
      (let d = (rpDecisions plan ! i)\<lparr>rdSelected := True, rdSelectedOrdinal := Some (int rank)\<rparr> in
       (\<exists>r. r \<noteq> ExclusionNone \<and>
          plan' = plan\<lparr>rpDecisions := (rpDecisions plan)[i := d\<lparr>rdExclusionReason := r\<rparr>]\<rparr>)
       \<or> (\<exists>cand. admits c (rdCandidate d) cand \<and> planPrompt jcs policy plan i d cand = Inr plan')))"
begin

definition admitted :: "planState \<Rightarrow> bool" where
  "admitted st \<longleftrightarrow> (\<forall>d\<in>set (rpPrompt (snd st)). \<exists>c cand. claim_id c = claim_id (rdCandidate d)
     \<and> admits c (rdCandidate d) cand \<and> RenderClaim jcs policy cand = Inr (rdRenderedText d))"

lemma excluded_inv:
  assumes inv: "plan_inv cands (sel, plan)" and ix: "indexes cands ix" "ix k = Some i" "k \<notin> sel"
    and r: "r \<noteq> ExclusionNone"
    and d: "d = (rpDecisions plan ! i)\<lparr>rdSelected := True, rdSelectedOrdinal := Some (int rank)\<rparr>"
  shows "plan_inv cands (insert k sel,
    plan\<lparr>rpDecisions := (rpDecisions plan)[i := d\<lparr>rdExclusionReason := r\<rparr>]\<rparr>)"
proof -
  let ?d = "d\<lparr>rdExclusionReason := r\<rparr>"
  note fresh = plan_inv_fresh [OF inv ix]
  have "rdCandidate ?d = rdCandidate (rpDecisions plan ! i)" "rdSelected ?d" "decision_ok ?d"
    "\<not> rdPromptIncluded ?d"
    using fresh(5) r by (simp_all add: d decision_ok_def)
  with plan_inv_update [OF inv ix, of ?d] inv show ?thesis
    unfolding plan_inv_def prod.case by simp
qed

lemma prompt_inv:
  assumes inv: "plan_inv cands (sel, plan)" and ix: "indexes cands ix" "ix k = Some i" "k \<notin> sel"
    and pol: "enabled_policy policy" "jcs_bounded jcs"
    and d: "d = (rpDecisions plan ! i)\<lparr>rdSelected := True, rdSelectedOrdinal := Some (int rank)\<rparr>"
    and run: "planPrompt jcs policy plan i d cand = Inr plan'"
  shows "plan_inv cands (insert k sel, plan')
    \<and> (\<forall>e\<in>set (rpPrompt plan'). e \<in> set (rpPrompt plan) \<or> rdCandidate e = rdCandidate d
         \<and> RenderClaim jcs policy cand = Inr (rdRenderedText e))"
proof (cases "\<exists>r. r \<noteq> ExclusionNone \<and>
    plan' = plan\<lparr>rpDecisions := (rpDecisions plan)[i := d\<lparr>rdExclusionReason := r\<rparr>]\<rparr>")
  case True
  then show ?thesis
    using excluded_inv [OF inv ix _ d] by auto
next
  case False
  let ?n = "length (rpPrompt plan)"
  obtain t where t: "RenderClaim jcs policy cand = Inr t" and n: "?n < 4"
    and b: "wrap64 (rpRenderedBytes plan + int (length t)) \<le> 8192"
    and p: "plan' = (let e = d\<lparr>rdPromptIncluded := True, rdPromptOrdinal := Some (int ?n), rdRenderedText := t\<rparr>
      in plan\<lparr>rpDecisions := (rpDecisions plan)[i := e], rpPrompt := rpPrompt plan @ [e],
           rpRenderedBytes := wrap64 (rpRenderedBytes plan + int (length t))\<rparr>)"
    using run False unfolding planPrompt_def Let_def recall_limits [OF pol(1)]
    by (auto split: if_splits sum.splits)
  define e where "e = d\<lparr>rdPromptIncluded := True, rdPromptOrdinal := Some (int ?n), rdRenderedText := t\<rparr>"
  note fresh = plan_inv_fresh [OF inv ix]
  have e: "rdCandidate e = rdCandidate (rpDecisions plan ! i)" "rdSelected e" "decision_ok e"
    "rdPromptIncluded e" "rdPromptOrdinal e = Some (int ?n)" "rdRenderedText e = t"
    using fresh(6) by (simp_all add: e_def d decision_ok_def)
  have "0 \<le> rpRenderedBytes plan" "rpRenderedBytes plan \<le> 8192"
    using inv by (auto simp: plan_inv_def intro!: sum_list_nonneg)
  moreover have "int (length t) \<le> 2 ^ 62"
    using RenderClaim_bounded [OF pol(2) t] .
  ultimately have w: "wrap64 (rpRenderedBytes plan + int (length t)) = rpRenderedBytes plan + int (length t)"
    by (intro wrap64_id) (simp add: int64_def)
  have p': "plan' = plan\<lparr>rpDecisions := (rpDecisions plan)[i := e], rpPrompt := rpPrompt plan @ [e],
      rpRenderedBytes := rpRenderedBytes plan + int (length t)\<rparr>"
    by (simp add: p e_def w Let_def)
  have "plan_inv cands (insert k sel, plan')"
    using plan_inv_update [OF inv ix e(1,2,3)] inv n b e(4,5,6)
    unfolding plan_inv_def prod.case p' w by simp
  moreover have "rdCandidate e = rdCandidate d"
    by (simp add: e_def)
  ultimately show ?thesis
    using t e(6) by (auto simp: p')
qed

lemma step_inv:
  assumes "step (sel, plan) (rank, c) = Inr st" and "plan_inv cands (sel, plan)" and "admitted (sel, plan)"
    and "indexes cands ix" and "enabled_policy policy" and "jcs_bounded jcs"
  shows "plan_inv cands st \<and> admitted st \<and> fst st = insert (claim_id c) sel"
proof -
  obtain sel' plan' where st: "st = (sel', plan')" by (cases st)
  note law = step_law [OF assms(1) [unfolded st]]
  then obtain i where fresh: "claim_id c \<notin> sel" "ix (claim_id c) = Some i" and sel': "sel' = insert (claim_id c) sel"
    by auto
  define d where "d = (rpDecisions plan ! i)\<lparr>rdSelected := True, rdSelectedOrdinal := Some (int rank)\<rparr>"
  note inv = assms(2) assms(4) fresh(2) fresh(1)
  from law fresh(2) consider
    (excluded) r where "r \<noteq> ExclusionNone"
      "plan' = plan\<lparr>rpDecisions := (rpDecisions plan)[i := d\<lparr>rdExclusionReason := r\<rparr>]\<rparr>"
    | (prompt) cand where "admits c (rdCandidate d) cand" "planPrompt jcs policy plan i d cand = Inr plan'"
    by (auto simp: d_def Let_def)
  then show ?thesis
  proof cases
    case excluded
    then show ?thesis
      using excluded_inv [OF inv _ d_def] assms(3) by (simp add: st sel' admitted_def)
  next
    case prompt
    note run = prompt_inv [OF inv assms(5,6) d_def prompt(2)]
    have "claim_id (rdCandidate d) = claim_id c"
      using plan_inv_fresh(2) [OF inv] by (simp add: d_def)
    with run prompt(1) assms(3) show ?thesis
      unfolding st sel' admitted_def by (auto; metis)
  qed
qed

lemma loop_inv:
  assumes "foldE step (sel, plan) xs = Inr st" and "plan_inv cands (sel, plan)" and "admitted (sel, plan)"
    and "indexes cands ix" and "enabled_policy policy" and "jcs_bounded jcs"
  shows "plan_inv cands st \<and> admitted st \<and> fst st = sel \<union> claim_id ` set (map snd xs)"
  using assms(1-3)
proof (induction xs arbitrary: sel plan)
  case Nil
  then show ?case by auto
next
  case (Cons x xs)
  then obtain sel1 plan1 where s: "step (sel, plan) (fst x, snd x) = Inr (sel1, plan1)"
    and rest: "foldE step (sel1, plan1) xs = Inr st"
    by (auto split: sum.splits)
  have "plan_inv cands (sel1, plan1) \<and> admitted (sel1, plan1) \<and> fst (sel1, plan1) = insert (claim_id (snd x)) sel"
    using step_inv [OF s Cons.prems(2,3) assms(4-6)] .
  with Cons.IH [OF rest] show ?case by auto
qed

end

section \<open>The two planners\<close>

definition admitsV1 :: "ID set \<Rightarrow> ScoredRecallCandidate \<Rightarrow> ScoredRecallCandidate \<Rightarrow> RecallCandidate \<Rightarrow> bool" where
  "admitsV1 included c dc cand \<longleftrightarrow>
     cand = scCandidate c \<and> set (rcSourceEventIDs cand) \<inter> included = {}"

definition admitsV2 :: "(ID \<rightharpoonup> bool) \<Rightarrow> ScoredRecallCandidate \<Rightarrow> ScoredRecallCandidate \<Rightarrow> RecallCandidate \<Rightarrow> bool" where
  "admitsV2 covered c dc cand \<longleftrightarrow>
     cand = scCandidate dc
     \<and> \<not> (rcStage cand = StageFloating \<and> \<not> rcAbstract cand \<and> covered (claim_id c) = Some True)"

interpretation planV1: prompt_planner jcs policy ix "planStepV1 jcs policy included ix" "admitsV1 included"
  for jcs policy ix included
proof
  fix sel plan rank c sel' plan'
  assume "planStepV1 jcs policy included ix (sel, plan) (rank, c) = Inr (sel', plan')"
  then show "claim_id c \<notin> sel \<and> sel' = insert (claim_id c) sel \<and>
    (\<exists>i. ix (claim_id c) = Some i \<and>
      (let d = (rpDecisions plan ! i)\<lparr>rdSelected := True, rdSelectedOrdinal := Some (int rank)\<rparr> in
       (\<exists>r. r \<noteq> ExclusionNone \<and>
          plan' = plan\<lparr>rpDecisions := (rpDecisions plan)[i := d\<lparr>rdExclusionReason := r\<rparr>]\<rparr>)
       \<or> (\<exists>cand. admitsV1 included c (rdCandidate d) cand \<and> planPrompt jcs policy plan i d cand = Inr plan')))"
    by (auto simp: planStepV1_def Let_def admitsV1_def sourceAlreadyIncluded_def
        split: if_splits option.splits sum.splits dest: scanSources_or)
qed

interpretation planV2: prompt_planner jcs policy ix "planStepV2 jcs policy ix covered" "admitsV2 covered"
  for jcs policy ix covered
proof
  fix sel plan rank c sel' plan'
  assume "planStepV2 jcs policy ix covered (sel, plan) (rank, c) = Inr (sel', plan')"
  then show "claim_id c \<notin> sel \<and> sel' = insert (claim_id c) sel \<and>
    (\<exists>i. ix (claim_id c) = Some i \<and>
      (let d = (rpDecisions plan ! i)\<lparr>rdSelected := True, rdSelectedOrdinal := Some (int rank)\<rparr> in
       (\<exists>r. r \<noteq> ExclusionNone \<and>
          plan' = plan\<lparr>rpDecisions := (rpDecisions plan)[i := d\<lparr>rdExclusionReason := r\<rparr>]\<rparr>)
       \<or> (\<exists>cand. admitsV2 covered c (rdCandidate d) cand \<and> planPrompt jcs policy plan i d cand = Inr plan')))"
    by (auto simp: planStepV2_def Let_def admitsV2_def
        split: if_splits option.splits sum.splits)
qed

text \<open>What a finished plan satisfies, whatever the provenance rule.\<close>

definition plan_ok :: "RecallSelection \<Rightarrow> RecallPlan \<Rightarrow> bool" where
  "plan_ok selection plan \<longleftrightarrow> plan_inv (rsCandidates selection) (claim_id ` set (rsSelected selection), plan)"

lemma set_snd_enumerate: "set (map snd (List.enumerate n xs)) = set xs"
  by (simp only: map_snd_enumerate)

lemma includedEvents_eq:
  assumes "includedEvents ids = Inr included"
  shows "included = set ids"
proof -
  let ?f = "\<lambda>included i. case ID_Validate i of
              Inl e \<Rightarrow> Inl (ErrInvalidRecall ''included event ID'')
            | Inr _ \<Rightarrow> Inr (insert i included)"
  have "foldE ?f acc ids = Inr inc \<Longrightarrow> inc = acc \<union> set ids" for acc inc
    by (induction ids arbitrary: acc) (auto split: sum.splits)
  with assms show ?thesis by (auto simp: includedEvents_def)
qed

lemma PlanRecall_ok:
  assumes "jcs_faithful jcs" and "jcs_bounded jcs" and "PlanRecall jcs policy selection ids = Inr plan"
  shows "plan_ok selection plan"
    and "\<forall>d\<in>set (rpPrompt plan). \<exists>c cand. claim_id c = claim_id (rdCandidate d)
      \<and> admitsV1 (set ids) c (rdCandidate d) cand \<and> RenderClaim jcs policy cand = Inr (rdRenderedText d)"
proof -
  have "RequireEnabled jcs policy = ok"
    using assms(3) by (auto simp: PlanRecall_def split: sum.splits)
  then have enabled: "enabled_policy policy"
    by (simp add: RequireEnabled_ok_iff [OF assms(1)])
  obtain ix sel where ix: "foldE indexStep Map.empty (List.enumerate 0 (rsCandidates selection)) = Inr ix"
    and run: "foldE (planStepV1 jcs policy (set ids) ix) ({}, initialPlan selection)
      (List.enumerate 0 (rsSelected selection)) = Inr (sel, plan)"
    using assms(3) by (auto simp: PlanRecall_def split: sum.splits dest: includedEvents_eq)
  have "planV1.admitted jcs policy (set ids) ({}, initialPlan selection)"
    by (simp add: planV1.admitted_def initialPlan_def)
  note inv = planV1.loop_inv [OF run initialPlan_inv this indexes_fold [OF ix] enabled assms(2)]
  then have "sel = claim_id ` set (rsSelected selection)"
    by (simp only: fst_conv set_snd_enumerate Un_empty_left)
  with inv show "plan_ok selection plan" by (simp add: plan_ok_def)
  show "\<forall>d\<in>set (rpPrompt plan). \<exists>c cand. claim_id c = claim_id (rdCandidate d)
      \<and> admitsV1 (set ids) c (rdCandidate d) cand \<and> RenderClaim jcs policy cand = Inr (rdRenderedText d)"
    using inv by (simp add: planV1.admitted_def)
qed

lemma PlanRecallV2_ok:
  assumes "jcs_faithful jcs" and "jcs_bounded jcs" and "PlanRecallV2 jcs policy selection ids = Inr plan"
  shows "plan_ok selection plan"
    and "\<forall>d\<in>set (rpPrompt plan). RenderClaim jcs policy (scCandidate (rdCandidate d)) = Inr (rdRenderedText d)
      \<and> \<not> (rcStage (scCandidate (rdCandidate d)) = StageFloating \<and> \<not> rcAbstract (scCandidate (rdCandidate d))
           \<and> set (rcSourceEventIDs (scCandidate (rdCandidate d))) \<subseteq> set ids)"
proof -
  have "RequireEnabled jcs policy = ok"
    using assms(3) by (auto simp: PlanRecallV2_def split: sum.splits)
  then have enabled: "enabled_policy policy"
    by (simp add: RequireEnabled_ok_iff [OF assms(1)])
  obtain ix cov sel where ixV2: "foldE (indexStepV2 (set ids)) (Map.empty, Map.empty)
      (List.enumerate 0 (rsCandidates selection)) = Inr (ix, cov)"
    and run: "foldE (planStepV2 jcs policy ix cov) ({}, initialPlan selection)
      (List.enumerate 0 (rsSelected selection)) = Inr (sel, plan)"
    using assms(3) by (auto simp: PlanRecallV2_def split: sum.splits dest!: includedEvents_eq)
  note index = foldE_indexV2 [OF ixV2]
  have "planV2.admitted jcs policy cov ({}, initialPlan selection)"
    by (simp add: planV2.admitted_def initialPlan_def)
  note inv = planV2.loop_inv [OF run initialPlan_inv this indexes_fold [OF conjunct1 [OF index]] enabled assms(2)]
  then have "sel = claim_id ` set (rsSelected selection)"
    by (simp only: fst_conv set_snd_enumerate Un_empty_left)
  with inv show ok: "plan_ok selection plan" by (simp add: plan_ok_def)
  show "\<forall>d\<in>set (rpPrompt plan). RenderClaim jcs policy (scCandidate (rdCandidate d)) = Inr (rdRenderedText d)
      \<and> \<not> (rcStage (scCandidate (rdCandidate d)) = StageFloating \<and> \<not> rcAbstract (scCandidate (rdCandidate d))
           \<and> set (rcSourceEventIDs (scCandidate (rdCandidate d))) \<subseteq> set ids)"
  proof
    fix d
    assume d: "d \<in> set (rpPrompt plan)"
    let ?c = "rdCandidate d"
    have adm: "RenderClaim jcs policy (scCandidate ?c) = Inr (rdRenderedText d)"
      "\<not> (rcStage (scCandidate ?c) = StageFloating \<and> \<not> rcAbstract (scCandidate ?c) \<and> cov (claim_id ?c) = Some True)"
      using inv d by (auto simp: planV2.admitted_def admitsV2_def)
    have "d \<in># mset (filter rdPromptIncluded (rpDecisions plan))"
      using ok d by (simp add: plan_ok_def plan_inv_def)
    then have "d \<in> set (rpDecisions plan)" by simp
    moreover have "map rdCandidate (rpDecisions plan) = rsCandidates selection"
      using ok by (simp add: plan_ok_def plan_inv_def)
    ultimately have "?c \<in> set (rsCandidates selection)"
      by (metis image_eqI set_map)
    then obtain b where b: "cov (claim_id ?c) = Some b" "recallSourcesAllIncluded (scCandidate ?c) (set ids) = Inr b"
      using index by blast
    then have "b \<longleftrightarrow> set (rcSourceEventIDs (scCandidate ?c)) \<subseteq> set ids"
      by (auto simp: recallSourcesAllIncluded_def split: if_splits dest: scanSources_and)
    with adm b show "RenderClaim jcs policy (scCandidate ?c) = Inr (rdRenderedText d)
      \<and> \<not> (rcStage (scCandidate ?c) = StageFloating \<and> \<not> rcAbstract (scCandidate ?c)
           \<and> set (rcSourceEventIDs (scCandidate ?c)) \<subseteq> set ids)" by simp
  qed
qed

section \<open>Planning does not fail\<close>

text \<open>
  The canonical encoder has a text for every claim whose statement is valid UTF-8, and every
  claim names its source events: then each loop of the planner runs to its end.
\<close>

definition jcs_renders :: "jcs \<Rightarrow> bool" where
  "jcs_renders jcs \<longleftrightarrow>
     (\<forall>s r v. utf8_valid s \<longrightarrow> jcs (WireClaimV1 s r v) \<noteq> None)
     \<and> (\<forall>c u l s r v. utf8_valid s \<longrightarrow> jcs (WireClaimV2 c u l s r v) \<noteq> None)"

definition sources_ok :: "RecallCandidate \<Rightarrow> bool" where
  "sources_ok c \<longleftrightarrow> rcSourceEventIDs c \<noteq> [] \<and> 0 \<notin> set (rcSourceEventIDs c) \<and> distinct (rcSourceEventIDs c)"

lemma RenderClaim_renders:
  assumes "jcs_faithful jcs" and "jcs_renders jcs" and "enabled_policy policy" and "candidate_valid c"
  shows "\<exists>t. RenderClaim jcs policy c = Inr t"
proof -
  have enabled: "RequireEnabled jcs policy = ok"
    by (rule RequireEnabled_cases [OF assms(1,3)])
  have valid: "TemporalRelation_Validate (rcTemporalRelation c) = ok" "Ratio_Validate (rcConfidence c) = ok"
    "Ratio_Validate (rcCurrentness c) = ok"
    using assms(4) by (simp_all add: candidate_valid_def)
  have version: "pRenderingVersion policy \<in> {RenderingVersionV1, RenderingVersionV2}"
    using enabled_policy_versions(4) [OF assms(3)] by simp
  have statement: "utf8_valid (rcStatement c)" "rcStatement c \<noteq> []"
    using assms(4) by (simp_all add: candidate_valid_def)
  obtain t u where "jcs (WireClaimV1 (rcStatement c) (rcTemporalRelation c) (pRenderingVersion policy)) = Some t"
    "jcs (WireClaimV2 (certaintyForConfidence (rcConfidence c)) (rcCurrentness c) (rcLastConfirmed c)
       (rcStatement c) (rcTemporalRelation c) (pRenderingVersion policy)) = Some u"
    using assms(2) statement(1) unfolding jcs_renders_def by blast
  then show ?thesis
    using version statement unfolding RenderClaim_def enabled valid by auto
qed

lemma scanSources_total:
  assumes "0 \<notin> set ids" and "distinct ids" and "set ids \<inter> sources = {}"
  shows "\<exists>b. scanSources f included sources acc ids = Inr b"
  using assms by (induction ids arbitrary: sources acc) (auto simp: ID_Validate_def ID_IsZero_def)

lemma index_total:
  assumes "distinct (map claim_id cs)" and "claim_id ` set cs \<inter> dom m = {}"
    and "\<forall>c\<in>set cs. sources_ok (scCandidate c)"
  shows "\<exists>ix cov'. foldE (indexStepV2 included) (m, cov) (List.enumerate n cs) = Inr (ix, cov')
    \<and> dom ix = dom m \<union> claim_id ` set cs"
  using assms
proof (induction cs arbitrary: n m cov)
  case Nil
  then show ?case by simp
next
  case (Cons c cs)
  obtain b where "recallSourcesAllIncluded (scCandidate c) included = Inr b"
    using Cons.prems(3) scanSources_total [of "rcSourceEventIDs (scCandidate c)" "{}" "(\<and>)" included True]
    by (auto simp: recallSourcesAllIncluded_def sources_ok_def)
  moreover have "m (claim_id c) = None"
    using Cons.prems(2) by auto
  ultimately have step: "indexStepV2 included (m, cov) (n, c) = Inr (m(claim_id c \<mapsto> n), cov(claim_id c \<mapsto> b))"
    by (simp add: indexStepV2_app)
  have "claim_id ` set cs \<inter> dom (m(claim_id c \<mapsto> n)) = {}"
    using Cons.prems(1,2) by auto
  then obtain ix cov' where "foldE (indexStepV2 included) (m(claim_id c \<mapsto> n), cov(claim_id c \<mapsto> b))
      (List.enumerate (Suc n) cs) = Inr (ix, cov')" "dom ix = dom (m(claim_id c \<mapsto> n)) \<union> claim_id ` set cs"
    using Cons.IH [of "m(claim_id c \<mapsto> n)" "cov(claim_id c \<mapsto> b)" "Suc n"] Cons.prems(1,3) by fastforce
  then show ?case
    by (intro exI [of _ ix] exI [of _ cov']) (simp add: step)
qed

lemma planPrompt_total:
  assumes "\<exists>t. RenderClaim jcs policy c = Inr t" and "i < length (rpDecisions plan)"
    and "rdCandidate d = rdCandidate (rpDecisions plan ! i)"
  shows "\<exists>plan'. planPrompt jcs policy plan i d c = Inr plan'
    \<and> map rdCandidate (rpDecisions plan') = map rdCandidate (rpDecisions plan)"
proof -
  have "map rdCandidate ((rpDecisions plan)[i := d']) = map rdCandidate (rpDecisions plan)"
    if "rdCandidate d' = rdCandidate d" for d'
    using assms(2,3) that by (metis list_update_id map_update nth_map)
  then show ?thesis
    using assms(1) by (auto simp: planPrompt_def Let_def)
qed

lemma planStepV2_total:
  assumes "claim_id c \<notin> sel" and "ix (claim_id c) = Some i" and "i < length (rpDecisions plan)"
    and "\<exists>t. RenderClaim jcs policy (scCandidate (rdCandidate (rpDecisions plan ! i))) = Inr t"
  shows "\<exists>plan'. planStepV2 jcs policy ix cov (sel, plan) (n, c) = Inr (insert (claim_id c) sel, plan')
    \<and> map rdCandidate (rpDecisions plan') = map rdCandidate (rpDecisions plan)"
proof -
  let ?d = "(rpDecisions plan ! i)\<lparr>rdSelected := True, rdSelectedOrdinal := Some (int n)\<rparr>"
  have "map rdCandidate ((rpDecisions plan)[i := ?d\<lparr>rdExclusionReason := r\<rparr>]) = map rdCandidate (rpDecisions plan)" for r
    using assms(3) by (simp add: map_update list_update_same_conv)
  moreover obtain plan' where "planPrompt jcs policy plan i ?d (scCandidate (rdCandidate (rpDecisions plan ! i))) = Inr plan'"
    "map rdCandidate (rpDecisions plan') = map rdCandidate (rpDecisions plan)"
    using planPrompt_total [OF assms(4,3), of ?d] by auto
  ultimately show ?thesis
    using assms(1,2) by (simp add: planStepV2_def Let_def)
qed

lemma plan_total:
  assumes "distinct (map claim_id cs)" and "claim_id ` set cs \<inter> sel = {}" and "claim_id ` set cs \<subseteq> dom ix"
    and "indexes (map rdCandidate (rpDecisions plan)) ix"
    and "\<forall>d\<in>set (map rdCandidate (rpDecisions plan)). \<exists>t. RenderClaim jcs policy (scCandidate d) = Inr t"
  shows "\<exists>st. foldE (planStepV2 jcs policy ix cov) (sel, plan) (List.enumerate n cs) = Inr st"
  using assms
proof (induction cs arbitrary: n sel plan)
  case Nil
  then show ?case by simp
next
  case (Cons c cs)
  obtain i where i: "ix (claim_id c) = Some i" "i < length (rpDecisions plan)"
    using Cons.prems(3,4) by (auto simp: indexes_def)
  moreover have "\<exists>t. RenderClaim jcs policy (scCandidate (rdCandidate (rpDecisions plan ! i))) = Inr t"
    using Cons.prems(5) i(2) by auto
  ultimately obtain plan' where
    step: "planStepV2 jcs policy ix cov (sel, plan) (n, c) = Inr (insert (claim_id c) sel, plan')"
    and same: "map rdCandidate (rpDecisions plan') = map rdCandidate (rpDecisions plan)"
    using planStepV2_total [of c sel ix i plan jcs policy cov n] Cons.prems(2) by auto
  have "\<exists>st. foldE (planStepV2 jcs policy ix cov) (insert (claim_id c) sel, plan') (List.enumerate (Suc n) cs) = Inr st"
    by (rule Cons.IH) (use Cons.prems same in auto)
  with step show ?case by simp
qed

lemma PlanRecallV2_total:
  assumes "jcs_faithful jcs" and "jcs_renders jcs" and "enabled_policy policy" and "0 \<notin> set ids"
    and "distinct (map claim_id (rsCandidates selection))" and "distinct (map claim_id (rsSelected selection))"
    and "claim_id ` set (rsSelected selection) \<subseteq> claim_id ` set (rsCandidates selection)"
    and "\<forall>c\<in>set (rsCandidates selection). candidate_valid (scCandidate c) \<and> sources_ok (scCandidate c)"
  shows "\<exists>plan. PlanRecallV2 jcs policy selection ids = Inr plan"
proof -
  have inc: "includedEvents ids = Inr (set ids)"
  proof -
    have "foldE (\<lambda>included i. case ID_Validate i of
              Inl e \<Rightarrow> Inl (ErrInvalidRecall ''included event ID'')
            | Inr _ \<Rightarrow> Inr (insert i included)) acc ids = Inr (acc \<union> set ids)" for acc
      using assms(4) by (induction ids arbitrary: acc) (auto simp: ID_Validate_def ID_IsZero_def)
    from this [of "{}"] show ?thesis by (simp add: includedEvents_def)
  qed
  obtain ix cov where ix: "foldE (indexStepV2 (set ids)) (Map.empty, Map.empty)
      (List.enumerate 0 (rsCandidates selection)) = Inr (ix, cov)" and dom: "dom ix = claim_id ` set (rsCandidates selection)"
    using index_total [OF assms(5), of Map.empty "set ids" Map.empty 0] assms(8) by auto
  have same: "map rdCandidate (rpDecisions (initialPlan selection)) = rsCandidates selection"
    by (simp add: initialPlan_def newDecision_def comp_def)
  have "indexes (rsCandidates selection) ix"
    by (rule indexes_fold) (rule conjunct1 [OF foldE_indexV2 [OF ix]])
  then obtain st where "foldE (planStepV2 jcs policy ix cov) ({}, initialPlan selection)
      (List.enumerate 0 (rsSelected selection)) = Inr st"
    using plan_total [OF assms(6), of "{}" ix "initialPlan selection" jcs policy cov 0] assms(7,8) dom
      RenderClaim_renders [OF assms(1-3)] unfolding same by auto
  then show ?thesis
    by (cases st) (simp add: PlanRecallV2_def RequireEnabled_cases [OF assms(1,3)] inc ix)
qed

end
