(* ===== verification/Memory_Persona.thy ===== *)
theory Memory_Persona
  imports Memory_Salience Go_Strings
begin

text \<open>
  Persona revisions, \<^verbatim>\<open>internal/memory/persona.go\<close>: the byte edit distance by rows, the
  count of changed lines, the metrics of an edit and the thresholds for activating it.
  The edit distance is specified by alignments: \<open>edits n xs ys\<close> says that \<open>n\<close> insertions,
  deletions and substitutions turn \<open>xs\<close> into \<open>ys\<close>.
\<close>

section \<open>Edit distance\<close>

text \<open>The inner loop: the rest of the current row, given the cell to its left.\<close>

fun levenshteinRow :: "nat \<Rightarrow> nat list \<Rightarrow> char \<Rightarrow> string \<Rightarrow> nat list" where
  "levenshteinRow cur (p0 # p1 # ps) rightByte (leftByte # left) =
     (let cost = (if leftByte \<noteq> rightByte then 1 else 0);
          deletion = p1 + 1;
          insertion = cur + 1;
          substitution = p0 + cost;
          v = min (min deletion insertion) substitution
      in v # levenshteinRow v (p1 # ps) rightByte left)"
| "levenshteinRow cur ps rightByte left = []"

definition levenshteinBytes :: "string \<Rightarrow> string \<Rightarrow> nat" where
  "levenshteinBytes left0 right0 =
     (let (left, right) = (if length left0 > length right0 then (right0, left0) else (left0, right0));
          previous = foldl (\<lambda>previous (rightIndex, rightByte).
              Suc rightIndex # levenshteinRow (Suc rightIndex) previous rightByte left)
            [0..<Suc (length left)] (List.enumerate 0 right)
      in previous ! length left)"

section \<open>Changed lines\<close>

text \<open>\<^verbatim>\<open>strings.Split(text, "\\n")\<close>.\<close>

fun splitLines :: "string \<Rightarrow> string list" where
  "splitLines [] = [[]]"
| "splitLines (c # cs) =
     (if byte c = 10 then [] # splitLines cs
      else case splitLines cs of [] \<Rightarrow> [[c]] | l # ls \<Rightarrow> (c # l) # ls)"

definition changedLineCount :: "string \<Rightarrow> string \<Rightarrow> nat" where
  "changedLineCount previous proposed =
     (let oldLines = splitLines previous; newLines = splitLines proposed;
          limit = max (length oldLines) (length newLines)
      in length (filter (\<lambda>index. index \<ge> length oldLines \<or> index \<ge> length newLines
             \<or> oldLines ! index \<noteq> newLines ! index) [0..<limit]))"

section \<open>Metrics\<close>

record PersonaEditMetrics =
  peChangedBytes :: ByteSize
  peChangedRatio :: Ratio
  peChangedLines :: Count
  peTotalBytes :: ByteSize

definition QuantizeChangedRatio :: "ByteSize \<Rightarrow> ByteSize \<Rightarrow> (memory_error, Ratio) result" where
  "QuantizeChangedRatio changedBytes totalBytes =
     (case ByteSize_Validate changedBytes of Inl e \<Rightarrow> Inl (ErrInvalidPersona ''changed bytes'') | Inr _ \<Rightarrow>
     (case ByteSize_Validate totalBytes of Inl e \<Rightarrow> Inl (ErrInvalidPersona ''total bytes'') | Inr _ \<Rightarrow>
      if changedBytes > totalBytes then Inl (ErrInvalidPersona ''changed bytes exceed total bytes'')
      else if totalBytes = 0 then
        (if changedBytes = 0
         then (case NewRatio 0 of Inl e \<Rightarrow> Inl (MemoryError ''ratio'') | Inr r \<Rightarrow> Inr r)
         else Inl (ErrInvalidPersona ''nonzero change with zero total bytes''))
      else ratioOf changedBytes totalBytes))"

definition lift_canonical :: "(canonical_error, 'a) result \<Rightarrow> (memory_error, 'a) result" where
  "lift_canonical r = (case r of Inl e \<Rightarrow> Inl (MemoryError ''canonical value'') | Inr v \<Rightarrow> Inr v)"

definition MeasurePersonaEdit :: "string \<Rightarrow> string \<Rightarrow> (memory_error, PersonaEditMetrics) result" where
  "MeasurePersonaEdit previous proposed =
     (if \<not> utf8_valid previous \<or> \<not> utf8_valid proposed
      then Inl (ErrInvalidPersona ''persona is not valid UTF-8'')
      else let distance = levenshteinBytes previous proposed in
     (case lift_canonical (NewByteSize (int distance)) of Inl e \<Rightarrow> Inl e | Inr changed \<Rightarrow>
     (case lift_canonical (NewByteSize (int (length proposed))) of Inl e \<Rightarrow> Inl e | Inr tot \<Rightarrow>
     (case lift_canonical (NewByteSize (int (length previous))) of Inl e \<Rightarrow> Inl e | Inr denominator \<Rightarrow>
     (case (if length previous = 0 then
              (if distance = 0 then lift_canonical (NewRatio 0) else lift_canonical (NewRatio 1000000))
            else if distance \<ge> length previous then lift_canonical (NewRatio 1000000)
            else QuantizeChangedRatio changed denominator) of Inl e \<Rightarrow> Inl e | Inr ratio \<Rightarrow>
     (case lift_canonical (NewCount (int (changedLineCount previous proposed))) of Inl e \<Rightarrow> Inl e | Inr ls \<Rightarrow>
        Inr \<lparr>peChangedBytes = changed, peChangedRatio = ratio, peChangedLines = ls, peTotalBytes = tot\<rparr>))))))"

section \<open>Thresholds\<close>

datatype PersonaBlockingReason =
    PersonaNoChange
  | PersonaTooFewClaims
  | PersonaTooManyClaims
  | PersonaChangedBytes
  | PersonaChangedRatio
  | PersonaChangedLines
  | PersonaTotalBytes
  | PersonaActivationCooldown
  | PersonaContradiction

record PersonaThresholdInput =
  ptClaimCount :: Count
  ptChangedBytes :: ByteSize
  ptChangedRatio :: Ratio
  ptChangedLines :: Count
  ptTotalBytes :: ByteSize
  ptAsOf :: Instant
  ptLastActivationAt :: "Instant option"

record PersonaThresholdDecision =
  pdEligible :: bool
  pdBlockingReasons :: "PersonaBlockingReason list"

definition validatePersonaThreshold :: "PersonaThresholdInput \<Rightarrow> (memory_error, unit) result" where
  "validatePersonaThreshold input =
     (case Count_Validate (ptClaimCount input) of Inl e \<Rightarrow> Inl (ErrInvalidPersona ''claim count'') | Inr _ \<Rightarrow>
     (case ByteSize_Validate (ptChangedBytes input) of Inl e \<Rightarrow> Inl (ErrInvalidPersona ''changed bytes'') | Inr _ \<Rightarrow>
     (case Ratio_Validate (ptChangedRatio input) of Inl e \<Rightarrow> Inl (ErrInvalidPersona ''changed ratio'') | Inr _ \<Rightarrow>
     (case Count_Validate (ptChangedLines input) of Inl e \<Rightarrow> Inl (ErrInvalidPersona ''changed lines'') | Inr _ \<Rightarrow>
     (case ByteSize_Validate (ptTotalBytes input) of Inl e \<Rightarrow> Inl (ErrInvalidPersona ''total bytes'') | Inr _ \<Rightarrow>
        ok)))))"

definition staticReasons :: "Policy \<Rightarrow> PersonaThresholdInput \<Rightarrow> PersonaBlockingReason list" where
  "staticReasons policy input =
     (if ptChangedBytes input = 0 \<and> ptChangedLines input = 0 then [PersonaNoChange] else [])
     @ (if ptClaimCount input < MinimumClaims (pPersona policy) then [PersonaTooFewClaims] else [])
     @ (if ptClaimCount input > MaximumClaims (pPersona policy) then [PersonaTooManyClaims] else [])
     @ (if ptChangedBytes input > MaximumChangedBytes (pPersona policy) then [PersonaChangedBytes] else [])
     @ (if ptChangedRatio input > MaximumChangedRatio (pPersona policy) then [PersonaChangedRatio] else [])
     @ (if ptChangedLines input > MaximumChangedLines (pPersona policy) then [PersonaChangedLines] else [])
     @ (if ptTotalBytes input > MaximumTotalBytes (pPersona policy) then [PersonaTotalBytes] else [])"

definition EvaluatePersonaThreshold ::
    "jcs \<Rightarrow> Policy \<Rightarrow> PersonaThresholdInput \<Rightarrow> (memory_error, PersonaThresholdDecision) result" where
  "EvaluatePersonaThreshold jcs policy input =
     (case RequireEnabled jcs policy of Inl e \<Rightarrow> Inl e | Inr _ \<Rightarrow>
     (case validatePersonaThreshold input of Inl e \<Rightarrow> Inl e | Inr _ \<Rightarrow>
     (case (case ptLastActivationAt input of
              None \<Rightarrow> Inr []
            | Some activation \<Rightarrow>
                if activation > ptAsOf input then Inl (ErrInvalidPersona ''activation is after as_of'')
                else (case instantDifference (ptAsOf input) activation of
                  Inl e \<Rightarrow> Inl (ErrInvalidPersona ''activation interval'')
                | Inr elapsed \<Rightarrow>
                    (case durationMicroseconds (ActivationCooldownHours (pPersona policy)) time_Hour of
                       Inl e \<Rightarrow> Inl (ErrInvalidPersona ''invalid activation cooldown'')
                     | Inr cooldown \<Rightarrow>
                         if cooldown \<le> 0 then Inl (ErrInvalidPersona ''invalid activation cooldown'')
                         else if elapsed < cooldown then Inr [PersonaActivationCooldown]
                         else Inr []))) of
        Inl e \<Rightarrow> Inl e
      | Inr cooldownReasons \<Rightarrow>
          (let reasons = staticReasons policy input @ cooldownReasons in
           Inr \<lparr>pdEligible = (reasons = []), pdBlockingReasons = reasons\<rparr>))))"

section \<open>The rows compute the edit distance\<close>

inductive edits :: "nat \<Rightarrow> 'a list \<Rightarrow> 'a list \<Rightarrow> bool" where
  edits_Nil: "edits 0 [] []"
| edits_keep: "edits n xs ys \<Longrightarrow> edits n (c # xs) (c # ys)"
| edits_subst: "edits n xs ys \<Longrightarrow> edits (Suc n) (c # xs) (d # ys)"
| edits_delete: "edits n xs ys \<Longrightarrow> edits (Suc n) (c # xs) ys"
| edits_insert: "edits n xs ys \<Longrightarrow> edits (Suc n) xs (d # ys)"

fun edit_distance :: "'a list \<Rightarrow> 'a list \<Rightarrow> nat" where
  "edit_distance [] ys = length ys"
| "edit_distance (x # xs) [] = Suc (length xs)"
| "edit_distance (x # xs) (y # ys) =
     min (min (edit_distance xs (y # ys) + 1) (edit_distance (x # xs) ys + 1))
       (edit_distance xs ys + (if x \<noteq> y then 1 else 0))"

lemma edits_insert_all: "edits (length ys) [] ys"
  by (induction ys) (auto intro: edits.intros)

lemma edits_delete_all: "edits (length xs) xs []"
  by (induction xs) (auto intro: edits.intros)

lemma edit_distance_attained: "edits (edit_distance xs ys) xs ys"
proof (induction xs ys rule: edit_distance.induct)
  case (1 ys)
  show ?case by (simp add: edits_insert_all)
next
  case (2 x xs)
  show ?case using edits_delete_all [of "x # xs"] by simp
next
  case (3 x xs y ys)
  have "edits (edit_distance xs (y # ys) + 1) (x # xs) (y # ys)"
    using edits_delete [OF 3(1)] by simp
  moreover have "edits (edit_distance (x # xs) ys + 1) (x # xs) (y # ys)"
    using edits_insert [OF 3(2)] by simp
  moreover have "edits (edit_distance xs ys + (if x \<noteq> y then 1 else 0)) (x # xs) (y # ys)"
    using edits_keep [OF 3(3)] edits_subst [OF 3(3)] by simp
  ultimately show ?case
    unfolding edit_distance.simps min_def by presburger
qed

lemma edit_distance_Nil2 [simp]: "edit_distance xs [] = length xs"
  by (cases xs) auto

lemma edit_distance_delete: "edit_distance (c # xs) ys \<le> Suc (edit_distance xs ys)"
  by (cases ys) auto

lemma edit_distance_insert: "edit_distance xs (d # ys) \<le> Suc (edit_distance xs ys)"
  by (cases xs) auto

lemma edit_distance_least: "edits n xs ys \<Longrightarrow> edit_distance xs ys \<le> n"
proof (induction rule: edits.induct)
  case (edits_delete n xs ys c)
  then show ?case using edit_distance_delete [of c xs ys] by simp
next
  case (edits_insert n xs ys d)
  then show ?case using edit_distance_insert [of xs d ys] by simp
qed auto

lemma edits_append: "edits n xs ys \<Longrightarrow> edits m us vs \<Longrightarrow> edits (n + m) (xs @ us) (ys @ vs)"
  by (induction rule: edits.induct) (auto intro: edits.intros)

lemma edits_single:
  "edits 0 [c] [c]" "edits (Suc 0) [c] [d]" "edits (Suc 0) [c] []" "edits (Suc 0) [] [d]"
  by (auto intro: edits.intros)

lemma edits_rev: "edits n xs ys \<Longrightarrow> edits n (rev xs) (rev ys)"
proof (induction rule: edits.induct)
  case edits_Nil
  show ?case by (auto intro: edits.intros)
next
  case (edits_keep n xs ys c)
  then show ?case using edits_append [OF edits_keep.IH edits_single(1)] by simp
next
  case (edits_subst n xs ys c d)
  then show ?case using edits_append [OF edits_subst.IH edits_single(2)] by simp
next
  case (edits_delete n xs ys c)
  then show ?case using edits_append [OF edits_delete.IH edits_single(3)] by simp
next
  case (edits_insert n xs ys d)
  then show ?case using edits_append [OF edits_insert.IH edits_single(4)] by simp
qed

lemma edits_sym: "edits n xs ys \<Longrightarrow> edits n ys xs"
  by (induction rule: edits.induct) (auto intro: edits.intros)

lemma edits_zero: "edits n xs ys \<Longrightarrow> n = 0 \<Longrightarrow> xs = ys"
  by (induction rule: edits.induct) auto

lemma edits_refl: "edits 0 xs xs"
  by (induction xs) (auto intro: edits.intros)

lemma edit_distance_rev: "edit_distance (rev xs) (rev ys) = edit_distance xs ys"
  using edits_rev [OF edit_distance_attained, of xs ys] edits_rev [OF edit_distance_attained, of "rev xs" "rev ys"]
  by (auto dest!: edit_distance_least)

lemma edit_distance_sym: "edit_distance xs ys = edit_distance ys xs"
  using edits_sym [OF edit_distance_attained, of xs ys] edits_sym [OF edit_distance_attained, of ys xs]
  by (auto dest!: edit_distance_least)

text \<open>The row of the distances of all prefixes of \<open>la @ lb\<close> that contain \<open>la\<close>.\<close>

fun prefix_row :: "string \<Rightarrow> string \<Rightarrow> string \<Rightarrow> nat list" where
  "prefix_row la [] rp = [edit_distance (rev la) (rev rp)]"
| "prefix_row la (x # lb) rp = edit_distance (rev la) (rev rp) # prefix_row (la @ [x]) lb rp"

lemma prefix_row_Cons: "prefix_row la lb rp = edit_distance (rev la) (rev rp) # tl (prefix_row la lb rp)"
  by (cases lb) auto

lemma levenshteinRow_prefix:
  "levenshteinRow (edit_distance (rev la) (rev (rp @ [r]))) (prefix_row la lb rp) r lb
    = tl (prefix_row la lb (rp @ [r]))"
proof (induction lb arbitrary: la)
  case Nil
  then show ?case by simp
next
  case (Cons x lb)
  let ?v = "edit_distance (rev (la @ [x])) (rev (rp @ [r]))"
  have v: "min (min (edit_distance (rev (la @ [x])) (rev rp) + 1) (edit_distance (rev la) (rev (rp @ [r])) + 1))
      (edit_distance (rev la) (rev rp) + (if x \<noteq> r then 1 else 0)) = ?v"
    by (simp add: min.commute)
  obtain ps where row: "prefix_row (la @ [x]) lb rp = edit_distance (rev (la @ [x])) (rev rp) # ps"
    using prefix_row_Cons by blast
  have "levenshteinRow (edit_distance (rev la) (rev (rp @ [r]))) (prefix_row la (x # lb) rp) r (x # lb)
      = ?v # levenshteinRow ?v (prefix_row (la @ [x]) lb rp) r lb"
    unfolding prefix_row.simps row levenshteinRow.simps Let_def v ..
  then show ?case
    using Cons.IH [of "la @ [x]"] prefix_row_Cons [of "la @ [x]" lb "rp @ [r]"] by simp
qed

lemma prefix_row_start: "prefix_row la lb [] = map (\<lambda>i. length la + i) [0..<Suc (length lb)]"
proof (induction lb arbitrary: la)
  case Nil
  then show ?case by simp
next
  case (Cons x lb)
  have "map (\<lambda>i. length la + i) [0..<Suc (length (x # lb))]
      = length la # map (\<lambda>i. length (la @ [x]) + i) [0..<Suc (length lb)]"
    by (simp add: upt_conv_Cons map_Suc_upt [symmetric] del: upt_Suc)
  with Cons show ?case by simp
qed

lemma prefix_row_last: "prefix_row la lb rp ! length lb = edit_distance (rev (la @ lb)) (rev rp)"
  by (induction lb arbitrary: la) auto

lemma levenshtein_rows:
  "foldl (\<lambda>previous (j, r). Suc j # levenshteinRow (Suc j) previous r left)
     (prefix_row [] left rp) (List.enumerate (length rp) rs) = prefix_row [] left (rp @ rs)"
proof (induction rs arbitrary: rp)
  case Nil
  then show ?case by simp
next
  case (Cons r rs)
  have "Suc (length rp) # levenshteinRow (Suc (length rp)) (prefix_row [] left rp) r left
      = prefix_row [] left (rp @ [r])"
    using levenshteinRow_prefix [of "[]" rp r left] prefix_row_Cons [of "[]" left "rp @ [r]"] by simp
  then show ?case
    using Cons.IH [of "rp @ [r]"] by simp
qed

lemma levenshteinBytes_eq: "levenshteinBytes xs ys = edit_distance xs ys"
proof -
  have "foldl (\<lambda>previous (j, r). Suc j # levenshteinRow (Suc j) previous r left)
      [0..<Suc (length left)] (List.enumerate 0 right) ! length left = edit_distance left right" for left right
    using levenshtein_rows [of left "[]" right] prefix_row_start [of "[]" left]
      prefix_row_last [of "[]" left right] by (simp add: edit_distance_rev del: upt_Suc)
  then show ?thesis
    by (simp add: levenshteinBytes_def edit_distance_sym [of ys xs] del: upt_Suc)
qed

section \<open>No change means the same text\<close>

lemma edit_distance_zero_iff: "edit_distance xs ys = 0 \<longleftrightarrow> xs = ys"
  using edits_zero [OF edit_distance_attained, of xs ys] edit_distance_least [OF edits_refl, of xs] by auto

lemma edit_distance_le: "edit_distance xs ys \<le> max (length xs) (length ys)"
proof (induction xs ys rule: edit_distance.induct)
  case (3 x xs y ys)
  then have "edit_distance xs ys + (if x \<noteq> y then 1 else 0) \<le> Suc (max (length xs) (length ys))"
    by simp
  then show ?case by (simp add: min_le_iff_disj)
qed auto

fun joinLines :: "string list \<Rightarrow> string" where
  "joinLines [] = []"
| "joinLines [l] = l"
| "joinLines (l # ls) = l @ CHR 0x0A # joinLines ls"

lemma splitLines_Cons: "splitLines s \<noteq> []"
  by (induction s) (auto split: list.splits)

lemma joinLines_push: "joinLines ((c # l) # ls) = c # joinLines (l # ls)"
  by (cases ls) auto

lemma byte_newline: "byte c = 10 \<longleftrightarrow> c = CHR 0x0A"
  using byte_inject [of c "CHR 0x0A"] by (simp add: byte_def)

lemma joinLines_splitLines: "joinLines (splitLines s) = s"
proof (induction s)
  case (Cons c s)
  then obtain l ls where "splitLines s = l # ls"
    using splitLines_Cons by (cases "splitLines s") auto
  with Cons show ?case by (auto simp: joinLines_push byte_newline)
qed simp

lemma splitLines_inject: "splitLines a = splitLines b \<longleftrightarrow> a = b"
  by (metis joinLines_splitLines)

lemma changedLineCount_zero_iff: "changedLineCount a b = 0 \<longleftrightarrow> a = b"
proof
  assume "changedLineCount a b = 0"
  then have none: "\<And>i. i < max (length (splitLines a)) (length (splitLines b)) \<Longrightarrow>
      i < length (splitLines a) \<and> i < length (splitLines b) \<and> splitLines a ! i = splitLines b ! i"
    unfolding changedLineCount_def Let_def length_0_conv filter_empty_conv
    by (metis atLeastLessThan_iff atLeastLessThan_upt not_le zero_le)
  have "length (splitLines a) = length (splitLines b)"
    using none [of "min (length (splitLines a)) (length (splitLines b))"] by linarith
  with none have "splitLines a = splitLines b"
    by (intro nth_equalityI) auto
  then show "a = b" by (simp add: splitLines_inject)
qed (simp add: changedLineCount_def Let_def filter_empty_conv)

section \<open>Metrics and thresholds\<close>

definition changed_ratio :: "string \<Rightarrow> string \<Rightarrow> int" where
  "changed_ratio previous proposed =
     (if previous = proposed then 0
      else if edit_distance previous proposed \<ge> length previous then 1000000
      else int (edit_distance previous proposed) * 1000000 div int (length previous))"

lemma changed_ratio_bounds: "0 \<le> changed_ratio a b \<and> changed_ratio a b \<le> 1000000"
proof -
  have "int d * 1000000 div int n \<le> 1000000" if "d < n" for d n :: nat
    using that zdiv_mono1 [of "int d * 1000000" "int n * 1000000" "int n"] by simp
  moreover have "0 \<le> int d * 1000000 div int n" for d n :: nat
    by (simp add: div_int_pos_iff)
  ultimately show ?thesis
    by (auto simp: changed_ratio_def)
qed

text \<open>Texts that Go can hold in memory have a length in the range of \<^verbatim>\<open>int64\<close>.\<close>

lemma MeasurePersonaEdit_eq:
  assumes "utf8_valid previous" and "utf8_valid proposed" and "int (length previous) \<le> maxInt64"
  shows "MeasurePersonaEdit previous proposed =
    Inr \<lparr>peChangedBytes = int (edit_distance previous proposed),
      peChangedRatio = changed_ratio previous proposed,
      peChangedLines = int (changedLineCount previous proposed),
      peTotalBytes = int (length proposed)\<rparr>"
proof -
  let ?d = "edit_distance previous proposed"
  have quant: "QuantizeChangedRatio (int ?d) (int (length previous)) =
      Inr (int ?d * 1000000 div int (length previous))" if "?d < length previous"
    using that assms(3) ratioOf_eq(1) [of "int ?d" "int (length previous)"]
    by (auto simp: QuantizeChangedRatio_def ByteSize_Validate_def NewByteSize_def int64_maxInt64_iff minInt64_def)
  have "(if length previous = 0 then
           (if ?d = 0 then lift_canonical (NewRatio 0) else lift_canonical (NewRatio 1000000))
         else if ?d \<ge> length previous then lift_canonical (NewRatio 1000000)
         else QuantizeChangedRatio (int ?d) (int (length previous))) = Inr (changed_ratio previous proposed)"
    using quant edit_distance_zero_iff [of previous proposed]
    by (auto simp: changed_ratio_def lift_canonical_def NewRatio_def FixedPointScale_def)
  then show ?thesis
    using assms(1,2)
    by (simp add: MeasurePersonaEdit_def levenshteinBytes_eq Let_def lift_canonical_def NewByteSize_def NewCount_def)
qed

lemma default_policy_persona [simp]:
  "pPersona DefaultPolicyV2 = \<lparr>MinimumClaims = 2, MaximumClaims = 8, MaximumChangedBytes = 256,
     MaximumChangedRatio = 100000, MaximumChangedLines = 3, MaximumTotalBytes = 8192,
     ActivationCooldownHours = 24\<rparr>"
  by (simp add: DefaultPolicyV2_def)

definition threshold_ok :: "PersonaThresholdInput \<Rightarrow> bool" where
  "threshold_ok input \<longleftrightarrow>
     0 \<le> ptClaimCount input \<and> 0 \<le> ptChangedBytes input \<and> 0 \<le> ptChangedLines input \<and> 0 \<le> ptTotalBytes input
     \<and> 0 \<le> ptChangedRatio input \<and> ptChangedRatio input \<le> 1000000
     \<and> (\<forall>a. ptLastActivationAt input = Some a \<longrightarrow> a \<le> ptAsOf input \<and> ptAsOf input - a \<le> maxInt64)"

definition threshold_spec :: "PersonaThresholdInput \<Rightarrow> bool" where
  "threshold_spec input \<longleftrightarrow>
     (ptChangedBytes input \<noteq> 0 \<or> ptChangedLines input \<noteq> 0)
     \<and> 2 \<le> ptClaimCount input \<and> ptClaimCount input \<le> 8 \<and> ptChangedBytes input \<le> 256
     \<and> ptChangedRatio input \<le> 100000 \<and> ptChangedLines input \<le> 3 \<and> ptTotalBytes input \<le> 8192
     \<and> (\<forall>a. ptLastActivationAt input = Some a \<longrightarrow> episodeMicros \<le> ptAsOf input - a)"

lemma EvaluatePersonaThreshold_decides:
  assumes "jcs_faithful jcs" and "enabled_policy policy" and "threshold_ok input"
  shows "\<exists>decision. EvaluatePersonaThreshold jcs policy input = Inr decision
    \<and> (pdEligible decision \<longleftrightarrow> threshold_spec input)
    \<and> (pdEligible decision \<longleftrightarrow> pdBlockingReasons decision = [])
    \<and> distinct (pdBlockingReasons decision)"
proof -
  have enabled: "RequireEnabled jcs policy = ok"
    using assms by (simp add: RequireEnabled_ok_iff)
  have valid: "validatePersonaThreshold input = ok"
    using assms(3) by (simp add: validatePersonaThreshold_def threshold_ok_def Count_Validate_def
        ByteSize_Validate_def Ratio_Validate_def NewCount_def NewByteSize_def NewRatio_def FixedPointScale_def)
  have limits: "pPersona policy = pPersona DefaultPolicyV2"
    by (rule enabled_policy_rules(6) [OF assms(2)])
  have cool: "durationMicroseconds (ActivationCooldownHours (pPersona policy)) time_Hour = Inr episodeMicros"
    by (simp add: limits durationMicroseconds_days episodeMicros_def)
  have diff: "instantDifference (ptAsOf input) a = Inr (ptAsOf input - a)" if "ptLastActivationAt input = Some a" for a
    using assms(3) that by (simp add: instantDifference_def threshold_ok_def int64_maxInt64_iff minInt64_def)
  have pos: "0 < episodeMicros" by (simp add: episodeMicros_def)
  have static: "staticReasons policy input = [] \<longleftrightarrow> threshold_spec (input\<lparr>ptLastActivationAt := None\<rparr>)"
    unfolding staticReasons_def limits by (auto simp: threshold_spec_def)
  have dist: "distinct (staticReasons policy input)" "PersonaActivationCooldown \<notin> set (staticReasons policy input)"
    by (auto simp: staticReasons_def)
  show ?thesis
  proof (cases "ptLastActivationAt input")
    case None
    then show ?thesis
      unfolding EvaluatePersonaThreshold_def enabled valid
      using static dist by (simp add: Let_def threshold_spec_def)
  next
    case (Some a)
    then have "a \<le> ptAsOf input"
      using assms(3) by (simp add: threshold_ok_def)
    with Some show ?thesis
      unfolding EvaluatePersonaThreshold_def enabled valid
      using static dist pos by (simp add: Let_def threshold_spec_def diff [OF Some] cool not_le)
  qed
qed

end
