(* ===== verification/Memory_Query.thy ===== *)
theory Memory_Query
  imports Memory_Fixed
begin

text \<open>
  The transient recall query of \<^verbatim>\<open>internal/memory/recall_query.go\<close>: a set of character
  bigrams and the Dice coefficient of two such sets. A token is the list of its runes. The
  Unicode tables behind \<^verbatim>\<open>unicode.IsLetter\<close>, \<^verbatim>\<open>unicode.IsDigit\<close> and \<^verbatim>\<open>unicode.ToLower\<close> are
  data of the standard library and arguments of the definitions.
\<close>

type_synonym rune = nat
type_synonym RecallQueryV5 = "rune list set"

definition RuneError :: rune where
  "RuneError = 65533"

text \<open>
  \<^verbatim>\<open>for _, r := range text\<close>: the runes of a text; a byte that does not start a valid
  sequence is one \<^verbatim>\<open>RuneError\<close>.
\<close>

fun range_runes :: "string \<Rightarrow> rune list" where
  "range_runes [] = []"
| "range_runes (a # s) =
     (if byte a < 128 then byte a # range_runes s
      else case s of [] \<Rightarrow> RuneError # range_runes s | b # s1 \<Rightarrow>
        if 194 \<le> byte a \<and> byte a \<le> 223 \<and> utf8_cont b
        then ((byte a - 192) * 64 + (byte b - 128)) # range_runes s1
        else case s1 of [] \<Rightarrow> RuneError # range_runes s | c # s2 \<Rightarrow>
          if 224 \<le> byte a \<and> byte a \<le> 239 \<and> utf8_cont b \<and> (byte a = 224 \<longrightarrow> 160 \<le> byte b)
            \<and> (byte a = 237 \<longrightarrow> byte b \<le> 159) \<and> utf8_cont c
          then ((byte a - 224) * 4096 + (byte b - 128) * 64 + (byte c - 128)) # range_runes s2
          else case s2 of [] \<Rightarrow> RuneError # range_runes s | d # s3 \<Rightarrow>
            if 240 \<le> byte a \<and> byte a \<le> 244 \<and> utf8_cont b \<and> (byte a = 240 \<longrightarrow> 144 \<le> byte b)
              \<and> (byte a = 244 \<longrightarrow> byte b \<le> 143) \<and> utf8_cont c \<and> utf8_cont d
            then ((byte a - 240) * 262144 + (byte b - 128) * 4096 + (byte c - 128) * 64 + (byte d - 128))
              # range_runes s3
            else RuneError # range_runes s)"

record unicode_tables =
  ut_IsLetter :: "rune \<Rightarrow> bool"
  ut_IsDigit :: "rune \<Rightarrow> bool"
  ut_ToLower :: "rune \<Rightarrow> rune"

definition recallRunes :: "unicode_tables \<Rightarrow> string \<Rightarrow> rune list" where
  "recallRunes ut s = map (ut_ToLower ut) (filter (\<lambda>r. ut_IsLetter ut r \<or> ut_IsDigit ut r) (range_runes s))"

fun bigrams :: "rune list \<Rightarrow> RecallQueryV5" where
  "bigrams (a # b # rs) = insert [a, b] (bigrams (b # rs))"
| "bigrams rs = {}"

definition recallBigrams :: "unicode_tables \<Rightarrow> string \<Rightarrow> RecallQueryV5" where
  "recallBigrams ut s =
     (let runes = recallRunes ut s in (if length runes = 1 then {runes} else {}) \<union> bigrams runes)"

definition NewRecallQueryV5 :: "unicode_tables \<Rightarrow> string \<Rightarrow> RecallQueryV5" where
  "NewRecallQueryV5 ut query = recallBigrams ut query"

definition Compatibility :: "unicode_tables \<Rightarrow> RecallQueryV5 \<Rightarrow> string \<Rightarrow> Ratio" where
  "Compatibility ut query statement =
     (let other = (if card query = 1 \<and> (\<exists>token\<in>query. length token = 1)
                   then set (map (\<lambda>r. [r]) (recallRunes ut statement))
                   else recallBigrams ut statement)
      in if card query = 0 \<or> card other = 0 then 0
         else let common = int (card (query \<inter> other)) in
           wrap64 (wrap64 (2 * common * FixedPointScale)) sdiv (int (card query) + int (card other)))"

section \<open>The coefficient is a ratio\<close>

lemma finite_bigrams: "finite (bigrams rs)"
  by (induction rs rule: bigrams.induct) auto

lemma finite_recallBigrams: "finite (recallBigrams ut s)"
  by (simp add: recallBigrams_def Let_def finite_bigrams)

lemma card_bigrams: "card (bigrams rs) \<le> length rs"
proof (induction rs rule: bigrams.induct)
  case (1 a b rs)
  have "card (bigrams (a # b # rs)) \<le> Suc (card (bigrams (b # rs)))"
    using card_insert_le_m1 [of "Suc (card (bigrams (b # rs)))"] by (simp add: card_insert_if finite_bigrams)
  with 1 show ?case by simp
qed auto

lemma in_if: "x \<in> S \<Longrightarrow> y \<in> S \<Longrightarrow> (if P then x else y) \<in> S"
  by simp

lemma step_mem: "length t \<le> length s \<Longrightarrow> r # range_runes t \<in> {r # range_runes t | r t. length t \<le> length s}"
  by auto

lemma range_runes_step: "range_runes (a # s) \<in> {r # range_runes t | r t. length t \<le> length s}"
proof -
  consider "s = []" | b where "s = [b]" | b c where "s = [b, c]" | b c d t where "s = b # c # d # t"
    by (metis list.exhaust)
  then show ?thesis
    unfolding range_runes.simps(2)
    by cases (simp_all only: list.case, (intro in_if step_mem; simp)+)
qed

lemma length_range_runes: "length (range_runes s) \<le> length s"
proof (induction s rule: length_induct)
  case (1 s)
  show ?case
  proof (cases s)
    case (Cons a t)
    then obtain r u where "range_runes s = r # range_runes u" "length u \<le> length t"
      using range_runes_step [of a t] by blast
    moreover have "length (range_runes u) \<le> length u"
      using 1 Cons calculation(2) by simp
    ultimately show ?thesis
      using Cons by simp
  qed simp
qed

lemma card_recallBigrams: "card (recallBigrams ut s) \<le> length s"
proof -
  let ?r = "recallRunes ut s"
  have "length ?r \<le> length s"
    using length_range_runes [of s] by (auto simp: recallRunes_def intro: order_trans [OF length_filter_le])
  moreover have "card ((if length ?r = 1 then {?r} else {}) \<union> bigrams ?r) \<le> length ?r"
  proof (cases "length ?r = 1")
    case True
    then have "bigrams ?r = {}" by (cases ?r rule: bigrams.cases) auto
    with True show ?thesis by simp
  next
    case False
    then show ?thesis by (simp add: card_bigrams)
  qed
  ultimately show ?thesis by (simp add: recallBigrams_def Let_def)
qed

lemma dice_bounds:
  assumes "finite A" and "finite B" and "A \<noteq> {}"
  shows "2 * int (card (A \<inter> B)) * 1000000 div (int (card A) + int (card B)) \<le> 1000000"
    and "2 * int (card (A \<inter> B)) * 1000000 div (int (card A) + int (card B)) = 1000000 \<longleftrightarrow> A = B"
proof -
  have a: "card (A \<inter> B) \<le> card A" and b: "card (A \<inter> B) \<le> card B"
    using assms by (auto intro: card_mono)
  have pos: "0 < int (card A) + int (card B)"
    using assms by (simp add: card_gt_0_iff add_pos_nonneg)
  have div_le: "x div n \<le> 1000000" if "x \<le> 1000000 * n" "0 < n" for x n :: int
    using zdiv_mono1 [OF that] that(2) by simp
  show "2 * int (card (A \<inter> B)) * 1000000 div (int (card A) + int (card B)) \<le> 1000000"
    using a b pos by (intro div_le) simp_all
  have div_eq: "1000000 * n \<le> x" if "x div n = 1000000" "0 < n" for x n :: int
    using that(1) pos_mod_sign [OF that(2), of x] by (metis div_mult_mod_eq le_add_same_cancel1)
  show "2 * int (card (A \<inter> B)) * 1000000 div (int (card A) + int (card B)) = 1000000 \<longleftrightarrow> A = B"
  proof
    assume "A = B"
    then show "2 * int (card (A \<inter> B)) * 1000000 div (int (card A) + int (card B)) = 1000000"
      using pos by (auto simp: card_gt_0_iff)
  next
    assume eq: "2 * int (card (A \<inter> B)) * 1000000 div (int (card A) + int (card B)) = 1000000"
    have "1000000 * (int (card A) + int (card B)) \<le> 2 * int (card (A \<inter> B)) * 1000000"
      using pos eq by (intro div_eq)
    then have "card A \<le> card (A \<inter> B)" and "card B \<le> card (A \<inter> B)"
      using a b by simp_all
    then have "A \<inter> B = A" and "A \<inter> B = B"
      using card_seteq [OF assms(1), of "A \<inter> B"] card_seteq [OF assms(2), of "A \<inter> B"] by blast+
    then show "A = B" by simp
  qed
qed

lemma recallBigrams_single:
  "card (recallBigrams ut s) = 1 \<Longrightarrow> \<exists>token\<in>recallBigrams ut s. length token = 1
    \<Longrightarrow> \<exists>r. recallRunes ut s = [r] \<and> recallBigrams ut s = {[r]}"
proof -
  assume ex: "\<exists>token\<in>recallBigrams ut s. length token = 1"
  have "length token = 2" if "token \<in> bigrams rs" for token rs
    using that by (induction rs rule: bigrams.induct) auto
  with ex have "length (recallRunes ut s) = 1"
    by (fastforce simp: recallBigrams_def Let_def split: if_splits)
  then obtain r where "recallRunes ut s = [r]"
    by (auto simp: length_Suc_conv)
  then show ?thesis by (simp add: recallBigrams_def Let_def)
qed

text \<open>Below the size where the product leaves \<^verbatim>\<open>int64\<close>, a query of two runes or more has the exact coefficient.\<close>

lemma Compatibility_eq:
  assumes "length (recallRunes ut s) \<noteq> 1" and "length s \<le> 2 ^ 40"
  shows "Compatibility ut (NewRecallQueryV5 ut s) t =
    2 * int (card (recallBigrams ut s \<inter> recallBigrams ut t)) * 1000000
      div (int (card (recallBigrams ut s)) + int (card (recallBigrams ut t)))"
proof -
  let ?A = "recallBigrams ut s" and ?B = "recallBigrams ut t"
  have fin: "finite ?A" "finite ?B" by (simp_all add: finite_recallBigrams)
  have single: "\<not> (card ?A = 1 \<and> (\<exists>token\<in>?A. length token = 1))"
    using recallBigrams_single [of ut s] assms(1) by fastforce
  have "card (?A \<inter> ?B) \<le> card ?A"
    by (rule card_mono [OF fin(1)]) simp
  also have "\<dots> \<le> 2 ^ 40"
    using card_recallBigrams [of ut s] assms(2) by simp
  finally have "2 * int (card (?A \<inter> ?B)) * 1000000 \<le> 2 * 2 ^ 40 * 1000000"
    by simp
  then have wrap: "wrap64 (2 * int (card (?A \<inter> ?B)) * 1000000) = 2 * int (card (?A \<inter> ?B)) * 1000000"
    by (intro wrap64_id) (simp add: int64_def)
  have sdiv: "2 * int (card (?A \<inter> ?B)) * 1000000 sdiv (int (card ?A) + int (card ?B)) =
      2 * int (card (?A \<inter> ?B)) * 1000000 div (int (card ?A) + int (card ?B))"
    by (simp add: signed_divide_int_def sgn_if)
  have other: "(if card ?A = 1 \<and> (\<exists>token\<in>?A. length token = 1)
      then set (map (\<lambda>r. [r]) (recallRunes ut t)) else ?B) = ?B"
    using single by (rule if_not_P)
  have zero: "card ?A = 0 \<or> card ?B = 0 \<Longrightarrow> card (?A \<inter> ?B) = 0"
    using fin by auto
  show ?thesis
    unfolding Compatibility_def NewRecallQueryV5_def Let_def other FixedPointScale_def wrap sdiv
    using zero by simp
qed

end
