(* ===== verification/Memory_Properties.thy ===== *)
theory Memory_Properties
  imports Memory_Maturation Memory_Recall_Plan Memory_Persona Memory_Query
begin

text \<open>
  The properties of the memory packages, stated over the definitions of the components, and
  a concrete instance for each property that has hypotheses.
\<close>

section \<open>Concrete inputs\<close>

text \<open>
  A canonical encoder for the instances: the five fixed definitions have their own texts,
  a rendered claim has a text that contains its statement, and nothing else has one.
\<close>

definition demo_jcs :: jcs where
  "demo_jcs w =
     (case w of
        WirePolicyV1 p \<Rightarrow> if w = wire_of DefaultPolicyV1 then Some ''1'' else None
      | WirePolicyV2 p \<Rightarrow>
          if w = wire_of DefaultPolicyV2 then Some ''2'' else if w = wire_of DefaultPolicyV3 then Some ''3''
          else if w = wire_of DefaultPolicyV4 then Some ''4'' else if w = wire_of DefaultPolicyV5 then Some ''5''
          else None
      | WireClaimV1 s r v \<Rightarrow> Some (''claim '' @ take 9000 s)
      | WireClaimV2 c u l s r v \<Rightarrow> Some (''claim '' @ take 9000 s))"

lemma wire_of_V1: "\<exists>w. wire_of DefaultPolicyV1 = WirePolicyV1 w"
  by (simp add: wire_of_def policyWireUnchecked_def)

lemma wire_of_V2:
  assumes "pVersion p \<in> {PolicyVersionV2, PolicyVersionV3, PolicyVersionV4, PolicyVersionV5}"
  shows "\<exists>w. wire_of p = WirePolicyV2 w \<and> w2Version w = pVersion p"
  using assms by (auto simp: wire_of_def policyWireUnchecked_def)

lemma wires_distinct:
  "wire_of DefaultPolicyV3 \<noteq> wire_of DefaultPolicyV2" "wire_of DefaultPolicyV4 \<noteq> wire_of DefaultPolicyV2"
  "wire_of DefaultPolicyV5 \<noteq> wire_of DefaultPolicyV2" "wire_of DefaultPolicyV4 \<noteq> wire_of DefaultPolicyV3"
  "wire_of DefaultPolicyV5 \<noteq> wire_of DefaultPolicyV3" "wire_of DefaultPolicyV5 \<noteq> wire_of DefaultPolicyV4"
  using wire_of_V2 [of DefaultPolicyV2] wire_of_V2 [of DefaultPolicyV3] wire_of_V2 [of DefaultPolicyV4]
    wire_of_V2 [of DefaultPolicyV5] by auto

lemma demo_jcs_texts:
  "demo_jcs (wire_of DefaultPolicyV1) = Some ''1''" "demo_jcs (wire_of DefaultPolicyV2) = Some ''2''"
  "demo_jcs (wire_of DefaultPolicyV3) = Some ''3''" "demo_jcs (wire_of DefaultPolicyV4) = Some ''4''"
  "demo_jcs (wire_of DefaultPolicyV5) = Some ''5''"
  using wire_of_V1 wire_of_V2 [of DefaultPolicyV2] wire_of_V2 [of DefaultPolicyV3] wire_of_V2 [of DefaultPolicyV4]
    wire_of_V2 [of DefaultPolicyV5] wires_distinct
  by (auto simp: demo_jcs_def)

lemma demo_jcs_inverse:
  "demo_jcs w = Some ''1'' \<Longrightarrow> w = wire_of DefaultPolicyV1" "demo_jcs w = Some ''2'' \<Longrightarrow> w = wire_of DefaultPolicyV2"
  "demo_jcs w = Some ''3'' \<Longrightarrow> w = wire_of DefaultPolicyV3" "demo_jcs w = Some ''4'' \<Longrightarrow> w = wire_of DefaultPolicyV4"
  "demo_jcs w = Some ''5'' \<Longrightarrow> w = wire_of DefaultPolicyV5"
  by (auto simp: demo_jcs_def split: Wire.splits if_splits)

lemma demo_faithful: "jcs_faithful demo_jcs"
proof -
  have f: "demo_jcs (wire_of q) \<noteq> None \<and> (\<forall>w. demo_jcs w = demo_jcs (wire_of q) \<longrightarrow> w = wire_of q)"
    if "demo_jcs (wire_of q) = Some t" "\<And>w. demo_jcs w = Some t \<Longrightarrow> w = wire_of q" for q t
    using that by (metis option.distinct(1))
  show ?thesis
    unfolding jcs_faithful_def fixed_policies_def list.set ball_simps
    using f [OF demo_jcs_texts(1) demo_jcs_inverse(1)] f [OF demo_jcs_texts(2) demo_jcs_inverse(2)]
      f [OF demo_jcs_texts(3) demo_jcs_inverse(3)] f [OF demo_jcs_texts(4) demo_jcs_inverse(4)]
      f [OF demo_jcs_texts(5) demo_jcs_inverse(5)] by blast
qed

lemma demo_bounded: "jcs_bounded demo_jcs"
  unfolding jcs_bounded_def
proof (intro allI impI)
  fix w t
  assume "demo_jcs w = Some t"
  then have "length t \<le> 9006"
    by (cases w) (auto simp: demo_jcs_def split: if_splits)
  then show "int (length t) \<le> 2 ^ 62" by simp
qed

lemma demo_enabled:
  "enabled_policy DefaultPolicyV2" "enabled_policy DefaultPolicyV3" "enabled_policy DefaultPolicyV4"
  "enabled_policy DefaultPolicyV5" "enabled_policy (DefaultPolicyV5\<lparr>pMemoryRecallEnabled := False\<rparr>)"
proof -
  have same: "p\<lparr>pMemoryRecallEnabled := True\<rparr> = p" if "pMemoryRecallEnabled p" for p :: Policy
    using that by simp
  show "enabled_policy DefaultPolicyV2" "enabled_policy DefaultPolicyV3" "enabled_policy DefaultPolicyV4"
    "enabled_policy DefaultPolicyV5" "enabled_policy (DefaultPolicyV5\<lparr>pMemoryRecallEnabled := False\<rparr>)"
    by (simp_all add: enabled_policy_def same)
qed

section \<open>The policy gate\<close>

text \<open>
  \<^verbatim>\<open>Policy.RequireEnabled\<close> accepts exactly the four fixed definitions V2 to V5, up to
  the in-memory flag \<^verbatim>\<open>MemoryRecallEnabled\<close>, which is not part of the compared text.
\<close>

theorem policy_gate:
  assumes "jcs_faithful jcs"
  shows "RequireEnabled jcs p = ok \<longleftrightarrow>
    p\<lparr>pMemoryRecallEnabled := True\<rparr> \<in> {DefaultPolicyV2, DefaultPolicyV3, DefaultPolicyV4, DefaultPolicyV5}"
  using RequireEnabled_ok_iff [OF assms] unfolding enabled_policy_def .

theorem policy_gate_witness:
  "RequireEnabled demo_jcs (DefaultPolicyV5\<lparr>pMemoryRecallEnabled := False\<rparr>) = ok"
  using policy_gate [OF demo_faithful] demo_enabled(5) unfolding enabled_policy_def by blast

text \<open>The decoder reads back what the canonical encoder wrote.\<close>

definition decoder_sound :: "jcs \<Rightarrow> json_decoder \<Rightarrow> bool" where
  "decoder_sound jcs jd \<longleftrightarrow>
     (\<forall>t w. jd_closed2 jd t = Some w \<longrightarrow> jcs (WirePolicyV2 w) = Some t)"

lemma requireExactPolicy_ok:
  assumes "jcs_faithful jcs" and "q \<in> {DefaultPolicyV2, DefaultPolicyV3, DefaultPolicyV4, DefaultPolicyV5}"
    and "requireExactPolicy jcs t q = ok"
  shows "jcs (wire_of q) = Some t"
proof -
  obtain u where u: "Policy_CanonicalJSON jcs q = Inr u" "t = u"
    using assms(3) by (auto simp: requireExactPolicy_def split: sum.splits if_splits)
  have "\<forall>s. pVersion q \<noteq> UnknownPolicyVersion s"
    using assms(2) by auto
  then have "policyWire q = Inr (wire_of q)"
    using policyWireUnchecked_total [of q] unfolding policyWire_def by (simp split: sum.splits)
      (metis PolicyVersion_Validate_ok sum.distinct(1))
  with u show ?thesis
    unfolding Policy_CanonicalJSON_def by (auto split: option.splits if_splits)
qed

text \<open>
  \<^verbatim>\<open>ParsePolicy\<close> accepts nothing but the exact canonical texts of the five fixed
  definitions, and what it returns is the definition of the version in the text.
\<close>

theorem parse_policy_fixed:
  assumes "jcs_faithful jcs" and "decoder_sound jcs jd" and "ParsePolicy jcs jd t = Inr (p, u)"
  shows "u = t \<and> p \<in> set fixed_policies \<and> jd_version jd t = Some (Some (pVersion p))
    \<and> (p \<noteq> DefaultPolicyV1 \<longrightarrow> jcs (wire_of p) = Some t)"
proof (cases "jd_version jd t = Some (Some PolicyVersionV1)")
  case True
  then show ?thesis
    using assms(3) by (auto simp: ParsePolicy_def fixed_policies_def split: if_splits sum.splits option.splits)
next
  case False
  then obtain v w where v: "jd_version jd t = Some (Some v)" "v \<noteq> PolicyVersionV1" "\<forall>s. v \<noteq> UnknownPolicyVersion s"
    and w: "jd_closed2 jd t = Some w" "requireExactPolicy jcs t (expectedPolicy v) = ok" "p = policyFromV2Wire w" "u = t"
    using assms(3)
    by (auto simp: ParsePolicy_def split: if_splits option.splits PolicyVersion.splits sum.splits)
  let ?q = "expectedPolicy v"
  have q: "?q \<in> {DefaultPolicyV2, DefaultPolicyV3, DefaultPolicyV4, DefaultPolicyV5}" "pVersion ?q = v"
    using v(2,3) by (cases v; simp add: expectedPolicy_def)+
  have txt_q: "jcs (wire_of ?q) = Some t"
    by (rule requireExactPolicy_ok [OF assms(1) q(1) w(2)])
  have "jcs (WirePolicyV2 w) = Some t"
    using assms(2) w(1) by (simp add: decoder_sound_def)
  moreover have fixed: "?q \<in> set fixed_policies"
    using q(1) by (auto simp: fixed_policies_def)
  ultimately have wire: "WirePolicyV2 w = wire_of ?q"
    using assms(1) txt_q unfolding jcs_faithful_def by metis
  have "policyWireUnchecked ?q = Inr (wire_of ?q)"
    using q v(3) by (simp add: policyWireUnchecked_total)
  then have "p = ?q\<lparr>pMemoryRecallEnabled := True\<rparr>"
    using policyFromV2Wire_wire [of ?q w] wire w(3) by simp
  moreover have "pMemoryRecallEnabled ?q"
    using q(1) by auto
  ultimately have "p = ?q" by simp
  with fixed txt_q v(1) q(2) w(4) show ?thesis by simp
qed

definition demo_decoder :: json_decoder where
  "demo_decoder = \<lparr>jd_canonical = (\<lambda>t. True), jd_version = (\<lambda>t. if t = ''5'' then Some (Some PolicyVersionV5) else None),
     jd_closed1 = (\<lambda>t. None),
     jd_closed2 = (\<lambda>t. if t = ''5'' then (case wire_of DefaultPolicyV5 of WirePolicyV2 w \<Rightarrow> Some w | _ \<Rightarrow> None) else None)\<rparr>"

lemma demo_decoder_sound: "decoder_sound demo_jcs demo_decoder"
  by (auto simp: decoder_sound_def demo_decoder_def split: if_splits Wire.splits)
    (metis demo_jcs_texts(5))

lemma demo_parse: "ParsePolicy demo_jcs demo_decoder ''5'' = Inr (DefaultPolicyV5, ''5'')"
proof -
  obtain w where w: "wire_of DefaultPolicyV5 = WirePolicyV2 w"
    using wire_of_V2 [of DefaultPolicyV5] by auto
  have wire: "policyWireUnchecked DefaultPolicyV5 = Inr (WirePolicyV2 w)"
    using policyWireUnchecked_total [of DefaultPolicyV5] w by simp
  have "policyWire DefaultPolicyV5 = Inr (WirePolicyV2 w)"
    using wire by (simp add: policyWire_def PolicyVersion_Validate_def)
  moreover have "demo_jcs (WirePolicyV2 w) = Some ''5''"
    using demo_jcs_texts(5) w by simp
  ultimately have "requireExactPolicy demo_jcs ''5'' DefaultPolicyV5 = ok"
    using wire by (simp add: requireExactPolicy_def Policy_CanonicalJSON_def expectedPolicy_def expectedText_def)
  moreover have "policyFromV2Wire w = DefaultPolicyV5"
    using policyFromV2Wire_wire [OF wire] by simp
  ultimately show ?thesis
    by (simp add: ParsePolicy_def demo_decoder_def w expectedPolicy_def)
qed

theorem parse_policy_fixed_witness:
  "ParsePolicy demo_jcs demo_decoder ''5'' = Inr (DefaultPolicyV5, ''5'')
   \<and> jd_version demo_decoder ''5'' = Some (Some PolicyVersionV5)"
  using parse_policy_fixed [OF demo_faithful demo_decoder_sound demo_parse] demo_parse by simp

section \<open>Evidence\<close>

text \<open>
  \<^verbatim>\<open>EvaluateEvidence\<close> accepts exactly the admissible rows of an enabled policy (sources
  that are user messages or self-talk, known vocabulary, consistent provenance) and gives
  each its effective grade and weight: a stated row counts one, an inferred one 0.6,
  untrusted sources a quarter, inherited rows half of that.
\<close>

theorem evidence_evaluated_iff:
  assumes "jcs_faithful jcs"
  shows "EvaluateEvidence jcs policy point = Inr evaluated \<longleftrightarrow>
    enabled_policy policy \<and> evidence_admissible point
    \<and> evaluated = EvidencePoint.extend point (EvaluatedEvidence.fields (effective_grade point) (weight_spec point))"
  using EvaluateEvidence_eq [OF assms] EvaluateEvidence_admissible [OF assms] by (metis sum.inject(2))

definition demo_point :: EvidencePoint where
  "demo_point = \<lparr>epSourceEventID = 7, epSourceEvidenceID = None, epEventType = EventSelfTalk,
     epPolarity = PolaritySupport, epGrade = GradeStated, epTrust = TrustUntrusted,
     epDerivation = DerivationExtracted, epInheritanceDepth = 0, epReason = EvidenceReasonSourceInferred,
     epActorIsSubject = False, epActorIsPerspective = True\<rparr>"

theorem evidence_evaluated_iff_witness:
  "EvaluateEvidence demo_jcs DefaultPolicyV3 demo_point =
     Inr (EvidencePoint.extend demo_point (EvaluatedEvidence.fields GradeInferred 150000))"
proof -
  have "evidence_admissible demo_point" "effective_grade demo_point = GradeInferred" "weight_spec demo_point = 150000"
    by (simp_all add: evidence_admissible_def demo_point_def effective_grade_def provenance_ok_def weight_spec_def)
  then show ?thesis
    using evidence_evaluated_iff [OF demo_faithful, of DefaultPolicyV3 demo_point] demo_enabled(2) by simp
qed

text \<open>
  no evaluated row weighs more than a statement of a trusted user; self-talk stays below
  an inference, inherited rows below half, and the resident's own messages are never evidence.
\<close>

theorem evidence_weight_bounds:
  assumes "jcs_faithful jcs" and "EvaluateEvidence jcs policy point = Inr evaluated"
  shows "0 \<le> eeEffectiveWeight evaluated \<and> eeEffectiveWeight evaluated \<le> 1000000
    \<and> (epEventType point = EventSelfTalk \<longrightarrow> eeEffectiveWeight evaluated \<le> 600000)
    \<and> (epDerivation point = DerivationInherited \<longrightarrow> eeEffectiveWeight evaluated \<le> 500000)
    \<and> (epTrust point = TrustUntrusted \<longrightarrow> eeEffectiveWeight evaluated \<le> 250000)
    \<and> epEventType evaluated \<in> {EventUserMessage, EventSelfTalk}"
proof -
  have adm: "evidence_admissible point"
    and e: "evaluated = EvidencePoint.extend point (EvaluatedEvidence.fields (effective_grade point) (weight_spec point))"
    using EvaluateEvidence_admissible [OF assms] EvaluateEvidence_eq [OF assms(1)] assms(2) by auto
  have "eeEffectiveWeight evaluated = weight_spec point" "epEventType evaluated = epEventType point"
    by (cases point; simp add: e EvidencePoint.extend_def EvaluatedEvidence.fields_def)+
  with adm show ?thesis
    by (auto simp: weight_spec_def effective_grade_def evidence_admissible_def)
qed

theorem evidence_weight_bounds_witness:
  "eeEffectiveWeight (EvidencePoint.extend demo_point (EvaluatedEvidence.fields GradeInferred 150000)) \<le> 250000"
proof -
  have "epTrust demo_point = TrustUntrusted"
    by (simp add: demo_point_def)
  moreover have "EvaluateEvidence demo_jcs DefaultPolicyV3 demo_point =
      Inr (EvidencePoint.extend demo_point (EvaluatedEvidence.fields GradeInferred 150000))"
    using EvaluateEvidence_eq [OF demo_faithful demo_enabled(2), of demo_point]
    by (simp add: evidence_admissible_def demo_point_def effective_grade_def provenance_ok_def weight_spec_def)
  ultimately show ?thesis
    using evidence_weight_bounds [OF demo_faithful] by blast
qed

text \<open>
  the result of \<^verbatim>\<open>AggregateEvidence\<close>, error or aggregate, does not depend on the order
  in which Go iterates over the deduplication map.
\<close>

theorem aggregate_order_independent:
  assumes "permutes_rows iter" and "\<forall>p\<in>set points. eeEffectiveWeight p \<le> maxInt64"
  shows "AggregateEvidence jcs iter policy points = AggregateEvidence jcs (\<lambda>rows. rows) policy points"
proof (cases "foldE dedupeStep [] points")
  case (Inl e)
  then show ?thesis by (simp add: AggregateEvidence_def split: sum.splits)
next
  case (Inr m)
  then have m: "m = foldl keep [] points" and ok: "\<forall>p\<in>set points. row_ok p"
    using foldE_dedupe_Inr [OF assms(2), of "[]" m] by simp_all
  have perm: "mset (iter (map snd m)) = mset (map snd m)"
    using assms(1) by (simp add: permutes_rows_def)
  have rows: "\<forall>p\<in>set (map snd m). row_ok p" "\<forall>p\<in>set (iter (map snd m)). row_ok p"
    using retained_rows [OF ok] mset_eq_setD [OF perm] unfolding retained_def m by auto
  have "foldE aggregateStep aggregateInit (iter (map snd m)) = foldE aggregateStep aggregateInit (map snd m)"
    using foldE_aggregate_eq [OF rows(1), of aggregateInit] foldE_aggregate_eq [OF rows(2), of aggregateInit]
    unfolding aggregated_perm [OF perm] by (simp add: aggregateInit_def maxInt64_def)
  then show ?thesis
    by (simp add: AggregateEvidence_def Inr split: sum.splits)
qed

definition demo_row :: "ID \<Rightarrow> EvidencePolarity \<Rightarrow> Weight \<Rightarrow> EvaluatedEvidence" where
  "demo_row event pol w = \<lparr>epSourceEventID = event, epSourceEvidenceID = None, epEventType = EventUserMessage,
     epPolarity = pol, epGrade = GradeStated, epTrust = TrustTrusted, epDerivation = DerivationExtracted,
     epInheritanceDepth = 0, epReason = EvidenceReasonSourceStated, epActorIsSubject = True,
     epActorIsPerspective = False, eeEffectiveGrade = GradeStated, eeEffectiveWeight = w\<rparr>"

definition demo_rows :: "EvaluatedEvidence list" where
  "demo_rows = [demo_row 1 PolaritySupport 1000000, demo_row 1 PolaritySupport 600000,
     demo_row 2 PolaritySupport 500000, demo_row 3 PolarityContradict 250000]"

lemma demo_row_fields [simp]:
  "epSourceEventID (demo_row e pol w) = e" "epPolarity (demo_row e pol w) = pol" "eeEffectiveWeight (demo_row e pol w) = w"
  by (simp_all add: demo_row_def)

lemma demo_rows_ok: "\<forall>p\<in>set demo_rows. row_ok p"
  by (simp add: demo_rows_def row_ok_def maxInt64_def)

theorem aggregate_order_independent_witness:
  "AggregateEvidence demo_jcs rev DefaultPolicyV5 demo_rows = AggregateEvidence demo_jcs (\<lambda>rows. rows) DefaultPolicyV5 demo_rows"
  using demo_rows_ok by (intro aggregate_order_independent) (simp_all add: permutes_rows_def row_ok_def)

text \<open>
  C28: an aggregate counts every source event once per polarity, with the greatest weight
  among its rows; the confidence is the exact floor of the share of the support, and from
  V5 on one stated event's weight is held back.
\<close>

theorem aggregate_sums:
  assumes "jcs_faithful jcs" and "enabled_policy policy" and "permutes_rows iter"
    and "\<forall>p\<in>set points. row_ok p"
    and "total_weight PolaritySupport points + total_weight PolarityContradict points + 1000000 \<le> maxInt64"
  shows "\<exists>agg. AggregateEvidence jcs iter policy points = Inr agg
    \<and> eaSupportWeight agg = (\<Sum>event\<in>events_of PolaritySupport points. max_weight points (event, PolaritySupport))
    \<and> eaContradictWeight agg = (\<Sum>event\<in>events_of PolarityContradict points. max_weight points (event, PolarityContradict))
    \<and> eaDistinctSupportEvents agg = int (card (events_of PolaritySupport points))
    \<and> eaConfidence agg = eaSupportWeight agg * 1000000
        div (eaSupportWeight agg + eaContradictWeight agg + (if pVersion policy = PolicyVersionV5 then 1000000 else 0))"
proof -
  let ?st = "aggregated aggregateInit (retained points)"
  have nonneg: "0 \<le> total_weight pol points" for pol
    by (rule total_weight_nonneg [OF assms(4)])
  have sums: "agSupport ?st = total_weight PolaritySupport points" "agContradict ?st = total_weight PolarityContradict points"
    "agDistinct ?st = events_of PolaritySupport points"
    using dedupe_weight_sum [OF foldl_keep_Nil_inv] dedupe_events [OF foldl_keep_Nil_inv, of PolaritySupport points]
    by (simp_all add: aggregated_def aggregateInit_def retained_def)
  have "total_weight PolaritySupport points \<le> maxInt64" "total_weight PolarityContradict points \<le> maxInt64"
    using assms(5) nonneg [of PolaritySupport] nonneg [of PolarityContradict] by linarith+
  then have "AggregateEvidence jcs iter policy points = aggregateFinish policy ?st"
    using AggregateEvidence_unfold [OF assms(1,2,4,3)] by simp
  moreover have "aggregateFinish policy ?st = Inr \<lparr>eaSupportWeight = agSupport ?st, eaContradictWeight = agContradict ?st,
      eaConfidence = confidence_spec (pVersion policy) (agSupport ?st) (agContradict ?st),
      eaDistinctSupportEvents = int (card (agDistinct ?st)), eaHasTrustedSupport = agTrusted ?st,
      eaHasExternalSupport = agExternal ?st, eaHasSubjectUserSupport = agSubject ?st,
      eaHasPerspectiveUserSupport = agPerspective ?st\<rparr>"
    by (rule aggregateFinish_eq) (use assms(5) nonneg in \<open>simp_all add: sums\<close>)
  ultimately show ?thesis
    by (simp add: sums confidence_spec_def total_weight_def [symmetric])
qed

lemma total_weight_retained: "total_weight pol points = weight_sum pol (retained points)"
  using dedupe_weight_sum [OF foldl_keep_Nil_inv, of pol points] by (simp add: retained_def)

lemma demo_rows_totals:
  "total_weight PolaritySupport demo_rows = 1500000" "total_weight PolarityContradict demo_rows = 250000"
  by (simp_all add: total_weight_retained retained_def demo_rows_def keep_def evidence_key_def polarity_weight_def)

theorem aggregate_sums_witness:
  "\<exists>agg. AggregateEvidence demo_jcs rev DefaultPolicyV5 demo_rows = Inr agg
     \<and> eaConfidence agg = eaSupportWeight agg * 1000000 div (eaSupportWeight agg + eaContradictWeight agg + 1000000)"
  using aggregate_sums [OF demo_faithful demo_enabled(4), of rev demo_rows] demo_rows_ok demo_rows_totals
  by (auto simp: permutes_rows_def maxInt64_def)

text \<open>
  repeating a source event does not strengthen a claim: a further row with the event and
  polarity of an earlier row and no more weight leaves the aggregate unchanged.
\<close>

theorem aggregate_repeat_event:
  assumes "row_ok q" and "p \<in> set points" and "evidence_key q = evidence_key p"
    and "eeEffectiveWeight q \<le> eeEffectiveWeight p" and "\<forall>r\<in>set points. eeEffectiveWeight r \<le> maxInt64"
  shows "AggregateEvidence jcs iter policy (points @ [q]) = AggregateEvidence jcs iter policy points"
proof (cases "foldE dedupeStep [] points")
  case (Inl e)
  then show ?thesis by (simp add: AggregateEvidence_def foldE_append split: sum.splits)
next
  case (Inr m)
  then have m: "m = foldl keep [] points"
    using foldE_dedupe_Inr [OF assms(5), of "[]" m] by simp
  have inv: "dedupe_inv (set points) m"
    unfolding m by (rule foldl_keep_Nil_inv)
  then obtain b where b: "map_of m (evidence_key q) = Some b"
    using assms(2,3) unfolding dedupe_inv_def by (metis option.exhaust)
  have "eeEffectiveWeight q \<le> eeEffectiveWeight b"
    using dedupe_invD(3) [OF inv b assms(2)] assms(3,4) by simp
  then have "keep m q = m"
    using b by (simp add: keep_def)
  moreover have "eeEffectiveWeight q \<le> maxInt64"
    using assms(1) by (simp add: row_ok_def)
  ultimately have again: "foldE dedupeStep [] (points @ [q]) = Inr m"
    using dedupeStep_Inr [of q m m] assms(1) by (simp add: foldE_append Inr)
  show ?thesis
    unfolding AggregateEvidence_def Inr again ..
qed

theorem aggregate_repeat_event_witness:
  "AggregateEvidence demo_jcs rev DefaultPolicyV5 (demo_rows @ [demo_row 2 PolaritySupport 500000]) =
   AggregateEvidence demo_jcs rev DefaultPolicyV5 demo_rows"
  by (rule aggregate_repeat_event [of _ "demo_row 2 PolaritySupport 500000"])
    (use demo_rows_ok in \<open>simp_all add: row_ok_def demo_rows_def maxInt64_def\<close>)

text \<open>
  \<^verbatim>\<open>ValidateInheritanceBatch\<close> accepts exactly the batches in which every row is well
  formed, no target claim inherits more than eight rows, none more than two from the same
  source claim, and none inherits the same underlying event twice.
\<close>

theorem inheritance_batch_iff:
  assumes "jcs_faithful jcs" and "enabled_policy policy"
  shows "ValidateInheritanceBatch jcs policy cs = ok \<longleftrightarrow>
    (\<forall>c\<in>set cs. candidate_ok c)
    \<and> (\<forall>t. length (filter (\<lambda>c. icTargetClaimID c = t) cs) \<le> 8)
    \<and> (\<forall>t u. length (filter (\<lambda>c. icTargetClaimID c = t \<and> icSourceClaimID c = u) cs) \<le> 2)
    \<and> distinct (map (\<lambda>c. (icTargetClaimID c, icSourceEventID c)) cs)"
  using ValidateInheritanceBatch_ok_iff [OF assms]
  by (simp add: batch_ok_def target_count_def pair_count_def)

theorem inheritance_batch_iff_witness:
  "ValidateInheritanceBatch demo_jcs DefaultPolicyV2
     [\<lparr>icTargetClaimID = 1, icSourceClaimID = 2, icSourceEvidenceID = 3, icSourceEventID = 4, icRelation = RelationAbstracts\<rparr>,
      \<lparr>icTargetClaimID = 1, icSourceClaimID = 2, icSourceEvidenceID = 5, icSourceEventID = 4, icRelation = RelationAbstracts\<rparr>]
   \<noteq> ok"
  using inheritance_batch_iff [OF demo_faithful demo_enabled(1)] by simp

section \<open>Maturation\<close>

text \<open>
  C27: every well-formed input is decided; a floating claim moves exactly with two supporting
  events of weight 1.2, a sediment one exactly with a trusted supporter, three events of
  weight 2.0, confidence 0.75 and the word of the right person for its kind, and a move goes
  to the next stage.
\<close>

theorem maturation_decides:
  assumes "jcs_faithful jcs" and "enabled_policy policy" and "input_ok input"
  shows "\<exists>decision. EvaluateMaturation jcs policy input = Inr decision
    \<and> mdFrom decision = Some (miCurrentStage input)
    \<and> mdAdvance decision = advances input
    \<and> mdTo decision = (if advances input then next_stage (miCurrentStage input) else miCurrentStage input)
    \<and> (mdBlockingReason decision = '''' \<longleftrightarrow> advances input)"
  by (rule EvaluateMaturation_decides [OF assms])

definition demo_aggregate :: EvidenceAggregate where
  "demo_aggregate = \<lparr>eaSupportWeight = 2000000, eaContradictWeight = 0, eaConfidence = 750000,
     eaDistinctSupportEvents = 3, eaHasTrustedSupport = True, eaHasExternalSupport = False,
     eaHasSubjectUserSupport = False, eaHasPerspectiveUserSupport = False\<rparr>"

definition demo_maturing :: "ClaimStage \<Rightarrow> MaturationInput" where
  "demo_maturing stage = \<lparr>miCurrentStage = stage, miKind = ClaimKindDirect, miEvidence = demo_aggregate,
     miAlignment = Some \<lparr>alKind = ClaimKindMeta, alStatus = StatusActive, alStage = StageSettled, alConfidence = 800000,
       alHasExternalSupport = True, alHasPerspectiveUserSupport = True\<rparr>\<rparr>"

lemma demo_maturing_ok:
  "input_ok (demo_maturing StageFloating)" "input_ok (demo_maturing StageSediment)"
  "advances (demo_maturing StageFloating)" "advances (demo_maturing StageSediment)"
  "miCurrentStage (demo_maturing stage) = stage"
  by (simp_all add: demo_maturing_def demo_aggregate_def input_ok_def advances_def provenance_spec_def)

theorem maturation_decides_witness:
  "\<exists>decision. EvaluateMaturation demo_jcs DefaultPolicyV4 (demo_maturing StageSediment) = Inr decision
     \<and> mdTo decision = StageSettled"
  using maturation_decides [OF demo_faithful demo_enabled(3) demo_maturing_ok(2)] demo_maturing_ok(4,5) by auto

text \<open>
  Over any history of evaluations a claim starts floating and every step keeps its stage
  or moves it to the next one; no stage is skipped and none is taken back.
\<close>

theorem maturation_history:
  assumes "jcs_faithful jcs" and "matures jcs policy history"
  shows "hd history = StageFloating
    \<and> (\<forall>i. Suc i < length history \<longrightarrow> stage_order (history ! Suc i) - stage_order (history ! i) \<in> {0, 1})"
  using matures_stepwise [OF assms] unfolding stepwise_def .

lemma demo_history: "matures demo_jcs DefaultPolicyV4 [StageFloating, StageSediment]"
proof -
  obtain d where d: "EvaluateMaturation demo_jcs DefaultPolicyV4 (demo_maturing StageFloating) = Inr d"
    "mdTo d = StageSediment"
    using EvaluateMaturation_decides [OF demo_faithful demo_enabled(3) demo_maturing_ok(1)] demo_maturing_ok(3,5) by auto
  have "matures demo_jcs DefaultPolicyV4 ([] @ [StageFloating])"
    using matures.start [of demo_jcs DefaultPolicyV4] by (simp add: InitialMaturationDecision_def)
  from matures.evaluate [OF this demo_maturing_ok(5) d(1)] show ?thesis
    by (simp add: d(2))
qed

theorem maturation_history_witness:
  "matures demo_jcs DefaultPolicyV4 [StageFloating, StageSediment] \<and> hd [StageFloating, StageSediment] = StageFloating"
  using maturation_history [OF demo_faithful demo_history] demo_history by blast

section \<open>Time\<close>

text \<open>
  the temporal relation of a valid input is the one of the specification, with its
  fixed currentness, and as the reference instant moves on a claim passes through future,
  current, stale and past without going back.
\<close>

theorem temporal_relation:
  assumes "jcs_faithful jcs" and "enabled_policy policy" and "temporal_valid input"
    and "tiAsOf input \<le> later" and "temporal_valid (input\<lparr>tiAsOf := later\<rparr>)"
  shows "\<exists>st st'. EvaluateTemporal jcs policy input = Inr st
    \<and> EvaluateTemporal jcs policy (input\<lparr>tiAsOf := later\<rparr>) = Inr st'
    \<and> tsRelation st = temporal_spec input \<and> tsCurrentness st = currentness_spec (temporal_spec input)
    \<and> phase (tsRelation st) \<le> phase (tsRelation st')"
  using EvaluateTemporal_eq [OF assms(1-3)] EvaluateTemporal_eq [OF assms(1,2,5)] temporal_spec_mono [OF assms(4)] by simp

definition demo_temporal :: TemporalInput where
  "demo_temporal = \<lparr>tiKind = TemporalEpisodic, tiAnchorAt = 1000, tiValidFrom = Some 2000, tiValidTo = None, tiAsOf = 3000\<rparr>"

theorem temporal_relation_witness:
  "\<exists>st st'. EvaluateTemporal demo_jcs DefaultPolicyV2 demo_temporal = Inr st
    \<and> EvaluateTemporal demo_jcs DefaultPolicyV2 (demo_temporal\<lparr>tiAsOf := episodeMicros + 1000\<rparr>) = Inr st'
    \<and> tsRelation st = temporal_spec demo_temporal \<and> tsCurrentness st = currentness_spec (temporal_spec demo_temporal)
    \<and> phase (tsRelation st) \<le> phase (tsRelation st')"
  by (rule temporal_relation [OF demo_faithful demo_enabled(1)])
    (simp_all add: temporal_valid_def demo_temporal_def maxInt64_def episodeMicros_def)

text \<open>
  C29: the salience of a claim is the sum of its usage contributions, each halved once per
  thirty days, capped at one; it does not depend on the order of the records.
\<close>

theorem salience_value:
  assumes "jcs_faithful jcs" and "enabled_policy policy" and "\<forall>usage\<in>set usages. usage_ok asOf usage"
    and "mset usages' = mset usages"
  shows "CalculateSalience jcs policy usages' asOf =
    Inr (min 1000000 (\<Sum>usage\<leftarrow>usages. contribution_spec (pVersion policy) (urType usage)
           div 2 ^ nat ((asOf - urRecordedAt usage) div (30 * 24 * 3600 * 1000000))))"
proof -
  have "\<forall>usage\<in>set usages'. usage_ok asOf usage"
    using assms(3) mset_eq_setD [OF assms(4)] by simp
  then have "CalculateSalience jcs policy usages' asOf = Inr (salience_spec asOf (map (usage_point policy) usages'))"
    by (rule CalculateSalience_eq [OF assms(1,2)])
  also have "salience_spec asOf (map (usage_point policy) usages') = salience_spec asOf (map (usage_point policy) usages)"
    by (rule salience_spec_perm) (simp add: assms(4))
  finally show ?thesis
    by (simp add: salience_spec_def decayed_def usage_point_def halfLifeMicros_def comp_def)
qed

definition demo_usage :: "UsageType \<Rightarrow> Instant \<Rightarrow> UsageRecord" where
  "demo_usage u at = \<lparr>urType = u, urRecordedAt = at\<rparr>"

theorem salience_value_witness:
  "CalculateSalience demo_jcs DefaultPolicyV3
     [demo_usage UsageCandidate 10, demo_usage UsageSelected 0, demo_usage UsageExplicitlyReferenced 5] 2592000001000 = Inr 275000"
  using salience_value [OF demo_faithful demo_enabled(2),
    of "[demo_usage UsageCandidate 10, demo_usage UsageExplicitlyReferenced 5, demo_usage UsageSelected 0]" 2592000001000
      "[demo_usage UsageCandidate 10, demo_usage UsageSelected 0, demo_usage UsageExplicitlyReferenced 5]"]
  by (simp add: usage_ok_def demo_usage_def contribution_spec_def maxInt64_def)

text \<open>
  salience never grows by itself, candidate records never count, and under V5 only an
  explicit reference counts: retrieving or prompting a claim does not reinforce it.
\<close>

theorem salience_decays:
  assumes "jcs_faithful jcs" and "enabled_policy policy" and "\<forall>usage\<in>set usages. usage_ok asOf usage"
    and "asOf \<le> later" and "\<forall>usage\<in>set usages. usage_ok later usage"
  shows "\<exists>now after. CalculateSalience jcs policy usages asOf = Inr now
    \<and> CalculateSalience jcs policy usages later = Inr after \<and> 0 \<le> after \<and> after \<le> now \<and> now \<le> 1000000
    \<and> CalculateSalience jcs policy (filter (\<lambda>u. urType u \<noteq> UsageCandidate) usages) asOf = Inr now
    \<and> (pVersion policy = PolicyVersionV5 \<longrightarrow>
         CalculateSalience jcs policy (filter (\<lambda>u. urType u = UsageExplicitlyReferenced) usages) asOf = Inr now)"
proof -
  let ?spec = "\<lambda>us at. salience_spec at (map (usage_point policy) us)"
  have eq: "CalculateSalience jcs policy us at = Inr (?spec us at)" if "\<forall>u\<in>set us. usage_ok at u" for us at
    by (rule CalculateSalience_eq [OF assms(1,2) that])
  have points: "\<forall>p\<in>set (map (usage_point policy) usages). point_ok asOf p"
    "\<forall>p\<in>set (map (usage_point policy) usages). point_ok later p"
    using assms(3,5) usage_point_ok by auto
  have drop: "?spec (filter P usages) asOf = ?spec usages asOf"
    if "\<And>u. u \<in> set usages \<Longrightarrow> \<not> P u \<Longrightarrow> contribution_spec (pVersion policy) (urType u) = 0" for P
  proof -
    have "(\<Sum>u\<leftarrow>filter P usages. decayed asOf (usage_point policy u)) = (\<Sum>u\<leftarrow>usages. decayed asOf (usage_point policy u))"
      by (rule sum_list_map_filter) (simp add: that decayed_def usage_point_def)
    then show ?thesis by (simp add: salience_spec_def comp_def)
  qed
  have "0 \<le> ?spec usages later" "?spec usages asOf \<le> 1000000"
    using decayed_sum_nonneg [OF points(2)] by (simp_all add: salience_spec_def)
  moreover have "?spec usages later \<le> ?spec usages asOf"
    by (rule salience_spec_antimono [OF points(1) assms(4)])
  moreover have "?spec (filter (\<lambda>u. urType u \<noteq> UsageCandidate) usages) asOf = ?spec usages asOf"
    by (rule drop) (simp add: contribution_spec_def)
  moreover have "?spec (filter (\<lambda>u. urType u = UsageExplicitlyReferenced) usages) asOf = ?spec usages asOf"
    if "pVersion policy = PolicyVersionV5"
    by (rule drop) (use that in \<open>simp add: contribution_spec_def split: UsageType.split\<close>)
  ultimately show ?thesis
    using eq [OF assms(3)] eq [OF assms(5)] assms(3) by (auto simp: eq)
qed

theorem salience_decays_witness:
  "\<exists>now after. CalculateSalience demo_jcs DefaultPolicyV5 [demo_usage UsageSelected 0, demo_usage UsageExplicitlyReferenced 5] 10 = Inr now
    \<and> CalculateSalience demo_jcs DefaultPolicyV5 [demo_usage UsageSelected 0, demo_usage UsageExplicitlyReferenced 5] 20 = Inr after
    \<and> after \<le> now"
  using salience_decays [OF demo_faithful demo_enabled(4),
    of "[demo_usage UsageSelected 0, demo_usage UsageExplicitlyReferenced 5]" 10 20]
  by (auto simp: usage_ok_def demo_usage_def maxInt64_def)

section \<open>Recall\<close>

lemma demo_renders: "jcs_renders demo_jcs"
  by (simp add: jcs_renders_def demo_jcs_def)

definition demo_candidate :: "ID \<Rightarrow> Ratio \<Rightarrow> ClaimStage \<Rightarrow> ID list \<Rightarrow> RecallCandidate" where
  "demo_candidate claim context stage sources = \<lparr>rcClaimID = claim, rcStatement = ''tea'', rcContextCompatibility = context,
     rcSalience = 0, rcConfidence = 800000, rcCurrentness = 1000000, rcLastConfirmed = None, rcStatus = StatusActive,
     rcStage = stage, rcTemporalRelation = RelationCurrent, rcSourceEventIDs = sources, rcAbstract = False\<rparr>"

definition demo_candidates :: "RecallCandidate list" where
  "demo_candidates = [demo_candidate 1 500000 StageFloating [11], demo_candidate 2 900000 StageSettled [11, 12]]"

lemma demo_candidates_ok:
  "length demo_candidates \<le> 64" "\<forall>c\<in>set demo_candidates. candidate_valid c" "distinct (map rcClaimID demo_candidates)"
  "\<forall>c\<in>set demo_candidates. sources_ok c"
  by (simp_all add: demo_candidates_def demo_candidate_def candidate_valid_def sources_ok_def byte_def)

lemma demo_selection: "\<exists>sel. SelectRecall (\<lambda>i. ''x'') demo_jcs DefaultPolicyV4 demo_candidates = Inr sel"
  using demo_candidates_ok demo_enabled(3) by (simp add: SelectRecall_Inr [OF demo_faithful])

text \<open>
  C26: \<^verbatim>\<open>SelectRecall\<close> scores every candidate with the fixed weights, between zero and one,
  and selects at most eight eligible ones, best first; an eligible candidate that is left
  out scores no more than any selected one and loses the tie on the identifier text.
\<close>

theorem recall_selects_best:
  assumes "jcs_faithful jcs" and "SelectRecall idString jcs policy cs = Inr sel"
  shows "map scCandidate (rsCandidates sel) = cs
    \<and> (\<forall>sc\<in>set (rsCandidates sel). 0 \<le> scScore sc \<and> scScore sc \<le> 1000000
         \<and> scScore sc = (if eligible_spec (pVersion policy) (scCandidate sc)
                          then score_spec (pVersion policy) (scCandidate sc) else 0))
    \<and> set (rsSelected sel) \<subseteq> {sc\<in>set (rsCandidates sel). scEligible sc}
    \<and> length (rsSelected sel) = min 8 (length (filter scEligible (rsCandidates sel)))
    \<and> sorted_wrt (\<lambda>a b. \<not> recallLess idString (pVersion policy) b a) (rsSelected sel)
    \<and> (\<forall>sc\<in>set (rsSelected sel). \<forall>out\<in>{sc\<in>set (rsCandidates sel). scEligible sc} - set (rsSelected sel).
         \<not> recallLess idString (pVersion policy) out sc \<and> scScore out \<le> scScore sc)"
proof -
  let ?v = "pVersion policy" and ?lt = "recallLess idString (pVersion policy)"
  let ?all = "all_scored (pVersion policy) cs"
  let ?ord = "slice_stable ?lt (filter scEligible ?all)"
  have pol: "enabled_policy policy" and valid: "\<forall>c\<in>set cs. candidate_valid c"
    and sel: "rsCandidates sel = ?all" "rsSelected sel = take 8 ?ord"
    using assms(2) by (simp_all add: SelectRecall_Inr [OF assms(1)])
  have scores: "0 \<le> scScore sc \<and> scScore sc \<le> 1000000
      \<and> scScore sc = (if eligible_spec ?v (scCandidate sc) then score_spec ?v (scCandidate sc) else 0)"
    if sc: "sc \<in> set ?all" for sc
  proof -
    obtain n where n: "sc = scored_spec ?v (scCandidate sc) n"
      using all_scored_elem(1) [OF sc] by blast
    have "candidate_valid (scCandidate sc)"
      using valid all_scored_elem(2) [OF sc] by blast
    then have "0 \<le> scScore sc" "scScore sc \<le> 1000000"
      using ScoreRecall_eq(2,3) [OF assms(1) pol, of "scCandidate sc" n] by (simp_all only: n [symmetric])
    moreover have "scScore sc = (if eligible_spec ?v (scCandidate sc) then score_spec ?v (scCandidate sc) else 0)"
      by (subst n) (simp add: scored_spec_def)
    ultimately show ?thesis by blast
  qed
  have sorted: "sorted_wrt (\<lambda>a b. \<not> ?lt b a) ?ord"
    by (rule recall_order.slice_stable_sorted)
  have best: "\<not> ?lt out sc" if "sc \<in> set (take 8 ?ord)" "out \<in> set ?ord" "out \<notin> set (take 8 ?ord)" for sc out
    by (rule take_sorted_best [OF sorted that])
  have "map scCandidate ?all = cs" by (rule all_scored_candidates)
  moreover have "set (take 8 ?ord) \<subseteq> {sc\<in>set ?all. scEligible sc}"
    using set_take_subset [of 8 ?ord] by auto
  moreover have "length (take 8 ?ord) = min 8 (length (filter scEligible ?all))"
    by simp
  moreover have "sorted_wrt (\<lambda>a b. \<not> ?lt b a) (take 8 ?ord)"
    by (rule sorted_wrt_take [OF sorted])
  moreover have "\<not> ?lt out sc \<and> scScore out \<le> scScore sc"
    if "sc \<in> set (take 8 ?ord)" "out \<in> {sc\<in>set ?all. scEligible sc} - set (take 8 ?ord)" for sc out
    using best [OF that(1), of out] that(2) by (auto simp: recallLess_def split: if_splits)
  ultimately show ?thesis
    unfolding sel using scores by blast
qed

theorem recall_selects_best_witness:
  "\<exists>sel. SelectRecall (\<lambda>i. ''x'') demo_jcs DefaultPolicyV4 demo_candidates = Inr sel
     \<and> map scCandidate (rsCandidates sel) = demo_candidates"
  using demo_selection recall_selects_best [OF demo_faithful] by blast

text \<open>
  C25: planning a selection whose candidates name their sources never fails; the plan keeps
  one decision per candidate, marks exactly the selected ones, puts at most four claims of
  at most 8192 bytes together into the prompt with consecutive ordinals, records a reason
  for every selected claim it leaves out, and includes no floating plain claim all of whose
  sources the prompt already shows.
\<close>

theorem recall_plan:
  assumes "jcs_faithful jcs" and "jcs_bounded jcs" and "jcs_renders jcs"
    and "SelectRecall idString jcs policy cs = Inr sel" and "\<forall>c\<in>set cs. sources_ok c" and "0 \<notin> set ids"
  shows "\<exists>plan. PlanRecallV2 jcs policy sel ids = Inr plan
    \<and> map rdCandidate (rpDecisions plan) = rsCandidates sel
    \<and> (\<forall>d\<in>set (rpDecisions plan). rdPromptIncluded d \<longleftrightarrow> rdSelected d \<and> rdExclusionReason d = ExclusionNone)
    \<and> (\<forall>d\<in>set (rpDecisions plan). rdSelected d \<longleftrightarrow> claim_id (rdCandidate d) \<in> claim_id ` set (rsSelected sel))
    \<and> mset (filter rdPromptIncluded (rpDecisions plan)) = mset (rpPrompt plan)
    \<and> length (rpPrompt plan) \<le> 4
    \<and> (\<Sum>d\<leftarrow>rpPrompt plan. int (length (rdRenderedText d))) \<le> 8192
    \<and> map rdPromptOrdinal (rpPrompt plan) = map (\<lambda>i. Some (int i)) [0..<length (rpPrompt plan)]
    \<and> (\<forall>d\<in>set (rpPrompt plan). RenderClaim jcs policy (scCandidate (rdCandidate d)) = Inr (rdRenderedText d)
         \<and> \<not> (rcStage (scCandidate (rdCandidate d)) = StageFloating \<and> \<not> rcAbstract (scCandidate (rdCandidate d))
              \<and> set (rcSourceEventIDs (scCandidate (rdCandidate d))) \<subseteq> set ids))"
proof -
  let ?lt = "recallLess idString (pVersion policy)" and ?all = "all_scored (pVersion policy) cs"
  have pol: "enabled_policy policy" and valid: "\<forall>c\<in>set cs. candidate_valid c" and dist: "distinct (map rcClaimID cs)"
    and sel: "rsCandidates sel = ?all" "rsSelected sel = take 8 (slice_stable ?lt (filter scEligible ?all))"
    using assms(4) by (simp_all add: SelectRecall_Inr [OF assms(1)])
  have cands: "map scCandidate ?all = cs" by (rule all_scored_candidates)
  have "map claim_id ?all = map rcClaimID (map scCandidate ?all)"
    by (simp add: comp_def)
  then have "map claim_id ?all = map rcClaimID cs"
    unfolding cands .
  with dist have d1: "distinct (map claim_id ?all)" by simp
  then have "distinct (map claim_id (slice_stable ?lt (filter scEligible ?all)))"
    by (simp add: distinct_map_filter)
  then have d2: "distinct (map claim_id (rsSelected sel))"
    by (simp add: sel(2) take_map [symmetric])
  have sub: "set (rsSelected sel) \<subseteq> set (rsCandidates sel)"
    using set_take_subset [of 8 "slice_stable ?lt (filter scEligible ?all)"] by (auto simp: sel)
  note in_cs = all_scored_elem(2)
  obtain plan where plan: "PlanRecallV2 jcs policy sel ids = Inr plan"
    using PlanRecallV2_total [OF assms(1,3) pol assms(6), of sel] d1 d2 sub valid assms(5) in_cs
    by (auto simp: sel(1))
  have ok: "plan_ok sel plan" by (rule PlanRecallV2_ok(1) [OF assms(1,2) plan])
  then have inv: "map rdCandidate (rpDecisions plan) = rsCandidates sel"
    "(claim_id \<circ> rdCandidate) ` {d\<in>set (rpDecisions plan). rdSelected d} = claim_id ` set (rsSelected sel)"
    "\<forall>d\<in>set (rpDecisions plan). decision_ok d"
    by (simp_all add: plan_ok_def plan_inv_def)
  have "inj_on (claim_id \<circ> rdCandidate) (set (rpDecisions plan))"
    using d1 unfolding sel(1) [symmetric] inv(1) [symmetric] by (simp add: distinct_map)
  then have selected: "rdSelected d \<longleftrightarrow> claim_id (rdCandidate d) \<in> claim_id ` set (rsSelected sel)"
    if "d \<in> set (rpDecisions plan)" for d
    using that inj_onD unfolding inv(2) [symmetric] by fastforce
  have included: "rdPromptIncluded d \<longleftrightarrow> rdSelected d \<and> rdExclusionReason d = ExclusionNone"
    if "d \<in> set (rpDecisions plan)" for d
    using that inv(3) unfolding decision_ok_def by metis
  show ?thesis
    using ok selected included PlanRecallV2_ok(2) [OF assms(1,2) plan]
    by (intro exI [of _ plan]) (auto simp: plan plan_ok_def plan_inv_def comp_def)
qed

theorem recall_plan_witness:
  "\<exists>sel plan. SelectRecall (\<lambda>i. ''x'') demo_jcs DefaultPolicyV4 demo_candidates = Inr sel
     \<and> PlanRecallV2 demo_jcs DefaultPolicyV4 sel [11] = Inr plan \<and> length (rpPrompt plan) \<le> 4"
proof -
  obtain sel where sel: "SelectRecall (\<lambda>i. ''x'') demo_jcs DefaultPolicyV4 demo_candidates = Inr sel"
    using demo_selection by blast
  show ?thesis
    using recall_plan [OF demo_faithful demo_bounded demo_renders sel demo_candidates_ok(4), of "[11]"] sel by auto
qed

text \<open>
  the first planner includes only claims that share no source event with the prompt,
  within the same budgets.
\<close>

theorem recall_plan_v1:
  assumes "jcs_faithful jcs" and "jcs_bounded jcs" and "PlanRecall jcs policy sel ids = Inr plan"
  shows "length (rpPrompt plan) \<le> 4
    \<and> (\<Sum>d\<leftarrow>rpPrompt plan. int (length (rdRenderedText d))) \<le> 8192
    \<and> (\<forall>d\<in>set (rpDecisions plan). rdPromptIncluded d \<longleftrightarrow> rdSelected d \<and> rdExclusionReason d = ExclusionNone)
    \<and> (\<forall>d\<in>set (rpPrompt plan). \<exists>c. claim_id c = claim_id (rdCandidate d)
         \<and> set (rcSourceEventIDs (scCandidate c)) \<inter> set ids = {}
         \<and> RenderClaim jcs policy (scCandidate c) = Inr (rdRenderedText d))"
proof -
  have inv: "\<forall>d\<in>set (rpDecisions plan). decision_ok d" "length (rpPrompt plan) \<le> 4"
    "(\<Sum>d\<leftarrow>rpPrompt plan. int (length (rdRenderedText d))) \<le> 8192"
    using PlanRecall_ok(1) [OF assms] by (auto simp: plan_ok_def plan_inv_def comp_def)
  have "rdPromptIncluded d \<longleftrightarrow> rdSelected d \<and> rdExclusionReason d = ExclusionNone"
    if "d \<in> set (rpDecisions plan)" for d
    using that inv(1) unfolding decision_ok_def by metis
  with inv(2,3) PlanRecall_ok(2) [OF assms] show ?thesis
    unfolding admitsV1_def by blast
qed

definition demo_scored :: ScoredRecallCandidate where
  "demo_scored = scored_spec PolicyVersionV4 (demo_candidate 2 900000 StageSettled [12]) 0"

lemma demo_plan_v1:
  "\<exists>plan. PlanRecall demo_jcs DefaultPolicyV4 \<lparr>rsCandidates = [demo_scored], rsSelected = [demo_scored]\<rparr> [11] = Inr plan
     \<and> rpDecisions plan \<noteq> []"
proof -
  have cand: "scCandidate demo_scored = demo_candidate 2 900000 StageSettled [12]"
    by (simp add: demo_scored_def scored_spec_def)
  have "candidate_valid (demo_candidate 2 900000 StageSettled [12])"
    by (simp add: demo_candidate_def candidate_valid_def byte_def)
  then obtain t where t: "RenderClaim demo_jcs DefaultPolicyV4 (demo_candidate 2 900000 StageSettled [12]) = Inr t"
    using RenderClaim_renders [OF demo_faithful demo_renders demo_enabled(3)] by blast
  have ids: "rcClaimID (demo_candidate 2 900000 StageSettled [12]) = 2"
    "rcSourceEventIDs (demo_candidate 2 900000 StageSettled [12]) = [12]"
    by (simp_all add: demo_candidate_def)
  show ?thesis
    by (simp add: PlanRecall_def RequireEnabled_cases [OF demo_faithful demo_enabled(3)] includedEvents_def initialPlan_def
      ID_Validate_def ID_IsZero_def indexStep_app planStepV1_def cand ids sourceAlreadyIncluded_def planPrompt_def t
      Let_def)
qed

theorem recall_plan_v1_witness:
  "\<exists>plan. PlanRecall demo_jcs DefaultPolicyV4 \<lparr>rsCandidates = [demo_scored], rsSelected = [demo_scored]\<rparr> [11] = Inr plan
     \<and> rpDecisions plan \<noteq> [] \<and> length (rpPrompt plan) \<le> 4"
  using demo_plan_v1 recall_plan_v1 [OF demo_faithful demo_bounded] by meson

section \<open>Persona edits\<close>

text \<open>
  C30: \<^verbatim>\<open>levenshteinBytes\<close> computes the least number of byte insertions, deletions and
  substitutions that turn one text into the other.
\<close>

theorem levenshtein_minimal:
  "edits (levenshteinBytes xs ys) xs ys \<and> (\<forall>n. edits n xs ys \<longrightarrow> levenshteinBytes xs ys \<le> n)
   \<and> (levenshteinBytes xs ys = 0 \<longleftrightarrow> xs = ys) \<and> levenshteinBytes xs ys \<le> max (length xs) (length ys)"
  unfolding levenshteinBytes_eq
  using edit_distance_attained edit_distance_least edit_distance_zero_iff edit_distance_le by metis

theorem levenshtein_minimal_witness: "levenshteinBytes ''tea'' ''tree'' \<le> 4"
  using levenshtein_minimal [of "''tea''" "''tree''"] by simp

text \<open>
  an automatic change of a persona document is eligible exactly when it changes
  something, rests on two to eight claims, stays within 256 changed bytes, a tenth of the
  text, three lines and 8192 bytes, and the last activation is a day old; the measurements
  it is judged by are the edit distance, its exact ratio and the number of changed lines.
\<close>

theorem persona_gate:
  assumes "jcs_faithful jcs" and "enabled_policy policy"
    and "utf8_valid previous" and "utf8_valid proposed" and "int (length previous) \<le> maxInt64"
    and "0 \<le> claims" and "\<forall>a. lastAt = Some a \<longrightarrow> a \<le> asOf \<and> asOf - a \<le> maxInt64"
  shows "\<exists>m decision. MeasurePersonaEdit previous proposed = Inr m
    \<and> EvaluatePersonaThreshold jcs policy \<lparr>ptClaimCount = claims, ptChangedBytes = peChangedBytes m,
        ptChangedRatio = peChangedRatio m, ptChangedLines = peChangedLines m, ptTotalBytes = peTotalBytes m,
        ptAsOf = asOf, ptLastActivationAt = lastAt\<rparr> = Inr decision
    \<and> (pdEligible decision \<longleftrightarrow> previous \<noteq> proposed \<and> 2 \<le> claims \<and> claims \<le> 8
        \<and> edit_distance previous proposed \<le> 256 \<and> changedLineCount previous proposed \<le> 3
        \<and> changed_ratio previous proposed \<le> 100000 \<and> length proposed \<le> 8192
        \<and> (\<forall>a. lastAt = Some a \<longrightarrow> 24 * 3600 * 1000000 \<le> asOf - a))
    \<and> (pdEligible decision \<longleftrightarrow> pdBlockingReasons decision = [])"
proof -
  let ?m = "\<lparr>peChangedBytes = int (edit_distance previous proposed),
      peChangedRatio = changed_ratio previous proposed,
      peChangedLines = int (changedLineCount previous proposed), peTotalBytes = int (length proposed)\<rparr>"
  let ?in = "\<lparr>ptClaimCount = claims, ptChangedBytes = peChangedBytes ?m,
        ptChangedRatio = peChangedRatio ?m, ptChangedLines = peChangedLines ?m, ptTotalBytes = peTotalBytes ?m,
        ptAsOf = asOf, ptLastActivationAt = lastAt\<rparr>"
  have "threshold_ok ?in"
    using assms(6,7) changed_ratio_bounds [of previous proposed] by (simp add: threshold_ok_def)
  from EvaluatePersonaThreshold_decides [OF assms(1,2) this] obtain decision where
    d: "EvaluatePersonaThreshold jcs policy ?in = Inr decision" "pdEligible decision \<longleftrightarrow> threshold_spec ?in"
    "pdEligible decision \<longleftrightarrow> pdBlockingReasons decision = []" by blast
  have "threshold_spec ?in \<longleftrightarrow> previous \<noteq> proposed \<and> 2 \<le> claims \<and> claims \<le> 8
        \<and> edit_distance previous proposed \<le> 256 \<and> changedLineCount previous proposed \<le> 3
        \<and> changed_ratio previous proposed \<le> 100000 \<and> length proposed \<le> 8192
        \<and> (\<forall>a. lastAt = Some a \<longrightarrow> 24 * 3600 * 1000000 \<le> asOf - a)"
    by (auto simp: threshold_spec_def episodeMicros_def edit_distance_zero_iff changedLineCount_zero_iff)
  with d MeasurePersonaEdit_eq [OF assms(3-5)] show ?thesis
    by (intro exI [of _ ?m] exI [of _ decision]) simp
qed

theorem persona_gate_witness:
  "\<exists>m. MeasurePersonaEdit ''tea'' ''teas'' = Inr m"
  using persona_gate [OF demo_faithful demo_enabled(1), of "''tea''" "''teas''" 2 None 0]
  by (auto simp: byte_def maxInt64_def)

section \<open>Query compatibility\<close>

text \<open>
  the compatibility of a statement with a query is the Dice coefficient of their
  bigram sets, rounded down: between zero and one, symmetric, and one exactly when the sets
  are equal and not empty. The texts must be short enough for the product in \<^verbatim>\<open>int64\<close>.
\<close>

theorem compatibility_dice:
  assumes "length query \<le> 2 ^ 40" and "length statement \<le> 2 ^ 40"
    and "length (recallRunes ut query) \<noteq> 1" and "length (recallRunes ut statement) \<noteq> 1"
  shows "Compatibility ut (NewRecallQueryV5 ut query) statement =
      2 * int (card (recallBigrams ut query \<inter> recallBigrams ut statement)) * 1000000
        div (int (card (recallBigrams ut query)) + int (card (recallBigrams ut statement)))
    \<and> 0 \<le> Compatibility ut (NewRecallQueryV5 ut query) statement
    \<and> Compatibility ut (NewRecallQueryV5 ut query) statement \<le> 1000000
    \<and> Compatibility ut (NewRecallQueryV5 ut query) statement = Compatibility ut (NewRecallQueryV5 ut statement) query
    \<and> (Compatibility ut (NewRecallQueryV5 ut query) statement = 1000000 \<longleftrightarrow>
         recallBigrams ut query = recallBigrams ut statement \<and> recallBigrams ut query \<noteq> {})"
proof -
  let ?A = "recallBigrams ut query" and ?B = "recallBigrams ut statement"
  let ?d = "2 * int (card (?A \<inter> ?B)) * 1000000 div (int (card ?A) + int (card ?B))"
  have fin: "finite ?A" "finite ?B" by (simp_all add: finite_recallBigrams)
  have eq: "Compatibility ut (NewRecallQueryV5 ut s) t =
      2 * int (card (recallBigrams ut s \<inter> recallBigrams ut t)) * 1000000
        div (int (card (recallBigrams ut s)) + int (card (recallBigrams ut t)))"
    if "length (recallRunes ut s) \<noteq> 1" "length s \<le> 2 ^ 40" for s t
    by (rule Compatibility_eq [OF that])
  have "?A \<noteq> {} \<Longrightarrow> ?d \<le> 1000000" "?A \<noteq> {} \<Longrightarrow> ?d = 1000000 \<longleftrightarrow> ?A = ?B"
    using dice_bounds [OF fin] by blast+
  moreover have "0 \<le> ?d"
    by (intro div_int_pos_iff [THEN iffD2]) auto
  moreover have "Compatibility ut (NewRecallQueryV5 ut statement) query = ?d"
    unfolding eq [OF assms(4,2)] by (simp add: Int_commute add.commute)
  moreover have "?A = {} \<Longrightarrow> ?d = 0" by simp
  ultimately show ?thesis
    unfolding eq [OF assms(3,1)] by (cases "?A = {}") auto
qed

definition demo_tables :: unicode_tables where
  "demo_tables = \<lparr>ut_IsLetter = (\<lambda>r. 97 \<le> r), ut_IsDigit = (\<lambda>r. False), ut_ToLower = (\<lambda>r. r)\<rparr>"

theorem compatibility_dice_witness:
  "Compatibility demo_tables (NewRecallQueryV5 demo_tables ''tea'') ''teas'' \<le> 1000000"
  using compatibility_dice [of "''tea''" "''teas''" demo_tables]
  by (simp add: recallRunes_def demo_tables_def byte_def)

end
