(* ===== verification/Projection_Types.thy ===== *)
theory Projection_Types
  imports Canonical_Types
begin

text \<open>
  \<^verbatim>\<open>internal/projection/types.go\<close> and \<^verbatim>\<open>registry.go\<close>: names, dependencies and their
  set comparison, projection definitions, the immutable target of an update, the stored
  watermark, and the registry. \<open>idString\<close> is the text form of an identifier (the
  third-party ULID package writes it), \<open>known\<close> the names \<^verbatim>\<open>time.LoadLocation\<close> resolves.
\<close>

section \<open>Errors\<close>

text \<open>
  The sentinel errors of the package; \<open>ProjectionCanonical\<close> wraps an error of the canonical
  package and \<open>ProjectionError\<close> is an error without a sentinel.
\<close>

datatype projection_error =
    ErrUndeclaredProjection string
  | ErrUnknownDependency string
  | ErrUnresolvedDependency string
  | ErrInvalidWatermarkMetadata
  | ErrAsOfRegression
  | ErrSourceRegression
  | ErrCASConflict
  | ErrCoordinatorStopped
  | ErrClaimStateEvaluatorUnavailable
  | ErrPreflightHeadChanged
  | ErrProjectionNotCurrent string
  | ProjectionCanonical canonical_error
  | ProjectionError string

section \<open>Names, versions and dependencies\<close>

type_synonym Name = string
type_synonym Version = string

definition ResidentCurrentStatusName :: Name where
  "ResidentCurrentStatusName = ''resident_current_status''"

definition ResidentCurrentRevisionName :: Name where
  "ResidentCurrentRevisionName = ''resident_current_revision''"

definition RuntimeStatesName :: Name where
  "RuntimeStatesName = ''runtime_states''"

definition ClaimStatesName :: Name where
  "ClaimStatesName = ''claim_states''"

definition ClaimViewScopeCurrentName :: Name where
  "ClaimViewScopeCurrentName = ''claim_view_scope_current''"

definition ServiceRequiredNames :: "Name list" where
  "ServiceRequiredNames =
     [ResidentCurrentStatusName, ResidentCurrentRevisionName, RuntimeStatesName,
      ClaimStatesName, ClaimViewScopeCurrentName]"

lemmas projection_name_defs =
  ResidentCurrentStatusName_def ResidentCurrentRevisionName_def RuntimeStatesName_def
  ClaimStatesName_def ClaimViewScopeCurrentName_def

definition Name_validate :: "Name \<Rightarrow> (projection_error, unit) result" where
  "Name_validate name =
     (if name = '''' \<or> TrimSpace_differs name
      then Inl (ProjectionError ''invalid projection name'') else ok)"

definition Version_validate :: "Version \<Rightarrow> (projection_error, unit) result" where
  "Version_validate version =
     (if version = '''' \<or> TrimSpace_differs version
      then Inl (ProjectionError ''invalid projection version'') else ok)"

datatype DependencyKind =
    SessionizationPolicyDependency
  | MemoryPolicyDependency
  | UnknownDependencyKind string

fun DependencyKind_string :: "DependencyKind \<Rightarrow> string" where
  "DependencyKind_string SessionizationPolicyDependency = ''sessionization_policy''"
| "DependencyKind_string MemoryPolicyDependency = ''memory_policy''"
| "DependencyKind_string (UnknownDependencyKind s) = s"

fun DependencyKind_Validate :: "DependencyKind \<Rightarrow> (projection_error, unit) result" where
  "DependencyKind_Validate (UnknownDependencyKind s) = Inl (ErrUnknownDependency s)"
| "DependencyKind_Validate _ = ok"

lemma DependencyKind_Validate_ok [simp]:
  "DependencyKind_Validate k = Inr u \<longleftrightarrow> (\<forall>s. k \<noteq> UnknownDependencyKind s)"
  by (cases k) auto

record Dependency =
  depKind :: DependencyKind
  depVersionID :: ID

definition Dependency_Validate :: "Dependency \<Rightarrow> (projection_error, unit) result" where
  "Dependency_Validate d =
     (case DependencyKind_Validate (depKind d) of Inl e \<Rightarrow> Inl e
      | Inr _ \<Rightarrow> (case ID_Validate (depVersionID d) of
          Inl e \<Rightarrow> Inl (ProjectionCanonical e) | Inr _ \<Rightarrow> ok))"

lemma Dependency_Validate_ok:
  "Dependency_Validate d = Inr u \<longleftrightarrow>
     (\<forall>s. depKind d \<noteq> UnknownDependencyKind s) \<and> depVersionID d \<noteq> 0"
  by (cases "depKind d") (auto simp: Dependency_Validate_def split: sum.splits)

definition dependencyKey :: "(ID \<Rightarrow> string) \<Rightarrow> Dependency \<Rightarrow> string" where
  "dependencyKey idString d =
     DependencyKind_string (depKind d) @ [CHR 0x00] @ idString (depVersionID d)"

text \<open>One round of the loop of \<^verbatim>\<open>dependencyKeys\<close>; the keys so far are the map \<^verbatim>\<open>seen\<close>.\<close>

definition dependencyKeysStep ::
    "(ID \<Rightarrow> string) \<Rightarrow> string list \<Rightarrow> Dependency \<Rightarrow> (projection_error, string list) result" where
  "dependencyKeysStep idString keys d =
     (case Dependency_Validate d of Inl e \<Rightarrow> Inl e
      | Inr _ \<Rightarrow>
          (let key = dependencyKey idString d
           in if key \<in> set keys then Inl (ProjectionError ''duplicate dependency'')
              else Inr (keys @ [key])))"

definition dependencyKeys ::
    "(ID \<Rightarrow> string) \<Rightarrow> Dependency list \<Rightarrow> (projection_error, string list) result" where
  "dependencyKeys idString ds =
     (case foldE (dependencyKeysStep idString) [] ds of
        Inl e \<Rightarrow> Inl e | Inr keys \<Rightarrow> Inr (sort keys))"

definition DependencySetEqual ::
    "(ID \<Rightarrow> string) \<Rightarrow> Dependency list \<Rightarrow> Dependency list \<Rightarrow> (projection_error, bool) result" where
  "DependencySetEqual idString left right =
     (case dependencyKeys idString left of Inl e \<Rightarrow> Inl e
      | Inr leftKeys \<Rightarrow> (case dependencyKeys idString right of Inl e \<Rightarrow> Inl e
      | Inr rightKeys \<Rightarrow> Inr (leftKeys = rightKeys)))"

section \<open>Definitions, targets and watermarks\<close>

record Definition =
  dfName :: Name
  dfVersion :: Version
  dfTimeSensitive :: bool
  dfDependencies :: "DependencyKind list"
  dfRebuildOnActivation :: "DependencyKind list"

text \<open>The two loops of \<^verbatim>\<open>Definition.Validate\<close> differ in the text of their error only.\<close>

definition declareKind ::
    "string \<Rightarrow> DependencyKind list \<Rightarrow> DependencyKind \<Rightarrow> (projection_error, DependencyKind list) result" where
  "declareKind message declared kind =
     (case DependencyKind_Validate kind of Inl e \<Rightarrow> Inl e
      | Inr _ \<Rightarrow> if kind \<in> set declared then Inl (ProjectionError message)
          else Inr (declared @ [kind]))"

definition Definition_Validate :: "Definition \<Rightarrow> (projection_error, unit) result" where
  "Definition_Validate d =
     (case Name_validate (dfName d) of Inl e \<Rightarrow> Inl e
      | Inr _ \<Rightarrow> (case Version_validate (dfVersion d) of Inl e \<Rightarrow> Inl e
      | Inr _ \<Rightarrow> (case foldE (declareKind ''declares dependency more than once'') [] (dfDependencies d) of
          Inl e \<Rightarrow> Inl e
      | Inr _ \<Rightarrow> (case foldE (declareKind ''repeats activation dependency'') [] (dfRebuildOnActivation d) of
          Inl e \<Rightarrow> Inl e
      | Inr _ \<Rightarrow> ok))))"

record Target =
  tgHead :: Head
  tgAsOf :: Instant
  tgAsOfTZ :: Timezone

definition Target_Validate :: "(string \<Rightarrow> bool) \<Rightarrow> Target \<Rightarrow> (projection_error, unit) result" where
  "Target_Validate known t =
     (case Head_Validate (tgHead t) of Inl e \<Rightarrow> Inl (ProjectionCanonical e)
      | Inr _ \<Rightarrow> (case Timezone_Validate known (tgAsOfTZ t) of
          Inl e \<Rightarrow> Inl (ProjectionCanonical e) | Inr _ \<Rightarrow> ok))"

record Watermark =
  wmName :: Name
  wmResidentID :: ID
  wmVersion :: Version
  wmSourceCommitSeq :: CommitSeq
  wmAsOf :: Instant
  wmAsOfTZ :: Timezone
  wmDependencies :: "Dependency list"

definition Watermark_Validate ::
    "(string \<Rightarrow> bool) \<Rightarrow> (ID \<Rightarrow> string) \<Rightarrow> Watermark \<Rightarrow> (projection_error, unit) result" where
  "Watermark_Validate known idString w =
     (case Name_validate (wmName w) of Inl e \<Rightarrow> Inl e
      | Inr _ \<Rightarrow> (case Version_validate (wmVersion w) of Inl e \<Rightarrow> Inl e
      | Inr _ \<Rightarrow> (case ID_Validate (wmResidentID w) of Inl e \<Rightarrow> Inl (ProjectionCanonical e)
      | Inr _ \<Rightarrow> (case CommitSeq_Validate (wmSourceCommitSeq w) of Inl e \<Rightarrow> Inl (ProjectionCanonical e)
      | Inr _ \<Rightarrow> (case Timezone_Validate known (wmAsOfTZ w) of Inl e \<Rightarrow> Inl (ProjectionCanonical e)
      | Inr _ \<Rightarrow> (case dependencyKeys idString (wmDependencies w) of Inl e \<Rightarrow> Inl e
      | Inr _ \<Rightarrow> ok))))))"

text \<open>A duplicate-free list of valid dependencies: what every accepted set is.\<close>

definition dependency_set :: "Dependency list \<Rightarrow> bool" where
  "dependency_set ds \<longleftrightarrow> distinct ds \<and> (\<forall>d\<in>set ds. Dependency_Validate d = ok)"

lemma dependencyKey_inj:
  assumes "inj idString" and "Dependency_Validate a = ok" and "Dependency_Validate b = ok"
    and "dependencyKey idString a = dependencyKey idString b"
  shows "a = (b::Dependency)"
proof -
  have "depKind a = depKind b \<and> idString (depVersionID a) = idString (depVersionID b)"
    using assms(2-4)
    by (cases "depKind a"; cases "depKind b") (simp_all add: dependencyKey_def Dependency_Validate_ok)
  then show ?thesis
    using assms(1) by (auto dest: injD intro: Dependency.equality)
qed

lemma foldE_dependencyKeys:
  assumes "inj idString" and "\<forall>d\<in>set pre. Dependency_Validate d = ok"
  shows "foldE (dependencyKeysStep idString) (map (dependencyKey idString) pre) ds = Inr keys \<longleftrightarrow>
     keys = map (dependencyKey idString) (pre @ ds) \<and> (\<forall>d\<in>set ds. Dependency_Validate d = ok)
     \<and> distinct ds \<and> set pre \<inter> set ds = {}"
  using assms(2)
proof (induction ds arbitrary: pre)
  case Nil
  then show ?case by auto
next
  case (Cons d ds)
  show ?case
  proof (cases "Dependency_Validate d = ok \<and> d \<notin> set pre")
    case True
    then have "dependencyKey idString d \<notin> set (map (dependencyKey idString) pre)"
      using Cons.prems dependencyKey_inj [OF assms(1)] by auto
    then have "dependencyKeysStep idString (map (dependencyKey idString) pre) d
        = Inr (map (dependencyKey idString) (pre @ [d]))"
      using True by (simp add: dependencyKeysStep_def Let_def)
    then show ?thesis
      using Cons.IH [of "pre @ [d]"] Cons.prems True by auto
  next
    case False
    then have "\<exists>e. dependencyKeysStep idString (map (dependencyKey idString) pre) d = Inl e"
      by (auto simp: dependencyKeysStep_def Let_def split: sum.splits)
    then show ?thesis using False by auto
  qed
qed

lemma dependencyKeys_ok:
  assumes "inj idString"
  shows "dependencyKeys idString ds = Inr keys \<longleftrightarrow>
     dependency_set ds \<and> keys = sort (map (dependencyKey idString) ds)"
proof -
  have "foldE (dependencyKeysStep idString) [] ds = Inr k \<longleftrightarrow>
      dependency_set ds \<and> k = map (dependencyKey idString) ds" for k
    using foldE_dependencyKeys [OF assms, of "[]" ds k] by (auto simp: dependency_set_def)
  then show ?thesis unfolding dependencyKeys_def case_result_ok by auto
qed

text \<open>The comparison decides equality of the two sets, whatever their order.\<close>

lemma DependencySetEqual_ok:
  assumes "inj idString"
  shows "DependencySetEqual idString l r = Inr b \<longleftrightarrow>
     dependency_set l \<and> dependency_set r \<and> (b \<longleftrightarrow> set l = set r)"
proof -
  have "sort (map (dependencyKey idString) l) = sort (map (dependencyKey idString) r) \<longleftrightarrow> set l = set r"
    if l: "dependency_set l" and r: "dependency_set r"
  proof
    assume "sort (map (dependencyKey idString) l) = sort (map (dependencyKey idString) r)"
    then have "dependencyKey idString ` set l = dependencyKey idString ` set r"
      by (metis set_map set_sort)
    moreover have "inj_on (dependencyKey idString) (set l \<union> set r)"
      using l r dependencyKey_inj [OF assms] by (auto simp: dependency_set_def inj_on_def)
    ultimately show "set l = set r" by (simp add: inj_on_Un_image_eq_iff)
  next
    assume "set l = set r"
    with l r have "mset l = mset r" by (simp add: dependency_set_def set_eq_iff_mset_eq_distinct)
    then have "mset (map (dependencyKey idString) l) = mset (map (dependencyKey idString) r)" by simp
    then show "sort (map (dependencyKey idString) l) = sort (map (dependencyKey idString) r)"
      by (metis sorted_list_of_multiset_mset)
  qed
  then show ?thesis
    by (auto simp: DependencySetEqual_def dependencyKeys_ok [OF assms] split: sum.splits)
      (metis Inl_Inr_False dependencyKeys_ok [OF assms])+
qed

lemma Watermark_Validate_ok:
  assumes "inj idString"
  shows "Watermark_Validate known idString w = Inr u \<longleftrightarrow>
     Name_validate (wmName w) = ok \<and> Version_validate (wmVersion w) = ok \<and> wmResidentID w \<noteq> 0
     \<and> 0 < wmSourceCommitSeq w \<and> Timezone_Validate known (wmAsOfTZ w) = ok
     \<and> dependency_set (wmDependencies w)"
  unfolding Watermark_Validate_def case_result_ok
  by (auto simp: dependencyKeys_ok [OF assms])

section \<open>The registry\<close>

text \<open>The definitions as the Go map of the registry holds them, and the sorted names.\<close>

record Registry =
  rgDefinitions :: "Name \<rightharpoonup> Definition"
  rgNames :: "Name list"

definition registryStep :: "Registry \<Rightarrow> Definition \<Rightarrow> (projection_error, Registry) result" where
  "registryStep r d =
     (case Definition_Validate d of Inl e \<Rightarrow> Inl e
      | Inr _ \<Rightarrow> if rgDefinitions r (dfName d) \<noteq> None then Inl (ProjectionError ''duplicate definition'')
          else Inr (r\<lparr>rgDefinitions := (rgDefinitions r)(dfName d \<mapsto> d),
                      rgNames := rgNames r @ [dfName d]\<rparr>))"

definition NewRegistry :: "Definition list \<Rightarrow> (projection_error, Registry) result" where
  "NewRegistry ds =
     (case foldE registryStep \<lparr>rgDefinitions = Map.empty, rgNames = []\<rparr> ds of
        Inl e \<Rightarrow> Inl e | Inr r \<Rightarrow> Inr (r\<lparr>rgNames := sort (rgNames r)\<rparr>))"

definition Registry_Definition :: "Registry \<Rightarrow> Name \<Rightarrow> (projection_error, Definition) result" where
  "Registry_Definition r name =
     (case rgDefinitions r name of None \<Rightarrow> Inl (ErrUndeclaredProjection name) | Some d \<Rightarrow> Inr d)"

definition zeroDefinition :: Definition where
  "zeroDefinition = \<lparr>dfName = '''', dfVersion = '''', dfTimeSensitive = False,
     dfDependencies = [], dfRebuildOnActivation = []\<rparr>"

definition Registry_Definitions :: "Registry \<Rightarrow> Definition list" where
  "Registry_Definitions r =
     map (\<lambda>name. case Registry_Definition r name of Inl _ \<Rightarrow> zeroDefinition | Inr d \<Rightarrow> d) (rgNames r)"

definition Registry_Names :: "Registry \<Rightarrow> Name list" where
  "Registry_Names r = rgNames r"

text \<open>
  What the registry promises its clients: the names are those of the definitions, in strictly
  increasing order, and every entry is valid and stored under its own name.
\<close>

definition registry_ok :: "Registry \<Rightarrow> bool" where
  "registry_ok r \<longleftrightarrow> sorted_wrt (<) (rgNames r) \<and> set (rgNames r) = dom (rgDefinitions r)
     \<and> (\<forall>name d. rgDefinitions r name = Some d \<longrightarrow> dfName d = name \<and> Definition_Validate d = ok)"

lemma registryStep_keeps:
  assumes "registryStep r d = Inr r'"
    and "distinct (rgNames r)" and "set (rgNames r) = dom (rgDefinitions r)"
    and "\<forall>name d. rgDefinitions r name = Some d \<longrightarrow> dfName d = name \<and> Definition_Validate d = ok"
  shows "distinct (rgNames r') \<and> set (rgNames r') = dom (rgDefinitions r')
    \<and> (\<forall>name d. rgDefinitions r' name = Some d \<longrightarrow> dfName d = name \<and> Definition_Validate d = ok)"
  using assms by (auto simp: registryStep_def split: sum.splits if_splits)

lemma NewRegistry_ok: "NewRegistry ds = Inr r \<Longrightarrow> registry_ok r"
proof -
  assume "NewRegistry ds = Inr r"
  then obtain q where q: "foldE registryStep \<lparr>rgDefinitions = Map.empty, rgNames = []\<rparr> ds = Inr q"
    and r: "r = q\<lparr>rgNames := sort (rgNames q)\<rparr>"
    by (auto simp: NewRegistry_def split: sum.splits)
  have "distinct (rgNames q) \<and> set (rgNames q) = dom (rgDefinitions q)
    \<and> (\<forall>name d. rgDefinitions q name = Some d \<longrightarrow> dfName d = name \<and> Definition_Validate d = ok)"
    by (rule foldE_invariant [OF q]) (simp, blast dest: registryStep_keeps)
  then show ?thesis
    by (auto simp: registry_ok_def r strict_sorted_iff)
qed

end
