(* ===== verification/Projection_Planner.thy ===== *)
theory Projection_Planner
  imports Projection_Types
begin

text \<open>
  \<^verbatim>\<open>internal/projection/planner.go\<close>: the decision which update brings a stored watermark to
  a captured target, and the watermark that update writes.
\<close>

section \<open>Plans\<close>

datatype UpdateKind = FullBuild | FullRebuild | Update | UpToDate | UnknownUpdateKind string

datatype PlanReason =
    ReasonUnbuilt | ReasonVersionMismatch | ReasonDependencyMismatch | ReasonDependencyActivation
  | ReasonCursorAdvance | ReasonAsOfAdvance | ReasonCursorAndAsOfAdvance | ReasonCurrent
  | ReasonManualRebuild

record UpdatePlan =
  plKind :: UpdateKind
  plReason :: PlanReason
  plNeedCommitCatchUp :: bool
  plNeedAsOfReEvaluation :: bool

definition ChangesState :: "UpdatePlan \<Rightarrow> bool" where
  "ChangesState plan \<longleftrightarrow> plKind plan \<noteq> UpToDate"

record PlanInput =
  piDefinition :: Definition
  piResidentID :: ID
  piTarget :: Target
  piStored :: "Watermark option"
  piDesiredDependencies :: "Dependency list"
  piActivationDetected :: bool

definition mkPlan :: "UpdateKind \<Rightarrow> PlanReason \<Rightarrow> bool \<Rightarrow> bool \<Rightarrow> UpdatePlan" where
  "mkPlan kind reason commit asof =
     \<lparr>plKind = kind, plReason = reason, plNeedCommitCatchUp = commit, plNeedAsOfReEvaluation = asof\<rparr>"

section \<open>Checks\<close>

definition validateStoredDependencyMetadata ::
    "Definition \<Rightarrow> Dependency list \<Rightarrow> (projection_error, unit) result" where
  "validateStoredDependencyMetadata d deps =
     (if dfName d \<noteq> ClaimStatesName \<or> length (dfDependencies d) \<noteq> 1 \<or>
         dfDependencies d ! 0 \<noteq> MemoryPolicyDependency then ok
      else if length deps = 0 then ok
      else if length deps \<noteq> 1 \<or> depKind (deps ! 0) \<noteq> MemoryPolicyDependency
      then Inl ErrInvalidWatermarkMetadata
      else ok)"

definition kind_count :: "Dependency list \<Rightarrow> DependencyKind \<Rightarrow> nat" where
  "kind_count deps kind = length (filter (\<lambda>d. depKind d = kind) deps)"

definition validateDesiredDependencies ::
    "(ID \<Rightarrow> string) \<Rightarrow> Definition \<Rightarrow> Dependency list \<Rightarrow> (projection_error, unit) result" where
  "validateDesiredDependencies idString d deps =
     (case dependencyKeys idString deps of Inl e \<Rightarrow> Inl e
      | Inr _ \<Rightarrow> (case checkE (\<lambda>dep. if depKind dep \<notin> set (dfDependencies d)
                   then Inl (ProjectionError ''returned undeclared dependency'') else ok) deps of
          Inl e \<Rightarrow> Inl e
      | Inr _ \<Rightarrow> checkE (\<lambda>kind. if kind_count deps kind \<noteq> 1
                   then Inl (ErrUnresolvedDependency (DependencyKind_string kind)) else ok)
                 (dfDependencies d)))"

section \<open>The decision\<close>

text \<open>The stored watermark is usable and current enough: version, dependencies, cursors.\<close>

definition planStored ::
    "(string \<Rightarrow> bool) \<Rightarrow> (ID \<Rightarrow> string) \<Rightarrow> PlanInput \<Rightarrow> Watermark \<Rightarrow> (projection_error, UpdatePlan) result" where
  "planStored known idString input stored =
     (let d = piDefinition input; target = piTarget input
      in case Watermark_Validate known idString stored of Inl e \<Rightarrow> Inl e
      | Inr _ \<Rightarrow> (case validateStoredDependencyMetadata d (wmDependencies stored) of Inl e \<Rightarrow> Inl e
      | Inr _ \<Rightarrow>
        if wmName stored \<noteq> dfName d \<or> wmResidentID stored \<noteq> piResidentID input
        then Inl (ProjectionError ''stored watermark identity does not match update target'')
        else if tgAsOf target < wmAsOf stored then Inl ErrAsOfRegression
        else if HeadCommitSeq (tgHead target) < wmSourceCommitSeq stored then Inl ErrSourceRegression
        else if wmVersion stored \<noteq> dfVersion d
        then Inr (mkPlan FullRebuild ReasonVersionMismatch True (dfTimeSensitive d))
        else (case DependencySetEqual idString (wmDependencies stored) (piDesiredDependencies input) of
          Inl e \<Rightarrow> Inl e
        | Inr dependenciesEqual \<Rightarrow>
          if \<not> dependenciesEqual
          then Inr (mkPlan FullRebuild ReasonDependencyMismatch True (dfTimeSensitive d))
          else if piActivationDetected input then
            (if length (dfRebuildOnActivation d) = 0
             then Inl (ProjectionError ''activation reported for a definition without an activation rebuild rule'')
             else Inr (mkPlan FullRebuild ReasonDependencyActivation True (dfTimeSensitive d)))
          else
            (let needCommit = wmSourceCommitSeq stored < HeadCommitSeq (tgHead target);
                 needAsOf = (dfTimeSensitive d \<and> wmAsOf stored < tgAsOf target)
             in if needCommit \<and> needAsOf then Inr (mkPlan Update ReasonCursorAndAsOfAdvance True True)
                else if needCommit then Inr (mkPlan Update ReasonCursorAdvance True False)
                else if needAsOf then Inr (mkPlan Update ReasonAsOfAdvance False True)
                else Inr (mkPlan UpToDate ReasonCurrent False False)))))"

definition PlanUpdate ::
    "(string \<Rightarrow> bool) \<Rightarrow> (ID \<Rightarrow> string) \<Rightarrow> PlanInput \<Rightarrow> (projection_error, UpdatePlan) result" where
  "PlanUpdate known idString input =
     (case Definition_Validate (piDefinition input) of Inl e \<Rightarrow> Inl e
      | Inr _ \<Rightarrow> (case ID_Validate (piResidentID input) of Inl e \<Rightarrow> Inl (ProjectionCanonical e)
      | Inr _ \<Rightarrow> (case Target_Validate known (piTarget input) of Inl e \<Rightarrow> Inl e
      | Inr _ \<Rightarrow> (case validateDesiredDependencies idString (piDefinition input) (piDesiredDependencies input) of
          Inl e \<Rightarrow> Inl e
      | Inr _ \<Rightarrow>
          if \<not> Exists (tgHead (piTarget input))
          then Inl (ProjectionError ''cannot persist a resident projection at an empty Canonical head'')
          else (case piStored input of
            None \<Rightarrow> Inr (mkPlan FullBuild ReasonUnbuilt True (dfTimeSensitive (piDefinition input)))
          | Some stored \<Rightarrow> planStored known idString input stored)))))"

definition targetWatermark :: "PlanInput \<Rightarrow> UpdatePlan \<Rightarrow> Watermark" where
  "targetWatermark input plan =
     (let d = piDefinition input; target = piTarget input;
          base = \<lparr>wmName = dfName d, wmResidentID = piResidentID input, wmVersion = dfVersion d,
                  wmSourceCommitSeq = HeadCommitSeq (tgHead target), wmAsOf = tgAsOf target,
                  wmAsOfTZ = tgAsOfTZ target, wmDependencies = piDesiredDependencies input\<rparr>
      in case piStored input of
           None \<Rightarrow> base
         | Some stored \<Rightarrow>
             if plKind plan = FullBuild \<or> plKind plan = FullRebuild then base
             else base\<lparr>
               wmSourceCommitSeq := (if plNeedCommitCatchUp plan then HeadCommitSeq (tgHead target)
                 else wmSourceCommitSeq stored),
               wmAsOf := (if plNeedAsOfReEvaluation plan then tgAsOf target else wmAsOf stored),
               wmAsOfTZ := (if plNeedAsOfReEvaluation plan then tgAsOfTZ target else wmAsOfTZ stored)\<rparr>)"

section \<open>Properties of a plan\<close>

text \<open>
  A plan input whose target, definition and dependencies are usable: the checks every call
  makes before it looks at the stored watermark.
\<close>

definition plan_ready :: "(string \<Rightarrow> bool) \<Rightarrow> (ID \<Rightarrow> string) \<Rightarrow> PlanInput \<Rightarrow> bool" where
  "plan_ready known idString input \<longleftrightarrow>
     Definition_Validate (piDefinition input) = ok \<and> piResidentID input \<noteq> 0
     \<and> Target_Validate known (piTarget input) = ok
     \<and> validateDesiredDependencies idString (piDefinition input) (piDesiredDependencies input) = ok
     \<and> Exists (tgHead (piTarget input))"

text \<open>The stored watermark belongs to the projection and does not run ahead of the target.\<close>

definition stored_usable :: "(string \<Rightarrow> bool) \<Rightarrow> (ID \<Rightarrow> string) \<Rightarrow> PlanInput \<Rightarrow> Watermark \<Rightarrow> bool" where
  "stored_usable known idString input stored \<longleftrightarrow>
     Watermark_Validate known idString stored = ok
     \<and> validateStoredDependencyMetadata (piDefinition input) (wmDependencies stored) = ok
     \<and> wmName stored = dfName (piDefinition input) \<and> wmResidentID stored = piResidentID input
     \<and> wmAsOf stored \<le> tgAsOf (piTarget input)
     \<and> wmSourceCommitSeq stored \<le> HeadCommitSeq (tgHead (piTarget input))"

lemma desired_dependency_set:
  "inj idString \<Longrightarrow> validateDesiredDependencies idString d deps = Inr u \<Longrightarrow> dependency_set deps"
  unfolding validateDesiredDependencies_def case_result_ok by (auto simp: dependencyKeys_ok)

lemma PlanUpdate_ready:
  "PlanUpdate known idString input = Inr plan \<longleftrightarrow>
     plan_ready known idString input \<and>
     (case piStored input of
        None \<Rightarrow> plan = mkPlan FullBuild ReasonUnbuilt True (dfTimeSensitive (piDefinition input))
      | Some stored \<Rightarrow> planStored known idString input stored = Inr plan)"
  unfolding PlanUpdate_def case_result_ok plan_ready_def
  by (cases "piStored input") auto

text \<open>The plan of a usable stored watermark, read off in the order of the code.\<close>

definition plan_of :: "PlanInput \<Rightarrow> Watermark \<Rightarrow> UpdatePlan" where
  "plan_of input stored =
     (let d = piDefinition input; ts = dfTimeSensitive d;
          behind = wmSourceCommitSeq stored < HeadCommitSeq (tgHead (piTarget input));
          older = (ts \<and> wmAsOf stored < tgAsOf (piTarget input))
      in if wmVersion stored \<noteq> dfVersion d then mkPlan FullRebuild ReasonVersionMismatch True ts
         else if set (wmDependencies stored) \<noteq> set (piDesiredDependencies input)
         then mkPlan FullRebuild ReasonDependencyMismatch True ts
         else if piActivationDetected input then mkPlan FullRebuild ReasonDependencyActivation True ts
         else if behind \<or> older
         then mkPlan Update
           (if behind \<and> older then ReasonCursorAndAsOfAdvance
            else if behind then ReasonCursorAdvance else ReasonAsOfAdvance) behind older
         else mkPlan UpToDate ReasonCurrent False False)"

text \<open>An activation without a rule to rebuild is refused, once the comparisons are passed.\<close>

definition activation_misuse :: "PlanInput \<Rightarrow> Watermark \<Rightarrow> bool" where
  "activation_misuse input stored \<longleftrightarrow>
     wmVersion stored = dfVersion (piDefinition input)
     \<and> set (wmDependencies stored) = set (piDesiredDependencies input)
     \<and> piActivationDetected input \<and> dfRebuildOnActivation (piDefinition input) = []"

lemma planStored_eq:
  assumes "inj idString" and "dependency_set (piDesiredDependencies input)"
  shows "planStored known idString input stored = Inr plan \<longleftrightarrow>
     stored_usable known idString input stored \<and> \<not> activation_misuse input stored
     \<and> plan = plan_of input stored"
proof -
  have eq: "DependencySetEqual idString (wmDependencies stored) (piDesiredDependencies input)
      = Inr (set (wmDependencies stored) = set (piDesiredDependencies input))"
    if "Watermark_Validate known idString stored = ok"
    using that assms by (simp add: DependencySetEqual_ok Watermark_Validate_ok)
  show ?thesis
  proof (cases "stored_usable known idString input stored")
    case True
    then have v: "Watermark_Validate known idString stored = ok"
      and rest: "validateStoredDependencyMetadata (piDefinition input) (wmDependencies stored) = ok"
        "wmName stored = dfName (piDefinition input)" "wmResidentID stored = piResidentID input"
        "\<not> tgAsOf (piTarget input) < wmAsOf stored"
        "\<not> HeadCommitSeq (tgHead (piTarget input)) < wmSourceCommitSeq stored"
      by (auto simp: stored_usable_def)
    show ?thesis
      unfolding planStored_def Let_def v eq [OF v] rest(1) plan_of_def activation_misuse_def
      using True rest(2-5) by (auto simp del: not_less)
  next
    case False
    have "planStored known idString input stored \<noteq> Inr plan"
    proof
      assume "planStored known idString input stored = Inr plan"
      then have "stored_usable known idString input stored"
        unfolding planStored_def Let_def case_result_ok stored_usable_def
        by (auto split: if_splits)
      with False show False by blast
    qed
    with False show ?thesis by blast
  qed
qed

lemma PlanUpdate_eq:
  assumes "inj idString"
  shows "PlanUpdate known idString input = Inr plan \<longleftrightarrow>
     plan_ready known idString input \<and>
     (case piStored input of
        None \<Rightarrow> plan = mkPlan FullBuild ReasonUnbuilt True (dfTimeSensitive (piDefinition input))
      | Some stored \<Rightarrow> stored_usable known idString input stored
          \<and> \<not> activation_misuse input stored \<and> plan = plan_of input stored)"
proof (cases "plan_ready known idString input")
  case True
  then have "dependency_set (piDesiredDependencies input)"
    using desired_dependency_set [OF assms] by (auto simp: plan_ready_def)
  then show ?thesis
    unfolding PlanUpdate_ready by (simp add: planStored_eq [OF assms] split: option.splits)
qed (simp add: PlanUpdate_ready)

section \<open>The watermark a plan writes\<close>

text \<open>A watermark is at the target: identity, version, cursor, time and dependencies.\<close>

definition at_target :: "PlanInput \<Rightarrow> Watermark \<Rightarrow> bool" where
  "at_target input w \<longleftrightarrow>
     wmName w = dfName (piDefinition input) \<and> wmResidentID w = piResidentID input
     \<and> wmVersion w = dfVersion (piDefinition input)
     \<and> wmSourceCommitSeq w = HeadCommitSeq (tgHead (piTarget input))
     \<and> set (wmDependencies w) = set (piDesiredDependencies input)
     \<and> wmAsOf w \<le> tgAsOf (piTarget input)
     \<and> (dfTimeSensitive (piDefinition input) \<longrightarrow> wmAsOf w = tgAsOf (piTarget input))"

lemma Definition_Validate_names:
  "Definition_Validate d = Inr u \<Longrightarrow> Name_validate (dfName d) = ok \<and> Version_validate (dfVersion d) = ok"
  unfolding Definition_Validate_def case_result_ok by auto

lemma Target_Validate_ok:
  "Target_Validate known t = Inr u \<Longrightarrow> Exists (tgHead t) \<Longrightarrow>
     0 < HeadCommitSeq (tgHead t) \<and> Timezone_Validate known (tgAsOfTZ t) = ok"
  unfolding Target_Validate_def case_result_ok by (auto simp: Head_Validate_def)

lemma desired_metadata:
  assumes "validateDesiredDependencies idString d deps = Inr u"
  shows "validateStoredDependencyMetadata d deps = ok"
proof (cases "dfDependencies d = [MemoryPolicyDependency]")
  case True
  have "\<forall>dep\<in>set deps. depKind dep = MemoryPolicyDependency" and "kind_count deps MemoryPolicyDependency = 1"
    using assms True unfolding validateDesiredDependencies_def case_result_ok
    by (auto split: if_splits)
  then have "length deps = 1"
    by (simp add: kind_count_def filter_True)
  then show ?thesis
    using \<open>\<forall>dep\<in>set deps. depKind dep = MemoryPolicyDependency\<close>
    by (simp add: validateStoredDependencyMetadata_def)
next
  case False
  then show ?thesis
    by (cases "dfDependencies d") (auto simp: validateStoredDependencyMetadata_def)
qed

lemmas target_simps = targetWatermark_def at_target_def plan_of_def mkPlan_def Let_def

lemma targetWatermark_at_target:
  assumes "inj idString" and "PlanUpdate known idString input = Inr plan"
  shows "at_target input (targetWatermark input plan)"
proof (cases "piStored input")
  case None
  then show ?thesis by (simp add: target_simps)
next
  case (Some stored)
  then have use: "stored_usable known idString input stored" and p: "plan = plan_of input stored"
    using assms by (simp_all add: PlanUpdate_eq)
  from use have "wmAsOf stored \<le> tgAsOf (piTarget input)"
    and "wmSourceCommitSeq stored \<le> HeadCommitSeq (tgHead (piTarget input))"
    by (simp_all add: stored_usable_def)
  then show ?thesis
    unfolding p using Some by (auto simp: target_simps)
qed

lemma targetWatermark_valid:
  assumes "inj idString" and "PlanUpdate known idString input = Inr plan"
  shows "Watermark_Validate known idString (targetWatermark input plan) = ok"
proof -
  have ready: "plan_ready known idString input"
    using assms by (simp add: PlanUpdate_eq)
  then have d: "Definition_Validate (piDefinition input) = ok" and r: "piResidentID input \<noteq> 0"
    and t: "Target_Validate known (piTarget input) = ok" and e: "Exists (tgHead (piTarget input))"
    and deps: "dependency_set (piDesiredDependencies input)"
    using desired_dependency_set [OF assms(1)] by (auto simp: plan_ready_def)
  have at: "at_target input (targetWatermark input plan)"
    using assms by (rule targetWatermark_at_target)
  have "wmDependencies (targetWatermark input plan) = piDesiredDependencies input"
    by (simp add: targetWatermark_def Let_def split: option.splits)
  moreover have "Timezone_Validate known (wmAsOfTZ (targetWatermark input plan)) = ok"
  proof (cases "piStored input")
    case None
    then show ?thesis using Target_Validate_ok [OF t e] by (simp add: targetWatermark_def Let_def)
  next
    case (Some stored)
    then have "Watermark_Validate known idString stored = ok"
      using assms by (simp add: PlanUpdate_eq stored_usable_def)
    then have "Timezone_Validate known (wmAsOfTZ stored) = ok"
      by (simp add: Watermark_Validate_ok [OF assms(1)])
    then show ?thesis using Some Target_Validate_ok [OF t e] by (simp add: targetWatermark_def Let_def)
  qed
  ultimately show ?thesis
    using at Definition_Validate_names [OF d] r Target_Validate_ok [OF t e] deps
    by (simp add: Watermark_Validate_ok [OF assms(1)] at_target_def)
qed

lemma targetWatermark_monotone:
  assumes "inj idString" and "PlanUpdate known idString input = Inr plan" and "piStored input = Some stored"
  shows "wmAsOf stored \<le> wmAsOf (targetWatermark input plan)
    \<and> wmSourceCommitSeq stored \<le> wmSourceCommitSeq (targetWatermark input plan)"
  using assms by (auto simp: PlanUpdate_eq stored_usable_def targetWatermark_def Let_def)

text \<open>Any valid watermark that is at the target has nothing left to do.\<close>

lemma at_target_up_to_date:
  assumes "inj idString" and "plan_ready known idString input" and "at_target input w"
    and "Watermark_Validate known idString w = ok"
    and "validateStoredDependencyMetadata (piDefinition input) (wmDependencies w) = ok"
  shows "PlanUpdate known idString (input\<lparr>piStored := Some w, piActivationDetected := False\<rparr>)
    = Inr (mkPlan UpToDate ReasonCurrent False False)"
  using assms
  by (auto simp: PlanUpdate_eq plan_ready_def stored_usable_def activation_misuse_def at_target_def
      plan_of_def Let_def)

end
