(* ===== verification/Projection_Store.thy ===== *)
theory Projection_Store
  imports Projection_Planner
begin

text \<open>
  The Projection store of \<^verbatim>\<open>internal/store/sqlite/projection_adapter.go\<close>: reading a
  watermark, the checks of an apply request, the compare-and-swap transaction and the drop.
  The tables are maps from projection name and resident: the watermark row with its dependency
  rows (deleted with it, by the foreign key) and the body, whose value is opaque as it is for
  the coordinator. SQLite and the file system may fail at any statement: \<open>faults\<close> says which
  step of a transaction does; a transaction that does not commit leaves the tables unchanged. A commit fails
  in two ways: without effect (\<open>CommitTx\<close>), or with an error although it took effect (\<open>CommitReply\<close>). The hook
  \<^verbatim>\<open>applyHook\<close>, which only tests set, can do no more than fail: what it returns after the body is a fault of
  \<open>WriteWatermark\<close>, what it returns after the watermark one of \<open>BoundaryCommit\<close>.
\<close>

section \<open>The registered definitions\<close>

definition ContentReferencesName :: Name where
  "ContentReferencesName = ''content_references''"

definition ClaimStatesDefinition :: Definition where
  "ClaimStatesDefinition = \<lparr>dfName = ClaimStatesName, dfVersion = ''claim-states-v1'', dfTimeSensitive = True,
     dfDependencies = [MemoryPolicyDependency], dfRebuildOnActivation = [MemoryPolicyDependency]\<rparr>"

definition ClaimViewScopeCurrentDefinition :: Definition where
  "ClaimViewScopeCurrentDefinition = \<lparr>dfName = ClaimViewScopeCurrentName,
     dfVersion = ''claim-view-scope-current-v1'', dfTimeSensitive = False,
     dfDependencies = [], dfRebuildOnActivation = []\<rparr>"

definition ContentReferencesDefinition :: Definition where
  "ContentReferencesDefinition = \<lparr>dfName = ContentReferencesName,
     dfVersion = ''content-references-v1'', dfTimeSensitive = False,
     dfDependencies = [], dfRebuildOnActivation = []\<rparr>"

definition activeProjectionDefinitions :: "Definition list" where
  "activeProjectionDefinitions =
     [\<lparr>dfName = ResidentCurrentStatusName, dfVersion = ''resident-current-status-v1'', dfTimeSensitive = False,
        dfDependencies = [], dfRebuildOnActivation = []\<rparr>,
      \<lparr>dfName = ResidentCurrentRevisionName, dfVersion = ''resident-current-revision-v1'', dfTimeSensitive = False,
        dfDependencies = [], dfRebuildOnActivation = []\<rparr>,
      \<lparr>dfName = RuntimeStatesName, dfVersion = ''runtime-states-v2'', dfTimeSensitive = True,
        dfDependencies = [], dfRebuildOnActivation = []\<rparr>,
      ClaimStatesDefinition, ClaimViewScopeCurrentDefinition, ContentReferencesDefinition]"

definition ActiveProjectionRegistry :: "(projection_error, Registry) result" where
  "ActiveProjectionRegistry = NewRegistry activeProjectionDefinitions"

section \<open>Tables and transactions\<close>

record 'v projection_db =
  dbWatermarks :: "Name \<times> ID \<rightharpoonup> Watermark"
  dbBodies :: "Name \<times> ID \<rightharpoonup> 'v"

datatype tx_step =
    AcquireGate | BoundaryBefore | BeginTx | BoundaryOpen | ReadRows | WriteBody | WriteWatermark
  | BoundaryCommit | CommitTx | CommitReply | BoundaryAfter

type_synonym faults = "tx_step \<Rightarrow> string option"

definition step_fault :: "faults \<Rightarrow> tx_step \<Rightarrow> (projection_error, unit) result" where
  "step_fault f s = (case f s of None \<Rightarrow> ok | Some message \<Rightarrow> Inl (ProjectionError message))"

record 'v ApplyRequest =
  arDefinition :: Definition
  arResidentID :: ID
  arObserved :: "Watermark option"
  arPlan :: UpdatePlan
  arEvaluation :: 'v
  arWatermark :: Watermark

record DropRequest =
  drDefinition :: Definition
  drResidentID :: ID
  drObserved :: "Watermark option"

section \<open>Reading and comparing\<close>

definition dependency_before :: "(ID \<Rightarrow> string) \<Rightarrow> Dependency \<Rightarrow> Dependency \<Rightarrow> bool" where
  "dependency_before idString a b \<longleftrightarrow>
     (if DependencyKind_string (depKind a) \<noteq> DependencyKind_string (depKind b)
      then DependencyKind_string (depKind a) < DependencyKind_string (depKind b)
      else idString (depVersionID a) < idString (depVersionID b))"

definition readProjectionWatermark ::
    "(string \<Rightarrow> bool) \<Rightarrow> (ID \<Rightarrow> string) \<Rightarrow> 'v projection_db \<Rightarrow> Name \<Rightarrow> ID
      \<Rightarrow> (projection_error, Watermark option) result" where
  "readProjectionWatermark known idString db name residentID =
     (case dbWatermarks db (name, residentID) of
        None \<Rightarrow> Inr None
      | Some row \<Rightarrow>
          (case NewCommitSeq (wmSourceCommitSeq row) of Inl e \<Rightarrow> Inl (ProjectionCanonical e)
           | Inr commitSeq \<Rightarrow> (case ParseTimezone known (wmAsOfTZ row) of Inl e \<Rightarrow> Inl (ProjectionCanonical e)
           | Inr timezone \<Rightarrow>
               Inr (Some \<lparr>wmName = name, wmResidentID = residentID, wmVersion = wmVersion row,
                 wmSourceCommitSeq = commitSeq, wmAsOf = wmAsOf row, wmAsOfTZ = timezone,
                 wmDependencies = slice_stable (dependency_before idString) (wmDependencies row)\<rparr>))))"

definition watermarksEqual :: "(ID \<Rightarrow> string) \<Rightarrow> Watermark \<Rightarrow> Watermark \<Rightarrow> bool" where
  "watermarksEqual idString left right =
     (if wmName left \<noteq> wmName right \<or> wmResidentID left \<noteq> wmResidentID right \<or>
         wmVersion left \<noteq> wmVersion right \<or> wmSourceCommitSeq left \<noteq> wmSourceCommitSeq right \<or>
         wmAsOf left \<noteq> wmAsOf right \<or> wmAsOfTZ left \<noteq> wmAsOfTZ right then False
      else (case DependencySetEqual idString (wmDependencies left) (wmDependencies right) of
              Inl _ \<Rightarrow> False | Inr equal \<Rightarrow> equal))"

definition verifyProjectionCAS ::
    "(string \<Rightarrow> bool) \<Rightarrow> (ID \<Rightarrow> string) \<Rightarrow> 'v projection_db \<Rightarrow> Name \<Rightarrow> ID \<Rightarrow> Watermark option
      \<Rightarrow> (projection_error, unit) result" where
  "verifyProjectionCAS known idString db name residentID observed =
     (case readProjectionWatermark known idString db name residentID of Inl e \<Rightarrow> Inl e
      | Inr current \<Rightarrow>
          (case observed of
             None \<Rightarrow> if current \<noteq> None then Inl ErrCASConflict else ok
           | Some seen \<Rightarrow> (case current of None \<Rightarrow> Inl ErrCASConflict
               | Some c \<Rightarrow> if \<not> watermarksEqual idString seen c then Inl ErrCASConflict else ok)))"

section \<open>Checks of an apply request\<close>

definition validateRegisteredDefinition ::
    "Registry \<Rightarrow> Definition \<Rightarrow> (projection_error, unit) result" where
  "validateRegisteredDefinition registry d =
     (case Registry_Definition registry (dfName d) of Inl e \<Rightarrow> Inl e
      | Inr registered \<Rightarrow>
          if dfVersion registered \<noteq> dfVersion d \<or> dfTimeSensitive registered \<noteq> dfTimeSensitive d \<or>
             dfDependencies registered \<noteq> dfDependencies d \<or>
             dfRebuildOnActivation registered \<noteq> dfRebuildOnActivation d
          then Inl (ProjectionError ''Projection definition is not registered exactly'') else ok)"

definition planShape :: "'v ApplyRequest \<Rightarrow> (projection_error, unit) result" where
  "planShape request =
     (let plan = arPlan request; ts = dfTimeSensitive (arDefinition request)
      in case plKind plan of
        FullBuild \<Rightarrow>
          if arObserved request \<noteq> None then Inl (ProjectionError ''full build requires an absent observed watermark'')
          else if \<not> plNeedCommitCatchUp plan \<or> plNeedAsOfReEvaluation plan \<noteq> ts
          then Inl (ProjectionError ''full build cursor components do not match the definition'') else ok
      | FullRebuild \<Rightarrow>
          if arObserved request = None then Inl (ProjectionError ''full rebuild requires an observed watermark'')
          else if \<not> plNeedCommitCatchUp plan \<or> plNeedAsOfReEvaluation plan \<noteq> ts
          then Inl (ProjectionError ''full rebuild cursor components do not match the definition'') else ok
      | Update \<Rightarrow>
          if arObserved request = None then Inl (ProjectionError ''incremental update requires an observed watermark'')
          else if \<not> plNeedCommitCatchUp plan \<and> \<not> plNeedAsOfReEvaluation plan
          then Inl (ProjectionError ''incremental update executes no cursor component'')
          else if plNeedAsOfReEvaluation plan \<and> \<not> ts
          then Inl (ProjectionError ''non-time-sensitive Projection cannot execute as-of evaluation'') else ok
      | UpToDate \<Rightarrow> Inl (ProjectionError ''up-to-date Projection must not be applied'')
      | UnknownUpdateKind s \<Rightarrow> Inl (ProjectionError ''unknown Projection update kind''))"

definition planCursors ::
    "UpdatePlan \<Rightarrow> Watermark \<Rightarrow> Watermark \<Rightarrow> (projection_error, unit) result" where
  "planCursors plan observed w =
     (if plKind plan \<noteq> Update then ok
      else if plNeedCommitCatchUp plan \<and> wmSourceCommitSeq w \<le> wmSourceCommitSeq observed
      then Inl (ProjectionError ''executed commit catch-up did not advance source cursor'')
      else if \<not> plNeedCommitCatchUp plan \<and> wmSourceCommitSeq w \<noteq> wmSourceCommitSeq observed
      then Inl (ProjectionError ''unexecuted commit cursor changed'')
      else if plNeedAsOfReEvaluation plan \<and> wmAsOf w \<le> wmAsOf observed
      then Inl (ProjectionError ''executed as-of evaluation did not advance as_of'')
      else if \<not> plNeedAsOfReEvaluation plan \<and> (wmAsOf w \<noteq> wmAsOf observed \<or> wmAsOfTZ w \<noteq> wmAsOfTZ observed)
      then Inl (ProjectionError ''unexecuted as-of cursor changed'')
      else ok)"

definition validateProjectionApplyPlan :: "'v ApplyRequest \<Rightarrow> (projection_error, unit) result" where
  "validateProjectionApplyPlan request =
     (case planShape request of Inl e \<Rightarrow> Inl e
      | Inr _ \<Rightarrow> (case arObserved request of None \<Rightarrow> ok
          | Some observed \<Rightarrow> planCursors (arPlan request) observed (arWatermark request)))"

definition validateProjectionApply ::
    "(string \<Rightarrow> bool) \<Rightarrow> (ID \<Rightarrow> string) \<Rightarrow> Registry \<Rightarrow> 'v ApplyRequest \<Rightarrow> (projection_error, unit) result" where
  "validateProjectionApply known idString registry request =
     (let d = arDefinition request; w = arWatermark request
      in case validateRegisteredDefinition registry d of Inl e \<Rightarrow> Inl e
      | Inr _ \<Rightarrow> (case ID_Validate (arResidentID request) of Inl e \<Rightarrow> Inl (ProjectionCanonical e)
      | Inr _ \<Rightarrow> (case Watermark_Validate known idString w of Inl e \<Rightarrow> Inl e
      | Inr _ \<Rightarrow>
        if wmName w \<noteq> dfName d \<or> wmResidentID w \<noteq> arResidentID request \<or> wmVersion w \<noteq> dfVersion d
        then Inl (ProjectionError ''Projection apply watermark identity mismatch'')
        else (case (case arObserved request of None \<Rightarrow> ok
                    | Some observed \<Rightarrow> if wmAsOf w < wmAsOf observed then Inl ErrAsOfRegression
                        else if wmSourceCommitSeq w < wmSourceCommitSeq observed then Inl ErrSourceRegression
                        else ok) of Inl e \<Rightarrow> Inl e
        | Inr _ \<Rightarrow> (case validateProjectionApplyPlan request of Inl e \<Rightarrow> Inl e
        | Inr _ \<Rightarrow> (case checkE (\<lambda>dep. if depKind dep \<notin> set (dfDependencies d)
                     then Inl (ProjectionError ''Projection watermark contains undeclared dependency'') else ok)
                     (wmDependencies w) of Inl e \<Rightarrow> Inl e
        | Inr _ \<Rightarrow> checkE (\<lambda>kind. if kind_count (wmDependencies w) kind \<noteq> 1
                     then Inl (ErrUnresolvedDependency (DependencyKind_string kind)) else ok)
                     (dfDependencies d)))))))"

section \<open>The transactions\<close>

definition projectionTables :: "Name list" where
  "projectionTables = ServiceRequiredNames @ [ContentReferencesName]"

definition deleteProjectionBody ::
    "'v projection_db \<Rightarrow> Name \<Rightarrow> ID \<Rightarrow> (projection_error, 'v projection_db) result" where
  "deleteProjectionBody db name residentID =
     (if name \<notin> set projectionTables then Inl (ErrUndeclaredProjection name)
      else Inr (db\<lparr>dbBodies := (dbBodies db)((name, residentID) := None)\<rparr>))"

definition replaceProjectionBody ::
    "faults \<Rightarrow> 'v projection_db \<Rightarrow> Name \<Rightarrow> ID \<Rightarrow> 'v \<Rightarrow> (projection_error, 'v projection_db) result" where
  "replaceProjectionBody f db name residentID value =
     (case deleteProjectionBody db name residentID of Inl e \<Rightarrow> Inl e
      | Inr db \<Rightarrow> (case step_fault f WriteBody of Inl e \<Rightarrow> Inl e
      | Inr _ \<Rightarrow> Inr (db\<lparr>dbBodies := (dbBodies db)((name, residentID) \<mapsto> value)\<rparr>)))"

definition replaceProjectionWatermark ::
    "faults \<Rightarrow> 'v projection_db \<Rightarrow> Watermark \<Rightarrow> (projection_error, 'v projection_db) result" where
  "replaceProjectionWatermark f db w =
     (case step_fault f WriteWatermark of Inl e \<Rightarrow> Inl e
      | Inr _ \<Rightarrow> Inr (db\<lparr>dbWatermarks := (dbWatermarks db)((wmName w, wmResidentID w) \<mapsto> w)\<rparr>))"

text \<open>
  The frame every write transaction has: the gate, the boundary checks around it, the commit;
  \<open>body\<close> are its statements. An error in the reply to the commit, and the last check, come after it.
\<close>

definition transaction ::
    "faults \<Rightarrow> ('v projection_db \<Rightarrow> (projection_error, 'v projection_db) result) \<Rightarrow> 'v projection_db
      \<Rightarrow> 'v projection_db \<times> (projection_error, unit) result" where
  "transaction f body db =
     (case checkE (step_fault f) [AcquireGate, BoundaryBefore, BeginTx, BoundaryOpen, ReadRows] of
        Inl e \<Rightarrow> (db, Inl e)
      | Inr _ \<Rightarrow> (case body db of Inl e \<Rightarrow> (db, Inl e)
      | Inr db' \<Rightarrow> (case checkE (step_fault f) [BoundaryCommit, CommitTx] of
          Inl e \<Rightarrow> (db, Inl e)
        | Inr _ \<Rightarrow> (db', checkE (step_fault f) [CommitReply, BoundaryAfter]))))"

definition applyBody ::
    "(string \<Rightarrow> bool) \<Rightarrow> (ID \<Rightarrow> string) \<Rightarrow> faults \<Rightarrow> 'v ApplyRequest \<Rightarrow> 'v projection_db
      \<Rightarrow> (projection_error, 'v projection_db) result" where
  "applyBody known idString f request db =
     (case verifyProjectionCAS known idString db (dfName (arDefinition request)) (arResidentID request)
             (arObserved request) of Inl e \<Rightarrow> Inl e
      | Inr _ \<Rightarrow> (case replaceProjectionBody f db (dfName (arDefinition request)) (arResidentID request)
             (arEvaluation request) of Inl e \<Rightarrow> Inl e
      | Inr db \<Rightarrow> replaceProjectionWatermark f db (arWatermark request)))"

definition Store_Apply ::
    "(string \<Rightarrow> bool) \<Rightarrow> (ID \<Rightarrow> string) \<Rightarrow> Registry \<Rightarrow> faults \<Rightarrow> 'v ApplyRequest \<Rightarrow> 'v projection_db
      \<Rightarrow> 'v projection_db \<times> (projection_error, unit) result" where
  "Store_Apply known idString registry f request db =
     (case validateProjectionApply known idString registry request of Inl e \<Rightarrow> (db, Inl e)
      | Inr _ \<Rightarrow> transaction f (applyBody known idString f request) db)"

definition dropBody ::
    "(string \<Rightarrow> bool) \<Rightarrow> (ID \<Rightarrow> string) \<Rightarrow> faults \<Rightarrow> DropRequest \<Rightarrow> 'v projection_db
      \<Rightarrow> (projection_error, 'v projection_db) result" where
  "dropBody known idString f request db =
     (let name = dfName (drDefinition request); residentID = drResidentID request
      in case verifyProjectionCAS known idString db name residentID (drObserved request) of Inl e \<Rightarrow> Inl e
      | Inr _ \<Rightarrow> (case deleteProjectionBody db name residentID of Inl e \<Rightarrow> Inl e
      | Inr db \<Rightarrow> (case step_fault f WriteWatermark of Inl e \<Rightarrow> Inl e
      | Inr _ \<Rightarrow> Inr (db\<lparr>dbWatermarks := (dbWatermarks db)((name, residentID) := None)\<rparr>))))"

definition Store_Drop ::
    "(string \<Rightarrow> bool) \<Rightarrow> (ID \<Rightarrow> string) \<Rightarrow> Registry \<Rightarrow> faults \<Rightarrow> DropRequest \<Rightarrow> 'v projection_db
      \<Rightarrow> 'v projection_db \<times> (projection_error, unit) result" where
  "Store_Drop known idString registry f request db =
     (case validateRegisteredDefinition registry (drDefinition request) of Inl e \<Rightarrow> (db, Inl e)
      | Inr _ \<Rightarrow> (case ID_Validate (drResidentID request) of Inl e \<Rightarrow> (db, Inl (ProjectionCanonical e))
      | Inr _ \<Rightarrow> transaction f (dropBody known idString f request) db))"

section \<open>Facts about the transactions\<close>

lemma step_fault_not_conflict [simp]: "step_fault f s \<noteq> Inl ErrCASConflict"
  by (simp add: step_fault_def split: option.splits)

lemma checkE_faults_not_conflict [simp]: "checkE (step_fault f) steps \<noteq> Inl ErrCASConflict"
  by (induction steps) (auto simp: step_fault_def split: option.splits)

text \<open>A transaction changes nothing, or everything its statements say.\<close>

lemma transaction_cases:
  assumes "transaction f body db = (db', r)"
  obtains (rolled_back) e where "db' = db" and "r = Inl e"
    and "e = ErrCASConflict \<Longrightarrow> body db = Inl ErrCASConflict"
  | (committed) "body db = Inr db'" and "r \<noteq> Inl ErrCASConflict"
proof (cases "checkE (step_fault f) [AcquireGate, BoundaryBefore, BeginTx, BoundaryOpen, ReadRows]")
  case (Inl e)
  then have "db' = db" "r = Inl e" "e \<noteq> ErrCASConflict"
    using assms checkE_faults_not_conflict [of f "[AcquireGate, BoundaryBefore, BeginTx, BoundaryOpen, ReadRows]"]
    by (auto simp: transaction_def simp del: checkE.simps)
  then show thesis using rolled_back by blast
next
  case (Inr u)
  show thesis
  proof (cases "body db")
    case (Inl e)
    then show thesis using rolled_back [of e] assms Inr
      by (auto simp: transaction_def simp del: checkE.simps)
  next
    case body: (Inr new)
    show thesis
    proof (cases "checkE (step_fault f) [BoundaryCommit, CommitTx]")
      case (Inl e)
      then have "db' = db" "r = Inl e" "e \<noteq> ErrCASConflict"
        using assms Inr body checkE_faults_not_conflict [of f "[BoundaryCommit, CommitTx]"]
        by (auto simp: transaction_def simp del: checkE.simps)
      then show thesis using rolled_back by blast
    next
      case c: (Inr u')
      then have "db' = new" "r = checkE (step_fault f) [CommitReply, BoundaryAfter]"
        using assms Inr body c by (simp_all add: transaction_def del: checkE.simps checkE_ok_iff)
      then show thesis using committed body by (simp del: checkE.simps)
    qed
  qed
qed

text \<open>Without a fault a transaction commits exactly when its statements succeed.\<close>

definition no_faults :: faults where
  "no_faults = (\<lambda>_. None)"

lemma transaction_no_faults:
  "transaction no_faults body db = (case body db of Inl e \<Rightarrow> (db, Inl e) | Inr db' \<Rightarrow> (db', ok))"
  by (simp add: transaction_def step_fault_def no_faults_def split: sum.splits)

text \<open>The tables hold valid rows under their own keys.\<close>

definition db_ok :: "(string \<Rightarrow> bool) \<Rightarrow> (ID \<Rightarrow> string) \<Rightarrow> 'v projection_db \<Rightarrow> bool" where
  "db_ok known idString db \<longleftrightarrow>
     (\<forall>name residentID row. dbWatermarks db (name, residentID) = Some row \<longrightarrow>
        Watermark_Validate known idString row = ok \<and> wmName row = name \<and> wmResidentID row = residentID)"

text \<open>Two watermarks that differ in the order of their dependencies at most.\<close>

definition same_watermark :: "Watermark \<Rightarrow> Watermark \<Rightarrow> bool" where
  "same_watermark v w \<longleftrightarrow> v\<lparr>wmDependencies := []\<rparr> = w\<lparr>wmDependencies := []\<rparr>
     \<and> mset (wmDependencies v) = mset (wmDependencies w)"

lemma same_watermark_fields:
  "same_watermark v w \<longleftrightarrow> wmName v = wmName w \<and> wmResidentID v = wmResidentID w
     \<and> wmVersion v = wmVersion w \<and> wmSourceCommitSeq v = wmSourceCommitSeq w \<and> wmAsOf v = wmAsOf w
     \<and> wmAsOfTZ v = wmAsOfTZ w \<and> mset (wmDependencies v) = mset (wmDependencies w)"
  by (cases v; cases w) (auto simp: same_watermark_def)

lemma mset_distinct_dependency_set:
  "mset v = mset w \<Longrightarrow> dependency_set v \<longleftrightarrow> dependency_set w"
  using mset_eq_imp_distinct_iff mset_eq_setD unfolding dependency_set_def by metis

lemma same_watermark_valid:
  "inj idString \<Longrightarrow> same_watermark v w \<Longrightarrow>
     Watermark_Validate known idString v = ok \<longleftrightarrow> Watermark_Validate known idString w = ok"
  by (auto simp: Watermark_Validate_ok same_watermark_fields dest: mset_distinct_dependency_set)

lemma read_ok:
  assumes "inj idString" and "db_ok known idString db"
  shows "(\<exists>row w. dbWatermarks db (name, r) = Some row \<and> same_watermark w row
       \<and> Watermark_Validate known idString w = ok \<and> wmName w = name \<and> wmResidentID w = r
       \<and> readProjectionWatermark known idString db name r = Inr (Some w))
     \<or> (dbWatermarks db (name, r) = None \<and> readProjectionWatermark known idString db name r = Inr None)"
proof (cases "dbWatermarks db (name, r)")
  case None
  then show ?thesis by (simp add: readProjectionWatermark_def)
next
  case (Some row)
  then have v: "Watermark_Validate known idString row = ok" "wmName row = name" "wmResidentID row = r"
    using assms(2) by (auto simp: db_ok_def)
  then have tz: "ParseTimezone known (wmAsOfTZ row) = Inr (wmAsOfTZ row)" and pos: "0 < wmSourceCommitSeq row"
    by (auto simp: Watermark_Validate_ok [OF assms(1)] Timezone_Validate_def ParseTimezone_def
        split: sum.splits if_splits)
  define w where "w = row\<lparr>wmDependencies := slice_stable (dependency_before idString) (wmDependencies row)\<rparr>"
  have same: "same_watermark w row" by (simp add: w_def same_watermark_fields)
  have "readProjectionWatermark known idString db name r = Inr (Some w)"
    using Some v(2,3) tz pos
    by (auto simp: readProjectionWatermark_def w_def NewCommitSeq_def intro: Watermark.equality)
  then show ?thesis
    using Some same v same_watermark_valid [OF assms(1) same, of known] by (auto simp: w_def)
qed

lemma watermarksEqual_iff:
  assumes "inj idString"
  shows "watermarksEqual idString v w \<longleftrightarrow>
     same_watermark v w \<and> dependency_set (wmDependencies v) \<and> dependency_set (wmDependencies w)"
proof -
  have "set (wmDependencies v) = set (wmDependencies w) \<longleftrightarrow> mset (wmDependencies v) = mset (wmDependencies w)"
    if "dependency_set (wmDependencies v)" and "dependency_set (wmDependencies w)"
    using that by (simp add: dependency_set_def set_eq_iff_mset_eq_distinct)
  moreover have "(case DependencySetEqual idString (wmDependencies v) (wmDependencies w) of
      Inl _ \<Rightarrow> False | Inr equal \<Rightarrow> equal) \<longleftrightarrow> dependency_set (wmDependencies v)
      \<and> dependency_set (wmDependencies w) \<and> set (wmDependencies v) = set (wmDependencies w)"
    using DependencySetEqual_ok [OF assms, of "wmDependencies v" "wmDependencies w"]
    by (cases "DependencySetEqual idString (wmDependencies v) (wmDependencies w)") auto
  ultimately show ?thesis
    by (auto simp: watermarksEqual_def same_watermark_fields)
qed

text \<open>The compare-and-swap precondition: the observed watermark is still the stored one.\<close>

definition observes :: "'v projection_db \<Rightarrow> Name \<Rightarrow> ID \<Rightarrow> Watermark option \<Rightarrow> bool" where
  "observes db name r observed \<longleftrightarrow> rel_option same_watermark observed (dbWatermarks db (name, r))"

lemma same_watermark_trans: "same_watermark u v \<Longrightarrow> same_watermark v w \<Longrightarrow> same_watermark u w"
  by (auto simp: same_watermark_def)

lemma same_watermark_sym: "same_watermark u v \<Longrightarrow> same_watermark v u"
  by (auto simp: same_watermark_def)

lemma verifyProjectionCAS_iff:
  assumes "inj idString" and "db_ok known idString db"
  shows "verifyProjectionCAS known idString db name r observed =
     (if observes db name r observed then ok else Inl ErrCASConflict)"
  using read_ok [OF assms, of name r]
proof
  assume "dbWatermarks db (name, r) = None \<and> readProjectionWatermark known idString db name r = Inr None"
  then show ?thesis
    by (cases observed) (auto simp: verifyProjectionCAS_def observes_def)
next
  assume "\<exists>row w. dbWatermarks db (name, r) = Some row \<and> same_watermark w row
       \<and> Watermark_Validate known idString w = ok \<and> wmName w = name \<and> wmResidentID w = r
       \<and> readProjectionWatermark known idString db name r = Inr (Some w)"
  then obtain row w where row: "dbWatermarks db (name, r) = Some row" and same: "same_watermark w row"
    and w: "Watermark_Validate known idString w = ok"
    and rd: "readProjectionWatermark known idString db name r = Inr (Some w)"
    by blast
  have "watermarksEqual idString seen w \<longleftrightarrow> same_watermark seen row" for seen
  proof -
    have "dependency_set (wmDependencies w)"
      using w by (simp add: Watermark_Validate_ok [OF assms(1)])
    then show ?thesis
      unfolding watermarksEqual_iff [OF assms(1)]
      using same same_watermark_trans same_watermark_sym mset_distinct_dependency_set
        same_watermark_fields by metis
  qed
  then show ?thesis
    using row rd by (cases observed) (auto simp: verifyProjectionCAS_def observes_def)
qed

section \<open>What an apply does\<close>

lemma checkE_Inl: "checkE f xs = Inl e \<Longrightarrow> \<exists>x\<in>set xs. f x = Inl e"
  by (induction xs) (auto split: sum.splits)

lemma foldE_Inl: "foldE f s xs = Inl e \<Longrightarrow> \<exists>t. \<exists>x\<in>set xs. f t x = Inl e"
  by (induction xs arbitrary: s) (fastforce split: sum.splits)+

lemma Watermark_Validate_not_conflict [simp]: "Watermark_Validate known idString w \<noteq> Inl ErrCASConflict"
proof -
  have "Dependency_Validate d \<noteq> Inl ErrCASConflict" for d
    by (cases "depKind d") (auto simp: Dependency_Validate_def split: sum.splits)
  then have "dependencyKeysStep idString keys d \<noteq> Inl ErrCASConflict" for keys d
    by (auto simp: dependencyKeysStep_def Let_def split: sum.splits)
  then have "dependencyKeys idString ds \<noteq> Inl ErrCASConflict" for ds
    by (auto simp: dependencyKeys_def split: sum.splits dest: foldE_Inl)
  then show ?thesis
    by (auto simp: Watermark_Validate_def Name_validate_def Version_validate_def split: sum.splits)
qed

lemma planShape_not_conflict [simp]: "planShape request \<noteq> Inl ErrCASConflict"
  by (simp add: planShape_def Let_def split: UpdateKind.splits)

lemma planCursors_not_conflict [simp]: "planCursors plan observed w \<noteq> Inl ErrCASConflict"
  by (simp add: planCursors_def)

lemma validateProjectionApply_not_conflict [simp]:
  "validateProjectionApply known idString registry request \<noteq> Inl ErrCASConflict"
proof -
  have "validateRegisteredDefinition registry d \<noteq> Inl ErrCASConflict" for d
    by (auto simp: validateRegisteredDefinition_def Registry_Definition_def split: sum.splits option.splits)
  moreover have "validateProjectionApplyPlan request \<noteq> Inl ErrCASConflict"
    by (auto simp: validateProjectionApplyPlan_def split: sum.splits option.splits)
  ultimately show ?thesis
    unfolding validateProjectionApply_def Let_def
    by (auto split: sum.splits option.splits if_splits dest!: checkE_Inl)
qed

lemma applyBody_eq:
  assumes "inj idString" and "db_ok known idString db"
  shows "applyBody known idString f request db =
    (let key = (dfName (arDefinition request), arResidentID request); w = arWatermark request
     in if \<not> observes db (fst key) (snd key) (arObserved request) then Inl ErrCASConflict
        else if fst key \<notin> set projectionTables then Inl (ErrUndeclaredProjection (fst key))
        else (case checkE (step_fault f) [WriteBody, WriteWatermark] of Inl e \<Rightarrow> Inl e
          | Inr _ \<Rightarrow> Inr (db\<lparr>dbWatermarks := (dbWatermarks db)((wmName w, wmResidentID w) \<mapsto> w),
              dbBodies := (dbBodies db)(key \<mapsto> arEvaluation request)\<rparr>)))"
  by (simp add: applyBody_def verifyProjectionCAS_iff [OF assms] replaceProjectionBody_def
      deleteProjectionBody_def replaceProjectionWatermark_def Let_def split: sum.splits)

lemma Store_Apply_cases:
  assumes "inj idString" and "db_ok known idString db"
    and "Store_Apply known idString registry f request db = (db', r)"
  obtains (refused) e where "db' = db" and "r = Inl e"
      and "e = ErrCASConflict \<Longrightarrow> \<not> observes db (dfName (arDefinition request)) (arResidentID request) (arObserved request)"
  | (applied) "validateProjectionApply known idString registry request = ok"
      and "observes db (dfName (arDefinition request)) (arResidentID request) (arObserved request)"
      and "dbWatermarks db' = (dbWatermarks db)
        ((dfName (arDefinition request), arResidentID request) \<mapsto> arWatermark request)"
      and "dbBodies db' = (dbBodies db)
        ((dfName (arDefinition request), arResidentID request) \<mapsto> arEvaluation request)"
      and "r \<noteq> Inl ErrCASConflict"
proof (cases "validateProjectionApply known idString registry request")
  case (Inl e)
  then have "db' = db" and "r = Inl e" and "e \<noteq> ErrCASConflict"
    using assms(3) validateProjectionApply_not_conflict [of known idString registry request]
    by (auto simp: Store_Apply_def)
  then show thesis using refused by blast
next
  case (Inr u)
  then have t: "transaction f (applyBody known idString f request) db = (db', r)"
    using assms(3) by (simp add: Store_Apply_def)
  from t show thesis
  proof (cases rule: transaction_cases)
    case (rolled_back e)
    have "applyBody known idString f request db = Inl ErrCASConflict \<Longrightarrow>
        \<not> observes db (dfName (arDefinition request)) (arResidentID request) (arObserved request)"
      using checkE_faults_not_conflict [of f "[WriteBody, WriteWatermark]"]
      by (auto simp: applyBody_eq [OF assms(1,2)] Let_def simp del: checkE.simps split: if_splits sum.splits)
    with rolled_back show thesis using refused by blast
  next
    case committed
    have "wmName (arWatermark request) = dfName (arDefinition request)
        \<and> wmResidentID (arWatermark request) = arResidentID request"
      using Inr by (auto simp: validateProjectionApply_def Let_def split: sum.splits if_splits)
    with committed show thesis
      using applied Inr by (auto simp: applyBody_eq [OF assms(1,2)] Let_def split: if_splits sum.splits)
  qed
qed

lemma validateProjectionApply_watermark:
  assumes "validateProjectionApply known idString registry request = Inr u"
  shows "Watermark_Validate known idString (arWatermark request) = ok"
    and "wmName (arWatermark request) = dfName (arDefinition request)"
    and "wmResidentID (arWatermark request) = arResidentID request"
    and "arObserved request = Some observed \<Longrightarrow>
      wmAsOf observed \<le> wmAsOf (arWatermark request)
      \<and> wmSourceCommitSeq observed \<le> wmSourceCommitSeq (arWatermark request)"
  using assms by (auto simp: validateProjectionApply_def Let_def split: sum.splits if_splits)

text \<open>The tables stay well formed under applies and drops, whatever fails.\<close>

lemma Store_Apply_db_ok:
  assumes "inj idString" and "db_ok known idString db"
    and "Store_Apply known idString registry f request db = (db', r)"
  shows "db_ok known idString db'"
  using assms
proof (cases rule: Store_Apply_cases)
  case applied
  then show ?thesis
    using assms(2) validateProjectionApply_watermark [OF applied(1)] by (simp add: db_ok_def)
qed (use assms in simp)

lemma Store_Drop_db_ok:
  assumes "db_ok known idString db" and "Store_Drop known idString registry f request db = (db', r)"
  shows "db_ok known idString db'"
proof -
  consider "db' = db" | "transaction f (dropBody known idString f request) db = (db', r)"
    using assms(2) by (auto simp: Store_Drop_def split: sum.splits)
  then show ?thesis
  proof cases
    case 2
    then show ?thesis
    proof (cases rule: transaction_cases)
      case committed
      then have "dbWatermarks db' = (dbWatermarks db)((dfName (drDefinition request), drResidentID request) := None)"
        by (auto simp: dropBody_def deleteProjectionBody_def Let_def split: sum.splits if_splits)
      then show ?thesis using assms(1) by (auto simp: db_ok_def)
    qed (use assms in simp)
  qed (use assms in simp)
qed

section \<open>The contract of a compare-and-swap store\<close>

text \<open>
  Clients that read a cursor and write it back under a compare-and-swap may run in any order;
  the store promises that no operation of any of them moves the cursor of a key backwards or
  loses it. Whole histories then have the same property.
\<close>

locale cas_store =
  fixes inv :: "'db \<Rightarrow> bool" and cursor :: "'db \<Rightarrow> 'k \<Rightarrow> 'c option"
    and step :: "'op \<Rightarrow> 'db \<Rightarrow> 'db" and le :: "'c \<Rightarrow> 'c \<Rightarrow> bool"
  assumes le_refl: "le c c" and le_trans: "le a b \<Longrightarrow> le b c \<Longrightarrow> le a c"
    and step_inv: "inv db \<Longrightarrow> inv (step op db)"
    and step_le: "inv db \<Longrightarrow> cursor db k = Some c \<Longrightarrow> \<exists>c'. cursor (step op db) k = Some c' \<and> le c c'"
begin

lemma run_inv: "inv db \<Longrightarrow> inv (fold step ops db)"
  by (induction ops arbitrary: db) (simp_all add: step_inv)

lemma run_le: "inv db \<Longrightarrow> cursor db k = Some c \<Longrightarrow> \<exists>c'. cursor (fold step ops db) k = Some c' \<and> le c c'"
proof (induction ops arbitrary: db c)
  case Nil
  then show ?case by (simp add: le_refl)
next
  case (Cons op ops)
  then obtain d where d: "cursor (step op db) k = Some d" and "le c d"
    using step_le by blast
  with Cons.IH [of "step op db" d] Cons.prems(1) show ?case
    by (auto intro: le_trans simp: step_inv)
qed

end

text \<open>The two cursors of a watermark, and an apply with its faults as one operation.\<close>

definition db_cursor :: "'v projection_db \<Rightarrow> Name \<times> ID \<Rightarrow> (CommitSeq \<times> Instant) option" where
  "db_cursor db key = map_option (\<lambda>w. (wmSourceCommitSeq w, wmAsOf w)) (dbWatermarks db key)"

definition cursor_le :: "CommitSeq \<times> Instant \<Rightarrow> CommitSeq \<times> Instant \<Rightarrow> bool" where
  "cursor_le a b \<longleftrightarrow> fst a \<le> fst b \<and> snd a \<le> snd b"

definition apply_step ::
    "(string \<Rightarrow> bool) \<Rightarrow> (ID \<Rightarrow> string) \<Rightarrow> Registry \<Rightarrow> faults \<times> 'v ApplyRequest \<Rightarrow> 'v projection_db \<Rightarrow> 'v projection_db" where
  "apply_step known idString registry step db =
     fst (Store_Apply known idString registry (fst step) (snd step) db)"

lemma apply_step_le:
  assumes "inj idString" and "db_ok known idString db" and "db_cursor db k = Some c"
  shows "\<exists>c'. db_cursor (apply_step known idString registry step db) k = Some c' \<and> cursor_le c c'"
proof -
  obtain db' r where run: "Store_Apply known idString registry (fst step) (snd step) db = (db', r)"
    by fastforce
  from assms(1,2) run show ?thesis
  proof (cases rule: Store_Apply_cases)
    case (refused e)
    then show ?thesis using assms(3) run by (simp add: apply_step_def cursor_le_def)
  next
    case applied
    let ?key = "(dfName (arDefinition (snd step)), arResidentID (snd step))"
    show ?thesis
    proof (cases "k = ?key")
      case True
      then obtain row observed where "dbWatermarks db ?key = Some row" "c = (wmSourceCommitSeq row, wmAsOf row)"
        "arObserved (snd step) = Some observed" "same_watermark observed row"
        using assms(3) applied(2) by (auto simp: db_cursor_def observes_def option_rel_Some2)
      with True applied validateProjectionApply_watermark(4) [OF applied(1)] run show ?thesis
        by (auto simp: apply_step_def db_cursor_def cursor_le_def same_watermark_fields)
    next
      case False
      then show ?thesis
        using assms(3) applied run by (auto simp: apply_step_def db_cursor_def cursor_le_def)
    qed
  qed
qed

interpretation apply_cas: cas_store "\<lambda>db. inj idString \<and> db_ok known idString db" db_cursor
    "apply_step known idString registry" cursor_le for known idString registry
proof unfold_locales
  fix db :: "'v projection_db" and op :: "faults \<times> 'v ApplyRequest"
  assume "inj idString \<and> db_ok known idString db"
  then show "inj idString \<and> db_ok known idString (apply_step known idString registry op db)"
    using Store_Apply_db_ok unfolding apply_step_def by (metis prod.collapse)
next
  fix db :: "'v projection_db" and k c op
  assume "inj idString \<and> db_ok known idString db" and "db_cursor db k = Some c"
  then show "\<exists>c'. db_cursor (apply_step known idString registry op db) k = Some c' \<and> cursor_le c c'"
    using apply_step_le by blast
qed (auto simp: cursor_le_def)

end
