(* ===== verification/Projection_Update.thy ===== *)
theory Projection_Update
  imports Projection_Store
begin

text \<open>
  The coordinator of \<^verbatim>\<open>internal/projection/coordinator.go\<close>, \<^verbatim>\<open>preflight.go\<close> and
  \<^verbatim>\<open>service_reconcile.go\<close>: planning and applying one update with its retry after a lost
  compare-and-swap, the claim/runtime cohort, reconciliation of residents, forced rebuilds and
  the preflight that proves readiness at one canonical head.

  The coordinator runs beside other processes. An environment \<open>co_env\<close> gives what it cannot
  see: the answers of the canonical source, the clock, the faults of SQLite, and the changes
  other clients make to the tables. All of them depend on a counter that every interaction
  advances, so nothing is assumed to stay the same between two calls. The resident lock
  serializes calls for one resident and is the reason one call is modelled from start to end;
  metrics, the observer and goroutine scheduling have no effect on this state.
\<close>

section \<open>Environment and state\<close>

record DependencyRequest =
  dqDefinition :: Definition
  dqResidentID :: ID
  dqTarget :: Target
  dqPrevious :: "Watermark option"

record ActivationRequest =
  aqDefinition :: Definition
  aqKind :: DependencyKind
  aqResidentID :: ID
  aqAfter :: CommitSeq
  aqThrough :: CommitSeq

record EvaluationRequest =
  eqDefinition :: Definition
  eqResidentID :: ID
  eqTarget :: Target
  eqPrevious :: "Watermark option"
  eqDependencies :: "Dependency list"
  eqPlan :: UpdatePlan

text \<open>Durations and the clock are in nanoseconds.\<close>

record schedule =
  scScanInterval :: int
  scAsOfRefreshInterval :: int
  scRebuildRetryInterval :: int
  scMaxStaleness :: int

record failure =
  flErr :: projection_error
  flRetryAt :: int
  flRefreshAsOf :: bool

record 'v co_env =
  ceKnown :: "string \<Rightarrow> bool"
  ceIDString :: "ID \<Rightarrow> string"
  ceStoreRegistry :: Registry
  ceHead :: "nat \<Rightarrow> (projection_error, Head) result"
  ceResidents :: "nat \<Rightarrow> Target \<Rightarrow> (projection_error, ID list) result"
  ceResolve :: "nat \<Rightarrow> DependencyRequest \<Rightarrow> (projection_error, Dependency list) result"
  ceActivated :: "nat \<Rightarrow> ActivationRequest \<Rightarrow> (projection_error, bool) result"
  ceEvaluate :: "nat \<Rightarrow> EvaluationRequest \<Rightarrow> (projection_error, 'v) result"
  ceNow :: "nat \<Rightarrow> int"
  ceReadFault :: "nat \<Rightarrow> string option"
  ceFaults :: "nat \<Rightarrow> faults"
  ceBefore :: "nat \<Rightarrow> 'v projection_db \<Rightarrow> 'v projection_db"
  ceBetween :: "nat \<Rightarrow> 'v projection_db \<Rightarrow> 'v projection_db"

record 'v Coordinator =
  coRegistry :: Registry
  coTimezone :: Timezone
  coSchedules :: "Name \<Rightarrow> schedule"
  coCohort :: "Definition list"
  coFailures :: "Name \<times> ID \<rightharpoonup> failure"
  coDB :: "'v projection_db"
  coTick :: nat

definition co_tick :: "'v Coordinator \<Rightarrow> 'v Coordinator" where
  "co_tick c = c\<lparr>coTick := Suc (coTick c)\<rparr>"

text \<open>\<^verbatim>\<open>canonical.InstantFromTime\<close>: Unix microseconds, rounded down.\<close>

definition InstantFromTime :: "int \<Rightarrow> Instant" where
  "InstantFromTime t = t div 1000"

text \<open>\<^verbatim>\<open>Store.Watermark\<close> through the reader connection.\<close>

definition Store_Watermark ::
    "'v co_env \<Rightarrow> nat \<Rightarrow> 'v projection_db \<Rightarrow> Name \<Rightarrow> ID \<Rightarrow> (projection_error, Watermark option) result" where
  "Store_Watermark env t db name residentID =
     (case ceReadFault env t of Some message \<Rightarrow> Inl (ProjectionError message)
      | None \<Rightarrow> readProjectionWatermark (ceKnown env) (ceIDString env) db name residentID)"

section \<open>One update\<close>

fun activationDetected ::
    "'v co_env \<Rightarrow> nat \<Rightarrow> PlanInput \<Rightarrow> Watermark \<Rightarrow> DependencyKind list \<Rightarrow> (projection_error, bool) result" where
  "activationDetected env t input stored [] = Inr False"
| "activationDetected env t input stored (kind # kinds) =
     (case ceActivated env t \<lparr>aqDefinition = piDefinition input, aqKind = kind, aqResidentID = piResidentID input,
             aqAfter = wmSourceCommitSeq stored, aqThrough = HeadCommitSeq (tgHead (piTarget input))\<rparr> of
        Inl e \<Rightarrow> Inl e
      | Inr activated \<Rightarrow> if activated then Inr True else activationDetected env t input stored kinds)"

definition coordinator_plan ::
    "'v co_env \<Rightarrow> nat \<Rightarrow> PlanInput \<Rightarrow> (projection_error, UpdatePlan) result" where
  "coordinator_plan env t input =
     (case PlanUpdate (ceKnown env) (ceIDString env) input of Inl e \<Rightarrow> Inl e
      | Inr plan \<Rightarrow>
          if plKind plan = FullBuild \<or> plKind plan = FullRebuild then Inr plan
          else (case piStored input of None \<Rightarrow> Inr plan
            | Some stored \<Rightarrow>
                if wmSourceCommitSeq stored \<ge> HeadCommitSeq (tgHead (piTarget input)) then Inr plan
                else (case activationDetected env t input stored (dfRebuildOnActivation (piDefinition input)) of
                    Inl e \<Rightarrow> Inl e
                  | Inr activated \<Rightarrow>
                      if activated
                      then PlanUpdate (ceKnown env) (ceIDString env) (input\<lparr>piActivationDetected := True\<rparr>)
                      else Inr plan)))"

definition adjustTarget ::
    "Definition \<Rightarrow> Watermark option \<Rightarrow> bool \<Rightarrow> bool \<Rightarrow> Target \<Rightarrow> Target" where
  "adjustTarget d previous refreshAsOf exactAsOf target =
     (case previous of None \<Rightarrow> target
      | Some p \<Rightarrow> if dfTimeSensitive d \<and> \<not> refreshAsOf \<and> \<not> exactAsOf
          then target\<lparr>tgAsOf := wmAsOf p, tgAsOfTZ := wmAsOfTZ p\<rparr> else target)"

definition forcePlan :: "Definition \<Rightarrow> Watermark option \<Rightarrow> bool \<Rightarrow> UpdatePlan \<Rightarrow> UpdatePlan" where
  "forcePlan d previous force plan =
     (if force
      then mkPlan (if previous = None then FullBuild else FullRebuild) ReasonManualRebuild True (dfTimeSensitive d)
      else plan)"

text \<open>The plan of an exact target that differs from the stored time in the zone only.\<close>

definition timezoneHeals :: "Definition \<Rightarrow> Watermark option \<Rightarrow> Target \<Rightarrow> bool \<Rightarrow> bool" where
  "timezoneHeals d previous target exactAsOf \<longleftrightarrow>
     (case previous of None \<Rightarrow> False
      | Some p \<Rightarrow> exactAsOf \<and> dfTimeSensitive d \<and> wmAsOf p = tgAsOf target \<and> wmAsOfTZ p \<noteq> tgAsOfTZ target)"

definition healPlan :: "UpdatePlan \<Rightarrow> UpdatePlan" where
  "healPlan plan =
     (case plKind plan of
        UpToDate \<Rightarrow> mkPlan Update ReasonAsOfAdvance False True
      | Update \<Rightarrow> plan\<lparr>plNeedAsOfReEvaluation := True,
          plReason := (if plNeedCommitCatchUp plan then ReasonCursorAndAsOfAdvance else ReasonAsOfAdvance)\<rparr>
      | _ \<Rightarrow> plan)"

definition executedPlan ::
    "Definition \<Rightarrow> Watermark option \<Rightarrow> Target \<Rightarrow> bool \<Rightarrow> bool \<Rightarrow> UpdatePlan \<Rightarrow> UpdatePlan" where
  "executedPlan d previous target force exactAsOf plan =
     (let plan = forcePlan d previous force plan
      in if timezoneHeals d previous target exactAsOf then healPlan plan else plan)"

text \<open>
  One pass of the loop of \<^verbatim>\<open>updateWithTarget\<close>: \<open>Inr\<close> its return value, or \<open>Inl\<close> the
  target with which the next pass starts after a lost compare-and-swap.
\<close>

definition updateAttempt ::
    "'v co_env \<Rightarrow> nat \<Rightarrow> Target \<Rightarrow> ID \<Rightarrow> Definition \<Rightarrow> bool \<Rightarrow> bool \<Rightarrow> bool \<Rightarrow> 'v Coordinator
      \<Rightarrow> 'v Coordinator \<times> (Target + (projection_error, unit) result)" where
  "updateAttempt env attempt target residentID d force refreshAsOf exactAsOf c0 =
     (let t = coTick c0; c = (co_tick c0)\<lparr>coDB := ceBefore env t (coDB c0)\<rparr>
      in case Store_Watermark env t (coDB c) (dfName d) residentID of Inl e \<Rightarrow> (c, Inr (Inl e))
      | Inr previous \<Rightarrow>
        (let target = adjustTarget d previous refreshAsOf exactAsOf target
         in case ceResolve env t \<lparr>dqDefinition = d, dqResidentID = residentID, dqTarget = target,
                   dqPrevious = previous\<rparr> of Inl e \<Rightarrow> (c, Inr (Inl e))
         | Inr dependencies \<Rightarrow>
           (let input = \<lparr>piDefinition = d, piResidentID = residentID, piTarget = target, piStored = previous,
                   piDesiredDependencies = dependencies, piActivationDetected = False\<rparr>
            in case coordinator_plan env t input of Inl e \<Rightarrow> (c, Inr (Inl e))
            | Inr planned \<Rightarrow>
              (let plan = executedPlan d previous target force exactAsOf planned
               in if \<not> ChangesState plan then (c, Inr ok)
                  else case ceEvaluate env t \<lparr>eqDefinition = d, eqResidentID = residentID, eqTarget = target,
                         eqPrevious = previous, eqDependencies = dependencies, eqPlan = plan\<rparr> of
                    Inl e \<Rightarrow> (c, Inr (Inl e))
                  | Inr evaluation \<Rightarrow>
                    (let w = targetWatermark input plan
                     in case Watermark_Validate (ceKnown env) (ceIDString env) w of Inl e \<Rightarrow> (c, Inr (Inl e))
                     | Inr _ \<Rightarrow>
                       (let (db, r) = Store_Apply (ceKnown env) (ceIDString env) (ceStoreRegistry env)
                              (ceFaults env t)
                              \<lparr>arDefinition = d, arResidentID = residentID, arObserved = previous, arPlan = plan,
                               arEvaluation = evaluation, arWatermark = w\<rparr>
                              (ceBetween env t (coDB c));
                            c = c\<lparr>coDB := db\<rparr>
                        in if r = ok then (c, Inr ok)
                           else if r \<noteq> Inl ErrCASConflict \<or> attempt = 1 then (c, Inr r)
                           else (c, Inl target)))))))"

definition updateWithTarget ::
    "'v co_env \<Rightarrow> Target \<Rightarrow> ID \<Rightarrow> Definition \<Rightarrow> bool \<Rightarrow> bool \<Rightarrow> bool \<Rightarrow> 'v Coordinator
      \<Rightarrow> 'v Coordinator \<times> (projection_error, unit) result" where
  "updateWithTarget env target residentID d force refreshAsOf exactAsOf c0 =
     (case updateAttempt env 0 target residentID d force refreshAsOf exactAsOf c0 of
        (c1, Inr r) \<Rightarrow> (c1, r)
      | (c1, Inl target1) \<Rightarrow>
          (case updateAttempt env 1 target1 residentID d force refreshAsOf exactAsOf c1 of
             (c2, Inr r) \<Rightarrow> (c2, r)
           | (c2, Inl _) \<Rightarrow> (c2, Inl ErrCASConflict)))"

definition update_projection ::
    "'v co_env \<Rightarrow> Target \<Rightarrow> ID \<Rightarrow> Definition \<Rightarrow> bool \<Rightarrow> bool \<Rightarrow> 'v Coordinator
      \<Rightarrow> 'v Coordinator \<times> (projection_error, unit) result" where
  "update_projection env target residentID d force refreshAsOf c =
     updateWithTarget env target residentID d force refreshAsOf False c"

definition captureTarget ::
    "'v co_env \<Rightarrow> 'v Coordinator \<Rightarrow> 'v Coordinator \<times> (projection_error, Target) result" where
  "captureTarget env c =
     (let t = coTick c
      in case ceHead env t of Inl e \<Rightarrow> (co_tick c, Inl e)
      | Inr head \<Rightarrow>
          (let now = InstantFromTime (ceNow env t);
               asOf = (if Exists head \<and> HeadCommittedAt head > now then HeadCommittedAt head else now);
               target = \<lparr>tgHead = head, tgAsOf = asOf, tgAsOfTZ = coTimezone c\<rparr>
           in case Target_Validate (ceKnown env) target of
                Inl e \<Rightarrow> (co_tick c, Inl e) | Inr _ \<Rightarrow> (co_tick c, Inr target)))"

section \<open>What an update leaves in the store\<close>

lemma coordinator_plan_cases:
  assumes "inj (ceIDString env)" and "coordinator_plan env t input = Inr plan"
    and "\<not> piActivationDetected input"
  obtains (unbuilt) "plan_ready (ceKnown env) (ceIDString env) input" and "piStored input = None"
      and "plan = mkPlan FullBuild ReasonUnbuilt True (dfTimeSensitive (piDefinition input))"
  | (built) stored activated where "plan_ready (ceKnown env) (ceIDString env) input"
      and "piStored input = Some stored" and "stored_usable (ceKnown env) (ceIDString env) input stored"
      and "plan = plan_of (input\<lparr>piActivationDetected := activated\<rparr>) stored"
proof -
  have "\<exists>activated. PlanUpdate (ceKnown env) (ceIDString env) (input\<lparr>piActivationDetected := activated\<rparr>) = Inr plan"
  proof -
    have same: "input = input\<lparr>piActivationDetected := False\<rparr>"
      using assms(3) by simp
    show ?thesis
      using assms(2) unfolding coordinator_plan_def
      by (auto split: sum.splits if_splits option.splits intro: exI [of _ True] exI [of _ False] simp flip: same)
  qed
  then obtain activated where
    p: "PlanUpdate (ceKnown env) (ceIDString env) (input\<lparr>piActivationDetected := activated\<rparr>) = Inr plan" ..
  then show thesis
    using unbuilt built [of _ activated] assms(1)
    by (cases "piStored input") (auto simp: PlanUpdate_eq plan_ready_def stored_usable_def)
qed

lemma executed_at_target:
  assumes "inj (ceIDString env)" and "coordinator_plan env t input = Inr planned"
    and "\<not> piActivationDetected input"
    and "plan = executedPlan (piDefinition input) (piStored input) (piTarget input) force exactAsOf planned"
  shows "at_target input (targetWatermark input plan)
    \<and> (\<not> ChangesState plan \<longrightarrow> (\<exists>stored. piStored input = Some stored \<and> at_target input stored))"
  using assms(1-3)
proof (cases rule: coordinator_plan_cases)
  case unbuilt
  have "plKind plan = FullBuild"
    unfolding assms(4) by (simp add: executedPlan_def forcePlan_def timezoneHeals_def unbuilt mkPlan_def)
  then show ?thesis by (simp add: unbuilt target_simps ChangesState_def)
next
  case (built stored activated)
  have le: "wmAsOf stored \<le> tgAsOf (piTarget input)"
    "wmSourceCommitSeq stored \<le> HeadCommitSeq (tgHead (piTarget input))"
    and identity: "wmName stored = dfName (piDefinition input)" "wmResidentID stored = piResidentID input"
    using built(3) by (simp_all add: stored_usable_def)
  have "at_target input (targetWatermark input plan)"
    unfolding assms(4) using le
    by (auto simp: built(2,4) executedPlan_def forcePlan_def timezoneHeals_def healPlan_def target_simps)
  moreover have "\<not> ChangesState plan \<longrightarrow> at_target input stored"
    unfolding assms(4) using le identity
    by (auto simp: built(2,4) executedPlan_def forcePlan_def timezoneHeals_def healPlan_def
        ChangesState_def target_simps split: if_splits)
  ultimately show ?thesis using built(2) by blast
qed

text \<open>
  What is assumed of the others: identifiers have distinct texts, and other clients write
  through the same store, so they keep the tables well formed and move no cursor backwards.
\<close>

definition env_ok :: "'v co_env \<Rightarrow> bool" where
  "env_ok env \<longleftrightarrow> inj (ceIDString env) \<and>
     (\<forall>t db. db_ok (ceKnown env) (ceIDString env) db \<longrightarrow>
        db_ok (ceKnown env) (ceIDString env) (ceBefore env t db)
        \<and> db_ok (ceKnown env) (ceIDString env) (ceBetween env t db))"

definition db_le :: "'v projection_db \<Rightarrow> 'v projection_db \<Rightarrow> bool" where
  "db_le db db' \<longleftrightarrow>
     (\<forall>k c. db_cursor db k = Some c \<longrightarrow> (\<exists>c'. db_cursor db' k = Some c' \<and> cursor_le c c'))"

definition env_advances :: "'v co_env \<Rightarrow> bool" where
  "env_advances env \<longleftrightarrow>
     (\<forall>t db. db_ok (ceKnown env) (ceIDString env) db \<longrightarrow>
        db_le db (ceBefore env t db) \<and> db_le db (ceBetween env t db))"

definition co_ok :: "'v co_env \<Rightarrow> 'v Coordinator \<Rightarrow> bool" where
  "co_ok env c \<longleftrightarrow> db_ok (ceKnown env) (ceIDString env) (coDB c)"

lemma db_le_refl [simp]: "db_le db db"
  by (auto simp: db_le_def cursor_le_def)

lemma db_le_trans: "db_le a b \<Longrightarrow> db_le b c \<Longrightarrow> db_le a c"
  unfolding db_le_def using apply_cas.le_trans by blast

lemma Store_Apply_db_le:
  assumes "inj idString" and "db_ok known idString db"
    and "Store_Apply known idString registry f request db = (db', r)"
  shows "db_le db db'"
  using apply_step_le [OF assms(1,2), where step = "(f, request)" and registry = registry] assms(3)
  by (auto simp: db_le_def apply_step_def)

text \<open>The watermark of the key is at a target that differs from the asked one in time at most.\<close>

definition current_for ::
    "'v co_env \<Rightarrow> nat \<Rightarrow> Definition \<Rightarrow> ID \<Rightarrow> Target \<Rightarrow> bool \<Rightarrow> 'v projection_db \<Rightarrow> bool" where
  "current_for env t d residentID target exact db \<longleftrightarrow>
     (\<exists>previous goal deps w.
        (exact \<longrightarrow> goal = target) \<and> tgHead goal = tgHead target
        \<and> ceResolve env t \<lparr>dqDefinition = d, dqResidentID = residentID, dqTarget = goal, dqPrevious = previous\<rparr> = Inr deps
        \<and> dbWatermarks db (dfName d, residentID) = Some w
        \<and> at_target \<lparr>piDefinition = d, piResidentID = residentID, piTarget = goal, piStored = previous,
             piDesiredDependencies = deps, piActivationDetected = False\<rparr> w)"

lemma at_target_same:
  "same_watermark v w \<Longrightarrow> at_target input v \<longleftrightarrow> at_target input w"
  by (auto simp: at_target_def same_watermark_fields dest: mset_eq_setD)

lemma adjustTarget_head [simp]: "tgHead (adjustTarget d previous refresh exact target) = tgHead target"
  by (simp add: adjustTarget_def split: option.splits)

lemma adjustTarget_exact:
  "refresh \<or> exact \<or> \<not> dfTimeSensitive d \<Longrightarrow> adjustTarget d previous refresh exact target = target"
  by (auto simp: adjustTarget_def split: option.splits)

text \<open>The ways a pass can end: before the plan changes anything, or after an apply.\<close>

lemma updateAttempt_cases:
  assumes "env_ok env" and "co_ok env c0"
    and "updateAttempt env n target residentID d force refresh exact c0 = (c, r)"
  obtains (stopped) e where "coDB c = ceBefore env (coTick c0) (coDB c0)" and "r = Inr (Inl e)"
  | (current) "coDB c = ceBefore env (coTick c0) (coDB c0)" and "r = Inr ok"
      and "current_for env (coTick c0) d residentID target (refresh \<or> exact \<or> \<not> dfTimeSensitive d) (coDB c)"
  | (applied) previous input planned plan evaluation r' where
      "readProjectionWatermark (ceKnown env) (ceIDString env)
         (ceBefore env (coTick c0) (coDB c0)) (dfName d) residentID = Inr previous"
      and "input = \<lparr>piDefinition = d, piResidentID = residentID,
         piTarget = adjustTarget d previous refresh exact target, piStored = previous,
         piDesiredDependencies = piDesiredDependencies input, piActivationDetected = False\<rparr>"
      and "ceResolve env (coTick c0) \<lparr>dqDefinition = d, dqResidentID = residentID,
         dqTarget = piTarget input, dqPrevious = previous\<rparr> = Inr (piDesiredDependencies input)"
      and "coordinator_plan env (coTick c0) input = Inr planned"
      and "plan = executedPlan d previous (piTarget input) force exact planned"
      and "Store_Apply (ceKnown env) (ceIDString env) (ceStoreRegistry env) (ceFaults env (coTick c0))
         \<lparr>arDefinition = d, arResidentID = residentID, arObserved = previous, arPlan = plan,
          arEvaluation = evaluation, arWatermark = targetWatermark input plan\<rparr>
         (ceBetween env (coTick c0) (ceBefore env (coTick c0) (coDB c0))) = (coDB c, r')"
      and "r = (if r' = ok then Inr ok else if r' \<noteq> Inl ErrCASConflict \<or> n = 1 then Inr r' else Inl (piTarget input))"
proof -
  let ?t = "coTick c0" and ?db = "ceBefore env (coTick c0) (coDB c0)"
  let ?c = "(co_tick c0)\<lparr>coDB := ?db\<rparr>"
  have inj: "inj (ceIDString env)" and db: "db_ok (ceKnown env) (ceIDString env) ?db"
    using assms(1,2) by (simp_all add: env_ok_def co_ok_def)
  note run = assms(3) [unfolded updateAttempt_def Let_def]
  show thesis
  proof (cases "Store_Watermark env ?t ?db (dfName d) residentID")
    case (Inl e)
    then show thesis using run stopped [of e] by auto
  next
    case rd: (Inr previous)
    let ?goal = "adjustTarget d previous refresh exact target"
    show thesis
    proof (cases "ceResolve env ?t \<lparr>dqDefinition = d, dqResidentID = residentID, dqTarget = ?goal, dqPrevious = previous\<rparr>")
      case (Inl e)
      then show thesis using run rd stopped [of e] by auto
    next
      case deps: (Inr deps)
      define input where "input = \<lparr>piDefinition = d, piResidentID = residentID, piTarget = ?goal,
        piStored = previous, piDesiredDependencies = deps, piActivationDetected = False\<rparr>"
      show thesis
      proof (cases "coordinator_plan env ?t input")
        case (Inl e)
        then show thesis using run rd deps stopped [of e] by (auto simp: input_def)
      next
        case planned: (Inr planned)
        define plan where "plan = executedPlan d previous ?goal force exact planned"
        have read: "readProjectionWatermark (ceKnown env) (ceIDString env) ?db (dfName d) residentID = Inr previous"
          using rd by (auto simp: Store_Watermark_def split: option.splits)
        show thesis
        proof (cases "ChangesState plan")
          case False
          have "\<exists>stored. piStored input = Some stored \<and> at_target input stored"
            using executed_at_target [OF inj planned, of plan force exact] False
            by (simp add: input_def plan_def)
          then obtain stored where s: "previous = Some stored" "at_target input stored"
            by (auto simp: input_def)
          obtain row where "dbWatermarks ?db (dfName d, residentID) = Some row" "same_watermark stored row"
            using read_ok [OF inj db, of "dfName d" residentID] read s(1) by auto
          then have "current_for env ?t d residentID target (refresh \<or> exact \<or> \<not> dfTimeSensitive d) ?db"
            unfolding current_for_def using deps s(2) adjustTarget_exact
            by (intro exI [of _ previous] exI [of _ ?goal] exI [of _ deps] exI [of _ row])
              (auto simp: input_def at_target_same)
          then show thesis
            using current run rd deps planned False by (auto simp: input_def plan_def)
        next
          case True
          show thesis
          proof (cases "ceEvaluate env ?t \<lparr>eqDefinition = d, eqResidentID = residentID, eqTarget = ?goal,
              eqPrevious = previous, eqDependencies = deps, eqPlan = plan\<rparr>")
            case (Inl e)
            then show thesis using run rd deps planned True stopped [of e] by (auto simp: input_def plan_def)
          next
            case ev: (Inr evaluation)
            show thesis
            proof (cases "Watermark_Validate (ceKnown env) (ceIDString env) (targetWatermark input plan)")
              case (Inl e)
              then show thesis
                using run rd deps planned True ev stopped [of e] by (auto simp: input_def plan_def)
            next
              case w: (Inr u)
              obtain db' r' where ap: "Store_Apply (ceKnown env) (ceIDString env) (ceStoreRegistry env)
                  (ceFaults env ?t) \<lparr>arDefinition = d, arResidentID = residentID, arObserved = previous,
                   arPlan = plan, arEvaluation = evaluation, arWatermark = targetWatermark input plan\<rparr>
                  (ceBetween env ?t ?db) = (db', r')" by fastforce
              then have "coDB c = db'" and "r = (if r' = ok then Inr ok
                  else if r' \<noteq> Inl ErrCASConflict \<or> n = 1 then Inr r' else Inl ?goal)"
                using run rd deps planned True ev w
                by (auto simp: input_def plan_def split: if_splits)
              then show thesis
                using applied [OF read _ _ planned _ ap [folded \<open>coDB c = db'\<close>]] deps
                by (simp add: input_def plan_def)
            qed
          qed
        qed
      qed
    qed
  qed
qed

lemma updateAttempt_frame:
  "updateAttempt env n target residentID d force refresh exact c0 = (c, r) \<Longrightarrow>
     c = c0\<lparr>coTick := Suc (coTick c0), coDB := coDB c\<rparr>"
  by (auto simp: updateAttempt_def co_tick_def Let_def split: sum.splits if_splits prod.splits)

lemma updateAttempt_keeps:
  assumes "env_ok env" and "co_ok env c0"
    and "updateAttempt env n target residentID d force refresh exact c0 = (c, r)"
  shows "co_ok env c \<and> (env_advances env \<longrightarrow> db_le (coDB c0) (coDB c))"
proof -
  let ?db = "ceBefore env (coTick c0) (coDB c0)"
  have inj: "inj (ceIDString env)" and db: "db_ok (ceKnown env) (ceIDString env) ?db"
    and between: "db_ok (ceKnown env) (ceIDString env) (ceBetween env (coTick c0) ?db)"
    using assms(1,2) by (simp_all add: env_ok_def co_ok_def)
  have le: "env_advances env \<Longrightarrow> db_le (coDB c0) ?db"
    "env_advances env \<Longrightarrow> db_le (coDB c0) (ceBetween env (coTick c0) ?db)"
    using assms(2) db by (auto simp: env_advances_def co_ok_def intro: db_le_trans)
  from assms show ?thesis
  proof (cases rule: updateAttempt_cases)
    case applied
    then show ?thesis
      using Store_Apply_db_ok [OF inj between applied(6)] Store_Apply_db_le [OF inj between applied(6)] le
      by (auto simp: co_ok_def intro: db_le_trans)
  qed (use db le in \<open>simp_all add: co_ok_def\<close>)
qed

text \<open>A pass that returns without an error leaves the projection current for its target.\<close>

lemma updateAttempt_current:
  assumes "env_ok env" and "co_ok env c0"
    and "updateAttempt env n target residentID d force refresh exact c0 = (c, Inr ok)"
  shows "current_for env (coTick c0) d residentID target (refresh \<or> exact \<or> \<not> dfTimeSensitive d) (coDB c)"
  using assms
proof (cases rule: updateAttempt_cases)
  case (applied previous input planned plan evaluation r')
  let ?db = "ceBefore env (coTick c0) (coDB c0)"
  have inj: "inj (ceIDString env)"
    and between: "db_ok (ceKnown env) (ceIDString env) (ceBetween env (coTick c0) ?db)"
    using assms(1,2) by (simp_all add: env_ok_def co_ok_def)
  have input: "piDefinition input = d" "piResidentID input = residentID" "piStored input = previous"
    "piTarget input = adjustTarget d previous refresh exact target" "\<not> piActivationDetected input"
    by (subst applied(2), simp)+
  have at: "at_target input (targetWatermark input plan)"
    using executed_at_target [OF inj applied(4) input(5)] applied(5) input by blast
  have "r' = ok"
    using applied(7) by (auto split: if_splits)
  with inj between applied(6) have "dbWatermarks (coDB c) (dfName d, residentID) = Some (targetWatermark input plan)"
    by (cases rule: Store_Apply_cases) auto
  then show ?thesis
    unfolding current_for_def using applied(3) at input(4) adjustTarget_exact
    by (intro exI [of _ previous] exI [of _ "piTarget input"] exI [of _ "piDesiredDependencies input"]
        exI [of _ "targetWatermark input plan"]) (auto simp flip: applied(2))
qed auto

lemma updateAttempt_retry:
  assumes "env_ok env" and "co_ok env c0"
    and "updateAttempt env n target residentID d force refresh exact c0 = (c, Inl target')"
  shows "n \<noteq> 1 \<and> tgHead target' = tgHead target
    \<and> (refresh \<or> exact \<or> \<not> dfTimeSensitive d \<longrightarrow> target' = target)"
  using assms
proof (cases rule: updateAttempt_cases)
  case (applied previous input planned plan evaluation r')
  have "piTarget input = adjustTarget d previous refresh exact target"
    by (subst applied(2)) simp
  then show ?thesis
    using applied(7) by (auto simp: adjustTarget_exact split: if_splits)
qed auto

lemma updateWithTarget_keeps:
  assumes "env_ok env" and "co_ok env c0"
    and "updateWithTarget env target residentID d force refresh exact c0 = (c, r)"
  shows "co_ok env c \<and> (env_advances env \<longrightarrow> db_le (coDB c0) (coDB c))"
proof -
  obtain c1 r1 where one: "updateAttempt env 0 target residentID d force refresh exact c0 = (c1, r1)"
    by fastforce
  note k1 = updateAttempt_keeps [OF assms(1,2) one]
  show ?thesis
  proof (cases r1)
    case (Inr u)
    then show ?thesis using k1 one assms(3) by (simp add: updateWithTarget_def)
  next
    case (Inl target1)
    obtain c2 r2 where two: "updateAttempt env 1 target1 residentID d force refresh exact c1 = (c2, r2)"
      by fastforce
    have "c = c2"
      using Inl one two assms(3) by (auto simp: updateWithTarget_def split: sum.splits)
    then show ?thesis
      using k1 updateAttempt_keeps [OF assms(1) _ two] by (auto intro: db_le_trans)
  qed
qed

lemma current_for_head:
  "current_for env t d residentID target1 x db \<Longrightarrow> tgHead target1 = tgHead target
     \<Longrightarrow> (x \<longrightarrow> target1 = target) \<Longrightarrow> current_for env t d residentID target x db"
  unfolding current_for_def by metis

lemma updateWithTarget_current:
  assumes "env_ok env" and "co_ok env c0"
    and "updateWithTarget env target residentID d force refresh exact c0 = (c, ok)"
  shows "\<exists>t. current_for env t d residentID target (refresh \<or> exact \<or> \<not> dfTimeSensitive d) (coDB c)"
proof -
  obtain c1 r1 where one: "updateAttempt env 0 target residentID d force refresh exact c0 = (c1, r1)"
    by fastforce
  note k1 = updateAttempt_keeps [OF assms(1,2) one]
  show ?thesis
  proof (cases r1)
    case (Inr u)
    with one assms(3) have "updateAttempt env 0 target residentID d force refresh exact c0 = (c, Inr ok)"
      by (simp add: updateWithTarget_def)
    then show ?thesis
      using updateAttempt_current [OF assms(1,2)] by blast
  next
    case (Inl target1)
    obtain c2 r2 where two: "updateAttempt env 1 target1 residentID d force refresh exact c1 = (c2, r2)"
      by fastforce
    then have "r2 = Inr ok" and "c = c2"
      using Inl one assms(3) by (auto simp: updateWithTarget_def split: sum.splits)
    moreover have "co_ok env c1" using k1 by blast
    ultimately have "\<exists>t. current_for env t d residentID target1 (refresh \<or> exact \<or> \<not> dfTimeSensitive d) (coDB c)"
      using updateAttempt_current [OF assms(1)] two by blast
    then show ?thesis
      using updateAttempt_retry [OF assms(1,2)] one Inl current_for_head by metis
  qed
qed

section \<open>The requests the coordinator sends\<close>

text \<open>The request of a pass, for an input and the plan it executes.\<close>

definition request_of :: "PlanInput \<Rightarrow> UpdatePlan \<Rightarrow> 'v \<Rightarrow> 'v ApplyRequest" where
  "request_of input plan evaluation =
     \<lparr>arDefinition = piDefinition input, arResidentID = piResidentID input, arObserved = piStored input,
      arPlan = plan, arEvaluation = evaluation, arWatermark = targetWatermark input plan\<rparr>"

text \<open>The rejected case: an exact target with a new zone and no new time.\<close>

definition heal_update :: "PlanInput \<Rightarrow> bool \<Rightarrow> UpdatePlan \<Rightarrow> bool" where
  "heal_update input exact plan \<longleftrightarrow>
     timezoneHeals (piDefinition input) (piStored input) (piTarget input) exact \<and> plKind plan = Update"

lemma executed_plan_checks:
  assumes "inj (ceIDString env)" and "coordinator_plan env t input = Inr planned"
    and "\<not> piActivationDetected input"
    and "plan = executedPlan (piDefinition input) (piStored input) (piTarget input) force exact planned"
    and "ChangesState plan"
  shows "validateProjectionApplyPlan (request_of input plan evaluation) =
    (if heal_update input exact plan
     then Inl (ProjectionError ''executed as-of evaluation did not advance as_of'') else ok)"
  using assms(1-3)
proof (cases rule: coordinator_plan_cases)
  case unbuilt
  have p: "plKind plan = FullBuild \<and> plNeedCommitCatchUp plan
      \<and> plNeedAsOfReEvaluation plan = dfTimeSensitive (piDefinition input)"
    unfolding assms(4) by (simp add: executedPlan_def forcePlan_def timezoneHeals_def unbuilt mkPlan_def)
  then show ?thesis
    by (simp add: validateProjectionApplyPlan_def planShape_def request_of_def unbuilt(2) heal_update_def)
next
  case (built stored activated)
  have le: "wmAsOf stored \<le> tgAsOf (piTarget input)"
    "wmSourceCommitSeq stored \<le> HeadCommitSeq (tgHead (piTarget input))"
    using built(3) by (simp_all add: stored_usable_def)
  show ?thesis
    using assms(5) le unfolding assms(4)
    by (auto simp: built(2,4) executedPlan_def forcePlan_def timezoneHeals_def healPlan_def heal_update_def
        validateProjectionApplyPlan_def planShape_def planCursors_def request_of_def ChangesState_def target_simps
        split: if_splits)
qed

text \<open>A valid watermark results from every executed plan.\<close>

lemma executed_watermark_valid:
  assumes "inj (ceIDString env)" and "coordinator_plan env t input = Inr planned"
    and "\<not> piActivationDetected input"
    and "plan = executedPlan (piDefinition input) (piStored input) (piTarget input) force exact planned"
  shows "Watermark_Validate (ceKnown env) (ceIDString env) (targetWatermark input plan) = ok"
proof -
  have ready: "plan_ready (ceKnown env) (ceIDString env) input"
    using assms(1-3) by (cases rule: coordinator_plan_cases) simp_all
  then have d: "Definition_Validate (piDefinition input) = ok" and r: "piResidentID input \<noteq> 0"
    and t: "Target_Validate (ceKnown env) (piTarget input) = ok" and e: "Exists (tgHead (piTarget input))"
    and deps: "dependency_set (piDesiredDependencies input)"
    using desired_dependency_set [OF assms(1)] by (auto simp: plan_ready_def)
  have at: "at_target input (targetWatermark input plan)"
    using executed_at_target [OF assms] by blast
  have "Timezone_Validate (ceKnown env) (wmAsOfTZ (targetWatermark input plan)) = ok"
    using assms(1-3)
  proof (cases rule: coordinator_plan_cases)
    case unbuilt
    then show ?thesis using Target_Validate_ok [OF t e] by (simp add: targetWatermark_def Let_def)
  next
    case (built stored activated)
    then have "Timezone_Validate (ceKnown env) (wmAsOfTZ stored) = ok"
      by (simp add: stored_usable_def Watermark_Validate_ok [OF assms(1)])
    then show ?thesis
      using built(2) Target_Validate_ok [OF t e] by (simp add: targetWatermark_def Let_def)
  qed
  moreover have "wmDependencies (targetWatermark input plan) = piDesiredDependencies input"
    by (simp add: targetWatermark_def Let_def split: option.splits)
  ultimately show ?thesis
    using at Definition_Validate_names [OF d] r Target_Validate_ok [OF t e] deps
    by (simp add: Watermark_Validate_ok [OF assms(1)] at_target_def)
qed

text \<open>The store accepts what the coordinator plans, with that one exception.\<close>

lemma request_accepted:
  assumes "inj (ceIDString env)" and "coordinator_plan env t input = Inr planned"
    and "\<not> piActivationDetected input"
    and "plan = executedPlan (piDefinition input) (piStored input) (piTarget input) force exact planned"
    and "ChangesState plan"
    and "validateRegisteredDefinition registry (piDefinition input) = ok"
  shows "validateProjectionApply (ceKnown env) (ceIDString env) registry (request_of input plan evaluation) =
    (if heal_update input exact plan
     then Inl (ProjectionError ''executed as-of evaluation did not advance as_of'') else ok)"
proof -
  let ?w = "targetWatermark input plan" and ?d = "piDefinition input"
  have valid: "Watermark_Validate (ceKnown env) (ceIDString env) ?w = ok"
    using executed_watermark_valid [OF assms(1-4)] .
  have at: "at_target input ?w"
    using executed_at_target [OF assms(1-4)] by blast
  have deps: "wmDependencies ?w = piDesiredDependencies input"
    by (simp add: targetWatermark_def Let_def split: option.splits)
  have r: "piResidentID input \<noteq> 0"
    and desired: "\<forall>dep\<in>set (piDesiredDependencies input). depKind dep \<in> set (dfDependencies ?d)"
      "\<forall>kind\<in>set (dfDependencies ?d). kind_count (piDesiredDependencies input) kind = 1"
    using assms(1-3)
    by (cases rule: coordinator_plan_cases;
        auto simp: plan_ready_def validateDesiredDependencies_def split: sum.splits if_splits)+
  have mono: "wmAsOf stored \<le> wmAsOf ?w \<and> wmSourceCommitSeq stored \<le> wmSourceCommitSeq ?w"
    if "piStored input = Some stored" for stored
    using assms(1-3)
  proof (cases rule: coordinator_plan_cases)
    case (built stored' activated)
    then show ?thesis using that by (auto simp: stored_usable_def targetWatermark_def Let_def)
  qed (use that in simp)
  have checks: "checkE (\<lambda>dep. if depKind dep \<notin> set (dfDependencies ?d)
      then Inl (ProjectionError ''Projection watermark contains undeclared dependency'') else ok)
      (wmDependencies ?w) = ok"
    "checkE (\<lambda>kind. if kind_count (wmDependencies ?w) kind \<noteq> 1
      then Inl (ErrUnresolvedDependency (DependencyKind_string kind)) else ok) (dfDependencies ?d) = ok"
    using desired by (simp_all add: deps)
  have observed: "(case piStored input of None \<Rightarrow> ok
      | Some observed \<Rightarrow> if wmAsOf ?w < wmAsOf observed then Inl ErrAsOfRegression
          else if wmSourceCommitSeq ?w < wmSourceCommitSeq observed then Inl ErrSourceRegression else ok) = ok"
    using mono by (fastforce split: option.splits)
  have fields: "arDefinition (request_of input plan evaluation) = ?d"
    "arResidentID (request_of input plan evaluation) = piResidentID input"
    "arObserved (request_of input plan evaluation) = piStored input"
    "arWatermark (request_of input plan evaluation) = ?w"
    by (simp_all add: request_of_def)
  have resident: "ID_Validate (piResidentID input) = ok" and identity: "wmName ?w = dfName ?d"
    "wmResidentID ?w = piResidentID input" "wmVersion ?w = dfVersion ?d"
    using r at by (simp_all add: at_target_def)
  show ?thesis
    unfolding validateProjectionApply_def Let_def fields assms(6) valid observed checks resident identity
      executed_plan_checks [OF assms(1-5)]
    by simp
qed

section \<open>Updates without interference succeed\<close>

definition env_quiet :: "'v co_env \<Rightarrow> bool" where
  "env_quiet env \<longleftrightarrow> (\<forall>t. ceReadFault env t = None \<and> ceFaults env t = no_faults
     \<and> (\<forall>db. ceBefore env t db = db \<and> ceBetween env t db = db))"

lemma step_fault_no_faults [simp]: "step_fault no_faults s = ok"
  by (simp add: step_fault_def no_faults_def)

text \<open>The source answers every request of a projection, with a complete dependency set.\<close>

definition source_ready :: "'v co_env \<Rightarrow> Definition \<Rightarrow> bool" where
  "source_ready env d \<longleftrightarrow>
     (\<forall>t q. \<exists>deps. ceResolve env t q = Inr deps \<and> validateDesiredDependencies (ceIDString env) d deps = ok)
     \<and> (\<forall>t q. \<exists>b. ceActivated env t q = Inr b) \<and> (\<forall>t q. \<exists>v. ceEvaluate env t q = Inr v)"

text \<open>The definition is registered, its table exists, and the stored watermark is not ahead.\<close>

definition update_ready :: "'v co_env \<Rightarrow> Target \<Rightarrow> ID \<Rightarrow> Definition \<Rightarrow> 'v Coordinator \<Rightarrow> bool" where
  "update_ready env target residentID d c \<longleftrightarrow>
     Definition_Validate d = ok \<and> residentID \<noteq> 0 \<and> validateRegisteredDefinition (ceStoreRegistry env) d = ok
     \<and> dfName d \<in> set projectionTables
     \<and> Target_Validate (ceKnown env) target = ok \<and> Exists (tgHead target)
     \<and> (\<forall>row. dbWatermarks (coDB c) (dfName d, residentID) = Some row \<longrightarrow>
          wmAsOf row \<le> tgAsOf target \<and> wmSourceCommitSeq row \<le> HeadCommitSeq (tgHead target)
          \<and> validateStoredDependencyMetadata d (wmDependencies row) = ok)"

lemma activationDetected_total:
  "\<forall>q. \<exists>b. ceActivated env t q = Inr b \<Longrightarrow> \<exists>b. activationDetected env t input stored kinds = Inr b"
proof (induction kinds)
  case (Cons kind kinds)
  obtain b where "ceActivated env t \<lparr>aqDefinition = piDefinition input, aqKind = kind,
      aqResidentID = piResidentID input, aqAfter = wmSourceCommitSeq stored,
      aqThrough = HeadCommitSeq (tgHead (piTarget input))\<rparr> = Inr b"
    using Cons.prems by blast
  then show ?case using Cons by (cases b) auto
qed auto

lemma activationDetected_rule:
  "activationDetected env t input stored kinds = Inr True \<Longrightarrow> kinds \<noteq> []"
  by (cases kinds) simp_all

lemma metadata_mset:
  assumes "mset v = mset w"
  shows "validateStoredDependencyMetadata d v = validateStoredDependencyMetadata d w"
proof -
  have "length v = length w" using assms by (rule mset_eq_length)
  moreover have "length w = 1 \<Longrightarrow> v = w"
    using assms \<open>length v = length w\<close> by (auto simp: length_Suc_conv)
  ultimately show ?thesis by (auto simp: validateStoredDependencyMetadata_def)
qed

lemma plan_exists:
  assumes "inj (ceIDString env)" and "plan_ready (ceKnown env) (ceIDString env) input"
    and "\<not> piActivationDetected input" and "\<forall>t q. \<exists>b. ceActivated env t q = Inr b"
    and "\<And>stored. piStored input = Some stored \<Longrightarrow> stored_usable (ceKnown env) (ceIDString env) input stored"
  shows "\<exists>planned. coordinator_plan env t input = Inr planned"
proof (cases "piStored input")
  case None
  then have "PlanUpdate (ceKnown env) (ceIDString env) input
      = Inr (mkPlan FullBuild ReasonUnbuilt True (dfTimeSensitive (piDefinition input)))"
    using assms(1,2) by (simp add: PlanUpdate_eq)
  then show ?thesis by (simp add: coordinator_plan_def mkPlan_def)
next
  case (Some stored)
  have use: "stored_usable (ceKnown env) (ceIDString env) (input\<lparr>piActivationDetected := b\<rparr>) stored"
    "plan_ready (ceKnown env) (ceIDString env) (input\<lparr>piActivationDetected := b\<rparr>)" for b
    using assms(2) assms(5) [OF Some] by (simp_all add: stored_usable_def plan_ready_def)
  have first: "PlanUpdate (ceKnown env) (ceIDString env) input = Inr (plan_of input stored)"
    using assms(1-3) assms(5) [OF Some] Some by (simp add: PlanUpdate_eq activation_misuse_def)
  obtain b where b: "activationDetected env t input stored (dfRebuildOnActivation (piDefinition input)) = Inr b"
    using activationDetected_total [of env t] assms(4) by blast
  have "\<exists>p. PlanUpdate (ceKnown env) (ceIDString env) (input\<lparr>piActivationDetected := True\<rparr>) = Inr p" if b
    using assms(1) Some use [of True] activationDetected_rule [of env t input stored] b that
    by (auto simp: PlanUpdate_eq activation_misuse_def)
  then show ?thesis
    using first b Some by (auto simp: coordinator_plan_def)
qed

text \<open>Without a refresh or an exact target, a time-sensitive projection keeps the time it is stored at.\<close>

lemma adjustTarget_valid:
  assumes "Target_Validate known target = ok" and "Exists (tgHead target)"
    and "\<And>p. previous = Some p \<Longrightarrow> Timezone_Validate known (wmAsOfTZ p) = ok"
  shows "Target_Validate known (adjustTarget d previous refresh exact target) = ok"
  using assms by (auto simp: adjustTarget_def Target_Validate_def split: option.splits sum.splits)

lemma adjustTarget_asOf:
  "tgAsOf (adjustTarget d previous refresh exact target) =
     (if refresh \<or> exact \<or> \<not> dfTimeSensitive d then tgAsOf target else case previous of None \<Rightarrow> tgAsOf target | Some p \<Rightarrow> wmAsOf p)"
  by (simp add: adjustTarget_def split: option.split)

text \<open>
  The outcome of one pass that nothing disturbs: it returns without an error and the store holds
  a watermark at the adjusted target, unless the plan is the refused one.
\<close>

lemma quiet_attempt:
  assumes "inj (ceIDString env)" and "env_quiet env" and "co_ok env c0" and "source_ready env d"
    and "update_ready env target residentID d c0"
    and "updateAttempt env n target residentID d force refresh exact c0 = (c, r)"
  obtains previous input planned plan goal where
    "rel_option same_watermark previous (dbWatermarks (coDB c0) (dfName d, residentID))"
    and "piDefinition input = d" "piResidentID input = residentID" "piTarget input = goal"
      "piStored input = previous" "\<not> piActivationDetected input"
    and "goal = adjustTarget d previous refresh exact target"
    and "ceResolve env (coTick c0) \<lparr>dqDefinition = d, dqResidentID = residentID, dqTarget = goal,
          dqPrevious = previous\<rparr> = Inr (piDesiredDependencies input)"
    and "coordinator_plan env (coTick c0) input = Inr planned"
    and "plan = executedPlan d previous goal force exact planned"
    and "r = Inr (if ChangesState plan \<and> heal_update input exact plan
       then Inl (ProjectionError ''executed as-of evaluation did not advance as_of'') else ok)"
    and "ChangesState plan \<and> heal_update input exact plan \<Longrightarrow> coDB c = coDB c0"
    and "\<not> (ChangesState plan \<and> heal_update input exact plan) \<Longrightarrow>
      \<exists>w. dbWatermarks (coDB c) (dfName d, residentID) = Some w \<and> at_target input w"
proof -
  let ?t = "coTick c0" and ?db = "coDB c0" and ?k = "ceKnown env" and ?i = "ceIDString env"
  have quiet: "ceReadFault env ?t = None" "ceFaults env ?t = no_faults"
    "ceBefore env ?t ?db = ?db" "ceBetween env ?t ?db = ?db"
    using assms(2) by (auto simp: env_quiet_def)
  have db: "db_ok ?k ?i ?db" using assms(3) by (simp add: co_ok_def)
  obtain previous where read: "readProjectionWatermark ?k ?i ?db (dfName d) residentID = Inr previous"
    and prev: "rel_option same_watermark previous (dbWatermarks ?db (dfName d, residentID))"
    and valid: "\<And>w. previous = Some w \<Longrightarrow> Watermark_Validate ?k ?i w = ok
      \<and> wmName w = dfName d \<and> wmResidentID w = residentID"
    using read_ok [OF assms(1) db, of "dfName d" residentID] by force
  define goal where "goal = adjustTarget d previous refresh exact target"
  have row: "\<exists>row. dbWatermarks ?db (dfName d, residentID) = Some row \<and> same_watermark stored row
      \<and> wmAsOf stored \<le> tgAsOf goal" if st: "previous = Some stored" for stored
  proof -
    obtain row where row: "dbWatermarks ?db (dfName d, residentID) = Some row" "same_watermark stored row"
      using prev st by (auto simp: option_rel_Some1)
    then have "wmAsOf stored \<le> tgAsOf target"
      using assms(5) by (simp add: update_ready_def same_watermark_fields)
    then show ?thesis using row st by (simp add: goal_def adjustTarget_asOf)
  qed
  obtain deps where deps: "ceResolve env ?t \<lparr>dqDefinition = d, dqResidentID = residentID, dqTarget = goal,
      dqPrevious = previous\<rparr> = Inr deps" and desired: "validateDesiredDependencies ?i d deps = ok"
    using assms(4) unfolding source_ready_def by blast
  define input where "input = \<lparr>piDefinition = d, piResidentID = residentID, piTarget = goal,
    piStored = previous, piDesiredDependencies = deps, piActivationDetected = False\<rparr>"
  have "Target_Validate ?k goal = ok"
    unfolding goal_def
  proof (rule adjustTarget_valid)
    show "Target_Validate ?k target = ok" and "Exists (tgHead target)"
      using assms(5) by (simp_all add: update_ready_def)
    show "Timezone_Validate ?k (wmAsOfTZ p) = ok" if "previous = Some p" for p
      using valid [OF that] by (simp add: Watermark_Validate_ok [OF assms(1)])
  qed
  then have ready: "plan_ready ?k ?i input"
    using assms(5) desired by (auto simp: plan_ready_def input_def update_ready_def goal_def)
  have usable: "stored_usable ?k ?i input stored" if st: "piStored input = Some stored" for stored
  proof -
    obtain row where "dbWatermarks ?db (dfName d, residentID) = Some row" and same: "same_watermark stored row"
      and "wmAsOf stored \<le> tgAsOf goal"
      using row st by (auto simp: input_def)
    then have "wmAsOf row \<le> tgAsOf goal" "wmSourceCommitSeq row \<le> HeadCommitSeq (tgHead goal)"
      "validateStoredDependencyMetadata d (wmDependencies row) = ok"
      using assms(5) by (simp_all add: update_ready_def goal_def same_watermark_fields)
    moreover have "validateStoredDependencyMetadata d (wmDependencies stored)
        = validateStoredDependencyMetadata d (wmDependencies row)"
      using same by (intro metadata_mset) (simp add: same_watermark_fields)
    ultimately show ?thesis
      using valid [of stored] same st by (auto simp: stored_usable_def input_def same_watermark_fields)
  qed
  have "\<not> piActivationDetected input" by (simp add: input_def)
  moreover have "\<forall>t q. \<exists>b. ceActivated env t q = Inr b"
    using assms(4) unfolding source_ready_def by blast
  ultimately obtain planned where planned: "coordinator_plan env ?t input = Inr planned"
    using plan_exists [OF assms(1) ready _ _ usable] by blast
  define plan where "plan = executedPlan d previous goal force exact planned"
  have planI: "plan = executedPlan (piDefinition input) (piStored input) (piTarget input) force exact planned"
    by (simp add: plan_def input_def)
  obtain v where v: "ceEvaluate env ?t \<lparr>eqDefinition = d, eqResidentID = residentID, eqTarget = goal,
      eqPrevious = previous, eqDependencies = deps, eqPlan = plan\<rparr> = Inr v"
    using assms(4) unfolding source_ready_def by blast
  have w: "Watermark_Validate ?k ?i (targetWatermark input plan) = ok"
    using executed_watermark_valid [OF assms(1) planned _ planI] by (simp add: input_def)
  have req: "\<lparr>arDefinition = d, arResidentID = residentID, arObserved = previous, arPlan = plan,
      arEvaluation = v, arWatermark = targetWatermark input plan\<rparr> = request_of input plan v"
    by (simp add: request_of_def input_def)
  have ap: "Store_Apply ?k ?i (ceStoreRegistry env) no_faults (request_of input plan v) ?db =
      (if heal_update input exact plan
       then (?db, Inl (ProjectionError ''executed as-of evaluation did not advance as_of''))
       else (?db\<lparr>dbWatermarks := (dbWatermarks ?db)((dfName d, residentID) \<mapsto> targetWatermark input plan),
              dbBodies := (dbBodies ?db)((dfName d, residentID) \<mapsto> v)\<rparr>, ok))" if "ChangesState plan"
  proof -
    have reg: "validateRegisteredDefinition (ceStoreRegistry env) (piDefinition input) = ok"
      and table: "dfName d \<in> set projectionTables"
      using assms(5) by (simp_all add: update_ready_def input_def)
    have "wmName (targetWatermark input plan) = dfName d \<and> wmResidentID (targetWatermark input plan) = residentID"
      using executed_at_target [OF assms(1) planned _ planI] by (simp add: at_target_def input_def)
    moreover have "observes ?db (dfName d) residentID previous"
      using prev by (simp add: observes_def)
    moreover have "\<not> piActivationDetected input" by (simp add: input_def)
    ultimately show ?thesis
      using request_accepted [OF assms(1) planned _ planI that reg, of v] table
      by (simp add: Store_Apply_def transaction_no_faults applyBody_eq [OF assms(1) db] Let_def
          request_of_def input_def)
  qed
  have out: "r = Inr (if ChangesState plan \<and> heal_update input exact plan
       then Inl (ProjectionError ''executed as-of evaluation did not advance as_of'') else ok)
     \<and> (\<not> ChangesState plan \<or> heal_update input exact plan \<longrightarrow> coDB c = ?db)
     \<and> (ChangesState plan \<and> \<not> heal_update input exact plan \<longrightarrow>
          dbWatermarks (coDB c) (dfName d, residentID) = Some (targetWatermark input plan))"
    using assms(6) quiet read deps planned v w ap
    by (auto simp: updateAttempt_def Let_def Store_Watermark_def co_tick_def
        simp flip: goal_def input_def plan_def req split: if_splits)
  have left: "\<exists>w. dbWatermarks (coDB c) (dfName d, residentID) = Some w \<and> at_target input w"
    if "\<not> (ChangesState plan \<and> heal_update input exact plan)"
  proof (cases "ChangesState plan")
    case True
    then show ?thesis using out that executed_at_target [OF assms(1) planned _ planI] by (simp add: input_def)
  next
    case False
    then obtain stored where "previous = Some stored" and "at_target input stored"
      using executed_at_target [OF assms(1) planned _ planI] by (auto simp: input_def)
    then show ?thesis using row [of stored] False out by (auto simp: at_target_same)
  qed
  show thesis
    by (rule that [OF prev _ _ _ _ _ goal_def _ planned plan_def]) (use deps out left in \<open>simp_all add: input_def\<close>)
qed

end
