(* ===== verification/Projection_Coordinator.thy ===== *)
theory Projection_Coordinator
  imports Projection_Update
begin

text \<open>
  The coordinator around a single update: its construction with schedules and cohort, the groups
  a reconciliation works through, the bookkeeping of failures and retries, reconciliation and
  forced rebuilds (\<^verbatim>\<open>coordinator.go\<close>), the preflight (\<^verbatim>\<open>preflight.go\<close>) and the
  reconciliation before dialogue assembly (\<^verbatim>\<open>service_reconcile.go\<close>). An error joined from
  several (\<^verbatim>\<open>errors.Join\<close>) is the list of them, the empty list being \<^verbatim>\<open>nil\<close>.
\<close>

section \<open>Construction\<close>

record CoordinatorOptions =
  opRegistry :: Registry
  opTimezone :: Timezone
  opSchedule :: schedule
  opOverrides :: "(Name \<times> schedule) list"
  opNotificationCapacity :: int

fun definitionByName :: "Definition list \<Rightarrow> Name \<Rightarrow> Definition option" where
  "definitionByName [] name = None"
| "definitionByName (d # ds) name = (if dfName d = name then Some d else definitionByName ds name)"

definition positiveOr :: "int \<Rightarrow> int \<Rightarrow> int" where
  "positiveOr override base = (if override > 0 then override else base)"

definition effectiveSchedule ::
    "schedule \<Rightarrow> (Name \<times> schedule) list \<Rightarrow> Definition \<Rightarrow> (projection_error, schedule) result" where
  "effectiveSchedule base overrides d =
     (case map_of overrides (dfName d) of
        None \<Rightarrow> Inr base
      | Some o' \<Rightarrow>
          if scScanInterval o' < 0 \<or> scAsOfRefreshInterval o' < 0 \<or> scRebuildRetryInterval o' < 0
             \<or> scMaxStaleness o' < 0
          then Inl (ProjectionError ''negative schedule override'')
          else Inr \<lparr>scScanInterval = positiveOr (scScanInterval o') (scScanInterval base),
            scAsOfRefreshInterval = positiveOr (scAsOfRefreshInterval o') (scAsOfRefreshInterval base),
            scRebuildRetryInterval = positiveOr (scRebuildRetryInterval o') (scRebuildRetryInterval base),
            scMaxStaleness = positiveOr (scMaxStaleness o') (scMaxStaleness base)\<rparr>)"

definition zeroSchedule :: schedule where
  "zeroSchedule = \<lparr>scScanInterval = 0, scAsOfRefreshInterval = 0, scRebuildRetryInterval = 0, scMaxStaleness = 0\<rparr>"

definition buildSchedules ::
    "schedule \<Rightarrow> (Name \<times> schedule) list \<Rightarrow> Definition list \<Rightarrow> (projection_error, Name \<Rightarrow> schedule) result" where
  "buildSchedules base overrides ds =
     foldE (\<lambda>m d. case effectiveSchedule base overrides d of Inl e \<Rightarrow> Inl e
       | Inr s \<Rightarrow> Inr (m(dfName d := s))) (\<lambda>_. zeroSchedule) ds"

definition buildCohort :: "Definition list \<Rightarrow> (projection_error, Definition list) result" where
  "buildCohort ds =
     (case (definitionByName ds ClaimStatesName, definitionByName ds RuntimeStatesName) of
        (Some claimStates, Some runtimeStates) \<Rightarrow>
          if \<not> dfTimeSensitive claimStates \<or> \<not> dfTimeSensitive runtimeStates
          then Inl (ProjectionError ''claim_states/runtime_states scheduling cohort requires both definitions to be time-sensitive'')
          else Inr [claimStates, runtimeStates]
      | _ \<Rightarrow> Inr [])"

text \<open>\<^verbatim>\<open>NewCoordinator\<close>, for a registry, source, store and clock that are present.\<close>

definition NewCoordinator ::
    "(string \<Rightarrow> bool) \<Rightarrow> CoordinatorOptions \<Rightarrow> 'v projection_db \<Rightarrow> (projection_error, 'v Coordinator) result" where
  "NewCoordinator known options db =
     (let ds = Registry_Definitions (opRegistry options); base = opSchedule options
      in if ds = [] then Inl (ProjectionError ''a non-empty registry is required'')
         else case Timezone_Validate known (opTimezone options) of Inl e \<Rightarrow> Inl (ProjectionCanonical e)
         | Inr _ \<Rightarrow>
           if scScanInterval base \<le> 0 \<or> scAsOfRefreshInterval base \<le> 0 \<or> scRebuildRetryInterval base \<le> 0
              \<or> scMaxStaleness base \<le> 0
           then Inl (ProjectionError ''scheduling durations must be positive'')
           else if opNotificationCapacity options < 0
           then Inl (ProjectionError ''notification capacity must not be negative'')
           else case buildSchedules base (opOverrides options) ds of Inl e \<Rightarrow> Inl e
           | Inr schedules \<Rightarrow>
             (case checkE (\<lambda>o'. case Registry_Definition (opRegistry options) (fst o') of
                 Inl e \<Rightarrow> Inl e | Inr _ \<Rightarrow> ok) (opOverrides options) of Inl e \<Rightarrow> Inl e
             | Inr _ \<Rightarrow> (case buildCohort ds of Inl e \<Rightarrow> Inl e
             | Inr cohort \<Rightarrow>
                 Inr \<lparr>coRegistry = opRegistry options, coTimezone = opTimezone options, coSchedules = schedules,
                   coCohort = cohort, coFailures = Map.empty, coDB = db, coTick = 0\<rparr>)))"

section \<open>Groups and schedule units\<close>

definition isCohortMember :: "'v Coordinator \<Rightarrow> Name \<Rightarrow> bool" where
  "isCohortMember c name \<longleftrightarrow> length (coCohort c) = 2 \<and> (name = ClaimStatesName \<or> name = RuntimeStatesName)"

definition isCohortGroup :: "Definition list \<Rightarrow> bool" where
  "isCohortGroup ds \<longleftrightarrow> length ds = 2 \<and> dfName (ds ! 0) = ClaimStatesName \<and> dfName (ds ! 1) = RuntimeStatesName"

fun groupsFrom :: "'v Coordinator \<Rightarrow> bool \<Rightarrow> Definition list \<Rightarrow> Definition list list" where
  "groupsFrom c cohortAdded [] = []"
| "groupsFrom c cohortAdded (d # ds) =
     (if isCohortMember c (dfName d)
      then (if cohortAdded then groupsFrom c True ds else coCohort c # groupsFrom c True ds)
      else [d] # groupsFrom c cohortAdded ds)"

definition reconcileGroups ::
    "'v Coordinator \<Rightarrow> Name option \<Rightarrow> (projection_error, Definition list list) result" where
  "reconcileGroups c onlyDefinition =
     (case onlyDefinition of
        Some name \<Rightarrow>
          (case Registry_Definition (coRegistry c) name of Inl e \<Rightarrow> Inl e
           | Inr d \<Rightarrow> if isCohortMember c (dfName d) then Inr [coCohort c] else Inr [[d]])
      | None \<Rightarrow> Inr (groupsFrom c False (Registry_Definitions (coRegistry c))))"

definition minimumPositiveDuration :: "int \<Rightarrow> int \<Rightarrow> int" where
  "minimumPositiveDuration current candidate =
     (if candidate \<le> 0 then current
      else if current \<le> 0 \<or> candidate < current then candidate else current)"

record scheduleUnit =
  suDefinitions :: "Definition list"
  suScanInterval :: int
  suAsOfRefreshInterval :: int

definition unitOf :: "'v Coordinator \<Rightarrow> Definition list \<Rightarrow> scheduleUnit" where
  "unitOf c ds = \<lparr>suDefinitions = ds,
     suScanInterval = foldl minimumPositiveDuration 0 (map (\<lambda>d. scScanInterval (coSchedules c (dfName d))) ds),
     suAsOfRefreshInterval = foldl minimumPositiveDuration 0
       (map (\<lambda>d. scAsOfRefreshInterval (coSchedules c (dfName d))) ds)\<rparr>"

definition scheduleUnits :: "'v Coordinator \<Rightarrow> scheduleUnit list" where
  "scheduleUnits c =
     map (\<lambda>ds. if isCohortGroup ds then unitOf c ds
       else \<lparr>suDefinitions = ds,
         suScanInterval = scScanInterval (coSchedules c (dfName (hd ds))),
         suAsOfRefreshInterval = scAsOfRefreshInterval (coSchedules c (dfName (hd ds)))\<rparr>)
       (groupsFrom c False (Registry_Definitions (coRegistry c)))"

section \<open>Failures and retries\<close>

definition retryPending :: "'v co_env \<Rightarrow> 'v Coordinator \<Rightarrow> Name \<times> ID \<Rightarrow> bool" where
  "retryPending env c key =
     (case coFailures c key of None \<Rightarrow> False | Some f \<Rightarrow> ceNow env (coTick c) < flRetryAt f)"

definition recordFailure ::
    "'v co_env \<Rightarrow> Name \<times> ID \<Rightarrow> projection_error \<Rightarrow> bool \<Rightarrow> 'v Coordinator \<Rightarrow> 'v Coordinator" where
  "recordFailure env key e refreshAsOf c =
     co_tick (c\<lparr>coFailures := (coFailures c)(key \<mapsto>
       \<lparr>flErr = e, flRetryAt = ceNow env (coTick c) + scRebuildRetryInterval (coSchedules c (fst key)),
        flRefreshAsOf = refreshAsOf\<rparr>)\<rparr>)"

definition clearFailure :: "Name \<times> ID \<Rightarrow> 'v Coordinator \<Rightarrow> 'v Coordinator" where
  "clearFailure key c = c\<lparr>coFailures := (coFailures c)(key := None)\<rparr>"

definition retryIsCurrent :: "'v Coordinator \<Rightarrow> Name \<times> ID \<Rightarrow> int \<Rightarrow> bool \<Rightarrow> bool" where
  "retryIsCurrent c key retryAt refreshAsOf =
     (case coFailures c key of None \<Rightarrow> False
      | Some f \<Rightarrow> flRetryAt f = retryAt \<and> flRefreshAsOf f = refreshAsOf)"

definition groupRetryPending :: "'v co_env \<Rightarrow> 'v Coordinator \<Rightarrow> Definition list \<Rightarrow> ID \<Rightarrow> bool" where
  "groupRetryPending env c ds residentID \<longleftrightarrow> list_ex (\<lambda>d. retryPending env c (dfName d, residentID)) ds"

section \<open>Reconciliation\<close>

text \<open>The watermarks of a group that exist, each validated.\<close>

definition groupWatermarks ::
    "'v co_env \<Rightarrow> 'v Coordinator \<Rightarrow> ID \<Rightarrow> Definition list \<Rightarrow> (projection_error, Watermark list) result" where
  "groupWatermarks env c residentID ds =
     foldE (\<lambda>ws d. case Store_Watermark env (coTick c) (coDB c) (dfName d) residentID of Inl e \<Rightarrow> Inl e
       | Inr None \<Rightarrow> Inr ws
       | Inr (Some w) \<Rightarrow> (case Watermark_Validate (ceKnown env) (ceIDString env) w of Inl e \<Rightarrow> Inl e
           | Inr _ \<Rightarrow> Inr (ws @ [w]))) [] ds"

definition preservedCohortTarget ::
    "'v co_env \<Rightarrow> 'v Coordinator \<Rightarrow> Target \<Rightarrow> ID \<Rightarrow> Definition list \<Rightarrow> (projection_error, Target) result" where
  "preservedCohortTarget env c captured residentID ds =
     (case groupWatermarks env c residentID ds of Inl e \<Rightarrow> Inl e
      | Inr ws \<Rightarrow>
          (case ws of
             [] \<Rightarrow> Inr captured
           | [w] \<Rightarrow> Inr (captured\<lparr>tgAsOf := wmAsOf w, tgAsOfTZ := wmAsOfTZ w\<rparr>)
           | v # w # _ \<Rightarrow>
               if wmAsOf v = wmAsOf w \<and> wmAsOfTZ v = wmAsOfTZ w
               then Inr (captured\<lparr>tgAsOf := wmAsOf v, tgAsOfTZ := wmAsOfTZ v\<rparr>)
               else Inr (captured\<lparr>
                 tgAsOf := foldl (\<lambda>a w. if wmAsOf w > a then wmAsOf w else a) (tgAsOf captured) ws,
                 tgAsOfTZ := coTimezone c\<rparr>)))"

definition reconcileDefinition ::
    "'v co_env \<Rightarrow> Target \<Rightarrow> ID \<Rightarrow> bool \<Rightarrow> bool \<Rightarrow> bool \<Rightarrow> 'v Coordinator \<times> projection_error list
      \<Rightarrow> Definition \<Rightarrow> 'v Coordinator \<times> projection_error list" where
  "reconcileDefinition env target residentID force refreshAsOf exactAsOf s d =
     (let key = (dfName d, residentID)
      in case updateWithTarget env target residentID d force refreshAsOf exactAsOf (fst s) of
           (c, Inl e) \<Rightarrow> (recordFailure env key e refreshAsOf c, snd s @ [e])
         | (c, Inr _) \<Rightarrow> (clearFailure key c, snd s))"

definition reconcileGroup ::
    "'v co_env \<Rightarrow> Target \<Rightarrow> ID \<Rightarrow> bool \<Rightarrow> bool \<Rightarrow> bool \<Rightarrow> 'v Coordinator \<times> projection_error list
      \<Rightarrow> Definition list \<Rightarrow> 'v Coordinator \<times> projection_error list" where
  "reconcileGroup env target residentID onlyTimeSensitive automatic refreshAsOf s members =
     (if onlyTimeSensitive \<and> \<not> dfTimeSensitive (hd members) then s
      else if automatic \<and> groupRetryPending env (fst s) members residentID then s
      else if isCohortGroup members \<and> \<not> refreshAsOf then
        (case preservedCohortTarget env (fst s) target residentID members of
           Inl e \<Rightarrow> (fold (\<lambda>d. recordFailure env (dfName d, residentID) e refreshAsOf) members (co_tick (fst s)),
                     snd s @ [e])
         | Inr groupTarget \<Rightarrow>
             foldl (reconcileDefinition env groupTarget residentID False refreshAsOf True)
               (co_tick (fst s), snd s) members)
      else foldl (reconcileDefinition env target residentID False refreshAsOf False) s members)"

definition reconcileResident ::
    "'v co_env \<Rightarrow> Definition list list \<Rightarrow> bool \<Rightarrow> bool \<Rightarrow> bool \<Rightarrow> 'v Coordinator \<times> projection_error list
      \<Rightarrow> ID \<Rightarrow> 'v Coordinator \<times> projection_error list" where
  "reconcileResident env groups onlyTimeSensitive automatic refreshAsOf s residentID =
     (case captureTarget env (fst s) of
        (c, Inl e) \<Rightarrow> (c, snd s @ [e])
      | (c, Inr target) \<Rightarrow>
          foldl (reconcileGroup env target residentID onlyTimeSensitive automatic refreshAsOf) (c, snd s) groups)"

definition residentBefore :: "'v co_env \<Rightarrow> ID \<Rightarrow> ID \<Rightarrow> bool" where
  "residentBefore env a b \<longleftrightarrow> ceIDString env a < ceIDString env b"

definition resolveResidents ::
    "'v co_env \<Rightarrow> nat \<Rightarrow> Target \<Rightarrow> ID option \<Rightarrow> (projection_error, ID list) result" where
  "resolveResidents env t target only =
     (case only of
        Some r \<Rightarrow> (case ID_Validate r of Inl e \<Rightarrow> Inl (ProjectionCanonical e) | Inr _ \<Rightarrow> Inr [r])
      | None \<Rightarrow>
          (case ceResidents env t target of Inl e \<Rightarrow> Inl e
           | Inr residents \<Rightarrow>
               (case foldE (\<lambda>seen r. case ID_Validate r of Inl e \<Rightarrow> Inl (ProjectionCanonical e)
                   | Inr _ \<Rightarrow> if r \<in> set seen then Inl (ProjectionError ''source returned duplicate resident'')
                       else Inr (seen @ [r])) [] residents of Inl e \<Rightarrow> Inl e
                | Inr _ \<Rightarrow> Inr (slice_stable (residentBefore env) residents))))"

definition resolveResidentsForReconcile ::
    "'v co_env \<Rightarrow> ID option \<Rightarrow> 'v Coordinator \<Rightarrow> 'v Coordinator \<times> (projection_error, ID list) result" where
  "resolveResidentsForReconcile env only c =
     (case only of
        Some r \<Rightarrow> (c, resolveResidents env (coTick c)
          \<lparr>tgHead = \<lparr>Exists = False, HeadCommitSeq = 0, HeadCommittedAt = 0\<rparr>, tgAsOf = 0, tgAsOfTZ = ''''\<rparr> only)
      | None \<Rightarrow> (case captureTarget env c of (c, Inl e) \<Rightarrow> (c, Inl e)
          | (c, Inr target) \<Rightarrow> (c, resolveResidents env (coTick c) target None)))"

definition reconcile ::
    "'v co_env \<Rightarrow> ID option \<Rightarrow> bool \<Rightarrow> bool \<Rightarrow> Name option \<Rightarrow> bool \<Rightarrow> 'v Coordinator
      \<Rightarrow> 'v Coordinator \<times> projection_error list" where
  "reconcile env onlyResident onlyTimeSensitive automatic onlyDefinition refreshAsOf c =
     (case resolveResidentsForReconcile env onlyResident c of
        (c, Inl e) \<Rightarrow> (c, [e])
      | (c, Inr residents) \<Rightarrow>
          (case reconcileGroups c onlyDefinition of
             Inl e \<Rightarrow> (c, [e])
           | Inr groups \<Rightarrow>
               foldl (reconcileResident env groups onlyTimeSensitive automatic refreshAsOf) (c, []) residents))"

section \<open>Forced rebuilds\<close>

definition rebuildDefinitions ::
    "'v co_env \<Rightarrow> ID \<Rightarrow> Definition list \<Rightarrow> 'v Coordinator \<Rightarrow> 'v Coordinator \<times> projection_error list" where
  "rebuildDefinitions env residentID ds c =
     (case captureTarget env c of (c, Inl e) \<Rightarrow> (c, [e])
      | (c, Inr target) \<Rightarrow> foldl (reconcileDefinition env target residentID True True False) (c, []) ds)"

definition Rebuild ::
    "'v co_env \<Rightarrow> ID \<Rightarrow> Name \<Rightarrow> 'v Coordinator \<Rightarrow> 'v Coordinator \<times> projection_error list" where
  "Rebuild env residentID name c =
     (case Registry_Definition (coRegistry c) name of Inl e \<Rightarrow> (c, [e])
      | Inr d \<Rightarrow> (case ID_Validate residentID of Inl e \<Rightarrow> (c, [ProjectionCanonical e])
      | Inr _ \<Rightarrow> rebuildDefinitions env residentID (if isCohortMember c name then coCohort c else [d]) c))"

definition RebuildAll ::
    "'v co_env \<Rightarrow> ID \<Rightarrow> 'v Coordinator \<Rightarrow> 'v Coordinator \<times> projection_error list" where
  "RebuildAll env residentID c =
     (case ID_Validate residentID of Inl e \<Rightarrow> (c, [ProjectionCanonical e])
      | Inr _ \<Rightarrow> rebuildDefinitions env residentID (Registry_Definitions (coRegistry c)) c)"

section \<open>Service reconciliation\<close>

definition ReconcileServiceRequiredResident ::
    "'v co_env \<Rightarrow> ID \<Rightarrow> 'v Coordinator \<Rightarrow> 'v Coordinator \<times> Target option \<times> projection_error list" where
  "ReconcileServiceRequiredResident env residentID c =
     (case ID_Validate residentID of Inl e \<Rightarrow> (c, None, [ProjectionCanonical e])
      | Inr _ \<Rightarrow> (case mapE (Registry_Definition (coRegistry c)) ServiceRequiredNames of Inl e \<Rightarrow> (c, None, [e])
      | Inr definitions \<Rightarrow>
          (case captureTarget env c of (c, Inl e) \<Rightarrow> (c, None, [e])
           | (c, Inr captured) \<Rightarrow>
               (let target = (if Exists (tgHead captured) \<and> tgAsOf captured < HeadCommittedAt (tgHead captured)
                      then captured\<lparr>tgAsOf := HeadCommittedAt (tgHead captured)\<rparr> else captured);
                    (c, errs) = foldl (reconcileDefinition env target residentID False True False) (c, []) definitions
                in (c, Some target, errs)))))"

section \<open>Preflight\<close>

definition preflightDefinitions ::
    "'v Coordinator \<Rightarrow> Name list \<Rightarrow> (projection_error, Definition list \<times> Name list) result" where
  "preflightDefinitions c names =
     (if length names = 0 then Inl (ProjectionError ''startup preflight requires at least one Projection'')
      else let normalized = sort names
        in if \<not> distinct_adj normalized then Inl (ProjectionError ''duplicate startup Projection'')
           else case mapE (Registry_Definition (coRegistry c)) normalized of Inl e \<Rightarrow> Inl e
             | Inr definitions \<Rightarrow> Inr (definitions, normalized))"

definition requireCurrentAtTarget ::
    "'v co_env \<Rightarrow> Target \<Rightarrow> ID \<Rightarrow> Definition \<Rightarrow> 'v Coordinator \<Rightarrow> (projection_error, unit) result" where
  "requireCurrentAtTarget env target residentID d c =
     (let t = coTick c
      in case Store_Watermark env t (coDB c) (dfName d) residentID of
        Inl e \<Rightarrow> Inl (ErrProjectionNotCurrent ''read watermark'')
      | Inr None \<Rightarrow> Inl (ErrProjectionNotCurrent ''watermark is missing'')
      | Inr (Some stored) \<Rightarrow>
          if wmName stored \<noteq> dfName d \<or> wmResidentID stored \<noteq> residentID \<or> wmVersion stored \<noteq> dfVersion d \<or>
             wmSourceCommitSeq stored \<noteq> HeadCommitSeq (tgHead target)
          then Inl (ErrProjectionNotCurrent ''watermark identity, version, or head differs'')
          else if dfTimeSensitive d \<and> (wmAsOf stored \<noteq> tgAsOf target \<or> wmAsOfTZ stored \<noteq> tgAsOfTZ target)
          then Inl (ErrProjectionNotCurrent ''as_of differs from preflight target'')
          else case ceResolve env t \<lparr>dqDefinition = d, dqResidentID = residentID, dqTarget = target,
                 dqPrevious = Some stored\<rparr> of Inl e \<Rightarrow> Inl (ErrProjectionNotCurrent ''resolve dependencies'')
          | Inr dependencies \<Rightarrow>
            (case DependencySetEqual (ceIDString env) (wmDependencies stored) dependencies of
               Inl e \<Rightarrow> Inl (ErrProjectionNotCurrent ''dependency set differs'')
             | Inr equal \<Rightarrow>
                 if \<not> equal then Inl (ErrProjectionNotCurrent ''dependency set differs'')
                 else case coordinator_plan env t \<lparr>piDefinition = d, piResidentID = residentID, piTarget = target,
                     piStored = Some stored, piDesiredDependencies = dependencies, piActivationDetected = False\<rparr> of
                   Inl e \<Rightarrow> Inl (ErrProjectionNotCurrent ''plan'')
                 | Inr plan \<Rightarrow> if plKind plan \<noteq> UpToDate then Inl (ErrProjectionNotCurrent ''remains behind'') else ok))"

fun preflightAtTarget ::
    "'v co_env \<Rightarrow> Target \<Rightarrow> ID \<Rightarrow> Definition list \<Rightarrow> 'v Coordinator \<Rightarrow> 'v Coordinator \<times> (projection_error, unit) result" where
  "preflightAtTarget env target residentID [] c = (c, ok)"
| "preflightAtTarget env target residentID (d # ds) c =
     (case update_projection env target residentID d False True c of
        (c, Inl e) \<Rightarrow> (recordFailure env (dfName d, residentID) e True c, Inl e)
      | (c, Inr _) \<Rightarrow>
          (let c = clearFailure (dfName d, residentID) c
           in case requireCurrentAtTarget env target residentID d c of Inl e \<Rightarrow> (co_tick c, Inl e)
              | Inr _ \<Rightarrow> preflightAtTarget env target residentID ds (co_tick c)))"

definition RequireCanonicalHead ::
    "'v co_env \<Rightarrow> Head \<Rightarrow> 'v Coordinator \<Rightarrow> 'v Coordinator \<times> (projection_error, unit) result" where
  "RequireCanonicalHead env expected c =
     (case Head_Validate expected of Inl e \<Rightarrow> (c, Inl (ProjectionCanonical e))
      | Inr _ \<Rightarrow> (case ceHead env (coTick c) of Inl e \<Rightarrow> (co_tick c, Inl e)
      | Inr actual \<Rightarrow> (co_tick c, if actual \<noteq> expected then Inl ErrPreflightHeadChanged else ok)))"

record PreflightResult =
  prResidentID :: ID
  prTarget :: Target
  prNames :: "Name list"

definition PreflightResident ::
    "'v co_env \<Rightarrow> ID \<Rightarrow> Name list \<Rightarrow> 'v Coordinator \<Rightarrow> 'v Coordinator \<times> (projection_error, PreflightResult) result" where
  "PreflightResident env residentID names c =
     (case ID_Validate residentID of Inl e \<Rightarrow> (c, Inl (ProjectionCanonical e))
      | Inr _ \<Rightarrow> (case preflightDefinitions c names of Inl e \<Rightarrow> (c, Inl e)
      | Inr (definitions, normalized) \<Rightarrow> (case captureTarget env c of (c, Inl e) \<Rightarrow> (c, Inl e)
      | (c, Inr target) \<Rightarrow>
          if \<not> Exists (tgHead target)
          then (c, Inl (ProjectionError ''service preflight requires a non-empty Canonical head''))
          else (case preflightAtTarget env target residentID definitions c of (c, Inl e) \<Rightarrow> (c, Inl e)
            | (c, Inr _) \<Rightarrow> (case RequireCanonicalHead env (tgHead target) c of (c, Inl e) \<Rightarrow> (c, Inl e)
            | (c, Inr _) \<Rightarrow> (c, Inr \<lparr>prResidentID = residentID, prTarget = target, prNames = normalized\<rparr>))))))"

definition PreflightServiceResident ::
    "'v co_env \<Rightarrow> ID \<Rightarrow> 'v Coordinator \<Rightarrow> 'v Coordinator \<times> (projection_error, PreflightResult) result" where
  "PreflightServiceResident env residentID c = PreflightResident env residentID ServiceRequiredNames c"

fun preflightResidents ::
    "'v co_env \<Rightarrow> Target \<Rightarrow> Name list \<Rightarrow> Definition list \<Rightarrow> ID list \<Rightarrow> 'v Coordinator
      \<Rightarrow> 'v Coordinator \<times> (projection_error, PreflightResult list) result" where
  "preflightResidents env target names definitions [] c = (c, Inr [])"
| "preflightResidents env target names definitions (r # rs) c =
     (case preflightAtTarget env target r definitions c of (c, Inl e) \<Rightarrow> (c, Inl e)
      | (c, Inr _) \<Rightarrow> (case preflightResidents env target names definitions rs c of (c, Inl e) \<Rightarrow> (c, Inl e)
          | (c, Inr results) \<Rightarrow> (c, Inr (\<lparr>prResidentID = r, prTarget = target, prNames = names\<rparr> # results))))"

definition PreflightAllResidents ::
    "'v co_env \<Rightarrow> Name list \<Rightarrow> 'v Coordinator \<Rightarrow> 'v Coordinator \<times> (projection_error, PreflightResult list) result" where
  "PreflightAllResidents env names c =
     (case preflightDefinitions c names of Inl e \<Rightarrow> (c, Inl e)
      | Inr (definitions, normalized) \<Rightarrow> (case captureTarget env c of (c, Inl e) \<Rightarrow> (c, Inl e)
      | (c, Inr target) \<Rightarrow>
          if \<not> Exists (tgHead target) then (c, Inr [])
          else (case ceResidents env (coTick c) target of Inl e \<Rightarrow> (co_tick c, Inl e)
            | Inr found \<Rightarrow>
              (let residents = sort found; c = co_tick c
               in case checkE (\<lambda>r. case ID_Validate r of Inl e \<Rightarrow> Inl (ProjectionCanonical e) | Inr _ \<Rightarrow> ok) residents of
                    Inl e \<Rightarrow> (c, Inl e)
                  | Inr _ \<Rightarrow>
                    if \<not> distinct_adj residents then (c, Inl (ProjectionError ''duplicate enumerated resident''))
                    else (case preflightResidents env target normalized definitions residents c of
                        (c, Inl e) \<Rightarrow> (c, Inl e)
                      | (c, Inr results) \<Rightarrow>
                          (case RequireCanonicalHead env (tgHead target) c of (c, Inl e) \<Rightarrow> (c, Inl e)
                           | (c, Inr _) \<Rightarrow> (c, Inr results)))))))"

definition RequireSameTargetCohort ::
    "'v co_env \<Rightarrow> ID \<Rightarrow> Head \<Rightarrow> 'v Coordinator \<Rightarrow> (projection_error, unit) result" where
  "RequireSameTargetCohort env residentID expectedHead c =
     (case ID_Validate residentID of Inl e \<Rightarrow> Inl (ProjectionCanonical e)
      | Inr _ \<Rightarrow> (case Head_Validate expectedHead of Inl e \<Rightarrow> Inl (ProjectionCanonical e)
      | Inr _ \<Rightarrow>
        if \<not> Exists expectedHead then Inl (ErrProjectionNotCurrent ''same-Target cohort requires a non-empty Canonical head'')
        else if \<not> isCohortGroup (coCohort c) then Inl (ErrProjectionNotCurrent ''same-Target cohort is not registered'')
        else case mapE (\<lambda>d. case Store_Watermark env (coTick c) (coDB c) (dfName d) residentID of
              Inl e \<Rightarrow> Inl (ErrProjectionNotCurrent ''read watermark'')
            | Inr None \<Rightarrow> Inl (ErrProjectionNotCurrent ''watermark is missing'')
            | Inr (Some w) \<Rightarrow> (case Watermark_Validate (ceKnown env) (ceIDString env) w of
                Inl e \<Rightarrow> Inl (ErrProjectionNotCurrent ''invalid watermark'') | Inr _ \<Rightarrow> Inr w)) (coCohort c) of
          Inl e \<Rightarrow> Inl e
        | Inr watermarks \<Rightarrow>
            (let claim = watermarks ! 0; runtime = watermarks ! 1;
                 target = \<lparr>tgHead = expectedHead, tgAsOf = wmAsOf claim, tgAsOfTZ = wmAsOfTZ claim\<rparr>
             in if wmSourceCommitSeq claim \<noteq> HeadCommitSeq expectedHead \<or>
                   wmSourceCommitSeq runtime \<noteq> HeadCommitSeq expectedHead \<or>
                   wmAsOf claim \<noteq> wmAsOf runtime \<or> wmAsOfTZ claim \<noteq> wmAsOfTZ runtime
                then Inl (ErrProjectionNotCurrent ''watermarks do not share the expected Target'')
                else case Target_Validate (ceKnown env) target of
                  Inl e \<Rightarrow> Inl (ErrProjectionNotCurrent ''invalid same-Target cohort'')
                | Inr _ \<Rightarrow> checkE (\<lambda>d. requireCurrentAtTarget env target residentID d c) (coCohort c))))"

section \<open>Every operation keeps the store and its cursors\<close>

definition co_step :: "'v co_env \<Rightarrow> 'v Coordinator \<Rightarrow> 'v Coordinator \<Rightarrow> bool" where
  "co_step env c c' \<longleftrightarrow> co_ok env c' \<and> (env_advances env \<longrightarrow> db_le (coDB c) (coDB c'))"

lemma co_step_refl [simp]: "co_ok env c \<Longrightarrow> co_step env c c"
  by (simp add: co_step_def)

lemma co_step_trans: "co_step env a b \<Longrightarrow> co_step env b c \<Longrightarrow> co_step env a c"
  by (auto simp: co_step_def intro: db_le_trans)

lemma co_step_same_db: "co_ok env c \<Longrightarrow> coDB c' = coDB c \<Longrightarrow> co_step env c c'"
  by (simp add: co_step_def co_ok_def)

lemma coDB_bookkeeping [simp]:
  "coDB (co_tick c) = coDB c" "coDB (recordFailure env key e refresh c) = coDB c"
  "coDB (clearFailure key c) = coDB c"
  by (simp_all add: co_tick_def recordFailure_def clearFailure_def)

lemma coDB_fold_record [simp]: "coDB (fold (\<lambda>d. recordFailure env (f d) e refresh) ds c) = coDB c"
  by (induction ds arbitrary: c) simp_all

lemma captureTarget_db [simp]: "coDB (fst (captureTarget env c)) = coDB c"
  by (simp add: captureTarget_def Let_def split: sum.splits)

lemma captureTarget_keeps_db: "captureTarget env c = (c', r) \<Longrightarrow> coDB c' = coDB c"
  using captureTarget_db [of env c] by simp

lemma updateWithTarget_step:
  "env_ok env \<Longrightarrow> co_ok env c \<Longrightarrow> co_step env c (fst (updateWithTarget env target r d force refresh exact c))"
  unfolding co_step_def using updateWithTarget_keeps by (metis prod.collapse)

lemma reconcileDefinition_step:
  assumes "env_ok env" and "co_ok env (fst s)"
  shows "co_step env (fst s) (fst (reconcileDefinition env target r force refresh exact s d))"
  using updateWithTarget_step [OF assms, of target r d force refresh exact]
  by (auto simp: reconcileDefinition_def co_step_def co_ok_def Let_def split: prod.splits sum.splits)

lemma foldl_co_step:
  assumes "\<And>s x. co_ok env (fst s) \<Longrightarrow> co_step env (fst s) (fst (f s x))" and "co_ok env (fst s)"
  shows "co_step env (fst s) (fst (foldl f s xs))"
  using assms(2)
proof (induction xs arbitrary: s)
  case (Cons x xs)
  have "co_step env (fst s) (fst (f s x))" using assms(1) Cons.prems by blast
  moreover from this have "co_step env (fst (f s x)) (fst (foldl f (f s x) xs))"
    by (intro Cons.IH) (simp add: co_step_def)
  ultimately show ?case by (auto intro: co_step_trans)
qed simp

lemma reconcileGroup_step:
  assumes "env_ok env" and "co_ok env (fst s)"
  shows "co_step env (fst s) (fst (reconcileGroup env target r ts automatic refresh s ds))"
proof -
  have fold: "co_step env (fst s') (fst (foldl (reconcileDefinition env tg r False refresh ex) s' ds))"
    if "co_ok env (fst s')" for tg ex s'
    using that by (intro foldl_co_step reconcileDefinition_step assms(1))
  have "co_step env (fst s) (fst (foldl (reconcileDefinition env tg r False refresh True)
      (co_tick (fst s), snd s) ds))" for tg
    using fold [of "(co_tick (fst s), snd s)" tg True] assms(2)
    by (auto simp: co_step_def co_ok_def)
  then show ?thesis
    using fold assms(2)
    by (auto simp: reconcileGroup_def co_step_same_db split: sum.splits)
qed

lemma reconcileResident_step:
  assumes "env_ok env" and "co_ok env (fst s)"
  shows "co_step env (fst s) (fst (reconcileResident env gs ts automatic refresh s r))"
proof -
  obtain c res where cap: "captureTarget env (fst s) = (c, res)" by fastforce
  then have db: "coDB c = coDB (fst s)" using captureTarget_db [of env "fst s"] by simp
  then have "co_ok env c" using assms(2) by (simp add: co_ok_def)
  then have "co_step env c (fst (foldl (reconcileGroup env tg r ts automatic refresh) (c, snd s) gs))" for tg
    using foldl_co_step [where s = "(c, snd s)" and xs = gs and f = "reconcileGroup env tg r ts automatic refresh"]
      reconcileGroup_step [OF assms(1)] by force
  then show ?thesis
    using cap db assms(2)
    by (auto simp: reconcileResident_def co_step_def co_ok_def split: sum.splits)
qed

lemma reconcile_step:
  assumes "env_ok env" and "co_ok env c"
  shows "co_step env c (fst (reconcile env only ts automatic name refresh c))"
proof -
  obtain c1 res where rr: "resolveResidentsForReconcile env only c = (c1, res)" by fastforce
  have "coDB (fst (resolveResidentsForReconcile env only c)) = coDB c"
    by (auto simp: resolveResidentsForReconcile_def split: option.splits prod.splits sum.splits
        dest: captureTarget_keeps_db)
  with rr have db: "coDB c1 = coDB c" by simp
  then have "co_ok env c1" using assms(2) by (simp add: co_ok_def)
  then have "co_step env c1 (fst (foldl (reconcileResident env gs ts automatic refresh) (c1, []) rs))" for gs rs
    using foldl_co_step [where s = "(c1, [])" and xs = rs and f = "reconcileResident env gs ts automatic refresh"]
      reconcileResident_step [OF assms(1)] by force
  then show ?thesis
    using rr db assms(2) by (auto simp: reconcile_def co_step_def co_ok_def split: sum.splits)
qed

lemma rebuildDefinitions_step:
  assumes "env_ok env" and "co_ok env c"
  shows "co_step env c (fst (rebuildDefinitions env r ds c))"
proof -
  obtain c1 res where cap: "captureTarget env c = (c1, res)" by fastforce
  then have db: "coDB c1 = coDB c" using captureTarget_db [of env c] by simp
  then have "co_ok env c1" using assms(2) by (simp add: co_ok_def)
  then have "co_step env c1 (fst (foldl (reconcileDefinition env tg r True True False) (c1, []) ds))" for tg
    using foldl_co_step [where s = "(c1, [])" and xs = ds and f = "reconcileDefinition env tg r True True False"]
      reconcileDefinition_step [OF assms(1)] by force
  then show ?thesis
    using cap db assms(2) by (auto simp: rebuildDefinitions_def co_step_def co_ok_def split: sum.splits)
qed

section \<open>The groups of a reconciliation\<close>

lemma groupsFrom_plain:
  "\<forall>d\<in>set ds. \<not> isCohortMember c (dfName d) \<Longrightarrow> groupsFrom c added ds = map (\<lambda>d. [d]) ds"
  by (induction ds arbitrary: added) simp_all

lemma groupsFrom_mset:
  "mset (concat (groupsFrom c added ds)) =
     filter_mset (\<lambda>d. \<not> isCohortMember c (dfName d)) (mset ds)
     + (if \<not> added \<and> (\<exists>d\<in>set ds. isCohortMember c (dfName d)) then mset (coCohort c) else {#})"
  by (induction ds arbitrary: added) auto

lemma definitionByName_iff:
  "distinct (map dfName ds) \<Longrightarrow> definitionByName ds name = Some d \<longleftrightarrow> d \<in> set ds \<and> dfName d = name"
  by (induction ds) force+

text \<open>The definitions of a well-formed registry, in the order of their names.\<close>

lemma Registry_Definitions_ok:
  assumes "registry_ok r"
  shows "map dfName (Registry_Definitions r) = rgNames r"
    and "d \<in> set (Registry_Definitions r) \<longleftrightarrow> rgDefinitions r (dfName d) = Some d"
    and "\<forall>d\<in>set (Registry_Definitions r). Definition_Validate d = ok"
proof -
  have ok: "\<exists>d. rgDefinitions r name = Some d \<and> dfName d = name \<and> Definition_Validate d = Inr ()"
    if "name \<in> set (rgNames r)" for name
    using that assms by (auto simp: registry_ok_def)
  have nth: "(case Registry_Definition r name of Inl _ \<Rightarrow> zeroDefinition | Inr d \<Rightarrow> d) = the (rgDefinitions r name)"
    if "name \<in> set (rgNames r)" for name
    using ok [OF that] by (auto simp: Registry_Definition_def)
  have eq: "Registry_Definitions r = map (\<lambda>name. the (rgDefinitions r name)) (rgNames r)"
    by (simp add: Registry_Definitions_def nth)
  show "map dfName (Registry_Definitions r) = rgNames r"
  proof -
    have "dfName (the (rgDefinitions r name)) = name" if "name \<in> set (rgNames r)" for name
      using ok [OF that] by auto
    then show ?thesis unfolding eq map_map o_def by (rule map_idI)
  qed
  show "d \<in> set (Registry_Definitions r) \<longleftrightarrow> rgDefinitions r (dfName d) = Some d"
  proof
    assume "d \<in> set (Registry_Definitions r)"
    then obtain name where "name \<in> set (rgNames r)" "d = the (rgDefinitions r name)" unfolding eq by auto
    then show "rgDefinitions r (dfName d) = Some d" using ok [of name] by auto
  next
    assume "rgDefinitions r (dfName d) = Some d"
    moreover from this have "dfName d \<in> set (rgNames r)"
      using assms unfolding registry_ok_def by blast
    ultimately show "d \<in> set (Registry_Definitions r)" unfolding eq by force
  qed
  show "\<forall>d\<in>set (Registry_Definitions r). Definition_Validate d = ok"
  proof
    fix d
    assume "d \<in> set (Registry_Definitions r)"
    then obtain name where "name \<in> set (rgNames r)" "d = the (rgDefinitions r name)" unfolding eq by auto
    then show "Definition_Validate d = ok" using ok [of name] by auto
  qed
qed

text \<open>
  The cohort of a coordinator that \<^verbatim>\<open>NewCoordinator\<close> built from its registry.
\<close>

definition coordinator_built :: "'v Coordinator \<Rightarrow> bool" where
  "coordinator_built c \<longleftrightarrow> registry_ok (coRegistry c)
     \<and> buildCohort (Registry_Definitions (coRegistry c)) = Inr (coCohort c)"

lemma NewCoordinator_built:
  assumes "registry_ok (opRegistry options)" and "NewCoordinator known options db = Inr c"
  shows "coordinator_built c \<and> coDB c = db \<and> coFailures c = Map.empty"
  using assms
  by (auto simp: NewCoordinator_def coordinator_built_def Let_def split: if_splits sum.splits)

lemma registry_distinct: "registry_ok r \<Longrightarrow> distinct (map dfName (Registry_Definitions r))"
  by (simp add: Registry_Definitions_ok(1)) (simp add: registry_ok_def strict_sorted_iff)

lemma cohort_members:
  assumes "coordinator_built c" and "coCohort c \<noteq> []"
  shows "\<exists>claim runtime. coCohort c = [claim, runtime] \<and> dfName claim = ClaimStatesName
    \<and> dfName runtime = RuntimeStatesName \<and> dfTimeSensitive claim \<and> dfTimeSensitive runtime
    \<and> {claim, runtime} \<subseteq> set (Registry_Definitions (coRegistry c))"
proof -
  have "distinct (map dfName (Registry_Definitions (coRegistry c)))"
    using assms(1) by (simp add: coordinator_built_def registry_distinct)
  then show ?thesis
    using assms
    by (auto simp: coordinator_built_def buildCohort_def definitionByName_iff
        split: option.splits if_splits dest!: sym [of "[_, _]"])
qed

lemma groups_cover:
  assumes "coordinator_built c"
  shows "mset (concat (groupsFrom c False (Registry_Definitions (coRegistry c))))
    = mset (Registry_Definitions (coRegistry c))"
proof (cases "coCohort c = []")
  case True
  then show ?thesis by (simp add: groupsFrom_mset isCohortMember_def)
next
  case False
  let ?ds = "Registry_Definitions (coRegistry c)" and ?m = "\<lambda>d. isCohortMember c (dfName d)"
  obtain claim runtime where co: "coCohort c = [claim, runtime]" "dfName claim = ClaimStatesName"
    "dfName runtime = RuntimeStatesName" "{claim, runtime} \<subseteq> set ?ds"
    using cohort_members [OF assms False] by blast
  have dist: "distinct (map dfName ?ds)"
    using assms by (simp add: coordinator_built_def registry_distinct)
  have ne: "claim \<noteq> runtime"
    using co by (auto simp: projection_name_defs)
  have "d \<in> set ?ds \<and> ?m d \<longleftrightarrow> d = claim \<or> d = runtime" for d
  proof -
    have same: "\<And>x y. x \<in> set ?ds \<Longrightarrow> y \<in> set ?ds \<Longrightarrow> dfName x = dfName y \<Longrightarrow> x = y"
      using dist by (simp add: distinct_map inj_on_def)
    have in_ds: "claim \<in> set ?ds" "runtime \<in> set ?ds" and len: "length (coCohort c) = 2"
      using co by auto
    show ?thesis
      using same [of d claim] same [of d runtime] in_ds len co(2,3) unfolding isCohortMember_def by metis
  qed
  then have "set (filter ?m ?ds) = {claim, runtime}" by auto
  moreover have "distinct (filter ?m ?ds)" using dist by (simp add: distinct_map)
  ultimately have coh: "filter_mset ?m (mset ?ds) = mset (coCohort c)"
    using ne co(1) set_eq_iff_mset_eq_distinct [of "filter ?m ?ds" "coCohort c"] by simp
  have "\<exists>d\<in>set ?ds. ?m d"
    using co by (auto simp: isCohortMember_def)
  then have "mset (concat (groupsFrom c False ?ds)) = filter_mset (\<lambda>d. \<not> ?m d) (mset ?ds) + mset (coCohort c)"
    unfolding groupsFrom_mset by (simp only: if_True simp_thms)
  also have "\<dots> = filter_mset ?m (mset ?ds) + filter_mset (\<lambda>d. \<not> ?m d) (mset ?ds)"
    unfolding coh by (rule add.commute)
  also have "\<dots> = mset ?ds" by (rule multiset_partition [symmetric])
  finally show ?thesis .
qed

section \<open>The target of a cohort that keeps its time\<close>

lemma preservedCohortTarget_not_older:
  assumes "preservedCohortTarget env c captured r [a, b] = Inr target"
    and "Store_Watermark env (coTick c) (coDB c) (dfName d) r = Inr (Some w)" and "d = a \<or> d = b"
  shows "wmAsOf w \<le> tgAsOf target \<and> tgHead target = tgHead captured"
  using assms
  by (auto simp: preservedCohortTarget_def groupWatermarks_def split: sum.splits option.splits if_splits list.splits)

section \<open>What a preflight proves\<close>

text \<open>The cursors of a projection have reached a target.\<close>

definition reached :: "Target \<Rightarrow> ID \<Rightarrow> Definition \<Rightarrow> 'v projection_db \<Rightarrow> bool" where
  "reached target r d db \<longleftrightarrow>
     (\<exists>seq asOf. db_cursor db (dfName d, r) = Some (seq, asOf) \<and> HeadCommitSeq (tgHead target) \<le> seq
        \<and> (dfTimeSensitive d \<longrightarrow> tgAsOf target \<le> asOf))"

lemma reached_le: "reached target r d db \<Longrightarrow> db_le db db' \<Longrightarrow> reached target r d db'"
  by (fastforce simp: reached_def db_le_def cursor_le_def)

lemma requireCurrentAtTarget_reached:
  assumes "env_ok env" and "co_ok env c" and "requireCurrentAtTarget env target r d c = ok"
  shows "reached target r d (coDB c)"
proof -
  obtain stored where rd: "Store_Watermark env (coTick c) (coDB c) (dfName d) r = Inr (Some stored)"
    and s: "wmSourceCommitSeq stored = HeadCommitSeq (tgHead target)"
      "dfTimeSensitive d \<longrightarrow> wmAsOf stored = tgAsOf target"
    using assms(3) by (auto simp: requireCurrentAtTarget_def Let_def split: sum.splits option.splits if_splits)
  obtain row where "dbWatermarks (coDB c) (dfName d, r) = Some row" "same_watermark stored row"
    using read_ok [of "ceIDString env" "ceKnown env" "coDB c" "dfName d" r] assms(1,2) rd
    by (auto simp: env_ok_def co_ok_def Store_Watermark_def split: option.splits)
  then show ?thesis
    using s by (auto simp: reached_def db_cursor_def same_watermark_fields)
qed

lemma preflightAtTarget_reached:
  assumes "env_ok env" and "env_advances env" and "co_ok env c"
    and "preflightAtTarget env target r ds c = (c', ok)"
  shows "co_step env c c' \<and> (\<forall>d\<in>set ds. reached target r d (coDB c'))"
  using assms(3,4)
proof (induction ds arbitrary: c)
  case (Cons d ds)
  obtain c1 r1 where up: "update_projection env target r d False True c = (c1, r1)" by fastforce
  have s1: "co_step env c c1"
    using updateWithTarget_step [OF assms(1) Cons.prems(1)] up unfolding update_projection_def by (metis fst_conv)
  define c2 where "c2 = clearFailure (dfName d, r) c1"
  have "r1 = ok" and cur: "requireCurrentAtTarget env target r d c2 = ok"
    and rest: "preflightAtTarget env target r ds (co_tick c2) = (c', ok)"
    using Cons.prems(2) up by (auto simp: c2_def Let_def split: sum.splits)
  have ok2: "co_ok env c2" "co_ok env (co_tick c2)"
    using s1 by (simp_all add: c2_def co_step_def co_ok_def)
  have "reached target r d (coDB c2)"
    using requireCurrentAtTarget_reached [OF assms(1) ok2(1) cur] .
  moreover have ih: "co_step env (co_tick c2) c' \<and> (\<forall>d\<in>set ds. reached target r d (coDB c'))"
    using Cons.IH [OF ok2(2) rest] .
  ultimately show ?case
    using s1 assms(2) reached_le
    by (auto simp: co_step_def c2_def intro: db_le_trans)
qed simp

text \<open>A sorted list without equal neighbours has no duplicates.\<close>

lemma sorted_distinct_adj: "sorted xs \<Longrightarrow> distinct_adj xs \<Longrightarrow> distinct (xs :: 'a::linorder list)"
  by (induction xs rule: induct_list012) auto

lemma mapE_elem: "mapE f xs = Inr ys \<Longrightarrow> x \<in> set xs \<Longrightarrow> \<exists>y\<in>set ys. f x = Inr y"
  by (auto simp: mapE_Inr_iff list_all2_conv_all_nth in_set_conv_nth)

end
