(* ===== verification/Projection_Properties.thy ===== *)
theory Projection_Properties
  imports Projection_Coordinator
begin

text \<open>
  The properties of the Projection subsystem: what the planner decides, that an executed plan
  reaches the target and is stable there, that no interleaving of store operations moves a cursor
  backwards, and what the coordinator's updates and preflight establish and when they fail.
\<close>

section \<open>A concrete deployment\<close>

text \<open>
  The instance at which the properties are evaluated: one time-sensitive projection, a resident whose
  watermark is at commit 1 and time 10, and an environment in which nothing else happens.
\<close>

definition ex_idText :: "ID \<Rightarrow> string" where
  "ex_idText i = nat_digits (unat i)"

lemma inj_ex_idText: "inj ex_idText"
proof (rule injI)
  fix i j :: ID
  assume "ex_idText i = ex_idText j"
  then have "unat i = unat j"
    unfolding ex_idText_def by (metis digits_value_nat_digits)
  then show "i = j" by (rule unsigned_word_eqI)
qed

definition ex_definition :: Definition where
  "ex_definition = \<lparr>dfName = RuntimeStatesName, dfVersion = ''runtime-states-v2'', dfTimeSensitive = True,
     dfDependencies = [], dfRebuildOnActivation = []\<rparr>"

definition ex_target :: "int \<Rightarrow> int \<Rightarrow> string \<Rightarrow> Target" where
  "ex_target seq asOf tz =
     \<lparr>tgHead = \<lparr>Exists = True, HeadCommitSeq = seq, HeadCommittedAt = 5\<rparr>, tgAsOf = asOf, tgAsOfTZ = tz\<rparr>"

definition ex_row :: Watermark where
  "ex_row = \<lparr>wmName = RuntimeStatesName, wmResidentID = 3, wmVersion = ''runtime-states-v2'',
     wmSourceCommitSeq = 1, wmAsOf = 10, wmAsOfTZ = ''UTC'', wmDependencies = []\<rparr>"

definition ex_input :: PlanInput where
  "ex_input = \<lparr>piDefinition = ex_definition, piResidentID = 3, piTarget = ex_target 2 20 ''UTC'',
     piStored = Some ex_row, piDesiredDependencies = [], piActivationDetected = False\<rparr>"

definition ex_registry :: Registry where
  "ex_registry = \<lparr>rgDefinitions = [RuntimeStatesName \<mapsto> ex_definition], rgNames = [RuntimeStatesName]\<rparr>"

definition ex_env :: "nat co_env" where
  "ex_env = \<lparr>ceKnown = (\<lambda>_. True), ceIDString = ex_idText, ceStoreRegistry = ex_registry,
     ceHead = (\<lambda>_. Inr (tgHead (ex_target 2 20 ''UTC''))), ceResidents = (\<lambda>_ _. Inr [3]),
     ceResolve = (\<lambda>_ _. Inr []), ceActivated = (\<lambda>_ _. Inr False), ceEvaluate = (\<lambda>_ _. Inr 7),
     ceNow = (\<lambda>_. 20000), ceReadFault = (\<lambda>_. None), ceFaults = (\<lambda>_. no_faults),
     ceBefore = (\<lambda>_ db. db), ceBetween = (\<lambda>_ db. db)\<rparr>"

definition ex_coordinator :: "nat Coordinator" where
  "ex_coordinator = \<lparr>coRegistry = ex_registry, coTimezone = ''UTC'', coSchedules = (\<lambda>_. zeroSchedule),
     coCohort = [], coFailures = Map.empty,
     coDB = \<lparr>dbWatermarks = [(RuntimeStatesName, 3) \<mapsto> ex_row], dbBodies = Map.empty\<rparr>, coTick = 0\<rparr>"

lemma ex_visible:
  "\<not> TrimSpace_differs ''runtime_states''" "\<not> TrimSpace_differs ''runtime-states-v2''"
  "\<not> TrimSpace_differs ''UTC''" "\<not> TrimSpace_differs ''Asia/Tokyo''"
  by (rule visible_not_trimmed, simp add: visible_char_def byte_def)+

lemmas ex_simps = ex_visible ex_definition_def ex_target_def ex_row_def ex_input_def ex_registry_def
  RuntimeStatesName_def ClaimStatesName_def Definition_Validate_def Name_validate_def Version_validate_def
  Target_Validate_def Head_Validate_def Timezone_Validate_def ParseTimezone_def CommitSeq_Validate_def
  NewCommitSeq_def validateDesiredDependencies_def validateStoredDependencyMetadata_def
  dependencyKeys_def Watermark_Validate_def ID_Validate_def ID_IsZero_def

lemma ex_plan_ready: "plan_ready (\<lambda>_. True) ex_idText ex_input"
  by (simp add: plan_ready_def ex_simps)

lemma ex_row_valid: "Watermark_Validate (\<lambda>_. True) ex_idText ex_row = ok"
  by (simp add: ex_simps)

lemma ex_row_usable: "stored_usable (\<lambda>_. True) ex_idText ex_input ex_row"
  by (simp add: stored_usable_def ex_simps)

lemma ex_env_simps [simp]:
  "inj (ceIDString ex_env)" "ceKnown ex_env = (\<lambda>_. True)" "ceIDString ex_env = ex_idText"
  "env_quiet ex_env" "env_ok ex_env" "env_advances ex_env"
  by (simp_all add: ex_env_def inj_ex_idText env_quiet_def env_ok_def env_advances_def)

lemma ex_coordinator_ok [simp]: "co_ok ex_env ex_coordinator"
proof -
  have "wmName ex_row = RuntimeStatesName" "wmResidentID ex_row = 3" by (simp_all add: ex_row_def)
  then show ?thesis
    using ex_row_valid by (simp add: co_ok_def db_ok_def ex_coordinator_def)
qed

lemma ex_stored [simp]: "dbWatermarks (coDB ex_coordinator) (dfName ex_definition, 3) = Some ex_row"
  by (simp add: ex_coordinator_def ex_definition_def)

lemma ex_source_ready [simp]: "source_ready ex_env ex_definition"
proof -
  have "validateDesiredDependencies ex_idText ex_definition [] = ok" by (simp add: ex_simps)
  then show ?thesis unfolding source_ready_def by (auto simp: ex_env_def)
qed

lemma ex_update_ready:
  assumes "Target_Validate (\<lambda>_. True) target = ok" and "Exists (tgHead target)"
    and "10 \<le> tgAsOf target" and "1 \<le> HeadCommitSeq (tgHead target)"
  shows "update_ready ex_env target 3 ex_definition ex_coordinator"
proof -
  have "Definition_Validate ex_definition = ok" "dfName ex_definition \<in> set projectionTables"
    "validateRegisteredDefinition ex_registry ex_definition = ok"
    "validateStoredDependencyMetadata ex_definition (wmDependencies ex_row) = ok"
    by (simp_all add: ex_simps validateRegisteredDefinition_def Registry_Definition_def
        projectionTables_def ServiceRequiredNames_def)
  moreover have "ceStoreRegistry ex_env = ex_registry" "wmAsOf ex_row = 10" "wmSourceCommitSeq ex_row = 1"
    by (simp_all add: ex_env_def ex_row_def)
  ultimately show ?thesis using assms by (simp add: update_ready_def)
qed

section \<open>Properties\<close>

text \<open>\<^verbatim>\<open>PlanUpdate\<close> plans exactly when the definition, resident, target and resolved
  dependencies are usable, the head exists, and a stored watermark, if any, is a valid watermark of
  this projection and resident that does not run ahead of the target (and no activation is reported
  without a rule). A missing watermark is built; otherwise the first difference in the order
  version, dependency set, activation forces a rebuild, and after that the commit cursor and, for
  a time-sensitive projection, the time decide independently what an update does.\<close>

theorem plan_update_decides:
  assumes "inj idString"
  shows "PlanUpdate known idString input = Inr plan \<longleftrightarrow>
     plan_ready known idString input \<and>
     (case piStored input of
        None \<Rightarrow> plan = mkPlan FullBuild ReasonUnbuilt True (dfTimeSensitive (piDefinition input))
      | Some stored \<Rightarrow> stored_usable known idString input stored
          \<and> \<not> activation_misuse input stored \<and> plan = plan_of input stored)"
  using assms by (rule PlanUpdate_eq)

theorem plan_update_decides_witness:
  "PlanUpdate (\<lambda>_. True) ex_idText ex_input = Inr (mkPlan Update ReasonCursorAndAsOfAdvance True True)"
proof -
  have "\<not> activation_misuse ex_input ex_row"
    "mkPlan Update ReasonCursorAndAsOfAdvance True True = plan_of ex_input ex_row"
    by (simp_all add: activation_misuse_def plan_of_def ex_simps)
  then show ?thesis
    using plan_update_decides [OF inj_ex_idText, of "\<lambda>_. True" ex_input] ex_plan_ready ex_row_usable
    by (simp add: ex_input_def)
qed

text \<open>The watermark that a plan writes is valid, is at the target (identity, version, commit
  cursor, dependency set and, for a time-sensitive projection, the time), moves neither cursor of
  the stored watermark backwards, and has nothing left to do: planning again for the same target
  finds it up to date.\<close>

theorem plan_reaches_target:
  assumes "inj idString" and "PlanUpdate known idString input = Inr plan"
  shows "Watermark_Validate known idString (targetWatermark input plan) = ok
    \<and> at_target input (targetWatermark input plan)
    \<and> (\<forall>stored. piStored input = Some stored \<longrightarrow>
         wmAsOf stored \<le> wmAsOf (targetWatermark input plan)
         \<and> wmSourceCommitSeq stored \<le> wmSourceCommitSeq (targetWatermark input plan))
    \<and> PlanUpdate known idString
        (input\<lparr>piStored := Some (targetWatermark input plan), piActivationDetected := False\<rparr>)
      = Inr (mkPlan UpToDate ReasonCurrent False False)"
proof -
  have ready: "plan_ready known idString input"
    using assms by (simp add: PlanUpdate_eq)
  have deps: "wmDependencies (targetWatermark input plan) = piDesiredDependencies input"
    by (simp add: targetWatermark_def Let_def split: option.splits)
  have "validateStoredDependencyMetadata (piDefinition input) (wmDependencies (targetWatermark input plan)) = ok"
    unfolding deps using ready desired_metadata unfolding plan_ready_def by blast
  then show ?thesis
    using at_target_up_to_date [OF assms(1) ready] targetWatermark_at_target [OF assms]
      targetWatermark_valid [OF assms] targetWatermark_monotone [OF assms] by blast
qed

theorem plan_reaches_target_witness:
  "\<exists>plan. PlanUpdate (\<lambda>_. True) ex_idText ex_input = Inr plan
    \<and> at_target ex_input (targetWatermark ex_input plan)"
proof -
  have "PlanUpdate (\<lambda>_. True) ex_idText ex_input = Inr (plan_of ex_input ex_row)"
    using ex_plan_ready ex_row_usable
    by (simp add: PlanUpdate_eq [OF inj_ex_idText] activation_misuse_def ex_input_def)
  then show ?thesis using plan_reaches_target [OF inj_ex_idText] by blast
qed

text \<open>C20: Whatever sequence of apply requests the clients of the store send, in whatever order and
  with whatever faults of SQLite, a watermark that exists is never lost and neither of its cursors
  ever moves backwards; the tables stay well formed.\<close>

theorem store_history_monotone:
  assumes "inj idString" and "db_ok known idString db"
    and "dbWatermarks db key = Some w"
  shows "db_ok known idString (fold (apply_step known idString registry) ops db)
    \<and> (\<exists>w'. dbWatermarks (fold (apply_step known idString registry) ops db) key = Some w'
        \<and> wmSourceCommitSeq w \<le> wmSourceCommitSeq w' \<and> wmAsOf w \<le> wmAsOf w')"
proof -
  have "db_cursor db key = Some (wmSourceCommitSeq w, wmAsOf w)"
    using assms(3) by (simp add: db_cursor_def)
  then have "\<exists>c'. db_cursor (fold (apply_step known idString registry) ops db) key = Some c'
      \<and> cursor_le (wmSourceCommitSeq w, wmAsOf w) c'"
    using apply_cas.run_le assms(1,2) by blast
  then show ?thesis
    using apply_cas.run_inv assms(1,2) by (fastforce simp: db_cursor_def cursor_le_def)
qed

theorem store_history_monotone_witness:
  "\<exists>w'. dbWatermarks (fold (apply_step (\<lambda>_. True) ex_idText ex_registry)
       [(no_faults, request_of ex_input (plan_of ex_input ex_row) 7)] (coDB ex_coordinator)) (RuntimeStatesName, 3) = Some w'
     \<and> wmSourceCommitSeq ex_row \<le> wmSourceCommitSeq w' \<and> wmAsOf ex_row \<le> wmAsOf w'"
proof -
  have "db_ok (\<lambda>_. True) ex_idText (coDB ex_coordinator)"
    using ex_coordinator_ok by (simp add: co_ok_def)
  moreover have "dbWatermarks (coDB ex_coordinator) (RuntimeStatesName, 3) = Some ex_row"
    by (simp add: ex_coordinator_def)
  ultimately show ?thesis using store_history_monotone [OF inj_ex_idText] by blast
qed

text \<open>C19: An update that returns without an error has brought the projection to its target, even if
  other clients changed the tables between its reads and writes and SQLite failed on the first
  attempt: the stored watermark is at a target with the same head (the very target, unless the
  call was asked to keep the stored time), for the dependencies the source resolved. Whatever it
  returns, no cursor has moved backwards, given that the other clients move none.\<close>

theorem update_ok_current:
  assumes "env_ok env" and "env_advances env" and "co_ok env c0"
    and "updateWithTarget env target r d force refresh exact c0 = (c, outcome)"
  shows "co_ok env c \<and> db_le (coDB c0) (coDB c)
    \<and> (outcome = ok \<longrightarrow>
        (\<exists>t. current_for env t d r target (refresh \<or> exact \<or> \<not> dfTimeSensitive d) (coDB c)))"
  using updateWithTarget_keeps [OF assms(1,3,4)] updateWithTarget_current [OF assms(1,3)] assms(2,4) by blast

theorem update_ok_current_witness:
  "\<exists>c t. updateWithTarget ex_env (ex_target 2 20 ''UTC'') 3 ex_definition False True False ex_coordinator = (c, ok)
    \<and> current_for ex_env t ex_definition 3 (ex_target 2 20 ''UTC'') True (coDB c)"
proof -
  obtain c out where run: "updateAttempt ex_env 0 (ex_target 2 20 ''UTC'') 3 ex_definition False True False
      ex_coordinator = (c, out)" by fastforce
  have ready: "update_ready ex_env (ex_target 2 20 ''UTC'') 3 ex_definition ex_coordinator"
    by (rule ex_update_ready) (simp_all add: ex_simps)
  from ex_env_simps(1,4) ex_coordinator_ok ex_source_ready ready run
  have "out = Inr ok"
    by (cases rule: quiet_attempt) (auto simp: heal_update_def timezoneHeals_def split: option.splits)
  then have "updateWithTarget ex_env (ex_target 2 20 ''UTC'') 3 ex_definition False True False ex_coordinator = (c, ok)"
    using run by (simp add: updateWithTarget_def)
  then show ?thesis
    using update_ok_current [OF ex_env_simps(5,6) ex_coordinator_ok] by fastforce
qed

text \<open>C21: An update that nothing disturbs (no fault, no other client), whatever its flags, succeeds on its
  first attempt and stores the watermark of its target: the version, the source position of the target's
  head and, for a time-sensitive projection, the target's time, or the time already stored when neither a
  refresh nor an exact target is asked for. It needs that the source answers its requests, that the definition is
  registered and its table known, that the target is valid and that the stored watermark is not ahead of it. One
  case is excluded: an exact target at the stored time in another zone, which the store refuses
  (\<open>timezone_heal_refused\<close> below).\<close>

theorem update_succeeds:
  assumes "inj (ceIDString env)" and "env_quiet env" and "co_ok env c0" and "source_ready env d"
    and "update_ready env target r d c0"
    and "\<forall>row. dbWatermarks (coDB c0) (dfName d, r) = Some row \<longrightarrow>
      \<not> timezoneHeals d (Some row) target exact"
  shows "\<exists>c w. updateWithTarget env target r d force refresh exact c0 = (c, ok)
    \<and> dbWatermarks (coDB c) (dfName d, r) = Some w
    \<and> wmVersion w = dfVersion d \<and> wmSourceCommitSeq w = HeadCommitSeq (tgHead target)
    \<and> (dfTimeSensitive d \<longrightarrow> wmAsOf w =
        (if refresh \<or> exact then tgAsOf target
         else case dbWatermarks (coDB c0) (dfName d, r) of None \<Rightarrow> tgAsOf target | Some row \<Rightarrow> wmAsOf row))"
proof -
  obtain c out where run: "updateAttempt env 0 target r d force refresh exact c0 = (c, out)" by fastforce
  from assms(1-5) run show ?thesis
  proof (cases rule: quiet_attempt)
    case (1 previous input planned plan goal)
    have "\<not> timezoneHeals d previous goal exact"
      using 1(1,7) assms(6)
      by (cases previous) (auto simp: timezoneHeals_def adjustTarget_exact option_rel_Some1 same_watermark_fields)
    then have fine: "\<not> (ChangesState plan \<and> heal_update input exact plan)" using 1 by (simp add: heal_update_def)
    then have "updateWithTarget env target r d force refresh exact c0 = (c, ok)"
      using run 1(11) by (auto simp: updateWithTarget_def)
    moreover obtain w where w: "dbWatermarks (coDB c) (dfName d, r) = Some w" "at_target input w"
      using 1(13) [OF fine] by blast
    moreover have "tgAsOf goal = (if refresh \<or> exact then tgAsOf target
         else case dbWatermarks (coDB c0) (dfName d, r) of None \<Rightarrow> tgAsOf target | Some row \<Rightarrow> wmAsOf row)" if "dfTimeSensitive d"
      using 1(1,7) that by (auto simp: adjustTarget_asOf option_rel_Some1 same_watermark_fields split: option.split)
    ultimately show ?thesis using 1(2-7) by (simp add: at_target_def)
  qed
qed

text \<open>A refresh, and an update that keeps the stored time.\<close>

theorem update_succeeds_witness:
  "(\<exists>c w. updateWithTarget ex_env (ex_target 2 20 ''UTC'') 3 ex_definition False True False ex_coordinator = (c, ok)
      \<and> dbWatermarks (coDB c) (dfName ex_definition, 3) = Some w \<and> wmSourceCommitSeq w = 2 \<and> wmAsOf w = 20)
   \<and> (\<exists>c w. updateWithTarget ex_env (ex_target 2 20 ''UTC'') 3 ex_definition False False False ex_coordinator = (c, ok)
      \<and> dbWatermarks (coDB c) (dfName ex_definition, 3) = Some w \<and> wmSourceCommitSeq w = 2 \<and> wmAsOf w = 10)"
proof -
  have ready: "update_ready ex_env (ex_target 2 20 ''UTC'') 3 ex_definition ex_coordinator"
    by (rule ex_update_ready) (simp_all add: ex_simps)
  have none: "\<forall>row. dbWatermarks (coDB ex_coordinator) (dfName ex_definition, 3) = Some row \<longrightarrow>
      \<not> timezoneHeals ex_definition (Some row) (ex_target 2 20 ''UTC'') False"
    by (simp add: timezoneHeals_def)
  have stored: "case_option 20 wmAsOf (dbWatermarks (coDB ex_coordinator) (dfName ex_definition, 3)) = 10"
    by (simp add: ex_stored) (simp add: ex_row_def)
  have head: "HeadCommitSeq (tgHead (ex_target 2 20 ''UTC'')) = 2" and asOf: "tgAsOf (ex_target 2 20 ''UTC'') = 20"
    and sensitive: "dfTimeSensitive ex_definition"
    by (simp_all add: ex_simps)
  note use = update_succeeds [OF ex_env_simps(1,4) ex_coordinator_ok ex_source_ready ready none, unfolded head asOf]
  show ?thesis
    using use [of False True] use [of False False] sensitive stored by (simp add: ex_stored) metis
qed

text \<open>C24: The repair of a cohort whose members agree on the time and not on the zone cannot succeed
  against this store. The coordinator plans an as-of evaluation for the exact target; the store
  refuses every incremental as-of evaluation that does not advance the time, so the update returns
  that error and the tables stay as they were, however often it is tried.\<close>

theorem timezone_heal_refused:
  assumes "inj (ceIDString env)" and "env_quiet env" and "co_ok env c0" and "source_ready env d"
    and "update_ready env target r d c0"
    and "dbWatermarks (coDB c0) (dfName d, r) = Some row" and "timezoneHeals d (Some row) target True"
    and "wmVersion row = dfVersion d" and "\<forall>t q. ceActivated env t q = Inr False"
    and "\<forall>t q deps. ceResolve env t q = Inr deps \<longrightarrow> set deps = set (wmDependencies row)"
  shows "\<exists>c. updateWithTarget env target r d False refresh True c0
      = (c, Inl (ProjectionError ''executed as-of evaluation did not advance as_of''))
    \<and> coDB c = coDB c0"
proof -
  obtain c out where run: "updateAttempt env 0 target r d False refresh True c0 = (c, out)" by fastforce
  from assms(1-5) run show ?thesis
  proof (cases rule: quiet_attempt)
    case (1 previous input planned plan goal)
    have goal: "goal = target" using 1(7) by (simp add: adjustTarget_exact)
    obtain stored where st: "previous = Some stored" and same: "same_watermark stored row"
      using 1(1) assms(6) by (auto simp: option_rel_Some2)
    have heals: "timezoneHeals d previous target True"
      using assms(7) st same by (simp add: timezoneHeals_def same_watermark_fields)
    have deps: "set (wmDependencies stored) = set (piDesiredDependencies input)"
      using 1(8) assms(10) same by (auto simp: same_watermark_fields dest: mset_eq_setD)
    have none: "activationDetected env t input w kinds = Inr False" for t w kinds
      using assms(9) by (induction kinds) simp_all
    have "planned = plan_of input stored"
    proof -
      have "PlanUpdate (ceKnown env) (ceIDString env) input = Inr planned"
        using 1(9) none by (auto simp: coordinator_plan_def split: sum.splits if_splits option.splits)
      then show ?thesis using assms(1) 1(5) st by (simp add: PlanUpdate_eq)
    qed
    then have "plKind plan = Update"
      using 1(2-6,10) goal heals st deps same assms(8)
      by (auto simp: executedPlan_def forcePlan_def healPlan_def plan_of_def mkPlan_def Let_def
          same_watermark_fields)
    then have "ChangesState plan \<and> heal_update input True plan"
      using 1(2,4,5) goal heals by (simp add: ChangesState_def heal_update_def)
    then have "out = Inr (Inl (ProjectionError ''executed as-of evaluation did not advance as_of''))"
      and "coDB c = coDB c0"
      using 1(11,12) by simp_all
    then show ?thesis
      using run by (simp add: updateWithTarget_def)
  qed
qed

theorem timezone_heal_refused_witness:
  "\<exists>c. updateWithTarget ex_env (ex_target 2 10 ''Asia/Tokyo'') 3 ex_definition False False True ex_coordinator
      = (c, Inl (ProjectionError ''executed as-of evaluation did not advance as_of''))
    \<and> coDB c = coDB ex_coordinator"
proof -
  have ready: "update_ready ex_env (ex_target 2 10 ''Asia/Tokyo'') 3 ex_definition ex_coordinator"
    by (rule ex_update_ready) (simp_all add: ex_simps)
  have heals: "timezoneHeals ex_definition (Some ex_row) (ex_target 2 10 ''Asia/Tokyo'') True"
    and version: "wmVersion ex_row = dfVersion ex_definition"
    by (simp_all add: timezoneHeals_def ex_simps)
  have source: "\<forall>t q. ceActivated ex_env t q = Inr False"
    "\<forall>t q deps. ceResolve ex_env t q = Inr deps \<longrightarrow> set deps = set (wmDependencies ex_row)"
    by (simp_all add: ex_env_def ex_row_def)
  show ?thesis
    by (rule timezone_heal_refused [OF ex_env_simps(1,4) ex_coordinator_ok ex_source_ready ready ex_stored
          heals version source])
qed

text \<open>A preflight that succeeds was made at one target whose head exists and is still the
  canonical head afterwards; every named projection of the resident has reached that target, even
  if other clients advanced the tables meanwhile.\<close>

theorem preflight_ready:
  assumes "env_ok env" and "env_advances env" and "co_ok env c0"
    and "PreflightResident env r names c0 = (c, Inr result)"
  shows "prResidentID result = r \<and> prNames result = sort names \<and> distinct names
    \<and> Exists (tgHead (prTarget result))
    \<and> (\<exists>t. coTick c = Suc t \<and> ceHead env t = Inr (tgHead (prTarget result)))
    \<and> (\<forall>name\<in>set names. \<exists>d. Registry_Definition (coRegistry c0) name = Inr d
         \<and> reached (prTarget result) r d (coDB c))"
proof -
  obtain ds c1 target c2 where defs: "preflightDefinitions c0 names = Inr (ds, prNames result)"
    and cap: "captureTarget env c0 = (c1, Inr target)" and ex: "Exists (tgHead target)"
    and at: "preflightAtTarget env target r ds c1 = (c2, ok)"
    and head: "RequireCanonicalHead env (tgHead target) c2 = (c, ok)"
    and res: "prResidentID result = r" "prTarget result = target"
    using assms(4)
    by (auto simp: PreflightResident_def split: sum.splits prod.splits if_splits)
  have names: "prNames result = sort names" "distinct_adj (sort names)"
    and ds: "mapE (Registry_Definition (coRegistry c0)) (sort names) = Inr ds"
    using defs by (auto simp: preflightDefinitions_def Let_def split: if_splits sum.splits)
  have "distinct (sort names)"
    using names(2) by (intro sorted_distinct_adj) simp_all
  have "co_ok env c1"
    using assms(3) captureTarget_keeps_db [OF cap] by (simp add: co_ok_def)
  then have all: "\<forall>d\<in>set ds. reached target r d (coDB c2)"
    using preflightAtTarget_reached [OF assms(1,2) _ at] by blast
  have c: "c = co_tick c2" and "ceHead env (coTick c2) = Inr (tgHead target)"
    using head by (auto simp: RequireCanonicalHead_def split: sum.splits if_splits)
  moreover have "\<exists>d. Registry_Definition (coRegistry c0) name = Inr d \<and> reached target r d (coDB c)"
    if "name \<in> set names" for name
    using that mapE_elem [OF ds, of name] all c by auto
  ultimately show ?thesis
    using res names(1) \<open>distinct (sort names)\<close> ex by (auto simp: co_tick_def)
qed

theorem preflight_ready_witness:
  "\<exists>c result. PreflightResident ex_env 3 [RuntimeStatesName] ex_coordinator = (c, Inr result)
    \<and> reached (prTarget result) 3 ex_definition (coDB c)"
proof -
  have "\<exists>c result. PreflightResident ex_env 3 [RuntimeStatesName] ex_coordinator = (c, Inr result)"
    by (simp add: ex_simps ex_env_def ex_coordinator_def PreflightResident_def preflightDefinitions_def
        Registry_Definition_def captureTarget_def InstantFromTime_def update_projection_def updateWithTarget_def
        updateAttempt_def Store_Watermark_def readProjectionWatermark_def adjustTarget_def coordinator_plan_def
        PlanUpdate_def planStored_def DependencySetEqual_def mkPlan_def executedPlan_def forcePlan_def
        timezoneHeals_def ChangesState_def targetWatermark_def Store_Apply_def validateProjectionApply_def
        validateRegisteredDefinition_def validateProjectionApplyPlan_def planShape_def planCursors_def
        transaction_no_faults applyBody_def verifyProjectionCAS_def watermarksEqual_def replaceProjectionBody_def
        deleteProjectionBody_def replaceProjectionWatermark_def projectionTables_def ServiceRequiredNames_def
        requireCurrentAtTarget_def RequireCanonicalHead_def co_tick_def clearFailure_def Let_def slice_stable_def)
  then obtain c result where run: "PreflightResident ex_env 3 [RuntimeStatesName] ex_coordinator = (c, Inr result)"
    by blast
  have "Registry_Definition (coRegistry ex_coordinator) RuntimeStatesName = Inr ex_definition"
    by (simp add: ex_coordinator_def ex_registry_def Registry_Definition_def)
  then show ?thesis
    using preflight_ready [OF ex_env_simps(5,6) ex_coordinator_ok run] run by auto
qed

end
