(* ===== verification/Projection_Replay.thy ===== *)
theory Projection_Replay
  imports Projection_Types
begin

text \<open>
  The pure evaluators of \<^verbatim>\<open>internal/projection\<close>: replay of claim states
  (\<^verbatim>\<open>claim_replay.go\<close>), of view scopes (\<^verbatim>\<open>claim_view_scope.go\<close>) and the ordered body of
  content references (\<^verbatim>\<open>content_references.go\<close>). The string enumerations of these files are
  strings here too. The numeric calculation of a claim (\<^verbatim>\<open>ClaimStateEvaluator\<close>) is a function
  argument, as it is an interface of the code; \<open>idString\<close> is the text form of an identifier.
\<close>

section \<open>Vocabularies\<close>

definition enumValidate :: "string list \<Rightarrow> string \<Rightarrow> string \<Rightarrow> (projection_error, unit) result" where
  "enumValidate members message value =
     (if value \<in> set members then ok else Inl (ProjectionError message))"

definition ClaimStage_members :: "string list" where
  "ClaimStage_members = [''floating'', ''sediment'', ''settled'']"

definition ClaimStage_Validate :: "string \<Rightarrow> (projection_error, unit) result" where
  "ClaimStage_Validate v = enumValidate ClaimStage_members ''invalid claim stage'' v"

definition ClaimStatus_members :: "string list" where
  "ClaimStatus_members = [''active'', ''invalidated'', ''superseded'', ''quarantined'']"

definition ClaimStatus_Validate :: "string \<Rightarrow> (projection_error, unit) result" where
  "ClaimStatus_Validate v = enumValidate ClaimStatus_members ''invalid claim status'' v"

definition ClaimTemporalKind_Validate :: "string \<Rightarrow> (projection_error, unit) result" where
  "ClaimTemporalKind_Validate v =
     enumValidate [''stable'', ''volatile'', ''episodic''] ''invalid claim temporal kind'' v"

definition ClaimEvidencePolarity_Validate :: "string \<Rightarrow> (projection_error, unit) result" where
  "ClaimEvidencePolarity_Validate v =
     enumValidate [''support'', ''contradict''] ''invalid claim evidence polarity'' v"

definition ClaimEvidenceGrade_Validate :: "string \<Rightarrow> (projection_error, unit) result" where
  "ClaimEvidenceGrade_Validate v =
     enumValidate [''stated'', ''observed'', ''inferred''] ''invalid claim evidence grade'' v"

definition ClaimTrustLevel_Validate :: "string \<Rightarrow> (projection_error, unit) result" where
  "ClaimTrustLevel_Validate v = enumValidate [''trusted'', ''untrusted''] ''invalid claim trust level'' v"

definition ClaimSourceEventType_Validate :: "string \<Rightarrow> (projection_error, unit) result" where
  "ClaimSourceEventType_Validate v =
     enumValidate [''user_message'', ''resident_message'', ''self_talk'', ''outbound_initiative'']
       ''invalid claim source event type'' v"

definition ClaimEvidenceDerivation_Validate :: "string \<Rightarrow> (projection_error, unit) result" where
  "ClaimEvidenceDerivation_Validate v =
     enumValidate [''extracted'', ''inherited''] ''invalid claim evidence derivation'' v"

definition ClaimUsageType_Validate :: "string \<Rightarrow> (projection_error, unit) result" where
  "ClaimUsageType_Validate v =
     enumValidate [''candidate'', ''selected'', ''prompt_included'', ''explicitly_referenced'']
       ''invalid claim usage type'' v"

definition ClaimTemporalRelation_Validate :: "string \<Rightarrow> (projection_error, unit) result" where
  "ClaimTemporalRelation_Validate v =
     enumValidate [''future'', ''current'', ''past'', ''stale_unknown''] ''invalid claim temporal relation'' v"

definition ClaimViewScope_Validate :: "string \<Rightarrow> (projection_error, unit) result" where
  "ClaimViewScope_Validate v =
     enumValidate [''resident_ui'', ''admin_only''] ''invalid claim view scope'' v"

lemma enumValidate_ok [simp]: "enumValidate members message v = Inr u \<longleftrightarrow> v \<in> set members"
  by (simp add: enumValidate_def)

section \<open>Rows\<close>

record ClaimSeed =
  sdClaimID :: ID
  sdCommitSeq :: CommitSeq
  sdRecordedAt :: Instant
  sdTemporalKind :: string

record ClaimEvidence =
  evEvidenceID :: ID
  evClaimID :: ID
  evSourceEventID :: ID
  evSourceEvidenceID :: "ID option"
  evCommitSeq :: CommitSeq
  evRecordedAt :: Instant
  evPolicyRevisionID :: ID
  evSourceEventType :: string
  evPolarity :: string
  evGrade :: string
  evTrustLevel :: string
  evDerivation :: string
  evInheritanceDepth :: int
  evReasonCode :: string
  evActorIsSubject :: bool
  evActorIsPerspective :: bool
  evWeight :: Weight

record ClaimUsage =
  usUsageID :: ID
  usClaimID :: ID
  usRecallRunID :: "ID option"
  usCommitSeq :: CommitSeq
  usRecordedAt :: Instant
  usPolicyRevisionID :: ID
  usUsageType :: string

record ClaimValidityAssertion =
  vaAssertionID :: ID
  vaClaimID :: ID
  vaCommitSeq :: CommitSeq
  vaRecordedAt :: Instant
  vaValidFrom :: "Instant option"
  vaValidTo :: "Instant option"
  vaConfidence :: "Ratio option"

record ClaimTransition =
  trTransitionID :: ID
  trClaimID :: ID
  trCommitSeq :: CommitSeq
  trRecordedAt :: Instant
  trFrom :: string
  trTo :: string

record ClaimReplayInput =
  riThroughCommitSeq :: CommitSeq
  riAsOf :: Instant
  riPreviousAsOf :: "Instant option"
  riActivePolicyRevisionID :: ID
  riClaims :: "ClaimSeed list"
  riEvidence :: "ClaimEvidence list"
  riUsages :: "ClaimUsage list"
  riValidityAssertions :: "ClaimValidityAssertion list"
  riStatusTransitions :: "ClaimTransition list"
  riStageTransitions :: "ClaimTransition list"

record ClaimEvaluationInput =
  ciClaim :: ClaimSeed
  ciStatus :: string
  ciStage :: string
  ciAsOf :: Instant
  ciActivePolicyRevisionID :: ID
  ciEvidence :: "ClaimEvidence list"
  ciUsages :: "ClaimUsage list"
  ciValidityAssertions :: "ClaimValidityAssertion list"

text \<open>A \<^verbatim>\<open>float64\<close>: not a number, an infinity, or a mantissa with a binary exponent.\<close>

datatype float64 = NaN | Infinite bool | Finite int int

fun float_finite :: "float64 \<Rightarrow> bool" where
  "float_finite (Finite m e) = True"
| "float_finite _ = False"

record ClaimStateMetrics =
  mtSalience :: float64
  mtConfidence :: Ratio
  mtCurrentness :: Ratio
  mtTemporalRelation :: string
  mtLastReferencedAt :: "Instant option"

record ClaimState =
  csClaimID :: ID
  csStage :: string
  csStatus :: string
  csSalience :: float64
  csConfidence :: Ratio
  csCurrentness :: Ratio
  csTemporalRelation :: string
  csLastReferencedAt :: "Instant option"
  csEvidenceCount :: Count

type_synonym evaluator = "ClaimEvaluationInput \<Rightarrow> (projection_error, ClaimStateMetrics) result"

section \<open>Validators\<close>

definition idCheck :: "ID \<Rightarrow> (projection_error, unit) result" where
  "idCheck i = (case ID_Validate i of Inl e \<Rightarrow> Inl (ProjectionCanonical e) | Inr _ \<Rightarrow> ok)"

definition commitCheck :: "CommitSeq \<Rightarrow> (projection_error, unit) result" where
  "commitCheck s = (case CommitSeq_Validate s of Inl e \<Rightarrow> Inl (ProjectionCanonical e) | Inr _ \<Rightarrow> ok)"

definition ratioCheck :: "Ratio \<Rightarrow> (projection_error, unit) result" where
  "ratioCheck r = (case Ratio_Validate r of Inl e \<Rightarrow> Inl (ProjectionCanonical e) | Inr _ \<Rightarrow> ok)"

text \<open>Checks that run one after the other and stop at the first error.\<close>

fun checks :: "(projection_error, unit) result list \<Rightarrow> (projection_error, unit) result" where
  "checks [] = ok"
| "checks (r # rs) = (case r of Inl e \<Rightarrow> Inl e | Inr _ \<Rightarrow> checks rs)"

lemma checks_ok [simp]: "checks rs = Inr u \<longleftrightarrow> (\<forall>r\<in>set rs. r = ok)"
  by (induction rs) (auto split: sum.splits)

declare checks.simps [simp del]

definition validateClaimSeed :: "ClaimSeed \<Rightarrow> (projection_error, unit) result" where
  "validateClaimSeed s =
     checks [idCheck (sdClaimID s), commitCheck (sdCommitSeq s), ClaimTemporalKind_Validate (sdTemporalKind s)]"

definition validateClaimEvidence :: "ClaimEvidence \<Rightarrow> (projection_error, unit) result" where
  "validateClaimEvidence r =
     checks [idCheck (evEvidenceID r), idCheck (evClaimID r), idCheck (evSourceEventID r), idCheck (evPolicyRevisionID r),
       (case evSourceEvidenceID r of None \<Rightarrow> ok
        | Some s \<Rightarrow> checks [idCheck s, if s = evEvidenceID r
            then Inl (ProjectionError ''claim evidence cannot inherit from itself'') else ok]),
       commitCheck (evCommitSeq r),
       ClaimSourceEventType_Validate (evSourceEventType r), ClaimEvidencePolarity_Validate (evPolarity r),
       ClaimEvidenceGrade_Validate (evGrade r), ClaimTrustLevel_Validate (evTrustLevel r),
       ClaimEvidenceDerivation_Validate (evDerivation r),
       (if (evDerivation r = ''extracted'' \<and> (evSourceEvidenceID r \<noteq> None \<or> evInheritanceDepth r \<noteq> 0)) \<or>
           (evDerivation r = ''inherited'' \<and> (evSourceEvidenceID r = None \<or> evInheritanceDepth r < 1))
        then Inl (ProjectionError ''claim evidence derivation provenance is inconsistent'') else ok),
       (if evReasonCode r = '''' \<or> TrimSpace_differs (evReasonCode r)
        then Inl (ProjectionError ''claim evidence reason code is empty or has surrounding whitespace'') else ok),
       (case Weight_Validate (evWeight r) of Inl e \<Rightarrow> Inl (ProjectionCanonical e) | Inr _ \<Rightarrow> ok)]"

definition validateClaimUsage :: "ClaimUsage \<Rightarrow> (projection_error, unit) result" where
  "validateClaimUsage r =
     checks [idCheck (usUsageID r), idCheck (usClaimID r), idCheck (usPolicyRevisionID r),
       (case usRecallRunID r of None \<Rightarrow> ok | Some i \<Rightarrow> idCheck i),
       commitCheck (usCommitSeq r), ClaimUsageType_Validate (usUsageType r)]"

definition validateClaimValidity :: "ClaimValidityAssertion \<Rightarrow> (projection_error, unit) result" where
  "validateClaimValidity r =
     checks [idCheck (vaAssertionID r), idCheck (vaClaimID r), commitCheck (vaCommitSeq r),
       (case (vaValidFrom r, vaValidTo r) of
          (Some from, Some to) \<Rightarrow> if from > to
            then Inl (ProjectionError ''claim validity valid_from is after valid_to'') else ok
        | _ \<Rightarrow> ok),
       (case vaConfidence r of None \<Rightarrow> ok | Some c \<Rightarrow> ratioCheck c)]"

definition validateClaimStateMetrics :: "ClaimStateMetrics \<Rightarrow> Instant \<Rightarrow> (projection_error, unit) result" where
  "validateClaimStateMetrics m asOf =
     checks [(if \<not> float_finite (mtSalience m) then Inl (ProjectionError ''claim salience must be finite'') else ok),
       ratioCheck (mtConfidence m), ratioCheck (mtCurrentness m),
       ClaimTemporalRelation_Validate (mtTemporalRelation m),
       (case mtLastReferencedAt m of None \<Rightarrow> ok
        | Some at \<Rightarrow> if at > asOf then Inl (ProjectionError ''claim last reference is after explicit as_of'') else ok)]"

section \<open>Capture\<close>

text \<open>The order of rows in a replay: commit order, then the text of the identifier.\<close>

definition commit_before :: "(ID \<Rightarrow> string) \<Rightarrow> ('r \<Rightarrow> CommitSeq) \<Rightarrow> ('r \<Rightarrow> ID) \<Rightarrow> 'r \<Rightarrow> 'r \<Rightarrow> bool" where
  "commit_before idString commitOf idOf a b =
     (if commitOf a \<noteq> commitOf b then commitOf a < commitOf b
      else idString (idOf a) < idString (idOf b))"

text \<open>
  The loop the three captures share: validate each row, skip it when it lies behind the bounds,
  refuse it when its claim was not captured. The Go map groups the kept rows by claim and sorts
  each group.
\<close>

definition captureRows ::
    "('r \<Rightarrow> (projection_error, unit) result) \<Rightarrow> ('r \<Rightarrow> bool) \<Rightarrow> ('r \<Rightarrow> ID) \<Rightarrow> ID set \<Rightarrow> 'r list
      \<Rightarrow> (projection_error, 'r list) result" where
  "captureRows validate inBounds claimOf claimIDs rows =
     foldE (\<lambda>kept row. case validate row of Inl e \<Rightarrow> Inl e
       | Inr _ \<Rightarrow> if \<not> inBounds row then Inr kept
           else if claimOf row \<notin> claimIDs then Inl (ProjectionError ''references uncaptured claim'')
           else Inr (kept @ [row])) [] rows"

definition grouped :: "('r \<Rightarrow> 'r \<Rightarrow> bool) \<Rightarrow> ('r \<Rightarrow> ID) \<Rightarrow> 'r list \<Rightarrow> ID \<Rightarrow> 'r list" where
  "grouped lt claimOf kept claimID = slice_stable lt (filter (\<lambda>r. claimOf r = claimID) kept)"

definition capturedEvidence ::
    "(ID \<Rightarrow> string) \<Rightarrow> ClaimEvidence list \<Rightarrow> ID set \<Rightarrow> CommitSeq \<Rightarrow> Instant
      \<Rightarrow> (projection_error, ID \<Rightarrow> ClaimEvidence list) result" where
  "capturedEvidence idString rows claimIDs through asOf =
     (case captureRows validateClaimEvidence (\<lambda>r. evCommitSeq r \<le> through \<and> evRecordedAt r \<le> asOf)
        evClaimID claimIDs rows of Inl e \<Rightarrow> Inl e
      | Inr kept \<Rightarrow> Inr (grouped (commit_before idString evCommitSeq evEvidenceID) evClaimID kept))"

definition capturedUsages ::
    "(ID \<Rightarrow> string) \<Rightarrow> ClaimUsage list \<Rightarrow> ID set \<Rightarrow> CommitSeq \<Rightarrow> Instant
      \<Rightarrow> (projection_error, ID \<Rightarrow> ClaimUsage list) result" where
  "capturedUsages idString rows claimIDs through asOf =
     (case captureRows validateClaimUsage (\<lambda>r. usCommitSeq r \<le> through \<and> usRecordedAt r \<le> asOf)
        usClaimID claimIDs rows of Inl e \<Rightarrow> Inl e
      | Inr kept \<Rightarrow> Inr (grouped (commit_before idString usCommitSeq usUsageID) usClaimID kept))"

definition capturedValidity ::
    "(ID \<Rightarrow> string) \<Rightarrow> ClaimValidityAssertion list \<Rightarrow> ID set \<Rightarrow> CommitSeq \<Rightarrow> Instant
      \<Rightarrow> (projection_error, ID \<Rightarrow> ClaimValidityAssertion list) result" where
  "capturedValidity idString rows claimIDs through asOf =
     (case captureRows validateClaimValidity (\<lambda>r. vaCommitSeq r \<le> through \<and> vaRecordedAt r \<le> asOf)
        vaClaimID claimIDs rows of Inl e \<Rightarrow> Inl e
      | Inr kept \<Rightarrow> Inr (grouped (commit_before idString vaCommitSeq vaAssertionID) vaClaimID kept))"

definition validateTransitionRow :: "ClaimTransition \<Rightarrow> (projection_error, unit) result" where
  "validateTransitionRow r = checks [idCheck (trTransitionID r), idCheck (trClaimID r), commitCheck (trCommitSeq r)]"

definition transitionInBounds :: "CommitSeq \<Rightarrow> Instant \<Rightarrow> ClaimTransition \<Rightarrow> bool" where
  "transitionInBounds through asOf r \<longleftrightarrow> trCommitSeq r \<le> through \<and> trRecordedAt r \<le> asOf"

definition validateCapturedTransitions ::
    "ClaimTransition list \<Rightarrow> ID set \<Rightarrow> CommitSeq \<Rightarrow> Instant \<Rightarrow> (projection_error, unit) result" where
  "validateCapturedTransitions rows claimIDs through asOf =
     (case captureRows validateTransitionRow (transitionInBounds through asOf) trClaimID claimIDs rows of
        Inl e \<Rightarrow> Inl e | Inr _ \<Rightarrow> ok)"

definition captureClaims ::
    "(ClaimSeed \<Rightarrow> bool) \<Rightarrow> ClaimSeed list \<Rightarrow> (projection_error, ClaimSeed list) result" where
  "captureClaims inBounds claims =
     foldE (\<lambda>kept claim. case validateClaimSeed claim of Inl e \<Rightarrow> Inl e
       | Inr _ \<Rightarrow> if \<not> inBounds claim then Inr kept
           else if sdClaimID claim \<in> set (map sdClaimID kept) then Inl (ProjectionError ''duplicate claim seed'')
           else Inr (kept @ [claim])) [] claims"

section \<open>Transitions\<close>

fun applyTransitions ::
    "(string \<Rightarrow> bool) \<Rightarrow> string \<Rightarrow> bool \<Rightarrow> string \<Rightarrow> ClaimTransition list \<Rightarrow> (projection_error, string) result" where
  "applyTransitions valid initial first current [] = Inr current"
| "applyTransitions valid initial first current (t # ts) =
     (if \<not> valid (trTo t) \<or> (trFrom t \<noteq> '''' \<and> \<not> valid (trFrom t))
      then Inl (ProjectionError ''invalid claim transition'')
      else if trFrom t = '''' then
        (if \<not> first \<or> trTo t \<noteq> initial then Inl (ProjectionError ''invalid initial claim transition'')
         else applyTransitions valid initial False (trTo t) ts)
      else if trFrom t \<noteq> current \<or> trTo t = current
      then Inl (ProjectionError ''invalid claim transition from current'')
      else applyTransitions valid initial False (trTo t) ts)"

definition selectTransitions ::
    "(ID \<Rightarrow> string) \<Rightarrow> ID \<Rightarrow> ClaimTransition list \<Rightarrow> CommitSeq \<Rightarrow> Instant \<Rightarrow> ClaimTransition list" where
  "selectTransitions idString claimID ts through asOf =
     slice_stable (commit_before idString trCommitSeq trTransitionID)
       (filter (\<lambda>t. trClaimID t = claimID \<and> trCommitSeq t \<le> through \<and> trRecordedAt t \<le> asOf) ts)"

definition replayClaimTransition ::
    "(ID \<Rightarrow> string) \<Rightarrow> string \<Rightarrow> ID \<Rightarrow> ClaimTransition list \<Rightarrow> CommitSeq \<Rightarrow> Instant \<Rightarrow> (string \<Rightarrow> bool)
      \<Rightarrow> (projection_error, string) result" where
  "replayClaimTransition idString initial claimID ts through asOf valid =
     applyTransitions valid initial True initial (selectTransitions idString claimID ts through asOf)"

definition validClaimStatus :: "string \<Rightarrow> bool" where
  "validClaimStatus v \<longleftrightarrow> ClaimStatus_Validate v = ok"

definition validClaimStage :: "string \<Rightarrow> bool" where
  "validClaimStage v \<longleftrightarrow> ClaimStage_Validate v = ok"

section \<open>Replay of claim states\<close>

definition replayClaim ::
    "(ID \<Rightarrow> string) \<Rightarrow> evaluator \<Rightarrow> ClaimReplayInput \<Rightarrow> (ID \<Rightarrow> ClaimEvidence list) \<Rightarrow> (ID \<Rightarrow> ClaimUsage list)
      \<Rightarrow> (ID \<Rightarrow> ClaimValidityAssertion list) \<Rightarrow> ClaimSeed \<Rightarrow> (projection_error, ClaimState) result" where
  "replayClaim idString evaluate input evidence usages validity claim =
     (let i = sdClaimID claim; through = riThroughCommitSeq input; asOf = riAsOf input
      in case replayClaimTransition idString ''active'' i (riStatusTransitions input) through asOf validClaimStatus of
        Inl e \<Rightarrow> Inl e
      | Inr status \<Rightarrow>
        (case replayClaimTransition idString ''floating'' i (riStageTransitions input) through asOf validClaimStage of
           Inl e \<Rightarrow> Inl e
         | Inr stage \<Rightarrow>
           (case evaluate \<lparr>ciClaim = claim, ciStatus = status, ciStage = stage, ciAsOf = asOf,
               ciActivePolicyRevisionID = riActivePolicyRevisionID input, ciEvidence = evidence i,
               ciUsages = usages i, ciValidityAssertions = validity i\<rparr> of
              Inl e \<Rightarrow> Inl e
            | Inr metrics \<Rightarrow>
              (case validateClaimStateMetrics metrics asOf of Inl e \<Rightarrow> Inl e
               | Inr _ \<Rightarrow>
                 Inr \<lparr>csClaimID = i, csStage = stage, csStatus = status, csSalience = mtSalience metrics,
                   csConfidence = mtConfidence metrics, csCurrentness = mtCurrentness metrics,
                   csTemporalRelation = mtTemporalRelation metrics,
                   csLastReferencedAt = mtLastReferencedAt metrics,
                   csEvidenceCount = int (length (evidence i))\<rparr>))))"

definition claim_before :: "(ID \<Rightarrow> string) \<Rightarrow> ClaimSeed \<Rightarrow> ClaimSeed \<Rightarrow> bool" where
  "claim_before idString a b \<longleftrightarrow> idString (sdClaimID a) < idString (sdClaimID b)"

text \<open>\<^verbatim>\<open>ReplayClaimStates\<close>; the evaluator is \<open>None\<close> where the Go interface value is nil.\<close>

definition ReplayClaimStates ::
    "(ID \<Rightarrow> string) \<Rightarrow> evaluator option \<Rightarrow> ClaimReplayInput \<Rightarrow> (projection_error, ClaimState list) result" where
  "ReplayClaimStates idString evaluator input =
     (let through = riThroughCommitSeq input; asOf = riAsOf input
      in case commitCheck through of Inl e \<Rightarrow> Inl e
      | Inr _ \<Rightarrow>
        if (case riPreviousAsOf input of None \<Rightarrow> False | Some p \<Rightarrow> asOf < p) then Inl ErrAsOfRegression
        else case ID_Validate (riActivePolicyRevisionID input) of
          Inl e \<Rightarrow> Inl (ErrUnresolvedDependency ''invalid active memory policy'')
        | Inr _ \<Rightarrow>
          (case evaluator of None \<Rightarrow> Inl ErrClaimStateEvaluatorUnavailable
           | Some evaluate \<Rightarrow>
             (case captureClaims (\<lambda>c. sdCommitSeq c \<le> through \<and> sdRecordedAt c \<le> asOf) (riClaims input) of
                Inl e \<Rightarrow> Inl e
              | Inr claims \<Rightarrow>
                (let claimIDs = set (map sdClaimID claims)
                 in case capturedEvidence idString (riEvidence input) claimIDs through asOf of Inl e \<Rightarrow> Inl e
                 | Inr evidence \<Rightarrow> (case capturedUsages idString (riUsages input) claimIDs through asOf of Inl e \<Rightarrow> Inl e
                 | Inr usages \<Rightarrow> (case capturedValidity idString (riValidityAssertions input) claimIDs through asOf of
                     Inl e \<Rightarrow> Inl e
                 | Inr validity \<Rightarrow>
                   (case checks [validateCapturedTransitions (riStatusTransitions input) claimIDs through asOf,
                       validateCapturedTransitions (riStageTransitions input) claimIDs through asOf] of Inl e \<Rightarrow> Inl e
                    | Inr _ \<Rightarrow> mapE (replayClaim idString evaluate input evidence usages validity)
                        (slice_stable (claim_before idString) claims))))))))"

section \<open>View scopes\<close>

record ClaimViewScopeAssertion =
  vsAssertionID :: ID
  vsClaimID :: ID
  vsCommitSeq :: CommitSeq
  vsRecordedAt :: Instant
  vsViewScope :: string

record ClaimViewScopeState =
  ssClaimID :: ID
  ssViewScope :: string
  ssSourceAssertionID :: ID

definition validateViewScopeRow :: "ClaimViewScopeAssertion \<Rightarrow> (projection_error, unit) result" where
  "validateViewScopeRow r =
     checks [idCheck (vsAssertionID r), idCheck (vsClaimID r), commitCheck (vsCommitSeq r),
       ClaimViewScope_Validate (vsViewScope r)]"

text \<open>The update of the map \<^verbatim>\<open>current\<close> by one captured assertion.\<close>

definition keepLatest ::
    "(ID \<Rightarrow> string) \<Rightarrow> (ID \<rightharpoonup> ClaimViewScopeAssertion) \<Rightarrow> ClaimViewScopeAssertion \<Rightarrow> ID \<rightharpoonup> ClaimViewScopeAssertion" where
  "keepLatest idString current r =
     (case current (vsClaimID r) of
        None \<Rightarrow> current(vsClaimID r \<mapsto> r)
      | Some previous \<Rightarrow> if commit_before idString vsCommitSeq vsAssertionID previous r
          then current(vsClaimID r \<mapsto> r) else current)"

definition ReplayClaimViewScopes ::
    "(ID \<Rightarrow> string) \<Rightarrow> CommitSeq \<Rightarrow> ClaimSeed list \<Rightarrow> ClaimViewScopeAssertion list
      \<Rightarrow> (projection_error, ClaimViewScopeState list) result" where
  "ReplayClaimViewScopes idString through claims assertions =
     (case commitCheck through of Inl e \<Rightarrow> Inl e
      | Inr _ \<Rightarrow> (case captureClaims (\<lambda>c. sdCommitSeq c \<le> through) claims of Inl e \<Rightarrow> Inl e
      | Inr captured \<Rightarrow>
        (case captureRows validateViewScopeRow (\<lambda>r. vsCommitSeq r \<le> through) vsClaimID
            (set (map sdClaimID captured)) assertions of Inl e \<Rightarrow> Inl e
         | Inr kept \<Rightarrow>
           (let current = foldl (keepLatest idString) Map.empty kept
            in mapE (\<lambda>claimID. case current claimID of
                None \<Rightarrow> Inl (ProjectionError ''claim has no captured view-scope assertion'')
              | Some r \<Rightarrow> Inr \<lparr>ssClaimID = claimID, ssViewScope = vsViewScope r, ssSourceAssertionID = vsAssertionID r\<rparr>)
              (slice_stable (\<lambda>a b. idString a < idString b) (map sdClaimID captured))))))"

section \<open>Content references\<close>

record ContentReference =
  crContentID :: ID
  crResidentID :: ID
  crReferrerKind :: string
  crReferrerID :: ID
  crReferrerField :: string
  crDedupeScopeID :: "ID option"
  crBlobHashAlgorithm :: "string option"
  crBlobHash :: "string option"

definition token_char :: "char \<Rightarrow> bool" where
  "token_char c \<longleftrightarrow> (97 \<le> byte c \<and> byte c \<le> 122) \<or> (48 \<le> byte c \<and> byte c \<le> 57) \<or> c = CHR ''_''"

fun has_double_underscore :: "string \<Rightarrow> bool" where
  "has_double_underscore (a # b # s) = (a = CHR ''_'' \<and> b = CHR ''_'' \<or> has_double_underscore (b # s))"
| "has_double_underscore _ = False"

definition validReferenceToken :: "string \<Rightarrow> bool" where
  "validReferenceToken value =
     (if value = '''' \<or> byte (hd value) < 97 \<or> byte (hd value) > 122 then False
      else if \<not> list_all token_char (tl value) then False
      else \<not> has_double_underscore value)"

definition ContentReference_Validate :: "ContentReference \<Rightarrow> (projection_error, unit) result" where
  "ContentReference_Validate r =
     checks [idCheck (crContentID r), idCheck (crResidentID r), idCheck (crReferrerID r),
       (if \<not> validReferenceToken (crReferrerKind r) \<or> \<not> validReferenceToken (crReferrerField r)
        then Inl (ProjectionError ''invalid content reference tuple'') else ok),
       (if crDedupeScopeID r = None \<and> crBlobHashAlgorithm r = None \<and> crBlobHash r = None then ok
        else case (crDedupeScopeID r, crBlobHashAlgorithm r, crBlobHash r) of
          (Some scope, Some algorithm, Some hash) \<Rightarrow>
            checks [idCheck scope, (if algorithm \<noteq> ''sha256''
              then Inl (ProjectionError ''unsupported content reference hash algorithm'') else ok)]
        | _ \<Rightarrow> Inl (ProjectionError ''content reference locator must be wholly present or wholly absent''))]"

definition contentReferenceKey :: "(ID \<Rightarrow> string) \<Rightarrow> ContentReference \<Rightarrow> string" where
  "contentReferenceKey idString r =
     idString (crContentID r) @ [CHR 0x00] @ crReferrerKind r @ [CHR 0x00] @
     idString (crReferrerID r) @ [CHR 0x00] @ crReferrerField r"

text \<open>The loop of \<^verbatim>\<open>ValidateContentReferences\<close>; \<open>previous\<close> is the key before, if any.\<close>

fun validateReferences ::
    "(ID \<Rightarrow> string) \<Rightarrow> ID \<Rightarrow> string option \<Rightarrow> ContentReference list \<Rightarrow> (projection_error, unit) result" where
  "validateReferences idString residentID previous [] = ok"
| "validateReferences idString residentID previous (r # rs) =
     (case ContentReference_Validate r of Inl e \<Rightarrow> Inl e
      | Inr _ \<Rightarrow>
        if crResidentID r \<noteq> residentID then Inl (ProjectionError ''content reference belongs to another resident'')
        else let key = contentReferenceKey idString r
          in if (case previous of None \<Rightarrow> False | Some p \<Rightarrow> key \<le> p)
             then Inl (ProjectionError ''content references are unordered or duplicated'')
             else validateReferences idString residentID (Some key) rs)"

definition ValidateContentReferences ::
    "(ID \<Rightarrow> string) \<Rightarrow> ContentReference list \<Rightarrow> ID \<Rightarrow> (projection_error, unit) result" where
  "ValidateContentReferences idString values residentID =
     (case idCheck residentID of Inl e \<Rightarrow> Inl e | Inr _ \<Rightarrow> validateReferences idString residentID None values)"

definition SortContentReferences :: "(ID \<Rightarrow> string) \<Rightarrow> ContentReference list \<Rightarrow> ContentReference list" where
  "SortContentReferences idString values =
     slice_stable (\<lambda>a b. contentReferenceKey idString a < contentReferenceKey idString b) values"

section \<open>Facts about the capture\<close>

lemma idCheck_ok [simp]: "idCheck i = Inr u \<longleftrightarrow> i \<noteq> 0"
  by (auto simp: idCheck_def split: sum.splits)

lemma commitCheck_ok [simp]: "commitCheck s = Inr u \<longleftrightarrow> 0 < s"
  by (simp add: commitCheck_def CommitSeq_Validate_def NewCommitSeq_def)

lemma ratioCheck_ok [simp]: "ratioCheck r = Inr u \<longleftrightarrow> 0 \<le> r \<and> r \<le> 1000000"
  by (simp add: ratioCheck_def Ratio_Validate_def NewRatio_def FixedPointScale_def)

lemma captureRows_fold:
  "foldE (\<lambda>kept row. case validate row of Inl e \<Rightarrow> Inl e
       | Inr _ \<Rightarrow> if \<not> inBounds row then Inr kept
           else if claimOf row \<notin> claimIDs then Inl (ProjectionError ''references uncaptured claim'')
           else Inr (kept @ [row])) pre rows = Inr kept \<longleftrightarrow>
     (\<forall>row\<in>set rows. validate row = ok \<and> (inBounds row \<longrightarrow> claimOf row \<in> claimIDs))
     \<and> kept = pre @ filter inBounds rows"
proof (induction rows arbitrary: pre)
  case (Cons row rows)
  show ?case by (cases "validate row") (auto simp: Cons.IH)
qed auto

lemma captureRows_ok:
  "captureRows validate inBounds claimOf claimIDs rows = Inr kept \<longleftrightarrow>
     (\<forall>row\<in>set rows. validate row = ok \<and> (inBounds row \<longrightarrow> claimOf row \<in> claimIDs))
     \<and> kept = filter inBounds rows"
  by (simp add: captureRows_def captureRows_fold)

lemma captureClaims_fold:
  "foldE (\<lambda>kept claim. case validateClaimSeed claim of Inl e \<Rightarrow> Inl e
       | Inr _ \<Rightarrow> if \<not> inBounds claim then Inr kept
           else if sdClaimID claim \<in> set (map sdClaimID kept) then Inl (ProjectionError ''duplicate claim seed'')
           else Inr (kept @ [claim])) pre claims = Inr kept \<longleftrightarrow>
     (\<forall>claim\<in>set claims. validateClaimSeed claim = ok) \<and> kept = pre @ filter inBounds claims
     \<and> distinct (map sdClaimID (filter inBounds claims))
     \<and> set (map sdClaimID pre) \<inter> set (map sdClaimID (filter inBounds claims)) = {}"
proof (induction claims arbitrary: pre)
  case (Cons claim claims)
  show ?case by (cases "validateClaimSeed claim") (auto simp: Cons.IH)
qed auto

lemma captureClaims_ok:
  "captureClaims inBounds claims = Inr kept \<longleftrightarrow>
     (\<forall>claim\<in>set claims. validateClaimSeed claim = ok) \<and> kept = filter inBounds claims
     \<and> distinct (map sdClaimID (filter inBounds claims))"
  using captureClaims_fold [of inBounds "[]" claims kept] by (simp add: captureClaims_def)

section \<open>The order of rows does not matter\<close>

lemma sort_order_commit: "sort_order (commit_before idString commitOf idOf)"
  unfolding commit_before_def by (intro sort_order_lex sort_order_key)

lemma slice_stable_perm:
  assumes "sort_order lt" and "mset xs = mset ys"
    and "\<And>a b. a \<in> set ys \<Longrightarrow> b \<in> set ys \<Longrightarrow> a \<noteq> b \<Longrightarrow> lt a b \<or> lt b a"
  shows "slice_stable lt xs = slice_stable lt ys"
  using assms sort_order.slice_stable_unique [OF assms(1), of "slice_stable lt xs" ys]
    sort_order.slice_stable_sorted [OF assms(1)] by simp

lemma commit_separates:
  assumes "inj idString" and "distinct (map idOf rows)" and "a \<in> set rows" and "b \<in> set rows" and "a \<noteq> b"
  shows "commit_before idString commitOf idOf a b \<or> commit_before idString commitOf idOf b a"
proof -
  have "idOf a \<noteq> idOf b"
    using assms(2-5) by (auto simp: distinct_map inj_on_def)
  then have "idString (idOf a) \<noteq> idString (idOf b)"
    using assms(1) by (auto dest: injD)
  then show ?thesis by (auto simp: commit_before_def)
qed

lemma sorted_rows_perm:
  assumes "inj idString" and "distinct (map idOf ys)" and "mset xs = mset ys"
  shows "slice_stable (commit_before idString commitOf idOf) (filter p xs)
    = slice_stable (commit_before idString commitOf idOf) (filter p ys)"
proof (rule slice_stable_perm [OF sort_order_commit])
  show "mset (filter p xs) = mset (filter p ys)" using assms(3) by simp
qed (use commit_separates [OF assms(1,2)] in auto)

lemma grouped_perm:
  assumes "inj idString" and "distinct (map idOf ys)" and "mset xs = mset ys"
  shows "grouped (commit_before idString commitOf idOf) claimOf xs
    = grouped (commit_before idString commitOf idOf) claimOf ys"
  unfolding grouped_def using sorted_rows_perm [OF assms] by auto

lemma sorted_claims_perm:
  assumes "inj idString" and "distinct (map sdClaimID ys)" and "mset xs = mset ys"
  shows "slice_stable (claim_before idString) xs = slice_stable (claim_before idString) ys"
proof (rule slice_stable_perm [OF _ assms(3)])
  show "sort_order (claim_before idString)"
    unfolding claim_before_def by (rule sort_order_key)
  fix a b
  assume "a \<in> set ys" "b \<in> set ys" "a \<noteq> b"
  then have "sdClaimID a \<noteq> sdClaimID b"
    using assms(2) by (auto simp: distinct_map inj_on_def)
  then have "idString (sdClaimID a) \<noteq> idString (sdClaimID b)"
    using assms(1) by (auto dest: injD)
  then show "claim_before idString a b \<or> claim_before idString b a"
    by (auto simp: claim_before_def)
qed

section \<open>What a replay depends on\<close>

text \<open>The rows of an input that its bounds admit, and the inputs whose rows are all valid.\<close>

definition claims_in :: "ClaimReplayInput \<Rightarrow> ClaimSeed list" where
  "claims_in i = filter (\<lambda>c. sdCommitSeq c \<le> riThroughCommitSeq i \<and> sdRecordedAt c \<le> riAsOf i) (riClaims i)"

definition evidence_in :: "ClaimReplayInput \<Rightarrow> ClaimEvidence list" where
  "evidence_in i = filter (\<lambda>r. evCommitSeq r \<le> riThroughCommitSeq i \<and> evRecordedAt r \<le> riAsOf i) (riEvidence i)"

definition usages_in :: "ClaimReplayInput \<Rightarrow> ClaimUsage list" where
  "usages_in i = filter (\<lambda>r. usCommitSeq r \<le> riThroughCommitSeq i \<and> usRecordedAt r \<le> riAsOf i) (riUsages i)"

definition validity_in :: "ClaimReplayInput \<Rightarrow> ClaimValidityAssertion list" where
  "validity_in i =
     filter (\<lambda>r. vaCommitSeq r \<le> riThroughCommitSeq i \<and> vaRecordedAt r \<le> riAsOf i) (riValidityAssertions i)"

definition status_in :: "ClaimReplayInput \<Rightarrow> ClaimTransition list" where
  "status_in i = filter (transitionInBounds (riThroughCommitSeq i) (riAsOf i)) (riStatusTransitions i)"

definition stage_in :: "ClaimReplayInput \<Rightarrow> ClaimTransition list" where
  "stage_in i = filter (transitionInBounds (riThroughCommitSeq i) (riAsOf i)) (riStageTransitions i)"

definition rows_valid :: "ClaimReplayInput \<Rightarrow> bool" where
  "rows_valid i \<longleftrightarrow> (\<forall>c\<in>set (riClaims i). validateClaimSeed c = ok)
     \<and> (\<forall>r\<in>set (riEvidence i). validateClaimEvidence r = ok) \<and> (\<forall>r\<in>set (riUsages i). validateClaimUsage r = ok)
     \<and> (\<forall>r\<in>set (riValidityAssertions i). validateClaimValidity r = ok)
     \<and> (\<forall>r\<in>set (riStatusTransitions i). validateTransitionRow r = ok)
     \<and> (\<forall>r\<in>set (riStageTransitions i). validateTransitionRow r = ok)"

text \<open>Every admitted row belongs to an admitted claim; no claim is admitted twice.\<close>

definition rows_closed :: "ClaimReplayInput \<Rightarrow> bool" where
  "rows_closed i \<longleftrightarrow> distinct (map sdClaimID (claims_in i))
     \<and> evClaimID ` set (evidence_in i) \<union> usClaimID ` set (usages_in i) \<union> vaClaimID ` set (validity_in i)
       \<union> trClaimID ` set (status_in i) \<union> trClaimID ` set (stage_in i) \<subseteq> sdClaimID ` set (claims_in i)"

lemmas rows_in_defs = claims_in_def evidence_in_def usages_in_def validity_in_def status_in_def stage_in_def

definition header_ok :: "ClaimReplayInput \<Rightarrow> bool" where
  "header_ok i \<longleftrightarrow> 0 < riThroughCommitSeq i \<and> riActivePolicyRevisionID i \<noteq> 0
     \<and> (case riPreviousAsOf i of None \<Rightarrow> True | Some p \<Rightarrow> p \<le> riAsOf i)"

lemma captured_ok:
  "capturedEvidence idString (riEvidence i) ids (riThroughCommitSeq i) (riAsOf i) = Inr f \<longleftrightarrow>
     (\<forall>r\<in>set (riEvidence i). validateClaimEvidence r = ok) \<and> evClaimID ` set (evidence_in i) \<subseteq> ids
     \<and> f = grouped (commit_before idString evCommitSeq evEvidenceID) evClaimID (evidence_in i)"
  "capturedUsages idString (riUsages i) ids (riThroughCommitSeq i) (riAsOf i) = Inr g \<longleftrightarrow>
     (\<forall>r\<in>set (riUsages i). validateClaimUsage r = ok) \<and> usClaimID ` set (usages_in i) \<subseteq> ids
     \<and> g = grouped (commit_before idString usCommitSeq usUsageID) usClaimID (usages_in i)"
  "capturedValidity idString (riValidityAssertions i) ids (riThroughCommitSeq i) (riAsOf i) = Inr h \<longleftrightarrow>
     (\<forall>r\<in>set (riValidityAssertions i). validateClaimValidity r = ok) \<and> vaClaimID ` set (validity_in i) \<subseteq> ids
     \<and> h = grouped (commit_before idString vaCommitSeq vaAssertionID) vaClaimID (validity_in i)"
  unfolding capturedEvidence_def capturedUsages_def capturedValidity_def case_result_ok captureRows_ok
  by (auto simp: rows_in_defs)

lemma transitions_ok:
  "validateCapturedTransitions (riStatusTransitions i) ids (riThroughCommitSeq i) (riAsOf i) = ok \<longleftrightarrow>
     (\<forall>r\<in>set (riStatusTransitions i). validateTransitionRow r = ok) \<and> trClaimID ` set (status_in i) \<subseteq> ids"
  "validateCapturedTransitions (riStageTransitions i) ids (riThroughCommitSeq i) (riAsOf i) = ok \<longleftrightarrow>
     (\<forall>r\<in>set (riStageTransitions i). validateTransitionRow r = ok) \<and> trClaimID ` set (stage_in i) \<subseteq> ids"
  unfolding validateCapturedTransitions_def case_result_ok captureRows_ok
  by (auto simp: rows_in_defs)

text \<open>The evaluation of one claim from the admitted rows.\<close>

definition claim_result ::
    "(ID \<Rightarrow> string) \<Rightarrow> evaluator \<Rightarrow> ClaimReplayInput \<Rightarrow> ClaimSeed \<Rightarrow> (projection_error, ClaimState) result" where
  "claim_result idString evaluate i =
     replayClaim idString evaluate i
       (grouped (commit_before idString evCommitSeq evEvidenceID) evClaimID (evidence_in i))
       (grouped (commit_before idString usCommitSeq usUsageID) usClaimID (usages_in i))
       (grouped (commit_before idString vaCommitSeq vaAssertionID) vaClaimID (validity_in i))"

lemma ReplayClaimStates_ok:
  "ReplayClaimStates idString (Some evaluate) i = Inr states \<longleftrightarrow>
     header_ok i \<and> rows_valid i \<and> rows_closed i
     \<and> mapE (claim_result idString evaluate i) (slice_stable (claim_before idString) (claims_in i)) = Inr states"
proof -
  have header: "(case riPreviousAsOf i of None \<Rightarrow> False | Some p \<Rightarrow> riAsOf i < p) \<longleftrightarrow>
      \<not> (case riPreviousAsOf i of None \<Rightarrow> True | Some p \<Rightarrow> p \<le> riAsOf i)"
    by (simp add: not_le split: option.splits)
  have claims: "captureClaims (\<lambda>c. sdCommitSeq c \<le> riThroughCommitSeq i \<and> sdRecordedAt c \<le> riAsOf i) (riClaims i)
      = Inr kept \<longleftrightarrow> (\<forall>c\<in>set (riClaims i). validateClaimSeed c = ok) \<and> kept = claims_in i
        \<and> distinct (map sdClaimID (claims_in i))" for kept
    unfolding captureClaims_ok claims_in_def ..
  show ?thesis
    unfolding ReplayClaimStates_def Let_def case_result_ok header claims captured_ok checks_ok
    by (auto simp: header_ok_def rows_valid_def rows_closed_def claim_result_def transitions_ok
        case_result_ok claims captured_ok ID_Validate_def ID_IsZero_def)
qed

lemma selectTransitions_in:
  "selectTransitions idString c (riStatusTransitions i) (riThroughCommitSeq i) (riAsOf i) =
     slice_stable (commit_before idString trCommitSeq trTransitionID) (filter (\<lambda>t. trClaimID t = c) (status_in i))"
  "selectTransitions idString c (riStageTransitions i) (riThroughCommitSeq i) (riAsOf i) =
     slice_stable (commit_before idString trCommitSeq trTransitionID) (filter (\<lambda>t. trClaimID t = c) (stage_in i))"
  by (simp_all add: selectTransitions_def rows_in_defs transitionInBounds_def conj_ac)

text \<open>Two inputs with the same header and the same admitted rows, in whatever order.\<close>

definition same_capture :: "ClaimReplayInput \<Rightarrow> ClaimReplayInput \<Rightarrow> bool" where
  "same_capture i j \<longleftrightarrow> riThroughCommitSeq i = riThroughCommitSeq j \<and> riAsOf i = riAsOf j
     \<and> riPreviousAsOf i = riPreviousAsOf j \<and> riActivePolicyRevisionID i = riActivePolicyRevisionID j
     \<and> mset (claims_in i) = mset (claims_in j) \<and> mset (evidence_in i) = mset (evidence_in j)
     \<and> mset (usages_in i) = mset (usages_in j) \<and> mset (validity_in i) = mset (validity_in j)
     \<and> mset (status_in i) = mset (status_in j) \<and> mset (stage_in i) = mset (stage_in j)"

text \<open>Row identifiers are primary keys.\<close>

definition rows_keyed :: "ClaimReplayInput \<Rightarrow> bool" where
  "rows_keyed i \<longleftrightarrow> distinct (map evEvidenceID (evidence_in i)) \<and> distinct (map usUsageID (usages_in i))
     \<and> distinct (map vaAssertionID (validity_in i)) \<and> distinct (map trTransitionID (status_in i))
     \<and> distinct (map trTransitionID (stage_in i))"

lemma claim_result_same:
  assumes "inj idString" and "rows_keyed i" and "same_capture j i"
  shows "claim_result idString evaluate j = claim_result idString evaluate i"
proof -
  have keys: "distinct (map evEvidenceID (evidence_in i))" "distinct (map usUsageID (usages_in i))"
    "distinct (map vaAssertionID (validity_in i))" "distinct (map trTransitionID (status_in i))"
    "distinct (map trTransitionID (stage_in i))"
    using assms(2) by (simp_all add: rows_keyed_def)
  have rows: "mset (evidence_in j) = mset (evidence_in i)" "mset (usages_in j) = mset (usages_in i)"
    "mset (validity_in j) = mset (validity_in i)" "mset (status_in j) = mset (status_in i)"
    "mset (stage_in j) = mset (stage_in i)"
    using assms(3) by (simp_all add: same_capture_def)
  have header: "riThroughCommitSeq j = riThroughCommitSeq i" "riAsOf j = riAsOf i"
    "riActivePolicyRevisionID j = riActivePolicyRevisionID i"
    using assms(3) by (simp_all add: same_capture_def)
  have sel: "selectTransitions idString c (riStatusTransitions j) (riThroughCommitSeq i) (riAsOf i)
      = selectTransitions idString c (riStatusTransitions i) (riThroughCommitSeq i) (riAsOf i)"
    "selectTransitions idString c (riStageTransitions j) (riThroughCommitSeq i) (riAsOf i)
      = selectTransitions idString c (riStageTransitions i) (riThroughCommitSeq i) (riAsOf i)" for c
    using sorted_rows_perm [OF assms(1) keys(4) rows(4)] sorted_rows_perm [OF assms(1) keys(5) rows(5)]
      selectTransitions_in [of idString c j, unfolded header] selectTransitions_in [of idString c i] by simp_all
  show ?thesis
    unfolding claim_result_def replayClaim_def replayClaimTransition_def Let_def
      grouped_perm [OF assms(1) keys(1) rows(1)] grouped_perm [OF assms(1) keys(2) rows(2)]
      grouped_perm [OF assms(1) keys(3) rows(3)] header sel ..
qed

lemma replay_same_capture:
  assumes "inj idString" and "ReplayClaimStates idString (Some evaluate) i = Inr states"
    and "rows_keyed i" and "same_capture j i"
  shows "ReplayClaimStates idString (Some evaluate) j = Inr states' \<longleftrightarrow> rows_valid j \<and> states' = states"
proof -
  have i: "header_ok i" "rows_closed i"
    "mapE (claim_result idString evaluate i) (slice_stable (claim_before idString) (claims_in i)) = Inr states"
    using assms(2) by (simp_all add: ReplayClaimStates_ok)
  have sets: "set (claims_in j) = set (claims_in i)" "set (evidence_in j) = set (evidence_in i)"
    "set (usages_in j) = set (usages_in i)" "set (validity_in j) = set (validity_in i)"
    "set (status_in j) = set (status_in i)" "set (stage_in j) = set (stage_in i)"
    using assms(4) by (auto simp: same_capture_def dest: mset_eq_setD)
  have claims: "mset (claims_in j) = mset (claims_in i)"
    using assms(4) by (simp add: same_capture_def)
  then have dist: "distinct (map sdClaimID (claims_in j)) \<longleftrightarrow> distinct (map sdClaimID (claims_in i))"
    by (metis mset_map mset_eq_imp_distinct_iff)
  have "rows_closed j"
    using i(2) by (simp add: rows_closed_def sets dist)
  moreover have "header_ok j"
    using i(1) assms(4) by (auto simp: header_ok_def same_capture_def split: option.splits)
  moreover have "slice_stable (claim_before idString) (claims_in j) = slice_stable (claim_before idString) (claims_in i)"
    using sorted_claims_perm [OF assms(1) _ claims] i(2) by (simp add: rows_closed_def)
  ultimately show ?thesis
    using i(3) by (auto simp: ReplayClaimStates_ok claim_result_same [OF assms(1,3,4)])
qed

section \<open>Transitions as a state machine\<close>

text \<open>A walk from one state to another: every step leaves the state it is in.\<close>

inductive walk :: "string \<Rightarrow> ClaimTransition list \<Rightarrow> string \<Rightarrow> bool" where
  stay: "walk s [] s"
| move: "trFrom t = s \<Longrightarrow> trTo t \<noteq> s \<Longrightarrow> walk (trTo t) ts s' \<Longrightarrow> walk s (t # ts) s'"

inductive_simps walk_Nil [simp]: "walk s [] s'"
inductive_simps walk_Cons [simp]: "walk s (t # ts) s'"

text \<open>The optional first row that enters the initial state from nothing.\<close>

definition entry :: "string \<Rightarrow> ClaimTransition \<Rightarrow> bool" where
  "entry initial t \<longleftrightarrow> trFrom t = '''' \<and> trTo t = initial"

lemma applyTransitions_walk:
  assumes "\<not> valid ''''" and "valid current"
  shows "applyTransitions valid initial False current ts = Inr s \<longleftrightarrow>
    walk current ts s \<and> (\<forall>t\<in>set ts. valid (trTo t))"
  using assms(2)
proof (induction ts arbitrary: current)
  case (Cons t ts)
  show ?case
  proof (cases "valid (trTo t) \<and> trFrom t \<noteq> ''''")
    case True
    then show ?thesis using Cons by auto
  next
    case False
    then show ?thesis using Cons.prems assms(1) by auto
  qed
qed auto

lemma replay_walk:
  assumes "\<not> valid ''''" and "valid initial"
  shows "applyTransitions valid initial True initial ts = Inr s \<longleftrightarrow>
    (\<exists>moves. (ts = moves \<or> (\<exists>t. ts = t # moves \<and> entry initial t))
       \<and> walk initial moves s \<and> (\<forall>t\<in>set ts. valid (trTo t)))"
proof (cases ts)
  case Nil
  then show ?thesis by auto
next
  case (Cons t rest)
  show ?thesis
  proof (cases "trFrom t = ''''")
    case True
    then have "\<not> walk initial (t # rest) s" using assms by auto
    then show ?thesis
      using True Cons assms applyTransitions_walk [OF assms(1,2), of initial rest s]
      by (auto simp: entry_def)
  next
    case False
    then show ?thesis
      using Cons assms applyTransitions_walk [where valid = valid, OF assms(1), of "trTo t" initial rest s]
      by (auto simp: entry_def)
  qed
qed

lemma statuses_valid [simp]:
  "validClaimStatus ''active''" "\<not> validClaimStatus ''''" "validClaimStage ''floating''" "\<not> validClaimStage ''''"
  by (simp_all add: validClaimStatus_def ClaimStatus_Validate_def ClaimStatus_members_def
      validClaimStage_def ClaimStage_Validate_def ClaimStage_members_def)

text \<open>The state of a claim is where its admitted transitions lead.\<close>

definition leads_to :: "(string \<Rightarrow> bool) \<Rightarrow> string \<Rightarrow> ClaimTransition list \<Rightarrow> string \<Rightarrow> bool" where
  "leads_to valid initial ts s \<longleftrightarrow>
     (\<exists>moves. (ts = moves \<or> (\<exists>t. ts = t # moves \<and> entry initial t))
        \<and> walk initial moves s \<and> (\<forall>t\<in>set ts. valid (trTo t)))"

text \<open>
  The rows of one claim that the bounds admit, each as often as it was read, in the order of commits and, within a
  commit, of their identifiers' texts.
\<close>

definition captured_history ::
    "(ID \<Rightarrow> string) \<Rightarrow> ('r \<Rightarrow> ID) \<Rightarrow> ('r \<Rightarrow> CommitSeq) \<Rightarrow> ('r \<Rightarrow> Instant) \<Rightarrow> ('r \<Rightarrow> ID)
      \<Rightarrow> ClaimReplayInput \<Rightarrow> ID \<Rightarrow> 'r list \<Rightarrow> 'r list \<Rightarrow> bool" where
  "captured_history idString claimOf commitOf recordedOf idOf i claimID rows history \<longleftrightarrow>
     mset history = {#r \<in># mset rows. claimOf r = claimID \<and> commitOf r \<le> riThroughCommitSeq i \<and> recordedOf r \<le> riAsOf i#}
     \<and> sorted_wrt (\<lambda>a b. commitOf a < commitOf b \<or> commitOf a = commitOf b \<and> idString (idOf a) \<le> idString (idOf b)) history"

lemma captured_historyI:
  assumes "xs = filter (\<lambda>r. claimOf r = c \<and> commitOf r \<le> riThroughCommitSeq i \<and> recordedOf r \<le> riAsOf i) rows"
  shows "captured_history idString claimOf commitOf recordedOf idOf i c rows (slice_stable (commit_before idString commitOf idOf) xs)"
proof -
  have "sorted_wrt (\<lambda>a b. \<not> commit_before idString commitOf idOf b a) (slice_stable (commit_before idString commitOf idOf) xs)"
    by (rule sort_order.slice_stable_sorted [OF sort_order_commit])
  then have "sorted_wrt (\<lambda>a b. commitOf a < commitOf b \<or> commitOf a = commitOf b \<and> idString (idOf a) \<le> idString (idOf b))
      (slice_stable (commit_before idString commitOf idOf) xs)"
    by (rule sorted_wrt_mono_rel [rotated]) (auto simp: commit_before_def not_less split: if_splits)
  then show ?thesis by (simp add: captured_history_def assms)
qed

lemma claims_sorted: "sorted (map (\<lambda>c. idString (sdClaimID c)) (slice_stable (claim_before idString) cs))"
proof -
  have "sort_order (claim_before idString)"
    by standard (auto simp: claim_before_def)
  then have "sorted_wrt (\<lambda>a b. \<not> claim_before idString b a) (slice_stable (claim_before idString) cs)"
    by (rule sort_order.slice_stable_sorted)
  then show ?thesis by (simp add: sorted_map claim_before_def not_less)
qed

lemma captured_rows:
  "captured_history idString evClaimID evCommitSeq evRecordedAt evEvidenceID i c (riEvidence i)
     (grouped (commit_before idString evCommitSeq evEvidenceID) evClaimID (evidence_in i) c)"
  "captured_history idString usClaimID usCommitSeq usRecordedAt usUsageID i c (riUsages i)
     (grouped (commit_before idString usCommitSeq usUsageID) usClaimID (usages_in i) c)"
  "captured_history idString vaClaimID vaCommitSeq vaRecordedAt vaAssertionID i c (riValidityAssertions i)
     (grouped (commit_before idString vaCommitSeq vaAssertionID) vaClaimID (validity_in i) c)"
  "captured_history idString trClaimID trCommitSeq trRecordedAt trTransitionID i c ts
     (selectTransitions idString c ts (riThroughCommitSeq i) (riAsOf i))"
  unfolding grouped_def selectTransitions_def
  by (rule captured_historyI; simp add: rows_in_defs conj_ac)+

text \<open>
  What the state of a claim must be: status and stage are where the claim's own captured transitions lead, the metrics
  are the evaluator's for the claim with its captured evidence, usages and validity assertions.
\<close>

definition state_ok :: "(ID \<Rightarrow> string) \<Rightarrow> evaluator \<Rightarrow> ClaimReplayInput \<Rightarrow> ClaimState \<Rightarrow> bool" where
  "state_ok idString evaluate i s \<longleftrightarrow>
     (\<exists>claim statuses stages evidence usages validity metrics.
        claim \<in> set (riClaims i) \<and> sdClaimID claim = csClaimID s
        \<and> captured_history idString trClaimID trCommitSeq trRecordedAt trTransitionID i (csClaimID s) (riStatusTransitions i) statuses
        \<and> leads_to validClaimStatus ''active'' statuses (csStatus s)
        \<and> captured_history idString trClaimID trCommitSeq trRecordedAt trTransitionID i (csClaimID s) (riStageTransitions i) stages
        \<and> leads_to validClaimStage ''floating'' stages (csStage s)
        \<and> captured_history idString evClaimID evCommitSeq evRecordedAt evEvidenceID i (csClaimID s) (riEvidence i) evidence
        \<and> captured_history idString usClaimID usCommitSeq usRecordedAt usUsageID i (csClaimID s) (riUsages i) usages
        \<and> captured_history idString vaClaimID vaCommitSeq vaRecordedAt vaAssertionID i (csClaimID s) (riValidityAssertions i) validity
        \<and> evaluate \<lparr>ciClaim = claim, ciStatus = csStatus s, ciStage = csStage s, ciAsOf = riAsOf i,
              ciActivePolicyRevisionID = riActivePolicyRevisionID i, ciEvidence = evidence, ciUsages = usages,
              ciValidityAssertions = validity\<rparr> = Inr metrics
        \<and> csSalience s = mtSalience metrics \<and> csConfidence s = mtConfidence metrics \<and> csCurrentness s = mtCurrentness metrics
        \<and> csTemporalRelation s = mtTemporalRelation metrics \<and> csLastReferencedAt s = mtLastReferencedAt metrics
        \<and> csEvidenceCount s = int (length evidence))"

lemma claim_result_ok:
  assumes "claim_result idString evaluate i claim = Inr state" and "claim \<in> set (claims_in i)"
  shows "csClaimID state = sdClaimID claim \<and> state_ok idString evaluate i state
    \<and> float_finite (csSalience state) \<and> 0 \<le> csConfidence state \<and> csConfidence state \<le> 1000000"
proof -
  let ?c = "sdClaimID claim"
  let ?sel = "\<lambda>ts. selectTransitions idString ?c ts (riThroughCommitSeq i) (riAsOf i)"
  obtain metrics where m: "leads_to validClaimStatus ''active'' (?sel (riStatusTransitions i)) (csStatus state)"
    "leads_to validClaimStage ''floating'' (?sel (riStageTransitions i)) (csStage state)"
    "evaluate \<lparr>ciClaim = claim, ciStatus = csStatus state, ciStage = csStage state, ciAsOf = riAsOf i,
       ciActivePolicyRevisionID = riActivePolicyRevisionID i,
       ciEvidence = grouped (commit_before idString evCommitSeq evEvidenceID) evClaimID (evidence_in i) ?c,
       ciUsages = grouped (commit_before idString usCommitSeq usUsageID) usClaimID (usages_in i) ?c,
       ciValidityAssertions = grouped (commit_before idString vaCommitSeq vaAssertionID) vaClaimID (validity_in i) ?c\<rparr> = Inr metrics"
    "csClaimID state = ?c" "csSalience state = mtSalience metrics" "csConfidence state = mtConfidence metrics"
    "csCurrentness state = mtCurrentness metrics" "csTemporalRelation state = mtTemporalRelation metrics"
    "csLastReferencedAt state = mtLastReferencedAt metrics"
    "csEvidenceCount state = int (length (grouped (commit_before idString evCommitSeq evEvidenceID) evClaimID (evidence_in i) ?c))"
    "validateClaimStateMetrics metrics (riAsOf i) = ok"
    using assms(1) unfolding claim_result_def replayClaim_def Let_def case_result_ok replayClaimTransition_def
      replay_walk [OF statuses_valid(2,1)] replay_walk [OF statuses_valid(4,3)] leads_to_def [symmetric]
    by force
  have "claim \<in> set (riClaims i)" using assms(2) by (simp add: claims_in_def)
  with m(1-10) have "state_ok idString evaluate i state"
    unfolding state_ok_def by (intro exI conjI) (assumption | rule captured_rows | simp add: captured_rows)+
  moreover have "float_finite (mtSalience metrics) \<and> 0 \<le> mtConfidence metrics \<and> mtConfidence metrics \<le> 1000000"
    using m(11) by (auto simp: validateClaimStateMetrics_def split: if_splits)
  ultimately show ?thesis using m(4-6) by simp
qed

section \<open>Latest assertions\<close>

lemma keepLatest_apply:
  "keepLatest idString m q c =
     (if vsClaimID q \<noteq> c then m c
      else case m c of None \<Rightarrow> Some q
        | Some p \<Rightarrow> if commit_before idString vsCommitSeq vsAssertionID p q then Some q else Some p)"
  by (auto simp: keepLatest_def split: option.splits)

definition latest_of ::
    "(ID \<Rightarrow> string) \<Rightarrow> ID \<Rightarrow> ClaimViewScopeAssertion list \<Rightarrow> ClaimViewScopeAssertion option \<Rightarrow> bool" where
  "latest_of idString c kept r \<longleftrightarrow>
     (case r of None \<Rightarrow> \<forall>q\<in>set kept. vsClaimID q \<noteq> c
      | Some r \<Rightarrow> r \<in> set kept \<and> vsClaimID r = c
         \<and> (\<forall>q\<in>set kept. vsClaimID q = c \<longrightarrow> \<not> commit_before idString vsCommitSeq vsAssertionID r q))"

lemma latest_of_snoc:
  assumes "latest_of idString c kept (m c)"
  shows "latest_of idString c (kept @ [q]) (keepLatest idString m q c)"
proof -
  note negtrans = sort_order.negtrans [OF sort_order_commit, of idString vsCommitSeq vsAssertionID]
  note asym = sort_order.asym [OF sort_order_commit, of idString vsCommitSeq vsAssertionID]
  show ?thesis
  proof (cases "m c")
    case None
    then show ?thesis using assms asym by (auto simp: latest_of_def keepLatest_apply)
  next
    case (Some p)
    have "\<not> commit_before idString vsCommitSeq vsAssertionID q r"
      if "commit_before idString vsCommitSeq vsAssertionID p q" "r \<in> set kept" "vsClaimID r = c" for r
    proof -
      have "\<not> commit_before idString vsCommitSeq vsAssertionID p r"
        using assms Some that by (simp add: latest_of_def)
      then show ?thesis using asym that(1) negtrans by blast
    qed
    then show ?thesis
      using assms Some asym by (auto simp: latest_of_def keepLatest_apply)
  qed
qed

lemma keepLatest_fold: "latest_of idString c kept (foldl (keepLatest idString) Map.empty kept c)"
proof (induction kept rule: rev_induct)
  case (snoc q kept)
  then show ?case by (simp add: latest_of_snoc)
qed (simp add: latest_of_def)

lemma commit_before_le:
  "\<not> commit_before idString commitOf idOf r q \<Longrightarrow> commitOf q \<le> commitOf r"
  by (auto simp: commit_before_def split: if_splits)

section \<open>Ordered references\<close>

lemma validateReferences_ok:
  "validateReferences idString resident previous rs = Inr u \<longleftrightarrow>
     (\<forall>r\<in>set rs. ContentReference_Validate r = ok \<and> crResidentID r = resident)
     \<and> sorted_wrt (<) (map (contentReferenceKey idString) rs)
     \<and> (\<forall>p. previous = Some p \<longrightarrow> (\<forall>r\<in>set rs. p < contentReferenceKey idString r))"
proof (induction rs arbitrary: previous)
  case (Cons r rs)
  let ?key = "contentReferenceKey idString r"
  let ?good = "ContentReference_Validate r = ok \<and> crResidentID r = resident \<and> (\<forall>p. previous = Some p \<longrightarrow> p < ?key)"
  show ?case
  proof (cases ?good)
    case True
    then have step: "validateReferences idString resident previous (r # rs) = validateReferences idString resident (Some ?key) rs"
      by (cases previous) (auto simp: Let_def dest: leD)
    have lt: "p < contentReferenceKey idString q"
      if "previous = Some p" "?key < contentReferenceKey idString q" for p q
      using True that less_trans by blast
    show ?thesis
      unfolding step Cons.IH using True lt by auto
  next
    case False
    then have "validateReferences idString resident previous (r # rs) \<noteq> Inr u"
      by (cases previous) (auto simp: Let_def not_le split: sum.splits)
    then show ?thesis using False by auto
  qed
qed simp

lemma ValidateContentReferences_ok:
  "ValidateContentReferences idString rs resident = Inr u \<longleftrightarrow>
     resident \<noteq> 0 \<and> (\<forall>r\<in>set rs. ContentReference_Validate r = ok \<and> crResidentID r = resident)
     \<and> sorted_wrt (<) (map (contentReferenceKey idString) rs)"
  unfolding ValidateContentReferences_def case_result_ok by (simp add: validateReferences_ok)

lemma sorted_keys:
  "sorted (map (contentReferenceKey idString) (SortContentReferences idString rs))"
proof -
  have "sorted_wrt (\<lambda>a b. \<not> contentReferenceKey idString b < contentReferenceKey idString a)
      (SortContentReferences idString rs)"
    unfolding SortContentReferences_def by (rule sort_order.slice_stable_sorted [OF sort_order_key])
  then show ?thesis by (simp add: sorted_wrt_map not_less)
qed

section \<open>Lists related element by element\<close>

lemma list_all2_map_eq:
  assumes "list_all2 R xs ys" and "\<And>x y. R x y \<Longrightarrow> f y = g x"
  shows "map f ys = map g xs"
  using assms(1) by (induction rule: list_all2_induct) (simp_all add: assms(2))

lemma list_all2_preimage: "list_all2 R xs ys \<Longrightarrow> y \<in> set ys \<Longrightarrow> \<exists>x. R x y"
  by (auto simp: list_all2_conv_all_nth in_set_conv_nth)

end
