(* ===== verification/Replay_Properties.thy ===== *)
theory Replay_Properties
  imports Projection_Replay
begin

text \<open>
  The properties of the replay evaluators: the result of a claim-state replay depends on the admitted
  rows only, it fails on a malformed row wherever it is, and it yields one state per admitted claim,
  where its own transitions lead; the view scope of a claim
  is its latest assertion; sorting makes a body of content references valid exactly when it has
  no duplicates.
\<close>

section \<open>Concrete rows\<close>

definition ex_seed :: "ID \<Rightarrow> CommitSeq \<Rightarrow> ClaimSeed" where
  "ex_seed i s = \<lparr>sdClaimID = i, sdCommitSeq = s, sdRecordedAt = s, sdTemporalKind = ''stable''\<rparr>"

definition ex_stage :: "ID \<Rightarrow> CommitSeq \<Rightarrow> string \<Rightarrow> string \<Rightarrow> ClaimTransition" where
  "ex_stage i s from to =
     \<lparr>trTransitionID = i, trClaimID = 1, trCommitSeq = s, trRecordedAt = s, trFrom = from, trTo = to\<rparr>"

definition ex_replay :: "ClaimTransition list \<Rightarrow> ClaimReplayInput" where
  "ex_replay stages = \<lparr>riThroughCommitSeq = 5, riAsOf = 9, riPreviousAsOf = Some 8, riActivePolicyRevisionID = 7,
     riClaims = [ex_seed 1 2, ex_seed 4 6], riEvidence = [], riUsages = [], riValidityAssertions = [],
     riStatusTransitions = [], riStageTransitions = stages\<rparr>"

definition ex_metrics :: evaluator where
  "ex_metrics input = Inr \<lparr>mtSalience = Finite 1 0, mtConfidence = 5, mtCurrentness = 6,
     mtTemporalRelation = ''current'', mtLastReferencedAt = None\<rparr>"

definition ex_stages :: "ClaimTransition list" where
  "ex_stages = [ex_stage 11 3 '''' ''floating'', ex_stage 12 4 ''floating'' ''sediment'']"

definition ex_scope :: "ID \<Rightarrow> CommitSeq \<Rightarrow> string \<Rightarrow> ClaimViewScopeAssertion" where
  "ex_scope i s scope = \<lparr>vsAssertionID = i, vsClaimID = 1, vsCommitSeq = s, vsRecordedAt = s, vsViewScope = scope\<rparr>"

definition ex_text :: "ID \<Rightarrow> string" where
  "ex_text i = nat_digits (unat i)"

lemma inj_ex_text: "inj ex_text"
proof (rule injI)
  fix i j :: ID
  assume "ex_text i = ex_text j"
  then have "unat i = unat j"
    unfolding ex_text_def by (metis digits_value_nat_digits)
  then show "i = j" by (rule unsigned_word_eqI)
qed

lemmas ex_replay_defs = ex_seed_def ex_stage_def ex_replay_def ex_metrics_def ex_stages_def

lemma ex_rows:
  "claims_in (ex_replay ts) = [ex_seed 1 2]" "evidence_in (ex_replay ts) = []" "usages_in (ex_replay ts) = []"
  "validity_in (ex_replay ts) = []" "status_in (ex_replay ts) = []"
  "stage_in (ex_replay ts) = filter (transitionInBounds 5 9) ts"
  by (simp_all add: rows_in_defs ex_replay_defs)

lemma ex_rows_valid: "\<forall>t\<in>set ts. validateTransitionRow t = ok \<Longrightarrow> rows_valid (ex_replay ts)"
  by (simp add: rows_valid_def ex_replay_defs validateClaimSeed_def ClaimTemporalKind_Validate_def)

lemma ex_replayed: "\<exists>states. ReplayClaimStates ex_text (Some ex_metrics) (ex_replay ex_stages) = Inr states"
proof -
  have sorted: "slice_stable (commit_before ex_text trCommitSeq trTransitionID) ex_stages = ex_stages"
    by (simp add: slice_stable_def ex_stages_def ex_stage_def commit_before_def)
  have sel: "selectTransitions ex_text 1 ex_stages 5 9 = ex_stages"
    unfolding selectTransitions_def using sorted by (simp add: ex_stages_def ex_stage_def)
  have none: "selectTransitions ex_text 1 [] 5 9 = []"
    by (simp add: selectTransitions_def slice_stable_def)
  have one: "slice_stable (claim_before ex_text) [ex_seed 1 2] = [ex_seed 1 2]"
    by (simp add: slice_stable_def)
  have "rows_valid (ex_replay ex_stages)"
    by (rule ex_rows_valid) (simp add: ex_stages_def ex_stage_def validateTransitionRow_def)
  moreover have "rows_closed (ex_replay ex_stages)"
    unfolding rows_closed_def ex_rows by (auto simp: ex_seed_def ex_stages_def ex_stage_def)
  moreover have "header_ok (ex_replay ex_stages)"
    by (simp add: header_ok_def ex_replay_def)
  moreover have "\<exists>s. claim_result ex_text ex_metrics (ex_replay ex_stages) (ex_seed 1 2) = Inr s"
  proof -
    have "applyTransitions validClaimStage ''floating'' True ''floating'' ex_stages = Inr ''sediment''"
      by (simp add: ex_stages_def ex_stage_def validClaimStage_def ClaimStage_Validate_def ClaimStage_members_def)
    then have "replayClaimTransition ex_text ''floating'' 1 ex_stages 5 9 validClaimStage = Inr ''sediment''"
      by (simp add: replayClaimTransition_def sel)
    moreover have "replayClaimTransition ex_text ''active'' 1 [] 5 9 validClaimStatus = Inr ''active''"
      by (simp add: replayClaimTransition_def none)
    moreover have "validateClaimStateMetrics \<lparr>mtSalience = Finite 1 0, mtConfidence = 5, mtCurrentness = 6,
        mtTemporalRelation = ''current'', mtLastReferencedAt = None\<rparr> 9 = ok"
      by (simp add: validateClaimStateMetrics_def ClaimTemporalRelation_Validate_def)
    ultimately show ?thesis
      unfolding claim_result_def replayClaim_def Let_def
      by (simp add: ex_replay_def ex_seed_def ex_metrics_def)
  qed
  ultimately show ?thesis
    by (auto simp: ReplayClaimStates_ok ex_rows one)
qed

section \<open>Properties\<close>

text \<open>C22: What the replay of two inputs with the same head, time, policy and admitted rows has in common. If one of
  them succeeds, the other succeeds exactly when all its rows are well formed, and then with the same states, whatever
  the order in which the rows are read and whatever later rows a racing reader adds. Well-formedness ranges over every
  row of the input, also over those the bounds exclude: rows are checked before the bounds are applied, so a malformed
  later row makes the replay fail, although it can never change its result. Row identifiers are keys, and identifiers
  have distinct texts.\<close>

theorem replay_captured_rows:
  assumes "inj idString" and "ReplayClaimStates idString (Some evaluate) i = Inr states"
    and "rows_keyed i" and "same_capture j i"
  shows "ReplayClaimStates idString (Some evaluate) j = Inr states' \<longleftrightarrow> rows_valid j \<and> states' = states"
  using assms by (rule replay_same_capture)

text \<open>A later transition read before the others changes nothing; a later transition without an identifier fails.\<close>

theorem replay_captured_rows_witness:
  "\<exists>states. ReplayClaimStates ex_text (Some ex_metrics) (ex_replay ex_stages) = Inr states
    \<and> ReplayClaimStates ex_text (Some ex_metrics)
        (ex_replay (ex_stage 13 8 ''sediment'' ''settled'' # rev ex_stages)) = Inr states
    \<and> (\<exists>e. ReplayClaimStates ex_text (Some ex_metrics)
        (ex_replay (ex_stage 0 8 ''sediment'' ''settled'' # rev ex_stages)) = Inl e)"
proof -
  let ?j = "\<lambda>k. ex_replay (ex_stage k 8 ''sediment'' ''settled'' # rev ex_stages)"
  obtain states where run: "ReplayClaimStates ex_text (Some ex_metrics) (ex_replay ex_stages) = Inr states"
    using ex_replayed by blast
  have keyed: "rows_keyed (ex_replay ex_stages)"
    by (simp add: rows_keyed_def ex_rows ex_stages_def ex_stage_def)
  have same: "same_capture (?j k) (ex_replay ex_stages)" for k
    by (simp add: same_capture_def ex_rows) (simp add: ex_replay_def ex_stage_def ex_stages_def transitionInBounds_def)
  have valid: "rows_valid (?j 13)"
    by (rule ex_rows_valid) (simp add: ex_stages_def ex_stage_def validateTransitionRow_def)
  have broken: "\<not> rows_valid (?j 0)"
    by (simp add: rows_valid_def ex_replay_def ex_stage_def validateTransitionRow_def)
  note use = replay_captured_rows [OF inj_ex_text run keyed same]
  have "ReplayClaimStates ex_text (Some ex_metrics) (?j 13) = Inr states"
    using use [of 13 states] valid by simp
  moreover have "\<exists>e. ReplayClaimStates ex_text (Some ex_metrics) (?j 0) = Inl e"
    using use [of 0] broken by (cases "ReplayClaimStates ex_text (Some ex_metrics) (?j 0)") auto
  ultimately show ?thesis using run by blast
qed

text \<open>C23: A successful replay yields exactly one state per admitted claim, in the order of the
  identifiers' texts. Its status and stage are where the claim's own transitions within the captured head and time
  lead from active and floating, in commit order, every transition leaving the state reached before it; its metrics are
  those the evaluator gives for the claim, this status and stage, and the evidence, usages and validity assertions of
  the claim within the same bounds in commit order; it counts that evidence; its salience is finite and its confidence
  a ratio.\<close>

theorem replay_complete:
  assumes "ReplayClaimStates idString (Some evaluate) i = Inr states"
  shows "mset (map csClaimID states) = {#sdClaimID c. c \<in># mset (claims_in i)#} \<and> distinct (map csClaimID states)
    \<and> sorted (map (\<lambda>s. idString (csClaimID s)) states)
    \<and> (\<forall>s\<in>set states. state_ok idString evaluate i s \<and> float_finite (csSalience s)
        \<and> 0 \<le> csConfidence s \<and> csConfidence s \<le> 1000000)"
    (is "_ \<and> _ \<and> _ \<and> (\<forall>s\<in>set states. ?P s)")
proof -
  let ?cs = "slice_stable (claim_before idString) (claims_in i)"
  have rel: "list_all2 (\<lambda>c s. claim_result idString evaluate i c = Inr s) ?cs states"
    and dist: "distinct (map sdClaimID (claims_in i))"
    using assms by (simp_all add: ReplayClaimStates_ok mapE_Inr_iff rows_closed_def)
  have rel': "list_all2 (\<lambda>c s. c \<in> set (claims_in i) \<and> claim_result idString evaluate i c = Inr s) ?cs states"
  proof (rule list.rel_mono_strong [OF rel])
    show "c \<in> set (claims_in i) \<and> claim_result idString evaluate i c = Inr s"
      if "c \<in> set ?cs" and "claim_result idString evaluate i c = Inr s" for c s
      using that by simp
  qed
  have ids: "map csClaimID states = map sdClaimID ?cs"
    using rel' by (rule list_all2_map_eq) (blast dest: claim_result_ok)
  have each: "?P s" if s: "s \<in> set states" for s
  proof -
    obtain c where c: "c \<in> set (claims_in i)" "claim_result idString evaluate i c = Inr s"
      using list_all2_preimage [OF rel' s] by blast
    show ?thesis using claim_result_ok [OF c(2,1)] by simp
  qed
  have "distinct (map csClaimID states)"
    unfolding ids using dist by simp
  moreover have "sorted (map idString (map csClaimID states))"
    unfolding ids using claims_sorted [of idString "claims_in i"] by (simp add: comp_def)
  moreover have "mset (map csClaimID states) = {#sdClaimID c. c \<in># mset (claims_in i)#}"
    unfolding ids by simp
  ultimately show ?thesis using each by (simp add: comp_def)
qed

text \<open>The claim of the demonstration goes from floating to sediment.\<close>

theorem replay_complete_witness:
  "\<exists>states s. ReplayClaimStates ex_text (Some ex_metrics) (ex_replay ex_stages) = Inr states
    \<and> states = [s] \<and> csClaimID s = 1 \<and> state_ok ex_text ex_metrics (ex_replay ex_stages) s"
proof -
  obtain states where run: "ReplayClaimStates ex_text (Some ex_metrics) (ex_replay ex_stages) = Inr states"
    using ex_replayed by blast
  note all = replay_complete [OF run]
  then have "mset (map csClaimID states) = {#1#}"
    by (simp add: ex_rows) (simp add: ex_seed_def)
  then have "map csClaimID states = [1]" by (simp del: mset_map add: mset_single_iff)
  then obtain s where "states = [s]" "csClaimID s = 1" by (auto simp: map_eq_Cons_conv)
  with all run show ?thesis by auto
qed

text \<open>A view-scope replay yields one state per captured claim; each carries the scope of an
  assertion of that claim no later than the captured head, and no captured assertion of the claim
  was committed after it.\<close>

theorem view_scope_latest:
  assumes "ReplayClaimViewScopes idString through claims assertions = Inr states"
  shows "set (map ssClaimID states) = sdClaimID ` {c \<in> set claims. sdCommitSeq c \<le> through}
    \<and> distinct (map ssClaimID states)
    \<and> (\<forall>s\<in>set states. \<exists>r\<in>set assertions. vsClaimID r = ssClaimID s \<and> vsCommitSeq r \<le> through
        \<and> ssViewScope s = vsViewScope r \<and> ssSourceAssertionID s = vsAssertionID r
        \<and> (\<forall>q\<in>set assertions. vsClaimID q = ssClaimID s \<and> vsCommitSeq q \<le> through
             \<longrightarrow> vsCommitSeq q \<le> vsCommitSeq r))"
proof -
  let ?kept = "filter (\<lambda>r. vsCommitSeq r \<le> through) assertions"
  let ?claims = "filter (\<lambda>c. sdCommitSeq c \<le> through) claims"
  let ?cur = "foldl (keepLatest idString) Map.empty ?kept"
  let ?row = "\<lambda>claimID. case ?cur claimID of
      None \<Rightarrow> Inl (ProjectionError ''claim has no captured view-scope assertion'')
    | Some r \<Rightarrow> Inr \<lparr>ssClaimID = claimID, ssViewScope = vsViewScope r, ssSourceAssertionID = vsAssertionID r\<rparr>"
  let ?ids = "slice_stable (\<lambda>a b. idString a < idString b) (map sdClaimID ?claims)"
  have run: "mapE ?row ?ids = Inr states" and dist: "distinct (map sdClaimID ?claims)"
    using assms unfolding ReplayClaimViewScopes_def Let_def case_result_ok captureClaims_ok captureRows_ok
    by auto
  then have rel: "list_all2 (\<lambda>c s. ?row c = Inr s) ?ids states" by (simp add: mapE_Inr_iff)
  have row: "ssClaimID s = c \<and> (\<exists>r. ?cur c = Some r \<and> ssViewScope s = vsViewScope r \<and> ssSourceAssertionID s = vsAssertionID r)"
    if "?row c = Inr s" for c s
    using that by (auto split: option.splits)
  have ids: "map ssClaimID states = ?ids"
    using list_all2_map_eq [OF rel, of ssClaimID "\<lambda>c. c"] row by simp
  have "\<exists>r\<in>set assertions. vsClaimID r = ssClaimID s \<and> vsCommitSeq r \<le> through
      \<and> ssViewScope s = vsViewScope r \<and> ssSourceAssertionID s = vsAssertionID r
      \<and> (\<forall>q\<in>set assertions. vsClaimID q = ssClaimID s \<and> vsCommitSeq q \<le> through \<longrightarrow> vsCommitSeq q \<le> vsCommitSeq r)"
    if s: "s \<in> set states" for s
  proof -
    obtain c where "?row c = Inr s"
      using list_all2_preimage [OF rel s] by blast
    then obtain r where r: "?cur (ssClaimID s) = Some r" "ssViewScope s = vsViewScope r"
      "ssSourceAssertionID s = vsAssertionID r"
      using row [of c s] by blast
    have latest: "latest_of idString (ssClaimID s) ?kept (Some r)"
      using keepLatest_fold [of idString "ssClaimID s" ?kept] r(1) by simp
    have "vsCommitSeq q \<le> vsCommitSeq r" if q: "q \<in> set assertions" "vsClaimID q = ssClaimID s \<and> vsCommitSeq q \<le> through" for q
    proof -
      have "\<not> commit_before idString vsCommitSeq vsAssertionID r q" using latest q by (simp add: latest_of_def)
      then show ?thesis by (rule commit_before_le)
    qed
    moreover have "r \<in> set assertions" "vsClaimID r = ssClaimID s" "vsCommitSeq r \<le> through"
      using latest by (simp_all add: latest_of_def)
    ultimately show ?thesis using r(2,3) by blast
  qed
  moreover have "distinct (map ssClaimID states)"
    unfolding ids using dist by (simp add: distinct_slice_stable [where f = "\<lambda>x. x", simplified])
  moreover have "set (map ssClaimID states) = sdClaimID ` {c \<in> set claims. sdCommitSeq c \<le> through}"
    unfolding ids by simp
  ultimately show ?thesis by blast
qed

theorem view_scope_latest_witness:
  "\<exists>states. ReplayClaimViewScopes ex_text 5 [ex_seed 1 2, ex_seed 4 6]
      [ex_scope 21 3 ''resident_ui'', ex_scope 22 4 ''admin_only'', ex_scope 23 6 ''resident_ui''] = Inr states
    \<and> set (map ssClaimID states) = {1}"
proof -
  let ?as = "[ex_scope 21 3 ''resident_ui'', ex_scope 22 4 ''admin_only'', ex_scope 23 6 ''resident_ui'']"
  have "\<exists>states. ReplayClaimViewScopes ex_text 5 [ex_seed 1 2, ex_seed 4 6] ?as = Inr states"
  proof -
    have "captureClaims (\<lambda>c. sdCommitSeq c \<le> 5) [ex_seed 1 2, ex_seed 4 6] = Inr [ex_seed 1 2]"
      by (simp add: captureClaims_ok ex_seed_def validateClaimSeed_def ClaimTemporalKind_Validate_def)
    moreover have "captureRows validateViewScopeRow (\<lambda>r. vsCommitSeq r \<le> 5) vsClaimID {1} ?as
        = Inr [ex_scope 21 3 ''resident_ui'', ex_scope 22 4 ''admin_only'']"
      by (simp add: captureRows_ok ex_scope_def validateViewScopeRow_def ClaimViewScope_Validate_def)
    ultimately show ?thesis
      by (simp add: ReplayClaimViewScopes_def commitCheck_def CommitSeq_Validate_def NewCommitSeq_def Let_def
          ex_seed_def ex_scope_def keepLatest_def commit_before_def slice_stable_def)
  qed
  then obtain states where run: "ReplayClaimViewScopes ex_text 5 [ex_seed 1 2, ex_seed 4 6] ?as = Inr states" by blast
  have "{c \<in> set [ex_seed 1 2, ex_seed 4 6]. sdCommitSeq c \<le> 5} = {ex_seed 1 2}"
    by (auto simp: ex_seed_def)
  moreover have "sdClaimID (ex_seed 1 2) = 1" by (simp add: ex_seed_def)
  moreover have "set (map ssClaimID states) = sdClaimID ` {c \<in> set [ex_seed 1 2, ex_seed 4 6]. sdCommitSeq c \<le> 5}"
    using view_scope_latest [OF run] by blast
  ultimately show ?thesis using run by simp
qed

text \<open>Sorting a body of content references makes it acceptable exactly when the resident is
  valid, every reference is valid and belongs to the resident, and no two share their key; nothing
  is added or lost.\<close>

theorem content_references_sorted:
  "(ValidateContentReferences idString (SortContentReferences idString rs) resident = ok \<longleftrightarrow>
     resident \<noteq> 0 \<and> (\<forall>r\<in>set rs. ContentReference_Validate r = ok \<and> crResidentID r = resident)
     \<and> distinct (map (contentReferenceKey idString) rs))
   \<and> mset (SortContentReferences idString rs) = mset rs"
proof -
  have "sorted_wrt (<) (map (contentReferenceKey idString) (SortContentReferences idString rs)) \<longleftrightarrow>
      distinct (map (contentReferenceKey idString) rs)"
    unfolding strict_sorted_iff using sorted_keys by (simp add: SortContentReferences_def)
  then show ?thesis
    by (simp add: ValidateContentReferences_ok) (simp add: SortContentReferences_def)
qed

definition ex_reference :: "ID \<Rightarrow> ContentReference" where
  "ex_reference content = \<lparr>crContentID = content, crResidentID = 3, crReferrerKind = ''event'', crReferrerID = 4,
     crReferrerField = ''content_id'', crDedupeScopeID = None, crBlobHashAlgorithm = None, crBlobHash = None\<rparr>"

lemma ex_reference_ok: "content \<noteq> 0 \<Longrightarrow> ContentReference_Validate (ex_reference content) = ok"
  by (simp add: ContentReference_Validate_def ex_reference_def idCheck_def ID_Validate_def ID_IsZero_def
      validReferenceToken_def token_char_def byte_def)

theorem content_references_sorted_witness:
  "ValidateContentReferences (\<lambda>i. [char_of (unat i)]) (SortContentReferences (\<lambda>i. [char_of (unat i)])
     [ex_reference 9, ex_reference 2]) 3 = ok"
  using content_references_sorted [of "\<lambda>i. [char_of (unat i)]" "[ex_reference 9, ex_reference 2]" 3]
  by (simp add: ex_reference_ok) (simp add: ex_reference_def contentReferenceKey_def)

end
