(* ===== verification/Activity_Session.thy ===== *)
theory Activity_Session
  imports Canonical_Ledger
begin

text \<open>
  Reconstruction of the latest activity session, \<^verbatim>\<open>internal/activity/session.go\<close>: the lifecycle
  of the resident at the captured bounds, the eligible events in canonical order, the boundary the
  idle gap between user messages sets, and the bounded tail of events. Instants are \<^verbatim>\<open>int64\<close> and
  the gap is compared as in the source, by an unsigned 64-bit subtraction. Both comparisons the
  source sorts with fall back to another key when a commit sequence is zero; they are strict weak
  orders on rows that all have one and not on a mixture (\<open>eventBefore_cyclic\<close>). There the result of
  \<^verbatim>\<open>sort.SliceStable\<close> depends on its algorithm: \<open>slice_stable\<close> is its insertion sort, which is all it
  does for at most twenty rows.
\<close>

section \<open>Data\<close>

text \<open>\<^verbatim>\<open>domain.Event\<close>.\<close>

record DomainEvent =
  deID :: ID
  deResidentID :: ID
  deSeq :: Seq
  deType :: string
  deActorPrincipalID :: ID
  deTargetPrincipalID :: "ID option"
  deGenerationRunID :: "ID option"
  deOccurredAt :: Instant
  deOccurredTZ :: Timezone
  deRecordedAt :: Instant
  deRecordedTZ :: Timezone
  deContentID :: ID
  deContent :: string
  deContentErased :: bool
  deCommitment :: Digest
  dePrevHash :: "Digest option"
  deHash :: Digest

record ActivityEvent =
  aeCommitSeq :: CommitSeq
  aeValue :: DomainEvent

record StatusTransition =
  stCommitSeq :: CommitSeq
  stRecordedAt :: Instant
  stStatus :: string

record SessionInput =
  siEvents :: "ActivityEvent list"
  siStatusTransitions :: "StatusTransition list"
  siInitialStatus :: string
  siThroughCommit :: CommitSeq
  siAsOf :: Instant
  siIdleGap :: Duration
  siMaxEvents :: int

record Session =
  seEvents :: "DomainEvent list"
  seStartSeq :: Seq
  seStartedAt :: Instant
  seLastUserAt :: Instant
  seOpen :: bool
  seResidentActive :: bool

record lifecycleBoundary =
  lbPresent :: bool
  lbCommitSeq :: CommitSeq
  lbRecordedAt :: Instant

datatype activity_error = ActivityError string

definition emptySession :: Session where
  "emptySession = \<lparr>seEvents = [], seStartSeq = 0, seStartedAt = 0, seLastUserAt = 0, seOpen = False,
     seResidentActive = False\<rparr>"

definition noBoundary :: lifecycleBoundary where
  "noBoundary = \<lparr>lbPresent = False, lbCommitSeq = 0, lbRecordedAt = 0\<rparr>"

section \<open>Lifecycle\<close>

definition knownStatus :: "string \<Rightarrow> bool" where
  "knownStatus status \<longleftrightarrow> status \<in> set [''draft'', ''active'', ''archived'', ''erased'']"

definition transitionBefore :: "StatusTransition \<Rightarrow> StatusTransition \<Rightarrow> bool" where
  "transitionBefore left right \<longleftrightarrow>
     (if stCommitSeq left > 0 \<and> stCommitSeq right > 0 \<and> stCommitSeq left \<noteq> stCommitSeq right
      then stCommitSeq left < stCommitSeq right
      else stRecordedAt left < stRecordedAt right)"

definition lifecycleStep ::
    "SessionInput \<Rightarrow> string \<times> lifecycleBoundary \<Rightarrow> StatusTransition
      \<Rightarrow> (activity_error, string \<times> lifecycleBoundary) result" where
  "lifecycleStep input st tr =
     (if \<not> knownStatus (stStatus tr) then Inl (ActivityError ''unknown resident status'')
      else if siThroughCommit input > 0 \<and> stCommitSeq tr > siThroughCommit input then Inr st
      else if stRecordedAt tr > siAsOf input then Inr st
      else Inr (stStatus tr,
        if stStatus tr = ''active''
        then \<lparr>lbPresent = True, lbCommitSeq = stCommitSeq tr, lbRecordedAt = stRecordedAt tr\<rparr>
        else noBoundary))"

definition lifecycleAt :: "SessionInput \<Rightarrow> (activity_error, bool \<times> lifecycleBoundary) result" where
  "lifecycleAt input =
     (if siInitialStatus input \<noteq> '''' \<and> \<not> knownStatus (siInitialStatus input)
      then Inl (ActivityError ''unknown initial resident status'')
      else case foldE (lifecycleStep input) (siInitialStatus input, noBoundary)
                  (slice_stable transitionBefore (siStatusTransitions input)) of
        Inl e \<Rightarrow> Inl e
      | Inr (status, boundary) \<Rightarrow> Inr (status = ''active'', boundary))"

section \<open>Events and boundary\<close>

definition afterBoundary :: "ActivityEvent \<Rightarrow> lifecycleBoundary \<Rightarrow> bool" where
  "afterBoundary event boundary =
     (if \<not> lbPresent boundary then True
      else if lbCommitSeq boundary > 0 \<and> aeCommitSeq event > 0 then aeCommitSeq event > lbCommitSeq boundary
      else deRecordedAt (aeValue event) \<ge> lbRecordedAt boundary)"

definition gapAtLeast :: "Instant \<Rightarrow> Instant \<Rightarrow> int \<Rightarrow> bool" where
  "gapAtLeast newer older idleMicros =
     (if newer < older then False
      else uint64_of newer - uint64_of older \<ge> uint64_of idleMicros)"

definition eventBefore :: "ActivityEvent \<Rightarrow> ActivityEvent \<Rightarrow> bool" where
  "eventBefore left right \<longleftrightarrow>
     (if aeCommitSeq left > 0 \<and> aeCommitSeq right > 0 \<and> aeCommitSeq left \<noteq> aeCommitSeq right
      then aeCommitSeq left < aeCommitSeq right
      else if deSeq (aeValue left) > 0 \<and> deSeq (aeValue right) > 0 \<and> deSeq (aeValue left) \<noteq> deSeq (aeValue right)
      then deSeq (aeValue left) < deSeq (aeValue right)
      else False)"

lemma eventBefore_cyclic:
  assumes "aeCommitSeq a = 5" and "deSeq (aeValue a) = 1" and "aeCommitSeq b = 0" and "deSeq (aeValue b) = 2"
    and "aeCommitSeq c = 3" and "deSeq (aeValue c) = 3"
  shows "eventBefore a b \<and> eventBefore b c \<and> eventBefore c a"
  using assms by (simp add: eventBefore_def)

definition eligibleEvent :: "SessionInput \<Rightarrow> lifecycleBoundary \<Rightarrow> ActivityEvent \<Rightarrow> bool" where
  "eligibleEvent input boundary event \<longleftrightarrow>
     \<not> (siThroughCommit input > 0 \<and> aeCommitSeq event > siThroughCommit input)
     \<and> \<not> (deRecordedAt (aeValue event) > siAsOf input \<or> \<not> afterBoundary event boundary)
     \<and> \<not> (deType (aeValue event) \<noteq> ''user_message'' \<and> deType (aeValue event) \<noteq> ''resident_message'')"

definition eligibleEvents :: "SessionInput \<Rightarrow> lifecycleBoundary \<Rightarrow> ActivityEvent list" where
  "eligibleEvents input boundary =
     filter (eligibleEvent input boundary) (slice_stable eventBefore (siEvents input))"

definition isUser :: "ActivityEvent \<Rightarrow> bool" where
  "isUser event \<longleftrightarrow> deType (aeValue event) = ''user_message''"

text \<open>The two loops over indices run downwards; the last argument is one above the next index.\<close>

fun lastUserBelow :: "ActivityEvent list \<Rightarrow> nat \<Rightarrow> nat option" where
  "lastUserBelow eligible 0 = None"
| "lastUserBelow eligible (Suc index) =
     (if isUser (eligible ! index) then Some index else lastUserBelow eligible index)"

fun startBelow :: "int \<Rightarrow> ActivityEvent list \<Rightarrow> nat \<Rightarrow> Instant \<Rightarrow> nat \<Rightarrow> nat" where
  "startBelow idle eligible start newerUserTime 0 = start"
| "startBelow idle eligible start newerUserTime (Suc index) =
     (if \<not> isUser (eligible ! index) then startBelow idle eligible start newerUserTime index
      else let olderUserTime = deRecordedAt (aeValue (eligible ! index))
        in if gapAtLeast newerUserTime olderUserTime idle then start
           else startBelow idle eligible index olderUserTime index)"

definition sessionOf :: "SessionInput \<Rightarrow> ActivityEvent list \<Rightarrow> Session" where
  "sessionOf input eligible =
     (case lastUserBelow eligible (length eligible) of
        None \<Rightarrow> emptySession\<lparr>seResidentActive := True\<rparr>
      | Some lastUser \<Rightarrow>
          (let lastUserAt = deRecordedAt (aeValue (eligible ! lastUser));
               start = startBelow (siIdleGap input) eligible lastUser lastUserAt lastUser;
               members = drop start eligible;
               selected = (if int (length members) > siMaxEvents input
                 then drop (length members - nat (siMaxEvents input)) members else members)
           in \<lparr>seEvents = map aeValue selected, seStartSeq = deSeq (aeValue (eligible ! start)),
               seStartedAt = deRecordedAt (aeValue (eligible ! start)), seLastUserAt = lastUserAt,
               seOpen = (\<not> gapAtLeast (siAsOf input) lastUserAt (siIdleGap input)),
               seResidentActive = True\<rparr>))"

definition Calculate :: "SessionInput \<Rightarrow> (activity_error, Session) result" where
  "Calculate input =
     (if siIdleGap input \<le> 0 then Inl (ActivityError ''idle gap must be positive'')
      else if siMaxEvents input < 1 then Inl (ActivityError ''max events must be positive'')
      else case lifecycleAt input of
        Inl e \<Rightarrow> Inl e
      | Inr (active, boundary) \<Rightarrow>
          if \<not> active then Inr emptySession else Inr (sessionOf input (eligibleEvents input boundary)))"

definition CalculateEvents ::
    "DomainEvent list \<Rightarrow> Instant \<Rightarrow> Duration \<Rightarrow> int \<Rightarrow> (activity_error, Session) result" where
  "CalculateEvents events asOf idleGap maxEvents =
     Calculate \<lparr>siEvents = map (\<lambda>e. \<lparr>aeCommitSeq = 0, aeValue = e\<rparr>) events, siStatusTransitions = [],
       siInitialStatus = ''active'', siThroughCommit = 0, siAsOf = asOf, siIdleGap = idleGap,
       siMaxEvents = maxEvents\<rparr>"

section \<open>What the loops compute\<close>

text \<open>Consecutive user messages of a list, by index.\<close>

definition next_user :: "ActivityEvent list \<Rightarrow> nat \<Rightarrow> nat \<Rightarrow> bool" where
  "next_user es i j \<longleftrightarrow> i < j \<and> j < length es \<and> isUser (es ! i) \<and> isUser (es ! j)
     \<and> (\<forall>k. i < k \<and> k < j \<longrightarrow> \<not> isUser (es ! k))"

definition recorded :: "ActivityEvent list \<Rightarrow> nat \<Rightarrow> Instant" where
  "recorded es i = deRecordedAt (aeValue (es ! i))"

text \<open>Bounds of Go's types on what the session reads.\<close>

definition times_ok :: "SessionInput \<Rightarrow> bool" where
  "times_ok input \<longleftrightarrow> int64 (siAsOf input) \<and> int64 (siIdleGap input)
     \<and> list_all (\<lambda>e. int64 (deRecordedAt (aeValue e))) (siEvents input)"

lemma gapAtLeast_iff:
  assumes "int64 newer" and "int64 older" and "0 < idle" and "int64 idle"
  shows "gapAtLeast newer older idle \<longleftrightarrow> idle \<le> newer - older"
proof (cases "newer < older")
  case True
  with assms(3) show ?thesis by (simp add: gapAtLeast_def)
next
  case False
  then have "uint (uint64_of newer - uint64_of older) = newer - older"
    using assms(1,2) by (intro uint64_of_diff) auto
  moreover have "uint (uint64_of idle) = idle"
    using assms(3,4) by (intro uint_uint64_of) auto
  ultimately show ?thesis
    using False by (simp add: gapAtLeast_def word_le_def)
qed

lemma lastUserBelow_None: "lastUserBelow es n = None \<longleftrightarrow> (\<forall>i<n. \<not> isUser (es ! i))"
  by (induction n) (auto simp: less_Suc_eq)

lemma lastUserBelow_Some:
  "lastUserBelow es n = Some j \<Longrightarrow> j < n \<and> isUser (es ! j) \<and> (\<forall>k. j < k \<and> k < n \<longrightarrow> \<not> isUser (es ! k))"
  by (induction n) (auto simp: less_Suc_eq split: if_splits)

text \<open>
  Walking down from a user message at \<open>start\<close> with no user message left between \<open>n\<close> and it: the
  result is the first of a run of user messages whose gaps stay below \<open>idle\<close>, and the gap before it
  reaches \<open>idle\<close>.
\<close>

lemma startBelow_run:
  assumes times: "\<And>i. i < length es \<Longrightarrow> int64 (recorded es i)" and "0 < idle" and "int64 idle"
    and "start < length es" and "isUser (es ! start)" and "n \<le> start"
    and "\<forall>k. n \<le> k \<and> k < start \<longrightarrow> \<not> isUser (es ! k)"
  shows "let r = startBelow idle es start (recorded es start) n
    in r \<le> start \<and> isUser (es ! r)
      \<and> (\<forall>i j. next_user es i j \<and> r \<le> i \<and> j \<le> start \<longrightarrow> recorded es j - recorded es i < idle)
      \<and> (\<forall>i. next_user es i r \<longrightarrow> idle \<le> recorded es r - recorded es i)"
  using assms(4-)
proof (induction n arbitrary: start)
  case 0
  then have "\<not> next_user es i start" for i
    by (auto simp: next_user_def)
  with 0 show ?case by (auto simp: next_user_def Let_def)
next
  case (Suc n)
  show ?case
  proof (cases "isUser (es ! n)")
    case False
    then have "\<forall>k. n \<le> k \<and> k < start \<longrightarrow> \<not> isUser (es ! k)"
      using Suc.prems(4) by (metis Suc_leI le_neq_implies_less)
    with Suc.IH [of start] Suc.prems False show ?thesis by simp
  next
    case True
    have gap: "gapAtLeast (recorded es start) (recorded es n) idle \<longleftrightarrow> idle \<le> recorded es start - recorded es n"
      using Suc.prems assms(1-3) by (intro gapAtLeast_iff) auto
    have only: "i = n" if "next_user es i start" for i
      using that True Suc.prems unfolding next_user_def by (metis Suc_leI less_le_trans linorder_neqE_nat lessI)
    show ?thesis
    proof (cases "idle \<le> recorded es start - recorded es n")
      case wide: True
      then have "startBelow idle es start (recorded es start) (Suc n) = start"
        using True gap by (simp add: recorded_def Let_def)
      moreover have "\<not> (next_user es i j \<and> start \<le> i \<and> j \<le> start)" for i j
        unfolding next_user_def by linarith
      ultimately show ?thesis using wide Suc.prems(2) only by (simp add: Let_def) blast
    next
      case narrow: False
      then have step: "startBelow idle es start (recorded es start) (Suc n) = startBelow idle es n (recorded es n) n"
        using True gap by (simp add: recorded_def Let_def)
      define r where "r = startBelow idle es n (recorded es n) n"
      have IH: "r \<le> n \<and> isUser (es ! r)
          \<and> (\<forall>i j. next_user es i j \<and> r \<le> i \<and> j \<le> n \<longrightarrow> recorded es j - recorded es i < idle)
          \<and> (\<forall>i. next_user es i r \<longrightarrow> idle \<le> recorded es r - recorded es i)"
        using Suc.IH [of n] Suc.prems True unfolding r_def by (simp add: Let_def)
      have "recorded es j - recorded es i < idle" if "next_user es i j" "r \<le> i" "j \<le> start" for i j
      proof (cases "j \<le> n")
        case False
        then have "j = start"
          using that Suc.prems(4) unfolding next_user_def by (metis le_neq_implies_less not_less_eq_eq)
        with that only narrow show ?thesis by auto
      qed (use IH that in blast)
      then show ?thesis
        using IH Suc.prems(3) unfolding step Let_def r_def [symmetric] by (metis Suc_leD le_trans)
    qed
  qed
qed

section \<open>Specification\<close>

text \<open>The transitions within the bounds, in canonical order; the last one gives the status.\<close>

definition captured_transitions :: "SessionInput \<Rightarrow> StatusTransition list" where
  "captured_transitions input =
     filter (\<lambda>t. (siThroughCommit input > 0 \<longrightarrow> stCommitSeq t \<le> siThroughCommit input)
        \<and> stRecordedAt t \<le> siAsOf input)
       (slice_stable transitionBefore (siStatusTransitions input))"

definition status_at :: "string \<Rightarrow> StatusTransition list \<Rightarrow> bool \<times> lifecycleBoundary" where
  "status_at initial ts =
     (if ts = [] then (initial = ''active'', noBoundary)
      else if stStatus (last ts) = ''active''
      then (True, \<lparr>lbPresent = True, lbCommitSeq = stCommitSeq (last ts), lbRecordedAt = stRecordedAt (last ts)\<rparr>)
      else (False, noBoundary))"

lemma lifecycle_fold:
  "foldE (lifecycleStep input) st ts =
     (if \<exists>t\<in>set ts. \<not> knownStatus (stStatus t) then Inl (ActivityError ''unknown resident status'')
      else let cs = filter (\<lambda>t. (siThroughCommit input > 0 \<longrightarrow> stCommitSeq t \<le> siThroughCommit input)
                 \<and> stRecordedAt t \<le> siAsOf input) ts
        in if cs = [] then Inr st else Inr (stStatus (last cs), snd (status_at '''' cs)))"
  by (induction ts arbitrary: st) (auto simp: lifecycleStep_def status_at_def Let_def)

lemma lifecycleAt_eq:
  "lifecycleAt input =
     (if siInitialStatus input \<noteq> '''' \<and> \<not> knownStatus (siInitialStatus input)
      then Inl (ActivityError ''unknown initial resident status'')
      else if \<exists>t\<in>set (siStatusTransitions input). \<not> knownStatus (stStatus t)
      then Inl (ActivityError ''unknown resident status'')
      else Inr (status_at (siInitialStatus input) (captured_transitions input)))"
  by (simp add: lifecycleAt_def lifecycle_fold captured_transitions_def Let_def) (simp add: status_at_def)

text \<open>\<open>session_at\<close>: the session from the user message \<open>first\<close> with the last user message \<open>recent\<close>.\<close>

definition session_at :: "SessionInput \<Rightarrow> ActivityEvent list \<Rightarrow> nat \<Rightarrow> nat \<Rightarrow> Session \<Rightarrow> bool" where
  "session_at input es first recent s \<longleftrightarrow>
     recent < length es \<and> first \<le> recent \<and> isUser (es ! first) \<and> isUser (es ! recent)
     \<and> (\<forall>k. recent < k \<and> k < length es \<longrightarrow> \<not> isUser (es ! k))
     \<and> (\<forall>i j. next_user es i j \<and> first \<le> i \<longrightarrow> recorded es j - recorded es i < siIdleGap input)
     \<and> (\<forall>i. next_user es i first \<longrightarrow> siIdleGap input \<le> recorded es first - recorded es i)
     \<and> seEvents s = map aeValue (drop (max first (length es - nat (siMaxEvents input))) es)
     \<and> seStartSeq s = deSeq (aeValue (es ! first)) \<and> seStartedAt s = recorded es first
     \<and> seLastUserAt s = recorded es recent
     \<and> (seOpen s \<longleftrightarrow> siAsOf input - recorded es recent < siIdleGap input) \<and> seResidentActive s"

definition session_spec :: "SessionInput \<Rightarrow> Session \<Rightarrow> bool" where
  "session_spec input s =
     (case status_at (siInitialStatus input) (captured_transitions input) of
        (False, boundary) \<Rightarrow> s = emptySession
      | (True, boundary) \<Rightarrow>
          let es = eligibleEvents input boundary
          in if \<exists>e\<in>set es. isUser e then \<exists>first recent. session_at input es first recent s
             else s = emptySession\<lparr>seResidentActive := True\<rparr>)"

definition session_input_ok :: "SessionInput \<Rightarrow> bool" where
  "session_input_ok input \<longleftrightarrow> 0 < siIdleGap input \<and> 1 \<le> siMaxEvents input
     \<and> (siInitialStatus input = '''' \<or> knownStatus (siInitialStatus input))
     \<and> list_all (\<lambda>t. knownStatus (stStatus t)) (siStatusTransitions input)"

lemma eligible_times:
  assumes "times_ok input" and "i < length (eligibleEvents input b)"
  shows "int64 (recorded (eligibleEvents input b) i)"
proof -
  have "eligibleEvents input b ! i \<in> set (siEvents input)"
    using nth_mem [OF assms(2)] by (simp add: eligibleEvents_def)
  with assms(1) show ?thesis by (auto simp: times_ok_def list_all_iff recorded_def)
qed

lemma sessionOf_at:
  assumes times: "\<And>i. i < length es \<Longrightarrow> int64 (recorded es i)" and gap: "0 < siIdleGap input" "int64 (siIdleGap input)"
    and "int64 (siAsOf input)" and "1 \<le> siMaxEvents input" and user: "e \<in> set es" "isUser e"
  shows "\<exists>first recent. session_at input es first recent (sessionOf input es)"
proof -
  obtain recent where last: "lastUserBelow es (length es) = Some recent"
    using user lastUserBelow_None [of es "length es"] by (metis in_set_conv_nth option.exhaust)
  note recent = lastUserBelow_Some [OF last]
  define first where "first = startBelow (siIdleGap input) es recent (recorded es recent) recent"
  have run: "first \<le> recent \<and> isUser (es ! first)
      \<and> (\<forall>i j. next_user es i j \<and> first \<le> i \<and> j \<le> recent \<longrightarrow> recorded es j - recorded es i < siIdleGap input)
      \<and> (\<forall>i. next_user es i first \<longrightarrow> siIdleGap input \<le> recorded es first - recorded es i)"
    using startBelow_run [OF times gap, of recent recent] recent unfolding first_def Let_def by auto
  have below: "j \<le> recent" if "next_user es i j" for i j
    using that recent unfolding next_user_def by (metis linorder_not_less)
  have "gapAtLeast (siAsOf input) (recorded es recent) (siIdleGap input)
      \<longleftrightarrow> siIdleGap input \<le> siAsOf input - recorded es recent"
    using assms(4) times recent gap by (intro gapAtLeast_iff) auto
  moreover have "(if int (length (drop first es)) > siMaxEvents input
      then drop (length (drop first es) - nat (siMaxEvents input)) (drop first es) else drop first es)
      = drop (max first (length es - nat (siMaxEvents input))) es"
    using assms(5) run recent by (auto simp: max_def intro!: arg_cong [where f = "\<lambda>n. drop n es"])
  ultimately have "sessionOf input es = \<lparr>seEvents = map aeValue (drop (max first (length es - nat (siMaxEvents input))) es),
      seStartSeq = deSeq (aeValue (es ! first)), seStartedAt = recorded es first, seLastUserAt = recorded es recent,
      seOpen = (siAsOf input - recorded es recent < siIdleGap input), seResidentActive = True\<rparr>"
    unfolding sessionOf_def last Let_def option.case recorded_def [symmetric] first_def [symmetric]
    by (simp only: not_le Session.simps)
  moreover have "\<forall>i j. next_user es i j \<and> first \<le> i \<longrightarrow> recorded es j - recorded es i < siIdleGap input"
    using run below by blast
  ultimately have "session_at input es first recent (sessionOf input es)"
    using recent run unfolding session_at_def by simp
  then show ?thesis by blast
qed

lemma previous_user:
  assumes "f < g" and "isUser (es ! f)" and "isUser (es ! g)" and "g < length es"
  obtains i where "f \<le> i" and "next_user es i g"
proof
  define i where "i = (GREATEST i. i < g \<and> isUser (es ! i))"
  have i: "i < g \<and> isUser (es ! i)"
    unfolding i_def by (rule GreatestI_nat [where b = g]) (use assms in auto)
  have le: "k \<le> i" if "k < g" "isUser (es ! k)" for k
    unfolding i_def by (rule Greatest_le_nat [where b = g]) (use that in auto)
  show "f \<le> i" using assms le by blast
  show "next_user es i g" using i le assms unfolding next_user_def by (metis linorder_not_less)
qed

lemma session_at_first:
  assumes "session_at input es f l s" and "session_at input es f' l' t"
  shows "f' \<le> f"
proof (rule ccontr)
  assume "\<not> f' \<le> f"
  then obtain i where i: "f \<le> i" "next_user es i f'"
    using previous_user [of f f' es] assms by (auto simp: session_at_def)
  have "\<forall>i j. next_user es i j \<and> f \<le> i \<longrightarrow> recorded es j - recorded es i < siIdleGap input"
    using assms(1) by (simp add: session_at_def)
  moreover have "\<forall>i. next_user es i f' \<longrightarrow> siIdleGap input \<le> recorded es f' - recorded es i"
    using assms(2) by (simp add: session_at_def)
  ultimately show False using i by fastforce
qed

lemma session_at_recent:
  assumes "session_at input es f l s" and "session_at input es f' l' t"
  shows "l' \<le> l"
proof -
  have "\<forall>k. l < k \<and> k < length es \<longrightarrow> \<not> isUser (es ! k)" using assms(1) by (simp add: session_at_def)
  moreover have "l' < length es" and "isUser (es ! l')" using assms(2) by (simp_all add: session_at_def)
  ultimately show ?thesis by (metis linorder_not_less)
qed

lemma session_at_unique:
  assumes s: "session_at input es f l s" and t: "session_at input es f' l' t"
  shows "s = t"
proof -
  have "f = f'" and "l = l'"
    using session_at_first session_at_recent s t by (meson le_antisym)+
  then show ?thesis
    using s t by (intro Session.equality) (simp_all add: session_at_def)
qed

lemma Calculate_iff:
  assumes "times_ok input"
  shows "Calculate input = Inr s \<longleftrightarrow> session_input_ok input \<and> session_spec input s"
proof (cases "session_input_ok input")
  case False
  then have "\<not> (\<exists>s. Calculate input = Inr s)"
    by (auto simp: session_input_ok_def Calculate_def lifecycleAt_eq list_all_iff split: if_splits)
  with False show ?thesis by blast
next
  case True
  then have eq: "Calculate input = (case status_at (siInitialStatus input) (captured_transitions input) of
      (active, b) \<Rightarrow> if \<not> active then Inr emptySession else Inr (sessionOf input (eligibleEvents input b)))"
    by (auto simp: session_input_ok_def Calculate_def lifecycleAt_eq list_all_iff)
  obtain active b where st: "status_at (siInitialStatus input) (captured_transitions input) = (active, b)"
    by fastforce
  define es where "es = eligibleEvents input b"
  have at: "\<exists>first recent. session_at input es first recent (sessionOf input es)" if "e \<in> set es" "isUser e" for e
    using that assms True eligible_times [OF assms] unfolding es_def
    by (intro sessionOf_at) (auto simp: session_input_ok_def times_ok_def)
  have none: "sessionOf input es = emptySession\<lparr>seResidentActive := True\<rparr>" if "\<not> (\<exists>e\<in>set es. isUser e)"
  proof -
    have "lastUserBelow es (length es) = None"
      using that by (auto simp: lastUserBelow_None)
    then show ?thesis by (simp add: sessionOf_def)
  qed
  show ?thesis
    using True at none session_at_unique [of input es] unfolding eq st session_spec_def
    by (cases active) (simp_all add: Let_def eq_commute [of _ s] flip: es_def, metis)
qed

end
