(* ===== verification/Autonomy.thy ===== *)
theory Autonomy
  imports Canonical_Types
begin

text \<open>
  The policy and scheduling rules of autonomous activity, \<^verbatim>\<open>internal/autonomy/types.go\<close>,
  \<^verbatim>\<open>policy.go\<close> and \<^verbatim>\<open>scheduler.go\<close>: triggers and their idempotency keys, snapshots, elapsed times,
  quiet hours, and the two decisions. A \<^verbatim>\<open>time.Time\<close> is its number of nanoseconds since the Unix
  epoch; a \<^verbatim>\<open>time.Duration\<close> is an \<^verbatim>\<open>int64\<close> of nanoseconds. The time zone database is the argument
  \<open>calendar\<close> of the definitions that read local time, and the text of an identifier is the
  argument \<open>idString\<close>.
\<close>

section \<open>Errors, kinds and triggers\<close>

datatype autonomy_error =
    ErrInvalidPolicy string
  | ErrInvalidSnapshot string
  | ErrInvalidTrigger string
  | ErrInvalidRetention string
  | AutonomyCanonical canonical_error

definition PolicyVersionV0 :: string where
  "PolicyVersionV0 = ''autonomy-policy-v0''"

datatype AutonomyEventType =
    EventUserMessage | EventResidentMessage | EventSelfTalk | EventOutboundInitiative
  | UnknownAutonomyEventType string

definition AutonomyEventType_Validate :: "AutonomyEventType \<Rightarrow> (autonomy_error, unit) result" where
  "AutonomyEventType_Validate v =
     (case v of UnknownAutonomyEventType _ \<Rightarrow> Inl (ErrInvalidSnapshot ''unknown event type'') | _ \<Rightarrow> ok)"

datatype TriggerKind =
    TriggerIdle | TriggerMetaDependencyStatusChange | TriggerSettledDirectConflict
  | TriggerFutureToCurrent | TriggerVolatileAging | UnknownTriggerKind string

primrec TriggerKind_string :: "TriggerKind \<Rightarrow> string" where
  "TriggerKind_string TriggerIdle = ''idle''"
| "TriggerKind_string TriggerMetaDependencyStatusChange = ''meta_dependency_status_change''"
| "TriggerKind_string TriggerSettledDirectConflict = ''settled_direct_conflict''"
| "TriggerKind_string TriggerFutureToCurrent = ''future_to_current''"
| "TriggerKind_string TriggerVolatileAging = ''volatile_aging''"
| "TriggerKind_string (UnknownTriggerKind s) = s"

definition TriggerKind_Validate :: "TriggerKind \<Rightarrow> (autonomy_error, unit) result" where
  "TriggerKind_Validate kind =
     (case kind of UnknownTriggerKind _ \<Rightarrow> Inl (ErrInvalidTrigger ''unknown trigger kind'') | _ \<Rightarrow> ok)"

definition IsSelfTalk :: "TriggerKind \<Rightarrow> bool" where
  "IsSelfTalk kind \<longleftrightarrow>
     kind = TriggerIdle \<or> kind = TriggerMetaDependencyStatusChange \<or> kind = TriggerSettledDirectConflict"

definition IsInitiative :: "TriggerKind \<Rightarrow> bool" where
  "IsInitiative kind \<longleftrightarrow> kind = TriggerFutureToCurrent \<or> kind = TriggerVolatileAging"

record Trigger =
  tgKind :: TriggerKind
  tgSourceID :: ID
  tgRelatedClaimIDs :: "ID list"
  tgBoundary :: Instant
  tgOrdinal :: int

definition triggerShape :: "Trigger \<Rightarrow> (autonomy_error, unit) result" where
  "triggerShape trigger =
     (case tgKind trigger of
        TriggerIdle \<Rightarrow>
          if tgOrdinal trigger < 1 \<or> length (tgRelatedClaimIDs trigger) \<noteq> 0 \<or> tgBoundary trigger \<noteq> 0
          then Inl (ErrInvalidTrigger ''idle requires a positive ordinal and only a source user event'') else ok
      | TriggerMetaDependencyStatusChange \<Rightarrow>
          if tgOrdinal trigger \<noteq> 0 \<or> length (tgRelatedClaimIDs trigger) \<noteq> 1 \<or> tgBoundary trigger \<noteq> 0
          then Inl (ErrInvalidTrigger ''dependency change requires exactly one related direct claim'') else ok
      | TriggerSettledDirectConflict \<Rightarrow>
          if tgOrdinal trigger \<noteq> 0 \<or> length (tgRelatedClaimIDs trigger) \<noteq> 2 \<or> tgBoundary trigger \<noteq> 0
             \<or> tgRelatedClaimIDs trigger ! 0 = tgRelatedClaimIDs trigger ! 1
          then Inl (ErrInvalidTrigger ''conflict requires two distinct related claims'') else ok
      | UnknownTriggerKind _ \<Rightarrow> ok
      | _ \<Rightarrow>
          if tgOrdinal trigger \<noteq> 0 \<or> length (tgRelatedClaimIDs trigger) \<noteq> 0 \<or> tgBoundary trigger = 0
          then Inl (ErrInvalidTrigger ''temporal initiative requires a non-zero boundary and one source claim'')
          else ok)"

definition Trigger_Validate :: "Trigger \<Rightarrow> (autonomy_error, unit) result" where
  "Trigger_Validate trigger =
     (case TriggerKind_Validate (tgKind trigger) of Inl e \<Rightarrow> Inl e
      | Inr _ \<Rightarrow> (case ID_Validate (tgSourceID trigger) of Inl e \<Rightarrow> Inl (ErrInvalidTrigger ''source ID'')
      | Inr _ \<Rightarrow> (case checkE ID_Validate (tgRelatedClaimIDs trigger) of Inl e \<Rightarrow> Inl (ErrInvalidTrigger ''related claim ID'')
      | Inr _ \<Rightarrow> triggerShape trigger)))"

text \<open>\<^verbatim>\<open>strings.Join(parts, ":")\<close>.\<close>

fun join_colon :: "string list \<Rightarrow> string" where
  "join_colon [] = ''''"
| "join_colon [p] = p"
| "join_colon (p # q # ps) = p @ CHR '':'' # join_colon (q # ps)"

definition identityParts :: "(ID \<Rightarrow> string) \<Rightarrow> Trigger \<Rightarrow> string list" where
  "identityParts idString trigger =
     [TriggerKind_string (tgKind trigger), idString (tgSourceID trigger)]
     @ (if tgOrdinal trigger \<noteq> 0 then [FormatInt (tgOrdinal trigger)] else [])
     @ (if tgBoundary trigger \<noteq> 0 then [FormatInt (tgBoundary trigger)] else [])
     @ map idString (slice_stable (\<lambda>a b. idString a < idString b) (tgRelatedClaimIDs trigger))"

definition StableIdentity :: "(ID \<Rightarrow> string) \<Rightarrow> Trigger \<Rightarrow> (autonomy_error, string) result" where
  "StableIdentity idString trigger =
     (case Trigger_Validate trigger of Inl e \<Rightarrow> Inl e
      | Inr _ \<Rightarrow> Inr (join_colon (identityParts idString trigger)))"

definition IdempotencyKey ::
    "(ID \<Rightarrow> string) \<Rightarrow> Trigger \<Rightarrow> string \<Rightarrow> ID \<Rightarrow> (autonomy_error, string) result" where
  "IdempotencyKey idString trigger policyVersion residentID =
     (case ID_Validate residentID of Inl e \<Rightarrow> Inl (ErrInvalidTrigger ''resident ID'')
      | Inr _ \<Rightarrow>
          if policyVersion \<noteq> PolicyVersionV0 then Inl (ErrInvalidTrigger ''unsupported policy version'')
          else (case StableIdentity idString trigger of Inl e \<Rightarrow> Inl e
            | Inr identity \<Rightarrow>
                let prefix = (if IsInitiative (tgKind trigger) then ''outbound_initiative:v1:'' else ''self_talk:v1:'')
                in Inr (prefix @ identity @ '':'' @ policyVersion)))"

section \<open>Snapshots and elapsed time\<close>

datatype BlockingReason =
    BlockingNone | BlockingDisabled | BlockingResidentInactive | BlockingMemoryPolicyNotAutonomyV3
  | BlockingProjectionUnavailable | BlockingQuietHours | BlockingMinimumInterval | BlockingConsecutiveLimit
  | BlockingHourlyLimit | BlockingDailyLimit | BlockingRecentUserSuppression | BlockingNoTrigger
  | BlockingClockRegression | BlockingForegroundPending

record EventPoint =
  epID :: ID
  epSeq :: Seq
  epRecordedAt :: Instant

definition EventPoint_Validate :: "EventPoint \<Rightarrow> (canonical_error, unit) result" where
  "EventPoint_Validate point = (case ID_Validate (epID point) of Inl e \<Rightarrow> Inl e | Inr _ \<Rightarrow> Seq_Validate (epSeq point))"

record Snapshot =
  snCapturedHead :: Head
  snResidentID :: ID
  snResidentStatus :: string
  snMemoryPolicyVersion :: string
  snLastUser :: "EventPoint option"
  snLastSelfTalk :: "EventPoint option"
  snLastInitiative :: "EventPoint option"
  snConsecutiveSelfTalk :: int
  snSelfTalkHourCount :: int
  snSelfTalkDayCount :: int
  snInitiativeHourCount :: int
  snInitiativeDayCount :: int
  snLatestRecordedAt :: Instant
  snProjectionAvailable :: bool
  snForegroundPending :: bool

definition checkPoint :: "EventPoint option \<Rightarrow> (canonical_error, unit) result" where
  "checkPoint point = (case point of None \<Rightarrow> ok | Some p \<Rightarrow> EventPoint_Validate p)"

definition Snapshot_Validate :: "Snapshot \<Rightarrow> (autonomy_error, unit) result" where
  "Snapshot_Validate s =
     (case Head_Validate (snCapturedHead s) of Inl e \<Rightarrow> Inl (ErrInvalidSnapshot ''captured head'')
      | Inr _ \<Rightarrow> (case ID_Validate (snResidentID s) of Inl e \<Rightarrow> Inl (ErrInvalidSnapshot ''resident ID'')
      | Inr _ \<Rightarrow>
          if snResidentStatus s = '''' \<or> snMemoryPolicyVersion s = ''''
          then Inl (ErrInvalidSnapshot ''resident status and memory policy version are required'')
          else (case checkE checkPoint [snLastUser s, snLastSelfTalk s, snLastInitiative s] of
                  Inl e \<Rightarrow> Inl (ErrInvalidSnapshot ''event point'')
            | Inr _ \<Rightarrow> checkE (\<lambda>count. if count < 0 then Inl (ErrInvalidSnapshot ''counters cannot be negative'') else ok)
                [snConsecutiveSelfTalk s, snSelfTalkHourCount s, snSelfTalkDayCount s,
                 snInitiativeHourCount s, snInitiativeDayCount s])))"

record TimePoint =
  tpWall :: int
  tpMonotonic :: int

record ObservedAnchor =
  oaEventID :: ID
  oaAt :: TimePoint

record RuntimeAnchors =
  raLastUser :: "ObservedAnchor option"
  raLastSelfTalk :: "ObservedAnchor option"
  raLastInitiative :: "ObservedAnchor option"

record EvaluationTime =
  etWallNow :: int
  etSinceLastUser :: "int option"
  etSinceLastSelfTalk :: "int option"
  etSinceLastInitiative :: "int option"
  etClockRegressed :: bool

text \<open>
  \<^verbatim>\<open>Instant.Time\<close>, the saturating \<^verbatim>\<open>Time.Sub\<close>, and \<^verbatim>\<open>Time.IsZero\<close>: the zero time is the start of the
  year one.
\<close>

definition instantTime :: "Instant \<Rightarrow> int" where
  "instantTime v = v * 1000"

definition timeSub :: "int \<Rightarrow> int \<Rightarrow> int" where
  "timeSub a b = max minInt64 (min maxInt64 (a - b))"

definition zeroTime :: int where
  "zeroTime = - 62135596800 * 1000000000"

definition elapsedFor :: "EventPoint option \<Rightarrow> ObservedAnchor option \<Rightarrow> TimePoint \<Rightarrow> int option \<times> bool" where
  "elapsedFor point anchor now =
     (case point of
        None \<Rightarrow> (None, False)
      | Some p \<Rightarrow>
          let wall = (let elapsed = timeSub (tpWall now) (instantTime (epRecordedAt p)) in (Some elapsed, elapsed < 0))
          in (case anchor of
                Some a \<Rightarrow>
                  if oaEventID a = epID p
                  then (let elapsed = wrap64 (tpMonotonic now - tpMonotonic (oaAt a))
                        in if elapsed < 0 then (Some elapsed, True) else (Some elapsed, False))
                  else wall
              | None \<Rightarrow> wall))"

definition ResolveEvaluationTime :: "Snapshot \<Rightarrow> TimePoint \<Rightarrow> RuntimeAnchors \<Rightarrow> EvaluationTime" where
  "ResolveEvaluationTime s now anchors =
     (let (user, r1) = elapsedFor (snLastUser s) (raLastUser anchors) now;
          (selfTalk, r2) = elapsedFor (snLastSelfTalk s) (raLastSelfTalk anchors) now;
          (initiative, r3) = elapsedFor (snLastInitiative s) (raLastInitiative anchors) now
      in \<lparr>etWallNow = tpWall now, etSinceLastUser = user, etSinceLastSelfTalk = selfTalk,
          etSinceLastInitiative = initiative,
          etClockRegressed = (r1 \<or> r2 \<or> r3 \<or>
            snLatestRecordedAt s \<noteq> 0 \<and> instantTime (snLatestRecordedAt s) > tpWall now)\<rparr>)"

section \<open>Policy\<close>

record LocalTime =
  ltMinute :: int

definition ParseLocalTime :: "string \<Rightarrow> (autonomy_error, LocalTime) result" where
  "ParseLocalTime raw =
     (if length raw \<noteq> 5 \<or> raw ! 2 \<noteq> CHR '':'' then Inl (ErrInvalidPolicy ''local time must use HH:MM'')
      else case (Atoi (take 2 raw), Atoi (drop 3 raw)) of
        (Some hour, Some minute) \<Rightarrow>
          if hour < 0 \<or> hour > 23 \<or> minute < 0 \<or> minute > 59
          then Inl (ErrInvalidPolicy ''invalid local time'')
          else Inr \<lparr>ltMinute = hour * 60 + minute\<rparr>
      | _ \<Rightarrow> Inl (ErrInvalidPolicy ''invalid local time''))"

text \<open>The format \<^verbatim>\<open>%02d\<close> of a non-negative number.\<close>

definition two_digits :: "int \<Rightarrow> string" where
  "two_digits v = (let s = FormatInt v in if length s < 2 then CHR ''0'' # s else s)"

definition LocalTime_String :: "LocalTime \<Rightarrow> string" where
  "LocalTime_String value = two_digits (ltMinute value sdiv 60) @ '':'' @ two_digits (ltMinute value smod 60)"

definition LocalTime_Validate :: "LocalTime \<Rightarrow> (autonomy_error, unit) result" where
  "LocalTime_Validate value =
     (if ltMinute value < 0 \<or> ltMinute value \<ge> 24 * 60 then Inl (ErrInvalidPolicy ''invalid local minute'') else ok)"

text \<open>
  What local time needs of the time zone database: whether \<^verbatim>\<open>LoadLocation\<close> knows a name, the minute
  of the local day at an instant, the instant of a minute of that local date (\<^verbatim>\<open>time.Date\<close>), and the
  same local clock time a day later (\<^verbatim>\<open>AddDate(0, 0, 1)\<close>).
\<close>

record calendar =
  calLoad :: "string \<Rightarrow> bool"
  calMinute :: "string \<Rightarrow> int \<Rightarrow> int"
  calDate :: "string \<Rightarrow> int \<Rightarrow> int \<Rightarrow> int"
  calAddDay :: "string \<Rightarrow> int \<Rightarrow> int"

record QuietHours =
  qhStart :: LocalTime
  qhEnd :: LocalTime

definition QuietHours_Validate :: "QuietHours \<Rightarrow> (autonomy_error, unit) result" where
  "QuietHours_Validate hours =
     (case LocalTime_Validate (qhStart hours) of Inl e \<Rightarrow> Inl e
      | Inr _ \<Rightarrow> (case LocalTime_Validate (qhEnd hours) of Inl e \<Rightarrow> Inl e
      | Inr _ \<Rightarrow>
          if ltMinute (qhStart hours) = ltMinute (qhEnd hours)
          then Inl (ErrInvalidPolicy ''quiet-hours start and end must differ'') else ok))"

definition QuietHours_Contains :: "calendar \<Rightarrow> string \<Rightarrow> QuietHours \<Rightarrow> int \<Rightarrow> bool" where
  "QuietHours_Contains cal location hours t =
     (let minute = calMinute cal location t
      in if ltMinute (qhStart hours) < ltMinute (qhEnd hours)
         then minute \<ge> ltMinute (qhStart hours) \<and> minute < ltMinute (qhEnd hours)
         else minute \<ge> ltMinute (qhStart hours) \<or> minute < ltMinute (qhEnd hours))"

definition EndAfter :: "calendar \<Rightarrow> string \<Rightarrow> QuietHours \<Rightarrow> int \<Rightarrow> int" where
  "EndAfter cal location hours t =
     (let finish = calDate cal location t (ltMinute (qhEnd hours))
      in if \<not> finish > t then calAddDay cal location finish else finish)"

record SelfTalkPolicy =
  spEnabled :: bool
  spInterval :: int
  spConsecutiveLimit :: int
  spHourlyLimit :: int
  spDailyLimit :: int
  spQuietHours :: QuietHours

record InitiativePolicy =
  ipEnabled :: bool
  ipMinimumInterval :: int
  ipHourlyLimit :: int
  ipDailyLimit :: int
  ipRecentUserSuppression :: int
  ipQuietHours :: QuietHours
  ipTriggers :: "TriggerKind list"

datatype RetentionMode = RetentionDisabled | RetentionCandidateAfter | UnknownRetentionMode string

datatype RetentionEligibility = RetentionPresentSelfTalk | UnknownRetentionEligibility string

record RetentionPolicy =
  rtMode :: RetentionMode
  rtDuration :: int
  rtScanInterval :: int
  rtEligibility :: RetentionEligibility

record AutonomyPolicy =
  apVersion :: string
  apTimezone :: string
  apScanInterval :: int
  apSelfTalk :: SelfTalkPolicy
  apInitiative :: InitiativePolicy
  apRetention :: RetentionPolicy

definition seconds :: "int \<Rightarrow> int" where
  "seconds n = n * 1000000000"

definition DefaultPolicy :: "string \<Rightarrow> AutonomyPolicy" where
  "DefaultPolicy timezone =
     (let quiet = \<lparr>qhStart = \<lparr>ltMinute = 23 * 60\<rparr>, qhEnd = \<lparr>ltMinute = 7 * 60\<rparr>\<rparr>
      in \<lparr>apVersion = PolicyVersionV0, apTimezone = timezone, apScanInterval = seconds 30,
          apSelfTalk = \<lparr>spEnabled = False, spInterval = seconds (30 * 60), spConsecutiveLimit = 10,
            spHourlyLimit = 2, spDailyLimit = 12, spQuietHours = quiet\<rparr>,
          apInitiative = \<lparr>ipEnabled = False, ipMinimumInterval = seconds (6 * 3600), ipHourlyLimit = 1,
            ipDailyLimit = 2, ipRecentUserSuppression = seconds (30 * 60), ipQuietHours = quiet,
            ipTriggers = [TriggerFutureToCurrent, TriggerVolatileAging]\<rparr>,
          apRetention = \<lparr>rtMode = RetentionDisabled, rtDuration = seconds (720 * 3600),
            rtScanInterval = seconds (24 * 3600), rtEligibility = RetentionPresentSelfTalk\<rparr>\<rparr>)"

definition triggerStep :: "TriggerKind set \<Rightarrow> TriggerKind \<Rightarrow> (autonomy_error, TriggerKind set) result" where
  "triggerStep seen kind =
     (if \<not> IsInitiative kind then Inl (ErrInvalidPolicy ''unsupported initiative trigger'')
      else if kind \<in> seen then Inl (ErrInvalidPolicy ''duplicate initiative trigger'')
      else Inr (insert kind seen))"

definition retentionShape :: "RetentionPolicy \<Rightarrow> (autonomy_error, unit) result" where
  "retentionShape r =
     (if rtMode r \<noteq> RetentionDisabled \<and> rtMode r \<noteq> RetentionCandidateAfter
      then Inl (ErrInvalidPolicy ''unsupported retention mode'')
      else if rtDuration r \<le> 0 \<or> rtScanInterval r \<le> 0
      then Inl (ErrInvalidPolicy ''retention durations must be positive'')
      else if rtEligibility r \<noteq> RetentionPresentSelfTalk
      then Inl (ErrInvalidPolicy ''unsupported retention eligibility'') else ok)"

definition AutonomyPolicy_Validate :: "calendar \<Rightarrow> AutonomyPolicy \<Rightarrow> (autonomy_error, unit) result" where
  "AutonomyPolicy_Validate cal policy =
     (let sp = apSelfTalk policy; ip = apInitiative policy
      in if apVersion policy \<noteq> PolicyVersionV0 then Inl (ErrInvalidPolicy ''unsupported version'')
      else if \<not> calLoad cal (apTimezone policy) \<or> apTimezone policy = ''Local'' \<or> TrimSpace_differs (apTimezone policy)
      then Inl (ErrInvalidPolicy ''invalid timezone'')
      else if apScanInterval policy \<le> 0 then Inl (ErrInvalidPolicy ''scan interval must be positive'')
      else if spInterval sp \<le> 0 \<or> spConsecutiveLimit sp \<le> 0 \<or> spHourlyLimit sp \<le> 0 \<or> spDailyLimit sp \<le> 0
      then Inl (ErrInvalidPolicy ''self-talk durations and limits must be positive'')
      else case QuietHours_Validate (spQuietHours sp) of Inl e \<Rightarrow> Inl e
      | Inr _ \<Rightarrow>
          if ipMinimumInterval ip \<le> 0 \<or> ipHourlyLimit ip \<le> 0 \<or> ipDailyLimit ip \<le> 0 \<or> ipRecentUserSuppression ip \<le> 0
          then Inl (ErrInvalidPolicy ''initiative durations and limits must be positive'')
          else (case QuietHours_Validate (ipQuietHours ip) of Inl e \<Rightarrow> Inl e
            | Inr _ \<Rightarrow>
                if length (ipTriggers ip) = 0 then Inl (ErrInvalidPolicy ''initiative requires at least one trigger'')
                else (case foldE triggerStep {} (ipTriggers ip) of Inl e \<Rightarrow> Inl e
                  | Inr _ \<Rightarrow> retentionShape (apRetention policy))))"

definition Location :: "calendar \<Rightarrow> AutonomyPolicy \<Rightarrow> (autonomy_error, string) result" where
  "Location cal policy =
     (case AutonomyPolicy_Validate cal policy of Inl e \<Rightarrow> Inl e | Inr _ \<Rightarrow> Inr (apTimezone policy))"

definition InitiativeAllows :: "AutonomyPolicy \<Rightarrow> TriggerKind \<Rightarrow> bool" where
  "InitiativeAllows policy kind \<longleftrightarrow> kind \<in> set (ipTriggers (apInitiative policy))"

definition hourEnd :: "calendar \<Rightarrow> string \<Rightarrow> int \<Rightarrow> int" where
  "hourEnd cal location t = calDate cal location t (60 * (calMinute cal location t div 60)) + seconds 3600"

definition dayEnd :: "calendar \<Rightarrow> string \<Rightarrow> int \<Rightarrow> int" where
  "dayEnd cal location t = calAddDay cal location (calDate cal location t 0)"

section \<open>Decisions\<close>

definition ConsecutiveSelfTalkAfter :: "int \<Rightarrow> AutonomyEventType \<Rightarrow> (autonomy_error, int) result" where
  "ConsecutiveSelfTalkAfter current eventType =
     (if current < 0 then Inl (ErrInvalidSnapshot ''negative consecutive count'')
      else case AutonomyEventType_Validate eventType of Inl e \<Rightarrow> Inl e
      | Inr _ \<Rightarrow> (case eventType of
          EventUserMessage \<Rightarrow> Inr 0
        | EventSelfTalk \<Rightarrow>
            if current = maxInt64 then Inl (ErrInvalidSnapshot ''consecutive count overflow'')
            else Inr (wrap64 (current + 1))
        | _ \<Rightarrow> Inr current))"

record Decision =
  dcEligible :: bool
  dcTrigger :: Trigger
  dcBlockingReason :: BlockingReason
  dcNextEligibleAt :: "int option"

definition blocked :: "Trigger \<Rightarrow> BlockingReason \<Rightarrow> int option \<Rightarrow> Decision" where
  "blocked trigger reason next =
     \<lparr>dcEligible = False, dcTrigger = trigger, dcBlockingReason = reason, dcNextEligibleAt = next\<rparr>"

definition eligible :: "Trigger \<Rightarrow> Decision" where
  "eligible trigger =
     \<lparr>dcEligible = True, dcTrigger = trigger, dcBlockingReason = BlockingNone, dcNextEligibleAt = None\<rparr>"

definition clockRegressed :: "Snapshot \<Rightarrow> EvaluationTime \<Rightarrow> bool" where
  "clockRegressed s timing =
     (if etClockRegressed timing \<or> etWallNow timing = zeroTime then True
      else if snLatestRecordedAt s \<noteq> 0 \<and> instantTime (snLatestRecordedAt s) > etWallNow timing then True
      else list_ex (\<lambda>elapsed. case elapsed of None \<Rightarrow> False | Some d \<Rightarrow> d < 0)
        [etSinceLastUser timing, etSinceLastSelfTalk timing, etSinceLastInitiative timing])"

definition autonomyMemoryPolicies :: "string list" where
  "autonomyMemoryPolicies = [''memory-policy-v3'', ''memory-policy-v4'', ''memory-policy-v5'']"

definition selfTalkAnchor :: "Snapshot \<Rightarrow> EvaluationTime \<Rightarrow> EventPoint \<Rightarrow> int option" where
  "selfTalkAnchor s timing user =
     (case snLastSelfTalk s of
        Some p \<Rightarrow> if epSeq p > epSeq user then etSinceLastSelfTalk timing else etSinceLastUser timing
      | None \<Rightarrow> etSinceLastUser timing)"

definition selfTalkLimits ::
    "calendar \<Rightarrow> string \<Rightarrow> SelfTalkPolicy \<Rightarrow> Snapshot \<Rightarrow> Trigger \<Rightarrow> EvaluationTime \<Rightarrow> Decision" where
  "selfTalkLimits cal location sp s trigger timing =
     (if snConsecutiveSelfTalk s \<ge> spConsecutiveLimit sp then blocked trigger BlockingConsecutiveLimit None
      else if snSelfTalkHourCount s \<ge> spHourlyLimit sp
      then blocked trigger BlockingHourlyLimit (Some (hourEnd cal location (etWallNow timing)))
      else if snSelfTalkDayCount s \<ge> spDailyLimit sp
      then blocked trigger BlockingDailyLimit (Some (dayEnd cal location (etWallNow timing)))
      else eligible trigger)"

definition DecideSelfTalk ::
    "calendar \<Rightarrow> AutonomyPolicy \<Rightarrow> Snapshot \<Rightarrow> Trigger \<Rightarrow> EvaluationTime \<Rightarrow> Decision" where
  "DecideSelfTalk cal policy s trigger timing =
     (let sp = apSelfTalk policy; now = etWallNow timing
      in if \<not> spEnabled sp then blocked trigger BlockingDisabled None
      else if snResidentStatus s \<noteq> ''active'' then blocked trigger BlockingResidentInactive None
      else if snMemoryPolicyVersion s \<notin> set autonomyMemoryPolicies
      then blocked trigger BlockingMemoryPolicyNotAutonomyV3 None
      else if snForegroundPending s then blocked trigger BlockingForegroundPending None
      else if clockRegressed s timing then blocked trigger BlockingClockRegression None
      else case Location cal policy of Inl _ \<Rightarrow> blocked trigger BlockingDisabled None
      | Inr location \<Rightarrow>
          if QuietHours_Contains cal location (spQuietHours sp) now
          then blocked trigger BlockingQuietHours (Some (EndAfter cal location (spQuietHours sp) now))
          else if \<not> IsSelfTalk (tgKind trigger) \<or> Trigger_Validate trigger \<noteq> ok
          then blocked trigger BlockingNoTrigger None
          else (case snLastUser s of None \<Rightarrow> blocked trigger BlockingNoTrigger None
            | Some user \<Rightarrow> (case selfTalkAnchor s timing user of None \<Rightarrow> blocked trigger BlockingClockRegression None
              | Some elapsed \<Rightarrow>
                  if elapsed < 0 then blocked trigger BlockingClockRegression None
                  else if elapsed < spInterval sp
                  then blocked trigger BlockingMinimumInterval (Some (now + wrap64 (spInterval sp - elapsed)))
                  else selfTalkLimits cal location sp s trigger timing)))"

definition initiativeLimits ::
    "calendar \<Rightarrow> string \<Rightarrow> InitiativePolicy \<Rightarrow> Snapshot \<Rightarrow> Trigger \<Rightarrow> EvaluationTime \<Rightarrow> Decision" where
  "initiativeLimits cal location ip s trigger timing =
     (if snInitiativeHourCount s \<ge> ipHourlyLimit ip
      then blocked trigger BlockingHourlyLimit (Some (hourEnd cal location (etWallNow timing)))
      else if snInitiativeDayCount s \<ge> ipDailyLimit ip
      then blocked trigger BlockingDailyLimit (Some (dayEnd cal location (etWallNow timing)))
      else eligible trigger)"

text \<open>A spacing rule: the event, the elapsed time since it, the least spacing and its reason.\<close>

definition spacing ::
    "Trigger \<Rightarrow> int \<Rightarrow> EventPoint option \<Rightarrow> int option \<Rightarrow> int \<Rightarrow> BlockingReason \<Rightarrow> Decision option" where
  "spacing trigger now point elapsed least reason =
     (case point of None \<Rightarrow> None
      | Some _ \<Rightarrow> (case elapsed of None \<Rightarrow> Some (blocked trigger BlockingClockRegression None)
        | Some d \<Rightarrow>
            if d < 0 then Some (blocked trigger BlockingClockRegression None)
            else if d < least then Some (blocked trigger reason (Some (now + wrap64 (least - d))))
            else None))"

definition DecideInitiative ::
    "calendar \<Rightarrow> AutonomyPolicy \<Rightarrow> Snapshot \<Rightarrow> Trigger \<Rightarrow> EvaluationTime \<Rightarrow> Decision" where
  "DecideInitiative cal policy s trigger timing =
     (let ip = apInitiative policy; now = etWallNow timing
      in if \<not> ipEnabled ip then blocked trigger BlockingDisabled None
      else if snResidentStatus s \<noteq> ''active'' then blocked trigger BlockingResidentInactive None
      else if snForegroundPending s then blocked trigger BlockingForegroundPending None
      else if \<not> snProjectionAvailable s then blocked trigger BlockingProjectionUnavailable None
      else if \<not> IsInitiative (tgKind trigger) \<or> Trigger_Validate trigger \<noteq> ok \<or> \<not> InitiativeAllows policy (tgKind trigger)
      then blocked trigger BlockingNoTrigger None
      else if clockRegressed s timing then blocked trigger BlockingClockRegression None
      else case Location cal policy of Inl _ \<Rightarrow> blocked trigger BlockingDisabled None
      | Inr location \<Rightarrow>
          if QuietHours_Contains cal location (ipQuietHours ip) now
          then blocked trigger BlockingQuietHours (Some (EndAfter cal location (ipQuietHours ip) now))
          else (case spacing trigger now (snLastUser s) (etSinceLastUser timing)
                  (ipRecentUserSuppression ip) BlockingRecentUserSuppression of
              Some d \<Rightarrow> d
            | None \<Rightarrow> (case spacing trigger now (snLastInitiative s) (etSinceLastInitiative timing)
                    (ipMinimumInterval ip) BlockingMinimumInterval of
                Some d \<Rightarrow> d
              | None \<Rightarrow> initiativeLimits cal location ip s trigger timing)))"

section \<open>Keys\<close>

lemma join_colon_Cons: "ps \<noteq> [] \<Longrightarrow> join_colon (p # ps) = p @ CHR '':'' # join_colon ps"
  by (cases ps) simp_all

lemma join_colon_snoc: "ps \<noteq> [] \<Longrightarrow> join_colon (ps @ [q]) = join_colon ps @ CHR '':'' # q"
  by (induction ps rule: join_colon.induct) simp_all

definition colon_free :: "string \<Rightarrow> bool" where
  "colon_free s \<longleftrightarrow> CHR '':'' \<notin> set s"

lemma colon_split:
  assumes "colon_free p" and "colon_free q" and "p @ CHR '':'' # s = q @ CHR '':'' # t"
  shows "p = q \<and> s = t"
proof -
  have head: "takeWhile (\<lambda>c. c \<noteq> CHR '':'') (p @ CHR '':'' # s) = p" if "colon_free p" for p s
    using that by (induction p) (auto simp: colon_free_def)
  have "p = q" using head assms by metis
  with assms(3) show ?thesis by simp
qed

lemma join_colon_single:
  assumes "colon_free p" and "ps \<noteq> []"
  shows "join_colon (q # ps) \<noteq> p"
  using assms by (auto simp: join_colon_Cons colon_free_def)

lemma join_colon_inj:
  assumes "list_all colon_free ps" and "list_all colon_free qs" and "ps \<noteq> []" and "qs \<noteq> []"
    and "join_colon ps = join_colon qs"
  shows "ps = qs"
  using assms
proof (induction ps arbitrary: qs)
  case (Cons p ps)
  obtain q qs' where qs: "qs = q # qs'" using Cons.prems(4) by (cases qs) auto
  show ?case
  proof (cases "ps = [] \<or> qs' = []")
    case True
    then have "ps = []" and "qs' = []"
      using Cons.prems qs join_colon_single [of p qs' q] join_colon_single [of q ps p] by force+
    then show ?thesis using Cons.prems qs by simp
  next
    case False
    then have "p @ CHR '':'' # join_colon ps = q @ CHR '':'' # join_colon qs'"
      using Cons.prems(5) qs by (simp add: join_colon_Cons)
    moreover have "colon_free p" "colon_free q" using Cons.prems(1,2) qs by simp_all
    ultimately have "p = q" and "join_colon ps = join_colon qs'" using colon_split by blast+
    then show ?thesis
      using Cons.IH [of qs'] Cons.prems(1,2) False qs by simp
  qed
qed simp

lemma nat_digits_colon_free: "colon_free (nat_digits n)"
proof -
  have "c \<noteq> CHR '':''" if "isDigit c" for c using that by (auto simp: isDigit_def byte_def)
  then show ?thesis using nat_digits_all [of n] by (auto simp: colon_free_def list_all_iff)
qed

lemma FormatInt_colon_free: "colon_free (FormatInt v)"
  using nat_digits_colon_free by (auto simp: FormatInt_def colon_free_def)

lemma FormatInt_inj: "FormatInt v = FormatInt w \<longleftrightarrow> v = w"
proof
  assume eq: "FormatInt v = FormatInt w"
  have sign: "(FormatInt u ! 0 = CHR ''-'') = (u < 0)" for u
    using hd_nat_digits_not_sign [of "nat u"] by (simp add: FormatInt_def hd_conv_nth)
  have "(v < 0) = (w < 0)" using sign eq by metis
  then have "nat_digits (nat \<bar>v\<bar>) = nat_digits (nat \<bar>w\<bar>)"
    using eq by (auto simp: FormatInt_def split: if_splits)
  then have "nat \<bar>v\<bar> = nat \<bar>w\<bar>" by (metis digits_value_nat_digits)
  with \<open>(v < 0) = (w < 0)\<close> show "v = w" by (auto split: if_splits)
qed simp

text \<open>When two triggers stand for the same occasion: conflicting claims are an unordered pair.\<close>

definition same_trigger :: "Trigger \<Rightarrow> Trigger \<Rightarrow> bool" where
  "same_trigger t u \<longleftrightarrow> tgKind t = tgKind u \<and> tgSourceID t = tgSourceID u \<and> tgOrdinal t = tgOrdinal u
     \<and> tgBoundary t = tgBoundary u \<and> mset (tgRelatedClaimIDs t) = mset (tgRelatedClaimIDs u)"

definition id_text :: "(ID \<Rightarrow> string) \<Rightarrow> bool" where
  "id_text idString \<longleftrightarrow> inj idString \<and> (\<forall>i. colon_free (idString i))"

interpretation claim_order: sort_order "\<lambda>a b. idString a < (idString b :: string)" for idString :: "ID \<Rightarrow> string"
  by (rule sort_order_key)

lemma sorted_claims:
  fixes idString :: "ID \<Rightarrow> string"
  assumes "inj idString"
  shows "slice_stable (\<lambda>a b. idString a < idString b) xs = slice_stable (\<lambda>a b. idString a < idString b) ys
    \<longleftrightarrow> mset xs = mset (ys :: ID list)"
proof
  assume eq: "mset xs = mset ys"
  show "slice_stable (\<lambda>a b. idString a < idString b) xs = slice_stable (\<lambda>a b. idString a < idString b) ys"
  proof (rule claim_order.slice_stable_unique)
    show "sorted_wrt (\<lambda>a b. \<not> idString b < idString a) (slice_stable (\<lambda>a b. idString a < idString b) xs)"
      by (rule claim_order.slice_stable_sorted)
    show "mset (slice_stable (\<lambda>a b. idString a < idString b) xs) = mset ys" using eq by simp
    show "idString a < idString b \<or> idString b < idString a" if "a \<noteq> b" for a b
      using that assms by (meson injD linorder_neqE)
  qed
qed (metis mset_slice_stable)

lemma valid_kind:
  assumes "Trigger_Validate t = ok"
  shows "\<nexists>s. tgKind t = UnknownTriggerKind s" and "triggerShape t = ok"
  using assms by (auto simp: Trigger_Validate_def TriggerKind_Validate_def split: sum.splits TriggerKind.splits)

lemma identityParts_eq:
  assumes ids: "id_text idString" and t: "Trigger_Validate t = ok" and u: "Trigger_Validate u = ok"
  shows "identityParts idString t = identityParts idString u \<longleftrightarrow> same_trigger t u"
proof
  assume "same_trigger t u"
  then show "identityParts idString t = identityParts idString u"
    using sorted_claims ids by (auto simp: same_trigger_def identityParts_def id_text_def)
next
  have inj: "inj idString" using ids by (simp add: id_text_def)
  define claims where "claims t = map idString
    (slice_stable (\<lambda>a b. idString a < idString b) (tgRelatedClaimIDs t))" for t :: Trigger
  assume eq: "identityParts idString t = identityParts idString u"
  have "TriggerKind_string (tgKind t) = TriggerKind_string (tgKind u)" and "tgSourceID t = tgSourceID u"
    using eq inj by (auto simp: identityParts_def dest: injD)
  moreover from this have kind: "tgKind t = tgKind u"
    using valid_kind(1) [OF t] valid_kind(1) [OF u] by (cases "tgKind t"; cases "tgKind u") simp_all
  moreover have "(if tgOrdinal t \<noteq> 0 then [FormatInt (tgOrdinal t)] else [])
      @ (if tgBoundary t \<noteq> 0 then [FormatInt (tgBoundary t)] else []) @ claims t
    = (if tgOrdinal u \<noteq> 0 then [FormatInt (tgOrdinal u)] else [])
      @ (if tgBoundary u \<noteq> 0 then [FormatInt (tgBoundary u)] else []) @ claims u"
    using eq by (simp add: identityParts_def claims_def)
  then have "tgOrdinal t = tgOrdinal u \<and> tgBoundary t = tgBoundary u \<and> claims t = claims u"
    using kind valid_kind [OF t] valid_kind [OF u]
    by (cases "tgKind u") (simp_all add: triggerShape_def FormatInt_inj split: if_splits)
  ultimately show "same_trigger t u"
    using sorted_claims [OF inj] inj by (simp add: same_trigger_def claims_def inj_map_eq_map)
qed

lemma identityParts_colon_free:
  assumes "id_text idString" and "Trigger_Validate t = ok"
  shows "list_all colon_free (identityParts idString t)"
proof -
  have "colon_free (TriggerKind_string (tgKind t))"
    using valid_kind(1) [OF assms(2)] by (cases "tgKind t") (simp_all add: colon_free_def)
  then show ?thesis
    using assms(1) by (auto simp: identityParts_def id_text_def FormatInt_colon_free list_all_iff)
qed

definition keyParts :: "(ID \<Rightarrow> string) \<Rightarrow> Trigger \<Rightarrow> string list" where
  "keyParts idString t = (if IsInitiative (tgKind t) then ''outbound_initiative'' else ''self_talk'')
     # ''v1'' # identityParts idString t @ [PolicyVersionV0]"

lemma IdempotencyKey_parts:
  assumes "Trigger_Validate t = ok" and "resident \<noteq> 0"
  shows "IdempotencyKey idString t PolicyVersionV0 resident = Inr (join_colon (keyParts idString t))"
proof -
  have "identityParts idString t \<noteq> []" by (simp add: identityParts_def)
  then have "join_colon (keyParts idString t) =
      (if IsInitiative (tgKind t) then ''outbound_initiative'' else ''self_talk'') @ '':v1:''
      @ join_colon (identityParts idString t) @ '':'' @ PolicyVersionV0"
    by (simp add: keyParts_def join_colon_Cons join_colon_snoc)
  then show ?thesis
    using assms by (simp add: IdempotencyKey_def StableIdentity_def ID_Validate_def ID_IsZero_def)
qed

lemma keyParts_colon_free:
  assumes "id_text idString" and "Trigger_Validate t = ok"
  shows "list_all colon_free (keyParts idString t)"
  using identityParts_colon_free [OF assms] by (simp add: keyParts_def) (simp add: colon_free_def PolicyVersionV0_def)

section \<open>Quiet hours and local times\<close>

text \<open>Quiet hours are a half-open interval on the circle of 1440 minutes.\<close>

definition quiet_minute :: "QuietHours \<Rightarrow> int \<Rightarrow> bool" where
  "quiet_minute hours minute \<longleftrightarrow>
     (minute - ltMinute (qhStart hours)) mod 1440 < (ltMinute (qhEnd hours) - ltMinute (qhStart hours)) mod 1440"

lemma QuietHours_Contains_circle:
  assumes "QuietHours_Validate hours = ok" and "0 \<le> calMinute cal location t" and "calMinute cal location t < 1440"
  shows "QuietHours_Contains cal location hours t \<longleftrightarrow>
    (calMinute cal location t - ltMinute (qhStart hours)) mod 1440
      < (ltMinute (qhEnd hours) - ltMinute (qhStart hours)) mod 1440"
proof -
  define m where "m = calMinute cal location t"
  define a where "a = ltMinute (qhStart hours)"
  define b where "b = ltMinute (qhEnd hours)"
  have range: "0 \<le> a" "a < 1440" "0 \<le> b" "b < 1440" "a \<noteq> b" "0 \<le> m" "m < 1440"
    using assms by (auto simp: a_def b_def m_def QuietHours_Validate_def LocalTime_Validate_def split: if_splits)
  have wrap: "(x - a) mod 1440 = (if a \<le> x then x - a else x - a + 1440)" if "0 \<le> x" "x < 1440" for x :: int
  proof (cases "a \<le> x")
    case False
    have "(x - a) mod 1440 = (x - a + 1440) mod 1440" by simp
    also have "\<dots> = x - a + 1440" using that range False by (intro mod_pos_pos_trivial) auto
    finally show ?thesis using False by simp
  qed (use that range in simp)
  show ?thesis
    using range wrap [of m] wrap [of b]
    by (simp add: QuietHours_Contains_def Let_def m_def [symmetric] a_def [symmetric] b_def [symmetric])
qed

lemma nat_digits_small: "n < 100 \<Longrightarrow> nat_digits n = (if n < 10 then [digit_char n] else [digit_char (n div 10), digit_char (n mod 10)])"
  using less_mult_imp_div_less [of n 10 10] by (subst nat_digits.simps) (simp add: nat_digits.simps [of "n div 10"])

lemma two_digits_text:
  assumes "0 \<le> v" and "v < 100"
  shows "length (two_digits v) = 2 \<and> Atoi (two_digits v) = Some v"
proof -
  have "length (FormatInt v) = (if v < 10 then 1 else 2)"
    using assms by (auto simp: FormatInt_def nat_digits_small)
  moreover have "list_all isDigit (FormatInt v)"
    using assms nat_digits_all by (simp add: FormatInt_def)
  moreover have "digits_value (FormatInt v) = nat v" using assms by (simp add: FormatInt_def)
  moreover have "digits_value (CHR ''0'' # s) = digits_value s" for s
    by (simp add: digits_value_def byte_def)
  ultimately show ?thesis
    using assms isDigit_not_sign [of "hd (FormatInt v)"]
    by (cases "FormatInt v") (auto simp: two_digits_def Let_def Atoi_def ParseInt_def isDigit_def byte_def split: if_splits)
qed

lemma ParseLocalTime_String:
  assumes "LocalTime_Validate v = ok"
  shows "ParseLocalTime (LocalTime_String v) = Inr v"
proof -
  define m where "m = ltMinute v"
  have range: "0 \<le> m" "m < 1440" using assms by (auto simp: m_def LocalTime_Validate_def split: if_splits)
  then have "m sdiv 60 = m div 60" and "m smod 60 = m mod 60"
    by (simp_all add: signed_divide_int_def signed_modulo_int_def sgn_if)
  moreover have "m div 60 < 24" "0 \<le> m div 60" "m mod 60 < 60" "0 \<le> m mod 60" using range by auto
  ultimately show ?thesis
    using two_digits_text [of "m div 60"] two_digits_text [of "m mod 60"] range
    by (simp add: ParseLocalTime_def LocalTime_String_def m_def [symmetric] nth_append not_less)
qed

section \<open>Consecutive self talk\<close>

definition self_talk_run :: "AutonomyEventType list \<Rightarrow> nat" where
  "self_talk_run h = length (filter (\<lambda>e. e = EventSelfTalk) (takeWhile (\<lambda>e. e \<noteq> EventUserMessage) (rev h)))"

lemma self_talk_run_snoc:
  "self_talk_run (h @ [e]) = (if e = EventUserMessage then 0 else if e = EventSelfTalk then Suc (self_talk_run h) else self_talk_run h)"
  by (simp add: self_talk_run_def)

lemma self_talk_run_suffix:
  assumes "EventUserMessage \<notin> set b"
  shows "length (filter (\<lambda>e. e = EventSelfTalk) b) \<le> self_talk_run (a @ b)"
proof -
  have "takeWhile (\<lambda>e. e \<noteq> EventUserMessage) (rev b @ rev a) = rev b @ takeWhile (\<lambda>e. e \<noteq> EventUserMessage) (rev a)"
    using assms by (subst takeWhile_append2) auto
  then have "self_talk_run (a @ b) = length (filter (\<lambda>e. e = EventSelfTalk) (rev b))
      + length (filter (\<lambda>e. e = EventSelfTalk) (takeWhile (\<lambda>e. e \<noteq> EventUserMessage) (rev a)))"
    by (simp add: self_talk_run_def)
  then show ?thesis by (simp add: rev_filter [symmetric])
qed

text \<open>A history in which every self talk was decided, on a snapshot with the counter of the history before it.\<close>

inductive paced :: "calendar \<Rightarrow> AutonomyPolicy \<Rightarrow> AutonomyEventType list \<Rightarrow> bool" for cal policy where
  Start: "paced cal policy []"
| Other: "paced cal policy h \<Longrightarrow> e \<in> {EventUserMessage, EventResidentMessage, EventOutboundInitiative}
    \<Longrightarrow> paced cal policy (h @ [e])"
| SelfTalk: "paced cal policy h \<Longrightarrow> foldE ConsecutiveSelfTalkAfter 0 h = Inr (snConsecutiveSelfTalk s)
    \<Longrightarrow> dcEligible (DecideSelfTalk cal policy s trigger timing) \<Longrightarrow> paced cal policy (h @ [EventSelfTalk])"

lemma paced_prefix: "paced cal policy (h @ c) \<Longrightarrow> paced cal policy h"
proof (induction c rule: rev_induct)
  case (snoc e c)
  then have "paced cal policy ((h @ c) @ [e])" by simp
  then have "paced cal policy (h @ c)" by (cases rule: paced.cases) auto
  then show ?case by (rule snoc.IH)
qed simp

lemma blocked_simps [simp]:
  "dcEligible (blocked t r n) = False" "dcBlockingReason (blocked t r n) = r" "dcTrigger (blocked t r n) = t"
  "dcNextEligibleAt (blocked t r n) = n"
  by (simp_all add: blocked_def)

lemma eligible_simps [simp]:
  "dcEligible (eligible t)" "dcBlockingReason (eligible t) = BlockingNone" "dcTrigger (eligible t) = t"
  by (simp_all add: eligible_def)

text \<open>What a decision for self talk requires, gate by gate.\<close>

definition self_talk_allowed ::
    "calendar \<Rightarrow> AutonomyPolicy \<Rightarrow> Snapshot \<Rightarrow> Trigger \<Rightarrow> EvaluationTime \<Rightarrow> bool" where
  "self_talk_allowed cal policy s trigger timing \<longleftrightarrow>
     spEnabled (apSelfTalk policy) \<and> AutonomyPolicy_Validate cal policy = ok
     \<and> snResidentStatus s = ''active'' \<and> snMemoryPolicyVersion s \<in> set autonomyMemoryPolicies
     \<and> \<not> snForegroundPending s \<and> \<not> clockRegressed s timing
     \<and> \<not> QuietHours_Contains cal (apTimezone policy) (spQuietHours (apSelfTalk policy)) (etWallNow timing)
     \<and> IsSelfTalk (tgKind trigger) \<and> Trigger_Validate trigger = ok
     \<and> (\<exists>user elapsed. snLastUser s = Some user \<and> selfTalkAnchor s timing user = Some elapsed
          \<and> 0 \<le> elapsed \<and> spInterval (apSelfTalk policy) \<le> elapsed)
     \<and> snConsecutiveSelfTalk s < spConsecutiveLimit (apSelfTalk policy)
     \<and> snSelfTalkHourCount s < spHourlyLimit (apSelfTalk policy)
     \<and> snSelfTalkDayCount s < spDailyLimit (apSelfTalk policy)"

lemma Location_cases:
  "Location cal policy = (case AutonomyPolicy_Validate cal policy of Inl e \<Rightarrow> Inl e | Inr _ \<Rightarrow> Inr (apTimezone policy))"
  by (simp add: Location_def)

lemma DecideSelfTalk_eligible:
  "dcEligible (DecideSelfTalk cal policy s trigger timing) \<longleftrightarrow> self_talk_allowed cal policy s trigger timing"
  unfolding DecideSelfTalk_def Let_def self_talk_allowed_def Location_def selfTalkLimits_def
  by (auto split: sum.splits option.splits)

lemma paced_counter:
  assumes "paced cal policy h" and "spConsecutiveLimit (apSelfTalk policy) \<le> maxInt64"
    and "0 \<le> spConsecutiveLimit (apSelfTalk policy)"
  shows "foldE ConsecutiveSelfTalkAfter 0 h = Inr (int (self_talk_run h))
    \<and> int (self_talk_run h) \<le> spConsecutiveLimit (apSelfTalk policy)"
  using assms(1)
proof (induction rule: paced.induct)
  case Start
  then show ?case using assms(3) by (simp add: self_talk_run_def)
next
  case (Other h e)
  then show ?case
    using assms(3)
    by (auto simp: foldE_append self_talk_run_snoc ConsecutiveSelfTalkAfter_def AutonomyEventType_Validate_def)
next
  case (SelfTalk h s trigger timing)
  then have "int (self_talk_run h) < spConsecutiveLimit (apSelfTalk policy)"
    by (simp add: DecideSelfTalk_eligible self_talk_allowed_def)
  then have "int64 (int (self_talk_run h) + 1)" and "int (self_talk_run h) \<noteq> maxInt64"
    using assms(2) by (auto simp: int64_maxInt64_iff minInt64_def)
  with SelfTalk \<open>int (self_talk_run h) < _\<close> show ?case
    by (simp add: foldE_append self_talk_run_snoc ConsecutiveSelfTalkAfter_def AutonomyEventType_Validate_def wrap64_id)
qed

section \<open>Initiative\<close>

definition spaced :: "EventPoint option \<Rightarrow> int option \<Rightarrow> int \<Rightarrow> bool" where
  "spaced point elapsed least \<longleftrightarrow> point = None \<or> (\<exists>d. elapsed = Some d \<and> 0 \<le> d \<and> least \<le> d)"

definition initiative_allowed ::
    "calendar \<Rightarrow> AutonomyPolicy \<Rightarrow> Snapshot \<Rightarrow> Trigger \<Rightarrow> EvaluationTime \<Rightarrow> bool" where
  "initiative_allowed cal policy s trigger timing \<longleftrightarrow>
     ipEnabled (apInitiative policy) \<and> AutonomyPolicy_Validate cal policy = ok
     \<and> snResidentStatus s = ''active'' \<and> snProjectionAvailable s
     \<and> \<not> snForegroundPending s \<and> \<not> clockRegressed s timing
     \<and> \<not> QuietHours_Contains cal (apTimezone policy) (ipQuietHours (apInitiative policy)) (etWallNow timing)
     \<and> tgKind trigger \<in> set (ipTriggers (apInitiative policy)) \<and> Trigger_Validate trigger = ok
     \<and> spaced (snLastUser s) (etSinceLastUser timing) (ipRecentUserSuppression (apInitiative policy))
     \<and> spaced (snLastInitiative s) (etSinceLastInitiative timing) (ipMinimumInterval (apInitiative policy))
     \<and> snInitiativeHourCount s < ipHourlyLimit (apInitiative policy)
     \<and> snInitiativeDayCount s < ipDailyLimit (apInitiative policy)"

lemma spacing_None:
  "spacing trigger now point elapsed least reason = None \<longleftrightarrow> spaced point elapsed least"
  by (auto simp: spacing_def spaced_def split: option.splits)

lemma spacing_Some:
  "spacing trigger now point elapsed least reason = Some d \<Longrightarrow> reason \<noteq> BlockingNone
    \<Longrightarrow> \<not> dcEligible d \<and> dcBlockingReason d \<noteq> BlockingNone \<and> dcTrigger d = trigger"
  by (auto simp: spacing_def split: option.splits if_splits)

lemma after_spacing:
  "reason \<noteq> BlockingNone \<Longrightarrow>
    dcEligible (case spacing trigger now point elapsed least reason of None \<Rightarrow> k | Some d \<Rightarrow> d)
    \<longleftrightarrow> spaced point elapsed least \<and> dcEligible k"
  by (cases "spacing trigger now point elapsed least reason")
    (use spacing_None [of trigger now point elapsed least reason] spacing_Some [of trigger now point elapsed least reason] in auto)

lemma valid_triggers: "foldE triggerStep seen ks = Inr seen' \<Longrightarrow> list_all IsInitiative ks"
  by (induction ks arbitrary: seen) (auto simp: triggerStep_def split: if_splits)

lemma valid_policy_triggers:
  "AutonomyPolicy_Validate cal policy = ok \<Longrightarrow> kind \<in> set (ipTriggers (apInitiative policy)) \<Longrightarrow> IsInitiative kind"
  by (auto simp: AutonomyPolicy_Validate_def Let_def case_result_ok list_all_iff dest!: valid_triggers split: if_splits)

lemma DecideInitiative_eligible:
  "dcEligible (DecideInitiative cal policy s trigger timing) \<longleftrightarrow> initiative_allowed cal policy s trigger timing"
proof (cases "AutonomyPolicy_Validate cal policy")
  case (Inl e)
  then show ?thesis
    by (simp add: DecideInitiative_def Let_def initiative_allowed_def Location_def)
next
  case (Inr u)
  then have kind: "IsInitiative k" if "k \<in> set (ipTriggers (apInitiative policy))" for k
    using valid_policy_triggers that by simp
  let ?k = "tgKind trigger" and ?i = "apInitiative policy"
  have allowed: "IsInitiative ?k \<and> ?k \<in> set (ipTriggers ?i) \<longleftrightarrow> ?k \<in> set (ipTriggers ?i)" using kind by blast
  have limits: "dcEligible (initiativeLimits cal location ?i s trigger timing) \<longleftrightarrow>
      snInitiativeHourCount s < ipHourlyLimit ?i \<and> snInitiativeDayCount s < ipDailyLimit ?i" for location
    by (simp add: initiativeLimits_def not_le)
  have valid: "AutonomyPolicy_Validate cal policy = ok" and loc: "Location cal policy = Inr (apTimezone policy)"
    using Inr by (simp_all add: Location_def)
  have guarded: "dcEligible (if b then blocked trigger r w else d) \<longleftrightarrow> \<not> b \<and> dcEligible d" for b r w d by simp
  have suppress: "dcEligible (case spacing trigger now p e least BlockingRecentUserSuppression of None \<Rightarrow> d | Some x \<Rightarrow> x) \<longleftrightarrow> spaced p e least \<and> dcEligible d"
    and minimum: "dcEligible (case spacing trigger now p e least BlockingMinimumInterval of None \<Rightarrow> d | Some x \<Rightarrow> x) \<longleftrightarrow> spaced p e least \<and> dcEligible d"
    for now p e least d by (simp_all add: after_spacing)
  show ?thesis
    unfolding DecideInitiative_def Let_def loc sum.case guarded suppress minimum limits initiative_allowed_def InitiativeAllows_def
    using valid allowed by blast
qed

text \<open>Every decision names the trigger it is about, and a refusal always has a reason.\<close>

lemma decision_reason_selfTalk:
  "dcTrigger (DecideSelfTalk cal policy s trigger timing) = trigger
   \<and> (dcBlockingReason (DecideSelfTalk cal policy s trigger timing) = BlockingNone
      \<longleftrightarrow> dcEligible (DecideSelfTalk cal policy s trigger timing))"
  unfolding DecideSelfTalk_def Let_def selfTalkLimits_def
  by (auto split: sum.splits option.splits)

lemma decision_reason_initiative:
  "dcTrigger (DecideInitiative cal policy s trigger timing) = trigger
   \<and> (dcBlockingReason (DecideInitiative cal policy s trigger timing) = BlockingNone
      \<longleftrightarrow> dcEligible (DecideInitiative cal policy s trigger timing))"
  unfolding DecideInitiative_def Let_def initiativeLimits_def
  by (auto split: sum.splits option.splits dest!: spacing_Some)

text \<open>Elapsed times of one process: monotonic where the anchor is still that of the event.\<close>

lemma elapsedFor_anchored:
  assumes "point = Some p" and "anchor = Some a" and "oaEventID a = epID p"
    and "int64 (tpMonotonic now - tpMonotonic (oaAt a))"
  shows "elapsedFor point anchor now =
    (Some (tpMonotonic now - tpMonotonic (oaAt a)), tpMonotonic now < tpMonotonic (oaAt a))"
  using assms by (simp add: elapsedFor_def Let_def wrap64_id)

lemma elapsedFor_wall:
  assumes "point = Some p" and "\<And>a. anchor = Some a \<Longrightarrow> oaEventID a \<noteq> epID p"
  shows "elapsedFor point anchor now =
    (Some (timeSub (tpWall now) (instantTime (epRecordedAt p))), tpWall now < instantTime (epRecordedAt p))"
  using assms by (auto simp: elapsedFor_def Let_def timeSub_def minInt64_def maxInt64_def split: option.splits)

end
