(* ===== verification/Autonomy_Retention.thy ===== *)
theory Autonomy_Retention
  imports Autonomy
begin

text \<open>
  Retention candidates of \<^verbatim>\<open>internal/autonomy/retention.go\<close>: which recorded self talk is old enough
  to be proposed for erasure, with the references that stand against it.
\<close>

section \<open>Data and candidates\<close>

datatype RetentionImpactReason =
    ImpactClaimProvenanceReference | ImpactGenerationInputReference | ImpactGenerationOutputReference
  | ImpactContentPolicyRequiresResidentErase

record ReferenceImpact =
  riEvidenceReferences :: int
  riClaimReferences :: int
  riGenerationInputReferences :: int
  riGenerationOutputReferences :: int

record RetentionSource =
  rsResidentID :: ID
  rsEventID :: ID
  rsContentID :: ID
  rsEventType :: AutonomyEventType
  rsRecordedAt :: Instant
  rsContentPresent :: bool
  rsErasurePolicy :: string
  rsReferences :: ReferenceImpact

record RetentionCapture =
  rcCapturedHead :: Head
  rcSources :: "RetentionSource list"

record RetentionCandidate =
  rkResidentID :: ID
  rkEventID :: ID
  rkContentID :: ID
  rkRecordedAt :: Instant
  rkAge :: int
  rkAgeMicroseconds :: int
  rkReferences :: ReferenceImpact
  rkBlockingReasons :: "RetentionImpactReason list"

definition impactReasons :: "RetentionSource \<Rightarrow> RetentionImpactReason list" where
  "impactReasons source =
     (if rsErasurePolicy source \<noteq> ''independent'' then [ImpactContentPolicyRequiresResidentErase] else [])
     @ (if riEvidenceReferences (rsReferences source) > 0 \<or> riClaimReferences (rsReferences source) > 0
        then [ImpactClaimProvenanceReference] else [])
     @ (if riGenerationInputReferences (rsReferences source) > 0 then [ImpactGenerationInputReference] else [])
     @ (if riGenerationOutputReferences (rsReferences source) > 0 then [ImpactGenerationOutputReference] else [])"

definition candidateOf :: "int \<Rightarrow> RetentionSource \<Rightarrow> RetentionCandidate" where
  "candidateOf age source =
     \<lparr>rkResidentID = rsResidentID source, rkEventID = rsEventID source, rkContentID = rsContentID source,
      rkRecordedAt = rsRecordedAt source, rkAge = age, rkAgeMicroseconds = age sdiv 1000,
      rkReferences = rsReferences source, rkBlockingReasons = impactReasons source\<rparr>"

definition candidateStep ::
    "RetentionPolicy \<Rightarrow> int \<Rightarrow> RetentionCandidate list \<times> ID set \<Rightarrow> RetentionSource
      \<Rightarrow> (autonomy_error, RetentionCandidate list \<times> ID set) result" where
  "candidateStep policy wallNow st source =
     (case st of (found, seen) \<Rightarrow>
        case checkE ID_Validate [rsResidentID source, rsEventID source, rsContentID source] of
          Inl e \<Rightarrow> Inl (ErrInvalidRetention ''invalid source ID'')
        | Inr _ \<Rightarrow>
            if rsEventID source \<in> seen then Inl (ErrInvalidRetention ''duplicate event'')
            else let seen = insert (rsEventID source) seen; refs = rsReferences source
              in if rsEventType source \<noteq> EventSelfTalk \<or> \<not> rsContentPresent source then Inr (found, seen)
              else if list_ex (\<lambda>count. count < 0) [riEvidenceReferences refs, riClaimReferences refs,
                  riGenerationInputReferences refs, riGenerationOutputReferences refs]
              then Inl (ErrInvalidRetention ''reference counts cannot be negative'')
              else if instantTime (rsRecordedAt source) > wallNow then Inr (found, seen)
              else let age = timeSub wallNow (instantTime (rsRecordedAt source))
                in if age < rtDuration policy then Inr (found, seen)
                   else Inr (found @ [candidateOf age source], seen))"

definition candidateBefore :: "(ID \<Rightarrow> string) \<Rightarrow> RetentionCandidate \<Rightarrow> RetentionCandidate \<Rightarrow> bool" where
  "candidateBefore idString a b \<longleftrightarrow>
     (if rkRecordedAt a \<noteq> rkRecordedAt b then rkRecordedAt a < rkRecordedAt b
      else idString (rkEventID a) < idString (rkEventID b))"

definition Candidates ::
    "(ID \<Rightarrow> string) \<Rightarrow> RetentionPolicy \<Rightarrow> int \<Rightarrow> RetentionCapture
      \<Rightarrow> (autonomy_error, RetentionCandidate list) result" where
  "Candidates idString policy wallNow capture =
     (if rtMode policy = RetentionDisabled then Inr []
      else if rtMode policy \<noteq> RetentionCandidateAfter \<or> rtDuration policy \<le> 0 \<or> rtScanInterval policy \<le> 0
              \<or> rtEligibility policy \<noteq> RetentionPresentSelfTalk
      then Inl (ErrInvalidRetention ''invalid retention policy'')
      else if wallNow = zeroTime then Inl (ErrInvalidRetention ''wall time is required'')
      else case Head_Validate (rcCapturedHead capture) of Inl e \<Rightarrow> Inl (ErrInvalidRetention ''captured head'')
      | Inr _ \<Rightarrow> (case foldE (candidateStep policy wallNow) ([], {}) (rcSources capture) of Inl e \<Rightarrow> Inl e
        | Inr (found, _) \<Rightarrow> Inr (slice_stable (candidateBefore idString) found)))"

section \<open>What is proposed\<close>

definition source_ok :: "RetentionSource \<Rightarrow> bool" where
  "source_ok s \<longleftrightarrow> rsResidentID s \<noteq> 0 \<and> rsEventID s \<noteq> 0 \<and> rsContentID s \<noteq> 0
     \<and> (rsEventType s = EventSelfTalk \<and> rsContentPresent s \<longrightarrow>
          0 \<le> riEvidenceReferences (rsReferences s) \<and> 0 \<le> riClaimReferences (rsReferences s)
          \<and> 0 \<le> riGenerationInputReferences (rsReferences s) \<and> 0 \<le> riGenerationOutputReferences (rsReferences s))"

definition due :: "RetentionPolicy \<Rightarrow> int \<Rightarrow> RetentionSource \<Rightarrow> bool" where
  "due policy wallNow s \<longleftrightarrow> rsEventType s = EventSelfTalk \<and> rsContentPresent s
     \<and> instantTime (rsRecordedAt s) \<le> wallNow \<and> rtDuration policy \<le> timeSub wallNow (instantTime (rsRecordedAt s))"

definition candidate_at :: "int \<Rightarrow> RetentionSource \<Rightarrow> RetentionCandidate" where
  "candidate_at wallNow s = candidateOf (timeSub wallNow (instantTime (rsRecordedAt s))) s"

lemma candidateStep_ok:
  "candidateStep policy wallNow (found, seen) s = Inr st \<longleftrightarrow>
     source_ok s \<and> rsEventID s \<notin> seen
     \<and> st = (if due policy wallNow s then found @ [candidate_at wallNow s] else found, insert (rsEventID s) seen)"
  by (auto simp: candidateStep_def Let_def case_result_ok source_ok_def due_def candidate_at_def split: if_splits sum.splits)

lemma candidateStep_fold:
  "foldE (candidateStep policy wallNow) (found, seen) ss = Inr st \<longleftrightarrow>
     list_all source_ok ss \<and> distinct (map rsEventID ss) \<and> (\<forall>s\<in>set ss. rsEventID s \<notin> seen)
     \<and> st = (found @ map (candidate_at wallNow) (filter (due policy wallNow) ss), seen \<union> rsEventID ` set ss)"
proof (induction ss arbitrary: found seen)
  case (Cons s ss)
  have "foldE (candidateStep policy wallNow) (found, seen) (s # ss) = Inr st \<longleftrightarrow>
    source_ok s \<and> rsEventID s \<notin> seen
    \<and> foldE (candidateStep policy wallNow)
        (if due policy wallNow s then found @ [candidate_at wallNow s] else found, insert (rsEventID s) seen) ss = Inr st"
    by (simp add: case_result_ok [where f = "\<lambda>e. e"] candidateStep_ok del: split_paired_Ex)
  also have "\<dots> \<longleftrightarrow> list_all source_ok (s # ss) \<and> distinct (map rsEventID (s # ss))
      \<and> (\<forall>s\<in>set (s # ss). rsEventID s \<notin> seen)
      \<and> st = (found @ map (candidate_at wallNow) (filter (due policy wallNow) (s # ss)), seen \<union> rsEventID ` set (s # ss))"
    unfolding Cons.IH by (auto simp: image_iff)
  finally show ?case .
qed auto

interpretation candidate_order: sort_order "candidateBefore idString" for idString
proof -
  show "sort_order (candidateBefore idString)"
    unfolding candidateBefore_def by (rule sort_order_lex [OF sort_order_key])
qed

definition retention_ready :: "RetentionPolicy \<Rightarrow> int \<Rightarrow> RetentionCapture \<Rightarrow> bool" where
  "retention_ready policy wallNow capture \<longleftrightarrow>
     0 < rtDuration policy \<and> 0 < rtScanInterval policy \<and> rtEligibility policy = RetentionPresentSelfTalk
     \<and> wallNow \<noteq> zeroTime \<and> Head_Validate (rcCapturedHead capture) = ok
     \<and> list_all source_ok (rcSources capture) \<and> distinct (map rsEventID (rcSources capture))"

lemma Candidates_enabled:
  assumes "rtMode policy = RetentionCandidateAfter"
  shows "Candidates idString policy wallNow capture = Inr cs \<longleftrightarrow>
    retention_ready policy wallNow capture
    \<and> cs = slice_stable (candidateBefore idString)
        (map (candidate_at wallNow) (filter (due policy wallNow) (rcSources capture)))"
proof (cases "0 < rtDuration policy \<and> 0 < rtScanInterval policy \<and> rtEligibility policy = RetentionPresentSelfTalk
    \<and> wallNow \<noteq> zeroTime \<and> Head_Validate (rcCapturedHead capture) = ok")
  case True
  then have "Candidates idString policy wallNow capture =
      (case foldE (candidateStep policy wallNow) ([], {}) (rcSources capture) of Inl e \<Rightarrow> Inl e
       | Inr (found, _) \<Rightarrow> Inr (slice_stable (candidateBefore idString) found))"
    using assms by (simp add: Candidates_def)
  moreover have "foldE (candidateStep policy wallNow) ([], {}) (rcSources capture) = Inr st \<longleftrightarrow>
      retention_ready policy wallNow capture
      \<and> st = (map (candidate_at wallNow) (filter (due policy wallNow) (rcSources capture)), rsEventID ` set (rcSources capture))" for st
    using True by (simp add: candidateStep_fold retention_ready_def)
  ultimately show ?thesis
    by (simp add: case_result_ok [where f = "\<lambda>e. e"] del: split_paired_Ex) auto
next
  case False
  then show ?thesis
    using assms by (auto simp: Candidates_def retention_ready_def split: sum.splits)
qed

end
