(* ===== verification/Autonomy_Properties.thy ===== *)
theory Autonomy_Properties
  imports Activity_Session Autonomy_Retention
begin

text \<open>
  Properties of activity sessions and of autonomous activity, each with an application to concrete
  data.
\<close>

section \<open>Activity sessions\<close>





section \<open>Triggers and decisions\<close>

text \<open>C37: Two valid triggers get the same idempotency key exactly when they stand for the same
  occasion: the same kind, source, ordinal and boundary and the same related claims in whatever
  order they were discovered. The text of an identifier only has to be unambiguous and free of
  colons.\<close>

theorem idempotency_key_identity:
  assumes "id_text idString" and "Trigger_Validate t = ok" and "Trigger_Validate u = ok"
    and "resident \<noteq> 0" and "resident' \<noteq> 0"
  shows "\<exists>k l. IdempotencyKey idString t PolicyVersionV0 resident = Inr k
    \<and> IdempotencyKey idString u PolicyVersionV0 resident' = Inr l \<and> (k = l \<longleftrightarrow> same_trigger t u)"
proof -
  have "join_colon (keyParts idString t) = join_colon (keyParts idString u) \<longleftrightarrow> keyParts idString t = keyParts idString u"
    using join_colon_inj keyParts_colon_free assms(1-3) by (metis keyParts_def list.distinct(1))
  also have "\<dots> \<longleftrightarrow> same_trigger t u"
    using identityParts_eq [OF assms(1-3)] by (auto simp: keyParts_def same_trigger_def)
  finally show ?thesis using IdempotencyKey_parts assms by simp
qed

definition ex_id_text :: "ID \<Rightarrow> string" where
  "ex_id_text i = nat_digits (unat i)"

lemma ex_id_text_ok: "id_text ex_id_text"
proof -
  have "inj ex_id_text"
  proof (rule injI)
    fix i j assume "ex_id_text i = ex_id_text j"
    then have "unat i = unat j" unfolding ex_id_text_def by (metis digits_value_nat_digits)
    then show "i = j" by (simp add: unsigned_word_eqI)
  qed
  then show ?thesis using nat_digits_colon_free by (simp add: id_text_def ex_id_text_def)
qed

definition ex_conflict :: "ID list \<Rightarrow> Trigger" where
  "ex_conflict claims = \<lparr>tgKind = TriggerSettledDirectConflict, tgSourceID = 5, tgRelatedClaimIDs = claims,
     tgBoundary = 0, tgOrdinal = 0\<rparr>"

lemma ex_conflict_ok: "Trigger_Validate (ex_conflict [2, 9]) = ok" "Trigger_Validate (ex_conflict [9, 2]) = ok"
  by (simp_all add: Trigger_Validate_def ex_conflict_def TriggerKind_Validate_def ID_Validate_def ID_IsZero_def triggerShape_def)

theorem idempotency_key_identity_witness:
  "\<exists>k l. IdempotencyKey ex_id_text (ex_conflict [2, 9]) PolicyVersionV0 1 = Inr k
    \<and> IdempotencyKey ex_id_text (ex_conflict [9, 2]) PolicyVersionV0 1 = Inr l \<and> k = l"
proof -
  have "same_trigger (ex_conflict [2, 9]) (ex_conflict [9, 2])"
    by (simp add: same_trigger_def ex_conflict_def)
  then show ?thesis
    using idempotency_key_identity [OF ex_id_text_ok ex_conflict_ok, of 1 1] by auto
qed

text \<open>C38: However a history of events comes about, as long as every self talk in it was decided
  eligible on the counter of the history before it, the counter never fails and never exceeds the
  limit of the policy, and between two user messages there are never more self talks than the
  limit allows.\<close>

theorem self_talk_bounded:
  assumes "paced cal policy h" and "0 \<le> spConsecutiveLimit (apSelfTalk policy)"
    and "spConsecutiveLimit (apSelfTalk policy) \<le> maxInt64"
  shows "(\<exists>n. foldE ConsecutiveSelfTalkAfter 0 h = Inr n \<and> 0 \<le> n \<and> n \<le> spConsecutiveLimit (apSelfTalk policy))
    \<and> (\<forall>a b c. h = a @ b @ c \<and> EventUserMessage \<notin> set b \<longrightarrow>
         int (length (filter (\<lambda>e. e = EventSelfTalk) b)) \<le> spConsecutiveLimit (apSelfTalk policy))"
proof (intro conjI allI impI)
  note counter = paced_counter [OF _ assms(3,2)]
  show "\<exists>n. foldE ConsecutiveSelfTalkAfter 0 h = Inr n \<and> 0 \<le> n \<and> n \<le> spConsecutiveLimit (apSelfTalk policy)"
    using counter [OF assms(1)] by auto
  fix a b c
  assume split: "h = a @ b @ c \<and> EventUserMessage \<notin> set b"
  then have "paced cal policy (a @ b)" using paced_prefix [of cal policy "a @ b" c] assms(1) by simp
  from counter [OF this] self_talk_run_suffix [of b a] split
  show "int (length (filter (\<lambda>e. e = EventSelfTalk) b)) \<le> spConsecutiveLimit (apSelfTalk policy)" by linarith
qed

text \<open>A calendar without daylight saving, and a resident that has been left alone since ten o'clock.\<close>

definition ex_calendar :: calendar where
  "ex_calendar = \<lparr>calLoad = (\<lambda>_. True), calMinute = (\<lambda>_ t. (t div seconds 60) mod 1440),
     calDate = (\<lambda>_ t m. t div seconds 86400 * seconds 86400 + m * seconds 60), calAddDay = (\<lambda>_ t. t + seconds 86400)\<rparr>"

definition ex_policy :: AutonomyPolicy where
  "ex_policy = (DefaultPolicy ''UTC'')\<lparr>apSelfTalk := (apSelfTalk (DefaultPolicy ''UTC''))\<lparr>spEnabled := True\<rparr>,
     apInitiative := (apInitiative (DefaultPolicy ''UTC''))\<lparr>ipEnabled := True\<rparr>\<rparr>"

definition ex_snapshot :: Snapshot where
  "ex_snapshot = \<lparr>snCapturedHead = \<lparr>Exists = True, HeadCommitSeq = 4, HeadCommittedAt = 36000000000\<rparr>,
     snResidentID = 1, snResidentStatus = ''active'', snMemoryPolicyVersion = ''memory-policy-v5'',
     snLastUser = Some \<lparr>epID = 7, epSeq = 3, epRecordedAt = 36000000000\<rparr>, snLastSelfTalk = None, snLastInitiative = None,
     snConsecutiveSelfTalk = 0, snSelfTalkHourCount = 0, snSelfTalkDayCount = 0, snInitiativeHourCount = 0,
     snInitiativeDayCount = 0, snLatestRecordedAt = 36000000000, snProjectionAvailable = True, snForegroundPending = False\<rparr>"

definition ex_idle :: Trigger where
  "ex_idle = \<lparr>tgKind = TriggerIdle, tgSourceID = 7, tgRelatedClaimIDs = [], tgBoundary = 0, tgOrdinal = 1\<rparr>"

definition ex_now :: TimePoint where
  "ex_now = \<lparr>tpWall = seconds 43200, tpMonotonic = seconds 5\<rparr>"

definition ex_anchors :: RuntimeAnchors where
  "ex_anchors = \<lparr>raLastUser = None, raLastSelfTalk = None, raLastInitiative = None\<rparr>"

lemma ex_policy_valid: "AutonomyPolicy_Validate ex_calendar ex_policy = ok"
proof -
  have "\<not> TrimSpace_differs ''UTC''" by (rule visible_not_trimmed) (simp add: visible_char_def byte_def)
  then show ?thesis
    by (simp add: AutonomyPolicy_Validate_def ex_policy_def DefaultPolicy_def ex_calendar_def seconds_def Let_def
        QuietHours_Validate_def LocalTime_Validate_def triggerStep_def IsInitiative_def retentionShape_def)
qed

lemma ex_timing:
  "ResolveEvaluationTime ex_snapshot ex_now ex_anchors = \<lparr>etWallNow = seconds 43200, etSinceLastUser = Some (seconds 7200),
     etSinceLastSelfTalk = None, etSinceLastInitiative = None, etClockRegressed = False\<rparr>"
  by (simp add: ResolveEvaluationTime_def elapsedFor_def ex_snapshot_def ex_now_def ex_anchors_def Let_def
      instantTime_def seconds_def timeSub_def minInt64_def maxInt64_def)

lemma ex_self_talk_allowed:
  "self_talk_allowed ex_calendar ex_policy ex_snapshot ex_idle (ResolveEvaluationTime ex_snapshot ex_now ex_anchors)"
  using ex_policy_valid
  by (simp add: self_talk_allowed_def ex_timing)
    (simp add: ex_policy_def DefaultPolicy_def ex_snapshot_def ex_idle_def autonomyMemoryPolicies_def clockRegressed_def
      zeroTime_def seconds_def instantTime_def QuietHours_Contains_def ex_calendar_def IsSelfTalk_def
      Trigger_Validate_def TriggerKind_Validate_def triggerShape_def ID_Validate_def ID_IsZero_def selfTalkAnchor_def Let_def)

theorem self_talk_bounded_witness:
  "\<exists>n. foldE ConsecutiveSelfTalkAfter 0 [EventUserMessage, EventSelfTalk] = Inr n \<and> n \<le> 10"
proof -
  have "paced ex_calendar ex_policy ([] @ [EventUserMessage])" by (intro paced.intros) auto
  then have "paced ex_calendar ex_policy (([] @ [EventUserMessage]) @ [EventSelfTalk])"
    using ex_self_talk_allowed
    by (intro paced.SelfTalk [where s = ex_snapshot and trigger = ex_idle
          and timing = "ResolveEvaluationTime ex_snapshot ex_now ex_anchors"])
      (simp_all add: DecideSelfTalk_eligible ex_snapshot_def ConsecutiveSelfTalkAfter_def AutonomyEventType_Validate_def)
  moreover have "spConsecutiveLimit (apSelfTalk ex_policy) = 10"
    by (simp add: ex_policy_def DefaultPolicy_def Let_def)
  ultimately show ?thesis
    using self_talk_bounded [of ex_calendar ex_policy "[EventUserMessage, EventSelfTalk]"] by (simp add: maxInt64_def) blast
qed

text \<open>C39: A decision is positive exactly when every gate of its kind is open, at the elapsed times
  the process resolves from its anchors; a negative one always names a reason. In particular nothing
  is ever allowed within the quiet hours, read as an interval on the circle of the local day.\<close>

theorem decisions_gated:
  fixes s now anchors
  defines "timing \<equiv> ResolveEvaluationTime s now anchors"
  assumes "\<And>location t. 0 \<le> calMinute cal location t \<and> calMinute cal location t < 1440"
  shows "(dcEligible (DecideSelfTalk cal policy s trigger timing) \<longleftrightarrow> self_talk_allowed cal policy s trigger timing)
    \<and> (dcBlockingReason (DecideSelfTalk cal policy s trigger timing) = BlockingNone
        \<longleftrightarrow> self_talk_allowed cal policy s trigger timing)
    \<and> (dcEligible (DecideInitiative cal policy s trigger timing) \<longleftrightarrow> initiative_allowed cal policy s trigger timing)
    \<and> (dcBlockingReason (DecideInitiative cal policy s trigger timing) = BlockingNone
        \<longleftrightarrow> initiative_allowed cal policy s trigger timing)
    \<and> (self_talk_allowed cal policy s trigger timing \<longrightarrow>
        \<not> quiet_minute (spQuietHours (apSelfTalk policy)) (calMinute cal (apTimezone policy) (tpWall now)))
    \<and> (initiative_allowed cal policy s trigger timing \<longrightarrow>
        \<not> quiet_minute (ipQuietHours (apInitiative policy)) (calMinute cal (apTimezone policy) (tpWall now)))"
proof -
  have wall: "etWallNow timing = tpWall now"
    by (simp add: timing_def ResolveEvaluationTime_def split: prod.splits)
  have quiet: "QuietHours_Contains cal tz hours t \<longleftrightarrow> quiet_minute hours (calMinute cal tz t)"
    if "QuietHours_Validate hours = ok" for tz hours t
    using QuietHours_Contains_circle [of hours cal tz t] that assms(2) by (simp add: quiet_minute_def)
  have "AutonomyPolicy_Validate cal policy = ok \<Longrightarrow> QuietHours_Validate (spQuietHours (apSelfTalk policy)) = ok"
    and "AutonomyPolicy_Validate cal policy = ok \<Longrightarrow> QuietHours_Validate (ipQuietHours (apInitiative policy)) = ok"
    by (auto simp: AutonomyPolicy_Validate_def Let_def case_result_ok split: if_splits)
  with quiet wall show ?thesis
    using decision_reason_selfTalk decision_reason_initiative
    by (simp add: DecideSelfTalk_eligible DecideInitiative_eligible) (auto simp: self_talk_allowed_def initiative_allowed_def)
qed

theorem decisions_gated_witness:
  "dcEligible (DecideSelfTalk ex_calendar ex_policy ex_snapshot ex_idle (ResolveEvaluationTime ex_snapshot ex_now ex_anchors))
   \<and> \<not> dcEligible (DecideInitiative ex_calendar ex_policy ex_snapshot ex_idle (ResolveEvaluationTime ex_snapshot ex_now ex_anchors))"
proof -
  have "0 \<le> calMinute ex_calendar location t \<and> calMinute ex_calendar location t < 1440" for location t
    by (simp add: ex_calendar_def)
  moreover have "\<not> initiative_allowed ex_calendar ex_policy ex_snapshot ex_idle (ResolveEvaluationTime ex_snapshot ex_now ex_anchors)"
    by (simp add: initiative_allowed_def ex_idle_def ex_policy_def DefaultPolicy_def Let_def)
  ultimately show ?thesis
    using decisions_gated [of ex_calendar ex_policy ex_snapshot ex_idle ex_now ex_anchors] ex_self_talk_allowed by simp
qed

section \<open>Retention\<close>

text \<open>C40: When retention is on, a well-formed capture, and only that, yields candidates: exactly the
  present self talks that are at least as old as the policy says, each once, oldest first, with
  their ages and the references that block them; the order is the same in whatever order the
  sources were captured.\<close>

theorem retention_exact:
  assumes "rtMode policy = RetentionCandidateAfter"
  shows "((\<exists>cs. Candidates idString policy now capture = Inr cs) \<longleftrightarrow> retention_ready policy now capture)
    \<and> (\<forall>cs. Candidates idString policy now capture = Inr cs \<longrightarrow>
         mset cs = image_mset (candidate_at now) (filter_mset (due policy now) (mset (rcSources capture)))
         \<and> sorted_wrt (\<lambda>a b. \<not> candidateBefore idString b a) cs
         \<and> list_all (\<lambda>c. rtDuration policy \<le> rkAge c) cs
         \<and> (inj idString \<longrightarrow> (\<forall>sources'. mset sources' = mset (rcSources capture) \<longrightarrow>
              Candidates idString policy now (capture\<lparr>rcSources := sources'\<rparr>) = Inr cs)))"
proof (intro conjI allI impI)
  show "(\<exists>cs. Candidates idString policy now capture = Inr cs) \<longleftrightarrow> retention_ready policy now capture"
    by (simp add: Candidates_enabled [OF assms])
  fix cs
  assume "Candidates idString policy now capture = Inr cs"
  then have ready: "retention_ready policy now capture" and cs: "cs = slice_stable (candidateBefore idString)
      (map (candidate_at now) (filter (due policy now) (rcSources capture)))"
    by (simp_all add: Candidates_enabled [OF assms])
  show "mset cs = image_mset (candidate_at now) (filter_mset (due policy now) (mset (rcSources capture)))"
    by (simp add: cs)
  show "sorted_wrt (\<lambda>a b. \<not> candidateBefore idString b a) cs"
    unfolding cs by (rule candidate_order.slice_stable_sorted)
  show "list_all (\<lambda>c. rtDuration policy \<le> rkAge c) cs"
    unfolding cs by (auto simp: list_all_iff due_def candidate_at_def candidateOf_def)
  fix sources'
  assume inj: "inj idString" and perm: "mset sources' = mset (rcSources capture)"
  have "retention_ready policy now (capture\<lparr>rcSources := sources'\<rparr>)"
    using ready perm unfolding retention_ready_def
    by (simp add: list_all_iff) (metis mset_eq_setD mset_map mset_eq_imp_distinct_iff)
  moreover have "cs = slice_stable (candidateBefore idString) (map (candidate_at now) (filter (due policy now) sources'))"
  proof (rule candidate_order.slice_stable_unique)
    show "mset cs = mset (map (candidate_at now) (filter (due policy now) sources'))"
      using perm by (simp add: cs)
    show "sorted_wrt (\<lambda>a b. \<not> candidateBefore idString b a) cs"
      unfolding cs by (rule candidate_order.slice_stable_sorted)
    fix a b
    assume in_set: "a \<in> set (map (candidate_at now) (filter (due policy now) sources'))"
      "b \<in> set (map (candidate_at now) (filter (due policy now) sources'))" and "a \<noteq> b"
    then obtain x y where xy: "x \<in> set (rcSources capture)" "y \<in> set (rcSources capture)"
        "a = candidate_at now x" "b = candidate_at now y"
      using mset_eq_setD [OF perm] by auto
    with ready \<open>a \<noteq> b\<close> have "rkEventID a \<noteq> rkEventID b"
      unfolding retention_ready_def by (auto simp: candidate_at_def candidateOf_def distinct_map dest: inj_onD)
    then show "candidateBefore idString a b \<or> candidateBefore idString b a"
      using inj unfolding candidateBefore_def by (metis injD linorder_neqE)
  qed
  ultimately show "Candidates idString policy now (capture\<lparr>rcSources := sources'\<rparr>) = Inr cs"
    by (simp add: Candidates_enabled [OF assms])
qed

definition ex_source :: "ID \<Rightarrow> int \<Rightarrow> RetentionSource" where
  "ex_source n at = \<lparr>rsResidentID = 1, rsEventID = n, rsContentID = n, rsEventType = EventSelfTalk, rsRecordedAt = at,
     rsContentPresent = True, rsErasurePolicy = ''independent'', rsReferences = \<lparr>riEvidenceReferences = 0,
       riClaimReferences = 1, riGenerationInputReferences = 0, riGenerationOutputReferences = 0\<rparr>\<rparr>"

theorem retention_exact_witness:
  "\<exists>c. Candidates ex_id_text \<lparr>rtMode = RetentionCandidateAfter, rtDuration = 5000, rtScanInterval = 1,
       rtEligibility = RetentionPresentSelfTalk\<rparr> 20000
     \<lparr>rcCapturedHead = \<lparr>Exists = True, HeadCommitSeq = 4, HeadCommittedAt = 19\<rparr>, rcSources = [ex_source 3 18, ex_source 2 9]\<rparr>
     = Inr [c] \<and> rkEventID c = 2 \<and> rkBlockingReasons c = [ImpactClaimProvenanceReference]"
proof -
  let ?policy = "\<lparr>rtMode = RetentionCandidateAfter, rtDuration = 5000, rtScanInterval = 1,
       rtEligibility = RetentionPresentSelfTalk\<rparr>"
  let ?capture = "\<lparr>rcCapturedHead = \<lparr>Exists = True, HeadCommitSeq = 4, HeadCommittedAt = 19\<rparr>,
       rcSources = [ex_source 3 18, ex_source 2 9]\<rparr>"
  have ready: "retention_ready ?policy 20000 ?capture"
    by (simp add: retention_ready_def zeroTime_def Head_Validate_def source_ok_def ex_source_def)
  have mode: "rtMode ?policy = RetentionCandidateAfter" by simp
  note exact = retention_exact [OF mode, of ex_id_text 20000 ?capture]
  obtain cs where cs: "Candidates ex_id_text ?policy 20000 ?capture = Inr cs"
    using conjunct1 [OF exact] ready by blast
  have "\<not> due ?policy 20000 (ex_source 3 18)" and "due ?policy 20000 (ex_source 2 9)"
    by (simp_all add: due_def ex_source_def instantTime_def timeSub_def minInt64_def maxInt64_def)
  moreover have "mset cs = image_mset (candidate_at 20000) (filter_mset (due ?policy 20000) (mset (rcSources ?capture)))"
    using conjunct2 [OF exact] cs by blast
  ultimately have "mset cs = {#candidate_at 20000 (ex_source 2 9)#}" by simp
  then have "cs = [candidate_at 20000 (ex_source 2 9)]" by simp
  then show ?thesis
    using cs by (simp add: candidate_at_def candidateOf_def ex_source_def impactReasons_def)
qed

end
