(* ===== verification/Runtime_Gates.thy ===== *)
theory Runtime_Gates
  imports Prelude
begin

text \<open>
  The two gates of the process. \<^verbatim>\<open>internal/runtimegate/gate.go\<close>: the barrier that resolves exactly once.
  \<^verbatim>\<open>internal/store/sqlite/write_gate.go\<close>: the lock in front of the SQLite writer that prefers canonical and
  operational callers to projection callers. Every critical section of the write gate is one step and
  callers interleave freely; the channel \<^verbatim>\<open>changed\<close> is its number, a closed channel being one with a
  smaller number than the current one.
\<close>

section \<open>The activation barrier\<close>

datatype gate_error = ErrAlreadyResolved | ErrClosed | GateCause string | ErrNilContext | ContextDone string

record RuntimeGate =
  rgDone :: bool
  rgErr :: "gate_error option"
  rgOpen :: bool

definition newGate :: RuntimeGate where
  "newGate = \<lparr>rgDone = False, rgErr = None, rgOpen = False\<rparr>"

definition resolve :: "gate_error option \<Rightarrow> bool \<Rightarrow> RuntimeGate \<Rightarrow> RuntimeGate \<times> (gate_error, unit) result" where
  "resolve err opens gate =
     (if rgDone gate then (gate, Inl ErrAlreadyResolved)
      else (\<lparr>rgDone = True, rgErr = err, rgOpen = opens\<rparr>, ok))"

definition Gate_Open :: "RuntimeGate \<Rightarrow> RuntimeGate \<times> (gate_error, unit) result" where
  "Gate_Open gate = resolve None True gate"

definition Gate_Fail :: "gate_error option \<Rightarrow> RuntimeGate \<Rightarrow> RuntimeGate \<times> (gate_error, unit) result" where
  "Gate_Fail err gate = resolve (Some (case err of None \<Rightarrow> ErrClosed | Some e \<Rightarrow> e)) False gate"

text \<open>
  \<^verbatim>\<open>Wait\<close> with a context that is or is not cancelled: \<open>None\<close> while it blocks. When both channels are ready Go
  picks one; \<open>prefers\<close> is its choice.
\<close>

definition Gate_Wait :: "bool \<Rightarrow> string option \<Rightarrow> RuntimeGate \<Rightarrow> (gate_error, unit) result option" where
  "Gate_Wait prefers cancelled gate =
     (let answer = (if rgOpen gate then ok else (case rgErr gate of None \<Rightarrow> ok | Some e \<Rightarrow> Inl e))
      in case cancelled of
        None \<Rightarrow> if rgDone gate then Some answer else None
      | Some c \<Rightarrow> if rgDone gate \<and> prefers then Some answer else Some (Inl (ContextDone c)))"

definition Gate_IsOpen :: "RuntimeGate \<Rightarrow> bool" where
  "Gate_IsOpen gate = rgOpen gate"

datatype gate_op = DoOpen | DoFail "gate_error option"

primrec gate_apply :: "gate_op \<Rightarrow> RuntimeGate \<Rightarrow> RuntimeGate \<times> (gate_error, unit) result" where
  "gate_apply DoOpen gate = Gate_Open gate"
| "gate_apply (DoFail err) gate = Gate_Fail err gate"

fun gate_run :: "gate_op list \<Rightarrow> RuntimeGate \<Rightarrow> RuntimeGate \<times> (gate_error, unit) result list" where
  "gate_run [] gate = (gate, [])"
| "gate_run (o1 # os) gate = (case gate_apply o1 gate of (g', r) \<Rightarrow> case gate_run os g' of (g'', rs) \<Rightarrow> (g'', r # rs))"

lemma gate_run_done: "rgDone gate \<Longrightarrow> gate_run os gate = (gate, replicate (length os) (Inl ErrAlreadyResolved))"
proof (induction os)
  case (Cons o1 os)
  then show ?case by (cases o1) (simp_all add: Gate_Open_def Gate_Fail_def resolve_def)
qed simp

lemma gate_run_first:
  "gate_run (o1 # os) newGate = (fst (gate_apply o1 newGate), ok # replicate (length os) (Inl ErrAlreadyResolved))"
  by (cases o1) (simp_all add: Gate_Open_def Gate_Fail_def resolve_def newGate_def gate_run_done)

section \<open>The write gate\<close>

record writePriorityGate =
  wgActive :: bool
  wgHighWaiting :: int
  wgChanged :: nat

definition newWritePriorityGate :: writePriorityGate where
  "newWritePriorityGate = \<lparr>wgActive = False, wgHighWaiting = 0, wgChanged = 0\<rparr>"

definition signalLocked :: "writePriorityGate \<Rightarrow> writePriorityGate" where
  "signalLocked gate = gate\<lparr>wgChanged := Suc (wgChanged gate)\<rparr>"

datatype priority = High | Projection

text \<open>A caller waits on the channel it read under the lock; \<open>Over\<close> has released or was cancelled.\<close>

datatype caller = Outside | Waiting nat | Holding | Over

text \<open>One pass through the loop of \<^verbatim>\<open>acquireHigh\<close> or \<^verbatim>\<open>acquireProjection\<close> with the mutex held.\<close>

definition tryAcquire :: "priority \<Rightarrow> writePriorityGate \<Rightarrow> writePriorityGate \<times> caller" where
  "tryAcquire p gate =
     (case p of
        High \<Rightarrow>
          if wgActive gate then (gate, Waiting (wgChanged gate))
          else (gate\<lparr>wgHighWaiting := wgHighWaiting gate - 1, wgActive := True\<rparr>, Holding)
      | Projection \<Rightarrow>
          if wgActive gate \<or> wgHighWaiting gate > 0 then (gate, Waiting (wgChanged gate))
          else (gate\<lparr>wgActive := True\<rparr>, Holding))"

definition enterGate :: "priority \<Rightarrow> writePriorityGate \<Rightarrow> writePriorityGate \<times> caller" where
  "enterGate p gate =
     (case p of
        High \<Rightarrow> tryAcquire High (gate\<lparr>wgHighWaiting := wgHighWaiting gate + 1\<rparr>)
      | Projection \<Rightarrow> tryAcquire Projection gate)"

definition cancelWait :: "priority \<Rightarrow> writePriorityGate \<Rightarrow> writePriorityGate \<times> caller" where
  "cancelWait p gate =
     (case p of
        High \<Rightarrow> (signalLocked (gate\<lparr>wgHighWaiting := wgHighWaiting gate - 1\<rparr>), Over)
      | Projection \<Rightarrow> (gate, Over))"

definition releaseGate :: "writePriorityGate \<Rightarrow> writePriorityGate \<times> caller" where
  "releaseGate gate = (signalLocked (gate\<lparr>wgActive := False\<rparr>), Over)"

text \<open>The gate and its callers. The priority of a caller is fixed by \<open>prio\<close>.\<close>

record gate_system =
  gsGate :: writePriorityGate
  gsCaller :: "nat \<Rightarrow> caller"

definition gate_start :: gate_system where
  "gate_start = \<lparr>gsGate = newWritePriorityGate, gsCaller = (\<lambda>_. Outside)\<rparr>"

definition gate_update :: "gate_system \<Rightarrow> nat \<Rightarrow> writePriorityGate \<times> caller \<Rightarrow> gate_system" where
  "gate_update s t r = \<lparr>gsGate = fst r, gsCaller = (gsCaller s)(t := snd r)\<rparr>"

inductive gate_step :: "(nat \<Rightarrow> priority) \<Rightarrow> gate_system \<Rightarrow> gate_system \<Rightarrow> bool" for prio where
  Enter: "gsCaller s t = Outside \<Longrightarrow> gate_step prio s (gate_update s t (enterGate (prio t) (gsGate s)))"
| Wake: "gsCaller s t = Waiting g \<Longrightarrow> g < wgChanged (gsGate s)
    \<Longrightarrow> gate_step prio s (gate_update s t (tryAcquire (prio t) (gsGate s)))"
| Cancel: "gsCaller s t = Waiting g \<Longrightarrow> gate_step prio s (gate_update s t (cancelWait (prio t) (gsGate s)))"
| Release: "gsCaller s t = Holding \<Longrightarrow> gate_step prio s (gate_update s t (releaseGate (gsGate s)))"

definition waiting_high :: "(nat \<Rightarrow> priority) \<Rightarrow> gate_system \<Rightarrow> nat set" where
  "waiting_high prio s = {t. prio t = High \<and> (\<exists>g. gsCaller s t = Waiting g)}"

definition holders :: "gate_system \<Rightarrow> nat set" where
  "holders s = {t. gsCaller s t = Holding}"

text \<open>
  The invariant: the gate is active exactly while one caller holds it, the counter counts the waiting
  high callers, and whoever waits on the open channel has a reason to.
\<close>

definition gate_inv :: "(nat \<Rightarrow> priority) \<Rightarrow> gate_system \<Rightarrow> bool" where
  "gate_inv prio s \<longleftrightarrow>
     finite (waiting_high prio s) \<and> wgHighWaiting (gsGate s) = int (card (waiting_high prio s))
     \<and> (if wgActive (gsGate s) then \<exists>t. holders s = {t} else holders s = {})
     \<and> (\<forall>t g. gsCaller s t = Waiting g \<longrightarrow> g \<le> wgChanged (gsGate s))
     \<and> (\<forall>t. gsCaller s t = Waiting (wgChanged (gsGate s)) \<longrightarrow>
          wgActive (gsGate s) \<or> (prio t = Projection \<and> waiting_high prio s \<noteq> {}))"

lemma waiting_high_update:
  "waiting_high prio (gate_update s t (g, c)) =
     (if prio t = High \<and> (\<exists>n. c = Waiting n) then insert t (waiting_high prio s) else waiting_high prio s - {t})"
  by (auto simp: waiting_high_def gate_update_def)

lemma holders_update:
  "holders (gate_update s t (g, c)) = (if c = Holding then insert t (holders s) else holders s - {t})"
  by (auto simp: holders_def gate_update_def)

text \<open>What a step does to the gate, by the outcome for its caller.\<close>

lemma gate_inv_update:
  assumes inv: "gate_inv prio s"
    and count: "wgHighWaiting g = int (card (waiting_high prio (gate_update s t (g, c))))"
    and active: "if wgActive g then \<exists>u. holders (gate_update s t (g, c)) = {u} else holders (gate_update s t (g, c)) = {}"
    and mono: "wgChanged (gsGate s) \<le> wgChanged g"
    and self: "\<And>n. c = Waiting n \<Longrightarrow> n = wgChanged g \<and> (wgActive g \<or> prio t = Projection \<and> waiting_high prio s \<noteq> {})"
    and rest: "wgChanged g = wgChanged (gsGate s) \<Longrightarrow>
      wgActive g \<or> \<not> wgActive (gsGate s) \<and> waiting_high prio s \<subseteq> waiting_high prio (gate_update s t (g, c))"
  shows "gate_inv prio (gate_update s t (g, c))"
proof -
  have fin: "finite (waiting_high prio (gate_update s t (g, c)))"
    using inv by (auto simp: gate_inv_def waiting_high_update)
  have bound: "n \<le> wgChanged g" if "gsCaller (gate_update s t (g, c)) u = Waiting n" for u n
    using that inv mono self unfolding gate_inv_def gate_update_def
    by (cases "u = t") (fastforce dest: le_trans)+
  have blocked: "wgActive g \<or> (prio u = Projection \<and> waiting_high prio (gate_update s t (g, c)) \<noteq> {})"
    if "gsCaller (gate_update s t (g, c)) u = Waiting (wgChanged g)" for u
  proof (cases "u = t")
    case True
    then have "c = Waiting (wgChanged g)" using that by (simp add: gate_update_def)
    moreover have "t \<notin> waiting_high prio s" if "prio t = Projection" using that by (simp add: waiting_high_def)
    ultimately show ?thesis using self [of "wgChanged g"] True by (auto simp: waiting_high_update)
  next
    case False
    then have u: "gsCaller s u = Waiting (wgChanged g)" using that by (simp add: gate_update_def)
    then have "wgChanged g = wgChanged (gsGate s)" using inv mono unfolding gate_inv_def by (meson le_antisym)
    with u inv rest show ?thesis unfolding gate_inv_def by fastforce
  qed
  show ?thesis
    unfolding gate_inv_def using fin count active bound blocked by (simp add: gate_update_def)
qed

lemma gate_inv_start: "gate_inv prio gate_start"
  by (simp add: gate_inv_def gate_start_def newWritePriorityGate_def waiting_high_def holders_def)

lemma gate_inv_facts:
  assumes "gate_inv prio s"
  shows "finite (waiting_high prio s)" and "wgHighWaiting (gsGate s) = int (card (waiting_high prio s))"
    and "wgActive (gsGate s) \<Longrightarrow> \<exists>t. holders s = {t}" and "\<not> wgActive (gsGate s) \<Longrightarrow> holders s = {}"
  using assms by (simp_all add: gate_inv_def)

lemma wgHighWaiting_pos: "gate_inv prio s \<Longrightarrow> 0 < wgHighWaiting (gsGate s) \<longleftrightarrow> waiting_high prio s \<noteq> {}"
  by (simp add: gate_inv_def card_gt_0_iff)

text \<open>The three outcomes: taking the free gate, staying outside it, and making others look again.\<close>

lemma gate_take_inv:
  assumes inv: "gate_inv prio s" and t: "t \<notin> holders s" and free: "\<not> wgActive (gsGate s)" and "wgActive g"
    and "wgChanged g = wgChanged (gsGate s)" and "wgHighWaiting g = int (card (waiting_high prio s - {t}))"
  shows "gate_inv prio (gate_update s t (g, Holding))"
  using assms gate_inv_facts(4) [OF inv free]
  by (intro gate_inv_update [OF inv]) (simp_all add: waiting_high_update holders_update)

lemma wait_inv:
  assumes inv: "gate_inv prio s" and t: "t \<notin> holders s"
    and "wgActive g = wgActive (gsGate s)" and "wgChanged g = wgChanged (gsGate s)"
    and "wgActive (gsGate s) \<or> prio t = Projection \<and> waiting_high prio s \<noteq> {}"
    and "wgHighWaiting g = int (card (if prio t = High then insert t (waiting_high prio s) else waiting_high prio s))"
  shows "gate_inv prio (gate_update s t (g, Waiting (wgChanged g)))"
proof -
  have "prio t \<noteq> High \<Longrightarrow> t \<notin> waiting_high prio s" by (simp add: waiting_high_def)
  then have same: "prio t \<noteq> High \<Longrightarrow> waiting_high prio s - {t} = waiting_high prio s" by simp
  have hold: "holders (gate_update s t (g, Waiting (wgChanged g))) = holders s"
    using t by (simp add: holders_update)
  show ?thesis
  proof (rule gate_inv_update [OF inv])
    show "wgHighWaiting g = int (card (waiting_high prio (gate_update s t (g, Waiting (wgChanged g)))))"
      using assms(6) same by (simp add: waiting_high_update)
    show "if wgActive g then \<exists>u. holders (gate_update s t (g, Waiting (wgChanged g))) = {u}
        else holders (gate_update s t (g, Waiting (wgChanged g))) = {}"
      unfolding hold using gate_inv_facts(3,4) [OF inv] assms(3) by simp
    show "wgActive g \<or> \<not> wgActive (gsGate s) \<and>
        waiting_high prio s \<subseteq> waiting_high prio (gate_update s t (g, Waiting (wgChanged g)))"
      using assms(3) same by (auto simp: waiting_high_update)
  qed (use assms in auto)
qed

lemma signal_inv:
  assumes inv: "gate_inv prio s" and "wgChanged g > wgChanged (gsGate s)"
    and "wgHighWaiting g = int (card (waiting_high prio s - {t}))"
    and "if wgActive g then \<exists>u. holders s - {t} = {u} else holders s - {t} = {}"
  shows "gate_inv prio (gate_update s t (g, Over))"
  using assms by (intro gate_inv_update [OF inv]) (simp_all add: waiting_high_update holders_update)

lemma gate_enter_inv:
  assumes inv: "gate_inv prio s" and out: "gsCaller s t = Outside"
  shows "gate_inv prio (gate_update s t (enterGate (prio t) (gsGate s)))"
proof -
  note facts = gate_inv_facts [OF inv]
  have t: "t \<notin> waiting_high prio s" "t \<notin> holders s" using out by (auto simp: waiting_high_def holders_def)
  define g where "g = (if prio t = High then gsGate s\<lparr>wgHighWaiting := wgHighWaiting (gsGate s) + 1\<rparr> else gsGate s)"
  have enter: "enterGate (prio t) (gsGate s) = tryAcquire (prio t) g"
    by (cases "prio t") (simp_all add: enterGate_def g_def)
  have pos: "wgHighWaiting (gsGate s) > 0 \<longleftrightarrow> waiting_high prio s \<noteq> {}" by (rule wgHighWaiting_pos [OF inv])
  show ?thesis
  proof (cases "wgActive (gsGate s) \<or> prio t = Projection \<and> waiting_high prio s \<noteq> {}")
    case True
    then have "tryAcquire (prio t) g = (g, Waiting (wgChanged g))"
      using pos by (cases "prio t") (auto simp: tryAcquire_def g_def)
    then show ?thesis
      unfolding enter using wait_inv [OF inv t(2), of g] True t facts by (cases "prio t") (simp_all add: g_def)
  next
    case False
    then have "tryAcquire (prio t) g = (gsGate s\<lparr>wgActive := True\<rparr>, Holding)"
      using pos by (cases "prio t") (auto simp: tryAcquire_def g_def)
    then show ?thesis
      unfolding enter using gate_take_inv [OF inv t(2), of "gsGate s\<lparr>wgActive := True\<rparr>"] False t facts by simp
  qed
qed

lemma card_less_one:
  assumes "gate_inv prio s" and "t \<in> waiting_high prio s"
  shows "int (card (waiting_high prio s - {t})) = int (card (waiting_high prio s)) - 1"
  using card_Suc_Diff1 [OF gate_inv_facts(1) [OF assms(1)] assms(2)] by linarith

lemma wake_inv:
  assumes inv: "gate_inv prio s" and wait: "gsCaller s t = Waiting n"
  shows "gate_inv prio (gate_update s t (tryAcquire (prio t) (gsGate s)))"
proof -
  note facts = gate_inv_facts [OF inv]
  have t: "t \<in> waiting_high prio s \<longleftrightarrow> prio t = High" "t \<notin> holders s" using wait by (auto simp: waiting_high_def holders_def)
  have pos: "wgHighWaiting (gsGate s) > 0 \<longleftrightarrow> waiting_high prio s \<noteq> {}" by (rule wgHighWaiting_pos [OF inv])
  show ?thesis
  proof (cases "wgActive (gsGate s) \<or> prio t = Projection \<and> waiting_high prio s \<noteq> {}")
    case True
    then have "tryAcquire (prio t) (gsGate s) = (gsGate s, Waiting (wgChanged (gsGate s)))"
      using pos by (cases "prio t") (auto simp: tryAcquire_def)
    moreover have "prio t = High \<Longrightarrow> insert t (waiting_high prio s) = waiting_high prio s"
      using t(1) by auto
    ultimately show ?thesis
      using wait_inv [OF inv t(2), of "gsGate s"] True facts by simp
  next
    case False
    then have "tryAcquire (prio t) (gsGate s) = (gsGate s\<lparr>wgHighWaiting := int (card (waiting_high prio s - {t})), wgActive := True\<rparr>, Holding)"
      using pos facts(2) card_less_one [OF inv, of t] t by (cases "prio t") (auto simp: tryAcquire_def)
    then show ?thesis
      using gate_take_inv [OF inv t(2), of "gsGate s\<lparr>wgHighWaiting := int (card (waiting_high prio s - {t})), wgActive := True\<rparr>"] False
      by simp
  qed
qed

lemma cancel_inv:
  assumes inv: "gate_inv prio s" and wait: "gsCaller s t = Waiting n"
  shows "gate_inv prio (gate_update s t (cancelWait (prio t) (gsGate s)))"
proof -
  note facts = gate_inv_facts [OF inv]
  have t: "t \<in> waiting_high prio s \<longleftrightarrow> prio t = High" "t \<notin> holders s" using wait by (auto simp: waiting_high_def holders_def)
  show ?thesis
  proof (cases "prio t")
    case High
    define g where "g = signalLocked (gsGate s\<lparr>wgHighWaiting := wgHighWaiting (gsGate s) - 1\<rparr>)"
    have g: "wgChanged g > wgChanged (gsGate s)" "wgActive g = wgActive (gsGate s)"
        "wgHighWaiting g = wgHighWaiting (gsGate s) - 1"
      by (simp_all add: g_def signalLocked_def)
    have "holders s - {t} = holders s" using t(2) by simp
    then have "gate_inv prio (gate_update s t (g, Over))"
      using facts g High card_less_one [OF inv] t(1) by (intro signal_inv [OF inv]) simp_all
    then show ?thesis using High by (simp add: cancelWait_def g_def)
  next
    case Projection
    then have wh: "waiting_high prio (gate_update s t (gsGate s, Over)) = waiting_high prio s"
      and hold: "holders (gate_update s t (gsGate s, Over)) = holders s"
      using t by (simp_all add: waiting_high_update holders_update)
    have "gate_inv prio (gate_update s t (gsGate s, Over))"
    proof (rule gate_inv_update [OF inv])
      show "if wgActive (gsGate s) then \<exists>u. holders (gate_update s t (gsGate s, Over)) = {u}
          else holders (gate_update s t (gsGate s, Over)) = {}"
        unfolding hold using facts(3,4) by simp
    qed (simp_all add: wh facts(2))
    then show ?thesis using Projection by (simp add: cancelWait_def)
  qed
qed

lemma release_inv:
  assumes inv: "gate_inv prio s" and hold: "gsCaller s t = Holding"
  shows "gate_inv prio (gate_update s t (releaseGate (gsGate s)))"
proof -
  note facts = gate_inv_facts [OF inv]
  have "t \<in> holders s" and "t \<notin> waiting_high prio s" using hold by (auto simp: holders_def waiting_high_def)
  moreover from this facts(3,4) have "holders s = {t}" by (cases "wgActive (gsGate s)") auto
  ultimately show ?thesis
    using signal_inv [OF inv, of "signalLocked (gsGate s\<lparr>wgActive := False\<rparr>)" t] facts(2)
    by (simp add: releaseGate_def signalLocked_def)
qed

lemma gate_step_inv: "gate_step prio s s' \<Longrightarrow> gate_inv prio s \<Longrightarrow> gate_inv prio s'"
  by (induction rule: gate_step.induct) (simp_all add: gate_enter_inv wake_inv cancel_inv release_inv)

lemma gate_reachable_inv: "(gate_step prio)\<^sup>*\<^sup>* gate_start s \<Longrightarrow> gate_inv prio s"
  by (induction rule: rtranclp_induct) (simp_all add: gate_inv_start gate_step_inv)

lemma write_holder_unique:
  assumes "(gate_step prio)\<^sup>*\<^sup>* gate_start s" and "gsCaller s u = Holding" and "gsCaller s v = Holding"
  shows "u = v"
proof -
  have "u \<in> holders s" and "v \<in> holders s" using assms(2,3) by (simp_all add: holders_def)
  then show ?thesis
    using gate_inv_facts(3,4) [OF gate_reachable_inv [OF assms(1)]] by (cases "wgActive (gsGate s)") auto
qed

end
