(* ===== verification/Runtime_Properties.thy ===== *)
theory Runtime_Properties
  imports Runtime_Gates
begin

text \<open>Properties of the activation barrier and of the write gate.\<close>

section \<open>The write gate\<close>

definition ex_prio :: "nat \<Rightarrow> priority" where
  "ex_prio t = (if t = 0 then Projection else High)"

definition ex_gate :: "nat \<Rightarrow> gate_system" where
  "ex_gate n = \<lparr>gsGate = \<lparr>wgActive = True, wgHighWaiting = 1, wgChanged = 0\<rparr>,
     gsCaller = (\<lambda>_. Outside)(0 := Holding, 1 := Waiting 0)\<rparr>"

text \<open>A projection transaction runs while a canonical caller waits.\<close>

lemma ex_gate_reachable: "(gate_step ex_prio)\<^sup>*\<^sup>* gate_start (ex_gate 0)"
proof -
  have "gate_step ex_prio gate_start (gate_update gate_start 0 (enterGate (ex_prio 0) (gsGate gate_start)))"
    by (rule gate_step.Enter) (simp add: gate_start_def)
  moreover have "gate_step ex_prio (gate_update gate_start 0 (enterGate (ex_prio 0) (gsGate gate_start))) (ex_gate 0)"
  proof -
    have one: "gate_update gate_start 0 (enterGate (ex_prio 0) (gsGate gate_start)) =
        \<lparr>gsGate = \<lparr>wgActive = True, wgHighWaiting = 0, wgChanged = 0\<rparr>, gsCaller = (\<lambda>_. Outside)(0 := Holding)\<rparr>"
      by (simp add: gate_update_def enterGate_def tryAcquire_def ex_prio_def gate_start_def newWritePriorityGate_def)
    have "ex_gate 0 = gate_update \<lparr>gsGate = \<lparr>wgActive = True, wgHighWaiting = 0, wgChanged = 0\<rparr>,
          gsCaller = (\<lambda>_. Outside)(0 := Holding)\<rparr> 1 (enterGate (ex_prio 1) \<lparr>wgActive = True, wgHighWaiting = 0, wgChanged = 0\<rparr>)"
      by (simp add: ex_gate_def gate_update_def enterGate_def tryAcquire_def ex_prio_def)
    then show ?thesis
      unfolding one using gate_step.Enter [of "\<lparr>gsGate = \<lparr>wgActive = True, wgHighWaiting = 0, wgChanged = 0\<rparr>,
          gsCaller = (\<lambda>_. Outside)(0 := Holding)\<rparr>" 1 ex_prio] by simp
  qed
  ultimately show ?thesis by (meson rtranclp.simps)
qed

text \<open>C17: In every interleaving of callers that enter, wake, give up and release, at most one write
  transaction holds the gate, the counter is the number of waiting high-priority callers, and a step
  after which a projection caller has just got the gate was taken while no high-priority caller was
  waiting and nobody held it.\<close>

theorem write_gate_safe:
  assumes "(gate_step prio)\<^sup>*\<^sup>* gate_start s"
  shows "(wgActive (gsGate s) \<longleftrightarrow> (\<exists>t. gsCaller s t = Holding))
    \<and> (\<forall>t u. gsCaller s t = Holding \<and> gsCaller s u = Holding \<longrightarrow> t = u)
    \<and> finite (waiting_high prio s) \<and> wgHighWaiting (gsGate s) = int (card (waiting_high prio s))
    \<and> (\<forall>s' t. gate_step prio s s' \<and> prio t = Projection \<and> gsCaller s t \<noteq> Holding \<and> gsCaller s' t = Holding \<longrightarrow>
         waiting_high prio s = {} \<and> (\<forall>u. gsCaller s u \<noteq> Holding))"
proof -
  note inv = gate_reachable_inv [OF assms]
  note facts = gate_inv_facts [OF inv]
  have "waiting_high prio s = {} \<and> holders s = {}"
    if step: "gate_step prio s s'" and t: "prio t = Projection" "gsCaller s t \<noteq> Holding" "gsCaller s' t = Holding" for s' t
  proof -
    have "snd (tryAcquire Projection (gsGate s)) = Holding"
      using step t by (cases rule: gate_step.cases)
        (auto simp: gate_update_def enterGate_def cancelWait_def releaseGate_def split: if_splits priority.splits)
    then show ?thesis
      using facts wgHighWaiting_pos [OF inv] by (auto simp: tryAcquire_def split: if_splits)
  qed
  moreover have "wgActive (gsGate s) \<longleftrightarrow> (\<exists>t. gsCaller s t = Holding)"
    using facts(3,4) by (cases "wgActive (gsGate s)") (auto simp: holders_def)
  ultimately show ?thesis
    using facts(1,2) write_holder_unique [OF assms] by (auto simp: holders_def)
qed

theorem write_gate_safe_witness:
  "finite (waiting_high ex_prio (ex_gate 0)) \<and> card (waiting_high ex_prio (ex_gate 0)) = 1"
proof -
  have "finite (waiting_high ex_prio (ex_gate 0)) \<and> wgHighWaiting (gsGate (ex_gate 0)) = int (card (waiting_high ex_prio (ex_gate 0)))"
    using write_gate_safe [OF ex_gate_reachable] by blast
  moreover have "wgHighWaiting (gsGate (ex_gate 0)) = 1" by (simp add: ex_gate_def)
  ultimately show ?thesis by simp
qed

text \<open>C18: No wake-up is lost. In every reachable state in which nobody holds the gate, every waiting
  high-priority caller finds its channel closed and gets the gate if it runs next; so does every
  waiting projection caller when no high-priority caller waits. Releasing the gate always makes
  this state.\<close>

theorem write_gate_progress:
  assumes "(gate_step prio)\<^sup>*\<^sup>* gate_start s" and "gsCaller s t = Waiting g"
    and "prio t = High \<or> waiting_high prio s = {}"
  shows "((\<forall>u. gsCaller s u \<noteq> Holding) \<longrightarrow> g < wgChanged (gsGate s)
      \<and> (\<exists>s'. gate_step prio s s' \<and> gsCaller s' t = Holding))
    \<and> (\<forall>u. gsCaller s u = Holding \<longrightarrow>
      (\<exists>s' s''. gate_step prio s s' \<and> gate_step prio s' s'' \<and> gsCaller s'' t = Holding))"
proof (intro conjI allI)
  have go: "g < wgChanged (gsGate s) \<and> (\<exists>s'. gate_step prio s s' \<and> gsCaller s' t = Holding)"
    if reach: "(gate_step prio)\<^sup>*\<^sup>* gate_start s" and wait: "gsCaller s t = Waiting g"
      and may: "prio t = High \<or> waiting_high prio s = {}" and free: "\<forall>u. gsCaller s u \<noteq> Holding" for s
  proof -
    note inv = gate_reachable_inv [OF reach]
    have idle: "\<not> wgActive (gsGate s)" using gate_inv_facts(3) [OF inv] free by (auto simp: holders_def)
    have "g \<le> wgChanged (gsGate s)" and "g \<noteq> wgChanged (gsGate s)"
      using inv wait may idle unfolding gate_inv_def by (blast, metis priority.distinct(1))
    then have less: "g < wgChanged (gsGate s)" by simp
    have "snd (tryAcquire (prio t) (gsGate s)) = Holding"
      using idle may wgHighWaiting_pos [OF inv] by (cases "prio t") (auto simp: tryAcquire_def)
    then show ?thesis
      using gate_step.Wake [OF wait less, of prio] less by (auto simp: gate_update_def)
  qed
  then show "(\<forall>u. gsCaller s u \<noteq> Holding) \<longrightarrow> g < wgChanged (gsGate s)
      \<and> (\<exists>s'. gate_step prio s s' \<and> gsCaller s' t = Holding)" using assms by blast
  show "gsCaller s u = Holding \<longrightarrow> (\<exists>s' s''. gate_step prio s s' \<and> gate_step prio s' s'' \<and> gsCaller s'' t = Holding)" for u
  proof
    assume hold: "gsCaller s u = Holding"
    define s1 where "s1 = gate_update s u (releaseGate (gsGate s))"
    have step: "gate_step prio s s1" unfolding s1_def by (rule gate_step.Release [OF hold])
    have "u \<noteq> t" using hold assms(2) by auto
    then have "gsCaller s1 t = Waiting g" using assms(2) by (simp add: s1_def gate_update_def)
    moreover have "\<forall>v. gsCaller s1 v \<noteq> Holding"
      using write_holder_unique [OF assms(1) hold] by (auto simp: s1_def gate_update_def releaseGate_def)
    moreover have "prio t = High \<or> waiting_high prio s1 = {}"
      using assms(3) hold by (auto simp: s1_def waiting_high_def gate_update_def releaseGate_def)
    moreover have "(gate_step prio)\<^sup>*\<^sup>* gate_start s1" using assms(1) step by (rule rtranclp.rtrancl_into_rtrancl)
    ultimately show "\<exists>s' s''. gate_step prio s s' \<and> gate_step prio s' s'' \<and> gsCaller s'' t = Holding"
      using go step by blast
  qed
qed

theorem write_gate_progress_witness:
  "\<exists>s' s''. gate_step ex_prio (ex_gate 0) s' \<and> gate_step ex_prio s' s'' \<and> gsCaller s'' 1 = Holding"
proof -
  have "gsCaller (ex_gate 0) 1 = Waiting 0" and "gsCaller (ex_gate 0) 0 = Holding" and "ex_prio 1 = High"
    by (simp_all add: ex_gate_def ex_prio_def)
  then show ?thesis using write_gate_progress [OF ex_gate_reachable, of 1 0] by blast
qed

section \<open>The activation barrier\<close>

text \<open>Whatever sequence of attempts to open or fail the gate is made, exactly the first succeeds and
  decides it for good: later attempts are refused, the gate stays open or failed, and every wait
  that is not cancelled returns that outcome; before the first attempt it blocks.\<close>

theorem gate_resolves_once:
  "snd (gate_run (first # later) newGate) = ok # replicate (length later) (Inl ErrAlreadyResolved)
   \<and> (Gate_IsOpen (fst (gate_run (first # later) newGate)) \<longleftrightarrow> first = DoOpen)
   \<and> Gate_Wait prefers None (fst (gate_run (first # later) newGate))
     = Some (case first of DoOpen \<Rightarrow> ok | DoFail None \<Rightarrow> Inl ErrClosed | DoFail (Some e) \<Rightarrow> Inl e)
   \<and> Gate_Wait prefers None newGate = None"
  unfolding gate_run_first
  by (cases first) (auto simp: Gate_Open_def Gate_Fail_def resolve_def newGate_def Gate_IsOpen_def Gate_Wait_def
      split: option.splits)

end
