(* ===== verification/Go_Checks.thy ===== *)
theory Go_Checks
  imports Go_Strings
begin

text \<open>
  Two idioms of the validators: a chain of guards that return the first error, and a loop over a
  collection that keeps a map of what it has seen. Both come with an exact characterisation of
  success, so that the components can be compared with a declarative reading of their checks.
\<close>

section \<open>Guards\<close>

definition reject :: "bool \<Rightarrow> 'e \<Rightarrow> ('e, unit) result" where
  "reject bad e = (if bad then Inl e else ok)"

definition andThen :: "('e, unit) result \<Rightarrow> ('e, 'a) result \<Rightarrow> ('e, 'a) result" where
  "andThen first second = (case first of Inl e \<Rightarrow> Inl e | Inr _ \<Rightarrow> second)"

definition mapError :: "('e \<Rightarrow> 'f) \<Rightarrow> ('e, 'a) result \<Rightarrow> ('f, 'a) result" where
  "mapError f r = (case r of Inl e \<Rightarrow> Inl (f e) | Inr v \<Rightarrow> Inr v)"

lemma reject_ok [simp]: "reject bad e = Inr u \<longleftrightarrow> \<not> bad"
  by (simp add: reject_def)

lemma andThen_ok [simp]: "andThen a b = Inr v \<longleftrightarrow> a = ok \<and> b = Inr v"
  by (cases a) (auto simp: andThen_def)

lemma mapError_ok [simp]: "mapError f r = Inr v \<longleftrightarrow> r = Inr v"
  by (cases r) (auto simp: mapError_def)

lemma andThen_Inl: "andThen (Inl e) b = Inl e"
  by (simp add: andThen_def)

section \<open>Loops that record what they have seen\<close>

text \<open>
  Every round checks its element, refuses a key that was recorded before and records the key with a
  value. The whole loop succeeds exactly when all elements pass and all keys are new.
\<close>

lemma foldE_seen:
  assumes step: "\<And>m x v. f m x = Inr v \<longleftrightarrow> P x \<and> key x \<notin> dom m \<and> v = m(key x \<mapsto> val x)"
  shows "foldE f m xs = Inr v \<longleftrightarrow> (\<forall>x\<in>set xs. P x) \<and> distinct (map key xs) \<and> dom m \<inter> key ` set xs = {}
    \<and> v = m ++ map_of (map (\<lambda>x. (key x, val x)) xs)"
proof (induction xs arbitrary: m)
  case (Cons x xs)
  have "foldE f m (x # xs) = Inr v \<longleftrightarrow> (\<exists>m'. f m x = Inr m' \<and> foldE f m' xs = Inr v)"
    by (auto split: sum.split)
  also have "\<dots> \<longleftrightarrow> P x \<and> key x \<notin> dom m \<and> foldE f (m(key x \<mapsto> val x)) xs = Inr v"
    using step by auto
  also have "\<dots> \<longleftrightarrow> P x \<and> key x \<notin> dom m \<and> (\<forall>x\<in>set xs. P x) \<and> distinct (map key xs)
      \<and> dom (m(key x \<mapsto> val x)) \<inter> key ` set xs = {} \<and> v = m(key x \<mapsto> val x) ++ map_of (map (\<lambda>x. (key x, val x)) xs)"
    unfolding Cons.IH by (rule refl)
  also have "\<dots> \<longleftrightarrow> (\<forall>y\<in>set (x # xs). P y) \<and> distinct (map key (x # xs)) \<and> dom m \<inter> key ` set (x # xs) = {}
      \<and> v = m ++ map_of (map (\<lambda>x. (key x, val x)) (x # xs))"
  proof -
    have "m(key x \<mapsto> val x) ++ map_of (map (\<lambda>x. (key x, val x)) xs)
        = m ++ map_of (map (\<lambda>x. (key x, val x)) (x # xs))" if "key x \<notin> key ` set xs"
    proof -
      have "key x \<notin> dom (map_of (map (\<lambda>x. (key x, val x)) xs))" using that by (simp add: dom_map_of_conv_image_fst image_image)
      then show ?thesis by (simp add: map_add_upd_left)
    qed
    then show ?thesis by auto
  qed
  finally show ?case .
qed auto

text \<open>A loop that compares the key of every element with the key before it.\<close>

fun strictKeys :: "string list \<Rightarrow> bool" where
  "strictKeys (a # b # rest) \<longleftrightarrow> (a \<noteq> '''' \<longrightarrow> a < b) \<and> strictKeys (b # rest)"
| "strictKeys _ \<longleftrightarrow> True"

lemma strictKeys_sorted: "'''' \<notin> set keys \<Longrightarrow> strictKeys keys \<longleftrightarrow> sorted_wrt (<) keys"
  by (induction keys rule: strictKeys.induct) (auto intro: less_trans)

lemma mset_concat_map: "mset xs = mset ys \<Longrightarrow> mset (concat (map f xs)) = mset (concat (map f ys))"
  by (metis mset_concat mset_map mset_eq_setD sum_mset_sum_list map_map comp_def)

lemma distinct_concat_slice_stable [simp]:
  "distinct (concat (map f (slice_stable lt xs))) \<longleftrightarrow> distinct (concat (map f xs))"
  using mset_concat_map [of "slice_stable lt xs" xs f] by (metis mset_eq_imp_distinct_iff mset_slice_stable)

lemma map_of_distinct_mset:
  assumes "mset xs = mset ys" and "distinct (map fst xs)"
  shows "map_of xs = map_of ys"
  using assms by (metis map_of_inject_set mset_eq_imp_distinct_iff mset_eq_setD mset_map)

end
