(* ===== verification/Integrity_Minimum.thy ===== *)
theory Integrity_Minimum
  imports Go_Checks Canonical_Ledger
begin

text \<open>
  The fatal checks of \<^verbatim>\<open>internal/integrity\<close> that run before a writer may be opened: the relation
  between claim statements and content erasures (\<^verbatim>\<open>minimum.go\<close>), the two copies of every present
  blob (\<^verbatim>\<open>dual_blob.go\<close>) and the head metadata (\<^verbatim>\<open>head.go\<close>). The rows a source returns, the read of
  the filesystem object and the state of the context are arguments.
\<close>

section \<open>Errors\<close>

datatype integrity_error =
    FatalError (feCode: string) (feTargetKind: string) (feTargetID: string) (feReason: string)
  | ErrInvalidCandidate string
  | ErrCandidateConflict
  | IntegrityCanonical canonical_error
  | IntegrityContext string
  | IntegrityLoad string
  | IntegrityError string

definition ClaimStatementAliasGroupInvalid :: string where
  "ClaimStatementAliasGroupInvalid = ''claim_statement_alias_group_invalid''"

definition PresentBlobCopyInvalid :: string where
  "PresentBlobCopyInvalid = ''present_blob_copy_invalid''"

definition aliasFatal :: "string \<Rightarrow> string \<Rightarrow> string \<Rightarrow> integrity_error" where
  "aliasFatal kind ident reason = FatalError ClaimStatementAliasGroupInvalid kind ident reason"

definition blobFatal :: "string \<Rightarrow> string \<Rightarrow> integrity_error" where
  "blobFatal contentID reason = FatalError PresentBlobCopyInvalid ''content'' contentID reason"

section \<open>Claim statement aliases\<close>

record ClaimStatementAlias =
  caClaimID :: string
  caOwnerResidentID :: string
  caStatementHashIsSet :: bool

record ContentErasureEvent =
  ceEventID :: string
  ceContentID :: string
  ceCanonicalCommitID :: string
  ceCommitResidentID :: string
  ceErasureScope :: string
  ceRecordedAt :: int
  ceRecordedTZ :: string
  ceCommitRecordedAt :: int
  ceCommitRecordedTZ :: string

record ClaimStatementContent =
  scContentID :: string
  scOwnerResidentID :: string
  scErasureState :: string
  scClaims :: "ClaimStatementAlias list"
  scErasureEvents :: "ContentErasureEvent list"

record ClaimStatementErasureEvent =
  cpEventID :: string
  cpClaimID :: string
  cpResidentID :: string
  cpCanonicalCommitID :: string
  cpContentErasureEventID :: string
  cpRecordedAt :: int
  cpRecordedTZ :: string

record ClaimStatementAliasSnapshot =
  asContents :: "ClaimStatementContent list"
  asErasureEvents :: "ClaimStatementErasureEvent list"

record claimLocation =
  clContentID :: string
  clResident :: string
  clClaim :: ClaimStatementAlias

definition visitClaim ::
  "ClaimStatementContent \<Rightarrow> (string \<rightharpoonup> claimLocation) \<Rightarrow> ClaimStatementAlias
    \<Rightarrow> (integrity_error, string \<rightharpoonup> claimLocation) result" where
  "visitClaim content claims claim =
     andThen (reject (caClaimID claim = '''' \<or> caOwnerResidentID claim = '''')
       (aliasFatal ''content'' (scContentID content) ''claim or owner resident identity is empty''))
    (andThen (reject (caOwnerResidentID claim \<noteq> scOwnerResidentID content)
       (aliasFatal ''claim'' (caClaimID claim) ''claim owner does not match statement content owner''))
    (andThen (reject (caClaimID claim \<in> dom claims)
       (aliasFatal ''claim'' (caClaimID claim) ''claim appears in more than one alias group''))
    (Inr (claims(caClaimID claim \<mapsto>
       \<lparr>clContentID = scContentID content, clResident = scOwnerResidentID content, clClaim = claim\<rparr>)))))"

definition visitErasureEvent ::
  "ClaimStatementContent \<Rightarrow> (string \<rightharpoonup> ContentErasureEvent) \<Rightarrow> ContentErasureEvent
    \<Rightarrow> (integrity_error, string \<rightharpoonup> ContentErasureEvent) result" where
  "visitErasureEvent content events event =
     andThen (reject (ceEventID event = '''' \<or> ceCanonicalCommitID event = '''')
       (aliasFatal ''content'' (scContentID content) ''content erasure event or commit identity is empty''))
    (andThen (reject (ceContentID event \<noteq> scContentID content)
       (aliasFatal ''event'' (ceEventID event) ''content erasure event belongs to another content object''))
    (andThen (reject (ceCommitResidentID event \<noteq> scOwnerResidentID content)
       (aliasFatal ''event'' (ceEventID event) ''content erasure commit is not scoped to the content owner''))
    (andThen (reject (ceErasureScope event \<noteq> ''content'' \<and> ceErasureScope event \<noteq> ''resident'')
       (aliasFatal ''event'' (ceEventID event) ''content erasure scope is invalid''))
    (andThen (reject (ceRecordedAt event \<noteq> ceCommitRecordedAt event \<or> ceRecordedTZ event \<noteq> ceCommitRecordedTZ event)
       (aliasFatal ''event'' (ceEventID event) ''content erasure event does not use its Canonical commit ledger time''))
    (andThen (reject (ceEventID event \<in> dom events)
       (aliasFatal ''event'' (ceEventID event) ''content erasure event appears more than once''))
    (Inr (events(ceEventID event \<mapsto> event))))))))"

record aliasState =
  alSeen :: "string set"
  alClaims :: "string \<rightharpoonup> claimLocation"
  alEvents :: "string \<rightharpoonup> ContentErasureEvent"

text \<open>The local copy of a group, with its claims and events sorted.\<close>

definition sortedContent :: "ClaimStatementContent \<Rightarrow> ClaimStatementContent" where
  "sortedContent content = content
     \<lparr>scClaims := slice_stable (\<lambda>a b. caClaimID a < caClaimID b) (scClaims content),
      scErasureEvents := slice_stable (\<lambda>a b. ceEventID a < ceEventID b) (scErasureEvents content)\<rparr>"

definition visitAliasGroup :: "aliasState \<Rightarrow> ClaimStatementContent \<Rightarrow> (integrity_error, aliasState) result" where
  "visitAliasGroup st content =
     andThen (reject (scContentID content = '''' \<or> scOwnerResidentID content = '''')
       (aliasFatal ''content'' (scContentID content) ''content or owner resident identity is empty''))
    (andThen (reject (scContentID content \<in> alSeen st)
       (aliasFatal ''content'' (scContentID content) ''content appears in more than one alias group''))
    (andThen (reject (scClaims content = [])
       (aliasFatal ''content'' (scContentID content) ''alias group has no claims''))
    (case foldE (visitClaim content) (alClaims st) (scClaims (sortedContent content)) of
       Inl e \<Rightarrow> Inl e
     | Inr claims \<Rightarrow>
         (case foldE (visitErasureEvent content) (alEvents st) (scErasureEvents (sortedContent content)) of
            Inl e \<Rightarrow> Inl e
          | Inr events \<Rightarrow> Inr \<lparr>alSeen = insert (scContentID content) (alSeen st), alClaims = claims, alEvents = events\<rparr>))))"

definition visitPair ::
  "aliasState \<Rightarrow> (string \<rightharpoonup> ClaimStatementErasureEvent) \<Rightarrow> ClaimStatementErasureEvent
    \<Rightarrow> (integrity_error, string \<rightharpoonup> ClaimStatementErasureEvent) result" where
  "visitPair st seen pair =
     (let fatal = aliasFatal ''event'' (cpEventID pair) in
      andThen (reject (cpEventID pair = '''' \<or> cpClaimID pair = '''' \<or> cpResidentID pair = ''''
          \<or> cpCanonicalCommitID pair = '''' \<or> cpContentErasureEventID pair = '''')
        (fatal ''claim statement erasure event has an empty identity''))
     (andThen (reject (cpEventID pair \<in> dom seen) (fatal ''claim statement erasure event appears more than once''))
     (case alClaims st (cpClaimID pair) of
        None \<Rightarrow> Inl (fatal ''claim statement erasure event references a missing claim'')
      | Some location \<Rightarrow>
          andThen (reject (cpResidentID pair \<noteq> clResident location)
            (fatal ''claim statement erasure event resident does not match the alias group''))
         (case alEvents st (cpContentErasureEventID pair) of
            None \<Rightarrow> Inl (fatal ''claim statement erasure event references a missing content erasure event'')
          | Some event \<Rightarrow>
              andThen (reject (ceContentID event \<noteq> clContentID location)
                (fatal ''claim statement erasure event points to another statement content''))
             (andThen (reject (cpCanonicalCommitID pair \<noteq> ceCanonicalCommitID event)
                (fatal ''claim and content erasure events belong to different Canonical commits''))
             (andThen (reject (cpRecordedAt pair \<noteq> ceRecordedAt event \<or> cpRecordedTZ pair \<noteq> ceRecordedTZ event)
                (fatal ''claim and content erasure events use different ledger times''))
             (Inr (seen(cpEventID pair \<mapsto> pair)))))))))"

definition pairsOf :: "ClaimStatementErasureEvent list \<Rightarrow> string \<Rightarrow> ClaimStatementErasureEvent list" where
  "pairsOf pairs claim = filter (\<lambda>p. cpClaimID p = claim) pairs"

definition checkPresentClaim ::
  "ClaimStatementErasureEvent list \<Rightarrow> ClaimStatementAlias \<Rightarrow> (integrity_error, unit) result" where
  "checkPresentClaim pairs claim =
     andThen (reject (\<not> caStatementHashIsSet claim)
       (aliasFatal ''claim'' (caClaimID claim) ''present statement content has a NULL claim identity''))
    (reject (pairsOf pairs (caClaimID claim) \<noteq> [])
       (aliasFatal ''claim'' (caClaimID claim) ''present statement content has a claim erasure event''))"

definition checkErasedClaim ::
  "ClaimStatementErasureEvent list \<Rightarrow> string \<Rightarrow> ClaimStatementAlias \<Rightarrow> (integrity_error, unit) result" where
  "checkErasedClaim pairs eventID claim =
     andThen (reject (caStatementHashIsSet claim)
       (aliasFatal ''claim'' (caClaimID claim) ''erased statement content retains a claim identity''))
    (case pairsOf pairs (caClaimID claim) of
       [pair] \<Rightarrow> reject (cpContentErasureEventID pair \<noteq> eventID)
         (aliasFatal ''claim'' (caClaimID claim) ''erased claim is paired to the wrong content erasure event'')
     | _ \<Rightarrow> Inl (aliasFatal ''claim'' (caClaimID claim)
         ''erased claim does not have exactly one claim statement erasure event''))"

definition checkGroupState ::
  "ClaimStatementErasureEvent list \<Rightarrow> ClaimStatementContent \<Rightarrow> (integrity_error, unit) result" where
  "checkGroupState pairs content =
     (if scErasureState content = ''present''
      then andThen (reject (scErasureEvents content \<noteq> [])
             (aliasFatal ''content'' (scContentID content) ''present content has a content erasure event''))
           (checkE (checkPresentClaim pairs) (scClaims (sortedContent content)))
      else if scErasureState content = ''erased''
      then (case scErasureEvents content of
              [event] \<Rightarrow> checkE (checkErasedClaim pairs (ceEventID event)) (scClaims (sortedContent content))
            | _ \<Rightarrow> Inl (aliasFatal ''content'' (scContentID content)
                ''erased statement content does not have exactly one content erasure event''))
      else Inl (aliasFatal ''content'' (scContentID content) ''statement content erasure state is invalid''))"

definition checkClaimStatementAliases :: "ClaimStatementAliasSnapshot \<Rightarrow> (integrity_error, unit) result" where
  "checkClaimStatementAliases snapshot =
     (let contents = slice_stable (\<lambda>a b. scContentID a < scContentID b) (asContents snapshot);
          pairs = slice_stable (\<lambda>a b. cpEventID a < cpEventID b) (asErasureEvents snapshot)
      in case foldE visitAliasGroup \<lparr>alSeen = {}, alClaims = Map.empty, alEvents = Map.empty\<rparr> contents of
           Inl e \<Rightarrow> Inl e
         | Inr st \<Rightarrow>
             (case foldE (visitPair st) Map.empty pairs of
                Inl e \<Rightarrow> Inl e
              | Inr _ \<Rightarrow> checkE (checkGroupState pairs) contents))"

section \<open>What the alias check accepts\<close>

definition claim_ok :: "ClaimStatementContent \<Rightarrow> ClaimStatementAlias \<Rightarrow> bool" where
  "claim_ok c cl \<longleftrightarrow> caClaimID cl \<noteq> '''' \<and> caOwnerResidentID cl \<noteq> '''' \<and> caOwnerResidentID cl = scOwnerResidentID c"

definition event_ok :: "ClaimStatementContent \<Rightarrow> ContentErasureEvent \<Rightarrow> bool" where
  "event_ok c e \<longleftrightarrow> ceEventID e \<noteq> '''' \<and> ceCanonicalCommitID e \<noteq> '''' \<and> ceContentID e = scContentID c
     \<and> ceCommitResidentID e = scOwnerResidentID c \<and> (ceErasureScope e = ''content'' \<or> ceErasureScope e = ''resident'')
     \<and> ceRecordedAt e = ceCommitRecordedAt e \<and> ceRecordedTZ e = ceCommitRecordedTZ e"

definition group_ok :: "ClaimStatementContent \<Rightarrow> bool" where
  "group_ok c \<longleftrightarrow> scContentID c \<noteq> '''' \<and> scOwnerResidentID c \<noteq> '''' \<and> scClaims c \<noteq> []
     \<and> (\<forall>cl\<in>set (scClaims c). claim_ok c cl) \<and> (\<forall>e\<in>set (scErasureEvents c). event_ok c e)"

definition pair_joins :: "ClaimStatementContent \<Rightarrow> ClaimStatementAlias \<Rightarrow> ContentErasureEvent \<Rightarrow> ClaimStatementErasureEvent \<Rightarrow> bool" where
  "pair_joins c cl e p \<longleftrightarrow> cpClaimID p = caClaimID cl \<and> cpResidentID p = scOwnerResidentID c
     \<and> cpContentErasureEventID p = ceEventID e \<and> cpCanonicalCommitID p = ceCanonicalCommitID e
     \<and> cpRecordedAt p = ceRecordedAt e \<and> cpRecordedTZ p = ceRecordedTZ e"

definition pair_ok :: "ClaimStatementContent list \<Rightarrow> ClaimStatementErasureEvent \<Rightarrow> bool" where
  "pair_ok contents p \<longleftrightarrow> cpEventID p \<noteq> '''' \<and> cpClaimID p \<noteq> '''' \<and> cpResidentID p \<noteq> '''' \<and> cpCanonicalCommitID p \<noteq> ''''
     \<and> cpContentErasureEventID p \<noteq> ''''
     \<and> (\<exists>c\<in>set contents. \<exists>cl\<in>set (scClaims c). \<exists>e\<in>set (scErasureEvents c). pair_joins c cl e p)"

definition state_ok :: "ClaimStatementErasureEvent list \<Rightarrow> ClaimStatementContent \<Rightarrow> bool" where
  "state_ok pairs c \<longleftrightarrow>
     scErasureState c = ''present'' \<and> scErasureEvents c = []
       \<and> (\<forall>cl\<in>set (scClaims c). caStatementHashIsSet cl \<and> (\<forall>p\<in>set pairs. cpClaimID p \<noteq> caClaimID cl))
     \<or> scErasureState c = ''erased'' \<and> (\<exists>e. scErasureEvents c = [e]
       \<and> (\<forall>cl\<in>set (scClaims c). \<not> caStatementHashIsSet cl
            \<and> (\<exists>p. pairsOf pairs (caClaimID cl) = [p] \<and> cpContentErasureEventID p = ceEventID e)))"

definition aliases_ok :: "ClaimStatementAliasSnapshot \<Rightarrow> bool" where
  "aliases_ok snapshot \<longleftrightarrow>
     (\<forall>c\<in>set (asContents snapshot). group_ok c) \<and> distinct (map scContentID (asContents snapshot))
     \<and> distinct (concat (map (\<lambda>c. map caClaimID (scClaims c)) (asContents snapshot)))
     \<and> distinct (concat (map (\<lambda>c. map ceEventID (scErasureEvents c)) (asContents snapshot)))
     \<and> distinct (map cpEventID (asErasureEvents snapshot))
     \<and> (\<forall>p\<in>set (asErasureEvents snapshot). pair_ok (asContents snapshot) p)
     \<and> (\<forall>c\<in>set (asContents snapshot). state_ok (asErasureEvents snapshot) c)"

text \<open>The two inner loops.\<close>

definition location_of :: "ClaimStatementContent \<Rightarrow> ClaimStatementAlias \<Rightarrow> claimLocation" where
  "location_of c cl = \<lparr>clContentID = scContentID c, clResident = scOwnerResidentID c, clClaim = cl\<rparr>"

definition claim_entries :: "ClaimStatementContent \<Rightarrow> (string \<times> claimLocation) list" where
  "claim_entries c = map (\<lambda>cl. (caClaimID cl, location_of c cl)) (scClaims c)"

definition event_entries :: "ClaimStatementContent \<Rightarrow> (string \<times> ContentErasureEvent) list" where
  "event_entries c = map (\<lambda>e. (ceEventID e, e)) (scErasureEvents c)"

lemma visitClaim_iff:
  "visitClaim c m cl = Inr v \<longleftrightarrow> claim_ok c cl \<and> caClaimID cl \<notin> dom m \<and> v = m(caClaimID cl \<mapsto> location_of c cl)"
  by (auto simp: visitClaim_def claim_ok_def location_of_def)

lemma visitErasureEvent_iff:
  "visitErasureEvent c m e = Inr v \<longleftrightarrow> event_ok c e \<and> ceEventID e \<notin> dom m \<and> v = m(ceEventID e \<mapsto> e)"
  by (auto simp: visitErasureEvent_def event_ok_def)

lemma sortedContent_sel [simp]:
  "set (scClaims (sortedContent c)) = set (scClaims c)" "set (scErasureEvents (sortedContent c)) = set (scErasureEvents c)"
  by (simp_all add: sortedContent_def)

lemma map_of_slice_stable:
  "distinct (map k xs) \<Longrightarrow> map_of (map (\<lambda>x. (k x, v x)) (slice_stable lt xs)) = map_of (map (\<lambda>x. (k x, v x)) xs)"
  by (rule map_of_distinct_mset) (simp_all add: comp_def)

lemma visitAliasGroup_iff:
  "visitAliasGroup st c = Inr v \<longleftrightarrow> group_ok c \<and> scContentID c \<notin> alSeen st
     \<and> distinct (map caClaimID (scClaims c)) \<and> dom (alClaims st) \<inter> caClaimID ` set (scClaims c) = {}
     \<and> distinct (map ceEventID (scErasureEvents c)) \<and> dom (alEvents st) \<inter> ceEventID ` set (scErasureEvents c) = {}
     \<and> v = \<lparr>alSeen = insert (scContentID c) (alSeen st), alClaims = alClaims st ++ map_of (claim_entries c),
           alEvents = alEvents st ++ map_of (event_entries c)\<rparr>"
proof -
  have claims: "foldE (visitClaim c) m (scClaims (sortedContent c)) = Inr v \<longleftrightarrow> (\<forall>cl\<in>set (scClaims c). claim_ok c cl)
      \<and> distinct (map caClaimID (scClaims c)) \<and> dom m \<inter> caClaimID ` set (scClaims c) = {} \<and> v = m ++ map_of (claim_entries c)" for m v
    unfolding foldE_seen [OF visitClaim_iff] claim_entries_def
    by (auto simp: sortedContent_def map_of_slice_stable)
  have events: "foldE (visitErasureEvent c) m (scErasureEvents (sortedContent c)) = Inr v \<longleftrightarrow> (\<forall>e\<in>set (scErasureEvents c). event_ok c e)
      \<and> distinct (map ceEventID (scErasureEvents c)) \<and> dom m \<inter> ceEventID ` set (scErasureEvents c) = {} \<and> v = m ++ map_of (event_entries c)" for m v
    unfolding foldE_seen [OF visitErasureEvent_iff] event_entries_def
    by (auto simp: sortedContent_def map_of_slice_stable)
  show ?thesis
    unfolding visitAliasGroup_def andThen_ok reject_ok case_result_ok [where f = "\<lambda>e. e"] claims events group_ok_def
    by auto
qed

text \<open>The outer loop collects all claims and all events.\<close>

lemma dom_map_of_entries:
  "dom (map_of (claim_entries c)) = caClaimID ` set (scClaims c)" "dom (map_of (event_entries c)) = ceEventID ` set (scErasureEvents c)"
  by (simp_all add: claim_entries_def event_entries_def dom_map_of_conv_image_fst image_image)

lemma map_add_map_of_append:
  assumes "fst ` set xs \<inter> fst ` set ys = {}"
  shows "m ++ map_of xs ++ map_of ys = m ++ map_of (xs @ ys)"
proof -
  have "map_of xs ++ map_of ys = map_of ys ++ map_of xs"
    by (rule map_add_comm) (use assms in \<open>simp add: dom_map_of_conv_image_fst\<close>)
  then show ?thesis by (simp add: map_of_append flip: map_add_assoc)
qed

lemma visitAliasGroups_iff:
  "foldE visitAliasGroup st cs = Inr v \<longleftrightarrow> (\<forall>c\<in>set cs. group_ok c) \<and> distinct (map scContentID cs)
     \<and> alSeen st \<inter> scContentID ` set cs = {}
     \<and> distinct (map fst (concat (map claim_entries cs))) \<and> dom (alClaims st) \<inter> fst ` set (concat (map claim_entries cs)) = {}
     \<and> distinct (map fst (concat (map event_entries cs))) \<and> dom (alEvents st) \<inter> fst ` set (concat (map event_entries cs)) = {}
     \<and> v = \<lparr>alSeen = alSeen st \<union> scContentID ` set cs, alClaims = alClaims st ++ map_of (concat (map claim_entries cs)),
           alEvents = alEvents st ++ map_of (concat (map event_entries cs))\<rparr>"
proof (induction cs arbitrary: st)
  case (Cons c cs)
  have fst_claims: "map fst (claim_entries c) = map caClaimID (scClaims c)" and fst_events: "map fst (event_entries c) = map ceEventID (scErasureEvents c)" for c
    by (simp_all add: claim_entries_def event_entries_def comp_def)
  have img: "fst ` set (claim_entries c) = caClaimID ` set (scClaims c)" "fst ` set (event_entries c) = ceEventID ` set (scErasureEvents c)" for c
    by (simp_all add: claim_entries_def event_entries_def image_image)
  let ?A = "concat (map claim_entries cs)" and ?B = "concat (map event_entries cs)"
  have "foldE visitAliasGroup st (c # cs) = Inr v \<longleftrightarrow> (\<exists>st'. visitAliasGroup st c = Inr st' \<and> foldE visitAliasGroup st' cs = Inr v)"
    by (auto split: sum.split)
  also have "\<dots> \<longleftrightarrow> group_ok c \<and> scContentID c \<notin> alSeen st
     \<and> distinct (map caClaimID (scClaims c)) \<and> dom (alClaims st) \<inter> caClaimID ` set (scClaims c) = {}
     \<and> distinct (map ceEventID (scErasureEvents c)) \<and> dom (alEvents st) \<inter> ceEventID ` set (scErasureEvents c) = {}
     \<and> (\<forall>c\<in>set cs. group_ok c) \<and> distinct (map scContentID cs)
     \<and> insert (scContentID c) (alSeen st) \<inter> scContentID ` set cs = {}
     \<and> distinct (map fst ?A) \<and> (dom (alClaims st) \<union> caClaimID ` set (scClaims c)) \<inter> fst ` set ?A = {}
     \<and> distinct (map fst ?B) \<and> (dom (alEvents st) \<union> ceEventID ` set (scErasureEvents c)) \<inter> fst ` set ?B = {}
     \<and> v = \<lparr>alSeen = insert (scContentID c) (alSeen st) \<union> scContentID ` set cs,
           alClaims = alClaims st ++ map_of (claim_entries c) ++ map_of ?A,
           alEvents = alEvents st ++ map_of (event_entries c) ++ map_of ?B\<rparr>"
    unfolding visitAliasGroup_iff Cons.IH by (auto simp: dom_map_of_entries Un_commute)
  finally have *: "foldE visitAliasGroup st (c # cs) = Inr v \<longleftrightarrow> \<dots>" .
  have A: "caClaimID ` set (scClaims c) \<inter> fst ` set ?A = {} \<Longrightarrow>
      alClaims st ++ map_of (claim_entries c) ++ map_of ?A = alClaims st ++ map_of (claim_entries c @ ?A)"
    and B: "ceEventID ` set (scErasureEvents c) \<inter> fst ` set ?B = {} \<Longrightarrow>
      alEvents st ++ map_of (event_entries c) ++ map_of ?B = alEvents st ++ map_of (event_entries c @ ?B)"
    by (simp_all add: map_add_map_of_append img)
  have d: "distinct (map fst (concat (map claim_entries (c # cs)))) \<longleftrightarrow> distinct (map caClaimID (scClaims c))
      \<and> distinct (map fst ?A) \<and> caClaimID ` set (scClaims c) \<inter> fst ` set ?A = {}"
    "distinct (map fst (concat (map event_entries (c # cs)))) \<longleftrightarrow> distinct (map ceEventID (scErasureEvents c))
      \<and> distinct (map fst ?B) \<and> ceEventID ` set (scErasureEvents c) \<inter> fst ` set ?B = {}"
    by (simp_all only: list.map concat.simps map_append distinct_append fst_claims fst_events set_map)
  have s: "fst ` set (concat (map claim_entries (c # cs))) = caClaimID ` set (scClaims c) \<union> fst ` set ?A"
    "fst ` set (concat (map event_entries (c # cs))) = ceEventID ` set (scErasureEvents c) \<union> fst ` set ?B"
    by (simp_all add: image_Un img)
  let ?X = "caClaimID ` set (scClaims c)" and ?Y = "ceEventID ` set (scErasureEvents c)"
  have ids: "scContentID ` set (c # cs) = insert (scContentID c) (scContentID ` set cs)"
    "distinct (map scContentID (c # cs)) \<longleftrightarrow> scContentID c \<notin> scContentID ` set cs \<and> distinct (map scContentID cs)"
    "(\<forall>c\<in>set (c # cs). group_ok c) \<longleftrightarrow> group_ok c \<and> (\<forall>c\<in>set cs. group_ok c)"
    by simp_all
  show ?case
  proof (cases "?X \<inter> fst ` set ?A = {} \<and> ?Y \<inter> fst ` set ?B = {}")
    case True
    then have A': "alClaims st ++ map_of (claim_entries c) ++ map_of ?A = alClaims st ++ map_of (concat (map claim_entries (c # cs)))"
      and B': "alEvents st ++ map_of (event_entries c) ++ map_of ?B = alEvents st ++ map_of (concat (map event_entries (c # cs)))"
      using A B by simp_all
    have seen: "insert (scContentID c) (alSeen st) \<union> scContentID ` set cs = alSeen st \<union> insert (scContentID c) (scContentID ` set cs)"
      by simp
    show ?thesis
      unfolding * d s ids A' B' seen Int_Un_distrib Int_Un_distrib2 Un_empty disjoint_insert insert_disjoint
      by (intro iffI; elim conjE; intro conjI; assumption)
  next
    case False
    then show ?thesis unfolding * d s by blast
  qed
qed auto

text \<open>A lookup in the collected maps is membership.\<close>

lemma claim_lookup:
  assumes "distinct (map fst (concat (map claim_entries cs)))"
  shows "map_of (concat (map claim_entries cs)) k = Some l \<longleftrightarrow>
    (\<exists>c\<in>set cs. \<exists>cl\<in>set (scClaims c). k = caClaimID cl \<and> l = location_of c cl)"
  using map_of_eq_Some_iff [OF assms, of k l] by (auto simp: claim_entries_def)

lemma event_lookup:
  assumes "distinct (map fst (concat (map event_entries cs)))"
  shows "map_of (concat (map event_entries cs)) k = Some e \<longleftrightarrow>
    (\<exists>c\<in>set cs. e \<in> set (scErasureEvents c) \<and> k = ceEventID e)"
  using map_of_eq_Some_iff [OF assms, of k e] by (auto simp: event_entries_def)

lemma visitPair_iff:
  assumes groups: "\<forall>c\<in>set cs. group_ok c" and ids: "distinct (map scContentID cs)"
    and claims: "distinct (map fst (concat (map claim_entries cs)))" and events: "distinct (map fst (concat (map event_entries cs)))"
    and st: "alClaims st = map_of (concat (map claim_entries cs))" "alEvents st = map_of (concat (map event_entries cs))"
  shows "visitPair st seen p = Inr v \<longleftrightarrow> pair_ok cs p \<and> cpEventID p \<notin> dom seen \<and> v = seen(cpEventID p \<mapsto> p)"
proof -
  let ?ids = "cpEventID p \<noteq> '''' \<and> cpClaimID p \<noteq> '''' \<and> cpResidentID p \<noteq> '''' \<and> cpCanonicalCommitID p \<noteq> '''' \<and> cpContentErasureEventID p \<noteq> ''''"
  have "visitPair st seen p = Inr v \<longleftrightarrow> ?ids \<and> cpEventID p \<notin> dom seen \<and> v = seen(cpEventID p \<mapsto> p)
      \<and> (\<exists>l e. alClaims st (cpClaimID p) = Some l \<and> cpResidentID p = clResident l
          \<and> alEvents st (cpContentErasureEventID p) = Some e \<and> ceContentID e = clContentID l
          \<and> cpCanonicalCommitID p = ceCanonicalCommitID e \<and> cpRecordedAt p = ceRecordedAt e \<and> cpRecordedTZ p = ceRecordedTZ e)"
    unfolding visitPair_def Let_def by (auto split: option.split)
  also have "(\<exists>l e. alClaims st (cpClaimID p) = Some l \<and> cpResidentID p = clResident l
          \<and> alEvents st (cpContentErasureEventID p) = Some e \<and> ceContentID e = clContentID l
          \<and> cpCanonicalCommitID p = ceCanonicalCommitID e \<and> cpRecordedAt p = ceRecordedAt e \<and> cpRecordedTZ p = ceRecordedTZ e)
      \<longleftrightarrow> (\<exists>c\<in>set cs. \<exists>cl\<in>set (scClaims c). \<exists>e\<in>set (scErasureEvents c). pair_joins c cl e p)" (is "?L \<longleftrightarrow> ?R")
  proof
    assume ?L
    then obtain c cl c' e where c: "c \<in> set cs" "cl \<in> set (scClaims c)" "cpClaimID p = caClaimID cl"
        and c': "c' \<in> set cs" "e \<in> set (scErasureEvents c')" "cpContentErasureEventID p = ceEventID e"
        and rest: "cpResidentID p = scOwnerResidentID c" "ceContentID e = scContentID c"
          "cpCanonicalCommitID p = ceCanonicalCommitID e" "cpRecordedAt p = ceRecordedAt e" "cpRecordedTZ p = ceRecordedTZ e"
      unfolding st claim_lookup [OF claims] event_lookup [OF events] by (auto simp: location_of_def)
    have "ceContentID e = scContentID c'" using groups c'(1,2) by (auto simp: group_ok_def event_ok_def)
    then have "c' = c" using ids c(1) c'(1) rest(2) by (auto simp: distinct_map inj_on_def)
    then show ?R using c c' rest by (auto simp: pair_joins_def)
  next
    assume ?R
    then obtain c cl e where *: "c \<in> set cs" "cl \<in> set (scClaims c)" "e \<in> set (scErasureEvents c)" "pair_joins c cl e p" by blast
    then have "ceContentID e = scContentID c" using groups by (auto simp: group_ok_def event_ok_def)
    then show ?L using * unfolding st claim_lookup [OF claims] event_lookup [OF events]
      by (intro exI [of _ "location_of c cl"] exI [of _ e]) (auto simp: pair_joins_def location_of_def)
  qed
  finally show ?thesis by (auto simp: pair_ok_def)
qed

lemma pairsOf_sorted:
  "set (pairsOf (slice_stable lt ps) c) = set (pairsOf ps c)" "length (pairsOf (slice_stable lt ps) c) = length (pairsOf ps c)"
proof -
  have "mset (pairsOf (slice_stable lt ps) c) = mset (pairsOf ps c)"
    unfolding pairsOf_def mset_filter by simp
  then show "set (pairsOf (slice_stable lt ps) c) = set (pairsOf ps c)" "length (pairsOf (slice_stable lt ps) c) = length (pairsOf ps c)"
    by (auto dest: mset_eq_setD mset_eq_length)
qed

lemma singleton_conv: "xs = [x] \<longleftrightarrow> length xs = 1 \<and> set xs = {x}"
  by (cases xs) auto

lemma pairsOf_singleton: "pairsOf (slice_stable lt ps) c = [p] \<longleftrightarrow> pairsOf ps c = [p]"
  unfolding singleton_conv pairsOf_sorted by simp

lemma checkGroupState_iff: "checkGroupState (slice_stable lt ps) c = ok \<longleftrightarrow> state_ok ps c"
proof -
  have "checkErasedClaim qs i cl = ok \<longleftrightarrow> \<not> caStatementHashIsSet cl
      \<and> (\<exists>p. pairsOf qs (caClaimID cl) = [p] \<and> cpContentErasureEventID p = i)" for qs i cl
    unfolding checkErasedClaim_def by (auto split: list.split)
  then have erased: "checkErasedClaim (slice_stable lt ps) i cl = ok \<longleftrightarrow> \<not> caStatementHashIsSet cl
      \<and> (\<exists>p. pairsOf ps (caClaimID cl) = [p] \<and> cpContentErasureEventID p = i)" for i cl
    by (simp add: pairsOf_singleton)
  have "pairsOf ps i = [] \<longleftrightarrow> (\<forall>p\<in>set ps. cpClaimID p \<noteq> i)" for i by (auto simp: pairsOf_def filter_empty_conv)
  then have present: "checkPresentClaim (slice_stable lt ps) cl = ok \<longleftrightarrow> caStatementHashIsSet cl
      \<and> (\<forall>p\<in>set ps. cpClaimID p \<noteq> caClaimID cl)" for cl
    using pairsOf_sorted(2) [of lt ps "caClaimID cl"] by (simp add: checkPresentClaim_def flip: length_0_conv)
  show ?thesis
    unfolding checkGroupState_def state_ok_def by (auto simp: erased present split: list.split)
qed

lemma checkClaimStatementAliases_iff: "checkClaimStatementAliases snapshot = ok \<longleftrightarrow> aliases_ok snapshot"
proof -
  let ?contents = "slice_stable (\<lambda>a b. scContentID a < scContentID b) (asContents snapshot)"
  let ?pairs = "slice_stable (\<lambda>a b. cpEventID a < cpEventID b) (asErasureEvents snapshot)"
  let ?st0 = "\<lparr>alSeen = {}, alClaims = Map.empty, alEvents = Map.empty\<rparr>"
  have fst: "map fst (concat (map claim_entries cs)) = concat (map (\<lambda>c. map caClaimID (scClaims c)) cs)"
    "map fst (concat (map event_entries cs)) = concat (map (\<lambda>c. map ceEventID (scErasureEvents c)) cs)" for cs
    by (simp_all add: map_concat claim_entries_def event_entries_def comp_def)
  have pair: "pair_ok ?contents = pair_ok (asContents snapshot)" by (simp add: pair_ok_def fun_eq_iff)
  have pairs: "(\<exists>v. foldE (visitPair st) Map.empty ?pairs = Inr v) \<longleftrightarrow>
      (\<forall>p\<in>set (asErasureEvents snapshot). pair_ok (asContents snapshot) p) \<and> distinct (map cpEventID (asErasureEvents snapshot))"
    if run: "foldE visitAliasGroup ?st0 ?contents = Inr st" for st
  proof -
    have step: "visitPair st seen p = Inr v \<longleftrightarrow> pair_ok ?contents p \<and> cpEventID p \<notin> dom seen \<and> v = seen(cpEventID p \<mapsto> p)" for seen p v
      by (rule visitPair_iff) (use run in \<open>simp_all add: visitAliasGroups_iff\<close>)
    show ?thesis
      using foldE_seen [of "visitPair st" "pair_ok ?contents" cpEventID "\<lambda>p. p" Map.empty ?pairs, OF step] by (auto simp: pair)
  qed
  have "checkClaimStatementAliases snapshot = ok \<longleftrightarrow>
      (\<exists>st. foldE visitAliasGroup ?st0 ?contents = Inr st \<and> (\<exists>v. foldE (visitPair st) Map.empty ?pairs = Inr v)
         \<and> (\<forall>c\<in>set (asContents snapshot). state_ok (asErasureEvents snapshot) c))"
    unfolding checkClaimStatementAliases_def Let_def case_result_ok [where f = "\<lambda>e. e"] checkE_ok_iff checkGroupState_iff by auto
  also have "\<dots> \<longleftrightarrow> aliases_ok snapshot"
    using pairs unfolding aliases_ok_def visitAliasGroups_iff fst by auto
  finally show ?thesis .
qed

section \<open>The two copies of a present blob\<close>

record PresentBlobCopy =
  pbContentID :: string
  pbResidentID :: ID
  pbExpectedHash :: Digest
  pbDatabaseBlob :: string
  pbDeclaredSize :: int
  pbBlobFound :: bool

datatype read_error = ReadCanceled | ReadDeadlineExceeded | ReadFailed string

type_synonym blob_reader = "ID \<Rightarrow> Digest \<Rightarrow> (read_error, string) result"

text \<open>One round; \<open>ctxErr\<close> is what \<^verbatim>\<open>ctx.Err()\<close> returns in it.\<close>

definition checkBlobCopy ::
  "sha256 \<Rightarrow> blob_reader \<Rightarrow> string option \<times> PresentBlobCopy \<Rightarrow> (integrity_error, unit) result" where
  "checkBlobCopy sha read = (\<lambda>(ctxErr, copy).
     case ctxErr of Some e \<Rightarrow> Inl (IntegrityContext e)
     | None \<Rightarrow>
       andThen (reject (pbContentID copy = '''' \<or> ID_IsZero (pbResidentID copy))
         (blobFatal (pbContentID copy) ''database identity is invalid''))
      (andThen (reject (\<not> pbBlobFound copy \<or> pbDeclaredSize copy < 0 \<or> int (length (pbDatabaseBlob copy)) \<noteq> pbDeclaredSize copy
            \<or> HashBlob sha (pbDatabaseBlob copy) \<noteq> pbExpectedHash copy)
         (blobFatal (pbContentID copy) ''database blob is missing or does not match its declared identity''))
      (case read (pbResidentID copy) (pbExpectedHash copy) of
         Inl ReadCanceled \<Rightarrow> Inl (IntegrityContext ''context canceled'')
       | Inl ReadDeadlineExceeded \<Rightarrow> Inl (IntegrityContext ''context deadline exceeded'')
       | Inl (ReadFailed _) \<Rightarrow> Inl (blobFatal (pbContentID copy) ''filesystem blob is missing or unreadable'')
       | Inr bytes \<Rightarrow> reject (bytes \<noteq> pbDatabaseBlob copy)
           (blobFatal (pbContentID copy) ''database and filesystem blob bytes differ''))))"

definition checkPresentBlobCopies ::
  "sha256 \<Rightarrow> (nat \<Rightarrow> string option) \<Rightarrow> (string, PresentBlobCopy list) result \<Rightarrow> blob_reader \<Rightarrow> (integrity_error, unit) result" where
  "checkPresentBlobCopies sha ctxErr loaded read =
     (case loaded of Inl e \<Rightarrow> Inl (IntegrityLoad e)
      | Inr copies \<Rightarrow> checkE (checkBlobCopy sha read) (map (\<lambda>i. (ctxErr i, copies ! i)) [0..<length copies]))"

definition copy_ok :: "sha256 \<Rightarrow> blob_reader \<Rightarrow> PresentBlobCopy \<Rightarrow> bool" where
  "copy_ok sha read copy \<longleftrightarrow> pbContentID copy \<noteq> '''' \<and> pbResidentID copy \<noteq> 0 \<and> pbBlobFound copy
     \<and> int (length (pbDatabaseBlob copy)) = pbDeclaredSize copy \<and> HashBlob sha (pbDatabaseBlob copy) = pbExpectedHash copy
     \<and> read (pbResidentID copy) (pbExpectedHash copy) = Inr (pbDatabaseBlob copy)"

lemma checkBlobCopy_iff: "checkBlobCopy sha read (c, copy) = ok \<longleftrightarrow> c = None \<and> copy_ok sha read copy"
  by (auto simp: checkBlobCopy_def copy_ok_def ID_IsZero_def split: option.split sum.split read_error.split)

lemma checkPresentBlobCopies_iff:
  "checkPresentBlobCopies sha ctxErr (Inr copies) read = ok \<longleftrightarrow>
     (\<forall>i<length copies. ctxErr i = None) \<and> (\<forall>copy\<in>set copies. copy_ok sha read copy)"
  by (auto simp: checkPresentBlobCopies_def checkBlobCopy_iff all_set_conv_all_nth)

section \<open>The minimum check\<close>

record minimum_source =
  msAliases :: "(string, ClaimStatementAliasSnapshot) result"
  msStructure :: "(integrity_error, unit) result option"
  msBlobs :: "(string, PresentBlobCopy list) result option"

definition MinimumChecker_Check ::
  "sha256 \<Rightarrow> (nat \<Rightarrow> string option) option \<Rightarrow> blob_reader option \<Rightarrow> minimum_source option \<Rightarrow> (integrity_error, unit) result" where
  "MinimumChecker_Check sha ctx objects source =
     (case (source, ctx) of
        (None, _) \<Rightarrow> Inl (IntegrityError ''minimum source is required'')
      | (_, None) \<Rightarrow> Inl (IntegrityError ''nil context'')
      | (Some src, Some ctxErr) \<Rightarrow>
          (case msAliases src of
             Inl e \<Rightarrow> Inl (IntegrityLoad e)
           | Inr snapshot \<Rightarrow>
               andThen (checkClaimStatementAliases snapshot)
              (andThen (case msStructure src of None \<Rightarrow> ok | Some r \<Rightarrow> r)
              (case objects of None \<Rightarrow> ok
               | Some read \<Rightarrow>
                   (case msBlobs src of None \<Rightarrow> Inl (IntegrityError ''present blob source is required'')
                    | Some loaded \<Rightarrow> checkPresentBlobCopies sha ctxErr loaded read)))))"

lemma MinimumChecker_Check_iff:
  "MinimumChecker_Check sha (Some ctxErr) (Some read) (Some src) = ok \<longleftrightarrow>
     (\<exists>snapshot copies. msAliases src = Inr snapshot \<and> aliases_ok snapshot \<and> (msStructure src = None \<or> msStructure src = Some ok)
        \<and> msBlobs src = Some (Inr copies) \<and> (\<forall>i<length copies. ctxErr i = None) \<and> (\<forall>copy\<in>set copies. copy_ok sha read copy))"
proof -
  have "checkPresentBlobCopies sha ctxErr loaded read = ok \<longleftrightarrow> (\<exists>copies. loaded = Inr copies
      \<and> (\<forall>i<length copies. ctxErr i = None) \<and> (\<forall>copy\<in>set copies. copy_ok sha read copy))" for loaded
    by (cases loaded) (auto simp: checkPresentBlobCopies_iff, simp add: checkPresentBlobCopies_def)
  then show ?thesis
    unfolding MinimumChecker_Check_def
    by (auto simp: checkClaimStatementAliases_iff split: sum.split option.split)
qed

section \<open>Head metadata\<close>

record HeadMetadata =
  hmHead :: Head
  hmCommitID :: ID
  hmCommittedTZ :: Timezone

definition HeadMetadata_Validate :: "(string \<Rightarrow> bool) \<Rightarrow> HeadMetadata \<Rightarrow> (integrity_error, unit) result" where
  "HeadMetadata_Validate known m =
     andThen (mapError IntegrityCanonical (Head_Validate (hmHead m)))
     (if \<not> Exists (hmHead m)
      then reject (\<not> ID_IsZero (hmCommitID m) \<or> hmCommittedTZ m \<noteq> '''')
        (IntegrityError ''empty head metadata contains commit identity'')
      else andThen (mapError IntegrityCanonical (ID_Validate (hmCommitID m)))
        (mapError IntegrityCanonical (Timezone_Validate known (hmCommittedTZ m))))"

end
