(* ===== verification/Integrity_Scanner.thy ===== *)
theory Integrity_Scanner
  imports Integrity_Minimum
begin

text \<open>
  Integrity findings (\<^verbatim>\<open>internal/integrity/scanner.go\<close>): the catalog of rules, candidates with their
  fingerprint, the scan that deduplicates and orders them, and the command that records them. The
  canonical JSON of a finding is the argument \<open>jcs\<close>, the hash is \<open>sha\<close>.
\<close>

section \<open>Rules\<close>

definition FindingFingerprintDomain :: string where
  "FindingFingerprintDomain = ''mahoroba:integrity-finding:v1''"

definition FindingRequiredProvenanceErased :: string where
  "FindingRequiredProvenanceErased = ''required_provenance_erased''"

definition FindingProvenanceUnresolvable :: string where
  "FindingProvenanceUnresolvable = ''provenance_unresolvable''"

definition FindingCanonicalInvariant :: string where
  "FindingCanonicalInvariant = ''canonical_invariant_violation''"

definition FindingKind_Validate :: "string \<Rightarrow> (integrity_error, unit) result" where
  "FindingKind_Validate kind = reject (kind \<notin> {FindingRequiredProvenanceErased, FindingProvenanceUnresolvable, FindingCanonicalInvariant})
     (ErrInvalidCandidate ''unknown finding kind'')"

definition RuleClaimStatementErased :: string where
  "RuleClaimStatementErased = ''claim_statement_erased''"

definition RuleClaimQualifyingSupportErased :: string where
  "RuleClaimQualifyingSupportErased = ''claim_qualifying_support_erased''"

definition RuleClaimQualifyingSupportUnresolvable :: string where
  "RuleClaimQualifyingSupportUnresolvable = ''claim_qualifying_support_unresolvable''"

definition RuleGenerationInputSourceMissing :: string where
  "RuleGenerationInputSourceMissing = ''generation_input_source_missing''"

definition RuleActiveRequiredRevisionErased :: string where
  "RuleActiveRequiredRevisionErased = ''active_required_revision_erased''"

definition RuleRunningAttemptInputErased :: string where
  "RuleRunningAttemptInputErased = ''running_attempt_input_erased''"

definition RuleCancellationEnvelopeUnresolvable :: string where
  "RuleCancellationEnvelopeUnresolvable = ''mandatory_work_cancellation_envelope_unresolvable''"

record ruleContract =
  rcKind :: string
  rcTargetKind :: string
  rcTargetField :: string
  rcClaimTarget :: bool
  rcSourceRequired :: bool

definition ruleOf :: "string \<Rightarrow> string \<Rightarrow> string \<Rightarrow> bool \<Rightarrow> bool \<Rightarrow> ruleContract" where
  "ruleOf kind target field claim source =
     \<lparr>rcKind = kind, rcTargetKind = target, rcTargetField = field, rcClaimTarget = claim, rcSourceRequired = source\<rparr>"

definition ruleContracts :: "string \<rightharpoonup> ruleContract" where
  "ruleContracts = map_of [
     (RuleClaimStatementErased, ruleOf FindingRequiredProvenanceErased ''claim'' ''statement_content_id'' True True),
     (RuleClaimQualifyingSupportErased, ruleOf FindingRequiredProvenanceErased ''claim'' ''qualifying_support'' True True),
     (RuleClaimQualifyingSupportUnresolvable, ruleOf FindingProvenanceUnresolvable ''claim'' ''qualifying_support'' True False),
     (RuleGenerationInputSourceMissing, ruleOf FindingProvenanceUnresolvable ''generation_input'' ''source'' False False),
     (RuleActiveRequiredRevisionErased, ruleOf FindingCanonicalInvariant ''resident_revision'' ''content_id'' False True),
     (RuleRunningAttemptInputErased, ruleOf FindingCanonicalInvariant ''generation_input'' ''content_id'' False True),
     (RuleCancellationEnvelopeUnresolvable, ruleOf FindingProvenanceUnresolvable ''event'' ''cancellation_envelope'' False False)]"

section \<open>Candidates\<close>

record CandidateInput =
  ciResidentID :: ID
  ciClaimID :: "ID option"
  ciKind :: string
  ciRuleCode :: string
  ciTargetKind :: string
  ciTargetID :: ID
  ciTargetField :: string
  ciSourceContentErasureEventID :: "ID option"
  ciOccurredAt :: Instant
  ciOccurredTZ :: Timezone

definition invalidCandidate :: "string \<Rightarrow> canonical_error \<Rightarrow> integrity_error" where
  "invalidCandidate what e = ErrInvalidCandidate what"

definition CandidateInput_Validate :: "(string \<Rightarrow> bool) \<Rightarrow> CandidateInput \<Rightarrow> (integrity_error, unit) result" where
  "CandidateInput_Validate known input =
     andThen (mapError (invalidCandidate ''resident ID'') (ID_Validate (ciResidentID input)))
    (andThen (mapError (invalidCandidate ''target ID'') (ID_Validate (ciTargetID input)))
    (andThen (FindingKind_Validate (ciKind input))
    (andThen (mapError (invalidCandidate ''occurred timezone'') (Timezone_Validate known (ciOccurredTZ input)))
    (case ruleContracts (ciRuleCode input) of
       None \<Rightarrow> Inl (ErrInvalidCandidate ''unknown rule code'')
     | Some contract \<Rightarrow>
         andThen (reject (ciKind input \<noteq> rcKind contract \<or> ciTargetKind input \<noteq> rcTargetKind contract
             \<or> ciTargetField input \<noteq> rcTargetField contract)
           (ErrInvalidCandidate ''rule does not match finding kind or target tuple''))
        (andThen (if rcClaimTarget contract
           then reject (ciClaimID input \<noteq> Some (ciTargetID input)) (ErrInvalidCandidate ''rule requires claim_id to equal target_id'')
           else reject (ciClaimID input \<noteq> None) (ErrInvalidCandidate ''rule forbids claim_id''))
        (andThen (case ciClaimID input of None \<Rightarrow> ok
            | Some claim \<Rightarrow> mapError (invalidCandidate ''claim ID'') (ID_Validate claim))
        (andThen (reject (rcSourceRequired contract \<noteq> (ciSourceContentErasureEventID input \<noteq> None))
           (ErrInvalidCandidate ''rule has invalid source erasure event presence''))
        (case ciSourceContentErasureEventID input of None \<Rightarrow> ok
            | Some source \<Rightarrow> mapError (invalidCandidate ''source erasure event ID'') (ID_Validate source)))))))))"

text \<open>The fields of the hashed object, in the order of the source.\<close>

record FindingEnvelope =
  fvKind :: string
  fvRuleCode :: string
  fvResidentID :: ID
  fvTargetKind :: string
  fvTargetID :: ID
  fvTargetField :: string
  fvSourceContentErasureEventID :: "ID option"

definition envelopeOf :: "CandidateInput \<Rightarrow> FindingEnvelope" where
  "envelopeOf input = \<lparr>fvKind = ciKind input, fvRuleCode = ciRuleCode input, fvResidentID = ciResidentID input,
     fvTargetKind = ciTargetKind input, fvTargetID = ciTargetID input, fvTargetField = ciTargetField input,
     fvSourceContentErasureEventID = ciSourceContentErasureEventID input\<rparr>"

record finding_env =
  feKnown :: "string \<Rightarrow> bool"
  feSha :: sha256
  feJCS :: "FindingEnvelope \<Rightarrow> (canonical_error, string) result"

definition FingerprintV1 :: "finding_env \<Rightarrow> CandidateInput \<Rightarrow> (integrity_error, Digest) result" where
  "FingerprintV1 env input =
     andThen (CandidateInput_Validate (feKnown env) input)
     (case feJCS env (envelopeOf input) of
        Inl e \<Rightarrow> Inl (IntegrityCanonical e)
      | Inr body \<Rightarrow> mapError IntegrityCanonical (DigestFromBytes (feSha env (FindingFingerprintDomain @ [NUL] @ body))))"

record Candidate = CandidateInput +
  ciFingerprint :: Digest

definition candidateOf :: "CandidateInput \<Rightarrow> Digest \<Rightarrow> Candidate" where
  "candidateOf input fingerprint = CandidateInput.extend input \<lparr>ciFingerprint = fingerprint\<rparr>"

definition inputOf :: "Candidate \<Rightarrow> CandidateInput" where
  "inputOf c = CandidateInput.truncate c"

definition NewCandidate :: "finding_env \<Rightarrow> CandidateInput \<Rightarrow> (integrity_error, Candidate) result" where
  "NewCandidate env input =
     andThen (CandidateInput_Validate (feKnown env) input)
     (case FingerprintV1 env input of Inl e \<Rightarrow> Inl e | Inr fingerprint \<Rightarrow> Inr (candidateOf input fingerprint))"

definition RequiresQuarantine :: "Candidate \<Rightarrow> bool" where
  "RequiresQuarantine c = (case ruleContracts (ciRuleCode c) of None \<Rightarrow> False | Some contract \<Rightarrow> rcClaimTarget contract)"

definition ReadinessBlocking :: "Candidate \<Rightarrow> bool" where
  "ReadinessBlocking c \<longleftrightarrow> ciRuleCode c \<in> {RuleActiveRequiredRevisionErased, RuleRunningAttemptInputErased, RuleCancellationEnvelopeUnresolvable}"

definition Candidate_Validate :: "finding_env \<Rightarrow> Candidate \<Rightarrow> (integrity_error, unit) result" where
  "Candidate_Validate env c =
     (case NewCandidate env (inputOf c) of Inl e \<Rightarrow> Inl e
      | Inr computed \<Rightarrow> reject (ciFingerprint computed \<noteq> ciFingerprint c)
          (ErrInvalidCandidate ''fingerprint does not match the v1 logical tuple''))"

definition SemanticEqual :: "Candidate \<Rightarrow> Candidate \<Rightarrow> bool" where
  "SemanticEqual a b \<longleftrightarrow> ciFingerprint a = ciFingerprint b \<and> ciResidentID a = ciResidentID b \<and> ciClaimID a = ciClaimID b
     \<and> ciKind a = ciKind b \<and> ciRuleCode a = ciRuleCode b \<and> ciTargetKind a = ciTargetKind b \<and> ciTargetID a = ciTargetID b
     \<and> ciTargetField a = ciTargetField b \<and> ciSourceContentErasureEventID a = ciSourceContentErasureEventID b"

section \<open>The scan\<close>

record ScanSnapshot =
  snCapturedHead :: Head
  snCandidates :: "CandidateInput list"

record ScanResult =
  srCapturedHead :: Head
  srCandidates :: "Candidate list"

text \<open>The loop keeps the candidates in order; \<^verbatim>\<open>byFingerprint\<close> finds the one with a given fingerprint.\<close>

definition findFingerprint :: "Candidate list \<Rightarrow> Digest \<Rightarrow> Candidate option" where
  "findFingerprint cs d = List.find (\<lambda>c. ciFingerprint c = d) cs"

definition scanStep :: "finding_env \<Rightarrow> Candidate list \<Rightarrow> CandidateInput \<Rightarrow> (integrity_error, Candidate list) result" where
  "scanStep env cs input =
     (case NewCandidate env input of Inl e \<Rightarrow> Inl e
      | Inr candidate \<Rightarrow>
          (case findFingerprint cs (ciFingerprint candidate) of
             Some old \<Rightarrow> if \<not> SemanticEqual old candidate then Inl ErrCandidateConflict else Inr cs
           | None \<Rightarrow> Inr (cs @ [candidate])))"

definition findingBefore :: "(ID \<Rightarrow> string) \<Rightarrow> Candidate \<Rightarrow> Candidate \<Rightarrow> bool" where
  "findingBefore idString a b \<longleftrightarrow>
     (if idString (ciResidentID a) \<noteq> idString (ciResidentID b) then idString (ciResidentID a) < idString (ciResidentID b)
      else Digest_Hex (ciFingerprint a) < Digest_Hex (ciFingerprint b))"

definition Scanner_Scan ::
  "finding_env \<Rightarrow> (ID \<Rightarrow> string) \<Rightarrow> (string, ScanSnapshot) result \<Rightarrow> (integrity_error, ScanResult) result" where
  "Scanner_Scan env idString captured =
     (case captured of Inl e \<Rightarrow> Inl (IntegrityLoad e)
      | Inr snapshot \<Rightarrow>
          andThen (mapError IntegrityCanonical (Head_Validate (snCapturedHead snapshot)))
          (case foldE (scanStep env) [] (snCandidates snapshot) of Inl e \<Rightarrow> Inl e
           | Inr candidates \<Rightarrow> Inr \<lparr>srCapturedHead = snCapturedHead snapshot,
               srCandidates = slice_stable (findingBefore idString) candidates\<rparr>))"

section \<open>Recording findings\<close>

record PlannedFinding =
  pfFindingID :: ID
  pfCandidate :: Candidate
  pfQuarantineTransitionID :: "ID option"

record RecordFindings =
  rfResidentID :: ID
  rfCapturedHead :: Head
  rfPipelineVersionID :: ID
  rfMemoryStatusPipelineVersionID :: "ID option"
  rfFindings :: "PlannedFinding list"

record recordState =
  rsIDs :: "ID set"
  rsClaimTransitions :: "ID \<rightharpoonup> ID"
  rsRequiresMemoryStatus :: bool

definition planTransition :: "PlannedFinding \<Rightarrow> recordState \<Rightarrow> (integrity_error, recordState) result" where
  "planTransition planned st =
     (let claim = ciTargetID (pfCandidate planned) in
      case pfQuarantineTransitionID planned of
        None \<Rightarrow> Inl (ErrInvalidCandidate ''structural claim finding requires a quarantine transition ID'')
      | Some transition \<Rightarrow>
          andThen (mapError IntegrityCanonical (ID_Validate transition))
          (case rsClaimTransitions st claim of
             Some existing \<Rightarrow>
               if existing \<noteq> transition
               then Inl (ErrInvalidCandidate ''structural rules for one claim must share one quarantine transition'')
               else Inr (st\<lparr>rsRequiresMemoryStatus := True\<rparr>)
           | None \<Rightarrow>
               if transition \<in> rsIDs st then Inl (ErrInvalidCandidate ''duplicate planned mutation ID'')
               else Inr (st\<lparr>rsRequiresMemoryStatus := True, rsIDs := insert transition (rsIDs st),
                          rsClaimTransitions := (rsClaimTransitions st)(claim \<mapsto> transition)\<rparr>)))"

definition recordStep ::
  "finding_env \<Rightarrow> ID \<Rightarrow> recordState \<Rightarrow> PlannedFinding \<Rightarrow> (integrity_error, recordState) result" where
  "recordStep env resident st planned =
     andThen (mapError IntegrityCanonical (ID_Validate (pfFindingID planned)))
    (andThen (reject (pfFindingID planned \<in> rsIDs st) (ErrInvalidCandidate ''duplicate planned finding ID''))
    (andThen (Candidate_Validate env (pfCandidate planned))
    (andThen (reject (ciResidentID (pfCandidate planned) \<noteq> resident) (ErrInvalidCandidate ''candidate belongs to another resident''))
    (let st' = st\<lparr>rsIDs := insert (pfFindingID planned) (rsIDs st)\<rparr> in
     if RequiresQuarantine (pfCandidate planned) then planTransition planned st'
     else andThen (reject (pfQuarantineTransitionID planned \<noteq> None) (ErrInvalidCandidate ''non-claim finding cannot plan a quarantine''))
       (Inr st')))))"

definition RecordFindings_Validate :: "finding_env \<Rightarrow> RecordFindings \<Rightarrow> (integrity_error, unit) result" where
  "RecordFindings_Validate env value =
     andThen (mapError IntegrityCanonical (ID_Validate (rfResidentID value)))
    (andThen (mapError IntegrityCanonical (Head_Validate (rfCapturedHead value)))
    (andThen (mapError IntegrityCanonical (ID_Validate (rfPipelineVersionID value)))
    (andThen (reject (rfFindings value = []) (ErrInvalidCandidate ''at least one finding is required''))
    (case foldE (recordStep env (rfResidentID value))
        \<lparr>rsIDs = {}, rsClaimTransitions = Map.empty, rsRequiresMemoryStatus = False\<rparr> (rfFindings value) of
       Inl e \<Rightarrow> Inl e
     | Inr st \<Rightarrow>
         andThen (reject (rsRequiresMemoryStatus st \<noteq> (rfMemoryStatusPipelineVersionID value \<noteq> None))
           (ErrInvalidCandidate ''structural findings require exactly one memory-status-v1 dependency''))
         (case rfMemoryStatusPipelineVersionID value of None \<Rightarrow> ok
          | Some pipeline \<Rightarrow> mapError IntegrityCanonical (ID_Validate pipeline))))))"

section \<open>What a candidate carries\<close>

lemma candidateOf_sel [simp]:
  "ciFingerprint (candidateOf i d) = d" "ciResidentID (candidateOf i d) = ciResidentID i" "ciClaimID (candidateOf i d) = ciClaimID i"
  "ciKind (candidateOf i d) = ciKind i" "ciRuleCode (candidateOf i d) = ciRuleCode i" "ciTargetKind (candidateOf i d) = ciTargetKind i"
  "ciTargetID (candidateOf i d) = ciTargetID i" "ciTargetField (candidateOf i d) = ciTargetField i"
  "ciSourceContentErasureEventID (candidateOf i d) = ciSourceContentErasureEventID i"
  by (simp_all add: candidateOf_def CandidateInput.defs)

lemma inputOf_candidateOf [simp]: "inputOf (candidateOf i d) = i"
  by (simp add: inputOf_def candidateOf_def CandidateInput.defs)

lemma NewCandidate_iff:
  "NewCandidate env i = Inr c \<longleftrightarrow> CandidateInput_Validate (feKnown env) i = ok
     \<and> (\<exists>body. feJCS env (envelopeOf i) = Inr body \<and> length (feSha env (FindingFingerprintDomain @ [NUL] @ body)) = 32
        \<and> c = candidateOf i (feSha env (FindingFingerprintDomain @ [NUL] @ body)))"
  by (auto simp: NewCandidate_def FingerprintV1_def DigestFromBytes_def case_result_ok [where f = "\<lambda>e. e"] split: sum.split if_splits)

text \<open>A valid candidate names its claim exactly when its rule is about claims.\<close>

lemma valid_claim:
  assumes "CandidateInput_Validate known i = ok"
  shows "ciClaimID i = (if rcClaimTarget (the (ruleContracts (ciRuleCode i))) then Some (ciTargetID i) else None)"
  using assms by (auto simp: CandidateInput_Validate_def split: option.splits if_splits)

lemma same_envelope:
  assumes "NewCandidate env i = Inr c" and "NewCandidate env j = Inr d" and env: "envelopeOf i = envelopeOf j"
  shows "SemanticEqual c d"
proof -
  have fields: "ciKind i = ciKind j" "ciRuleCode i = ciRuleCode j" "ciResidentID i = ciResidentID j" "ciTargetKind i = ciTargetKind j"
    "ciTargetID i = ciTargetID j" "ciTargetField i = ciTargetField j"
    "ciSourceContentErasureEventID i = ciSourceContentErasureEventID j"
    using env by (simp_all add: envelopeOf_def)
  have "ciClaimID i = ciClaimID j"
    using assms(1,2) valid_claim [of "feKnown env" i] valid_claim [of "feKnown env" j] fields by (simp add: NewCandidate_iff)
  then show ?thesis using assms fields by (auto simp: NewCandidate_iff SemanticEqual_def)
qed

section \<open>The scan keeps one candidate per finding\<close>

lemma findFingerprint_Some: "findFingerprint cs d = Some c \<Longrightarrow> c \<in> set cs \<and> ciFingerprint c = d"
  by (auto simp: findFingerprint_def find_Some_iff)

lemma findFingerprint_None: "findFingerprint cs d = None \<longleftrightarrow> d \<notin> ciFingerprint ` set cs"
  by (auto simp: findFingerprint_def find_None_iff)

lemma SemanticEqual_refl [simp]: "SemanticEqual c c"
  by (simp add: SemanticEqual_def)

lemma scan_spec:
  assumes "foldE (scanStep env) [] inputs = Inr cs"
  shows "distinct (map ciFingerprint cs) \<and> (\<forall>c\<in>set cs. \<exists>i\<in>set inputs. NewCandidate env i = Inr c)
    \<and> (\<forall>i\<in>set inputs. \<exists>c'. NewCandidate env i = Inr c' \<and> (\<exists>c\<in>set cs. SemanticEqual c c'))"
  using assms
proof (induction inputs arbitrary: cs rule: rev_induct)
  case (snoc i inputs)
  then obtain cs0 where cs0: "foldE (scanStep env) [] inputs = Inr cs0" "scanStep env cs0 i = Inr cs"
    by (auto simp: foldE_append split: sum.splits)
  then obtain c where c: "NewCandidate env i = Inr c" by (auto simp: scanStep_def split: sum.splits)
  note IH = snoc.IH [OF cs0(1)]
  show ?case
  proof (cases "findFingerprint cs0 (ciFingerprint c)")
    case None
    then have cs: "cs = cs0 @ [c]" using cs0(2) c by (simp add: scanStep_def)
    have "ciFingerprint c \<notin> ciFingerprint ` set cs0" using None findFingerprint_None by blast
    then have new: "distinct (map ciFingerprint cs)" using IH unfolding cs by simp
    have from_input: "\<forall>c\<in>set cs. \<exists>j\<in>set (inputs @ [i]). NewCandidate env j = Inr c" using IH c unfolding cs by auto
    have "\<exists>c'. NewCandidate env j = Inr c' \<and> (\<exists>d\<in>set cs. SemanticEqual d c')" if "j \<in> set inputs" for j
    proof -
      obtain c' d where "NewCandidate env j = Inr c'" "d \<in> set cs0" "SemanticEqual d c'" using IH \<open>j \<in> set inputs\<close> by blast
      then show ?thesis unfolding cs by auto
    qed
    moreover have "c \<in> set cs" by (simp add: cs)
    ultimately show ?thesis using new from_input c by (simp, intro bexI [of _ c]) simp_all
  next
    case (Some old)
    then have "cs = cs0" "SemanticEqual old c" using cs0(2) c by (auto simp: scanStep_def split: if_splits)
    then show ?thesis using IH c findFingerprint_Some [OF Some] by auto
  qed
qed simp

definition fingerprints_injective :: "finding_env \<Rightarrow> CandidateInput list \<Rightarrow> bool" where
  "fingerprints_injective env inputs \<longleftrightarrow> (\<forall>i\<in>set inputs. \<forall>j\<in>set inputs. \<forall>a b. feJCS env (envelopeOf i) = Inr a \<and> feJCS env (envelopeOf j) = Inr b
     \<and> feSha env (FindingFingerprintDomain @ [NUL] @ a) = feSha env (FindingFingerprintDomain @ [NUL] @ b) \<longrightarrow> envelopeOf i = envelopeOf j)"

lemma scan_no_conflict:
  assumes inj: "fingerprints_injective env inputs"
  shows "foldE (scanStep env) [] inputs \<noteq> Inl ErrCandidateConflict"
  using inj
proof (induction inputs rule: rev_induct)
  case (snoc i inputs)
  have inj': "fingerprints_injective env inputs" using snoc.prems by (auto simp: fingerprints_injective_def)
  show ?case
  proof (cases "foldE (scanStep env) [] inputs")
    case (Inl e)
    then show ?thesis using snoc.IH [OF inj'] by (simp add: foldE_append)
  next
    case (Inr cs)
    have "scanStep env cs i \<noteq> Inl ErrCandidateConflict"
    proof (cases "NewCandidate env i")
      case (Inl e)
      have "e \<noteq> ErrCandidateConflict"
        using Inl by (auto simp: NewCandidate_def FingerprintV1_def CandidateInput_Validate_def FindingKind_Validate_def andThen_def reject_def
            mapError_def invalidCandidate_def split: sum.splits option.splits if_splits)
      then show ?thesis using Inl by (simp add: scanStep_def)
    next
      case (Inr c)
      have "SemanticEqual old c" if old: "findFingerprint cs (ciFingerprint c) = Some old" for old
      proof -
        have "old \<in> set cs" "ciFingerprint old = ciFingerprint c" using findFingerprint_Some [OF old] by simp_all
        then obtain j where j: "j \<in> set inputs" "NewCandidate env j = Inr old"
          using scan_spec [OF \<open>foldE (scanStep env) [] inputs = Inr cs\<close>] by blast
        obtain a where a: "feJCS env (envelopeOf j) = Inr a" "ciFingerprint old = feSha env (FindingFingerprintDomain @ [NUL] @ a)"
          using j(2) by (auto simp: NewCandidate_iff)
        obtain b where b: "feJCS env (envelopeOf i) = Inr b" "ciFingerprint c = feSha env (FindingFingerprintDomain @ [NUL] @ b)"
          using Inr by (auto simp: NewCandidate_iff)
        have "j \<in> set (inputs @ [i])" "i \<in> set (inputs @ [i])" using j(1) by simp_all
        then have "envelopeOf j = envelopeOf i"
          using snoc.prems a b \<open>ciFingerprint old = ciFingerprint c\<close> unfolding fingerprints_injective_def by metis
        then show ?thesis using same_envelope [OF j(2) Inr] by simp
      qed
      then show ?thesis using Inr by (auto simp: scanStep_def split: option.split)
    qed
    then show ?thesis using Inr by (auto simp: foldE_append split: sum.split)
  qed
qed simp

section \<open>The identities of a recording\<close>

text \<open>
  What the loop has accepted so far: every identity is used once, and a quarantine transition
  belongs to one claim.
\<close>

definition record_inv :: "PlannedFinding list \<Rightarrow> recordState \<Rightarrow> bool" where
  "record_inv accepted st \<longleftrightarrow>
     distinct (map pfFindingID accepted)
     \<and> rsIDs st = pfFindingID ` set accepted \<union> ran (rsClaimTransitions st)
     \<and> pfFindingID ` set accepted \<inter> ran (rsClaimTransitions st) = {}
     \<and> inj_on (rsClaimTransitions st) (dom (rsClaimTransitions st))
     \<and> (\<forall>f\<in>set accepted. pfFindingID f \<noteq> 0 \<and> (if RequiresQuarantine (pfCandidate f)
          then pfQuarantineTransitionID f \<noteq> None \<and> rsClaimTransitions st (ciTargetID (pfCandidate f)) = pfQuarantineTransitionID f
          else pfQuarantineTransitionID f = None))
     \<and> (rsRequiresMemoryStatus st \<longleftrightarrow> (\<exists>f\<in>set accepted. RequiresQuarantine (pfCandidate f)))"

lemma recordStep_inv:
  assumes inv: "record_inv accepted st" and step: "recordStep env r st f = Inr st'"
  shows "record_inv (accepted @ [f]) st'"
proof -
  have id: "pfFindingID f \<noteq> 0" "pfFindingID f \<notin> rsIDs st" using step by (auto simp: recordStep_def)
  let ?st = "st\<lparr>rsIDs := insert (pfFindingID f) (rsIDs st)\<rparr>"
  show ?thesis
  proof (cases "RequiresQuarantine (pfCandidate f)")
    case False
    then have "st' = ?st" "pfQuarantineTransitionID f = None" using step by (auto simp: recordStep_def Let_def)
    then show ?thesis using inv id False unfolding record_inv_def by auto
  next
    case True
    then have step': "planTransition f ?st = Inr st'" using step by (simp add: recordStep_def Let_def)
    then obtain t where t: "pfQuarantineTransitionID f = Some t" by (cases "pfQuarantineTransitionID f") (auto simp: planTransition_def Let_def)
    let ?claim = "ciTargetID (pfCandidate f)"
    show ?thesis
    proof (cases "rsClaimTransitions st ?claim")
      case (Some old)
      then have "old = t" "st' = ?st\<lparr>rsRequiresMemoryStatus := True\<rparr>"
        using step' t by (auto simp: planTransition_def Let_def split: if_splits)
      then show ?thesis using inv id True t Some unfolding record_inv_def by auto
    next
      case None
      then have fresh: "t \<notin> insert (pfFindingID f) (rsIDs st)"
        and st': "st' = ?st\<lparr>rsRequiresMemoryStatus := True, rsIDs := insert t (insert (pfFindingID f) (rsIDs st)),
          rsClaimTransitions := (rsClaimTransitions st)(?claim \<mapsto> t)\<rparr>"
        using step' t by (auto simp: planTransition_def Let_def split: if_splits)
      have ran: "ran ((rsClaimTransitions st)(?claim \<mapsto> t)) = insert t (ran (rsClaimTransitions st))"
        using None by (simp add: ran_map_upd)
      have "rsClaimTransitions st c \<noteq> Some t" for c using fresh inv by (auto simp: record_inv_def ran_def)
      then have inj: "inj_on ((rsClaimTransitions st)(?claim \<mapsto> t)) (dom ((rsClaimTransitions st)(?claim \<mapsto> t)))"
        using inv None unfolding record_inv_def inj_on_def by (auto simp: dom_def)
      have "rsClaimTransitions st (ciTargetID (pfCandidate g)) \<noteq> None"
        if "g \<in> set accepted" "RequiresQuarantine (pfCandidate g)" for g
        using inv that unfolding record_inv_def by force
      then have "ciTargetID (pfCandidate g) \<noteq> ?claim" if "g \<in> set accepted" "RequiresQuarantine (pfCandidate g)" for g
        using that None by metis
      then show ?thesis using inv id True t fresh inj unfolding record_inv_def st' by (auto simp: ran)
    qed
  qed
qed

lemma RecordFindings_ok:
  assumes "RecordFindings_Validate env value = ok"
  shows "\<exists>st. record_inv (rfFindings value) st
    \<and> (rsRequiresMemoryStatus st \<longleftrightarrow> rfMemoryStatusPipelineVersionID value \<noteq> None)"
proof -
  let ?st0 = "\<lparr>rsIDs = {}, rsClaimTransitions = Map.empty, rsRequiresMemoryStatus = False\<rparr>"
  have main: "record_inv (accepted @ fs) st'"
    if "foldE (recordStep env r) st fs = Inr st'" "record_inv accepted st" for accepted fs r st st'
    using that
  proof (induction fs arbitrary: accepted st)
    case (Cons f fs)
    then obtain st1 where "recordStep env r st f = Inr st1" "foldE (recordStep env r) st1 fs = Inr st'"
      by (auto split: sum.splits)
    then show ?case using Cons.IH [of st1 "accepted @ [f]"] recordStep_inv [OF Cons.prems(2)] by simp
  qed simp
  have "record_inv [] ?st0" by (simp add: record_inv_def)
  moreover obtain st where "foldE (recordStep env (rfResidentID value)) ?st0 (rfFindings value) = Inr st"
      "rsRequiresMemoryStatus st \<longleftrightarrow> rfMemoryStatusPipelineVersionID value \<noteq> None"
    using assms by (auto simp: RecordFindings_Validate_def case_result_ok [where f = "\<lambda>e. e"])
  ultimately show ?thesis using main [where accepted = "[]"] by fastforce
qed

end
