(* ===== verification/Integrity_Properties.thy ===== *)
theory Integrity_Properties
  imports Integrity_Scanner
begin

text \<open>
  What the integrity checks guarantee: the startup check is compared with a declarative reading of
  the stored relation, and scan and recording of findings are characterised by their results.
\<close>

section \<open>The startup check\<close>

text \<open>
  C16: With an object reader at hand the minimum check succeeds exactly when the claim statement
  aliases satisfy their declarative specification, the structural check of the source (if it has
  one) succeeds, the context stays alive, and every present blob has two equal copies: the row in the
  database has the declared size and hash, and the filesystem object has the same bytes. The loops,
  the sorting and the maps of the checker do not influence the verdict.
\<close>

theorem minimum_check_exact:
  "MinimumChecker_Check sha (Some ctxErr) (Some read) (Some src) = ok \<longleftrightarrow>
     (\<exists>snapshot copies. msAliases src = Inr snapshot \<and> aliases_ok snapshot \<and> msStructure src \<in> {None, Some ok}
        \<and> msBlobs src = Some (Inr copies) \<and> (\<forall>i<length copies. ctxErr i = None)
        \<and> (\<forall>copy\<in>set copies. copy_ok sha read copy))"
  unfolding MinimumChecker_Check_iff by auto

lemma aliases_state: "aliases_ok snapshot \<Longrightarrow> c \<in> set (asContents snapshot) \<Longrightarrow> state_ok (asErasureEvents snapshot) c"
  by (simp add: aliases_ok_def)

lemma aliases_pair: "aliases_ok snapshot \<Longrightarrow> p \<in> set (asErasureEvents snapshot) \<Longrightarrow> pair_ok (asContents snapshot) p"
  by (simp add: aliases_ok_def)

lemma alias_states:
  assumes "state_ok pairs c" and "cl \<in> set (scClaims c)"
  shows "caStatementHashIsSet cl \<longleftrightarrow> scErasureState c = ''present''"
    and "scErasureState c = ''present'' \<Longrightarrow> scErasureEvents c = [] \<and> pairsOf pairs (caClaimID cl) = []"
    and "scErasureState c \<noteq> ''present'' \<Longrightarrow> scErasureState c = ''erased''
      \<and> (\<exists>e p. scErasureEvents c = [e] \<and> pairsOf pairs (caClaimID cl) = [p] \<and> cpContentErasureEventID p = ceEventID e)"
  using assms by (auto simp: state_ok_def pairsOf_def filter_empty_conv)

text \<open>
  C15: After a successful startup check the erasure of claims and of contents agree in both
  directions. A claim keeps its statement identity exactly while its content is present, and then
  nothing of it is recorded as erased. An erased content has one erasure event, each of its claims
  has exactly one claim erasure event, and that event has the resident, the commit and the ledger
  time of the content's event; and every claim erasure event is of that form.
\<close>

theorem claim_erasure_paired:
  assumes "checkClaimStatementAliases snapshot = ok"
  shows "(\<forall>c\<in>set (asContents snapshot). \<forall>cl\<in>set (scClaims c).
        (caStatementHashIsSet cl \<longleftrightarrow> scErasureState c = ''present'')
        \<and> (scErasureState c = ''present'' \<longrightarrow> scErasureEvents c = [] \<and> pairsOf (asErasureEvents snapshot) (caClaimID cl) = [])
        \<and> (scErasureState c \<noteq> ''present'' \<longrightarrow> (\<exists>e p. scErasureEvents c = [e] \<and> ceContentID e = scContentID c
            \<and> pairsOf (asErasureEvents snapshot) (caClaimID cl) = [p] \<and> pair_joins c cl e p)))
    \<and> (\<forall>p\<in>set (asErasureEvents snapshot). \<exists>c\<in>set (asContents snapshot). \<exists>cl\<in>set (scClaims c). \<exists>e.
        scErasureState c = ''erased'' \<and> \<not> caStatementHashIsSet cl \<and> scErasureEvents c = [e] \<and> pair_joins c cl e p)"
proof -
  let ?pairs = "asErasureEvents snapshot"
  have good: "aliases_ok snapshot" using assms checkClaimStatementAliases_iff by blast
  note state = aliases_state [OF good]
  have joined: "\<exists>e. scErasureEvents c = [e] \<and> scErasureState c = ''erased'' \<and> \<not> caStatementHashIsSet cl \<and> pair_joins c cl e p"
    if p: "p \<in> set ?pairs" "c \<in> set (asContents snapshot)" "cl \<in> set (scClaims c)" "e' \<in> set (scErasureEvents c)" "pair_joins c cl e' p" for p c cl e'
  proof -
    have "scErasureState c \<noteq> ''present''" using alias_states(2) [OF state [OF p(2)] p(3)] p(4) by auto
    then obtain e where e: "scErasureState c = ''erased''" "scErasureEvents c = [e]" using alias_states(3) [OF state [OF p(2)] p(3)] by blast
    then have "e' = e" using p(4) by simp
    moreover have "\<not> caStatementHashIsSet cl" using alias_states(1) [OF state [OF p(2)] p(3)] \<open>scErasureState c \<noteq> ''present''\<close> by blast
    ultimately show ?thesis using e p(5) by blast
  qed
  have back': "\<exists>c\<in>set (asContents snapshot). \<exists>cl\<in>set (scClaims c). \<exists>e.
        scErasureState c = ''erased'' \<and> \<not> caStatementHashIsSet cl \<and> scErasureEvents c = [e] \<and> pair_joins c cl e p" if p: "p \<in> set ?pairs" for p
    using aliases_pair [OF good p] joined [OF p] unfolding pair_ok_def by metis
  have pair: "\<exists>e p. scErasureEvents c = [e] \<and> ceContentID e = scContentID c
      \<and> pairsOf ?pairs (caClaimID cl) = [p] \<and> pair_joins c cl e p"
    if c: "c \<in> set (asContents snapshot)" "cl \<in> set (scClaims c)" and erased: "scErasureState c \<noteq> ''present''" for c cl
  proof -
    obtain e p where ep: "scErasureEvents c = [e]" "pairsOf ?pairs (caClaimID cl) = [p]" "cpContentErasureEventID p = ceEventID e"
      using alias_states(3) [OF state [OF c(1)] c(2) erased] by blast
    have p: "p \<in> set ?pairs" "cpClaimID p = caClaimID cl"
      using arg_cong [OF ep(2), of set] by (auto simp: pairsOf_def)
    obtain c' cl' e' where joins: "c' \<in> set (asContents snapshot)" "cl' \<in> set (scClaims c')" "e' \<in> set (scErasureEvents c')" "pair_joins c' cl' e' p"
      using aliases_pair [OF good p(1)] unfolding pair_ok_def by blast
    have content: "ceContentID x = scContentID d" if "d \<in> set (asContents snapshot)" "x \<in> set (scErasureEvents d)" for d x
      using good that by (auto simp: aliases_ok_def group_ok_def event_ok_def)
    have e: "e \<in> set (scErasureEvents c)" by (simp add: ep(1))
    have events: "distinct (map fst (concat (map event_entries (asContents snapshot))))"
      using good by (simp add: aliases_ok_def map_concat event_entries_def comp_def)
    have "map_of (concat (map event_entries (asContents snapshot))) (ceEventID e) = Some e"
      "map_of (concat (map event_entries (asContents snapshot))) (ceEventID e) = Some e'"
      unfolding event_lookup [OF events] using c(1) e joins ep(3) by (auto simp: pair_joins_def)
    then have "e' = e" by simp
    then have "scContentID c' = scContentID c" using content [OF c(1) e] content [OF joins(1,3)] by simp
    then have "c' = c" using good c(1) joins(1) by (auto simp: aliases_ok_def distinct_map inj_on_def)
    then have "pair_joins c cl e p" using joins(4) p(2) \<open>e' = e\<close> by (simp add: pair_joins_def)
    then show ?thesis using ep content [OF c(1) e] by blast
  qed
  show ?thesis using alias_states(1,2) [OF state] pair back' by blast
qed

text \<open>A stored relation with one present and one erased statement.\<close>

definition w_claim :: "string \<Rightarrow> bool \<Rightarrow> ClaimStatementAlias" where
  "w_claim i hash = \<lparr>caClaimID = i, caOwnerResidentID = ''r'', caStatementHashIsSet = hash\<rparr>"

definition w_event :: ContentErasureEvent where
  "w_event = \<lparr>ceEventID = ''e'', ceContentID = ''d'', ceCanonicalCommitID = ''k'', ceCommitResidentID = ''r'', ceErasureScope = ''content'',
     ceRecordedAt = 7, ceRecordedTZ = ''UTC'', ceCommitRecordedAt = 7, ceCommitRecordedTZ = ''UTC''\<rparr>"

definition w_pair :: ClaimStatementErasureEvent where
  "w_pair = \<lparr>cpEventID = ''p'', cpClaimID = ''b'', cpResidentID = ''r'', cpCanonicalCommitID = ''k'', cpContentErasureEventID = ''e'',
     cpRecordedAt = 7, cpRecordedTZ = ''UTC''\<rparr>"

definition w_aliases :: ClaimStatementAliasSnapshot where
  "w_aliases = \<lparr>asContents = [
       \<lparr>scContentID = ''d'', scOwnerResidentID = ''r'', scErasureState = ''erased'', scClaims = [w_claim ''b'' False], scErasureEvents = [w_event]\<rparr>,
       \<lparr>scContentID = ''c'', scOwnerResidentID = ''r'', scErasureState = ''present'', scClaims = [w_claim ''a'' True], scErasureEvents = []\<rparr>],
     asErasureEvents = [w_pair]\<rparr>"

lemma w_aliases_ok: "aliases_ok w_aliases"
  by (simp add: aliases_ok_def w_aliases_def group_ok_def claim_ok_def event_ok_def pair_ok_def pair_joins_def state_ok_def pairsOf_def
      w_claim_def w_event_def w_pair_def)

theorem minimum_check_exact_witness:
  "MinimumChecker_Check (\<lambda>_. ''h'') (Some (\<lambda>_. None)) (Some (\<lambda>_ _. Inr ''blob''))
     (Some \<lparr>msAliases = Inr w_aliases, msStructure = None,
       msBlobs = Some (Inr [\<lparr>pbContentID = ''c'', pbResidentID = 1, pbExpectedHash = ''h'', pbDatabaseBlob = ''blob'', pbDeclaredSize = 4, pbBlobFound = True\<rparr>])\<rparr>) = ok"
  unfolding minimum_check_exact by (simp add: w_aliases_ok copy_ok_def HashBlob_def)

theorem claim_erasure_paired_witness:
  "checkClaimStatementAliases w_aliases = ok \<and> length (asErasureEvents w_aliases) = 1
   \<and> (\<exists>c e. c \<in> set (asContents w_aliases) \<and> scErasureEvents c = [e] \<and> pair_joins c (w_claim ''b'' False) e w_pair)"
proof -
  have run: "checkClaimStatementAliases w_aliases = ok" using w_aliases_ok checkClaimStatementAliases_iff by blast
  have "w_pair \<in> set (asErasureEvents w_aliases)" by (simp add: w_aliases_def)
  then obtain c cl e where c: "c \<in> set (asContents w_aliases)" "cl \<in> set (scClaims c)" "scErasureEvents c = [e]" "pair_joins c cl e w_pair"
    using claim_erasure_paired [OF run] by blast
  have "\<forall>c\<in>set (asContents w_aliases). set (scClaims c) \<subseteq> {w_claim ''b'' False, w_claim ''a'' True}" by (simp add: w_aliases_def)
  moreover have "caClaimID cl = ''b''" using c(4) by (simp add: pair_joins_def w_pair_def)
  ultimately have "cl \<in> {w_claim ''b'' False, w_claim ''a'' True}" "caClaimID cl = ''b''" using c(1,2) by blast+
  then have "cl = w_claim ''b'' False" by (auto simp: w_claim_def)
  moreover have "length (asErasureEvents w_aliases) = 1" by (simp add: w_aliases_def)
  ultimately show ?thesis using run c by blast
qed

section \<open>Findings\<close>

interpretation finding_order: sort_order "findingBefore idString" for idString
  by unfold_locales (auto simp: findingBefore_def split: if_splits)

text \<open>
  C35: A scan reports every finding once. Its result is ordered by resident and fingerprint, no two
  candidates share a fingerprint, every candidate is computed from an input of the snapshot and
  validates on its own, and every input is represented by a candidate with the same meaning.
\<close>

theorem scan_exact:
  assumes "Scanner_Scan env idString (Inr snapshot) = Inr result"
  shows "srCapturedHead result = snCapturedHead snapshot
    \<and> distinct (map ciFingerprint (srCandidates result))
    \<and> sorted_wrt (\<lambda>a b. \<not> findingBefore idString b a) (srCandidates result)
    \<and> (\<forall>c\<in>set (srCandidates result). Candidate_Validate env c = ok \<and> (\<exists>i\<in>set (snCandidates snapshot). NewCandidate env i = Inr c))
    \<and> (\<forall>i\<in>set (snCandidates snapshot). \<exists>c'. NewCandidate env i = Inr c' \<and> (\<exists>c\<in>set (srCandidates result). SemanticEqual c c'))"
proof -
  obtain cs where cs: "foldE (scanStep env) [] (snCandidates snapshot) = Inr cs"
      "result = \<lparr>srCapturedHead = snCapturedHead snapshot, srCandidates = slice_stable (findingBefore idString) cs\<rparr>"
    using assms by (auto simp: Scanner_Scan_def case_result_ok [where f = "\<lambda>e. e"])
  note spec = scan_spec [OF cs(1)]
  have valid: "Candidate_Validate env c = ok" if new: "NewCandidate env i = Inr c" for c i
  proof -
    have "inputOf c = i" using new by (auto simp: NewCandidate_iff)
    then show ?thesis using new by (simp add: Candidate_Validate_def)
  qed
  have "\<forall>c\<in>set cs. Candidate_Validate env c = ok" using spec valid by blast
  then show ?thesis using spec finding_order.slice_stable_sorted unfolding cs(2) by simp
qed

lemma foldE_error: "foldE f s xs = Inl e \<Longrightarrow> \<exists>x\<in>set xs. \<exists>s'. f s' x = Inl e"
  by (induction xs arbitrary: s) (auto split: sum.splits)

text \<open>
  A scan fails only for a reason. When the head is valid, every input is a well formed finding
  and the hash does not collide on the findings at hand, the scan returns a result.
\<close>

theorem scan_total:
  assumes "Head_Validate (snCapturedHead snapshot) = ok" and "fingerprints_injective env (snCandidates snapshot)"
    and "\<forall>i\<in>set (snCandidates snapshot). \<exists>c. NewCandidate env i = Inr c"
  shows "\<exists>result. Scanner_Scan env idString (Inr snapshot) = Inr result"
proof (cases "foldE (scanStep env) [] (snCandidates snapshot)")
  case (Inl e)
  then obtain i cs where "i \<in> set (snCandidates snapshot)" "scanStep env cs i = Inl e" using foldE_error by metis
  then have "e = ErrCandidateConflict" using assms(3) by (auto simp: scanStep_def split: option.splits if_splits)
  then show ?thesis using scan_no_conflict [OF assms(2)] Inl by simp
next
  case (Inr cs)
  then show ?thesis using assms(1) by (simp add: Scanner_Scan_def andThen_def mapError_def)
qed

definition w_finding_env :: finding_env where
  "w_finding_env = \<lparr>feKnown = (\<lambda>_. True), feSha = (\<lambda>_. replicate 32 (CHR ''h'')), feJCS = (\<lambda>_. Inr ''{}'')\<rparr>"

definition w_input :: CandidateInput where
  "w_input = \<lparr>ciResidentID = 1, ciClaimID = Some 2, ciKind = FindingRequiredProvenanceErased, ciRuleCode = RuleClaimStatementErased,
     ciTargetKind = ''claim'', ciTargetID = 2, ciTargetField = ''statement_content_id'', ciSourceContentErasureEventID = Some 3,
     ciOccurredAt = 5, ciOccurredTZ = ''UTC''\<rparr>"

definition w_scan :: ScanSnapshot where
  "w_scan = \<lparr>snCapturedHead = \<lparr>Exists = False, HeadCommitSeq = 0, HeadCommittedAt = 0\<rparr>, snCandidates = [w_input, w_input]\<rparr>"

lemma w_new: "NewCandidate w_finding_env w_input = Inr (candidateOf w_input (replicate 32 (CHR ''h'')))"
proof -
  have "\<not> TrimSpace_differs ''UTC''" by (rule visible_not_trimmed) (simp add: visible_char_def byte_def)
  then show ?thesis
    unfolding NewCandidate_iff
    by (simp add: w_finding_env_def w_input_def CandidateInput_Validate_def FindingKind_Validate_def ruleContracts_def ruleOf_def
        ID_Validate_def ID_IsZero_def Timezone_Validate_def ParseTimezone_def RuleClaimStatementErased_def)
qed

theorem scan_total_witness:
  "\<exists>result. Scanner_Scan w_finding_env (\<lambda>_. ''i'') (Inr w_scan) = Inr result"
  by (rule scan_total) (simp_all add: w_scan_def w_new Head_Validate_def fingerprints_injective_def)

theorem scan_exact_witness:
  "\<exists>result. Scanner_Scan w_finding_env (\<lambda>_. ''i'') (Inr w_scan) = Inr result
     \<and> distinct (map ciFingerprint (srCandidates result)) \<and> length (srCandidates result) = 1"
proof -
  let ?c = "candidateOf w_input (replicate 32 (CHR ''h''))"
  have run: "Scanner_Scan w_finding_env (\<lambda>_. ''i'') (Inr w_scan) = Inr \<lparr>srCapturedHead = snCapturedHead w_scan, srCandidates = [?c]\<rparr>"
    by (simp add: Scanner_Scan_def w_scan_def scanStep_def w_new findFingerprint_def Head_Validate_def andThen_def mapError_def slice_stable_def)
  from run scan_exact [OF run] show ?thesis by simp
qed

text \<open>
  A recording of findings that validates uses every identity once: finding identities are
  distinct and differ from all transition identities. A finding about a claim plans a quarantine and
  no other does; two findings about claims share a transition exactly when they are about the same
  claim; and the memory status pipeline is named exactly when a quarantine is planned.
\<close>

theorem record_findings_identities:
  assumes "RecordFindings_Validate env value = ok"
  shows "distinct (map pfFindingID (rfFindings value))
    \<and> (\<forall>f\<in>set (rfFindings value). RequiresQuarantine (pfCandidate f) \<longleftrightarrow> pfQuarantineTransitionID f \<noteq> None)
    \<and> (\<forall>f\<in>set (rfFindings value). \<forall>g\<in>set (rfFindings value). \<forall>t. pfQuarantineTransitionID f = Some t \<longrightarrow>
         pfFindingID g \<noteq> t \<and> (pfQuarantineTransitionID g \<noteq> None \<longrightarrow>
           (pfQuarantineTransitionID g = Some t \<longleftrightarrow> ciTargetID (pfCandidate f) = ciTargetID (pfCandidate g))))
    \<and> ((\<exists>f\<in>set (rfFindings value). RequiresQuarantine (pfCandidate f)) \<longleftrightarrow> rfMemoryStatusPipelineVersionID value \<noteq> None)"
proof -
  obtain st where inv: "record_inv (rfFindings value) st"
    and needs: "rsRequiresMemoryStatus st \<longleftrightarrow> rfMemoryStatusPipelineVersionID value \<noteq> None"
    using RecordFindings_ok [OF assms] by blast
  let ?T = "rsClaimTransitions st"
  have lookup: "RequiresQuarantine (pfCandidate f)" "?T (ciTargetID (pfCandidate f)) = Some t"
    if "f \<in> set (rfFindings value)" "pfQuarantineTransitionID f = Some t" for f t
    using inv that unfolding record_inv_def by (metis option.distinct(1))+
  have quarantine: "RequiresQuarantine (pfCandidate f) \<longleftrightarrow> pfQuarantineTransitionID f \<noteq> None" if "f \<in> set (rfFindings value)" for f
    using inv that unfolding record_inv_def by metis
  have sep: "pfFindingID g \<noteq> t" if "f \<in> set (rfFindings value)" "g \<in> set (rfFindings value)" "pfQuarantineTransitionID f = Some t" for f g t
    using inv ranI [of ?T, OF lookup(2) [OF that(1,3)]] that(2) unfolding record_inv_def by blast
  have "pfQuarantineTransitionID g = Some t \<longleftrightarrow> ciTargetID (pfCandidate f) = ciTargetID (pfCandidate g)"
    if f: "f \<in> set (rfFindings value)" "pfQuarantineTransitionID f = Some t" and g: "g \<in> set (rfFindings value)" "pfQuarantineTransitionID g \<noteq> None" for f g t
  proof -
    obtain u where u: "pfQuarantineTransitionID g = Some u" using g(2) by blast
    have inj: "inj_on ?T (dom ?T)" using inv unfolding record_inv_def by blast
    show ?thesis using lookup(2) [OF f] lookup(2) [OF g(1) u] u inj_onD [OF inj, of "ciTargetID (pfCandidate f)" "ciTargetID (pfCandidate g)"] by auto
  qed
  note shared = this
  have "distinct (map pfFindingID (rfFindings value))"
    and "rsRequiresMemoryStatus st \<longleftrightarrow> (\<exists>f\<in>set (rfFindings value). RequiresQuarantine (pfCandidate f))"
    using inv by (simp_all add: record_inv_def)
  then show ?thesis
  proof (intro conjI ballI allI impI)
    fix f g t
    assume f: "f \<in> set (rfFindings value)" "pfQuarantineTransitionID f = Some t" and g: "g \<in> set (rfFindings value)"
    show "pfFindingID g \<noteq> t" by (rule sep [OF f(1) g f(2)])
    show "pfQuarantineTransitionID g = Some t \<longleftrightarrow> ciTargetID (pfCandidate f) = ciTargetID (pfCandidate g)"
      if "pfQuarantineTransitionID g \<noteq> None" by (rule shared [OF f g that])
  qed (use quarantine needs in simp_all)
qed

theorem record_findings_identities_witness:
  "distinct (map pfFindingID [\<lparr>pfFindingID = 10, pfCandidate = candidateOf w_input (replicate 32 (CHR ''h'')), pfQuarantineTransitionID = Some 11\<rparr>,
      \<lparr>pfFindingID = 12, pfCandidate = candidateOf w_input (replicate 32 (CHR ''h'')), pfQuarantineTransitionID = Some 11\<rparr>])"
proof -
  let ?c = "candidateOf w_input (replicate 32 (CHR ''h''))"
  let ?v = "\<lparr>rfResidentID = 1, rfCapturedHead = \<lparr>Exists = False, HeadCommitSeq = 0, HeadCommittedAt = 0\<rparr>, rfPipelineVersionID = 4, rfMemoryStatusPipelineVersionID = Some 5,
    rfFindings = [\<lparr>pfFindingID = 10, pfCandidate = ?c, pfQuarantineTransitionID = Some 11\<rparr>, \<lparr>pfFindingID = 12, pfCandidate = ?c, pfQuarantineTransitionID = Some 11\<rparr>]\<rparr>"
  have valid: "Candidate_Validate w_finding_env ?c = ok" by (simp add: Candidate_Validate_def w_new)
  have quarantine: "RequiresQuarantine ?c"
    by (simp add: RequiresQuarantine_def w_input_def ruleContracts_def ruleOf_def)
  have sel: "ciResidentID ?c = 1" "ciTargetID ?c = 2" by (simp_all add: w_input_def)
  have "RecordFindings_Validate w_finding_env ?v = ok"
    by (simp add: RecordFindings_Validate_def recordStep_def planTransition_def valid quarantine sel ID_Validate_def ID_IsZero_def Head_Validate_def
        andThen_def mapError_def reject_def del: candidateOf_sel)
  from record_findings_identities [OF this] show ?thesis by simp
qed

end
