(* ===== verification/Erasure_Closure.thy ===== *)
theory Erasure_Closure
  imports Canonical_Ledger
begin

text \<open>
  The target closure of \<^verbatim>\<open>internal/erasure/planner.go\<close>: which contents an erasure plan must erase. Roots
  are admitted or blocked; every admitted target is followed along its lineage edges; a child with
  the same bytes becomes a target with its depth and parent, any other child becomes a question for
  review, and what may not be followed becomes a blocker. The hash that names an impact
  (\<^verbatim>\<open>ImpactID\<close>, a SHA-256 of canonical JSON) is the argument \<open>impactID\<close>; the text of an identifier is
  \<open>idString\<close>.
\<close>

section \<open>Data\<close>

record ContentSnapshot =
  cnContentID :: ID
  cnResidentID :: ID
  cnContentClass :: string
  cnErasurePolicy :: string
  cnErasureState :: string
  cnCommitment :: Digest
  cnBlobHash :: "Digest option"
  cnSQLiteBlobValid :: bool
  cnFilesystemBlobValid :: bool
  cnSQLiteBlobStatus :: string
  cnFilesystemBlobStatus :: string

record LineageEdge =
  leParentContentID :: ID
  leChildContentID :: ID
  leRunID :: ID
  leSameLogicalBlob :: bool
  leValid :: bool

record RunningWork =
  rwRunID :: ID
  rwPurpose :: string
  rwContentIDs :: "ID list"

record Blocker =
  bkCode :: string
  bkTargetKind :: string
  bkTargetID :: "string option"
  bkTargetField :: "string option"
  bkRequiredActionCodes :: "string list"

record Impact =
  imImpactID :: string
  imRuleID :: string
  imReferrerKind :: string
  imReferrerID :: string
  imReferrerField :: string
  imClassification :: string
  imActions :: "string list"
  imDecisionMode :: string
  imCandidateContentID :: "string option"
  imDecision :: "string option"

definition ScopeContent :: string where
  "ScopeContent = ''content''"

definition ScopeResident :: string where
  "ScopeResident = ''resident''"

record targetWork =
  twContent :: ContentSnapshot
  twDepth :: nat
  twParent :: "ID option"

section \<open>Blockers\<close>

record blockerContract =
  bcKind :: string
  bcField :: string
  bcGlobal :: bool
  bcActions :: "string list"

definition contract :: "string \<Rightarrow> string \<Rightarrow> bool \<Rightarrow> string list \<Rightarrow> blockerContract" where
  "contract kind field global actions = \<lparr>bcKind = kind, bcField = field, bcGlobal = global, bcActions = actions\<rparr>"

definition blockerCatalog :: "string \<rightharpoonup> blockerContract" where
  "blockerCatalog = map_of [
     (''actor_not_owner_human'', contract ''resident'' ''owner_principal_id'' False []),
     (''blob_hash_mismatch'', contract ''content'' '''' False [''repair_static_design'']),
     (''blob_missing'', contract ''content'' '''' False [''repair_static_design'']),
     (''cross_resident_reference'', contract ''lineage'' ''cross_resident_reference'' False [''repair_static_design'']),
     (''invalid_run_product'', contract ''generation_run'' ''product_set'' False [''repair_static_design'']),
     (''lineage_cycle'', contract ''lineage'' ''cycle'' False [''repair_static_design'']),
     (''mandatory_work_present'', contract ''resident'' ''mandatory_work'' False []),
     (''partial_retry_state'', contract ''plan'' ''retry_state'' True [''repair_static_design'']),
     (''plan_state_changed'', contract ''plan'' ''canonical_state'' True [''replan_erasure'']),
     (''planned_effect_mismatch'', contract ''plan'' ''planned_effects'' True [''repair_static_design'']),
     (''preexisting_integrity_break'', contract ''claim'' ''provenance'' False [''run_integrity_scan'']),
     (''resident_only_in_content_scope'', contract ''content'' ''erasure_policy'' False [''replan_erasure'']),
     (''review_incomplete'', contract ''plan'' ''review_decisions'' True []),
     (''running_attempt'', contract ''generation_run'' ''attempt'' False [''replan_erasure'', ''run_recovery_terminalize'']),
     (''target_already_erased'', contract ''content'' ''erasure_state'' False [''replan_erasure'']),
     (''target_missing'', contract ''content'' ''existence'' False [''replan_erasure'']),
     (''transaction_size_unsupported'', contract ''resident'' ''effective_targets'' False [''repair_static_design'']),
     (''unknown_lineage_source'', contract ''generation_input'' ''source'' False [''repair_static_design''])]"

definition makeBlocker :: "string \<Rightarrow> string \<Rightarrow> string \<Rightarrow> string list option \<Rightarrow> Blocker" where
  "makeBlocker code ident field actions =
     (let c = (case blockerCatalog code of Some c \<Rightarrow> c | None \<Rightarrow> contract '''' '''' False [])
      in \<lparr>bkCode = code, bkTargetKind = bcKind c, bkTargetID = (if bcGlobal c then None else Some ident),
          bkTargetField = Some field,
          bkRequiredActionCodes = sort (case actions of Some as \<Rightarrow> as | None \<Rightarrow> bcActions c)\<rparr>)"

definition validateBlocker :: "Blocker \<Rightarrow> bool" where
  "validateBlocker value =
     (case (blockerCatalog (bkCode value), bkTargetField value) of
        (Some c, Some field) \<Rightarrow>
          bkTargetKind value = bcKind c
          \<and> (if bkCode value = ''blob_hash_mismatch'' \<or> bkCode value = ''blob_missing''
             then field = ''sqlite_blob'' \<or> field = ''filesystem_blob''
             else field = bcField c)
          \<and> bcGlobal c = (bkTargetID value = None)
          \<and> (if bkCode value = ''mandatory_work_present''
             then bkRequiredActionCodes value = [''archive_resident'', ''replan_erasure'', ''run_recovery_terminalize'']
               \<or> bkRequiredActionCodes value = [''replan_erasure'', ''run_recovery_terminalize'']
             else bkRequiredActionCodes value = bcActions c)
      | _ \<Rightarrow> False)"

section \<open>Roots\<close>

record closure_env =
  xeScope :: string
  xeResidentID :: ID
  xeContents :: "ContentSnapshot list"
  xeIDString :: "ID \<Rightarrow> string"
  xeImpactID :: "Impact \<Rightarrow> string"

definition contentByID :: "ContentSnapshot list \<Rightarrow> ID \<rightharpoonup> ContentSnapshot" where
  "contentByID contents = foldl (\<lambda>m c. m(cnContentID c \<mapsto> c)) Map.empty contents"

definition residentRoots :: "closure_env \<Rightarrow> ID list \<Rightarrow> ID list" where
  "residentRoots env roots =
     (if xeScope env = ScopeResident
      then slice_stable (\<lambda>a b. xeIDString env a < xeIDString env b)
        (roots @ map cnContentID (filter (\<lambda>c. cnResidentID c = xeResidentID env \<and> cnErasureState c = ''present'')
           (xeContents env)))
      else roots)"

record closureState =
  csWork :: "ID \<rightharpoonup> targetWork"
  csQueue :: "ID list"
  csBlockers :: "Blocker list"
  csImpacts :: "Impact list"

definition block :: "closureState \<Rightarrow> string \<Rightarrow> string \<Rightarrow> string \<Rightarrow> closureState" where
  "block st code ident field = st\<lparr>csBlockers := csBlockers st @ [makeBlocker code ident field None]\<rparr>"

definition admitRoot :: "closure_env \<Rightarrow> closureState \<Rightarrow> ID \<Rightarrow> closureState" where
  "admitRoot env st root =
     (let text = xeIDString env root
      in case contentByID (xeContents env) root of
        None \<Rightarrow> block st ''target_missing'' text ''existence''
      | Some c \<Rightarrow>
          if cnResidentID c \<noteq> xeResidentID env
          then block st ''cross_resident_reference'' text ''cross_resident_reference''
          else if cnErasureState c \<noteq> ''present'' then block st ''target_already_erased'' text ''erasure_state''
          else if xeScope env = ScopeContent \<and> cnErasurePolicy c \<noteq> ''independent''
          then block st ''resident_only_in_content_scope'' text ''erasure_policy''
          else st\<lparr>csWork := (csWork st)(root \<mapsto> \<lparr>twContent = c, twDepth = 0, twParent = None\<rparr>),
                  csQueue := csQueue st @ [root]\<rparr>)"

section \<open>Lineage\<close>

definition edgeBefore :: "(ID \<Rightarrow> string) \<Rightarrow> LineageEdge \<Rightarrow> LineageEdge \<Rightarrow> bool" where
  "edgeBefore idString a b \<longleftrightarrow>
     (if idString (leParentContentID a) \<noteq> idString (leParentContentID b)
      then idString (leParentContentID a) < idString (leParentContentID b)
      else if idString (leChildContentID a) \<noteq> idString (leChildContentID b)
      then idString (leChildContentID a) < idString (leChildContentID b)
      else idString (leRunID a) < idString (leRunID b))"

definition withImpactID :: "closure_env \<Rightarrow> Impact \<Rightarrow> Impact" where
  "withImpactID env impact = impact\<lparr>imImpactID := xeImpactID env impact\<rparr>"

definition nonexactImpact :: "closure_env \<Rightarrow> ID \<Rightarrow> Impact" where
  "nonexactImpact env child = withImpactID env
     \<lparr>imImpactID = '''', imRuleID = ''explicit_lineage_nonexact_bytes_v1'', imReferrerKind = ''content_object'',
      imReferrerID = xeIDString env child, imReferrerField = ''derived_bytes'', imClassification = ''needs_review'',
      imActions = [], imDecisionMode = ''content_candidate'', imCandidateContentID = Some (xeIDString env child),
      imDecision = None\<rparr>"

text \<open>A target that was seen before: a shorter way to it, or an equally short one from a smaller parent.\<close>

definition relax :: "closure_env \<Rightarrow> ID \<Rightarrow> nat \<Rightarrow> closureState \<Rightarrow> ID \<Rightarrow> targetWork \<Rightarrow> closureState" where
  "relax env parent newDepth st child existing =
     (if newDepth < twDepth existing
      then st\<lparr>csWork := (csWork st)(child \<mapsto> existing\<lparr>twDepth := newDepth, twParent := Some parent\<rparr>),
              csQueue := csQueue st @ [child]\<rparr>
      else if newDepth = twDepth existing
              \<and> (case twParent existing of None \<Rightarrow> False | Some p \<Rightarrow> xeIDString env parent < xeIDString env p)
      then st\<lparr>csWork := (csWork st)(child \<mapsto> existing\<lparr>twDepth := newDepth, twParent := Some parent\<rparr>)\<rparr>
      else st)"

definition followChild :: "closure_env \<Rightarrow> ID \<Rightarrow> nat \<Rightarrow> closureState \<Rightarrow> LineageEdge \<Rightarrow> ContentSnapshot \<Rightarrow> closureState" where
  "followChild env parent depth st edge child =
     (let text = xeIDString env (cnContentID child)
      in if cnResidentID child \<noteq> xeResidentID env
         then block st ''cross_resident_reference'' text ''cross_resident_reference''
         else if cnErasureState child \<noteq> ''present'' then block st ''target_already_erased'' text ''erasure_state''
         else if xeScope env = ScopeContent \<and> cnErasurePolicy child \<noteq> ''independent''
         then block st ''resident_only_in_content_scope'' text ''erasure_policy''
         else case csWork st (cnContentID child) of
           Some existing \<Rightarrow>
             if leSameLogicalBlob edge then relax env parent (depth + 1) st (cnContentID child) existing else st
         | None \<Rightarrow>
             if leSameLogicalBlob edge
             then st\<lparr>csWork := (csWork st)(cnContentID child \<mapsto>
                       \<lparr>twContent = child, twDepth = depth + 1, twParent = Some parent\<rparr>),
                     csQueue := csQueue st @ [cnContentID child]\<rparr>
             else st\<lparr>csImpacts := csImpacts st @ [nonexactImpact env (cnContentID child)]\<rparr>)"

text \<open>
  One edge in the loop over the lineage; \<open>parent\<close> is the target at the cursor. A target that is not in
  the work map does not occur: every queued content is.
\<close>

definition edgeStep :: "closure_env \<Rightarrow> ID \<Rightarrow> closureState \<Rightarrow> LineageEdge \<Rightarrow> closureState" where
  "edgeStep env parent st edge =
     (if leParentContentID edge \<noteq> parent then st
      else case csWork st parent of None \<Rightarrow> st
      | Some pw \<Rightarrow>
          (case contentByID (xeContents env) (leChildContentID edge) of
             None \<Rightarrow> block st ''unknown_lineage_source'' (xeIDString env (leRunID edge)) ''source''
           | Some child \<Rightarrow>
               if \<not> leValid edge then block st ''unknown_lineage_source'' (xeIDString env (leRunID edge)) ''source''
               else followChild env parent (twDepth pw) st edge child))"

text \<open>The whole round of the cursor: the edges of the target at the head of the queue.\<close>

definition closureRound :: "closure_env \<Rightarrow> LineageEdge list \<Rightarrow> ID \<Rightarrow> closureState \<Rightarrow> closureState" where
  "closureRound env lineage parent st = foldl (edgeStep env parent) st lineage"

section \<open>The loop ends\<close>

lemma contentByID_snoc: "contentByID (cs @ [c]) = (contentByID cs)(cnContentID c \<mapsto> c)"
  by (simp add: contentByID_def)

lemma contentByID_key: "contentByID cs i = Some c \<Longrightarrow> cnContentID c = i \<and> c \<in> set cs"
proof (induction cs rule: rev_induct)
  case Nil
  then show ?case by (simp add: contentByID_def)
next
  case (snoc c' cs)
  then show ?case by (auto simp: contentByID_snoc split: if_splits)
qed

lemma finite_contentByID [simp]: "finite (dom (contentByID cs))"
proof (induction cs rule: rev_induct)
  case Nil
  then show ?case by (simp add: contentByID_def)
qed (simp add: contentByID_snoc)

definition missing :: "closure_env \<Rightarrow> closureState \<Rightarrow> nat" where
  "missing env st = card {i \<in> dom (contentByID (xeContents env)). csWork st i = None}"

definition depth_of :: "closureState \<Rightarrow> ID \<Rightarrow> nat" where
  "depth_of st i = (case csWork st i of None \<Rightarrow> 0 | Some w \<Rightarrow> twDepth w)"

definition depths :: "closure_env \<Rightarrow> closureState \<Rightarrow> nat" where
  "depths env st = sum (depth_of st) (dom (contentByID (xeContents env)))"

text \<open>A step either leaves the queue and the two measures alone or makes the pair of measures smaller.\<close>

definition smaller :: "closure_env \<Rightarrow> closureState \<Rightarrow> closureState \<Rightarrow> bool" where
  "smaller env st' st \<longleftrightarrow> missing env st' < missing env st
     \<or> missing env st' = missing env st \<and> depths env st' < depths env st"

definition stalls :: "closure_env \<Rightarrow> closureState \<Rightarrow> closureState \<Rightarrow> bool" where
  "stalls env st' st \<longleftrightarrow> missing env st' = missing env st \<and> depths env st' = depths env st
     \<and> csQueue st' = csQueue st"

lemma smaller_new:
  assumes "i \<in> dom (contentByID (xeContents env))" and "csWork st i = None" and "csWork st' = (csWork st)(i \<mapsto> w)"
  shows "smaller env st' st"
proof -
  have "{j \<in> dom (contentByID (xeContents env)). csWork st' j = None}
      = {j \<in> dom (contentByID (xeContents env)). csWork st j = None} - {i}"
    using assms(3) by auto
  then have "missing env st' < missing env st"
    unfolding missing_def using assms(1,2) by (simp only:, intro card_Diff1_less) auto
  then show ?thesis by (simp add: smaller_def)
qed

lemma missing_same:
  assumes "csWork st i = Some v" and "csWork st' = (csWork st)(i \<mapsto> w)"
  shows "missing env st' = missing env st"
proof -
  have "csWork st' j = None \<longleftrightarrow> csWork st j = None" for j using assms by simp
  then show ?thesis by (simp add: missing_def)
qed

lemma depths_upd:
  assumes "i \<in> dom (contentByID (xeContents env))" and "csWork st i = Some v" and "csWork st' = (csWork st)(i \<mapsto> w)"
  shows "depths env st' + twDepth v = depths env st + twDepth w"
proof -
  let ?D = "dom (contentByID (xeContents env))"
  have "sum (depth_of st') (?D - {i}) = sum (depth_of st) (?D - {i})"
    using assms(3) by (intro sum.cong) (auto simp: depth_of_def)
  then show ?thesis
    using assms sum.remove [of ?D i "depth_of st"] sum.remove [of ?D i "depth_of st'"]
    by (simp add: depths_def depth_of_def)
qed

lemma relax_measure:
  assumes "i \<in> dom (contentByID (xeContents env))" and "csWork st i = Some v"
  shows "smaller env (relax env parent d st i v) st \<or> stalls env (relax env parent d st i v) st"
proof -
  define st' where "st' = relax env parent d st i v"
  consider "st' = st" | w where "csWork st' = (csWork st)(i \<mapsto> w)" "twDepth w < twDepth v"
    | w where "csWork st' = (csWork st)(i \<mapsto> w)" "twDepth w = twDepth v" "csQueue st' = csQueue st"
    by (atomize_elim, auto simp: st'_def relax_def)
  then show ?thesis
  proof cases
    case 2
    then show ?thesis
      using missing_same [OF assms(2) 2(1)] depths_upd [OF assms 2(1)] by (auto simp: smaller_def simp flip: st'_def)
  next
    case 3
    then show ?thesis
      using missing_same [OF assms(2) 3(1)] depths_upd [OF assms 3(1)] by (auto simp: stalls_def simp flip: st'_def)
  qed (simp add: stalls_def flip: st'_def)
qed

lemma edgeStep_measure: "smaller env (edgeStep env p st e) st \<or> stalls env (edgeStep env p st e) st"
proof -
  have quiet: "stalls env (st\<lparr>csBlockers := b\<rparr>) st" "stalls env (st\<lparr>csImpacts := m\<rparr>) st" "stalls env st st" for b m
    by (simp_all add: stalls_def missing_def depths_def depth_of_def)
  have blocked: "stalls env (block st code ident field) st" for code ident field
    using quiet by (simp add: block_def)
  have "smaller env (followChild env p d st e child) st \<or> stalls env (followChild env p d st e child) st"
    if child: "contentByID (xeContents env) (leChildContentID e) = Some child" for d child
  proof -
    have i: "cnContentID child \<in> dom (contentByID (xeContents env))" using contentByID_key [OF child] child by auto
    show ?thesis
    proof (cases "csWork st (cnContentID child)")
      case None
      then show ?thesis
        using blocked quiet smaller_new [OF i None] by (simp add: followChild_def Let_def)
    next
      case (Some v)
      then show ?thesis
        using blocked quiet relax_measure [OF i Some] by (simp add: followChild_def Let_def)
    qed
  qed
  then show ?thesis
    using blocked quiet by (simp add: edgeStep_def split: option.split)
qed

lemma closureRound_measure:
  "smaller env (closureRound env lineage p st) st \<or> stalls env (closureRound env lineage p st) st"
proof (induction lineage rule: rev_induct)
  case Nil
  then show ?case by (simp add: closureRound_def stalls_def)
next
  case (snoc e es)
  then show ?case
    using edgeStep_measure [of env p "closureRound env es p st" e]
    by (auto simp: closureRound_def smaller_def stalls_def)
qed

function closureLoop :: "closure_env \<Rightarrow> LineageEdge list \<Rightarrow> closureState \<Rightarrow> closureState" where
  "closureLoop env lineage st =
     (case csQueue st of
        [] \<Rightarrow> st
      | parent # rest \<Rightarrow> closureLoop env lineage (closureRound env lineage parent (st\<lparr>csQueue := rest\<rparr>)))"
  by pat_completeness auto
termination
proof (relation "inv_image (less_than <*lex*> less_than <*lex*> less_than)
    (\<lambda>(env, lineage, st). (missing env st, depths env st, length (csQueue st)))")
  fix env :: closure_env and lineage and st :: closureState and parent rest
  assume queue: "csQueue st = parent # rest"
  define st0 where "st0 = st\<lparr>csQueue := rest\<rparr>"
  have "missing env st0 = missing env st" and "depths env st0 = depths env st" and "csQueue st0 = rest"
    by (simp_all add: st0_def missing_def depths_def depth_of_def)
  then show "((env, lineage, closureRound env lineage parent (st\<lparr>csQueue := rest\<rparr>)), env, lineage, st)
      \<in> inv_image (less_than <*lex*> less_than <*lex*> less_than)
          (\<lambda>(env, lineage, st). (missing env st, depths env st, length (csQueue st)))"
    using closureRound_measure [of env lineage parent st0] queue
    by (auto simp: smaller_def stalls_def simp flip: st0_def)
qed auto

declare closureLoop.simps [simp del]

section \<open>What the loop computes\<close>

text \<open>Contents that may be erased under the request, and the edges an erasure follows.\<close>

lemma closureLoop_Nil: "csQueue st = [] \<Longrightarrow> closureLoop env lineage st = st"
  by (subst closureLoop.simps) simp

lemma closureLoop_Cons: "csQueue st = parent # rest \<Longrightarrow>
    closureLoop env lineage st = closureLoop env lineage (closureRound env lineage parent (st\<lparr>csQueue := rest\<rparr>))"
  by (subst closureLoop.simps) simp

definition erasable :: "closure_env \<Rightarrow> ID \<Rightarrow> bool" where
  "erasable env i \<longleftrightarrow> (\<exists>c. contentByID (xeContents env) i = Some c \<and> cnResidentID c = xeResidentID env
     \<and> cnErasureState c = ''present'' \<and> (xeScope env = ScopeContent \<longrightarrow> cnErasurePolicy c = ''independent''))"

definition followed :: "closure_env \<Rightarrow> LineageEdge list \<Rightarrow> ID \<Rightarrow> ID \<Rightarrow> bool" where
  "followed env lineage p c \<longleftrightarrow> erasable env c \<and> (\<exists>e\<in>set lineage. leParentContentID e = p \<and> leChildContentID e = c
     \<and> leValid e \<and> leSameLogicalBlob e)"

text \<open>An edge whose child is a target at most one deeper, reached from the smallest such parent on a tie.\<close>

definition relaxed :: "closure_env \<Rightarrow> closureState \<Rightarrow> ID \<Rightarrow> ID \<Rightarrow> bool" where
  "relaxed env st p c \<longleftrightarrow> (\<exists>v w. csWork st p = Some v \<and> csWork st c = Some w \<and> twDepth w \<le> twDepth v + 1
     \<and> (twDepth w = twDepth v + 1 \<longrightarrow> (\<exists>q. twParent w = Some q \<and> xeIDString env q \<le> xeIDString env p)))"

definition target_ok :: "closure_env \<Rightarrow> (ID \<Rightarrow> ID \<Rightarrow> bool) \<Rightarrow> ID set \<Rightarrow> closureState \<Rightarrow> ID \<Rightarrow> targetWork \<Rightarrow> bool" where
  "target_ok env E R st c w \<longleftrightarrow> contentByID (xeContents env) c = Some (twContent w) \<and> erasable env c
     \<and> (\<exists>r\<in>R. (E ^^ twDepth w) r c)
     \<and> (case twParent w of None \<Rightarrow> twDepth w = 0
        | Some p \<Rightarrow> E p c \<and> (\<exists>v. csWork st p = Some v \<and> twDepth v + 1 \<le> twDepth w))"

definition closure_inv :: "closure_env \<Rightarrow> (ID \<Rightarrow> ID \<Rightarrow> bool) \<Rightarrow> ID set \<Rightarrow> closureState \<Rightarrow> bool" where
  "closure_inv env E R st \<longleftrightarrow>
     (\<forall>c w. csWork st c = Some w \<longrightarrow> target_ok env E R st c w)
     \<and> (\<forall>r\<in>R. \<exists>w. csWork st r = Some w \<and> twDepth w = 0)
     \<and> set (csQueue st) \<subseteq> dom (csWork st)"

text \<open>All edges of finished targets are relaxed, but for the pairs in \<open>P\<close>.\<close>

definition settled :: "closure_env \<Rightarrow> (ID \<Rightarrow> ID \<Rightarrow> bool) \<Rightarrow> (ID \<times> ID) set \<Rightarrow> closureState \<Rightarrow> bool" where
  "settled env E P st \<longleftrightarrow> (\<forall>p c. p \<in> dom (csWork st) \<and> p \<notin> set (csQueue st) \<and> E p c \<and> (p, c) \<notin> P \<longrightarrow> relaxed env st p c)"

lemma target_depth_pos: "target_ok env E R st c w \<Longrightarrow> twDepth w = twDepth v + 1 \<Longrightarrow> \<exists>p. twParent w = Some p"
  by (auto simp: target_ok_def split: option.splits)

text \<open>A child gets a new or a shorter entry and is queued.\<close>

lemma deepen_inv:
  assumes inv: "closure_inv env E R st" and set: "settled env E P st" and p: "csWork st p = Some v" and E: "E p c"
    and c: "contentByID (xeContents env) c = Some (twContent w)" "erasable env c"
    and w: "twDepth w = twDepth v + 1" "twParent w = Some p"
    and less: "\<And>old. csWork st c = Some old \<Longrightarrow> twDepth w < twDepth old"
    and st': "csWork st' = (csWork st)(c \<mapsto> w)" "csQueue st' = csQueue st @ [c]"
  shows "closure_inv env E R st' \<and> settled env E P st' \<and> csWork st' p = Some v"
proof (intro conjI)
  have "p \<noteq> c" using less [of v] p w by auto
  show p': "csWork st' p = Some v" using p \<open>p \<noteq> c\<close> st' by simp
  have old: "target_ok env E R st d x" if "csWork st d = Some x" for d x
    using inv that by (simp add: closure_inv_def)
  have new: "target_ok env E R st' d x" if "csWork st' d = Some x" for d x
  proof (cases "d = c")
    case True
    have "x = w" using True that st' by simp
    moreover obtain r where "r \<in> R" "(E ^^ twDepth v) r p" using old [OF p] by (auto simp: target_ok_def)
    then have "\<exists>r\<in>R. (E ^^ twDepth w) r c" using E w(1) by auto
    ultimately show ?thesis using True c E w p' by (auto simp: target_ok_def)
  next
    case False
    then have d: "csWork st d = Some x" using that st' by simp
    have "\<exists>u. csWork st' q = Some u \<and> twDepth u + 1 \<le> twDepth x" if "csWork st q = Some u" "twDepth u + 1 \<le> twDepth x" for q u
    proof (cases "q = c")
      case True
      then show ?thesis using less [of u] that st' by simp
    qed (use that st' in simp)
    then show ?thesis using old [OF d] by (auto simp: target_ok_def split: option.splits)
  qed
  have roots: "\<exists>w. csWork st' r = Some w \<and> twDepth w = 0" if r: "r \<in> R" for r
  proof -
    obtain x where x: "csWork st r = Some x" "twDepth x = 0" using inv r by (auto simp: closure_inv_def)
    then have "r \<noteq> c" using less by auto
    then show ?thesis using x st' by simp
  qed
  show "closure_inv env E R st'"
    using inv new roots st' by (auto simp: closure_inv_def)
  show "settled env E P st'"
    unfolding settled_def
  proof (intro allI impI)
    fix q d
    assume q: "q \<in> dom (csWork st') \<and> q \<notin> set (csQueue st') \<and> E q d \<and> (q, d) \<notin> P"
    then have "q \<noteq> c" and "relaxed env st q d"
      using set st' by (auto simp: settled_def)
    then show "relaxed env st' q d"
      using st' less by (cases "d = c") (fastforce simp: relaxed_def)+
  qed
qed

text \<open>On a tie the child gets the smaller parent and stays where it is.\<close>

lemma tie_inv:
  assumes inv: "closure_inv env E R st" and set: "settled env E P st" and p: "csWork st p = Some v" and E: "E p c"
    and c: "csWork st c = Some old" "twDepth old = twDepth v + 1" "twParent old = Some q" "xeIDString env p < xeIDString env q"
    and st': "csWork st' = (csWork st)(c \<mapsto> old\<lparr>twParent := Some p\<rparr>)" "csQueue st' = csQueue st"
  shows "closure_inv env E R st' \<and> settled env E P st' \<and> csWork st' p = Some v"
proof (intro conjI)
  have "p \<noteq> c" using p c by auto
  then show p': "csWork st' p = Some v" using p st' by simp
  have depth: "\<exists>u'. csWork st' x = Some u' \<and> twDepth u' = twDepth u" if "csWork st x = Some u" for x u
    using that st' c by auto
  have "target_ok env E R st' d x" if dx: "csWork st' d = Some x" for d x
  proof -
    obtain y where y: "csWork st d = Some y" "twDepth x = twDepth y" "twContent x = twContent y"
        "d \<noteq> c \<Longrightarrow> x = y" "d = c \<Longrightarrow> twParent x = Some p"
      using dx st' c by (cases "d = c") auto
    have "target_ok env E R st d y" using inv y(1) by (simp add: closure_inv_def)
    then show ?thesis
      using y depth E p' c(1,2) by (cases "d = c") (fastforce simp: target_ok_def split: option.splits)+
  qed
  then show "closure_inv env E R st'"
    using inv st' c by (auto simp: closure_inv_def)
  show "settled env E P st'"
    unfolding settled_def
  proof (intro allI impI)
    fix x d
    assume x: "x \<in> dom (csWork st') \<and> x \<notin> set (csQueue st') \<and> E x d \<and> (x, d) \<notin> P"
    then have "relaxed env st x d"
      using set st' c by (auto simp: settled_def)
    then obtain u w where u: "csWork st x = Some u" "csWork st d = Some w" "twDepth w \<le> twDepth u + 1"
        "twDepth w = twDepth u + 1 \<longrightarrow> (\<exists>q. twParent w = Some q \<and> xeIDString env q \<le> xeIDString env x)"
      by (auto simp: relaxed_def)
    obtain u' where u': "csWork st' x = Some u'" "twDepth u' = twDepth u" using depth [OF u(1)] by blast
    show "relaxed env st' x d"
    proof (cases "d = c")
      case True
      then show ?thesis using u u' c st' by (auto simp: relaxed_def)
    next
      case False
      then show ?thesis using u u' st' by (auto simp: relaxed_def)
    qed
  qed
qed

text \<open>An edge that is not followed changes neither the targets nor the queue.\<close>

lemma followChild_other:
  assumes "\<not> erasable env (cnContentID child) \<or> \<not> leSameLogicalBlob e"
    and "contentByID (xeContents env) (cnContentID child) = Some child"
  shows "csWork (followChild env p d st e child) = csWork st \<and> csQueue (followChild env p d st e child) = csQueue st"
  using assms by (auto simp: followChild_def Let_def block_def erasable_def split: option.split)

lemma inv_cong:
  assumes "csWork st' = csWork st" and "csQueue st' = csQueue st"
  shows "closure_inv env E R st' = closure_inv env E R st" and "settled env E P st' = settled env E P st"
  unfolding closure_inv_def target_ok_def settled_def relaxed_def assms by (rule refl)+

lemma followChild_inv:
  assumes inv: "closure_inv env E R st" and set: "settled env E P st" and p: "csWork st p = Some v"
    and child: "contentByID (xeContents env) c = Some child" and E: "erasable env c \<Longrightarrow> leSameLogicalBlob e \<Longrightarrow> E p c"
    and P: "P \<subseteq> {p} \<times> UNIV"
  shows "closure_inv env E R (followChild env p (twDepth v) st e child)
    \<and> settled env E (if erasable env c \<and> leSameLogicalBlob e then P - {(p, c)} else P) (followChild env p (twDepth v) st e child)
    \<and> csWork (followChild env p (twDepth v) st e child) p = Some v"
proof (cases "erasable env c \<and> leSameLogicalBlob e")
  case False
  have key: "cnContentID child = c" using contentByID_key [OF child] by simp
  then have "csWork (followChild env p (twDepth v) st e child) = csWork st"
      and "csQueue (followChild env p (twDepth v) st e child) = csQueue st"
    using followChild_other [of env child e p "twDepth v" st] False child by auto
  from inv_cong [OF this] this show ?thesis unfolding if_not_P [OF False] using inv set p by simp
next
  case True
  have key: "cnContentID child = c" using contentByID_key [OF child] by simp
  have Epc: "E p c" using E True by simp
  define st' where "st' = followChild env p (twDepth v) st e child"
  have eq: "st' = (case csWork st c of Some old \<Rightarrow> relax env p (twDepth v + 1) st c old
      | None \<Rightarrow> st\<lparr>csWork := (csWork st)(c \<mapsto> \<lparr>twContent = child, twDepth = twDepth v + 1, twParent = Some p\<rparr>),
                csQueue := csQueue st @ [c]\<rparr>)"
    using True child key by (auto simp: st'_def followChild_def Let_def erasable_def split: option.split)
  have step: "closure_inv env E R st' \<and> settled env E P st' \<and> csWork st' p = Some v \<and> relaxed env st' p c"
  proof (cases "csWork st c")
    case None
    define w where "w = \<lparr>twContent = child, twDepth = twDepth v + 1, twParent = Some p\<rparr>"
    have st': "csWork st' = (csWork st)(c \<mapsto> w)" "csQueue st' = csQueue st @ [c]" using eq None by (simp_all add: w_def)
    have "closure_inv env E R st' \<and> settled env E P st' \<and> csWork st' p = Some v"
      by (rule deepen_inv [OF inv set p Epc _ _ _ _ _ st']) (use True child None in \<open>simp_all add: w_def\<close>)
    then show ?thesis using st' by (auto simp: relaxed_def w_def)
  next
    case (Some old)
    have ok: "target_ok env E R st c old" using inv Some by (simp add: closure_inv_def)
    consider (less) "twDepth v + 1 < twDepth old"
      | (tie) q where "twDepth old = twDepth v + 1" "twParent old = Some q" "xeIDString env p < xeIDString env q"
      | (keep) "twDepth old < twDepth v + 1 \<or>
          twDepth old = twDepth v + 1 \<and> (\<exists>q. twParent old = Some q \<and> xeIDString env q \<le> xeIDString env p)"
      using target_depth_pos [OF ok, of v] by (metis linorder_neqE_nat not_le)
    then show ?thesis
    proof cases
      case less
      define w where "w = old\<lparr>twDepth := twDepth v + 1, twParent := Some p\<rparr>"
      have st': "csWork st' = (csWork st)(c \<mapsto> w)" "csQueue st' = csQueue st @ [c]"
        using eq Some less by (simp_all add: w_def relax_def)
      have "closure_inv env E R st' \<and> settled env E P st' \<and> csWork st' p = Some v"
        by (rule deepen_inv [OF inv set p Epc _ _ _ _ _ st']) (use True ok Some less in \<open>auto simp: w_def target_ok_def\<close>)
      then show ?thesis using st' by (auto simp: relaxed_def w_def)
    next
      case tie
      have st': "csWork st' = (csWork st)(c \<mapsto> old\<lparr>twParent := Some p\<rparr>)" "csQueue st' = csQueue st"
        using eq Some tie by (cases old, simp_all add: relax_def)+
      have "closure_inv env E R st' \<and> settled env E P st' \<and> csWork st' p = Some v"
        by (rule tie_inv [OF inv set p Epc Some tie st'])
      then show ?thesis using st' tie by (auto simp: relaxed_def)
    next
      case keep
      then have "relax env p (twDepth v + 1) st c old = st" by (auto simp: relax_def)
      then have "st' = st" unfolding eq by (simp add: Some)
      moreover have "relaxed env st p c" using Some p keep by (auto simp: relaxed_def)
      ultimately show ?thesis using inv set p by simp
    qed
  qed
  then have "settled env E (P - {(p, c)}) st'"
    using step by (auto simp: settled_def)
  with step True show ?thesis by (simp flip: st'_def)
qed

text \<open>A round relaxes every edge of its target.\<close>

lemma edgeStep_inv:
  assumes inv: "closure_inv env (followed env lineage) R st" and set: "settled env (followed env lineage) P st"
    and p: "csWork st p = Some v" and e: "e \<in> set lineage" and P: "P \<subseteq> {p} \<times> UNIV"
    and todo: "P \<subseteq> {(p, c) | c. \<exists>f\<in>set (e # es). leParentContentID f = p \<and> leChildContentID f = c
        \<and> leValid f \<and> leSameLogicalBlob f \<and> erasable env c}"
  shows "\<exists>P'. closure_inv env (followed env lineage) R (edgeStep env p st e)
    \<and> settled env (followed env lineage) P' (edgeStep env p st e) \<and> csWork (edgeStep env p st e) p = Some v
    \<and> P' \<subseteq> {(p, c) | c. \<exists>f\<in>set es. leParentContentID f = p \<and> leChildContentID f = c
        \<and> leValid f \<and> leSameLogicalBlob f \<and> erasable env c}"
proof -
  let ?todo = "\<lambda>es. {(p, c) | c. \<exists>f\<in>set es. leParentContentID f = p \<and> leChildContentID f = c
        \<and> leValid f \<and> leSameLogicalBlob f \<and> erasable env c}"
  let ?c = "leChildContentID e"
  show ?thesis
  proof (cases "leParentContentID e = p \<and> leValid e \<and> (\<exists>child. contentByID (xeContents env) ?c = Some child)")
    case True
    then obtain child where child: "contentByID (xeContents env) ?c = Some child" by blast
    have step: "edgeStep env p st e = followChild env p (twDepth v) st e child"
      using True child p by (simp add: edgeStep_def)
    let ?P = "if erasable env ?c \<and> leSameLogicalBlob e then P - {(p, ?c)} else P"
    have "followed env lineage p ?c" if "erasable env ?c" "leSameLogicalBlob e"
      using that True e by (auto simp: followed_def)
    then have "closure_inv env (followed env lineage) R (edgeStep env p st e)
        \<and> settled env (followed env lineage) ?P (edgeStep env p st e) \<and> csWork (edgeStep env p st e) p = Some v"
      unfolding step by (intro followChild_inv [OF inv set p child _ P])
    moreover have "?P \<subseteq> ?todo es" using todo by (auto split: if_splits)
    ultimately show ?thesis by blast
  next
    case False
    have same: "csWork (edgeStep env p st e) = csWork st" "csQueue (edgeStep env p st e) = csQueue st"
      using False p by (auto simp: edgeStep_def block_def split: option.split)
    have "\<not> (leParentContentID e = p \<and> leValid e \<and> erasable env ?c)"
      using False by (auto simp: erasable_def)
    then have "P \<subseteq> ?todo es" using todo by auto
    then show ?thesis using inv set p
      by (intro exI [of _ P]) (simp only: inv_cong [OF same] same simp_thms)
  qed
qed

lemma closureRound_inv:
  assumes inv: "closure_inv env (followed env lineage) R st" and set: "settled env (followed env lineage) ({p} \<times> UNIV) st"
    and p: "csWork st p = Some v"
  shows "closure_inv env (followed env lineage) R (closureRound env lineage p st)
    \<and> settled env (followed env lineage) {} (closureRound env lineage p st)"
proof -
  let ?todo = "\<lambda>es. {(p, c) | c. \<exists>f\<in>set es. leParentContentID f = p \<and> leChildContentID f = c
        \<and> leValid f \<and> leSameLogicalBlob f \<and> erasable env c}"
  have main: "closure_inv env (followed env lineage) R (foldl (edgeStep env p) st es)
      \<and> settled env (followed env lineage) {} (foldl (edgeStep env p) st es)"
    if "closure_inv env (followed env lineage) R st" "settled env (followed env lineage) P st" "csWork st p = Some v"
      "set es \<subseteq> set lineage" "P \<subseteq> ?todo es" for st es P
    using that
  proof (induction es arbitrary: st P)
    case (Cons e es)
    have sub: "P \<subseteq> {p} \<times> UNIV" using Cons.prems(5) by auto
    have e: "e \<in> set lineage" using Cons.prems(4) by simp
    obtain P' where "closure_inv env (followed env lineage) R (edgeStep env p st e)"
        "settled env (followed env lineage) P' (edgeStep env p st e)" "csWork (edgeStep env p st e) p = Some v"
        "P' \<subseteq> ?todo es"
      using edgeStep_inv [OF Cons.prems(1-3) e sub Cons.prems(5)] by blast
    then show ?case using Cons.IH [of "edgeStep env p st e" P'] Cons.prems(4) by simp
  qed simp
  have "settled env (followed env lineage) (?todo lineage) st"
    using set unfolding settled_def followed_def by fastforce
  then show ?thesis unfolding closureRound_def using main [OF inv _ p, of _ lineage] by blast
qed

lemma closureLoop_inv:
  assumes "closure_inv env (followed env lineage) R st" and "settled env (followed env lineage) {} st"
  shows "closure_inv env (followed env lineage) R (closureLoop env lineage st)
    \<and> settled env (followed env lineage) {} (closureLoop env lineage st) \<and> csQueue (closureLoop env lineage st) = []"
  using assms
proof (induction env lineage st rule: closureLoop.induct)
  case (1 env lineage st)
  show ?case
  proof (cases "csQueue st")
    case Nil
    then show ?thesis using 1 by (subst (1 2 3) closureLoop.simps) simp
  next
    case (Cons p rest)
    define st0 where "st0 = st\<lparr>csQueue := rest\<rparr>"
    have p: "\<exists>v. csWork st0 p = Some v" using 1(2) Cons by (auto simp: closure_inv_def st0_def)
    have work: "csWork st0 = csWork st" by (simp add: st0_def)
    have "set (csQueue st0) \<subseteq> set (csQueue st)" by (auto simp: st0_def Cons)
    then have inv: "closure_inv env (followed env lineage) R st0"
      using 1(2) unfolding closure_inv_def target_ok_def work by blast
    have "settled env (followed env lineage) ({p} \<times> UNIV) st0"
      using 1(3) Cons unfolding settled_def relaxed_def st0_def by fastforce
    then have "closure_inv env (followed env lineage) R (closureRound env lineage p st0)
        \<and> settled env (followed env lineage) {} (closureRound env lineage p st0)"
      using closureRound_inv [OF inv] p by blast
    then show ?thesis
      using 1(1) [OF Cons] Cons by (subst (1 2 3) closureLoop.simps) (simp add: st0_def)
  qed
qed

text \<open>At the end the targets are what the roots reach, at their least distance.\<close>

lemma reach_depth:
  assumes inv: "closure_inv env E R st" and set: "settled env E {} st" and empty: "csQueue st = []"
    and r: "r \<in> R" and path: "(E ^^ n) r c"
  shows "\<exists>w. csWork st c = Some w \<and> twDepth w \<le> n"
  using path
proof (induction n arbitrary: c)
  case 0
  then show ?case using inv r by (auto simp: closure_inv_def)
next
  case (Suc n)
  then obtain b where b: "(E ^^ n) r b" "E b c" by auto
  then obtain v where v: "csWork st b = Some v" "twDepth v \<le> n" using Suc.IH by blast
  then have "relaxed env st b c" using set b(2) empty by (auto simp: settled_def)
  then show ?case using v by (auto simp: relaxed_def)
qed

lemma closure_exact:
  assumes inv: "closure_inv env E R st" and set: "settled env E {} st" and empty: "csQueue st = []"
  shows "dom (csWork st) = {c. \<exists>r\<in>R. E\<^sup>*\<^sup>* r c}"
    and "csWork st c = Some w \<Longrightarrow> twDepth w = (LEAST n. \<exists>r\<in>R. (E ^^ n) r c)"
    and "csWork st c = Some w \<Longrightarrow> twParent w = None \<longleftrightarrow> c \<in> R"
    and "csWork st c = Some w \<Longrightarrow> twParent w = Some p \<Longrightarrow> E p c \<and> (\<exists>v. csWork st p = Some v \<and> twDepth w = twDepth v + 1)
      \<and> (\<forall>q v. csWork st q = Some v \<and> E q c \<and> twDepth w = twDepth v + 1 \<longrightarrow> xeIDString env p \<le> xeIDString env q)"
proof -
  have ok: "target_ok env E R st c w" if "csWork st c = Some w" for c w
    using inv that by (simp add: closure_inv_def)
  show dom: "dom (csWork st) = {c. \<exists>r\<in>R. E\<^sup>*\<^sup>* r c}"
    using ok reach_depth [OF inv set empty] by (fastforce simp: target_ok_def rtranclp_power)
  show depth: "twDepth w = (LEAST n. \<exists>r\<in>R. (E ^^ n) r c)" if w: "csWork st c = Some w" for c w
  proof (rule Least_equality [symmetric])
    show "\<exists>r\<in>R. (E ^^ twDepth w) r c" using ok [OF w] by (simp add: target_ok_def)
    show "twDepth w \<le> n" if "\<exists>r\<in>R. (E ^^ n) r c" for n
      using reach_depth [OF inv set empty] that w by force
  qed
  show "twParent w = None \<longleftrightarrow> c \<in> R" if w: "csWork st c = Some w" for c w
  proof
    assume "twParent w = None"
    then have "twDepth w = 0" using ok [OF w] by (simp add: target_ok_def)
    then show "c \<in> R" using ok [OF w] by (auto simp: target_ok_def)
  next
    assume "c \<in> R"
    then have "twDepth w = 0" using inv w by (auto simp: closure_inv_def)
    then show "twParent w = None" using ok [OF w] by (auto simp: target_ok_def split: option.splits)
  qed
  show "E p c \<and> (\<exists>v. csWork st p = Some v \<and> twDepth w = twDepth v + 1)
      \<and> (\<forall>q v. csWork st q = Some v \<and> E q c \<and> twDepth w = twDepth v + 1 \<longrightarrow> xeIDString env p \<le> xeIDString env q)"
    if w: "csWork st c = Some w" and p: "twParent w = Some p" for c w p
  proof -
    have "E p c" and "\<exists>v. csWork st p = Some v \<and> twDepth v + 1 \<le> twDepth w"
      using ok [OF w] p by (simp_all add: target_ok_def)
    moreover have "relaxed env st q c" if "q \<in> dom (csWork st)" "E q c" for q
      using set empty that by (auto simp: settled_def)
    ultimately show ?thesis using w p unfolding relaxed_def by fastforce
  qed
qed

section \<open>Start\<close>

definition startState :: "closure_env \<Rightarrow> Blocker list \<Rightarrow> ID list \<Rightarrow> closureState" where
  "startState env blockers roots =
     foldl (admitRoot env) \<lparr>csWork = Map.empty, csQueue = [], csBlockers = blockers, csImpacts = []\<rparr> roots"

lemma admitRoot_ok:
  "csWork (admitRoot env st root) = (if erasable env root then (csWork st)(root \<mapsto>
      \<lparr>twContent = the (contentByID (xeContents env) root), twDepth = 0, twParent = None\<rparr>) else csWork st)
   \<and> csQueue (admitRoot env st root) = (if erasable env root then csQueue st @ [root] else csQueue st)
   \<and> (\<exists>bs. csBlockers (admitRoot env st root) = csBlockers st @ bs \<and> (bs = [] \<longleftrightarrow> erasable env root))
   \<and> csImpacts (admitRoot env st root) = csImpacts st"
  by (auto simp: admitRoot_def Let_def erasable_def block_def split: option.split)

lemma startState_ok:
  "csWork (startState env blockers roots) = (\<lambda>i. if i \<in> set roots \<and> erasable env i
      then Some \<lparr>twContent = the (contentByID (xeContents env) i), twDepth = 0, twParent = None\<rparr> else None)
   \<and> set (csQueue (startState env blockers roots)) = {i \<in> set roots. erasable env i}
   \<and> (\<exists>bs. csBlockers (startState env blockers roots) = blockers @ bs \<and> (bs = [] \<longleftrightarrow> list_all (erasable env) roots))
   \<and> csImpacts (startState env blockers roots) = []"
proof (induction roots rule: rev_induct)
  case Nil
  then show ?case by (simp add: startState_def)
next
  case (snoc r roots)
  have "startState env blockers (roots @ [r]) = admitRoot env (startState env blockers roots) r"
    by (simp add: startState_def)
  then show ?case using snoc admitRoot_ok [of env "startState env blockers roots" r] by (auto simp: fun_eq_iff)
qed

lemma startState_inv:
  assumes "csWork st = csWork (startState env blockers roots)" and "csQueue st = csQueue (startState env blockers roots)"
  shows "closure_inv env E {r \<in> set roots. erasable env r} st \<and> settled env E {} st"
proof -
  have content: "\<exists>c. contentByID (xeContents env) i = Some c" if "erasable env i" for i
    using that by (auto simp: erasable_def)
  have "csWork st = (\<lambda>i. if i \<in> set roots \<and> erasable env i
      then Some \<lparr>twContent = the (contentByID (xeContents env) i), twDepth = 0, twParent = None\<rparr> else None)"
    and "set (csQueue st) = {i \<in> set roots. erasable env i}"
    using startState_ok [of env blockers roots] assms by simp_all
  then show ?thesis
    using content by (fastforce simp: closure_inv_def target_ok_def settled_def split: if_splits)
qed

section \<open>Every edge of a target is accounted for\<close>

definition grows :: "closureState \<Rightarrow> closureState \<Rightarrow> bool" where
  "grows st st' \<longleftrightarrow> dom (csWork st) \<subseteq> dom (csWork st') \<and> set (csQueue st) \<subseteq> set (csQueue st')
     \<and> dom (csWork st') \<subseteq> dom (csWork st) \<union> set (csQueue st') \<and> set (csQueue st') \<subseteq> set (csQueue st) \<union> dom (csWork st')
     \<and> set (csImpacts st) \<subseteq> set (csImpacts st') \<and> length (csBlockers st) \<le> length (csBlockers st')"

definition covered :: "closure_env \<Rightarrow> nat \<Rightarrow> closureState \<Rightarrow> LineageEdge \<Rightarrow> bool" where
  "covered env n st e \<longleftrightarrow> n < length (csBlockers st) \<or> leChildContentID e \<in> dom (csWork st)
     \<or> contentByID (xeContents env) (leChildContentID e) \<noteq> None \<and> nonexactImpact env (leChildContentID e) \<in> set (csImpacts st)"

lemma grows_refl [simp]: "grows st st"
  by (simp add: grows_def)

lemma grows_trans: "grows a b \<Longrightarrow> grows b c \<Longrightarrow> grows a c"
  unfolding grows_def by (elim conjE, intro conjI) (erule (1) order_trans | blast)+

lemma grows_covered: "grows st st' \<Longrightarrow> covered env n st e \<Longrightarrow> covered env n st' e"
  unfolding grows_def covered_def by (meson less_le_trans subsetD)

lemma grows_block: "grows st (block st code i f)"
  by (simp add: grows_def block_def)

lemma grows_relax: "csWork st c = Some old \<Longrightarrow> grows st (relax env p d st c old)"
  by (auto simp: grows_def relax_def)

lemma followChild_grows: "grows st (followChild env p d st e child)"
  unfolding followChild_def Let_def
  by (auto simp: grows_block grows_relax split: option.split) (auto simp: grows_def)

lemma edgeStep_grows: "grows st (edgeStep env p st e)"
  unfolding edgeStep_def by (auto simp: grows_block followChild_grows split: option.split)

lemma edgeStep_covered:
  assumes "csWork st p = Some v" and "leParentContentID e = p" and "n \<le> length (csBlockers st)"
  shows "covered env n (edgeStep env p st e) e"
proof (cases "contentByID (xeContents env) (leChildContentID e)")
  case None
  then show ?thesis using assms by (simp add: edgeStep_def block_def covered_def)
next
  case (Some child)
  have key: "cnContentID child = leChildContentID e" using contentByID_key [OF Some] by simp
  then have "covered env n (followChild env p (twDepth v) st e child) e"
    using assms(3) unfolding followChild_def Let_def
    by (cases "csWork st (leChildContentID e)") (auto simp: covered_def block_def relax_def Some)
  then show ?thesis using assms Some by (simp add: edgeStep_def) (simp add: block_def covered_def)
qed

lemma closureRound_covered:
  assumes "csWork st p = Some v" and "n \<le> length (csBlockers st)"
  shows "grows st (closureRound env lineage p st)
    \<and> (\<forall>e\<in>set lineage. leParentContentID e = p \<longrightarrow> covered env n (closureRound env lineage p st) e)"
  unfolding closureRound_def
  using assms
proof (induction lineage rule: rev_induct)
  case (snoc e es)
  define st' where "st' = foldl (edgeStep env p) st es"
  have IH: "grows st st'" "\<forall>e\<in>set es. leParentContentID e = p \<longrightarrow> covered env n st' e"
    using snoc by (simp_all add: st'_def)
  have "p \<in> dom (csWork st')" "n \<le> length (csBlockers st')" using IH(1) snoc.prems by (auto simp: grows_def)
  then have "leParentContentID e = p \<longrightarrow> covered env n (edgeStep env p st' e) e"
    using edgeStep_covered [of st' p _ e n env] by blast
  then show ?case
    using IH edgeStep_grows [of st' env p e] grows_trans [OF IH(1)] grows_covered [OF edgeStep_grows] by (simp flip: st'_def)
qed simp

lemma closureLoop_covered:
  assumes "\<forall>e\<in>set lineage. leParentContentID e \<in> dom (csWork st) - set (csQueue st) \<longrightarrow> covered env n st e"
    and "set (csQueue st) \<subseteq> dom (csWork st)" and "n \<le> length (csBlockers st)"
  shows "\<forall>e\<in>set lineage. leParentContentID e \<in> dom (csWork (closureLoop env lineage st)) \<longrightarrow>
    covered env n (closureLoop env lineage st) e"
  using assms
proof (induction env lineage st rule: closureLoop.induct)
  case (1 env lineage st)
  show ?case
  proof (cases "csQueue st")
    case Nil
    then show ?thesis using 1 by (subst (1 2) closureLoop.simps) simp
  next
    case (Cons p rest)
    define st0 where "st0 = st\<lparr>csQueue := rest\<rparr>"
    define st' where "st' = closureRound env lineage p st0"
    have st0: "csWork st0 = csWork st" "csQueue st0 = rest" "csBlockers st0 = csBlockers st" "csImpacts st0 = csImpacts st"
      by (simp_all add: st0_def)
    obtain v where "csWork st0 p = Some v" using 1(3) Cons by (auto simp: st0_def)
    then have round: "grows st0 st'" "\<forall>e\<in>set lineage. leParentContentID e = p \<longrightarrow> covered env n st' e"
      using closureRound_covered [of st0 p v n env lineage] 1(4) by (simp_all add: st'_def st0)
    have old: "covered env n st0 e = covered env n st e" for e by (simp add: covered_def st0)
    have "covered env n st' e" if e: "e \<in> set lineage" and p: "leParentContentID e \<in> dom (csWork st') - set (csQueue st')" for e
    proof (cases "leParentContentID e = p")
      case False
      have "leParentContentID e \<in> dom (csWork st) - set (csQueue st)"
        using p False round(1) Cons unfolding grows_def st0 by auto
      then show ?thesis using 1(2) e grows_covered [OF round(1)] old by blast
    qed (use round(2) e in blast)
    moreover have "set (csQueue st') \<subseteq> dom (csWork st')"
    proof -
      have "set rest \<subseteq> dom (csWork st)" using 1(3) Cons by simp
      then show ?thesis using round(1) unfolding grows_def st0 by blast
    qed
    moreover have "n \<le> length (csBlockers st')" using round(1) 1(4) by (simp add: grows_def st0)
    ultimately show ?thesis using 1(1) [OF Cons] Cons by (subst (1 2) closureLoop.simps) (simp add: st'_def st0_def)
  qed
qed

text \<open>
  The closure the planner computes, from the admitted roots over the sorted lineage; \<open>cycle\<close> is what
  the search for a cycle adds to the blockers before the closure starts.
\<close>

definition targetClosure :: "closure_env \<Rightarrow> LineageEdge list \<Rightarrow> Blocker list \<Rightarrow> Blocker list \<Rightarrow> ID list \<Rightarrow> closureState" where
  "targetClosure env lineage blockers cycle roots =
     (let started = startState env blockers roots
      in closureLoop env (slice_stable (edgeBefore (xeIDString env)) lineage)
           (started\<lparr>csBlockers := csBlockers started @ cycle\<rparr>))"

lemma followed_sorted: "followed env (slice_stable lt lineage) = followed env lineage"
  by (simp add: followed_def fun_eq_iff)

lemma targetClosure_inv:
  "closure_inv env (followed env lineage) {r \<in> set roots. erasable env r} (targetClosure env lineage blockers cycle roots)
   \<and> settled env (followed env lineage) {} (targetClosure env lineage blockers cycle roots)
   \<and> csQueue (targetClosure env lineage blockers cycle roots) = []"
proof -
  define st where "st = (startState env blockers roots)\<lparr>csBlockers := csBlockers (startState env blockers roots) @ cycle\<rparr>"
  have "csWork st = csWork (startState env blockers roots)" "csQueue st = csQueue (startState env blockers roots)"
    by (simp_all add: st_def)
  then have "closure_inv env (followed env lineage) {r \<in> set roots. erasable env r} st \<and> settled env (followed env lineage) {} st"
    by (rule startState_inv)
  then show ?thesis
    using closureLoop_inv [where lineage = "slice_stable (edgeBefore (xeIDString env)) lineage" and env = env and st = st]
    unfolding targetClosure_def Let_def followed_sorted st_def [symmetric] by blast
qed

lemma closureLoop_grows:
  assumes "set (csQueue st) \<subseteq> dom (csWork st)"
  shows "length (csBlockers st) \<le> length (csBlockers (closureLoop env lineage st))"
  using assms
proof (induction env lineage st rule: closureLoop.induct)
  case (1 env lineage st)
  show ?case
  proof (cases "csQueue st")
    case Nil
    then show ?thesis by (subst closureLoop.simps) simp
  next
    case (Cons p rest)
    define st0 where "st0 = st\<lparr>csQueue := rest\<rparr>"
    obtain v where v: "csWork st0 p = Some v" using 1(2) Cons by (auto simp: st0_def)
    have "grows st0 (closureRound env lineage p st0)" using closureRound_covered [OF v, of 0] by simp
    moreover have "csQueue st0 = rest" "csWork st0 = csWork st" "csBlockers st0 = csBlockers st" "set rest \<subseteq> dom (csWork st)"
      using 1(2) Cons by (simp_all add: st0_def)
    ultimately have "set (csQueue (closureRound env lineage p st0)) \<subseteq> dom (csWork (closureRound env lineage p st0))"
      and "length (csBlockers st) \<le> length (csBlockers (closureRound env lineage p st0))"
      unfolding grows_def by (simp_all, blast)
    then show ?thesis using 1(1) [OF Cons] Cons by (subst closureLoop.simps) (simp add: st0_def)
  qed
qed

lemma targetClosure_blockers:
  assumes "length (csBlockers (targetClosure env lineage blockers cycle roots)) \<le> length blockers"
  shows "cycle = [] \<and> (\<forall>r\<in>set roots. erasable env r)"
proof -
  let ?st = "startState env blockers roots"
  obtain bs where bs: "csBlockers ?st = blockers @ bs" "bs = [] \<longleftrightarrow> list_all (erasable env) roots"
    using startState_ok [of env blockers roots] by blast
  have "set (csQueue ?st) = dom (csWork ?st)" using startState_ok [of env blockers roots] by (auto simp: dom_def split: if_splits)
  then have "length (blockers @ bs @ cycle) \<le> length (csBlockers (targetClosure env lineage blockers cycle roots))"
    unfolding targetClosure_def Let_def
    using closureLoop_grows [of "?st\<lparr>csBlockers := csBlockers ?st @ cycle\<rparr>" env "slice_stable (edgeBefore (xeIDString env)) lineage"]
    by (simp add: bs(1))
  then have "length bs + length cycle = 0" using assms unfolding length_append by linarith
  then have "bs = []" "cycle = []" by simp_all
  then show ?thesis using bs(2) by (simp add: list_all_iff)
qed

lemma targetClosure_covered:
  assumes "length (csBlockers (targetClosure env lineage blockers cycle roots)) \<le> length blockers"
    and e: "e \<in> set lineage" "leParentContentID e \<in> dom (csWork (targetClosure env lineage blockers cycle roots))"
  shows "leChildContentID e \<in> dom (csWork (targetClosure env lineage blockers cycle roots))
    \<or> (\<exists>c\<in>set (xeContents env). cnContentID c = leChildContentID e
        \<and> nonexactImpact env (leChildContentID e) \<in> set (csImpacts (targetClosure env lineage blockers cycle roots)))"
proof -
  define st where "st = (startState env blockers roots)\<lparr>csBlockers := csBlockers (startState env blockers roots) @ cycle\<rparr>"
  have start: "set (csQueue st) = dom (csWork st)" "length blockers \<le> length (csBlockers st)"
    using startState_ok [of env blockers roots] by (auto simp: st_def dom_def split: if_splits)
  have run: "targetClosure env lineage blockers cycle roots = closureLoop env (slice_stable (edgeBefore (xeIDString env)) lineage) st"
    by (simp add: targetClosure_def Let_def st_def)
  have "covered env (length blockers) (targetClosure env lineage blockers cycle roots) e"
    using closureLoop_covered [where st = st and n = "length blockers"] start e unfolding run by simp
  then show ?thesis using assms(1) contentByID_key unfolding covered_def by (metis not_less option.exhaust)
qed

end
