(* ===== verification/Erasure_Plan.thy ===== *)
theory Erasure_Plan
  imports Erasure_Closure Integrity_Scanner
begin

text \<open>
  The erasure plan as a closed document (\<^verbatim>\<open>internal/erasure/types.go\<close>, \<^verbatim>\<open>catalog.go\<close>, \<^verbatim>\<open>codec.go\<close>,
  \<^verbatim>\<open>apply.go\<close>; the direct references of \<^verbatim>\<open>internal/contentref/catalog.go\<close>): its data, the catalog every
  impact is checked against, the whole validation of a plan, the digest that seals it, the pure
  decision round and the command that applies it. Canonical JSON, SHA-256 and the parser of
  identifiers are arguments, collected in \<open>plan_env\<close>. A plan decoded from the wire may hold a null
  collection; the flag \<open>plNull\<close> records that one was.
\<close>

section \<open>Data\<close>

definition PlanFormatVersion :: string where
  "PlanFormatVersion = ''mahoroba-erasure-plan-v1''"

definition ImpactRulesVersion :: string where
  "ImpactRulesVersion = ''erasure-impact-v1''"

definition ExternalCopyNotice :: string where
  "ExternalCopyNotice = ''runtime_unmanaged_copy_not_covered_by_future_erasure''"

definition StateReviewRequired :: string where
  "StateReviewRequired = ''review_required''"

definition StateReady :: string where
  "StateReady = ''ready''"

definition MaxSingleTransactionMutations :: nat where
  "MaxSingleTransactionMutations = 4096"

record BaseHead =
  bhCommitID :: string
  bhCommitSeq :: string

record EffectiveTarget =
  etContentID :: string
  etContentClass :: string
  etErasurePolicy :: string
  etCommitment :: string
  etErasureEventID :: string
  etSourceErasureEventID :: "string option"
  etLineageDepth :: string

record PlannedFindingRow =
  pnIntegrityFindingID :: string
  pnFindingKind :: string
  pnRuleCode :: string
  pnTargetKind :: string
  pnTargetID :: string
  pnTargetField :: string
  pnResidentID :: string
  pnClaimID :: "string option"
  pnSourceContentErasureEventID :: "string option"
  pnPipelineVersionID :: string
  pnFindingFingerprint :: string
  pnDetailsContentID :: "string option"

record ExistingFindingDependency =
  xdIntegrityFindingID :: string
  xdClaimID :: string
  xdFindingKind :: string
  xdRuleCode :: string
  xdSourceContentErasureEventID :: "string option"
  xdPipelineVersionID :: string
  xdFindingFingerprint :: string

record PlannedQuarantine =
  pqStatusTransitionID :: string
  pqClaimID :: string
  pqFromStatus :: string
  pqToStatus :: string
  pqDecisionKind :: string
  pqActorPrincipalID :: "string option"
  pqTriggerKind :: string
  pqTriggerEventID :: "string option"
  pqTriggerEvidenceID :: "string option"
  pqTriggerClaimRelationID :: "string option"
  pqTriggerIntegrityFindingID :: string
  pqPipelineVersionID :: string
  pqMemoryPolicyRevisionID :: "string option"
  pqGateMetrics :: string
  pqDecisionReasonCode :: string
  pqDecisionReasonContentID :: "string option"

record ClaimIdentityErasure =
  cyClaimStatementErasureEventID :: string
  cyClaimID :: string
  cyStatementContentID :: string
  cyContentErasureEventID :: string

record ExistingClaimIdentityDependency = ClaimIdentityErasure +
  cyCanonicalCommitID :: string

record ResidentTransition =
  rtTransitionID :: string
  rtResidentID :: string
  rtFromStatus :: string
  rtToStatus :: string
  rtActorPrincipalID :: string
  rtReasonCode :: string
  rtReasonContentID :: "string option"

record RuntimeConfigEffect =
  reExpectedActiveResidentID :: "string option"
  reResultingActiveResidentID :: "string option"
  reClearActiveResident :: bool

record Rebuild =
  rbResidentID :: string
  rbProjectionName :: string
  rbProjectionVersion :: string
  rbReasonCode :: string

record Plan =
  plFormatVersion :: string
  plRulesVersion :: string
  plPlanState :: string
  plScope :: string
  plResidentID :: string
  plBaseHead :: BaseHead
  plActorPrincipalID :: string
  plReasonCode :: string
  plIntegrityPipelineVersionID :: string
  plMemoryStatusPipelineVersionID :: string
  plRequestedContentIDs :: "string list"
  plEffectiveTargets :: "EffectiveTarget list"
  plImpacts :: "Impact list"
  plPlannedFindings :: "PlannedFindingRow list"
  plExistingFindingDependencies :: "ExistingFindingDependency list"
  plPlannedQuarantines :: "PlannedQuarantine list"
  plClaimIdentityErasures :: "ClaimIdentityErasure list"
  plExistingClaimIdentityDependencies :: "ExistingClaimIdentityDependency list"
  plResidentTransition :: "ResidentTransition option"
  plRuntimeConfigEffect :: RuntimeConfigEffect
  plRebuilds :: "Rebuild list"
  plBlockers :: "Blocker list"
  plExternalCopyNotice :: string
  plDigest :: string
  plNull :: bool

record DecisionInput =
  diImpactID :: string
  diDecision :: string

datatype erasure_error =
    ErrInvalidPlan string
  | ErrPlanDigestMismatch string
  | ErrPlanStale
  | ErrReviewRequired string
  | ErrBlocked
  | ErasureCanonical canonical_error
  | ErasureIntegrity integrity_error
  | ErasureSource string
  | ErasureError string

section \<open>The impact catalog\<close>

record impactDescriptor =
  idRuleID :: string
  idReferrerKind :: string
  idReferrerField :: string
  idClassification :: string
  idDecisionMode :: string
  idActions :: "string list"

definition descriptor :: "string \<Rightarrow> string \<Rightarrow> string \<Rightarrow> string \<Rightarrow> string \<Rightarrow> string list \<Rightarrow> impactDescriptor" where
  "descriptor rule kind field class mode actions = \<lparr>idRuleID = rule, idReferrerKind = kind, idReferrerField = field,
     idClassification = class, idDecisionMode = mode, idActions = actions\<rparr>"

text \<open>The direct descriptors of \<^verbatim>\<open>contentref\<close>, without their SQL identifiers.\<close>

definition directDescriptors :: "impactDescriptor list" where
  "directDescriptors = [
     descriptor ''claim_evidence_reason_v1'' ''claim_evidence'' ''reason_content_id'' ''safe'' ''none'' [],
     descriptor ''claim_relation_reason_v1'' ''claim_relation'' ''reason_content_id'' ''safe'' ''none'' [],
     descriptor ''claim_stage_transition_reason_v1'' ''claim_stage_transition'' ''reason_content_id'' ''safe'' ''none'' [],
     descriptor ''claim_statement_v1'' ''claim'' ''statement_content_id'' ''needs_review'' ''consequence_only'' [''erase_claim_identity''],
     descriptor ''claim_status_transition_reason_v1'' ''claim_status_transition'' ''decision_reason_content_id'' ''safe'' ''none'' [],
     descriptor ''claim_validity_assertion_reason_v1'' ''claim_validity_assertion'' ''reason_content_id'' ''safe'' ''none'' [],
     descriptor ''claim_view_scope_assertion_reason_v1'' ''claim_view_scope_assertion'' ''reason_content_id'' ''safe'' ''none'' [],
     descriptor ''content_erasure_event_content_v1'' ''content_erasure_event'' ''content_id'' ''safe'' ''none'' [],
     descriptor ''content_erasure_event_reason_v1'' ''content_erasure_event'' ''reason_content_id'' ''safe'' ''none'' [],
     descriptor ''content_object_blob_v1'' ''content_object'' ''blob'' ''needs_rebuild'' ''none'' [''block_physical_gc'', ''rebuild_projection''],
     descriptor ''event_content_v1'' ''event'' ''content_id'' ''safe'' ''none'' [],
     descriptor ''generation_input_content_v1'' ''generation_run_input'' ''content_id'' ''needs_review'' ''consequence_only'' [],
     descriptor ''generation_outcome_error_detail_v1'' ''generation_run_outcome'' ''error_detail_content_id'' ''safe'' ''none'' [],
     descriptor ''generation_outcome_output_v1'' ''generation_run_outcome'' ''output_content_id'' ''needs_review'' ''consequence_only'' [],
     descriptor ''integrity_finding_details_v1'' ''integrity_finding'' ''details_content_id'' ''safe'' ''none'' [],
     descriptor ''recall_query_v1'' ''recall_run'' ''query_content_id'' ''needs_review'' ''consequence_only'' [],
     descriptor ''resident_description_v1'' ''resident'' ''description_content_id'' ''safe'' ''none'' [],
     descriptor ''resident_revision_activation_reason_v1'' ''resident_revision_activation'' ''reason_content_id'' ''safe'' ''none'' [],
     descriptor ''resident_revision_approval_reason_v1'' ''resident_revision_approval'' ''reason_content_id'' ''safe'' ''none'' [],
     descriptor ''resident_revision_content_v1'' ''resident_revision'' ''content_id'' ''safe'' ''none'' [],
     descriptor ''resident_revision_reason_v1'' ''resident_revision'' ''reason_content_id'' ''safe'' ''none'' [],
     descriptor ''resident_status_transition_reason_v1'' ''resident_status_transition'' ''reason_content_id'' ''safe'' ''none'' []]"

definition syntheticImpactDescriptors :: "impactDescriptor list" where
  "syntheticImpactDescriptors = [
     descriptor ''claim_provenance_break_v1'' ''claim'' ''qualifying_provenance'' ''needs_review'' ''consequence_only'' [],
     descriptor ''explicit_lineage_exact_bytes_v1'' ''content_object'' ''derived_bytes'' ''must_erase'' ''none'' [''erase_derived_content''],
     descriptor ''explicit_lineage_nonexact_bytes_v1'' ''content_object'' ''derived_bytes'' ''needs_review'' ''content_candidate'' [],
     descriptor ''projection_derived_state_v1'' ''projection'' ''body'' ''needs_rebuild'' ''none'' [''rebuild_projection''],
     descriptor ''resident_lifecycle_erase_v1'' ''resident'' ''lifecycle'' ''needs_rebuild'' ''none'' [''rebuild_projection'', ''transition_resident_erased''],
     descriptor ''same_bytes_without_lineage_v1'' ''content_object'' ''shared_bytes'' ''needs_review'' ''content_candidate'' [''block_physical_gc'']]"

definition logicalImpactDescriptors :: "impactDescriptor list" where
  "logicalImpactDescriptors = [
     descriptor ''claim_evidence_event_provenance_v1'' ''claim_evidence'' ''event_id'' ''safe'' ''none'' [],
     descriptor ''claim_evidence_source_chain_v1'' ''claim_evidence'' ''source_evidence_id'' ''safe'' ''none'' [],
     descriptor ''claim_relation_from_v1'' ''claim_relation'' ''from_claim_id'' ''needs_review'' ''consequence_only'' [],
     descriptor ''claim_relation_to_v1'' ''claim_relation'' ''to_claim_id'' ''needs_review'' ''consequence_only'' [],
     descriptor ''claim_stage_dependency_v1'' ''claim_stage_transition_dependency'' ''dependency_claim_id'' ''needs_review'' ''consequence_only'' [],
     descriptor ''claim_status_trigger_event_v1'' ''claim_status_transition'' ''trigger_event_id'' ''needs_review'' ''consequence_only'' [],
     descriptor ''claim_status_trigger_evidence_v1'' ''claim_status_transition'' ''trigger_evidence_id'' ''needs_review'' ''consequence_only'' [],
     descriptor ''claim_status_trigger_finding_v1'' ''claim_status_transition'' ''trigger_integrity_finding_id'' ''needs_review'' ''consequence_only'' [],
     descriptor ''claim_status_trigger_relation_v1'' ''claim_status_transition'' ''trigger_claim_relation_id'' ''needs_review'' ''consequence_only'' [],
     descriptor ''claim_usage_claim_v1'' ''claim_usage'' ''claim_id'' ''safe'' ''none'' [],
     descriptor ''claim_validity_evidence_event_v1'' ''claim_validity_assertion'' ''evidence_event_id'' ''needs_review'' ''consequence_only'' [],
     descriptor ''generation_recall_v1'' ''generation_run'' ''recall_run_id'' ''safe'' ''none'' []]"

definition impactCatalog :: "string \<rightharpoonup> impactDescriptor" where
  "impactCatalog = map_of (map (\<lambda>d. (idRuleID d, d)) (directDescriptors @ syntheticImpactDescriptors @ logicalImpactDescriptors))"

definition IsLogicalImpactRule :: "string \<Rightarrow> bool" where
  "IsLogicalImpactRule rule \<longleftrightarrow> rule \<in> set (map idRuleID logicalImpactDescriptors)"

definition conditionalRule :: "string \<Rightarrow> bool" where
  "conditionalRule rule \<longleftrightarrow> rule = ''claim_evidence_event_provenance_v1'' \<or> rule = ''claim_evidence_source_chain_v1''"

definition validateImpactAgainstCatalog :: "Impact \<Rightarrow> (erasure_error, unit) result" where
  "validateImpactAgainstCatalog value =
     (case impactCatalog (imRuleID value) of
        None \<Rightarrow> Inl (ErrInvalidPlan ''unknown impact rule'')
      | Some d \<Rightarrow>
          andThen (reject (imReferrerKind value \<noteq> idReferrerKind d \<or> imReferrerField value \<noteq> idReferrerField d)
            (ErrInvalidPlan ''impact tuple differs''))
         (andThen (reject ((imClassification value \<noteq> idClassification d \<or> imDecisionMode value \<noteq> idDecisionMode d)
              \<and> \<not> (conditionalRule (imRuleID value) \<and> imClassification value = ''needs_review'' \<and> imDecisionMode value = ''consequence_only''))
            (ErrInvalidPlan ''impact policy differs''))
         (if imRuleID value = ''claim_provenance_break_v1''
          then reject (\<exists>a\<in>set (imActions value). a \<noteq> ''quarantine_claim'' \<and> a \<noteq> ''record_integrity_finding'')
            (ErrInvalidPlan ''invalid provenance action'')
          else if imRuleID value = ''resident_lifecycle_erase_v1''
          then reject (imActions value \<noteq> idActions d
              \<and> imActions value \<noteq> [''clear_runtime_selection'', ''rebuild_projection'', ''transition_resident_erased''])
            (ErrInvalidPlan ''invalid resident lifecycle actions'')
          else reject (imActions value \<noteq> idActions d) (ErrInvalidPlan ''impact actions differ''))))"

section \<open>Identity, digest and decimal checks\<close>

record ImpactKey =
  ikRuleID :: string
  ikReferrerKind :: string
  ikReferrerID :: string
  ikReferrerField :: string
  ikDecisionMode :: string
  ikCandidateContentID :: "string option"

record plan_env =
  peParseID :: "string \<Rightarrow> ID option"
  peSha :: sha256
  peImpactJCS :: "ImpactKey \<Rightarrow> (canonical_error, string) result"
  pePlanJCS :: "Plan \<Rightarrow> (canonical_error, string) result"
  peIsCanonicalJSON :: "string \<Rightarrow> bool"
  peFinding :: finding_env

definition impactKey :: "Impact \<Rightarrow> ImpactKey" where
  "impactKey v = \<lparr>ikRuleID = imRuleID v, ikReferrerKind = imReferrerKind v, ikReferrerID = imReferrerID v,
     ikReferrerField = imReferrerField v, ikDecisionMode = imDecisionMode v, ikCandidateContentID = imCandidateContentID v\<rparr>"

definition ImpactID :: "plan_env \<Rightarrow> Impact \<Rightarrow> (erasure_error, string) result" where
  "ImpactID env value =
     (case peImpactJCS env (impactKey value) of
        Inl e \<Rightarrow> Inl (ErasureCanonical e)
      | Inr body \<Rightarrow> Inr (''sha256:'' @ EncodeToString (peSha env (''mahoroba:erasure-impact-id:v1'' @ [NUL] @ body))))"

text \<open>The hashed body is the plan without its \<^verbatim>\<open>digest\<close> member.\<close>

definition computePlanDigest :: "plan_env \<Rightarrow> Plan \<Rightarrow> (erasure_error, string) result" where
  "computePlanDigest env plan =
     (case pePlanJCS env (plan\<lparr>plDigest := ''''\<rparr>) of
        Inl e \<Rightarrow> Inl (ErasureCanonical e)
      | Inr body \<Rightarrow> Inr (''sha256:'' @ EncodeToString (peSha env (''mahoroba:erasure-plan-digest:v1'' @ [NUL] @ body))))"

definition isLowerHex :: "char \<Rightarrow> bool" where
  "isLowerHex c \<longleftrightarrow> isDigit c \<or> 97 \<le> byte c \<and> byte c \<le> 102"

definition digestPattern :: "string \<Rightarrow> bool" where
  "digestPattern s \<longleftrightarrow> take 7 s = ''sha256:'' \<and> length s = 71 \<and> list_all isLowerHex (drop 7 s)"

definition isLowerLetter :: "char \<Rightarrow> bool" where
  "isLowerLetter c \<longleftrightarrow> 97 \<le> byte c \<and> byte c \<le> 122"

definition reasonPattern :: "string \<Rightarrow> bool" where
  "reasonPattern s \<longleftrightarrow> (case s of [] \<Rightarrow> False
     | c # cs \<Rightarrow> isLowerLetter c \<and> length cs \<le> 63 \<and> list_all (\<lambda>d. isLowerLetter d \<or> isDigit d \<or> d = CHR ''_'') cs)"

definition validateID :: "plan_env \<Rightarrow> string \<Rightarrow> (erasure_error, unit) result" where
  "validateID env value = reject (peParseID env value = None) (ErrInvalidPlan ''invalid ID'')"

definition validateOptionalID :: "plan_env \<Rightarrow> string option \<Rightarrow> (erasure_error, unit) result" where
  "validateOptionalID env value = (case value of None \<Rightarrow> ok | Some v \<Rightarrow> validateID env v)"

definition nonNegativeDecimal :: "string \<Rightarrow> bool" where
  "nonNegativeDecimal v \<longleftrightarrow> v = ''0'' \<or> (case v of [] \<Rightarrow> False | c # cs \<Rightarrow> isDigit c \<and> c \<noteq> CHR ''0'' \<and> list_all isDigit cs)"

definition positiveDecimal :: "string \<Rightarrow> bool" where
  "positiveDecimal v \<longleftrightarrow> v \<noteq> '''' \<and> v \<noteq> ''0'' \<and> nonNegativeDecimal v"

fun hasDuplicate :: "string list \<Rightarrow> bool" where
  "hasDuplicate (a # b # rest) \<longleftrightarrow> b = a \<or> hasDuplicate (b # rest)"
| "hasDuplicate _ \<longleftrightarrow> False"

definition strictSortedStrings :: "string list \<Rightarrow> bool" where
  "strictSortedStrings v \<longleftrightarrow> sorted v \<and> \<not> hasDuplicate v"

text \<open>The value \<^verbatim>\<open>strconv.ParseUint\<close> returns when its error is ignored: it saturates.\<close>

definition parseUint :: "string \<Rightarrow> nat" where
  "parseUint s = (if s \<noteq> [] \<and> list_all isDigit s then min (digits_value s) (2 ^ 64 - 1) else 0)"

definition compareNullable :: "string option \<Rightarrow> string option \<Rightarrow> int" where
  "compareNullable left right =
     (case (left, right) of (None, None) \<Rightarrow> 0 | (None, Some _) \<Rightarrow> - 1 | (Some _, None) \<Rightarrow> 1
      | (Some a, Some b) \<Rightarrow> if a < b then - 1 else if b < a then 1 else 0)"

definition compareTarget :: "EffectiveTarget \<Rightarrow> EffectiveTarget \<Rightarrow> int" where
  "compareTarget a b =
     (let ad = parseUint (etLineageDepth a); bd = parseUint (etLineageDepth b);
          c = compareNullable (etSourceErasureEventID a) (etSourceErasureEventID b)
      in if ad < bd then - 1 else if bd < ad then 1 else if c \<noteq> 0 then c
         else if etContentID a < etContentID b then - 1 else if etContentID b < etContentID a then 1 else 0)"

section \<open>Targets\<close>

record targetsState =
  tsPrevious :: "EffectiveTarget option"
  tsEvents :: "string set"
  tsContents :: "string set"

definition targetStep :: "plan_env \<Rightarrow> targetsState \<Rightarrow> EffectiveTarget \<Rightarrow> (erasure_error, targetsState) result" where
  "targetStep env st value =
     andThen (checkE (validateID env) [etContentID value, etErasureEventID value])
    (andThen (validateOptionalID env (etSourceErasureEventID value))
    (andThen (reject (etContentClass value = '''' \<or> etErasurePolicy value \<noteq> ''independent'' \<and> etErasurePolicy value \<noteq> ''resident_only''
        \<or> \<not> digestPattern (etCommitment value) \<or> \<not> nonNegativeDecimal (etLineageDepth value)) (ErrInvalidPlan ''invalid target''))
    (andThen (reject (etContentID value \<in> tsContents st) (ErrInvalidPlan ''duplicate target''))
    (andThen (reject (etErasureEventID value \<in> tsEvents st) (ErrInvalidPlan ''duplicate event''))
    (andThen (reject (case tsPrevious st of None \<Rightarrow> False | Some previous \<Rightarrow> 0 \<le> compareTarget previous value)
        (ErrInvalidPlan ''targets unordered''))
    (Inr \<lparr>tsPrevious = Some value, tsEvents = insert (etErasureEventID value) (tsEvents st),
          tsContents = insert (etContentID value) (tsContents st)\<rparr>))))))"

definition checkTargetSource :: "string \<Rightarrow> string set \<Rightarrow> EffectiveTarget \<Rightarrow> (erasure_error, unit) result" where
  "checkTargetSource scope events value =
     (let depth = parseUint (etLineageDepth value) in
      andThen (reject (depth = 0 \<and> etSourceErasureEventID value \<noteq> None) (ErrInvalidPlan ''root has source''))
     (andThen (if depth > 0
        then (case etSourceErasureEventID value of None \<Rightarrow> Inl (ErrInvalidPlan ''derived target lacks source'')
              | Some source \<Rightarrow> reject (source \<notin> events) (ErrInvalidPlan ''derived source outside plan''))
        else ok)
     (reject (scope = ScopeContent \<and> etErasurePolicy value \<noteq> ''independent'')
        (ErrInvalidPlan ''resident-only target in content scope''))))"

definition validateTargets :: "plan_env \<Rightarrow> Plan \<Rightarrow> (erasure_error, unit) result" where
  "validateTargets env plan =
     (case foldE (targetStep env) \<lparr>tsPrevious = None, tsEvents = {}, tsContents = {}\<rparr> (plEffectiveTargets plan) of
        Inl e \<Rightarrow> Inl e
      | Inr st \<Rightarrow> checkE (checkTargetSource (plScope plan) (tsEvents st)) (plEffectiveTargets plan))"

section \<open>Impacts\<close>

definition checkDecision :: "plan_env \<Rightarrow> Impact \<Rightarrow> (erasure_error, unit) result" where
  "checkDecision env value =
     (let review = reject (case imDecision value of None \<Rightarrow> False
            | Some d \<Rightarrow> d \<noteq> ''retain'' \<and> \<not> (imDecisionMode value = ''content_candidate'' \<and> d = ''erase''))
          (ErrInvalidPlan ''invalid review decision'')
      in if imDecisionMode value = ''none''
         then reject (imCandidateContentID value \<noteq> None \<or> imDecision value \<noteq> None) (ErrInvalidPlan ''non-review impact has decision'')
         else if imDecisionMode value = ''content_candidate''
         then (case imCandidateContentID value of None \<Rightarrow> Inl (ErrInvalidPlan ''content candidate missing'')
               | Some candidate \<Rightarrow> andThen (validateID env candidate) review)
         else if imDecisionMode value = ''consequence_only''
         then andThen (reject (imCandidateContentID value \<noteq> None) (ErrInvalidPlan ''consequence has candidate'')) review
         else Inl (ErrInvalidPlan ''invalid decision mode''))"

definition impactStep :: "plan_env \<Rightarrow> string \<Rightarrow> Impact \<Rightarrow> (erasure_error, string) result" where
  "impactStep env previous value =
     andThen (reject (\<not> digestPattern (imImpactID value) \<or> imReferrerID value = '''' \<or> \<not> strictSortedStrings (imActions value))
        (ErrInvalidPlan ''invalid impact''))
    (andThen (reject (ImpactID env value \<noteq> Inr (imImpactID value)) (ErrInvalidPlan ''impact ID mismatch''))
    (andThen (reject (previous \<noteq> '''' \<and> imImpactID value \<le> previous) (ErrInvalidPlan ''impacts unordered''))
    (andThen (validateImpactAgainstCatalog value)
    (andThen (checkDecision env value) (Inr (imImpactID value))))))"

definition validateImpacts :: "plan_env \<Rightarrow> Plan \<Rightarrow> (erasure_error, unit) result" where
  "validateImpacts env plan =
     (case foldE (impactStep env) '''' (plImpacts plan) of Inl e \<Rightarrow> Inl e | Inr _ \<Rightarrow> ok)"

section \<open>Planned effects\<close>

definition nulJoin :: "string list \<Rightarrow> string" where
  "nulJoin parts = concat (map (\<lambda>s. s @ [NUL]) (butlast parts)) @ last parts"

text \<open>A loop that checks an element, then that its key follows the previous one.\<close>

definition orderedStep :: "('a \<Rightarrow> (erasure_error, unit) result) \<Rightarrow> ('a \<Rightarrow> string) \<Rightarrow> string \<Rightarrow> string \<Rightarrow> 'a \<Rightarrow> (erasure_error, string) result" where
  "orderedStep check key message previous value =
     andThen (check value)
    (andThen (reject (previous \<noteq> '''' \<and> key value \<le> previous) (ErrInvalidPlan message)) (Inr (key value)))"

definition checkOrdered :: "('a \<Rightarrow> (erasure_error, unit) result) \<Rightarrow> ('a \<Rightarrow> string) \<Rightarrow> string \<Rightarrow> 'a list \<Rightarrow> (erasure_error, unit) result" where
  "checkOrdered check key message values =
     (case foldE (orderedStep check key message) '''' values of Inl e \<Rightarrow> Inl e | Inr _ \<Rightarrow> ok)"

definition checkFinding :: "plan_env \<Rightarrow> PlannedFindingRow \<Rightarrow> (erasure_error, unit) result" where
  "checkFinding env v =
     andThen (checkE (validateID env) [pnIntegrityFindingID v, pnTargetID v, pnResidentID v, pnPipelineVersionID v])
    (andThen (validateOptionalID env (pnClaimID v))
    (andThen (validateOptionalID env (pnSourceContentErasureEventID v))
    (reject (pnDetailsContentID v \<noteq> None \<or> \<not> digestPattern (pnFindingFingerprint v) \<or> pnFindingKind v \<noteq> ''required_provenance_erased'')
      (ErrInvalidPlan ''invalid finding''))))"

definition findingKey :: "PlannedFindingRow \<Rightarrow> string" where
  "findingKey v = nulJoin [pnFindingFingerprint v, pnIntegrityFindingID v]"

definition checkExistingFinding :: "plan_env \<Rightarrow> ExistingFindingDependency \<Rightarrow> (erasure_error, unit) result" where
  "checkExistingFinding env v =
     andThen (checkE (validateID env) [xdIntegrityFindingID v, xdClaimID v, xdPipelineVersionID v])
    (reject (\<not> digestPattern (xdFindingFingerprint v)) (ErrInvalidPlan ''invalid existing finding''))"

definition existingFindingKey :: "ExistingFindingDependency \<Rightarrow> string" where
  "existingFindingKey v = nulJoin [xdFindingFingerprint v, xdIntegrityFindingID v]"

definition checkQuarantine :: "plan_env \<Rightarrow> PlannedQuarantine \<Rightarrow> (erasure_error, unit) result" where
  "checkQuarantine env v =
     andThen (checkE (validateID env) [pqStatusTransitionID v, pqClaimID v, pqTriggerIntegrityFindingID v, pqPipelineVersionID v])
    (andThen (reject (pqFromStatus v \<noteq> ''active'' \<or> pqToStatus v \<noteq> ''quarantined'' \<or> pqDecisionKind v \<noteq> ''automatic''
        \<or> pqActorPrincipalID v \<noteq> None \<or> pqTriggerKind v \<noteq> ''integrity_finding'' \<or> pqTriggerEventID v \<noteq> None
        \<or> pqTriggerEvidenceID v \<noteq> None \<or> pqTriggerClaimRelationID v \<noteq> None \<or> pqDecisionReasonCode v \<noteq> ''structural_quarantine''
        \<or> pqDecisionReasonContentID v \<noteq> None) (ErrInvalidPlan ''invalid quarantine''))
    (reject (\<not> peIsCanonicalJSON env (pqGateMetrics v)) (ErrInvalidPlan ''invalid gate metrics'')))"

definition quarantineKey :: "PlannedQuarantine \<Rightarrow> string" where
  "quarantineKey v = nulJoin [pqClaimID v, pqStatusTransitionID v]"

definition claimKey :: "'a ClaimIdentityErasure_scheme \<Rightarrow> string" where
  "claimKey v = nulJoin [cyClaimID v, cyClaimStatementErasureEventID v]"

definition claimStep :: "(('a ClaimIdentityErasure_scheme) \<Rightarrow> (erasure_error, unit) result) \<Rightarrow> string \<Rightarrow> string \<Rightarrow> string \<times> string set
    \<Rightarrow> 'a ClaimIdentityErasure_scheme \<Rightarrow> (erasure_error, string \<times> string set) result" where
  "claimStep check unordered duplicate = (\<lambda>(previous, pairIDs) v.
     andThen (check v)
    (andThen (reject (previous \<noteq> '''' \<and> claimKey v \<le> previous) (ErrInvalidPlan unordered))
    (andThen (reject (cyClaimID v \<in> pairIDs) (ErrInvalidPlan duplicate))
    (Inr (claimKey v, insert (cyClaimID v) pairIDs)))))"

definition checkClaimErasure :: "plan_env \<Rightarrow> ClaimIdentityErasure \<Rightarrow> (erasure_error, unit) result" where
  "checkClaimErasure env v = checkE (validateID env)
     [cyClaimStatementErasureEventID v, cyClaimID v, cyStatementContentID v, cyContentErasureEventID v]"

definition checkClaimDependency :: "plan_env \<Rightarrow> ExistingClaimIdentityDependency \<Rightarrow> (erasure_error, unit) result" where
  "checkClaimDependency env v = checkE (validateID env)
     [cyClaimStatementErasureEventID v, cyClaimID v, cyStatementContentID v, cyContentErasureEventID v, cyCanonicalCommitID v]"

definition checkRebuild :: "plan_env \<Rightarrow> Rebuild \<Rightarrow> (erasure_error, unit) result" where
  "checkRebuild env v =
     andThen (validateID env (rbResidentID v))
    (reject (rbProjectionName v = '''' \<or> rbProjectionVersion v = '''' \<or> rbReasonCode v \<noteq> ''content_erasure''
        \<and> rbReasonCode v \<noteq> ''claim_state_change'' \<and> rbReasonCode v \<noteq> ''resident_lifecycle_change'') (ErrInvalidPlan ''invalid rebuild''))"

definition rebuildKey :: "Rebuild \<Rightarrow> string" where
  "rebuildKey v = nulJoin [rbResidentID v, rbProjectionName v, rbProjectionVersion v, rbReasonCode v]"

definition nullableString :: "string option \<Rightarrow> string" where
  "nullableString v = (case v of None \<Rightarrow> '''' | Some s \<Rightarrow> s)"

definition blockerKey :: "Blocker \<Rightarrow> string" where
  "blockerKey v = nulJoin [bkCode v, bkTargetKind v, nullableString (bkTargetID v), nullableString (bkTargetField v)]"

definition checkBlocker :: "plan_env \<Rightarrow> Blocker \<Rightarrow> (erasure_error, unit) result" where
  "checkBlocker env v =
     andThen (validateOptionalID env (bkTargetID v))
    (andThen (reject (\<not> strictSortedStrings (bkRequiredActionCodes v)) (ErrInvalidPlan ''blocker actions unordered''))
    (reject (\<not> validateBlocker v) (ErrInvalidPlan ''invalid blocker'')))"

definition validateEffects :: "plan_env \<Rightarrow> Plan \<Rightarrow> (erasure_error, unit) result" where
  "validateEffects env plan =
     andThen (checkOrdered (checkFinding env) findingKey ''findings unordered'' (plPlannedFindings plan))
    (andThen (checkOrdered (checkExistingFinding env) existingFindingKey ''existing findings unordered''
        (plExistingFindingDependencies plan))
    (andThen (checkOrdered (checkQuarantine env) quarantineKey ''quarantines unordered'' (plPlannedQuarantines plan))
    (case foldE (claimStep (checkClaimErasure env) ''claim erasures unordered'' ''duplicate claim erasure'')
        ('''', {}) (plClaimIdentityErasures plan) of
       Inl e \<Rightarrow> Inl e
     | Inr (_, pairIDs) \<Rightarrow>
         (case foldE (claimStep (checkClaimDependency env) ''claim dependencies unordered'' ''claim both new and existing'')
             ('''', pairIDs) (plExistingClaimIdentityDependencies plan) of
            Inl e \<Rightarrow> Inl e
          | Inr _ \<Rightarrow>
              andThen (checkOrdered (checkRebuild env) rebuildKey ''rebuilds unordered'' (plRebuilds plan))
              (checkOrdered (checkBlocker env) blockerKey ''blockers unordered'' (plBlockers plan))))))"

section \<open>Scope effects\<close>

definition validateScopeEffects :: "plan_env \<Rightarrow> Plan \<Rightarrow> (erasure_error, unit) result" where
  "validateScopeEffects env plan =
     (let effect = plRuntimeConfigEffect plan in
      andThen (checkE (validateOptionalID env) [reExpectedActiveResidentID effect, reResultingActiveResidentID effect])
      (if plScope plan = ScopeContent
       then reject (plResidentTransition plan \<noteq> None \<or> reClearActiveResident effect) (ErrInvalidPlan ''content plan has resident effect'')
       else (case plResidentTransition plan of
          None \<Rightarrow> Inl (ErrInvalidPlan ''resident plan shape'')
        | Some r \<Rightarrow>
            andThen (reject (plRequestedContentIDs plan \<noteq> []) (ErrInvalidPlan ''resident plan shape''))
           (andThen (checkE (validateID env) [rtTransitionID r, rtResidentID r, rtActorPrincipalID r])
           (andThen (reject (rtResidentID r \<noteq> plResidentID plan \<or> rtActorPrincipalID r \<noteq> plActorPrincipalID plan \<or> rtToStatus r \<noteq> ''erased''
               \<or> rtFromStatus r \<noteq> ''draft'' \<and> rtFromStatus r \<noteq> ''active'' \<and> rtFromStatus r \<noteq> ''archived''
               \<or> rtReasonContentID r \<noteq> None \<or> rtReasonCode r \<noteq> plReasonCode plan) (ErrInvalidPlan ''resident transition differs''))
           (if reClearActiveResident effect
            then reject (reExpectedActiveResidentID effect \<noteq> Some (plResidentID plan) \<or> reResultingActiveResidentID effect \<noteq> None)
              (ErrInvalidPlan ''invalid selection clear'')
            else reject (reExpectedActiveResidentID effect \<noteq> None \<or> reResultingActiveResidentID effect \<noteq> None)
              (ErrInvalidPlan ''inactive selection effect has identities'')))))))"

section \<open>Relationships\<close>

definition indexBy :: "('a \<Rightarrow> 'k) \<Rightarrow> 'a list \<Rightarrow> 'k \<rightharpoonup> 'a" where
  "indexBy key xs = foldl (\<lambda>m x. m(key x \<mapsto> x)) Map.empty xs"

text \<open>\<^verbatim>\<open>parentDepth+1 != depth\<close> on \<^verbatim>\<open>uint64\<close>.\<close>

definition depthFollows :: "EffectiveTarget \<Rightarrow> EffectiveTarget \<Rightarrow> bool" where
  "depthFollows parent target \<longleftrightarrow> (parseUint (etLineageDepth parent) + 1) mod 2 ^ 64 = parseUint (etLineageDepth target)"

definition relateTarget :: "Plan \<Rightarrow> (string \<rightharpoonup> EffectiveTarget) \<Rightarrow> EffectiveTarget \<Rightarrow> (erasure_error, string \<rightharpoonup> EffectiveTarget) result" where
  "relateTarget plan byEvent target =
     (let byEvent' = byEvent(etErasureEventID target \<mapsto> target); depth = parseUint (etLineageDepth target) in
      andThen (reject (plScope plan = ScopeContent \<and> (depth = 0) \<noteq> (etContentID target \<in> set (plRequestedContentIDs plan)))
        (ErrInvalidPlan ''requested roots and depth-zero targets differ''))
      (andThen (if depth > 0
         then (case byEvent' (nullableString (etSourceErasureEventID target)) of None \<Rightarrow> ok
               | Some parent \<Rightarrow> reject (\<not> depthFollows parent target) (ErrInvalidPlan ''lineage depth is not parent depth plus one''))
         else ok)
      (Inr byEvent')))"

definition relateRequested :: "Plan \<Rightarrow> (erasure_error, unit) result" where
  "relateRequested plan =
     (if plScope plan = ScopeContent \<and> plBlockers plan = []
      then checkE (\<lambda>i. reject (case indexBy etContentID (plEffectiveTargets plan) i of None \<Rightarrow> True | Some t \<Rightarrow> etLineageDepth t \<noteq> ''0'')
        (ErrInvalidPlan ''requested root missing from targets'')) (plRequestedContentIDs plan)
      else ok)"

definition impactByRuleRef :: "Plan \<Rightarrow> string \<Rightarrow> string \<Rightarrow> Impact option" where
  "impactByRuleRef plan rule ref = indexBy (\<lambda>i. nulJoin [imRuleID i, imReferrerID i]) (plImpacts plan) (nulJoin [rule, ref])"

definition relateImpactReferrer :: "plan_env \<Rightarrow> Impact \<Rightarrow> (erasure_error, unit) result" where
  "relateImpactReferrer env impact =
     (if imRuleID impact \<noteq> ''projection_derived_state_v1'' then validateID env (imReferrerID impact) else ok)"

definition relateDerived :: "Plan \<Rightarrow> EffectiveTarget \<Rightarrow> (erasure_error, unit) result" where
  "relateDerived plan target =
     (if parseUint (etLineageDepth target) = 0 then ok
      else (case indexBy etErasureEventID (plEffectiveTargets plan) (nullableString (etSourceErasureEventID target)) of
          None \<Rightarrow> Inl (ErrInvalidPlan ''derived source is not a target'')
        | Some parent \<Rightarrow>
            andThen (reject (\<not> depthFollows parent target) (ErrInvalidPlan ''lineage depth is not parent depth plus one''))
            (reject (impactByRuleRef plan ''explicit_lineage_exact_bytes_v1'' (etContentID target) = None)
              (ErrInvalidPlan ''derived target lacks must-erase impact''))))"

definition relateMustErase :: "Plan \<Rightarrow> Impact \<Rightarrow> (erasure_error, unit) result" where
  "relateMustErase plan impact =
     reject (imRuleID impact = ''explicit_lineage_exact_bytes_v1''
        \<and> (case indexBy etContentID (plEffectiveTargets plan) (imReferrerID impact) of None \<Rightarrow> True | Some t \<Rightarrow> etLineageDepth t = ''0''))
      (ErrInvalidPlan ''must-erase impact is not a derived target'')"

definition relateClaimErasure :: "Plan \<Rightarrow> ClaimIdentityErasure \<Rightarrow> (erasure_error, unit) result" where
  "relateClaimErasure plan pair =
     reject (case indexBy etContentID (plEffectiveTargets plan) (cyStatementContentID pair) of None \<Rightarrow> True
        | Some t \<Rightarrow> cyContentErasureEventID pair \<noteq> etErasureEventID t)
      (ErrInvalidPlan ''claim erasure is not bound to its target event'')"

definition relateClaimDependency :: "Plan \<Rightarrow> ExistingClaimIdentityDependency \<Rightarrow> (erasure_error, unit) result" where
  "relateClaimDependency plan dependency =
     reject (plScope plan \<noteq> ScopeResident
        \<or> indexBy etContentID (plEffectiveTargets plan) (cyStatementContentID dependency) \<noteq> None)
      (ErrInvalidPlan ''existing claim dependency is not historical resident state'')"

definition parsedID :: "plan_env \<Rightarrow> string \<Rightarrow> ID" where
  "parsedID env s = (case peParseID env s of None \<Rightarrow> 0 | Some i \<Rightarrow> i)"

definition claimCandidate :: "ID \<Rightarrow> ID \<Rightarrow> string \<Rightarrow> string \<Rightarrow> string \<Rightarrow> ID option \<Rightarrow> CandidateInput" where
  "claimCandidate resident claim kind rule field source =
     \<lparr>ciResidentID = resident, ciClaimID = Some claim, ciKind = kind, ciRuleCode = rule, ciTargetKind = ''claim'', ciTargetID = claim,
      ciTargetField = field, ciSourceContentErasureEventID = source, ciOccurredAt = 0, ciOccurredTZ = ''UTC''\<rparr>"

text \<open>\<^verbatim>\<open>err != nil || fingerprint != "sha256:"+candidate.Fingerprint.Hex()\<close>\<close>

definition fingerprintDiffers :: "plan_env \<Rightarrow> CandidateInput \<Rightarrow> string \<Rightarrow> bool" where
  "fingerprintDiffers env input fingerprint =
     (case NewCandidate (peFinding env) input of Inl _ \<Rightarrow> True
      | Inr c \<Rightarrow> fingerprint \<noteq> ''sha256:'' @ Digest_Hex (ciFingerprint c))"

definition relateFindingRule :: "Plan \<Rightarrow> PlannedFindingRow \<Rightarrow> string \<Rightarrow> string \<Rightarrow> (erasure_error, unit) result" where
  "relateFindingRule plan finding claim source =
     (if pnRuleCode finding = RuleClaimStatementErased
      then andThen (reject (pnTargetField finding \<noteq> ''statement_content_id'') (ErrInvalidPlan ''statement finding field differs''))
        (reject (case indexBy cyClaimID (plClaimIdentityErasures plan) claim of None \<Rightarrow> True
            | Some pair \<Rightarrow> cyContentErasureEventID pair \<noteq> source) (ErrInvalidPlan ''finding is not bound to claim erasure''))
      else if pnRuleCode finding = RuleClaimQualifyingSupportErased
      then andThen (reject (pnTargetField finding \<noteq> ''qualifying_support'') (ErrInvalidPlan ''support finding field differs''))
        (reject (indexBy etErasureEventID (plEffectiveTargets plan) source = None)
          (ErrInvalidPlan ''support finding source is not a planned erasure''))
      else Inl (ErrInvalidPlan ''unsupported planned finding rule''))"

definition relateFinding :: "plan_env \<Rightarrow> Plan \<Rightarrow> PlannedFindingRow \<Rightarrow> (erasure_error, unit) result" where
  "relateFinding env plan finding =
     (case (pnClaimID finding, pnSourceContentErasureEventID finding) of
        (Some claim, Some source) \<Rightarrow>
          andThen (reject (pnResidentID finding \<noteq> plResidentID plan \<or> pnPipelineVersionID finding \<noteq> plIntegrityPipelineVersionID plan
              \<or> pnFindingKind finding \<noteq> FindingRequiredProvenanceErased \<or> pnTargetKind finding \<noteq> ''claim'' \<or> pnTargetID finding \<noteq> claim)
            (ErrInvalidPlan ''planned finding tuple differs''))
         (andThen (relateFindingRule plan finding claim source)
         (reject (fingerprintDiffers env (claimCandidate (parsedID env (plResidentID plan)) (parsedID env claim)
              FindingRequiredProvenanceErased (pnRuleCode finding) (pnTargetField finding) (Some (parsedID env source)))
              (pnFindingFingerprint finding)) (ErrInvalidPlan ''planned finding fingerprint differs'')))
      | _ \<Rightarrow> Inl (ErrInvalidPlan ''planned finding tuple differs''))"

definition existingShape :: "ExistingFindingDependency \<Rightarrow> (erasure_error, string) result" where
  "existingShape finding =
     (let kind = xdFindingKind finding; source = xdSourceContentErasureEventID finding in
      if xdRuleCode finding = RuleClaimStatementErased
      then andThen (reject (kind \<noteq> FindingRequiredProvenanceErased \<or> source = None) (ErrInvalidPlan ''existing statement finding tuple differs''))
        (Inr ''statement_content_id'')
      else if xdRuleCode finding = RuleClaimQualifyingSupportErased
      then andThen (reject (kind \<noteq> FindingRequiredProvenanceErased \<or> source = None) (ErrInvalidPlan ''existing support finding tuple differs''))
        (Inr ''qualifying_support'')
      else if xdRuleCode finding = RuleClaimQualifyingSupportUnresolvable
      then andThen (reject (kind \<noteq> FindingProvenanceUnresolvable \<or> source \<noteq> None) (ErrInvalidPlan ''existing unresolvable finding tuple differs''))
        (Inr ''qualifying_support'')
      else Inl (ErrInvalidPlan ''existing finding tuple differs''))"

definition relateExistingFinding :: "plan_env \<Rightarrow> Plan \<Rightarrow> ExistingFindingDependency \<Rightarrow> (erasure_error, unit) result" where
  "relateExistingFinding env plan finding =
     (case existingShape finding of Inl e \<Rightarrow> Inl e
      | Inr field \<Rightarrow>
          reject (fingerprintDiffers env (claimCandidate (parsedID env (plResidentID plan)) (parsedID env (xdClaimID finding))
              (xdFindingKind finding) (xdRuleCode finding) field (map_option (parsedID env) (xdSourceContentErasureEventID finding)))
              (xdFindingFingerprint finding)) (ErrInvalidPlan ''existing finding fingerprint differs''))"

definition gateMetricsReason :: string where
  "gateMetricsReason = ''{'' @ [CHR 0x22] @ ''reason'' @ [CHR 0x22] @ '':'' @ [CHR 0x22] @ ''required_provenance_erased'' @ [CHR 0x22] @ ''}''"

definition relateQuarantine :: "Plan \<Rightarrow> PlannedQuarantine \<Rightarrow> (erasure_error, unit) result" where
  "relateQuarantine plan quarantine =
     andThen (reject (pqPipelineVersionID quarantine \<noteq> plMemoryStatusPipelineVersionID plan \<or> pqGateMetrics quarantine \<noteq> gateMetricsReason)
       (ErrInvalidPlan ''quarantine pipeline or gate metrics differs''))
     (let planned = indexBy pnIntegrityFindingID (plPlannedFindings plan) (pqTriggerIntegrityFindingID quarantine);
          existing = indexBy xdIntegrityFindingID (plExistingFindingDependencies plan) (pqTriggerIntegrityFindingID quarantine);
          claim = (case planned of Some f \<Rightarrow> pnClaimID f | None \<Rightarrow> map_option xdClaimID existing)
      in reject (claim \<noteq> Some (pqClaimID quarantine)) (ErrInvalidPlan ''quarantine trigger does not target its claim''))"

text \<open>
  The set \<^verbatim>\<open>provenanceActions[claim]\<close> as a sorted list: a planned finding asks for a record, a planned
  quarantine for the quarantine. The empty list stands for a claim without an entry.
\<close>

definition provenanceActions :: "Plan \<Rightarrow> string \<Rightarrow> string list" where
  "provenanceActions plan claim =
     (if \<exists>q\<in>set (plPlannedQuarantines plan). pqClaimID q = claim then [''quarantine_claim''] else [])
     @ (if \<exists>f\<in>set (plPlannedFindings plan). pnClaimID f = Some claim then [''record_integrity_finding''] else [])"

definition relateProvenanceImpact :: "Plan \<Rightarrow> Impact \<Rightarrow> (erasure_error, unit) result" where
  "relateProvenanceImpact plan impact =
     (if imRuleID impact \<noteq> ''claim_provenance_break_v1'' then ok
      else andThen (reject (provenanceActions plan (imReferrerID impact) = []) (ErrInvalidPlan ''provenance impact has no planned effect''))
        (reject (imActions impact \<noteq> provenanceActions plan (imReferrerID impact)) (ErrInvalidPlan ''provenance actions differ'')))"

definition affectedClaims :: "Plan \<Rightarrow> string list" where
  "affectedClaims plan = map pqClaimID (plPlannedQuarantines plan) @ concat (map (\<lambda>f. case pnClaimID f of None \<Rightarrow> [] | Some c \<Rightarrow> [c]) (plPlannedFindings plan))"

definition relateProvenance :: "plan_env \<Rightarrow> Plan \<Rightarrow> (erasure_error, unit) result" where
  "relateProvenance env plan =
     andThen (checkE (relateFinding env plan) (plPlannedFindings plan))
    (andThen (checkE (relateExistingFinding env plan) (plExistingFindingDependencies plan))
    (andThen (checkE (\<lambda>pair. reject (\<not> (\<exists>f\<in>set (plPlannedFindings plan). pnRuleCode f = RuleClaimStatementErased \<and> pnClaimID f = Some (cyClaimID pair)))
        (ErrInvalidPlan ''claim identity erasure lacks provenance finding'')) (plClaimIdentityErasures plan))
    (andThen (checkE (relateQuarantine plan) (plPlannedQuarantines plan))
    (andThen (checkE (relateProvenanceImpact plan) (plImpacts plan))
    (checkE (\<lambda>claim. reject (\<not> (\<exists>i\<in>set (plImpacts plan). imRuleID i = ''claim_provenance_break_v1'' \<and> imReferrerID i = claim))
        (ErrInvalidPlan ''planned provenance effect lacks impact'')) (affectedClaims plan))))))"

definition rebuildReasons :: "Plan \<Rightarrow> string \<Rightarrow> string set" where
  "rebuildReasons plan name = rbReasonCode ` {r \<in> set (plRebuilds plan). rbProjectionName r = name}"

definition rebuildStep :: "(string \<rightharpoonup> string) \<Rightarrow> Rebuild \<Rightarrow> (erasure_error, string \<rightharpoonup> string) result" where
  "rebuildStep versions rebuild =
     andThen (reject (case versions (rbProjectionName rebuild) of None \<Rightarrow> False | Some v \<Rightarrow> v \<noteq> rbProjectionVersion rebuild)
       (ErrInvalidPlan ''projection rebuild versions differ''))
     (Inr (versions(rbProjectionName rebuild \<mapsto> rbProjectionVersion rebuild)))"

definition relateProjection :: "Plan \<Rightarrow> Rebuild \<Rightarrow> (erasure_error, unit) result" where
  "relateProjection plan rebuild =
     (let name = rbProjectionName rebuild; reasons = rebuildReasons plan name in
      andThen (reject (''content_erasure'' \<notin> reasons) (ErrInvalidPlan ''projection lacks content erasure rebuild''))
     (andThen (reject (plPlannedQuarantines plan \<noteq> [] \<and> ''claim_state_change'' \<notin> reasons) (ErrInvalidPlan ''projection lacks claim-state rebuild''))
     (andThen (reject (plScope plan = ScopeResident \<and> ''resident_lifecycle_change'' \<notin> reasons)
        (ErrInvalidPlan ''projection lacks resident lifecycle rebuild''))
     (reject (impactByRuleRef plan ''projection_derived_state_v1'' name = None) (ErrInvalidPlan ''projection rebuild lacks impact'')))))"

definition relateProjections :: "Plan \<Rightarrow> (erasure_error, unit) result" where
  "relateProjections plan =
     (case foldE rebuildStep Map.empty (plRebuilds plan) of Inl e \<Rightarrow> Inl e
      | Inr versions \<Rightarrow>
          andThen (checkE (relateProjection plan) (plRebuilds plan))
          (checkE (\<lambda>i. reject (imRuleID i = ''projection_derived_state_v1'' \<and> versions (imReferrerID i) = None)
             (ErrInvalidPlan ''projection impact lacks rebuild'')) (plImpacts plan)))"

definition relateLifecycle :: "Plan \<Rightarrow> (erasure_error, unit) result" where
  "relateLifecycle plan =
     (let lifecycle = filter (\<lambda>i. imRuleID i = ''resident_lifecycle_erase_v1'') (plImpacts plan) in
      andThen (reject (\<exists>i\<in>set lifecycle. imReferrerID i \<noteq> plResidentID plan) (ErrInvalidPlan ''lifecycle impact targets another resident''))
      (if plScope plan = ScopeContent
       then reject (impactByRuleRef plan ''resident_lifecycle_erase_v1'' (plResidentID plan) \<noteq> None \<or> lifecycle \<noteq> [])
         (ErrInvalidPlan ''content plan has lifecycle impact'')
       else (case impactByRuleRef plan ''resident_lifecycle_erase_v1'' (plResidentID plan) of
           None \<Rightarrow> Inl (ErrInvalidPlan ''resident plan lacks lifecycle impact'')
         | Some i \<Rightarrow>
             andThen (reject (length lifecycle \<noteq> 1) (ErrInvalidPlan ''resident plan lacks lifecycle impact''))
             (reject ((''clear_runtime_selection'' \<in> set (imActions i)) \<noteq> reClearActiveResident (plRuntimeConfigEffect plan))
               (ErrInvalidPlan ''lifecycle selection action differs'')))))"

definition validatePlanRelationships :: "plan_env \<Rightarrow> Plan \<Rightarrow> (erasure_error, unit) result" where
  "validatePlanRelationships env plan =
     (case foldE (relateTarget plan) Map.empty (plEffectiveTargets plan) of Inl e \<Rightarrow> Inl e
      | Inr _ \<Rightarrow>
          andThen (relateRequested plan)
         (andThen (checkE (relateImpactReferrer env) (plImpacts plan))
         (andThen (checkE (relateDerived plan) (plEffectiveTargets plan))
         (andThen (checkE (relateMustErase plan) (plImpacts plan))
         (andThen (checkE (relateClaimErasure plan) (plClaimIdentityErasures plan))
         (andThen (checkE (relateClaimDependency plan) (plExistingClaimIdentityDependencies plan))
         (andThen (relateProvenance env plan)
         (andThen (relateProjections plan) (relateLifecycle plan)))))))))"

section \<open>The whole plan\<close>

definition plannedMutationCount :: "Plan \<Rightarrow> nat" where
  "plannedMutationCount plan =
     2 * length (plEffectiveTargets plan) + length (plPlannedFindings plan) + length (plPlannedQuarantines plan)
     + 2 * length (plClaimIdentityErasures plan)
     + (if plResidentTransition plan \<noteq> None then 1 else 0) + (if reClearActiveResident (plRuntimeConfigEffect plan) then 1 else 0)"

definition validateTransactionSizeContract :: "Plan \<Rightarrow> (erasure_error, unit) result" where
  "validateTransactionSizeContract plan =
     (let size = filter (\<lambda>b. bkCode b = ''transaction_size_unsupported'') (plBlockers plan) in
      andThen (checkE (\<lambda>b. reject (bkTargetID b \<noteq> Some (plResidentID plan)) (ErrInvalidPlan ''transaction-size blocker resident differs'')) size)
      (reject ((MaxSingleTransactionMutations < plannedMutationCount plan) \<noteq> (size \<noteq> []))
        (ErrInvalidPlan ''transaction-size blocker does not match mutation bound'')))"

definition unresolved :: "Plan \<Rightarrow> bool" where
  "unresolved plan \<longleftrightarrow> (\<exists>i\<in>set (plImpacts plan). imDecisionMode i \<noteq> ''none'' \<and> imDecision i = None)"

definition checkState :: "Plan \<Rightarrow> (erasure_error, unit) result" where
  "checkState plan =
     andThen (reject (plPlanState plan = StateReady \<and> (unresolved plan \<or> plBlockers plan \<noteq> [])) (ErrInvalidPlan ''ready plan is unresolved/blocked''))
     (reject (plPlanState plan = StateReviewRequired \<and> \<not> unresolved plan \<and> plBlockers plan = [])
       (ErrInvalidPlan ''review state has no unresolved review''))"

definition checkDigest :: "plan_env \<Rightarrow> Plan \<Rightarrow> (erasure_error, unit) result" where
  "checkDigest env plan =
     andThen (reject (\<not> digestPattern (plDigest plan)) (ErrInvalidPlan ''invalid digest''))
     (case computePlanDigest env plan of Inl e \<Rightarrow> Inl e
      | Inr want \<Rightarrow> reject (want \<noteq> plDigest plan) (ErrPlanDigestMismatch ''plan digest''))"

definition validatePlan :: "plan_env \<Rightarrow> Plan \<Rightarrow> bool \<Rightarrow> (erasure_error, unit) result" where
  "validatePlan env plan verifyDigest =
     andThen (reject (plFormatVersion plan \<noteq> PlanFormatVersion \<or> plRulesVersion plan \<noteq> ImpactRulesVersion
         \<or> plExternalCopyNotice plan \<noteq> ExternalCopyNotice) (ErrInvalidPlan ''version/notice differs''))
    (andThen (reject (plScope plan \<noteq> ScopeContent \<and> plScope plan \<noteq> ScopeResident) (ErrInvalidPlan ''invalid scope''))
    (andThen (reject (plPlanState plan \<noteq> StateReady \<and> plPlanState plan \<noteq> StateReviewRequired) (ErrInvalidPlan ''invalid state''))
    (andThen (checkE (validateID env) [plResidentID plan, bhCommitID (plBaseHead plan), plActorPrincipalID plan,
         plIntegrityPipelineVersionID plan, plMemoryStatusPipelineVersionID plan])
    (andThen (reject (\<not> positiveDecimal (bhCommitSeq (plBaseHead plan)) \<or> \<not> reasonPattern (plReasonCode plan)) (ErrInvalidPlan ''invalid head/reason''))
    (andThen (reject (plNull plan) (ErrInvalidPlan ''collections must not be null''))
    (andThen (reject (plScope plan = ScopeContent \<and> plRequestedContentIDs plan = []) (ErrInvalidPlan ''content scope has no root''))
    (andThen (reject (\<not> strictSortedStrings (plRequestedContentIDs plan)) (ErrInvalidPlan ''requested IDs unordered''))
    (andThen (checkE (validateID env) (plRequestedContentIDs plan))
    (andThen (validateTargets env plan)
    (andThen (validateImpacts env plan)
    (andThen (validateEffects env plan)
    (andThen (validateScopeEffects env plan)
    (andThen (validatePlanRelationships env plan)
    (andThen (validateTransactionSizeContract plan)
    (andThen (checkState plan)
    (if verifyDigest then checkDigest env plan else ok))))))))))))))))"

definition zeroDigest :: string where
  "zeroDigest = ''sha256:'' @ replicate 64 (CHR ''0'')"

definition Seal :: "plan_env \<Rightarrow> Plan \<Rightarrow> (erasure_error, Plan) result" where
  "Seal env plan =
     (let plan' = plan\<lparr>plFormatVersion := PlanFormatVersion, plRulesVersion := ImpactRulesVersion,
            plExternalCopyNotice := ExternalCopyNotice, plDigest := zeroDigest\<rparr>
      in andThen (validatePlan env plan' False)
         (case computePlanDigest env plan' of Inl e \<Rightarrow> Inl e
          | Inr digest \<Rightarrow>
              (let sealed = plan'\<lparr>plDigest := digest\<rparr>
               in andThen (validatePlan env sealed True) (Inr sealed))))"

definition PlanDigest :: "plan_env \<Rightarrow> Plan \<Rightarrow> (erasure_error, string) result" where
  "PlanDigest env plan = andThen (validatePlan env plan True) (computePlanDigest env plan)"

section \<open>The pure decision round\<close>

definition collectDecision :: "(string \<rightharpoonup> string) \<Rightarrow> DecisionInput \<Rightarrow> (erasure_error, string \<rightharpoonup> string) result" where
  "collectDecision byID d =
     andThen (reject (diDecision d \<noteq> ''retain'' \<and> diDecision d \<noteq> ''erase'') (ErrInvalidPlan ''unknown decision''))
    (andThen (reject (diImpactID d \<in> dom byID) (ErrInvalidPlan ''duplicate decision''))
    (Inr (byID(diImpactID d \<mapsto> diDecision d))))"

definition decideStep :: "(string \<rightharpoonup> string) \<times> Impact list \<Rightarrow> Impact \<Rightarrow> (erasure_error, (string \<rightharpoonup> string) \<times> Impact list) result" where
  "decideStep = (\<lambda>(byID, done) impact.
     if imDecisionMode impact = ''none'' then Inr (byID, done @ [impact])
     else (case byID (imImpactID impact) of
         None \<Rightarrow> Inr (byID, done @ [impact\<lparr>imDecision := None\<rparr>])
       | Some decision \<Rightarrow>
           if imDecisionMode impact = ''consequence_only'' \<and> decision = ''erase''
           then Inl (ErrInvalidPlan ''consequence-only impact cannot be erased'')
           else Inr (byID(imImpactID impact := None), done @ [impact\<lparr>imDecision := Some decision\<rparr>])))"

text \<open>The loop over the decided impacts returns at the first open review or erase decision.\<close>

fun decideOutcome :: "Impact list \<Rightarrow> (erasure_error, string) result" where
  "decideOutcome [] = Inr StateReady"
| "decideOutcome (impact # rest) =
     (if imDecisionMode impact \<noteq> ''none'' \<and> imDecision impact = None then Inr StateReviewRequired
      else if imDecisionMode impact = ''content_candidate'' \<and> imDecision impact = Some ''erase''
      then Inl (ErrReviewRequired ''erase decision requires closure replanning'')
      else decideOutcome rest)"

definition Decide :: "plan_env \<Rightarrow> Plan \<Rightarrow> DecisionInput list \<Rightarrow> (erasure_error, Plan) result" where
  "Decide env plan decisions =
     andThen (validatePlan env plan True)
    (andThen (reject (plBlockers plan \<noteq> []) ErrBlocked)
    (case foldE collectDecision Map.empty decisions of Inl e \<Rightarrow> Inl e
     | Inr byID \<Rightarrow>
         (case foldE decideStep (byID, []) (plImpacts plan) of Inl e \<Rightarrow> Inl e
          | Inr (left, impacts) \<Rightarrow>
              andThen (reject (left \<noteq> Map.empty) (ErrInvalidPlan ''decision names non-review impact''))
              (case decideOutcome impacts of Inl e \<Rightarrow> Inl e
               | Inr state \<Rightarrow> Seal env (plan\<lparr>plImpacts := impacts, plPlanState := state\<rparr>)))))"

section \<open>The apply command\<close>

record applyCommand =
  apPlan :: Plan
  apConfirm :: string
  apScope :: Scope

definition ApplyCommand :: "plan_env \<Rightarrow> Plan \<Rightarrow> string \<Rightarrow> applyCommand" where
  "ApplyCommand env plan confirm =
     \<lparr>apPlan = plan, apConfirm = confirm,
      apScope = (case ResidentScope (parsedID env (plResidentID plan)) of Inl _ \<Rightarrow> None | Inr s \<Rightarrow> s)\<rparr>"

definition RequiresResidentAdmissionFence :: "applyCommand \<Rightarrow> bool" where
  "RequiresResidentAdmissionFence command \<longleftrightarrow> plScope (apPlan command) = ScopeResident"

definition applyCommand_Validate :: "plan_env \<Rightarrow> applyCommand \<Rightarrow> (erasure_error, unit) result" where
  "applyCommand_Validate env command =
     andThen (validatePlan env (apPlan command) True)
    (andThen (reject (plPlanState (apPlan command) \<noteq> StateReady) (ErrReviewRequired ''review required''))
    (andThen (reject (plBlockers (apPlan command) \<noteq> []) ErrBlocked)
    (andThen (reject (apConfirm command \<noteq> plDigest (apPlan command)) (ErrPlanDigestMismatch ''confirmation differs''))
    (case peParseID env (plResidentID (apPlan command)) of
       None \<Rightarrow> Inl (ErasureCanonical (ErrInvalidID ''resident''))
     | Some resident \<Rightarrow>
         (case ResidentScope resident of Inl _ \<Rightarrow> Inl (ErrInvalidPlan ''command scope differs'')
          | Inr want \<Rightarrow> reject (\<not> Scope_Equal want (apScope command)) (ErrInvalidPlan ''command scope differs''))))))"

section \<open>What a valid plan guarantees\<close>

lemma indexBy_snoc: "indexBy key (xs @ [x]) = (indexBy key xs)(key x \<mapsto> x)"
  by (simp add: indexBy_def)

lemma indexBy_Some: "indexBy key xs k = Some x \<Longrightarrow> x \<in> set xs \<and> key x = k"
proof (induction xs rule: rev_induct)
  case Nil
  then show ?case by (simp add: indexBy_def)
next
  case (snoc y xs)
  then show ?case by (auto simp: indexBy_snoc split: if_splits)
qed

lemma indexBy_None: "indexBy key xs k = None \<longleftrightarrow> k \<notin> key ` set xs"
proof (induction xs rule: rev_induct)
  case Nil
  then show ?case by (simp add: indexBy_def)
next
  case (snoc y xs)
  then show ?case by (auto simp: indexBy_snoc)
qed

lemma indexBy_distinct:
  assumes "distinct (map key xs)" and "x \<in> set xs"
  shows "indexBy key xs (key x) = Some x"
proof -
  obtain y where y: "indexBy key xs (key x) = Some y"
    using assms(2) indexBy_None [of key xs "key x"] by (cases "indexBy key xs (key x)") auto
  then show ?thesis using indexBy_Some [OF y] assms by (auto simp: distinct_map inj_on_def)
qed

text \<open>The parts of \<open>validatePlan\<close>.\<close>

lemmas plan_ok = validatePlan_def andThen_ok reject_ok

lemma validatePlan_parts:
  assumes "validatePlan env plan v = ok"
  shows "validateTargets env plan = ok" "validateImpacts env plan = ok" "validateEffects env plan = ok"
    "validateScopeEffects env plan = ok" "validatePlanRelationships env plan = ok"
    "validateTransactionSizeContract plan = ok" "checkState plan = ok" "v \<Longrightarrow> checkDigest env plan = ok"
    "plScope plan = ScopeContent \<or> plScope plan = ScopeResident" "plPlanState plan = StateReady \<or> plPlanState plan = StateReviewRequired"
  using assms unfolding plan_ok by auto

text \<open>Targets: unique contents and events.\<close>

lemma targetStep_ok:
  assumes "targetStep env st t = Inr st'"
  shows "etContentID t \<notin> tsContents st" "etErasureEventID t \<notin> tsEvents st"
    "tsContents st' = insert (etContentID t) (tsContents st)" "tsEvents st' = insert (etErasureEventID t) (tsEvents st)"
  using assms by (auto simp: targetStep_def)

lemma targets_distinct:
  "foldE (targetStep env) st ts = Inr st' \<Longrightarrow> distinct (map etContentID ts) \<and> distinct (map etErasureEventID ts)
     \<and> tsContents st \<inter> etContentID ` set ts = {} \<and> tsEvents st \<inter> etErasureEventID ` set ts = {}
     \<and> tsEvents st' = tsEvents st \<union> etErasureEventID ` set ts"
proof (induction ts arbitrary: st)
  case (Cons t ts)
  then obtain st1 where st1: "targetStep env st t = Inr st1" "foldE (targetStep env) st1 ts = Inr st'"
    by (auto split: sum.splits)
  from Cons.IH [OF st1(2)] targetStep_ok [OF st1(1)] show ?case by auto
qed simp

lemma validateTargets_ok:
  assumes "validateTargets env plan = ok"
  shows "distinct (map etContentID (plEffectiveTargets plan))" "distinct (map etErasureEventID (plEffectiveTargets plan))"
    and "t \<in> set (plEffectiveTargets plan) \<Longrightarrow> parseUint (etLineageDepth t) = 0 \<longleftrightarrow> etSourceErasureEventID t = None"
    and "t \<in> set (plEffectiveTargets plan) \<Longrightarrow> plScope plan = ScopeContent \<Longrightarrow> etErasurePolicy t = ''independent''"
proof -
  obtain st where st: "foldE (targetStep env) \<lparr>tsPrevious = None, tsEvents = {}, tsContents = {}\<rparr> (plEffectiveTargets plan) = Inr st"
      "\<forall>t\<in>set (plEffectiveTargets plan). checkTargetSource (plScope plan) (tsEvents st) t = ok"
    using assms by (auto simp: validateTargets_def case_result_ok [where f = "\<lambda>e. e"])
  show "distinct (map etContentID (plEffectiveTargets plan))" "distinct (map etErasureEventID (plEffectiveTargets plan))"
    using targets_distinct [OF st(1)] by simp_all
  show "parseUint (etLineageDepth t) = 0 \<longleftrightarrow> etSourceErasureEventID t = None" if "t \<in> set (plEffectiveTargets plan)" for t
  proof -
    have "checkTargetSource (plScope plan) (tsEvents st) t = ok" using st(2) that by blast
    then show ?thesis by (auto simp: checkTargetSource_def Let_def split: if_splits option.splits)
  qed
  show "etErasurePolicy t = ''independent''" if "t \<in> set (plEffectiveTargets plan)" "plScope plan = ScopeContent" for t
    using st(2) that by (auto simp: checkTargetSource_def Let_def)
qed

text \<open>Following the source events of a target leads to a root, in as many steps as its depth says.\<close>

definition sourceTarget :: "Plan \<Rightarrow> EffectiveTarget \<Rightarrow> EffectiveTarget \<Rightarrow> bool" where
  "sourceTarget plan t s \<longleftrightarrow> s \<in> set (plEffectiveTargets plan) \<and> etSourceErasureEventID t = Some (etErasureEventID s)"

lemma depthFollows_suc: "depthFollows p t \<Longrightarrow> parseUint (etLineageDepth t) \<noteq> 0 \<Longrightarrow> parseUint (etLineageDepth t) = Suc (parseUint (etLineageDepth p))"
proof -
  assume follows: "depthFollows p t" and pos: "parseUint (etLineageDepth t) \<noteq> 0"
  have "parseUint (etLineageDepth p) < 2 ^ 64" by (simp add: parseUint_def min_less_iff_disj)
  then consider "parseUint (etLineageDepth p) + 1 < 2 ^ 64" | "parseUint (etLineageDepth p) + 1 = 2 ^ 64" by linarith
  then show ?thesis using follows pos by cases (simp_all add: depthFollows_def)
qed

lemma lineage_chain:
  assumes targets: "validateTargets env plan = ok" and rel: "validatePlanRelationships env plan = ok"
    and t: "t \<in> set (plEffectiveTargets plan)"
  shows "\<exists>r\<in>set (plEffectiveTargets plan). (sourceTarget plan ^^ parseUint (etLineageDepth t)) t r \<and> parseUint (etLineageDepth r) = 0"
  using t
proof (induction "parseUint (etLineageDepth t)" arbitrary: t)
  case 0
  then show ?case by (intro bexI [of _ t]) simp_all
next
  case (Suc n)
  have "relateDerived plan t = ok" using rel Suc.prems unfolding validatePlanRelationships_def by (auto split: sum.splits)
  then obtain p where p: "indexBy etErasureEventID (plEffectiveTargets plan) (nullableString (etSourceErasureEventID t)) = Some p"
      "depthFollows p t"
    using Suc.hyps(2) by (auto simp: relateDerived_def split: option.splits)
  obtain source where source: "etSourceErasureEventID t = Some source"
    using validateTargets_ok(3) [OF targets Suc.prems] Suc.hyps(2) by auto
  have mem: "p \<in> set (plEffectiveTargets plan)" "etErasureEventID p = source"
    using indexBy_Some [OF p(1)] by (simp_all add: source nullableString_def)
  have depth: "parseUint (etLineageDepth p) = n" using depthFollows_suc [OF p(2)] Suc.hyps(2) by simp
  obtain r where r: "r \<in> set (plEffectiveTargets plan)" "(sourceTarget plan ^^ n) p r" "parseUint (etLineageDepth r) = 0"
    using Suc.hyps(1) [OF depth [symmetric] mem(1)] depth by blast
  have "sourceTarget plan t p" using mem source by (simp add: sourceTarget_def)
  then have "(sourceTarget plan ^^ Suc n) t r" using r(2) by (meson relpowp_Suc_I2)
  then show ?case using r(1,3) unfolding Suc.hyps(2) [symmetric] by blast
qed

text \<open>In a content plan the roots are what was requested.\<close>

lemma relateTargets_ok:
  assumes "foldE (relateTarget plan) m ts = Inr m'" and "t \<in> set ts" and "plScope plan = ScopeContent"
  shows "parseUint (etLineageDepth t) = 0 \<longleftrightarrow> etContentID t \<in> set (plRequestedContentIDs plan)"
  using assms
proof (induction ts arbitrary: m)
  case (Cons u ts)
  then obtain m1 where m1: "relateTarget plan m u = Inr m1" "foldE (relateTarget plan) m1 ts = Inr m'" by (auto split: sum.splits)
  have u: "parseUint (etLineageDepth u) = 0 \<longleftrightarrow> etContentID u \<in> set (plRequestedContentIDs plan)"
    using m1(1) Cons.prems(3) by (auto simp: relateTarget_def Let_def)
  show ?case using Cons.IH [OF m1(2) _ Cons.prems(3)] Cons.prems(2) u by auto
qed simp

lemma requested_roots:
  assumes rel: "validatePlanRelationships env plan = ok" and scope: "plScope plan = ScopeContent"
  shows "t \<in> set (plEffectiveTargets plan) \<Longrightarrow>
      parseUint (etLineageDepth t) = 0 \<longleftrightarrow> etContentID t \<in> set (plRequestedContentIDs plan)"
    and "plBlockers plan = [] \<Longrightarrow> set (plRequestedContentIDs plan) \<subseteq> etContentID ` set (plEffectiveTargets plan)"
proof -
  obtain m where "foldE (relateTarget plan) Map.empty (plEffectiveTargets plan) = Inr m" and requested: "relateRequested plan = ok"
    using rel unfolding validatePlanRelationships_def by (auto split: sum.splits)
  then show "parseUint (etLineageDepth t) = 0 \<longleftrightarrow> etContentID t \<in> set (plRequestedContentIDs plan)" if "t \<in> set (plEffectiveTargets plan)" for t
    using relateTargets_ok that scope by blast
  show "set (plRequestedContentIDs plan) \<subseteq> etContentID ` set (plEffectiveTargets plan)" if b: "plBlockers plan = []"
  proof
    fix i assume "i \<in> set (plRequestedContentIDs plan)"
    then obtain t where "indexBy etContentID (plEffectiveTargets plan) i = Some t"
      using requested b scope by (auto simp: relateRequested_def split: option.splits)
    then show "i \<in> etContentID ` set (plEffectiveTargets plan)" using indexBy_Some by fastforce
  qed
qed

lemma checkDigest_ok: "checkDigest env plan = ok \<Longrightarrow> computePlanDigest env plan = Inr (plDigest plan)"
  by (auto simp: checkDigest_def split: sum.splits)

lemma apply_ok:
  assumes "applyCommand_Validate env command = ok"
  defines "plan \<equiv> apPlan command"
  shows "plPlanState plan = StateReady" "plBlockers plan = []" "\<not> unresolved plan"
    and "computePlanDigest env plan = Inr (apConfirm command)" "apConfirm command = plDigest plan"
    and "plannedMutationCount plan \<le> MaxSingleTransactionMutations"
    and "\<exists>r. peParseID env (plResidentID plan) = Some r \<and> apScope command = Some r"
    and "plScope plan = ScopeContent \<Longrightarrow> plResidentTransition plan = None \<and> \<not> reClearActiveResident (plRuntimeConfigEffect plan)"
proof -
  have valid: "validatePlan env plan True = ok" and ready: "plPlanState plan = StateReady" and blockers: "plBlockers plan = []"
    and confirm: "apConfirm command = plDigest plan"
    using assms by (simp_all add: applyCommand_Validate_def)
  show "plPlanState plan = StateReady" "plBlockers plan = []" "apConfirm command = plDigest plan" by fact+
  show "computePlanDigest env plan = Inr (apConfirm command)"
    using checkDigest_ok validatePlan_parts(8) [OF valid] confirm by simp
  show "\<not> unresolved plan" using validatePlan_parts(7) [OF valid] ready by (simp add: checkState_def)
  show "plannedMutationCount plan \<le> MaxSingleTransactionMutations"
    using validatePlan_parts(6) [OF valid] blockers by (simp add: validateTransactionSizeContract_def)
  show "\<exists>r. peParseID env (plResidentID plan) = Some r \<and> apScope command = Some r"
    using assms(1) unfolding applyCommand_Validate_def plan_def
    by (auto simp: ResidentScope_def Scope_Equal_def split: option.splits sum.splits if_splits)
  show "plResidentTransition plan = None \<and> \<not> reClearActiveResident (plRuntimeConfigEffect plan)" if "plScope plan = ScopeContent"
    using validatePlan_parts(4) [OF valid] that by (simp add: validateScopeEffects_def Let_def)
qed

section \<open>Sealing\<close>

lemma computePlanDigest_digest [simp]: "computePlanDigest env (plan\<lparr>plDigest := d\<rparr>) = computePlanDigest env plan"
  by (simp add: computePlanDigest_def)

lemma Seal_ok:
  assumes "Seal env plan = Inr sealed"
  shows "validatePlan env sealed True = ok"
    and "sealed = plan\<lparr>plFormatVersion := PlanFormatVersion, plRulesVersion := ImpactRulesVersion,
      plExternalCopyNotice := ExternalCopyNotice, plDigest := plDigest sealed\<rparr>"
    and "validatePlan env (sealed\<lparr>plDigest := zeroDigest\<rparr>) False = ok"
    and "plFormatVersion sealed = PlanFormatVersion" "plRulesVersion sealed = ImpactRulesVersion" "plExternalCopyNotice sealed = ExternalCopyNotice"
  using assms by (auto simp: Seal_def Let_def case_result_ok [where f = "\<lambda>e. e"])

lemma Seal_idempotent:
  assumes "Seal env plan = Inr sealed"
  shows "Seal env sealed = Inr sealed"
proof -
  let ?z = "sealed\<lparr>plDigest := zeroDigest\<rparr>"
  have z: "sealed\<lparr>plFormatVersion := PlanFormatVersion, plRulesVersion := ImpactRulesVersion,
      plExternalCopyNotice := ExternalCopyNotice, plDigest := zeroDigest\<rparr> = ?z"
    using Seal_ok(4-6) [OF assms] by (intro Plan.equality) simp_all
  have digest: "computePlanDigest env sealed = Inr (plDigest sealed)"
    using checkDigest_ok validatePlan_parts(8) [OF Seal_ok(1) [OF assms]] by simp
  have restored: "?z\<lparr>plDigest := plDigest sealed\<rparr> = sealed" by simp
  show ?thesis
    unfolding Seal_def Let_def z using Seal_ok(1,3) [OF assms] digest restored by (simp add: andThen_def)
qed

section \<open>Decisions\<close>

lemma impactSteps_sorted:
  assumes "foldE (impactStep env) previous is = Inr v" and "previous \<noteq> ''''"
  shows "sorted_wrt (<) (previous # map imImpactID is)"
  using assms
proof (induction "is" arbitrary: previous)
  case (Cons i "is")
  then obtain u where u: "impactStep env previous i = Inr u" "foldE (impactStep env) u is = Inr v" by (auto split: sum.splits)
  have step: "u = imImpactID i" "previous < imImpactID i" "imImpactID i \<noteq> ''''"
    using u(1) Cons.prems(2) by (auto simp: impactStep_def digestPattern_def not_le)
  then have "sorted_wrt (<) (imImpactID i # map imImpactID is)" using Cons.IH u(2) by simp
  then show ?case using step(2) by (auto intro: less_trans)
qed simp

lemma impacts_distinct:
  assumes "validateImpacts env plan = ok"
  shows "distinct (map imImpactID (plImpacts plan))"
proof (cases "plImpacts plan")
  case (Cons i "is")
  obtain v where v: "foldE (impactStep env) '''' (i # is) = Inr v"
    using assms by (auto simp: validateImpacts_def Cons split: sum.splits)
  then obtain u where u: "impactStep env '''' i = Inr u" "foldE (impactStep env) u is = Inr v" by (auto split: sum.splits)
  have "u = imImpactID i" "imImpactID i \<noteq> ''''" using u(1) by (auto simp: impactStep_def digestPattern_def)
  then have "sorted_wrt (<) (map imImpactID (i # is))" using impactSteps_sorted [OF u(2)] by simp
  then show ?thesis unfolding Cons strict_sorted_iff by blast
qed simp

definition decided :: "(string \<rightharpoonup> string) \<Rightarrow> Impact \<Rightarrow> Impact" where
  "decided m i = (if imDecisionMode i = ''none'' then i else i\<lparr>imDecision := m (imImpactID i)\<rparr>)"

definition reviewIDs :: "Impact list \<Rightarrow> string set" where
  "reviewIDs is = imImpactID ` {i \<in> set is. imDecisionMode i \<noteq> ''none''}"

lemma decided_cong: "\<forall>i\<in>set is. m (imImpactID i) = m' (imImpactID i) \<Longrightarrow> map (decided m) is = map (decided m') is"
  by (auto simp: decided_def)

lemma decideSteps:
  assumes "foldE decideStep (m, acc) is = Inr (left, out)" and "distinct (map imImpactID is)"
  shows "out = acc @ map (decided m) is \<and> left = m |` (- reviewIDs is)
    \<and> (\<forall>i\<in>set is. imDecisionMode i = ''consequence_only'' \<longrightarrow> m (imImpactID i) \<noteq> Some ''erase'')"
  using assms
proof (induction "is" arbitrary: m acc)
  case Nil
  then show ?case by (simp add: reviewIDs_def)
next
  case (Cons i "is")
  then obtain m1 acc1 where s: "decideStep (m, acc) i = Inr (m1, acc1)" "foldE decideStep (m1, acc1) is = Inr (left, out)"
    by (auto split: sum.splits)
  have step: "acc1 = acc @ [decided m i]" "imDecisionMode i = ''none'' \<longrightarrow> m1 = m"
      "imDecisionMode i \<noteq> ''none'' \<longrightarrow> m1 = m(imImpactID i := None)"
      "imDecisionMode i = ''consequence_only'' \<longrightarrow> m (imImpactID i) \<noteq> Some ''erase''"
    using s(1) by (auto simp: decideStep_def decided_def split: if_splits option.splits)
  have fresh: "imImpactID i \<notin> imImpactID ` set is" using Cons.prems(2) by simp
  then have same: "m1 (imImpactID j) = m (imImpactID j)" if "j \<in> set is" for j
  proof -
    have "imImpactID j \<noteq> imImpactID i" using fresh that by (metis imageI)
    then show ?thesis using step(2,3) by (cases "imDecisionMode i = ''none''") simp_all
  qed
  have IH: "out = acc1 @ map (decided m1) is" "left = m1 |` (- reviewIDs is)"
      "\<forall>j\<in>set is. imDecisionMode j = ''consequence_only'' \<longrightarrow> m1 (imImpactID j) \<noteq> Some ''erase''"
    using Cons.IH [OF s(2)] Cons.prems(2) by simp_all
  have "map (decided m1) is = map (decided m) is" using same by (intro decided_cong) blast
  moreover have "m1 |` (- reviewIDs is) = m |` (- reviewIDs (i # is))"
    using step(2,3) by (cases "imDecisionMode i = ''none''") (auto simp: reviewIDs_def restrict_map_def fun_eq_iff)
  ultimately show ?case using IH step(1,4) same by auto
qed

lemma collectDecision_iff:
  "collectDecision m d = Inr v \<longleftrightarrow> (diDecision d = ''retain'' \<or> diDecision d = ''erase'') \<and> diImpactID d \<notin> dom m
     \<and> v = m(diImpactID d \<mapsto> diDecision d)"
  by (auto simp: collectDecision_def)

lemma decideOutcome_ready:
  "decideOutcome is = Inr state \<Longrightarrow> state = (if \<exists>i\<in>set is. imDecisionMode i \<noteq> ''none'' \<and> imDecision i = None then StateReviewRequired else StateReady)"
  by (induction "is") (auto split: if_splits)

text \<open>A decision round changes the decisions, the state and the digest, and nothing else.\<close>

lemma Decide_ok:
  assumes "Decide env plan ds = Inr p"
  defines "m \<equiv> map_of (map (\<lambda>d. (diImpactID d, diDecision d)) ds)"
  shows "p = plan\<lparr>plImpacts := map (decided m) (plImpacts plan), plPlanState := plPlanState p, plDigest := plDigest p\<rparr>"
    and "\<forall>d\<in>set ds. \<exists>i\<in>set (plImpacts p). imImpactID i = diImpactID d \<and> imDecisionMode i \<noteq> ''none'' \<and> imDecision i = Some (diDecision d)"
    and "plPlanState p = (if unresolved p then StateReviewRequired else StateReady)"
    and "validatePlan env p True = ok"
proof -
  have valid: "validatePlan env plan True = ok" using assms(1) by (simp add: Decide_def)
  obtain byID left impacts state where run: "foldE collectDecision Map.empty ds = Inr byID"
      "foldE decideStep (byID, []) (plImpacts plan) = Inr (left, impacts)" "left = Map.empty"
      "decideOutcome impacts = Inr state" "Seal env (plan\<lparr>plImpacts := impacts, plPlanState := state\<rparr>) = Inr p"
    using assms(1) by (auto simp: Decide_def case_result_ok [where f = "\<lambda>e. e"])
  have byID: "byID = m" and once: "distinct (map diImpactID ds)"
    using run(1) unfolding foldE_seen [OF collectDecision_iff] by (simp_all add: m_def)
  have steps: "impacts = map (decided m) (plImpacts plan)" "m |` (- reviewIDs (plImpacts plan)) = Map.empty"
    using decideSteps [OF run(2) impacts_distinct [OF validatePlan_parts(2) [OF valid]]] run(3) by (simp_all add: byID)
  have version: "plFormatVersion plan = PlanFormatVersion" "plRulesVersion plan = ImpactRulesVersion" "plExternalCopyNotice plan = ExternalCopyNotice"
    using valid unfolding plan_ok by simp_all
  note sealed = Seal_ok(2) [OF run(5)]
  have fields: "plImpacts p = impacts" "plPlanState p = state" by (subst sealed, simp)+
  have "p = plan\<lparr>plImpacts := impacts, plPlanState := state, plDigest := plDigest p\<rparr>"
    by (subst sealed) (use version in \<open>intro Plan.equality, simp_all\<close>)
  then show "p = plan\<lparr>plImpacts := map (decided m) (plImpacts plan), plPlanState := plPlanState p, plDigest := plDigest p\<rparr>"
    using steps(1) fields(2) by simp
  show "validatePlan env p True = ok" by (rule Seal_ok(1) [OF run(5)])
  show "plPlanState p = (if unresolved p then StateReviewRequired else StateReady)"
    using decideOutcome_ready [OF run(4)] fields by (simp add: unresolved_def)
  show "\<forall>d\<in>set ds. \<exists>i\<in>set (plImpacts p). imImpactID i = diImpactID d \<and> imDecisionMode i \<noteq> ''none'' \<and> imDecision i = Some (diDecision d)"
  proof
    fix d assume d: "d \<in> set ds"
    then have md: "m (diImpactID d) = Some (diDecision d)"
      using once by (auto simp: m_def comp_def intro!: map_of_is_SomeI)
    then have "diImpactID d \<in> reviewIDs (plImpacts plan)"
      using steps(2) by (metis ComplI option.distinct(1) restrict_in)
    then obtain i where "i \<in> set (plImpacts plan)" "imDecisionMode i \<noteq> ''none''" "imImpactID i = diImpactID d"
      by (auto simp: reviewIDs_def)
    then show "\<exists>i\<in>set (plImpacts p). imImpactID i = diImpactID d \<and> imDecisionMode i \<noteq> ''none'' \<and> imDecision i = Some (diDecision d)"
      using md unfolding fields steps set_map by (intro bexI [of _ "decided m i"] imageI) (auto simp: decided_def)
  qed
qed

end
