(* ===== verification/Erasure_Cycle.thy ===== *)
theory Erasure_Cycle
  imports Erasure_Closure
begin

text \<open>
  The search for lineage cycles of \<^verbatim>\<open>internal/erasure/planner.go\<close> (\<open>reachableLineageCycle\<close>): a
  depth-first search with three colours and an explicit stack from every root. The recursive closure
  of the source is \<open>visit\<close> with fuel; the fuel the entry point gives it is shown to be enough. The
  search reports a cycle exactly when one is reachable from the roots, and what it reports lies on a
  cycle.
\<close>

section \<open>The search\<close>

definition presentIn :: "closure_env \<Rightarrow> ID \<Rightarrow> bool" where
  "presentIn env i = (case contentByID (xeContents env) i of None \<Rightarrow> False
     | Some c \<Rightarrow> cnResidentID c = xeResidentID env \<and> cnErasureState c = ''present'')"

definition adjacency :: "closure_env \<Rightarrow> LineageEdge list \<Rightarrow> ID \<Rightarrow> ID list" where
  "adjacency env edges parent = remdups_adj (slice_stable (\<lambda>a b. xeIDString env a < xeIDString env b)
     (map leChildContentID (filter (\<lambda>e. leValid e \<and> presentIn env (leParentContentID e)
        \<and> presentIn env (leChildContentID e) \<and> leParentContentID e = parent) edges)))"

record dfsState =
  dsState :: "ID \<Rightarrow> nat"
  dsStack :: "ID list"
  dsIndex :: "ID \<rightharpoonup> nat"
  dsMinimum :: ID

definition dfsStart :: dfsState where
  "dfsStart = \<lparr>dsState = (\<lambda>_. 0), dsStack = [], dsIndex = Map.empty, dsMinimum = 0\<rparr>"

definition enterNode :: "ID \<Rightarrow> dfsState \<Rightarrow> dfsState" where
  "enterNode node ds = ds\<lparr>dsState := (dsState ds)(node := 1), dsIndex := (dsIndex ds)(node \<mapsto> length (dsStack ds)),
     dsStack := dsStack ds @ [node]\<rparr>"

definition leaveNode :: "ID \<Rightarrow> dfsState \<Rightarrow> dfsState" where
  "leaveNode node ds = ds\<lparr>dsStack := butlast (dsStack ds), dsIndex := (dsIndex ds)(node := None),
     dsState := (dsState ds)(node := 2)\<rparr>"

definition cycleCandidate :: "(ID \<Rightarrow> string) \<Rightarrow> ID \<Rightarrow> ID list \<Rightarrow> ID" where
  "cycleCandidate idString child nodes =
     foldl (\<lambda>candidate node. if idString node < idString candidate then node else candidate) child nodes"

definition backEdge :: "closure_env \<Rightarrow> ID \<Rightarrow> dfsState \<Rightarrow> dfsState" where
  "backEdge env child ds =
     (let from = (case dsIndex ds child of None \<Rightarrow> 0 | Some k \<Rightarrow> k);
          candidate = cycleCandidate (xeIDString env) child (drop from (dsStack ds))
      in if dsMinimum ds = 0 \<or> xeIDString env candidate < xeIDString env (dsMinimum ds)
         then ds\<lparr>dsMinimum := candidate\<rparr> else ds)"

fun visit :: "closure_env \<Rightarrow> (ID \<Rightarrow> ID list) \<Rightarrow> nat \<Rightarrow> ID \<Rightarrow> dfsState \<Rightarrow> dfsState option"
  and visitChildren :: "closure_env \<Rightarrow> (ID \<Rightarrow> ID list) \<Rightarrow> nat \<Rightarrow> ID list \<Rightarrow> dfsState \<Rightarrow> dfsState option" where
  "visit env adj 0 node ds = None"
| "visit env adj (Suc n) node ds =
     map_option (leaveNode node) (visitChildren env adj n (adj node) (enterNode node ds))"
| "visitChildren env adj n [] ds = Some ds"
| "visitChildren env adj n (child # rest) ds =
     (if dsState ds child = 0
      then (case visit env adj n child ds of None \<Rightarrow> None | Some ds' \<Rightarrow> visitChildren env adj n rest ds')
      else if dsState ds child = 1 then visitChildren env adj n rest (backEdge env child ds)
      else visitChildren env adj n rest ds)"

fun visitRoots :: "closure_env \<Rightarrow> (ID \<Rightarrow> ID list) \<Rightarrow> nat \<Rightarrow> ID list \<Rightarrow> dfsState \<Rightarrow> dfsState option" where
  "visitRoots env adj n [] ds = Some ds"
| "visitRoots env adj n (root # rest) ds =
     (if dsState ds root = 0
      then (case visit env adj n root ds of None \<Rightarrow> None | Some ds' \<Rightarrow> visitRoots env adj n rest ds')
      else visitRoots env adj n rest ds)"

definition reachableLineageCycle :: "closure_env \<Rightarrow> ID list \<Rightarrow> LineageEdge list \<Rightarrow> (ID \<times> bool) option" where
  "reachableLineageCycle env roots edges =
     map_option (\<lambda>ds. (dsMinimum ds, dsMinimum ds \<noteq> 0))
       (visitRoots env (adjacency env edges) (length roots + length edges) roots dfsStart)"

section \<open>The edges it follows\<close>

definition lineageStep :: "closure_env \<Rightarrow> LineageEdge list \<Rightarrow> ID \<Rightarrow> ID \<Rightarrow> bool" where
  "lineageStep env edges p c \<longleftrightarrow> (\<exists>e\<in>set edges. leValid e \<and> presentIn env p \<and> presentIn env c
     \<and> leParentContentID e = p \<and> leChildContentID e = c)"

lemma adjacency_step: "c \<in> set (adjacency env edges p) \<longleftrightarrow> lineageStep env edges p c"
  by (auto simp: adjacency_def lineageStep_def)

lemma cycleCandidate_in: "cycleCandidate f c nodes \<in> insert c (set nodes)"
  unfolding cycleCandidate_def by (induction nodes arbitrary: c) auto

section \<open>The invariant of the search\<close>

definition dfs_inv :: "(ID \<Rightarrow> ID list) \<Rightarrow> ID set \<Rightarrow> dfsState \<Rightarrow> bool" where
  "dfs_inv adj R ds \<longleftrightarrow>
     distinct (dsStack ds) \<and> (\<forall>i. dsState ds i = 1 \<longleftrightarrow> i \<in> set (dsStack ds)) \<and> (\<forall>i. dsState ds i \<le> 2)
     \<and> (\<forall>k<length (dsStack ds). dsIndex ds (dsStack ds ! k) = Some k)
     \<and> (\<forall>k. Suc k < length (dsStack ds) \<longrightarrow> dsStack ds ! Suc k \<in> set (adj (dsStack ds ! k)))
     \<and> (\<forall>i. dsState ds i \<noteq> 0 \<longrightarrow> i \<in> R)
     \<and> (dsMinimum ds \<noteq> 0 \<longrightarrow> dsMinimum ds \<in> R \<and> (\<lambda>p c. c \<in> set (adj p))\<^sup>+\<^sup>+ (dsMinimum ds) (dsMinimum ds))
     \<and> (dsMinimum ds = 0 \<longrightarrow> (\<forall>b. dsState ds b = 2 \<longrightarrow>
          (\<forall>c\<in>set (adj b). dsState ds c = 2) \<and> \<not> (\<lambda>p c. c \<in> set (adj p))\<^sup>+\<^sup>+ b b))"

text \<open>What a call keeps: coloured nodes keep their colour and a found cycle stays found.\<close>

definition dfs_frame :: "dfsState \<Rightarrow> dfsState \<Rightarrow> bool" where
  "dfs_frame ds ds' \<longleftrightarrow> dsStack ds' = dsStack ds \<and> (\<forall>i. dsState ds i \<noteq> 0 \<longrightarrow> dsState ds' i = dsState ds i)
     \<and> (dsMinimum ds \<noteq> 0 \<longrightarrow> dsMinimum ds' \<noteq> 0)"

definition white :: "ID set \<Rightarrow> dfsState \<Rightarrow> nat" where
  "white U ds = card {i \<in> U. dsState ds i = 0}"

lemma dfs_grey: "dfs_inv adj R ds \<Longrightarrow> dsState ds i = 1 \<longleftrightarrow> i \<in> set (dsStack ds)"
  by (simp add: dfs_inv_def)

lemma dfs_coloured: "dfs_inv adj R ds \<Longrightarrow> dsState ds i \<noteq> 0 \<Longrightarrow> i \<in> R"
  by (simp add: dfs_inv_def)

lemma in_set_drop: "x \<in> set (drop k xs) \<longleftrightarrow> (\<exists>j. k \<le> j \<and> j < length xs \<and> x = xs ! j)"
proof
  assume "x \<in> set (drop k xs)"
  then obtain i where "i < length xs - k" "x = drop k xs ! i" by (auto simp: in_set_conv_nth)
  then show "\<exists>j. k \<le> j \<and> j < length xs \<and> x = xs ! j" by (intro exI [of _ "k + i"]) simp
next
  assume "\<exists>j. k \<le> j \<and> j < length xs \<and> x = xs ! j"
  then obtain j where "k \<le> j" "j < length xs" "x = xs ! j" by blast
  then have "drop k xs ! (j - k) = x" "j - k < length (drop k xs)" by simp_all
  then show "x \<in> set (drop k xs)" using nth_mem by blast
qed

lemma dfs_black_closed:
  "dfs_inv adj R ds \<Longrightarrow> dsMinimum ds = 0 \<Longrightarrow> dsState ds b = 2 \<Longrightarrow> c \<in> set (adj b) \<Longrightarrow> dsState ds c = 2"
  by (simp add: dfs_inv_def)

lemma dfs_frame_refl [simp]: "dfs_frame ds ds"
  by (simp add: dfs_frame_def)

lemma dfs_frame_trans: "dfs_frame a b \<Longrightarrow> dfs_frame b c \<Longrightarrow> dfs_frame a c"
  unfolding dfs_frame_def by metis

lemma white_mono: "finite U \<Longrightarrow> dfs_frame ds ds' \<Longrightarrow> white U ds' \<le> white U ds"
  unfolding white_def dfs_frame_def by (intro card_mono) auto

lemma white_enter:
  assumes "finite U" and "node \<in> U" and "dsState ds node = 0"
  shows "Suc (white U (enterNode node ds)) = white U ds"
proof -
  have "{i \<in> U. dsState (enterNode node ds) i = 0} = {i \<in> U. dsState ds i = 0} - {node}"
    by (auto simp: enterNode_def)
  then show ?thesis
    unfolding white_def using assms by (simp only:) (intro card_Suc_Diff1, auto)
qed

lemma dfs_enter_inv:
  assumes inv: "dfs_inv adj R ds" and node: "dsState ds node = 0" "node \<in> R"
    and edge: "dsStack ds \<noteq> [] \<Longrightarrow> node \<in> set (adj (last (dsStack ds)))"
  shows "dfs_inv adj R (enterNode node ds)"
proof -
  have fresh: "node \<notin> set (dsStack ds)" using dfs_grey [OF inv, of node] node by simp
  have index: "dsIndex (enterNode node ds) (dsStack (enterNode node ds) ! k) = Some k"
    if "k < length (dsStack (enterNode node ds))" for k
    using inv fresh that by (cases "k = length (dsStack ds)")
      (auto simp: dfs_inv_def enterNode_def nth_append in_set_conv_nth)
  have path: "dsStack (enterNode node ds) ! Suc k \<in> set (adj (dsStack (enterNode node ds) ! k))"
    if "Suc k < length (dsStack (enterNode node ds))" for k
  proof (cases "Suc k = length (dsStack ds)")
    case True
    then have "dsStack ds \<noteq> []" and "dsStack ds ! k = last (dsStack ds)"
      by (auto simp: last_conv_nth) (metis True diff_Suc_1 last_conv_nth list.size(3) nat.distinct(1))
    then show ?thesis using edge True by (simp add: enterNode_def nth_append)
  next
    case False
    then show ?thesis using inv that by (simp add: dfs_inv_def enterNode_def nth_append)
  qed
  have "dsMinimum ds = 0 \<Longrightarrow> dsState ds b = 2 \<Longrightarrow> c \<in> set (adj b) \<Longrightarrow> c \<noteq> node" for b c
    using dfs_black_closed [OF inv, of b c] node by auto
  then show ?thesis
    using inv node fresh index path unfolding dfs_inv_def by (auto simp: enterNode_def)
qed

lemma black_reach:
  assumes inv: "dfs_inv adj R ds" and "dsMinimum ds = 0" and b: "dsState ds b = 2"
    and path: "(\<lambda>p c. c \<in> set (adj p))\<^sup>*\<^sup>* b c"
  shows "dsState ds c = 2"
  using path by (induction rule: rtranclp_induct) (use assms(2) b dfs_black_closed [OF inv] in blast)+

lemma dfs_leave_inv:
  assumes inv: "dfs_inv adj R ds" and stack: "dsStack ds = s @ [node]"
    and children: "dsMinimum ds = 0 \<Longrightarrow> \<forall>c\<in>set (adj node). dsState ds c = 2"
  shows "dfs_inv adj R (leaveNode node ds)" and "dsStack (leaveNode node ds) = s"
proof -
  let ?E = "\<lambda>p c. c \<in> set (adj p)"
  have node: "node \<in> R" using dfs_coloured [OF inv, of node] dfs_grey [OF inv, of node] stack by simp
  have grey: "dsState ds node = 1" "node \<notin> set s" using dfs_grey [OF inv, of node] stack inv by (auto simp: dfs_inv_def)
  have cycle: "\<not> ?E\<^sup>+\<^sup>+ node node" if min: "dsMinimum ds = 0"
  proof
    assume "?E\<^sup>+\<^sup>+ node node"
    then obtain c where "c \<in> set (adj node)" "?E\<^sup>*\<^sup>* c node" by (meson tranclpD)
    then show False using black_reach [OF inv min, of c node] children [OF min] grey by simp
  qed
  have index: "dsIndex ds (s ! k) = Some k" "s ! k \<noteq> node" if "k < length s" for k
    using inv stack that grey(2) unfolding dfs_inv_def by (metis (no_types) length_append_singleton less_Suc_eq nth_append)
      (use grey(2) that in auto)
  have path: "s ! Suc k \<in> set (adj (s ! k))" if "Suc k < length s" for k
  proof -
    have "Suc k < length (dsStack ds)" using stack that by simp
    then have "dsStack ds ! Suc k \<in> set (adj (dsStack ds ! k))" using inv by (simp add: dfs_inv_def)
    then show ?thesis using stack that by (simp add: nth_append)
  qed
  have eqs: "dsStack (leaveNode node ds) = s" "dsState (leaveNode node ds) = (dsState ds)(node := 2)"
    "dsIndex (leaveNode node ds) = (dsIndex ds)(node := None)" "dsMinimum (leaveNode node ds) = dsMinimum ds"
    by (simp_all add: leaveNode_def stack)
  have "distinct s" using inv stack by (simp add: dfs_inv_def)
  moreover have "((dsState ds)(node := 2)) i = 1 \<longleftrightarrow> i \<in> set s" for i
    using dfs_grey [OF inv, of i] grey stack by auto
  moreover have "((dsState ds)(node := 2)) i \<le> 2" "((dsState ds)(node := 2)) i \<noteq> 0 \<longrightarrow> i \<in> R" for i
    using inv node by (simp_all add: dfs_inv_def)
  moreover have "((dsState ds)(node := 2)) c = 2" if "dsMinimum ds = 0" "((dsState ds)(node := 2)) b = 2" "c \<in> set (adj b)" for b c
    using children [OF that(1)] dfs_black_closed [OF inv that(1), of b c] that(2,3) by (auto split: if_splits)
  moreover have "\<not> ?E\<^sup>+\<^sup>+ b b" if "dsMinimum ds = 0" "((dsState ds)(node := 2)) b = 2" for b
    using cycle [OF that(1)] inv that by (cases "b = node") (simp_all add: dfs_inv_def)
  moreover have "dsMinimum ds \<noteq> 0 \<longrightarrow> dsMinimum ds \<in> R \<and> ?E\<^sup>+\<^sup>+ (dsMinimum ds) (dsMinimum ds)"
    using inv by (simp add: dfs_inv_def)
  moreover have "((dsIndex ds)(node := None)) (s ! k) = Some k" if "k < length s" for k
    using index [OF that] by simp
  ultimately show "dfs_inv adj R (leaveNode node ds)"
    using path unfolding dfs_inv_def eqs by blast
  show "dsStack (leaveNode node ds) = s" by (fact eqs)
qed

lemma stack_path:
  assumes inv: "dfs_inv adj R ds" and "i \<le> j" and "j < length (dsStack ds)"
  shows "(\<lambda>p c. c \<in> set (adj p))\<^sup>*\<^sup>* (dsStack ds ! i) (dsStack ds ! j)"
  using assms(2,3)
proof (induction j)
  case (Suc j)
  then show ?case
  proof (cases "i = Suc j")
    case False
    then have "(\<lambda>p c. c \<in> set (adj p))\<^sup>*\<^sup>* (dsStack ds ! i) (dsStack ds ! j)" using Suc by simp
    moreover have "dsStack ds ! Suc j \<in> set (adj (dsStack ds ! j))" using inv Suc.prems(2) by (simp add: dfs_inv_def)
    ultimately show ?thesis by (rule rtranclp.rtrancl_into_rtrancl)
  qed simp
qed simp

lemma back_edge_cycle:
  assumes inv: "dfs_inv adj R ds" and stack: "dsStack ds = s @ [node]" and c: "c \<in> set (adj node)" "dsState ds c = 1"
  shows "\<exists>k. dsIndex ds c = Some k \<and> c \<in> set (drop k (dsStack ds))
    \<and> (\<forall>x\<in>set (drop k (dsStack ds)). x \<in> R \<and> (\<lambda>p c. c \<in> set (adj p))\<^sup>+\<^sup>+ x x)"
proof -
  let ?E = "\<lambda>p c. c \<in> set (adj p)"
  have "c \<in> set (dsStack ds)" using dfs_grey [OF inv] c(2) by blast
  then obtain k where k: "k < length (dsStack ds)" "dsStack ds ! k = c" by (auto simp: in_set_conv_nth)
  then have index: "dsIndex ds c = Some k" using inv unfolding dfs_inv_def by metis
  have "c \<in> set (drop k (dsStack ds))" using k by (auto simp: in_set_drop)
  moreover have "x \<in> R \<and> ?E\<^sup>+\<^sup>+ x x" if x: "x \<in> set (drop k (dsStack ds))" for x
  proof -
    obtain j where j: "k \<le> j" "j < length (dsStack ds)" "x = dsStack ds ! j"
      using x unfolding in_set_drop by blast
    have "?E\<^sup>*\<^sup>* x node" using stack_path [OF inv, of j "length s"] j stack by simp
    moreover have "?E\<^sup>*\<^sup>* c x" using stack_path [OF inv j(1,2)] j(3) k(2) by simp
    ultimately have "?E\<^sup>+\<^sup>+ x x" using c(1) by (meson rtranclp_into_tranclp1 tranclp_rtranclp_tranclp)
    moreover have "dsState ds x = 1" using dfs_grey [OF inv, of x] j by simp
    then have "x \<in> R" using dfs_coloured [OF inv, of x] by simp
    ultimately show ?thesis by simp
  qed
  ultimately show ?thesis using index by blast
qed

lemma backEdge_inv:
  assumes inv: "dfs_inv adj R ds" and stack: "dsStack ds = s @ [node]" and c: "c \<in> set (adj node)" "dsState ds c = 1"
    and nonzero: "\<And>p. adj p \<noteq> [] \<Longrightarrow> p \<noteq> 0"
  shows "dfs_inv adj R (backEdge env c ds) \<and> dfs_frame ds (backEdge env c ds) \<and> dsMinimum (backEdge env c ds) \<noteq> 0"
proof -
  let ?E = "\<lambda>p c. c \<in> set (adj p)"
  obtain k where k: "dsIndex ds c = Some k" "c \<in> set (drop k (dsStack ds))"
      "\<And>x. x \<in> set (drop k (dsStack ds)) \<Longrightarrow> x \<in> R \<and> ?E\<^sup>+\<^sup>+ x x"
    using back_edge_cycle [OF inv stack c] by blast
  define m where "m = cycleCandidate (xeIDString env) c (drop k (dsStack ds))"
  have m: "m \<in> R" "?E\<^sup>+\<^sup>+ m m"
    using cycleCandidate_in [of "xeIDString env" c "drop k (dsStack ds)"] k(2,3) by (auto simp: m_def)
  then obtain x where "x \<in> set (adj m)" by (blast dest: tranclpD)
  then have "adj m \<noteq> []" by auto
  then have "m \<noteq> 0" by (rule nonzero)
  moreover have "backEdge env c ds = ds\<lparr>dsMinimum := m\<rparr> \<or> backEdge env c ds = ds \<and> dsMinimum ds \<noteq> 0"
    by (simp add: backEdge_def k(1) m_def Let_def)
  moreover have "dfs_inv adj R (ds\<lparr>dsMinimum := m\<rparr>)" using inv m \<open>m \<noteq> 0\<close> by (simp add: dfs_inv_def)
  moreover have "dfs_frame ds (ds\<lparr>dsMinimum := m\<rparr>)" using \<open>m \<noteq> 0\<close> by (simp add: dfs_frame_def)
  ultimately show ?thesis using inv by auto
qed

section \<open>The search is complete and correct\<close>

definition graph_ok :: "(ID \<Rightarrow> ID list) \<Rightarrow> ID set \<Rightarrow> ID set \<Rightarrow> bool" where
  "graph_ok adj U R \<longleftrightarrow> finite U \<and> (\<forall>p. \<forall>c\<in>set (adj p). c \<in> U \<and> p \<noteq> 0 \<and> (p \<in> R \<longrightarrow> c \<in> R))"

lemma graph_nonzero: "graph_ok adj U R \<Longrightarrow> adj p \<noteq> [] \<Longrightarrow> p \<noteq> 0"
  unfolding graph_ok_def by (metis list.set_intros(1) neq_Nil_conv)

text \<open>What a call of \<open>visit\<close> with fuel \<open>n\<close> promises when at most \<open>n\<close> nodes are unvisited.\<close>

definition visit_ok :: "closure_env \<Rightarrow> (ID \<Rightarrow> ID list) \<Rightarrow> ID set \<Rightarrow> ID set \<Rightarrow> nat \<Rightarrow> bool" where
  "visit_ok env adj U R n \<longleftrightarrow> (\<forall>ds node. dfs_inv adj R ds \<and> dsState ds node = 0 \<and> node \<in> R \<and> node \<in> U
     \<and> (dsStack ds \<noteq> [] \<longrightarrow> node \<in> set (adj (last (dsStack ds)))) \<and> white U ds \<le> n
     \<longrightarrow> (\<exists>ds'. visit env adj n node ds = Some ds' \<and> dfs_inv adj R ds' \<and> dfs_frame ds ds' \<and> dsState ds' node = 2))"

lemma visitChildren_inv:
  assumes g: "graph_ok adj U R" and v: "visit_ok env adj U R n"
  shows "dfs_inv adj R ds \<Longrightarrow> dsStack ds = s @ [p] \<Longrightarrow> set cs \<subseteq> set (adj p) \<Longrightarrow> white U ds \<le> n
      \<Longrightarrow> \<exists>ds'. visitChildren env adj n cs ds = Some ds' \<and> dfs_inv adj R ds' \<and> dfs_frame ds ds'
        \<and> (dsMinimum ds' = 0 \<longrightarrow> (\<forall>c\<in>set cs. dsState ds' c = 2))"
proof (induction cs arbitrary: ds)
  case (Cons c cs)
  have fin: "finite U" using g by (simp add: graph_ok_def)
  have c: "c \<in> set (adj p)" using Cons.prems(3) by simp
  have p: "p \<in> R" using dfs_coloured [OF Cons.prems(1), of p] dfs_grey [OF Cons.prems(1), of p] Cons.prems(2) by simp
  have "dsState ds c \<le> 2" using Cons.prems(1) by (simp add: dfs_inv_def)
  then consider "dsState ds c = 0" | "dsState ds c = 1" | "dsState ds c = 2" by linarith
  then obtain ds1 where ds1: "visitChildren env adj n (c # cs) ds = visitChildren env adj n cs ds1"
      "dfs_inv adj R ds1" "dfs_frame ds ds1" "dsMinimum ds1 = 0 \<Longrightarrow> dsState ds1 c = 2"
  proof cases
    case 1
    moreover have "c \<in> R" "c \<in> U" using g c p by (auto simp: graph_ok_def)
    ultimately obtain ds' where "visit env adj n c ds = Some ds'" "dfs_inv adj R ds'" "dfs_frame ds ds'" "dsState ds' c = 2"
      using v Cons.prems c unfolding visit_ok_def by (metis last_snoc)
    then show thesis using that [of ds'] 1 by simp
  next
    case 2
    then show thesis
      using that [of "backEdge env c ds"] backEdge_inv [OF Cons.prems(1,2) c 2 graph_nonzero [OF g]] by simp
  next
    case 3
    then show thesis using that [of ds] Cons.prems(1) by simp
  qed
  have "dsStack ds1 = s @ [p]" using ds1(3) Cons.prems(2) by (simp add: dfs_frame_def)
  moreover have "white U ds1 \<le> n" using white_mono [OF fin ds1(3)] Cons.prems(4) by simp
  ultimately obtain ds' where ds': "visitChildren env adj n cs ds1 = Some ds'" "dfs_inv adj R ds'" "dfs_frame ds1 ds'"
      "dsMinimum ds' = 0 \<Longrightarrow> \<forall>c\<in>set cs. dsState ds' c = 2"
    using Cons.IH [OF ds1(2)] Cons.prems(3) by auto
  have "dsState ds' c = 2" if "dsMinimum ds' = 0"
  proof -
    have "dsState ds1 c = 2" using ds1(4) ds'(3) that by (auto simp: dfs_frame_def)
    then show ?thesis using ds'(3) by (simp add: dfs_frame_def)
  qed
  then show ?case using ds1(1) ds' dfs_frame_trans [OF ds1(3) ds'(3)] by auto
qed auto

lemma visit_inv:
  assumes g: "graph_ok adj U R"
  shows "visit_ok env adj U R n"
proof (induction n)
  case 0
  have "\<not> white U ds \<le> 0" if "node \<in> U" "dsState ds node = 0" for ds node
    using that g by (auto simp: white_def graph_ok_def)
  then show ?case unfolding visit_ok_def by blast
next
  case (Suc n)
  show ?case
    unfolding visit_ok_def
  proof (intro allI impI, elim conjE)
    fix ds node
    assume inv: "dfs_inv adj R ds" and node: "dsState ds node = 0" "node \<in> R" "node \<in> U"
      and edge: "dsStack ds \<noteq> [] \<longrightarrow> node \<in> set (adj (last (dsStack ds)))" and fuel: "white U ds \<le> Suc n"
    have inv1: "dfs_inv adj R (enterNode node ds)" using dfs_enter_inv [OF inv node(1,2)] edge by blast
    have stack1: "dsStack (enterNode node ds) = dsStack ds @ [node]" by (simp add: enterNode_def)
    have "white U (enterNode node ds) \<le> n" using white_enter [of U node ds] g node fuel by (simp add: graph_ok_def)
    then obtain ds' where ds': "visitChildren env adj n (adj node) (enterNode node ds) = Some ds'" "dfs_inv adj R ds'"
        "dfs_frame (enterNode node ds) ds'" "dsMinimum ds' = 0 \<longrightarrow> (\<forall>c\<in>set (adj node). dsState ds' c = 2)"
      using visitChildren_inv [OF g Suc inv1 stack1 subset_refl] by blast
    have stack': "dsStack ds' = dsStack ds @ [node]" using ds'(3) stack1 by (simp add: dfs_frame_def)
    have inv': "dfs_inv adj R (leaveNode node ds')" and stack2: "dsStack (leaveNode node ds') = dsStack ds"
      using dfs_leave_inv [OF ds'(2) stack'] ds'(4) by blast+
    have "dfs_frame ds (leaveNode node ds')"
      using ds'(3) stack2 node(1) unfolding dfs_frame_def by (auto simp: enterNode_def leaveNode_def)
    then show "\<exists>ds'. visit env adj (Suc n) node ds = Some ds' \<and> dfs_inv adj R ds' \<and> dfs_frame ds ds' \<and> dsState ds' node = 2"
      using ds'(1) inv' by (simp add: leaveNode_def)
  qed
qed

lemma visitRoots_inv:
  assumes g: "graph_ok adj U R" and roots: "set roots \<subseteq> R \<inter> U"
  shows "dfs_inv adj R ds \<Longrightarrow> dsStack ds = [] \<Longrightarrow> white U ds \<le> n
    \<Longrightarrow> \<exists>ds'. visitRoots env adj n roots ds = Some ds' \<and> dfs_inv adj R ds' \<and> dfs_frame ds ds'
      \<and> (\<forall>r\<in>set roots. dsState ds' r = 2)"
  using roots
proof (induction roots arbitrary: ds)
  case (Cons r roots)
  obtain ds1 where ds1: "visitRoots env adj n (r # roots) ds = visitRoots env adj n roots ds1"
      "dfs_inv adj R ds1" "dfs_frame ds ds1" "dsState ds1 r = 2"
  proof (cases "dsState ds r = 0")
    case True
    moreover have "r \<in> R" "r \<in> U" using Cons.prems(4) by auto
    ultimately obtain ds' where "visit env adj n r ds = Some ds'" "dfs_inv adj R ds'" "dfs_frame ds ds'" "dsState ds' r = 2"
      using visit_inv [OF g, of env n] Cons.prems(1-3) unfolding visit_ok_def by blast
    then show thesis using that [of ds'] True by simp
  next
    case False
    have "dsState ds r \<le> 2" using Cons.prems(1) by (simp add: dfs_inv_def)
    moreover have "dsState ds r \<noteq> 1" using dfs_grey [OF Cons.prems(1), of r] Cons.prems(2) by simp
    ultimately show thesis using that [of ds] False Cons.prems(1) by simp
  qed
  have "dsStack ds1 = []" "white U ds1 \<le> n"
    using ds1(3) Cons.prems(2,3) white_mono [OF _ ds1(3), of U] g by (simp_all add: dfs_frame_def graph_ok_def)
  then obtain ds' where ds': "visitRoots env adj n roots ds1 = Some ds'" "dfs_inv adj R ds'" "dfs_frame ds1 ds'"
      "\<forall>r\<in>set roots. dsState ds' r = 2"
    using Cons.IH [OF ds1(2)] Cons.prems(4) by auto
  then show ?case using ds1(1,4) dfs_frame_trans [OF ds1(3) ds'(3)] by (auto simp: dfs_frame_def)
qed auto

lemma dfsStart_inv: "dfs_inv adj R dfsStart"
  by (simp add: dfs_inv_def dfsStart_def)

lemma reachableLineageCycle_spec:
  fixes env :: closure_env and edges :: "LineageEdge list" and roots :: "ID list"
  assumes ids: "contentByID (xeContents env) 0 = None"
  defines "E \<equiv> lineageStep env edges"
  shows "\<exists>m found. reachableLineageCycle env roots edges = Some (m, found)
    \<and> (found \<longleftrightarrow> (\<exists>r\<in>set roots. \<exists>c. E\<^sup>*\<^sup>* r c \<and> E\<^sup>+\<^sup>+ c c))
    \<and> (found \<longrightarrow> (\<exists>r\<in>set roots. E\<^sup>*\<^sup>* r m) \<and> E\<^sup>+\<^sup>+ m m)"
proof -
  define R where "R = {c. \<exists>r\<in>set roots. E\<^sup>*\<^sup>* r c}"
  define U where "U = set roots \<union> leChildContentID ` set edges"
  define adj where "adj = adjacency env edges"
  have adj: "(\<lambda>p c. c \<in> set (adj p)) = E" by (simp add: adj_def E_def adjacency_step fun_eq_iff)
  have step: "c \<in> set (adj p) \<longleftrightarrow> E p c" for p c by (simp add: adj_def E_def adjacency_step)
  have "c \<in> U \<and> p \<noteq> 0" if "E p c" for p c
    using that ids by (auto simp: E_def lineageStep_def presentIn_def U_def)
  moreover have "c \<in> R" if "E p c" "p \<in> R" for p c
    using that by (auto simp: R_def intro: rtranclp.rtrancl_into_rtrancl)
  ultimately have g: "graph_ok adj U R"
    unfolding graph_ok_def Ball_def step by (simp add: U_def)
  have "card U \<le> length roots + length edges"
    unfolding U_def by (metis card_Un_le card_image_le card_length finite_set add_mono order_trans)
  then have fuel: "white U dfsStart \<le> length roots + length edges" by (simp add: white_def dfsStart_def)
  have "set roots \<subseteq> R \<inter> U" by (auto simp: R_def U_def)
  from visitRoots_inv [OF g this dfsStart_inv _ fuel, of env] obtain ds where
    run: "visitRoots env adj (length roots + length edges) roots dfsStart = Some ds" and inv: "dfs_inv adj R ds"
    and black: "\<forall>r\<in>set roots. dsState ds r = 2" by (auto simp: dfsStart_def)
  have found: "dsMinimum ds \<in> R \<and> E\<^sup>+\<^sup>+ (dsMinimum ds) (dsMinimum ds)" if "dsMinimum ds \<noteq> 0"
    using inv that unfolding dfs_inv_def adj by blast
  have none: "\<not> E\<^sup>+\<^sup>+ c c" if min: "dsMinimum ds = 0" and c: "r \<in> set roots" "E\<^sup>*\<^sup>* r c" for r c
  proof -
    have "dsState ds c = 2" using black_reach [OF inv min, of r c] black c unfolding adj by blast
    then show ?thesis using inv min unfolding dfs_inv_def adj by blast
  qed
  have "reachableLineageCycle env roots edges = Some (dsMinimum ds, dsMinimum ds \<noteq> 0)"
    using run by (simp add: reachableLineageCycle_def adj_def)
  moreover have "dsMinimum ds \<noteq> 0 \<longleftrightarrow> (\<exists>r\<in>set roots. \<exists>c. E\<^sup>*\<^sup>* r c \<and> E\<^sup>+\<^sup>+ c c)"
    using found none unfolding R_def by blast
  ultimately show ?thesis using found unfolding R_def by blast
qed

end
