(* ===== verification/Erasure_Planner.thy ===== *)
theory Erasure_Planner
  imports Erasure_Plan Erasure_Cycle
begin

text \<open>
  The erasure planner (\<^verbatim>\<open>internal/erasure/planner.go\<close>): from a captured snapshot it closes the targets,
  orders them, gives each an erasure event, records every impact, finding, quarantine and rebuild the
  erasure will have, and seals the plan; a decision round plans again from the decided roots. The
  store behind the planner, its identifiers and the optional logical provenance are arguments:
  \<open>pvNewID k\<close> is the answer to the \<open>k\<close>-th call of \<^verbatim>\<open>IDs.New\<close>.
\<close>

section \<open>Requests and snapshots\<close>

record PlanRequest =
  prScope :: string
  prResidentID :: ID
  prActorPrincipalID :: ID
  prReasonCode :: string
  prIntegrityPipelineVersionID :: ID
  prMemoryStatusPipelineVersionID :: ID
  prRequestedContentIDs :: "ID list"

record ExistingFindingSnapshot =
  efIntegrityFindingID :: ID
  efFindingKind :: string
  efRuleCode :: string
  efSourceContentErasureEventID :: "ID option"
  efPipelineVersionID :: ID
  efFingerprint :: Digest

record AliasSnapshot =
  aaClaimID :: ID
  aaResidentID :: ID
  aaStatementContentID :: ID
  aaStatementHashPresent :: bool
  aaClaimStatementErasureEventID :: "ID option"
  aaContentErasureEventID :: "ID option"
  aaCanonicalCommitID :: "ID option"
  aaCurrentStatus :: string
  aaExistingFinding :: "ExistingFindingSnapshot option"

record DirectReference =
  drContentID :: ID
  drRuleID :: string
  drReferrerKind :: string
  drReferrerID :: string
  drReferrerField :: string

record ProjectionDefinition =
  pdName :: string
  pdVersion :: string

record ErasureSnapshot =
  esHeadCommitID :: ID
  esHeadCommitSeq :: CommitSeq
  esResidentStatus :: string
  esOwnerHuman :: bool
  esActiveResidentID :: "ID option"
  esContents :: "ContentSnapshot list"
  esAliases :: "AliasSnapshot list"
  esDirectReferences :: "DirectReference list"
  esLineage :: "LineageEdge list"
  esMandatoryWorkCount :: int
  esRunning :: "RunningWork list"
  esProjectionDefinitions :: "ProjectionDefinition list"
  esBlockers :: "Blocker list"

record LogicalReferenceSnapshot =
  lrContentID :: ID
  lrRuleID :: string
  lrReferrerKind :: string
  lrReferrerID :: string
  lrReferrerField :: string
  lrAffectedClaimID :: "ID option"
  lrBreaksClaim :: bool

record ProvenanceBreakSnapshot =
  vbClaimID :: ID
  vbCurrentStatus :: string
  vbSourceContentErasureEventID :: ID

record ExistingProvenanceFindingSnapshot =
  vfClaimID :: ID
  vfCurrentStatus :: string
  vfFinding :: ExistingFindingSnapshot

record LogicalProvenanceSnapshot =
  lsReferences :: "LogicalReferenceSnapshot list"
  lsBreaks :: "ProvenanceBreakSnapshot list"
  lsExistingFindingDependencies :: "ExistingProvenanceFindingSnapshot list"
  lsBlockers :: "Blocker list"

record planner_env =
  pvPlan :: plan_env
  pvIDString :: "ID \<Rightarrow> string"
  pvNewID :: "nat \<Rightarrow> (string, ID) result"
  pvLogical :: "((ID \<times> ID) list \<Rightarrow> (string, LogicalProvenanceSnapshot) result) option"

text \<open>The calls of the allocator so far, and the plan under construction.\<close>

record buildState =
  bsCalls :: nat
  bsPlan :: Plan

definition allocate :: "planner_env \<Rightarrow> ID option \<Rightarrow> nat \<Rightarrow> (erasure_error, ID \<times> nat) result" where
  "allocate env reused calls =
     (case reused of Some i \<Rightarrow> Inr (i, calls)
      | None \<Rightarrow> (case pvNewID env calls of Inl e \<Rightarrow> Inl (ErasureSource e) | Inr i \<Rightarrow> Inr (i, Suc calls)))"

definition impactIDOrEmpty :: "planner_env \<Rightarrow> Impact \<Rightarrow> string" where
  "impactIDOrEmpty env impact = (case ImpactID (pvPlan env) impact of Inl _ \<Rightarrow> '''' | Inr i \<Rightarrow> i)"

definition newImpact :: "planner_env \<Rightarrow> string \<Rightarrow> string \<Rightarrow> string \<Rightarrow> string \<Rightarrow> string \<Rightarrow> string list \<Rightarrow> string \<Rightarrow> string option \<Rightarrow> Impact" where
  "newImpact env rule kind ref field class actions mode candidate =
     (let impact = \<lparr>imImpactID = '''', imRuleID = rule, imReferrerKind = kind, imReferrerID = ref, imReferrerField = field,
        imClassification = class, imActions = actions, imDecisionMode = mode, imCandidateContentID = candidate, imDecision = None\<rparr>
      in impact\<lparr>imImpactID := impactIDOrEmpty env impact\<rparr>)"

definition addImpact :: "Impact \<Rightarrow> Plan \<Rightarrow> Plan" where
  "addImpact impact plan = plan\<lparr>plImpacts := plImpacts plan @ [impact]\<rparr>"

definition addBlocker :: "Blocker \<Rightarrow> Plan \<Rightarrow> Plan" where
  "addBlocker blocker plan = plan\<lparr>plBlockers := plBlockers plan @ [blocker]\<rparr>"

section \<open>Targets\<close>

definition closureEnv :: "planner_env \<Rightarrow> PlanRequest \<Rightarrow> ErasureSnapshot \<Rightarrow> closure_env" where
  "closureEnv env request snapshot =
     \<lparr>xeScope = prScope request, xeResidentID = prResidentID request, xeContents = esContents snapshot,
      xeIDString = pvIDString env, xeImpactID = impactIDOrEmpty env\<rparr>"

definition sameBytes :: "planner_env \<Rightarrow> PlanRequest \<Rightarrow> ErasureSnapshot \<Rightarrow> (ID \<rightharpoonup> targetWork) \<Rightarrow> Impact list" where
  "sameBytes env request snapshot work =
     map (\<lambda>c. newImpact env ''same_bytes_without_lineage_v1'' ''content_object'' (pvIDString env (cnContentID c)) ''shared_bytes''
            ''needs_review'' [''block_physical_gc''] ''content_candidate'' (Some (pvIDString env (cnContentID c))))
       (filter (\<lambda>c. cnResidentID c = prResidentID request \<and> cnErasureState c = ''present'' \<and> cnBlobHash c \<noteq> None
            \<and> work (cnContentID c) = None
            \<and> (\<exists>d\<in>set (esContents snapshot). case work (cnContentID d) of None \<Rightarrow> False
                 | Some w \<Rightarrow> cnBlobHash (twContent w) = cnBlobHash c)) (esContents snapshot))"

definition targetBefore :: "(ID \<Rightarrow> string) \<Rightarrow> targetWork \<Rightarrow> targetWork \<Rightarrow> bool" where
  "targetBefore idString a b \<longleftrightarrow>
     (if twDepth a \<noteq> twDepth b then twDepth a < twDepth b
      else (case (twParent a, twParent b) of
          (None, Some _) \<Rightarrow> True
        | (Some _, None) \<Rightarrow> False
        | (Some p, Some q) \<Rightarrow> if idString p \<noteq> idString q then idString p < idString q
            else idString (cnContentID (twContent a)) < idString (cnContentID (twContent b))
        | (None, None) \<Rightarrow> idString (cnContentID (twContent a)) < idString (cnContentID (twContent b))))"

text \<open>The map is read in the order of the contents; the sort makes the order of iteration irrelevant.\<close>

definition orderedTargets :: "(ID \<Rightarrow> string) \<Rightarrow> ContentSnapshot list \<Rightarrow> (ID \<rightharpoonup> targetWork) \<Rightarrow> targetWork list" where
  "orderedTargets idString contents work =
     slice_stable (targetBefore idString) (List.map_filter work (remdups (map cnContentID contents)))"

definition priorTargets :: "plan_env \<Rightarrow> Plan option \<Rightarrow> ID \<rightharpoonup> ID" where
  "priorTargets env prior = (case prior of None \<Rightarrow> Map.empty
     | Some p \<Rightarrow> foldl (\<lambda>m t. m(parsedID env (etContentID t) \<mapsto> parsedID env (etErasureEventID t))) Map.empty (plEffectiveTargets p))"

definition assignEvent ::
  "planner_env \<Rightarrow> (ID \<rightharpoonup> ID) \<Rightarrow> nat \<times> (ID \<rightharpoonup> ID) \<Rightarrow> targetWork \<Rightarrow> (erasure_error, nat \<times> (ID \<rightharpoonup> ID)) result" where
  "assignEvent env prior = (\<lambda>(calls, events) w.
     case allocate env (prior (cnContentID (twContent w))) calls of Inl e \<Rightarrow> Inl e
     | Inr (event, calls') \<Rightarrow> Inr (calls', events(cnContentID (twContent w) \<mapsto> event)))"

definition effectiveTarget :: "(ID \<Rightarrow> string) \<Rightarrow> (ID \<Rightarrow> ID) \<Rightarrow> targetWork \<Rightarrow> EffectiveTarget" where
  "effectiveTarget idString event w =
     (let c = twContent w in
      \<lparr>etContentID = idString (cnContentID c), etContentClass = cnContentClass c, etErasurePolicy = cnErasurePolicy c,
       etCommitment = ''sha256:'' @ Digest_Hex (cnCommitment c), etErasureEventID = idString (event (cnContentID c)),
       etSourceErasureEventID = map_option (\<lambda>p. idString (event p)) (twParent w), etLineageDepth = FormatInt (int (twDepth w))\<rparr>)"

definition blobBlocker :: "string \<Rightarrow> string \<Rightarrow> string \<Rightarrow> bool \<Rightarrow> Blocker list" where
  "blobBlocker ident status field valid =
     (if status = ''valid'' \<or> status = '''' \<and> valid then []
      else [makeBlocker (if status = ''hash_mismatch'' then ''blob_hash_mismatch'' else ''blob_missing'') ident field None])"

definition blobBlockers :: "(ID \<Rightarrow> string) \<Rightarrow> ContentSnapshot \<Rightarrow> Blocker list" where
  "blobBlockers idString c =
     (let ident = idString (cnContentID c) in
      if cnBlobHash c = None
      then [makeBlocker ''blob_missing'' ident ''sqlite_blob'' None, makeBlocker ''blob_missing'' ident ''filesystem_blob'' None]
      else blobBlocker ident (cnSQLiteBlobStatus c) ''sqlite_blob'' (cnSQLiteBlobValid c)
         @ blobBlocker ident (cnFilesystemBlobStatus c) ''filesystem_blob'' (cnFilesystemBlobValid c))"

definition addTarget :: "planner_env \<Rightarrow> (ID \<Rightarrow> ID) \<Rightarrow> Plan \<Rightarrow> targetWork \<Rightarrow> Plan" where
  "addTarget env event plan w =
     plan\<lparr>plEffectiveTargets := plEffectiveTargets plan @ [effectiveTarget (pvIDString env) event w],
          plImpacts := plImpacts plan @ (if twDepth w > 0
            then [newImpact env ''explicit_lineage_exact_bytes_v1'' ''content_object'' (pvIDString env (cnContentID (twContent w)))
                    ''derived_bytes'' ''must_erase'' [''erase_derived_content''] ''none'' None] else []),
          plBlockers := plBlockers plan @ blobBlockers (pvIDString env) (twContent w)\<rparr>"

definition addReference :: "planner_env \<Rightarrow> (ID \<rightharpoonup> targetWork) \<Rightarrow> Plan \<Rightarrow> DirectReference \<Rightarrow> Plan" where
  "addReference env work plan ref =
     (case (work (drContentID ref), impactCatalog (drRuleID ref)) of
        (Some _, Some d) \<Rightarrow> addImpact (newImpact env (drRuleID ref) (drReferrerKind ref) (drReferrerID ref) (drReferrerField ref)
            (idClassification d) (idActions d) (idDecisionMode d) None) plan
      | _ \<Rightarrow> plan)"

section \<open>Claims whose statement is erased\<close>

definition firstParsed :: "plan_env \<Rightarrow> ('a \<Rightarrow> bool) \<Rightarrow> ('a \<Rightarrow> string) \<Rightarrow> 'a list \<Rightarrow> ID option" where
  "firstParsed env match ident xs = (case List.find match xs of None \<Rightarrow> None | Some v \<Rightarrow> peParseID env (ident v))"

definition priorClaimErasureID :: "planner_env \<Rightarrow> Plan option \<Rightarrow> ID \<Rightarrow> ID \<Rightarrow> ID option" where
  "priorClaimErasureID env prior claim content = (case prior of None \<Rightarrow> None
     | Some p \<Rightarrow> firstParsed (pvPlan env) (\<lambda>v. cyClaimID v = pvIDString env claim \<and> cyStatementContentID v = pvIDString env content)
         cyClaimStatementErasureEventID (plClaimIdentityErasures p))"

definition priorFindingIDForRule :: "planner_env \<Rightarrow> Plan option \<Rightarrow> ID \<Rightarrow> string \<Rightarrow> ID option" where
  "priorFindingIDForRule env prior claim rule = (case prior of None \<Rightarrow> None
     | Some p \<Rightarrow> firstParsed (pvPlan env) (\<lambda>v. pnClaimID v = Some (pvIDString env claim) \<and> pnRuleCode v = rule)
         pnIntegrityFindingID (plPlannedFindings p))"

definition priorFindingID :: "planner_env \<Rightarrow> Plan option \<Rightarrow> ID \<Rightarrow> ID option" where
  "priorFindingID env prior claim = priorFindingIDForRule env prior claim RuleClaimStatementErased"

definition priorQuarantineID :: "planner_env \<Rightarrow> Plan option \<Rightarrow> ID \<Rightarrow> ID option" where
  "priorQuarantineID env prior claim = (case prior of None \<Rightarrow> None
     | Some p \<Rightarrow> firstParsed (pvPlan env) (\<lambda>v. pqClaimID v = pvIDString env claim) pqStatusTransitionID (plPlannedQuarantines p))"

definition plannedFindingRow :: "planner_env \<Rightarrow> PlanRequest \<Rightarrow> ID \<Rightarrow> Candidate \<Rightarrow> ID \<Rightarrow> ID \<Rightarrow> PlannedFindingRow" where
  "plannedFindingRow env request finding candidate claim source =
     \<lparr>pnIntegrityFindingID = pvIDString env finding, pnFindingKind = ciKind candidate, pnRuleCode = ciRuleCode candidate,
      pnTargetKind = ciTargetKind candidate, pnTargetID = pvIDString env claim, pnTargetField = ciTargetField candidate,
      pnResidentID = pvIDString env (prResidentID request), pnClaimID = Some (pvIDString env claim),
      pnSourceContentErasureEventID = Some (pvIDString env source),
      pnPipelineVersionID = pvIDString env (prIntegrityPipelineVersionID request),
      pnFindingFingerprint = ''sha256:'' @ Digest_Hex (ciFingerprint candidate), pnDetailsContentID = None\<rparr>"

definition plannedQuarantineRow :: "planner_env \<Rightarrow> PlanRequest \<Rightarrow> ID \<Rightarrow> ID \<Rightarrow> ID \<Rightarrow> PlannedQuarantine" where
  "plannedQuarantineRow env request transition claim finding =
     \<lparr>pqStatusTransitionID = pvIDString env transition, pqClaimID = pvIDString env claim, pqFromStatus = ''active'',
      pqToStatus = ''quarantined'', pqDecisionKind = ''automatic'', pqActorPrincipalID = None, pqTriggerKind = ''integrity_finding'',
      pqTriggerEventID = None, pqTriggerEvidenceID = None, pqTriggerClaimRelationID = None,
      pqTriggerIntegrityFindingID = pvIDString env finding,
      pqPipelineVersionID = pvIDString env (prMemoryStatusPipelineVersionID request), pqMemoryPolicyRevisionID = None,
      pqGateMetrics = gateMetricsReason, pqDecisionReasonCode = ''structural_quarantine'', pqDecisionReasonContentID = None\<rparr>"

definition claimProvenanceImpact :: "planner_env \<Rightarrow> string \<Rightarrow> string list \<Rightarrow> Impact" where
  "claimProvenanceImpact env claim actions =
     newImpact env ''claim_provenance_break_v1'' ''claim'' claim ''qualifying_provenance'' ''needs_review'' (sort actions)
       ''consequence_only'' None"

definition appendProvenanceQuarantine ::
  "planner_env \<Rightarrow> PlanRequest \<Rightarrow> Plan option \<Rightarrow> buildState \<Rightarrow> ID \<Rightarrow> ID \<Rightarrow> (erasure_error, buildState) result" where
  "appendProvenanceQuarantine env request prior st claim finding =
     (case allocate env (priorQuarantineID env prior claim) (bsCalls st) of Inl e \<Rightarrow> Inl e
      | Inr (transition, calls) \<Rightarrow>
          Inr \<lparr>bsCalls = calls, bsPlan = (bsPlan st)\<lparr>plPlannedQuarantines := plPlannedQuarantines (bsPlan st)
                @ [plannedQuarantineRow env request transition claim finding]\<rparr>\<rparr>)"

text \<open>A finding for a claim, with its quarantine when the claim is active, and the impact of both.\<close>

definition appendProvenanceBreak ::
  "planner_env \<Rightarrow> PlanRequest \<Rightarrow> Plan option \<Rightarrow> string \<Rightarrow> string \<Rightarrow> ID option \<Rightarrow> buildState \<Rightarrow> ID \<Rightarrow> string \<Rightarrow> ID
    \<Rightarrow> (erasure_error, buildState) result" where
  "appendProvenanceBreak env request prior rule field reused st claim status source =
     (case allocate env reused (bsCalls st) of Inl e \<Rightarrow> Inl e
      | Inr (finding, calls) \<Rightarrow>
          (case NewCandidate (peFinding (pvPlan env))
              (claimCandidate (prResidentID request) claim FindingRequiredProvenanceErased rule field (Some source)) of
             Inl e \<Rightarrow> Inl (ErasureIntegrity e)
           | Inr candidate \<Rightarrow>
               (let plan = (bsPlan st)\<lparr>plPlannedFindings := plPlannedFindings (bsPlan st)
                      @ [plannedFindingRow env request finding candidate claim source]\<rparr>;
                    st' = \<lparr>bsCalls = calls, bsPlan = plan\<rparr>;
                    finish = (\<lambda>actions s. s\<lparr>bsPlan := addImpact (claimProvenanceImpact env (pvIDString env claim) actions) (bsPlan s)\<rparr>)
                in if status = ''active''
                   then (case appendProvenanceQuarantine env request prior st' claim finding of Inl e \<Rightarrow> Inl e
                         | Inr s \<Rightarrow> Inr (finish [''record_integrity_finding'', ''quarantine_claim''] s))
                   else Inr (finish [''record_integrity_finding''] st'))))"

definition appendSupportProvenanceBreak ::
  "planner_env \<Rightarrow> PlanRequest \<Rightarrow> Plan option \<Rightarrow> buildState \<Rightarrow> ProvenanceBreakSnapshot \<Rightarrow> (erasure_error, buildState) result" where
  "appendSupportProvenanceBreak env request prior st broken =
     appendProvenanceBreak env request prior RuleClaimQualifyingSupportErased ''qualifying_support''
       (priorFindingIDForRule env prior (vbClaimID broken) RuleClaimQualifyingSupportErased)
       st (vbClaimID broken) (vbCurrentStatus broken) (vbSourceContentErasureEventID broken)"

definition planBlocked :: "buildState \<Rightarrow> Blocker \<Rightarrow> buildState" where
  "planBlocked st blocker = st\<lparr>bsPlan := addBlocker blocker (bsPlan st)\<rparr>"

definition effectMismatch :: Blocker where
  "effectMismatch = makeBlocker ''planned_effect_mismatch'' '''' ''planned_effects'' None"

definition historicalAlias :: "planner_env \<Rightarrow> PlanRequest \<Rightarrow> ErasureSnapshot \<Rightarrow> buildState \<Rightarrow> AliasSnapshot \<Rightarrow> buildState" where
  "historicalAlias env request snapshot st alias =
     (case contentByID (esContents snapshot) (aaStatementContentID alias) of
        None \<Rightarrow> planBlocked st (makeBlocker ''cross_resident_reference'' (pvIDString env (aaStatementContentID alias)) ''cross_resident_reference'' None)
      | Some content \<Rightarrow>
          if cnResidentID content \<noteq> prResidentID request \<or> aaResidentID alias \<noteq> prResidentID request
          then planBlocked st (makeBlocker ''cross_resident_reference'' (pvIDString env (aaStatementContentID alias)) ''cross_resident_reference'' None)
          else (case (aaClaimStatementErasureEventID alias, aaContentErasureEventID alias, aaCanonicalCommitID alias) of
              (Some pair, Some event, Some commit) \<Rightarrow>
                if cnErasureState content = ''erased'' \<and> \<not> aaStatementHashPresent alias
                then st\<lparr>bsPlan := (bsPlan st)\<lparr>plExistingClaimIdentityDependencies := plExistingClaimIdentityDependencies (bsPlan st)
                       @ [\<lparr>cyClaimStatementErasureEventID = pvIDString env pair, cyClaimID = pvIDString env (aaClaimID alias),
                          cyStatementContentID = pvIDString env (aaStatementContentID alias),
                          cyContentErasureEventID = pvIDString env event, cyCanonicalCommitID = pvIDString env commit\<rparr>]\<rparr>\<rparr>
                else planBlocked st effectMismatch
            | _ \<Rightarrow> planBlocked st effectMismatch))"

definition addAlias ::
  "planner_env \<Rightarrow> PlanRequest \<Rightarrow> ErasureSnapshot \<Rightarrow> Plan option \<Rightarrow> (ID \<rightharpoonup> targetWork) \<Rightarrow> (ID \<Rightarrow> ID) \<Rightarrow> buildState \<Rightarrow> AliasSnapshot
    \<Rightarrow> (erasure_error, buildState) result" where
  "addAlias env request snapshot prior work event st alias =
     (case work (aaStatementContentID alias) of
        None \<Rightarrow> Inr (if prScope request \<noteq> ScopeResident then st else historicalAlias env request snapshot st alias)
      | Some w \<Rightarrow>
          if aaResidentID alias \<noteq> prResidentID request
          then Inr (planBlocked st (makeBlocker ''cross_resident_reference'' (pvIDString env (aaStatementContentID alias)) ''cross_resident_reference'' None))
          else if aaStatementHashPresent alias \<and> aaClaimStatementErasureEventID alias = None
          then (case allocate env (priorClaimErasureID env prior (aaClaimID alias) (aaStatementContentID alias)) (bsCalls st) of Inl e \<Rightarrow> Inl e
              | Inr (pair, calls) \<Rightarrow>
                  appendProvenanceBreak env request prior RuleClaimStatementErased ''statement_content_id'' (priorFindingID env prior (aaClaimID alias))
                    \<lparr>bsCalls = calls, bsPlan = (bsPlan st)\<lparr>plClaimIdentityErasures := plClaimIdentityErasures (bsPlan st)
                       @ [\<lparr>cyClaimStatementErasureEventID = pvIDString env pair, cyClaimID = pvIDString env (aaClaimID alias),
                          cyStatementContentID = pvIDString env (aaStatementContentID alias),
                          cyContentErasureEventID = pvIDString env (event (cnContentID (twContent w)))\<rparr>]\<rparr>\<rparr>
                    (aaClaimID alias) (aaCurrentStatus alias) (event (cnContentID (twContent w))))
          else Inr (planBlocked st effectMismatch))"

section \<open>Logical provenance\<close>

definition ImpactForLogicalReference :: "plan_env \<Rightarrow> LogicalReferenceSnapshot \<Rightarrow> (erasure_error, Impact) result" where
  "ImpactForLogicalReference env reference =
     (case impactCatalog (lrRuleID reference) of
        None \<Rightarrow> Inl (ErrInvalidPlan ''unknown logical impact rule'')
      | Some d \<Rightarrow>
          andThen (reject (\<not> IsLogicalImpactRule (lrRuleID reference)) (ErrInvalidPlan ''unknown logical impact rule''))
         (andThen (reject (lrBreaksClaim reference \<and> \<not> conditionalRule (lrRuleID reference)) (ErrInvalidPlan ''unsupported conditional logical impact''))
         (let impact = \<lparr>imImpactID = '''', imRuleID = lrRuleID reference, imReferrerKind = lrReferrerKind reference,
                imReferrerID = lrReferrerID reference, imReferrerField = lrReferrerField reference,
                imClassification = (if lrBreaksClaim reference then ''needs_review'' else idClassification d), imActions = idActions d,
                imDecisionMode = (if lrBreaksClaim reference then ''consequence_only'' else idDecisionMode d),
                imCandidateContentID = None, imDecision = None\<rparr>
          in case ImpactID env impact of Inl e \<Rightarrow> Inl e | Inr i \<Rightarrow> Inr (impact\<lparr>imImpactID := i\<rparr>))))"

definition addLogicalReference :: "planner_env \<Rightarrow> buildState \<Rightarrow> LogicalReferenceSnapshot \<Rightarrow> (erasure_error, buildState) result" where
  "addLogicalReference env st reference =
     (case ImpactForLogicalReference (pvPlan env) reference of Inl e \<Rightarrow> Inl e
      | Inr impact \<Rightarrow> Inr (st\<lparr>bsPlan := addImpact impact (bsPlan st)\<rparr>))"

definition addExistingFinding ::
  "planner_env \<Rightarrow> PlanRequest \<Rightarrow> Plan option \<Rightarrow> buildState \<Rightarrow> ExistingProvenanceFindingSnapshot \<Rightarrow> (erasure_error, buildState) result" where
  "addExistingFinding env request prior st dependency =
     (let finding = vfFinding dependency;
          row = \<lparr>xdIntegrityFindingID = pvIDString env (efIntegrityFindingID finding), xdClaimID = pvIDString env (vfClaimID dependency),
            xdFindingKind = efFindingKind finding, xdRuleCode = efRuleCode finding,
            xdSourceContentErasureEventID = map_option (pvIDString env) (efSourceContentErasureEventID finding),
            xdPipelineVersionID = pvIDString env (efPipelineVersionID finding),
            xdFindingFingerprint = ''sha256:'' @ Digest_Hex (efFingerprint finding)\<rparr>;
          st' = st\<lparr>bsPlan := (bsPlan st)\<lparr>plExistingFindingDependencies := plExistingFindingDependencies (bsPlan st) @ [row]\<rparr>\<rparr>
      in if vfCurrentStatus dependency = ''active''
         then (case appendProvenanceQuarantine env request prior st' (vfClaimID dependency) (efIntegrityFindingID finding) of Inl e \<Rightarrow> Inl e
             | Inr s \<Rightarrow> Inr (s\<lparr>bsPlan := addImpact (claimProvenanceImpact env (pvIDString env (vfClaimID dependency)) [''quarantine_claim'']) (bsPlan s)\<rparr>))
         else Inr st')"

definition addLogicalProvenance ::
  "planner_env \<Rightarrow> PlanRequest \<Rightarrow> Plan option \<Rightarrow> targetWork list \<Rightarrow> (ID \<Rightarrow> ID) \<Rightarrow> buildState \<Rightarrow> (erasure_error, buildState) result" where
  "addLogicalProvenance env request prior ordered event st =
     (case pvLogical env of None \<Rightarrow> Inr st
      | Some capture \<Rightarrow>
          if ordered = [] then Inr st
          else (case capture (map (\<lambda>w. (cnContentID (twContent w), event (cnContentID (twContent w)))) ordered) of
              Inl e \<Rightarrow> Inl (ErasureSource e)
            | Inr logical \<Rightarrow>
                (let st' = st\<lparr>bsPlan := (bsPlan st)\<lparr>plBlockers := plBlockers (bsPlan st) @ lsBlockers logical\<rparr>\<rparr>
                 in case foldE (addLogicalReference env) st' (lsReferences logical) of Inl e \<Rightarrow> Inl e
                    | Inr st1 \<Rightarrow>
                        (case foldE (addExistingFinding env request prior) st1 (lsExistingFindingDependencies logical) of Inl e \<Rightarrow> Inl e
                         | Inr st2 \<Rightarrow> foldE (appendSupportProvenanceBreak env request prior) st2 (lsBreaks logical)))))"

section \<open>Resident, running work and projections\<close>

definition addResident :: "planner_env \<Rightarrow> PlanRequest \<Rightarrow> ErasureSnapshot \<Rightarrow> Plan option \<Rightarrow> buildState \<Rightarrow> (erasure_error, buildState) result" where
  "addResident env request snapshot prior st =
     (if prScope request \<noteq> ScopeResident then Inr st
      else let reused = (case prior of None \<Rightarrow> None
             | Some p \<Rightarrow> map_option (\<lambda>t. parsedID (pvPlan env) (rtTransitionID t)) (plResidentTransition p))
       in case allocate env reused (bsCalls st) of Inl e \<Rightarrow> Inl e
          | Inr (transition, calls) \<Rightarrow>
              (let resident = pvIDString env (prResidentID request);
                   selected = (esActiveResidentID snapshot = Some (prResidentID request));
                   plan = (bsPlan st)\<lparr>plResidentTransition := Some \<lparr>rtTransitionID = pvIDString env transition, rtResidentID = resident,
                       rtFromStatus = esResidentStatus snapshot, rtToStatus = ''erased'',
                       rtActorPrincipalID = pvIDString env (prActorPrincipalID request), rtReasonCode = prReasonCode request, rtReasonContentID = None\<rparr>,
                     plRuntimeConfigEffect := (if selected
                       then \<lparr>reExpectedActiveResidentID = Some resident, reResultingActiveResidentID = None, reClearActiveResident = True\<rparr>
                       else plRuntimeConfigEffect (bsPlan st))\<rparr>;
                   plan' = (if esMandatoryWorkCount snapshot > 0
                     then addBlocker (makeBlocker ''mandatory_work_present'' resident ''mandatory_work''
                       (Some (if esResidentStatus snapshot = ''active'' then [''archive_resident'', ''replan_erasure'', ''run_recovery_terminalize'']
                              else [''replan_erasure'', ''run_recovery_terminalize'']))) plan
                     else plan);
                   actions = (if reClearActiveResident (plRuntimeConfigEffect plan') then [''clear_runtime_selection'', ''rebuild_projection'', ''transition_resident_erased'']
                     else [''rebuild_projection'', ''transition_resident_erased''])
               in Inr \<lparr>bsCalls = calls, bsPlan = addImpact (newImpact env ''resident_lifecycle_erase_v1'' ''resident'' resident ''lifecycle''
                    ''needs_rebuild'' actions ''none'' None) plan'\<rparr>))"

definition runningIntersectsTargets :: "RunningWork \<Rightarrow> LineageEdge list \<Rightarrow> (ID \<rightharpoonup> targetWork) \<Rightarrow> bool" where
  "runningIntersectsTargets running lineage targets \<longleftrightarrow>
     (\<exists>c\<in>set (rwContentIDs running). targets c \<noteq> None)
     \<or> (\<exists>e\<in>set lineage. leRunID e = rwRunID running \<and> (targets (leParentContentID e) \<noteq> None \<or> targets (leChildContentID e) \<noteq> None))"

definition addRunning :: "planner_env \<Rightarrow> PlanRequest \<Rightarrow> ErasureSnapshot \<Rightarrow> (ID \<rightharpoonup> targetWork) \<Rightarrow> Plan \<Rightarrow> RunningWork \<Rightarrow> Plan" where
  "addRunning env request snapshot work plan running =
     (if prScope request = ScopeResident \<or> runningIntersectsTargets running (esLineage snapshot) work
      then addBlocker (makeBlocker ''running_attempt'' (pvIDString env (rwRunID running)) ''attempt'' None) plan else plan)"

definition addProjection :: "planner_env \<Rightarrow> PlanRequest \<Rightarrow> Plan \<Rightarrow> ProjectionDefinition \<Rightarrow> Plan" where
  "addProjection env request plan d =
     (let plan' = addImpact (newImpact env ''projection_derived_state_v1'' ''projection'' (pdName d) ''body'' ''needs_rebuild''
            [''rebuild_projection''] ''none'' None) plan;
          rebuild = (\<lambda>reason. \<lparr>rbResidentID = pvIDString env (prResidentID request), rbProjectionName = pdName d,
            rbProjectionVersion = pdVersion d, rbReasonCode = reason\<rparr>)
      in plan'\<lparr>plRebuilds := plRebuilds plan' @ [rebuild ''content_erasure'']
           @ (if plPlannedQuarantines plan' \<noteq> [] then [rebuild ''claim_state_change''] else [])
           @ (if prScope request = ScopeResident then [rebuild ''resident_lifecycle_change''] else [])\<rparr>)"

section \<open>Sorting and building\<close>

fun compactBy :: "('a \<Rightarrow> 'a \<Rightarrow> bool) \<Rightarrow> 'a list \<Rightarrow> 'a list" where
  "compactBy eq (a # b # rest) = (if eq a b then compactBy eq (a # rest) else a # compactBy eq (b # rest))"
| "compactBy eq xs = xs"

definition blockerEqual :: "Blocker \<Rightarrow> Blocker \<Rightarrow> bool" where
  "blockerEqual a b \<longleftrightarrow> bkCode a = bkCode b \<and> bkTargetKind a = bkTargetKind b \<and> compareNullable (bkTargetID a) (bkTargetID b) = 0
     \<and> compareNullable (bkTargetField a) (bkTargetField b) = 0"

definition byKey :: "('a \<Rightarrow> string) \<Rightarrow> 'a list \<Rightarrow> 'a list" where
  "byKey key = slice_stable (\<lambda>a b. key a < key b)"

definition sortPlanCollections :: "Plan \<Rightarrow> Plan" where
  "sortPlanCollections p = p\<lparr>
     plEffectiveTargets := slice_stable (\<lambda>a b. compareTarget a b < 0) (plEffectiveTargets p),
     plImpacts := compactBy (\<lambda>a b. imImpactID a = imImpactID b) (byKey imImpactID (plImpacts p)),
     plPlannedFindings := byKey findingKey (plPlannedFindings p),
     plExistingFindingDependencies := byKey existingFindingKey (plExistingFindingDependencies p),
     plPlannedQuarantines := byKey quarantineKey (plPlannedQuarantines p),
     plClaimIdentityErasures := byKey claimKey (plClaimIdentityErasures p),
     plExistingClaimIdentityDependencies := byKey claimKey (plExistingClaimIdentityDependencies p),
     plRebuilds := byKey rebuildKey (plRebuilds p),
     plBlockers := compactBy blockerEqual (byKey blockerKey (plBlockers p))\<rparr>"

definition emptyPlan :: "planner_env \<Rightarrow> PlanRequest \<Rightarrow> ID list \<Rightarrow> ErasureSnapshot \<Rightarrow> Plan" where
  "emptyPlan env request roots snapshot =
     \<lparr>plFormatVersion = PlanFormatVersion, plRulesVersion = ImpactRulesVersion, plPlanState = '''', plScope = prScope request,
      plResidentID = pvIDString env (prResidentID request),
      plBaseHead = \<lparr>bhCommitID = pvIDString env (esHeadCommitID snapshot), bhCommitSeq = FormatInt (esHeadCommitSeq snapshot)\<rparr>,
      plActorPrincipalID = pvIDString env (prActorPrincipalID request), plReasonCode = prReasonCode request,
      plIntegrityPipelineVersionID = pvIDString env (prIntegrityPipelineVersionID request),
      plMemoryStatusPipelineVersionID = pvIDString env (prMemoryStatusPipelineVersionID request),
      plRequestedContentIDs = map (pvIDString env) roots, plEffectiveTargets = [], plImpacts = [], plPlannedFindings = [],
      plExistingFindingDependencies = [], plPlannedQuarantines = [], plClaimIdentityErasures = [],
      plExistingClaimIdentityDependencies = [], plResidentTransition = None,
      plRuntimeConfigEffect = \<lparr>reExpectedActiveResidentID = None, reResultingActiveResidentID = None, reClearActiveResident = False\<rparr>,
      plRebuilds = [], plBlockers = [], plExternalCopyNotice = ExternalCopyNotice, plDigest = '''', plNull = False\<rparr>"

definition startBlockers :: "planner_env \<Rightarrow> PlanRequest \<Rightarrow> ErasureSnapshot \<Rightarrow> Blocker list" where
  "startBlockers env request snapshot = esBlockers snapshot
     @ (if esOwnerHuman snapshot then []
        else [makeBlocker ''actor_not_owner_human'' (pvIDString env (prResidentID request)) ''owner_principal_id'' None])"

text \<open>
  The search for a cycle runs between the admission of the roots and the closure; its blocker is
  appended in between. \<open>reachableLineageCycle\<close> always answers with the fuel it is given.
\<close>

definition cycleBlockers :: "closure_env \<Rightarrow> ID list \<Rightarrow> LineageEdge list \<Rightarrow> Blocker list" where
  "cycleBlockers cenv roots lineage =
     (case reachableLineageCycle cenv roots lineage of
        Some (m, True) \<Rightarrow> [makeBlocker ''lineage_cycle'' (xeIDString cenv m) ''cycle'' None]
      | _ \<Rightarrow> [])"

definition closeTargets :: "planner_env \<Rightarrow> PlanRequest \<Rightarrow> ID list \<Rightarrow> ErasureSnapshot \<Rightarrow> closureState" where
  "closeTargets env request roots snapshot =
     (let cenv = closureEnv env request snapshot;
          allRoots = residentRoots cenv roots;
          lineage = slice_stable (edgeBefore (pvIDString env)) (esLineage snapshot)
      in targetClosure cenv (esLineage snapshot) (startBlockers env request snapshot) (cycleBlockers cenv allRoots lineage) allRoots)"

definition build :: "planner_env \<Rightarrow> PlanRequest \<Rightarrow> ID list \<Rightarrow> ErasureSnapshot \<Rightarrow> Plan option \<Rightarrow> (erasure_error, Plan) result" where
  "build env request roots snapshot prior =
     (let closed = closeTargets env request roots snapshot;
          work = csWork closed;
          ordered = orderedTargets (pvIDString env) (esContents snapshot) work;
          plan0 = (emptyPlan env request roots snapshot)\<lparr>plBlockers := csBlockers closed,
            plImpacts := csImpacts closed @ sameBytes env request snapshot work\<rparr>
      in case foldE (assignEvent env (priorTargets (pvPlan env) prior)) (0, Map.empty) ordered of Inl e \<Rightarrow> Inl e
         | Inr (calls, events) \<Rightarrow>
             (let event = (\<lambda>i. case events i of None \<Rightarrow> 0 | Some e \<Rightarrow> e);
                  plan1 = foldl (addTarget env event) plan0 ordered;
                  plan2 = foldl (addReference env work) plan1 (esDirectReferences snapshot)
              in case foldE (addAlias env request snapshot prior work event) \<lparr>bsCalls = calls, bsPlan = plan2\<rparr> (esAliases snapshot) of Inl e \<Rightarrow> Inl e
                 | Inr st1 \<Rightarrow>
                     (case addLogicalProvenance env request prior ordered event st1 of Inl e \<Rightarrow> Inl e
                      | Inr st2 \<Rightarrow>
                          (case addResident env request snapshot prior st2 of Inl e \<Rightarrow> Inl e
                           | Inr st3 \<Rightarrow>
                               (let plan3 = foldl (addRunning env request snapshot work) (bsPlan st3) (esRunning snapshot);
                                    plan4 = foldl (addProjection env request) plan3 (esProjectionDefinitions snapshot);
                                    plan5 = (if MaxSingleTransactionMutations < plannedMutationCount plan4
                                      then addBlocker (makeBlocker ''transaction_size_unsupported'' (pvIDString env (prResidentID request)) ''effective_targets'' None) plan4
                                      else plan4);
                                    plan6 = sortPlanCollections plan5;
                                    open = (\<exists>i\<in>set (plImpacts plan6). imDecisionMode i \<noteq> ''none'')
                                in Seal (pvPlan env) (plan6\<lparr>plPlanState := if open \<or> plBlockers plan6 \<noteq> [] then StateReviewRequired else StateReady\<rparr>))))))"

section \<open>Planning and deciding\<close>

fun adjacentRepeat :: "'a list \<Rightarrow> bool" where
  "adjacentRepeat (a # b # rest) \<longleftrightarrow> a = b \<or> adjacentRepeat (b # rest)"
| "adjacentRepeat _ \<longleftrightarrow> False"

text \<open>
  \<open>capture\<close> is the source: the snapshot for the given roots. The checks of a root and of its
  repetition alternate in the source; both refuse the request.
\<close>

definition Planner_Plan ::
  "planner_env \<Rightarrow> (ID list \<Rightarrow> (string, ErasureSnapshot) result) \<Rightarrow> PlanRequest \<Rightarrow> (erasure_error, Plan) result" where
  "Planner_Plan env capture request =
     andThen (reject (prScope request \<noteq> ScopeContent \<and> prScope request \<noteq> ScopeResident) (ErrInvalidPlan ''scope''))
    (andThen (mapError ErasureCanonical (checkE ID_Validate [prResidentID request, prActorPrincipalID request,
         prIntegrityPipelineVersionID request, prMemoryStatusPipelineVersionID request]))
    (andThen (reject (\<not> reasonPattern (prReasonCode request)) (ErrInvalidPlan ''reason''))
    (let roots = slice_stable (\<lambda>a b. pvIDString env a < pvIDString env b) (prRequestedContentIDs request) in
     andThen (mapError ErasureCanonical (checkE ID_Validate roots))
    (andThen (reject (adjacentRepeat roots) (ErrInvalidPlan ''duplicate requested content''))
    (andThen (reject (prScope request = ScopeContent \<and> roots = []) (ErrInvalidPlan ''empty roots''))
    (andThen (reject (prScope request = ScopeResident \<and> roots \<noteq> []) (ErrInvalidPlan ''resident roots must be discovered''))
    (case capture roots of Inl e \<Rightarrow> Inl (ErasureSource e)
     | Inr snapshot \<Rightarrow> build env request roots snapshot None)))))))"

definition promoteStep ::
  "plan_env \<Rightarrow> (string \<rightharpoonup> string) \<Rightarrow> ID list \<times> string set \<Rightarrow> Impact \<Rightarrow> (erasure_error, ID list \<times> string set) result" where
  "promoteStep env byID = (\<lambda>(roots, promoted) impact.
     case byID (imImpactID impact) of None \<Rightarrow> Inr (roots, promoted)
     | Some decision \<Rightarrow>
         andThen (reject (imDecisionMode impact = ''none'') (ErrInvalidPlan ''decision names non-review impact''))
        (andThen (reject (imDecisionMode impact = ''consequence_only'' \<and> decision = ''erase'')
           (ErrInvalidPlan ''consequence-only impact cannot be erased''))
        (if imDecisionMode impact = ''content_candidate'' \<and> decision = ''erase''
         then (case imCandidateContentID impact of None \<Rightarrow> Inl (ErrInvalidPlan ''candidate missing'')
             | Some candidate \<Rightarrow>
                 (case peParseID env candidate of None \<Rightarrow> Inl (ErasureCanonical (ErrInvalidID ''candidate''))
                  | Some i \<Rightarrow> Inr (roots @ [i], insert (imImpactID impact) promoted)))
         else Inr (roots, promoted))))"

definition carryDecision :: "(string \<rightharpoonup> Impact) \<Rightarrow> (string \<rightharpoonup> string) \<Rightarrow> Impact \<Rightarrow> Impact" where
  "carryDecision old byID impact =
     (if imDecisionMode impact = ''none'' then impact
      else (case old (imImpactID impact) of None \<Rightarrow> impact\<lparr>imDecision := None\<rparr>
         | Some before \<Rightarrow>
             (case byID (imImpactID impact) of Some decision \<Rightarrow> impact\<lparr>imDecision := Some decision\<rparr>
              | None \<Rightarrow> (case imDecision before of Some d \<Rightarrow> impact\<lparr>imDecision := Some d\<rparr> | None \<Rightarrow> impact))))"

text \<open>The promoted roots of a resident plan are refused, so its roots stay empty.\<close>

definition Planner_Decide ::
  "planner_env \<Rightarrow> (ID list \<Rightarrow> (string, ErasureSnapshot) result) \<Rightarrow> Plan \<Rightarrow> DecisionInput list \<Rightarrow> (erasure_error, Plan) result" where
  "Planner_Decide env capture plan decisions =
     (let penv = pvPlan env in
      andThen (validatePlan penv plan True)
     (andThen (reject (plBlockers plan \<noteq> []) ErrBlocked)
     (case foldE collectDecision Map.empty decisions of Inl e \<Rightarrow> Inl e
      | Inr byID \<Rightarrow>
          (case mapE (\<lambda>raw. case peParseID penv raw of None \<Rightarrow> Inl (ErasureCanonical (ErrInvalidID ''requested'')) | Some i \<Rightarrow> Inr i)
              (plRequestedContentIDs plan) of Inl e \<Rightarrow> Inl e
           | Inr requested \<Rightarrow>
          (case foldE (promoteStep penv byID) (requested, {}) (plImpacts plan) of Inl e \<Rightarrow> Inl e
           | Inr (roots, promoted) \<Rightarrow>
               andThen (reject (\<exists>d\<in>set decisions. diImpactID d \<notin> imImpactID ` set (plImpacts plan)) (ErrInvalidPlan ''decision names unknown impact''))
              (andThen (reject (plScope plan = ScopeResident \<and> promoted \<noteq> {}) (ErrInvalidPlan ''resident plan cannot promote content''))
              (let sorted = remdups_adj (slice_stable (\<lambda>a b. pvIDString env a < pvIDString env b) roots);
                   chosen = (if plScope plan = ScopeResident then [] else sorted);
                   request = \<lparr>prScope = plScope plan, prResidentID = parsedID penv (plResidentID plan),
                     prActorPrincipalID = parsedID penv (plActorPrincipalID plan), prReasonCode = plReasonCode plan,
                     prIntegrityPipelineVersionID = parsedID penv (plIntegrityPipelineVersionID plan),
                     prMemoryStatusPipelineVersionID = parsedID penv (plMemoryStatusPipelineVersionID plan), prRequestedContentIDs = chosen\<rparr>
               in case capture chosen of Inl e \<Rightarrow> Inl (ErasureSource e)
                  | Inr snapshot \<Rightarrow>
                      andThen (reject (pvIDString env (esHeadCommitID snapshot) \<noteq> bhCommitID (plBaseHead plan)
                          \<or> FormatInt (esHeadCommitSeq snapshot) \<noteq> bhCommitSeq (plBaseHead plan)) ErrPlanStale)
                      (case build env request chosen snapshot (Some plan) of Inl e \<Rightarrow> Inl e
                       | Inr rebuilt \<Rightarrow>
                           (let impacts = map (carryDecision (indexBy imImpactID (plImpacts plan)) byID) (plImpacts rebuilt);
                                open = (\<exists>i\<in>set impacts. imDecisionMode i \<noteq> ''none'' \<and> imDecision i = None)
                            in andThen (reject (\<exists>i\<in>set impacts. imImpactID i \<in> promoted) (ErrInvalidPlan ''promoted candidate remains review-only''))
                               (Seal penv (rebuilt\<lparr>plImpacts := impacts,
                                  plPlanState := if open \<or> plBlockers rebuilt \<noteq> [] then StateReviewRequired else StateReady\<rparr>)))))))))))"

section \<open>What the later passes keep\<close>

text \<open>After the targets are recorded, a pass only adds impacts and blockers and leaves the targets alone.\<close>

definition extends :: "Plan \<Rightarrow> Plan \<Rightarrow> bool" where
  "extends p q \<longleftrightarrow> set (plImpacts p) \<subseteq> set (plImpacts q) \<and> (plBlockers q = [] \<longrightarrow> plBlockers p = [])
     \<and> plEffectiveTargets q = plEffectiveTargets p"

lemma extends_refl [simp]: "extends p p"
  by (simp add: extends_def)

lemma extends_trans: "extends p q \<Longrightarrow> extends q r \<Longrightarrow> extends p r"
  unfolding extends_def by (metis subset_trans)

lemma extends_addImpact [simp]: "extends p (addImpact i p)"
  by (auto simp: extends_def addImpact_def)

lemma extends_addBlocker [simp]: "extends p (addBlocker b p)"
  by (simp add: extends_def addBlocker_def)

lemma extends_foldl:
  assumes "\<And>p x. extends p (f p x)"
  shows "extends p (foldl f p xs)"
proof (induction xs arbitrary: p)
  case (Cons x xs)
  then show ?case using extends_trans [OF assms [of p x]] by simp
qed simp

lemma extends_foldE:
  assumes step: "\<And>s x s'. f s x = Inr s' \<Longrightarrow> extends (bsPlan s) (bsPlan s')" and "foldE f s xs = Inr t"
  shows "extends (bsPlan s) (bsPlan t)"
  using assms(2)
proof (induction xs arbitrary: s)
  case (Cons x xs)
  then obtain s' where "f s x = Inr s'" "foldE f s' xs = Inr t" by (auto split: sum.splits)
  then show ?case using step Cons.IH extends_trans by blast
qed simp

lemma extends_addReference: "extends p (addReference env work p ref)"
  by (auto simp: addReference_def split: option.split)

lemma extends_addRunning: "extends p (addRunning env request snapshot work p running)"
  by (simp add: addRunning_def)

lemma extends_addProjection: "extends p (addProjection env request p d)"
  by (auto simp: addProjection_def Let_def extends_def addImpact_def)

lemma extends_quarantine:
  "appendProvenanceQuarantine env request prior st claim finding = Inr st' \<Longrightarrow> extends (bsPlan st) (bsPlan st')"
  by (auto simp: appendProvenanceQuarantine_def extends_def split: sum.splits)

lemma extends_break:
  assumes "appendProvenanceBreak env request prior rule field reused st claim status source = Inr st'"
  shows "extends (bsPlan st) (bsPlan st')"
  using assms unfolding appendProvenanceBreak_def appendProvenanceQuarantine_def Let_def extends_def addImpact_def
  by (auto split: sum.splits if_splits)

lemma extends_support: "appendSupportProvenanceBreak env request prior st b = Inr st' \<Longrightarrow> extends (bsPlan st) (bsPlan st')"
  unfolding appendSupportProvenanceBreak_def by (rule extends_break)

lemma extends_historical: "extends (bsPlan st) (bsPlan (historicalAlias env request snapshot st alias))"
  by (auto simp: historicalAlias_def planBlocked_def extends_def addBlocker_def split: option.split)

lemma extends_addAlias:
  assumes "addAlias env request snapshot prior work event st alias = Inr st'"
  shows "extends (bsPlan st) (bsPlan st')"
proof (cases "work (aaStatementContentID alias)")
  case None
  then show ?thesis using assms extends_historical by (auto simp: addAlias_def split: if_splits)
next
  case (Some w)
  show ?thesis
  proof (cases "aaResidentID alias = prResidentID request \<and> aaStatementHashPresent alias \<and> aaClaimStatementErasureEventID alias = None")
    case True
    obtain pair calls where "allocate env (priorClaimErasureID env prior (aaClaimID alias) (aaStatementContentID alias)) (bsCalls st) = Inr (pair, calls)"
      using assms Some True by (auto simp: addAlias_def split: sum.splits)
    then have "appendProvenanceBreak env request prior RuleClaimStatementErased ''statement_content_id'' (priorFindingID env prior (aaClaimID alias))
        \<lparr>bsCalls = calls, bsPlan = (bsPlan st)\<lparr>plClaimIdentityErasures := plClaimIdentityErasures (bsPlan st)
           @ [\<lparr>cyClaimStatementErasureEventID = pvIDString env pair, cyClaimID = pvIDString env (aaClaimID alias),
              cyStatementContentID = pvIDString env (aaStatementContentID alias),
              cyContentErasureEventID = pvIDString env (event (cnContentID (twContent w)))\<rparr>]\<rparr>\<rparr>
        (aaClaimID alias) (aaCurrentStatus alias) (event (cnContentID (twContent w))) = Inr st'"
      using assms Some True by (simp add: addAlias_def)
    then show ?thesis using extends_break by (fastforce simp: extends_def)
  next
    case False
    then show ?thesis using assms Some by (auto simp: addAlias_def planBlocked_def split: if_splits)
  qed
qed

lemma extends_reference: "addLogicalReference env st r = Inr st' \<Longrightarrow> extends (bsPlan st) (bsPlan st')"
  by (auto simp: addLogicalReference_def split: sum.splits)

lemma extends_existing:
  assumes "addExistingFinding env request prior st d = Inr st'"
  shows "extends (bsPlan st) (bsPlan st')"
  using assms unfolding addExistingFinding_def appendProvenanceQuarantine_def Let_def extends_def addImpact_def
  by (auto split: sum.splits if_splits)

lemma extends_logical:
  assumes "addLogicalProvenance env request prior ordered event st = Inr st'"
  shows "extends (bsPlan st) (bsPlan st')"
proof (cases "pvLogical env = None \<or> ordered = []")
  case True
  then show ?thesis using assms by (auto simp: addLogicalProvenance_def split: option.splits)
next
  case False
  then obtain logical :: LogicalProvenanceSnapshot and st1 st2 where
    "foldE (addLogicalReference env) (st\<lparr>bsPlan := (bsPlan st)\<lparr>plBlockers := plBlockers (bsPlan st) @ lsBlockers logical\<rparr>\<rparr>) (lsReferences logical) = Inr st1"
    "foldE (addExistingFinding env request prior) st1 (lsExistingFindingDependencies logical) = Inr st2"
    "foldE (appendSupportProvenanceBreak env request prior) st2 (lsBreaks logical) = Inr st'"
    using assms unfolding addLogicalProvenance_def Let_def
    by (clarsimp simp: case_result_ok [where f = "\<lambda>e. e"] case_result_ok [where f = ErasureSource])
  note runs = this
  have "extends ((bsPlan st)\<lparr>plBlockers := plBlockers (bsPlan st) @ lsBlockers logical\<rparr>) (bsPlan st1)"
    using extends_foldE [OF extends_reference runs(1)] by simp
  moreover have "extends (bsPlan st1) (bsPlan st2)" by (rule extends_foldE [OF extends_existing runs(2)])
  moreover have "extends (bsPlan st2) (bsPlan st')" by (rule extends_foldE [OF extends_support runs(3)])
  moreover have "extends (bsPlan st) ((bsPlan st)\<lparr>plBlockers := plBlockers (bsPlan st) @ lsBlockers logical\<rparr>)" by (simp add: extends_def)
  ultimately show ?thesis using extends_trans by blast
qed

lemma extends_resident:
  assumes "addResident env request snapshot prior st = Inr st'"
  shows "extends (bsPlan st) (bsPlan st')"
  using assms unfolding addResident_def Let_def extends_def addImpact_def addBlocker_def
  by (auto split: sum.splits if_splits)

section \<open>What a built plan contains\<close>

lemma compactBy_nonempty: "compactBy eq xs = [] \<longleftrightarrow> xs = []"
  by (induction eq xs rule: compactBy.induct) auto

lemma compactBy_subset: "set (compactBy eq xs) \<subseteq> set xs"
  by (induction eq xs rule: compactBy.induct) auto

lemma compactBy_covers: "x \<in> set xs \<Longrightarrow> \<exists>y\<in>set (compactBy (\<lambda>a b. f a = f b) xs). f y = f x"
proof (induction "\<lambda>a b. f a = f b" xs arbitrary: x rule: compactBy.induct)
  case (1 a b rest)
  then show ?case by (cases "f a = f b") fastforce+
qed auto

lemma set_byKey [simp]: "set (byKey key xs) = set xs"
  by (simp add: byKey_def)

lemma byKey_Nil [simp]: "byKey key xs = [] \<longleftrightarrow> xs = []"
  by (metis set_byKey set_empty)

definition recordTargets :: "planner_env \<Rightarrow> (ID \<Rightarrow> ID) \<Rightarrow> Plan \<Rightarrow> targetWork list \<Rightarrow> Plan" where
  "recordTargets env event plan ordered = foldl (addTarget env event) plan ordered"

lemma recordTargets_ok:
  "plEffectiveTargets (recordTargets env event plan ordered) = plEffectiveTargets plan @ map (effectiveTarget (pvIDString env) event) ordered
   \<and> set (plImpacts plan) \<subseteq> set (plImpacts (recordTargets env event plan ordered))
   \<and> (plBlockers (recordTargets env event plan ordered) = [] \<longrightarrow> plBlockers plan = [])"
proof (induction ordered arbitrary: plan)
  case (Cons w ws)
  have "recordTargets env event plan (w # ws) = recordTargets env event (addTarget env event plan w) ws"
    by (simp add: recordTargets_def)
  then show ?case using Cons [of "addTarget env event plan w"] by (auto simp: addTarget_def)
qed (simp add: recordTargets_def)

lemma build_ok:
  assumes "build env request roots snapshot prior = Inr plan"
  defines "closed \<equiv> closeTargets env request roots snapshot"
  shows "\<exists>event (q :: Plan). set (plEffectiveTargets plan)
        = effectiveTarget (pvIDString env) event ` set (orderedTargets (pvIDString env) (esContents snapshot) (csWork closed))
      \<and> set (csImpacts closed) \<subseteq> set (plImpacts q) \<and> (plBlockers q = [] \<longrightarrow> csBlockers closed = [])
      \<and> plImpacts plan = compactBy (\<lambda>a b. imImpactID a = imImpactID b) (byKey imImpactID (plImpacts q))
      \<and> (plBlockers plan = [] \<longrightarrow> plBlockers q = [])
      \<and> plPlanState plan = (if (\<exists>i\<in>set (plImpacts plan). imDecisionMode i \<noteq> ''none'') \<or> plBlockers plan \<noteq> []
          then StateReviewRequired else StateReady)
      \<and> validatePlan (pvPlan env) plan True = ok"
proof -
  let ?ordered = "orderedTargets (pvIDString env) (esContents snapshot) (csWork closed)"
  let ?plan0 = "(emptyPlan env request roots snapshot)\<lparr>plBlockers := csBlockers closed,
      plImpacts := csImpacts closed @ sameBytes env request snapshot (csWork closed)\<rparr>"
  obtain calls events where events: "foldE (assignEvent env (priorTargets (pvPlan env) prior)) (0, Map.empty) ?ordered = Inr (calls, events)"
    using assms(1) unfolding build_def Let_def closed_def
    by (cases "foldE (assignEvent env (priorTargets (pvPlan env) prior)) (0, Map.empty)
        (orderedTargets (pvIDString env) (esContents snapshot) (csWork (closeTargets env request roots snapshot)))") auto
  define event where "event = (\<lambda>i. case events i of None \<Rightarrow> 0 | Some e \<Rightarrow> e)"
  define plan2 where "plan2 = foldl (addReference env (csWork closed)) (recordTargets env event ?plan0 ?ordered) (esDirectReferences snapshot)"
  obtain st1 st2 st3 where
    st1: "foldE (addAlias env request snapshot prior (csWork closed) event) \<lparr>bsCalls = calls, bsPlan = plan2\<rparr> (esAliases snapshot) = Inr st1"
    and st2: "addLogicalProvenance env request prior ?ordered event st1 = Inr st2"
    and st3: "addResident env request snapshot prior st2 = Inr st3"
    using assms(1) unfolding build_def Let_def closed_def [symmetric] events sum.case prod.case event_def [symmetric] plan2_def recordTargets_def
      case_result_ok [where f = "\<lambda>e. e"] by blast
  define plan4 where "plan4 = foldl (addProjection env request) (foldl (addRunning env request snapshot (csWork closed)) (bsPlan st3) (esRunning snapshot))
      (esProjectionDefinitions snapshot)"
  define plan5 where "plan5 = (if MaxSingleTransactionMutations < plannedMutationCount plan4
      then addBlocker (makeBlocker ''transaction_size_unsupported'' (pvIDString env (prResidentID request)) ''effective_targets'' None) plan4 else plan4)"
  define plan6 where "plan6 = sortPlanCollections plan5"
  define plan7 where "plan7 = plan6\<lparr>plPlanState := if (\<exists>i\<in>set (plImpacts plan6). imDecisionMode i \<noteq> ''none'') \<or> plBlockers plan6 \<noteq> []
      then StateReviewRequired else StateReady\<rparr>"
  have sealed: "Seal (pvPlan env) plan7 = Inr plan"
    using assms(1)
    unfolding build_def Let_def closed_def [symmetric] events sum.case prod.case event_def [symmetric]
    unfolding recordTargets_def [symmetric] plan2_def [symmetric] st1 sum.case st2 st3
    unfolding plan4_def [symmetric] plan5_def [symmetric] plan6_def [symmetric] plan7_def [symmetric] .
  have ext: "extends (recordTargets env event ?plan0 ?ordered) plan5"
  proof -
    have "extends (recordTargets env event ?plan0 ?ordered) plan2" unfolding plan2_def by (rule extends_foldl) (rule extends_addReference)
    moreover have "extends plan2 (bsPlan st1)" using extends_foldE [OF extends_addAlias st1] by simp
    moreover have "extends (bsPlan st1) (bsPlan st2)" "extends (bsPlan st2) (bsPlan st3)" using extends_logical [OF st2] extends_resident [OF st3] .
    moreover have "extends (bsPlan st3) (foldl (addRunning env request snapshot (csWork closed)) (bsPlan st3) (esRunning snapshot))"
      by (rule extends_foldl) (rule extends_addRunning)
    moreover have "extends (foldl (addRunning env request snapshot (csWork closed)) (bsPlan st3) (esRunning snapshot)) plan4"
      unfolding plan4_def by (rule extends_foldl) (rule extends_addProjection)
    moreover have "extends plan4 plan5" by (simp add: plan5_def)
    ultimately show ?thesis by (blast intro: extends_trans)
  qed
  note shape = Seal_ok(2) [OF sealed]
  have fields: "plEffectiveTargets plan = plEffectiveTargets plan6" "plImpacts plan = plImpacts plan6" "plBlockers plan = plBlockers plan6"
      "plPlanState plan = plPlanState plan7"
    by (subst shape, simp add: plan7_def)+
  have rec: "plEffectiveTargets (recordTargets env event ?plan0 ?ordered) = map (effectiveTarget (pvIDString env) event) ?ordered"
      "set (csImpacts closed) \<subseteq> set (plImpacts (recordTargets env event ?plan0 ?ordered))"
      "plBlockers (recordTargets env event ?plan0 ?ordered) = [] \<longrightarrow> csBlockers closed = []"
    using recordTargets_ok [of env event ?plan0 ?ordered] by (auto simp: emptyPlan_def)
  have "set (plEffectiveTargets plan) = effectiveTarget (pvIDString env) event ` set ?ordered"
    using ext rec(1) by (simp add: fields plan6_def sortPlanCollections_def extends_def)
  moreover have "set (csImpacts closed) \<subseteq> set (plImpacts plan5)" "plBlockers plan5 = [] \<longrightarrow> csBlockers closed = []"
    using ext rec(2,3) by (auto simp: extends_def)
  moreover have "plImpacts plan = compactBy (\<lambda>a b. imImpactID a = imImpactID b) (byKey imImpactID (plImpacts plan5))"
      "plBlockers plan = [] \<longrightarrow> plBlockers plan5 = []"
    by (simp_all add: fields plan6_def sortPlanCollections_def compactBy_nonempty)
  moreover have "plPlanState plan = (if (\<exists>i\<in>set (plImpacts plan). imDecisionMode i \<noteq> ''none'') \<or> plBlockers plan \<noteq> []
      then StateReviewRequired else StateReady)"
    by (simp add: fields plan7_def)
  ultimately show ?thesis using Seal_ok(1) [OF sealed] by (intro exI [of _ event] exI [of _ plan5] conjI)
qed

text \<open>The targets of a plan are the closure, under the names of its contents.\<close>

lemma orderedTargets_set:
  "set (orderedTargets idString contents work) = {w. \<exists>c\<in>set contents. work (cnContentID c) = Some w}"
  by (force simp: orderedTargets_def List.map_filter_def)

lemma closeTargets_work:
  shows "closure_inv (closureEnv env request snapshot) (followed (closureEnv env request snapshot) (esLineage snapshot))
      {r \<in> set (residentRoots (closureEnv env request snapshot) roots). erasable (closureEnv env request snapshot) r} (closeTargets env request roots snapshot)"
    and "settled (closureEnv env request snapshot) (followed (closureEnv env request snapshot) (esLineage snapshot)) {} (closeTargets env request roots snapshot)"
    and "csQueue (closeTargets env request roots snapshot) = []"
  using targetClosure_inv unfolding closeTargets_def Let_def by blast+

lemma target_content:
  assumes "csWork (closeTargets env request roots snapshot) i = Some w"
  shows "cnContentID (twContent w) = i" and "twContent w \<in> set (esContents snapshot)"
proof -
  have "target_ok (closureEnv env request snapshot) (followed (closureEnv env request snapshot) (esLineage snapshot))
      {r \<in> set (residentRoots (closureEnv env request snapshot) roots). erasable (closureEnv env request snapshot) r}
      (closeTargets env request roots snapshot) i w"
    using closeTargets_work(1) assms unfolding closure_inv_def by blast
  then have "contentByID (esContents snapshot) i = Some (twContent w)" by (simp add: target_ok_def closureEnv_def)
  then show "cnContentID (twContent w) = i" and "twContent w \<in> set (esContents snapshot)" using contentByID_key by blast+
qed

lemma built_targets:
  assumes "set (plEffectiveTargets plan) = effectiveTarget (pvIDString env) event
      ` set (orderedTargets (pvIDString env) (esContents snapshot) (csWork (closeTargets env request roots snapshot)))"
  shows "etContentID ` set (plEffectiveTargets plan) = pvIDString env ` dom (csWork (closeTargets env request roots snapshot))"
proof -
  let ?work = "csWork (closeTargets env request roots snapshot)"
  have "(\<exists>c\<in>set (esContents snapshot). ?work (cnContentID c) = Some w) \<longleftrightarrow> (\<exists>i. ?work i = Some w)" for w
    using target_content [of env request roots snapshot] by metis
  then have "etContentID ` set (plEffectiveTargets plan) = (\<lambda>w. pvIDString env (cnContentID (twContent w))) ` {w. \<exists>i. ?work i = Some w}"
    unfolding assms orderedTargets_set by (simp add: image_image effectiveTarget_def Let_def)
  also have "\<dots> = pvIDString env ` dom ?work"
    using target_content(1) [of env request roots snapshot] by (fastforce simp: dom_def image_iff)
  finally show ?thesis .
qed

section \<open>A plan that is ready at once\<close>

text \<open>
  No impact of the plan shares its hashed identity with the review question of another content: the
  hash binds its fields for these impacts.
\<close>

definition impact_ids_bind :: "planner_env \<Rightarrow> closure_env \<Rightarrow> Plan \<Rightarrow> bool" where
  "impact_ids_bind env cenv plan \<longleftrightarrow> (\<forall>a\<in>set (plImpacts plan). \<forall>c\<in>set (xeContents cenv). \<forall>i.
     ImpactID (pvPlan env) a = Inr i \<and> ImpactID (pvPlan env) (nonexactImpact cenv (cnContentID c)) = Inr i
     \<longrightarrow> impactKey a = impactKey (nonexactImpact cenv (cnContentID c)))"

lemma impactSteps_ids:
  "foldE (impactStep env) p is = Inr v \<Longrightarrow> i \<in> set is \<Longrightarrow> ImpactID env i = Inr (imImpactID i) \<and> imImpactID i \<noteq> ''''"
proof (induction "is" arbitrary: p)
  case (Cons j "is")
  then obtain u where u: "impactStep env p j = Inr u" "foldE (impactStep env) u is = Inr v" by (auto split: sum.splits)
  have "ImpactID env j = Inr (imImpactID j) \<and> imImpactID j \<noteq> ''''" using u(1) by (auto simp: impactStep_def digestPattern_def)
  then show ?case using Cons.IH [OF u(2)] Cons.prems(2) by auto
qed simp

lemma ready_no_review:
  assumes bind: "impact_ids_bind env (closureEnv env request snapshot) plan" and valid: "validateImpacts (pvPlan env) plan = ok"
    and impacts: "plImpacts plan = compactBy (\<lambda>a b. imImpactID a = imImpactID b) (byKey imImpactID is)"
    and none: "\<forall>i\<in>set (plImpacts plan). imDecisionMode i = ''none''" and c: "c \<in> set (esContents snapshot)"
  shows "nonexactImpact (closureEnv env request snapshot) (cnContentID c) \<notin> set is"
proof
  let ?n = "nonexactImpact (closureEnv env request snapshot) (cnContentID c)"
  assume "?n \<in> set is"
  then obtain y where y: "y \<in> set (plImpacts plan)" "imImpactID y = imImpactID ?n"
    using compactBy_covers [of ?n "byKey imImpactID is" imImpactID] unfolding impacts by auto
  obtain v where "foldE (impactStep (pvPlan env)) '''' (plImpacts plan) = Inr v" using valid by (auto simp: validateImpacts_def split: sum.splits)
  then have idy: "ImpactID (pvPlan env) y = Inr (imImpactID y)" "imImpactID y \<noteq> ''''" using impactSteps_ids y(1) by blast+
  define raw where "raw = ?n\<lparr>imImpactID := ''''\<rparr>"
  have "impactKey raw = impactKey ?n" by (simp add: raw_def impactKey_def)
  then have same: "ImpactID (pvPlan env) raw = ImpactID (pvPlan env) ?n" by (simp add: ImpactID_def)
  have "imImpactID ?n = impactIDOrEmpty env raw" by (simp add: nonexactImpact_def withImpactID_def closureEnv_def raw_def)
  then have "ImpactID (pvPlan env) ?n = Inr (imImpactID y)" using idy(2) y(2) same by (auto simp: impactIDOrEmpty_def split: sum.splits)
  then have "impactKey y = impactKey ?n" using bind idy(1) y(1) c unfolding impact_ids_bind_def by (simp add: closureEnv_def)
  then have "imDecisionMode y = ''content_candidate''" by (simp add: impactKey_def nonexactImpact_def withImpactID_def)
  then show False using none y(1) by force
qed

end
