(* ===== verification/Erasure_Codec.thy ===== *)
theory Erasure_Codec
  imports Erasure_Plan
begin

text \<open>
  The wire text of an erasure plan (\<^verbatim>\<open>MarshalPlan\<close> and \<^verbatim>\<open>ParsePlan\<close> of \<^verbatim>\<open>internal/erasure/codec.go\<close>).
  The canonical JSON encoder and the closed decoder are arguments: \<open>encode\<close> is \<^verbatim>\<open>canonical.MarshalCanonical\<close> on a plan, \<open>decode\<close> is the decoder that refuses
  unknown fields and trailing data.
\<close>

section \<open>The text of a plan\<close>

definition newline :: char where
  "newline = CHR 0x0A"

definition carriageReturn :: char where
  "carriageReturn = CHR 0x0D"

record plan_wire =
  wcEncode :: "Plan \<Rightarrow> (canonical_error, string) result"
  wcDecode :: "string \<Rightarrow> Plan option"

definition MarshalPlan :: "plan_env \<Rightarrow> plan_wire \<Rightarrow> Plan \<Rightarrow> (erasure_error, string) result" where
  "MarshalPlan env wire plan =
     andThen (validatePlan env plan True)
     (case wcEncode wire plan of Inl _ \<Rightarrow> Inl (ErrInvalidPlan ''marshal'') | Inr encoded \<Rightarrow> Inr (encoded @ [newline]))"

definition oneObjectPlusLF :: "string \<Rightarrow> bool" where
  "oneObjectPlusLF input \<longleftrightarrow> length input \<ge> 2 \<and> last input = newline \<and> input ! (length input - 2) \<noteq> newline
     \<and> carriageReturn \<notin> set (butlast input)"

definition ParsePlan :: "plan_env \<Rightarrow> plan_wire \<Rightarrow> string \<Rightarrow> (erasure_error, Plan) result" where
  "ParsePlan env wire input =
     andThen (reject (\<not> oneObjectPlusLF input) (ErrInvalidPlan ''plan must be one JCS object plus LF''))
    (andThen (reject (\<not> peIsCanonicalJSON env (butlast input)) (ErrInvalidPlan ''plan is not exact JCS''))
    (case wcDecode wire (butlast input) of
       None \<Rightarrow> Inl (ErrInvalidPlan ''decode'')
     | Some plan \<Rightarrow>
         andThen (validatePlan env plan True)
         (case MarshalPlan env wire plan of
            Inl _ \<Rightarrow> Inl (ErrInvalidPlan ''bytes differ from exact schema encoding'')
          | Inr reencoded \<Rightarrow>
              andThen (reject (reencoded \<noteq> input) (ErrInvalidPlan ''bytes differ from exact schema encoding'')) (Inr plan))))"

text \<open>Exactly the text that the encoder gives for a valid plan can parse to it.\<close>

lemma MarshalPlan_ok:
  "MarshalPlan env wire plan = Inr input \<longleftrightarrow> validatePlan env plan True = ok
     \<and> (\<exists>s. wcEncode wire plan = Inr s \<and> input = s @ [newline])"
  by (auto simp: MarshalPlan_def split: sum.split)

lemma ParsePlan_ok:
  "ParsePlan env wire input = Inr plan \<longleftrightarrow> oneObjectPlusLF input \<and> peIsCanonicalJSON env (butlast input)
     \<and> wcDecode wire (butlast input) = Some plan \<and> MarshalPlan env wire plan = Inr input"
proof -
  have "ParsePlan env wire input = Inr plan \<longleftrightarrow> oneObjectPlusLF input \<and> peIsCanonicalJSON env (butlast input)
     \<and> wcDecode wire (butlast input) = Some plan \<and> validatePlan env plan True = ok \<and> MarshalPlan env wire plan = Inr input"
    by (auto simp: ParsePlan_def split: option.split sum.split)
  then show ?thesis by (auto simp: MarshalPlan_ok)
qed

end
