(* ===== verification/Erasure_Properties.thy ===== *)
theory Erasure_Properties
  imports Erasure_Planner Erasure_Codec
begin

text \<open>
  The properties of erasure planning: the closure computes exactly the reachable contents at their
  shortest distance, cycles are found, a plan that is ready accounts for every descendant, and a plan
  that is applied was valid, decided and confirmed.
\<close>

section \<open>The closure\<close>

text \<open>
  C10: The closure of erasure targets is exact: the targets are the contents reachable from the
  admissible roots over valid same-bytes lineage edges to erasable contents; a target's depth is its
  least distance from a root, its parent is absent exactly for roots, and otherwise the parent is the
  predecessor at that distance with the smallest identifier text. The queue is empty at the end.
\<close>

theorem erasure_targets_exact:
  fixes env :: closure_env and lineage :: "LineageEdge list" and roots :: "ID list" and blockers cycle :: "Blocker list"
  defines "E \<equiv> followed env lineage" and "R \<equiv> {r \<in> set roots. erasable env r}"
  defines "st \<equiv> targetClosure env lineage blockers cycle roots"
  shows "csQueue st = [] \<and> dom (csWork st) = {c. \<exists>r\<in>R. E\<^sup>*\<^sup>* r c}
    \<and> (\<forall>c w. csWork st c = Some w \<longrightarrow> twDepth w = (LEAST n. \<exists>r\<in>R. (E ^^ n) r c) \<and> (twParent w = None \<longleftrightarrow> c \<in> R)
        \<and> (\<forall>p. twParent w = Some p \<longrightarrow> E p c \<and> (\<exists>v. csWork st p = Some v \<and> twDepth w = twDepth v + 1)
             \<and> (\<forall>q v. csWork st q = Some v \<and> E q c \<and> twDepth w = twDepth v + 1 \<longrightarrow> xeIDString env p \<le> xeIDString env q)))"
proof -
  have inv: "closure_inv env E R st" "settled env E {} st" "csQueue st = []"
    using targetClosure_inv [of env lineage roots blockers cycle] by (simp_all add: E_def R_def st_def)
  then show ?thesis using closure_exact [OF inv] by (intro conjI allI impI) blast+
qed

definition w_content :: "ID \<Rightarrow> ContentSnapshot" where
  "w_content i = \<lparr>cnContentID = i, cnResidentID = 9, cnContentClass = ''event'', cnErasurePolicy = ''independent'',
     cnErasureState = ''present'', cnCommitment = replicate 32 (CHR 0x00), cnBlobHash = Some (replicate 32 (CHR 0x01)),
     cnSQLiteBlobValid = True, cnFilesystemBlobValid = True, cnSQLiteBlobStatus = ''valid'', cnFilesystemBlobStatus = ''valid''\<rparr>"

definition w_edge :: "ID \<Rightarrow> ID \<Rightarrow> LineageEdge" where
  "w_edge p c = \<lparr>leParentContentID = p, leChildContentID = c, leRunID = 7, leSameLogicalBlob = True, leValid = True\<rparr>"

definition w_closure_env :: closure_env where
  "w_closure_env = \<lparr>xeScope = ScopeContent, xeResidentID = 9, xeContents = [w_content 1, w_content 2],
     xeIDString = (\<lambda>i. FormatInt (uint i)), xeImpactID = (\<lambda>_. ''impact'')\<rparr>"

lemma w_content_sel [simp]:
  "cnContentID (w_content i) = i" "cnResidentID (w_content i) = 9" "cnErasureState (w_content i) = ''present''"
  "cnErasurePolicy (w_content i) = ''independent''" "cnContentClass (w_content i) = ''event''"
  "cnCommitment (w_content i) = replicate 32 (CHR 0x00)" "cnBlobHash (w_content i) = Some (replicate 32 (CHR 0x01))"
  "cnSQLiteBlobStatus (w_content i) = ''valid''" "cnFilesystemBlobStatus (w_content i) = ''valid''"
  by (simp_all add: w_content_def)

lemma w_closure:
  "csWork (targetClosure w_closure_env [w_edge 1 2] [] [] [1]) =
     [1 \<mapsto> \<lparr>twContent = w_content 1, twDepth = 0, twParent = None\<rparr>, 2 \<mapsto> \<lparr>twContent = w_content 2, twDepth = 1, twParent = Some 1\<rparr>]"
  unfolding targetClosure_def Let_def
  by (simp add: startState_def admitRoot_def contentByID_def w_closure_env_def w_edge_def slice_stable_def
      ScopeContent_def closureRound_def edgeStep_def followChild_def Let_def relax_def closureLoop_Nil closureLoop_Cons)

theorem erasure_targets_exact_witness:
  "dom (csWork (targetClosure w_closure_env [w_edge 1 2] [] [] [1]))
     = {c. \<exists>r\<in>{r \<in> set [1]. erasable w_closure_env r}. (followed w_closure_env [w_edge 1 2])\<^sup>*\<^sup>* r c}
   \<and> (LEAST n. \<exists>r\<in>{r \<in> set [1]. erasable w_closure_env r}. (followed w_closure_env [w_edge 1 2] ^^ n) r 2) = 1"
proof -
  let ?st = "targetClosure w_closure_env [w_edge 1 2] [] [] [1]"
  note exact = erasure_targets_exact [of w_closure_env "[w_edge 1 2]" "[]" "[]" "[1]"]
  have w: "csWork ?st 2 = Some \<lparr>twContent = w_content 2, twDepth = 1, twParent = Some 1\<rparr>" by (simp add: w_closure)
  show ?thesis
  proof (rule conjI)
    show "dom (csWork ?st) = {c. \<exists>r\<in>{r \<in> set [1]. erasable w_closure_env r}. (followed w_closure_env [w_edge 1 2])\<^sup>*\<^sup>* r c}"
      by (rule exact [THEN conjunct2, THEN conjunct1])
    show "(LEAST n. \<exists>r\<in>{r \<in> set [1]. erasable w_closure_env r}. (followed w_closure_env [w_edge 1 2] ^^ n) r 2) = 1"
      using exact [THEN conjunct2, THEN conjunct2, THEN spec, THEN spec, THEN mp, OF w, THEN conjunct1]
      by (simp only: targetWork.select_convs)
  qed
qed

text \<open>
  C31: The search for lineage cycles always ends within the fuel it is given, and it reports a cycle
  exactly when one is reachable from the roots over valid edges between present contents of the
  resident; the content it reports lies on such a cycle. No content has the zero identifier.
\<close>

theorem lineage_cycle_found:
  assumes "contentByID (xeContents env) 0 = None"
  shows "\<exists>m found. reachableLineageCycle env roots edges = Some (m, found)
    \<and> (found \<longleftrightarrow> (\<exists>r\<in>set roots. \<exists>c. (lineageStep env edges)\<^sup>*\<^sup>* r c \<and> (lineageStep env edges)\<^sup>+\<^sup>+ c c))
    \<and> (found \<longrightarrow> (\<exists>r\<in>set roots. (lineageStep env edges)\<^sup>*\<^sup>* r m) \<and> (lineageStep env edges)\<^sup>+\<^sup>+ m m)"
  by (rule reachableLineageCycle_spec [OF assms])

theorem lineage_cycle_found_witness:
  "\<exists>m. reachableLineageCycle w_closure_env [1] [w_edge 1 2, w_edge 2 1] = Some (m, True)
     \<and> (lineageStep w_closure_env [w_edge 1 2, w_edge 2 1])\<^sup>+\<^sup>+ m m"
proof -
  let ?E = "lineageStep w_closure_env [w_edge 1 2, w_edge 2 1]"
  have none: "contentByID (xeContents w_closure_env) 0 = None" by (simp add: contentByID_def w_closure_env_def)
  have "?E 1 2" "?E 2 1" by (simp_all add: lineageStep_def presentIn_def contentByID_def w_closure_env_def w_edge_def)
  then have "?E\<^sup>+\<^sup>+ 1 1" by (meson tranclp.intros)
  then have cyclic: "\<exists>r\<in>set [1]. \<exists>c. ?E\<^sup>*\<^sup>* r c \<and> ?E\<^sup>+\<^sup>+ c c" by auto
  show ?thesis using lineage_cycle_found [OF none, of "[1]" "[w_edge 1 2, w_edge 2 1]"] unfolding eqTrueI [OF cyclic] by auto
qed

section \<open>Plans\<close>

text \<open>
  C9: A plan that the planner builds in the ready state leaves nothing out: every root was
  admissible, no lineage cycle is reachable, its targets are exactly the contents reachable from the
  roots over exact lineage, and every lineage edge out of a target leads to another target. The
  identities of impacts are assumed to bind their fields.
\<close>

theorem erasure_ready_complete:
  assumes built: "build env request roots snapshot prior = Inr plan" and ready: "plPlanState plan = StateReady"
    and bind: "impact_ids_bind env (closureEnv env request snapshot) plan"
    and ids: "contentByID (esContents snapshot) 0 = None"
  defines "cenv \<equiv> closureEnv env request snapshot" and "allRoots \<equiv> set (residentRoots (closureEnv env request snapshot) roots)"
  defines "T \<equiv> {c. \<exists>r\<in>allRoots. (followed cenv (esLineage snapshot))\<^sup>*\<^sup>* r c}"
  shows "etContentID ` set (plEffectiveTargets plan) = pvIDString env ` T
    \<and> (\<forall>r\<in>allRoots. erasable cenv r)
    \<and> (\<forall>r\<in>allRoots. \<forall>c. (lineageStep cenv (esLineage snapshot))\<^sup>*\<^sup>* r c \<longrightarrow> \<not> (lineageStep cenv (esLineage snapshot))\<^sup>+\<^sup>+ c c)
    \<and> (\<forall>e\<in>set (esLineage snapshot). leParentContentID e \<in> T \<longrightarrow> leChildContentID e \<in> T)"
proof -
  let ?closed = "closeTargets env request roots snapshot" and ?lineage = "slice_stable (edgeBefore (pvIDString env)) (esLineage snapshot)"
  let ?cycle = "cycleBlockers cenv (residentRoots cenv roots) ?lineage"
  obtain event and q :: Plan where targets: "set (plEffectiveTargets plan)
        = effectiveTarget (pvIDString env) event ` set (orderedTargets (pvIDString env) (esContents snapshot) (csWork ?closed))"
      and impacts: "set (csImpacts ?closed) \<subseteq> set (plImpacts q)" "plBlockers q = [] \<longrightarrow> csBlockers ?closed = []"
        "plImpacts plan = compactBy (\<lambda>a b. imImpactID a = imImpactID b) (byKey imImpactID (plImpacts q))"
        "plBlockers plan = [] \<longrightarrow> plBlockers q = []"
      and state: "plPlanState plan = (if (\<exists>i\<in>set (plImpacts plan). imDecisionMode i \<noteq> ''none'') \<or> plBlockers plan \<noteq> []
          then StateReviewRequired else StateReady)" and valid: "validatePlan (pvPlan env) plan True = ok"
    using build_ok [OF built] by blast
  have "\<not> ((\<exists>i\<in>set (plImpacts plan). imDecisionMode i \<noteq> ''none'') \<or> plBlockers plan \<noteq> [])"
  proof
    assume "(\<exists>i\<in>set (plImpacts plan). imDecisionMode i \<noteq> ''none'') \<or> plBlockers plan \<noteq> []"
    then have "plPlanState plan = StateReviewRequired" unfolding state by (rule if_P)
    then show False using ready by (simp add: StateReady_def StateReviewRequired_def)
  qed
  then have decided: "\<forall>i\<in>set (plImpacts plan). imDecisionMode i = ''none''" and noblock: "csBlockers ?closed = []"
    using impacts(2,4) by blast+
  have closed: "?closed = targetClosure cenv (esLineage snapshot) (startBlockers env request snapshot) ?cycle (residentRoots cenv roots)"
    by (simp add: closeTargets_def cenv_def Let_def)
  have few: "length (csBlockers (targetClosure cenv (esLineage snapshot) (startBlockers env request snapshot) ?cycle (residentRoots cenv roots)))
      \<le> length (startBlockers env request snapshot)"
    using noblock closed by simp
  have roots: "?cycle = []" "\<forall>r\<in>allRoots. erasable cenv r"
    using targetClosure_blockers [OF few] by (simp_all add: allRoots_def cenv_def)
  have R: "{r \<in> set (residentRoots cenv roots). erasable cenv r} = allRoots" using roots(2) by (auto simp: allRoots_def cenv_def)
  have work: "dom (csWork ?closed) = T"
    unfolding T_def cenv_def R [unfolded cenv_def, symmetric] by (rule closure_exact(1) [OF closeTargets_work])
  have cycles: "\<not> (lineageStep cenv (esLineage snapshot))\<^sup>+\<^sup>+ c c"
    if c: "r \<in> allRoots" "(lineageStep cenv (esLineage snapshot))\<^sup>*\<^sup>* r c" for r c
  proof -
    have step: "lineageStep cenv ?lineage = lineageStep cenv (esLineage snapshot)" by (simp add: lineageStep_def fun_eq_iff)
    have "contentByID (xeContents cenv) 0 = None" using ids by (simp add: cenv_def closureEnv_def)
    then obtain m found where "reachableLineageCycle cenv (residentRoots cenv roots) ?lineage = Some (m, found)"
      "found \<longleftrightarrow> (\<exists>r\<in>set (residentRoots cenv roots). \<exists>c. (lineageStep cenv ?lineage)\<^sup>*\<^sup>* r c \<and> (lineageStep cenv ?lineage)\<^sup>+\<^sup>+ c c)"
      using reachableLineageCycle_spec [of cenv "residentRoots cenv roots" ?lineage] by blast
    then show ?thesis using roots(1) c unfolding step by (auto simp: cycleBlockers_def allRoots_def cenv_def split: bool.splits)
  qed
  have edges: "leChildContentID e \<in> T" if e: "e \<in> set (esLineage snapshot)" "leParentContentID e \<in> T" for e
  proof (rule ccontr)
    assume notin: "leChildContentID e \<notin> T"
    obtain c where c: "c \<in> set (xeContents cenv)" "cnContentID c = leChildContentID e"
        "nonexactImpact cenv (leChildContentID e) \<in> set (csImpacts ?closed)"
      using targetClosure_covered [OF few e(1)] e(2) notin work unfolding closed by blast
    have "c \<in> set (esContents snapshot)" using c(1) by (simp add: cenv_def closureEnv_def)
    then have "nonexactImpact cenv (cnContentID c) \<notin> set (plImpacts q)"
      unfolding cenv_def by (rule ready_no_review [OF bind validatePlan_parts(2) [OF valid] impacts(3) decided])
    then show False using c(2,3) impacts(1) by auto
  qed
  show ?thesis using built_targets [OF targets] work roots(2) cycles edges by auto
qed

text \<open>A content plan for one content without descendants.\<close>

definition w_plan_env :: plan_env where
  "w_plan_env = \<lparr>peParseID = (\<lambda>s. map_option word_of_int (ParseInt s)), peSha = (\<lambda>_. replicate 32 (CHR 0x00)),
     peImpactJCS = (\<lambda>k. Inr (ikReferrerID k)), pePlanJCS = (\<lambda>p. Inr (plResidentID p)), peIsCanonicalJSON = (\<lambda>_. True),
     peFinding = \<lparr>feKnown = (\<lambda>_. True), feSha = (\<lambda>_. replicate 32 (CHR 0x00)), feJCS = (\<lambda>_. Inr ''finding'')\<rparr>\<rparr>"

definition w_planner :: planner_env where
  "w_planner = \<lparr>pvPlan = w_plan_env, pvIDString = (\<lambda>i. FormatInt (uint i)), pvNewID = (\<lambda>k. Inr (word_of_int (int k + 20))),
     pvLogical = None\<rparr>"

definition w_request :: PlanRequest where
  "w_request = \<lparr>prScope = ScopeContent, prResidentID = 9, prActorPrincipalID = 8, prReasonCode = ''owner'',
     prIntegrityPipelineVersionID = 6, prMemoryStatusPipelineVersionID = 5, prRequestedContentIDs = [1]\<rparr>"

definition w_snapshot :: ErasureSnapshot where
  "w_snapshot = \<lparr>esHeadCommitID = 3, esHeadCommitSeq = 4, esResidentStatus = ''active'', esOwnerHuman = True,
     esActiveResidentID = None, esContents = [w_content 1], esAliases = [], esDirectReferences = [], esLineage = [],
     esMandatoryWorkCount = 0, esRunning = [], esProjectionDefinitions = [], esBlockers = []\<rparr>"

definition w_plan :: Plan where
  "w_plan = \<lparr>plFormatVersion = PlanFormatVersion, plRulesVersion = ImpactRulesVersion, plPlanState = StateReady, plScope = ScopeContent,
     plResidentID = ''9'', plBaseHead = \<lparr>bhCommitID = ''3'', bhCommitSeq = ''4''\<rparr>, plActorPrincipalID = ''8'', plReasonCode = ''owner'',
     plIntegrityPipelineVersionID = ''6'', plMemoryStatusPipelineVersionID = ''5'', plRequestedContentIDs = [''1''],
     plEffectiveTargets = [\<lparr>etContentID = ''1'', etContentClass = ''event'', etErasurePolicy = ''independent'',
       etCommitment = zeroDigest, etErasureEventID = ''20'', etSourceErasureEventID = None, etLineageDepth = ''0''\<rparr>],
     plImpacts = [], plPlannedFindings = [], plExistingFindingDependencies = [], plPlannedQuarantines = [], plClaimIdentityErasures = [],
     plExistingClaimIdentityDependencies = [], plResidentTransition = None,
     plRuntimeConfigEffect = \<lparr>reExpectedActiveResidentID = None, reResultingActiveResidentID = None, reClearActiveResident = False\<rparr>,
     plRebuilds = [], plBlockers = [], plExternalCopyNotice = ExternalCopyNotice, plDigest = zeroDigest, plNull = False\<rparr>"

lemma w_hex: "EncodeToString (replicate 32 (CHR 0x00)) = replicate 64 (CHR ''0'')"
proof -
  have "EncodeToString (replicate n (CHR 0x00)) = replicate (2 * n) (CHR ''0'')" for n
    by (induction n) (simp_all add: EncodeToString_def hex_digit_def byte_def char_of_def bit_0)
  from this [of 32] show ?thesis by simp
qed

lemma zeroDigest_pattern: "digestPattern zeroDigest"
  by (simp add: digestPattern_def zeroDigest_def list_all_iff isLowerHex_def isDigit_def byte_def)

lemma w_parse:
  "peParseID w_plan_env ''1'' = Some 1" "peParseID w_plan_env ''9'' = Some 9" "peParseID w_plan_env ''3'' = Some 3"
  "peParseID w_plan_env ''8'' = Some 8" "peParseID w_plan_env ''6'' = Some 6" "peParseID w_plan_env ''5'' = Some 5"
  "peParseID w_plan_env ''20'' = Some 20"
  by (simp_all add: w_plan_env_def ParseInt_def isDigit_def digits_value_def byte_def int64_def)

lemma w_plan_valid: "validatePlan w_plan_env (w_plan\<lparr>plDigest := d\<rparr>) False = ok"
  unfolding plan_ok
  by (simp add: w_plan_def validateID_def w_parse positiveDecimal_def nonNegativeDecimal_def reasonPattern_def isLowerLetter_def
      strictSortedStrings_def validateTargets_def targetStep_def validateOptionalID_def zeroDigest_pattern andThen_def reject_def
      checkTargetSource_def parseUint_def validateImpacts_def validateEffects_def checkOrdered_def validateScopeEffects_def
      validatePlanRelationships_def relateTarget_def relateRequested_def indexBy_def relateDerived_def relateProvenance_def affectedClaims_def
      relateProjections_def relateLifecycle_def impactByRuleRef_def validateTransactionSizeContract_def plannedMutationCount_def
      MaxSingleTransactionMutations_def checkState_def unresolved_def ScopeContent_def StateReady_def isDigit_def byte_def digits_value_def Let_def
      StateReviewRequired_def)

lemma w_digest: "computePlanDigest w_plan_env p = Inr zeroDigest"
  by (simp add: computePlanDigest_def w_plan_env_def w_hex zeroDigest_def)

lemma w_plan_ok: "validatePlan w_plan_env w_plan v = ok"
proof -
  have "w_plan\<lparr>plDigest := zeroDigest\<rparr> = w_plan" by (simp add: w_plan_def)
  then have "validatePlan w_plan_env w_plan False = ok" using w_plan_valid [of zeroDigest] by simp
  moreover have "checkDigest w_plan_env w_plan = ok"
    by (simp add: checkDigest_def w_digest w_plan_def zeroDigest_pattern)
  ultimately show ?thesis unfolding validatePlan_def andThen_ok by auto
qed

lemma w_seal: "Seal w_plan_env (w_plan\<lparr>plDigest := d\<rparr>) = Inr w_plan"
proof -
  let ?p = "w_plan\<lparr>plDigest := d, plFormatVersion := PlanFormatVersion, plRulesVersion := ImpactRulesVersion,
      plExternalCopyNotice := ExternalCopyNotice, plDigest := zeroDigest\<rparr>"
  have "?p = w_plan" by (simp add: w_plan_def)
  moreover have "w_plan\<lparr>plDigest := zeroDigest\<rparr> = w_plan" by (simp add: w_plan_def)
  ultimately show ?thesis by (simp add: Seal_def Let_def w_digest w_plan_ok andThen_def)
qed

lemma w_build: "build w_planner w_request [1] w_snapshot None = Inr w_plan"
proof -
  have closed: "closeTargets w_planner w_request [1] w_snapshot =
      \<lparr>csWork = [1 \<mapsto> \<lparr>twContent = w_content 1, twDepth = 0, twParent = None\<rparr>], csQueue = [], csBlockers = [], csImpacts = []\<rparr>"
    by (simp add: closeTargets_def targetClosure_def Let_def closureEnv_def w_planner_def w_request_def w_snapshot_def residentRoots_def
        ScopeContent_def ScopeResident_def startBlockers_def startState_def admitRoot_def contentByID_def slice_stable_def cycleBlockers_def
        reachableLineageCycle_def dfsStart_def adjacency_def backEdge_def enterNode_def leaveNode_def closureLoop_Nil closureLoop_Cons closureRound_def)
  have "build w_planner w_request [1] w_snapshot None = Seal w_plan_env (w_plan\<lparr>plDigest := ''''\<rparr>)"
    unfolding build_def closed Let_def
    by (simp add: orderedTargets_def List.map_filter_def slice_stable_def w_snapshot_def w_request_def w_planner_def sameBytes_def assignEvent_def allocate_def
        priorTargets_def addTarget_def effectiveTarget_def blobBlockers_def blobBlocker_def addLogicalProvenance_def addResident_def ScopeContent_def
        ScopeResident_def plannedMutationCount_def MaxSingleTransactionMutations_def emptyPlan_def sortPlanCollections_def byKey_def
        FormatInt_def nat_digits.simps digit_char_def Let_def Digest_Hex_def w_hex w_plan_def zeroDigest_def char_of_def bit_0)
  then show ?thesis by (simp add: w_seal)
qed

theorem erasure_ready_complete_witness:
  "etContentID ` set (plEffectiveTargets w_plan) = {''1''} \<and> plPlanState w_plan = StateReady
   \<and> pvIDString w_planner ` {c. \<exists>r\<in>set (residentRoots (closureEnv w_planner w_request w_snapshot) [1]).
        (followed (closureEnv w_planner w_request w_snapshot) (esLineage w_snapshot))\<^sup>*\<^sup>* r c} = {''1''}"
proof -
  have ready: "plPlanState w_plan = StateReady" and targets: "etContentID ` set (plEffectiveTargets w_plan) = {''1''}"
    by (simp_all add: w_plan_def)
  have "impact_ids_bind w_planner (closureEnv w_planner w_request w_snapshot) w_plan"
    by (simp add: impact_ids_bind_def w_plan_def)
  moreover have "contentByID (esContents w_snapshot) 0 = None" by (simp add: contentByID_def w_snapshot_def)
  ultimately show ?thesis using erasure_ready_complete [OF w_build ready] ready targets by simp
qed

text \<open>
  C32: In a valid plan the derivation of every target is grounded: contents and erasure events are
  not repeated, a target has a source event exactly when its depth is not zero, and following source
  events leads to a target of depth zero in exactly as many steps as the depth says. In a content
  plan the targets of depth zero are exactly those whose content was requested.
\<close>

theorem erasure_plan_grounded:
  assumes "validatePlan env plan v = ok"
  shows "distinct (map etContentID (plEffectiveTargets plan)) \<and> distinct (map etErasureEventID (plEffectiveTargets plan))
    \<and> (\<forall>t\<in>set (plEffectiveTargets plan).
        (parseUint (etLineageDepth t) = 0 \<longleftrightarrow> etSourceErasureEventID t = None)
        \<and> (\<exists>r\<in>set (plEffectiveTargets plan). (sourceTarget plan ^^ parseUint (etLineageDepth t)) t r \<and> parseUint (etLineageDepth r) = 0)
        \<and> (plScope plan = ScopeContent \<longrightarrow> (parseUint (etLineageDepth t) = 0 \<longleftrightarrow> etContentID t \<in> set (plRequestedContentIDs plan))))"
proof -
  note parts = validatePlan_parts [OF assms]
  show ?thesis
    using validateTargets_ok [OF parts(1)] lineage_chain [OF parts(1,5)] requested_roots(1) [OF parts(5)] by blast
qed

theorem erasure_plan_grounded_witness:
  "distinct (map etContentID (plEffectiveTargets w_plan)) \<and> set (plRequestedContentIDs w_plan) = {''1''}"
  using erasure_plan_grounded [OF w_plan_ok [of True]] by (simp add: w_plan_def)

text \<open>
  C11: A plan that the apply command accepts is ready, unblocked and fully decided; the operator
  confirmed the digest of exactly this plan; its rows fit into one transaction; the command runs in
  the scope of the plan's resident; and a content plan neither transitions the resident nor clears
  the runtime selection.
\<close>

theorem erasure_apply_gated:
  assumes "applyCommand_Validate env command = ok"
  defines "plan \<equiv> apPlan command"
  shows "plPlanState plan = StateReady \<and> plBlockers plan = [] \<and> \<not> unresolved plan
    \<and> computePlanDigest env plan = Inr (apConfirm command) \<and> apConfirm command = plDigest plan
    \<and> plannedMutationCount plan \<le> MaxSingleTransactionMutations
    \<and> (\<exists>r. peParseID env (plResidentID plan) = Some r \<and> apScope command = Some r)
    \<and> (plScope plan = ScopeContent \<longrightarrow> plResidentTransition plan = None \<and> \<not> reClearActiveResident (plRuntimeConfigEffect plan))"
  using apply_ok [OF assms(1)] unfolding plan_def by blast

theorem erasure_apply_gated_witness:
  "applyCommand_Validate w_plan_env (ApplyCommand w_plan_env w_plan zeroDigest) = ok
   \<and> apScope (ApplyCommand w_plan_env w_plan zeroDigest) = Some 9 \<and> plannedMutationCount w_plan = 2"
proof -
  have sel: "apPlan (ApplyCommand w_plan_env w_plan zeroDigest) = w_plan" "apConfirm (ApplyCommand w_plan_env w_plan zeroDigest) = zeroDigest"
    "plResidentID w_plan = ''9''" "plPlanState w_plan = StateReady" "plBlockers w_plan = []" "plDigest w_plan = zeroDigest"
    "plannedMutationCount w_plan = 2"
    by (simp_all add: ApplyCommand_def w_plan_def plannedMutationCount_def)
  have "applyCommand_Validate w_plan_env (ApplyCommand w_plan_env w_plan zeroDigest) = ok"
    unfolding applyCommand_Validate_def andThen_ok sel
    by (simp add: w_plan_ok w_parse ResidentScope_def ApplyCommand_def parsedID_def sel Scope_Equal_def ID_Validate_def ID_IsZero_def)
  from this erasure_apply_gated [OF this] show ?thesis unfolding sel by (simp add: w_parse)
qed

text \<open>
  C33: A pure decision round changes nothing but the decisions of review impacts, the state and the
  digest: in particular targets, findings and blockers stay. Every decision given is recorded on a
  review impact, the result is a valid sealed plan, and it is ready exactly when no review is open.
\<close>

theorem erasure_decide_exact:
  assumes "Decide env plan decisions = Inr p"
  shows "p = plan\<lparr>plImpacts := map (decided (map_of (map (\<lambda>d. (diImpactID d, diDecision d)) decisions))) (plImpacts plan),
        plPlanState := if unresolved p then StateReviewRequired else StateReady, plDigest := plDigest p\<rparr>
    \<and> (\<forall>d\<in>set decisions. \<exists>i\<in>set (plImpacts p). imImpactID i = diImpactID d \<and> imDecisionMode i \<noteq> ''none'' \<and> imDecision i = Some (diDecision d))
    \<and> validatePlan env p True = ok"
  using Decide_ok(1) [OF assms] Decide_ok(2,4) [OF assms] unfolding Decide_ok(3) [OF assms, symmetric] by blast

theorem erasure_decide_exact_witness:
  "Decide w_plan_env w_plan [] = Inr w_plan \<and> validatePlan w_plan_env w_plan True = ok"
proof -
  have "plBlockers w_plan = []" "plImpacts w_plan = []" "w_plan\<lparr>plImpacts := [], plPlanState := StateReady\<rparr> = w_plan"
    "w_plan\<lparr>plDigest := plDigest w_plan\<rparr> = w_plan"
    by (simp_all add: w_plan_def)
  then have run: "Decide w_plan_env w_plan [] = Inr w_plan"
    using w_seal [of "plDigest w_plan"] by (simp add: Decide_def w_plan_ok andThen_def reject_def)
  from run erasure_decide_exact [OF run] show ?thesis by blast
qed

text \<open>
  Sealing is idempotent: a sealed plan validates with its digest, and sealing it again gives
  the same plan.
\<close>

theorem erasure_seal_roundtrip:
  assumes "Seal env plan = Inr sealed"
  shows "validatePlan env sealed True = ok \<and> computePlanDigest env sealed = Inr (plDigest sealed) \<and> Seal env sealed = Inr sealed"
  using Seal_ok(1) [OF assms] Seal_idempotent [OF assms] checkDigest_ok validatePlan_parts(8) [OF Seal_ok(1) [OF assms]] by blast

theorem erasure_seal_roundtrip_witness: "Seal w_plan_env w_plan = Inr w_plan \<and> computePlanDigest w_plan_env w_plan = Inr zeroDigest"
proof -
  have same: "w_plan\<lparr>plDigest := plDigest w_plan\<rparr> = w_plan" "plDigest w_plan = zeroDigest" by (simp_all add: w_plan_def)
  show ?thesis using erasure_seal_roundtrip [OF w_seal [of "plDigest w_plan", unfolded same(1)]] same(2) by simp
qed

end
