(* ===== verification/Erasure_Quiescence.thy ===== *)
theory Erasure_Quiescence
  imports Canonical_Activity
begin

text \<open>
  The quiescence conditions of \<^verbatim>\<open>internal/erasure/quiescence.go\<close>: when a branch of the store may be
  taken and when a resident may be erased, judged from the activity of the writer and from the work
  recorded in the store.
\<close>

section \<open>Quiescence\<close>

record QuiescenceSnapshot =
  qsActivity :: ActivitySnapshot
  qsMandatoryDialogueWork :: int
  qsMandatoryMemoryExtractionWork :: int
  qsRunningPurposes :: "string list"

definition mandatoryPurposes :: "string list" where
  "mandatoryPurposes = [''dialogue'', ''memory_extraction'', ''memory_alignment'', ''memory_abstraction'', ''memory_differentiation'']"

definition BranchQuiescentV1 :: "QuiescenceSnapshot \<Rightarrow> bool" where
  "BranchQuiescentV1 s \<longleftrightarrow>
     (if ActivitySnapshot_Total (qsActivity s) \<noteq> 0 \<or> qsMandatoryDialogueWork s \<noteq> 0 \<or> qsMandatoryMemoryExtractionWork s \<noteq> 0 then False
      else \<not> list_ex (\<lambda>purpose. purpose \<in> set mandatoryPurposes) (qsRunningPurposes s))"

definition ResidentEraseSafe :: "QuiescenceSnapshot \<Rightarrow> bool" where
  "ResidentEraseSafe s \<longleftrightarrow> BranchQuiescentV1 s \<and> qsRunningPurposes s = []"

section \<open>A quiet resident\<close>

lemma counts_zero: "counts r exclude state es = 0 \<longleftrightarrow> (\<forall>(s, e)\<in>set es. \<not> (s \<noteq> exclude \<and> aeResidentID e = r \<and> aeState e = state))"
  by (auto simp: counts_def filter_empty_conv)

lemma snapshot_total:
  "ActivitySnapshot_Total (snapshot registry r exclude) = 0 \<longleftrightarrow> (\<forall>(s, e)\<in>set (arEntries registry). s \<noteq> exclude \<longrightarrow> aeResidentID e \<noteq> r)"
proof -
  have "counts r exclude state es \<ge> 0" for state es by (simp add: counts_def)
  then have "ActivitySnapshot_Total (snapshot registry r exclude) = 0 \<longleftrightarrow> (\<forall>state. counts r exclude state (arEntries registry) = 0)"
    unfolding snapshot_eq ActivitySnapshot_Total_def by (auto simp: add_nonneg_eq_0_iff) (metis activityState.exhaust)
  also have "\<dots> \<longleftrightarrow> (\<forall>(s, e)\<in>set (arEntries registry). s \<noteq> exclude \<longrightarrow> aeResidentID e \<noteq> r)"
    unfolding counts_zero by auto
  finally show ?thesis .
qed

text \<open>
  A resident whose activity snapshot, taken by the holder of the token with sequence number
  \<open>exclude\<close>, makes its erasure safe has no other activity in the writer, in whatever state, no
  mandatory work and no running generation. Branching tolerates running generations, but only of
  purposes that are not mandatory.
\<close>

theorem erase_safe_quiet:
  assumes "qsActivity s = snapshot registry r exclude"
  shows "(BranchQuiescentV1 s \<longleftrightarrow> (\<forall>(i, e)\<in>set (arEntries registry). i \<noteq> exclude \<longrightarrow> aeResidentID e \<noteq> r)
      \<and> qsMandatoryDialogueWork s = 0 \<and> qsMandatoryMemoryExtractionWork s = 0
      \<and> set (qsRunningPurposes s) \<inter> set mandatoryPurposes = {})
    \<and> (ResidentEraseSafe s \<longleftrightarrow> (\<forall>(i, e)\<in>set (arEntries registry). i \<noteq> exclude \<longrightarrow> aeResidentID e \<noteq> r)
      \<and> qsMandatoryDialogueWork s = 0 \<and> qsMandatoryMemoryExtractionWork s = 0 \<and> qsRunningPurposes s = [])"
  unfolding BranchQuiescentV1_def ResidentEraseSafe_def assms snapshot_total [symmetric]
  by (auto simp: list_ex_iff)

theorem erase_safe_quiet_witness:
  "ResidentEraseSafe \<lparr>qsActivity = snapshot (newActivityRegistry 1) 7 0, qsMandatoryDialogueWork = 0,
     qsMandatoryMemoryExtractionWork = 0, qsRunningPurposes = []\<rparr>"
proof -
  let ?s = "\<lparr>qsActivity = snapshot (newActivityRegistry 1) 7 0, qsMandatoryDialogueWork = 0,
     qsMandatoryMemoryExtractionWork = 0, qsRunningPurposes = []\<rparr>"
  have "qsActivity ?s = snapshot (newActivityRegistry 1) 7 0" by simp
  from erase_safe_quiet [OF this] show ?thesis by (simp add: newActivityRegistry_def)
qed

end
