(* ===== verification/Go_State.thy ===== *)
theory Go_State
  imports Go_Checks "HOL-Library.State_Monad"
begin

text \<open>
  Code that calls other components through interfaces: a computation of the library's state monad over
  the state of the world behind the interfaces. \<open>wp m Q w\<close> says that \<open>m\<close>, run in the world \<open>w\<close>, ends in
  a value and a world for which \<open>Q\<close> holds; its rules follow the structure of the computation, so that a proof
  about a long sequence of calls is one application of the rule of every call.
\<close>

section \<open>Weakest preconditions\<close>

named_theorems wp_rules \<open>weakest preconditions of the building blocks\<close>

definition wp :: "('w, 'a) state \<Rightarrow> ('a \<Rightarrow> 'w \<Rightarrow> bool) \<Rightarrow> 'w \<Rightarrow> bool" where
  "wp m Q w \<longleftrightarrow> (case run_state m w of (a, w') \<Rightarrow> Q a w')"

definition modify :: "('w \<Rightarrow> 'w) \<Rightarrow> ('w, unit) state" where
  "modify f = State (\<lambda>w. ((), f w))"

definition gets :: "('w \<Rightarrow> 'a) \<Rightarrow> ('w, 'a) state" where
  "gets f = State (\<lambda>w. (f w, w))"

lemma run_state_modify [simp]: "run_state (modify f) w = ((), f w)"
  by (simp add: modify_def)

lemma run_state_gets [simp]: "run_state (gets f) w = (f w, w)"
  by (simp add: gets_def)

lemma wp_return [wp_rules]: "wp (State_Monad.return a) Q w \<longleftrightarrow> Q a w"
  by (simp add: wp_def)

lemma wp_bind [wp_rules]: "wp (State_Monad.bind m f) Q w \<longleftrightarrow> wp m (\<lambda>a. wp (f a) Q) w"
  by (simp add: wp_def split: prod.split)

lemma wp_modify [wp_rules]: "wp (modify f) Q w \<longleftrightarrow> Q () (f w)"
  by (simp add: wp_def)

lemma wp_gets [wp_rules]: "wp (gets f) Q w \<longleftrightarrow> Q (f w) w"
  by (simp add: wp_def)

lemma wp_if [wp_rules]: "wp (if b then m else n) Q w \<longleftrightarrow> (if b then wp m Q w else wp n Q w)"
  by simp

lemma wp_run: "wp m Q w \<Longrightarrow> run_state m w = (a, w') \<Longrightarrow> Q a w'"
  by (simp add: wp_def)

lemma wp_mono: "wp m Q w \<Longrightarrow> (\<And>a w'. Q a w' \<Longrightarrow> R a w') \<Longrightarrow> wp m R w"
  by (auto simp: wp_def split: prod.split)

lemma wp_conj: "wp m Q w \<Longrightarrow> wp m R w \<Longrightarrow> wp m (\<lambda>a w'. Q a w' \<and> R a w') w"
  by (auto simp: wp_def split: prod.split)

lemma wp_trivial [simp]: "wp m (\<lambda>_ _. True) w"
  by (simp add: wp_def split: prod.split)

section \<open>Calls that return an error\<close>

text \<open>
  \<open>attempt m fail go\<close> is \<^verbatim>\<open>if err := m(); err != nil { return fail(err) }\<close> followed by the rest of the function.
\<close>

definition attempt :: "('w, 'e option) state \<Rightarrow> ('e \<Rightarrow> ('w, 'a) state) \<Rightarrow> ('w, 'a) state \<Rightarrow> ('w, 'a) state" where
  "attempt m fail go = State_Monad.bind m (\<lambda>r. case r of Some e \<Rightarrow> fail e | None \<Rightarrow> go)"

text \<open>The same for a call that returns a value or an error.\<close>

definition attemptE :: "('w, ('e, 'b) result) state \<Rightarrow> ('e \<Rightarrow> ('w, 'a) state) \<Rightarrow> ('b \<Rightarrow> ('w, 'a) state) \<Rightarrow> ('w, 'a) state" where
  "attemptE m fail go = State_Monad.bind m (\<lambda>r. case r of Inl e \<Rightarrow> fail e | Inr v \<Rightarrow> go v)"

lemma wp_attempt [wp_rules]:
  "wp (attempt m fail go) Q w \<longleftrightarrow> wp m (\<lambda>r. case r of Some e \<Rightarrow> wp (fail e) Q | None \<Rightarrow> wp go Q) w"
  by (simp add: attempt_def wp_bind) (simp add: wp_def split: prod.split option.split)

lemma wp_attemptE [wp_rules]:
  "wp (attemptE m fail go) Q w \<longleftrightarrow> wp m (\<lambda>r. case r of Inl e \<Rightarrow> wp (fail e) Q | Inr v \<Rightarrow> wp (go v) Q) w"
  by (simp add: attemptE_def wp_bind) (simp add: wp_def split: prod.split sum.split)

lemma run_attempt: "run_state (attempt m fail go) w = (case run_state m w of (r, w') \<Rightarrow> case r of Some e \<Rightarrow> run_state (fail e) w' | None \<Rightarrow> run_state go w')"
  by (simp add: attempt_def split: prod.split option.split)

lemma run_attemptE: "run_state (attemptE m fail go) w = (case run_state m w of (r, w') \<Rightarrow> case r of Inl e \<Rightarrow> run_state (fail e) w' | Inr v \<Rightarrow> run_state (go v) w')"
  by (simp add: attemptE_def split: prod.split sum.split)

end
