(* ===== verification/Blob_GC.thy ===== *)
theory Blob_GC
  imports Go_State Canonical_Ledger
begin

text \<open>
  The plan of the physical garbage collector (\<^verbatim>\<open>internal/blobgc/types.go\<close> and \<^verbatim>\<open>plan.go\<close>): which copies of
  blobs nothing refers to any more. A candidate carries private authority (the digest and the
  token of the file) beside its wire fields; the digest of the plan is taken over the wire fields only.
  The canonical JSON encoder, SHA-256, the text of an identifier and the known time zones are arguments.
\<close>

section \<open>Data\<close>

definition GCPlanFormatVersion :: string where
  "GCPlanFormatVersion = ''mahoroba-blob-gc-plan-v1''"

definition GCPlanDigestDomain :: string where
  "GCPlanDigestDomain = ''mahoroba:gc-plan-digest:v1''"

definition ReferencesName :: string where
  "ReferencesName = ''content_references''"

definition ReferencesVersion :: string where
  "ReferencesVersion = ''content-references-v1''"

definition HashAlgorithm :: string where
  "HashAlgorithm = ''sha256''"

text \<open>
  The errors; \<open>GCFailure\<close> is an error of a driver, of the file system or of a failpoint, and
  \<open>Joined\<close> is \<^verbatim>\<open>errors.Join\<close> of two errors.
\<close>

datatype gc_error =
    ErrProjectionNotCurrent string
  | ErrContentIntegrity string
  | ErrPlanStale string
  | ErrSourceUnavailable string
  | GCCanonical canonical_error
  | GCInvalid string
  | GCFailure string
  | PartialError gc_error
  | Joined gc_error gc_error

fun joinErrors :: "gc_error \<Rightarrow> gc_error option \<Rightarrow> gc_error" where
  "joinErrors e None = e"
| "joinErrors e (Some e') = Joined e e'"

record CapturedHead =
  chExists :: bool
  chCommitID :: "ID option"
  chCommitSeq :: "CommitSeq option"
  chCommittedAt :: "Instant option"
  chCommittedTZ :: "Timezone option"

definition CapturedHead_Validate :: "(string \<Rightarrow> bool) \<Rightarrow> CapturedHead \<Rightarrow> (gc_error, unit) result" where
  "CapturedHead_Validate known head =
     (if \<not> chExists head then
        reject (chCommitID head \<noteq> None \<or> chCommitSeq head \<noteq> None \<or> chCommittedAt head \<noteq> None \<or> chCommittedTZ head \<noteq> None)
          (GCInvalid ''empty head contains cursor state'')
      else case (chCommitID head, chCommitSeq head, chCommittedAt head, chCommittedTZ head) of
        (Some commitID, Some commitSeq, Some _, Some tz) \<Rightarrow>
          andThen (mapError GCCanonical (ID_Validate commitID))
         (andThen (mapError GCCanonical (CommitSeq_Validate commitSeq))
         (mapError GCCanonical (Timezone_Validate known tz)))
      | _ \<Rightarrow> Inl (GCInvalid ''existing head is incomplete''))"

definition CapturedHead_Equal :: "(string \<Rightarrow> bool) \<Rightarrow> CapturedHead \<Rightarrow> CapturedHead \<Rightarrow> bool" where
  "CapturedHead_Equal known head other \<longleftrightarrow>
     CapturedHead_Validate known head = ok \<and> CapturedHead_Validate known other = ok \<and> chExists head = chExists other
     \<and> (chExists head \<longrightarrow> chCommitID head = chCommitID other \<and> chCommitSeq head = chCommitSeq other
          \<and> chCommittedAt head = chCommittedAt other \<and> chCommittedTZ head = chCommittedTZ other)"

record DependencyVersion =
  dvProjectionName :: string
  dvProjectionVersion :: string

record LocatorState =
  lsResidentID :: ID
  lsHashAlgorithm :: string
  lsDigest :: Digest
  lsSQLitePresent :: bool
  lsSQLiteByteSize :: "ByteSize option"
  lsAuthoritativeReferences :: int
  lsProjectionReferences :: int

record gcSnapshot =
  snCapturedHead :: CapturedHead
  snProjectionName :: string
  snProjectionVersion :: string
  snDependencyVersions :: "DependencyVersion list"
  snLocators :: "LocatorState list"

text \<open>
  The token of a final object of the blob store. Its private file identities are read by the store only:
  \<open>foHandle\<close> stands for all of them.
\<close>

record FinalObject =
  foResidentID :: ID
  foDigest :: Digest
  foSize :: ByteSize
  foHandle :: string

definition FinalObject_HashAlgorithm :: "FinalObject \<Rightarrow> string" where
  "FinalObject_HashAlgorithm object = HashAlgorithm"

record candidateWire =
  cwResidentID :: ID
  cwHashAlgorithm :: string
  cwBlobHash :: string
  cwSQLitePresent :: bool
  cwSQLiteByteSize :: "ByteSize option"
  cwFilesystemPresent :: bool
  cwFilesystemByteSize :: "ByteSize option"

record gcCandidate = candidateWire +
  gcDigest :: Digest
  gcFilesystem :: "FinalObject option"

record planWire =
  pwFormatVersion :: string
  pwResidentID :: ID
  pwCapturedHead :: CapturedHead
  pwProjectionName :: string
  pwProjectionVersion :: string
  pwDependencyVersions :: "DependencyVersion list"
  pwCandidates :: "candidateWire list"

record gcPlan =
  gpFormatVersion :: string
  gpResidentID :: ID
  gpCapturedHead :: CapturedHead
  gpProjectionName :: string
  gpProjectionVersion :: string
  gpDependencyVersions :: "DependencyVersion list"
  gpCandidates :: "gcCandidate list"
  gpDigest :: string

record gc_env =
  geIDText :: "ID \<Rightarrow> string"
  geKnownZone :: "string \<Rightarrow> bool"
  geSha :: sha256
  gePlanJCS :: "planWire \<Rightarrow> (canonical_error, string) result"

section \<open>Validation\<close>

definition locatorText :: "Digest \<Rightarrow> string" where
  "locatorText digest = ''sha256:'' @ Digest_Hex digest"

definition checkSize :: "ByteSize option \<Rightarrow> (gc_error, unit) result" where
  "checkSize byteSize = (case byteSize of None \<Rightarrow> ok | Some n \<Rightarrow> mapError GCCanonical (ByteSize_Validate n))"

definition candidateToken :: "gcCandidate \<Rightarrow> (gc_error, unit) result" where
  "candidateToken candidate =
     (if cwFilesystemPresent candidate then
        (case gcFilesystem candidate of
           None \<Rightarrow> Inl (GCInvalid ''candidate filesystem token mismatch'')
         | Some object \<Rightarrow>
             reject (foResidentID object \<noteq> cwResidentID candidate \<or> foDigest object \<noteq> gcDigest candidate
                 \<or> Some (foSize object) \<noteq> cwFilesystemByteSize candidate)
               (GCInvalid ''candidate filesystem token mismatch''))
      else reject (gcFilesystem candidate \<noteq> None) (GCInvalid ''absent filesystem copy has a token''))"

definition gcCandidate_Validate :: "gcCandidate \<Rightarrow> (gc_error, unit) result" where
  "gcCandidate_Validate candidate =
     andThen (mapError GCCanonical (ID_Validate (cwResidentID candidate)))
    (andThen (reject (cwHashAlgorithm candidate \<noteq> HashAlgorithm \<or> cwBlobHash candidate \<noteq> locatorText (gcDigest candidate))
       (GCInvalid ''candidate locator encoding mismatch''))
    (andThen (reject (cwSQLitePresent candidate \<noteq> (cwSQLiteByteSize candidate \<noteq> None)
         \<or> cwFilesystemPresent candidate \<noteq> (cwFilesystemByteSize candidate \<noteq> None)
         \<or> \<not> cwSQLitePresent candidate \<and> \<not> cwFilesystemPresent candidate)
       (GCInvalid ''candidate physical presence is invalid''))
    (andThen (checkSize (cwSQLiteByteSize candidate))
    (andThen (checkSize (cwFilesystemByteSize candidate))
    (andThen (reject (cwSQLiteByteSize candidate \<noteq> None \<and> cwFilesystemByteSize candidate \<noteq> None
         \<and> cwSQLiteByteSize candidate \<noteq> cwFilesystemByteSize candidate) (GCInvalid ''dual-copy byte sizes differ''))
    (candidateToken candidate))))))"

definition locatorKey :: "gc_env \<Rightarrow> ID \<Rightarrow> string \<Rightarrow> Digest \<Rightarrow> string" where
  "locatorKey env residentID algorithm digest = geIDText env residentID @ [NUL] @ algorithm @ [NUL] @ Digest_Hex digest"

definition planCandidateStep :: "gc_env \<Rightarrow> ID \<Rightarrow> string option \<Rightarrow> gcCandidate \<Rightarrow> (gc_error, string option) result" where
  "planCandidateStep env residentID previous candidate =
     andThen (gcCandidate_Validate candidate)
    (andThen (reject (cwResidentID candidate \<noteq> residentID) (GCInvalid ''cross-resident candidate''))
    (let key = locatorKey env (cwResidentID candidate) (cwHashAlgorithm candidate) (gcDigest candidate) in
     andThen (reject (case previous of None \<Rightarrow> False | Some p \<Rightarrow> key \<le> p) (GCInvalid ''candidates are unordered or duplicated''))
     (Inr (Some key))))"

definition wirePlan :: "gcPlan \<Rightarrow> planWire" where
  "wirePlan plan = \<lparr>pwFormatVersion = gpFormatVersion plan, pwResidentID = gpResidentID plan, pwCapturedHead = gpCapturedHead plan,
     pwProjectionName = gpProjectionName plan, pwProjectionVersion = gpProjectionVersion plan,
     pwDependencyVersions = gpDependencyVersions plan, pwCandidates = map candidateWire.truncate (gpCandidates plan)\<rparr>"

definition canonicalBytes :: "gc_env \<Rightarrow> gcPlan \<Rightarrow> (gc_error, string) result" where
  "canonicalBytes env plan = mapError GCCanonical (gePlanJCS env (wirePlan plan))"

definition digestOf :: "gc_env \<Rightarrow> string \<Rightarrow> string" where
  "digestOf env encoded = ''sha256:'' @ EncodeToString (geSha env (GCPlanDigestDomain @ [NUL] @ encoded))"

definition gcPlan_Validate :: "gc_env \<Rightarrow> gcPlan \<Rightarrow> (gc_error, unit) result" where
  "gcPlan_Validate env plan =
     andThen (reject (gpFormatVersion plan \<noteq> GCPlanFormatVersion \<or> gpProjectionName plan \<noteq> ReferencesName
         \<or> gpProjectionVersion plan \<noteq> ReferencesVersion) (GCInvalid ''plan version identity mismatch''))
    (andThen (mapError GCCanonical (ID_Validate (gpResidentID plan)))
    (andThen (reject (CapturedHead_Validate (geKnownZone env) (gpCapturedHead plan) \<noteq> ok \<or> \<not> chExists (gpCapturedHead plan))
       (GCInvalid ''plan requires a non-empty head''))
    (andThen (reject (gpDependencyVersions plan \<noteq> []) (ErrProjectionNotCurrent ''v1 dependency set must be empty''))
    (case foldE (planCandidateStep env (gpResidentID plan)) None (gpCandidates plan) of
       Inl e \<Rightarrow> Inl e
     | Inr _ \<Rightarrow>
         (case canonicalBytes env plan of
            Inl e \<Rightarrow> Inl e
          | Inr encoded \<Rightarrow> reject (gpDigest plan \<noteq> digestOf env encoded) (GCInvalid ''plan digest mismatch''))))))"

section \<open>Building the plan\<close>

definition validateSnapshot :: "gc_env \<Rightarrow> gcSnapshot \<Rightarrow> ID \<Rightarrow> (gc_error, unit) result" where
  "validateSnapshot env sn residentID =
     andThen (mapError GCCanonical (ID_Validate residentID))
    (andThen (reject (CapturedHead_Validate (geKnownZone env) (snCapturedHead sn) \<noteq> ok \<or> \<not> chExists (snCapturedHead sn))
       (ErrProjectionNotCurrent ''invalid captured head''))
    (reject (snProjectionName sn \<noteq> ReferencesName \<or> snProjectionVersion sn \<noteq> ReferencesVersion \<or> snDependencyVersions sn \<noteq> [])
       (ErrProjectionNotCurrent ''Projection identity/version/dependencies differ'')))"

text \<open>The map from digests to files is an association list in the order of insertion.\<close>

definition collectFile :: "ID \<Rightarrow> (Digest \<times> FinalObject) list \<Rightarrow> FinalObject \<Rightarrow> (gc_error, (Digest \<times> FinalObject) list) result" where
  "collectFile residentID fileByDigest object =
     andThen (reject (foResidentID object \<noteq> residentID \<or> FinalObject_HashAlgorithm object \<noteq> HashAlgorithm)
       (ErrContentIntegrity ''filesystem object scope mismatch''))
    (andThen (reject (map_of fileByDigest (foDigest object) \<noteq> None) (ErrContentIntegrity ''duplicate filesystem locator''))
    (Inr ((foDigest object, object) # fileByDigest)))"

definition locatorBefore :: "gc_env \<Rightarrow> LocatorState \<Rightarrow> LocatorState \<Rightarrow> bool" where
  "locatorBefore env left right \<longleftrightarrow> locatorKey env (lsResidentID left) (lsHashAlgorithm left) (lsDigest left)
     < locatorKey env (lsResidentID right) (lsHashAlgorithm right) (lsDigest right)"

record gcBuildState =
  bsFiles :: "(Digest \<times> FinalObject) list"
  bsPrevious :: "LocatorState option"
  bsCandidates :: "gcCandidate list"
  bsTotal :: int

definition sameLocator :: "LocatorState \<Rightarrow> LocatorState \<Rightarrow> bool" where
  "sameLocator a b \<longleftrightarrow> lsResidentID a = lsResidentID b \<and> lsHashAlgorithm a = lsHashAlgorithm b \<and> lsDigest a = lsDigest b"

definition checkLocator :: "ID \<Rightarrow> LocatorState \<Rightarrow> (gc_error, unit) result" where
  "checkLocator residentID loc =
     reject (lsResidentID loc \<noteq> residentID \<or> lsHashAlgorithm loc \<noteq> HashAlgorithm \<or> lsAuthoritativeReferences loc < 0
         \<or> lsProjectionReferences loc < 0 \<or> lsSQLitePresent loc \<noteq> (lsSQLiteByteSize loc \<noteq> None))
       (ErrContentIntegrity ''invalid captured locator'')"

definition candidateFor :: "ID \<Rightarrow> LocatorState \<Rightarrow> FinalObject option \<Rightarrow> gcCandidate" where
  "candidateFor residentID loc file = \<lparr>cwResidentID = residentID, cwHashAlgorithm = HashAlgorithm, cwBlobHash = locatorText (lsDigest loc),
     cwSQLitePresent = lsSQLitePresent loc, cwSQLiteByteSize = lsSQLiteByteSize loc, cwFilesystemPresent = (file \<noteq> None),
     cwFilesystemByteSize = map_option foSize file, gcDigest = lsDigest loc, gcFilesystem = file\<rparr>"

definition addBytes :: "int \<Rightarrow> ByteSize option \<Rightarrow> (gc_error, int) result" where
  "addBytes soFar byteSize =
     (case byteSize of
        None \<Rightarrow> Inr soFar
      | Some n \<Rightarrow> if soFar > wrap64 (maxInt64 - n) then Inl (GCInvalid ''candidate byte count overflow'') else Inr (wrap64 (soFar + n)))"

definition buildStep :: "ID \<Rightarrow> gcBuildState \<Rightarrow> LocatorState \<Rightarrow> (gc_error, gcBuildState) result" where
  "buildStep residentID st loc =
     andThen (checkLocator residentID loc)
    (andThen (reject (case bsPrevious st of None \<Rightarrow> False | Some p \<Rightarrow> sameLocator p loc) (ErrContentIntegrity ''duplicate captured locator''))
    (let file = map_of (bsFiles st) (lsDigest loc);
         st' = st\<lparr>bsFiles := filter (\<lambda>p. fst p \<noteq> lsDigest loc) (bsFiles st), bsPrevious := Some loc\<rparr> in
     andThen (reject (\<not> lsSQLitePresent loc \<and> file = None) (ErrContentIntegrity ''captured locator has no physical copy''))
     (if lsAuthoritativeReferences loc \<noteq> 0 \<or> lsProjectionReferences loc \<noteq> 0 then Inr st'
      else let candidate = candidateFor residentID loc file in
        (case addBytes (bsTotal st) (cwSQLiteByteSize candidate) of
           Inl e \<Rightarrow> Inl e
         | Inr total1 \<Rightarrow>
             (case addBytes total1 (cwFilesystemByteSize candidate) of
                Inl e \<Rightarrow> Inl e
              | Inr total2 \<Rightarrow> Inr (st'\<lparr>bsCandidates := bsCandidates st @ [candidate], bsTotal := total2\<rparr>))))))"

definition buildPlan :: "gc_env \<Rightarrow> gcSnapshot \<Rightarrow> ID \<Rightarrow> FinalObject list \<Rightarrow> (gc_error, gcPlan \<times> int) result" where
  "buildPlan env sn residentID files =
     andThen (validateSnapshot env sn residentID)
    (case foldE (collectFile residentID) [] files of
       Inl e \<Rightarrow> Inl e
     | Inr fileByDigest \<Rightarrow>
         (case foldE (buildStep residentID) \<lparr>bsFiles = fileByDigest, bsPrevious = None, bsCandidates = [], bsTotal = 0\<rparr>
                 (slice_stable (locatorBefore env) (snLocators sn)) of
            Inl e \<Rightarrow> Inl e
          | Inr st \<Rightarrow>
              andThen (reject (bsFiles st \<noteq> []) (ErrContentIntegrity ''SQLite snapshot omitted a filesystem locator''))
             (let plan = \<lparr>gpFormatVersion = GCPlanFormatVersion, gpResidentID = residentID, gpCapturedHead = snCapturedHead sn,
                    gpProjectionName = ReferencesName, gpProjectionVersion = ReferencesVersion, gpDependencyVersions = [],
                    gpCandidates = bsCandidates st, gpDigest = ''''\<rparr> in
              (case canonicalBytes env plan of
                 Inl e \<Rightarrow> Inl e
               | Inr encoded \<Rightarrow>
                   let sealed = plan\<lparr>gpDigest := digestOf env encoded\<rparr> in
                   andThen (gcPlan_Validate env sealed) (Inr (sealed, bsTotal st))))))"

section \<open>What a plan holds\<close>

definition unreferenced :: "LocatorState \<Rightarrow> bool" where
  "unreferenced loc \<longleftrightarrow> lsAuthoritativeReferences loc = 0 \<and> lsProjectionReferences loc = 0"

definition fileOf :: "FinalObject list \<Rightarrow> Digest \<Rightarrow> FinalObject option" where
  "fileOf files digest = find (\<lambda>object. foDigest object = digest) files"

definition candidateBytes :: "gcCandidate \<Rightarrow> int" where
  "candidateBytes candidate = (case cwSQLiteByteSize candidate of None \<Rightarrow> 0 | Some n \<Rightarrow> n)
     + (case cwFilesystemByteSize candidate of None \<Rightarrow> 0 | Some n \<Rightarrow> n)"

interpretation locator_order: sort_order "locatorBefore env" for env
  unfolding locatorBefore_def by (rule sort_order_key)

lemma sorted_apart:
  fixes f :: "'a \<Rightarrow> 'k::linorder"
  assumes "sorted_wrt (\<lambda>a b. \<not> f b < f a) xs" and "successively (\<lambda>a b. f a \<noteq> f b) xs"
  shows "sorted_wrt (\<lambda>a b. f a < f b) xs"
proof -
  have "successively (\<lambda>a b. f a < f b) xs"
    using assms by (induction xs rule: induct_list012) (auto simp: not_less)
  moreover have "transp (\<lambda>a b. f a < f b)"
    by (rule transpI) (rule less_trans)
  ultimately show ?thesis
    by (simp add: successively_conv_sorted_wrt)
qed

lemma map_of_removed: "d \<noteq> d' \<Longrightarrow> map_of (filter (\<lambda>p. fst p \<noteq> d) m) d' = map_of m d'"
  by (induction m) auto

lemma collectFiles_ok:
  "foldE (collectFile r) m files = Inr m' \<longleftrightarrow> (\<forall>f\<in>set files. foResidentID f = r) \<and> distinct (map foDigest files)
     \<and> fst ` set m \<inter> foDigest ` set files = {} \<and> m' = rev (map (\<lambda>f. (foDigest f, f)) files) @ m"
proof (induction files arbitrary: m)
  case (Cons f files)
  have "foldE (collectFile r) m (f # files) = Inr m' \<longleftrightarrow> foResidentID f = r \<and> foDigest f \<notin> fst ` set m
      \<and> foldE (collectFile r) ((foDigest f, f) # m) files = Inr m'"
    by (auto simp: collectFile_def andThen_def reject_def FinalObject_HashAlgorithm_def map_of_eq_None_iff split: sum.split)
  with Cons.IH show ?case by auto
qed auto

lemma map_of_files_forward: "map_of (map (\<lambda>f. (foDigest f, f)) files) d = fileOf files d"
proof (induction files)
  case (Cons f files)
  then show ?case by (simp add: fileOf_def)
qed (simp add: fileOf_def)

lemma map_of_files:
  assumes "distinct (map foDigest files)"
  shows "map_of (rev (map (\<lambda>f. (foDigest f, f)) files)) d = fileOf files d"
proof -
  have "map_of (rev (map (\<lambda>f. (foDigest f, f)) files)) = map_of (map (\<lambda>f. (foDigest f, f)) files)"
    using assms by (subst map_of_inject_set) (simp_all add: rev_map comp_def flip: rev_map)
  then show ?thesis by (simp add: map_of_files_forward)
qed

lemma Digest_Hex_inject [simp]: "Digest_Hex a = Digest_Hex b \<longleftrightarrow> a = b"
  unfolding Digest_Hex_def by (metis DecodeString_EncodeToString option.inject)

lemma fileOf_Some: "fileOf files d = Some f \<Longrightarrow> f \<in> set files \<and> foDigest f = d"
  by (auto simp: fileOf_def find_Some_iff)

lemma fileOf_None: "fileOf files d = None \<longleftrightarrow> d \<notin> foDigest ` set files"
  by (auto simp: fileOf_def find_None_iff)

lemma locator_key_digest:
  assumes "checkLocator r a = ok" and "checkLocator r b = ok"
  shows "locatorKey env (lsResidentID a) (lsHashAlgorithm a) (lsDigest a) = locatorKey env (lsResidentID b) (lsHashAlgorithm b) (lsDigest b)
    \<longleftrightarrow> sameLocator a b"
  using assms by (simp add: checkLocator_def locatorKey_def sameLocator_def)

lemma buildStep_ok:
  "buildStep r st loc = Inr st' \<longleftrightarrow> checkLocator r loc = ok \<and> (\<forall>p. bsPrevious st = Some p \<longrightarrow> \<not> sameLocator p loc)
     \<and> (lsSQLitePresent loc \<or> map_of (bsFiles st) (lsDigest loc) \<noteq> None)
     \<and> bsFiles st' = filter (\<lambda>p. fst p \<noteq> lsDigest loc) (bsFiles st) \<and> bsPrevious st' = Some loc
     \<and> (if unreferenced loc
        then let candidate = candidateFor r loc (map_of (bsFiles st) (lsDigest loc)) in
          bsCandidates st' = bsCandidates st @ [candidate]
          \<and> (\<exists>t. addBytes (bsTotal st) (cwSQLiteByteSize candidate) = Inr t
               \<and> addBytes t (cwFilesystemByteSize candidate) = Inr (bsTotal st'))
        else bsCandidates st' = bsCandidates st \<and> bsTotal st' = bsTotal st)"
  by (cases st; cases st') (auto simp: buildStep_def unreferenced_def Let_def split: option.splits sum.splits)

lemma build_checks:
  "foldE (buildStep r) st xs = Inr st' \<Longrightarrow> (\<forall>loc\<in>set xs. checkLocator r loc = ok)
     \<and> (\<forall>p. bsPrevious st = Some p \<longrightarrow> xs \<noteq> [] \<longrightarrow> \<not> sameLocator p (hd xs)) \<and> successively (\<lambda>a b. \<not> sameLocator a b) xs"
proof (induction xs arbitrary: st)
  case (Cons x xs)
  then obtain s where x: "buildStep r st x = Inr s" and "foldE (buildStep r) s xs = Inr st'"
    by (auto split: sum.splits)
  with Cons.IH [of s] show ?case
    by (cases xs) (auto simp: buildStep_ok)
qed simp

lemma locators_distinct:
  assumes "foldE (buildStep r) st (slice_stable (locatorBefore env) locs) = Inr st'"
  shows "distinct (map lsDigest (slice_stable (locatorBefore env) locs))"
proof -
  let ?xs = "slice_stable (locatorBefore env) locs"
  let ?key = "\<lambda>l. locatorKey env (lsResidentID l) (lsHashAlgorithm l) (lsDigest l)"
  have checks: "\<forall>loc\<in>set ?xs. checkLocator r loc = ok" and "successively (\<lambda>a b. \<not> sameLocator a b) ?xs"
    using build_checks [OF assms] by blast+
  then have "successively (\<lambda>a b. ?key a \<noteq> ?key b) ?xs"
    by (elim successively_mono) (metis locator_key_digest)
  then have "sorted_wrt (\<lambda>a b. ?key a < ?key b) ?xs"
    using locator_order.slice_stable_sorted [of env locs] unfolding locatorBefore_def by (intro sorted_apart)
  then have "sorted_wrt (<) (map ?key ?xs)"
    by (simp add: sorted_wrt_map)
  then have "distinct (map ?key ?xs)"
    by (simp add: strict_sorted_iff)
  then have "inj_on ?key (set ?xs)" and "distinct ?xs"
    by (simp_all add: distinct_map)
  moreover have "?key a = ?key b" if "a \<in> set ?xs" "b \<in> set ?xs" "lsDigest a = lsDigest b" for a b
    using that checks by (simp add: checkLocator_def)
  ultimately have "inj_on lsDigest (set ?xs)"
    unfolding inj_on_def by blast
  with \<open>distinct ?xs\<close> show ?thesis
    unfolding distinct_map by blast
qed

lemma build_candidates:
  assumes "foldE (buildStep r) st xs = Inr st'" and "distinct (map lsDigest xs)"
  shows "bsCandidates st' = bsCandidates st @ map (\<lambda>loc. candidateFor r loc (map_of (bsFiles st) (lsDigest loc))) (filter unreferenced xs)
     \<and> bsFiles st' = filter (\<lambda>p. fst p \<notin> lsDigest ` set xs) (bsFiles st)
     \<and> (\<forall>loc\<in>set xs. lsSQLitePresent loc \<or> map_of (bsFiles st) (lsDigest loc) \<noteq> None)"
  using assms
proof (induction xs arbitrary: st)
  case (Cons x xs)
  obtain s where x: "buildStep r st x = Inr s" and rest: "foldE (buildStep r) s xs = Inr st'"
    using Cons.prems(1) by (auto split: sum.splits)
  have files: "bsFiles s = filter (\<lambda>p. fst p \<noteq> lsDigest x) (bsFiles st)"
    using x by (simp add: buildStep_ok)
  have keep: "map_of (bsFiles s) (lsDigest loc) = map_of (bsFiles st) (lsDigest loc)" if "loc \<in> set xs" for loc
    unfolding files using that Cons.prems(2) by (intro map_of_removed) auto
  have "map (\<lambda>loc. candidateFor r loc (map_of (bsFiles s) (lsDigest loc))) (filter unreferenced xs)
      = map (\<lambda>loc. candidateFor r loc (map_of (bsFiles st) (lsDigest loc))) (filter unreferenced xs)"
    using keep by simp
  moreover have "filter (\<lambda>p. fst p \<notin> lsDigest ` set xs) (bsFiles s) = filter (\<lambda>p. fst p \<notin> lsDigest ` set (x # xs)) (bsFiles st)"
    unfolding files by (auto intro: filter_cong)
  ultimately show ?case
    using Cons.IH [OF rest] Cons.prems(2) keep x by (auto simp: buildStep_ok Let_def split: if_splits)
qed auto

lemma addBytes_exact:
  assumes "addBytes t size' = Inr t'" and "case size' of None \<Rightarrow> True | Some n \<Rightarrow> 0 \<le> n \<and> int64 n" and "0 \<le> t" and "int64 t"
  shows "t' = t + (case size' of None \<Rightarrow> 0 | Some n \<Rightarrow> n)" and "0 \<le> t'" and "int64 t'"
proof -
  have "wrap64 (maxInt64 - n) = maxInt64 - n" if "0 \<le> n" "int64 n" for n
    using that by (intro wrap64_id) (simp add: int64_def maxInt64_def)
  moreover have "wrap64 (t + n) = t + n" if "0 \<le> n" "int64 n" "t \<le> maxInt64 - n" for n
    using that assms(3) by (intro wrap64_id) (simp add: int64_def maxInt64_def)
  ultimately show "t' = t + (case size' of None \<Rightarrow> 0 | Some n \<Rightarrow> n)" and "0 \<le> t'" and "int64 t'"
    using assms by (auto simp: addBytes_def int64_def maxInt64_def split: option.splits if_splits)
qed

definition sizesTyped :: "gcCandidate \<Rightarrow> bool" where
  "sizesTyped c \<longleftrightarrow> (case cwSQLiteByteSize c of None \<Rightarrow> True | Some n \<Rightarrow> 0 \<le> n \<and> int64 n)
     \<and> (case cwFilesystemByteSize c of None \<Rightarrow> True | Some n \<Rightarrow> 0 \<le> n \<and> int64 n)"

lemma build_total:
  assumes "foldE (buildStep r) st xs = Inr st'" and "\<forall>c\<in>set (bsCandidates st'). sizesTyped c" and "0 \<le> bsTotal st" and "int64 (bsTotal st)"
    and "bsTotal st = sum_list (map candidateBytes (bsCandidates st))"
  shows "bsTotal st' = sum_list (map candidateBytes (bsCandidates st'))"
  using assms
proof (induction xs arbitrary: st)
  case (Cons x xs)
  obtain s where x: "buildStep r st x = Inr s" and rest: "foldE (buildStep r) s xs = Inr st'"
    using Cons.prems(1) by (auto split: sum.splits)
  have grows: "set (bsCandidates s) \<subseteq> set (bsCandidates st')"
    using rest by (rule foldE_invariant) (auto simp: buildStep_ok Let_def split: if_splits)
  show ?case
  proof (cases "unreferenced x")
    case False
    then show ?thesis using x Cons.prems by (intro Cons.IH [OF rest]) (auto simp: buildStep_ok)
  next
    case True
    define c where "c = candidateFor r x (map_of (bsFiles st) (lsDigest x))"
    obtain t where c: "bsCandidates s = bsCandidates st @ [c]" and t: "addBytes (bsTotal st) (cwSQLiteByteSize c) = Inr t"
      and t': "addBytes t (cwFilesystemByteSize c) = Inr (bsTotal s)"
      using x True by (auto simp: buildStep_ok Let_def c_def)
    have "sizesTyped c" using c grows Cons.prems(2) by auto
    then have "t = bsTotal st + (case cwSQLiteByteSize c of None \<Rightarrow> 0 | Some n \<Rightarrow> n)" and "0 \<le> t" and "int64 t"
      using addBytes_exact [OF t] Cons.prems(3,4) by (auto simp: sizesTyped_def)
    moreover from this have "bsTotal s = t + (case cwFilesystemByteSize c of None \<Rightarrow> 0 | Some n \<Rightarrow> n)" and "0 \<le> bsTotal s" and "int64 (bsTotal s)"
      using addBytes_exact [OF t'] \<open>sizesTyped c\<close> by (auto simp: sizesTyped_def)
    ultimately show ?thesis
      using Cons.prems c by (intro Cons.IH [OF rest]) (auto simp: candidateBytes_def)
  qed
qed auto

lemma addBytes_nonneg:
  assumes "addBytes t byteSize = Inr t'" and "0 \<le> t"
  shows "0 \<le> t'"
proof (cases byteSize)
  case None
  with assms show ?thesis by (simp add: addBytes_def)
next
  case (Some n)
  define m where "m = n mod 2 ^ 64"
  have m: "0 \<le> m" "m < 2 ^ 64" by (simp_all add: m_def)
  have "wrap64 (maxInt64 - n) = (2 ^ 64 - 1 - m) mod 2 ^ 64 - 2 ^ 63"
    by (simp add: wrap64_def maxInt64_def m_def mod_diff_right_eq)
  then have "t \<le> 2 ^ 63 - 1 - m"
    using assms(1) Some m by (simp add: addBytes_def split: if_splits)
  moreover have "t' = (t + m + 2 ^ 63) mod 2 ^ 64 - 2 ^ 63"
  proof -
    have "t' = (t + n + 2 ^ 63) mod 2 ^ 64 - 2 ^ 63"
      using assms(1) Some by (simp add: addBytes_def wrap64_def split: if_splits)
    also have "t + n + 2 ^ 63 = (t + 2 ^ 63) + n" by simp
    also have "((t + 2 ^ 63) + n) mod 2 ^ 64 = ((t + 2 ^ 63) + m) mod 2 ^ 64"
      unfolding m_def by (rule mod_add_right_eq [symmetric])
    finally show ?thesis by (simp add: ac_simps)
  qed
  ultimately show ?thesis
    using m assms(2) by simp
qed

lemma build_total_nonneg: "foldE (buildStep r) st xs = Inr st' \<Longrightarrow> 0 \<le> bsTotal st \<Longrightarrow> 0 \<le> bsTotal st'"
  by (erule (1) foldE_invariant) (auto simp: buildStep_ok Let_def split: if_splits dest: addBytes_nonneg)

definition typedSizes :: "gcSnapshot \<Rightarrow> FinalObject list \<Rightarrow> bool" where
  "typedSizes sn files \<longleftrightarrow> (\<forall>loc\<in>set (snLocators sn). \<forall>n. lsSQLiteByteSize loc = Some n \<longrightarrow> int64 n) \<and> (\<forall>f\<in>set files. int64 (foSize f))"

lemma planCandidates_ok:
  "foldE (planCandidateStep env r) p cs = Inr p' \<Longrightarrow> \<forall>c\<in>set cs. gcCandidate_Validate c = ok \<and> cwResidentID c = r"
proof (induction cs arbitrary: p)
  case (Cons c cs)
  then obtain q where q: "planCandidateStep env r p c = Inr q" and "foldE (planCandidateStep env r) q cs = Inr p'"
    by (auto split: sum.splits)
  then have "\<forall>c\<in>set cs. gcCandidate_Validate c = ok \<and> cwResidentID c = r"
    by (intro Cons.IH)
  with q show ?case by (simp add: planCandidateStep_def Let_def)
qed simp

lemma plan_valid_candidates:
  assumes "gcPlan_Validate env plan = ok" and "c \<in> set (gpCandidates plan)"
  shows "gcCandidate_Validate c = ok" and "cwResidentID c = gpResidentID plan"
proof -
  obtain p where "foldE (planCandidateStep env (gpResidentID plan)) None (gpCandidates plan) = Inr p"
    using assms(1) by (auto simp: gcPlan_Validate_def split: sum.splits)
  from planCandidates_ok [OF this] assms(2) show "gcCandidate_Validate c = ok" and "cwResidentID c = gpResidentID plan"
    by blast+
qed

lemma candidate_sizes:
  "gcCandidate_Validate c = ok \<Longrightarrow> cwSQLiteByteSize c = Some n \<Longrightarrow> 0 \<le> n"
  "gcCandidate_Validate c = ok \<Longrightarrow> cwFilesystemByteSize c = Some n \<Longrightarrow> 0 \<le> n"
  by (auto simp: gcCandidate_Validate_def checkSize_def ByteSize_Validate_def NewByteSize_def split: if_splits)

lemma buildPlan_parts:
  assumes "buildPlan env sn r files = Inr (plan, bytes)"
  obtains m st where "validateSnapshot env sn r = ok" "foldE (collectFile r) [] files = Inr m"
    "foldE (buildStep r) \<lparr>bsFiles = m, bsPrevious = None, bsCandidates = [], bsTotal = 0\<rparr> (slice_stable (locatorBefore env) (snLocators sn)) = Inr st"
    "bsFiles st = []" "gpCandidates plan = bsCandidates st" "bytes = bsTotal st" "gcPlan_Validate env plan = ok"
    "gpResidentID plan = r" "gpCapturedHead plan = snCapturedHead sn"
  using assms by (auto simp: buildPlan_def Let_def case_result_ok [where f = "\<lambda>e. e"])

lemma buildPlan_ok:
  assumes "buildPlan env sn r files = Inr (plan, bytes)"
  shows "gpCandidates plan = map (\<lambda>loc. candidateFor r loc (fileOf files (lsDigest loc)))
      (filter unreferenced (slice_stable (locatorBefore env) (snLocators sn)))"
    and "foDigest ` set files \<subseteq> lsDigest ` set (snLocators sn)"
    and "distinct (map lsDigest (snLocators sn))" and "distinct (map foDigest files)"
    and "gcPlan_Validate env plan = ok" and "gpResidentID plan = r" and "gpCapturedHead plan = snCapturedHead sn"
    and "\<forall>loc\<in>set (snLocators sn). lsResidentID loc = r"
    and "0 \<le> bytes" and "typedSizes sn files \<Longrightarrow> bytes = sum_list (map candidateBytes (gpCandidates plan))"
proof -
  obtain m st where m: "foldE (collectFile r) [] files = Inr m"
    and st: "foldE (buildStep r) \<lparr>bsFiles = m, bsPrevious = None, bsCandidates = [], bsTotal = 0\<rparr> (slice_stable (locatorBefore env) (snLocators sn)) = Inr st"
    and left: "bsFiles st = []" and plan: "gpCandidates plan = bsCandidates st" "bytes = bsTotal st"
    and valid: "gcPlan_Validate env plan = ok" "gpResidentID plan = r" "gpCapturedHead plan = snCapturedHead sn"
    using buildPlan_parts [OF assms] by metis
  have files: "distinct (map foDigest files)" and m_eq: "m = rev (map (\<lambda>f. (foDigest f, f)) files)"
    using m by (auto simp: collectFiles_ok)
  have dist: "distinct (map lsDigest (slice_stable (locatorBefore env) (snLocators sn)))"
    using st by (rule locators_distinct)
  note built = build_candidates [OF st dist]
  have lookup: "map_of m d = fileOf files d" for d
    unfolding m_eq using files by (rule map_of_files)
  show cands: "gpCandidates plan = map (\<lambda>loc. candidateFor r loc (fileOf files (lsDigest loc)))
      (filter unreferenced (slice_stable (locatorBefore env) (snLocators sn)))"
    using built plan by (simp add: lookup)
  have "\<forall>p\<in>set m. fst p \<in> lsDigest ` set (snLocators sn)"
    using built left by (metis (no_types, lifting) gcBuildState.select_convs(1) filter_empty_conv set_slice_stable)
  then show "foDigest ` set files \<subseteq> lsDigest ` set (snLocators sn)"
    unfolding m_eq by auto
  show "distinct (map lsDigest (snLocators sn))" using dist by simp
  show "distinct (map foDigest files)" by (rule files)
  show "gcPlan_Validate env plan = ok" "gpResidentID plan = r" "gpCapturedHead plan = snCapturedHead sn" by (rule valid)+
  show "\<forall>loc\<in>set (snLocators sn). lsResidentID loc = r"
    using build_checks [OF st] by (simp add: checkLocator_def)
  show "0 \<le> bytes" using build_total_nonneg [OF st] plan by simp
  assume typed: "typedSizes sn files"
  have "sizesTyped c" if c: "c \<in> set (gpCandidates plan)" for c
  proof -
    obtain loc where "loc \<in> set (snLocators sn)" and "c = candidateFor r loc (fileOf files (lsDigest loc))"
      using c unfolding cands by auto
    then show ?thesis
      using typed candidate_sizes [OF plan_valid_candidates(1) [OF valid(1) c]] fileOf_Some
      by (fastforce simp: sizesTyped_def typedSizes_def candidateFor_def split: option.split)
  qed
  then show "bytes = sum_list (map candidateBytes (gpCandidates plan))"
    using build_total [OF st] plan by (simp add: int64_def)
qed

end
