(* ===== verification/Blob_GC_Execute.thy ===== *)
theory Blob_GC_Execute
  imports Blob_GC
begin

text \<open>
  The collector (\<^verbatim>\<open>Execute\<close> of \<^verbatim>\<open>internal/blobgc/gc.go\<close>). Its interfaces (the repository with its candidate
  transaction, the store of final objects, the boundary, the failpoint and the observer) are the
  operations of a record, computations over the world behind them; the open transaction is part of the
  world. The locales \<open>gc_reader\<close> and \<open>gc_provider\<close> are what the collector needs of a provider to keep an invariant of that
  world through every path, the error paths with their rollbacks included.
\<close>

section \<open>Requests and results\<close>

record gcRequest =
  rqResidentID :: ID
  rqApply :: bool
  rqConfirm :: string
  rqBoundary :: bool
  rqFailpoint :: bool
  rqObserver :: bool

text \<open>\<^verbatim>\<open>Boundary\<close>, \<^verbatim>\<open>Failpoint\<close> and \<^verbatim>\<open>Observer\<close> are optional: the flags say whether they are set.\<close>

definition lowerHex :: "char \<Rightarrow> bool" where
  "lowerHex c \<longleftrightarrow> isDigit c \<or> 97 \<le> byte c \<and> byte c \<le> 102"

definition wireDigestPattern :: "string \<Rightarrow> bool" where
  "wireDigestPattern s \<longleftrightarrow> take 7 s = ''sha256:'' \<and> length s = 71 \<and> list_all lowerHex (drop 7 s)"

definition gcRequest_Validate :: "gcRequest \<Rightarrow> (gc_error, unit) result" where
  "gcRequest_Validate request =
     andThen (mapError GCCanonical (ID_Validate (rqResidentID request)))
     (if rqApply request then reject (\<not> wireDigestPattern (rqConfirm request)) (ErrPlanStale '''')
      else reject (rqConfirm request \<noteq> '''') (ErrPlanStale ''''))"

record gcResult =
  rsPlan :: "gcPlan option"
  rsCandidateCount :: int
  rsCandidateBytes :: int
  rsDeletedCount :: int
  rsRemainingCount :: int
  rsPhysicalMutation :: bool
  rsMaintenanceIncomplete :: bool

text \<open>The zero result has the zero plan, which no plan that was built equals: it is \<open>None\<close> here.\<close>

definition zeroResult :: gcResult where
  "zeroResult = \<lparr>rsPlan = None, rsCandidateCount = 0, rsCandidateBytes = 0, rsDeletedCount = 0, rsRemainingCount = 0,
     rsPhysicalMutation = False, rsMaintenanceIncomplete = False\<rparr>"

definition gcResult_Validate :: "gc_env \<Rightarrow> gcResult \<Rightarrow> (gc_error, unit) result" where
  "gcResult_Validate env result =
     andThen (case rsPlan result of None \<Rightarrow> Inl (GCInvalid ''plan version identity mismatch'') | Some plan \<Rightarrow> gcPlan_Validate env plan)
     (reject (rsCandidateCount result < 0 \<or> rsCandidateBytes result < 0 \<or> rsDeletedCount result < 0 \<or> rsRemainingCount result < 0
         \<or> rsDeletedCount result > rsCandidateCount result
         \<or> rsRemainingCount result \<noteq> rsCandidateCount result - rsDeletedCount result) (GCInvalid ''invalid result counters''))"

fun isPartial :: "gc_error \<Rightarrow> bool" where
  "isPartial (PartialError _) \<longleftrightarrow> True"
| "isPartial (Joined a b) \<longleftrightarrow> isPartial a \<or> isPartial b"
| "isPartial _ \<longleftrightarrow> False"

datatype gcOutcome = OperationSucceeded | OperationFailed | OperationPartial

section \<open>Interfaces\<close>

datatype walk_error = WalkIntegrity string | WalkFailure string

record 'w gc_ops =
  opWalkFinal :: "ID \<Rightarrow> ('w, (walk_error, FinalObject list) result) state"
  opRemoveFinal :: "FinalObject \<Rightarrow> ('w, bool \<times> gc_error option) state"
  opCapture :: "ID \<Rightarrow> FinalObject list \<Rightarrow> ('w, (gc_error, gcSnapshot) result) state"
  opBeginCandidate :: "gcCandidate \<Rightarrow> CapturedHead \<Rightarrow> ('w, gc_error option) state"
  opDeleteSQLite :: "('w, bool \<times> gc_error option) state"
  opCommit :: "('w, gc_error option) state"
  opRollback :: "('w, gc_error option) state"
  opMaintenance :: "('w, gc_error option) state"
  opVerify :: "('w, gc_error option) state"
  opFailpoint :: "string \<Rightarrow> ('w, gc_error option) state"
  opSetFinalOrphanCount :: "nat \<Rightarrow> ('w, unit) state"
  opOperationFinished :: "gcOutcome \<Rightarrow> ('w, unit) state"

definition verifyBoundary :: "'w gc_ops \<Rightarrow> gcRequest \<Rightarrow> ('w, gc_error option) state" where
  "verifyBoundary ops request =
     (if rqBoundary request
      then do { r \<leftarrow> opVerify ops; State_Monad.return (map_option (Joined (ErrPlanStale '''')) r) }
      else State_Monad.return None)"

definition invokeFailpoint :: "'w gc_ops \<Rightarrow> gcRequest \<Rightarrow> string \<Rightarrow> ('w, gc_error option) state" where
  "invokeFailpoint ops request name = (if rqFailpoint request then opFailpoint ops name else State_Monad.return None)"

section \<open>Deleting the candidates\<close>

definition mutated :: "gcResult \<Rightarrow> bool" where
  "mutated result \<longleftrightarrow> rsDeletedCount result > 0 \<or> rsPhysicalMutation result"

definition finishFailure :: "gcResult \<Rightarrow> gc_error \<Rightarrow> gcResult \<times> gc_error option" where
  "finishFailure result cause = (result, Some (if mutated result then PartialError cause else cause))"

text \<open>\<^verbatim>\<open>return finishFailure(result, errors.Join(err, rollback()))\<close>.\<close>

definition abort :: "'w gc_ops \<Rightarrow> gcResult \<Rightarrow> gc_error \<Rightarrow> ('w, gcResult \<times> gc_error option) state" where
  "abort ops result cause = do { r \<leftarrow> opRollback ops; State_Monad.return (finishFailure result (joinErrors cause r)) }"

definition removeFile :: "'w gc_ops \<Rightarrow> gcCandidate \<Rightarrow> gcResult \<Rightarrow> ('w, gcResult \<times> gc_error option) state" where
  "removeFile ops candidate result =
     (case gcFilesystem candidate of
        None \<Rightarrow> State_Monad.return (result, None)
      | Some object \<Rightarrow> do {
          (removed, err) \<leftarrow> opRemoveFinal ops object;
          State_Monad.return (result\<lparr>rsPhysicalMutation := rsPhysicalMutation result \<or> removed\<rparr>,
            if err \<noteq> None then err else if \<not> removed then Some (ErrPlanStale '''') else None) })"

definition commitCandidate :: "'w gc_ops \<Rightarrow> gcRequest \<Rightarrow> bool \<Rightarrow> gcResult \<Rightarrow> ('w, gcResult \<times> gc_error option) state" where
  "commitCandidate ops request removedSQLite result = do {
     commitErr \<leftarrow> opCommit ops;
     let result1 = result\<lparr>rsPhysicalMutation := rsPhysicalMutation result \<or> removedSQLite\<rparr>;
     (case commitErr of
        Some e \<Rightarrow> State_Monad.return (finishFailure result1 e)
      | None \<Rightarrow>
          let result2 = result1\<lparr>rsDeletedCount := rsDeletedCount result1 + 1, rsRemainingCount := rsRemainingCount result1 - 1\<rparr> in
          attempt (verifyBoundary ops request) (\<lambda>e. State_Monad.return (finishFailure result2 e))
         (attempt (invokeFailpoint ops request ''after_candidate_commit'') (\<lambda>e. State_Monad.return (finishFailure result2 e))
         (State_Monad.return (result2, None)))) }"

definition deleteRow :: "'w gc_ops \<Rightarrow> gcRequest \<Rightarrow> gcResult \<Rightarrow> ('w, gcResult \<times> gc_error option) state" where
  "deleteRow ops request result = do {
     (removedSQLite, deleteErr) \<leftarrow> opDeleteSQLite ops;
     (case deleteErr of
        Some e \<Rightarrow> abort ops result e
      | None \<Rightarrow>
          attempt (invokeFailpoint ops request ''after_sqlite_delete'') (abort ops result)
         (attempt (invokeFailpoint ops request ''before_candidate_commit'') (abort ops result)
         (attempt (verifyBoundary ops request) (abort ops result)
         (commitCandidate ops request removedSQLite result)))) }"

definition deleteCandidate :: "'w gc_ops \<Rightarrow> gcRequest \<Rightarrow> CapturedHead \<Rightarrow> gcCandidate \<Rightarrow> gcResult \<Rightarrow> ('w, gcResult \<times> gc_error option) state" where
  "deleteCandidate ops request head candidate result =
     attempt (opBeginCandidate ops candidate head) (\<lambda>e. State_Monad.return (finishFailure result e))
    (attempt (verifyBoundary ops request) (abort ops result)
    (attempt (invokeFailpoint ops request ''before_filesystem_delete'') (abort ops result)
    (do {
       (result1, removeErr) \<leftarrow> removeFile ops candidate result;
       (case removeErr of
          Some e \<Rightarrow> abort ops result1 e
        | None \<Rightarrow>
            attempt (invokeFailpoint ops request ''after_filesystem_delete'') (abort ops result1)
            (deleteRow ops request result1)) })))"

fun deleteCandidates :: "'w gc_ops \<Rightarrow> gcRequest \<Rightarrow> CapturedHead \<Rightarrow> gcCandidate list \<Rightarrow> gcResult \<Rightarrow> ('w, gcResult \<times> gc_error option) state" where
  "deleteCandidates ops request head [] result = State_Monad.return (result, None)"
| "deleteCandidates ops request head (candidate # candidates) result = do {
     (result1, err) \<leftarrow> deleteCandidate ops request head candidate result;
     (case err of
        Some e \<Rightarrow> State_Monad.return (result1, Some e)
      | None \<Rightarrow> deleteCandidates ops request head candidates result1) }"

section \<open>The whole collection\<close>

definition checked :: "(gc_error, unit) result \<Rightarrow> gc_error option" where
  "checked r = (case r of Inl e \<Rightarrow> Some e | Inr _ \<Rightarrow> None)"

definition applyPlan :: "gc_env \<Rightarrow> 'w gc_ops \<Rightarrow> gcRequest \<Rightarrow> gcPlan \<Rightarrow> gcResult \<Rightarrow> ('w, gcResult \<times> gc_error option) state" where
  "applyPlan env ops request plan result =
     attempt (invokeFailpoint ops request ''after_all_candidates_preflight'') (\<lambda>e. State_Monad.return (result, Some e))
    (do {
       (result1, err) \<leftarrow> deleteCandidates ops request (gpCapturedHead plan) (gpCandidates plan) result;
       (case err of
          Some e \<Rightarrow> State_Monad.return (result1, Some e)
        | None \<Rightarrow> do {
            maintenanceErr \<leftarrow> opMaintenance ops;
            let result2 = (if maintenanceErr \<noteq> None then result1\<lparr>rsMaintenanceIncomplete := True\<rparr> else result1);
            attempt (verifyBoundary ops request) (\<lambda>e. State_Monad.return (finishFailure result2 e))
            (State_Monad.return (result2, checked (gcResult_Validate env result2))) }) })"

definition finalOrphans :: "gcPlan \<Rightarrow> nat" where
  "finalOrphans plan = length (filter (\<lambda>candidate. gcFilesystem candidate \<noteq> None) (gpCandidates plan))"

definition freshResult :: "gcPlan \<Rightarrow> int \<Rightarrow> gcResult" where
  "freshResult plan bytes = zeroResult\<lparr>rsPlan := Some plan, rsCandidateCount := int (length (gpCandidates plan)), rsCandidateBytes := bytes,
     rsRemainingCount := int (length (gpCandidates plan))\<rparr>"

definition afterPlan :: "gc_env \<Rightarrow> 'w gc_ops \<Rightarrow> gcRequest \<Rightarrow> gcPlan \<Rightarrow> int \<Rightarrow> ('w, gcResult \<times> gc_error option) state" where
  "afterPlan env ops request plan bytes = do {
     _ \<leftarrow> (if rqObserver request then opSetFinalOrphanCount ops (finalOrphans plan) else State_Monad.return ());
     let result = freshResult plan bytes;
     attempt (verifyBoundary ops request) (\<lambda>e. State_Monad.return (result, Some e))
     (if \<not> rqApply request then State_Monad.return (result, checked (gcResult_Validate env result))
      else if rqConfirm request \<noteq> gpDigest plan then State_Monad.return (zeroResult, Some (ErrPlanStale ''''))
      else applyPlan env ops request plan result) }"

definition walkFailure :: "walk_error \<Rightarrow> gc_error" where
  "walkFailure e = (case e of WalkIntegrity _ \<Rightarrow> ErrContentIntegrity ''enumerate final objects''
     | WalkFailure _ \<Rightarrow> ErrSourceUnavailable ''enumerate final objects'')"

definition executeBody :: "gc_env \<Rightarrow> bool \<Rightarrow> 'w gc_ops \<Rightarrow> gcRequest \<Rightarrow> ('w, gcResult \<times> gc_error option) state" where
  "executeBody env present ops request =
     (if \<not> present then State_Monad.return (zeroResult, Some (ErrSourceUnavailable ''nil GC dependency''))
      else case gcRequest_Validate request of
        Inl e \<Rightarrow> State_Monad.return (zeroResult, Some e)
      | Inr _ \<Rightarrow>
          attempt (verifyBoundary ops request) (\<lambda>e. State_Monad.return (zeroResult, Some e))
         (attemptE (opWalkFinal ops (rqResidentID request)) (\<lambda>e. State_Monad.return (zeroResult, Some (walkFailure e)))
         (\<lambda>objects.
            attemptE (opCapture ops (rqResidentID request) objects) (\<lambda>e. State_Monad.return (zeroResult, Some e))
            (\<lambda>sn.
               (case buildPlan env sn (rqResidentID request) objects of
                  Inl e \<Rightarrow> State_Monad.return (zeroResult, Some e)
                | Inr (plan, bytes) \<Rightarrow> afterPlan env ops request plan bytes)))))"

text \<open>The deferred report to the observer.\<close>

definition reportedOutcome :: "gcResult \<Rightarrow> gc_error option \<Rightarrow> gcOutcome" where
  "reportedOutcome result err =
     (case err of
        None \<Rightarrow> OperationSucceeded
      | Some e \<Rightarrow> if isPartial e \<or> rsDeletedCount result > 0 \<or> rsPhysicalMutation result then OperationPartial else OperationFailed)"

definition Execute :: "gc_env \<Rightarrow> bool \<Rightarrow> 'w gc_ops \<Rightarrow> gcRequest \<Rightarrow> ('w, gcResult \<times> gc_error option) state" where
  "Execute env present ops request = do {
     (result, err) \<leftarrow> executeBody env present ops request;
     _ \<leftarrow> (if rqObserver request then opOperationFinished ops (reportedOutcome result err) else State_Monad.return ());
     State_Monad.return (result, err) }"

section \<open>What the result says\<close>

text \<open>
  Whatever the interfaces do, the counters of the result add up, an error after the first physical change is a
  partial error, and a run without error has deleted every candidate.
\<close>

definition progress :: "gcResult \<Rightarrow> nat \<Rightarrow> gcResult \<times> gc_error option \<Rightarrow> bool" where
  "progress result n outcome \<longleftrightarrow> (case outcome of (result', err) \<Rightarrow>
     rsPlan result' = rsPlan result \<and> rsCandidateCount result' = rsCandidateCount result \<and> rsCandidateBytes result' = rsCandidateBytes result
     \<and> rsDeletedCount result \<le> rsDeletedCount result' \<and> rsDeletedCount result' \<le> rsDeletedCount result + int n
     \<and> rsRemainingCount result' + rsDeletedCount result' = rsRemainingCount result + rsDeletedCount result
     \<and> (err = None \<longrightarrow> rsDeletedCount result' = rsDeletedCount result + int n)
     \<and> (err \<noteq> None \<and> mutated result' \<longrightarrow> (\<exists>cause. err = Some (PartialError cause))))"

lemma wp_any: "(\<And>a w'. Q a w') \<Longrightarrow> wp m Q w"
  by (simp add: wp_def split: prod.split)

lemmas any_call =
  wp_any [where m = "verifyBoundary ops request" for ops request]
  wp_any [where m = "invokeFailpoint ops request name" for ops request name]
  wp_any [where m = "opRollback ops" for ops]
  wp_any [where m = "opCommit ops" for ops]
  wp_any [where m = "opMaintenance ops" for ops]
  wp_any [where m = "opDeleteSQLite ops" for ops]
  wp_any [where m = "opBeginCandidate ops candidate head" for ops candidate head]
  wp_any [where m = "opRemoveFinal ops object" for ops object]
  wp_any [where m = "opWalkFinal ops residentID" for ops residentID]
  wp_any [where m = "opCapture ops residentID objects" for ops residentID objects]
  wp_any [where m = "opSetFinalOrphanCount ops n" for ops n]
  wp_any [where m = "opOperationFinished ops outcome" for ops outcome]

lemma wp_prod [wp_rules]: "wp (case p of (a, b) \<Rightarrow> f a b) Q w \<longleftrightarrow> (case p of (a, b) \<Rightarrow> wp (f a b) Q w)"
  by (cases p) simp

lemma wp_option [wp_rules]:
  "wp (case r of None \<Rightarrow> m | Some e \<Rightarrow> f e) Q w \<longleftrightarrow> (case r of None \<Rightarrow> wp m Q w | Some e \<Rightarrow> wp (f e) Q w)"
  by (cases r) simp_all

lemma wp_sum [wp_rules]:
  "wp (case r of Inl e \<Rightarrow> f e | Inr v \<Rightarrow> g v) Q w \<longleftrightarrow> (case r of Inl e \<Rightarrow> wp (f e) Q w | Inr v \<Rightarrow> wp (g v) Q w)"
  by (cases r) simp_all

lemma finishFailure_progress:
  "rsPlan result' = rsPlan result \<Longrightarrow> rsCandidateCount result' = rsCandidateCount result \<Longrightarrow> rsCandidateBytes result' = rsCandidateBytes result
    \<Longrightarrow> rsDeletedCount result \<le> rsDeletedCount result' \<Longrightarrow> rsDeletedCount result' \<le> rsDeletedCount result + int n
    \<Longrightarrow> rsRemainingCount result' + rsDeletedCount result' = rsRemainingCount result + rsDeletedCount result
    \<Longrightarrow> progress result n (finishFailure result' cause)"
  by (auto simp: progress_def finishFailure_def)

lemma abort_progress:
  "rsPlan result' = rsPlan result \<Longrightarrow> rsCandidateCount result' = rsCandidateCount result \<Longrightarrow> rsCandidateBytes result' = rsCandidateBytes result
    \<Longrightarrow> rsDeletedCount result' = rsDeletedCount result \<Longrightarrow> rsRemainingCount result' = rsRemainingCount result
    \<Longrightarrow> wp (abort ops result' cause) (\<lambda>out w. progress result n out) w"
  unfolding abort_def wp_rules by (rule wp_any) (simp add: wp_rules finishFailure_progress)

lemma commitCandidate_progress:
  "rsPlan result' = rsPlan result \<Longrightarrow> rsCandidateCount result' = rsCandidateCount result \<Longrightarrow> rsCandidateBytes result' = rsCandidateBytes result
    \<Longrightarrow> rsDeletedCount result' = rsDeletedCount result \<Longrightarrow> rsRemainingCount result' = rsRemainingCount result
    \<Longrightarrow> wp (commitCandidate ops request removed result') (\<lambda>out w. progress result (Suc 0) out) w"
  unfolding commitCandidate_def wp_rules Let_def
  by (auto intro!: any_call simp: wp_rules finishFailure_progress split: option.split) (simp add: progress_def)

lemma deleteRow_progress:
  "rsPlan result' = rsPlan result \<Longrightarrow> rsCandidateCount result' = rsCandidateCount result \<Longrightarrow> rsCandidateBytes result' = rsCandidateBytes result
    \<Longrightarrow> rsDeletedCount result' = rsDeletedCount result \<Longrightarrow> rsRemainingCount result' = rsRemainingCount result
    \<Longrightarrow> wp (deleteRow ops request result') (\<lambda>out w. progress result (Suc 0) out) w"
  unfolding deleteRow_def wp_rules
  by (auto intro!: any_call simp: wp_rules abort_progress commitCandidate_progress split: option.split)

lemma removeFile_keeps:
  "wp (removeFile ops candidate result) (\<lambda>(result', err) w. rsPlan result' = rsPlan result \<and> rsCandidateCount result' = rsCandidateCount result
     \<and> rsCandidateBytes result' = rsCandidateBytes result \<and> rsDeletedCount result' = rsDeletedCount result
     \<and> rsRemainingCount result' = rsRemainingCount result) w"
  unfolding removeFile_def wp_rules by (auto intro!: any_call simp: wp_rules split: option.split)

lemma deleteCandidate_progress: "wp (deleteCandidate ops request head candidate result) (\<lambda>out w. progress result (Suc 0) out) w"
  unfolding deleteCandidate_def wp_rules
  by (auto intro!: any_call wp_mono [OF removeFile_keeps] simp: wp_rules abort_progress deleteRow_progress finishFailure_progress split: option.split)

lemma progress_trans:
  "progress result (Suc 0) (result1, None) \<Longrightarrow> progress result1 n out \<Longrightarrow> progress result (Suc n) out"
  by (auto simp: progress_def split: prod.splits)

lemma deleteCandidates_progress:
  "wp (deleteCandidates ops request head cs result) (\<lambda>out w. progress result (length cs) out) w"
proof (induction cs arbitrary: result w)
  case Nil
  then show ?case by (simp add: wp_rules progress_def)
next
  case (Cons c cs)
  have stop: "progress result (Suc 0) (r1, Some e) \<Longrightarrow> progress result (Suc (length cs)) (r1, Some e)" for r1 e
    by (auto simp: progress_def)
  have go: "wp (deleteCandidates ops request head cs r1) (\<lambda>out w. progress result (Suc (length cs)) out) v"
    if "progress result (Suc 0) (r1, None)" for r1 v
    by (rule wp_mono [OF Cons.IH]) (rule progress_trans [OF that])
  show ?case
    unfolding deleteCandidates.simps wp_rules
    by (rule wp_mono [OF deleteCandidate_progress])
      (auto simp: wp_rules stop go split: option.split)
qed

text \<open>The contract of the whole collection: what a result and its error tell the caller.\<close>

definition gcContract :: "gc_env \<Rightarrow> gcRequest \<Rightarrow> gcResult \<times> gc_error option \<Rightarrow> bool" where
  "gcContract env request outcome \<longleftrightarrow> (case outcome of (result, err) \<Rightarrow>
     0 \<le> rsDeletedCount result \<and> rsDeletedCount result + rsRemainingCount result = rsCandidateCount result
     \<and> rsDeletedCount result \<le> rsCandidateCount result
     \<and> (rsCandidateCount result \<noteq> 0 \<longrightarrow> (\<exists>plan. rsPlan result = Some plan \<and> rsCandidateCount result = int (length (gpCandidates plan))))
     \<and> (\<not> rqApply request \<longrightarrow> \<not> mutated result)
     \<and> (\<forall>plan. mutated result \<and> rsPlan result = Some plan \<longrightarrow> rqConfirm request = gpDigest plan)
     \<and> (err \<noteq> None \<and> mutated result \<longrightarrow> (\<exists>cause. err = Some (PartialError cause)))
     \<and> (err = None \<longrightarrow> (\<exists>plan. rsPlan result = Some plan \<and> gcPlan_Validate env plan = ok
          \<and> rsDeletedCount result = (if rqApply request then int (length (gpCandidates plan)) else 0))))"

lemma fresh_contract:
  assumes "progress (freshResult plan bytes) (length (gpCandidates plan)) (result, err)"
    and "rqApply request" and "rqConfirm request = gpDigest plan" and "gcPlan_Validate env plan = ok"
  shows "gcContract env request (result, err)"
  using assms by (auto simp: gcContract_def progress_def freshResult_def zeroResult_def)

lemma fresh_stopped:
  "gcPlan_Validate env plan = ok \<Longrightarrow> err = None \<longrightarrow> \<not> rqApply request \<Longrightarrow> gcContract env request (freshResult plan bytes, err)"
  by (auto simp: gcContract_def freshResult_def zeroResult_def mutated_def)

lemma zero_contract: "gcContract env request (zeroResult, Some e)"
  by (simp add: gcContract_def zeroResult_def mutated_def)

lemma contract_validates:
  assumes "progress (freshResult plan bytes) (length (gpCandidates plan)) (result, err)" and "gcPlan_Validate env plan = ok" and "0 \<le> bytes"
  shows "gcResult_Validate env result = ok"
  using assms by (auto simp: gcResult_Validate_def progress_def freshResult_def zeroResult_def)

lemma applyPlan_contract:
  assumes "rqApply request" and "rqConfirm request = gpDigest plan" and "gcPlan_Validate env plan = ok" and "0 \<le> bytes"
  shows "wp (applyPlan env ops request plan (freshResult plan bytes)) (\<lambda>out w. gcContract env request out) w"
proof -
  let ?P = "progress (freshResult plan bytes) (length (gpCandidates plan))"
  have done_ok: "gcContract env request (r, checked (gcResult_Validate env r))" if "?P (r, None)" for r
    using contract_validates [OF that assms(3,4)] fresh_contract [OF that assms(1-3)] by (simp add: checked_def)
  have flag: "?P (r\<lparr>rsMaintenanceIncomplete := b\<rparr>, None)" if "?P (r, None)" for r b
    using that by (simp add: progress_def)
  have failed: "gcContract env request (finishFailure r e)" if "?P (r, None)" for r e
  proof -
    have "?P (finishFailure r e)" using that by (auto simp: progress_def finishFailure_def)
    then show ?thesis unfolding finishFailure_def by (rule fresh_contract [OF _ assms(1-3)])
  qed
  have stopped: "gcContract env request (r, Some e)" if "?P (r, Some e)" for r e
    using that by (rule fresh_contract [OF _ assms(1-3)])
  show ?thesis
    unfolding applyPlan_def wp_rules
    by (auto intro!: any_call wp_mono [OF deleteCandidates_progress]
      simp: wp_rules Let_def done_ok flag failed stopped fresh_stopped assms split: option.split)
qed

lemma afterPlan_contract:
  assumes "gcPlan_Validate env plan = ok" and "0 \<le> bytes"
  shows "wp (afterPlan env ops request plan bytes) (\<lambda>out w. gcContract env request out) w"
proof -
  have valid: "checked (gcResult_Validate env (freshResult plan bytes)) = None"
    using assms by (simp add: checked_def gcResult_Validate_def freshResult_def zeroResult_def andThen_def reject_def)
  show ?thesis
    unfolding afterPlan_def wp_rules Let_def
    by (auto intro!: any_call applyPlan_contract simp: wp_rules valid zero_contract fresh_stopped assms split: option.split)
qed

lemma executeBody_contract: "wp (executeBody env present ops request) (\<lambda>out w. gcContract env request out) w"
  unfolding executeBody_def wp_rules
  by (auto intro!: any_call simp: wp_rules zero_contract afterPlan_contract buildPlan_ok split: option.split sum.split)

lemma Execute_contract: "wp (Execute env present ops request) (\<lambda>out w. gcContract env request out) w"
  unfolding Execute_def wp_rules
  by (rule wp_mono [OF executeBody_contract]) (auto intro!: any_call simp: wp_rules)

section \<open>What a provider promises\<close>

text \<open>
  \<open>idle\<close> is an invariant of the world between transactions. A run without \<^verbatim>\<open>--apply\<close> needs the reading
  operations only (\<open>gc_reader\<close>). A provider for a run that deletes has another invariant \<open>ready c\<close> inside the transaction of
  a candidate: a transaction that was begun is closed on every path, and the file of a candidate is
  removed only inside its transaction.
\<close>

locale gc_reader =
  fixes ops :: "'w gc_ops" and idle :: "'w \<Rightarrow> bool"
  assumes verify_idle: "idle w \<Longrightarrow> wp (opVerify ops) (\<lambda>r. idle) w"
    and walk: "idle w \<Longrightarrow> wp (opWalkFinal ops residentID) (\<lambda>r. idle) w"
    and capture: "idle w \<Longrightarrow> wp (opCapture ops residentID objects) (\<lambda>r. idle) w"
    and orphans: "idle w \<Longrightarrow> wp (opSetFinalOrphanCount ops n) (\<lambda>r. idle) w"
    and finished: "idle w \<Longrightarrow> wp (opOperationFinished ops outcome) (\<lambda>r. idle) w"
begin

lemma boundary_idle: "idle w \<Longrightarrow> wp (verifyBoundary ops request) (\<lambda>r. idle) w"
  unfolding verifyBoundary_def wp_rules by (simp add: wp_rules wp_mono [OF verify_idle])

lemma plan_only:
  assumes "idle w" and "\<And>plan bytes v. idle v \<Longrightarrow> wp (afterPlan env ops request plan bytes) (\<lambda>r. idle) v"
  shows "wp (executeBody env present ops request) (\<lambda>r. idle) w"
  unfolding executeBody_def wp_rules
  by (auto simp: wp_rules assms intro!: wp_mono [OF boundary_idle] wp_mono [OF walk] wp_mono [OF capture] split: option.split sum.split)

lemma dry_run: "idle w \<Longrightarrow> \<not> rqApply request \<Longrightarrow> wp (Execute env present ops request) (\<lambda>r. idle) w"
  unfolding Execute_def wp_rules
  by (rule wp_mono [OF plan_only])
    (auto simp: afterPlan_def wp_rules Let_def intro!: wp_mono [OF orphans] wp_mono [OF boundary_idle] wp_mono [OF finished] split: option.split)

end

locale gc_provider = gc_reader ops idle for ops :: "'w gc_ops" and idle :: "'w \<Rightarrow> bool" +
  fixes ready :: "gcCandidate \<Rightarrow> 'w \<Rightarrow> bool"
  assumes begin_candidate: "idle w \<Longrightarrow> wp (opBeginCandidate ops c head) (\<lambda>r w'. case r of None \<Rightarrow> ready c w' | Some e \<Rightarrow> idle w') w"
    and remove_final: "ready c w \<Longrightarrow> gcFilesystem c = Some object \<Longrightarrow> wp (opRemoveFinal ops object) (\<lambda>r. ready c) w"
    and delete_sqlite: "ready c w \<Longrightarrow> wp (opDeleteSQLite ops) (\<lambda>r. ready c) w"
    and commit: "ready c w \<Longrightarrow> wp (opCommit ops) (\<lambda>r. idle) w"
    and rollback: "ready c w \<Longrightarrow> wp (opRollback ops) (\<lambda>r. idle) w"
    and verify_ready: "ready c w \<Longrightarrow> wp (opVerify ops) (\<lambda>r. ready c) w"
    and failpoint_ready: "ready c w \<Longrightarrow> wp (opFailpoint ops name) (\<lambda>r. ready c) w"
    and failpoint_idle: "idle w \<Longrightarrow> wp (opFailpoint ops name) (\<lambda>r. idle) w"
    and maintenance: "idle w \<Longrightarrow> wp (opMaintenance ops) (\<lambda>r. idle) w"
begin

lemma boundary_ready: "ready c w \<Longrightarrow> wp (verifyBoundary ops request) (\<lambda>r. ready c) w"
  unfolding verifyBoundary_def wp_rules by (simp add: wp_rules wp_mono [OF verify_ready])

lemma invoke_ready: "ready c w \<Longrightarrow> wp (invokeFailpoint ops request name) (\<lambda>r. ready c) w"
  by (simp add: invokeFailpoint_def wp_rules failpoint_ready)

lemma invoke_idle: "idle w \<Longrightarrow> wp (invokeFailpoint ops request name) (\<lambda>r. idle) w"
  by (simp add: invokeFailpoint_def wp_rules failpoint_idle)

lemma abort_idle: "ready c w \<Longrightarrow> wp (abort ops result cause) (\<lambda>r. idle) w"
  unfolding abort_def wp_rules by (rule rollback)

lemma removeFile_ready: "ready c w \<Longrightarrow> wp (removeFile ops c result) (\<lambda>r. ready c) w"
  unfolding removeFile_def wp_rules
  by (auto simp: wp_rules intro: wp_mono [OF remove_final] split: option.split)

lemma commitCandidate_idle: "ready c w \<Longrightarrow> wp (commitCandidate ops request removed result) (\<lambda>r. idle) w"
  unfolding commitCandidate_def wp_rules Let_def
  by (rule wp_mono [OF commit]) (auto simp: wp_rules intro!: wp_mono [OF boundary_idle] wp_mono [OF invoke_idle] split: option.split)

lemma deleteRow_idle: "ready c w \<Longrightarrow> wp (deleteRow ops request result) (\<lambda>r. idle) w"
  unfolding deleteRow_def wp_rules
  by (rule wp_mono [OF delete_sqlite])
    (auto simp: wp_rules abort_idle [of c] commitCandidate_idle [of c]
      intro!: wp_mono [OF boundary_ready [of c]] wp_mono [OF invoke_ready [of c]] split: option.split)

lemma deleteCandidate_idle: "idle w \<Longrightarrow> wp (deleteCandidate ops request head c result) (\<lambda>r. idle) w"
  unfolding deleteCandidate_def wp_rules
  by (rule wp_mono [OF begin_candidate])
    (auto simp: wp_rules abort_idle [of c] deleteRow_idle [of c]
      intro!: wp_mono [OF boundary_ready [of c]] wp_mono [OF invoke_ready [of c]] wp_mono [OF removeFile_ready [of c]] split: option.splits)

lemma deleteCandidates_idle: "idle w \<Longrightarrow> wp (deleteCandidates ops request head cs result) (\<lambda>r. idle) w"
proof (induction cs arbitrary: result w)
  case (Cons c cs)
  show ?case
    unfolding deleteCandidates.simps wp_rules
    by (rule wp_mono [OF deleteCandidate_idle [OF Cons.prems]]) (auto simp: wp_rules Cons.IH split: option.split)
qed (simp add: wp_rules)

lemma applyPlan_idle: "idle w \<Longrightarrow> wp (applyPlan env ops request plan result) (\<lambda>r. idle) w"
  unfolding applyPlan_def wp_rules
  by (auto simp: wp_rules Let_def intro!: wp_mono [OF invoke_idle] wp_mono [OF deleteCandidates_idle] wp_mono [OF maintenance]
      wp_mono [OF boundary_idle] split: option.split)

lemma afterPlan_idle: "idle w \<Longrightarrow> wp (afterPlan env ops request plan bytes) (\<lambda>r. idle) w"
  unfolding afterPlan_def wp_rules
  by (auto simp: wp_rules Let_def intro!: wp_mono [OF orphans] wp_mono [OF boundary_idle] applyPlan_idle split: option.split)

lemma Execute_idle: "idle w \<Longrightarrow> wp (Execute env present ops request) (\<lambda>r. idle) w"
  unfolding Execute_def wp_rules
  by (rule wp_mono [OF plan_only [OF _ afterPlan_idle]]) (auto simp: wp_rules intro: wp_mono [OF finished])

end

end
