(* ===== verification/Blob_GC_Repository.thy ===== *)
theory Blob_GC_Repository
  imports Blob_GC_Execute
begin

text \<open>
  The SQLite side of the collector (\<^verbatim>\<open>internal/store/sqlite/blob_gc.go\<close>). The database is the tables the
  collector reads, as lists of rows; a query is the function of the rows that its SQL text says. The world has a
  script of faults, consumed one per call of the driver, and a script of what other connections commit
  before the next transaction begins: a writer transaction is \<^verbatim>\<open>IMMEDIATE\<close>, so nothing is committed while it is open.
  A history records every file removal and every commit with the database at that moment. The check of the
  body of the reference projection (\<^verbatim>\<open>requireContentReferenceBody\<close>), the parser of identifiers and the store
  of final objects are arguments.
\<close>

section \<open>Tables\<close>

record blobRow =
  blDedupeScopeID :: string
  blHashAlgorithm :: string
  blBlobHash :: string
  blContent :: string
  blByteSize :: int

record contentObjectRow =
  coOwnerResidentID :: string
  coErasureState :: string
  coBlobHashAlgorithm :: "string option"
  coBlobHash :: "string option"

record contentReferenceRow =
  rfResidentID :: string
  rfDedupeScopeID :: "string option"
  rfBlobHashAlgorithm :: "string option"
  rfBlobHash :: "string option"

record watermarkRow =
  wmProjectionName :: string
  wmResidentID :: string
  wmProjectionVersion :: string
  wmSourceCommitSeq :: int

record commitRow =
  cmCommitID :: string
  cmCommitSeq :: int
  cmCommittedAt :: int
  cmCommittedTZ :: string

record gcDatabase =
  gdCommits :: "commitRow list"
  gdWatermarks :: "watermarkRow list"
  gdDependencies :: "(string \<times> string) list"
  gdContentObjects :: "contentObjectRow list"
  gdContentReferences :: "contentReferenceRow list"
  gdBlobs :: "blobRow list"

record store_env = gc_env +
  seParseID :: "string \<Rightarrow> ID option"
  seReferenceBody :: "gcDatabase \<Rightarrow> ID \<Rightarrow> bool"

section \<open>Queries\<close>

text \<open>\<^verbatim>\<open>ORDER BY commit_seq DESC LIMIT 1\<close>.\<close>

fun latestCommit :: "commitRow list \<Rightarrow> commitRow option" where
  "latestCommit [] = None"
| "latestCommit (row # rows) =
     (case latestCommit rows of None \<Rightarrow> Some row | Some best \<Rightarrow> Some (if cmCommitSeq best > cmCommitSeq row then best else row))"

definition emptyHead :: CapturedHead where
  "emptyHead = \<lparr>chExists = False, chCommitID = None, chCommitSeq = None, chCommittedAt = None, chCommittedTZ = None\<rparr>"

definition headOf :: "store_env \<Rightarrow> gcDatabase \<Rightarrow> (gc_error, CapturedHead) result" where
  "headOf env db =
     (case latestCommit (gdCommits db) of
        None \<Rightarrow> Inr emptyHead
      | Some row \<Rightarrow>
          (case seParseID env (cmCommitID row) of
             None \<Rightarrow> Inl (ErrContentIntegrity ''invalid head identity'')
           | Some commitID \<Rightarrow>
               (case NewCommitSeq (cmCommitSeq row) of
                  Inl _ \<Rightarrow> Inl (ErrContentIntegrity ''invalid head sequence'')
                | Inr commitSeq \<Rightarrow>
                    (case ParseTimezone (geKnownZone env) (cmCommittedTZ row) of
                       Inl _ \<Rightarrow> Inl (ErrContentIntegrity ''invalid head timezone'')
                     | Inr timezone \<Rightarrow> Inr \<lparr>chExists = True, chCommitID = Some commitID, chCommitSeq = Some commitSeq,
                         chCommittedAt = Some (cmCommittedAt row), chCommittedTZ = Some timezone\<rparr>))))"

definition findWatermark :: "store_env \<Rightarrow> gcDatabase \<Rightarrow> ID \<Rightarrow> watermarkRow option" where
  "findWatermark env db residentID =
     find (\<lambda>row. wmProjectionName row = ReferencesName \<and> wmResidentID row = geIDText env residentID) (gdWatermarks db)"

definition checkWatermark :: "store_env \<Rightarrow> gcDatabase \<Rightarrow> ID \<Rightarrow> CapturedHead \<Rightarrow> (gc_error, unit) result" where
  "checkWatermark env db residentID head =
     (case findWatermark env db residentID of
        None \<Rightarrow> Inl (ErrProjectionNotCurrent ''watermark is missing'')
      | Some row \<Rightarrow> reject (wmProjectionVersion row \<noteq> ReferencesVersion \<or> chCommitSeq head \<noteq> Some (wmSourceCommitSeq row))
          (ErrProjectionNotCurrent ''watermark version or head differs''))"

definition dependencyCount :: "store_env \<Rightarrow> gcDatabase \<Rightarrow> ID \<Rightarrow> nat" where
  "dependencyCount env db residentID = length (filter (\<lambda>row. row = (ReferencesName, geIDText env residentID)) (gdDependencies db))"

text \<open>The hashes of the rows that refer to a blob of the resident; \<^verbatim>\<open>NULL\<close> is equal to nothing.\<close>

definition authoritativeHashes :: "store_env \<Rightarrow> gcDatabase \<Rightarrow> ID \<Rightarrow> string option list" where
  "authoritativeHashes env db residentID = map coBlobHash (filter (\<lambda>row. coOwnerResidentID row = geIDText env residentID
     \<and> coErasureState row = ''present'' \<and> coBlobHashAlgorithm row = Some ''sha256'') (gdContentObjects db))"

definition projectedHashes :: "store_env \<Rightarrow> gcDatabase \<Rightarrow> ID \<Rightarrow> string option list" where
  "projectedHashes env db residentID = map rfBlobHash (filter (\<lambda>row. rfResidentID row = geIDText env residentID
     \<and> rfDedupeScopeID row = Some (geIDText env residentID) \<and> rfBlobHashAlgorithm row = Some ''sha256'' \<and> rfBlobHash row \<noteq> None)
     (gdContentReferences db))"

text \<open>\<^verbatim>\<open>GROUP BY blob_hash\<close>; the order of the groups cannot be seen, since every group sets the count of its own locator.\<close>

definition groupCounts :: "string option list \<Rightarrow> (string option \<times> int) list" where
  "groupCounts hashes = map (\<lambda>h. (h, int (count_list hashes h))) (remdups hashes)"

text \<open>A scanned \<^verbatim>\<open>NULL\<close> is the empty byte slice, which is no digest.\<close>

definition applyCount :: "(int \<Rightarrow> LocatorState \<Rightarrow> LocatorState) \<Rightarrow> LocatorState list \<Rightarrow> string option \<times> int \<Rightarrow> (gc_error, LocatorState list) result" where
  "applyCount assign locators grouped =
     (case DigestFromBytes (case fst grouped of None \<Rightarrow> [] | Some raw \<Rightarrow> raw) of
        Inl _ \<Rightarrow> Inl (ErrContentIntegrity ''invalid reference locator/n'')
      | Inr digest \<Rightarrow>
          andThen (reject (snd grouped \<le> 0) (ErrContentIntegrity ''invalid reference locator/n''))
          (Inr (map (\<lambda>loc. if lsDigest loc = digest then assign (snd grouped) loc else loc) locators)))"

definition setAuthoritative :: "int \<Rightarrow> LocatorState \<Rightarrow> LocatorState" where
  "setAuthoritative n loc = loc\<lparr>lsAuthoritativeReferences := n\<rparr>"

definition setProjected :: "int \<Rightarrow> LocatorState \<Rightarrow> LocatorState" where
  "setProjected n loc = loc\<lparr>lsProjectionReferences := n\<rparr>"

definition attachCounts :: "(int \<Rightarrow> LocatorState \<Rightarrow> LocatorState) \<Rightarrow> string option list \<Rightarrow> LocatorState list \<Rightarrow> (gc_error, LocatorState list) result" where
  "attachCounts assign hashes locators = foldE (applyCount assign) locators (groupCounts hashes)"

definition blobBefore :: "blobRow \<Rightarrow> blobRow \<Rightarrow> bool" where
  "blobBefore a b \<longleftrightarrow> (if blHashAlgorithm a \<noteq> blHashAlgorithm b then blHashAlgorithm a < blHashAlgorithm b else blBlobHash a < blBlobHash b)"

definition residentBlobs :: "store_env \<Rightarrow> gcDatabase \<Rightarrow> ID \<Rightarrow> blobRow list" where
  "residentBlobs env db residentID = slice_stable blobBefore (filter (\<lambda>row. blDedupeScopeID row = geIDText env residentID) (gdBlobs db))"

text \<open>One row of the blob table: the locator, the hash and the size are checked, and the locator is new.\<close>

definition scanBlob :: "store_env \<Rightarrow> ID \<Rightarrow> LocatorState list \<Rightarrow> blobRow \<Rightarrow> (gc_error, LocatorState list) result" where
  "scanBlob env residentID locators row =
     (case DigestFromBytes (blBlobHash row) of
        Inl _ \<Rightarrow> Inl (ErrContentIntegrity ''invalid SQLite blob locator'')
      | Inr digest \<Rightarrow>
          andThen (reject (blHashAlgorithm row \<noteq> HashAlgorithm) (ErrContentIntegrity ''invalid SQLite blob locator''))
         (andThen (reject (geSha env (blContent row) \<noteq> digest \<or> int (length (blContent row)) \<noteq> blByteSize row
             \<or> (case NewByteSize (blByteSize row) of Inl _ \<Rightarrow> True | Inr _ \<Rightarrow> False))
            (ErrContentIntegrity ''SQLite blob hash or size mismatch''))
         (andThen (reject (digest \<in> lsDigest ` set locators) (ErrContentIntegrity ''duplicate SQLite locator''))
         (Inr (locators @ [\<lparr>lsResidentID = residentID, lsHashAlgorithm = blHashAlgorithm row, lsDigest = digest, lsSQLitePresent = True,
            lsSQLiteByteSize = Some (blByteSize row), lsAuthoritativeReferences = 0, lsProjectionReferences = 0\<rparr>])))))"

definition addObject :: "ID \<Rightarrow> LocatorState list \<Rightarrow> FinalObject \<Rightarrow> (gc_error, LocatorState list) result" where
  "addObject residentID locators object =
     andThen (reject (foResidentID object \<noteq> residentID \<or> FinalObject_HashAlgorithm object \<noteq> HashAlgorithm)
       (ErrContentIntegrity ''cross-scope filesystem locator''))
     (Inr (if foDigest object \<in> lsDigest ` set locators then locators
           else locators @ [\<lparr>lsResidentID = residentID, lsHashAlgorithm = HashAlgorithm, lsDigest = foDigest object, lsSQLitePresent = False,
             lsSQLiteByteSize = None, lsAuthoritativeReferences = 0, lsProjectionReferences = 0\<rparr>]))"

section \<open>The world\<close>

datatype fault = Works | Fails | FailsApplied

datatype gcEvent =
    FileRemoval FinalObject gcDatabase
  | Committed gcCandidate gcDatabase gcDatabase

record blobGCCandidateTx =
  txDatabase :: gcDatabase
  txCandidate :: gcCandidate
  txClosed :: bool

record 'f gcWorld =
  gwDatabase :: gcDatabase
  gwFiles :: 'f
  gwReader :: bool
  gwWriter :: bool
  gwGateHeld :: bool
  gwTransaction :: "blobGCCandidateTx option"
  gwFaults :: "fault list"
  gwOthers :: "(gcDatabase \<Rightarrow> gcDatabase) list"
  gwHistory :: "gcEvent list"

definition nextFault :: "('f gcWorld, fault) state" where
  "nextFault = State (\<lambda>w. case gwFaults w of [] \<Rightarrow> (Works, w) | f # fs \<Rightarrow> (f, w\<lparr>gwFaults := fs\<rparr>))"

definition driverCall :: "string \<Rightarrow> ('f gcWorld, gc_error option) state" where
  "driverCall what = do { f \<leftarrow> nextFault; State_Monad.return (if f = Works then None else Some (GCFailure what)) }"

text \<open>A query that yields \<open>r\<close> on the rows, or fails with \<open>e\<close>.\<close>

definition query :: "(gc_error, 'a) result \<Rightarrow> gc_error \<Rightarrow> ('f gcWorld, (gc_error, 'a) result) state" where
  "query r e = do { f \<leftarrow> nextFault; State_Monad.return (if f = Works then r else Inl e) }"

text \<open>A transaction sees what other connections have committed before it began.\<close>

definition beginTx :: "('f gcWorld, gc_error option) state" where
  "beginTx = do {
     f \<leftarrow> nextFault;
     if f \<noteq> Works then State_Monad.return (Some (GCFailure ''begin''))
     else do {
       _ \<leftarrow> modify (\<lambda>w. case gwOthers w of [] \<Rightarrow> w | step # steps \<Rightarrow> w\<lparr>gwDatabase := step (gwDatabase w), gwOthers := steps\<rparr>);
       State_Monad.return None } }"

definition acquireGate :: "('f gcWorld, gc_error option) state" where
  "acquireGate = do {
     f \<leftarrow> nextFault;
     if f \<noteq> Works then State_Monad.return (Some (GCFailure ''acquire''))
     else do { _ \<leftarrow> modify (\<lambda>w. w\<lparr>gwGateHeld := True\<rparr>); State_Monad.return None } }"

definition releaseHeld :: "('f gcWorld, unit) state" where
  "releaseHeld = modify (\<lambda>w. w\<lparr>gwGateHeld := False\<rparr>)"

section \<open>The snapshot\<close>

definition captureBlobGCHead :: "store_env \<Rightarrow> gcDatabase \<Rightarrow> ('f gcWorld, (gc_error, CapturedHead) result) state" where
  "captureBlobGCHead env db = query (headOf env db) (ErrSourceUnavailable ''capture Canonical head'')"

definition requireBlobGCWatermark :: "store_env \<Rightarrow> gcDatabase \<Rightarrow> ID \<Rightarrow> CapturedHead \<Rightarrow> ('f gcWorld, (gc_error, unit) result) state" where
  "requireBlobGCWatermark env db residentID head =
     attemptE (query (checkWatermark env db residentID head) (ErrProjectionNotCurrent ''read watermark'')) (\<lambda>e. State_Monad.return (Inl e))
    (\<lambda>_. attemptE (query (reject (dependencyCount env db residentID \<noteq> 0) (ErrProjectionNotCurrent ''v1 dependency set is not empty''))
        (ErrProjectionNotCurrent ''read watermark dependencies'')) (\<lambda>e. State_Monad.return (Inl e))
    (\<lambda>_. query (reject (\<not> seReferenceBody env db residentID) (ErrProjectionNotCurrent ''Projection body differs''))
        (ErrProjectionNotCurrent ''Projection body differs'')))"

definition attachBlobGCReferenceCounts ::
    "store_env \<Rightarrow> gcDatabase \<Rightarrow> ID \<Rightarrow> LocatorState list \<Rightarrow> ('f gcWorld, (gc_error, LocatorState list) result) state" where
  "attachBlobGCReferenceCounts env db residentID locators =
     attemptE (query (attachCounts setAuthoritative (authoritativeHashes env db residentID) locators)
        (ErrSourceUnavailable ''read reference counts'')) (\<lambda>e. State_Monad.return (Inl e))
     (\<lambda>counted. query (attachCounts setProjected (projectedHashes env db residentID) counted)
        (ErrSourceUnavailable ''read reference counts''))"

definition hexBefore :: "LocatorState \<Rightarrow> LocatorState \<Rightarrow> bool" where
  "hexBefore left right \<longleftrightarrow> Digest_Hex (lsDigest left) < Digest_Hex (lsDigest right)"

definition captureSnapshot ::
    "store_env \<Rightarrow> gcDatabase \<Rightarrow> ID \<Rightarrow> FinalObject list \<Rightarrow> ('f gcWorld, (gc_error, gcSnapshot) result) state" where
  "captureSnapshot env db residentID files =
     attemptE (captureBlobGCHead env db) (\<lambda>e. State_Monad.return (Inl e))
     (\<lambda>head.
        if \<not> chExists head then State_Monad.return (Inl (ErrProjectionNotCurrent ''empty Canonical head''))
        else attemptE (requireBlobGCWatermark env db residentID head) (\<lambda>e. State_Monad.return (Inl e))
        (\<lambda>_. attemptE (query (foldE (scanBlob env residentID) [] (residentBlobs env db residentID)) (ErrSourceUnavailable ''read SQLite blobs''))
               (\<lambda>e. State_Monad.return (Inl e))
        (\<lambda>present.
           (case foldE (addObject residentID) present files of
              Inl e \<Rightarrow> State_Monad.return (Inl e)
            | Inr locators \<Rightarrow>
                attemptE (attachBlobGCReferenceCounts env db residentID locators) (\<lambda>e. State_Monad.return (Inl e))
                (\<lambda>counted. State_Monad.return (Inr \<lparr>snCapturedHead = head, snProjectionName = ReferencesName,
                   snProjectionVersion = ReferencesVersion, snDependencyVersions = [], snLocators = slice_stable hexBefore counted\<rparr>))))))"

definition Capture :: "store_env \<Rightarrow> ID \<Rightarrow> FinalObject list \<Rightarrow> ('f gcWorld, (gc_error, gcSnapshot) result) state" where
  "Capture env residentID files = do {
     reader \<leftarrow> gets gwReader;
     if \<not> reader then State_Monad.return (Inl (ErrSourceUnavailable ''SQLite repository is unavailable''))
     else (case ID_Validate residentID of
       Inl e \<Rightarrow> State_Monad.return (Inl (GCCanonical e))
     | Inr _ \<Rightarrow>
         attempt beginTx (\<lambda>_. State_Monad.return (Inl (ErrSourceUnavailable ''begin read snapshot'')))
         (do {
            db \<leftarrow> gets gwDatabase;
            attemptE (captureSnapshot env db residentID files)
              (\<lambda>e. do { rollbackErr \<leftarrow> driverCall ''rollback''; State_Monad.return (Inl (joinErrors e rollbackErr)) })
              (\<lambda>sn. attempt (driverCall ''commit'') (\<lambda>_. State_Monad.return (Inl (ErrSourceUnavailable ''close read snapshot'')))
                 (State_Monad.return (Inr sn))) })) }"

section \<open>The transaction of a candidate\<close>

definition failCandidate :: "gc_error \<Rightarrow> gc_error option \<Rightarrow> ('f gcWorld, gc_error option) state" where
  "failCandidate e cause = do {
     rollbackErr \<leftarrow> driverCall ''rollback'';
     _ \<leftarrow> releaseHeld;
     State_Monad.return (Some (joinErrors (joinErrors e rollbackErr) cause)) }"

definition referenceCount :: "string option list \<Rightarrow> Digest \<Rightarrow> nat" where
  "referenceCount hashes digest = count_list hashes (Some digest)"

text \<open>The counts of the candidate use its own algorithm, which \<open>gcCandidate_Validate\<close> has fixed to \<^verbatim>\<open>sha256\<close>.\<close>

definition blobGCZeroCounts :: "store_env \<Rightarrow> gcDatabase \<Rightarrow> gcCandidate \<Rightarrow> ('f gcWorld, (gc_error, nat \<times> nat) result) state" where
  "blobGCZeroCounts env db candidate =
     attemptE (query (Inr (referenceCount (authoritativeHashes env db (cwResidentID candidate)) (gcDigest candidate))) (GCFailure ''count content objects''))
       (\<lambda>e. State_Monad.return (Inl e))
     (\<lambda>authoritative.
        attemptE (query (Inr (referenceCount (projectedHashes env db (cwResidentID candidate)) (gcDigest candidate))) (GCFailure ''count content references''))
          (\<lambda>e. State_Monad.return (Inl e))
        (\<lambda>projected. State_Monad.return (Inr (authoritative, projected))))"

definition isCandidateBlob :: "store_env \<Rightarrow> gcCandidate \<Rightarrow> blobRow \<Rightarrow> bool" where
  "isCandidateBlob env candidate row \<longleftrightarrow> blDedupeScopeID row = geIDText env (cwResidentID candidate)
     \<and> blHashAlgorithm row = cwHashAlgorithm candidate \<and> blBlobHash row = gcDigest candidate"

definition checkCopy :: "store_env \<Rightarrow> gcDatabase \<Rightarrow> gcCandidate \<Rightarrow> ('f gcWorld, (gc_error \<times> gc_error option, unit) result) state" where
  "checkCopy env db candidate = do {
     f \<leftarrow> nextFault;
     let row = find (isCandidateBlob env candidate) (gdBlobs db);
     State_Monad.return
       (if cwSQLitePresent candidate then
          (if f \<noteq> Works then Inl (ErrPlanStale ''SQLite copy changed'', Some (GCFailure ''read blob''))
           else case row of
             None \<Rightarrow> Inl (ErrPlanStale ''SQLite copy changed'', Some (GCFailure ''no rows''))
           | Some r \<Rightarrow> if geSha env (blContent r) \<noteq> gcDigest candidate \<or> cwSQLiteByteSize candidate = None
                 \<or> int (length (blContent r)) \<noteq> blByteSize r \<or> Some (blByteSize r) \<noteq> cwSQLiteByteSize candidate
               then Inl (ErrContentIntegrity ''SQLite content changed'', None) else Inr ())
        else if f \<noteq> Works then Inl (ErrPlanStale ''SQLite presence changed'', Some (GCFailure ''read blob''))
        else if row \<noteq> None then Inl (ErrPlanStale ''SQLite presence changed'', None) else Inr ()) }"

definition checkCandidate :: "store_env \<Rightarrow> gcDatabase \<Rightarrow> gcCandidate \<Rightarrow> CapturedHead \<Rightarrow> ('f gcWorld, (gc_error \<times> gc_error option, unit) result) state" where
  "checkCandidate env db candidate expectedHead =
     attemptE (captureBlobGCHead env db) (\<lambda>e. State_Monad.return (Inl (ErrPlanStale ''Canonical head changed'', Some e)))
     (\<lambda>head.
        if \<not> CapturedHead_Equal (geKnownZone env) head expectedHead then State_Monad.return (Inl (ErrPlanStale ''Canonical head changed'', None))
        else attemptE (requireBlobGCWatermark env db (cwResidentID candidate) head) (\<lambda>e. State_Monad.return (Inl (e, None)))
        (\<lambda>_. attemptE (blobGCZeroCounts env db candidate) (\<lambda>e. State_Monad.return (Inl (ErrPlanStale ''locator is referenced'', Some e)))
        (\<lambda>(authoritative, projected).
           if authoritative \<noteq> 0 \<or> projected \<noteq> 0 then State_Monad.return (Inl (ErrPlanStale ''locator is referenced'', None))
           else checkCopy env db candidate)))"

definition BeginCandidate :: "store_env \<Rightarrow> gcCandidate \<Rightarrow> CapturedHead \<Rightarrow> ('f gcWorld, gc_error option) state" where
  "BeginCandidate env candidate expectedHead = do {
     writer \<leftarrow> gets gwWriter;
     if \<not> writer then State_Monad.return (Some (ErrSourceUnavailable ''SQLite repository is unavailable''))
     else (case gcCandidate_Validate candidate of
       Inl e \<Rightarrow> State_Monad.return (Some e)
     | Inr _ \<Rightarrow>
         attempt acquireGate (\<lambda>e. State_Monad.return (Some e))
        (attempt beginTx (\<lambda>e. do { _ \<leftarrow> releaseHeld; State_Monad.return (Some e) })
        (do {
           db \<leftarrow> gets gwDatabase;
           attemptE (checkCandidate env db candidate expectedHead) (\<lambda>(e, cause). failCandidate e cause)
           (\<lambda>_. do {
              _ \<leftarrow> modify (\<lambda>w. w\<lparr>gwTransaction := Some \<lparr>txDatabase = db, txCandidate = candidate, txClosed = False\<rparr>\<rparr>);
              State_Monad.return None }) }))) }"

definition withoutBlob :: "store_env \<Rightarrow> gcCandidate \<Rightarrow> gcDatabase \<Rightarrow> gcDatabase" where
  "withoutBlob env candidate db = db\<lparr>gdBlobs := filter (\<lambda>row. \<not> isCandidateBlob env candidate row) (gdBlobs db)\<rparr>"

definition DeleteSQLite :: "store_env \<Rightarrow> ('f gcWorld, bool \<times> gc_error option) state" where
  "DeleteSQLite env = do {
     open \<leftarrow> gets gwTransaction;
     (case open of
        None \<Rightarrow> State_Monad.return (False, Some (GCInvalid ''blob GC transaction is closed''))
      | Some transaction \<Rightarrow>
          if txClosed transaction then State_Monad.return (False, Some (GCInvalid ''blob GC transaction is closed''))
          else attempt (driverCall ''delete'') (\<lambda>e. State_Monad.return (False, Some e))
         (do {
            let candidate = txCandidate transaction;
            let n = length (filter (isCandidateBlob env candidate) (gdBlobs (txDatabase transaction)));
            _ \<leftarrow> modify (\<lambda>w. w\<lparr>gwTransaction := Some (transaction\<lparr>txDatabase := withoutBlob env candidate (txDatabase transaction)\<rparr>)\<rparr>);
            attempt (driverCall ''rows affected'') (\<lambda>e. State_Monad.return (False, Some e))
            (State_Monad.return
              (if n \<noteq> (if cwSQLitePresent candidate then 1 else 0) then (False, Some (ErrPlanStale '''')) else (n = 1, None))) })) }"

definition closeTx :: "blobGCCandidateTx \<Rightarrow> ('f gcWorld, unit) state" where
  "closeTx transaction = modify (\<lambda>w. w\<lparr>gwTransaction := Some (transaction\<lparr>txClosed := True\<rparr>)\<rparr>)"

definition CommitTx :: "('f gcWorld, gc_error option) state" where
  "CommitTx = do {
     open \<leftarrow> gets gwTransaction;
     (case open of
        None \<Rightarrow> State_Monad.return (Some (GCInvalid ''blob GC transaction is closed''))
      | Some transaction \<Rightarrow>
          if txClosed transaction then State_Monad.return (Some (GCInvalid ''blob GC transaction is closed''))
          else do {
            _ \<leftarrow> closeTx transaction;
            f \<leftarrow> nextFault;
            _ \<leftarrow> modify (\<lambda>w. if f = Fails then w
                   else w\<lparr>gwDatabase := txDatabase transaction,
                          gwHistory := gwHistory w @ [Committed (txCandidate transaction) (gwDatabase w) (txDatabase transaction)]\<rparr>);
            _ \<leftarrow> releaseHeld;
            State_Monad.return (if f = Works then None else Some (GCFailure ''commit'')) }) }"

definition RollbackTx :: "('f gcWorld, gc_error option) state" where
  "RollbackTx = do {
     open \<leftarrow> gets gwTransaction;
     (case open of
        None \<Rightarrow> State_Monad.return None
      | Some transaction \<Rightarrow>
          if txClosed transaction then State_Monad.return None
          else do {
            _ \<leftarrow> closeTx transaction;
            rollbackErr \<leftarrow> driverCall ''rollback'';
            _ \<leftarrow> releaseHeld;
            State_Monad.return rollbackErr }) }"

definition Maintenance :: "('f gcWorld, gc_error option) state" where
  "Maintenance = do {
     writer \<leftarrow> gets gwWriter;
     if \<not> writer then State_Monad.return (Some (ErrSourceUnavailable ''''))
     else attempt acquireGate (\<lambda>e. State_Monad.return (Some e))
       (do {
          checkpointErr \<leftarrow> driverCall ''wal_checkpoint'';
          vacuumErr \<leftarrow> driverCall ''incremental_vacuum'';
          _ \<leftarrow> releaseHeld;
          State_Monad.return (case checkpointErr of None \<Rightarrow> vacuumErr | Some e \<Rightarrow> Some (joinErrors e vacuumErr)) }) }"

section \<open>The operations of the collector over this store\<close>

record 'f file_ops =
  fsWalkFinal :: "ID \<Rightarrow> 'f \<Rightarrow> (walk_error, FinalObject list) result"
  fsRemoveFinal :: "FinalObject \<Rightarrow> 'f \<Rightarrow> (bool \<times> gc_error option) \<times> 'f"

definition removeLogged :: "'f file_ops \<Rightarrow> FinalObject \<Rightarrow> ('f gcWorld, bool \<times> gc_error option) state" where
  "removeLogged fs object = State (\<lambda>w. case fsRemoveFinal fs object (gwFiles w) of
     (r, files) \<Rightarrow> (r, w\<lparr>gwFiles := files, gwHistory := gwHistory w @ [FileRemoval object (gwDatabase w)]\<rparr>))"

definition sqliteOps :: "store_env \<Rightarrow> 'f file_ops \<Rightarrow> 'f gcWorld gc_ops" where
  "sqliteOps env fs = \<lparr>
     opWalkFinal = (\<lambda>residentID. gets (\<lambda>w. fsWalkFinal fs residentID (gwFiles w))),
     opRemoveFinal = removeLogged fs,
     opCapture = Capture env,
     opBeginCandidate = BeginCandidate env,
     opDeleteSQLite = DeleteSQLite env,
     opCommit = CommitTx,
     opRollback = RollbackTx,
     opMaintenance = Maintenance,
     opVerify = driverCall ''verify'',
     opFailpoint = driverCall,
     opSetFinalOrphanCount = (\<lambda>_. State_Monad.return ()),
     opOperationFinished = (\<lambda>_. State_Monad.return ())\<rparr>"

section \<open>Calls that only consume faults\<close>

lemma wp_nextFaultI: "(\<And>f fs. Q f (w\<lparr>gwFaults := fs\<rparr>)) \<Longrightarrow> wp nextFault Q w"
proof -
  assume Q: "\<And>f fs. Q f (w\<lparr>gwFaults := fs\<rparr>)"
  have "Q Works w" using Q [of Works "gwFaults w"] by simp
  with Q show ?thesis by (simp add: wp_def nextFault_def split: list.split)
qed

lemma wp_queryI: "(\<And>x fs. x = r \<or> x = Inl e \<Longrightarrow> Q x (w\<lparr>gwFaults := fs\<rparr>)) \<Longrightarrow> wp (query r e) Q w"
  unfolding query_def wp_rules by (rule wp_nextFaultI) (simp add: wp_rules)

lemma wp_driverCallI: "(\<And>x fs. Q x (w\<lparr>gwFaults := fs\<rparr>)) \<Longrightarrow> wp (driverCall what) Q w"
  unfolding driverCall_def wp_rules by (rule wp_nextFaultI) (simp add: wp_rules)

lemmas fault_calls = wp_nextFaultI wp_queryI wp_driverCallI

text \<open>What a transaction has to find in the database to go ahead with a candidate.\<close>

definition noReference :: "store_env \<Rightarrow> gcDatabase \<Rightarrow> ID \<Rightarrow> Digest \<Rightarrow> bool" where
  "noReference env db residentID digest \<longleftrightarrow> Some digest \<notin> set (authoritativeHashes env db residentID)
     \<and> Some digest \<notin> set (projectedHashes env db residentID)"

definition referencesCurrent :: "store_env \<Rightarrow> gcDatabase \<Rightarrow> ID \<Rightarrow> CapturedHead \<Rightarrow> bool" where
  "referencesCurrent env db residentID head \<longleftrightarrow> headOf env db = Inr head \<and> checkWatermark env db residentID head = ok
     \<and> dependencyCount env db residentID = 0 \<and> seReferenceBody env db residentID"

definition deletable :: "store_env \<Rightarrow> gcDatabase \<Rightarrow> gcCandidate \<Rightarrow> bool" where
  "deletable env db candidate \<longleftrightarrow> noReference env db (cwResidentID candidate) (gcDigest candidate)
     \<and> (\<exists>head. chExists head \<and> referencesCurrent env db (cwResidentID candidate) head)"

lemma referenceCount_zero [simp]: "referenceCount hashes digest = 0 \<longleftrightarrow> Some digest \<notin> set hashes"
  by (simp add: referenceCount_def count_list_0_iff)

lemma requireBlobGCWatermark_wp:
  "(\<And>x fs. x = ok \<longrightarrow> headOf env db = Inr head \<longrightarrow> referencesCurrent env db residentID head \<Longrightarrow> Q x (w\<lparr>gwFaults := fs\<rparr>))
    \<Longrightarrow> wp (requireBlobGCWatermark env db residentID head) Q w"
  unfolding requireBlobGCWatermark_def wp_rules
  by (auto intro!: fault_calls simp: wp_rules referencesCurrent_def split: sum.split)

lemma captureBlobGCHead_wp:
  "(\<And>x fs. x = headOf env db \<or> x = Inl (ErrSourceUnavailable ''capture Canonical head'') \<Longrightarrow> Q x (w\<lparr>gwFaults := fs\<rparr>))
    \<Longrightarrow> wp (captureBlobGCHead env db) Q w"
  unfolding captureBlobGCHead_def by (rule wp_queryI)

lemma blobGCZeroCounts_wp:
  "(\<And>x fs. \<forall>v. x = Inr v \<longrightarrow> v = (referenceCount (authoritativeHashes env db (cwResidentID c)) (gcDigest c),
        referenceCount (projectedHashes env db (cwResidentID c)) (gcDigest c)) \<Longrightarrow> Q x (w\<lparr>gwFaults := fs\<rparr>))
    \<Longrightarrow> wp (blobGCZeroCounts env db c) Q w"
  unfolding blobGCZeroCounts_def wp_rules by (auto intro!: fault_calls simp: wp_rules split: sum.split)

lemma checkCopy_wp: "(\<And>x fs. Q x (w\<lparr>gwFaults := fs\<rparr>)) \<Longrightarrow> wp (checkCopy env db c) Q w"
  unfolding checkCopy_def wp_rules Let_def by (rule wp_nextFaultI) (simp add: wp_rules)

lemma current_head_exists: "referencesCurrent env db residentID head \<Longrightarrow> chExists head"
  by (auto simp: referencesCurrent_def checkWatermark_def headOf_def emptyHead_def split: option.splits sum.splits)

lemma checkCandidate_wp:
  assumes "\<And>x fs. x = Inr () \<longrightarrow> deletable env db c \<Longrightarrow> Q x (w\<lparr>gwFaults := fs\<rparr>)"
  shows "wp (checkCandidate env db c expectedHead) Q w"
  unfolding checkCandidate_def wp_rules
  by (auto intro!: captureBlobGCHead_wp requireBlobGCWatermark_wp blobGCZeroCounts_wp checkCopy_wp assms
      simp: wp_rules deletable_def noReference_def split: sum.split) (blast intro: current_head_exists)

section \<open>The store keeps the contract of the collector\<close>

definition eventSafe :: "store_env \<Rightarrow> gcEvent \<Rightarrow> bool" where
  "eventSafe env event = (case event of
     FileRemoval object db \<Rightarrow> noReference env db (foResidentID object) (foDigest object)
       \<and> (\<exists>head. chExists head \<and> referencesCurrent env db (foResidentID object) head)
   | Committed candidate before after \<Rightarrow> deletable env before candidate \<and> (after = before \<or> after = withoutBlob env candidate before))"

text \<open>Between transactions: no open transaction, the write gate is free, and the history is safe.\<close>

definition quietWorld :: "store_env \<Rightarrow> 'f gcWorld \<Rightarrow> bool" where
  "quietWorld env w \<longleftrightarrow> (case gwTransaction w of None \<Rightarrow> True | Some transaction \<Rightarrow> txClosed transaction)
     \<and> \<not> gwGateHeld w \<and> list_all (eventSafe env) (gwHistory w)"

text \<open>In the transaction of a candidate: the committed database allows its deletion, and the view differs at most by it.\<close>

definition openWorld :: "store_env \<Rightarrow> gcCandidate \<Rightarrow> 'f gcWorld \<Rightarrow> bool" where
  "openWorld env c w \<longleftrightarrow> gcCandidate_Validate c = ok \<and> deletable env (gwDatabase w) c \<and> gwGateHeld w \<and> list_all (eventSafe env) (gwHistory w)
     \<and> (\<exists>view. gwTransaction w = Some \<lparr>txDatabase = view, txCandidate = c, txClosed = False\<rparr>
          \<and> (view = gwDatabase w \<or> view = withoutBlob env c (gwDatabase w)))"

lemma quiet_faults [simp]: "quietWorld env (w\<lparr>gwFaults := fs\<rparr>) = quietWorld env w"
  by (simp add: quietWorld_def)

lemma open_faults [simp]: "openWorld env c (w\<lparr>gwFaults := fs\<rparr>) = openWorld env c w"
  by (simp add: openWorld_def)

lemma wp_beginTxI:
  "(\<And>e fs. Q (Some e) (w\<lparr>gwFaults := fs\<rparr>)) \<Longrightarrow> (\<And>db others fs. Q None (w\<lparr>gwFaults := fs, gwDatabase := db, gwOthers := others\<rparr>)) \<Longrightarrow> wp beginTx Q w"
proof -
  assume fail: "\<And>e fs. Q (Some e) (w\<lparr>gwFaults := fs\<rparr>)" and go: "\<And>db others fs. Q None (w\<lparr>gwFaults := fs, gwDatabase := db, gwOthers := others\<rparr>)"
  have "Q None (w\<lparr>gwFaults := fs\<rparr>)" for fs
    using go [where fs = fs and db = "gwDatabase w" and others = "gwOthers w"] by simp
  with fail go show ?thesis
    unfolding beginTx_def wp_rules
    by (intro wp_nextFaultI) (auto simp: wp_rules split: list.split)
qed

lemma wp_acquireGateI:
  "(\<And>e fs. Q (Some e) (w\<lparr>gwFaults := fs\<rparr>)) \<Longrightarrow> (\<And>fs. Q None (w\<lparr>gwFaults := fs, gwGateHeld := True\<rparr>)) \<Longrightarrow> wp acquireGate Q w"
  unfolding acquireGate_def wp_rules by (rule wp_nextFaultI) (simp add: wp_rules)

lemma wp_failCandidateI: "(\<And>e fs. Q (Some e) (w\<lparr>gwFaults := fs, gwGateHeld := False\<rparr>)) \<Longrightarrow> wp (failCandidate e' cause) Q w"
  unfolding failCandidate_def releaseHeld_def wp_rules by (rule wp_driverCallI) (simp add: wp_rules)

lemma captureSnapshot_wp: "(\<And>x fs. Q x (w\<lparr>gwFaults := fs\<rparr>)) \<Longrightarrow> wp (captureSnapshot env db residentID files) Q w"
  unfolding captureSnapshot_def attachBlobGCReferenceCounts_def wp_rules
  by (auto intro!: fault_calls captureBlobGCHead_wp requireBlobGCWatermark_wp simp: wp_rules split: sum.split)

lemma capture_quiet: "quietWorld env w \<Longrightarrow> wp (Capture env residentID files) (\<lambda>r. quietWorld env) w"
  unfolding Capture_def wp_rules
  by (auto intro!: fault_calls wp_beginTxI captureSnapshot_wp simp: wp_rules quietWorld_def split: sum.split option.split)

lemma begin_quiet:
  "quietWorld env w \<Longrightarrow> wp (BeginCandidate env c head) (\<lambda>r w'. case r of None \<Rightarrow> openWorld env c w' | Some e \<Rightarrow> quietWorld env w') w"
  unfolding BeginCandidate_def wp_rules releaseHeld_def
  by (auto intro!: wp_acquireGateI wp_beginTxI checkCandidate_wp wp_failCandidateI
      simp: wp_rules quietWorld_def openWorld_def split: sum.splits)

lemma remove_open: "openWorld env c w \<Longrightarrow> gcFilesystem c = Some object \<Longrightarrow> wp (removeLogged fs object) (\<lambda>r. openWorld env c) w"
proof -
  assume w: "openWorld env c w" and c: "gcFilesystem c = Some object"
  then have "foResidentID object = cwResidentID c" and "foDigest object = gcDigest c"
    by (auto simp: openWorld_def gcCandidate_Validate_def candidateToken_def split: if_splits)
  with w show ?thesis
    by (auto simp: wp_def removeLogged_def openWorld_def eventSafe_def deletable_def split: prod.split)
qed

lemma delete_open: "openWorld env c w \<Longrightarrow> wp (DeleteSQLite env) (\<lambda>r. openWorld env c) w"
  unfolding DeleteSQLite_def wp_rules
  by (auto intro!: fault_calls simp: wp_rules Let_def openWorld_def withoutBlob_def split: option.split)

lemma commit_open: "openWorld env c w \<Longrightarrow> wp CommitTx (\<lambda>r. quietWorld env) w"
  unfolding CommitTx_def wp_rules closeTx_def releaseHeld_def
  by (auto intro!: fault_calls simp: wp_rules openWorld_def quietWorld_def eventSafe_def split: option.split)

lemma rollback_open: "openWorld env c w \<Longrightarrow> wp RollbackTx (\<lambda>r. quietWorld env) w"
  unfolding RollbackTx_def wp_rules closeTx_def releaseHeld_def
  by (auto intro!: fault_calls simp: wp_rules openWorld_def quietWorld_def split: option.split)

lemma maintenance_quiet: "quietWorld env w \<Longrightarrow> wp Maintenance (\<lambda>r. quietWorld env) w"
  unfolding Maintenance_def wp_rules releaseHeld_def
  by (auto intro!: fault_calls wp_acquireGateI simp: wp_rules quietWorld_def)

interpretation sqlite_gc: gc_provider "sqliteOps env fs" "quietWorld env" "openWorld env" for env fs
  by unfold_locales
    (auto simp: sqliteOps_def wp_rules capture_quiet begin_quiet remove_open delete_open commit_open rollback_open maintenance_quiet
      intro!: fault_calls)

text \<open>A run without deletion leaves the history as it was.\<close>

lemma capture_history: "gwHistory w = h \<Longrightarrow> wp (Capture env residentID files) (\<lambda>r w'. gwHistory w' = h) w"
  unfolding Capture_def wp_rules
  by (auto intro!: fault_calls wp_beginTxI captureSnapshot_wp simp: wp_rules split: sum.split option.split)

interpretation sqlite_dry: gc_reader "sqliteOps env fs" "\<lambda>w. gwHistory w = h" for env fs h
  by unfold_locales (auto simp: sqliteOps_def wp_rules capture_history intro!: fault_calls)

section \<open>What a snapshot holds\<close>

definition blobLocator :: "ID \<Rightarrow> blobRow \<Rightarrow> LocatorState" where
  "blobLocator residentID row = \<lparr>lsResidentID = residentID, lsHashAlgorithm = blHashAlgorithm row, lsDigest = blBlobHash row, lsSQLitePresent = True,
     lsSQLiteByteSize = Some (blByteSize row), lsAuthoritativeReferences = 0, lsProjectionReferences = 0\<rparr>"

definition fileLocator :: "ID \<Rightarrow> Digest \<Rightarrow> LocatorState" where
  "fileLocator residentID digest = \<lparr>lsResidentID = residentID, lsHashAlgorithm = HashAlgorithm, lsDigest = digest, lsSQLitePresent = False,
     lsSQLiteByteSize = None, lsAuthoritativeReferences = 0, lsProjectionReferences = 0\<rparr>"

lemma scanBlobs_ok:
  "foldE (scanBlob env r) ls rows = Inr ls' \<Longrightarrow> distinct (map lsDigest ls)
    \<Longrightarrow> ls' = ls @ map (blobLocator r) rows \<and> distinct (map lsDigest ls')"
proof (induction rows arbitrary: ls)
  case (Cons row rows)
  then obtain m where m: "scanBlob env r ls row = Inr m" and rest: "foldE (scanBlob env r) m rows = Inr ls'"
    by (auto split: sum.splits)
  have m_eq: "m = ls @ [blobLocator r row]" and "blBlobHash row \<notin> lsDigest ` set ls"
    using m by (auto simp: scanBlob_def blobLocator_def DigestFromBytes_def split: sum.splits if_splits)
  then have "distinct (map lsDigest m)"
    using Cons.prems(2) by (simp add: blobLocator_def)
  from Cons.IH [OF rest this] have ls': "ls' = m @ map (blobLocator r) rows" and dist: "distinct (map lsDigest ls')"
    by blast+
  show ?case
    using dist unfolding ls' m_eq by simp
qed simp

lemma addObjects_ok:
  "foldE (addObject r) ls files = Inr ls' \<Longrightarrow> distinct (map lsDigest ls)
    \<Longrightarrow> distinct (map lsDigest ls') \<and> set ls' = set ls \<union> fileLocator r ` (foDigest ` set files - lsDigest ` set ls)"
proof (induction files arbitrary: ls)
  case (Cons f files)
  then obtain m where m: "addObject r ls f = Inr m" and rest: "foldE (addObject r) m files = Inr ls'"
    by (auto split: sum.splits)
  have m_eq: "m = (if foDigest f \<in> lsDigest ` set ls then ls else ls @ [fileLocator r (foDigest f)])"
    using m by (auto simp: addObject_def fileLocator_def)
  then have "distinct (map lsDigest m)"
    using Cons.prems(2) by (simp add: fileLocator_def)
  from Cons.IH [OF rest this] have dist: "distinct (map lsDigest ls')"
    and ls': "set ls' = set m \<union> fileLocator r ` (foDigest ` set files - lsDigest ` set m)"
    by blast+
  have "set ls' = set ls \<union> fileLocator r ` (foDigest ` set (f # files) - lsDigest ` set ls)"
  proof (cases "foDigest f \<in> lsDigest ` set ls")
    case True
    then show ?thesis unfolding ls' m_eq by (simp add: insert_Diff_if)
  next
    case False
    then have "foDigest ` set (f # files) - lsDigest ` set ls = insert (foDigest f) (foDigest ` set files - insert (foDigest f) (lsDigest ` set ls))"
      by auto
    then show ?thesis unfolding ls' m_eq using False by (simp add: fileLocator_def)
  qed
  with dist show ?case by blast
qed simp

lemma applyCount_ok:
  "applyCount assign ls g = Inr ls' \<Longrightarrow> \<exists>d n. g = (Some d, n) \<and> ls' = map (\<lambda>loc. if lsDigest loc = d then assign n loc else loc) ls"
  by (cases g) (auto simp: applyCount_def DigestFromBytes_def split: option.splits if_splits sum.splits)

lemma applyCounts_ok:
  assumes "\<And>n loc. lsDigest (assign n loc) = lsDigest loc"
  shows "foldE (applyCount assign) ls gs = Inr ls' \<Longrightarrow> distinct (map fst gs)
    \<Longrightarrow> ls' = map (\<lambda>loc. case map_of gs (Some (lsDigest loc)) of None \<Rightarrow> loc | Some n \<Rightarrow> assign n loc) ls"
proof (induction gs arbitrary: ls)
  case (Cons g gs)
  then obtain m where m: "applyCount assign ls g = Inr m" and rest: "foldE (applyCount assign) m gs = Inr ls'"
    by (auto split: sum.splits)
  obtain d n where g: "g = (Some d, n)" and m_eq: "m = map (\<lambda>loc. if lsDigest loc = d then assign n loc else loc) ls"
    using applyCount_ok [OF m] by blast
  have "map_of gs (Some d) = None"
    using Cons.prems(2) g by (simp add: map_of_eq_None_iff)
  with Cons.IH [OF rest] Cons.prems(2) show ?case
    by (simp add: m_eq g assms comp_def if_distrib cong: if_cong)
qed simp

lemma map_of_groupCounts: "map_of (groupCounts hashes) h = (if h \<in> set hashes then Some (int (count_list hashes h)) else None)"
  by (simp add: groupCounts_def map_of_map_restrict restrict_map_def)

lemma attachCounts_ok:
  assumes "attachCounts assign hashes ls = Inr ls'" and "\<And>n loc. lsDigest (assign n loc) = lsDigest loc"
    and "\<And>loc. loc \<in> set ls \<Longrightarrow> assign 0 loc = loc"
  shows "ls' = map (\<lambda>loc. assign (int (referenceCount hashes (lsDigest loc))) loc) ls"
proof -
  have "ls' = map (\<lambda>loc. case map_of (groupCounts hashes) (Some (lsDigest loc)) of None \<Rightarrow> loc | Some n \<Rightarrow> assign n loc) ls"
    using assms(1) by (intro applyCounts_ok assms(2)) (simp_all add: attachCounts_def groupCounts_def comp_def)
  also have "\<dots> = map (\<lambda>loc. assign (int (referenceCount hashes (lsDigest loc))) loc) ls"
    using assms(3) by (auto simp: map_of_groupCounts referenceCount_def count_list_0_iff)
  finally show ?thesis .
qed

text \<open>The physical copies of the resident: rows of the blob table and files.\<close>

definition storedRow :: "store_env \<Rightarrow> gcDatabase \<Rightarrow> ID \<Rightarrow> Digest \<Rightarrow> blobRow option" where
  "storedRow env db residentID digest = find (\<lambda>row. blBlobHash row = digest) (residentBlobs env db residentID)"

definition expectedLocator :: "store_env \<Rightarrow> gcDatabase \<Rightarrow> ID \<Rightarrow> Digest \<Rightarrow> LocatorState" where
  "expectedLocator env db residentID digest = \<lparr>lsResidentID = residentID, lsHashAlgorithm = HashAlgorithm, lsDigest = digest,
     lsSQLitePresent = (storedRow env db residentID digest \<noteq> None), lsSQLiteByteSize = map_option blByteSize (storedRow env db residentID digest),
     lsAuthoritativeReferences = int (referenceCount (authoritativeHashes env db residentID) digest),
     lsProjectionReferences = int (referenceCount (projectedHashes env db residentID) digest)\<rparr>"

lemma expectedLocator_digest [simp]: "lsDigest (expectedLocator env db r d) = d"
  by (simp add: expectedLocator_def)

lemma expectedLocator_unreferenced [simp]: "unreferenced (expectedLocator env db r d) \<longleftrightarrow> noReference env db r d"
  by (simp add: expectedLocator_def unreferenced_def noReference_def)

definition snapshotOf :: "store_env \<Rightarrow> gcDatabase \<Rightarrow> ID \<Rightarrow> FinalObject list \<Rightarrow> gcSnapshot \<Rightarrow> bool" where
  "snapshotOf env db residentID files sn \<longleftrightarrow> referencesCurrent env db residentID (snCapturedHead sn) \<and> distinct (map lsDigest (snLocators sn))
     \<and> set (snLocators sn) = expectedLocator env db residentID
       ` (blBlobHash ` set (residentBlobs env db residentID) \<union> foDigest ` set files)"

lemma scanBlobs_algorithm: "foldE (scanBlob env r) ls rows = Inr ls' \<Longrightarrow> \<forall>row\<in>set rows. blHashAlgorithm row = HashAlgorithm"
proof (induction rows arbitrary: ls)
  case (Cons row rows)
  then obtain m where row: "scanBlob env r ls row = Inr m" and "foldE (scanBlob env r) m rows = Inr ls'"
    by (auto split: sum.splits)
  then have "\<forall>row\<in>set rows. blHashAlgorithm row = HashAlgorithm"
    by (intro Cons.IH)
  with row show ?case
    by (auto simp: scanBlob_def split: sum.splits)
qed simp

lemma find_distinct: "distinct (map f xs) \<Longrightarrow> x \<in> set xs \<Longrightarrow> find (\<lambda>y. f y = f x) xs = Some x"
proof (induction xs)
  case (Cons a xs)
  then show ?case by (cases "x = a") (auto simp: image_iff)
qed simp

lemma locators_exact:
  assumes "foldE (scanBlob env r) [] (residentBlobs env db r) = Inr present" and "foldE (addObject r) present files = Inr locators"
    and "attachCounts setAuthoritative (authoritativeHashes env db r) locators = Inr c1"
    and "attachCounts setProjected (projectedHashes env db r) c1 = Inr c2"
  shows "distinct (map lsDigest c2)"
    and "set c2 = expectedLocator env db r
       ` (blBlobHash ` set (residentBlobs env db r) \<union> foDigest ` set files)"
proof -
  let ?rows = "residentBlobs env db r"
  define counted where "counted = (\<lambda>loc. setProjected (int (referenceCount (projectedHashes env db r) (lsDigest loc)))
    (setAuthoritative (int (referenceCount (authoritativeHashes env db r) (lsDigest loc))) loc))"
  have present: "present = map (blobLocator r) ?rows" "distinct (map lsDigest present)"
    using scanBlobs_ok [OF assms(1)] by auto
  then have rows: "distinct (map blBlobHash ?rows)"
    by (simp add: comp_def blobLocator_def)
  have locs: "distinct (map lsDigest locators)"
    "set locators = blobLocator r ` set ?rows \<union> fileLocator r ` (foDigest ` set files - blBlobHash ` set ?rows)"
    using addObjects_ok [OF assms(2) present(2)] by (auto simp: present(1) image_image blobLocator_def)
  have zero: "lsAuthoritativeReferences loc = 0 \<and> lsProjectionReferences loc = 0" if "loc \<in> set locators" for loc
    using that unfolding locs(2) by (auto simp: blobLocator_def fileLocator_def)
  have c1: "c1 = map (\<lambda>loc. setAuthoritative (int (referenceCount (authoritativeHashes env db r) (lsDigest loc))) loc) locators"
    by (rule attachCounts_ok [OF assms(3)]) (simp_all add: setAuthoritative_def zero)
  have "c2 = map (\<lambda>loc. setProjected (int (referenceCount (projectedHashes env db r) (lsDigest loc))) loc) c1"
    by (rule attachCounts_ok [OF assms(4)]) (auto simp: setProjected_def setAuthoritative_def c1 zero)
  then have c2: "c2 = map counted locators"
    by (simp add: c1 counted_def comp_def setAuthoritative_def)
  show "distinct (map lsDigest c2)"
    using locs(1) by (simp add: c2 comp_def counted_def setProjected_def setAuthoritative_def)
  have algo: "blHashAlgorithm row = HashAlgorithm" if "row \<in> set ?rows" for row
    using scanBlobs_algorithm [OF assms(1)] that by blast
  have row: "storedRow env db r (blBlobHash row) = Some row" if "row \<in> set ?rows" for row
    unfolding storedRow_def by (rule find_distinct [OF rows that])
  have norow: "storedRow env db r d = None" if "d \<notin> blBlobHash ` set ?rows" for d
    unfolding storedRow_def using that by (auto simp: find_None_iff)
  show "set c2 = expectedLocator env db r
       ` (blBlobHash ` set ?rows \<union> foDigest ` set files)" (is "_ = ?loc ` _")
  proof -
    have "counted (blobLocator r row) = ?loc (blBlobHash row)" if "row \<in> set ?rows" for row
      using that by (simp add: counted_def blobLocator_def setProjected_def setAuthoritative_def row algo expectedLocator_def)
    then have blobs: "counted ` blobLocator r ` set ?rows = ?loc ` blBlobHash ` set ?rows"
      by (simp add: image_image)
    have "counted (fileLocator r d) = ?loc d" if "d \<notin> blBlobHash ` set ?rows" for d
      using norow [OF that] by (simp add: counted_def fileLocator_def setProjected_def setAuthoritative_def expectedLocator_def)
    then have "counted ` fileLocator r ` (foDigest ` set files - blBlobHash ` set ?rows) = ?loc ` (foDigest ` set files - blBlobHash ` set ?rows)"
      unfolding image_image by (intro image_cong) auto
    then have "set c2 = ?loc ` (blBlobHash ` set ?rows \<union> (foDigest ` set files - blBlobHash ` set ?rows))"
      unfolding c2 list.set_map locs(2) image_Un blobs by simp
    then show ?thesis by simp
  qed
qed

lemma snapshot_of_counted:
  assumes "referencesCurrent env db r head" and "foldE (scanBlob env r) [] (residentBlobs env db r) = Inr present"
    and "foldE (addObject r) present files = Inr locators"
    and "attachCounts setAuthoritative (authoritativeHashes env db r) locators = Inr c1"
    and "attachCounts setProjected (projectedHashes env db r) c1 = Inr c2"
  shows "snapshotOf env db r files \<lparr>snCapturedHead = head, snProjectionName = ReferencesName,
     snProjectionVersion = ReferencesVersion, snDependencyVersions = [], snLocators = slice_stable hexBefore c2\<rparr>"
  using assms(1) locators_exact [OF assms(2-5)] by (simp add: snapshotOf_def)

lemma captureSnapshot_exact:
  assumes "\<And>x fs. (\<And>sn. x = Inr sn \<Longrightarrow> snapshotOf env db r files sn) \<Longrightarrow> Q x (w\<lparr>gwFaults := fs\<rparr>)"
  shows "wp (captureSnapshot env db r files) Q w"
  unfolding captureSnapshot_def attachBlobGCReferenceCounts_def wp_rules
  by (auto intro!: captureBlobGCHead_wp requireBlobGCWatermark_wp wp_queryI assms simp: wp_rules split: sum.split)
    (auto intro: snapshot_of_counted)

lemma Capture_exact:
  "wp (Capture env r files) (\<lambda>x w'. \<forall>sn. x = Inr sn \<longrightarrow> snapshotOf env (gwDatabase w') r files sn) w"
  unfolding Capture_def wp_rules
  by (auto intro!: wp_driverCallI wp_beginTxI captureSnapshot_exact simp: wp_rules split: sum.split option.split)

text \<open>The candidates of a plan that is built from a snapshot of the database.\<close>

lemma planned_candidates:
  assumes "snapshotOf env db r files sn" and "buildPlan (gc_env.truncate env) sn r files = Inr (plan, bytes)"
  shows "gcDigest ` set (gpCandidates plan)
      = {d \<in> blBlobHash ` set (residentBlobs env db r) \<union> foDigest ` set files. noReference env db r d}"
    and "c \<in> set (gpCandidates plan) \<Longrightarrow> cwResidentID c = r \<and> cwSQLiteByteSize c = map_option blByteSize (storedRow env db r (gcDigest c))
      \<and> gcFilesystem c = fileOf files (gcDigest c)"
proof -
  let ?D = "blBlobHash ` set (residentBlobs env db r) \<union> foDigest ` set files"
  have "set (snLocators sn) = expectedLocator env db r ` ?D"
    using assms(1) by (simp add: snapshotOf_def)
  then have "set (filter unreferenced (slice_stable (locatorBefore (gc_env.truncate env)) (snLocators sn)))
      = expectedLocator env db r ` {d \<in> ?D. noReference env db r d}"
    by auto
  then have cands: "set (gpCandidates plan) = (\<lambda>d. candidateFor r (expectedLocator env db r d) (fileOf files d)) ` {d \<in> ?D. noReference env db r d}"
    unfolding buildPlan_ok(1) [OF assms(2)] list.set_map by (simp add: image_image)
  have digest: "gcDigest (candidateFor r (expectedLocator env db r d) token) = d" for d token
    by (simp add: candidateFor_def)
  show "gcDigest ` set (gpCandidates plan) = {d \<in> ?D. noReference env db r d}"
    unfolding cands image_image digest by simp
  assume "c \<in> set (gpCandidates plan)"
  then obtain d where "c = candidateFor r (expectedLocator env db r d) (fileOf files d)"
    unfolding cands by blast
  then show "cwResidentID c = r \<and> cwSQLiteByteSize c = map_option blByteSize (storedRow env db r (gcDigest c))
      \<and> gcFilesystem c = fileOf files (gcDigest c)"
    by (simp add: candidateFor_def expectedLocator_def)
qed

end
