(* ===== verification/Blob_GC_Properties.thy ===== *)
theory Blob_GC_Properties
  imports Blob_GC_Repository
begin

text \<open>
  The properties of the blob garbage collector: the plan names exactly the copies nothing refers to, the
  result tells the truth about what was deleted, and nothing that is referred to is ever removed,
  whatever fails and whatever other connections commit in between.
\<close>

section \<open>The order of the candidates\<close>

lemma append_less_append [simp]: "(xs @ as :: string) < xs @ bs \<longleftrightarrow> as < bs"
  by (induction xs) simp_all

lemma append_le_append [simp]: "(xs @ as :: string) \<le> xs @ bs \<longleftrightarrow> as \<le> bs"
  by (induction xs) simp_all

lemma sorted_strict:
  fixes f :: "'a \<Rightarrow> 'k::linorder"
  shows "sorted_wrt (\<lambda>a b. f a \<le> f b) xs \<Longrightarrow> distinct (map f xs) \<Longrightarrow> sorted_wrt (\<lambda>a b. f a < f b) xs"
  by (induction xs) (auto simp: order.order_iff_strict)

lemma candidates_sorted:
  assumes "buildPlan env sn r files = Inr (plan, bytes)"
  shows "sorted_wrt (\<lambda>a b. Digest_Hex (gcDigest a) < Digest_Hex (gcDigest b)) (gpCandidates plan)"
proof -
  let ?xs = "slice_stable (locatorBefore env) (snLocators sn)"
  let ?key = "\<lambda>l. locatorKey env (lsResidentID l) (lsHashAlgorithm l) (lsDigest l)"
  obtain m st where "foldE (buildStep r) \<lparr>bsFiles = m, bsPrevious = None, bsCandidates = [], bsTotal = 0\<rparr> ?xs = Inr st"
    using buildPlan_parts [OF assms] by metis
  then have checks: "\<forall>loc\<in>set ?xs. checkLocator r loc = ok"
    using build_checks by blast
  have "sorted_wrt (\<lambda>a b. \<not> ?key b < ?key a) ?xs"
    using locator_order.slice_stable_sorted [of env] unfolding locatorBefore_def .
  then have "sorted_wrt (\<lambda>a b. Digest_Hex (lsDigest a) \<le> Digest_Hex (lsDigest b)) ?xs"
    by (rule sorted_wrt_mono_rel [rotated]) (use checks in \<open>auto simp: checkLocator_def locatorKey_def not_less\<close>)
  moreover have "distinct (map (\<lambda>l. Digest_Hex (lsDigest l)) ?xs)"
    unfolding distinct_slice_stable using buildPlan_ok(3) [OF assms] by (auto simp: distinct_map inj_on_def)
  ultimately have "sorted_wrt (\<lambda>a b. Digest_Hex (lsDigest a) < Digest_Hex (lsDigest b)) ?xs"
    by (rule sorted_strict)
  then show ?thesis
    unfolding buildPlan_ok(1) [OF assms]
    by (simp add: sorted_wrt_map candidateFor_def sorted_wrt_filter)
qed

section \<open>A world with one blob in use and one that is not\<close>

definition gcw_digest :: "char \<Rightarrow> Digest" where
  "gcw_digest c = replicate 32 c"

definition gcw_env :: store_env where
  "gcw_env = \<lparr>geIDText = (\<lambda>_. ''r''), geKnownZone = (\<lambda>_. True), geSha = (\<lambda>s. gcw_digest (if s = ''x'' then CHR 0x01 else CHR 0x00)),
     gePlanJCS = (\<lambda>_. Inr ''{}''), seParseID = (\<lambda>_. Some 2), seReferenceBody = (\<lambda>_ _. True)\<rparr>"

definition gcw_database :: gcDatabase where
  "gcw_database = \<lparr>
     gdCommits = [\<lparr>cmCommitID = ''c'', cmCommitSeq = 1, cmCommittedAt = 5, cmCommittedTZ = ''UTC''\<rparr>],
     gdWatermarks = [\<lparr>wmProjectionName = ReferencesName, wmResidentID = ''r'', wmProjectionVersion = ReferencesVersion, wmSourceCommitSeq = 1\<rparr>],
     gdDependencies = [],
     gdContentObjects = [\<lparr>coOwnerResidentID = ''r'', coErasureState = ''present'', coBlobHashAlgorithm = Some ''sha256'', coBlobHash = Some (gcw_digest (CHR 0x01))\<rparr>],
     gdContentReferences = [],
     gdBlobs = [\<lparr>blDedupeScopeID = ''r'', blHashAlgorithm = ''sha256'', blBlobHash = gcw_digest (CHR 0x00), blContent = '''', blByteSize = 0\<rparr>,
       \<lparr>blDedupeScopeID = ''r'', blHashAlgorithm = ''sha256'', blBlobHash = gcw_digest (CHR 0x01), blContent = ''x'', blByteSize = 1\<rparr>]\<rparr>"

definition gcw_file :: FinalObject where
  "gcw_file = \<lparr>foResidentID = 1, foDigest = gcw_digest (CHR 0x00), foSize = 0, foHandle = ''''\<rparr>"

definition gcw_files :: "unit file_ops" where
  "gcw_files = \<lparr>fsWalkFinal = (\<lambda>_ _. Inr [gcw_file]), fsRemoveFinal = (\<lambda>_ f. ((True, None), f))\<rparr>"

definition gcw_world :: "unit gcWorld" where
  "gcw_world = \<lparr>gwDatabase = gcw_database, gwFiles = (), gwReader = True, gwWriter = True, gwGateHeld = False, gwTransaction = None,
     gwFaults = [], gwOthers = [], gwHistory = []\<rparr>"

definition gcw_request :: gcRequest where
  "gcw_request = \<lparr>rqResidentID = 1, rqApply = True, rqConfirm = digestOf (gc_env.truncate gcw_env) ''{}'', rqBoundary = True, rqFailpoint = True, rqObserver = True\<rparr>"

definition gcw_outcome :: "(gcResult \<times> gc_error option) \<times> unit gcWorld" where
  "gcw_outcome = run_state (Execute (gc_env.truncate gcw_env) True (sqliteOps gcw_env gcw_files) gcw_request) gcw_world"


lemma gcw_digest_length [simp]: "length (gcw_digest c) = 32"
  by (simp add: gcw_digest_def)

lemma gcw_digest_eq [simp]: "gcw_digest c = gcw_digest d \<longleftrightarrow> c = d"
  by (simp add: gcw_digest_def)

lemma gcw_digest_order [simp]: "Digest_Hex (gcw_digest (CHR 0x00)) < Digest_Hex (gcw_digest (CHR 0x01))"
proof -
  have "gcw_digest c = c # replicate 31 c" for c
    unfolding gcw_digest_def by (simp flip: replicate_Suc)
  moreover have "hex_digit 0 < hex_digit 1"
    by code_simp
  ultimately show ?thesis
    by (simp add: Digest_Hex_def EncodeToString_Cons byte_def)
qed

lemma gcw_raw_order [simp]: "\<not> gcw_digest (CHR 0x01) < gcw_digest (CHR 0x00)"
proof -
  have "gcw_digest c = c # replicate 31 c" for c
    unfolding gcw_digest_def by (simp flip: replicate_Suc)
  moreover have "\<not> CHR 0x01 < CHR 0x00" by code_simp
  ultimately show ?thesis by simp
qed

lemmas gcw_defs = gcw_env_def gcw_database_def gcw_file_def gcw_files_def gcw_world_def

text \<open>A driver that does not fail, and nobody else at work.\<close>

lemma run_nextFault: "gwFaults w = [] \<Longrightarrow> run_state nextFault w = (Works, w)"
  by (simp add: nextFault_def)

lemma run_query: "gwFaults w = [] \<Longrightarrow> run_state (query r e) w = (r, w)"
  by (simp add: query_def run_nextFault)

lemma run_driverCall: "gwFaults w = [] \<Longrightarrow> run_state (driverCall what) w = (None, w)"
  by (simp add: driverCall_def run_nextFault)

lemma run_beginTx: "gwFaults w = [] \<Longrightarrow> gwOthers w = [] \<Longrightarrow> run_state beginTx w = (None, w)"
  by (simp add: beginTx_def run_nextFault)

lemma run_acquireGate: "gwFaults w = [] \<Longrightarrow> run_state acquireGate w = (None, w\<lparr>gwGateHeld := True\<rparr>)"
  by (simp add: acquireGate_def run_nextFault)

lemmas runs = run_attempt run_attemptE run_nextFault run_query run_driverCall run_beginTx run_acquireGate

definition gcw_head :: CapturedHead where
  "gcw_head = \<lparr>chExists = True, chCommitID = Some 2, chCommitSeq = Some 1, chCommittedAt = Some 5, chCommittedTZ = Some ''UTC''\<rparr>"

definition gcw_locator :: "char \<Rightarrow> int \<Rightarrow> int \<Rightarrow> LocatorState" where
  "gcw_locator c n references = \<lparr>lsResidentID = 1, lsHashAlgorithm = ''sha256'', lsDigest = gcw_digest c, lsSQLitePresent = True,
     lsSQLiteByteSize = Some n, lsAuthoritativeReferences = references, lsProjectionReferences = 0\<rparr>"

definition gcw_snapshot :: gcSnapshot where
  "gcw_snapshot = \<lparr>snCapturedHead = gcw_head, snProjectionName = ReferencesName, snProjectionVersion = ReferencesVersion, snDependencyVersions = [],
     snLocators = [gcw_locator (CHR 0x00) 0 0, gcw_locator (CHR 0x01) 1 1]\<rparr>"

lemma gcw_zone: "ParseTimezone (\<lambda>_. True) ''UTC'' = Inr ''UTC''"
proof -
  have "\<not> TrimSpace_differs ''UTC''" by (rule visible_not_trimmed) (simp add: visible_char_def byte_def)
  then show ?thesis by (simp add: ParseTimezone_def)
qed

lemma gcw_head_of: "headOf gcw_env gcw_database = Inr gcw_head"
  by (simp add: headOf_def gcw_defs gcw_head_def NewCommitSeq_def gcw_zone)

lemma gcw_scan: "foldE (scanBlob gcw_env 1) [] (residentBlobs gcw_env gcw_database 1) = Inr [gcw_locator (CHR 0x00) 0 0, gcw_locator (CHR 0x01) 1 0]"
  by (simp add: scanBlob_def residentBlobs_def slice_stable_def blobBefore_def gcw_defs gcw_locator_def DigestFromBytes_def HashAlgorithm_def NewByteSize_def andThen_def reject_def)

lemma gcw_files_known: "addObject 1 [gcw_locator (CHR 0x00) 0 0, gcw_locator (CHR 0x01) 1 0] gcw_file = Inr [gcw_locator (CHR 0x00) 0 0, gcw_locator (CHR 0x01) 1 0]"
  by (simp add: addObject_def gcw_file_def gcw_locator_def FinalObject_HashAlgorithm_def andThen_def reject_def)

lemma gcw_authoritative: "authoritativeHashes gcw_env gcw_database 1 = [Some (gcw_digest (CHR 0x01))]"
  by (simp add: authoritativeHashes_def gcw_defs)

lemma gcw_projected: "projectedHashes gcw_env gcw_database 1 = []"
  by (simp add: projectedHashes_def gcw_defs)

lemma gcw_counts:
  "attachCounts setAuthoritative [Some (gcw_digest (CHR 0x01))] [gcw_locator (CHR 0x00) 0 0, gcw_locator (CHR 0x01) 1 0] = Inr [gcw_locator (CHR 0x00) 0 0, gcw_locator (CHR 0x01) 1 1]"
  "attachCounts setProjected [] locators = Inr locators"
  by (simp_all add: attachCounts_def groupCounts_def applyCount_def DigestFromBytes_def setAuthoritative_def gcw_locator_def andThen_def reject_def)

lemma gcw_sorted: "slice_stable hexBefore [gcw_locator (CHR 0x00) 0 0, gcw_locator (CHR 0x01) 1 1] = [gcw_locator (CHR 0x00) 0 0, gcw_locator (CHR 0x01) 1 1]"
  using gcw_digest_order by (simp add: slice_stable_def hexBefore_def gcw_locator_def less_not_sym)

lemma gcw_watermark: "gwFaults w = [] \<Longrightarrow> run_state (requireBlobGCWatermark gcw_env gcw_database 1 gcw_head) w = (ok, w)"
  by (simp add: requireBlobGCWatermark_def runs checkWatermark_def findWatermark_def dependencyCount_def gcw_defs gcw_head_def reject_def)

lemma gcw_capture: "run_state (Capture gcw_env 1 [gcw_file]) gcw_world = (Inr gcw_snapshot, gcw_world)"
proof -
  have world: "gwFaults gcw_world = []" "gwOthers gcw_world = []" "gwReader gcw_world" "gwDatabase gcw_world = gcw_database"
    by (simp_all add: gcw_world_def)
  have "chExists gcw_head" by (simp add: gcw_head_def)
  then have "run_state (captureSnapshot gcw_env gcw_database 1 [gcw_file]) gcw_world = (Inr gcw_snapshot, gcw_world)"
    by (simp add: captureSnapshot_def captureBlobGCHead_def attachBlobGCReferenceCounts_def runs world gcw_head_of gcw_watermark gcw_scan gcw_files_known
        gcw_authoritative gcw_projected gcw_counts gcw_sorted gcw_snapshot_def)
  then show ?thesis
    by (simp add: Capture_def runs world ID_Validate_def ID_IsZero_def)
qed

definition gcw_candidate :: gcCandidate where
  "gcw_candidate = candidateFor 1 (gcw_locator (CHR 0x00) 0 0) (Some gcw_file)"

definition gcw_plan :: gcPlan where
  "gcw_plan = \<lparr>gpFormatVersion = GCPlanFormatVersion, gpResidentID = 1, gpCapturedHead = gcw_head, gpProjectionName = ReferencesName,
     gpProjectionVersion = ReferencesVersion, gpDependencyVersions = [], gpCandidates = [gcw_candidate], gpDigest = digestOf (gc_env.truncate gcw_env) ''{}''\<rparr>"

lemma gcw_candidate_valid: "gcCandidate_Validate gcw_candidate = ok"
  by (simp add: gcCandidate_Validate_def candidateToken_def checkSize_def gcw_candidate_def candidateFor_def gcw_locator_def gcw_file_def
      ID_Validate_def ID_IsZero_def ByteSize_Validate_def NewByteSize_def HashAlgorithm_def)

lemma gcw_head_exists [simp]: "chExists gcw_head"
  by (simp add: gcw_head_def)

lemma gcw_head_valid: "CapturedHead_Validate (\<lambda>_. True) gcw_head = ok"
  by (simp add: CapturedHead_Validate_def gcw_head_def ID_Validate_def ID_IsZero_def CommitSeq_Validate_def NewCommitSeq_def Timezone_Validate_def gcw_zone)

lemma gcw_env_fields [simp]:
  "geKnownZone (gc_env.truncate gcw_env) = (\<lambda>_. True)" "gePlanJCS (gc_env.truncate gcw_env) = (\<lambda>_. Inr ''{}'')"
  "geIDText (gc_env.truncate gcw_env) = (\<lambda>_. ''r'')"
  by (simp_all add: gcw_env_def gc_env.truncate_def)

lemma gcw_plan_valid: "gcPlan_Validate (gc_env.truncate gcw_env) gcw_plan = ok"
  by (simp add: gcPlan_Validate_def gcw_plan_def planCandidateStep_def gcw_candidate_valid gcw_head_valid canonicalBytes_def mapError_def andThen_def
      ID_Validate_def ID_IsZero_def reject_def)
    (simp add: gcw_candidate_def candidateFor_def reject_def)

lemma gcw_built: "buildPlan (gc_env.truncate gcw_env) gcw_snapshot 1 [gcw_file] = Inr (gcw_plan, 0)"
proof -
  have sorted: "slice_stable (locatorBefore (gc_env.truncate gcw_env)) [gcw_locator (CHR 0x00) 0 0, gcw_locator (CHR 0x01) 1 1]
      = [gcw_locator (CHR 0x00) 0 0, gcw_locator (CHR 0x01) 1 1]"
    using gcw_digest_order by (simp add: slice_stable_def locatorBefore_def locatorKey_def gcw_locator_def less_not_sym)
  have valid: "validateSnapshot (gc_env.truncate gcw_env) gcw_snapshot 1 = ok"
    by (simp add: validateSnapshot_def gcw_snapshot_def gcw_head_valid ID_Validate_def ID_IsZero_def)
  have files: "collectFile 1 [] gcw_file = Inr [(gcw_digest (CHR 0x00), gcw_file)]"
    by (simp add: collectFile_def gcw_file_def FinalObject_HashAlgorithm_def andThen_def reject_def)
  have first: "buildStep 1 \<lparr>bsFiles = [(gcw_digest (CHR 0x00), gcw_file)], bsPrevious = None, bsCandidates = [], bsTotal = 0\<rparr> (gcw_locator (CHR 0x00) 0 0)
      = Inr \<lparr>bsFiles = [], bsPrevious = Some (gcw_locator (CHR 0x00) 0 0), bsCandidates = [gcw_candidate], bsTotal = 0\<rparr>"
    by (simp add: buildStep_def checkLocator_def gcw_locator_def HashAlgorithm_def gcw_candidate_def candidateFor_def addBytes_def maxInt64_def wrap64_def
        gcw_file_def andThen_def reject_def)
  have second: "buildStep 1 \<lparr>bsFiles = [], bsPrevious = Some (gcw_locator (CHR 0x00) 0 0), bsCandidates = [gcw_candidate], bsTotal = 0\<rparr> (gcw_locator (CHR 0x01) 1 1)
      = Inr \<lparr>bsFiles = [], bsPrevious = Some (gcw_locator (CHR 0x01) 1 1), bsCandidates = [gcw_candidate], bsTotal = 0\<rparr>"
    by (simp add: buildStep_def checkLocator_def gcw_locator_def HashAlgorithm_def sameLocator_def andThen_def reject_def)
  show ?thesis
    using gcw_plan_valid valid
    by (simp add: buildPlan_def gcw_snapshot_def sorted files first second canonicalBytes_def mapError_def andThen_def reject_def gcw_plan_def)
qed

definition gcw_left :: gcDatabase where
  "gcw_left = withoutBlob gcw_env gcw_candidate gcw_database"

definition gcw_open :: "gcDatabase \<Rightarrow> gcEvent list \<Rightarrow> unit gcWorld" where
  "gcw_open view history = gcw_world\<lparr>gwGateHeld := True, gwHistory := history,
     gwTransaction := Some \<lparr>txDatabase = view, txCandidate = gcw_candidate, txClosed = False\<rparr>\<rparr>"

definition gcw_after :: "unit gcWorld" where
  "gcw_after = gcw_world\<lparr>gwDatabase := gcw_left, gwHistory := [FileRemoval gcw_file gcw_database, Committed gcw_candidate gcw_database gcw_left],
     gwTransaction := Some \<lparr>txDatabase = gcw_left, txCandidate = gcw_candidate, txClosed = True\<rparr>\<rparr>"

lemma gcw_world_fields [simp]:
  "gwFaults gcw_world = []" "gwOthers gcw_world = []" "gwReader gcw_world" "gwWriter gcw_world" "gwDatabase gcw_world = gcw_database"
  "gwTransaction gcw_world = None" "\<not> gwGateHeld gcw_world" "gwHistory gcw_world = []"
  by (simp_all add: gcw_world_def)

lemma gcw_candidate_fields [simp]:
  "cwResidentID gcw_candidate = 1" "gcDigest gcw_candidate = gcw_digest (CHR 0x00)" "cwSQLitePresent gcw_candidate" "cwHashAlgorithm gcw_candidate = ''sha256''"
  "cwSQLiteByteSize gcw_candidate = Some 0" "gcFilesystem gcw_candidate = Some gcw_file"
  by (simp_all add: gcw_candidate_def candidateFor_def gcw_locator_def HashAlgorithm_def)

lemma gcw_copy: "gwFaults w = [] \<Longrightarrow> run_state (checkCopy gcw_env gcw_database gcw_candidate) w = (Inr (), w)"
  by (simp add: checkCopy_def run_nextFault gcw_defs isCandidateBlob_def)

lemma gcw_check: "gwFaults w = [] \<Longrightarrow> run_state (checkCandidate gcw_env gcw_database gcw_candidate gcw_head) w = (Inr (), w)"
proof -
  have "CapturedHead_Equal (geKnownZone gcw_env) gcw_head gcw_head"
    using gcw_head_valid by (simp add: CapturedHead_Equal_def gcw_env_def)
  then show "gwFaults w = [] \<Longrightarrow> ?thesis"
    by (simp add: checkCandidate_def captureBlobGCHead_def blobGCZeroCounts_def runs gcw_head_of gcw_watermark gcw_authoritative gcw_projected gcw_copy)
qed

lemma gcw_begin: "run_state (BeginCandidate gcw_env gcw_candidate gcw_head) gcw_world = (None, gcw_open gcw_database [])"
  by (simp add: BeginCandidate_def runs gcw_candidate_valid gcw_check gcw_open_def)

lemma gcw_remove: "run_state (removeLogged gcw_files gcw_file) (gcw_open gcw_database []) = ((True, None), gcw_open gcw_database [FileRemoval gcw_file gcw_database])"
  by (simp add: removeLogged_def gcw_files_def gcw_open_def)

lemma gcw_delete: "run_state (DeleteSQLite gcw_env) (gcw_open gcw_database h) = ((True, None), gcw_open gcw_left h)"
proof -
  have "length (filter (isCandidateBlob gcw_env gcw_candidate) (gdBlobs gcw_database)) = 1"
    by (simp add: isCandidateBlob_def gcw_env_def gcw_database_def)
  then show ?thesis
    by (simp add: DeleteSQLite_def runs gcw_open_def gcw_left_def Let_def)
qed

lemma gcw_commit: "run_state CommitTx (gcw_open gcw_left [FileRemoval gcw_file gcw_database]) = (None, gcw_after)"
  by (simp add: CommitTx_def closeTx_def releaseHeld_def run_nextFault gcw_open_def gcw_after_def)

definition gcw_result :: gcResult where
  "gcw_result = \<lparr>rsPlan = Some gcw_plan, rsCandidateCount = 1, rsCandidateBytes = 0, rsDeletedCount = 1, rsRemainingCount = 0,
     rsPhysicalMutation = True, rsMaintenanceIncomplete = False\<rparr>"

lemma gcw_open_fields [simp]: "gwFaults (gcw_open view h) = []" "gwFaults gcw_after = []"
  by (simp_all add: gcw_open_def gcw_after_def)

lemma gcw_deleted:
  "run_state (deleteCandidate (sqliteOps gcw_env gcw_files) gcw_request gcw_head gcw_candidate (freshResult gcw_plan 0)) gcw_world = ((gcw_result, None), gcw_after)"
  by (simp add: deleteCandidate_def deleteRow_def commitCandidate_def removeFile_def verifyBoundary_def invokeFailpoint_def sqliteOps_def gcw_request_def
      runs gcw_begin gcw_remove gcw_delete gcw_commit freshResult_def zeroResult_def gcw_result_def Let_def) (simp add: gcw_plan_def)

lemma lowerHex_encoded: "list_all lowerHex (EncodeToString bs)"
proof (induction bs)
  case (Cons c bs)
  have "byte c div 16 < 16" "byte c mod 16 < 16"
    using byte_less [of c] by auto
  then have "lowerHex (hex_digit (byte c div 16))" and "lowerHex (hex_digit (byte c mod 16))"
    by (auto simp: lowerHex_def isDigit_def byte_hex_digit)
  with Cons show ?case by (simp add: EncodeToString_Cons)
qed simp

lemma gcw_confirm: "wireDigestPattern (digestOf (gc_env.truncate gcw_env) ''{}'')"
  by (simp add: wireDigestPattern_def digestOf_def lowerHex_encoded length_EncodeToString) (simp add: gcw_env_def gc_env.truncate_def)

lemma gcw_execute:
  "run_state (Execute (gc_env.truncate gcw_env) True (sqliteOps gcw_env gcw_files) gcw_request) gcw_world = ((gcw_result, None), gcw_after)"
proof -
  have request: "gcRequest_Validate gcw_request = ok" "rqResidentID gcw_request = 1" "rqApply gcw_request" "rqConfirm gcw_request = gpDigest gcw_plan"
    by (simp_all add: gcRequest_Validate_def gcw_request_def ID_Validate_def ID_IsZero_def gcw_confirm gcw_plan_def)
  have valid: "gcResult_Validate (gc_env.truncate gcw_env) gcw_result = ok"
    by (simp add: gcResult_Validate_def gcw_result_def gcw_plan_valid)
  have maintenance: "run_state Maintenance gcw_after = (None, gcw_after)"
    by (simp add: Maintenance_def runs releaseHeld_def gcw_after_def)
  have plan: "gpCandidates gcw_plan = [gcw_candidate]" "gpCapturedHead gcw_plan = gcw_head"
    by (simp_all add: gcw_plan_def)
  have hooks: "run_state (verifyBoundary (sqliteOps gcw_env gcw_files) gcw_request) w = (None, w)"
    "run_state (invokeFailpoint (sqliteOps gcw_env gcw_files) gcw_request name) w = (None, w)" if "gwFaults w = []" for w name
    using that by (simp_all add: verifyBoundary_def invokeFailpoint_def sqliteOps_def run_driverCall)
  have ops: "opMaintenance (sqliteOps gcw_env gcw_files) = Maintenance" "opCapture (sqliteOps gcw_env gcw_files) = Capture gcw_env"
    "run_state (opWalkFinal (sqliteOps gcw_env gcw_files) r) w = (Inr [gcw_file], w)"
    "opSetFinalOrphanCount (sqliteOps gcw_env gcw_files) n = State_Monad.return ()"
    "opOperationFinished (sqliteOps gcw_env gcw_files) out = State_Monad.return ()" for r w n out
    by (simp_all add: sqliteOps_def gcw_files_def)
  have "run_state (applyPlan (gc_env.truncate gcw_env) (sqliteOps gcw_env gcw_files) gcw_request gcw_plan (freshResult gcw_plan 0)) gcw_world = ((gcw_result, None), gcw_after)"
    by (simp add: applyPlan_def run_attempt plan gcw_deleted Let_def valid checked_def hooks ops maintenance)
  then show ?thesis
    by (simp add: Execute_def executeBody_def afterPlan_def run_attempt run_attemptE request Let_def hooks ops gcw_capture gcw_built)
qed

section \<open>Properties\<close>

text \<open>
  C12: Nothing that is referred to is ever removed. Start a collection between transactions with an empty history,
  with any faults of the driver at any call, any behaviour of the file store, and anything other connections
  commit before the next transaction begins. Every file the collector removes, and every row whose deletion it commits, had at
  that moment no present content object and no reference of the projection, and the projection was current for
  the head; a commit changes nothing but the row of its candidate. The write gate is free and
  no transaction is open at the end, and without \<^verbatim>\<open>--apply\<close> nothing is removed at all.
\<close>

theorem gc_history_safe:
  assumes "run_state (Execute genv present (sqliteOps env fs) request) w = (outcome, w')"
    and "gwTransaction w = None" and "\<not> gwGateHeld w" and "gwHistory w = []"
  shows "(\<forall>object db. FileRemoval object db \<in> set (gwHistory w') \<longrightarrow> noReference env db (foResidentID object) (foDigest object)
        \<and> (\<exists>head. chExists head \<and> referencesCurrent env db (foResidentID object) head))
    \<and> (\<forall>c before after. Committed c before after \<in> set (gwHistory w') \<longrightarrow> noReference env before (cwResidentID c) (gcDigest c)
        \<and> (\<exists>head. chExists head \<and> referencesCurrent env before (cwResidentID c) head)
        \<and> (after = before \<or> after = before\<lparr>gdBlobs := filter (\<lambda>row. \<not> isCandidateBlob env c row) (gdBlobs before)\<rparr>))
    \<and> \<not> gwGateHeld w' \<and> (\<forall>transaction. gwTransaction w' = Some transaction \<longrightarrow> txClosed transaction)
    \<and> (\<not> rqApply request \<longrightarrow> gwHistory w' = [])"
proof -
  have "quietWorld env w"
    using assms(2-4) by (simp add: quietWorld_def)
  then have quiet: "quietWorld env w'"
    using wp_run [OF sqlite_gc.Execute_idle assms(1)] by blast
  then have events: "eventSafe env event" if "event \<in> set (gwHistory w')" for event
    using that by (auto simp: quietWorld_def list_all_iff)
  have "\<not> rqApply request \<longrightarrow> gwHistory w' = []"
    using wp_run [OF sqlite_dry.dry_run assms(1)] assms(4) by blast
  with quiet events show ?thesis
    by (fastforce simp: quietWorld_def eventSafe_def deletable_def withoutBlob_def)
qed

theorem gc_history_safe_witness:
  "(\<exists>before after. Committed gcw_candidate before after \<in> set (gwHistory gcw_after) \<and> noReference gcw_env before 1 (gcw_digest (CHR 0x00)))
    \<and> \<not> gwGateHeld gcw_after"
proof -
  have committed: "Committed gcw_candidate gcw_database gcw_left \<in> set (gwHistory gcw_after)"
    by (simp add: gcw_after_def)
  then have "noReference gcw_env gcw_database (cwResidentID gcw_candidate) (gcDigest gcw_candidate)" and "\<not> gwGateHeld gcw_after"
    using gc_history_safe [OF gcw_execute gcw_world_fields(6,7,8)] by blast+
  with committed show ?thesis by auto
qed

text \<open>
  C13: A plan names exactly the copies nothing refers to. When the repository captures a snapshot, whatever fails
  before, and a plan is built from it, the digests of the candidates are exactly those of the stored rows and files of the
  resident that no present content object and no reference of the captured database has; they are in strictly
  increasing order, every candidate carries the sizes of its row and the token of its file, and the bytes are the sum
  of the sizes when the sizes are 64-bit integers.
\<close>

theorem gc_plan_exact:
  assumes "run_state (Capture env r files) w = (Inr sn, w')" and "buildPlan (gc_env.truncate env) sn r files = Inr (plan, bytes)"
  shows "gcDigest ` set (gpCandidates plan)
      = {d \<in> blBlobHash ` set (residentBlobs env (gwDatabase w') r) \<union> foDigest ` set files. noReference env (gwDatabase w') r d}
    \<and> sorted_wrt (\<lambda>a b. Digest_Hex (gcDigest a) < Digest_Hex (gcDigest b)) (gpCandidates plan)
    \<and> (\<forall>c\<in>set (gpCandidates plan). cwResidentID c = r \<and> cwSQLiteByteSize c = map_option blByteSize (storedRow env (gwDatabase w') r (gcDigest c))
        \<and> gcFilesystem c = fileOf files (gcDigest c))
    \<and> (typedSizes sn files \<longrightarrow> bytes = sum_list (map candidateBytes (gpCandidates plan)))"
proof -
  have "snapshotOf env (gwDatabase w') r files sn"
    using wp_run [OF Capture_exact assms(1)] by blast
  then show ?thesis
    using planned_candidates [OF _ assms(2)] candidates_sorted [OF assms(2)] buildPlan_ok(10) [OF assms(2)] by blast
qed

theorem gc_plan_exact_witness:
  "gcDigest ` set (gpCandidates gcw_plan) = {gcw_digest (CHR 0x00)} \<and> sum_list (map candidateBytes (gpCandidates gcw_plan)) = 0"
proof -
  have "typedSizes gcw_snapshot [gcw_file]"
    by (simp add: typedSizes_def gcw_snapshot_def gcw_locator_def gcw_file_def int64_def)
  then have "sum_list (map candidateBytes (gpCandidates gcw_plan)) = 0"
    using gc_plan_exact [OF gcw_capture gcw_built] by simp
  then show ?thesis
    by (simp add: gcw_plan_def)
qed

text \<open>
  C14: The result of a collection tells the truth, whatever the interfaces do: the counters add up to the
  candidates of the plan, nothing is reported as changed without \<^verbatim>\<open>--apply\<close> or without the confirmed digest of the plan, an error after
  the first physical change is a partial error, and a run without error has a valid plan and has deleted all of its candidates
  (none in a dry run).
\<close>

theorem gc_result_honest:
  assumes "run_state (Execute env present ops request) w = ((result, err), w')"
  shows "0 \<le> rsDeletedCount result \<and> rsDeletedCount result + rsRemainingCount result = rsCandidateCount result
     \<and> rsDeletedCount result \<le> rsCandidateCount result
     \<and> (rsCandidateCount result \<noteq> 0 \<longrightarrow> (\<exists>plan. rsPlan result = Some plan \<and> rsCandidateCount result = int (length (gpCandidates plan))))
     \<and> (\<not> rqApply request \<longrightarrow> \<not> mutated result)
     \<and> (\<forall>plan. mutated result \<and> rsPlan result = Some plan \<longrightarrow> rqConfirm request = gpDigest plan)
     \<and> (err \<noteq> None \<and> mutated result \<longrightarrow> (\<exists>cause. err = Some (PartialError cause)))
     \<and> (err = None \<longrightarrow> (\<exists>plan. rsPlan result = Some plan \<and> gcPlan_Validate env plan = ok
          \<and> rsDeletedCount result = (if rqApply request then int (length (gpCandidates plan)) else 0)))"
  using wp_run [OF Execute_contract assms] unfolding gcContract_def by simp

theorem gc_result_honest_witness:
  "rsDeletedCount gcw_result + rsRemainingCount gcw_result = rsCandidateCount gcw_result \<and> rsDeletedCount gcw_result = 1
    \<and> rqConfirm gcw_request = gpDigest gcw_plan"
proof -
  have "rsPlan gcw_result = Some gcw_plan" and "mutated gcw_result"
    by (simp_all add: gcw_result_def mutated_def)
  then show ?thesis
    using gc_result_honest [OF gcw_execute] by (auto simp: gcw_result_def)
qed

end
