(* ===== verification/Spec2Isabelle.thy ===== *)
theory Spec2Isabelle
  imports Canonical_Properties Memory_Properties Projection_Properties Replay_Properties
    Autonomy_Properties Runtime_Properties Integrity_Properties Erasure_Properties Erasure_Quiescence
    Blob_GC_Properties
begin

text \<open>
  \<^bold>\<open>Mahoroba: the verified core.\<close> Mahoroba keeps the memory of a resident (a language model persona) in an
  append-only ledger. Everything durable is written by one canonical writer; projections are caches
  that are computed from the ledger; memory policies decide what is remembered and recalled;
  autonomy decides when the resident speaks unasked; erasure removes contents for good, and
  integrity checks that the stored history is still sound. All sources named here are below
  \<^verbatim>\<open>src/internal/\<close>.

  \<^bold>\<open>Conventions.\<close> A fallible Go function returns \<open>('e, 'a) result\<close>, a sum whose left side is the error
  of its package; every early return is a branch. Signed 64-bit integers are \<open>int\<close> with \<open>wrap64\<close> where
  the code may overflow, unsigned ones are words; identifiers are 128-bit words; Go strings are byte
  strings. Slices are lists, Go maps are maps, and where the code iterates a map the order is an
  argument or is proved irrelevant. \<^verbatim>\<open>sort.SliceStable\<close> and \<^verbatim>\<open>slices.SortFunc\<close> are \<open>slice_stable\<close>; its laws are
  proved in the locale \<open>sort_order\<close>, which the comparisons the code sorts with interpret, except the two of
  \<open>Activity_Session\<close>, which are no orders when rows with and without a commit sequence mix.

  \<^bold>\<open>Theories and sources.\<close>
  \<^item> \<open>Prelude\<close>, \<open>Go_Strings\<close>, \<open>Go_Checks\<close>: results, loops that may fail (\<open>foldE\<close>, \<open>checkE\<close>), sorting, decimal and
    hexadecimal texts, guards and loops that record what they have seen.
  \<^item> \<open>Canonical_Types\<close> (\<^verbatim>\<open>canonical/types.go\<close>, \<^verbatim>\<open>id.go\<close>, \<^verbatim>\<open>errors.go\<close>): the scalar types and their codecs, as
    instances of the locale \<open>logical_integer\<close>. \<open>Canonical_Ledger\<close> (\<^verbatim>\<open>hash.go\<close>, \<^verbatim>\<open>ledger.go\<close>): digests, commitments
    and the ledger verifier. \<open>Ledger_Envelope\<close> (\<^verbatim>\<open>ValidateLedgerEnvelope\<close> of \<^verbatim>\<open>store/sqlite/ledger.go\<close>): the envelope validator
    the verifier calls. \<open>Canonical_Activity\<close> (\<^verbatim>\<open>activity.go\<close>): the activity registry with its fences.
    \<open>Canonical_Writer\<close> and \<open>Writer_Protocol\<close> (\<^verbatim>\<open>writer.go\<close>): the execution of one command, and the admission
    protocol of concurrent submissions, run loop, pauses (with the drain channels they wait on) and close as a
    step relation.
  \<^item> \<open>Memory_Types\<close>, \<open>Memory_Policy\<close>, \<open>Memory_Fixed\<close>, \<open>Memory_Salience\<close>, \<open>Memory_Evidence\<close>, \<open>Memory_Maturation\<close>,
    \<open>Memory_Recall\<close>, \<open>Memory_Recall_Plan\<close>, \<open>Memory_Query\<close>, \<open>Memory_Persona\<close> (\<^verbatim>\<open>memory/*.go\<close>): vocabulary, the five
    fixed policies, fixed point arithmetic, salience and temporal relation, evidence, maturation,
    recall with its two planners (both interpret the locale \<open>prompt_planner\<close>), bigram queries and
    persona edits.
  \<^item> \<open>Projection_Types\<close>, \<open>Projection_Planner\<close>, \<open>Projection_Store\<close>, \<open>Projection_Update\<close>, \<open>Projection_Coordinator\<close>,
    \<open>Projection_Replay\<close> (\<^verbatim>\<open>projection/*.go\<close>, \<^verbatim>\<open>store/sqlite/projection_adapter.go\<close>): registry, update planner, the
    compare-and-set store (locale \<open>cas_store\<close>), the update loop with its retries, reconciliation and
    preflight, and the replay of claims, view scopes and content references.
  \<^item> \<open>Activity_Session\<close> (\<^verbatim>\<open>activity/session.go\<close>), \<open>Autonomy\<close>, \<open>Autonomy_Retention\<close> (\<^verbatim>\<open>autonomy/*.go\<close>): conversation
    sessions, triggers with their idempotency keys, quiet hours, the two decisions and retention.
  \<^item> \<open>Runtime_Gates\<close> (\<^verbatim>\<open>runtimegate/gate.go\<close>, \<^verbatim>\<open>store/sqlite/write_gate.go\<close>): the activation barrier and the gate
    that gives canonical writers priority over projections, for any number of callers.
  \<^item> \<open>Integrity_Minimum\<close> (\<^verbatim>\<open>integrity/minimum.go\<close>, \<^verbatim>\<open>dual_blob.go\<close>, \<^verbatim>\<open>head.go\<close>), \<open>Integrity_Scanner\<close> (\<^verbatim>\<open>scanner.go\<close>): the
    fatal startup checks; findings, their fingerprints, the scan and the recording.
  \<^item> \<open>Erasure_Closure\<close>, \<open>Erasure_Cycle\<close>, \<open>Erasure_Plan\<close>, \<open>Erasure_Codec\<close>, \<open>Erasure_Planner\<close>, \<open>Erasure_Quiescence\<close>
    (\<^verbatim>\<open>erasure/*.go\<close>, \<^verbatim>\<open>contentref/catalog.go\<close>): the closure of targets over the lineage graph, the search for
    cycles, the plan with its validators, decisions, text form and apply command, the planner, and
    the conditions under which a resident may be erased.
  \<^item> \<open>Go_State\<close>: code that calls interfaces, in the state monad of the library, with weakest preconditions.
    \<open>Blob_GC\<close>, \<open>Blob_GC_Execute\<close> (\<^verbatim>\<open>blobgc/*.go\<close>), \<open>Blob_GC_Repository\<close> (\<^verbatim>\<open>store/sqlite/blob_gc.go\<close>): the garbage collector
    of blobs, its plan, its execution over the interfaces (locales \<open>gc_reader\<close>, \<open>gc_provider\<close>) and the SQLite
    repository behind them, which interprets the locales.
  \<^item> The theories \<open>*_Properties\<close> hold the main theorems with an example for each.

  \<^bold>\<open>How the parts interact.\<close> The writer executes commands in the scope of a resident; a command such as
  the application of an erasure plan asks for a fence, and the registry guarantees that its holder is
  alone (\<open>fence_exclusive\<close>, \<open>erase_safe_quiet\<close>). The erasure planner uses the integrity fingerprints for the
  findings it plans and the claim relation that the startup check verifies afterwards. Commits move the
  head that projection updates target; the store accepts an update only from the watermark that it was
  planned for. The garbage collector trusts the projection of content references only when it is current for the head,
  and asks again in the transaction of every deletion. Autonomy and recall read the session, the policies and the projections.

  \<^bold>\<open>What is shown.\<close>
  \<^item> \<^emph>\<open>Canonical.\<close> The codecs of the scalar types are exact. The verifier accepts exactly the well formed hash
    chains, and the head commits to the whole history. Any run of the writer gives consecutive sequence numbers and increasing instants;
    every execution ends in one of five ways and only a commit moves the head. In no interleaving does
    the protocol panic or overfill its queue; close drains; a pause that has returned, at once or after waiting, is quiet until somebody
    resumes.
  \<^item> \<^emph>\<open>Memory.\<close> Recall selects the best candidates and plans within its limits; maturation decides every
    input and never skips or returns a stage; the aggregate of evidence, salience and edit distance
    agree with their mathematical definitions; exactly the fixed policy texts parse.
  \<^item> \<^emph>\<open>Projections.\<close> An update that reports success leaves the projection current whatever others do;
    cursors never go back; with a quiet environment updates succeed; the result of a replay depends only on the
    captured rows, which decide it claim by claim, while malformed rows make it fail wherever they are; one
    documented repair is always refused.
  \<^item> \<^emph>\<open>Autonomy and gates.\<close> Sessions agree with their specification; keys identify triggers; self talk is
    bounded between user messages; decisions are eligible exactly under their conditions; the write
    gate is exclusive, prefers canonical writers and forgets no waiter.
  \<^item> \<^emph>\<open>Integrity.\<close> The startup check is equivalent to a declarative relation between claims, contents and
    erasure events and to equal blob copies; a scan reports each finding once; a recording uses each
    identity once.
  \<^item> \<^emph>\<open>Erasure.\<close> The closure is exactly reachability with least depths; the search for cycles is complete;
    a plan that is built ready leaves no descendant behind; valid plans are grounded in their roots;
    applying needs a ready, decided, confirmed plan; decisions change nothing else.
  \<^item> \<^emph>\<open>Garbage collection.\<close> A plan holds exactly the copies nothing refers to; whatever fails and whatever others
    commit, nothing that is referred to is removed; the result tells the truth about what was deleted.

  \<^bold>\<open>Bounds and fuel.\<close> Loops are structural recursion or have a termination proof. The closure of erasure
  targets ends because each round either adds a target or lowers the sum of depths. The search for
  cycles is mutual recursion with the number of roots plus edges as fuel; \<open>lineage_cycle_found\<close> shows that
  this is enough. The update loop of the coordinator carries the attempt counter of the code. A wait
  on the activation barrier that never resolves has the result \<open>None\<close>.

  \<^bold>\<open>Parameters and hypotheses.\<close> Code that is not part of the repository is an argument: SHA-256 (where a
  theorem needs it, without a collision on the inputs at hand: \<open>no_collision\<close>,
  \<open>fingerprints_injective\<close>, \<open>impact_ids_bind\<close>), the canonical JSON encoder and decoders, the text form of
  identifiers, the time zone database and the calendar, the tables of Unicode, the database behind the
  store with a fault at any step, clocks, and the sources of rows. Theorems that use such a hypothesis
  have an example in which it holds.

  \<^bold>\<open>Not modelled.\<close> The SQL of the SQLite store (its meaning is the database engine; the queries of the
  garbage collector are modelled on lists of rows), blob storage, backup, restore and durable publication (calls of the file system), locks of
  the operating system, HTTP handlers, model and speech clients, configuration, diagnostics, metrics,
  the command line, and the application services that only wire these together. The strict JSON reader
  and the parsers of model output wrap \<^verbatim>\<open>encoding/json\<close>. Goroutines, timers and channels of the projection
  coordinator are left out: its operations are atomic under its locks.
\<close>

end
